(* ===== verification/Prelude.thy ===== *)
theory Prelude
  imports
    "HOL-Library.Word" "HOL-Library.List_Lexorder" "HOL-Library.Char_ord"
    "HOL-Library.Product_Lexorder" "HOL-Library.Multiset" "HOL-Library.Sublist"
begin

text \<open>
  The shared prelude: the machine types of the Rust sources, saturating arithmetic at its
  width with its reading in \<^typ>\<open>nat\<close>, folds of saturating additions, stable sorting by a
  key, byte strings with the few string routines of the standard library that the sources
  use, decimal printing, and the collections of simplification rules that the component
  theories extend.

  A Rust \<open>String\<close> is the list of its UTF-8 bytes, so \<open>len()\<close> is \<^const>\<open>length\<close> and the
  order on strings is the lexicographic order of bytes (\<open>List_Lexorder\<close> over \<open>Char_ord\<close>).
  A tuple comparison is the lexicographic order on products (\<open>Product_Lexorder\<close>).
\<close>

section \<open>Machine types\<close>

type_synonym u8 = "8 word"
type_synonym u32 = "32 word"
type_synonym u64 = "64 word"
type_synonym i64 = int \<comment> \<open>always read through the saturating operations below\<close>

named_theorems sat_unat \<open>saturating and percentage arithmetic read in nat\<close>
named_theorems enum_simps \<open>unfolding of the finite enumerations of the sources\<close>

section \<open>Saturating arithmetic\<close>

text \<open>\<open>saturating_add\<close> and \<open>saturating_sub\<close> of the unsigned types. The overflow test is the
  carry test on the wrapped sum.\<close>

definition sat_add :: "'a::len word \<Rightarrow> 'a word \<Rightarrow> 'a word" where
  "sat_add a b = (if a + b < a then - 1 else a + b)"

definition sat_sub :: "'a::len word \<Rightarrow> 'a word \<Rightarrow> 'a word" where
  "sat_sub a b = (if a \<le> b then 0 else a - b)"

definition sat_mul :: "'a::len word \<Rightarrow> 'a word \<Rightarrow> 'a word" where
  "sat_mul a b = (if uint a * uint b < 2 ^ LENGTH('a) then a * b else - 1)"

text \<open>\<open>checked_add\<close>.\<close>

definition checked_add :: "'a::len word \<Rightarrow> 'a word \<Rightarrow> 'a word option" where
  "checked_add a b = (if a + b < a then None else Some (a + b))"

text \<open>\<open>iter().fold(0, u32::saturating_add)\<close>.\<close>

definition sat_sum :: "'a::len word list \<Rightarrow> 'a word" where
  "sat_sum xs = fold (\<lambda>x acc. sat_add acc x) xs 0"

text \<open>\<open>saturating_add\<close> and \<open>saturating_sub\<close> of \<open>i64\<close>.\<close>

definition i64_min :: int where "i64_min = - 9223372036854775808"

definition i64_max :: int where "i64_max = 9223372036854775807"

definition i64_clamp :: "int \<Rightarrow> i64" where
  "i64_clamp x = max i64_min (min i64_max x)"

definition i64_sat_add :: "i64 \<Rightarrow> i64 \<Rightarrow> i64" where
  "i64_sat_add a b = i64_clamp (a + b)"

definition i64_sat_sub :: "i64 \<Rightarrow> i64 \<Rightarrow> i64" where
  "i64_sat_sub a b = i64_clamp (a - b)"

text \<open>\<open>((u64::from(value) * u64::from(percent)) / 100) as u32\<close>, the percentage both
  \<open>budget.rs\<close> and \<open>profile.rs\<close> compute.\<close>

definition percent_u32 :: "u32 \<Rightarrow> u32 \<Rightarrow> u32" where
  "percent_u32 v p = ucast ((ucast v * ucast p :: u64) div 100)"

section \<open>Strings\<close>

fun is_prefix_of :: "string \<Rightarrow> string \<Rightarrow> bool" where
  "is_prefix_of [] ys = True"
| "is_prefix_of (x # xs) [] = False"
| "is_prefix_of (x # xs) (y # ys) = (x = y \<and> is_prefix_of xs ys)"

text \<open>\<open>str::contains\<close> with a string pattern.\<close>

fun str_contains :: "string \<Rightarrow> string \<Rightarrow> bool" where
  "str_contains [] pat = (pat = [])"
| "str_contains (x # xs) pat = (is_prefix_of pat (x # xs) \<or> str_contains xs pat)"

text \<open>\<open>[String]::join\<close>.\<close>

fun str_join :: "string \<Rightarrow> string list \<Rightarrow> string" where
  "str_join sep [] = []"
| "str_join sep [x] = x"
| "str_join sep (x # y # zs) = x @ sep @ str_join sep (y # zs)"

text \<open>Decimal printing of unsigned numbers, as \<open>Display\<close> prints them.\<close>

definition digit_char :: "nat \<Rightarrow> char" where
  "digit_char d = char_of (48 + d)"

fun show_nat :: "nat \<Rightarrow> string" where
  "show_nat n = (if n < 10 then [digit_char n] else show_nat (n div 10) @ [digit_char (n mod 10)])"

declare show_nat.simps [simp del]

definition show_word :: "'a::len word \<Rightarrow> string" where
  "show_word w = show_nat (unat w)"

text \<open>\<open>chars().take(n)\<close> on UTF-8 bytes: a continuation byte belongs to the character before it.\<close>

definition is_continuation :: "char \<Rightarrow> bool" where
  "is_continuation c \<longleftrightarrow> (of_char c :: nat) div 64 = 2"

fun take_chars :: "nat \<Rightarrow> string \<Rightarrow> string" where
  "take_chars n [] = []"
| "take_chars n (c # cs) =
     (if is_continuation c then c # take_chars n cs
      else (case n of 0 \<Rightarrow> [] | Suc m \<Rightarrow> c # take_chars m cs))"

text \<open>\<open>iter_mut().find(p)\<close> followed by an update of the element found.\<close>

fun update_first :: "('a \<Rightarrow> bool) \<Rightarrow> ('a \<Rightarrow> 'a) \<Rightarrow> 'a list \<Rightarrow> 'a list" where
  "update_first p f [] = []"
| "update_first p f (x # xs) = (if p x then f x # xs else x # update_first p f xs)"

definition newline :: string where "newline = [CHR 0x0A]"

section \<open>Saturating arithmetic read in nat\<close>

lemma unat_sat_add [sat_unat]:
  "unat (sat_add a b) = min (unat a + unat b) (2 ^ LENGTH('a) - 1)" for a b :: "'a::len word"
proof (cases "unat a + unat b < 2 ^ LENGTH('a)")
  case True
  then have "\<not> a + b < a" and "unat (a + b) = unat a + unat b"
    by (simp_all add: unat_word_ariths word_less_nat_alt)
  then show ?thesis using True by (simp add: sat_add_def)
next
  case False
  then have "a + b < a"
    using no_plus_overflow_unat_size [of a b] by (simp add: word_size not_le)
  then show ?thesis using False by (simp add: sat_add_def unsigned_minus_1_eq_mask mask_eq_exp_minus_1)
qed

lemma unat_sat_sub [sat_unat]: "unat (sat_sub a b) = unat a - unat b"
  by (auto simp: sat_sub_def word_le_nat_alt unat_sub not_le)

lemma sat_add_0 [simp]: "sat_add a 0 = a" "sat_add 0 a = a"
  by (auto simp: sat_add_def)

lemma unat_inject: "unat a = unat b \<Longrightarrow> a = b"
  by (simp add: word_unat_eq_iff)

lemma sat_add_commute: "sat_add a b = sat_add b a"
  by (rule unat_inject) (simp add: unat_sat_add add.commute)

lemma unat_le_max: "unat (a :: 'a::len word) \<le> 2 ^ LENGTH('a) - 1"
  using unsigned_less [of a, where 'a = nat] by linarith

lemma unat_fold_sat_add:
  "unat (fold (\<lambda>x acc. sat_add acc x) xs a) = min (unat a + sum_list (map unat xs)) (2 ^ LENGTH('a) - 1)"
  for a :: "'a::len word"
  by (induction xs arbitrary: a) (use unat_le_max in \<open>auto simp: unat_sat_add min_def\<close>)

lemma unat_sat_sum [sat_unat]:
  "unat (sat_sum xs) = min (sum_list (map unat xs)) (2 ^ LENGTH('a) - 1)" for xs :: "'a::len word list"
  by (simp add: sat_sum_def unat_fold_sat_add)

lemma unat_max [sat_unat]: "unat (max a b) = max (unat a) (unat b)" for a b :: "'a::len word"
  by (simp add: max_def word_le_nat_alt)

lemma unat_min [sat_unat]: "unat (min a b) = min (unat a) (unat b)" for a b :: "'a::len word"
  by (simp add: min_def word_le_nat_alt)

lemma unat_add_small: "unat a + unat b < 2 ^ LENGTH('a) \<Longrightarrow> unat (a + b) = unat a + unat b"
  for a b :: "'a::len word"
  by (simp add: unat_word_ariths)

lemma sat_sum_Nil [simp]: "sat_sum [] = 0"
  by (simp add: sat_sum_def)

lemma sat_sum_perm: "mset xs = mset ys \<Longrightarrow> sat_sum xs = sat_sum ys"
  by (rule unat_inject) (simp add: unat_sat_sum sum_mset_sum_list [symmetric])

lemma min_add_assoc: "min (min (a + b) m + c) m = min (a + min (b + c) m) m" for a b c m :: nat
  by (simp add: min_def)

lemma sat_add_assoc: "sat_add (sat_add a b) c = sat_add a (sat_add b c)" for a b c :: "'a::len word"
  by (intro unat_inject) (simp only: unat_sat_add min_add_assoc)

lemma sat_sum_append: "sat_sum (xs @ ys) = sat_add (sat_sum xs) (sat_sum ys)"
  by (rule unat_inject) (auto simp: sat_unat min_def)

lemma sat_sum_Cons: "sat_sum (x # xs) = sat_add x (sat_sum xs)"
  using sat_sum_append [of "[x]" xs] by (simp add: sat_sum_def)

lemma sat_add_le_iff:
  "unat b < 2 ^ LENGTH('a) - 1 \<Longrightarrow> unat (sat_add x y) \<le> unat b \<longleftrightarrow> unat x + unat y \<le> unat b"
  for x y b :: "'a::len word"
  by (auto simp: unat_sat_add min_def)

lemma unat_percent_u32 [sat_unat]:
  assumes "unat p \<le> 100"
  shows "unat (percent_u32 v p) = unat v * unat p div 100"
proof -
  have v: "unat v < 2 ^ 32" using unsigned_less [of v, where 'a = nat] by simp
  with assms have le: "unat v * unat p \<le> (2 ^ 32 - 1) * 100"
    by (intro mult_le_mono) auto
  have "unat (ucast v :: u64) = unat v" "unat (ucast p :: u64) = unat p"
    using v assms by (simp_all add: unsigned_ucast_eq take_bit_nat_eq_self)
  then have m: "unat (ucast v * ucast p :: u64) = unat v * unat p"
    using le by (simp add: unat_word_ariths)
  have "unat v * unat p div 100 < 2 ^ 32" using le by simp
  then show ?thesis
    by (simp add: percent_u32_def unsigned_ucast_eq take_bit_nat_eq_self unat_div m)
qed

lemma unat_sat_mul [sat_unat]:
  "unat (sat_mul a b) = min (unat a * unat b) (2 ^ LENGTH('a) - 1)" for a b :: "'a::len word"
proof -
  have "int m < 2 ^ n \<longleftrightarrow> m < 2 ^ n" for m n by (metis of_nat_less_iff of_nat_numeral of_nat_power)
  from this [of "unat a * unat b" "LENGTH('a)"]
  have "uint a * uint b < 2 ^ LENGTH('a) \<longleftrightarrow> unat a * unat b < 2 ^ LENGTH('a)" by simp
  then show ?thesis
    by (cases "unat a * unat b < 2 ^ LENGTH('a)")
      (simp_all add: sat_mul_def unat_word_ariths unsigned_minus_1_eq_mask mask_eq_exp_minus_1)
qed

lemma checked_add_SomeD: "checked_add a b = Some c \<Longrightarrow> unat c = unat a + unat b"
  for a b :: "'a::len word"
  using no_plus_overflow_unat_size [of a b]
  by (auto simp: checked_add_def word_size not_less unat_word_ariths split: if_splits)

section \<open>Operations in sequence\<close>

text \<open>A component is a state with operations; a sequence of calls is the run of its operations. What every operation
  keeps holds after every run.\<close>

fun run_ops :: "('op \<Rightarrow> 's \<Rightarrow> 'r \<times> 's) \<Rightarrow> 'op list \<Rightarrow> 's \<Rightarrow> 's" where
  "run_ops step [] s = s"
| "run_ops step (op # ops) s = run_ops step ops (snd (step op s))"

locale op_invariant =
  fixes step :: "'op \<Rightarrow> 's \<Rightarrow> 'r \<times> 's" and ok :: "'s \<Rightarrow> bool"
  assumes keeps: "ok s \<Longrightarrow> ok (snd (step op s))"
begin

lemma run_keeps: "ok s \<Longrightarrow> ok (run_ops step ops s)"
  by (induction ops arbitrary: s) (simp_all add: keeps)

end

section \<open>Lists\<close>

lemma sum_list_filter_le_nat: "sum_list (map f (filter P xs)) \<le> sum_list (map f xs)"
  for f :: "'a \<Rightarrow> nat"
  by (induction xs) auto

lemma sum_list_filter_mono_nat:
  "(\<And>x. x \<in> set xs \<Longrightarrow> P x \<Longrightarrow> Q x) \<Longrightarrow>
   sum_list (map f (filter P xs)) \<le> sum_list (map f (filter Q xs))" for f :: "'a \<Rightarrow> nat"
  by (induction xs) (auto intro: le_SucI add_mono trans_le_add2)

lemma sort_key_all_equal: "(\<And>x. x \<in> set xs \<Longrightarrow> g x = c) \<Longrightarrow> sort_key g xs = xs"
  by (rule sort_key_id_if_sorted) (induction xs, auto)

lemma filter_sort_key: "filter P (sort_key f xs) = sort_key f (filter P xs)"
  by (rule filter_sort)

lemma distinct_map_nth_unique:
  "distinct (map f xs) \<Longrightarrow> x \<in> set xs \<Longrightarrow> y \<in> set xs \<Longrightarrow> f x = f y \<Longrightarrow> x = y"
  by (auto simp: distinct_map dest: inj_onD)

text \<open>With distinct keys, updating the first element with a key is updating the element with it.\<close>

lemma update_first_distinct:
  "distinct (map k xs) \<Longrightarrow> update_first (\<lambda>x. k x = a) f xs = map (\<lambda>x. if k x = a then f x else x) xs"
proof (induction xs)
  case (Cons x xs)
  show ?case
  proof (cases "k x = a")
    case True
    then have "map (\<lambda>x. if k x = a then f x else x) xs = xs"
      using Cons.prems by (intro map_idI) (metis distinct.simps(2) image_eqI list.simps(9) set_map)
    then show ?thesis using True by simp
  qed (use Cons in simp)
qed simp

lemma update_first_map:
  "(\<And>x. g (f x) = g x) \<Longrightarrow> map g (update_first p f xs) = map g xs"
  by (induction xs) auto

lemma length_update_first [simp]: "length (update_first p f xs) = length xs"
  by (induction xs) auto

lemma set_update_first: "y \<in> set (update_first p f xs) \<Longrightarrow> y \<in> set xs \<or> (\<exists>x\<in>set xs. p x \<and> y = f x)"
  by (induction xs) (auto split: if_splits)

lemma find_distinct:
  "distinct (map k xs) \<Longrightarrow> x \<in> set xs \<Longrightarrow> List.find (\<lambda>y. k y = k x) xs = Some x"
  by (induction xs) (auto split: if_splits)

text \<open>With keys that tell the elements apart, a sorted list does not depend on the order of its input.\<close>

lemma sort_key_canonical:
  fixes k :: "'a \<Rightarrow> 'k::linorder"
  assumes "mset xs = mset ys" "inj_on k (set xs)"
  shows "sort_key k xs = sort_key k ys"
proof (rule properties_for_sort_key)
  fix a assume a: "a \<in> set (sort_key k ys)"
  have set: "set ys = set xs" using assms(1) by (metis set_mset_mset)
  have one: "filter (\<lambda>x. k a = k x) zs = replicate (count (mset zs) a) a"
    if "set zs = set xs" for zs
  proof -
    have "filter (\<lambda>x. k a = k x) zs = filter (\<lambda>x. x = a) zs"
      using assms(2) a set that by (intro filter_cong) (auto dest: inj_onD)
    also have "\<dots> = replicate (count (mset zs) a) a"
      by (induction zs) auto
    finally show ?thesis .
  qed
  show "filter (\<lambda>x. k a = k x) (sort_key k ys) = filter (\<lambda>x. k a = k x) xs"
    using one [of "sort_key k ys"] one [of xs] assms(1) set by simp
qed (use assms in auto)

section \<open>Decimal printing is injective\<close>

definition parse_nat :: "string \<Rightarrow> nat" where
  "parse_nat s = foldl (\<lambda>a c. a * 10 + (of_char c - 48)) 0 s"

lemma of_char_digit: "d < 10 \<Longrightarrow> of_char (digit_char d) = 48 + d"
  by (simp add: digit_char_def)

lemma parse_show_nat: "parse_nat (show_nat n) = n"
proof (induction n rule: show_nat.induct)
  case (1 n)
  show ?case
  proof (cases "n < 10")
    case True
    then show ?thesis by (subst show_nat.simps) (simp add: parse_nat_def of_char_digit)
  next
    case False
    then have "parse_nat (show_nat n) = parse_nat (show_nat (n div 10)) * 10 + n mod 10"
      by (subst show_nat.simps) (simp add: parse_nat_def of_char_digit)
    with 1 False show ?thesis by simp
  qed
qed

lemma show_nat_inj: "show_nat m = show_nat n \<Longrightarrow> m = n"
  by (metis parse_show_nat)

lemma show_word_inj: "show_word v = show_word w \<Longrightarrow> v = w"
  by (rule unat_inject) (auto simp: show_word_def intro: show_nat_inj)

lemma show_nat_digits: "c \<in> set (show_nat n) \<Longrightarrow> \<exists>d<10. c = digit_char d"
proof (induction n rule: show_nat.induct)
  case (1 n)
  then show ?case
    by (cases "n < 10") (subst (asm) (2) show_nat.simps, auto intro: exI [of _ "n mod 10"])+
qed

lemma digit_char_neq: "d < 10 \<Longrightarrow> digit_char d \<noteq> CHR '':''" "d < 10 \<Longrightarrow> digit_char d \<noteq> CHR 0x0A"
  by (auto dest!: arg_cong [of _ _ "of_char :: char \<Rightarrow> nat"] simp: of_char_digit)

lemma show_nat_no_sep: "CHR '':'' \<notin> set (show_nat n)" "CHR 0x0A \<notin> set (show_nat n)"
  by (metis show_nat_digits digit_char_neq(1)) (metis show_nat_digits digit_char_neq(2))

end
