(* ===== verification/Unicode_Text.thy ===== *)
theory Unicode_Text
  imports Prelude
begin

text \<open>
  Text as the Rust standard library sees it: the characters of a UTF-8 string, splitting and trimming. A
  character is the list of its UTF-8 bytes. The Unicode tables behind \<open>is_alphanumeric\<close>,
  \<open>is_alphabetic\<close>, \<open>is_whitespace\<close> and \<open>to_lowercase\<close> are an argument, the record \<open>unicode\<close>.
\<close>

record unicode =
  uc_is_alphanumeric :: "string \<Rightarrow> bool"
  uc_is_alphabetic :: "string \<Rightarrow> bool"
  uc_is_whitespace :: "string \<Rightarrow> bool"
  uc_to_lowercase :: "string \<Rightarrow> string"

lemma length_dropWhile_less [termination_simp]: "length (dropWhile P xs) < Suc (length xs)"
  by (simp add: length_dropWhile_le less_Suc_eq_le)

text \<open>\<open>chars()\<close>: a byte that is not a continuation opens a character.\<close>

fun utf8_chars :: "string \<Rightarrow> string list" where
  "utf8_chars [] = []"
| "utf8_chars (c # cs) = (c # takeWhile is_continuation cs) # utf8_chars (dropWhile is_continuation cs)"

text \<open>\<open>char::is_control\<close>: the code points 0 to 1F and 7F to 9F.\<close>

definition char_is_control :: "string \<Rightarrow> bool" where
  "char_is_control c =
     (case map of_char c :: int list of
        [a] \<Rightarrow> a < 32 \<or> a = 127
      | [a, b] \<Rightarrow> a = 194 \<and> 128 \<le> b \<and> b < 160
      | _ \<Rightarrow> False)"

text \<open>\<open>split\<close> at every character that satisfies the predicate.\<close>

fun split_chars :: "(string \<Rightarrow> bool) \<Rightarrow> string list \<Rightarrow> string list \<Rightarrow> string list" where
  "split_chars p [] current = [concat current]"
| "split_chars p (c # cs) current =
     (if p c then concat current # split_chars p cs [] else split_chars p cs (current @ [c]))"

definition split_whitespace :: "unicode \<Rightarrow> string \<Rightarrow> string list" where
  "split_whitespace U text = filter (\<lambda>t. t \<noteq> []) (split_chars (uc_is_whitespace U) (utf8_chars text) [])"

definition trim_end_matches :: "(char \<Rightarrow> bool) \<Rightarrow> string \<Rightarrow> string" where
  "trim_end_matches p s = rev (dropWhile p (rev s))"

definition trim_matches :: "(char \<Rightarrow> bool) \<Rightarrow> string \<Rightarrow> string" where
  "trim_matches p s = trim_end_matches p (dropWhile p s)"

text \<open>\<open>str::trim\<close>.\<close>

definition str_trim :: "unicode \<Rightarrow> string \<Rightarrow> string" where
  "str_trim U s = concat (rev (dropWhile (uc_is_whitespace U) (rev (dropWhile (uc_is_whitespace U) (utf8_chars s)))))"

text \<open>\<open>str::starts_with\<close> is \<^const>\<open>is_prefix_of\<close>; \<open>str::strip_prefix\<close> follows.\<close>

definition strip_prefix :: "string \<Rightarrow> string \<Rightarrow> string option" where
  "strip_prefix pre s = (if is_prefix_of pre s then Some (drop (length pre) s) else None)"

text \<open>\<open>str::ends_with\<close>, and \<open>to_ascii_lowercase\<close> of a byte and of a string.\<close>

definition ends_with :: "string \<Rightarrow> string \<Rightarrow> bool" where
  "ends_with s suf \<longleftrightarrow> is_prefix_of (rev suf) (rev s)"

definition ascii_lowercase :: "char \<Rightarrow> char" where
  "ascii_lowercase c = (if CHR ''A'' \<le> c \<and> c \<le> CHR ''Z'' then char_of (of_char c + 32 :: nat) else c)"

definition to_ascii_lowercase :: "string \<Rightarrow> string" where
  "to_ascii_lowercase s = map ascii_lowercase s"

definition plain_unicode :: unicode where
  "plain_unicode = \<lparr>uc_is_alphanumeric = (\<lambda>_. True), uc_is_alphabetic = (\<lambda>_. True),
     uc_is_whitespace = (\<lambda>c. c = '' ''), uc_to_lowercase = id\<rparr>"

lemma utf8_chars_Nil [simp]: "utf8_chars s = [] \<longleftrightarrow> s = []"
  by (cases s) simp_all

lemma concat_utf8_chars: "concat (utf8_chars s) = s"
  by (induction s rule: utf8_chars.induct) simp_all

end
