(* ===== verification/Context_Item.thy ===== *)
theory Context_Item
  imports Prelude
begin

text \<open>
  \<open>crates/context-budget/src/item.rs\<close>: the context item with its attributes, the enumerations
  it is built from, the reference table of drop reasons, the builder, and the derived
  attributes the planner decides by (effective priority, expiry, mandatory kind, drop order).

  Field names carry the prefix \<open>ci_\<close>, since several structures of the sources share names.
\<close>

section \<open>Enumerations\<close>

datatype item_kind =
    SafetyPolicy | ApprovalPolicy | SystemInstruction | UserPrompt | UserConstraint
  | PendingToolCall | Cancellation | Memory | Decision | Scratchpad | History
  | ToolResult | ToolSchema | Evidence | Summary

fun item_kind_as_str :: "item_kind \<Rightarrow> string" where
  "item_kind_as_str SafetyPolicy = ''safety_policy''"
| "item_kind_as_str ApprovalPolicy = ''approval_policy''"
| "item_kind_as_str SystemInstruction = ''system_instruction''"
| "item_kind_as_str UserPrompt = ''user_prompt''"
| "item_kind_as_str UserConstraint = ''user_constraint''"
| "item_kind_as_str PendingToolCall = ''pending_tool_call''"
| "item_kind_as_str Cancellation = ''cancellation''"
| "item_kind_as_str Memory = ''memory''"
| "item_kind_as_str Decision = ''decision''"
| "item_kind_as_str Scratchpad = ''scratchpad''"
| "item_kind_as_str History = ''history''"
| "item_kind_as_str ToolResult = ''tool_result''"
| "item_kind_as_str ToolSchema = ''tool_schema''"
| "item_kind_as_str Evidence = ''evidence''"
| "item_kind_as_str Summary = ''summary''"

datatype budget_category =
  CatSystem | CatUser | CatMemory | CatTools | CatHistory | CatScratchpad | CatOutput

fun item_kind_category :: "item_kind \<Rightarrow> budget_category" where
  "item_kind_category SafetyPolicy = CatSystem"
| "item_kind_category ApprovalPolicy = CatSystem"
| "item_kind_category SystemInstruction = CatSystem"
| "item_kind_category Cancellation = CatSystem"
| "item_kind_category UserPrompt = CatUser"
| "item_kind_category UserConstraint = CatUser"
| "item_kind_category Memory = CatMemory"
| "item_kind_category Evidence = CatMemory"
| "item_kind_category ToolSchema = CatTools"
| "item_kind_category History = CatHistory"
| "item_kind_category ToolResult = CatHistory"
| "item_kind_category PendingToolCall = CatHistory"
| "item_kind_category Summary = CatHistory"
| "item_kind_category Scratchpad = CatScratchpad"
| "item_kind_category Decision = CatScratchpad"

fun budget_category_as_str :: "budget_category \<Rightarrow> string" where
  "budget_category_as_str CatSystem = ''system''"
| "budget_category_as_str CatUser = ''user''"
| "budget_category_as_str CatMemory = ''memory''"
| "budget_category_as_str CatTools = ''tools''"
| "budget_category_as_str CatHistory = ''history''"
| "budget_category_as_str CatScratchpad = ''scratchpad''"
| "budget_category_as_str CatOutput = ''output''"

definition budget_category_all :: "budget_category list" where
  "budget_category_all =
     [CatSystem, CatUser, CatMemory, CatTools, CatHistory, CatScratchpad, CatOutput]"

datatype trust = TrustUnverified | TrustExternal | TrustConfirmed | TrustCoreOwned

fun trust_as_str :: "trust \<Rightarrow> string" where
  "trust_as_str TrustUnverified = ''unverified''"
| "trust_as_str TrustExternal = ''external''"
| "trust_as_str TrustConfirmed = ''confirmed''"
| "trust_as_str TrustCoreOwned = ''core_owned''"

datatype privacy = PrivWorkspace | PrivSensitive | PrivSecret

fun privacy_as_str :: "privacy \<Rightarrow> string" where
  "privacy_as_str PrivWorkspace = ''workspace''"
| "privacy_as_str PrivSensitive = ''sensitive''"
| "privacy_as_str PrivSecret = ''secret''"

definition allows_offload :: "privacy \<Rightarrow> bool" where
  "allows_offload p \<longleftrightarrow> p = PrivWorkspace"

datatype scratchpad_status = StDraft | StConfirmed | StRecovered

fun scratchpad_status_as_str :: "scratchpad_status \<Rightarrow> string" where
  "scratchpad_status_as_str StDraft = ''draft''"
| "scratchpad_status_as_str StConfirmed = ''confirmed''"
| "scratchpad_status_as_str StRecovered = ''recovered''"

datatype drop_reason =
    OverBudget | LowPriority | Duplicate | Superseded | Expired | Unverified | Offloaded
  | StaleToolOutput | PrivacyRestricted | InvalidToolState | PolicyDenied | Unknown

fun drop_reason_as_str :: "drop_reason \<Rightarrow> string" where
  "drop_reason_as_str OverBudget = ''over_budget''"
| "drop_reason_as_str LowPriority = ''low_priority''"
| "drop_reason_as_str Duplicate = ''duplicate''"
| "drop_reason_as_str Superseded = ''superseded''"
| "drop_reason_as_str Expired = ''expired''"
| "drop_reason_as_str Unverified = ''unverified''"
| "drop_reason_as_str Offloaded = ''offloaded''"
| "drop_reason_as_str StaleToolOutput = ''stale_tool_output''"
| "drop_reason_as_str PrivacyRestricted = ''privacy_restricted''"
| "drop_reason_as_str InvalidToolState = ''invalid_tool_state''"
| "drop_reason_as_str PolicyDenied = ''policy_denied''"
| "drop_reason_as_str Unknown = ''unknown''"

definition drop_reason_parse :: "string \<Rightarrow> drop_reason" where
  "drop_reason_parse value =
     (if value = ''over_budget'' then OverBudget
      else if value = ''low_priority'' then LowPriority
      else if value = ''duplicate'' then Duplicate
      else if value = ''superseded'' then Superseded
      else if value = ''expired'' then Expired
      else if value = ''unverified'' then Unverified
      else if value = ''offloaded'' then Offloaded
      else if value = ''stale_tool_output'' then StaleToolOutput
      else if value = ''privacy_restricted'' then PrivacyRestricted
      else if value = ''invalid_tool_state'' then InvalidToolState
      else if value = ''policy_denied'' then PolicyDenied
      else Unknown)"

text \<open>The derived \<open>Ord\<close> of \<open>Trust\<close> and \<open>DropReason\<close> is the order of the constructors.\<close>

fun trust_rank :: "trust \<Rightarrow> nat" where
  "trust_rank TrustUnverified = 0"
| "trust_rank TrustExternal = 1"
| "trust_rank TrustConfirmed = 2"
| "trust_rank TrustCoreOwned = 3"

fun drop_reason_rank :: "drop_reason \<Rightarrow> nat" where
  "drop_reason_rank OverBudget = 0"
| "drop_reason_rank LowPriority = 1"
| "drop_reason_rank Duplicate = 2"
| "drop_reason_rank Superseded = 3"
| "drop_reason_rank Expired = 4"
| "drop_reason_rank Unverified = 5"
| "drop_reason_rank Offloaded = 6"
| "drop_reason_rank StaleToolOutput = 7"
| "drop_reason_rank PrivacyRestricted = 8"
| "drop_reason_rank InvalidToolState = 9"
| "drop_reason_rank PolicyDenied = 10"
| "drop_reason_rank Unknown = 11"

instantiation trust :: linorder
begin

definition less_eq_trust :: "trust \<Rightarrow> trust \<Rightarrow> bool" where
  "less_eq_trust a b \<longleftrightarrow> trust_rank a \<le> trust_rank b"

definition less_trust :: "trust \<Rightarrow> trust \<Rightarrow> bool" where
  "less_trust a b \<longleftrightarrow> trust_rank a < trust_rank b"

instance
proof
  fix x y :: trust
  show "x \<le> y \<Longrightarrow> y \<le> x \<Longrightarrow> x = y"
    by (cases x; cases y) (simp_all add: less_eq_trust_def)
qed (auto simp: less_eq_trust_def less_trust_def)

end

instantiation drop_reason :: linorder
begin

definition less_eq_drop_reason :: "drop_reason \<Rightarrow> drop_reason \<Rightarrow> bool" where
  "less_eq_drop_reason a b \<longleftrightarrow> drop_reason_rank a \<le> drop_reason_rank b"

definition less_drop_reason :: "drop_reason \<Rightarrow> drop_reason \<Rightarrow> bool" where
  "less_drop_reason a b \<longleftrightarrow> drop_reason_rank a < drop_reason_rank b"

instance
proof
  fix x y :: drop_reason
  show "x \<le> y \<Longrightarrow> y \<le> x \<Longrightarrow> x = y"
    by (cases x; cases y) (simp_all add: less_eq_drop_reason_def)
qed (auto simp: less_eq_drop_reason_def less_drop_reason_def)

end

section \<open>The item\<close>

record context_item =
  ci_id :: string
  ci_task_id :: string
  ci_session_id :: string
  ci_parent_id :: "string option"
  ci_kind :: item_kind
  ci_source :: string
  ci_priority :: u8
  ci_trust :: trust
  ci_privacy :: privacy
  ci_created_at :: i64
  ci_last_used_at :: i64
  ci_ttl_ms :: "i64 option"
  ci_retention_ms :: "i64 option"
  ci_pinned :: bool
  ci_version :: u32
  ci_tokenizer_version :: string
  ci_content_hash :: string
  ci_bytes :: u64
  ci_estimated_tokens :: u32
  ci_selected :: bool
  ci_drop_reason :: "drop_reason option"
  ci_scratchpad_status :: "scratchpad_status option"
  ci_conflict_key :: "string option"
  ci_artifact_locator :: "string option"
  ci_tool_pair_complete :: bool

definition DEFAULT_LOW_PRIORITY_CUTOFF :: u8 where
  "DEFAULT_LOW_PRIORITY_CUTOFF = 30"

definition effective_priority :: "context_item \<Rightarrow> u8" where
  "effective_priority item =
     (let priority = ci_priority item;
          priority = (if ci_pinned item then max priority 90 else priority)
      in if ci_scratchpad_status item = Some StRecovered then min priority 20 else priority)"

definition ttl_expired :: "context_item \<Rightarrow> i64 \<Rightarrow> bool" where
  "ttl_expired item now =
     (case ci_ttl_ms item of None \<Rightarrow> False
      | Some ttl \<Rightarrow> now > i64_sat_add (ci_created_at item) ttl)"

definition retention_expired :: "context_item \<Rightarrow> i64 \<Rightarrow> bool" where
  "retention_expired item now =
     (case ci_retention_ms item of None \<Rightarrow> False
      | Some retention \<Rightarrow> now > i64_sat_add (ci_created_at item) retention)"

definition is_mandatory_kind :: "context_item \<Rightarrow> bool" where
  "is_mandatory_kind item \<longleftrightarrow>
     ci_kind item \<in> {SafetyPolicy, ApprovalPolicy, UserPrompt, PendingToolCall, Cancellation}"

definition drop_order_key :: "context_item \<Rightarrow> bool \<times> u8 \<times> i64 \<times> string \<times> string" where
  "drop_order_key item =
     (ci_pinned item, effective_priority item, ci_created_at item, ci_content_hash item, ci_id item)"

section \<open>The builder\<close>

definition builder_new :: "string \<Rightarrow> item_kind \<Rightarrow> string \<Rightarrow> context_item" where
  "builder_new id' kind content_hash =
     \<lparr>ci_id = id', ci_task_id = [], ci_session_id = [], ci_parent_id = None, ci_kind = kind,
      ci_source = [], ci_priority = 50, ci_trust = TrustExternal, ci_privacy = PrivWorkspace,
      ci_created_at = 0, ci_last_used_at = 0, ci_ttl_ms = None, ci_retention_ms = None,
      ci_pinned = False, ci_version = 1, ci_tokenizer_version = [],
      ci_content_hash = content_hash, ci_bytes = 0, ci_estimated_tokens = 0,
      ci_selected = False, ci_drop_reason = None, ci_scratchpad_status = None,
      ci_conflict_key = None, ci_artifact_locator = None, ci_tool_pair_complete = True\<rparr>"

definition builder_task :: "string \<Rightarrow> string \<Rightarrow> context_item \<Rightarrow> context_item" where
  "builder_task task_id session_id b = b\<lparr>ci_task_id := task_id, ci_session_id := session_id\<rparr>"

definition builder_source :: "string \<Rightarrow> context_item \<Rightarrow> context_item" where
  "builder_source src b = b\<lparr>ci_source := src\<rparr>"

definition builder_priority :: "u8 \<Rightarrow> context_item \<Rightarrow> context_item" where
  "builder_priority p b = b\<lparr>ci_priority := min p 100\<rparr>"

definition builder_trust :: "trust \<Rightarrow> context_item \<Rightarrow> context_item" where
  "builder_trust t b = b\<lparr>ci_trust := t\<rparr>"

definition builder_privacy :: "privacy \<Rightarrow> context_item \<Rightarrow> context_item" where
  "builder_privacy p b = b\<lparr>ci_privacy := p\<rparr>"

definition builder_created_at :: "i64 \<Rightarrow> context_item \<Rightarrow> context_item" where
  "builder_created_at t b = b\<lparr>ci_created_at := t, ci_last_used_at := t\<rparr>"

definition builder_ttl_ms :: "i64 \<Rightarrow> context_item \<Rightarrow> context_item" where
  "builder_ttl_ms t b = b\<lparr>ci_ttl_ms := Some t\<rparr>"

definition builder_retention_ms :: "i64 \<Rightarrow> context_item \<Rightarrow> context_item" where
  "builder_retention_ms t b = b\<lparr>ci_retention_ms := Some t\<rparr>"

definition builder_pinned :: "bool \<Rightarrow> context_item \<Rightarrow> context_item" where
  "builder_pinned p b = b\<lparr>ci_pinned := p\<rparr>"

definition builder_version :: "u32 \<Rightarrow> context_item \<Rightarrow> context_item" where
  "builder_version v b = b\<lparr>ci_version := v\<rparr>"

definition builder_parent :: "string \<Rightarrow> context_item \<Rightarrow> context_item" where
  "builder_parent p b = b\<lparr>ci_parent_id := Some p\<rparr>"

definition builder_scratchpad_status :: "scratchpad_status \<Rightarrow> context_item \<Rightarrow> context_item" where
  "builder_scratchpad_status s b = b\<lparr>ci_scratchpad_status := Some s\<rparr>"

definition builder_conflict_key :: "string \<Rightarrow> context_item \<Rightarrow> context_item" where
  "builder_conflict_key k b = b\<lparr>ci_conflict_key := Some k\<rparr>"

definition builder_tool_pair_complete :: "bool \<Rightarrow> context_item \<Rightarrow> context_item" where
  "builder_tool_pair_complete c b = b\<lparr>ci_tool_pair_complete := c\<rparr>"

definition builder_sizes :: "u64 \<Rightarrow> u32 \<Rightarrow> context_item \<Rightarrow> context_item" where
  "builder_sizes bytes tokens b = b\<lparr>ci_bytes := bytes, ci_estimated_tokens := tokens\<rparr>"

lemmas builder_defs =
  builder_new_def builder_task_def builder_source_def builder_priority_def builder_trust_def
  builder_privacy_def builder_created_at_def builder_ttl_ms_def builder_retention_ms_def
  builder_pinned_def builder_version_def builder_parent_def builder_scratchpad_status_def
  builder_conflict_key_def builder_tool_pair_complete_def builder_sizes_def

section \<open>Lemmas\<close>

text \<open>Updates of the bookkeeping fields leave the attributes that decisions read alone.\<close>

lemma is_mandatory_kind_update [simp]:
  "is_mandatory_kind (i\<lparr>ci_selected := s\<rparr>) = is_mandatory_kind i"
  "is_mandatory_kind (i\<lparr>ci_drop_reason := r\<rparr>) = is_mandatory_kind i"
  "is_mandatory_kind (i\<lparr>ci_estimated_tokens := t\<rparr>) = is_mandatory_kind i"
  "is_mandatory_kind (i\<lparr>ci_artifact_locator := l\<rparr>) = is_mandatory_kind i"
  "is_mandatory_kind (i\<lparr>ci_content_hash := h\<rparr>) = is_mandatory_kind i"
  "is_mandatory_kind (i\<lparr>ci_bytes := b\<rparr>) = is_mandatory_kind i"
  "is_mandatory_kind (i\<lparr>ci_tokenizer_version := v\<rparr>) = is_mandatory_kind i"
  by (simp_all add: is_mandatory_kind_def)

lemma effective_priority_bounded:
  "ci_priority i \<le> 100 \<Longrightarrow> effective_priority i \<le> 100"
  by (auto simp: effective_priority_def Let_def min_def max_def)

lemma mandatory_kind_category:
  "is_mandatory_kind i \<Longrightarrow> item_kind_category (ci_kind i) \<in> {CatSystem, CatUser, CatHistory}"
  by (auto simp: is_mandatory_kind_def)

lemma drop_order_key_inj: "drop_order_key i = drop_order_key j \<Longrightarrow> ci_id i = ci_id j"
  by (simp add: drop_order_key_def)

lemma pinned_dropped_last:
  "\<not> ci_pinned i \<Longrightarrow> ci_pinned j \<Longrightarrow> drop_order_key i < drop_order_key j"
  by (simp add: drop_order_key_def less_prod_def')

lemma ttl_expired_mono: "ttl_expired i now \<Longrightarrow> now \<le> later \<Longrightarrow> ttl_expired i later"
  by (auto simp: ttl_expired_def split: option.splits)

lemma item_kind_as_str_inj: "item_kind_as_str k = item_kind_as_str l \<Longrightarrow> k = l"
  by (cases k; cases l) simp_all

end
