(* ===== verification/Content_Hash.thy ===== *)
theory Content_Hash
  imports Context_Item
begin

text \<open>
  \<open>crates/context-budget/src/hash.rs\<close>: text normalisation, canonical JSON and the content hash.

  Code outside the repository is an argument, collected in the record \<open>ext\<close>: Unicode NFC
  (\<open>unicode-normalization\<close>), SHA-256 in hexadecimal (\<open>sha2\<close>), JSON parsing and string escaping
  (\<open>serde_json\<close>), and the two facts \<open>canonical_number\<close> reads off an \<open>f64\<close> (given by its bits).
  The characters the normaliser looks at are ASCII and no UTF-8 continuation byte is, so the
  loop over \<open>char\<close>s is the loop over bytes.
\<close>

section \<open>JSON values and the outside code\<close>

datatype json_number = JPosInt u64 | JNegInt i64 | JFloat u64

datatype json =
    JNull
  | JBool bool
  | JNumber json_number
  | JString string
  | JArray "json list"
  | JObject "(string \<times> json) list"

record ext =
  ext_nfc :: "string \<Rightarrow> string"
  ext_sha256_hex :: "string \<Rightarrow> string"
  ext_json_parse :: "string \<Rightarrow> json option"
  ext_json_escape :: "string \<Rightarrow> string"
  ext_f64_as_int :: "u64 \<Rightarrow> int option" \<comment> \<open>finite, no fraction, below 2^53 in magnitude\<close>
  ext_f64_display :: "u64 \<Rightarrow> string"

section \<open>Text normalisation\<close>

definition CR :: char where "CR = CHR 0x0D"

definition LF :: char where "LF = CHR 0x0A"

definition is_line_space :: "char \<Rightarrow> bool" where
  "is_line_space c \<longleftrightarrow> c \<in> {CHR 0x20, CHR 0x09, CHR 0x0B, CHR 0x0C}"

text \<open>The loop of \<open>normalize_text\<close> over the output buffer and \<open>line_end\<close>, the length up to which
  the buffer is kept when the current line ends.\<close>

function normalize_loop :: "string \<Rightarrow> nat \<Rightarrow> string \<Rightarrow> string" where
  "normalize_loop out line_end [] = take line_end out"
| "normalize_loop out line_end (ch # chars) =
     (if ch = CR \<or> ch = LF
      then let rest = (if ch = CR \<and> chars \<noteq> [] \<and> hd chars = LF then tl chars else chars);
               out' = take line_end out @ [LF]
           in normalize_loop out' (length out') rest
      else let out' = out @ [ch]
           in normalize_loop out' (if is_line_space ch then line_end else length out') chars)"
  by pat_completeness auto
termination
  by (relation "measure (\<lambda>(out, line_end, chars). length chars)") auto

definition pop_newlines :: "string \<Rightarrow> string" where
  "pop_newlines s = rev (dropWhile (\<lambda>c. c = LF) (rev s))"

definition normalize_text :: "ext \<Rightarrow> string \<Rightarrow> string" where
  "normalize_text E input = pop_newlines (normalize_loop [] 0 (ext_nfc E input))"

section \<open>Canonical JSON\<close>

fun canonical_number :: "ext \<Rightarrow> json_number \<Rightarrow> string" where
  "canonical_number E (JPosInt n) = show_nat (unat n)"
| "canonical_number E (JNegInt n) = (if n < 0 then ''-'' @ show_nat (nat (- n)) else show_nat (nat n))"
| "canonical_number E (JFloat f) =
     (case ext_f64_as_int E f of
        Some i \<Rightarrow> (if i < 0 then ''-'' @ show_nat (nat (- i)) else show_nat (nat i))
      | None \<Rightarrow> ext_f64_display E f)"

fun write_canonical :: "ext \<Rightarrow> json \<Rightarrow> string" where
  "write_canonical E JNull = ''null''"
| "write_canonical E (JBool b) = (if b then ''true'' else ''false'')"
| "write_canonical E (JNumber n) = canonical_number E n"
| "write_canonical E (JString s) = ext_json_escape E (normalize_text E s)"
| "write_canonical E (JArray xs) = ''['' @ str_join '','' (map (write_canonical E) xs) @ '']''"
| "write_canonical E (JObject kvs) =
     ''{'' @ str_join '',''
       (map (\<lambda>(k, v). ext_json_escape E k @ '':'' @ v)
          (sort_key fst (map (\<lambda>kv. (normalize_text E (fst kv), write_canonical E (snd kv))) kvs))) @ ''}''"

definition canonical_json :: "ext \<Rightarrow> string \<Rightarrow> string option" where
  "canonical_json E input = map_option (write_canonical E) (ext_json_parse E input)"

section \<open>The content hash\<close>

datatype content_form = FormText string | FormJson string | FormBinary string

definition NORMALIZER_VERSION :: string where
  "NORMALIZER_VERSION = ''norm-1''"

fun normalized_bytes :: "ext \<Rightarrow> content_form \<Rightarrow> string" where
  "normalized_bytes E (FormText text) = normalize_text E text"
| "normalized_bytes E (FormJson text) =
     (case canonical_json E text of Some canonical \<Rightarrow> canonical | None \<Rightarrow> normalize_text E text)"
| "normalized_bytes E (FormBinary bytes) = bytes"

definition hash_input :: "string \<Rightarrow> string \<Rightarrow> string \<Rightarrow> string" where
  "hash_input version kind bytes = version @ [CHR 0x00] @ kind @ [CHR 0x00] @ bytes"

definition content_hash_with_version :: "ext \<Rightarrow> string \<Rightarrow> string \<Rightarrow> content_form \<Rightarrow> string" where
  "content_hash_with_version E version kind form =
     ext_sha256_hex E (hash_input version kind (normalized_bytes E form))"

definition content_hash :: "ext \<Rightarrow> string \<Rightarrow> content_form \<Rightarrow> string" where
  "content_hash E kind form =
     ext_sha256_hex E (hash_input NORMALIZER_VERSION kind (normalized_bytes E form))"

section \<open>The line pipeline as a specification of the loop\<close>

text \<open>Unify the line ends, split into lines, trim every line on the right, join, and remove the
  empty lines at the end: the pipeline that the single loop replaces.\<close>

fun unify_newlines :: "string \<Rightarrow> string" where
  "unify_newlines [] = []"
| "unify_newlines (ch # chars) =
     (if ch = CR then LF # (case chars of [] \<Rightarrow> [] | c # cs \<Rightarrow>
                              if c = LF then unify_newlines cs else unify_newlines chars)
      else ch # unify_newlines chars)"

fun split_lines :: "string \<Rightarrow> string list" where
  "split_lines [] = [[]]"
| "split_lines (ch # chars) =
     (if ch = LF then [] # split_lines chars
      else (ch # hd (split_lines chars)) # tl (split_lines chars))"

definition trim_line :: "string \<Rightarrow> string" where
  "trim_line s = rev (dropWhile is_line_space (rev s))"

definition normalize_spec :: "string \<Rightarrow> string" where
  "normalize_spec s = pop_newlines (str_join [LF] (map trim_line (split_lines (unify_newlines s))))"

section \<open>Lemmas\<close>

lemma char_consts [simp]: "CR \<noteq> LF" "LF \<noteq> CR" "\<not> is_line_space LF" "\<not> is_line_space CR"
  by (simp_all add: CR_def LF_def is_line_space_def)

lemma split_lines_not_Nil [simp]: "split_lines s \<noteq> []"
  by (cases s) auto

lemma split_lines_append:
  "LF \<notin> set line \<Longrightarrow> split_lines (line @ s) = (line @ hd (split_lines s)) # tl (split_lines s)"
  by (induction line) auto

lemma trim_line_snoc [simp]:
  "is_line_space c \<Longrightarrow> trim_line (s @ [c]) = trim_line s"
  "\<not> is_line_space c \<Longrightarrow> trim_line (s @ [c]) = s @ [c]"
  by (simp_all add: trim_line_def)

lemma trim_line_Nil [simp]: "trim_line [] = []"
  by (simp add: trim_line_def)

lemma trim_line_prefix: "take (length (trim_line s)) s = trim_line s"
proof -
  have "s = rev (dropWhile is_line_space (rev s)) @ rev (takeWhile is_line_space (rev s))"
    by (metis rev_append rev_rev_ident takeWhile_dropWhile_id)
  then show ?thesis unfolding trim_line_def by (metis append_eq_conv_conj)
qed

lemma str_join_Cons: "xs \<noteq> [] \<Longrightarrow> str_join sep (x # xs) = x @ sep @ str_join sep xs"
  by (cases xs) auto

lemma normalize_loop_lines:
  "LF \<notin> set line \<Longrightarrow>
   normalize_loop (done' @ line) (length done' + length (trim_line line)) chars =
   done' @ str_join [LF] (map trim_line (split_lines (line @ unify_newlines chars)))"
proof (induction "length chars" arbitrary: done' line chars rule: less_induct)
  case less
  have keep: "take (length done' + length (trim_line line)) (done' @ line) = done' @ trim_line line"
    by (simp add: trim_line_prefix)
  show ?case
  proof (cases chars)
    case Nil
    have "split_lines line = [line]"
      using split_lines_append [OF less.prems, of "[]"] by simp
    then show ?thesis using Nil keep by simp
  next
    case (Cons ch cs)
    define rest where "rest = (if ch = CR \<and> cs \<noteq> [] \<and> hd cs = LF then tl cs else cs)"
    show ?thesis
    proof (cases "ch = CR \<or> ch = LF")
      case True
      have un: "unify_newlines chars = LF # unify_newlines rest"
        using True Cons by (cases cs) (auto simp: rest_def)
      have "length rest < length chars" using Cons by (auto simp: rest_def)
      from less.hyps [OF this, of "[]" "done' @ trim_line line @ [LF]"]
      have IH: "normalize_loop (done' @ trim_line line @ [LF]) (length (done' @ trim_line line @ [LF])) rest
        = done' @ trim_line line @ [LF] @ str_join [LF] (map trim_line (split_lines (unify_newlines rest)))"
        by simp
      have "normalize_loop (done' @ line) (length done' + length (trim_line line)) chars
        = normalize_loop (done' @ trim_line line @ [LF]) (length (done' @ trim_line line @ [LF])) rest"
        using True Cons keep by (simp add: rest_def [symmetric] Let_def)
      then show ?thesis
        unfolding IH un using less.prems by (simp add: split_lines_append str_join_Cons)
    next
      case False
      then have "LF \<notin> set (line @ [ch])" using less.prems by auto
      moreover have "length cs < length chars" using Cons by simp
      ultimately have "normalize_loop (done' @ (line @ [ch])) (length done' + length (trim_line (line @ [ch]))) cs
        = done' @ str_join [LF] (map trim_line (split_lines ((line @ [ch]) @ unify_newlines cs)))"
        by (intro less.hyps)
      then show ?thesis using False Cons by (cases "is_line_space ch") (simp_all add: Let_def)
    qed
  qed
qed

text \<open>The one-pass normaliser computes exactly the line pipeline it replaced: unify line ends,
  trim every line on the right, join, drop empty lines at the end.\<close>

theorem normalize_text_spec: "normalize_text E input = normalize_spec (ext_nfc E input)"
  using normalize_loop_lines [of "[]" "[]" "ext_nfc E input"]
  by (simp add: normalize_text_def normalize_spec_def)

text \<open>The result is stable: no carriage return, no white space before a line end, no line end
  at the end.\<close>

lemma unify_newlines_id: "CR \<notin> set s \<Longrightarrow> unify_newlines s = s"
  by (induction s) auto

lemma unify_newlines_no_CR: "CR \<notin> set (unify_newlines s)"
  by (induction s rule: unify_newlines.induct) (auto split: list.splits)

lemma split_lines_chars: "l \<in> set (split_lines s) \<Longrightarrow> LF \<notin> set l \<and> set l \<subseteq> set s"
proof (induction s arbitrary: l)
  case (Cons c s)
  have hd: "hd (split_lines s) \<in> set (split_lines s)" by simp
  have tl: "set (tl (split_lines s)) \<subseteq> set (split_lines s)" by (simp add: list.set_sel(2) subsetI)
  show ?case
    using Cons.prems Cons.IH [OF hd] Cons.IH [of l] tl by (auto split: if_splits)
qed simp

lemma split_join_lines:
  "ls \<noteq> [] \<Longrightarrow> (\<And>l. l \<in> set ls \<Longrightarrow> LF \<notin> set l) \<Longrightarrow> split_lines (str_join [LF] ls) = ls"
proof (induction ls rule: list_nonempty_induct)
  case (single x)
  then show ?case using split_lines_append [of x "[]"] by simp
next
  case (cons x xs)
  then show ?case by (simp add: str_join_Cons split_lines_append)
qed

lemma trim_line_idem [simp]: "trim_line (trim_line s) = trim_line s"
  by (simp add: trim_line_def dropWhile_idem)

lemma set_trim_line: "set (trim_line s) \<subseteq> set s"
  unfolding trim_line_def by (auto dest: set_dropWhileD)

lemma pop_newlines_join:
  assumes "LF \<notin> set l"
  shows "pop_newlines (str_join [LF] (ls @ [l])) =
    (if l = [] then (if ls = [] then [] else pop_newlines (str_join [LF] ls)) else str_join [LF] (ls @ [l]))"
proof -
  have join: "str_join [LF] (ls @ [l]) = (if ls = [] then l else str_join [LF] ls @ [LF] @ l)"
    by (induction ls) (auto simp: str_join_Cons)
  have keep: "pop_newlines (s @ l) = s @ l" if "l \<noteq> []" for s
    using assms that by (cases l rule: rev_cases) (auto simp: pop_newlines_def)
  have "pop_newlines (s @ [LF]) = pop_newlines s" for s
    by (simp add: pop_newlines_def)
  moreover have "pop_newlines [] = []" by (simp add: pop_newlines_def)
  ultimately show ?thesis
    unfolding join using keep [of "[]"] keep [of "str_join [LF] ls @ [LF]"]
    by (cases "l = []"; cases "ls = []") simp_all
qed

text \<open>Dropping the line ends at the end drops whole empty lines.\<close>

lemma pop_newlines_lines:
  "ls \<noteq> [] \<Longrightarrow> (\<And>l. l \<in> set ls \<Longrightarrow> LF \<notin> set l) \<Longrightarrow>
   \<exists>ks. ks \<noteq> [] \<and> set ks \<subseteq> set ls \<union> {[]} \<and> pop_newlines (str_join [LF] ls) = str_join [LF] ks
     \<and> (ks = [[]] \<or> last ks \<noteq> [])"
proof (induction ls rule: rev_induct)
  case (snoc l ls)
  show ?case
  proof (cases "l = [] \<and> ls \<noteq> []")
    case True
    with snoc.IH snoc.prems obtain ks where "ks \<noteq> []" "set ks \<subseteq> set ls \<union> {[]}"
      "pop_newlines (str_join [LF] ls) = str_join [LF] ks" "ks = [[]] \<or> last ks \<noteq> []" by auto
    then show ?thesis using True snoc.prems by (intro exI [of _ ks]) (auto simp: pop_newlines_join)
  next
    case False
    then show ?thesis
      using snoc.prems by (intro exI [of _ "ls @ [l]"]) (auto simp: pop_newlines_join)
  qed
qed simp

lemma normalize_spec_lines:
  obtains ks where "ks \<noteq> []" "normalize_spec s = str_join [LF] ks" "ks = [[]] \<or> last ks \<noteq> []"
    and "\<And>k. k \<in> set ks \<Longrightarrow> LF \<notin> set k \<and> CR \<notin> set k \<and> trim_line k = k"
proof -
  let ?ls = "map trim_line (split_lines (unify_newlines s))"
  have ls: "LF \<notin> set l \<and> CR \<notin> set l \<and> trim_line l = l" if "l \<in> set ?ls" for l
  proof -
    from that obtain m where m: "l = trim_line m" "m \<in> set (split_lines (unify_newlines s))" by auto
    from split_lines_chars [OF m(2)] set_trim_line [of m] unify_newlines_no_CR [of s] show ?thesis
      unfolding m(1) by auto
  qed
  have "?ls \<noteq> []" by simp
  from pop_newlines_lines [OF this] ls obtain ks where ks: "ks \<noteq> []" "set ks \<subseteq> set ?ls \<union> {[]}"
    "pop_newlines (str_join [LF] ?ls) = str_join [LF] ks" "ks = [[]] \<or> last ks \<noteq> []"
    by blast
  show ?thesis
  proof (rule that)
    show "normalize_spec s = str_join [LF] ks" using ks(3) by (simp add: normalize_spec_def)
    show "LF \<notin> set k \<and> CR \<notin> set k \<and> trim_line k = k" if "k \<in> set ks" for k
      using that ks(2) ls [of k] by (cases "k = []") auto
  qed (rule ks)+
qed

lemma set_str_join: "set (str_join sep ls) \<subseteq> set sep \<union> (\<Union>l \<in> set ls. set l)"
  by (induction sep ls rule: str_join.induct) auto

lemma normalize_spec_idem: "normalize_spec (normalize_spec s) = normalize_spec s"
proof -
  obtain ks where ks: "ks \<noteq> []" "normalize_spec s = str_join [LF] ks" "ks = [[]] \<or> last ks \<noteq> []"
    "\<And>k. k \<in> set ks \<Longrightarrow> LF \<notin> set k \<and> CR \<notin> set k \<and> trim_line k = k"
    by (rule normalize_spec_lines [of s]) blast
  have "CR \<notin> set (str_join [LF] ks)" using set_str_join [of "[LF]" ks] ks(4) by auto
  then have "unify_newlines (str_join [LF] ks) = str_join [LF] ks" by (rule unify_newlines_id)
  moreover have "split_lines (str_join [LF] ks) = ks" using ks by (intro split_join_lines) auto
  moreover have "map trim_line ks = ks" using ks(4) by (simp add: map_idI)
  ultimately have "normalize_spec (str_join [LF] ks) = pop_newlines (str_join [LF] ks)"
    by (simp add: normalize_spec_def)
  also have "\<dots> = str_join [LF] ks"
    using ks pop_newlines_join [of "last ks" "butlast ks"] by (auto simp: append_butlast_last_id pop_newlines_def)
  finally show ?thesis by (simp add: ks(2))
qed

text \<open>Normalising a normalised text changes nothing, for every Unicode normaliser that leaves
  the normalised text alone. Equal texts up to line ends and trailing white space therefore
  have one representative.\<close>

theorem normalize_text_idempotent:
  assumes "ext_nfc E (normalize_text E input) = normalize_text E input"
  shows "normalize_text E (normalize_text E input) = normalize_text E input"
  using assms normalize_spec_idem by (simp add: normalize_text_spec)

theorem normalize_text_idempotent_witness:
  "\<exists>E. ext_nfc E (normalize_text E ''hello  '') = normalize_text E ''hello  ''
     \<and> normalize_text E (normalize_text E ''hello  '') = ''hello''"
proof -
  let ?E = "\<lparr>ext_nfc = id, ext_sha256_hex = id, ext_json_parse = (\<lambda>_. None), ext_json_escape = id,
    ext_f64_as_int = (\<lambda>_. None), ext_f64_display = (\<lambda>_. [])\<rparr>"
  have h: "ext_nfc ?E (normalize_text ?E ''hello  '') = normalize_text ?E ''hello  ''" by simp
  have "normalize_text ?E ''hello  '' = ''hello''"
    by (simp add: normalize_text_def is_line_space_def CR_def LF_def pop_newlines_def Let_def)
  with h normalize_text_idempotent [OF h] show ?thesis by metis
qed

section \<open>The hash separates kinds and contents\<close>

lemma hash_input_inj:
  assumes "hash_input v kind bytes = hash_input v kind' bytes'"
    and "CHR 0x00 \<notin> set kind" "CHR 0x00 \<notin> set kind'"
  shows "kind = kind' \<and> bytes = bytes'"
proof -
  from assms(1) have eq: "kind @ CHR 0x00 # bytes = kind' @ CHR 0x00 # bytes'"
    by (simp add: hash_input_def)
  have tw: "takeWhile (\<lambda>c. c \<noteq> CHR 0x00) (k @ CHR 0x00 # b) = k" if "CHR 0x00 \<notin> set k" for k b
    using that by (induction k) auto
  from arg_cong [OF eq, of "takeWhile (\<lambda>c. c \<noteq> CHR 0x00)"] have "kind = kind'"
    using tw assms(2,3) by simp
  with eq show ?thesis by simp
qed

lemma item_kind_as_str_no_nul: "CHR 0x00 \<notin> set (item_kind_as_str k)"
  by (cases k) simp_all

text \<open>For a collision-free digest, two items have the same content hash only if they have the
  same kind and the same normalised content: the separators keep the two parts of the hash
  input apart.\<close>

theorem content_hash_separates:
  assumes "inj_on (ext_sha256_hex E)
      {hash_input NORMALIZER_VERSION (item_kind_as_str k) (normalized_bytes E form),
       hash_input NORMALIZER_VERSION (item_kind_as_str k') (normalized_bytes E form')}"
    and "content_hash E (item_kind_as_str k) form = content_hash E (item_kind_as_str k') form'"
  shows "k = k' \<and> normalized_bytes E form = normalized_bytes E form'"
proof -
  have "hash_input NORMALIZER_VERSION (item_kind_as_str k) (normalized_bytes E form)
      = hash_input NORMALIZER_VERSION (item_kind_as_str k') (normalized_bytes E form')"
    using assms by (auto simp: content_hash_def dest: inj_onD)
  from hash_input_inj [OF this item_kind_as_str_no_nul item_kind_as_str_no_nul] show ?thesis
    by (simp add: item_kind_as_str_inj)
qed

theorem content_hash_separates_witness:
  "\<exists>E. content_hash E (item_kind_as_str History) (FormText ''a'') = content_hash E (item_kind_as_str History) (FormText ''a  '')
     \<and> normalized_bytes E (FormText ''a'') = normalized_bytes E (FormText ''a  '')"
proof -
  let ?E = "\<lparr>ext_nfc = id, ext_sha256_hex = id, ext_json_parse = (\<lambda>_. None), ext_json_escape = id,
    ext_f64_as_int = (\<lambda>_. None), ext_f64_display = (\<lambda>_. [])\<rparr>"
  have inj: "inj_on (ext_sha256_hex ?E) A" for A by (simp add: inj_on_def)
  have eq: "content_hash ?E (item_kind_as_str History) (FormText ''a'')
      = content_hash ?E (item_kind_as_str History) (FormText ''a  '')"
    by (simp add: content_hash_def normalize_text_def is_line_space_def CR_def LF_def pop_newlines_def Let_def)
  from content_hash_separates [OF inj eq] eq show ?thesis by blast
qed

text \<open>Canonical JSON does not depend on the order in which an object lists its members, as long
  as the normalised keys are distinct.\<close>

theorem write_canonical_member_order:
  assumes "mset kvs = mset kvs'" and "distinct (map (\<lambda>kv. normalize_text E (fst kv)) kvs)"
  shows "write_canonical E (JObject kvs) = write_canonical E (JObject kvs')"
proof -
  let ?f = "\<lambda>kv. (normalize_text E (fst kv), write_canonical E (snd kv))"
  have "sort_key fst (map ?f kvs) = sort_key fst (map ?f kvs')"
  proof (rule sort_key_inj_key_eq)
    show "mset (map ?f kvs) = mset (sort_key fst (map ?f kvs'))" using assms(1) by simp
    have "distinct (map fst (map ?f kvs))" using assms(2) by (simp add: comp_def)
    then show "inj_on fst (set (map ?f kvs))" by (simp only: distinct_map)
  qed simp
  then show ?thesis by simp
qed

theorem write_canonical_member_order_witness:
  "\<exists>E. write_canonical E (JObject [(''b'', JNull), (''a'', JBool True)])
     = write_canonical E (JObject [(''a'', JBool True), (''b'', JNull)])"
proof -
  let ?E = "\<lparr>ext_nfc = id, ext_sha256_hex = id, ext_json_parse = (\<lambda>_. None), ext_json_escape = id,
    ext_f64_as_int = (\<lambda>_. None), ext_f64_display = (\<lambda>_. [])\<rparr>"
  have "write_canonical ?E (JObject [(''b'', JNull), (''a'', JBool True)])
     = write_canonical ?E (JObject [(''a'', JBool True), (''b'', JNull)])"
    by (rule write_canonical_member_order)
      (simp_all add: normalize_text_def is_line_space_def CR_def LF_def pop_newlines_def Let_def)
  then show ?thesis by blast
qed

end
