(* ===== verification/Context_Profile.thy ===== *)
theory Context_Profile
  imports Context_Item
begin

text \<open>
  \<open>crates/context-budget/src/profile.rs\<close> and the catalogue data \<open>profiles.json\<close>: the model
  context profile with its validity rules, the fallback profile of an unknown model, the two
  derived profiles (scaling for the fallback estimator, re-plan after a provider error) and
  the catalogue with its overlay and longest-prefix resolution.

  Parsing the JSON text is \<open>serde_json\<close>'s work and an argument of \<open>catalog_from_json\<close>. Rust's
  unchecked \<open>+\<close> on \<open>u32\<close> in \<open>fallback\<close> is the wrapping \<open>+\<close> of the word type; the lemma
  \<open>fallback_reserves_exact\<close> shows that it never wraps.
\<close>

section \<open>The profile\<close>

record model_context_profile =
  mp_schema_version :: u32
  mp_profile_version :: string
  mp_provider :: string
  mp_model :: string
  mp_max_context_tokens :: u32
  mp_target_tokens :: u32
  mp_soft_limit_tokens :: u32
  mp_hard_limit_tokens :: u32
  mp_absolute_mvc_max_limit :: u32
  mp_tool_schema_reserve :: u32
  mp_tool_call_reserve :: u32
  mp_final_answer_reserve :: u32
  mp_streaming_reserve :: u32
  mp_retry_reserve :: u32
  mp_low_priority_cutoff :: u8
  mp_offload_threshold_bytes :: u64

datatype profile_error =
    ProfileOrdering string string
  | TargetWithReserves string u32 u32 u32
  | MvcWithReserves string u32 u32 u32

definition MODEL_CONTEXT_PROFILE_SCHEMA_VERSION :: u32 where
  "MODEL_CONTEXT_PROFILE_SCHEMA_VERSION = 1"

definition STRATEGY_VERSION :: string where
  "STRATEGY_VERSION = ''strategy-1''"

definition DEFAULT_UNKNOWN_WINDOW :: u32 where
  "DEFAULT_UNKNOWN_WINDOW = 32768"

fun profile_error_to_string :: "profile_error \<Rightarrow> string" where
  "profile_error_to_string (ProfileOrdering v detail) =
     ''profile '' @ v @ '': ordering violated ('' @ detail @ '')''"
| "profile_error_to_string (TargetWithReserves v target reserves soft) =
     ''profile '' @ v @ '': target_tokens + reserves_total > soft_limit_tokens ('' @
     show_word target @ '' + '' @ show_word reserves @ '' > '' @ show_word soft @ '')''"
| "profile_error_to_string (MvcWithReserves v mvc reserves hard) =
     ''profile '' @ v @ '': absolute_mvc_max_limit + reserves_total > hard_limit_tokens ('' @
     show_word mvc @ '' + '' @ show_word reserves @ '' > '' @ show_word hard @ '')''"

definition reserves_total :: "model_context_profile \<Rightarrow> u32" where
  "reserves_total p =
     sat_add (sat_add (sat_add (sat_add
       (mp_tool_schema_reserve p) (mp_tool_call_reserve p)) (mp_final_answer_reserve p))
       (mp_streaming_reserve p)) (mp_retry_reserve p)"

definition validate :: "model_context_profile \<Rightarrow> profile_error + unit" where
  "validate p =
     (let reserves = reserves_total p in
      if \<not> (0 < mp_target_tokens p
            \<and> mp_target_tokens p < mp_soft_limit_tokens p
            \<and> mp_soft_limit_tokens p < mp_hard_limit_tokens p
            \<and> mp_hard_limit_tokens p \<le> mp_max_context_tokens p)
      then Inl (ProfileOrdering (mp_profile_version p)
             (''0 < '' @ show_word (mp_target_tokens p) @ '' < '' @
              show_word (mp_soft_limit_tokens p) @ '' < '' @
              show_word (mp_hard_limit_tokens p) @ '' <= '' @
              show_word (mp_max_context_tokens p)))
      else if sat_add (mp_target_tokens p) reserves > mp_soft_limit_tokens p
      then Inl (TargetWithReserves (mp_profile_version p) (mp_target_tokens p) reserves
             (mp_soft_limit_tokens p))
      else if sat_add (mp_absolute_mvc_max_limit p) reserves > mp_hard_limit_tokens p
      then Inl (MvcWithReserves (mp_profile_version p) (mp_absolute_mvc_max_limit p) reserves
             (mp_hard_limit_tokens p))
      else Inr ())"

definition optional_ceiling :: "model_context_profile \<Rightarrow> u32 \<Rightarrow> u32" where
  "optional_ceiling p mandatory_tokens =
     sat_sub (sat_sub (mp_hard_limit_tokens p) (reserves_total p)) mandatory_tokens"

definition fallback_profile :: "string \<Rightarrow> string \<Rightarrow> u32 \<Rightarrow> model_context_profile" where
  "fallback_profile provider model max_context_tokens =
     (let max' = max max_context_tokens 1;
          hard = max (percent_u32 max' 85) 1;
          soft = max (percent_u32 max' 75) 1;
          tool_call_reserve = max 1024 (percent_u32 max' 1);
          final_answer_reserve = max 2048 (percent_u32 max' 4);
          streaming_reserve = 512;
          retry_reserve = 1024;
          tool_schema_reserve = min (max (percent_u32 max' 8) 1024) 8192;
          reserves = tool_schema_reserve + tool_call_reserve + final_answer_reserve
                     + streaming_reserve + retry_reserve;
          target = min (percent_u32 max' 60) (sat_sub soft reserves);
          absolute_mvc_max_limit = min (percent_u32 max' 40) (sat_sub hard reserves)
      in \<lparr>mp_schema_version = MODEL_CONTEXT_PROFILE_SCHEMA_VERSION,
          mp_profile_version = ''fallback-1/'' @ show_word max',
          mp_provider = provider,
          mp_model = model,
          mp_max_context_tokens = max',
          mp_target_tokens = target,
          mp_soft_limit_tokens = soft,
          mp_hard_limit_tokens = hard,
          mp_absolute_mvc_max_limit = absolute_mvc_max_limit,
          mp_tool_schema_reserve = tool_schema_reserve,
          mp_tool_call_reserve = tool_call_reserve,
          mp_final_answer_reserve = final_answer_reserve,
          mp_streaming_reserve = streaming_reserve,
          mp_retry_reserve = retry_reserve,
          mp_low_priority_cutoff = DEFAULT_LOW_PRIORITY_CUTOFF,
          mp_offload_threshold_bytes = 32768\<rparr>)"

definition scaled_for_fallback_estimator :: "model_context_profile \<Rightarrow> model_context_profile" where
  "scaled_for_fallback_estimator p =
     (let hard = percent_u32 (mp_hard_limit_tokens p) 70 in
      p\<lparr>mp_profile_version := mp_profile_version p @ ''+fallback-estimator'',
        mp_hard_limit_tokens := hard,
        mp_soft_limit_tokens := percent_u32 (mp_soft_limit_tokens p) 70,
        mp_target_tokens := percent_u32 (mp_target_tokens p) 70,
        mp_absolute_mvc_max_limit :=
          min (mp_absolute_mvc_max_limit p) (sat_sub hard (reserves_total p))\<rparr>)"

text \<open>\<open>replan\<close> updates one field after another; the later updates read the earlier ones, and no
  reserve changes after the two optional ones are cleared.\<close>

definition replan_profile :: "model_context_profile \<Rightarrow> u32 option \<Rightarrow> model_context_profile" where
  "replan_profile p provider_window =
     (let reduced = percent_u32 (mp_hard_limit_tokens p) 90;
          hard = max (case provider_window of Some window \<Rightarrow> min window reduced
                      | None \<Rightarrow> reduced) 1;
          next = p\<lparr>mp_profile_version := mp_profile_version p @ ''+replan'',
                   mp_hard_limit_tokens := hard,
                   mp_retry_reserve := 0,
                   mp_streaming_reserve := 0\<rparr>;
          reserves = reserves_total next;
          soft = min (mp_soft_limit_tokens p) (sat_sub hard 1);
          target = min (mp_target_tokens p) (sat_sub soft reserves);
          mvc = min (mp_absolute_mvc_max_limit p) (sat_sub hard reserves);
          max' = min (mp_max_context_tokens p)
                   (case provider_window of Some window \<Rightarrow> window
                    | None \<Rightarrow> mp_max_context_tokens p)
      in next\<lparr>mp_soft_limit_tokens := soft,
               mp_target_tokens := target,
               mp_absolute_mvc_max_limit := mvc,
               mp_max_context_tokens := max'\<rparr>)"

section \<open>The catalogue\<close>

record catalog_entry =
  ce_model_prefix :: string
  ce_profile :: model_context_profile

record profile_catalog =
  pc_entries :: "catalog_entry list"
  pc_rejected :: "(string \<times> string) list"

definition catalog_default :: profile_catalog where
  "catalog_default = \<lparr>pc_entries = [], pc_rejected = []\<rparr>"

definition catalog_push :: "profile_catalog \<Rightarrow> catalog_entry \<Rightarrow> profile_catalog" where
  "catalog_push catalog entry =
     (case validate (ce_profile entry) of
        Inr _ \<Rightarrow> catalog\<lparr>pc_entries := pc_entries catalog @ [entry]\<rparr>
      | Inl err \<Rightarrow> catalog\<lparr>pc_rejected := pc_rejected catalog @
          [(mp_profile_version (ce_profile entry), profile_error_to_string err)]\<rparr>)"

definition catalog_from_json ::
  "(string \<Rightarrow> 'e + catalog_entry list) \<Rightarrow> string \<Rightarrow> 'e + profile_catalog" where
  "catalog_from_json parse json =
     (case parse json of
        Inl err \<Rightarrow> Inl err
      | Inr entries \<Rightarrow> Inr (foldl catalog_push catalog_default entries))"

fun overlay_entry :: "catalog_entry list \<Rightarrow> catalog_entry \<Rightarrow> catalog_entry list" where
  "overlay_entry [] entry = [entry]"
| "overlay_entry (slot # slots) entry =
     (if mp_provider (ce_profile slot) = mp_provider (ce_profile entry)
         \<and> ce_model_prefix slot = ce_model_prefix entry
      then entry # slots else slot # overlay_entry slots entry)"

definition catalog_overlay :: "profile_catalog \<Rightarrow> profile_catalog \<Rightarrow> profile_catalog" where
  "catalog_overlay self other =
     self\<lparr>pc_entries := foldl overlay_entry (pc_entries self) (pc_entries other),
          pc_rejected := pc_rejected self @ pc_rejected other\<rparr>"

text \<open>\<open>Iterator::max_by_key\<close>: the last of the elements with the greatest key.\<close>

fun max_by_key :: "('a \<Rightarrow> nat) \<Rightarrow> 'a list \<Rightarrow> 'a option" where
  "max_by_key f [] = None"
| "max_by_key f (x # xs) =
     (case max_by_key f xs of None \<Rightarrow> Some x
      | Some y \<Rightarrow> Some (if f y < f x then x else y))"

definition entry_matches :: "string \<Rightarrow> string \<Rightarrow> catalog_entry \<Rightarrow> bool" where
  "entry_matches provider model entry \<longleftrightarrow>
     mp_provider (ce_profile entry) = provider
     \<and> (ce_model_prefix entry = [] \<or> is_prefix_of (ce_model_prefix entry) model)"

definition catalog_resolve ::
  "profile_catalog \<Rightarrow> string \<Rightarrow> string \<Rightarrow> u32 option \<Rightarrow> model_context_profile" where
  "catalog_resolve catalog provider model provider_window =
     (let fallback = fallback_profile provider model
            (case provider_window of Some window \<Rightarrow> window | None \<Rightarrow> DEFAULT_UNKNOWN_WINDOW)
      in case max_by_key (\<lambda>entry. length (ce_model_prefix entry))
                (filter (entry_matches provider model) (pc_entries catalog)) of
           Some entry \<Rightarrow>
             if (case provider_window of None \<Rightarrow> True
                 | Some window \<Rightarrow> window = mp_max_context_tokens (ce_profile entry))
             then (ce_profile entry)\<lparr>mp_model := model\<rparr>
             else fallback
         | None \<Rightarrow> fallback)"

text \<open>The catalogue shipped with the build, \<open>crates/context-budget/profiles.json\<close>.\<close>

definition builtin_profile ::
  "string \<Rightarrow> string \<Rightarrow> u32 \<times> u32 \<times> u32 \<times> u32 \<times> u32 \<Rightarrow> u32 \<times> u32 \<times> u32 \<times> u32 \<times> u32
   \<Rightarrow> model_context_profile" where
  "builtin_profile version provider limits reserves =
     (case limits of (mx, target, soft, hard, mvc) \<Rightarrow>
      case reserves of (schema, call, answer, streaming, retry) \<Rightarrow>
      \<lparr>mp_schema_version = 1, mp_profile_version = version, mp_provider = provider,
       mp_model = [], mp_max_context_tokens = mx, mp_target_tokens = target,
       mp_soft_limit_tokens = soft, mp_hard_limit_tokens = hard,
       mp_absolute_mvc_max_limit = mvc, mp_tool_schema_reserve = schema,
       mp_tool_call_reserve = call, mp_final_answer_reserve = answer,
       mp_streaming_reserve = streaming, mp_retry_reserve = retry,
       mp_low_priority_cutoff = 30, mp_offload_threshold_bytes = 32768\<rparr>)"

definition builtin_entries :: "catalog_entry list" where
  "builtin_entries =
    [\<lparr>ce_model_prefix = [], ce_profile = builtin_profile ''literouter-default-1'' ''literouter''
        (128000, 76800, 96000, 108800, 51200) (8192, 1024, 2048, 512, 1024)\<rparr>,
     \<lparr>ce_model_prefix = ''claude-'', ce_profile = builtin_profile ''literouter-claude-1'' ''literouter''
        (200000, 120000, 150000, 170000, 80000) (8192, 2048, 4096, 1024, 2048)\<rparr>,
     \<lparr>ce_model_prefix = ''gpt-4o'', ce_profile = builtin_profile ''literouter-gpt4o-1'' ''literouter''
        (128000, 76800, 96000, 108800, 51200) (8192, 1024, 2048, 512, 1024)\<rparr>,
     \<lparr>ce_model_prefix = [], ce_profile = builtin_profile ''openai-compatible-default-1'' ''openai_compatible''
        (128000, 76800, 96000, 108800, 51200) (8192, 1024, 2048, 512, 1024)\<rparr>,
     \<lparr>ce_model_prefix = [], ce_profile = builtin_profile ''mock-default-1'' ''mock''
        (32768, 17000, 24576, 27852, 13107) (2048, 1024, 2048, 512, 1024)\<rparr>]"

text \<open>\<open>ProfileCatalog::builtin\<close>: the parse of the embedded file, or the empty catalogue.\<close>

definition catalog_builtin :: profile_catalog where
  "catalog_builtin =
     (case catalog_from_json (\<lambda>_. Inr builtin_entries :: unit + catalog_entry list) [] of
        Inr catalog \<Rightarrow> catalog | Inl _ \<Rightarrow> catalog_default)"

section \<open>Validity read in nat\<close>

text \<open>The rules of \<open>validate\<close> over natural numbers. Only the last one can be met by saturation,
  and only when the hard limit is \<open>u32::MAX\<close>.\<close>

definition profile_ok :: "model_context_profile \<Rightarrow> bool" where
  "profile_ok p \<longleftrightarrow>
     0 < unat (mp_target_tokens p)
     \<and> unat (mp_target_tokens p) < unat (mp_soft_limit_tokens p)
     \<and> unat (mp_soft_limit_tokens p) < unat (mp_hard_limit_tokens p)
     \<and> unat (mp_hard_limit_tokens p) \<le> unat (mp_max_context_tokens p)
     \<and> unat (mp_target_tokens p) + unat (reserves_total p) \<le> unat (mp_soft_limit_tokens p)
     \<and> min (unat (mp_absolute_mvc_max_limit p) + unat (reserves_total p)) (2 ^ 32 - 1)
         \<le> unat (mp_hard_limit_tokens p)"

definition reserves_nat :: "model_context_profile \<Rightarrow> nat" where
  "reserves_nat p =
     unat (mp_tool_schema_reserve p) + unat (mp_tool_call_reserve p)
     + unat (mp_final_answer_reserve p) + unat (mp_streaming_reserve p)
     + unat (mp_retry_reserve p)"

lemma unat_reserves_total: "unat (reserves_total p) = min (reserves_nat p) (2 ^ 32 - 1)"
  by (auto simp: reserves_total_def reserves_nat_def sat_unat min_def)

lemma u32_le_max: "unat (x :: u32) \<le> 4294967295"
  using unat_le_max [of x] by simp

lemma validate_iff: "validate p = Inr () \<longleftrightarrow> profile_ok p"
  using u32_le_max [of "mp_hard_limit_tokens p"]
  by (auto simp: validate_def profile_ok_def Let_def word_less_nat_alt word_le_nat_alt sat_unat
      not_less split: if_splits)

lemma validate_Inr [simp]: "(\<exists>e. validate p = Inl e) \<longleftrightarrow> \<not> profile_ok p"
  by (cases "validate p") (auto simp: validate_iff [symmetric])

lemma profile_ok_reserves:
  assumes "profile_ok p"
  shows "unat (reserves_total p) = reserves_nat p"
    and "unat (mp_target_tokens p) + reserves_nat p \<le> unat (mp_soft_limit_tokens p)"
proof -
  from assms have "unat (reserves_total p) < 4294967295"
    using u32_le_max [of "mp_hard_limit_tokens p"] unfolding profile_ok_def by linarith
  then show "unat (reserves_total p) = reserves_nat p"
    by (simp add: unat_reserves_total min_def split: if_splits)
  with assms show "unat (mp_target_tokens p) + reserves_nat p \<le> unat (mp_soft_limit_tokens p)"
    by (simp add: profile_ok_def)
qed

text \<open>A profile that passes \<open>validate\<close> leaves room for its reserves: with the five reserves
  added without any saturation, the target fits under the soft limit, the mandatory ceiling
  fits under the hard limit (the hard limit not being \<open>u32::MAX\<close>), and the hard limit fits
  into the model's window.\<close>

theorem validate_sound:
  assumes "validate p = Inr ()" and "mp_hard_limit_tokens p \<noteq> - 1"
  shows "unat (mp_target_tokens p) + reserves_nat p \<le> unat (mp_soft_limit_tokens p)
    \<and> unat (mp_absolute_mvc_max_limit p) + reserves_nat p \<le> unat (mp_hard_limit_tokens p)
    \<and> 0 < mp_target_tokens p \<and> mp_soft_limit_tokens p < mp_hard_limit_tokens p
    \<and> mp_hard_limit_tokens p \<le> mp_max_context_tokens p"
proof -
  from assms(1) have ok: "profile_ok p" by (simp add: validate_iff)
  have "unat (mp_hard_limit_tokens p) \<noteq> unat (- 1 :: u32)"
    using assms(2) unat_inject by blast
  then have "unat (mp_hard_limit_tokens p) < 2 ^ 32 - 1"
    using u32_le_max [of "mp_hard_limit_tokens p"] by (simp add: unsigned_minus_1_eq_mask mask_eq_exp_minus_1)
  then show ?thesis
    using ok profile_ok_reserves [OF ok]
    by (auto simp: profile_ok_def word_less_nat_alt word_le_nat_alt min_def split: if_splits)
qed

theorem validate_sound_witness:
  "\<exists>p. validate p = Inr () \<and> mp_hard_limit_tokens p \<noteq> - 1
     \<and> unat (mp_target_tokens p) + reserves_nat p \<le> unat (mp_soft_limit_tokens p)"
proof -
  let ?p = "ce_profile (builtin_entries ! 1)"
  have v: "validate ?p = Inr ()" "mp_hard_limit_tokens ?p \<noteq> - 1"
    by (simp_all add: builtin_entries_def builtin_profile_def validate_def reserves_total_def sat_add_def)
  from validate_sound [OF v] v show ?thesis by blast
qed

section \<open>The fallback profile\<close>

lemmas profile_nat = word_less_nat_alt word_le_nat_alt sat_unat

text \<open>The unchecked sum of the five reserves stays below \<open>2 ^ 32\<close> for every window.\<close>

definition fallback_reserves :: "nat \<Rightarrow> nat" where
  "fallback_reserves w =
     min (max (w * 8 div 100) 1024) 8192 + max 1024 (w div 100) + max 2048 (w * 4 div 100) + 1536"

lemma fallback_reserves_bound: "w < 2 ^ 32 \<Longrightarrow> fallback_reserves w < 2 ^ 32"
  unfolding fallback_reserves_def by simp

lemma unat_sum5:
  fixes a b c d e :: u32
  assumes "unat a + unat b + unat c + unat d + unat e < 2 ^ 32"
  shows "unat (a + b + c + d + e) = unat a + unat b + unat c + unat d + unat e"
  using assms by (simp add: unat_add_small)

lemma fallback_fields:
  fixes w :: u32
  defines "n \<equiv> max (unat w) 1"
  shows "unat (mp_max_context_tokens (fallback_profile pr m w)) = n"
    and "unat (mp_hard_limit_tokens (fallback_profile pr m w)) = max (n * 85 div 100) 1"
    and "unat (mp_soft_limit_tokens (fallback_profile pr m w)) = max (n * 75 div 100) 1"
    and "reserves_nat (fallback_profile pr m w) = fallback_reserves n"
    and "unat (mp_target_tokens (fallback_profile pr m w)) =
           min (n * 60 div 100) (max (n * 75 div 100) 1 - fallback_reserves n)"
    and "unat (mp_absolute_mvc_max_limit (fallback_profile pr m w)) =
           min (n * 40 div 100) (max (n * 85 div 100) 1 - fallback_reserves n)"
proof -
  have n: "n < 2 ^ 32" using unsigned_less [of w, where 'a = nat] by (simp add: n_def)
  have mx: "unat (max w 1) = n" by (simp add: n_def unat_max)
  have pc: "unat (percent_u32 (max w 1) p) = n * unat p div 100" if "unat p \<le> 100" for p
    using unat_percent_u32 [OF that, of "max w 1"] by (simp only: mx)
  have abc: "unat (min (max (percent_u32 (max w 1) 8) 1024) 8192) = min (max (n * 8 div 100) 1024) 8192"
    "unat (max 1024 (percent_u32 (max w 1) 1)) = max 1024 (n div 100)"
    "unat (max 2048 (percent_u32 (max w 1) 4)) = max 2048 (n * 4 div 100)"
    using pc [of 8] pc [of 1] pc [of 4] by (simp_all only: unat_max unat_min) simp_all
  have hs: "unat (max (percent_u32 (max w 1) 75) 1) = max (n * 75 div 100) 1"
    "unat (max (percent_u32 (max w 1) 85) 1) = max (n * 85 div 100) 1"
    using pc [of 75] pc [of 85] by (simp_all only: unat_max) simp_all
  define A B C where "A = min (max (n * 8 div 100) 1024) 8192"
    and "B = max 1024 (n div 100)" and "C = max 2048 (n * 4 div 100)"
  note opaque = A_def [symmetric] B_def [symmetric] C_def [symmetric]
  have eqs: "mp_max_context_tokens (fallback_profile pr m w) = max w 1"
    "mp_hard_limit_tokens (fallback_profile pr m w) = max (percent_u32 (max w 1) 85) 1"
    "mp_soft_limit_tokens (fallback_profile pr m w) = max (percent_u32 (max w 1) 75) 1"
    by (simp_all only: fallback_profile_def Let_def model_context_profile.simps)
  show "unat (mp_max_context_tokens (fallback_profile pr m w)) = n"
    "unat (mp_hard_limit_tokens (fallback_profile pr m w)) = max (n * 85 div 100) 1"
    "unat (mp_soft_limit_tokens (fallback_profile pr m w)) = max (n * 75 div 100) 1"
    by (simp_all only: eqs mx hs)
  have res: "mp_tool_schema_reserve (fallback_profile pr m w) = min (max (percent_u32 (max w 1) 8) 1024) 8192"
    "mp_tool_call_reserve (fallback_profile pr m w) = max 1024 (percent_u32 (max w 1) 1)"
    "mp_final_answer_reserve (fallback_profile pr m w) = max 2048 (percent_u32 (max w 1) 4)"
    "mp_streaming_reserve (fallback_profile pr m w) = 512"
    "mp_retry_reserve (fallback_profile pr m w) = 1024"
    by (simp_all only: fallback_profile_def Let_def model_context_profile.simps)
  show "reserves_nat (fallback_profile pr m w) = fallback_reserves n"
    unfolding reserves_nat_def res abc fallback_reserves_def opaque by simp
  let ?R = "min (max (percent_u32 (max w 1) 8) 1024) 8192 + max 1024 (percent_u32 (max w 1) 1)
            + max 2048 (percent_u32 (max w 1) 4) + 512 + 1024"
  have "A + B + C + 1536 < 2 ^ 32"
    using fallback_reserves_bound [OF n] unfolding fallback_reserves_def opaque .
  then have R: "unat ?R = fallback_reserves n"
    unfolding fallback_reserves_def opaque
    by (subst unat_sum5) (simp_all add: abc [unfolded opaque])
  have "mp_target_tokens (fallback_profile pr m w) =
      min (percent_u32 (max w 1) 60) (sat_sub (max (percent_u32 (max w 1) 75) 1) ?R)"
    by (simp only: fallback_profile_def Let_def model_context_profile.simps)
  then show "unat (mp_target_tokens (fallback_profile pr m w)) =
      min (n * 60 div 100) (max (n * 75 div 100) 1 - fallback_reserves n)"
    using pc [of 60] by (simp only: unat_min unat_sat_sub R hs) simp
  have "mp_absolute_mvc_max_limit (fallback_profile pr m w) =
      min (percent_u32 (max w 1) 40) (sat_sub (max (percent_u32 (max w 1) 85) 1) ?R)"
    by (simp only: fallback_profile_def Let_def model_context_profile.simps)
  then show "unat (mp_absolute_mvc_max_limit (fallback_profile pr m w)) =
      min (n * 40 div 100) (max (n * 85 div 100) 1 - fallback_reserves n)"
    using pc [of 40] by (simp only: unat_min unat_sat_sub R hs) simp
qed

lemma fallback_reserves_ge: "5632 \<le> fallback_reserves n"
  by (simp add: fallback_reserves_def)

lemma div100_bounds: "n < 100 * (n div 100) + 100" "100 * (n div 100) \<le> n" for n :: nat
  by (simp_all add: dividend_less_times_div)

lemma fallback_reserves_upper:
  assumes "100 * a \<le> n * 8" "100 * b \<le> n" "100 * c \<le> n * 4" "n * 75 < 100 * d + 100"
    and "7511 \<le> n"
  shows "min (max a 1024) 8192 + max 1024 b + max 2048 c + 1536 < (d :: nat)"
proof -
  define m where "m = min (max a 1024) 8192"
  have "m \<le> max a 1024" by (simp add: m_def)
  with assms show ?thesis
    unfolding m_def [symmetric] by (simp add: max_def split: if_splits)
qed

lemma fallback_reserves_fit: "7511 \<le> n \<Longrightarrow> fallback_reserves n < n * 75 div 100"
  unfolding fallback_reserves_def by (rule fallback_reserves_upper [of _ n]) (rule div100_bounds | assumption)+

lemma fallback_reserves_total:
  "unat (reserves_total (fallback_profile pr m w)) = fallback_reserves (max (unat w) 1)"
proof -
  have "max (unat w) 1 < 2 ^ 32" using unsigned_less [of w, where 'a = nat] by simp
  from fallback_reserves_bound [OF this] show ?thesis
    unfolding unat_reserves_total fallback_fields(4) by simp
qed

lemma soft_lt_hard:
  "100 * s \<le> n * 75 \<Longrightarrow> n * 85 < 100 * h + 100 \<Longrightarrow> 100 * h \<le> n * 85 \<Longrightarrow> 7511 \<le> n
   \<Longrightarrow> max s 1 < max h 1 \<and> max h 1 \<le> n" for n s h :: nat
  unfolding max_def by (auto simp: not_le split: if_splits)

lemma limits_aux:
  fixes t m R S H n k :: nat
  assumes "R < S" "S < H" "H \<le> n" "0 < t" "5632 \<le> R"
  shows "0 < min t (S - R) \<and> min t (S - R) < S \<and> S < H \<and> H \<le> n
    \<and> min t (S - R) + R \<le> S \<and> min (min m (H - R) + R) k \<le> H"
  using assms by (intro conjI) linarith+

lemma fallback_ok_iff: "profile_ok (fallback_profile pr m w) \<longleftrightarrow> 7511 \<le> unat w"
proof -
  define n where "n = max (unat w) 1"
  define R S H where "R = fallback_reserves n"
    and "S = max (n * 75 div 100) 1" and "H = max (n * 85 div 100) 1"
  note defs = n_def [symmetric] R_def [symmetric] S_def [symmetric] H_def [symmetric]
  have R: "5632 \<le> R" unfolding R_def by (rule fallback_reserves_ge)
  have eq: "profile_ok (fallback_profile pr m w) \<longleftrightarrow>
      0 < min (n * 60 div 100) (S - R) \<and> min (n * 60 div 100) (S - R) < S \<and> S < H \<and> H \<le> n
      \<and> min (n * 60 div 100) (S - R) + R \<le> S
      \<and> min (min (n * 40 div 100) (H - R) + R) (2 ^ 32 - 1) \<le> H"
    unfolding profile_ok_def fallback_fields fallback_reserves_total defs by (rule refl)
  show ?thesis
  proof (cases "7511 \<le> unat w")
    case True
    then have n: "7511 \<le> n" by (simp add: n_def)
    then have "R < S" unfolding R_def S_def using fallback_reserves_fit [OF n] by simp
    moreover have "S < H" "H \<le> n" 
      using soft_lt_hard [OF div100_bounds(2) div100_bounds(1) div100_bounds(2) n]
      unfolding S_def H_def by simp_all
    moreover have "0 < n * 60 div 100" using n by (simp add: div_greater_zero_iff)
    ultimately show ?thesis using True R limits_aux unfolding eq by blast
  next
    case False
    then have "n \<le> 7510" by (simp add: n_def)
    then have "n * 75 div 100 \<le> 7510 * 75 div 100" by (intro div_le_mono mult_le_mono1)
    then have "S \<le> 5632" by (simp add: S_def)
    then have "S - R = 0" using R by simp
    then show ?thesis using False unfolding eq by simp
  qed
qed

text \<open>The fallback profile of an unknown model is valid exactly for windows of at least 7511
  tokens. For smaller windows the fixed reserves do not fit, so the profile is rejected rather
  than silently adjusted.\<close>

theorem fallback_valid_iff:
  "validate (fallback_profile provider model window) = Inr () \<longleftrightarrow> 7511 \<le> unat window"
  by (simp add: validate_iff fallback_ok_iff)

section \<open>Scaling for the fallback estimator\<close>

lemma scaled_fields:
  "unat (mp_target_tokens (scaled_for_fallback_estimator p)) = unat (mp_target_tokens p) * 70 div 100"
  "unat (mp_soft_limit_tokens (scaled_for_fallback_estimator p)) = unat (mp_soft_limit_tokens p) * 70 div 100"
  "unat (mp_hard_limit_tokens (scaled_for_fallback_estimator p)) = unat (mp_hard_limit_tokens p) * 70 div 100"
  "mp_max_context_tokens (scaled_for_fallback_estimator p) = mp_max_context_tokens p"
  "reserves_total (scaled_for_fallback_estimator p) = reserves_total p"
  by (simp_all add: scaled_for_fallback_estimator_def Let_def unat_percent_u32 reserves_total_def)

lemma scaled_not_ok_iff_aux:
  fixes n R S tt t' s' a b c :: nat
  assumes "100 * S \<le> n * 75" "n * 60 < 100 * tt + 100"
    and "100 * s' \<le> S * 70" "min tt (S - R) * 70 < 100 * t' + 100"
    and "n * 8 < 100 * a + 100" "n < 100 * b + 100" "n * 4 < 100 * c + 100"
    and "R = min (max a 1024) 8192 + max 1024 b + max 2048 c + 1536"
    and "R < S" "n \<le> 176000"
  shows "s' < t' + R"
proof (cases "tt \<le> S - R")
  case False
  then have "(S - R) * 70 < 100 * t' + 100" using assms(4) by (simp add: min_def)
  moreover have "5632 \<le> R" unfolding assms(8) by simp
  ultimately show ?thesis using assms(3,9) by linarith
next
  case True
  then have t: "tt * 70 < 100 * t' + 100" using assms(4) by (simp add: min_def)
  have "min a 8192 + b + c + 1536 \<le> R" unfolding assms(8) by (simp add: add_mono)
  then show ?thesis using assms(1-3,5-7,10) t by (cases "a \<le> 8192") (simp_all add: min_def)
qed

text \<open>Scaling the thresholds by 0.70 while keeping the reserves invalidates the fallback
  profile of every window from 7511 to 176000 tokens: the profile itself is valid, the profile
  scaled for the fallback estimator breaks the rule \<open>target + reserves \<le> soft\<close>.\<close>

theorem fallback_estimator_scaling_invalidates:
  assumes "7511 \<le> unat window" and "unat window \<le> 176000"
  shows "validate (fallback_profile provider model window) = Inr ()
    \<and> validate (scaled_for_fallback_estimator (fallback_profile provider model window)) \<noteq> Inr ()"
proof
  show "validate (fallback_profile provider model window) = Inr ()"
    using assms(1) by (simp add: validate_iff fallback_ok_iff)
  define n where "n = max (unat window) 1"
  define S where "S = max (n * 75 div 100) 1"
  have n: "7511 \<le> n" "n \<le> 176000" using assms by (auto simp: n_def)
  note fit = fallback_reserves_fit [OF n(1)]
  then have S: "S = n * 75 div 100" by (simp add: S_def)
  have "S * 70 div 100 < min (n * 60 div 100) (S - fallback_reserves n) * 70 div 100 + fallback_reserves n"
    by (rule scaled_not_ok_iff_aux [where n = n and tt = "n * 60 div 100" and a = "n * 8 div 100"
          and b = "n div 100" and c = "n * 4 div 100"])
      (unfold S, (rule div100_bounds fit n(2) | rule fallback_reserves_def)+)
  then have "\<not> profile_ok (scaled_for_fallback_estimator (fallback_profile provider model window))"
    unfolding profile_ok_def scaled_fields fallback_fields fallback_reserves_total
      n_def [symmetric] S_def [symmetric] by linarith
  then show "validate (scaled_for_fallback_estimator (fallback_profile provider model window)) \<noteq> Inr ()"
    by (simp add: validate_iff)
qed

theorem fallback_estimator_scaling_invalidates_witness:
  "validate (fallback_profile ''unknown'' ''model'' DEFAULT_UNKNOWN_WINDOW) = Inr ()
   \<and> validate (scaled_for_fallback_estimator
        (fallback_profile ''unknown'' ''model'' DEFAULT_UNKNOWN_WINDOW)) \<noteq> Inr ()"
  by (rule fallback_estimator_scaling_invalidates) (simp_all add: DEFAULT_UNKNOWN_WINDOW_def)

section \<open>Re-planning\<close>

lemma replan_reserves_total:
  "reserves_total (replan_profile p w) = reserves_total (p\<lparr>mp_retry_reserve := 0, mp_streaming_reserve := 0\<rparr>)"
  by (simp add: replan_profile_def Let_def reserves_total_def)

lemma replan_words:
  fixes p w
  defines "q \<equiv> replan_profile p w"
  shows "mp_hard_limit_tokens q =
      max (case w of Some v \<Rightarrow> min v (percent_u32 (mp_hard_limit_tokens p) 90)
           | None \<Rightarrow> percent_u32 (mp_hard_limit_tokens p) 90) 1"
    and "mp_soft_limit_tokens q = min (mp_soft_limit_tokens p) (sat_sub (mp_hard_limit_tokens q) 1)"
    and "mp_target_tokens q =
      min (mp_target_tokens p) (sat_sub (mp_soft_limit_tokens q) (reserves_total q))"
    and "mp_absolute_mvc_max_limit q =
      min (mp_absolute_mvc_max_limit p) (sat_sub (mp_hard_limit_tokens q) (reserves_total q))"
    and "mp_max_context_tokens q =
      min (mp_max_context_tokens p) (case w of Some v \<Rightarrow> v | None \<Rightarrow> mp_max_context_tokens p)"
    and "mp_tool_schema_reserve q = mp_tool_schema_reserve p"
    and "mp_tool_call_reserve q = mp_tool_call_reserve p"
    and "mp_final_answer_reserve q = mp_final_answer_reserve p"
    and "mp_streaming_reserve q = 0"
    and "mp_retry_reserve q = 0"
  unfolding q_def replan_reserves_total
  by (simp_all add: replan_profile_def Let_def) (simp_all add: reserves_total_def)

lemma replan_fields:
  fixes p w
  defines "q \<equiv> replan_profile p w"
  shows "unat (mp_hard_limit_tokens q) =
      max (case w of Some v \<Rightarrow> min (unat v) (unat (mp_hard_limit_tokens p) * 90 div 100)
           | None \<Rightarrow> unat (mp_hard_limit_tokens p) * 90 div 100) 1"
    and "unat (mp_soft_limit_tokens q) =
      min (unat (mp_soft_limit_tokens p)) (unat (mp_hard_limit_tokens q) - 1)"
    and "unat (mp_target_tokens q) =
      min (unat (mp_target_tokens p)) (unat (mp_soft_limit_tokens q) - unat (reserves_total q))"
    and "unat (mp_absolute_mvc_max_limit q) =
      min (unat (mp_absolute_mvc_max_limit p)) (unat (mp_hard_limit_tokens q) - unat (reserves_total q))"
    and "unat (mp_max_context_tokens q) =
      (case w of Some v \<Rightarrow> min (unat (mp_max_context_tokens p)) (unat v)
       | None \<Rightarrow> unat (mp_max_context_tokens p))"
proof -
  have pc: "unat (percent_u32 x 90) = unat x * 90 div 100" for x
    by (simp add: unat_percent_u32)
  show "unat (mp_hard_limit_tokens q) =
      max (case w of Some v \<Rightarrow> min (unat v) (unat (mp_hard_limit_tokens p) * 90 div 100)
           | None \<Rightarrow> unat (mp_hard_limit_tokens p) * 90 div 100) 1"
    unfolding q_def replan_words(1) unat_max
    by (cases w) (simp_all only: option.case unat_min pc unsigned_1)
  show "unat (mp_max_context_tokens q) =
      (case w of Some v \<Rightarrow> min (unat (mp_max_context_tokens p)) (unat v)
       | None \<Rightarrow> unat (mp_max_context_tokens p))"
    unfolding q_def replan_words(5) by (cases w) (simp_all add: unat_min)
  show "unat (mp_soft_limit_tokens q) =
      min (unat (mp_soft_limit_tokens p)) (unat (mp_hard_limit_tokens q) - 1)"
    unfolding q_def replan_words(2) by (simp only: unat_min unat_sat_sub unsigned_1)
  show "unat (mp_target_tokens q) =
      min (unat (mp_target_tokens p)) (unat (mp_soft_limit_tokens q) - unat (reserves_total q))"
    unfolding q_def replan_words(3) by (simp only: unat_min unat_sat_sub)
  show "unat (mp_absolute_mvc_max_limit q) =
      min (unat (mp_absolute_mvc_max_limit p)) (unat (mp_hard_limit_tokens q) - unat (reserves_total q))"
    unfolding q_def replan_words(4) by (simp only: unat_min unat_sat_sub)
qed

text \<open>Re-planning a valid profile after a context-length error gives a valid profile again,
  with both optional reserves released, the tool-call and answer reserves untouched and the
  hard limit lowered to at most nine tenths, whenever the provider's window is not zero and
  the remaining reserves are positive and fit under the new soft limit.\<close>

theorem replan_profile_valid:
  assumes "validate p = Inr ()" and "window \<noteq> Some 0"
    and "0 < reserves_total (replan_profile p window)"
    and "reserves_total (replan_profile p window) < mp_soft_limit_tokens (replan_profile p window)"
  shows "validate (replan_profile p window) = Inr ()
    \<and> mp_tool_call_reserve (replan_profile p window) = mp_tool_call_reserve p
    \<and> mp_final_answer_reserve (replan_profile p window) = mp_final_answer_reserve p
    \<and> mp_retry_reserve (replan_profile p window) = 0
    \<and> mp_streaming_reserve (replan_profile p window) = 0
    \<and> unat (mp_hard_limit_tokens (replan_profile p window))
        \<le> unat (mp_hard_limit_tokens p) * 90 div 100"
proof -
  define q where "q = replan_profile p window"
  note f = replan_fields [of p window, folded q_def]
  from assms(1) have ok: "profile_ok p" by (simp add: validate_iff)
  have R: "0 < unat (reserves_total q)" "unat (reserves_total q) < unat (mp_soft_limit_tokens q)"
    using assms(3,4) by (simp_all add: q_def word_less_nat_alt)
  then have soft: "0 < unat (mp_soft_limit_tokens q)" by simp
  have sh: "unat (mp_soft_limit_tokens q) < unat (mp_hard_limit_tokens q)"
    using f(2) soft by linarith
  note ok' = ok [unfolded profile_ok_def]
  have hard: "unat (mp_hard_limit_tokens q) \<le> unat (mp_hard_limit_tokens p) * 90 div 100"
    using f(1) sh soft by (cases window) (simp_all only: option.case, linarith+)
  then have "unat (mp_hard_limit_tokens q) \<le> unat (mp_hard_limit_tokens p)" by linarith
  moreover have "unat (mp_hard_limit_tokens q) \<le> unat v" if "window = Some v" for v
    using f(1) sh soft that by (simp only: option.case)
  ultimately have mx: "unat (mp_hard_limit_tokens q) \<le> unat (mp_max_context_tokens q)"
    using f(5) ok' by (cases window) auto
  have "profile_ok q"
    unfolding profile_ok_def using mx sh R ok' f(3,4) by (intro conjI) linarith+
  then show ?thesis using hard replan_words(7-10) [of p window]
    by (simp add: validate_iff q_def [symmetric])
qed

theorem replan_profile_valid_witness:
  "validate (replan_profile (ce_profile (builtin_entries ! 1)) (Some 150000)) = Inr ()"
proof -
  let ?p = "ce_profile (builtin_entries ! 1)"
  have "validate ?p = Inr ()" "Some 150000 \<noteq> Some (0 :: u32)"
    "0 < reserves_total (replan_profile ?p (Some 150000))"
    "reserves_total (replan_profile ?p (Some 150000)) < mp_soft_limit_tokens (replan_profile ?p (Some 150000))"
    by code_simp+
  from replan_profile_valid [OF this] show ?thesis by blast
qed

section \<open>The catalogue\<close>

text \<open>Every entry of a catalogue passed \<open>validate\<close>: loading and overlaying keep it so.\<close>

definition catalog_ok :: "profile_catalog \<Rightarrow> bool" where
  "catalog_ok catalog \<longleftrightarrow> (\<forall>entry \<in> set (pc_entries catalog). validate (ce_profile entry) = Inr ())"

lemma catalog_ok_push: "catalog_ok c \<Longrightarrow> catalog_ok (catalog_push c e)"
  by (auto simp: catalog_ok_def catalog_push_def split: sum.splits)

lemma catalog_ok_foldl_push: "catalog_ok c \<Longrightarrow> catalog_ok (foldl catalog_push c es)"
  by (induction es arbitrary: c) (auto intro: catalog_ok_push)

lemma catalog_from_json_ok: "catalog_from_json parse json = Inr c \<Longrightarrow> catalog_ok c"
proof -
  have "catalog_ok catalog_default" by (simp add: catalog_ok_def catalog_default_def)
  then have "catalog_ok (foldl catalog_push catalog_default es)" for es
    by (rule catalog_ok_foldl_push)
  then show "catalog_from_json parse json = Inr c \<Longrightarrow> catalog_ok c"
    by (auto simp: catalog_from_json_def split: sum.splits)
qed

lemma set_overlay_entry: "set (overlay_entry es e) \<subseteq> insert e (set es)"
  by (induction es) auto

lemma overlay_entry_mem: "e \<in> set (overlay_entry es e)"
  by (induction es) auto

lemma set_foldl_overlay: "set (foldl overlay_entry xs ys) \<subseteq> set xs \<union> set ys"
proof (induction ys arbitrary: xs)
  case (Cons y ys)
  from Cons.IH [of "overlay_entry xs y"] set_overlay_entry [of xs y] show ?case by auto
qed simp

lemma catalog_ok_overlay: "catalog_ok a \<Longrightarrow> catalog_ok b \<Longrightarrow> catalog_ok (catalog_overlay a b)"
  using set_foldl_overlay [of "pc_entries a" "pc_entries b"]
  by (auto simp: catalog_ok_def catalog_overlay_def)

lemma max_by_key_None [simp]: "max_by_key f xs = None \<longleftrightarrow> xs = []"
  by (cases xs) (auto split: option.splits)

lemma max_by_key_Some:
  "max_by_key f xs = Some x \<Longrightarrow> x \<in> set xs \<and> (\<forall>y \<in> set xs. f y \<le> f x)"
proof (induction xs arbitrary: x)
  case (Cons a xs)
  show ?case
  proof (cases "max_by_key f xs")
    case None
    then show ?thesis using Cons.prems by simp
  next
    case (Some y)
    with Cons.IH [OF Some] Cons.prems show ?thesis by (auto split: if_splits)
  qed
qed simp

lemma validate_model_update [simp]:
  "validate (p\<lparr>mp_model := m\<rparr>) = validate p"
  by (simp add: validate_def reserves_total_def Let_def)

text \<open>Resolution by the longest matching prefix. When some catalogue entry matches the provider
  and model, and the provider reports no window or the very window the longest match declares,
  the resolved profile is that entry's and is valid; in every other case it is the fallback
  profile for the reported window, or for 32768 tokens when none is reported.\<close>

theorem catalog_resolve_longest_prefix:
  assumes "catalog_ok catalog"
  shows "(\<exists>entry \<in> set (pc_entries catalog). entry_matches provider model entry
        \<and> (\<forall>other \<in> set (pc_entries catalog). entry_matches provider model other
             \<longrightarrow> length (ce_model_prefix other) \<le> length (ce_model_prefix entry))
        \<and> (window = None \<or> window = Some (mp_max_context_tokens (ce_profile entry)))
        \<and> catalog_resolve catalog provider model window = (ce_profile entry)\<lparr>mp_model := model\<rparr>
        \<and> validate (catalog_resolve catalog provider model window) = Inr ())
    \<or> catalog_resolve catalog provider model window =
        fallback_profile provider model
          (case window of Some w \<Rightarrow> w | None \<Rightarrow> DEFAULT_UNKNOWN_WINDOW)"
proof (cases "max_by_key (\<lambda>entry. length (ce_model_prefix entry))
    (filter (entry_matches provider model) (pc_entries catalog))")
  case None
  then show ?thesis by (simp add: catalog_resolve_def Let_def)
next
  case (Some entry)
  from max_by_key_Some [OF Some] have e: "entry \<in> set (pc_entries catalog)"
    "entry_matches provider model entry"
    "\<forall>other \<in> set (pc_entries catalog). entry_matches provider model other
       \<longrightarrow> length (ce_model_prefix other) \<le> length (ce_model_prefix entry)" by auto
  with assms have "validate (ce_profile entry) = Inr ()" by (auto simp: catalog_ok_def)
  with e Some show ?thesis
    by (auto simp: catalog_resolve_def Let_def split: option.splits if_splits)
qed

lemma catalog_builtin_entries: "pc_entries catalog_builtin = builtin_entries"
  by (simp add: catalog_builtin_def catalog_from_json_def builtin_entries_def builtin_profile_def
      catalog_push_def validate_def reserves_total_def sat_add_def catalog_default_def)

lemma catalog_builtin_ok: "catalog_ok catalog_builtin"
proof -
  have "catalog_from_json (\<lambda>_. Inr builtin_entries :: unit + catalog_entry list) [] = Inr catalog_builtin"
    by (simp add: catalog_builtin_def catalog_from_json_def)
  then show ?thesis by (rule catalog_from_json_ok)
qed

theorem catalog_resolve_longest_prefix_witness:
  "catalog_ok catalog_builtin
   \<and> ((\<exists>entry \<in> set (pc_entries catalog_builtin). entry_matches ''literouter'' ''gpt-4o-mini'' entry
        \<and> (\<forall>other \<in> set (pc_entries catalog_builtin). entry_matches ''literouter'' ''gpt-4o-mini'' other
             \<longrightarrow> length (ce_model_prefix other) \<le> length (ce_model_prefix entry))
        \<and> ((None :: u32 option) = None \<or> None = Some (mp_max_context_tokens (ce_profile entry)))
        \<and> catalog_resolve catalog_builtin ''literouter'' ''gpt-4o-mini'' None
            = (ce_profile entry)\<lparr>mp_model := ''gpt-4o-mini''\<rparr>
        \<and> validate (catalog_resolve catalog_builtin ''literouter'' ''gpt-4o-mini'' None) = Inr ())
    \<or> catalog_resolve catalog_builtin ''literouter'' ''gpt-4o-mini'' None =
        fallback_profile ''literouter'' ''gpt-4o-mini''
          (case None of Some w \<Rightarrow> w | None \<Rightarrow> DEFAULT_UNKNOWN_WINDOW))"
  using catalog_resolve_longest_prefix [OF catalog_builtin_ok, of "''literouter''" "''gpt-4o-mini''" None]
    catalog_builtin_ok by blast

end
