(* ===== verification/Context_Ladder.thy ===== *)
theory Context_Ladder
  imports Context_Profile
begin

text \<open>
  \<open>crates/context-budget/src/ladder.rs\<close>: the selection the assembly works on and the six levels
  that reduce it. The artifact store and the summarizer are traits there; here they are records
  of operations over a state of their own (\<open>offload_sink\<close>, \<open>summarizer\<close>), so that every call that
  changes their state appears in the result. The law the ladder relies on is the locale
  \<open>summarizer_sources\<close>.
\<close>

section \<open>Levels and outcomes\<close>

datatype ladder_level =
    ExpiredDuplicateSuperseded | LowPriorityOptional | StaleToolOutputs
  | OffloadLargeItems | CompressHistory | ReleaseOptionalReserves

fun ladder_level_as_str :: "ladder_level \<Rightarrow> string" where
  "ladder_level_as_str ExpiredDuplicateSuperseded = ''l1_expired_duplicate_superseded''"
| "ladder_level_as_str LowPriorityOptional = ''l2_low_priority_optional''"
| "ladder_level_as_str StaleToolOutputs = ''l3_stale_tool_outputs''"
| "ladder_level_as_str OffloadLargeItems = ''l4_offload_large_items''"
| "ladder_level_as_str CompressHistory = ''l5_compress_history''"
| "ladder_level_as_str ReleaseOptionalReserves = ''l6_release_optional_reserves''"

definition ladder_order :: "ladder_level list" where
  "ladder_order =
     [ExpiredDuplicateSuperseded, LowPriorityOptional, StaleToolOutputs, OffloadLargeItems,
      CompressHistory, ReleaseOptionalReserves]"

record offload_outcome =
  oo_locator :: string
  oo_summary_tokens :: u32
  oo_offloaded_bytes :: u64

record 's offload_sink =
  os_available :: "'s \<Rightarrow> bool"
  os_offload :: "'s \<Rightarrow> context_item \<Rightarrow> (string + offload_outcome) \<times> 's"

record summary_outcome =
  so_summary_id :: string
  so_source_ids :: "string list"
  so_summary_tokens :: u32
  so_summarizer_version :: string
  so_fallback :: bool
  so_fallback_reason :: "string option"

record 't summarizer =
  sm_available :: "'t \<Rightarrow> bool"
  sm_summarize :: "'t \<Rightarrow> context_item list \<Rightarrow> (string + summary_outcome) \<times> 't"

definition no_offload :: "unit offload_sink" where
  "no_offload =
     \<lparr>os_available = (\<lambda>_. False),
      os_offload = (\<lambda>s _. (Inl ''artifact store is not available'', s))\<rparr>"

definition no_summarizer :: "unit summarizer" where
  "no_summarizer =
     \<lparr>sm_available = (\<lambda>_. False),
      sm_summarize = (\<lambda>s _. (Inl ''summarizer is not available'', s))\<rparr>"

record ladder_diagnostic =
  ld_level :: ladder_level
  ld_code :: string
  ld_detail :: string

record ladder_outcome =
  lo_levels_applied :: "ladder_level list"
  lo_diagnostics :: "ladder_diagnostic list"
  lo_summaries :: "summary_outcome list"
  lo_offloaded_bytes :: u64
  lo_reserves_released :: u32

definition ladder_outcome_default :: ladder_outcome where
  "ladder_outcome_default =
     \<lparr>lo_levels_applied = [], lo_diagnostics = [], lo_summaries = [], lo_offloaded_bytes = 0,
      lo_reserves_released = 0\<rparr>"

definition push_diagnostic :: "ladder_level \<Rightarrow> string \<Rightarrow> string \<Rightarrow> ladder_outcome \<Rightarrow> ladder_outcome" where
  "push_diagnostic level code detail outcome =
     outcome\<lparr>lo_diagnostics := lo_diagnostics outcome
       @ [\<lparr>ld_level = level, ld_code = code, ld_detail = detail\<rparr>]\<rparr>"

definition bounded_detail :: "string \<Rightarrow> string" where
  "bounded_detail detail = take_chars 200 detail"

section \<open>The selection\<close>

record selection =
  sel_items :: "context_item list"
  sel_reserves :: u32

definition selection_new :: "context_item list \<Rightarrow> u32 \<Rightarrow> selection" where
  "selection_new items reserves =
     \<lparr>sel_items = map (\<lambda>item. item\<lparr>ci_selected := True, ci_drop_reason := None\<rparr>) items,
      sel_reserves = reserves\<rparr>"

definition mandatory_tokens :: "selection \<Rightarrow> u32" where
  "mandatory_tokens sel =
     sat_sum (map ci_estimated_tokens
       (filter (\<lambda>item. ci_selected item \<and> is_mandatory_kind item) (sel_items sel)))"

definition optional_tokens :: "selection \<Rightarrow> u32" where
  "optional_tokens sel =
     sat_sum (map ci_estimated_tokens
       (filter (\<lambda>item. ci_selected item \<and> \<not> is_mandatory_kind item) (sel_items sel)))"

definition context_tokens :: "selection \<Rightarrow> u32" where
  "context_tokens sel = sat_add (mandatory_tokens sel) (optional_tokens sel)"

definition selection_total :: "selection \<Rightarrow> u32" where
  "selection_total sel = sat_add (optional_tokens sel) (sel_reserves sel)"

definition selected_items :: "selection \<Rightarrow> context_item list" where
  "selected_items sel = filter ci_selected (sel_items sel)"

definition dropped_items :: "selection \<Rightarrow> context_item list" where
  "dropped_items sel = filter (\<lambda>item. \<not> ci_selected item) (sel_items sel)"

definition drop_item :: "string \<Rightarrow> drop_reason \<Rightarrow> selection \<Rightarrow> selection" where
  "drop_item id' reason sel =
     sel\<lparr>sel_items := update_first (\<lambda>item. ci_id item = id')
       (\<lambda>item. item\<lparr>ci_selected := False, ci_drop_reason := Some reason\<rparr>) (sel_items sel)\<rparr>"

definition find_item :: "string \<Rightarrow> selection \<Rightarrow> context_item option" where
  "find_item id' sel = List.find (\<lambda>item. ci_id item = id') (sel_items sel)"

definition ordered_candidates :: "(context_item \<Rightarrow> bool) \<Rightarrow> selection \<Rightarrow> string list" where
  "ordered_candidates p sel =
     map ci_id (sort_key drop_order_key
       (filter (\<lambda>item. ci_selected item \<and> \<not> is_mandatory_kind item \<and> p item) (sel_items sel)))"

record ladder_context =
  lc_now :: i64
  lc_profile :: model_context_profile
  lc_goal_context_tokens :: u32
  lc_allow_reserve_release :: bool

definition goal_met :: "ladder_context \<Rightarrow> selection \<Rightarrow> bool" where
  "goal_met ctx sel \<longleftrightarrow> context_tokens sel \<le> lc_goal_context_tokens ctx"

section \<open>The levels\<close>

text \<open>L1. The revision map keeps, per parent, the greatest \<open>(version, created_at, id)\<close> among the
  selected items.\<close>

definition newer_revision :: "u32 \<times> i64 \<times> string \<Rightarrow> u32 \<times> i64 \<times> string \<Rightarrow> bool" where
  "newer_revision candidate current \<longleftrightarrow>
     (case (candidate, current) of ((v, t, i), (v', t', i')) \<Rightarrow>
        v > v' \<or> (v = v' \<and> t > t') \<or> (v = v' \<and> t = t' \<and> i > i'))"

definition revision_step ::
  "context_item \<Rightarrow> (string \<Rightarrow> (u32 \<times> i64 \<times> string) option) \<Rightarrow> string \<Rightarrow> (u32 \<times> i64 \<times> string) option" where
  "revision_step item newest =
     (case ci_parent_id item of None \<Rightarrow> newest
      | Some parent \<Rightarrow>
          (let candidate = (ci_version item, ci_created_at item, ci_id item) in
           case newest parent of
             None \<Rightarrow> newest(parent := Some candidate)
           | Some current \<Rightarrow>
               (if newer_revision candidate current then newest(parent := Some candidate) else newest)))"

definition newest_revision :: "selection \<Rightarrow> string \<Rightarrow> (u32 \<times> i64 \<times> string) option" where
  "newest_revision sel = fold revision_step (filter ci_selected (sel_items sel)) (\<lambda>_. None)"

fun collect_duplicates :: "selection \<Rightarrow> string set \<Rightarrow> string list \<Rightarrow> string list" where
  "collect_duplicates sel seen [] = []"
| "collect_duplicates sel seen (id' # ids) =
     (case find_item id' sel of
        None \<Rightarrow> collect_duplicates sel seen ids
      | Some item \<Rightarrow>
          (if ci_content_hash item \<in> seen then id' # collect_duplicates sel seen ids
           else collect_duplicates sel (insert (ci_content_hash item) seen) ids))"

definition l1_reason ::
  "ladder_context \<Rightarrow> string list \<Rightarrow> (string \<Rightarrow> (u32 \<times> i64 \<times> string) option) \<Rightarrow> context_item \<Rightarrow> drop_reason option" where
  "l1_reason ctx duplicates newest item =
     (if ttl_expired item (lc_now ctx) \<or> retention_expired item (lc_now ctx) then Some Expired
      else if ci_id item \<in> set duplicates then Some Duplicate
      else if (case Option.bind (ci_parent_id item) newest of
                 None \<Rightarrow> False | Some (v, t, i) \<Rightarrow> i \<noteq> ci_id item) then Some Superseded
      else None)"

fun l1_loop ::
  "ladder_context \<Rightarrow> string list \<Rightarrow> (string \<Rightarrow> (u32 \<times> i64 \<times> string) option) \<Rightarrow> string list \<Rightarrow> selection \<Rightarrow> selection" where
  "l1_loop ctx duplicates newest [] sel = sel"
| "l1_loop ctx duplicates newest (id' # ids) sel =
     (if goal_met ctx sel then sel
      else case find_item id' sel of
        None \<Rightarrow> l1_loop ctx duplicates newest ids sel
      | Some item \<Rightarrow>
          (if \<not> ci_selected item then l1_loop ctx duplicates newest ids sel
           else case l1_reason ctx duplicates newest item of
             None \<Rightarrow> l1_loop ctx duplicates newest ids sel
           | Some reason \<Rightarrow> l1_loop ctx duplicates newest ids (drop_item id' reason sel)))"

definition apply_l1 :: "ladder_context \<Rightarrow> selection \<Rightarrow> selection" where
  "apply_l1 ctx sel =
     (let seen_hashes = set (map ci_content_hash (filter is_mandatory_kind (sel_items sel)));
          newest = newest_revision sel;
          ordered = ordered_candidates (\<lambda>_. True) sel;
          duplicates = collect_duplicates sel seen_hashes (rev ordered)
      in l1_loop ctx duplicates newest ordered sel)"

text \<open>The loop of L2 and L3: drop the candidates in order until the goal is met.\<close>

fun drop_loop :: "ladder_context \<Rightarrow> drop_reason \<Rightarrow> string list \<Rightarrow> selection \<Rightarrow> selection" where
  "drop_loop ctx reason [] sel = sel"
| "drop_loop ctx reason (id' # ids) sel =
     (if goal_met ctx sel then sel else drop_loop ctx reason ids (drop_item id' reason sel))"

definition apply_l2 :: "ladder_context \<Rightarrow> selection \<Rightarrow> selection" where
  "apply_l2 ctx sel =
     (let cutoff = mp_low_priority_cutoff (lc_profile ctx);
          candidates = ordered_candidates (\<lambda>item. effective_priority item < cutoff) sel
      in drop_loop ctx LowPriority candidates sel)"

definition l3_candidates :: "selection \<Rightarrow> string list" where
  "l3_candidates sel =
     map ci_id (sort_key (\<lambda>item. (ci_pinned item, ci_created_at item, ci_content_hash item, ci_id item))
       (filter (\<lambda>item. ci_selected item \<and> \<not> is_mandatory_kind item
                  \<and> ci_kind item = ToolResult \<and> ci_tool_pair_complete item) (sel_items sel)))"

definition apply_l3 :: "ladder_context \<Rightarrow> selection \<Rightarrow> selection" where
  "apply_l3 ctx sel = drop_loop ctx StaleToolOutput (l3_candidates sel) sel"

text \<open>L4. The candidate is read when its turn comes, the store is asked, and the slot is rewritten
  only when the remaining summary is smaller.\<close>

definition l4_candidate :: "ladder_context \<Rightarrow> context_item \<Rightarrow> bool" where
  "l4_candidate ctx item \<longleftrightarrow>
     ci_bytes item > mp_offload_threshold_bytes (lc_profile ctx)
     \<and> allows_offload (ci_privacy item) \<and> ci_artifact_locator item = None"

definition offload_slot :: "offload_outcome \<Rightarrow> context_item \<Rightarrow> context_item" where
  "offload_slot result slot =
     slot\<lparr>ci_estimated_tokens := oo_summary_tokens result,
          ci_artifact_locator := Some (oo_locator result),
          ci_drop_reason := Some Offloaded\<rparr>"

fun l4_loop ::
  "ladder_context \<Rightarrow> 's offload_sink \<Rightarrow> string list \<Rightarrow> selection \<times> 's \<times> ladder_outcome
   \<Rightarrow> selection \<times> 's \<times> ladder_outcome" where
  "l4_loop ctx sink [] (sel, s, outcome) = (sel, s, outcome)"
| "l4_loop ctx sink (id' # ids) (sel, s, outcome) =
     (if goal_met ctx sel then (sel, s, outcome)
      else case find_item id' sel of
        None \<Rightarrow> l4_loop ctx sink ids (sel, s, outcome)
      | Some item \<Rightarrow>
          (case os_offload sink s item of
             (Inr result, s') \<Rightarrow>
               (if oo_summary_tokens result \<ge> ci_estimated_tokens item
                then l4_loop ctx sink ids (sel, s', outcome)
                else l4_loop ctx sink ids
                  (sel\<lparr>sel_items := update_first (\<lambda>slot. ci_id slot = id') (offload_slot result) (sel_items sel)\<rparr>,
                   s', outcome\<lparr>lo_offloaded_bytes := sat_add (lo_offloaded_bytes outcome) (oo_offloaded_bytes result)\<rparr>))
           | (Inl error, s') \<Rightarrow>
               (sel, s', push_diagnostic OffloadLargeItems ''artifact_write_failed'' (bounded_detail error) outcome)))"

definition apply_l4 ::
  "ladder_context \<Rightarrow> 's offload_sink \<Rightarrow> selection \<times> 's \<times> ladder_outcome \<Rightarrow> selection \<times> 's \<times> ladder_outcome" where
  "apply_l4 ctx sink st =
     (case st of (sel, s, outcome) \<Rightarrow>
        if \<not> os_available sink s
        then (sel, s, push_diagnostic OffloadLargeItems ''artifact_store_unavailable''
                        ''artifact store capability probe failed'' outcome)
        else l4_loop ctx sink (ordered_candidates (l4_candidate ctx) sel) (sel, s, outcome))"

text \<open>L5. The summary replaces its sources at once.\<close>

definition l5_candidates :: "selection \<Rightarrow> context_item list" where
  "l5_candidates sel =
     filter (\<lambda>item. ci_selected item \<and> \<not> is_mandatory_kind item \<and> ci_kind item \<in> {History, ToolResult})
       (sel_items sel)"

definition deselect_source :: "string \<Rightarrow> context_item list \<Rightarrow> context_item list" where
  "deselect_source id' items =
     update_first (\<lambda>item. ci_id item = id')
       (\<lambda>item. item\<lparr>ci_selected := False, ci_drop_reason := None\<rparr>) items"

definition summary_item :: "summary_outcome \<Rightarrow> context_item \<Rightarrow> context_item" where
  "summary_item summary template =
     template\<lparr>ci_id := so_summary_id summary, ci_kind := Summary,
              ci_estimated_tokens := so_summary_tokens summary, ci_selected := True,
              ci_drop_reason := None, ci_pinned := False\<rparr>"

definition l5_replaced :: "context_item list \<Rightarrow> summary_outcome \<Rightarrow> context_item list" where
  "l5_replaced candidates summary =
     filter (\<lambda>item. ci_id item \<in> set (so_source_ids summary)) candidates"

definition l5_items :: "context_item list \<Rightarrow> summary_outcome \<Rightarrow> context_item list \<Rightarrow> context_item list" where
  "l5_items candidates summary items =
     fold deselect_source (so_source_ids summary) items
     @ (case List.find (\<lambda>item. ci_id item \<in> set (so_source_ids summary)) candidates of
          None \<Rightarrow> [] | Some template \<Rightarrow> [summary_item summary template])"

definition apply_l5 ::
  "'t summarizer \<Rightarrow> selection \<times> 't \<times> ladder_outcome \<Rightarrow> selection \<times> 't \<times> ladder_outcome" where
  "apply_l5 summ st =
     (case st of (sel, t, outcome) \<Rightarrow>
        if \<not> sm_available summ t
        then (sel, t, push_diagnostic CompressHistory ''summarizer_unavailable''
                        ''summarizer capability probe failed'' outcome)
        else let candidates = l5_candidates sel in
          if length candidates < 2
          then (sel, t, push_diagnostic CompressHistory ''summarizer_input_too_small''
                          (show_nat (length candidates) @ '' compressible items'') outcome)
          else case sm_summarize summ t candidates of
            (Inr summary, t') \<Rightarrow>
              (let replaced_tokens = sat_sum (map ci_estimated_tokens (l5_replaced candidates summary)) in
               if so_summary_tokens summary \<ge> replaced_tokens
               then (sel, t', push_diagnostic CompressHistory ''summary_not_smaller''
                 (show_word (so_summary_tokens summary) @ '' >= '' @ show_word replaced_tokens) outcome)
               else (sel\<lparr>sel_items := l5_items candidates summary (sel_items sel)\<rparr>, t',
                     outcome\<lparr>lo_summaries := lo_summaries outcome @ [summary]\<rparr>))
          | (Inl error, t') \<Rightarrow>
              (sel, t', push_diagnostic CompressHistory ''summarizer_failed'' (bounded_detail error) outcome))"

text \<open>L6. Reserves are released in a fixed order and never below the protected two.\<close>

definition optional_reserve_order :: "model_context_profile \<Rightarrow> u32 list" where
  "optional_reserve_order profile =
     [mp_retry_reserve profile, mp_streaming_reserve profile, mp_tool_schema_reserve profile]"

definition protected_reserve :: "model_context_profile \<Rightarrow> u32" where
  "protected_reserve profile = sat_add (mp_tool_call_reserve profile) (mp_final_answer_reserve profile)"

fun l6_loop :: "u32 \<Rightarrow> u32 list \<Rightarrow> u32 \<times> u32 \<Rightarrow> u32 \<times> u32" where
  "l6_loop releasable [] (released, reserves) = (released, reserves)"
| "l6_loop releasable (amount # amounts) (released, reserves) =
     (if released \<ge> releasable then (released, reserves)
      else let step = min amount (releasable - released)
           in l6_loop releasable amounts (released + step, sat_sub reserves step))"

definition apply_l6 :: "ladder_context \<Rightarrow> selection \<times> ladder_outcome \<Rightarrow> selection \<times> ladder_outcome" where
  "apply_l6 ctx st =
     (case st of (sel, outcome) \<Rightarrow>
        let optional_order = optional_reserve_order (lc_profile ctx);
            releasable = min (sat_sum optional_order)
                           (sat_sub (sel_reserves sel) (protected_reserve (lc_profile ctx)))
        in if releasable = 0 then (sel, outcome)
           else case l6_loop releasable optional_order (0, sel_reserves sel) of
             (released, reserves) \<Rightarrow>
               (sel\<lparr>sel_reserves := reserves\<rparr>, outcome\<lparr>lo_reserves_released := released\<rparr>))"

section \<open>The pass\<close>

record ('s, 't) ladder_state =
  ls_selection :: selection
  ls_sink :: 's
  ls_summarizer :: 't
  ls_outcome :: ladder_outcome

fun apply_level ::
  "ladder_context \<Rightarrow> 's offload_sink \<Rightarrow> 't summarizer \<Rightarrow> ladder_level \<Rightarrow> ('s, 't) ladder_state
   \<Rightarrow> ('s, 't) ladder_state" where
  "apply_level ctx sink summ ExpiredDuplicateSuperseded st =
     st\<lparr>ls_selection := apply_l1 ctx (ls_selection st)\<rparr>"
| "apply_level ctx sink summ LowPriorityOptional st =
     st\<lparr>ls_selection := apply_l2 ctx (ls_selection st)\<rparr>"
| "apply_level ctx sink summ StaleToolOutputs st =
     st\<lparr>ls_selection := apply_l3 ctx (ls_selection st)\<rparr>"
| "apply_level ctx sink summ OffloadLargeItems st =
     (case apply_l4 ctx sink (ls_selection st, ls_sink st, ls_outcome st) of
        (sel, s, outcome) \<Rightarrow> st\<lparr>ls_selection := sel, ls_sink := s, ls_outcome := outcome\<rparr>)"
| "apply_level ctx sink summ CompressHistory st =
     (case apply_l5 summ (ls_selection st, ls_summarizer st, ls_outcome st) of
        (sel, t, outcome) \<Rightarrow> st\<lparr>ls_selection := sel, ls_summarizer := t, ls_outcome := outcome\<rparr>)"
| "apply_level ctx sink summ ReleaseOptionalReserves st =
     (if lc_allow_reserve_release ctx
      then (case apply_l6 ctx (ls_selection st, ls_outcome st) of
              (sel, outcome) \<Rightarrow> st\<lparr>ls_selection := sel, ls_outcome := outcome\<rparr>)
      else st)"

definition ladder_step ::
  "ladder_context \<Rightarrow> 's offload_sink \<Rightarrow> 't summarizer \<Rightarrow> ladder_level \<Rightarrow> ('s, 't) ladder_state
   \<Rightarrow> ('s, 't) ladder_state" where
  "ladder_step ctx sink summ level st =
     (let before = selection_total (ls_selection st);
          st' = apply_level ctx sink summ level st
      in if selection_total (ls_selection st') < before
         then st'\<lparr>ls_outcome := (ls_outcome st')\<lparr>lo_levels_applied := lo_levels_applied (ls_outcome st') @ [level]\<rparr>\<rparr>
         else st')"

fun ladder_loop ::
  "ladder_context \<Rightarrow> 's offload_sink \<Rightarrow> 't summarizer \<Rightarrow> ladder_level list \<Rightarrow> ('s, 't) ladder_state
   \<Rightarrow> ('s, 't) ladder_state" where
  "ladder_loop ctx sink summ [] st = st"
| "ladder_loop ctx sink summ (level # levels) st =
     (if goal_met ctx (ls_selection st) then st
      else ladder_loop ctx sink summ levels (ladder_step ctx sink summ level st))"

definition run_ladder ::
  "ladder_context \<Rightarrow> 's offload_sink \<Rightarrow> 't summarizer \<Rightarrow> selection \<Rightarrow> 's \<Rightarrow> 't \<Rightarrow> ('s, 't) ladder_state" where
  "run_ladder ctx sink summ sel s t =
     (let st = \<lparr>ls_selection = sel, ls_sink = s, ls_summarizer = t, ls_outcome = ladder_outcome_default\<rparr>
      in if goal_met ctx sel then st else ladder_loop ctx sink summ ladder_order st)"

section \<open>What a level may do to an item\<close>

text \<open>The relation between an item before and after the first four levels: mandatory items are
  untouched, nothing is selected again, tokens shrink, and a locator appears only on an item the
  store may hold. It is a preorder, so it composes over the steps of a pass.\<close>

definition item_reduced :: "ladder_context \<Rightarrow> context_item \<Rightarrow> context_item \<Rightarrow> bool" where
  "item_reduced ctx i i' \<longleftrightarrow>
     i' = i\<lparr>ci_selected := ci_selected i', ci_drop_reason := ci_drop_reason i',
            ci_estimated_tokens := ci_estimated_tokens i', ci_artifact_locator := ci_artifact_locator i'\<rparr>
     \<and> (is_mandatory_kind i \<longrightarrow> i' = i)
     \<and> (ci_selected i' \<longrightarrow> ci_selected i)
     \<and> ci_estimated_tokens i' \<le> ci_estimated_tokens i
     \<and> (ci_artifact_locator i' \<noteq> ci_artifact_locator i \<longrightarrow> l4_candidate ctx i)"

definition sel_reduced :: "ladder_context \<Rightarrow> selection \<Rightarrow> selection \<Rightarrow> bool" where
  "sel_reduced ctx sel sel' \<longleftrightarrow>
     sel_reserves sel' = sel_reserves sel \<and> list_all2 (item_reduced ctx) (sel_items sel) (sel_items sel')"

lemma item_reduced_refl [simp]: "item_reduced ctx i i"
  by (simp add: item_reduced_def)

lemma item_reducedD:
  assumes "item_reduced ctx i i'"
  shows "is_mandatory_kind i \<Longrightarrow> i' = i" "ci_selected i' \<Longrightarrow> ci_selected i"
    "ci_estimated_tokens i' \<le> ci_estimated_tokens i"
    "ci_artifact_locator i' \<noteq> ci_artifact_locator i \<Longrightarrow> l4_candidate ctx i"
  using assms unfolding item_reduced_def by blast+

lemma item_reduced_kept:
  assumes "item_reduced ctx i i'"
  shows "ci_id i' = ci_id i" "ci_kind i' = ci_kind i" "ci_priority i' = ci_priority i"
    "ci_pinned i' = ci_pinned i" "ci_privacy i' = ci_privacy i" "ci_bytes i' = ci_bytes i"
    "ci_content_hash i' = ci_content_hash i" "ci_tool_pair_complete i' = ci_tool_pair_complete i"
    "is_mandatory_kind i' = is_mandatory_kind i" "effective_priority i' = effective_priority i"
    "ttl_expired i' now = ttl_expired i now" "retention_expired i' now = retention_expired i now"
proof -
  from assms obtain a b c d where i': "i' = i\<lparr>ci_selected := a, ci_drop_reason := b,
      ci_estimated_tokens := c, ci_artifact_locator := d\<rparr>"
    by (auto simp only: item_reduced_def)
  show "ci_id i' = ci_id i" "ci_kind i' = ci_kind i" "ci_priority i' = ci_priority i"
    "ci_pinned i' = ci_pinned i" "ci_privacy i' = ci_privacy i" "ci_bytes i' = ci_bytes i"
    "ci_content_hash i' = ci_content_hash i" "ci_tool_pair_complete i' = ci_tool_pair_complete i"
    "is_mandatory_kind i' = is_mandatory_kind i" "effective_priority i' = effective_priority i"
    "ttl_expired i' now = ttl_expired i now" "retention_expired i' now = retention_expired i now"
    unfolding i' by (simp_all add: effective_priority_def ttl_expired_def retention_expired_def split: option.split)
qed

lemma item_reduced_trans:
  assumes ij: "item_reduced ctx i j" and jk: "item_reduced ctx j k"
  shows "item_reduced ctx i k"
proof -
  from ij obtain a b c d where j: "j = i\<lparr>ci_selected := a, ci_drop_reason := b,
      ci_estimated_tokens := c, ci_artifact_locator := d\<rparr>"
    by (auto simp only: item_reduced_def)
  from jk obtain a' b' c' d' where k: "k = j\<lparr>ci_selected := a', ci_drop_reason := b',
      ci_estimated_tokens := c', ci_artifact_locator := d'\<rparr>"
    by (auto simp only: item_reduced_def)
  have frame: "k = i\<lparr>ci_selected := ci_selected k, ci_drop_reason := ci_drop_reason k,
      ci_estimated_tokens := ci_estimated_tokens k, ci_artifact_locator := ci_artifact_locator k\<rparr>"
    unfolding k unfolding j by simp
  have "is_mandatory_kind i \<Longrightarrow> k = i"
    using ij jk item_reduced_kept(9) [OF ij] by (simp only: item_reduced_def)
  moreover have "ci_selected k \<Longrightarrow> ci_selected i" "ci_estimated_tokens k \<le> ci_estimated_tokens i"
    using ij jk by (meson item_reduced_def order_trans)+
  moreover have "l4_candidate ctx i" if "ci_artifact_locator k \<noteq> ci_artifact_locator i"
  proof (cases "ci_artifact_locator j = ci_artifact_locator i")
    case True
    then have "ci_artifact_locator k \<noteq> ci_artifact_locator j" using that by simp
    then have "l4_candidate ctx j" using jk unfolding item_reduced_def by blast
    then show ?thesis
      using True item_reduced_kept(5,6) [OF ij] by (simp add: l4_candidate_def)
  next
    case False
    then show ?thesis using ij unfolding item_reduced_def by metis
  qed
  ultimately show ?thesis unfolding item_reduced_def using frame by blast
qed

lemma sel_reduced_refl [simp]: "sel_reduced ctx sel sel"
  by (simp add: sel_reduced_def list_all2_same)

lemma sel_reduced_trans: "sel_reduced ctx a b \<Longrightarrow> sel_reduced ctx b c \<Longrightarrow> sel_reduced ctx a c"
  unfolding sel_reduced_def
  by (auto intro: list_all2_trans [of "item_reduced ctx" "item_reduced ctx" "item_reduced ctx", OF item_reduced_trans])

lemma list_all2_ids: "list_all2 (item_reduced ctx) xs ys \<Longrightarrow> map ci_id ys = map ci_id xs"
  by (induction rule: list_all2_induct) (auto dest: item_reduced_kept(1))

lemma sel_reduced_ids: "sel_reduced ctx a b \<Longrightarrow> map ci_id (sel_items b) = map ci_id (sel_items a)"
  unfolding sel_reduced_def by (blast intro: list_all2_ids)

lemma sel_reduced_item:
  "sel_reduced ctx a b \<Longrightarrow> y \<in> set (sel_items b) \<Longrightarrow> \<exists>x\<in>set (sel_items a). item_reduced ctx x y"
  unfolding sel_reduced_def list_all2_conv_all_nth by (metis in_set_conv_nth)

lemma list_all2_mandatory:
  "list_all2 (item_reduced ctx) xs ys \<Longrightarrow> filter is_mandatory_kind ys = filter is_mandatory_kind xs"
  by (induction rule: list_all2_induct) (auto simp: item_reduced_kept(9) dest: item_reducedD(1))

lemma list_all2_optional_tokens:
  "list_all2 (item_reduced ctx) xs ys \<Longrightarrow>
   (\<Sum>i\<leftarrow>filter (\<lambda>i. ci_selected i \<and> \<not> is_mandatory_kind i) ys. unat (ci_estimated_tokens i))
   \<le> (\<Sum>i\<leftarrow>filter (\<lambda>i. ci_selected i \<and> \<not> is_mandatory_kind i) xs. unat (ci_estimated_tokens i))"
proof (induction rule: list_all2_induct)
  case (Cons x xs y ys)
  then have "ci_selected y \<Longrightarrow> ci_selected x" "unat (ci_estimated_tokens y) \<le> unat (ci_estimated_tokens x)"
    "is_mandatory_kind y = is_mandatory_kind x"
    using item_reduced_kept(9) [OF Cons(1)] item_reducedD(2,3) [OF Cons(1)] by (auto simp: word_le_nat_alt)
  then show ?case using Cons(3) by auto
qed simp

section \<open>Tokens of a selection, in nat\<close>

abbreviation optional_nat :: "context_item list \<Rightarrow> nat" where
  "optional_nat items \<equiv>
     (\<Sum>i\<leftarrow>filter (\<lambda>i. ci_selected i \<and> \<not> is_mandatory_kind i) items. unat (ci_estimated_tokens i))"

lemma unat_optional_tokens: "unat (optional_tokens sel) = min (optional_nat (sel_items sel)) (2 ^ 32 - 1)"
  by (simp add: optional_tokens_def unat_sat_sum comp_def)

lemma mandatory_tokens_filter:
  "filter is_mandatory_kind (sel_items a) = filter is_mandatory_kind (sel_items b) \<Longrightarrow>
   mandatory_tokens a = mandatory_tokens b"
proof -
  assume "filter is_mandatory_kind (sel_items a) = filter is_mandatory_kind (sel_items b)"
  then have "filter ci_selected (filter is_mandatory_kind (sel_items a))
    = filter ci_selected (filter is_mandatory_kind (sel_items b))" by simp
  then show ?thesis by (simp add: mandatory_tokens_def conj_commute)
qed

lemma sat_add_mono: "a \<le> b \<Longrightarrow> c \<le> d \<Longrightarrow> sat_add a c \<le> sat_add b d" for a b c d :: "'a::len word"
  by (auto simp: word_le_nat_alt unat_sat_add intro!: min.mono add_mono)

lemma optional_tokens_mono:
  "optional_nat (sel_items b) \<le> optional_nat (sel_items a) \<Longrightarrow> optional_tokens b \<le> optional_tokens a"
  by (simp add: word_le_nat_alt unat_optional_tokens min_le_iff_disj)

lemma sel_reduced_mandatory:
  "sel_reduced ctx a b \<Longrightarrow> filter is_mandatory_kind (sel_items b) = filter is_mandatory_kind (sel_items a)"
  unfolding sel_reduced_def by (blast intro: list_all2_mandatory)

lemma sel_reduced_optional: "sel_reduced ctx a b \<Longrightarrow> optional_tokens b \<le> optional_tokens a"
  unfolding sel_reduced_def by (blast intro: optional_tokens_mono list_all2_optional_tokens)

lemma sel_reduced_total: "sel_reduced ctx a b \<Longrightarrow> selection_total b \<le> selection_total a"
  unfolding selection_total_def
  by (rule sat_add_mono) (auto intro: sel_reduced_optional simp: sel_reduced_def)

section \<open>The first four levels reduce the selection\<close>

abbreviation distinct_ids :: "selection \<Rightarrow> bool" where
  "distinct_ids sel \<equiv> distinct (map ci_id (sel_items sel))"

text \<open>The item with a given id, under distinct ids, and what an update of it does.\<close>

definition optional_id :: "selection \<Rightarrow> string \<Rightarrow> bool" where
  "optional_id sel id' \<longleftrightarrow> (\<forall>x\<in>set (sel_items sel). ci_id x = id' \<longrightarrow> \<not> is_mandatory_kind x)"

lemma list_all2_map_if:
  "(\<And>x. x \<in> set xs \<Longrightarrow> P x \<Longrightarrow> R x (f x)) \<Longrightarrow> (\<And>x. R x x) \<Longrightarrow>
   list_all2 R xs (map (\<lambda>x. if P x then f x else x) xs)"
  by (induction xs) auto

lemma update_reduced:
  assumes "distinct_ids sel"
    and "\<And>x. x \<in> set (sel_items sel) \<Longrightarrow> ci_id x = id' \<Longrightarrow> item_reduced ctx x (f x)"
  shows "sel_reduced ctx sel (sel\<lparr>sel_items := update_first (\<lambda>x. ci_id x = id') f (sel_items sel)\<rparr>)"
  using assms by (simp add: sel_reduced_def update_first_distinct list_all2_map_if)

lemma drop_reduced:
  assumes "distinct_ids sel" "optional_id sel id'"
  shows "sel_reduced ctx sel (drop_item id' reason sel)"
  unfolding drop_item_def using assms
  by (intro update_reduced) (auto simp: item_reduced_def optional_id_def)

lemma optional_id_reduced: "sel_reduced ctx a b \<Longrightarrow> optional_id a id' \<Longrightarrow> optional_id b id'"
  unfolding optional_id_def using sel_reduced_item item_reduced_kept(1,9) by metis

lemma find_item_SomeD: "find_item id' sel = Some x \<Longrightarrow> x \<in> set (sel_items sel) \<and> ci_id x = id'"
  by (auto simp: find_item_def find_Some_iff)

lemma candidates_optional: "distinct_ids sel \<Longrightarrow> id' \<in> set (ordered_candidates p sel) \<Longrightarrow> optional_id sel id'"
  by (auto simp: ordered_candidates_def optional_id_def dest: distinct_map_nth_unique)

lemma l3_candidates_optional: "distinct_ids sel \<Longrightarrow> id' \<in> set (l3_candidates sel) \<Longrightarrow> optional_id sel id'"
  by (auto simp: l3_candidates_def optional_id_def dest: distinct_map_nth_unique)

lemma drop_loop_reduced:
  "distinct_ids sel \<Longrightarrow> (\<forall>id'\<in>set ids. optional_id sel id') \<Longrightarrow> sel_reduced ctx sel (drop_loop ctx reason ids sel)"
proof (induction ids arbitrary: sel)
  case (Cons id' ids)
  then have r: "sel_reduced ctx sel (drop_item id' reason sel)" by (simp add: drop_reduced)
  with Cons.prems have "sel_reduced ctx (drop_item id' reason sel) (drop_loop ctx reason ids (drop_item id' reason sel))"
    by (intro Cons.IH) (auto simp: sel_reduced_ids dest: optional_id_reduced)
  with r show ?case by (auto intro: sel_reduced_trans)
qed simp

lemma l1_loop_reduced:
  "distinct_ids sel \<Longrightarrow> (\<forall>id'\<in>set ids. optional_id sel id') \<Longrightarrow> sel_reduced ctx sel (l1_loop ctx dups newest ids sel)"
proof (induction ids arbitrary: sel)
  case (Cons id' ids)
  have skip: "sel_reduced ctx sel (l1_loop ctx dups newest ids sel)"
    using Cons.prems by (intro Cons.IH) auto
  have "sel_reduced ctx sel (l1_loop ctx dups newest ids (drop_item id' reason sel))" for reason
  proof -
    have r: "sel_reduced ctx sel (drop_item id' reason sel)" using Cons.prems by (simp add: drop_reduced)
    with Cons.prems have "sel_reduced ctx (drop_item id' reason sel) (l1_loop ctx dups newest ids (drop_item id' reason sel))"
      by (intro Cons.IH) (auto simp: sel_reduced_ids dest: optional_id_reduced)
    with r show ?thesis by (rule sel_reduced_trans)
  qed
  with skip show ?case by (auto split: option.splits)
qed simp

lemma apply_l1_reduced: "distinct_ids sel \<Longrightarrow> sel_reduced ctx sel (apply_l1 ctx sel)"
  unfolding apply_l1_def Let_def by (rule l1_loop_reduced) (auto dest: candidates_optional)

lemma apply_l2_reduced: "distinct_ids sel \<Longrightarrow> sel_reduced ctx sel (apply_l2 ctx sel)"
  unfolding apply_l2_def Let_def by (rule drop_loop_reduced) (auto dest: candidates_optional)

lemma apply_l3_reduced: "distinct_ids sel \<Longrightarrow> sel_reduced ctx sel (apply_l3 ctx sel)"
  unfolding apply_l3_def by (rule drop_loop_reduced) (auto dest: l3_candidates_optional)

text \<open>L4: while the loop runs, the candidates still to come are untouched.\<close>

definition l4_pending :: "ladder_context \<Rightarrow> selection \<Rightarrow> string \<Rightarrow> bool" where
  "l4_pending ctx sel id' \<longleftrightarrow>
     (\<forall>x\<in>set (sel_items sel). ci_id x = id' \<longrightarrow> \<not> is_mandatory_kind x \<and> l4_candidate ctx x)"

lemma l4_pending_candidates:
  "distinct_ids sel \<Longrightarrow> id' \<in> set (ordered_candidates (l4_candidate ctx) sel) \<Longrightarrow> l4_pending ctx sel id'"
  by (auto simp: ordered_candidates_def l4_pending_def dest: distinct_map_nth_unique)

lemma distinct_candidates: "distinct_ids sel \<Longrightarrow> distinct (ordered_candidates p sel)"
  unfolding ordered_candidates_def
  by (simp add: distinct_map distinct_filter inj_on_def)

lemma offload_slot_id [simp]: "ci_id (offload_slot result x) = ci_id x"
  by (simp add: offload_slot_def)

lemma l4_pending_update:
  "l4_pending ctx sel id' \<Longrightarrow> id' \<noteq> id'' \<Longrightarrow>
   l4_pending ctx (sel\<lparr>sel_items := update_first (\<lambda>x. ci_id x = id'') (offload_slot result) (sel_items sel)\<rparr>) id'"
  by (auto simp: l4_pending_def dest!: set_update_first)

lemma offload_reduced:
  assumes "distinct_ids sel" "l4_pending ctx sel id'" "find_item id' sel = Some item"
    and "oo_summary_tokens result < ci_estimated_tokens item"
  shows "sel_reduced ctx sel
    (sel\<lparr>sel_items := update_first (\<lambda>x. ci_id x = id') (offload_slot result) (sel_items sel)\<rparr>)"
proof (rule update_reduced [OF assms(1)])
  fix x assume "x \<in> set (sel_items sel)" "ci_id x = id'"
  with find_item_SomeD [OF assms(3)] assms(1) have "x = item"
    using distinct_map_nth_unique [of ci_id "sel_items sel" x item] by simp
  with assms(2,4) \<open>x \<in> _\<close> \<open>ci_id x = id'\<close> show "item_reduced ctx x (offload_slot result x)"
    by (simp add: item_reduced_def offload_slot_def l4_pending_def)
qed

lemma l4_loop_reduced:
  "distinct_ids sel \<Longrightarrow> distinct ids \<Longrightarrow> (\<forall>id'\<in>set ids. l4_pending ctx sel id') \<Longrightarrow>
   sel_reduced ctx sel (fst (l4_loop ctx sink ids (sel, s, outcome)))"
proof (induction ids arbitrary: sel s outcome)
  case (Cons id' ids)
  have skip: "sel_reduced ctx sel (fst (l4_loop ctx sink ids (sel, s', o')))" for s' o'
    using Cons.prems by (intro Cons.IH) auto
  have "sel_reduced ctx sel (fst (l4_loop ctx sink ids
      (sel\<lparr>sel_items := update_first (\<lambda>x. ci_id x = id') (offload_slot result) (sel_items sel)\<rparr>, s', o')))"
    if "find_item id' sel = Some item" "oo_summary_tokens result < ci_estimated_tokens item" for item result s' o'
  proof -
    let ?sel = "sel\<lparr>sel_items := update_first (\<lambda>x. ci_id x = id') (offload_slot result) (sel_items sel)\<rparr>"
    have r: "sel_reduced ctx sel ?sel" using Cons.prems that by (intro offload_reduced) auto
    have "sel_reduced ctx ?sel (fst (l4_loop ctx sink ids (?sel, s', o')))"
      using Cons.prems sel_reduced_ids [OF r]
      by (intro Cons.IH) (auto intro!: l4_pending_update)
    with r show ?thesis by (rule sel_reduced_trans)
  qed
  with skip show ?case by (auto simp: not_le split: option.splits prod.splits sum.splits)
qed simp

lemma apply_l4_reduced: "distinct_ids sel \<Longrightarrow> sel_reduced ctx sel (fst (apply_l4 ctx sink (sel, s, outcome)))"
  by (auto simp: apply_l4_def intro!: l4_loop_reduced distinct_candidates dest: l4_pending_candidates)

section \<open>The summary level\<close>

text \<open>What the ladder relies on: a summary names as its sources only items it was given.\<close>

locale summarizer_sources =
  fixes summ :: "'t summarizer"
  assumes sources: "sm_summarize summ t items = (Inr summary, t') \<Longrightarrow>
    set (so_source_ids summary) \<subseteq> ci_id ` set items"

interpretation no_summary: summarizer_sources no_summarizer
  by unfold_locales (simp add: no_summarizer_def)

lemma deselect_source_fold:
  "distinct (map ci_id items) \<Longrightarrow>
   fold deselect_source ids items =
     map (\<lambda>x. if ci_id x \<in> set ids then x\<lparr>ci_selected := False, ci_drop_reason := None\<rparr> else x) items"
proof (induction ids arbitrary: items)
  case (Cons id' ids)
  have "map ci_id (deselect_source id' items) = map ci_id items"
    unfolding deselect_source_def by (rule update_first_map) simp
  then have "fold deselect_source ids (deselect_source id' items) =
      map (\<lambda>x. if ci_id x \<in> set ids then x\<lparr>ci_selected := False, ci_drop_reason := None\<rparr> else x)
        (deselect_source id' items)"
    using Cons by (intro Cons.IH) simp
  also have "\<dots> = map (\<lambda>x. if ci_id x \<in> set (id' # ids)
      then x\<lparr>ci_selected := False, ci_drop_reason := None\<rparr> else x) items"
    unfolding deselect_source_def update_first_distinct [OF Cons.prems] by simp
  finally show ?case by simp
qed simp

lemma sum_filter_map_split:
  "(\<And>x. P x \<Longrightarrow> \<not> Q (g x)) \<Longrightarrow>
   sum_list (map f (filter Q (map (\<lambda>x. if P x then g x else x) xs)))
     + sum_list (map f (filter (\<lambda>x. Q x \<and> P x) xs)) = sum_list (map f (filter Q xs))" for f :: "'a \<Rightarrow> nat"
  by (induction xs) auto

lemma optional_nat_deselect:
  "optional_nat (map (\<lambda>x. if P x then x\<lparr>ci_selected := False, ci_drop_reason := None\<rparr> else x) items)
     + (\<Sum>i\<leftarrow>filter (\<lambda>i. (ci_selected i \<and> \<not> is_mandatory_kind i) \<and> P i) items. unat (ci_estimated_tokens i))
   = optional_nat items"
  by (rule sum_filter_map_split) simp

lemma l5_replaced_tokens:
  "unat (sat_sum (map ci_estimated_tokens (l5_replaced (l5_candidates sel) summary)))
   \<le> (\<Sum>i\<leftarrow>filter (\<lambda>i. (ci_selected i \<and> \<not> is_mandatory_kind i) \<and> ci_id i \<in> set (so_source_ids summary))
        (sel_items sel). unat (ci_estimated_tokens i))"
proof -
  have "unat (sat_sum (map ci_estimated_tokens (l5_replaced (l5_candidates sel) summary)))
    \<le> (\<Sum>i\<leftarrow>l5_replaced (l5_candidates sel) summary. unat (ci_estimated_tokens i))"
    by (simp add: unat_sat_sum comp_def)
  also have "\<dots> \<le> (\<Sum>i\<leftarrow>filter (\<lambda>i. (ci_selected i \<and> \<not> is_mandatory_kind i)
      \<and> ci_id i \<in> set (so_source_ids summary)) (sel_items sel). unat (ci_estimated_tokens i))"
    unfolding l5_replaced_def l5_candidates_def filter_filter by (rule sum_list_filter_mono_nat) auto
  finally show ?thesis .
qed

lemma summary_item_not_mandatory [simp]: "\<not> is_mandatory_kind (summary_item summary template)"
  by (simp add: is_mandatory_kind_def summary_item_def)

lemma add_lt_of_split: "u < s \<Longrightarrow> c \<le> u \<Longrightarrow> a + s = b \<Longrightarrow> a + c < b" for a b c s u :: nat
  by linarith

lemma l5_optional_nat:
  assumes "distinct_ids sel"
    and "so_summary_tokens summary < sat_sum (map ci_estimated_tokens (l5_replaced (l5_candidates sel) summary))"
  shows "optional_nat (l5_items (l5_candidates sel) summary (sel_items sel)) < optional_nat (sel_items sel)"
proof -
  have "unat (so_summary_tokens summary)
    < (\<Sum>i\<leftarrow>filter (\<lambda>i. (ci_selected i \<and> \<not> is_mandatory_kind i) \<and> ci_id i \<in> set (so_source_ids summary))
        (sel_items sel). unat (ci_estimated_tokens i))"
    using assms(2) l5_replaced_tokens [of sel summary] by (simp add: word_less_nat_alt)
  moreover have "optional_nat (case List.find (\<lambda>item. ci_id item \<in> set (so_source_ids summary)) c of
      None \<Rightarrow> [] | Some template \<Rightarrow> [summary_item summary template]) \<le> unat (so_summary_tokens summary)" for c
    by (simp add: summary_item_def split: option.split)
  ultimately show ?thesis
    using optional_nat_deselect [of "\<lambda>x. ci_id x \<in> set (so_source_ids summary)" "sel_items sel"]
    unfolding l5_items_def deselect_source_fold [OF assms(1)]
    unfolding filter_append map_append sum_list_append by (rule add_lt_of_split)
qed

text \<open>The cases of L5, and what the new item list keeps.\<close>

lemma apply_l5_cases:
  obtains "fst (apply_l5 summ (sel, t, outcome)) = sel"
  | summary t' where "sm_summarize summ t (l5_candidates sel) = (Inr summary, t')"
      "so_summary_tokens summary < sat_sum (map ci_estimated_tokens (l5_replaced (l5_candidates sel) summary))"
      "fst (apply_l5 summ (sel, t, outcome)) =
         sel\<lparr>sel_items := l5_items (l5_candidates sel) summary (sel_items sel)\<rparr>"
proof (cases "sm_available summ t \<and> 2 \<le> length (l5_candidates sel)")
  case True
  obtain r t' where r: "sm_summarize summ t (l5_candidates sel) = (r, t')" by (cases "sm_summarize summ t (l5_candidates sel)")
  show ?thesis
  proof (cases r)
    case (Inl e)
    then show ?thesis using that(1) True r by (auto simp: apply_l5_def Let_def)
  next
    case (Inr summary)
    show ?thesis
    proof (cases "so_summary_tokens summary < sat_sum (map ci_estimated_tokens (l5_replaced (l5_candidates sel) summary))")
      case small: True
      with Inr show ?thesis using that(2) [of summary t'] True r by (simp add: apply_l5_def Let_def not_less [symmetric])
    next
      case False
      with Inr show ?thesis using that(1) True r by (simp add: apply_l5_def Let_def not_less)
    qed
  qed
next
  case False
  then show ?thesis using that(1) by (auto simp: apply_l5_def Let_def not_le)
qed

lemma l5_items_reduced:
  assumes "distinct_ids sel" "set (so_source_ids summary) \<subseteq> ci_id ` set (l5_candidates sel)"
  shows "list_all2 (item_reduced ctx) (sel_items sel) (fold deselect_source (so_source_ids summary) (sel_items sel))"
proof -
  have "item_reduced ctx x (x\<lparr>ci_selected := False, ci_drop_reason := None\<rparr>)"
    if "x \<in> set (sel_items sel)" "ci_id x \<in> set (so_source_ids summary)" for x
  proof -
    from that(2) assms(2) obtain y where "y \<in> set (l5_candidates sel)" "ci_id y = ci_id x" by force
    with that(1) assms(1) have "x \<in> set (l5_candidates sel)"
      using distinct_map_nth_unique [of ci_id "sel_items sel" x y] by (auto simp: l5_candidates_def)
    then show ?thesis by (simp add: item_reduced_def l5_candidates_def)
  qed
  then show ?thesis unfolding deselect_source_fold [OF assms(1)] by (simp add: list_all2_map_if)
qed

lemma l5_total:
  "distinct_ids sel \<Longrightarrow> selection_total (fst (apply_l5 summ (sel, t, outcome))) \<le> selection_total sel"
  by (rule apply_l5_cases [of summ sel t outcome])
    (auto simp: selection_total_def intro!: sat_add_mono optional_tokens_mono less_imp_le [OF l5_optional_nat])

section \<open>The reserve level\<close>

lemma l6_loop_spec:
  assumes "released \<le> releasable" "unat releasable - unat released \<le> unat reserves"
  shows "unat (fst (l6_loop releasable amounts (released, reserves)))
           = min (unat released + sum_list (map unat amounts)) (unat releasable)
    \<and> unat (snd (l6_loop releasable amounts (released, reserves)))
           + unat (fst (l6_loop releasable amounts (released, reserves))) = unat reserves + unat released"
  using assms
proof (induction amounts arbitrary: released reserves)
  case (Cons amount amounts)
  show ?case
  proof (cases "releasable \<le> released")
    case True
    then show ?thesis using Cons.prems by (simp add: word_le_nat_alt)
  next
    case False
    define step where "step = min amount (releasable - released)"
    have step: "unat step = min (unat amount) (unat releasable - unat released)"
      using Cons.prems by (simp add: step_def unat_min unat_sub word_le_nat_alt)
    have rel: "unat (released + step) = unat released + unat step"
    proof (rule unat_add_small)
      have "unat released + unat step \<le> unat releasable" using step Cons.prems(1) by (simp add: word_le_nat_alt)
      then show "unat released + unat step < 2 ^ LENGTH(32)"
        using unsigned_less [of releasable, where 'a = nat] by simp
    qed
    have "released + step \<le> releasable" "unat releasable - unat (released + step) \<le> unat (sat_sub reserves step)"
      using step rel Cons.prems by (simp_all add: word_le_nat_alt unat_sat_sub min_def split: if_splits)
    note IH = Cons.IH [OF this]
    have "l6_loop releasable (amount # amounts) (released, reserves)
      = l6_loop releasable amounts (released + step, sat_sub reserves step)"
      using False by (simp add: step_def Let_def)
    with IH step rel Cons.prems show ?thesis by (simp add: word_le_nat_alt unat_sat_sub)
  qed
qed (simp add: word_le_nat_alt)

lemma apply_l6_reserves:
  defines "R \<equiv> (\<lambda>sel. unat (sel_reserves sel))"
  shows "R (fst (apply_l6 ctx (sel, outcome)))
    = R sel - min (sum_list (map unat (optional_reserve_order (lc_profile ctx))))
                  (R sel - unat (protected_reserve (lc_profile ctx)))"
proof -
  define rel where "rel = min (sat_sum (optional_reserve_order (lc_profile ctx)))
    (sat_sub (sel_reserves sel) (protected_reserve (lc_profile ctx)))"
  have rel: "unat rel = min (sum_list (map unat (optional_reserve_order (lc_profile ctx))))
      (R sel - unat (protected_reserve (lc_profile ctx)))"
    using unat_le_max [of "sel_reserves sel"] by (simp add: rel_def R_def unat_min unat_sat_sum unat_sat_sub)
  show ?thesis
  proof (cases "rel = 0")
    case True
    then show ?thesis using rel by (simp add: apply_l6_def rel_def [symmetric] Let_def R_def)
  next
    case False
    have "unat rel - unat (0 :: u32) \<le> unat (sel_reserves sel)" using rel by (simp add: R_def)
    note spec = l6_loop_spec [OF _ this, of "optional_reserve_order (lc_profile ctx)"]
    obtain r v where loop: "l6_loop rel (optional_reserve_order (lc_profile ctx)) (0, sel_reserves sel) = (r, v)"
      by fastforce
    have "unat r = unat rel" "unat v + unat r = R sel" using spec rel unfolding R_def loop by simp_all
    then have "unat v = R sel - unat rel" by linarith
    then show ?thesis using False by (simp add: apply_l6_def rel_def [symmetric] Let_def R_def loop rel)
  qed
qed

lemma apply_l6_items: "sel_items (fst (apply_l6 ctx (sel, outcome))) = sel_items sel"
  by (auto simp: apply_l6_def Let_def split: prod.split)

lemma apply_l6_total: "selection_total (fst (apply_l6 ctx (sel, outcome))) \<le> selection_total sel"
proof -
  have "sel_reserves (fst (apply_l6 ctx (sel, outcome))) \<le> sel_reserves sel"
    using apply_l6_reserves [of ctx sel outcome] by (simp add: word_le_nat_alt)
  then show ?thesis
    unfolding selection_total_def by (rule sat_add_mono [rotated]) (simp add: optional_tokens_def apply_l6_items)
qed

section \<open>The pass as a bounded run of steps\<close>

text \<open>The state after the first \<open>k\<close> levels, without the test of the goal.\<close>

definition ladder_prefix ::
  "ladder_context \<Rightarrow> 's offload_sink \<Rightarrow> 't summarizer \<Rightarrow> nat \<Rightarrow> ('s, 't) ladder_state \<Rightarrow> ('s, 't) ladder_state" where
  "ladder_prefix ctx sink summ k st = fold (ladder_step ctx sink summ) (take k ladder_order) st"

definition ladder_start :: "selection \<Rightarrow> 's \<Rightarrow> 't \<Rightarrow> ('s, 't) ladder_state" where
  "ladder_start sel s t =
     \<lparr>ls_selection = sel, ls_sink = s, ls_summarizer = t, ls_outcome = ladder_outcome_default\<rparr>"

lemma ladder_loop_prefix:
  "\<exists>k\<le>length levels. ladder_loop ctx sink summ levels st = fold (ladder_step ctx sink summ) (take k levels) st
     \<and> (\<forall>j<k. \<not> goal_met ctx (ls_selection (fold (ladder_step ctx sink summ) (take j levels) st)))
     \<and> (k < length levels \<longrightarrow> goal_met ctx (ls_selection (ladder_loop ctx sink summ levels st)))"
proof (induction levels arbitrary: st)
  case (Cons level levels)
  show ?case
  proof (cases "goal_met ctx (ls_selection st)")
    case True
    then show ?thesis by (intro exI [of _ 0]) simp
  next
    case False
    obtain k where k: "k \<le> length levels"
      "ladder_loop ctx sink summ levels (ladder_step ctx sink summ level st)
         = fold (ladder_step ctx sink summ) (take k levels) (ladder_step ctx sink summ level st)"
      "\<forall>j<k. \<not> goal_met ctx (ls_selection (fold (ladder_step ctx sink summ) (take j levels) (ladder_step ctx sink summ level st)))"
      "k < length levels \<longrightarrow> goal_met ctx (ls_selection (ladder_loop ctx sink summ levels (ladder_step ctx sink summ level st)))"
      using Cons.IH by blast
    have "\<not> goal_met ctx (ls_selection (fold (ladder_step ctx sink summ) (take j (level # levels)) st))"
      if "j < Suc k" for j
      using that False k(3) by (cases j) auto
    then show ?thesis using k False by (intro exI [of _ "Suc k"]) auto
  qed
qed simp

lemma length_ladder_order [simp]: "length ladder_order = 6"
  by (simp add: ladder_order_def)

lemma run_ladder_loop:
  "run_ladder ctx sink summ sel s t = ladder_loop ctx sink summ ladder_order (ladder_start sel s t)"
  by (simp add: run_ladder_def ladder_start_def ladder_order_def)

lemma ladder_prefix_Suc:
  "k < 6 \<Longrightarrow> ladder_prefix ctx sink summ (Suc k) st =
     ladder_step ctx sink summ (ladder_order ! k) (ladder_prefix ctx sink summ k st)"
  by (simp add: ladder_prefix_def take_Suc_conv_app_nth)

lemma run_ladder_prefix:
  obtains k where "k \<le> 6" "run_ladder ctx sink summ sel s t = ladder_prefix ctx sink summ k (ladder_start sel s t)"
    "\<forall>j<k. \<not> goal_met ctx (ls_selection (ladder_prefix ctx sink summ j (ladder_start sel s t)))"
    "k < 6 \<longrightarrow> goal_met ctx (ls_selection (run_ladder ctx sink summ sel s t))"
  using ladder_loop_prefix [of ladder_order ctx sink summ "ladder_start sel s t"]
  unfolding run_ladder_loop [symmetric] ladder_prefix_def [symmetric] length_ladder_order by blast

text \<open>The effect of a step on the selection.\<close>

lemma ladder_step_selection:
  "ls_selection (ladder_step ctx sink summ level st) = ls_selection (apply_level ctx sink summ level st)"
  by (simp add: ladder_step_def Let_def)

lemma apply_level_selection:
  "ls_selection (apply_level ctx sink summ ExpiredDuplicateSuperseded st) = apply_l1 ctx (ls_selection st)"
  "ls_selection (apply_level ctx sink summ LowPriorityOptional st) = apply_l2 ctx (ls_selection st)"
  "ls_selection (apply_level ctx sink summ StaleToolOutputs st) = apply_l3 ctx (ls_selection st)"
  "ls_selection (apply_level ctx sink summ OffloadLargeItems st)
     = fst (apply_l4 ctx sink (ls_selection st, ls_sink st, ls_outcome st))"
  "ls_selection (apply_level ctx sink summ CompressHistory st)
     = fst (apply_l5 summ (ls_selection st, ls_summarizer st, ls_outcome st))"
  "ls_selection (apply_level ctx sink summ ReleaseOptionalReserves st)
     = (if lc_allow_reserve_release ctx then fst (apply_l6 ctx (ls_selection st, ls_outcome st)) else ls_selection st)"
  by (simp_all split: prod.split)

lemma step_reduced:
  "k < 4 \<Longrightarrow> distinct_ids (ls_selection st) \<Longrightarrow>
   sel_reduced ctx (ls_selection st) (ls_selection (ladder_step ctx sink summ (ladder_order ! k) st))"
  unfolding ladder_step_selection
  by (auto simp: ladder_order_def less_Suc_eq numeral_nat nth_Cons' apply_level_selection
      simp del: apply_level.simps
      intro: apply_l1_reduced apply_l2_reduced apply_l3_reduced apply_l4_reduced)

lemma prefix_reduced:
  "k \<le> 4 \<Longrightarrow> distinct_ids (ls_selection st) \<Longrightarrow>
   sel_reduced ctx (ls_selection st) (ls_selection (ladder_prefix ctx sink summ k st))"
proof (induction k)
  case (Suc k)
  then have IH: "sel_reduced ctx (ls_selection st) (ls_selection (ladder_prefix ctx sink summ k st))" by simp
  with Suc.prems have "distinct_ids (ls_selection (ladder_prefix ctx sink summ k st))"
    by (simp add: sel_reduced_ids)
  with Suc.prems step_reduced [of k "ladder_prefix ctx sink summ k st" ctx sink summ]
  have "sel_reduced ctx (ls_selection (ladder_prefix ctx sink summ k st))
      (ls_selection (ladder_prefix ctx sink summ (Suc k) st))"
    by (simp add: ladder_prefix_Suc)
  with IH show ?case by (rule sel_reduced_trans)
qed (simp add: ladder_prefix_def)

lemma prefix_5:
  "ls_selection (ladder_prefix ctx sink summ 5 st) =
     (let st = ladder_prefix ctx sink summ 4 st
      in fst (apply_l5 summ (ls_selection st, ls_summarizer st, ls_outcome st)))"
  using ladder_prefix_Suc [of 4 ctx sink summ st]
  by (simp add: ladder_order_def ladder_step_selection Let_def apply_level_selection del: apply_level.simps)

lemma prefix_6:
  "ls_selection (ladder_prefix ctx sink summ 6 st) =
     (let st = ladder_prefix ctx sink summ 5 st
      in if lc_allow_reserve_release ctx then fst (apply_l6 ctx (ls_selection st, ls_outcome st)) else ls_selection st)"
  using ladder_prefix_Suc [of 5 ctx sink summ st]
  by (simp add: ladder_order_def ladder_step_selection Let_def apply_level_selection del: apply_level.simps)

section \<open>Properties of the pass\<close>

lemma apply_l5_mandatory:
  assumes "summarizer_sources summ" "distinct_ids sel"
  shows "filter is_mandatory_kind (sel_items (fst (apply_l5 summ (sel, t, outcome))))
    = filter is_mandatory_kind (sel_items sel)"
proof (rule apply_l5_cases [of summ sel t outcome])
  fix summary t'
  assume run: "sm_summarize summ t (l5_candidates sel) = (Inr summary, t')"
    and eq: "fst (apply_l5 summ (sel, t, outcome)) = sel\<lparr>sel_items := l5_items (l5_candidates sel) summary (sel_items sel)\<rparr>"
  have "set (so_source_ids summary) \<subseteq> ci_id ` set (l5_candidates sel)"
    using run by (rule summarizer_sources.sources [OF assms(1)])
  from list_all2_mandatory [OF l5_items_reduced [OF assms(2) this]] eq show ?thesis
    by (auto simp: l5_items_def split: option.split)
qed simp

lemma run_ladder_mandatory:
  assumes "summarizer_sources summ" "distinct_ids sel"
  shows "filter is_mandatory_kind (sel_items (ls_selection (run_ladder ctx sink summ sel s t)))
           = filter is_mandatory_kind (sel_items sel)
    \<and> mandatory_tokens (ls_selection (run_ladder ctx sink summ sel s t)) = mandatory_tokens sel"
proof -
  let ?st = "ladder_start sel s t" and ?p = "\<lambda>k. ladder_prefix ctx sink summ k (ladder_start sel s t)"
  have d: "distinct_ids (ls_selection ?st)" using assms(2) by (simp add: ladder_start_def)
  have le4: "filter is_mandatory_kind (sel_items (ls_selection (?p k))) = filter is_mandatory_kind (sel_items sel)"
    if "k \<le> 4" for k
    using sel_reduced_mandatory [OF prefix_reduced [OF that d]] by (simp add: ladder_start_def)
  have d4: "distinct_ids (ls_selection (?p 4))"
    using sel_reduced_ids [OF prefix_reduced [OF _ d]] d by simp
  have p5: "filter is_mandatory_kind (sel_items (ls_selection (?p 5))) = filter is_mandatory_kind (sel_items sel)"
    using apply_l5_mandatory [OF assms(1) d4] le4 [of 4] by (simp add: prefix_5 Let_def)
  have p6: "filter is_mandatory_kind (sel_items (ls_selection (?p 6))) = filter is_mandatory_kind (sel_items sel)"
    using p5 by (simp add: prefix_6 Let_def apply_l6_items)
  obtain k where k: "k \<le> 6" "run_ladder ctx sink summ sel s t = ?p k"
    by (rule run_ladder_prefix [of ctx sink summ sel s t])
  have "k \<le> 4 \<or> k = 5 \<or> k = 6" using k(1) by linarith
  then have "filter is_mandatory_kind (sel_items (ls_selection (?p k))) = filter is_mandatory_kind (sel_items sel)"
    using le4 p5 p6 by blast
  then show ?thesis using mandatory_tokens_filter k(2) by metis
qed

text \<open>The ladder never drops, rewrites or reorders a mandatory item: with distinct ids and a
  summarizer whose sources are items it was given, the mandatory items after the pass are exactly
  those before it, whatever the store and the summarizer answer, and so are their tokens.\<close>

theorem ladder_keeps_mandatory:
  assumes "summarizer_sources summ" "distinct_ids sel"
  shows "filter is_mandatory_kind (sel_items (ls_selection (run_ladder ctx sink summ sel s t)))
           = filter is_mandatory_kind (sel_items sel)
    \<and> mandatory_tokens (ls_selection (run_ladder ctx sink summ sel s t)) = mandatory_tokens sel"
  using assms by (rule run_ladder_mandatory)

text \<open>A small selection for the witnesses: a prompt, a policy, and optional items of low priority,
  in tool output and in history.\<close>

definition sample_item :: "string \<Rightarrow> item_kind \<Rightarrow> u8 \<Rightarrow> u32 \<Rightarrow> context_item" where
  "sample_item id' kind priority tokens =
     builder_sizes 40000 tokens (builder_priority priority (builder_new id' kind id'))"

definition sample_selection :: selection where
  "sample_selection = selection_new
     [sample_item ''p'' UserPrompt 50 50, sample_item ''a'' SafetyPolicy 50 10,
      sample_item ''m'' Memory 10 100, sample_item ''t'' ToolResult 60 100,
      sample_item ''h'' History 60 100, sample_item ''i'' History 70 100] 500"

definition sample_profile :: model_context_profile where
  "sample_profile =
     \<lparr>mp_schema_version = 1, mp_profile_version = ''v'', mp_provider = ''p'', mp_model = ''m'',
      mp_max_context_tokens = 4000, mp_target_tokens = 1000, mp_soft_limit_tokens = 2000,
      mp_hard_limit_tokens = 3000, mp_absolute_mvc_max_limit = 1000, mp_tool_schema_reserve = 100,
      mp_tool_call_reserve = 100, mp_final_answer_reserve = 100, mp_streaming_reserve = 100,
      mp_retry_reserve = 100, mp_low_priority_cutoff = 30, mp_offload_threshold_bytes = 32768\<rparr>"

definition sample_context :: "u32 \<Rightarrow> ladder_context" where
  "sample_context goal =
     \<lparr>lc_now = 1000, lc_profile = sample_profile, lc_goal_context_tokens = goal,
      lc_allow_reserve_release = True\<rparr>"

theorem ladder_keeps_mandatory_witness:
  "map ci_id (filter is_mandatory_kind (sel_items (ls_selection
     (run_ladder (sample_context 200) no_offload no_summarizer sample_selection () ())))) = [''p'', ''a'']
   \<and> map ci_id (selected_items (ls_selection
     (run_ladder (sample_context 200) no_offload no_summarizer sample_selection () ()))) = [''p'', ''a'', ''h'', ''i'']"
proof -
  have d: "distinct_ids sample_selection" by code_simp
  have f: "map ci_id (filter is_mandatory_kind (sel_items sample_selection)) = [''p'', ''a'']" by code_simp
  have "map ci_id (selected_items (ls_selection
     (run_ladder (sample_context 200) no_offload no_summarizer sample_selection () ()))) = [''p'', ''a'', ''h'', ''i'']"
    by code_simp
  then show ?thesis
    using ladder_keeps_mandatory [OF no_summary.summarizer_sources_axioms d, of "sample_context 200" no_offload "()" "()"] f
    by simp
qed

lemma apply_level_applied:
  "lo_levels_applied (ls_outcome (apply_level ctx sink summ level st)) = lo_levels_applied (ls_outcome st)"
proof -
  have l4: "lo_levels_applied (snd (snd (l4_loop ctx sink ids (sel, s, outcome)))) = lo_levels_applied outcome"
    for ids sel s outcome
    by (induction ids arbitrary: sel s outcome)
      (auto simp: push_diagnostic_def split: option.split prod.split sum.split)
  have "lo_levels_applied (snd (snd (apply_l4 ctx sink (sel, s, outcome)))) = lo_levels_applied outcome" for sel s outcome
    by (simp add: apply_l4_def l4 push_diagnostic_def)
  moreover have "lo_levels_applied (snd (snd (apply_l5 summ (sel, t, outcome)))) = lo_levels_applied outcome" for sel t outcome
    by (simp add: apply_l5_def Let_def push_diagnostic_def split: prod.split sum.split)
  moreover have "lo_levels_applied (snd (apply_l6 ctx (sel, outcome))) = lo_levels_applied outcome" for sel outcome
    by (simp add: apply_l6_def Let_def split: prod.split)
  ultimately show ?thesis by (cases level) (simp_all split: prod.split, (metis snd_conv)+)
qed

lemma ladder_step_applied:
  "lo_levels_applied (ls_outcome (ladder_step ctx sink summ level st)) =
     lo_levels_applied (ls_outcome st)
     @ (if selection_total (ls_selection (ladder_step ctx sink summ level st)) < selection_total (ls_selection st)
        then [level] else [])"
  by (simp add: ladder_step_def Let_def apply_level_applied)

lemma fold_step_applied:
  "\<exists>ls. lo_levels_applied (ls_outcome (fold (ladder_step ctx sink summ) levels st))
      = lo_levels_applied (ls_outcome st) @ ls \<and> subseq ls levels"
proof (induction levels arbitrary: st)
  case (Cons level levels)
  obtain ls where "lo_levels_applied (ls_outcome (fold (ladder_step ctx sink summ) (level # levels) st))
      = lo_levels_applied (ls_outcome (ladder_step ctx sink summ level st)) @ ls" "subseq ls levels"
    using Cons.IH [of "ladder_step ctx sink summ level st"] by auto
  then show ?case by (auto simp: ladder_step_applied intro: subseq_Cons')
qed auto

text \<open>C37: The pass is a bounded run: it applies the levels in their fixed order, each at most once,
  stops before the first level at which the goal is met, and reports the levels that reduced the
  total, in order. So it ends with the goal met or with all six levels tried.\<close>

theorem ladder_bounded_run:
  "\<exists>k\<le>6. run_ladder ctx sink summ sel s t = ladder_prefix ctx sink summ k (ladder_start sel s t)
     \<and> (\<forall>j<k. \<not> goal_met ctx (ls_selection (ladder_prefix ctx sink summ j (ladder_start sel s t))))
     \<and> (k = 6 \<or> goal_met ctx (ls_selection (run_ladder ctx sink summ sel s t)))
     \<and> subseq (lo_levels_applied (ls_outcome (run_ladder ctx sink summ sel s t))) (take k ladder_order)"
proof -
  obtain k where k: "k \<le> 6" "run_ladder ctx sink summ sel s t = ladder_prefix ctx sink summ k (ladder_start sel s t)"
    "\<forall>j<k. \<not> goal_met ctx (ls_selection (ladder_prefix ctx sink summ j (ladder_start sel s t)))"
    "k < 6 \<longrightarrow> goal_met ctx (ls_selection (run_ladder ctx sink summ sel s t))"
    by (rule run_ladder_prefix)
  have "subseq (lo_levels_applied (ls_outcome (run_ladder ctx sink summ sel s t))) (take k ladder_order)"
    using fold_step_applied [of ctx sink summ "take k ladder_order" "ladder_start sel s t"]
    by (auto simp: k(2) ladder_prefix_def ladder_start_def ladder_outcome_default_def)
  with k show ?thesis by (metis nat_less_le)
qed

theorem ladder_bounded_run_witness:
  "\<exists>k\<le>6. run_ladder (sample_context 200) no_offload no_summarizer sample_selection () ()
      = ladder_prefix (sample_context 200) no_offload no_summarizer k (ladder_start sample_selection () ())
     \<and> subseq (lo_levels_applied (ls_outcome
          (run_ladder (sample_context 200) no_offload no_summarizer sample_selection () ()))) (take k ladder_order)"
  using ladder_bounded_run [of "sample_context 200" no_offload no_summarizer sample_selection "()" "()"] by blast

text \<open>Every step keeps or lowers the total.\<close>

lemma prefix_step_total:
  assumes "k < 6" "distinct_ids (ls_selection st)"
  shows "selection_total (ls_selection (ladder_prefix ctx sink summ (Suc k) st))
    \<le> selection_total (ls_selection (ladder_prefix ctx sink summ k st))"
proof -
  have d: "distinct_ids (ls_selection (ladder_prefix ctx sink summ j st))" if "j \<le> 4" for j
    using sel_reduced_ids [OF prefix_reduced [OF that assms(2)]] assms(2) by simp
  consider "k < 4" | "k = 4" | "k = 5" using assms(1) by linarith
  then show ?thesis
  proof cases
    case 1
    then show ?thesis
      using sel_reduced_total [OF step_reduced [OF 1 d [of k]]] assms(1) by (simp add: ladder_prefix_Suc)
  next
    case 2
    then show ?thesis using l5_total [OF d [of 4]] by (simp add: prefix_5 Let_def)
  next
    case 3
    then show ?thesis using apply_l6_total by (simp add: prefix_6 Let_def)
  qed
qed

lemma prefix_total_applied:
  assumes "distinct_ids (ls_selection st)" "k \<le> 6" "lo_levels_applied (ls_outcome st) = []"
  shows "selection_total (ls_selection (ladder_prefix ctx sink summ k st)) \<le> selection_total (ls_selection st)
    \<and> (selection_total (ls_selection (ladder_prefix ctx sink summ k st)) < selection_total (ls_selection st)
       \<longleftrightarrow> lo_levels_applied (ls_outcome (ladder_prefix ctx sink summ k st)) \<noteq> [])"
  using assms(2)
proof (induction k)
  case (Suc k)
  then have step: "selection_total (ls_selection (ladder_prefix ctx sink summ (Suc k) st))
      \<le> selection_total (ls_selection (ladder_prefix ctx sink summ k st))"
    by (intro prefix_step_total assms(1)) simp
  have app: "lo_levels_applied (ls_outcome (ladder_prefix ctx sink summ (Suc k) st)) =
      lo_levels_applied (ls_outcome (ladder_prefix ctx sink summ k st))
      @ (if selection_total (ls_selection (ladder_prefix ctx sink summ (Suc k) st))
            < selection_total (ls_selection (ladder_prefix ctx sink summ k st)) then [ladder_order ! k] else [])"
    using Suc.prems by (simp add: ladder_prefix_Suc ladder_step_applied)
  show ?case using Suc.IH Suc.prems step app by auto
qed (simp add: ladder_prefix_def assms(3))

text \<open>With distinct ids the pass never increases the total of optional tokens and reserves, and
  it lowers it exactly when it reports a level as applied.\<close>

theorem ladder_total_decreases:
  assumes "distinct_ids sel"
  shows "selection_total (ls_selection (run_ladder ctx sink summ sel s t)) \<le> selection_total sel
    \<and> (selection_total (ls_selection (run_ladder ctx sink summ sel s t)) < selection_total sel
       \<longleftrightarrow> lo_levels_applied (ls_outcome (run_ladder ctx sink summ sel s t)) \<noteq> [])"
proof (rule run_ladder_prefix [of ctx sink summ sel s t])
  fix k assume k: "k \<le> 6" "run_ladder ctx sink summ sel s t = ladder_prefix ctx sink summ k (ladder_start sel s t)"
  have "ls_selection (ladder_start sel s t) = sel" "lo_levels_applied (ls_outcome (ladder_start sel s t)) = []"
    by (simp_all add: ladder_start_def ladder_outcome_default_def)
  with prefix_total_applied [of "ladder_start sel s t" k ctx sink summ] assms k show ?thesis by simp
qed

theorem ladder_total_decreases_witness:
  "selection_total (ls_selection (run_ladder (sample_context 200) no_offload no_summarizer sample_selection () ()))
     < selection_total sample_selection"
proof -
  have d: "distinct_ids sample_selection" by code_simp
  have "lo_levels_applied (ls_outcome (run_ladder (sample_context 200) no_offload no_summarizer sample_selection () ())) \<noteq> []"
    by code_simp
  with ladder_total_decreases [OF d, of "sample_context 200" no_offload no_summarizer "()" "()"] show ?thesis by simp
qed

text \<open>Only L6 touches the reserves and the count of what was released.\<close>

lemma drop_loop_reserves: "sel_reserves (drop_loop ctx reason ids sel) = sel_reserves sel"
  by (induction ids arbitrary: sel) (auto simp: drop_item_def)

lemma l1_loop_reserves: "sel_reserves (l1_loop ctx dups newest ids sel) = sel_reserves sel"
  by (induction ids arbitrary: sel) (auto simp: drop_item_def split: option.split)

lemma l4_loop_reserves:
  "sel_reserves (fst (l4_loop ctx sink ids (sel, s, outcome))) = sel_reserves sel \<and>
   lo_reserves_released (snd (snd (l4_loop ctx sink ids (sel, s, outcome)))) = lo_reserves_released outcome"
  by (induction ids arbitrary: sel s outcome)
    (auto simp: push_diagnostic_def split: option.split prod.split sum.split)

lemma apply_l5_reserves:
  "sel_reserves (fst (apply_l5 summ (sel, t, outcome))) = sel_reserves sel \<and>
   lo_reserves_released (snd (snd (apply_l5 summ (sel, t, outcome)))) = lo_reserves_released outcome"
  by (simp add: apply_l5_def Let_def push_diagnostic_def split: prod.split sum.split)

lemma apply_level_reserves:
  assumes "level \<noteq> ReleaseOptionalReserves"
  shows "sel_reserves (ls_selection (apply_level ctx sink summ level st)) = sel_reserves (ls_selection st)
    \<and> lo_reserves_released (ls_outcome (apply_level ctx sink summ level st)) = lo_reserves_released (ls_outcome st)"
proof -
  have l4: "sel_reserves (fst (apply_l4 ctx sink (sel, s, outcome))) = sel_reserves sel \<and>
      lo_reserves_released (snd (snd (apply_l4 ctx sink (sel, s, outcome)))) = lo_reserves_released outcome" for sel s outcome
    by (simp add: apply_l4_def l4_loop_reserves push_diagnostic_def)
  show ?thesis
  proof (cases level)
    case OffloadLargeItems
    then show ?thesis using l4 [of "ls_selection st" "ls_sink st" "ls_outcome st"] by (auto split: prod.split)
  next
    case CompressHistory
    then show ?thesis using apply_l5_reserves [of summ "ls_selection st" "ls_summarizer st" "ls_outcome st"]
      by (auto split: prod.split)
  qed (use assms in \<open>simp_all add: apply_l1_def apply_l2_def apply_l3_def Let_def l1_loop_reserves drop_loop_reserves\<close>)
qed

lemma prefix_reserves:
  "k \<le> 5 \<Longrightarrow> sel_reserves (ls_selection (ladder_prefix ctx sink summ k st)) = sel_reserves (ls_selection st)
     \<and> lo_reserves_released (ls_outcome (ladder_prefix ctx sink summ k st)) = lo_reserves_released (ls_outcome st)"
proof (induction k)
  case (Suc k)
  then have "ladder_order ! k \<noteq> ReleaseOptionalReserves"
    by (auto simp: ladder_order_def nth_Cons' )
  from apply_level_reserves [OF this, of ctx sink summ "ladder_prefix ctx sink summ k st"] Suc show ?case
    by (simp add: ladder_prefix_Suc ladder_step_def Let_def)
qed (simp add: ladder_prefix_def)

lemma apply_l6_released:
  "lo_reserves_released outcome = 0 \<Longrightarrow>
   unat (sel_reserves (fst (apply_l6 ctx (sel, outcome))))
     + unat (lo_reserves_released (snd (apply_l6 ctx (sel, outcome)))) = unat (sel_reserves sel)"
proof -
  assume 0: "lo_reserves_released outcome = 0"
  define rel where "rel = min (sat_sum (optional_reserve_order (lc_profile ctx)))
    (sat_sub (sel_reserves sel) (protected_reserve (lc_profile ctx)))"
  obtain r v where loop: "l6_loop rel (optional_reserve_order (lc_profile ctx)) (0, sel_reserves sel) = (r, v)"
    by fastforce
  have "unat rel - unat (0 :: u32) \<le> unat (sel_reserves sel)"
    by (simp add: rel_def unat_min unat_sat_sub min.coboundedI2)
  from l6_loop_spec [OF _ this, of "optional_reserve_order (lc_profile ctx)"]
  have "unat v + unat r = unat (sel_reserves sel)" by (simp add: loop)
  then show ?thesis using 0 by (simp add: apply_l6_def rel_def [symmetric] Let_def loop)
qed

lemma run_ladder_reserves:
  fixes ctx sink summ sel s t
  defines "final \<equiv> run_ladder ctx sink summ sel s t"
  shows "unat (sel_reserves (ls_selection final)) + unat (lo_reserves_released (ls_outcome final))
      = unat (sel_reserves sel)
    \<and> min (unat (sel_reserves sel)) (unat (protected_reserve (lc_profile ctx)))
      \<le> unat (sel_reserves (ls_selection final))
    \<and> (lc_allow_reserve_release ctx \<or> sel_reserves (ls_selection final) = sel_reserves sel)"
proof (rule run_ladder_prefix [of ctx sink summ sel s t])
  let ?p = "\<lambda>k. ladder_prefix ctx sink summ k (ladder_start sel s t)"
  have start: "sel_reserves (ls_selection (ladder_start sel s t)) = sel_reserves sel"
    "lo_reserves_released (ls_outcome (ladder_start sel s t)) = 0"
    by (simp_all add: ladder_start_def ladder_outcome_default_def)
  fix k assume k: "k \<le> 6" "run_ladder ctx sink summ sel s t = ?p k"
  show ?thesis
  proof (cases "k \<le> 5")
    case True
    then show ?thesis using prefix_reserves [OF True, of ctx sink summ "ladder_start sel s t"] start
      by (simp add: final_def k(2))
  next
    case False
    then have "k = 6" using k(1) by simp
    have five: "sel_reserves (ls_selection (?p 5)) = sel_reserves sel" "lo_reserves_released (ls_outcome (?p 5)) = 0"
      using prefix_reserves [of 5 ctx sink summ "ladder_start sel s t"] start by simp_all
    have six: "?p 6 = ladder_step ctx sink summ ReleaseOptionalReserves (?p 5)"
      using ladder_prefix_Suc [of 5 ctx sink summ "ladder_start sel s t"] by (simp add: ladder_order_def)
    have rel: "lo_reserves_released (ls_outcome (?p 6)) =
        (if lc_allow_reserve_release ctx then lo_reserves_released (snd (apply_l6 ctx (ls_selection (?p 5), ls_outcome (?p 5))))
         else 0)"
      unfolding six using five(2) by (simp add: ladder_step_def Let_def split: prod.split)
    have "min a b \<le> a - min c (a - b)" for a b c :: nat by linarith
    then show ?thesis
      using apply_l6_released [OF five(2), of ctx "ls_selection (?p 5)"] five
        apply_l6_reserves [of ctx "ls_selection (?p 5)" "ls_outcome (?p 5)"]
      by (simp add: final_def k(2) \<open>k = 6\<close> rel prefix_6 Let_def)
  qed
qed

text \<open>The pass accounts for every reserved token: what remains plus what it reports as released is
  what was reserved. The tool-call and final-answer reserves are never touched, and without the
  permission to release nothing changes.\<close>

theorem ladder_reserves_protected:
  fixes ctx sink summ sel s t
  defines "final \<equiv> run_ladder ctx sink summ sel s t"
  shows "unat (sel_reserves (ls_selection final)) + unat (lo_reserves_released (ls_outcome final))
      = unat (sel_reserves sel)
    \<and> min (unat (sel_reserves sel)) (unat (protected_reserve (lc_profile ctx)))
      \<le> unat (sel_reserves (ls_selection final))
    \<and> (lc_allow_reserve_release ctx \<or> sel_reserves (ls_selection final) = sel_reserves sel)"
  unfolding final_def by (rule run_ladder_reserves)

text \<open>Only optional items of workspace privacy above the size threshold, and not offloaded
  before, are ever handed to the artifact store: a predicate on the store that such writes keep
  holds after the pass.\<close>

theorem ladder_offloads_workspace_only:
  assumes "distinct_ids sel"
    and step: "\<And>s item. Q s \<Longrightarrow> allows_offload (ci_privacy item) \<Longrightarrow> \<not> is_mandatory_kind item \<Longrightarrow>
      mp_offload_threshold_bytes (lc_profile ctx) < ci_bytes item \<Longrightarrow> ci_artifact_locator item = None \<Longrightarrow>
      Q (snd (os_offload sink s item))"
    and "Q s"
  shows "Q (ls_sink (run_ladder ctx sink summ sel s t))"
proof -
  have loop: "Q (fst (snd (l4_loop ctx sink ids (sel, s, outcome))))"
    if "distinct_ids sel" "distinct ids" "\<forall>id'\<in>set ids. l4_pending ctx sel id'" "Q s" for ids sel s outcome
    using that
  proof (induction ids arbitrary: sel s outcome)
    case (Cons id' ids)
    have Q: "Q s'" if "find_item id' sel = Some item" "os_offload sink s item = (r, s')" for item r s'
      using step [of s item] that Cons.prems find_item_SomeD [OF that(1)]
      by (auto simp: l4_pending_def l4_candidate_def)
    have d: "distinct_ids (sel\<lparr>sel_items := update_first (\<lambda>x. ci_id x = id') (offload_slot result) (sel_items sel)\<rparr>)"
      for result using Cons.prems(1) by (simp add: update_first_map)
    show ?case
      using Cons.prems Q
      by (auto intro!: Cons.IH d [simplified] l4_pending_update split: option.split prod.split sum.split)
  qed simp
  have l4: "Q (fst (snd (apply_l4 ctx sink (sel, s, outcome))))" if "distinct_ids sel" "Q s" for sel s outcome
    using that by (auto simp: apply_l4_def intro!: loop distinct_candidates dest: l4_pending_candidates)
  have level: "Q (ls_sink (ladder_step ctx sink summ (ladder_order ! k) st))"
    if "k < 4 \<longrightarrow> distinct_ids (ls_selection st)" "Q (ls_sink st)" "k < 6" for k and st :: "('a, 'b) ladder_state"
  proof -
    have "k = 0 \<or> k = 1 \<or> k = 2 \<or> k = 3 \<or> k = 4 \<or> k = 5" using that(3) by linarith
    then show ?thesis
      using that(1,2) l4 [of "ls_selection st" "ls_sink st" "ls_outcome st"]
      by (auto simp: ladder_order_def ladder_step_def Let_def split: prod.split)
  qed
  have "Q (ls_sink (ladder_prefix ctx sink summ k (ladder_start sel s t)))" if "k \<le> 6" for k
    using that
  proof (induction k)
    case 0
    then show ?case using assms(3) by (simp add: ladder_prefix_def ladder_start_def)
  next
    case (Suc k)
    have "k < 4 \<longrightarrow> distinct_ids (ls_selection (ladder_prefix ctx sink summ k (ladder_start sel s t)))"
      using sel_reduced_ids [OF prefix_reduced [of k "ladder_start sel s t"]] assms(1)
      by (auto simp: ladder_start_def)
    with Suc level show ?case by (simp add: ladder_prefix_Suc)
  qed
  then show ?thesis by (metis run_ladder_prefix)
qed

text \<open>A store that records the privacy and size of every item it is given.\<close>

definition logging_sink :: "(privacy \<times> u64) list offload_sink" where
  "logging_sink =
     \<lparr>os_available = (\<lambda>_. True),
      os_offload = (\<lambda>log item. (Inr \<lparr>oo_locator = ''artifact:'' @ ci_id item, oo_summary_tokens = 5,
         oo_offloaded_bytes = ci_bytes item\<rparr>, (ci_privacy item, ci_bytes item) # log))\<rparr>"

theorem ladder_offloads_workspace_only_witness:
  "list_all (\<lambda>entry. fst entry = PrivWorkspace)
     (ls_sink (run_ladder (sample_context 100) logging_sink no_summarizer sample_selection [] ()))
   \<and> length (ls_sink (run_ladder (sample_context 100) logging_sink no_summarizer sample_selection [] ())) = 2"
proof
  have d: "distinct_ids sample_selection" by code_simp
  show "list_all (\<lambda>entry. fst entry = PrivWorkspace)
      (ls_sink (run_ladder (sample_context 100) logging_sink no_summarizer sample_selection [] ()))"
    by (rule ladder_offloads_workspace_only [OF d, of "list_all (\<lambda>entry. fst entry = PrivWorkspace)"])
      (auto simp: logging_sink_def allows_offload_def)
  show "length (ls_sink (run_ladder (sample_context 100) logging_sink no_summarizer sample_selection [] ())) = 2"
    by code_simp
qed

section \<open>What remains when the goal is not met\<close>

lemma item_reduced_parent: "item_reduced ctx i i' \<Longrightarrow> ci_parent_id i' = ci_parent_id i"
proof -
  assume "item_reduced ctx i i'"
  then obtain a b c d where "i' = i\<lparr>ci_selected := a, ci_drop_reason := b,
      ci_estimated_tokens := c, ci_artifact_locator := d\<rparr>"
    by (auto simp only: item_reduced_def)
  then show ?thesis by simp
qed

lemma l1_reason_None:
  "l1_reason ctx dups newest x = None \<Longrightarrow>
   \<not> ttl_expired x (lc_now ctx) \<and> \<not> retention_expired x (lc_now ctx) \<and> ci_id x \<notin> set dups"
  by (auto simp: l1_reason_def split: if_splits)

lemma item_reduced_l1_reason: "item_reduced ctx i i' \<Longrightarrow> l1_reason ctx dups newest i' = l1_reason ctx dups newest i"
  by (simp add: l1_reason_def item_reduced_kept item_reduced_parent split: option.split)

lemma drop_item_unselected:
  "distinct_ids sel \<Longrightarrow> x \<in> set (sel_items (drop_item id' reason sel)) \<Longrightarrow> ci_id x = id' \<Longrightarrow> \<not> ci_selected x"
proof -
  assume d: "distinct_ids sel" and x: "x \<in> set (sel_items (drop_item id' reason sel))" and id: "ci_id x = id'"
  let ?f = "\<lambda>y. y\<lparr>ci_selected := False, ci_drop_reason := Some reason\<rparr>"
  have "sel_items (drop_item id' reason sel) = map (\<lambda>y. if ci_id y = id' then ?f y else y) (sel_items sel)"
    unfolding drop_item_def update_first_distinct [OF d] by simp
  with x have "x \<in> (\<lambda>y. if ci_id y = id' then ?f y else y) ` set (sel_items sel)" by (simp only: set_map)
  then obtain y where y: "x = (if ci_id y = id' then ?f y else y)" by (rule imageE)
  show ?thesis
  proof (cases "ci_id y = id'")
    case True
    then have "x = ?f y" using y by (simp only: refl if_True)
    then show ?thesis by simp
  qed (use y id in \<open>simp only: if_False\<close>)
qed

lemma drop_loop_unselected:
  assumes "distinct_ids sel" "\<forall>id'\<in>set ids. optional_id sel id'"
    and "\<not> goal_met ctx (drop_loop ctx reason ids sel)"
    and "x \<in> set (sel_items (drop_loop ctx reason ids sel))" "ci_id x \<in> set ids"
  shows "\<not> ci_selected x"
  using assms
proof (induction ids arbitrary: sel)
  case (Cons id' ids)
  let ?sel = "drop_item id' reason sel"
  have r: "sel_reduced ctx sel ?sel" using Cons.prems by (simp add: drop_reduced)
  have "\<not> goal_met ctx sel" using Cons.prems(3) by (auto split: if_splits)
  then have eq: "drop_loop ctx reason (id' # ids) sel = drop_loop ctx reason ids ?sel" by simp
  have d: "distinct_ids ?sel" "\<forall>j\<in>set ids. optional_id ?sel j"
    using Cons.prems sel_reduced_ids [OF r] optional_id_reduced [OF r] by auto
  show ?case
  proof (cases "ci_id x \<in> set ids")
    case True
    then show ?thesis using Cons.IH [OF d] Cons.prems eq by simp
  next
    case False
    then have "ci_id x = id'" using Cons.prems by simp
    obtain y where "y \<in> set (sel_items ?sel)" "item_reduced ctx y x"
      using sel_reduced_item [OF drop_loop_reduced [OF d]] Cons.prems(4) eq by metis
    then show ?thesis
      using drop_item_unselected [OF Cons.prems(1), of y id' reason] \<open>ci_id x = id'\<close>
      by (metis item_reducedD(2) item_reduced_kept(1))
  qed
qed simp

lemma l1_loop_reason:
  assumes "distinct_ids sel" "\<forall>id'\<in>set ids. optional_id sel id'"
    and "\<not> goal_met ctx (l1_loop ctx dups newest ids sel)"
    and "x \<in> set (sel_items (l1_loop ctx dups newest ids sel))" "ci_id x \<in> set ids" "ci_selected x"
  shows "l1_reason ctx dups newest x = None"
  using assms
proof (induction ids arbitrary: sel)
  case (Cons id' ids)
  have ng: "\<not> goal_met ctx sel" using Cons.prems(3) by (auto split: if_splits)
  obtain y where y: "y \<in> set (sel_items sel)" "item_reduced ctx y x"
    using sel_reduced_item [OF l1_loop_reduced [OF Cons.prems(1,2)] Cons.prems(4)] by blast
  note keep = item_reducedD(2) [OF y(2)] item_reduced_kept(1) [OF y(2)] item_reduced_l1_reason [OF y(2)]
  show ?case
  proof (cases "\<exists>item reason. find_item id' sel = Some item \<and> ci_selected item \<and> l1_reason ctx dups newest item = Some reason")
    case True
    then obtain reason where eq: "l1_loop ctx dups newest (id' # ids) sel = l1_loop ctx dups newest ids (drop_item id' reason sel)"
      using ng by auto
    have r: "sel_reduced ctx sel (drop_item id' reason sel)" using Cons.prems by (simp add: drop_reduced)
    have d: "distinct_ids (drop_item id' reason sel)" "\<forall>j\<in>set ids. optional_id (drop_item id' reason sel) j"
      using Cons.prems sel_reduced_ids [OF r] optional_id_reduced [OF r] by auto
    have "ci_id x \<noteq> id'"
      using sel_reduced_item [OF l1_loop_reduced [OF d]] Cons.prems(4,6) eq
        drop_item_unselected [OF Cons.prems(1)] item_reducedD(2) item_reduced_kept(1) by metis
    then show ?thesis using Cons.IH [OF d] Cons.prems eq by simp
  next
    case False
    have eq: "l1_loop ctx dups newest (id' # ids) sel = l1_loop ctx dups newest ids sel"
      using ng False by (auto split: option.split)
    show ?thesis
    proof (cases "ci_id x = id'")
      case True
      then have "find_item id' sel = Some y"
        using find_distinct [OF Cons.prems(1) y(1)] keep(2) by (simp add: find_item_def)
      then show ?thesis using False keep Cons.prems(6) by auto
    next
      case False
      then show ?thesis using Cons.IH Cons.prems eq by simp
    qed
  qed
qed simp

text \<open>An optional item still selected after one of the first three levels passed that level's test,
  unless the level met the goal.\<close>

lemma selected_candidate:
  assumes "sel_reduced ctx sel sel'" "x \<in> set (sel_items sel')" "ci_selected x" "\<not> is_mandatory_kind x"
  obtains y where "y \<in> set (sel_items sel)" "ci_selected y" "\<not> is_mandatory_kind y" "item_reduced ctx y x" "ci_id y = ci_id x"
  using sel_reduced_item [OF assms(1,2)] assms(3,4) item_reducedD(2) item_reduced_kept(1,9) that by metis

lemma apply_l1_passed:
  assumes "distinct_ids sel" "\<not> goal_met ctx (apply_l1 ctx sel)"
    and "x \<in> set (sel_items (apply_l1 ctx sel))" "ci_selected x" "\<not> is_mandatory_kind x"
  shows "l1_reason ctx (collect_duplicates sel (set (map ci_content_hash (filter is_mandatory_kind (sel_items sel))))
      (rev (ordered_candidates (\<lambda>_. True) sel))) (newest_revision sel) x = None"
proof -
  obtain y where "y \<in> set (sel_items sel)" "ci_selected y" "\<not> is_mandatory_kind y" "ci_id y = ci_id x"
    by (rule selected_candidate [OF apply_l1_reduced [OF assms(1)] assms(3-5)])
  then have "ci_id x \<in> set (ordered_candidates (\<lambda>_. True) sel)"
    by (auto simp: ordered_candidates_def intro!: image_eqI [of _ _ y])
  then show ?thesis
    using assms unfolding apply_l1_def Let_def
    by (intro l1_loop_reason [OF assms(1)]) (auto dest: candidates_optional)
qed

lemma apply_l2_passed:
  assumes "distinct_ids sel" "\<not> goal_met ctx (apply_l2 ctx sel)"
    and "x \<in> set (sel_items (apply_l2 ctx sel))" "ci_selected x" "\<not> is_mandatory_kind x"
  shows "mp_low_priority_cutoff (lc_profile ctx) \<le> effective_priority x"
proof (rule ccontr)
  assume low: "\<not> mp_low_priority_cutoff (lc_profile ctx) \<le> effective_priority x"
  obtain y where y: "y \<in> set (sel_items sel)" "ci_selected y" "\<not> is_mandatory_kind y" "item_reduced ctx y x" "ci_id y = ci_id x"
    by (rule selected_candidate [OF apply_l2_reduced [OF assms(1)] assms(3-5)])
  then have "ci_id x \<in> set (ordered_candidates (\<lambda>item. effective_priority item < mp_low_priority_cutoff (lc_profile ctx)) sel)"
    using low item_reduced_kept(10) [OF y(4)] by (auto simp: ordered_candidates_def not_le intro!: image_eqI [of _ _ y])
  then have "\<not> ci_selected x"
    using assms unfolding apply_l2_def Let_def
    by (intro drop_loop_unselected [OF assms(1)]) (auto dest: candidates_optional)
  with assms(4) show False by simp
qed

lemma apply_l3_passed:
  assumes "distinct_ids sel" "\<not> goal_met ctx (apply_l3 ctx sel)"
    and "x \<in> set (sel_items (apply_l3 ctx sel))" "ci_selected x" "\<not> is_mandatory_kind x"
  shows "\<not> (ci_kind x = ToolResult \<and> ci_tool_pair_complete x)"
proof
  assume stale: "ci_kind x = ToolResult \<and> ci_tool_pair_complete x"
  obtain y where y: "y \<in> set (sel_items sel)" "ci_selected y" "\<not> is_mandatory_kind y" "item_reduced ctx y x" "ci_id y = ci_id x"
    by (rule selected_candidate [OF apply_l3_reduced [OF assms(1)] assms(3-5)])
  then have "ci_id x \<in> set (l3_candidates sel)"
    using stale item_reduced_kept(2,8) [OF y(4)] by (auto simp: l3_candidates_def intro!: image_eqI [of _ _ y])
  then have "\<not> ci_selected x"
    using assms unfolding apply_l3_def
    by (intro drop_loop_unselected [OF assms(1)]) (auto dest: l3_candidates_optional)
  with assms(4) show False by simp
qed

lemma fold_deselect_selected: "x \<in> set (fold deselect_source ids items) \<Longrightarrow> ci_selected x \<Longrightarrow> x \<in> set items"
proof (induction ids arbitrary: items)
  case (Cons id' ids)
  then have "x \<in> set (deselect_source id' items)" by simp
  then show ?case using Cons.prems(2) unfolding deselect_source_def by (auto dest!: set_update_first)
qed simp

lemma length_fold_deselect [simp]: "length (fold deselect_source ids items) = length items"
  by (induction ids arbitrary: items) (simp_all add: deselect_source_def)

lemma apply_l5_selected:
  assumes "x \<in> set (take (length (sel_items sel)) (sel_items (fst (apply_l5 summ (sel, t, outcome)))))" "ci_selected x"
  shows "x \<in> set (sel_items sel)"
  using assms by (rule_tac apply_l5_cases [of summ sel t outcome]) (auto simp: l5_items_def dest: fold_deselect_selected)

lemma run_ladder_exhausted:
  assumes "\<not> goal_met ctx (ls_selection (run_ladder ctx sink summ sel s t))"
  shows "run_ladder ctx sink summ sel s t = ladder_prefix ctx sink summ 6 (ladder_start sel s t)"
    and "j < 6 \<Longrightarrow> \<not> goal_met ctx (ls_selection (ladder_prefix ctx sink summ j (ladder_start sel s t)))"
proof -
  obtain k where k: "k \<le> 6" "run_ladder ctx sink summ sel s t = ladder_prefix ctx sink summ k (ladder_start sel s t)"
    "\<forall>j<k. \<not> goal_met ctx (ls_selection (ladder_prefix ctx sink summ j (ladder_start sel s t)))"
    "k < 6 \<longrightarrow> goal_met ctx (ls_selection (run_ladder ctx sink summ sel s t))"
    by (rule run_ladder_prefix)
  then have "k = 6" using assms by auto
  with k show "run_ladder ctx sink summ sel s t = ladder_prefix ctx sink summ 6 (ladder_start sel s t)"
    and "j < 6 \<Longrightarrow> \<not> goal_met ctx (ls_selection (ladder_prefix ctx sink summ j (ladder_start sel s t)))" by auto
qed

text \<open>When the pass ends without meeting the goal it has really tried everything: no input item
  that is optional and still selected is expired, below the priority cutoff, or the output of a
  completed tool call.\<close>

theorem ladder_exhausts:
  fixes ctx sink summ sel s t
  defines "final \<equiv> ls_selection (run_ladder ctx sink summ sel s t)"
  assumes d: "distinct_ids sel" and unmet: "\<not> goal_met ctx final"
    and x: "x \<in> set (take (length (sel_items sel)) (sel_items final))" "ci_selected x" "\<not> is_mandatory_kind x"
  shows "\<not> ttl_expired x (lc_now ctx) \<and> \<not> retention_expired x (lc_now ctx)
    \<and> mp_low_priority_cutoff (lc_profile ctx) \<le> effective_priority x
    \<and> \<not> (ci_kind x = ToolResult \<and> ci_tool_pair_complete x)"
proof -
  let ?st = "ladder_start sel s t"
  let ?p = "\<lambda>k. ls_selection (ladder_prefix ctx sink summ k ?st)"
  note run = run_ladder_exhausted [OF unmet [unfolded final_def]]
  have start: "ls_selection ?st = sel" by (simp add: ladder_start_def)
  have dk: "distinct_ids (?p k)" if "k \<le> 4" for k
    using sel_reduced_ids [OF prefix_reduced [OF that, of ?st ctx sink summ]] d start by simp
  have "map ci_id (sel_items (?p 4)) = map ci_id (sel_items sel)"
    using sel_reduced_ids [OF prefix_reduced [of 4 ?st ctx sink summ]] d start by simp
  then have len: "length (sel_items (?p 4)) = length (sel_items sel)" by (rule map_eq_imp_length_eq)
  have stages: "?p 1 = apply_l1 ctx (?p 0)" "?p 2 = apply_l2 ctx (?p 1)" "?p 3 = apply_l3 ctx (?p 2)"
    by (simp_all add: ladder_prefix_def ladder_order_def ladder_step_selection eval_nat_numeral)
  have red: "sel_reduced ctx (?p j) (?p (Suc j))" if "j < 4" for j
    using step_reduced [OF that dk [of j]] that by (simp add: ladder_prefix_Suc)
  have "x \<in> set (take (length (sel_items sel)) (sel_items (?p 5)))"
    using x(1) by (simp add: final_def run(1) prefix_6 Let_def apply_l6_items split: if_splits)
  then have x4: "x \<in> set (sel_items (?p 4))"
    using x(2) len by (simp add: prefix_5 Let_def) (metis apply_l5_selected)
  obtain x3 where x3: "x3 \<in> set (sel_items (?p 3))" "ci_selected x3" "\<not> is_mandatory_kind x3" "item_reduced ctx x3 x"
    using selected_candidate [OF red [of 3], of x] x4 x(2,3) by auto
  obtain x2 where x2: "x2 \<in> set (sel_items (?p 2))" "ci_selected x2" "\<not> is_mandatory_kind x2" "item_reduced ctx x2 x3"
    using selected_candidate [OF red [of 2], of x3] x3 by (auto simp: eval_nat_numeral)
  obtain x1 where x1: "x1 \<in> set (sel_items (?p 1))" "ci_selected x1" "\<not> is_mandatory_kind x1" "item_reduced ctx x1 x2"
    using selected_candidate [OF red [of 1], of x2] x2 by (auto simp: eval_nat_numeral)
  have "\<not> ttl_expired x1 (lc_now ctx) \<and> \<not> retention_expired x1 (lc_now ctx)"
    using l1_reason_None [OF apply_l1_passed [OF dk [of 0], of ctx x1]] run(2) [of 1] x1(1-3) unfolding stages by simp
  moreover have "mp_low_priority_cutoff (lc_profile ctx) \<le> effective_priority x2"
    using apply_l2_passed [OF dk [of 1]] run(2) [of 2] x2(1-3) unfolding stages by auto
  moreover have "\<not> (ci_kind x3 = ToolResult \<and> ci_tool_pair_complete x3)"
    using apply_l3_passed [OF dk [of 2]] run(2) [of 3] x3(1-3) unfolding stages by auto
  ultimately show ?thesis
    using item_reduced_kept [OF x3(4)] item_reduced_kept [OF x2(4)] item_reduced_kept [OF x1(4)] by simp
qed

theorem ladder_exhausts_witness:
  "\<not> goal_met (sample_context 100) (ls_selection (run_ladder (sample_context 100) no_offload no_summarizer sample_selection () ()))
   \<and> 30 \<le> effective_priority (sel_items (ls_selection
        (run_ladder (sample_context 100) no_offload no_summarizer sample_selection () ())) ! 4)"
proof -
  let ?final = "ls_selection (run_ladder (sample_context 100) no_offload no_summarizer sample_selection () ())"
  have d: "distinct_ids sample_selection" by code_simp
  have unmet: "\<not> goal_met (sample_context 100) ?final" by code_simp
  have len: "length (sel_items ?final) = 6" "length (sel_items sample_selection) = 6" by code_simp+
  have x: "ci_selected (sel_items ?final ! 4)" "\<not> is_mandatory_kind (sel_items ?final ! 4)" by code_simp+
  have "sel_items ?final ! 4 \<in> set (take (length (sel_items sample_selection)) (sel_items ?final))"
    using len by simp
  from ladder_exhausts [OF d unmet this x] unmet show ?thesis
    by (simp add: sample_context_def sample_profile_def)
qed

section \<open>Duplicates\<close>

lemma collect_duplicates_unique:
  assumes "distinct ids" "\<And>i. i \<in> set ids \<Longrightarrow> find_item i sel = Some (item i)"
    and "i \<in> set ids" "i \<notin> set (collect_duplicates sel seen ids)"
  shows "ci_content_hash (item i) \<notin> seen \<and>
    (\<forall>j\<in>set ids. j \<notin> set (collect_duplicates sel seen ids) \<longrightarrow>
       ci_content_hash (item j) = ci_content_hash (item i) \<longrightarrow> j = i)"
  using assms
proof (induction ids arbitrary: seen i)
  case (Cons a ids)
  have a: "find_item a sel = Some (item a)" using Cons.prems(2) by simp
  have later: "set (collect_duplicates sel s ids) \<subseteq> set ids" for s
    by (induction sel s ids rule: collect_duplicates.induct) (auto split: option.splits)
  show ?case
  proof (cases "ci_content_hash (item a) \<in> seen")
    case True
    with Cons.prems a have i: "i \<in> set ids" "i \<notin> set (collect_duplicates sel seen ids)" by auto
    from Cons.IH [OF _ _ i] Cons.prems True a show ?thesis by auto
  next
    case False
    let ?seen = "insert (ci_content_hash (item a)) seen"
    have eq: "collect_duplicates sel seen (a # ids) = collect_duplicates sel ?seen ids" using a False by simp
    have IH: "ci_content_hash (item j) \<notin> ?seen \<and> (\<forall>k\<in>set ids. k \<notin> set (collect_duplicates sel ?seen ids) \<longrightarrow>
        ci_content_hash (item k) = ci_content_hash (item j) \<longrightarrow> k = j)"
      if "j \<in> set ids" "j \<notin> set (collect_duplicates sel ?seen ids)" for j
      using Cons.IH [OF _ _ that] Cons.prems by auto
    show ?thesis
    proof (cases "i = a")
      case True
      then show ?thesis using IH False unfolding eq by auto
    next
      case ne: False
      then have i: "i \<in> set ids" "i \<notin> set (collect_duplicates sel ?seen ids)" using Cons.prems eq by auto
      then show ?thesis using IH [OF i] unfolding eq by auto
    qed
  qed
qed simp

text \<open>If the first level does not already meet the goal, then afterwards no content is selected
  twice: an optional item that is still selected shares its content hash with no mandatory item
  and with no other selected optional item.\<close>

theorem l1_selects_content_once:
  assumes d: "distinct_ids sel" and unmet: "\<not> goal_met ctx (apply_l1 ctx sel)"
    and x: "x \<in> set (sel_items (apply_l1 ctx sel))" "ci_selected x" "\<not> is_mandatory_kind x"
    and y: "y \<in> set (sel_items (apply_l1 ctx sel))" "ci_selected y"
    and eq: "ci_content_hash x = ci_content_hash y"
  shows "x = y"
proof -
  let ?ids = "rev (ordered_candidates (\<lambda>_. True) sel)"
  let ?seen = "set (map ci_content_hash (filter is_mandatory_kind (sel_items sel)))"
  let ?item = "\<lambda>i. the (find_item i sel)"
  have red: "sel_reduced ctx sel (apply_l1 ctx sel)" using d by (rule apply_l1_reduced)
  have cand: "ci_id z \<in> set ?ids \<and> ci_content_hash (?item (ci_id z)) = ci_content_hash z
      \<and> ci_id z \<notin> set (collect_duplicates sel ?seen ?ids)"
    if z: "z \<in> set (sel_items (apply_l1 ctx sel))" "ci_selected z" "\<not> is_mandatory_kind z" for z
  proof -
    obtain z' where z': "z' \<in> set (sel_items sel)" "ci_selected z'" "\<not> is_mandatory_kind z'" "item_reduced ctx z' z" "ci_id z' = ci_id z"
      by (rule selected_candidate [OF red z])
    have "find_item (ci_id z) sel = Some z'"
      using find_distinct [OF d z'(1)] z'(5) by (simp add: find_item_def)
    moreover have "ci_id z \<in> set ?ids"
      using z' by (auto simp: ordered_candidates_def intro!: image_eqI [of _ _ z'])
    ultimately show ?thesis
      using l1_reason_None [OF apply_l1_passed [OF d unmet z]] item_reduced_kept(7) [OF z'(4)] by simp
  qed
  have found: "find_item i sel = Some (?item i)" if "i \<in> set ?ids" for i
    using that find_distinct [OF d] by (auto simp: ordered_candidates_def find_item_def)
  have "distinct ?ids" using distinct_candidates [OF d] by simp
  note uniq = collect_duplicates_unique [OF this found, of "ci_id x" ?seen]
  have fresh: "ci_content_hash x \<notin> ?seen" using uniq cand [OF x] by auto
  show ?thesis
  proof (cases "is_mandatory_kind y")
    case True
    then have "y \<in> set (sel_items sel)"
      using sel_reduced_item [OF red y(1)] item_reducedD(1) item_reduced_kept(9) by metis
    then show ?thesis using True fresh eq by auto
  next
    case False
    then have "ci_id y = ci_id x" using uniq cand [OF x] cand [OF y False] eq by auto
    then show ?thesis
      using distinct_map_nth_unique [of ci_id "sel_items (apply_l1 ctx sel)" x y] x(1) y(1) d sel_reduced_ids [OF red]
      by simp
  qed
qed

definition duplicate_selection :: selection where
  "duplicate_selection = selection_new
     [builder_ttl_ms 10 (builder_sizes 0 100 (builder_priority 60 (builder_new ''old'' History ''h''))),
      builder_sizes 0 100 (builder_priority 50 (builder_new ''new'' History ''h'')),
      sample_item ''p'' UserPrompt 50 50, sample_item ''q'' History 50 50] 0"

theorem l1_selects_content_once_witness:
  "\<not> goal_met (sample_context 10) (apply_l1 (sample_context 10) duplicate_selection)
   \<and> ci_content_hash (sel_items (apply_l1 (sample_context 10) duplicate_selection) ! 3)
       \<noteq> ci_content_hash (sel_items (apply_l1 (sample_context 10) duplicate_selection) ! 2)"
proof -
  let ?r = "apply_l1 (sample_context 10) duplicate_selection"
  have d: "distinct_ids duplicate_selection" by code_simp
  have u: "\<not> goal_met (sample_context 10) ?r" by code_simp
  have len: "length (sel_items ?r) = 4" by code_simp
  have x: "ci_selected (sel_items ?r ! 3)" "\<not> is_mandatory_kind (sel_items ?r ! 3)" "ci_selected (sel_items ?r ! 2)"
    by code_simp+
  have ne: "ci_id (sel_items ?r ! 3) \<noteq> ci_id (sel_items ?r ! 2)" by code_simp
  have "sel_items ?r ! 3 \<in> set (sel_items ?r)" "sel_items ?r ! 2 \<in> set (sel_items ?r)" using len by auto
  then show ?thesis using l1_selects_content_once [OF d u _ x(1,2) _ x(3)] u ne by auto
qed

text \<open>The representative of a group of duplicates is chosen before expiry is looked at: here the
  unexpired \<open>new\<close> is dropped as a duplicate of \<open>old\<close>, which the same level drops as expired, so
  the content is gone although one copy was still valid.\<close>

lemma l1_loses_unexpired_duplicate:
  "map (\<lambda>i. (ci_id i, ci_selected i, ci_drop_reason i)) (sel_items (apply_l1 (sample_context 10) duplicate_selection))
     = [(''old'', False, Some Expired), (''new'', False, Some Duplicate), (''p'', True, None), (''q'', True, None)]"
  by code_simp

end
