(* ===== verification/Context_Compression.thy ===== *)
theory Context_Compression
  imports Unicode_Text Content_Hash Context_Ladder
begin

text \<open>
  \<open>crates/context-budget/src/compression.rs\<close>: the hierarchy of rights and the order of the assembled
  context, the comparison of two records of one key, pruning before the ladder, and the bounded
  summarizer that implements the ladder's summarizer.

  A character is the list of its UTF-8 bytes. The Unicode tables behind \<open>is_alphanumeric\<close>,
  \<open>is_alphabetic\<close>, \<open>is_whitespace\<close> and \<open>to_lowercase\<close> are an argument (the record \<open>unicode\<close>). The
  summary model is a trait the application implements: the record \<open>summary_model\<close>.
\<close>

section \<open>Hierarchy of rights\<close>

datatype hierarchy_level =
    RecoveredUnverified | HistoryToolData | ConfirmedTaskFacts | UserConstraints
  | SystemInstructions | SafetyApproval

fun hierarchy_level_as_str :: "hierarchy_level \<Rightarrow> string" where
  "hierarchy_level_as_str RecoveredUnverified = ''recovered_unverified''"
| "hierarchy_level_as_str HistoryToolData = ''history_tool_data''"
| "hierarchy_level_as_str ConfirmedTaskFacts = ''confirmed_task_facts''"
| "hierarchy_level_as_str UserConstraints = ''user_constraints''"
| "hierarchy_level_as_str SystemInstructions = ''system_instructions''"
| "hierarchy_level_as_str SafetyApproval = ''safety_approval''"

fun hierarchy_rank :: "hierarchy_level \<Rightarrow> nat" where
  "hierarchy_rank RecoveredUnverified = 0"
| "hierarchy_rank HistoryToolData = 1"
| "hierarchy_rank ConfirmedTaskFacts = 2"
| "hierarchy_rank UserConstraints = 3"
| "hierarchy_rank SystemInstructions = 4"
| "hierarchy_rank SafetyApproval = 5"

instantiation hierarchy_level :: linorder
begin

definition less_eq_hierarchy_level :: "hierarchy_level \<Rightarrow> hierarchy_level \<Rightarrow> bool" where
  "less_eq_hierarchy_level a b \<longleftrightarrow> hierarchy_rank a \<le> hierarchy_rank b"

definition less_hierarchy_level :: "hierarchy_level \<Rightarrow> hierarchy_level \<Rightarrow> bool" where
  "less_hierarchy_level a b \<longleftrightarrow> hierarchy_rank a < hierarchy_rank b"

instance
proof
  fix x y :: hierarchy_level
  show "x \<le> y \<Longrightarrow> y \<le> x \<Longrightarrow> x = y"
    by (cases x; cases y) (simp_all add: less_eq_hierarchy_level_def)
qed (auto simp: less_eq_hierarchy_level_def less_hierarchy_level_def)

end

fun kind_level :: "item_kind \<Rightarrow> hierarchy_level" where
  "kind_level SafetyPolicy = SafetyApproval"
| "kind_level ApprovalPolicy = SafetyApproval"
| "kind_level SystemInstruction = SystemInstructions"
| "kind_level Cancellation = SystemInstructions"
| "kind_level UserPrompt = UserConstraints"
| "kind_level UserConstraint = UserConstraints"
| "kind_level Decision = ConfirmedTaskFacts"
| "kind_level Memory = ConfirmedTaskFacts"
| "kind_level Scratchpad = ConfirmedTaskFacts"
| "kind_level History = HistoryToolData"
| "kind_level ToolResult = HistoryToolData"
| "kind_level PendingToolCall = HistoryToolData"
| "kind_level ToolSchema = HistoryToolData"
| "kind_level Evidence = HistoryToolData"
| "kind_level Summary = HistoryToolData"

definition level_of :: "context_item \<Rightarrow> hierarchy_level" where
  "level_of item =
     (if ci_scratchpad_status item = Some StRecovered \<or> ci_trust item = TrustUnverified
      then RecoveredUnverified else kind_level (ci_kind item))"

text \<open>\<open>order_items\<close>: a stable sort; a reversed comparison is the comparison of the negated rank.\<close>

definition order_key :: "context_item \<Rightarrow> int \<times> int \<times> int \<times> string \<times> string" where
  "order_key item =
     (- int (hierarchy_rank (level_of item)), - int (trust_rank (ci_trust item)),
      - ci_created_at item, ci_content_hash item, ci_id item)"

definition order_items :: "context_item list \<Rightarrow> context_item list" where
  "order_items items = sort_key order_key items"

section \<open>Conflicts of two records\<close>

datatype conflict_resolution = UserConfirm | KeepHigherTrust | KeepNewer | SupersededRevision

fun conflict_resolution_as_str :: "conflict_resolution \<Rightarrow> string" where
  "conflict_resolution_as_str UserConfirm = ''user_confirm''"
| "conflict_resolution_as_str KeepHigherTrust = ''keep_higher_trust''"
| "conflict_resolution_as_str KeepNewer = ''keep_newer''"
| "conflict_resolution_as_str SupersededRevision = ''superseded''"

record conflict =
  cf_key :: string
  cf_left_id :: string
  cf_right_id :: string
  cf_resolution :: conflict_resolution
  cf_detail :: string

definition is_ascii_digit :: "char \<Rightarrow> bool" where
  "is_ascii_digit c \<longleftrightarrow> CHR ''0'' \<le> c \<and> c \<le> CHR ''9''"

text \<open>The scan over characters and the scan over bytes agree: digits and the dot are ASCII, and no
  byte of a longer character is one of them.\<close>

fun number_tokens :: "string \<Rightarrow> string \<Rightarrow> string list" where
  "number_tokens [] current = (if current \<noteq> [] then [trim_end_matches (\<lambda>c. c = CHR ''.'') current] else [])"
| "number_tokens (c # cs) current =
     (if is_ascii_digit c \<or> (c = CHR ''.'' \<and> current \<noteq> []) then number_tokens cs (current @ [c])
      else if current \<noteq> [] then trim_end_matches (\<lambda>c. c = CHR ''.'') current # number_tokens cs []
      else number_tokens cs [])"

definition extract_numbers :: "string \<Rightarrow> string list" where
  "extract_numbers text = sort (number_tokens text [])"

definition extract_paths :: "unicode \<Rightarrow> string \<Rightarrow> string list" where
  "extract_paths U text =
     sort (map (trim_matches (\<lambda>c. c = CHR '','' \<or> c = CHR ''.'' \<or> c = CHR '';''))
       (filter (\<lambda>token. CHR ''/'' \<in> set token \<or> CHR 0x5C \<in> set token) (split_whitespace U text)))"

definition is_identifier_char :: "unicode \<Rightarrow> string \<Rightarrow> bool" where
  "is_identifier_char U c \<longleftrightarrow> uc_is_alphanumeric U c \<or> c = ''_'' \<or> c = ''-''"

definition extract_identifiers :: "unicode \<Rightarrow> string \<Rightarrow> string list" where
  "extract_identifiers U text =
     remdups_adj (sort (filter (\<lambda>token. length token \<ge> 8 \<and> (\<exists>c\<in>set token. is_ascii_digit c)
         \<and> (\<exists>c\<in>set (utf8_chars token). uc_is_alphabetic U c))
       (split_chars (\<lambda>c. \<not> is_identifier_char U c) (utf8_chars text) [])))"

text \<open>The markers are Russian and English; the Russian ones are written as UTF-8 bytes
  (\<open>ne\<close> with a space, \<open>net\<close>, \<open>nikogda\<close>, \<open>zapreshch\<close>).\<close>

definition negation_markers :: "string list" where
  "negation_markers =
     [[CHR 0xD0, CHR 0xBD, CHR 0xD0, CHR 0xB5, CHR 0x20],
      [CHR 0xD0, CHR 0xBD, CHR 0xD0, CHR 0xB5, CHR 0xD1, CHR 0x82],
      [CHR 0xD0, CHR 0xBD, CHR 0xD0, CHR 0xB8, CHR 0xD0, CHR 0xBA, CHR 0xD0, CHR 0xBE,
       CHR 0xD0, CHR 0xB3, CHR 0xD0, CHR 0xB4, CHR 0xD0, CHR 0xB0],
      '' not '', '' no '', ''never'',
      [CHR 0xD0, CHR 0xB7, CHR 0xD0, CHR 0xB0, CHR 0xD0, CHR 0xBF, CHR 0xD1, CHR 0x80,
       CHR 0xD0, CHR 0xB5, CHR 0xD1, CHR 0x89]]"

definition has_negation :: "unicode \<Rightarrow> string \<Rightarrow> bool" where
  "has_negation U text \<longleftrightarrow> (\<exists>marker\<in>set negation_markers. str_contains (uc_to_lowercase U text) marker)"

definition differences :: "unicode \<Rightarrow> string \<Rightarrow> string \<Rightarrow> string list" where
  "differences U left_content right_content =
     (if extract_numbers left_content \<noteq> extract_numbers right_content then [''numbers''] else [])
     @ (if extract_paths U left_content \<noteq> extract_paths U right_content then [''paths''] else [])
     @ (if extract_identifiers U left_content \<noteq> extract_identifiers U right_content then [''identifiers''] else [])
     @ (if has_negation U left_content \<noteq> has_negation U right_content then [''negation''] else [])"

definition detect_conflict ::
  "unicode \<Rightarrow> string \<Rightarrow> context_item \<Rightarrow> string \<Rightarrow> context_item \<Rightarrow> string \<Rightarrow> conflict option" where
  "detect_conflict U key left left_content right right_content =
     (if ci_content_hash left = ci_content_hash right then None
      else let diffs = differences U left_content right_content in
        if diffs = []
        then Some \<lparr>cf_key = key, cf_left_id = ci_id left, cf_right_id = ci_id right,
                   cf_resolution = SupersededRevision,
                   cf_detail = ''revision without substantive divergence''\<rparr>
        else let resolution = (if level_of left \<noteq> level_of right then UserConfirm
                 else if ci_trust left \<noteq> ci_trust right then KeepHigherTrust
                 else if ci_created_at left \<noteq> ci_created_at right then KeepNewer
                 else UserConfirm);
               resolution = (if ci_kind left = Decision \<or> ci_kind right = Decision then UserConfirm
                 else resolution)
          in Some \<lparr>cf_key = key, cf_left_id = ci_id left, cf_right_id = ci_id right,
                   cf_resolution = resolution, cf_detail = str_join '','' diffs\<rparr>)"

section \<open>Pruning\<close>

definition drop_as :: "drop_reason \<Rightarrow> context_item \<Rightarrow> context_item" where
  "drop_as reason item = item\<lparr>ci_selected := False, ci_drop_reason := Some reason\<rparr>"

text \<open>One pass of \<open>for item in items.iter_mut()\<close> that drops the items satisfying a test and records
  the decisions.\<close>

definition prune_pass ::
  "(context_item \<Rightarrow> bool) \<Rightarrow> drop_reason \<Rightarrow> context_item list \<times> (string \<times> drop_reason) list
   \<Rightarrow> context_item list \<times> (string \<times> drop_reason) list" where
  "prune_pass p reason st =
     (map (\<lambda>item. if p item then drop_as reason item else item) (fst st),
      snd st @ map (\<lambda>item. (ci_id item, reason)) (filter p (fst st)))"

definition prune_rank_key :: "context_item \<Rightarrow> int \<times> int \<times> string" where
  "prune_rank_key item = (- int (hierarchy_rank (level_of item)), - ci_created_at item, ci_id item)"

definition prune_winners :: "context_item list \<Rightarrow> string \<Rightarrow> string option" where
  "prune_winners items =
     fold (\<lambda>item winners. case winners (ci_content_hash item) of
             None \<Rightarrow> winners(ci_content_hash item := Some (ci_id item)) | Some _ \<Rightarrow> winners)
       (sort_key prune_rank_key (filter ci_selected items)) (\<lambda>_. None)"

definition prune_revision_step ::
  "context_item \<Rightarrow> (string \<Rightarrow> (u32 \<times> i64 \<times> string) option) \<Rightarrow> string \<Rightarrow> (u32 \<times> i64 \<times> string) option" where
  "prune_revision_step item newest =
     (case ci_parent_id item of None \<Rightarrow> newest
      | Some parent \<Rightarrow>
          (let candidate = (ci_version item, ci_created_at item, ci_id item) in
           case newest parent of
             None \<Rightarrow> newest(parent := Some candidate)
           | Some current \<Rightarrow> (if candidate > current then newest(parent := Some candidate) else newest)))"

definition prune_newest :: "context_item list \<Rightarrow> string \<Rightarrow> (u32 \<times> i64 \<times> string) option" where
  "prune_newest items = fold prune_revision_step (filter ci_selected items) (\<lambda>_. None)"

definition is_expired :: "i64 \<Rightarrow> context_item \<Rightarrow> bool" where
  "is_expired now item \<longleftrightarrow> ttl_expired item now \<or> retention_expired item now"

definition loses_duplicate :: "(string \<Rightarrow> string option) \<Rightarrow> context_item \<Rightarrow> bool" where
  "loses_duplicate winners item \<longleftrightarrow>
     ci_selected item \<and> (case winners (ci_content_hash item) of None \<Rightarrow> False | Some w \<Rightarrow> w \<noteq> ci_id item)"

definition is_superseded :: "(string \<Rightarrow> (u32 \<times> i64 \<times> string) option) \<Rightarrow> context_item \<Rightarrow> bool" where
  "is_superseded newest item \<longleftrightarrow>
     ci_selected item \<and>
     (case ci_parent_id item of None \<Rightarrow> False
      | Some parent \<Rightarrow> (case newest parent of None \<Rightarrow> False | Some (v, t, i) \<Rightarrow> i \<noteq> ci_id item))"

definition prune :: "context_item list \<Rightarrow> i64 \<Rightarrow> context_item list \<times> (string \<times> drop_reason) list" where
  "prune items now =
     (let st = prune_pass (is_expired now) Expired (items, []);
          st = prune_pass (loses_duplicate (prune_winners (fst st))) Duplicate st;
          st = prune_pass (is_superseded (prune_newest (fst st))) Superseded st
      in (fst st, sort (snd st)))"

section \<open>The bounded summarizer\<close>

definition COMPRESSION_STRATEGY_VERSION :: string where
  "COMPRESSION_STRATEGY_VERSION = ''compress-1''"

record summarizer_config =
  sc_summary_budget_tokens :: u32
  sc_input_limit_tokens :: u32
  sc_version :: string
  sc_tools_allowed :: bool
  sc_retries_allowed :: bool

definition summarizer_config_default :: summarizer_config where
  "summarizer_config_default =
     \<lparr>sc_summary_budget_tokens = 512, sc_input_limit_tokens = 16384,
      sc_version = COMPRESSION_STRATEGY_VERSION, sc_tools_allowed = False, sc_retries_allowed = False\<rparr>"

record raw_summary =
  rs_summary_id :: string
  rs_source_ids :: "string list"
  rs_estimated_tokens :: u32
  rs_text :: string

record 'm summary_model =
  smo_available :: "'m \<Rightarrow> bool"
  smo_summarize :: "'m \<Rightarrow> context_item list \<Rightarrow> summarizer_config \<Rightarrow> (string + raw_summary) \<times> 'm"

record 'm bounded_summarizer =
  bs_model :: "'m option"
  bs_config :: summarizer_config
  bs_model_attempted :: bool

definition bounded_summarizer_new :: "'m option \<Rightarrow> summarizer_config \<Rightarrow> 'm bounded_summarizer" where
  "bounded_summarizer_new model config =
     \<lparr>bs_model = model, bs_config = config, bs_model_attempted = False\<rparr>"

definition bounded_reason :: "string \<Rightarrow> string" where
  "bounded_reason reason = take_chars 200 reason"

definition fallback_candidates :: "context_item list \<Rightarrow> context_item list" where
  "fallback_candidates items =
     sort_key (\<lambda>item. (effective_priority item, ci_created_at item, ci_content_hash item, ci_id item))
       (filter (\<lambda>item. level_of item \<le> HistoryToolData \<and> ci_tool_pair_complete item
                  \<and> \<not> is_mandatory_kind item) items)"

definition fallback_summary ::
  "ext \<Rightarrow> 'm bounded_summarizer \<Rightarrow> context_item list \<Rightarrow> string \<Rightarrow> summary_outcome" where
  "fallback_summary E b items reason =
     (let source_ids = map ci_id (fallback_candidates items)
      in \<lparr>so_summary_id = ''summary-fallback-'' @ take_chars 16 (ext_sha256_hex E (str_join '','' source_ids)),
          so_source_ids = source_ids,
          so_summary_tokens = min 64 (sc_summary_budget_tokens (bs_config b)),
          so_summarizer_version = sc_version (bs_config b) @ ''+fallback'',
          so_fallback = True,
          so_fallback_reason = Some (bounded_reason reason)\<rparr>)"

fun validate_sources :: "context_item list \<Rightarrow> string list \<Rightarrow> string + unit" where
  "validate_sources items [] = Inr ()"
| "validate_sources items (id' # ids) =
     (case List.find (\<lambda>item. ci_id item = id') items of
        None \<Rightarrow> Inl (''unknown source id '' @ id')
      | Some item \<Rightarrow>
          (if is_mandatory_kind item then Inl (''mandatory item '' @ id' @ '' cannot be summarized'')
           else if \<not> ci_tool_pair_complete item
           then Inl (''incomplete tool pair '' @ id' @ '' cannot be summarized'')
           else validate_sources items ids))"

definition summary_validate ::
  "unicode \<Rightarrow> 'm bounded_summarizer \<Rightarrow> raw_summary \<Rightarrow> context_item list \<Rightarrow> string + unit" where
  "summary_validate U b raw items =
     (if rs_summary_id raw = [] then Inl ''summary_id is empty''
      else if rs_source_ids raw = [] then Inl ''source_ids is empty''
      else if (\<forall>c\<in>set (utf8_chars (rs_text raw)). uc_is_whitespace U c) then Inl ''summary text is empty''
      else if rs_estimated_tokens raw > sc_summary_budget_tokens (bs_config b)
      then Inl (''summary exceeds summary_budget: '' @ show_word (rs_estimated_tokens raw) @ '' > ''
                @ show_word (sc_summary_budget_tokens (bs_config b)))
      else validate_sources items (rs_source_ids raw))"

definition bounded_summarize ::
  "ext \<Rightarrow> unicode \<Rightarrow> 'm summary_model \<Rightarrow> 'm bounded_summarizer \<Rightarrow> context_item list
   \<Rightarrow> (string + summary_outcome) \<times> 'm bounded_summarizer" where
  "bounded_summarize E U M b items =
     (if length items < 2 then (Inl ''summarizer needs at least two items'', b)
      else if bs_model_attempted b
      then (Inr (fallback_summary E b items ''summarizer already attempted for this call''), b)
      else case bs_model b of
        None \<Rightarrow> (Inr (fallback_summary E b items ''summarizer model is unavailable''), b)
      | Some model \<Rightarrow>
          (if \<not> smo_available M model
           then (Inr (fallback_summary E b items ''summarizer model is unavailable''), b)
           else case smo_summarize M model items (bs_config b) of
             (Inl error, model') \<Rightarrow>
               (let b = b\<lparr>bs_model_attempted := True, bs_model := Some model'\<rparr>
                in (Inr (fallback_summary E b items error), b))
           | (Inr raw, model') \<Rightarrow>
               (let b = b\<lparr>bs_model_attempted := True, bs_model := Some model'\<rparr>
                in case summary_validate U b raw items of
                     Inl error \<Rightarrow> (Inr (fallback_summary E b items error), b)
                   | Inr _ \<Rightarrow>
                       (Inr \<lparr>so_summary_id = rs_summary_id raw, so_source_ids = rs_source_ids raw,
                             so_summary_tokens = rs_estimated_tokens raw,
                             so_summarizer_version = sc_version (bs_config b),
                             so_fallback = False, so_fallback_reason = None\<rparr>, b))))"

definition bounded_summarizer_ops ::
  "ext \<Rightarrow> unicode \<Rightarrow> 'm summary_model \<Rightarrow> 'm bounded_summarizer summarizer" where
  "bounded_summarizer_ops E U M =
     \<lparr>sm_available = (\<lambda>_. True), sm_summarize = bounded_summarize E U M\<rparr>"

section \<open>The order of the assembled context\<close>

lemma order_key_inj: "order_key i = order_key j \<Longrightarrow> ci_id i = ci_id j"
  by (simp add: order_key_def)

text \<open>The order of the assembled context depends on the set of items only: two lists with the same
  items, with distinct ids, are arranged alike, and in that order no item stands before an item of
  a higher level of rights.\<close>

theorem order_items_canonical:
  assumes "mset xs = mset ys" "distinct (map ci_id xs)"
  shows "order_items xs = order_items ys
    \<and> sorted (map (\<lambda>i. - int (hierarchy_rank (level_of i))) (order_items xs))"
proof
  have "inj_on order_key (set xs)"
    using assms(2) by (auto simp: distinct_map inj_on_def dest: order_key_inj)
  then show "order_items xs = order_items ys"
    unfolding order_items_def by (rule sort_key_canonical [OF assms(1)])
  have "sorted (map order_key (order_items xs))" by (simp add: order_items_def)
  moreover have "- int (hierarchy_rank (level_of i)) \<le> - int (hierarchy_rank (level_of j))"
    if "order_key i \<le> order_key j" for i j
    using that by (auto simp: order_key_def less_eq_prod_def)
  ultimately show "sorted (map (\<lambda>i. - int (hierarchy_rank (level_of i))) (order_items xs))"
    by (auto simp: sorted_iff_nth_mono)
qed

theorem order_items_canonical_witness:
  "order_items [sample_item ''h'' History 50 1, sample_item ''s'' SafetyPolicy 50 1, sample_item ''u'' UserPrompt 50 1]
   = order_items [sample_item ''u'' UserPrompt 50 1, sample_item ''h'' History 50 1, sample_item ''s'' SafetyPolicy 50 1]"
proof -
  let ?xs = "[sample_item ''h'' History 50 1, sample_item ''s'' SafetyPolicy 50 1, sample_item ''u'' UserPrompt 50 1]"
  let ?ys = "[sample_item ''u'' UserPrompt 50 1, sample_item ''h'' History 50 1, sample_item ''s'' SafetyPolicy 50 1]"
  have "mset ?xs = mset ?ys" by simp
  moreover have "distinct (map ci_id ?xs)" by code_simp
  ultimately show ?thesis using order_items_canonical [of ?xs ?ys] by blast
qed

section \<open>Conflicts\<close>

text \<open>Two records conflict exactly when their content hashes differ, the classification does not
  depend on the side a record stands on, and a conflict is decided without the user only between
  records of one level of rights that are not decisions.\<close>

theorem detect_conflict_spec:
  "(detect_conflict U key left lc right rc = None \<longleftrightarrow> ci_content_hash left = ci_content_hash right)
   \<and> map_option cf_resolution (detect_conflict U key left lc right rc)
       = map_option cf_resolution (detect_conflict U key right rc left lc)
   \<and> (map_option cf_resolution (detect_conflict U key left lc right rc) \<in> {Some KeepHigherTrust, Some KeepNewer}
      \<longrightarrow> level_of left = level_of right \<and> ci_kind left \<noteq> Decision \<and> ci_kind right \<noteq> Decision)"
proof -
  have diff: "differences U lc rc = [] \<longleftrightarrow> differences U rc lc = []"
    by (auto simp: differences_def)
  show ?thesis
    by (auto simp: detect_conflict_def Let_def diff)
qed

theorem detect_conflict_spec_witness:
  "map_option cf_resolution (detect_conflict
     \<lparr>uc_is_alphanumeric = (\<lambda>_. True), uc_is_alphabetic = (\<lambda>_. True), uc_is_whitespace = (\<lambda>c. c = '' ''), uc_to_lowercase = id\<rparr>
     ''k'' (sample_item ''a'' Memory 50 1) ''limit 5'' (sample_item ''b'' Memory 50 1) ''limit 7'') = Some UserConfirm
   \<and> detect_conflict
     \<lparr>uc_is_alphanumeric = (\<lambda>_. True), uc_is_alphabetic = (\<lambda>_. True), uc_is_whitespace = (\<lambda>c. c = '' ''), uc_to_lowercase = id\<rparr>
     ''k'' (sample_item ''a'' Memory 50 1) ''limit 5'' (sample_item ''b'' Memory 50 1) ''limit 7'' \<noteq> None"
proof -
  let ?U = "\<lparr>uc_is_alphanumeric = (\<lambda>_. True), uc_is_alphabetic = (\<lambda>_. True), uc_is_whitespace = (\<lambda>c. c = '' ''), uc_to_lowercase = id\<rparr>"
  have "map_option cf_resolution (detect_conflict ?U ''k'' (sample_item ''a'' Memory 50 1) ''limit 5''
      (sample_item ''b'' Memory 50 1) ''limit 7'') = Some UserConfirm" by code_simp
  moreover have "ci_content_hash (sample_item ''a'' Memory 50 1) \<noteq> ci_content_hash (sample_item ''b'' Memory 50 1)" by code_simp
  ultimately show ?thesis
    using detect_conflict_spec [of ?U "''k''" "sample_item ''a'' Memory 50 1" "''limit 5''" "sample_item ''b'' Memory 50 1" "''limit 7''"]
    by blast
qed

text \<open>A safety policy and a history record whose texts differ in words only are a mere revision of
  each other: the level of rights is not looked at on that branch.\<close>

lemma detect_conflict_superseded_across_levels:
  "map_option cf_resolution (detect_conflict
     \<lparr>uc_is_alphanumeric = (\<lambda>_. True), uc_is_alphabetic = (\<lambda>_. True), uc_is_whitespace = (\<lambda>c. c = '' ''), uc_to_lowercase = id\<rparr>
     ''k'' (sample_item ''a'' SafetyPolicy 50 1) ''ask first'' (sample_item ''b'' History 50 1) ''act freely'')
   = Some SupersededRevision"
  by code_simp

section \<open>Pruning keeps one copy\<close>

definition prune1 :: "i64 \<Rightarrow> context_item list \<Rightarrow> context_item list" where
  "prune1 now items = map (\<lambda>i. if is_expired now i then drop_as Expired i else i) items"

definition prune2 :: "context_item list \<Rightarrow> context_item list" where
  "prune2 items = map (\<lambda>i. if loses_duplicate (prune_winners items) i then drop_as Duplicate i else i) items"

definition prune3 :: "context_item list \<Rightarrow> context_item list" where
  "prune3 items = map (\<lambda>i. if is_superseded (prune_newest items) i then drop_as Superseded i else i) items"

lemma fst_prune: "fst (prune items now) = prune3 (prune2 (prune1 now items))"
  by (simp add: prune_def prune_pass_def prune1_def prune2_def prune3_def Let_def)

lemma drop_as_simps [simp]:
  "ci_id (drop_as r i) = ci_id i" "ci_selected (drop_as r i) = False"
  "ci_content_hash (drop_as r i) = ci_content_hash i" "ci_drop_reason (drop_as r i) = Some r"
  "is_mandatory_kind (drop_as r i) = is_mandatory_kind i"
  by (simp_all add: drop_as_def is_mandatory_kind_def)

text \<open>What a pass does, element by element.\<close>

lemma map_drop_selected:
  "x \<in> set (map (\<lambda>i. if p i then drop_as r i else i) items) \<Longrightarrow> ci_selected x \<Longrightarrow> x \<in> set items \<and> \<not> p x"
  by auto

lemma map_drop_kept:
  "x \<in> set items \<Longrightarrow> \<not> p x \<Longrightarrow> x \<in> set (map (\<lambda>i. if p i then drop_as r i else i) items)"
  by force

lemma map_drop_mem:
  "ci_selected x \<Longrightarrow> x \<in> set (map (\<lambda>i. if p i then drop_as r i else i) items) \<longleftrightarrow> x \<in> set items \<and> \<not> p x"
  using map_drop_selected map_drop_kept by blast

lemma drop_pass_iff:
  assumes "ys = map (\<lambda>i. if p i then drop_as r i else i) items" "\<And>x. q x \<Longrightarrow> ci_selected x"
  shows "x \<in> set ys \<and> q x \<longleftrightarrow> x \<in> set items \<and> \<not> p x \<and> q x"
  unfolding assms(1) using map_drop_mem [of x p r items] assms(2) [of x] by blast

lemma map_drop_ids: "map ci_id (map (\<lambda>i. if p i then drop_as r i else i) items) = map ci_id items"
  by simp

lemma prune_ids: "map ci_id (fst (prune items now)) = map ci_id items"
  unfolding fst_prune prune3_def prune2_def prune1_def map_drop_ids ..

lemma prune_selected:
  assumes "x \<in> set (fst (prune items now))" "ci_selected x"
  shows "x \<in> set items" "\<not> is_expired now x" "x \<in> set (prune1 now items)"
    "\<not> loses_duplicate (prune_winners (prune1 now items)) x"
    "x \<in> set (prune2 (prune1 now items))" "\<not> is_superseded (prune_newest (prune2 (prune1 now items))) x"
proof -
  have 3: "x \<in> set (prune2 (prune1 now items)) \<and> \<not> is_superseded (prune_newest (prune2 (prune1 now items))) x"
    using assms unfolding fst_prune prune3_def by (rule map_drop_selected)
  then have 2: "x \<in> set (prune1 now items) \<and> \<not> loses_duplicate (prune_winners (prune1 now items)) x"
    using map_drop_selected [OF _ assms(2)] unfolding prune2_def by blast
  then have "x \<in> set items \<and> \<not> is_expired now x"
    using map_drop_selected [OF _ assms(2)] unfolding prune1_def by blast
  with 2 3 show "x \<in> set items" "\<not> is_expired now x" "x \<in> set (prune1 now items)"
    "\<not> loses_duplicate (prune_winners (prune1 now items)) x"
    "x \<in> set (prune2 (prune1 now items))" "\<not> is_superseded (prune_newest (prune2 (prune1 now items))) x" by auto
qed

text \<open>The winner of a content hash is the first item with it in rank order.\<close>

lemma winners_fold:
  "fold (\<lambda>item winners. case winners (ci_content_hash item) of
           None \<Rightarrow> winners(ci_content_hash item := Some (ci_id item)) | Some _ \<Rightarrow> winners) xs m h
   = (case m h of Some w \<Rightarrow> Some w | None \<Rightarrow> map_option ci_id (List.find (\<lambda>i. ci_content_hash i = h) xs))"
  by (induction xs arbitrary: m) (auto split: option.split)

lemma winners_find:
  "prune_winners items h =
     map_option ci_id (List.find (\<lambda>i. ci_content_hash i = h) (sort_key prune_rank_key (filter ci_selected items)))"
  by (simp add: prune_winners_def winners_fold)

lemma find_sorted_least:
  "sorted (map k xs) \<Longrightarrow> x \<in> set xs \<Longrightarrow> P x \<Longrightarrow> \<exists>w. List.find P xs = Some w \<and> w \<in> set xs \<and> P w \<and> k w \<le> k x"
  by (induction xs) auto

lemma prune_winner:
  assumes "x \<in> set items" "ci_selected x"
  obtains w where "w \<in> set items" "ci_selected w" "ci_content_hash w = ci_content_hash x"
    "prune_winners items (ci_content_hash x) = Some (ci_id w)" "prune_rank_key w \<le> prune_rank_key x"
proof -
  let ?xs = "sort_key prune_rank_key (filter ci_selected items)"
  have "x \<in> set ?xs" using assms by simp
  then obtain w where "List.find (\<lambda>i. ci_content_hash i = ci_content_hash x) ?xs = Some w" "w \<in> set ?xs"
    "ci_content_hash w = ci_content_hash x" "prune_rank_key w \<le> prune_rank_key x"
    using find_sorted_least [of prune_rank_key ?xs x "\<lambda>i. ci_content_hash i = ci_content_hash x"] by auto
  then show thesis using that [of w] by (simp add: winners_find)
qed

lemma rank_key_level: "prune_rank_key w \<le> prune_rank_key x \<Longrightarrow> level_of x \<le> level_of w"
  by (auto simp: prune_rank_key_def less_eq_prod_def less_eq_hierarchy_level_def)

text \<open>Pruning keeps exactly one copy of each content that was still valid. Whatever stays
  selected was selected and not expired; no two selected items share a content hash; and of every
  content that was selected and not expired, one copy of the highest level of rights among them
  stays selected or is given up only for a newer revision.\<close>

theorem prune_keeps_one_copy:
  assumes "distinct (map ci_id items)"
  shows "(\<forall>x\<in>set (fst (prune items now)). ci_selected x \<longrightarrow> x \<in> set items \<and> \<not> is_expired now x)
    \<and> (\<forall>x\<in>set (fst (prune items now)). \<forall>y\<in>set (fst (prune items now)).
         ci_selected x \<and> ci_selected y \<and> ci_content_hash x = ci_content_hash y \<longrightarrow> x = y)
    \<and> (\<forall>x\<in>set items. ci_selected x \<and> \<not> is_expired now x \<longrightarrow>
         (\<exists>w\<in>set items. ci_selected w \<and> \<not> is_expired now w \<and> ci_content_hash w = ci_content_hash x
            \<and> level_of x \<le> level_of w
            \<and> (w \<in> set (fst (prune items now)) \<or> drop_as Superseded w \<in> set (fst (prune items now)))))"
proof (intro conjI ballI impI)
  fix x assume "x \<in> set (fst (prune items now))" "ci_selected x"
  then show "x \<in> set items" "\<not> is_expired now x" by (rule prune_selected)+
next
  fix x y
  assume x: "x \<in> set (fst (prune items now))" and y: "y \<in> set (fst (prune items now))"
    and s: "ci_selected x \<and> ci_selected y \<and> ci_content_hash x = ci_content_hash y"
  then have sx: "ci_selected x" and sy: "ci_selected y" by auto
  obtain w where "w \<in> set (prune1 now items)" "ci_selected w" "ci_content_hash w = ci_content_hash x"
    and w: "prune_winners (prune1 now items) (ci_content_hash x) = Some (ci_id w)"
    and "prune_rank_key w \<le> prune_rank_key x"
    by (rule prune_winner [OF prune_selected(3) [OF x sx] sx])
  have "ci_id x = ci_id y"
    using prune_selected(4) [OF x sx] prune_selected(4) [OF y sy] w s by (auto simp: loses_duplicate_def)
  then show "x = y"
    using distinct_map_nth_unique [OF assms prune_selected(1) [OF x sx] prune_selected(1) [OF y sy]] by blast
next
  fix x assume x: "x \<in> set items" "ci_selected x \<and> \<not> is_expired now x"
  then have x1: "x \<in> set (prune1 now items)" unfolding prune1_def by (intro map_drop_kept) auto
  obtain w where w: "w \<in> set (prune1 now items)" "ci_selected w" "ci_content_hash w = ci_content_hash x"
    "prune_winners (prune1 now items) (ci_content_hash x) = Some (ci_id w)" "prune_rank_key w \<le> prune_rank_key x"
    by (rule prune_winner [OF x1]) (use x in auto)
  have w0: "w \<in> set items" "\<not> is_expired now w" using map_drop_selected w(1,2) unfolding prune1_def by blast+
  have "\<not> loses_duplicate (prune_winners (prune1 now items)) w" using w(3,4) by (simp add: loses_duplicate_def)
  then have w2: "w \<in> set (prune2 (prune1 now items))" using w(1) unfolding prune2_def by (intro map_drop_kept)
  have "w \<in> set (fst (prune items now)) \<or> drop_as Superseded w \<in> set (fst (prune items now))"
    unfolding fst_prune using w2 by (subst (1 2) prune3_def) force
  with w w0 rank_key_level [OF w(5)]
  show "\<exists>w\<in>set items. ci_selected w \<and> \<not> is_expired now w \<and> ci_content_hash w = ci_content_hash x
      \<and> level_of x \<le> level_of w
      \<and> (w \<in> set (fst (prune items now)) \<or> drop_as Superseded w \<in> set (fst (prune items now)))" by blast
qed

theorem prune_keeps_one_copy_witness:
  "let xs = map (\<lambda>i. i\<lparr>ci_selected := True\<rparr>) [builder_ttl_ms 10 (builder_priority 60 (builder_new ''old'' History ''h'')),
        builder_new ''new'' History ''h'', builder_new ''newer'' Memory ''h'']
   in map ci_id (filter ci_selected (fst (prune xs 1000))) = [''newer'']
      \<and> (\<forall>x\<in>set (fst (prune xs 1000)). ci_selected x \<longrightarrow> \<not> is_expired 1000 x)"
proof -
  let ?xs = "map (\<lambda>i. i\<lparr>ci_selected := True\<rparr>) [builder_ttl_ms 10 (builder_priority 60 (builder_new ''old'' History ''h'')),
        builder_new ''new'' History ''h'', builder_new ''newer'' Memory ''h'']"
  have d: "distinct (map ci_id ?xs)" by code_simp
  have "map ci_id (filter ci_selected (fst (prune ?xs 1000))) = [''newer'']" by code_simp
  then show ?thesis using prune_keeps_one_copy [OF d, of 1000] unfolding Let_def by blast
qed

text \<open>The reason a pruned item is given, and the decisions recorded.\<close>

definition prune_reason :: "i64 \<Rightarrow> context_item list \<Rightarrow> context_item \<Rightarrow> drop_reason option" where
  "prune_reason now items x =
     (if is_expired now x then Some Expired
      else if loses_duplicate (prune_winners (prune1 now items)) x then Some Duplicate
      else if is_superseded (prune_newest (prune2 (prune1 now items))) x then Some Superseded
      else None)"

lemma prune_map:
  "fst (prune items now) = map (\<lambda>x. case prune_reason now items x of None \<Rightarrow> x | Some r \<Rightarrow> drop_as r x) items"
proof -
  have ns: "\<not> loses_duplicate W (drop_as r i)" "\<not> is_superseded N (drop_as r i)" for W N r i
    by (simp_all add: loses_duplicate_def is_superseded_def)
  let ?f1 = "\<lambda>i. if is_expired now i then drop_as Expired i else i"
  let ?f2 = "\<lambda>i. if loses_duplicate (prune_winners (prune1 now items)) i then drop_as Duplicate i else i"
  let ?f3 = "\<lambda>i. if is_superseded (prune_newest (prune2 (prune1 now items))) i then drop_as Superseded i else i"
  have eq: "fst (prune items now) = map (\<lambda>i. ?f3 (?f2 (?f1 i))) items"
    unfolding fst_prune by (subst prune3_def, subst (2) prune2_def, subst (3) prune1_def) simp
  show ?thesis unfolding eq by (rule map_cong) (simp_all add: prune_reason_def ns)
qed

lemma prune_item:
  "x \<in> set items \<Longrightarrow>
   (case prune_reason now items x of None \<Rightarrow> x | Some r \<Rightarrow> drop_as r x) \<in> set (fst (prune items now))"
  unfolding prune_map set_map by (rule imageI)

lemma prune_decisions_set:
  "(i, r) \<in> set (snd (prune items now)) \<longleftrightarrow> (\<exists>x\<in>set items. ci_id x = i \<and> prune_reason now items x = Some r)"
proof -
  have sel: "loses_duplicate W x \<Longrightarrow> ci_selected x" "is_superseded N x \<Longrightarrow> ci_selected x" for W N x
    by (simp_all add: loses_duplicate_def is_superseded_def)
  have l1: "x \<in> set (prune1 now items) \<and> loses_duplicate W x \<longleftrightarrow> x \<in> set items \<and> \<not> is_expired now x \<and> loses_duplicate W x" for W x
    by (rule drop_pass_iff [OF prune1_def sel(1)])
  have l2: "x \<in> set (prune2 (prune1 now items)) \<and> is_superseded N x \<longleftrightarrow>
      x \<in> set (prune1 now items) \<and> \<not> loses_duplicate (prune_winners (prune1 now items)) x \<and> is_superseded N x" for N x
    by (rule drop_pass_iff [OF prune2_def sel(2)])
  have l3: "x \<in> set (prune1 now items) \<and> is_superseded N x \<longleftrightarrow> x \<in> set items \<and> \<not> is_expired now x \<and> is_superseded N x" for N x
    by (rule drop_pass_iff [OF prune1_def sel(2)])
  have l4: "x \<in> set (prune2 (prune1 now items)) \<and> is_superseded N x \<longleftrightarrow> x \<in> set items \<and> \<not> is_expired now x
      \<and> \<not> loses_duplicate (prune_winners (prune1 now items)) x \<and> is_superseded N x" for N x
    using l2 [of x N] l3 [of x N] by blast
  have "snd (prune items now) = sort (map (\<lambda>x. (ci_id x, Expired)) (filter (is_expired now) items)
      @ map (\<lambda>x. (ci_id x, Duplicate)) (filter (loses_duplicate (prune_winners (prune1 now items))) (prune1 now items))
      @ map (\<lambda>x. (ci_id x, Superseded))
          (filter (is_superseded (prune_newest (prune2 (prune1 now items)))) (prune2 (prune1 now items))))"
    by (simp add: prune_def prune_pass_def Let_def prune1_def [symmetric] prune2_def [symmetric])
  then have "(i, r) \<in> set (snd (prune items now)) \<longleftrightarrow>
      (\<exists>x. ci_id x = i \<and> (r = Expired \<and> x \<in> set items \<and> is_expired now x
        \<or> r = Duplicate \<and> x \<in> set (prune1 now items) \<and> loses_duplicate (prune_winners (prune1 now items)) x
        \<or> r = Superseded \<and> x \<in> set (prune2 (prune1 now items)) \<and> is_superseded (prune_newest (prune2 (prune1 now items))) x))"
    by auto
  also have "\<dots> \<longleftrightarrow> (\<exists>x\<in>set items. ci_id x = i \<and> prune_reason now items x = Some r)"
    unfolding l1 l4 by (auto simp: prune_reason_def split: if_splits)
  finally show ?thesis .
qed

text \<open>Pruning accounts for every item: with distinct ids an item either stays exactly as it was and
  has no decision, or it is dropped for exactly one reason, the one recorded for its id. The
  decisions are sorted, so they do not depend on the order of the passes.\<close>

theorem prune_decisions_account:
  assumes "distinct (map ci_id items)"
  shows "sorted (snd (prune items now)) \<and> map ci_id (fst (prune items now)) = map ci_id items \<and>
    (\<forall>x\<in>set items. (x \<in> set (fst (prune items now)) \<and> (\<forall>r. (ci_id x, r) \<notin> set (snd (prune items now))))
       \<or> (\<exists>!r. (ci_id x, r) \<in> set (snd (prune items now)))
         \<and> (\<exists>r. (ci_id x, r) \<in> set (snd (prune items now)) \<and> drop_as r x \<in> set (fst (prune items now))))"
proof (intro conjI ballI)
  show "sorted (snd (prune items now))" by (simp add: prune_def Let_def)
  show "map ci_id (fst (prune items now)) = map ci_id items" by (rule prune_ids)
  fix x assume x: "x \<in> set items"
  have dec: "(ci_id x, r) \<in> set (snd (prune items now)) \<longleftrightarrow> prune_reason now items x = Some r" for r
    unfolding prune_decisions_set using distinct_map_nth_unique [OF assms] x by metis
  show "(x \<in> set (fst (prune items now)) \<and> (\<forall>r. (ci_id x, r) \<notin> set (snd (prune items now))))
       \<or> (\<exists>!r. (ci_id x, r) \<in> set (snd (prune items now)))
         \<and> (\<exists>r. (ci_id x, r) \<in> set (snd (prune items now)) \<and> drop_as r x \<in> set (fst (prune items now)))"
    using prune_item [OF x, of now] unfolding dec by (cases "prune_reason now items x") auto
qed

theorem prune_decisions_account_witness:
  "let xs = map (\<lambda>i. i\<lparr>ci_selected := True\<rparr>) [builder_ttl_ms 10 (builder_new ''old'' History ''g''),
        builder_new ''copy'' History ''h'', builder_new ''a'' Memory ''h'']
   in snd (prune xs 1000) = [(''copy'', Duplicate), (''old'', Expired)]
      \<and> map ci_id (fst (prune xs 1000)) = [''old'', ''copy'', ''a'']"
proof -
  let ?xs = "map (\<lambda>i. i\<lparr>ci_selected := True\<rparr>) [builder_ttl_ms 10 (builder_new ''old'' History ''g''),
        builder_new ''copy'' History ''h'', builder_new ''a'' Memory ''h'']"
  have d: "distinct (map ci_id ?xs)" by code_simp
  have "map ci_id ?xs = [''old'', ''copy'', ''a'']" by code_simp
  moreover have "snd (prune ?xs 1000) = [(''copy'', Duplicate), (''old'', Expired)]" by code_simp
  ultimately show ?thesis using prune_decisions_account [OF d, of 1000] unfolding Let_def by metis
qed

section \<open>The bounded summarizer meets the ladder's law\<close>

lemma find_SomeD: "List.find P xs = Some x \<Longrightarrow> x \<in> set xs \<and> P x"
  by (auto simp: find_Some_iff)

lemma validate_sources_sound:
  "validate_sources items ids = Inr u \<Longrightarrow>
   \<forall>id'\<in>set ids. \<exists>item\<in>set items. ci_id item = id' \<and> \<not> is_mandatory_kind item \<and> ci_tool_pair_complete item"
proof (induction ids)
  case (Cons a ids)
  then show ?case
    by (auto split: option.splits if_splits dest!: find_SomeD)
qed simp

lemma fallback_summary_sources:
  "\<forall>id'\<in>set (so_source_ids (fallback_summary E b items reason)).
     \<exists>item\<in>set items. ci_id item = id' \<and> \<not> is_mandatory_kind item \<and> ci_tool_pair_complete item"
  by (auto simp: fallback_summary_def Let_def fallback_candidates_def)

lemma summary_validate_sound:
  "summary_validate U b raw items = Inr u \<Longrightarrow>
   rs_estimated_tokens raw \<le> sc_summary_budget_tokens (bs_config b) \<and> validate_sources items (rs_source_ids raw) = Inr u"
  by (auto simp: summary_validate_def split: if_splits)

lemma bounded_summarize_outcome:
  assumes "bounded_summarize E U M b items = (Inr summary, b')"
  shows "(\<forall>id'\<in>set (so_source_ids summary). \<exists>item\<in>set items.
           ci_id item = id' \<and> \<not> is_mandatory_kind item \<and> ci_tool_pair_complete item)
    \<and> so_summary_tokens summary \<le> sc_summary_budget_tokens (bs_config b)
    \<and> (so_fallback summary \<longleftrightarrow> so_fallback_reason summary \<noteq> None)"
proof -
  define ok where "ok s \<longleftrightarrow> (\<forall>id'\<in>set (so_source_ids s). \<exists>item\<in>set items.
      ci_id item = id' \<and> \<not> is_mandatory_kind item \<and> ci_tool_pair_complete item)
    \<and> so_summary_tokens s \<le> sc_summary_budget_tokens (bs_config b)
    \<and> (so_fallback s \<longleftrightarrow> so_fallback_reason s \<noteq> None)" for s :: summary_outcome
  have fb: "ok (fallback_summary E c items reason)" if "bs_config c = bs_config b" for c :: "'a bounded_summarizer" and reason
    using fallback_summary_sources [of E c items reason] that
    by (simp add: ok_def) (simp add: fallback_summary_def Let_def)
  have raw: "ok \<lparr>so_summary_id = i, so_source_ids = rs_source_ids raw, so_summary_tokens = rs_estimated_tokens raw,
      so_summarizer_version = v, so_fallback = False, so_fallback_reason = None\<rparr>"
    if "summary_validate U c raw items = Inr u" "bs_config c = bs_config b" for i v raw u and c :: "'a bounded_summarizer"
    using summary_validate_sound [OF that(1)] validate_sources_sound that(2) unfolding ok_def by fastforce
  have "ok summary"
    using assms by (auto simp: bounded_summarize_def Let_def intro!: fb raw split: if_splits option.splits prod.splits sum.splits)
  then show ?thesis by (simp add: ok_def)
qed

interpretation bounded: summarizer_sources "bounded_summarizer_ops E U M" for E U M
  by unfold_locales (auto simp: bounded_summarizer_ops_def dest!: bounded_summarize_outcome)

text \<open>Whatever the summary model returns, the bounded summarizer names as sources only optional
  items it was given whose tool pair is complete, stays within the summary budget, reports a reason
  exactly when it fell back, and uses the model at most once: after an attempt the model is never
  touched again.\<close>

theorem bounded_summarizer_safe:
  assumes "sm_summarize (bounded_summarizer_ops E U M) b items = (Inr summary, b')"
  shows "(\<forall>id'\<in>set (so_source_ids summary). \<exists>item\<in>set items.
           ci_id item = id' \<and> \<not> is_mandatory_kind item \<and> ci_tool_pair_complete item)
    \<and> so_summary_tokens summary \<le> sc_summary_budget_tokens (bs_config b)
    \<and> (so_fallback summary \<longleftrightarrow> so_fallback_reason summary \<noteq> None)
    \<and> (bs_model_attempted b \<longrightarrow> b' = b) \<and> (bs_model b' \<noteq> bs_model b \<longrightarrow> bs_model_attempted b')"
proof -
  have run: "bounded_summarize E U M b items = (Inr summary, b')"
    using assms by (simp add: bounded_summarizer_ops_def)
  have "bs_model_attempted b \<longrightarrow> b' = b" using run by (auto simp: bounded_summarize_def split: if_splits)
  moreover have "bs_model b' \<noteq> bs_model b \<longrightarrow> bs_model_attempted b'"
    using run by (auto simp: bounded_summarize_def Let_def split: if_splits option.splits prod.splits sum.splits)
  ultimately show ?thesis using bounded_summarize_outcome [OF run] by blast
qed

text \<open>A model that always claims to have summarised everything in one token, mandatory items too.\<close>

definition greedy_model :: "nat summary_model" where
  "greedy_model =
     \<lparr>smo_available = (\<lambda>_. True),
      smo_summarize = (\<lambda>n items config. (Inr \<lparr>rs_summary_id = ''s'', rs_source_ids = map ci_id items,
        rs_estimated_tokens = 1, rs_text = ''text''\<rparr>, n + 1))\<rparr>"

definition plain_ext :: ext where
  "plain_ext = \<lparr>ext_nfc = id, ext_sha256_hex = id, ext_json_parse = (\<lambda>_. None), ext_json_escape = id,
     ext_f64_as_int = (\<lambda>_. None), ext_f64_display = (\<lambda>_. [])\<rparr>"

theorem bounded_summarizer_safe_witness:
  "\<exists>summary b'. sm_summarize (bounded_summarizer_ops plain_ext plain_unicode greedy_model)
       (bounded_summarizer_new (Some 0) summarizer_config_default)
       [sample_item ''p'' UserPrompt 50 9, sample_item ''h'' History 50 9] = (Inr summary, b')
     \<and> so_fallback summary \<and> so_source_ids summary = [''h''] \<and> so_summary_tokens summary \<le> 512"
proof -
  let ?r = "sm_summarize (bounded_summarizer_ops plain_ext plain_unicode greedy_model)
       (bounded_summarizer_new (Some 0) summarizer_config_default)
       [sample_item ''p'' UserPrompt 50 9, sample_item ''h'' History 50 9]"
  have v: "case fst ?r of Inl _ \<Rightarrow> False | Inr s \<Rightarrow> so_fallback s \<and> so_source_ids s = [''h'']" by code_simp
  then obtain summary b' where r: "?r = (Inr summary, b')" by (cases ?r) (auto split: sum.splits)
  have "sc_summary_budget_tokens (bs_config (bounded_summarizer_new (Some (0::nat)) summarizer_config_default)) = 512"
    by code_simp
  with bounded_summarizer_safe [OF r] v r show ?thesis by auto
qed

end
