(* ===== verification/Context_Budget.thy ===== *)
theory Context_Budget
  imports Context_Profile
begin

text \<open>
  \<open>crates/context-budget/src/budget.rs\<close>: the budget derived from a profile, the mandatory
  minimum of a context with its fixed part order, and the refusal value of the assembly.
\<close>

section \<open>The budget\<close>

record category_budget =
  cb_target_tokens :: u32
  cb_soft_limit_tokens :: u32
  cb_hard_limit_tokens :: u32

record context_budget =
  bg_schema_version :: u32
  bg_profile_version :: string
  bg_target_tokens :: u32
  bg_soft_limit_tokens :: u32
  bg_hard_limit_tokens :: u32
  bg_reserves_total :: u32
  bg_system :: category_budget
  bg_user :: category_budget
  bg_memory :: category_budget
  bg_tools :: category_budget
  bg_history :: category_budget
  bg_scratchpad :: category_budget
  bg_output :: category_budget

definition CONTEXT_BUDGET_SCHEMA_VERSION :: u32 where
  "CONTEXT_BUDGET_SCHEMA_VERSION = 1"

fun category_share :: "budget_category \<Rightarrow> u32" where
  "category_share CatSystem = 10"
| "category_share CatUser = 10"
| "category_share CatMemory = 20"
| "category_share CatTools = 10"
| "category_share CatHistory = 35"
| "category_share CatScratchpad = 15"
| "category_share CatOutput = 0"

definition share_of :: "u32 \<Rightarrow> u32 \<Rightarrow> u32" where
  "share_of value p = ucast ((ucast value * ucast p :: u64) div 100)"

definition category_of_profile :: "model_context_profile \<Rightarrow> budget_category \<Rightarrow> category_budget" where
  "category_of_profile profile kind =
     \<lparr>cb_target_tokens = share_of (mp_target_tokens profile) (category_share kind),
      cb_soft_limit_tokens = share_of (mp_soft_limit_tokens profile) (category_share kind),
      cb_hard_limit_tokens = share_of (mp_hard_limit_tokens profile) (category_share kind)\<rparr>"

definition budget_from_profile :: "model_context_profile \<Rightarrow> context_budget" where
  "budget_from_profile profile =
     \<lparr>bg_schema_version = CONTEXT_BUDGET_SCHEMA_VERSION,
      bg_profile_version = mp_profile_version profile,
      bg_target_tokens = mp_target_tokens profile,
      bg_soft_limit_tokens = mp_soft_limit_tokens profile,
      bg_hard_limit_tokens = mp_hard_limit_tokens profile,
      bg_reserves_total = reserves_total profile,
      bg_system = category_of_profile profile CatSystem,
      bg_user = category_of_profile profile CatUser,
      bg_memory = category_of_profile profile CatMemory,
      bg_tools = category_of_profile profile CatTools,
      bg_history = category_of_profile profile CatHistory,
      bg_scratchpad = category_of_profile profile CatScratchpad,
      bg_output = \<lparr>cb_target_tokens = mp_final_answer_reserve profile,
                   cb_soft_limit_tokens = mp_final_answer_reserve profile,
                   cb_hard_limit_tokens = mp_final_answer_reserve profile\<rparr>\<rparr>"

fun budget_category_of :: "context_budget \<Rightarrow> budget_category \<Rightarrow> category_budget" where
  "budget_category_of b CatSystem = bg_system b"
| "budget_category_of b CatUser = bg_user b"
| "budget_category_of b CatMemory = bg_memory b"
| "budget_category_of b CatTools = bg_tools b"
| "budget_category_of b CatHistory = bg_history b"
| "budget_category_of b CatScratchpad = bg_scratchpad b"
| "budget_category_of b CatOutput = bg_output b"

definition within_target :: "context_budget \<Rightarrow> u32 \<Rightarrow> bool" where
  "within_target b context_tokens \<longleftrightarrow> context_tokens \<le> bg_target_tokens b"

definition within_soft_limit :: "context_budget \<Rightarrow> u32 \<Rightarrow> bool" where
  "within_soft_limit b context_tokens \<longleftrightarrow>
     sat_add context_tokens (bg_reserves_total b) \<le> bg_soft_limit_tokens b"

definition within_hard_limit :: "context_budget \<Rightarrow> u32 \<Rightarrow> bool" where
  "within_hard_limit b context_tokens \<longleftrightarrow>
     sat_add context_tokens (bg_reserves_total b) \<le> bg_hard_limit_tokens b"

section \<open>The mandatory minimum\<close>

datatype mandatory_part =
  PartSafetyPolicy | PartApprovalPolicy | PartUserPrompt | PartPendingToolCall | PartCancellation

fun mandatory_part_as_str :: "mandatory_part \<Rightarrow> string" where
  "mandatory_part_as_str PartSafetyPolicy = ''safety_policy''"
| "mandatory_part_as_str PartApprovalPolicy = ''approval_policy''"
| "mandatory_part_as_str PartUserPrompt = ''user_prompt''"
| "mandatory_part_as_str PartPendingToolCall = ''pending_tool_call''"
| "mandatory_part_as_str PartCancellation = ''cancellation''"

definition mandatory_part_order :: "mandatory_part list" where
  "mandatory_part_order =
     [PartSafetyPolicy, PartApprovalPolicy, PartUserPrompt, PartPendingToolCall, PartCancellation]"

fun part_of_kind :: "item_kind \<Rightarrow> mandatory_part option" where
  "part_of_kind SafetyPolicy = Some PartSafetyPolicy"
| "part_of_kind ApprovalPolicy = Some PartApprovalPolicy"
| "part_of_kind UserPrompt = Some PartUserPrompt"
| "part_of_kind PendingToolCall = Some PartPendingToolCall"
| "part_of_kind Cancellation = Some PartCancellation"
| "part_of_kind _ = None"

definition is_never_reducible :: "mandatory_part \<Rightarrow> bool" where
  "is_never_reducible p \<longleftrightarrow> p \<in> {PartSafetyPolicy, PartApprovalPolicy}"

text \<open>The derived \<open>Ord\<close> of \<open>MandatoryPart\<close> and of \<open>Option<MandatoryPart>\<close> (\<open>None\<close> first).\<close>

fun mandatory_part_rank :: "mandatory_part \<Rightarrow> nat" where
  "mandatory_part_rank PartSafetyPolicy = 0"
| "mandatory_part_rank PartApprovalPolicy = 1"
| "mandatory_part_rank PartUserPrompt = 2"
| "mandatory_part_rank PartPendingToolCall = 3"
| "mandatory_part_rank PartCancellation = 4"

instantiation mandatory_part :: linorder
begin

definition less_eq_mandatory_part :: "mandatory_part \<Rightarrow> mandatory_part \<Rightarrow> bool" where
  "less_eq_mandatory_part a b \<longleftrightarrow> mandatory_part_rank a \<le> mandatory_part_rank b"

definition less_mandatory_part :: "mandatory_part \<Rightarrow> mandatory_part \<Rightarrow> bool" where
  "less_mandatory_part a b \<longleftrightarrow> mandatory_part_rank a < mandatory_part_rank b"

instance
proof
  fix x y :: mandatory_part
  show "x \<le> y \<Longrightarrow> y \<le> x \<Longrightarrow> x = y"
    by (cases x; cases y) (simp_all add: less_eq_mandatory_part_def)
qed (auto simp: less_eq_mandatory_part_def less_mandatory_part_def)

end

fun part_option_rank :: "mandatory_part option \<Rightarrow> nat" where
  "part_option_rank None = 0"
| "part_option_rank (Some p) = Suc (mandatory_part_rank p)"

record minimum_viable_context =
  mvc_items :: "context_item list"
  mvc_parts :: "(mandatory_part \<times> u32 \<times> u32) list"
  mvc_tokens :: u32

definition part_items :: "context_item list \<Rightarrow> mandatory_part \<Rightarrow> context_item list" where
  "part_items items part =
     sort_key (\<lambda>item. (ci_created_at item, ci_id item))
       (filter (\<lambda>item. part_of_kind (ci_kind item) = Some part) items)"

definition mvc_step ::
  "context_item list \<Rightarrow> minimum_viable_context \<Rightarrow> mandatory_part \<Rightarrow> minimum_viable_context" where
  "mvc_step items acc part =
     (let ps = part_items items part in
      if ps = [] then acc
      else let part_tokens = sat_sum (map ci_estimated_tokens ps)
           in \<lparr>mvc_items = mvc_items acc @ ps,
               mvc_parts = mvc_parts acc @ [(part, of_nat (length ps), part_tokens)],
               mvc_tokens = sat_add (mvc_tokens acc) part_tokens\<rparr>)"

definition mvc_select :: "context_item list \<Rightarrow> minimum_viable_context" where
  "mvc_select items =
     foldl (mvc_step items) \<lparr>mvc_items = [], mvc_parts = [], mvc_tokens = 0\<rparr> mandatory_part_order"

fun missing_part_loop :: "u32 \<Rightarrow> u32 \<Rightarrow> (mandatory_part \<times> u32 \<times> u32) list \<Rightarrow> mandatory_part option" where
  "missing_part_loop limit running [] = None"
| "missing_part_loop limit running ((part, n, part_tokens) # parts) =
     (let running = sat_add running part_tokens in
      if running > limit then Some part else missing_part_loop limit running parts)"

definition missing_part :: "minimum_viable_context \<Rightarrow> u32 \<Rightarrow> mandatory_part option" where
  "missing_part mvc limit =
     (case missing_part_loop limit 0 (mvc_parts mvc) of
        Some part \<Rightarrow> Some part
      | None \<Rightarrow> (if mvc_parts mvc = [] then None else Some (fst (last (mvc_parts mvc)))))"

definition mvc_contains :: "minimum_viable_context \<Rightarrow> string \<Rightarrow> bool" where
  "mvc_contains mvc id' \<longleftrightarrow> (\<exists>item \<in> set (mvc_items mvc). ci_id item = id')"

section \<open>Refusal of the assembly\<close>

datatype budget_unavailable_stage =
  MandatoryOverflow | DropsExhausted | ProviderReplanFailed | EstimatorUnavailable

fun stage_as_str :: "budget_unavailable_stage \<Rightarrow> string" where
  "stage_as_str MandatoryOverflow = ''mandatory_overflow''"
| "stage_as_str DropsExhausted = ''drops_exhausted''"
| "stage_as_str ProviderReplanFailed = ''provider_replan_failed''"
| "stage_as_str EstimatorUnavailable = ''estimator_unavailable''"

record budget_unavailable =
  bu_code :: string
  bu_stage :: budget_unavailable_stage
  bu_required_tokens :: u32
  bu_available_tokens :: u32
  bu_profile_version :: string
  bu_tokenizer_version :: string
  bu_context_ledger_hash :: string
  bu_missing_part :: "mandatory_part option"

definition BUDGET_UNAVAILABLE_CODE :: string where
  "BUDGET_UNAVAILABLE_CODE = ''budget_unavailable''"

definition budget_unavailable_new ::
  "budget_unavailable_stage \<Rightarrow> u32 \<Rightarrow> u32 \<Rightarrow> string \<Rightarrow> string \<Rightarrow> budget_unavailable" where
  "budget_unavailable_new stage required available profile_version tokenizer_version =
     \<lparr>bu_code = BUDGET_UNAVAILABLE_CODE, bu_stage = stage, bu_required_tokens = required,
      bu_available_tokens = available, bu_profile_version = profile_version,
      bu_tokenizer_version = tokenizer_version, bu_context_ledger_hash = [],
      bu_missing_part = None\<rparr>"

definition with_missing_part :: "mandatory_part option \<Rightarrow> budget_unavailable \<Rightarrow> budget_unavailable" where
  "with_missing_part part u = u\<lparr>bu_missing_part := part\<rparr>"

definition with_ledger_hash :: "string \<Rightarrow> budget_unavailable \<Rightarrow> budget_unavailable" where
  "with_ledger_hash hash u = u\<lparr>bu_context_ledger_hash := hash\<rparr>"

section \<open>Lemmas on the budget\<close>

lemma share_of_percent: "share_of v p = percent_u32 v p"
  by (simp add: share_of_def percent_u32_def)

text \<open>The category targets, and likewise the soft and hard limits, of a budget never add up
  to more than the profile's own limit; the answer is paid from its reserve, not from them.\<close>

theorem category_budgets_within_profile:
  fixes profile
  defines "b \<equiv> budget_from_profile profile"
    and "context_categories \<equiv> [CatSystem, CatUser, CatMemory, CatTools, CatHistory, CatScratchpad]"
  shows "sum_list (map (\<lambda>c. unat (cb_target_tokens (budget_category_of b c))) context_categories)
           \<le> unat (mp_target_tokens profile)
    \<and> sum_list (map (\<lambda>c. unat (cb_soft_limit_tokens (budget_category_of b c))) context_categories)
           \<le> unat (mp_soft_limit_tokens profile)
    \<and> sum_list (map (\<lambda>c. unat (cb_hard_limit_tokens (budget_category_of b c))) context_categories)
           \<le> unat (mp_hard_limit_tokens profile)
    \<and> budget_category_of b CatOutput = \<lparr>cb_target_tokens = mp_final_answer_reserve profile,
        cb_soft_limit_tokens = mp_final_answer_reserve profile,
        cb_hard_limit_tokens = mp_final_answer_reserve profile\<rparr>"
proof -
  have shares: "v * 10 div 100 + (v * 10 div 100 + (v * 20 div 100 + (v * 10 div 100
      + (v * 35 div 100 + v * 15 div 100)))) \<le> v" for v :: nat
    by linarith
  have pc: "unat (share_of v 10) = unat v * 10 div 100" "unat (share_of v 20) = unat v * 20 div 100"
    "unat (share_of v 35) = unat v * 35 div 100" "unat (share_of v 15) = unat v * 15 div 100" for v
    by (simp_all add: share_of_percent unat_percent_u32)
  show ?thesis
    unfolding b_def context_categories_def
    by (simp add: budget_from_profile_def category_of_profile_def pc del: div_mult_self1_is_m)
      (simp only: shares [simplified])
qed

section \<open>Lemmas on the mandatory minimum\<close>

lemma part_of_kind_None: "part_of_kind (ci_kind i) = None \<longleftrightarrow> \<not> is_mandatory_kind i"
  by (cases "ci_kind i") (simp_all add: is_mandatory_kind_def)

lemma mvc_foldl:
  "foldl (mvc_step items) acc ps =
     \<lparr>mvc_items = mvc_items acc @ concat (map (part_items items) ps),
      mvc_parts = mvc_parts acc @
        map (\<lambda>p. (p, of_nat (length (part_items items p)),
                  sat_sum (map ci_estimated_tokens (part_items items p))))
          (filter (\<lambda>p. part_items items p \<noteq> []) ps),
      mvc_tokens = sat_add (mvc_tokens acc)
        (sat_sum (map ci_estimated_tokens (concat (map (part_items items) ps))))\<rparr>"
proof (induction ps arbitrary: acc)
  case (Cons p ps)
  then show ?case
    by (simp add: mvc_step_def Let_def sat_sum_append sat_add_assoc)
qed simp

lemma mvc_select_items: "mvc_items (mvc_select items) = concat (map (part_items items) mandatory_part_order)"
  by (simp add: mvc_select_def mvc_foldl)

lemma mvc_select_parts:
  "mvc_parts (mvc_select items) =
     map (\<lambda>p. (p, of_nat (length (part_items items p)),
               sat_sum (map ci_estimated_tokens (part_items items p))))
       (filter (\<lambda>p. part_items items p \<noteq> []) mandatory_part_order)"
  by (simp add: mvc_select_def mvc_foldl)

lemma mset_part_items: "mset (part_items items p) = filter_mset (\<lambda>i. part_of_kind (ci_kind i) = Some p) (mset items)"
  by (simp add: part_items_def)

lemma mset_mvc_items: "mset (mvc_items (mvc_select items)) = mset (filter is_mandatory_kind items)"
proof (induction items)
  case Nil
  then show ?case by (simp add: mvc_select_items mandatory_part_order_def part_items_def)
next
  case (Cons i items)
  then show ?case
    by (cases "ci_kind i")
      (simp_all add: mvc_select_items mandatory_part_order_def mset_part_items is_mandatory_kind_def)
qed

lemma mvc_tokens_eq: "mvc_tokens (mvc_select items) =
    sat_sum (map ci_estimated_tokens (filter is_mandatory_kind items))"
proof -
  have "mvc_tokens (mvc_select items) = sat_sum (map ci_estimated_tokens (mvc_items (mvc_select items)))"
    by (simp add: mvc_select_def mvc_foldl)
  also have "\<dots> = sat_sum (map ci_estimated_tokens (filter is_mandatory_kind items))"
    by (rule sat_sum_perm) (metis mset_map mset_mvc_items)
  finally show ?thesis .
qed

text \<open>The order of the assembled mandatory block: part, then creation time, then identifier.\<close>

definition mandatory_key :: "context_item \<Rightarrow> nat \<times> i64 \<times> string" where
  "mandatory_key i = (part_option_rank (part_of_kind (ci_kind i)), ci_created_at i, ci_id i)"

lemma set_part_items: "i \<in> set (part_items items p) \<longleftrightarrow> i \<in> set items \<and> part_of_kind (ci_kind i) = Some p"
  by (auto simp: part_items_def)

lemma sorted_part_items: "sorted (map mandatory_key (part_items items p))"
proof -
  have "sorted (map (\<lambda>i. (ci_created_at i, ci_id i)) (part_items items p))"
    by (simp add: part_items_def)
  then show ?thesis
    unfolding sorted_map
    by (rule sorted_wrt_mono_rel [rotated]) (auto simp: mandatory_key_def set_part_items)
qed

lemma sorted_mvc_items: "sorted (map mandatory_key (mvc_items (mvc_select items)))"
  by (auto simp: mvc_select_items mandatory_part_order_def sorted_append sorted_part_items
      set_part_items mandatory_key_def)

lemma part_items_filter_key:
  "filter (\<lambda>j. mandatory_key j = mandatory_key i) (part_items items p) =
     (if part_of_kind (ci_kind i) = Some p then filter (\<lambda>j. mandatory_key j = mandatory_key i) items else [])"
proof (cases "part_of_kind (ci_kind i) = Some p")
  case True
  have eq: "(part_of_kind (ci_kind j) = Some p \<and> mandatory_key j = mandatory_key i) \<longleftrightarrow> mandatory_key j = mandatory_key i" for j
    using True by (cases "ci_kind j"; cases p; cases "ci_kind i") (auto simp: mandatory_key_def)
  have "filter (\<lambda>j. mandatory_key j = mandatory_key i) (part_items items p) =
    sort_key (\<lambda>i. (ci_created_at i, ci_id i)) (filter (\<lambda>j. mandatory_key j = mandatory_key i) items)"
    by (simp add: part_items_def filter_sort eq)
  also have "\<dots> = filter (\<lambda>j. mandatory_key j = mandatory_key i) items"
    by (rule sort_key_all_equal [where c = "(ci_created_at i, ci_id i)"]) (auto simp: mandatory_key_def)
  finally show ?thesis using True by simp
next
  case False
  then have "mandatory_key j \<noteq> mandatory_key i" if "part_of_kind (ci_kind j) = Some p" for j
    using that by (cases "ci_kind j"; cases "ci_kind i") (auto simp: mandatory_key_def)
  then show ?thesis using False by (auto simp: filter_empty_conv set_part_items)
qed

lemma mvc_items_sorted: "mvc_items (mvc_select items) = sort_key mandatory_key (filter is_mandatory_kind items)"
proof (rule properties_for_sort_key [symmetric])
  show "mset (mvc_items (mvc_select items)) = mset (filter is_mandatory_kind items)"
    by (rule mset_mvc_items)
  show "sorted (map mandatory_key (mvc_items (mvc_select items)))"
    by (rule sorted_mvc_items)
  fix i assume "i \<in> set (mvc_items (mvc_select items))"
  then have "i \<in> set (filter is_mandatory_kind items)"
    by (metis mset_eq_setD mset_mvc_items)
  then have man: "is_mandatory_kind i" by simp
  have "filter (\<lambda>j. mandatory_key j = mandatory_key i) (mvc_items (mvc_select items))
      = filter (\<lambda>j. mandatory_key j = mandatory_key i) items"
    using man by (cases "ci_kind i")
      (simp_all add: mvc_select_items mandatory_part_order_def part_items_filter_key is_mandatory_kind_def)
  moreover have "filter (\<lambda>j. mandatory_key j = mandatory_key i) (filter is_mandatory_kind items)
      = filter (\<lambda>j. mandatory_key j = mandatory_key i) items"
  proof -
    have "mandatory_key j = mandatory_key i \<Longrightarrow> is_mandatory_kind j" for j
      using man by (cases "ci_kind j"; cases "ci_kind i")
        (simp_all add: mandatory_key_def is_mandatory_kind_def)
    then show ?thesis by (simp add: conj_commute cong: filter_cong conj_cong)
        (metis (mono_tags, lifting))
  qed
  ultimately show "filter (\<lambda>j. mandatory_key i = mandatory_key j) (mvc_items (mvc_select items))
      = filter (\<lambda>j. mandatory_key i = mandatory_key j) (filter is_mandatory_kind items)"
    by (simp add: eq_commute [of "mandatory_key i"])
qed

text \<open>The mandatory minimum collected part by part is the single stable sort of all mandatory
  items by part, creation time and identifier; its token count is their saturating sum.\<close>

theorem mvc_select_sorts_mandatory:
  "mvc_items (mvc_select items) = sort_key mandatory_key (filter is_mandatory_kind items)
   \<and> mvc_tokens (mvc_select items) =
       sat_sum (map ci_estimated_tokens (filter is_mandatory_kind items))"
  by (simp only: mvc_items_sorted mvc_tokens_eq conj_absorb refl simp_thms)

abbreviation part_tokens :: "mandatory_part \<times> u32 \<times> u32 \<Rightarrow> u32" where
  "part_tokens p \<equiv> snd (snd p)"

lemma missing_part_loop_Some:
  "missing_part_loop limit r parts = Some part \<Longrightarrow>
   \<exists>pre n t post. parts = pre @ (part, n, t) # post
     \<and> limit < sat_add r (sat_sum (map part_tokens (pre @ [(part, n, t)])))
     \<and> (pre \<noteq> [] \<longrightarrow> sat_add r (sat_sum (map part_tokens pre)) \<le> limit)"
proof (induction parts arbitrary: r)
  case (Cons p parts)
  obtain q n t where p: "p = (q, n, t)" by (cases p)
  show ?case
  proof (cases "limit < sat_add r t")
    case True
    with Cons.prems p show ?thesis by (intro exI [of _ "[]"]) (auto simp: sat_sum_Cons)
  next
    case False
    with Cons.prems p have "missing_part_loop limit (sat_add r t) parts = Some part"
      by (simp add: Let_def)
    from Cons.IH [OF this] obtain pre n' t' post where
      *: "parts = pre @ (part, n', t') # post"
        "limit < sat_add (sat_add r t) (sat_sum (map part_tokens (pre @ [(part, n', t')])))"
        "pre \<noteq> [] \<longrightarrow> sat_add (sat_add r t) (sat_sum (map part_tokens pre)) \<le> limit" by blast
    show ?thesis
      using * False p
      by (intro exI [of _ "p # pre"] exI [of _ n'] exI [of _ t'] exI [of _ post])
        (cases "pre = []"; auto simp: sat_sum_Cons sat_add_assoc)
  qed
qed simp

lemma missing_part_loop_None:
  "missing_part_loop limit r parts = None \<Longrightarrow> parts \<noteq> [] \<Longrightarrow>
   sat_add r (sat_sum (map part_tokens parts)) \<le> limit"
proof (induction parts arbitrary: r)
  case (Cons p parts)
  then show ?case
    by (cases p; cases "parts = []")
      (auto simp: Let_def sat_sum_Cons sat_add_assoc [symmetric] split: if_splits)
qed simp

lemma sat_sum_mvc_parts:
  "sat_sum (map part_tokens (mvc_parts (mvc_select items))) = mvc_tokens (mvc_select items)"
proof -
  have "sat_sum (map (\<lambda>p. sat_sum (map ci_estimated_tokens (part_items items p)))
        (filter (\<lambda>p. part_items items p \<noteq> []) ps))
      = sat_sum (map ci_estimated_tokens (concat (map (part_items items) ps)))" for ps
    by (induction ps) (auto simp: sat_sum_Cons sat_sum_append)
  then show ?thesis by (simp add: mvc_select_def mvc_foldl comp_def)
qed

text \<open>When the mandatory minimum does not fit under a limit, \<open>missing_part\<close> names the first part
  in the fixed order at which the running total passes it: the parts before it fit, and with it
  they do not.\<close>

theorem missing_part_first_overflow:
  assumes "limit < mvc_tokens (mvc_select items)"
  shows "\<exists>pre part n t post. mvc_parts (mvc_select items) = pre @ (part, n, t) # post
    \<and> missing_part (mvc_select items) limit = Some part
    \<and> sat_sum (map part_tokens pre) \<le> limit
    \<and> limit < sat_sum (map part_tokens (pre @ [(part, n, t)]))"
proof -
  from assms have over: "limit < sat_sum (map part_tokens (mvc_parts (mvc_select items)))"
    by (simp add: sat_sum_mvc_parts)
  have "missing_part_loop limit 0 (mvc_parts (mvc_select items)) \<noteq> None"
  proof
    assume "missing_part_loop limit 0 (mvc_parts (mvc_select items)) = None"
    from missing_part_loop_None [OF this] over show False
      by (cases "mvc_parts (mvc_select items) = []") auto
  qed
  then obtain part where *: "missing_part_loop limit 0 (mvc_parts (mvc_select items)) = Some part"
    by auto
  then have "missing_part (mvc_select items) limit = Some part"
    by (simp add: missing_part_def)
  moreover from missing_part_loop_Some [OF *] obtain pre n t post where
    "mvc_parts (mvc_select items) = pre @ (part, n, t) # post"
    "limit < sat_sum (map part_tokens (pre @ [(part, n, t)]))"
    "pre \<noteq> [] \<longrightarrow> sat_sum (map part_tokens pre) \<le> limit" by auto
  moreover from this(3) have "sat_sum (map part_tokens pre) \<le> limit"
    by (cases "pre = []") auto
  ultimately show ?thesis by blast
qed

theorem missing_part_first_overflow_witness:
  "\<exists>items limit. limit < mvc_tokens (mvc_select items)
     \<and> missing_part (mvc_select items) limit = Some PartUserPrompt"
proof -
  let ?items = "[builder_sizes 9 9 (builder_new ''u'' UserPrompt ''h''),
                 builder_sizes 5 5 (builder_new ''s'' SafetyPolicy ''h'')]"
  have h: "6 < mvc_tokens (mvc_select ?items)" by code_simp
  have "missing_part (mvc_select ?items) 6 = Some PartUserPrompt" by code_simp
  with h missing_part_first_overflow [OF h] show ?thesis by blast
qed

end
