(* ===== verification/Context_Ledger.thy ===== *)
theory Context_Ledger
  imports Context_Budget Content_Hash Context_Ladder
begin

text \<open>
  \<open>crates/context-budget/src/ledger.rs\<close>: the ledger entry of a model call and its digest. The
  \<open>f64\<close> compression ratio, which the digest does not cover, is kept as its two operands.
\<close>

section \<open>Records\<close>

definition CONTEXT_LEDGER_SCHEMA_VERSION :: u32 where
  "CONTEXT_LEDGER_SCHEMA_VERSION = 1"

record selected_item_record =
  si_id :: string
  si_estimated_tokens :: u32

record dropped_item_record =
  di_id :: string
  di_drop_reason :: drop_reason

record compression_record =
  cr_summary_id :: string
  cr_source_ids :: "string list"
  cr_compression_ratio :: "u32 \<times> u32" \<comment> \<open>summary tokens over source tokens, 0.0 if the latter are 0\<close>
  cr_summarizer_version :: string
  cr_summary_budget :: u32
  cr_fallback :: bool
  cr_fallback_reason :: "string option"

record mandatory_part_record =
  mr_part :: mandatory_part
  mr_items :: u32
  mr_tokens :: u32

record loadout_record =
  lr_loadout_id :: string
  lr_intent :: string
  lr_rules_version :: string
  lr_matched_rule :: "string option"
  lr_tool_ids :: "string list"
  lr_schema_tokens :: u32
  lr_fallback :: bool

datatype ledger_outcome = LedgerSent | LedgerBudgetUnavailable

fun ledger_outcome_as_str :: "ledger_outcome \<Rightarrow> string" where
  "ledger_outcome_as_str LedgerSent = ''sent''"
| "ledger_outcome_as_str LedgerBudgetUnavailable = ''budget_unavailable''"

record context_ledger_entry =
  le_id :: string
  le_schema_version :: u32
  le_task_id :: string
  le_session_id :: string
  le_model_call_id :: string
  le_created_at :: i64
  le_provider :: string
  le_model :: string
  le_profile_version :: string
  le_profile_snapshot :: string
  le_tokenizer_version :: string
  le_normalizer_version :: string
  le_strategy_version :: string
  le_mandatory_tokens :: u32
  le_selected_optional_tokens :: u32
  le_reserves_tokens :: u32
  le_estimated_prompt_tokens :: u32
  le_selected_items :: "selected_item_record list"
  le_dropped_items :: "dropped_item_record list"
  le_mandatory_parts :: "mandatory_part_record list"
  le_ladder_levels_applied :: "ladder_level list"
  le_compression :: "compression_record list"
  le_loadout :: "loadout_record option"
  le_fallback_estimator :: bool
  le_replan_of :: "string option"
  le_outcome :: ledger_outcome
  le_budget_unavailable :: "budget_unavailable option"
  le_context_ledger_hash :: string

section \<open>The digest\<close>

definition push_field :: "string \<Rightarrow> string \<Rightarrow> string" where
  "push_field key value = key @ ''='' @ value @ newline"

definition mandatory_line :: "mandatory_part_record \<Rightarrow> string" where
  "mandatory_line part =
     ''  '' @ mandatory_part_as_str (mr_part part) @ '':'' @ show_word (mr_items part) @ '':''
     @ show_word (mr_tokens part) @ newline"

definition selected_line :: "nat \<times> selected_item_record \<Rightarrow> string" where
  "selected_line p =
     ''  '' @ show_nat (fst p) @ '':'' @ si_id (snd p) @ '':'' @ show_word (si_estimated_tokens (snd p)) @ newline"

definition dropped_key :: "dropped_item_record \<Rightarrow> string \<times> string" where
  "dropped_key d = (di_id d, drop_reason_as_str (di_drop_reason d))"

definition dropped_line :: "dropped_item_record \<Rightarrow> string" where
  "dropped_line d = ''  '' @ di_id d @ '':'' @ drop_reason_as_str (di_drop_reason d) @ newline"

definition ladder_line :: "ladder_level \<Rightarrow> string" where
  "ladder_line level = ''  '' @ ladder_level_as_str level @ newline"

definition compression_line :: "compression_record \<Rightarrow> string" where
  "compression_line r =
     ''  '' @ cr_summary_id r @ '':'' @ str_join '','' (cr_source_ids r) @ '':'' @ cr_summarizer_version r @ '':''
     @ (if cr_fallback r then ''fallback'' else ''model'') @ newline"

definition loadout_line :: "loadout_record \<Rightarrow> string" where
  "loadout_line l =
     ''  '' @ lr_loadout_id l @ '':'' @ lr_intent l @ '':'' @ lr_rules_version l @ '':''
     @ str_join '','' (lr_tool_ids l) @ newline"

definition budget_line :: "context_ledger_entry \<Rightarrow> string" where
  "budget_line e =
     ''  '' @ show_word (le_mandatory_tokens e) @ '':'' @ show_word (le_selected_optional_tokens e) @ '':''
     @ show_word (le_reserves_tokens e) @ newline"

definition unavailable_line :: "budget_unavailable \<Rightarrow> string" where
  "unavailable_line u =
     ''unavailable '' @ stage_as_str (bu_stage u) @ '':''
     @ (case bu_missing_part u of None \<Rightarrow> ''none'' | Some part \<Rightarrow> mandatory_part_as_str part) @ newline"

definition ledger_hash_input :: "context_ledger_entry \<Rightarrow> string" where
  "ledger_hash_input e =
     ''v1'' @ newline
     @ push_field ''profile'' (le_profile_version e)
     @ push_field ''tokenizer'' (le_tokenizer_version e)
     @ push_field ''normalizer'' (le_normalizer_version e)
     @ push_field ''strategy'' (le_strategy_version e)
     @ push_field ''fallback_estimator'' (if le_fallback_estimator e then ''1'' else ''0'')
     @ push_field ''outcome'' (ledger_outcome_as_str (le_outcome e))
     @ ''mandatory'' @ newline @ concat (map mandatory_line (le_mandatory_parts e))
     @ ''selected'' @ newline
       @ concat (map selected_line (zip [0..<length (le_selected_items e)] (le_selected_items e)))
     @ ''dropped'' @ newline @ concat (map dropped_line (sort_key dropped_key (le_dropped_items e)))
     @ ''ladder'' @ newline @ concat (map ladder_line (le_ladder_levels_applied e))
     @ ''compression'' @ newline @ concat (map compression_line (le_compression e))
     @ ''loadout'' @ newline @ (case le_loadout e of None \<Rightarrow> [] | Some l \<Rightarrow> loadout_line l)
     @ ''budget'' @ newline @ budget_line e
     @ (case le_budget_unavailable e of None \<Rightarrow> [] | Some u \<Rightarrow> unavailable_line u)"

definition compute_hash :: "ext \<Rightarrow> context_ledger_entry \<Rightarrow> string" where
  "compute_hash E e = ext_sha256_hex E (ledger_hash_input e)"

definition finalize_hash :: "ext \<Rightarrow> context_ledger_entry \<Rightarrow> context_ledger_entry" where
  "finalize_hash E e = e\<lparr>le_context_ledger_hash := compute_hash E e\<rparr>"

text \<open>The provider's own usage, written beside the immutable entry.\<close>

record context_ledger_usage =
  lu_ledger_id :: string
  lu_actual_prompt_tokens :: u32
  lu_actual_completion_tokens :: u32
  lu_estimator_drift :: "u32 \<times> u32" \<comment> \<open>estimated and actual prompt tokens\<close>
  lu_recorded_at :: i64

definition LEDGER_RETENTION_DAYS :: i64 where "LEDGER_RETENTION_DAYS = 30"

definition LEDGER_RETAINED_SESSIONS :: nat where "LEDGER_RETAINED_SESSIONS = 200"

section \<open>The digest input as lines\<close>

text \<open>Printed lines without the line end, and the list of them.\<close>

abbreviation no_newline :: "string \<Rightarrow> bool" where
  "no_newline s \<equiv> CHR 0x0A \<notin> set s"

definition unlines :: "string list \<Rightarrow> string" where
  "unlines ls = concat (map (\<lambda>l. l @ newline) ls)"

lemma unlines_simps [simp]: "unlines [] = []" "unlines (l # ls) = l @ newline @ unlines ls"
  "unlines (ls @ ls') = unlines ls @ unlines ls'"
  by (simp_all add: unlines_def)

lemma newline_split:
  assumes "l @ newline @ s = l' @ newline @ s'" "no_newline l" "no_newline l'"
  shows "l = l' \<and> s = s'"
proof -
  have tw: "takeWhile (\<lambda>c. c \<noteq> CHR 0x0A) (k @ newline @ b) = k" if "no_newline k" for k b
    using that by (induction k) (auto simp: newline_def)
  from arg_cong [OF assms(1), of "takeWhile (\<lambda>c. c \<noteq> CHR 0x0A)"] have "l = l'"
    unfolding tw [OF assms(2)] tw [OF assms(3)] .
  with assms(1) show ?thesis by simp
qed

lemma unlines_inj:
  "unlines ls = unlines ls' \<Longrightarrow> list_all no_newline ls \<Longrightarrow> list_all no_newline ls' \<Longrightarrow> ls = ls'"
proof (induction ls arbitrary: ls')
  case Nil
  then show ?case by (cases ls') (auto simp: newline_def)
next
  case (Cons l ls)
  then obtain k ks where ls': "ls' = k # ks" by (cases ls') (auto simp: newline_def)
  with Cons.prems have "l = k \<and> unlines ls = unlines ks" by (intro newline_split) auto
  with Cons ls' show ?case by simp
qed

definition selected_text :: "nat \<times> selected_item_record \<Rightarrow> string" where
  "selected_text p =
     ''  '' @ show_nat (fst p) @ '':'' @ si_id (snd p) @ '':'' @ show_word (si_estimated_tokens (snd p))"

definition dropped_text :: "dropped_item_record \<Rightarrow> string" where
  "dropped_text d = ''  '' @ di_id d @ '':'' @ drop_reason_as_str (di_drop_reason d)"

definition mandatory_text :: "mandatory_part_record \<Rightarrow> string" where
  "mandatory_text part =
     ''  '' @ mandatory_part_as_str (mr_part part) @ '':'' @ show_word (mr_items part) @ '':''
     @ show_word (mr_tokens part)"

definition compression_text :: "compression_record \<Rightarrow> string" where
  "compression_text r =
     ''  '' @ cr_summary_id r @ '':'' @ str_join '','' (cr_source_ids r) @ '':'' @ cr_summarizer_version r @ '':''
     @ (if cr_fallback r then ''fallback'' else ''model'')"

definition loadout_text :: "loadout_record \<Rightarrow> string" where
  "loadout_text l =
     ''  '' @ lr_loadout_id l @ '':'' @ lr_intent l @ '':'' @ lr_rules_version l @ '':'' @ str_join '','' (lr_tool_ids l)"

definition budget_text :: "context_ledger_entry \<Rightarrow> string" where
  "budget_text e =
     ''  '' @ show_word (le_mandatory_tokens e) @ '':'' @ show_word (le_selected_optional_tokens e) @ '':''
     @ show_word (le_reserves_tokens e)"

definition unavailable_text :: "budget_unavailable \<Rightarrow> string" where
  "unavailable_text u =
     ''unavailable '' @ stage_as_str (bu_stage u) @ '':''
     @ (case bu_missing_part u of None \<Rightarrow> ''none'' | Some part \<Rightarrow> mandatory_part_as_str part)"

definition header_texts :: "context_ledger_entry \<Rightarrow> string list" where
  "header_texts e =
     [''v1'', ''profile='' @ le_profile_version e, ''tokenizer='' @ le_tokenizer_version e,
      ''normalizer='' @ le_normalizer_version e, ''strategy='' @ le_strategy_version e,
      ''fallback_estimator='' @ (if le_fallback_estimator e then ''1'' else ''0''),
      ''outcome='' @ ledger_outcome_as_str (le_outcome e)]"

definition ledger_lines :: "context_ledger_entry \<Rightarrow> string list" where
  "ledger_lines e =
     header_texts e
     @ ''mandatory'' # map mandatory_text (le_mandatory_parts e)
     @ ''selected'' # map selected_text (zip [0..<length (le_selected_items e)] (le_selected_items e))
     @ ''dropped'' # map dropped_text (sort_key dropped_key (le_dropped_items e))
     @ ''ladder'' # map (\<lambda>l. ''  '' @ ladder_level_as_str l) (le_ladder_levels_applied e)
     @ ''compression'' # map compression_text (le_compression e)
     @ ''loadout'' # (case le_loadout e of None \<Rightarrow> [] | Some l \<Rightarrow> [loadout_text l])
     @ ''budget'' # budget_text e # (case le_budget_unavailable e of None \<Rightarrow> [] | Some u \<Rightarrow> [unavailable_text u])"

lemma concat_lines: "(\<And>x. f x = g x @ newline) \<Longrightarrow> concat (map f xs) = unlines (map g xs)"
  by (induction xs) auto

lemma ledger_hash_input_lines: "ledger_hash_input e = unlines (ledger_lines e)"
  by (simp add: ledger_hash_input_def ledger_lines_def header_texts_def push_field_def
      concat_lines [of mandatory_line mandatory_text] mandatory_line_def mandatory_text_def
      concat_lines [of selected_line selected_text] selected_line_def selected_text_def
      concat_lines [of dropped_line dropped_text] dropped_line_def dropped_text_def
      concat_lines [of ladder_line "\<lambda>l. ''  '' @ ladder_level_as_str l"] ladder_line_def
      concat_lines [of compression_line compression_text] compression_line_def compression_text_def
      loadout_line_def loadout_text_def budget_line_def budget_text_def unavailable_line_def unavailable_text_def
      split: option.split)

text \<open>A section is the run of indented lines between two headings.\<close>

definition indented :: "string \<Rightarrow> bool" where
  "indented l \<longleftrightarrow> l \<noteq> [] \<and> hd l = CHR '' ''"

lemma section_split:
  assumes "M @ h # R = M' @ h' # R'" "list_all indented M" "list_all indented M'" "\<not> indented h" "\<not> indented h'"
  shows "M = M' \<and> h = h' \<and> R = R'"
  using assms
proof (induction M arbitrary: M')
  case Nil
  then show ?case by (cases M') auto
next
  case (Cons m M)
  then show ?case by (cases M') auto
qed

lemma indented_texts [simp]:
  "indented (selected_text p)" "indented (dropped_text d)" "indented (mandatory_text m)"
  "indented (compression_text c)" "indented (loadout_text l)" "indented (budget_text e)"
  by (simp_all add: indented_def selected_text_def dropped_text_def mandatory_text_def compression_text_def
      loadout_text_def budget_text_def)

text \<open>Entries whose strings hold no line end. The planner's own versions and ids are such.\<close>

definition ledger_clean :: "context_ledger_entry \<Rightarrow> bool" where
  "ledger_clean e \<longleftrightarrow>
     no_newline (le_profile_version e) \<and> no_newline (le_tokenizer_version e)
     \<and> no_newline (le_normalizer_version e) \<and> no_newline (le_strategy_version e)
     \<and> list_all (\<lambda>i. no_newline (si_id i)) (le_selected_items e)
     \<and> list_all (\<lambda>i. no_newline (di_id i)) (le_dropped_items e)
     \<and> list_all (\<lambda>r. no_newline (compression_text r)) (le_compression e)
     \<and> (case le_loadout e of None \<Rightarrow> True | Some l \<Rightarrow> no_newline (loadout_text l))"

lemma as_str_no_newline [simp]:
  "no_newline (mandatory_part_as_str p)" "no_newline (drop_reason_as_str r)" "no_newline (ladder_level_as_str l)"
  "no_newline (stage_as_str s)" "no_newline (ledger_outcome_as_str oc)" "no_newline (show_word w)" "no_newline (show_nat n)"
proof -
  show "no_newline (mandatory_part_as_str p)" by (cases p) simp_all
  show "no_newline (drop_reason_as_str r)" by (cases r) simp_all
  show "no_newline (ladder_level_as_str l)" by (cases l) simp_all
  show "no_newline (stage_as_str s)" by (cases s) simp_all
  show "no_newline (ledger_outcome_as_str oc)" by (cases oc) simp_all
  show "no_newline (show_word w)" "no_newline (show_nat n)" by (simp_all add: show_word_def show_nat_no_sep)
qed

lemma ledger_lines_clean: "ledger_clean e \<Longrightarrow> list_all no_newline (ledger_lines e)"
  by (auto simp: ledger_clean_def ledger_lines_def header_texts_def list_all_iff selected_text_def
      dropped_text_def mandatory_text_def budget_text_def unavailable_text_def set_zip split: option.splits)

text \<open>The parts of a line that ends with a field free of colons.\<close>

lemma last_colon_split:
  assumes "a @ '':'' @ b = a' @ '':'' @ b'" "CHR '':'' \<notin> set b" "CHR '':'' \<notin> set b'"
  shows "a = a' \<and> b = b'"
proof -
  have "rev b @ CHR '':'' # rev a = rev b' @ CHR '':'' # rev a'" using arg_cong [OF assms(1), of rev] by simp
  moreover have "takeWhile (\<lambda>c. c \<noteq> CHR '':'') (rev k @ CHR '':'' # m) = rev k" if "CHR '':'' \<notin> set k" for k m
    using that by (subst takeWhile_append2) auto
  ultimately have "rev b = rev b'" using assms(2,3) by metis
  then show ?thesis using assms(1) by simp
qed

lemma selected_text_inj:
  assumes "selected_text (i, x) = selected_text (i, y)"
  shows "x = (y :: selected_item_record)"
proof -
  have "si_id x @ '':'' @ show_word (si_estimated_tokens x) = si_id y @ '':'' @ show_word (si_estimated_tokens y)"
    using assms by (simp add: selected_text_def)
  then have "si_id x = si_id y \<and> show_word (si_estimated_tokens x) = show_word (si_estimated_tokens y)"
    by (rule last_colon_split) (simp_all add: show_word_def show_nat_no_sep)
  then show ?thesis by (auto dest: show_word_inj)
qed

lemma selected_texts_inj:
  assumes "map selected_text (zip [0..<length xs] xs) = map selected_text (zip [0..<length ys] ys)"
  shows "xs = ys"
proof (rule nth_equalityI)
  show len: "length xs = length ys" using arg_cong [OF assms, of length] by simp
  fix i assume i: "i < length xs"
  have "map selected_text (zip [0..<length xs] xs) ! i = map selected_text (zip [0..<length ys] ys) ! i"
    by (simp only: assms)
  then have "selected_text (i, xs ! i) = selected_text (i, ys ! i)" using i len by simp
  then show "xs ! i = ys ! i" by (rule selected_text_inj)
qed

lemma drop_reason_as_str_inj: "drop_reason_as_str r = drop_reason_as_str s \<Longrightarrow> r = s"
  by (cases r; cases s) simp_all

lemma drop_reason_as_str_no_colon: "CHR '':'' \<notin> set (drop_reason_as_str r)"
  by (cases r) simp_all

lemma dropped_text_inj: "dropped_text x = dropped_text y \<Longrightarrow> x = (y :: dropped_item_record)"
  using last_colon_split [of "di_id x" "drop_reason_as_str (di_drop_reason x)" "di_id y" "drop_reason_as_str (di_drop_reason y)"]
  by (auto simp: dropped_text_def drop_reason_as_str_no_colon dest: drop_reason_as_str_inj)

lemma ladder_text_inj: "''  '' @ ladder_level_as_str l = ''  '' @ ladder_level_as_str m \<Longrightarrow> l = m"
  by (cases l; cases m) simp_all

lemma budget_text_inj:
  assumes "budget_text e = budget_text e'"
  shows "le_mandatory_tokens e = le_mandatory_tokens e' \<and> le_selected_optional_tokens e = le_selected_optional_tokens e'
    \<and> le_reserves_tokens e = le_reserves_tokens e'"
proof -
  have no: "CHR '':'' \<notin> set (show_word w)" for w :: u32 by (simp add: show_word_def show_nat_no_sep)
  have eq: "(show_word (le_mandatory_tokens e) @ '':'' @ show_word (le_selected_optional_tokens e)) @ '':'' @ show_word (le_reserves_tokens e)
    = (show_word (le_mandatory_tokens e') @ '':'' @ show_word (le_selected_optional_tokens e')) @ '':'' @ show_word (le_reserves_tokens e')"
    using assms by (simp add: budget_text_def)
  note l1 = last_colon_split [OF eq no no]
  note l2 = last_colon_split [OF l1 [THEN conjunct1] no no]
  from l1 l2 show ?thesis by (auto dest: show_word_inj)
qed

lemma header_texts_inj:
  "header_texts e = header_texts e' \<Longrightarrow>
   le_profile_version e = le_profile_version e' \<and> le_tokenizer_version e = le_tokenizer_version e'
   \<and> le_normalizer_version e = le_normalizer_version e' \<and> le_strategy_version e = le_strategy_version e'
   \<and> le_fallback_estimator e = le_fallback_estimator e' \<and> le_outcome e = le_outcome e'"
  by (cases "le_outcome e"; cases "le_outcome e'") (simp_all add: header_texts_def split: if_splits)

lemma sections_inj:
  assumes eq: "hs @ h0 # A @ h1 # B @ h2 # C @ h3 # D @ h4 # F @ h5 # G @ h6 # b # H
      = hs' @ h0 # A' @ h1 # B' @ h2 # C' @ h3 # D' @ h4 # F' @ h5 # G' @ h6 # b' # H'"
    and len: "length hs = length hs'"
    and ind: "\<forall>S\<in>{A, B, C, D, F, G, A', B', C', D', F', G'}. list_all indented S"
    and head: "\<forall>h\<in>{h1, h2, h3, h4, h5, h6}. \<not> indented h"
  shows "hs = hs' \<and> B = B' \<and> C = C' \<and> D = D' \<and> b = b'"
proof -
  from eq len have hs: "hs = hs'" and 1: "A @ h1 # B @ h2 # C @ h3 # D @ h4 # F @ h5 # G @ h6 # b # H
      = A' @ h1 # B' @ h2 # C' @ h3 # D' @ h4 # F' @ h5 # G' @ h6 # b' # H'" by auto
  from section_split [OF 1] ind head have 2: "B @ h2 # C @ h3 # D @ h4 # F @ h5 # G @ h6 # b # H
      = B' @ h2 # C' @ h3 # D' @ h4 # F' @ h5 # G' @ h6 # b' # H'" by simp
  from section_split [OF 2] ind head have B: "B = B'" and 3: "C @ h3 # D @ h4 # F @ h5 # G @ h6 # b # H
      = C' @ h3 # D' @ h4 # F' @ h5 # G' @ h6 # b' # H'" by simp_all
  from section_split [OF 3] ind head have C: "C = C'" and 4: "D @ h4 # F @ h5 # G @ h6 # b # H
      = D' @ h4 # F' @ h5 # G' @ h6 # b' # H'" by simp_all
  from section_split [OF 4] ind head have D: "D = D'" and 5: "F @ h5 # G @ h6 # b # H = F' @ h5 # G' @ h6 # b' # H'" by simp_all
  from section_split [OF 5] ind head have 6: "G @ h6 # b # H = G' @ h6 # b' # H'" by simp
  from section_split [OF 6] ind head have "b = b'" by simp
  with hs B C D show ?thesis by simp
qed

lemma ledger_lines_inj:
  assumes "ledger_lines e = ledger_lines e'"
  shows "header_texts e = header_texts e'
    \<and> map selected_text (zip [0..<length (le_selected_items e)] (le_selected_items e))
      = map selected_text (zip [0..<length (le_selected_items e')] (le_selected_items e'))
    \<and> map dropped_text (sort_key dropped_key (le_dropped_items e)) = map dropped_text (sort_key dropped_key (le_dropped_items e'))
    \<and> map (\<lambda>l. ''  '' @ ladder_level_as_str l) (le_ladder_levels_applied e)
      = map (\<lambda>l. ''  '' @ ladder_level_as_str l) (le_ladder_levels_applied e')
    \<and> budget_text e = budget_text e'"
proof (rule sections_inj [OF assms [unfolded ledger_lines_def]])
  show "length (header_texts e) = length (header_texts e')" by (simp add: header_texts_def)
  have lo: "list_all indented (case lo of None \<Rightarrow> [] | Some l \<Rightarrow> [loadout_text l])" for lo by (simp split: option.split)
  have ll: "list_all indented (map (\<lambda>l. ''  '' @ ladder_level_as_str l) ls)" for ls
    by (simp add: list_all_iff indented_def)
  have mm: "list_all indented (map f xs)" if "\<And>x. indented (f x)" for f :: "'z \<Rightarrow> string" and xs
    using that by (simp add: list_all_iff)
  show "\<forall>S\<in>{map mandatory_text (le_mandatory_parts e),
      map selected_text (zip [0..<length (le_selected_items e)] (le_selected_items e)),
      map dropped_text (sort_key dropped_key (le_dropped_items e)),
      map (\<lambda>l. ''  '' @ ladder_level_as_str l) (le_ladder_levels_applied e),
      map compression_text (le_compression e), (case le_loadout e of None \<Rightarrow> [] | Some l \<Rightarrow> [loadout_text l]),
      map mandatory_text (le_mandatory_parts e'),
      map selected_text (zip [0..<length (le_selected_items e')] (le_selected_items e')),
      map dropped_text (sort_key dropped_key (le_dropped_items e')),
      map (\<lambda>l. ''  '' @ ladder_level_as_str l) (le_ladder_levels_applied e'),
      map compression_text (le_compression e'), (case le_loadout e' of None \<Rightarrow> [] | Some l \<Rightarrow> [loadout_text l])}.
      list_all indented S"
    by (simp only: ball_simps insert_iff lo ll mm indented_texts simp_thms ball_empty)
qed (simp add: indented_def)

text \<open>Among entries whose strings hold no line end, and with no digest collision between the two,
  an equal ledger hash means the same selected items with the same token counts in the same order,
  the same dropped items with the same reasons, the same ladder levels, versions, outcome and token
  totals.\<close>

theorem ledger_hash_determines:
  assumes "ledger_clean e" "ledger_clean e'"
    and "inj_on (ext_sha256_hex E) {ledger_hash_input e, ledger_hash_input e'}"
    and "compute_hash E e = compute_hash E e'"
  shows "le_selected_items e = le_selected_items e'
    \<and> mset (le_dropped_items e) = mset (le_dropped_items e')
    \<and> le_ladder_levels_applied e = le_ladder_levels_applied e'
    \<and> le_profile_version e = le_profile_version e' \<and> le_tokenizer_version e = le_tokenizer_version e'
    \<and> le_normalizer_version e = le_normalizer_version e' \<and> le_strategy_version e = le_strategy_version e'
    \<and> le_fallback_estimator e = le_fallback_estimator e' \<and> le_outcome e = le_outcome e'
    \<and> le_mandatory_tokens e = le_mandatory_tokens e' \<and> le_selected_optional_tokens e = le_selected_optional_tokens e'
    \<and> le_reserves_tokens e = le_reserves_tokens e'"
proof -
  have "ledger_hash_input e = ledger_hash_input e'" using assms(3,4) by (auto simp: compute_hash_def dest: inj_onD)
  then have "ledger_lines e = ledger_lines e'"
    unfolding ledger_hash_input_lines by (rule unlines_inj) (simp_all add: ledger_lines_clean assms(1,2))
  note inj = ledger_lines_inj [OF this]
  have "le_selected_items e = le_selected_items e'" using inj selected_texts_inj by blast
  moreover have "sort_key dropped_key (le_dropped_items e) = sort_key dropped_key (le_dropped_items e')"
    using inj inj_map_eq_map [of dropped_text] dropped_text_inj by (auto simp: inj_def)
  then have "mset (le_dropped_items e) = mset (le_dropped_items e')" by (metis mset_sort)
  moreover have "le_ladder_levels_applied e = le_ladder_levels_applied e'"
    using inj inj_map_eq_map [of "\<lambda>l. ''  '' @ ladder_level_as_str l"] ladder_text_inj by (auto simp: inj_def)
  ultimately show ?thesis using header_texts_inj [of e e'] budget_text_inj [of e e'] inj by blast
qed

definition sample_entry :: "selected_item_record list \<Rightarrow> dropped_item_record list \<Rightarrow> context_ledger_entry" where
  "sample_entry selected dropped =
     \<lparr>le_id = ''ledger-1'', le_schema_version = 1, le_task_id = ''t'', le_session_id = ''s'', le_model_call_id = ''1'',
      le_created_at = 0, le_provider = ''p'', le_model = ''m'', le_profile_version = ''v'', le_profile_snapshot = [],
      le_tokenizer_version = ''h'', le_normalizer_version = ''n'', le_strategy_version = ''s'',
      le_mandatory_tokens = 1, le_selected_optional_tokens = 2, le_reserves_tokens = 3, le_estimated_prompt_tokens = 3,
      le_selected_items = selected, le_dropped_items = dropped, le_mandatory_parts = [],
      le_ladder_levels_applied = [], le_compression = [], le_loadout = None, le_fallback_estimator = False,
      le_replan_of = None, le_outcome = LedgerSent, le_budget_unavailable = None, le_context_ledger_hash = []\<rparr>"

theorem ledger_hash_determines_witness:
  "\<exists>E. compute_hash E (sample_entry [\<lparr>si_id = ''a'', si_estimated_tokens = 5\<rparr>]
         [\<lparr>di_id = ''x'', di_drop_reason = Expired\<rparr>, \<lparr>di_id = ''b'', di_drop_reason = Duplicate\<rparr>])
     = compute_hash E (sample_entry [\<lparr>si_id = ''a'', si_estimated_tokens = 5\<rparr>]
         [\<lparr>di_id = ''b'', di_drop_reason = Duplicate\<rparr>, \<lparr>di_id = ''x'', di_drop_reason = Expired\<rparr>])
     \<and> mset [\<lparr>di_id = ''x'', di_drop_reason = Expired\<rparr>, \<lparr>di_id = ''b'', di_drop_reason = Duplicate\<rparr>]
       = mset [\<lparr>di_id = ''b'', di_drop_reason = Duplicate\<rparr>, \<lparr>di_id = ''x'', di_drop_reason = Expired\<rparr>]"
proof -
  let ?e = "sample_entry [\<lparr>si_id = ''a'', si_estimated_tokens = 5\<rparr>]
         [\<lparr>di_id = ''x'', di_drop_reason = Expired\<rparr>, \<lparr>di_id = ''b'', di_drop_reason = Duplicate\<rparr>]"
  let ?e' = "sample_entry [\<lparr>si_id = ''a'', si_estimated_tokens = 5\<rparr>]
         [\<lparr>di_id = ''b'', di_drop_reason = Duplicate\<rparr>, \<lparr>di_id = ''x'', di_drop_reason = Expired\<rparr>]"
  let ?E = "\<lparr>ext_nfc = id, ext_sha256_hex = id, ext_json_parse = (\<lambda>_. None), ext_json_escape = id,
    ext_f64_as_int = (\<lambda>_. None), ext_f64_display = (\<lambda>_. [])\<rparr>"
  have c: "ledger_clean ?e" "ledger_clean ?e'" by code_simp+
  have i: "inj_on (ext_sha256_hex ?E) A" for A by (simp add: inj_on_def)
  have h: "compute_hash ?E ?e = compute_hash ?E ?e'" by code_simp
  from ledger_hash_determines [OF c i h] h show ?thesis by (auto simp: sample_entry_def intro!: exI [of _ ?E])
qed

text \<open>The order in which items were dropped does not matter to the digest.\<close>

lemma ledger_hash_drop_order:
  assumes "mset ds = mset (le_dropped_items e)"
  shows "compute_hash E (e\<lparr>le_dropped_items := ds\<rparr>) = compute_hash E e"
proof -
  have "inj_on dropped_key (set ds)" by (auto simp: inj_on_def dropped_key_def dest: drop_reason_as_str_inj)
  then have "sort_key dropped_key ds = sort_key dropped_key (le_dropped_items e)"
    using assms by (intro sort_key_canonical)
  then show ?thesis by (simp add: compute_hash_def ledger_hash_input_def budget_line_def)
qed

text \<open>Strings are not escaped: an id with a line end makes one selected item print as two.\<close>

lemma ledger_hash_newline_collision:
  "ledger_hash_input (sample_entry [\<lparr>si_id = ''a'', si_estimated_tokens = 1\<rparr>, \<lparr>si_id = ''b'', si_estimated_tokens = 2\<rparr>] [])
   = ledger_hash_input (sample_entry [\<lparr>si_id = ''a:1'' @ newline @ ''  1:b'', si_estimated_tokens = 2\<rparr>] [])"
  by code_simp

end
