(* ===== verification/Token_Estimator.thy ===== *)
theory Token_Estimator
  imports Content_Hash
begin

text \<open>
  \<open>crates/context-budget/src/estimator.rs\<close>: the estimator contract as a record of its operations,
  the two estimators of the sources, the estimate cache over an LRU map, and the drift of an
  estimate against the provider's report.

  The LRU map is the crate \<open>lru\<close>: its operations are an argument (the record \<open>lru_ops\<close>), and
  what the cache relies on is the locale \<open>lru_map\<close>. A drift value is an \<open>f64\<close> quotient of two
  \<open>u32\<close>; the comparisons the code makes with it are stated over the operands, where they are
  exact: the threshold 0.05 separates quotients that differ from 1/20 by at least
  \<open>1 / (20 * 2 ^ 32)\<close>, far above the rounding of the division.
\<close>

section \<open>Estimators\<close>

definition ceil_div :: "u64 \<Rightarrow> u64 \<Rightarrow> u32" where
  "ceil_div value divisor =
     (let divisor = max divisor 1;
          q = value div divisor;
          q = (if value mod divisor > 0 then q + 1 else q)
      in if q \<le> 0xFFFFFFFF then ucast q else - 1)"

record token_estimator =
  te_name :: string
  te_version :: string
  te_chat_template_version :: string
  te_estimate_content :: "content_form \<Rightarrow> u32"
  te_message_overhead :: u32
  te_estimate_tool_schema :: "string \<Rightarrow> u32"
  te_is_fallback :: bool

record heuristic_params =
  hp_name :: string
  hp_version :: string
  hp_chat_template_version :: string
  hp_bytes_per_token :: u32
  hp_per_item_overhead :: u32
  hp_message_overhead :: u32
  hp_tool_schema_overhead :: u32

definition heuristic_default_for :: "string \<Rightarrow> heuristic_params" where
  "heuristic_default_for model =
     \<lparr>hp_name = ''heuristic/'' @ model, hp_version = ''heuristic-1'',
      hp_chat_template_version = ''chat-1'', hp_bytes_per_token = 3, hp_per_item_overhead = 8,
      hp_message_overhead = 4, hp_tool_schema_overhead = 16\<rparr>"

text \<open>\<open>as u64\<close> of a length. A Rust allocation is below \<open>2 ^ 63\<close> bytes, so nothing is lost there.\<close>

definition len_u64 :: "string \<Rightarrow> u64" where
  "len_u64 s = of_nat (length s)"

definition heuristic_estimator :: "ext \<Rightarrow> heuristic_params \<Rightarrow> token_estimator" where
  "heuristic_estimator E h =
     \<lparr>te_name = hp_name h,
      te_version = hp_version h,
      te_chat_template_version = hp_chat_template_version h,
      te_estimate_content = (\<lambda>form.
        sat_add (ceil_div (len_u64 (normalized_bytes E form)) (ucast (hp_bytes_per_token h)))
          (hp_per_item_overhead h)),
      te_message_overhead = hp_message_overhead h,
      te_estimate_tool_schema = (\<lambda>schema_json.
        sat_add (ceil_div (len_u64 schema_json) (ucast (hp_bytes_per_token h)))
          (hp_tool_schema_overhead h)),
      te_is_fallback = False\<rparr>"

definition fallback_estimator :: "ext \<Rightarrow> token_estimator" where
  "fallback_estimator E =
     \<lparr>te_name = ''fallback'',
      te_version = ''fallback-1'',
      te_chat_template_version = ''fallback-chat-1'',
      te_estimate_content = (\<lambda>form. sat_add (ceil_div (len_u64 (normalized_bytes E form)) 2) 16),
      te_message_overhead = 8,
      te_estimate_tool_schema = (\<lambda>schema_json. ceil_div (len_u64 schema_json) 2),
      te_is_fallback = True\<rparr>"

section \<open>The estimate cache\<close>

datatype estimate_form = EstContent | EstToolSchema

record estimate_cache_key =
  ek_form :: estimate_form
  ek_content_hash :: string
  ek_tokenizer_version :: string
  ek_normalizer_version :: string
  ek_chat_template_version :: string

record 'c lru_ops =
  lru_new :: "nat \<Rightarrow> 'c"
  lru_get :: "'c \<Rightarrow> estimate_cache_key \<Rightarrow> u32 option \<times> 'c"
  lru_put :: "'c \<Rightarrow> estimate_cache_key \<Rightarrow> u32 \<Rightarrow> 'c"

record 'c estimate_cache =
  ec_entries :: 'c
  ec_hits :: u64
  ec_misses :: u64

definition cache_with_capacity :: "'c lru_ops \<Rightarrow> nat \<Rightarrow> 'c estimate_cache" where
  "cache_with_capacity L capacity =
     \<lparr>ec_entries = lru_new L (max capacity 1), ec_hits = 0, ec_misses = 0\<rparr>"

definition cache_new :: "'c lru_ops \<Rightarrow> 'c estimate_cache" where
  "cache_new L = cache_with_capacity L 4096"

definition cache_lookup_or ::
  "'c lru_ops \<Rightarrow> estimate_cache_key \<Rightarrow> u32 \<Rightarrow> 'c estimate_cache \<Rightarrow> u32 \<times> 'c estimate_cache" where
  "cache_lookup_or L key estimated cache =
     (case lru_get L (ec_entries cache) key of
        (Some cached, entries) \<Rightarrow>
          (cached, cache\<lparr>ec_entries := entries, ec_hits := ec_hits cache + 1\<rparr>)
      | (None, entries) \<Rightarrow>
          (estimated, cache\<lparr>ec_entries := lru_put L entries key estimated,
                            ec_misses := ec_misses cache + 1\<rparr>))"

definition content_key :: "token_estimator \<Rightarrow> string \<Rightarrow> string \<Rightarrow> estimate_cache_key" where
  "content_key est hash normalizer_version =
     \<lparr>ek_form = EstContent, ek_content_hash = hash, ek_tokenizer_version = te_version est,
      ek_normalizer_version = normalizer_version,
      ek_chat_template_version = te_chat_template_version est\<rparr>"

definition schema_key :: "token_estimator \<Rightarrow> string \<Rightarrow> string \<Rightarrow> estimate_cache_key" where
  "schema_key est hash normalizer_version =
     \<lparr>ek_form = EstToolSchema, ek_content_hash = hash, ek_tokenizer_version = te_version est,
      ek_normalizer_version = normalizer_version,
      ek_chat_template_version = te_chat_template_version est\<rparr>"

definition cache_estimate ::
  "'c lru_ops \<Rightarrow> token_estimator \<Rightarrow> string \<Rightarrow> string \<Rightarrow> content_form \<Rightarrow> 'c estimate_cache
   \<Rightarrow> u32 \<times> 'c estimate_cache" where
  "cache_estimate L est hash normalizer_version form cache =
     cache_lookup_or L (content_key est hash normalizer_version) (te_estimate_content est form) cache"

definition cache_estimate_tool_schema ::
  "'c lru_ops \<Rightarrow> token_estimator \<Rightarrow> string \<Rightarrow> string \<Rightarrow> string \<Rightarrow> 'c estimate_cache
   \<Rightarrow> u32 \<times> 'c estimate_cache" where
  "cache_estimate_tool_schema L est hash normalizer_version schema_json cache =
     cache_lookup_or L (schema_key est hash normalizer_version)
       (te_estimate_tool_schema est schema_json) cache"

section \<open>Drift\<close>

record estimator_drift =
  ed_estimated_prompt_tokens :: u32
  ed_actual_prompt_tokens :: u32

definition drift_measure :: "u32 \<Rightarrow> u32 \<Rightarrow> estimator_drift" where
  "drift_measure estimated actual =
     \<lparr>ed_estimated_prompt_tokens = estimated, ed_actual_prompt_tokens = actual\<rparr>"

definition drift_is_under_estimate :: "estimator_drift \<Rightarrow> bool" where
  "drift_is_under_estimate d \<longleftrightarrow> ed_estimated_prompt_tokens d < ed_actual_prompt_tokens d"

text \<open>\<open>relative < 0.0\<close>: the quotient is \<open>0.0\<close> when nothing was reported, otherwise it has the sign of
  the difference.\<close>

definition drift_relative_negative :: "estimator_drift \<Rightarrow> bool" where
  "drift_relative_negative d \<longleftrightarrow>
     ed_actual_prompt_tokens d \<noteq> 0 \<and> ed_estimated_prompt_tokens d < ed_actual_prompt_tokens d"

text \<open>\<open>relative > limit\<close> with the limits 1.00 (fallback estimator) and 0.05.\<close>

definition drift_exceeds_budget :: "estimator_drift \<Rightarrow> bool \<Rightarrow> bool" where
  "drift_exceeds_budget d fallback_mode \<longleftrightarrow>
     (let e = int (unat (ed_estimated_prompt_tokens d)); a = int (unat (ed_actual_prompt_tokens d))
      in a \<noteq> 0 \<and> (if fallback_mode then e - a > a else 20 * (e - a) > a))"

section \<open>Lemmas on the estimators\<close>

lemma ceil_div_nat:
  "0 < d \<Longrightarrow> (x + (d - 1)) div d = x div d + (if 0 < x mod d then 1 else 0)" for x d :: nat
proof -
  assume d: "0 < d"
  have split: "x + (d - 1) = (x mod d + (d - 1)) + d * (x div d)"
    using mult_div_mod_eq [of d x] by linarith
  have "(x + (d - 1)) div d = (x mod d + (d - 1)) div d + x div d"
    unfolding split using d by (subst div_mult_self2) auto
  moreover have "(x mod d + (d - 1)) div d = (if 0 < x mod d then 1 else 0)"
    using d mod_less_divisor [OF d, of x] by (auto simp: div_nat_eqI)
  ultimately show ?thesis by simp
qed

lemma unat_ceil_div:
  "unat (ceil_div v d) = min ((unat v + (max (unat d) 1 - 1)) div max (unat d) 1) (2 ^ 32 - 1)"
proof -
  define D where "D = max d 1"
  have D: "unat D = max (unat d) 1" "0 < unat D" by (simp_all add: D_def unat_max)
  define q where "q = (if v mod D > 0 then v div D + 1 else v div D)"
  have pos: "0 < v mod D \<longleftrightarrow> 0 < unat v mod unat D"
    by (simp add: word_less_nat_alt unat_mod)
  have bound: "unat v div unat D + 1 < 2 ^ 64" if "0 < unat v mod unat D"
  proof -
    from that have "1 < unat D" by (cases "unat D = 1") (use D in auto)
    then have "unat v div unat D \<le> unat v div 2" by (intro div_le_mono2) auto
    also have "\<dots> < 2 ^ 63" using unsigned_less [of v, where 'a = nat] by simp
    finally show ?thesis by simp
  qed
  have q: "unat q = (unat v + (unat D - 1)) div unat D"
    unfolding ceil_div_nat [OF D(2)] using pos bound by (simp add: q_def unat_add_small unat_div)
  have "unat (ceil_div v d) = min (unat q) (2 ^ 32 - 1)"
  proof (cases "q \<le> 0xFFFFFFFF")
    case True
    then have "unat q \<le> 4294967295" by (simp add: word_le_nat_alt)
    then show ?thesis using True
      by (simp add: ceil_div_def Let_def D_def [symmetric] q_def [symmetric] unsigned_ucast_eq take_bit_nat_eq_self)
  next
    case False
    then have "4294967295 < unat q" by (simp add: word_le_nat_alt)
    then show ?thesis using False
      by (simp add: ceil_div_def Let_def D_def [symmetric] q_def [symmetric] unsigned_minus_1_eq_mask mask_eq_exp_minus_1)
  qed
  then show ?thesis by (simp add: q D(1))
qed

lemma unat_ceil_div_antimono:
  "0 < unat e \<Longrightarrow> unat e \<le> unat d \<Longrightarrow> unat (ceil_div v d) \<le> unat (ceil_div v e)"
proof -
  assume e: "0 < unat e" and le: "unat e \<le> unat d"
  have "unat v div unat d \<le> unat v div unat e" using e le by (rule div_le_mono2)
  moreover have "unat v div unat d < unat v div unat e"
    if "unat v mod unat e = 0" "0 < unat v mod unat d"
  proof -
    have "unat v = unat v div unat e * unat e" using that(1) by (metis add.right_neutral div_mult_mod_eq)
    moreover have "unat v div unat d * unat d < unat v" using that(2) div_mult_mod_eq [of "unat v" "unat d"] by linarith
    ultimately have "unat v div unat d * unat d < unat v div unat e * unat e" by linarith
    also have "\<dots> \<le> unat v div unat e * unat d" using le by simp
    finally show ?thesis by simp
  qed
  ultimately have "unat v div unat d + (if 0 < unat v mod unat d then 1 else 0)
      \<le> unat v div unat e + (if 0 < unat v mod unat e then 1 else 0)" by auto
  moreover have "max (unat d) 1 = unat d" "max (unat e) 1 = unat e" using e le by auto
  ultimately have "(unat v + (max (unat d) 1 - 1)) div max (unat d) 1
      \<le> (unat v + (max (unat e) 1 - 1)) div max (unat e) 1"
    using e le by (simp only: ceil_div_nat [of "unat d" "unat v"] ceil_div_nat [of "unat e" "unat v"])
  then show ?thesis unfolding unat_ceil_div by (rule min.mono) simp
qed

section \<open>The cache over its LRU map\<close>

text \<open>What the cache relies on: a lookup after \<open>put\<close> finds the new binding or, if it was not
  evicted, an old one; \<open>get\<close> changes the recency order only.\<close>

locale lru_map =
  fixes L :: "'c lru_ops" and look :: "'c \<Rightarrow> estimate_cache_key \<Rightarrow> u32 option"
  assumes look_new: "look (lru_new L n) k = None"
    and get_result: "fst (lru_get L c k) = look c k"
    and get_keeps: "look (snd (lru_get L c k)) = look c"
    and put_get: "look (lru_put L c k v) k = Some v"
    and put_sub: "look (lru_put L c k v) k' = Some w \<Longrightarrow> k' \<noteq> k \<Longrightarrow> look c k' = Some w"
begin

lemma lookup_or_result:
  "fst (cache_lookup_or L key x cache) = (case look (ec_entries cache) key of None \<Rightarrow> x | Some v \<Rightarrow> v)"
  using get_result [of "ec_entries cache" key]
  by (auto simp: cache_lookup_or_def split: prod.splits option.splits)

lemma lookup_or_entries:
  "look (ec_entries (snd (cache_lookup_or L key x cache))) k = Some v \<Longrightarrow>
   look (ec_entries cache) k = Some v \<or> k = key \<and> v = fst (cache_lookup_or L key x cache)"
  using get_result [of "ec_entries cache" key] get_keeps [of "ec_entries cache" key]
    put_get [of "snd (lru_get L (ec_entries cache) key)" key x]
    put_sub [of "snd (lru_get L (ec_entries cache) key)" key x k v]
  by (cases "k = key") (auto simp: cache_lookup_or_def split: prod.splits option.splits)

lemma lookup_or_counts:
  "ec_hits (snd (cache_lookup_or L key x cache)) + ec_misses (snd (cache_lookup_or L key x cache))
     = ec_hits cache + ec_misses cache + 1"
  by (auto simp: cache_lookup_or_def split: prod.splits option.splits)

text \<open>A second request for the same key is a hit with the same answer.\<close>

lemma lookup_or_stores:
  "look (ec_entries (snd (cache_lookup_or L key x cache))) key = Some (fst (cache_lookup_or L key x cache))"
  using get_result [of "ec_entries cache" key] get_keeps [of "ec_entries cache" key]
    put_get [of "snd (lru_get L (ec_entries cache) key)" key x]
  by (auto simp: cache_lookup_or_def split: prod.splits option.splits)

lemma lookup_or_again:
  "fst (cache_lookup_or L key y (snd (cache_lookup_or L key x cache))) = fst (cache_lookup_or L key x cache)"
  by (simp only: lookup_or_result [of key y] lookup_or_stores option.case)

end

text \<open>The capacity: it is that of \<open>new\<close>, no operation changes it, and after a \<open>put\<close> the map holds at
  most that many entries, so that an insertion into a full map evicts.\<close>

locale bounded_lru = lru_map +
  fixes cap :: "'a \<Rightarrow> nat"
  assumes cap_new: "cap (lru_new L n) = n"
    and cap_get: "cap (snd (lru_get L c k)) = cap c"
    and cap_put: "cap (lru_put L c k v) = cap c"
    and put_bound: "0 < cap c \<Longrightarrow> finite (dom (look (lru_put L c k v))) \<and> card (dom (look (lru_put L c k v))) \<le> cap c"
begin

definition within :: "nat \<Rightarrow> 'a estimate_cache \<Rightarrow> bool" where
  "within n c \<longleftrightarrow> cap (ec_entries c) = n \<and> finite (dom (look (ec_entries c))) \<and> card (dom (look (ec_entries c))) \<le> n"

lemma within_new: "within (max capacity 1) (cache_with_capacity L capacity)"
  by (simp add: within_def cache_with_capacity_def cap_new look_new dom_def)

lemma within_lookup_or:
  assumes "within n c" "0 < n"
  shows "within n (snd (cache_lookup_or L key x c))"
proof -
  let ?c = "snd (lru_get L (ec_entries c) key)"
  have "cap ?c = n" "look ?c = look (ec_entries c)" using assms(1) by (simp_all add: within_def cap_get get_keeps)
  then show ?thesis
    using assms put_bound [of ?c key x] cap_put [of ?c key x]
    by (auto simp: within_def cache_lookup_or_def split: prod.splits option.splits)
qed

end

text \<open>A list with the most recent entry first, cut at the capacity, meets the laws.\<close>

type_synonym lru_list = "nat \<times> (estimate_cache_key \<times> u32) list"

definition lru_list_ops :: "lru_list lru_ops" where
  "lru_list_ops =
     \<lparr>lru_new = (\<lambda>n. (n, [])),
      lru_get = (\<lambda>(n, xs) k. (case map_of xs k of None \<Rightarrow> (None, (n, xs))
        | Some v \<Rightarrow> (Some v, (n, (k, v) # filter (\<lambda>p. fst p \<noteq> k) xs)))),
      lru_put = (\<lambda>(n, xs) k v. (n, (k, v) # take (n - 1) (filter (\<lambda>p. fst p \<noteq> k) xs)))\<rparr>"

definition lru_list_look :: "lru_list \<Rightarrow> estimate_cache_key \<Rightarrow> u32 option" where
  "lru_list_look c = map_of (snd c)"

lemma map_of_filter_neq: "k' \<noteq> k \<Longrightarrow> map_of (filter (\<lambda>p. fst p \<noteq> k) xs) k' = map_of xs k'"
  by (induction xs) auto

lemma map_of_take_Some: "map_of (take n xs) k = Some v \<Longrightarrow> map_of xs k = Some v"
proof (induction xs arbitrary: n)
  case (Cons p xs)
  then show ?case by (cases n) (auto split: if_splits)
qed simp

interpretation lru_list: lru_map lru_list_ops lru_list_look
proof
  fix c :: lru_list and k
  show "lru_list_look (snd (lru_get lru_list_ops c k)) = lru_list_look c"
    by (cases c) (auto simp: lru_list_ops_def lru_list_look_def map_of_filter_neq split: option.splits)
next
  fix c :: lru_list and k k' v w
  assume "lru_list_look (lru_put lru_list_ops c k v) k' = Some w" "k' \<noteq> k"
  then show "lru_list_look c k' = Some w"
    by (cases c) (auto simp: lru_list_ops_def lru_list_look_def map_of_filter_neq dest!: map_of_take_Some)
qed (auto simp: lru_list_ops_def lru_list_look_def split: prod.splits option.splits)

lemma lru_list_put_bound:
  assumes "0 < fst c"
  shows "finite (dom (lru_list_look (lru_put lru_list_ops c k v)))
    \<and> card (dom (lru_list_look (lru_put lru_list_ops c k v))) \<le> fst c"
proof -
  let ?xs = "snd (lru_put lru_list_ops c k v)"
  have "card (fst ` set ?xs) \<le> length ?xs" by (metis card_length length_map list.set_map)
  also have "\<dots> \<le> fst c" using assms by (cases c) (simp add: lru_list_ops_def)
  finally show ?thesis by (simp add: lru_list_look_def dom_map_of_conv_image_fst)
qed

interpretation lru_list_bounded: bounded_lru lru_list_ops lru_list_look fst
  by unfold_locales (auto simp: lru_list_put_bound, auto simp: lru_list_ops_def split: prod.splits option.splits)

section \<open>The cache and the estimators of the sources\<close>

text \<open>The estimators the crate constructs. The version strings determine the estimates: a heuristic
  estimator has one set of parameters for all models.\<close>

definition source_estimators :: "ext \<Rightarrow> token_estimator set" where
  "source_estimators E =
     insert (fallback_estimator E) (range (\<lambda>model. heuristic_estimator E (heuristic_default_for model)))"

lemma source_estimators_version:
  "est \<in> source_estimators E \<Longrightarrow> est' \<in> source_estimators E \<Longrightarrow> te_version est = te_version est' \<Longrightarrow>
   te_estimate_content est = te_estimate_content est' \<and>
   te_estimate_tool_schema est = te_estimate_tool_schema est'"
  by (auto simp: source_estimators_def fallback_estimator_def heuristic_estimator_def heuristic_default_for_def)

lemma source_estimators_normalized:
  "est \<in> source_estimators E \<Longrightarrow> normalized_bytes E f = normalized_bytes E g \<Longrightarrow>
   te_estimate_content est f = te_estimate_content est g"
  by (auto simp: source_estimators_def fallback_estimator_def heuristic_estimator_def)

text \<open>A run of requests as the planner makes them: the hash is the content hash of kind and form.\<close>

type_synonym estimate_request = "token_estimator \<times> item_kind \<times> content_form"

abbreviation request_key :: "ext \<Rightarrow> estimate_request \<Rightarrow> estimate_cache_key" where
  "request_key E r \<equiv>
     content_key (fst r) (content_hash E (item_kind_as_str (fst (snd r))) (snd (snd r))) NORMALIZER_VERSION"

abbreviation request_estimate :: "estimate_request \<Rightarrow> u32" where
  "request_estimate r \<equiv> te_estimate_content (fst r) (snd (snd r))"

abbreviation request_input :: "ext \<Rightarrow> estimate_request \<Rightarrow> string" where
  "request_input E r \<equiv>
     hash_input NORMALIZER_VERSION (item_kind_as_str (fst (snd r))) (normalized_bytes E (snd (snd r)))"

fun cache_run :: "'c lru_ops \<Rightarrow> ext \<Rightarrow> estimate_request list \<Rightarrow> 'c estimate_cache \<Rightarrow> u32 list \<times> 'c estimate_cache" where
  "cache_run L E [] c = ([], c)"
| "cache_run L E ((est, k, form) # rs) c =
     (let (v, c) = cache_estimate L est (content_hash E (item_kind_as_str k) form) NORMALIZER_VERSION form c;
          (vs, c) = cache_run L E rs c
      in (v # vs, c))"

lemma request_key_estimate:
  assumes "fst r \<in> source_estimators E" "fst r' \<in> source_estimators E"
    and "inj_on (ext_sha256_hex E) R" "request_input E r \<in> R" "request_input E r' \<in> R"
    and "request_key E r = request_key E r'"
  shows "request_estimate r = request_estimate r'"
proof -
  from assms(6) have v: "te_version (fst r) = te_version (fst r')"
    and "content_hash E (item_kind_as_str (fst (snd r))) (snd (snd r))
       = content_hash E (item_kind_as_str (fst (snd r'))) (snd (snd r'))"
    by (simp_all add: content_key_def)
  then have "request_input E r = request_input E r'"
    using assms(3-5) by (auto simp: content_hash_def dest: inj_onD)
  from hash_input_inj [OF this item_kind_as_str_no_nul item_kind_as_str_no_nul]
  have "normalized_bytes E (snd (snd r)) = normalized_bytes E (snd (snd r'))" by simp
  then show ?thesis
    using source_estimators_version [OF assms(1,2) v] source_estimators_normalized [OF assms(2)] by metis
qed

context lru_map
begin

text \<open>Every entry belongs to a request and holds its estimate.\<close>

definition sound :: "ext \<Rightarrow> estimate_request set \<Rightarrow> 'c estimate_cache \<Rightarrow> bool" where
  "sound E R c \<longleftrightarrow>
     (\<forall>k v. look (ec_entries c) k = Some v \<longrightarrow> (\<exists>r\<in>R. k = request_key E r \<and> v = request_estimate r))"

lemma sound_new: "sound E R (cache_new L)"
  by (simp add: sound_def cache_new_def cache_with_capacity_def look_new)

lemma estimate_step:
  assumes "sound E R c" "r \<in> R" "\<forall>r\<in>R. fst r \<in> source_estimators E"
    and "inj_on (ext_sha256_hex E) (request_input E ` R)"
  shows "fst (cache_lookup_or L (request_key E r) (request_estimate r) c) = request_estimate r"
    and "sound E R (snd (cache_lookup_or L (request_key E r) (request_estimate r) c))"
proof -
  have same: "request_estimate r' = request_estimate r" if "r' \<in> R" "request_key E r = request_key E r'" for r'
    using request_key_estimate [OF _ _ assms(4), of r r'] that assms(2,3) by auto
  show *: "fst (cache_lookup_or L (request_key E r) (request_estimate r) c) = request_estimate r"
    using assms(1) same unfolding lookup_or_result sound_def by (cases "look (ec_entries c) (request_key E r)") (simp, metis option.case(2))
  show "sound E R (snd (cache_lookup_or L (request_key E r) (request_estimate r) c))"
    using assms(1,2) * by (auto simp: sound_def dest!: lookup_or_entries)
qed

lemma run_exact:
  assumes "set rs \<subseteq> R" "sound E R c" "\<forall>r\<in>R. fst r \<in> source_estimators E"
    and "inj_on (ext_sha256_hex E) (request_input E ` R)"
  shows "fst (cache_run L E rs c) = map request_estimate rs \<and>
    ec_hits (snd (cache_run L E rs c)) + ec_misses (snd (cache_run L E rs c))
      = ec_hits c + ec_misses c + of_nat (length rs)"
  using assms(1,2)
proof (induction rs arbitrary: c)
  case (Cons r rs)
  obtain est k form where r: "r = (est, k, form)" by (cases r)
  let ?c = "snd (cache_lookup_or L (request_key E r) (request_estimate r) c)"
  from Cons.prems have "r \<in> R" by simp
  note step = estimate_step [OF Cons.prems(2) this assms(3,4)]
  have "fst (cache_run L E rs ?c) = map request_estimate rs \<and>
    ec_hits (snd (cache_run L E rs ?c)) + ec_misses (snd (cache_run L E rs ?c))
      = ec_hits ?c + ec_misses ?c + of_nat (length rs)"
    using Cons.prems step(2) by (intro Cons.IH) auto
  with step(1) lookup_or_counts [of "request_key E r" "request_estimate r" c] show ?case
    by (simp add: r cache_estimate_def case_prod_beta Let_def)
qed simp

end

context bounded_lru
begin

lemma within_run: "within n c \<Longrightarrow> 0 < n \<Longrightarrow> within n (snd (cache_run L E rs c))"
proof (induction rs arbitrary: c)
  case (Cons r rs)
  obtain est k form where r: "r = (est, k, form)" by (cases r)
  show ?case using Cons.IH [OF within_lookup_or [OF Cons.prems]] Cons.prems(2)
    by (simp add: r cache_estimate_def case_prod_beta Let_def)
qed simp

end

text \<open>C38: From a new cache over an LRU map that evicts at its capacity, every sequence of content
  estimates by the estimators of the crate gives exactly the answers of the estimators themselves, as long
  as the digest has no collision among the contents requested; every request is counted once as a hit or a
  miss, and the cache holds at most 4096 entries at the end of the sequence, and so at the end of every
  initial part of it.\<close>

theorem cache_run_exact:
  assumes "bounded_lru L look cap"
    and "\<forall>r\<in>set rs. fst r \<in> source_estimators E"
    and "inj_on (ext_sha256_hex E) (request_input E ` set rs)"
  shows "fst (cache_run L E rs (cache_new L)) = map request_estimate rs \<and>
    ec_hits (snd (cache_run L E rs (cache_new L))) + ec_misses (snd (cache_run L E rs (cache_new L)))
      = of_nat (length rs)
    \<and> finite (dom (look (ec_entries (snd (cache_run L E rs (cache_new L))))))
    \<and> card (dom (look (ec_entries (snd (cache_run L E rs (cache_new L)))))) \<le> 4096"
proof -
  have lru: "lru_map L look" using assms(1) by (rule bounded_lru.axioms)
  have "bounded_lru.within look cap 4096 (snd (cache_run L E rs (cache_new L)))"
    using bounded_lru.within_run [OF assms(1)] bounded_lru.within_new [OF assms(1), of 4096] by (simp add: cache_new_def)
  with lru_map.run_exact [OF lru subset_refl lru_map.sound_new [OF lru] assms(2,3)] show ?thesis
    by (simp add: cache_new_def cache_with_capacity_def bounded_lru.within_def [OF assms(1)])
qed

theorem cache_run_exact_witness:
  "\<exists>E. fst (cache_run lru_list_ops E
        [(fallback_estimator E, History, FormText ''a''),
         (heuristic_estimator E (heuristic_default_for ''m''), History, FormText ''a''),
         (fallback_estimator E, History, FormText ''a'')] (cache_new lru_list_ops)) = [17, 9, 17]"
proof -
  let ?E = "\<lparr>ext_nfc = id, ext_sha256_hex = id, ext_json_parse = (\<lambda>_. None), ext_json_escape = id,
    ext_f64_as_int = (\<lambda>_. None), ext_f64_display = (\<lambda>_. [])\<rparr>"
  let ?rs = "[(fallback_estimator ?E, History, FormText ''a''),
    (heuristic_estimator ?E (heuristic_default_for ''m''), History, FormText ''a''),
    (fallback_estimator ?E, History, FormText ''a'')]"
  have inj: "inj_on (ext_sha256_hex ?E) A" for A by (simp add: inj_on_def)
  have est: "\<forall>r\<in>set ?rs. fst r \<in> source_estimators ?E" by (auto simp: source_estimators_def)
  have val: "map request_estimate ?rs = [17, 9, 17]" by code_simp
  show ?thesis
    using cache_run_exact [OF lru_list_bounded.bounded_lru_axioms est inj, THEN conjunct1, unfolded val] by (rule exI)
qed

text \<open>The fallback estimator never estimates a content below the default heuristic estimator,
  whatever the model, nor the overhead of a message; a tool schema it estimates lower by at most
  16 tokens.\<close>

theorem fallback_estimates_higher:
  "te_estimate_content (heuristic_estimator E (heuristic_default_for model)) form
     \<le> te_estimate_content (fallback_estimator E) form
   \<and> te_message_overhead (heuristic_estimator E (heuristic_default_for model))
     \<le> te_message_overhead (fallback_estimator E)
   \<and> unat (te_estimate_tool_schema (heuristic_estimator E (heuristic_default_for model)) schema)
     \<le> unat (te_estimate_tool_schema (fallback_estimator E) schema) + 16"
proof -
  have "unat (ceil_div v 3) \<le> unat (ceil_div v 2)" for v
    by (rule unat_ceil_div_antimono) simp_all
  then have "min (unat (ceil_div v 3) + 8) m \<le> min (unat (ceil_div v 2) + 16) m"
    "min (unat (ceil_div v 3) + 16) m \<le> unat (ceil_div v 2) + 16" for v m
    by (meson add_mono min.mono order_refl numeral_le_iff semiring_norm(68,71) le_trans min.cobounded1 add_right_mono)+
  then show ?thesis
    by (simp add: heuristic_estimator_def fallback_estimator_def heuristic_default_for_def word_le_nat_alt unat_sat_add)
qed

lemma drift_relative_negative_iff: "drift_relative_negative d \<longleftrightarrow> drift_is_under_estimate d"
  by (auto simp: drift_relative_negative_def drift_is_under_estimate_def)

end
