(* ===== verification/Context_Metrics.thy ===== *)
theory Context_Metrics
  imports Complex_Main Context_Ledger Token_Estimator
begin

text \<open>
  \<open>crates/context-budget/src/metrics.rs\<close>: the counters of the planner and the alerts. A
  \<open>BTreeMap\<close> is the association list sorted by key. Observations that the code keeps as \<open>f64\<close>
  quotients are kept as their operands and compared as rationals: the operands are integers below
  \<open>2 ^ 32\<close> and the thresholds 0.05 and 0.01 are the quotients 1/20 and 1/100, so rounding never
  changes a comparison. The text of an alert is the value of the constructor printed.
\<close>

section \<open>Ordered maps\<close>

fun bt_modify :: "'k::linorder \<Rightarrow> 'v \<Rightarrow> ('v \<Rightarrow> 'v) \<Rightarrow> ('k \<times> 'v) list \<Rightarrow> ('k \<times> 'v) list" where
  "bt_modify k d f [] = [(k, f d)]"
| "bt_modify k d f ((k', v) # m) =
     (if k = k' then (k', f v) # m
      else if k < k' then (k, f d) # (k', v) # m
      else (k', v) # bt_modify k d f m)"

definition bt_ordered :: "('k::linorder \<times> 'v) list \<Rightarrow> bool" where
  "bt_ordered m \<longleftrightarrow> sorted_wrt (<) (map fst m)"

lemma bt_modify_keys: "fst ` set (bt_modify k d f m) = insert k (fst ` set m)"
  by (induction k d f m rule: bt_modify.induct) auto

lemma bt_modify_ordered: "bt_ordered m \<Longrightarrow> bt_ordered (bt_modify k d f m)"
proof (induction k d f m rule: bt_modify.induct)
  case (2 k d f k' v m)
  from 2(2) have m: "bt_ordered m" "\<forall>x\<in>fst ` set m. k' < x" by (auto simp: bt_ordered_def)
  consider "k = k'" | "k < k'" | "k' < k" by fastforce
  then show ?case
  proof cases
    case 3
    then have "\<forall>x\<in>fst ` set (bt_modify k d f m). k' < x" unfolding bt_modify_keys using m(2) by auto
    moreover have "bt_ordered (bt_modify k d f m)" using 2(1) 3 m(1) by auto
    ultimately show ?thesis using 3 by (auto simp: bt_ordered_def)
  qed (use 2(2) in \<open>auto simp: bt_ordered_def dest: less_trans\<close>)
qed (simp add: bt_ordered_def)

lemma bt_modify_lookup:
  "bt_ordered m \<Longrightarrow>
   map_of (bt_modify k d f m) = (map_of m)(k \<mapsto> f (case map_of m k of None \<Rightarrow> d | Some v \<Rightarrow> v))"
proof (induction k d f m rule: bt_modify.induct)
  case (2 k d f k' v m)
  have "map_of m k = None" if "k < k'"
  proof -
    from 2(2) that have "\<forall>x\<in>set (map fst m). k < x" by (auto simp: bt_ordered_def)
    then show ?thesis by (auto simp: map_of_eq_None_iff)
  qed
  with 2 show ?case by (auto simp: bt_ordered_def fun_eq_iff)
qed simp

section \<open>Counters\<close>

record context_metrics =
  cm_drops_total :: "(string \<times> u64) list"
  cm_budget_utilization :: "(string \<times> (u32 \<times> u32) list) list"
  cm_estimator_drift :: "estimator_drift list"
  cm_ladder_level_applied_total :: "(string \<times> u64) list"
  cm_replan_total :: "(string \<times> u64) list"
  cm_budget_unavailable_total :: "(string \<times> u64) list"
  cm_selection_latency_ms :: "u64 list"
  cm_offloaded_bytes_total :: u64
  cm_ledger_pruned_total :: u64
  cm_estimator_under_estimate_total :: u64
  cm_ledger_write_failed_total :: u64
  cm_recovery_items_isolated_total :: u64
  cm_loadout_miss_total :: u64
  cm_calls_total :: u64
  cm_fallback_estimator_total :: u64

definition metrics_default :: context_metrics where
  "metrics_default =
     \<lparr>cm_drops_total = [], cm_budget_utilization = [], cm_estimator_drift = [],
      cm_ladder_level_applied_total = [], cm_replan_total = [], cm_budget_unavailable_total = [],
      cm_selection_latency_ms = [], cm_offloaded_bytes_total = 0, cm_ledger_pruned_total = 0,
      cm_estimator_under_estimate_total = 0, cm_ledger_write_failed_total = 0,
      cm_recovery_items_isolated_total = 0, cm_loadout_miss_total = 0, cm_calls_total = 0,
      cm_fallback_estimator_total = 0\<rparr>"

definition record_drop :: "drop_reason \<Rightarrow> context_metrics \<Rightarrow> context_metrics" where
  "record_drop reason m =
     m\<lparr>cm_drops_total := bt_modify (drop_reason_as_str reason) 0 (\<lambda>n. n + 1) (cm_drops_total m)\<rparr>"

definition record_ladder_level :: "ladder_level \<Rightarrow> context_metrics \<Rightarrow> context_metrics" where
  "record_ladder_level level m =
     m\<lparr>cm_ladder_level_applied_total :=
        bt_modify (ladder_level_as_str level) 0 (\<lambda>n. n + 1) (cm_ladder_level_applied_total m)\<rparr>"

definition record_budget_unavailable :: "budget_unavailable_stage \<Rightarrow> context_metrics \<Rightarrow> context_metrics" where
  "record_budget_unavailable stage m =
     m\<lparr>cm_budget_unavailable_total :=
        bt_modify (stage_as_str stage) 0 (\<lambda>n. n + 1) (cm_budget_unavailable_total m)\<rparr>"

definition record_replan :: "string \<Rightarrow> context_metrics \<Rightarrow> context_metrics" where
  "record_replan outcome m =
     m\<lparr>cm_replan_total := bt_modify outcome 0 (\<lambda>n. n + 1) (cm_replan_total m)\<rparr>"

definition record_utilization :: "budget_category \<Rightarrow> u32 \<Rightarrow> u32 \<Rightarrow> context_metrics \<Rightarrow> context_metrics" where
  "record_utilization category used budget m =
     (if budget = 0 then m
      else m\<lparr>cm_budget_utilization :=
             bt_modify (budget_category_as_str category) [] (\<lambda>obs. obs @ [(used, budget)]) (cm_budget_utilization m)\<rparr>)"

definition record_estimator_drift :: "estimator_drift \<Rightarrow> context_metrics \<Rightarrow> context_metrics" where
  "record_estimator_drift d m =
     (let m = m\<lparr>cm_estimator_drift := cm_estimator_drift m @ [d]\<rparr>
      in if drift_relative_negative d
         then m\<lparr>cm_estimator_under_estimate_total := cm_estimator_under_estimate_total m + 1\<rparr> else m)"

definition record_selection_latency :: "u64 \<Rightarrow> context_metrics \<Rightarrow> context_metrics" where
  "record_selection_latency millis m = m\<lparr>cm_selection_latency_ms := cm_selection_latency_ms m @ [millis]\<rparr>"

definition record_fallback_estimator :: "context_metrics \<Rightarrow> context_metrics" where
  "record_fallback_estimator m = m\<lparr>cm_fallback_estimator_total := cm_fallback_estimator_total m + 1\<rparr>"

section \<open>Alerts\<close>

definition ALERT_WINDOW_CALLS :: nat where "ALERT_WINDOW_CALLS = 100"

definition drift_relative :: "estimator_drift \<Rightarrow> rat" where
  "drift_relative d =
     (if ed_actual_prompt_tokens d = 0 then 0
      else (of_nat (unat (ed_estimated_prompt_tokens d)) - of_nat (unat (ed_actual_prompt_tokens d)))
           / of_nat (unat (ed_actual_prompt_tokens d)))"

text \<open>The index is \<open>ceil(len * 0.95)\<close>; for the lengths of an alert window the product of \<open>f64\<close>
  rounds to the exact one.\<close>

definition p95 :: "'a::linorder list \<Rightarrow> 'a option" where
  "p95 values =
     (if values = [] then None
      else let ordered = sort values; index = (19 * length ordered + 19) div 20
           in if index - 1 < length ordered then Some (ordered ! (index - 1)) else None)"

datatype alert =
    AlertEstimatorDriftP95 rat
  | AlertUnderEstimate u64
  | AlertReplanShare u64 u64
  | AlertFallbackEstimatorShare u64 u64
  | AlertEstimatorUnavailable u64
  | AlertLedgerWriteFailed u64

definition alerts :: "context_metrics \<Rightarrow> alert list" where
  "alerts m =
     (let window = take ALERT_WINDOW_CALLS (rev (map drift_relative (cm_estimator_drift m)));
          replans = sum_list (map snd (cm_replan_total m));
          window_calls = min (cm_calls_total m) (of_nat ALERT_WINDOW_CALLS)
      in (case p95 window of None \<Rightarrow> [] | Some p \<Rightarrow> (if p > 1 / 20 then [AlertEstimatorDriftP95 p] else []))
         @ (if cm_estimator_under_estimate_total m > 0
            then [AlertUnderEstimate (cm_estimator_under_estimate_total m)] else [])
         @ (if window_calls > 0
            then (if 100 * unat replans > unat window_calls then [AlertReplanShare replans window_calls] else [])
               @ (if 20 * unat (cm_fallback_estimator_total m) > unat window_calls
                  then [AlertFallbackEstimatorShare (cm_fallback_estimator_total m) window_calls] else [])
            else [])
         @ (case map_of (cm_budget_unavailable_total m) (stage_as_str EstimatorUnavailable) of
              None \<Rightarrow> [] | Some n \<Rightarrow> (if n > 0 then [AlertEstimatorUnavailable n] else []))
         @ (if cm_ledger_write_failed_total m > 0 then [AlertLedgerWriteFailed (cm_ledger_write_failed_total m)] else []))"

section \<open>Properties\<close>

lemma p95_index: "0 < n \<Longrightarrow> (19 * n + 19) div 20 - 1 < n \<and> 0 < (19 * n + 19) div 20" for n :: nat
  by (auto simp: less_eq_div_iff_mult_less_eq div_less_iff_less_mult)

lemma sorted_le_count: "sorted xs \<Longrightarrow> i < length xs \<Longrightarrow> Suc i \<le> length (filter (\<lambda>x. x \<le> xs ! i) xs)"
proof -
  assume s: "sorted xs" and i: "i < length xs"
  have "\<forall>x\<in>set (take (Suc i) xs). x \<le> xs ! i"
    using s i by (auto simp: in_set_conv_nth sorted_iff_nth_mono)
  then have "length (filter (\<lambda>x. x \<le> xs ! i) (take (Suc i) xs)) = Suc i" using i by simp
  moreover have "filter (\<lambda>x. x \<le> xs ! i) xs
    = filter (\<lambda>x. x \<le> xs ! i) (take (Suc i) xs) @ filter (\<lambda>x. x \<le> xs ! i) (drop (Suc i) xs)"
    by (metis append_take_drop_id filter_append)
  ultimately show ?thesis by simp
qed

lemma sorted_less_count: "sorted xs \<Longrightarrow> i < length xs \<Longrightarrow> length (filter (\<lambda>x. x < xs ! i) xs) \<le> i"
proof -
  assume s: "sorted xs" and i: "i < length xs"
  have "\<forall>x\<in>set (drop i xs). \<not> x < xs ! i"
    using s i by (auto simp: in_set_conv_nth sorted_iff_nth_mono not_less)
  then have "filter (\<lambda>x. x < xs ! i) (drop i xs) = []" by simp
  moreover have "filter (\<lambda>x. x < xs ! i) xs
    = filter (\<lambda>x. x < xs ! i) (take i xs) @ filter (\<lambda>x. x < xs ! i) (drop i xs)"
    by (metis append_take_drop_id filter_append)
  ultimately show ?thesis using length_filter_le [of "\<lambda>x. x < xs ! i" "take i xs"] by simp
qed

text \<open>The 95th percentile of a non-empty sample is an observed value, at least 95 of 100
  observations do not exceed it, and fewer than 95 of 100 are below it.\<close>

theorem p95_is_percentile:
  assumes "values \<noteq> []"
  shows "\<exists>v. p95 values = Some v \<and> v \<in> set values
    \<and> 19 * length values \<le> 20 * length (filter (\<lambda>x. x \<le> v) values)
    \<and> 20 * length (filter (\<lambda>x. x < v) values) < 19 * length values"
proof -
  define n where "n = length values"
  define i where "i = (19 * n + 19) div 20 - 1"
  have n: "0 < n" using assms by (simp add: n_def)
  have i: "i < n" "19 * n \<le> 20 * Suc i" "20 * i < 19 * n" using n p95_index [OF n] by (simp_all add: i_def) linarith+
  let ?v = "sort values ! i"
  have len: "length (filter P (sort values)) = length (filter P values)" for P
    by (metis mset_filter mset_sort size_mset)
  have "p95 values = Some ?v" using assms i(1) by (simp add: p95_def Let_def n_def [symmetric] i_def)
  moreover have "?v \<in> set values" using i(1) nth_mem [of i "sort values"] by (simp add: n_def)
  moreover have "Suc i \<le> length (filter (\<lambda>x. x \<le> ?v) values)" "length (filter (\<lambda>x. x < ?v) values) \<le> i"
    using sorted_le_count [of "sort values" i] sorted_less_count [of "sort values" i] i(1) by (simp_all add: len n_def)
  ultimately show ?thesis using i(2,3) by (auto simp: n_def [symmetric])
qed

theorem p95_is_percentile_witness:
  "\<exists>v. p95 [7, 3, 5 :: nat] = Some v \<and> v \<in> {7, 3, 5}"
  using p95_is_percentile [of "[7, 3, 5 :: nat]"] by auto

text \<open>The share of re-planned calls divides all re-plans ever counted by a number of calls that stops
  at the window: two re-plans in ten thousand calls raise the one-percent alert.\<close>

lemma replan_share_not_windowed:
  "AlertReplanShare 2 100 \<in> set (alerts (metrics_default\<lparr>cm_calls_total := 10000, cm_replan_total := [(''succeeded'', 2)]\<rparr>))"
  by (simp add: alerts_def metrics_default_def Let_def p95_def ALERT_WINDOW_CALLS_def min_def)

end
