(* ===== verification/Context_Planner.thy ===== *)
theory Context_Planner
  imports Context_Compression Context_Metrics
begin

text \<open>
  \<open>crates/context-budget/src/planner.rs\<close>: the planner's state, the assembly of a context stage by
  stage in the order of \<open>plan_with\<close>, the refusal, the single re-plan after a context-length error,
  and the record of the provider's usage.

  Every stage is a definition of its own; \<open>plan_with\<close> composes them. The state the code mutates
  (planner with cache and metrics, store, summarizer) is passed through. The clock is an argument:
  \<open>elapsed\<close> is what \<open>started.elapsed()\<close> returns when the latency is recorded. \<open>serde_json::to_string\<close>
  of a profile is a field of the environment.
\<close>

section \<open>Requests, plans, planner\<close>

record plan_env =
  pe_ext :: ext
  pe_profile_json :: "model_context_profile \<Rightarrow> string"

datatype owned_content = OwnedText string | OwnedJson string | OwnedBinary string

fun as_form :: "owned_content \<Rightarrow> content_form" where
  "as_form (OwnedText text) = FormText text"
| "as_form (OwnedJson text) = FormJson text"
| "as_form (OwnedBinary bytes) = FormBinary bytes"

fun as_text :: "owned_content \<Rightarrow> string" where
  "as_text (OwnedText text) = text"
| "as_text (OwnedJson text) = text"
| "as_text (OwnedBinary bytes) = []"

record plan_input =
  pi_item :: context_item
  pi_content :: owned_content

record plan_request =
  pr_task_id :: string
  pr_session_id :: string
  pr_model_call_id :: string
  pr_provider :: string
  pr_model :: string
  pr_provider_window :: "u32 option"
  pr_now :: i64
  pr_inputs :: "plan_input list"
  pr_loadout :: "loadout_record option"
  pr_replan_of :: "string option"
  pr_force_reduction :: bool

record context_plan =
  cp_profile :: model_context_profile
  cp_budget :: context_budget
  cp_selected :: "context_item list"
  cp_dropped :: "context_item list"
  cp_reserves :: u32
  cp_ledger :: context_ledger_entry
  cp_diagnostics :: "ladder_diagnostic list"
  cp_unavailable :: "budget_unavailable option"
  cp_fallback_estimator :: bool

definition is_ready :: "context_plan \<Rightarrow> bool" where
  "is_ready plan \<longleftrightarrow> cp_unavailable plan = None"

record 'c context_planner =
  pl_catalog :: profile_catalog
  pl_primary :: "token_estimator option"
  pl_fallback_available :: bool
  pl_cache :: "'c estimate_cache"
  pl_metrics :: context_metrics

definition planner_new :: "'c lru_ops \<Rightarrow> profile_catalog \<Rightarrow> token_estimator option \<Rightarrow> 'c context_planner" where
  "planner_new L catalog primary =
     \<lparr>pl_catalog = catalog, pl_primary = primary, pl_fallback_available = True,
      pl_cache = cache_new L, pl_metrics = metrics_default\<rparr>"

definition with_builtin_catalog :: "'c lru_ops \<Rightarrow> token_estimator option \<Rightarrow> 'c context_planner" where
  "with_builtin_catalog L primary = planner_new L catalog_builtin primary"

definition set_fallback_estimator_available :: "bool \<Rightarrow> 'c context_planner \<Rightarrow> 'c context_planner" where
  "set_fallback_estimator_available available p = p\<lparr>pl_fallback_available := available\<rparr>"

definition on_metrics :: "(context_metrics \<Rightarrow> context_metrics) \<Rightarrow> 'c context_planner \<Rightarrow> 'c context_planner" where
  "on_metrics f p = p\<lparr>pl_metrics := f (pl_metrics p)\<rparr>"

section \<open>Refusal\<close>

record refusal_input =
  ri_request :: plan_request
  ri_profile :: model_context_profile
  ri_tokenizer_version :: string
  ri_stage :: budget_unavailable_stage
  ri_required_tokens :: u32
  ri_available_tokens :: u32
  ri_missing_part :: "mandatory_part option"
  ri_mandatory_parts :: "mandatory_part_record list"
  ri_selected_items :: "selected_item_record list"
  ri_fallback_estimator :: bool
  ri_ladder_levels_applied :: "ladder_level list"

definition refusal_ledger :: "plan_env \<Rightarrow> refusal_input \<Rightarrow> budget_unavailable \<Rightarrow> context_ledger_entry" where
  "refusal_ledger env i unavailable =
     \<lparr>le_id = ''ledger-'' @ pr_model_call_id (ri_request i),
      le_schema_version = CONTEXT_LEDGER_SCHEMA_VERSION,
      le_task_id = pr_task_id (ri_request i),
      le_session_id = pr_session_id (ri_request i),
      le_model_call_id = pr_model_call_id (ri_request i),
      le_created_at = pr_now (ri_request i),
      le_provider = pr_provider (ri_request i),
      le_model = pr_model (ri_request i),
      le_profile_version = mp_profile_version (ri_profile i),
      le_profile_snapshot = pe_profile_json env (ri_profile i),
      le_tokenizer_version = ri_tokenizer_version i,
      le_normalizer_version = NORMALIZER_VERSION,
      le_strategy_version = STRATEGY_VERSION,
      le_mandatory_tokens = sat_sum (map mr_tokens (ri_mandatory_parts i)),
      le_selected_optional_tokens = 0,
      le_reserves_tokens = reserves_total (ri_profile i),
      le_estimated_prompt_tokens = ri_required_tokens i,
      le_selected_items = ri_selected_items i,
      le_dropped_items = [],
      le_mandatory_parts = ri_mandatory_parts i,
      le_ladder_levels_applied = ri_ladder_levels_applied i,
      le_compression = [],
      le_loadout = pr_loadout (ri_request i),
      le_fallback_estimator = ri_fallback_estimator i,
      le_replan_of = pr_replan_of (ri_request i),
      le_outcome = LedgerBudgetUnavailable,
      le_budget_unavailable = Some unavailable,
      le_context_ledger_hash = []\<rparr>"

definition refuse :: "plan_env \<Rightarrow> u64 \<Rightarrow> refusal_input \<Rightarrow> 'c context_planner \<Rightarrow> context_plan \<times> 'c context_planner" where
  "refuse env elapsed i p =
     (let p = on_metrics (record_budget_unavailable (ri_stage i)) p;
          unavailable = with_missing_part (ri_missing_part i)
            (budget_unavailable_new (ri_stage i) (ri_required_tokens i) (ri_available_tokens i)
               (mp_profile_version (ri_profile i)) (ri_tokenizer_version i));
          ledger = finalize_hash (pe_ext env) (refusal_ledger env i unavailable);
          unavailable = with_ledger_hash (le_context_ledger_hash ledger) unavailable;
          ledger = ledger\<lparr>le_budget_unavailable := Some unavailable\<rparr>;
          p = on_metrics (record_selection_latency elapsed) p
      in (\<lparr>cp_profile = ri_profile i, cp_budget = budget_from_profile (ri_profile i),
           cp_selected = [], cp_dropped = [], cp_reserves = 0, cp_ledger = ledger,
           cp_diagnostics = [], cp_unavailable = Some unavailable,
           cp_fallback_estimator = ri_fallback_estimator i\<rparr>, p))"

section \<open>Stages of the assembly\<close>

text \<open>1. The estimator: the primary one, else the fallback, else none.\<close>

definition select_estimator :: "plan_env \<Rightarrow> 'c context_planner \<Rightarrow> (token_estimator \<times> bool) option" where
  "select_estimator env p =
     (case (pl_primary p, pl_fallback_available p) of
        (Some primary, _) \<Rightarrow> Some (primary, False)
      | (None, True) \<Rightarrow> Some (fallback_estimator (pe_ext env), True)
      | (None, False) \<Rightarrow> None)"

text \<open>2. The profile.\<close>

definition base_profile :: "plan_request \<Rightarrow> model_context_profile option \<Rightarrow> 'c context_planner \<Rightarrow> model_context_profile" where
  "base_profile request override p =
     (case override of Some profile \<Rightarrow> profile
      | None \<Rightarrow> catalog_resolve (pl_catalog p) (pr_provider request) (pr_model request) (pr_provider_window request))"

definition plan_profile ::
  "plan_request \<Rightarrow> model_context_profile option \<Rightarrow> bool \<Rightarrow> 'c context_planner \<Rightarrow> model_context_profile" where
  "plan_profile request override fb p =
     (if fb then scaled_for_fallback_estimator (base_profile request override p) else base_profile request override p)"

text \<open>3. Hash, size and estimate of every input, computed here and not taken from the caller.\<close>

definition estimate_input ::
  "plan_env \<Rightarrow> 'c lru_ops \<Rightarrow> token_estimator \<Rightarrow> plan_input \<Rightarrow> 'c estimate_cache \<Rightarrow> context_item \<times> 'c estimate_cache" where
  "estimate_input env L est input cache =
     (let form = as_form (pi_content input);
          hash = content_hash (pe_ext env) (item_kind_as_str (ci_kind (pi_item input))) form;
          (content_tokens, cache) = cache_estimate L est hash NORMALIZER_VERSION form cache
      in ((pi_item input)
            \<lparr>ci_content_hash := hash,
             ci_bytes := len_u64 (normalized_bytes (pe_ext env) form),
             ci_tokenizer_version := te_version est,
             ci_estimated_tokens := sat_add content_tokens (te_message_overhead est),
             ci_selected := True,
             ci_drop_reason := None\<rparr>, cache))"

fun estimate_inputs ::
  "plan_env \<Rightarrow> 'c lru_ops \<Rightarrow> token_estimator \<Rightarrow> plan_input list \<Rightarrow> 'c estimate_cache
   \<Rightarrow> context_item list \<times> 'c estimate_cache" where
  "estimate_inputs env L est [] cache = ([], cache)"
| "estimate_inputs env L est (input # inputs) cache =
     (let (item, cache) = estimate_input env L est input cache;
          (items, cache) = estimate_inputs env L est inputs cache
      in (item # items, cache))"

text \<open>4. The mandatory minimum as ledger records.\<close>

definition mandatory_part_records :: "minimum_viable_context \<Rightarrow> mandatory_part_record list" where
  "mandatory_part_records mvc =
     map (\<lambda>(part, count, tokens). \<lparr>mr_part = part, mr_items = count, mr_tokens = tokens\<rparr>) (mvc_parts mvc)"

text \<open>6. Pruning with the mandatory items set aside.\<close>

definition prune_optional :: "context_item list \<Rightarrow> i64 \<Rightarrow> context_item list \<times> (string \<times> drop_reason) list" where
  "prune_optional items now =
     (let items = map (\<lambda>item. item\<lparr>ci_selected := \<not> is_mandatory_kind item\<rparr>) items;
          (items, pruned) = prune items now
      in (map (\<lambda>item. if is_mandatory_kind item then item\<lparr>ci_selected := True\<rparr> else item) items, pruned))"

text \<open>7. The ladder, run above the soft limit or on demand.\<close>

definition plan_ladder_context :: "plan_request \<Rightarrow> model_context_profile \<Rightarrow> u32 \<Rightarrow> ladder_context" where
  "plan_ladder_context request profile mandatory =
     \<lparr>lc_now = pr_now request, lc_profile = profile,
      lc_goal_context_tokens = (if pr_force_reduction request then mandatory else mp_target_tokens profile),
      lc_allow_reserve_release = \<not> pr_force_reduction request\<rparr>"

definition reduce_selection ::
  "'s offload_sink \<Rightarrow> 't summarizer \<Rightarrow> plan_request \<Rightarrow> model_context_profile \<Rightarrow> u32 \<Rightarrow> selection \<Rightarrow> 's \<Rightarrow> 't
   \<Rightarrow> ('s, 't) ladder_state" where
  "reduce_selection sink summ request profile mandatory sel s t =
     (if pr_force_reduction request \<or> \<not> within_soft_limit (budget_from_profile profile) (context_tokens sel)
      then run_ladder (plan_ladder_context request profile mandatory) sink summ sel s t
      else \<lparr>ls_selection = sel, ls_sink = s, ls_summarizer = t, ls_outcome = ladder_outcome_default\<rparr>)"

definition finish_dropped :: "summary_outcome list \<Rightarrow> context_item \<Rightarrow> context_item" where
  "finish_dropped summaries item =
     (if ci_drop_reason item = None \<and> (\<forall>summary\<in>set summaries. ci_id item \<notin> set (so_source_ids summary))
      then item\<lparr>ci_drop_reason := Some OverBudget\<rparr> else item)"

definition record_dropped :: "context_item \<Rightarrow> context_metrics \<Rightarrow> context_metrics" where
  "record_dropped item m = (case ci_drop_reason item of None \<Rightarrow> m | Some reason \<Rightarrow> record_drop reason m)"

text \<open>8. The order of the assembled context.\<close>

definition assemble :: "context_item list \<Rightarrow> context_item list" where
  "assemble selected =
     sort_key mandatory_key (filter is_mandatory_kind selected)
     @ order_items (filter (\<lambda>item. \<not> is_mandatory_kind item) selected)"

definition selected_records :: "context_item list \<Rightarrow> selected_item_record list" where
  "selected_records items = map (\<lambda>item. \<lparr>si_id = ci_id item, si_estimated_tokens = ci_estimated_tokens item\<rparr>) items"

definition dropped_records :: "context_item list \<Rightarrow> dropped_item_record list" where
  "dropped_records items =
     List.map_filter (\<lambda>item. map_option (\<lambda>reason. \<lparr>di_id = ci_id item, di_drop_reason = reason\<rparr>) (ci_drop_reason item)) items"

text \<open>10. Utilization by category, compression records, and the ledger of a sent context.\<close>

definition record_category_utilization ::
  "context_item list \<Rightarrow> context_budget \<Rightarrow> budget_category \<Rightarrow> context_metrics \<Rightarrow> context_metrics" where
  "record_category_utilization ordered budget category m =
     record_utilization category
       (sat_sum (map ci_estimated_tokens (filter (\<lambda>item. item_kind_category (ci_kind item) = category) ordered)))
       (cb_target_tokens (budget_category_of budget category)) m"

definition compression_of :: "context_item list \<Rightarrow> summary_outcome \<Rightarrow> compression_record" where
  "compression_of dropped summary =
     \<lparr>cr_summary_id = so_summary_id summary, cr_source_ids = so_source_ids summary,
      cr_compression_ratio = (so_summary_tokens summary,
        sat_sum (map ci_estimated_tokens (filter (\<lambda>item. ci_id item \<in> set (so_source_ids summary)) dropped))),
      cr_summarizer_version = so_summarizer_version summary,
      cr_summary_budget = so_summary_tokens summary,
      cr_fallback = so_fallback summary, cr_fallback_reason = so_fallback_reason summary\<rparr>"

definition sent_ledger ::
  "plan_env \<Rightarrow> plan_request \<Rightarrow> model_context_profile \<Rightarrow> token_estimator \<Rightarrow> bool \<Rightarrow> mandatory_part_record list
   \<Rightarrow> ladder_outcome \<Rightarrow> u32 \<Rightarrow> u32 \<Rightarrow> u32 \<Rightarrow> context_item list \<Rightarrow> context_item list \<Rightarrow> context_ledger_entry" where
  "sent_ledger env request profile est fb parts outcome mandatory optional reserves ordered dropped =
     \<lparr>le_id = ''ledger-'' @ pr_model_call_id request,
      le_schema_version = CONTEXT_LEDGER_SCHEMA_VERSION,
      le_task_id = pr_task_id request,
      le_session_id = pr_session_id request,
      le_model_call_id = pr_model_call_id request,
      le_created_at = pr_now request,
      le_provider = pr_provider request,
      le_model = pr_model request,
      le_profile_version = mp_profile_version profile,
      le_profile_snapshot = pe_profile_json env profile,
      le_tokenizer_version = te_version est,
      le_normalizer_version = NORMALIZER_VERSION,
      le_strategy_version = STRATEGY_VERSION,
      le_mandatory_tokens = mandatory,
      le_selected_optional_tokens = optional,
      le_reserves_tokens = reserves,
      le_estimated_prompt_tokens = sat_add mandatory optional,
      le_selected_items = selected_records ordered,
      le_dropped_items = dropped_records dropped,
      le_mandatory_parts = parts,
      le_ladder_levels_applied = lo_levels_applied outcome,
      le_compression = map (compression_of dropped) (lo_summaries outcome),
      le_loadout = pr_loadout request,
      le_fallback_estimator = fb,
      le_replan_of = pr_replan_of request,
      le_outcome = LedgerSent,
      le_budget_unavailable = None,
      le_context_ledger_hash = []\<rparr>"

section \<open>The assembly\<close>

text \<open>Stages 9 and 10: the final check of the budget and the plan.\<close>

definition finish_plan ::
  "plan_env \<Rightarrow> u64 \<Rightarrow> plan_request \<Rightarrow> model_context_profile \<Rightarrow> token_estimator \<Rightarrow> bool \<Rightarrow> minimum_viable_context
   \<Rightarrow> context_item list \<Rightarrow> ('s, 't) ladder_state \<Rightarrow> 'c context_planner \<Rightarrow> context_plan \<times> 'c context_planner" where
  "finish_plan env elapsed request profile est fb mvc pre_dropped st p =
     (let outcome = ls_outcome st;
          sel = ls_selection st;
          finished = map (finish_dropped (lo_summaries outcome)) (dropped_items sel);
          p = on_metrics (fold record_dropped finished) p;
          dropped = pre_dropped @ finished;
          ordered = assemble (selected_items sel);
          final_mandatory = sat_sum (map ci_estimated_tokens (filter is_mandatory_kind ordered));
          final_optional = sat_sum (map ci_estimated_tokens (filter (\<lambda>item. \<not> is_mandatory_kind item) ordered));
          final_reserves = sel_reserves sel;
          total = sat_add (sat_add final_mandatory final_optional) final_reserves
      in if total > mp_hard_limit_tokens profile
         then (let (refusal, p) = refuse env elapsed
                 \<lparr>ri_request = request, ri_profile = profile, ri_tokenizer_version = te_version est,
                  ri_stage = DropsExhausted, ri_required_tokens = total,
                  ri_available_tokens = mp_hard_limit_tokens profile,
                  ri_missing_part = missing_part mvc (mp_hard_limit_tokens profile),
                  ri_mandatory_parts = mandatory_part_records mvc,
                  ri_selected_items = selected_records ordered, ri_fallback_estimator = fb,
                  ri_ladder_levels_applied = lo_levels_applied outcome\<rparr> p
               in (refusal\<lparr>cp_diagnostics := lo_diagnostics outcome, cp_selected := ordered, cp_dropped := dropped\<rparr>, p))
         else (let budget = budget_from_profile profile;
                   p = on_metrics (fold (record_category_utilization ordered budget) budget_category_all) p;
                   ledger = finalize_hash (pe_ext env)
                     (sent_ledger env request profile est fb (mandatory_part_records mvc) outcome
                        final_mandatory final_optional final_reserves ordered dropped);
                   p = on_metrics (record_selection_latency elapsed) p
               in (\<lparr>cp_profile = profile, cp_budget = budget, cp_selected = ordered, cp_dropped = dropped,
                    cp_reserves = final_reserves, cp_ledger = ledger, cp_diagnostics = lo_diagnostics outcome,
                    cp_unavailable = None, cp_fallback_estimator = fb\<rparr>, p)))"

text \<open>Stages 6 to 8: pruning and the ladder.\<close>

definition reduce_plan ::
  "plan_env \<Rightarrow> 's offload_sink \<Rightarrow> 't summarizer \<Rightarrow> u64 \<Rightarrow> plan_request \<Rightarrow> model_context_profile \<Rightarrow> token_estimator
   \<Rightarrow> bool \<Rightarrow> minimum_viable_context \<Rightarrow> context_item list \<Rightarrow> 'c context_planner \<Rightarrow> 's \<Rightarrow> 't
   \<Rightarrow> context_plan \<times> 'c context_planner \<times> 's \<times> 't" where
  "reduce_plan env sink summ elapsed request profile est fb mvc items p s t =
     (let (items, pruned) = prune_optional items (pr_now request);
          p = on_metrics (fold (\<lambda>d. record_drop (snd d)) pruned) p;
          surviving = filter ci_selected items;
          pre_dropped = filter (\<lambda>item. \<not> ci_selected item) items;
          sel = selection_new surviving (reserves_total profile);
          st = reduce_selection sink summ request profile (mvc_tokens mvc) sel s t;
          p = on_metrics (fold record_ladder_level (lo_levels_applied (ls_outcome st))) p;
          p = on_metrics (\<lambda>m. m\<lparr>cm_offloaded_bytes_total :=
                sat_add (cm_offloaded_bytes_total m) (lo_offloaded_bytes (ls_outcome st))\<rparr>) p;
          (plan, p) = finish_plan env elapsed request profile est fb mvc pre_dropped st p
      in (plan, p, ls_sink st, ls_summarizer st))"

text \<open>Stages 3 to 5: estimates, the mandatory minimum, and its two limits.\<close>

definition overflow_refusal ::
  "plan_request \<Rightarrow> model_context_profile \<Rightarrow> token_estimator \<Rightarrow> bool \<Rightarrow> minimum_viable_context \<Rightarrow> u32 \<Rightarrow> u32
   \<Rightarrow> mandatory_part option \<Rightarrow> refusal_input" where
  "overflow_refusal request profile est fb mvc required available missing =
     \<lparr>ri_request = request, ri_profile = profile, ri_tokenizer_version = te_version est,
      ri_stage = MandatoryOverflow, ri_required_tokens = required, ri_available_tokens = available,
      ri_missing_part = missing, ri_mandatory_parts = mandatory_part_records mvc, ri_selected_items = [],
      ri_fallback_estimator = fb, ri_ladder_levels_applied = []\<rparr>"

definition checked_plan ::
  "plan_env \<Rightarrow> 'c lru_ops \<Rightarrow> 's offload_sink \<Rightarrow> 't summarizer \<Rightarrow> u64 \<Rightarrow> plan_request \<Rightarrow> model_context_profile
   \<Rightarrow> token_estimator \<Rightarrow> bool \<Rightarrow> 'c context_planner \<Rightarrow> 's \<Rightarrow> 't \<Rightarrow> context_plan \<times> 'c context_planner \<times> 's \<times> 't" where
  "checked_plan env L sink summ elapsed request profile est fb p s t =
     (let reserves = reserves_total profile;
          (items, cache) = estimate_inputs env L est (pr_inputs request) (pl_cache p);
          p = p\<lparr>pl_cache := cache\<rparr>;
          mvc = mvc_select items;
          mandatory = mvc_tokens mvc
      in if mandatory > mp_absolute_mvc_max_limit profile
         then (let (plan, p) = refuse env elapsed (overflow_refusal request profile est fb mvc mandatory
                     (mp_absolute_mvc_max_limit profile) (missing_part mvc (mp_absolute_mvc_max_limit profile))) p
               in (plan, p, s, t))
         else if sat_add mandatory reserves > mp_hard_limit_tokens profile
         then (let available = sat_sub (mp_hard_limit_tokens profile) reserves;
                   (plan, p) = refuse env elapsed (overflow_refusal request profile est fb mvc (sat_add mandatory reserves)
                     (mp_hard_limit_tokens profile) (missing_part mvc available)) p
               in (plan, p, s, t))
         else reduce_plan env sink summ elapsed request profile est fb mvc items p s t)"

definition plan_with ::
  "plan_env \<Rightarrow> 'c lru_ops \<Rightarrow> 's offload_sink \<Rightarrow> 't summarizer \<Rightarrow> u64 \<Rightarrow> plan_request \<Rightarrow> model_context_profile option
   \<Rightarrow> 'c context_planner \<Rightarrow> 's \<Rightarrow> 't \<Rightarrow> context_plan \<times> 'c context_planner \<times> 's \<times> 't" where
  "plan_with env L sink summ elapsed request override p s t =
     (let p = on_metrics (\<lambda>m. m\<lparr>cm_calls_total := cm_calls_total m + 1\<rparr>) p in
      case select_estimator env p of
        None \<Rightarrow>
          (let (plan, p) = refuse env elapsed
                 \<lparr>ri_request = request, ri_profile = base_profile request override p,
                  ri_tokenizer_version = ''unavailable'', ri_stage = EstimatorUnavailable,
                  ri_required_tokens = 0, ri_available_tokens = 0, ri_missing_part = None,
                  ri_mandatory_parts = [], ri_selected_items = [], ri_fallback_estimator = False,
                  ri_ladder_levels_applied = []\<rparr> p
           in (plan, p, s, t))
      | Some (est, fb) \<Rightarrow>
          (let p = (if fb then on_metrics record_fallback_estimator p else p);
               profile = plan_profile request override fb p
           in case validate profile of
                Inl e \<Rightarrow>
                  (let (plan, p) = refuse env elapsed
                         \<lparr>ri_request = request, ri_profile = profile, ri_tokenizer_version = te_version est,
                          ri_stage = MandatoryOverflow, ri_required_tokens = reserves_total profile,
                          ri_available_tokens = mp_hard_limit_tokens profile,
                          ri_missing_part = Some PartSafetyPolicy, ri_mandatory_parts = [],
                          ri_selected_items = [], ri_fallback_estimator = fb,
                          ri_ladder_levels_applied = []\<rparr> p
                   in (plan, p, s, t))
              | Inr u \<Rightarrow> checked_plan env L sink summ elapsed request profile est fb p s t))"

definition plan ::
  "plan_env \<Rightarrow> 'c lru_ops \<Rightarrow> u64 \<Rightarrow> plan_request \<Rightarrow> 'c context_planner \<Rightarrow> context_plan \<times> 'c context_planner" where
  "plan env L elapsed request p =
     (case plan_with env L no_offload no_summarizer elapsed request None p () () of (pl, p', _) \<Rightarrow> (pl, p'))"

section \<open>Re-plan and usage\<close>

definition replan_refusal :: "plan_request \<Rightarrow> context_plan \<Rightarrow> refusal_input" where
  "replan_refusal request previous =
     \<lparr>ri_request = request, ri_profile = cp_profile previous,
      ri_tokenizer_version = le_tokenizer_version (cp_ledger previous),
      ri_stage = ProviderReplanFailed,
      ri_required_tokens = le_estimated_prompt_tokens (cp_ledger previous),
      ri_available_tokens = mp_hard_limit_tokens (cp_profile previous),
      ri_missing_part = (case le_mandatory_parts (cp_ledger previous) of [] \<Rightarrow> None | part # _ \<Rightarrow> Some (mr_part part)),
      ri_mandatory_parts = le_mandatory_parts (cp_ledger previous),
      ri_selected_items = le_selected_items (cp_ledger previous),
      ri_fallback_estimator = cp_fallback_estimator previous,
      ri_ladder_levels_applied = le_ladder_levels_applied (cp_ledger previous)\<rparr>"

definition escalate :: "plan_env \<Rightarrow> context_plan \<Rightarrow> context_plan" where
  "escalate env pl =
     (let unavailable = map_option (\<lambda>u. u\<lparr>bu_stage := ProviderReplanFailed\<rparr>) (cp_unavailable pl);
          ledger = finalize_hash (pe_ext env) ((cp_ledger pl)\<lparr>le_budget_unavailable := unavailable\<rparr>);
          unavailable = map_option (\<lambda>u. u\<lparr>bu_context_ledger_hash := le_context_ledger_hash ledger\<rparr>) unavailable;
          ledger = ledger\<lparr>le_budget_unavailable := unavailable\<rparr>
      in pl\<lparr>cp_ledger := ledger, cp_unavailable := unavailable\<rparr>)"

definition replan_after_context_length_error ::
  "plan_env \<Rightarrow> 'c lru_ops \<Rightarrow> 's offload_sink \<Rightarrow> 't summarizer \<Rightarrow> u64 \<Rightarrow> plan_request \<Rightarrow> context_plan \<Rightarrow> u32 option
   \<Rightarrow> 'c context_planner \<Rightarrow> 's \<Rightarrow> 't \<Rightarrow> context_plan \<times> 'c context_planner \<times> 's \<times> 't" where
  "replan_after_context_length_error env L sink summ elapsed request previous provider_window p s t =
     (if le_replan_of (cp_ledger previous) \<noteq> None
      then (let p = on_metrics (record_replan ''failed'') p;
                (refusal, p) = refuse env elapsed (replan_refusal request previous) p;
                ledger = finalize_hash (pe_ext env) ((cp_ledger refusal)\<lparr>le_replan_of := Some (le_id (cp_ledger previous))\<rparr>)
            in (refusal\<lparr>cp_ledger := ledger\<rparr>, p, s, t))
      else (let (pl, p, s, t) = plan_with env L sink summ elapsed
                  (request\<lparr>pr_replan_of := Some (le_id (cp_ledger previous))\<rparr>)
                  (Some (replan_profile (cp_profile previous) provider_window)) p s t
            in if is_ready pl then (pl, on_metrics (record_replan ''succeeded'') p, s, t)
               else (escalate env pl, on_metrics (record_replan ''failed'') p, s, t)))"

definition record_actual_usage ::
  "context_plan \<Rightarrow> u32 \<Rightarrow> 'c context_planner \<Rightarrow> estimator_drift \<times> 'c context_planner" where
  "record_actual_usage pl actual p =
     (let d = drift_measure (le_estimated_prompt_tokens (cp_ledger pl)) actual
      in (d, on_metrics (record_estimator_drift d) p))"

section \<open>Shape of the results\<close>

lemma refuse_plan:
  "fst (refuse env elapsed i p) =
     (let u = with_missing_part (ri_missing_part i)
            (budget_unavailable_new (ri_stage i) (ri_required_tokens i) (ri_available_tokens i)
               (mp_profile_version (ri_profile i)) (ri_tokenizer_version i));
          h = compute_hash (pe_ext env) (refusal_ledger env i u)
      in \<lparr>cp_profile = ri_profile i, cp_budget = budget_from_profile (ri_profile i), cp_selected = [],
          cp_dropped = [], cp_reserves = 0,
          cp_ledger = (refusal_ledger env i (with_ledger_hash h u))\<lparr>le_context_ledger_hash := h\<rparr>,
          cp_diagnostics = [], cp_unavailable = Some (with_ledger_hash h u),
          cp_fallback_estimator = ri_fallback_estimator i\<rparr>)"
  by (simp add: refuse_def Let_def finalize_hash_def refusal_ledger_def)

lemma refuse_not_ready: "\<not> is_ready (fst (refuse env elapsed i p))"
  by (simp add: refuse_plan Let_def is_ready_def)

text \<open>A plan is a refusal, possibly annotated with what was assembled, or comes from the last stage
  of an assembly over a valid profile with the mandatory minimum within its limits.\<close>

definition refused :: "plan_env \<Rightarrow> refusal_input \<Rightarrow> context_plan \<Rightarrow> bool" where
  "refused env i pl \<longleftrightarrow>
     (\<exists>elapsed p sel dr di. pl = (fst (refuse env elapsed i (p :: unit context_planner)))
        \<lparr>cp_diagnostics := di, cp_selected := sel, cp_dropped := dr\<rparr>)"

lemma refuse_any_planner: "fst (refuse env elapsed i p) = fst (refuse env elapsed' i q)"
  by (simp add: refuse_plan)

lemma refused_refuse: "refused env i (fst (refuse env elapsed i p))"
  unfolding refused_def
proof (intro exI)
  show "fst (refuse env elapsed i p) = (fst (refuse env elapsed i (undefined :: unit context_planner)))
    \<lparr>cp_diagnostics := [], cp_selected := [], cp_dropped := []\<rparr>"
    by (simp add: refuse_plan Let_def)
qed

lemma refused_annotated:
  "refused env i ((fst (refuse env elapsed i p))\<lparr>cp_diagnostics := di, cp_selected := sel, cp_dropped := dr\<rparr>)"
  unfolding refused_def using refuse_any_planner by metis

lemma finish_plan_cases:
  fixes st :: "('s, 't) ladder_state" and pre_dropped
  defines "ordered \<equiv> assemble (selected_items (ls_selection st))"
    and "dropped \<equiv> pre_dropped @ map (finish_dropped (lo_summaries (ls_outcome st))) (dropped_items (ls_selection st))"
  defines "m \<equiv> sat_sum (map ci_estimated_tokens (filter is_mandatory_kind ordered))"
    and "opt \<equiv> sat_sum (map ci_estimated_tokens (filter (\<lambda>item. \<not> is_mandatory_kind item) ordered))"
  obtains "mp_hard_limit_tokens profile < sat_add (sat_add m opt) (sel_reserves (ls_selection st))"
      "\<exists>i. ri_stage i = DropsExhausted \<and> ri_profile i = profile \<and> ri_request i = request
        \<and> refused env i (fst (finish_plan env elapsed request profile est fb mvc pre_dropped st p))"
  | "sat_add (sat_add m opt) (sel_reserves (ls_selection st)) \<le> mp_hard_limit_tokens profile"
      "fst (finish_plan env elapsed request profile est fb mvc pre_dropped st p) =
        \<lparr>cp_profile = profile, cp_budget = budget_from_profile profile, cp_selected = ordered, cp_dropped = dropped,
         cp_reserves = sel_reserves (ls_selection st),
         cp_ledger = finalize_hash (pe_ext env) (sent_ledger env request profile est fb (mandatory_part_records mvc)
            (ls_outcome st) m opt (sel_reserves (ls_selection st)) ordered dropped),
         cp_diagnostics = lo_diagnostics (ls_outcome st), cp_unavailable = None, cp_fallback_estimator = fb\<rparr>"
proof (cases "mp_hard_limit_tokens profile < sat_add (sat_add m opt) (sel_reserves (ls_selection st))")
  case True
  let ?i = "\<lparr>ri_request = request, ri_profile = profile, ri_tokenizer_version = te_version est,
      ri_stage = DropsExhausted, ri_required_tokens = sat_add (sat_add m opt) (sel_reserves (ls_selection st)),
      ri_available_tokens = mp_hard_limit_tokens profile,
      ri_missing_part = missing_part mvc (mp_hard_limit_tokens profile),
      ri_mandatory_parts = mandatory_part_records mvc,
      ri_selected_items = selected_records ordered, ri_fallback_estimator = fb,
      ri_ladder_levels_applied = lo_levels_applied (ls_outcome st)\<rparr>"
  have "fst (finish_plan env elapsed request profile est fb mvc pre_dropped st p) =
      (fst (refuse env elapsed ?i p))\<lparr>cp_diagnostics := lo_diagnostics (ls_outcome st), cp_selected := ordered, cp_dropped := dropped\<rparr>"
    using True by (simp add: finish_plan_def Let_def case_prod_beta refuse_plan ordered_def dropped_def m_def opt_def)
  then have "refused env ?i (fst (finish_plan env elapsed request profile est fb mvc pre_dropped st p))"
    by (simp only: refused_annotated)
  then show thesis by (intro that(1) [OF True] exI [of _ ?i]) simp
next
  case False
  have "fst (finish_plan env elapsed request profile est fb mvc pre_dropped st p) =
        \<lparr>cp_profile = profile, cp_budget = budget_from_profile profile, cp_selected = ordered, cp_dropped = dropped,
         cp_reserves = sel_reserves (ls_selection st),
         cp_ledger = finalize_hash (pe_ext env) (sent_ledger env request profile est fb (mandatory_part_records mvc)
            (ls_outcome st) m opt (sel_reserves (ls_selection st)) ordered dropped),
         cp_diagnostics = lo_diagnostics (ls_outcome st), cp_unavailable = None, cp_fallback_estimator = fb\<rparr>"
    using False by (simp add: finish_plan_def Let_def ordered_def dropped_def m_def opt_def)
  then show thesis using that(2) False by (simp only: not_less)
qed

lemma on_metrics_simps [simp]:
  "pl_catalog (on_metrics f p) = pl_catalog p" "pl_primary (on_metrics f p) = pl_primary p"
  "pl_fallback_available (on_metrics f p) = pl_fallback_available p" "pl_cache (on_metrics f p) = pl_cache p"
  "select_estimator env (on_metrics f p) = select_estimator env p"
  "base_profile request override (on_metrics f p) = base_profile request override p"
  "plan_profile request override fb (on_metrics f p) = plan_profile request override fb p"
  by (simp_all add: on_metrics_def select_estimator_def base_profile_def plan_profile_def split: option.split)

text \<open>The items of a request after estimation, and the selection before the ladder.\<close>

definition plan_items :: "plan_env \<Rightarrow> 'c lru_ops \<Rightarrow> token_estimator \<Rightarrow> plan_request \<Rightarrow> 'c context_planner \<Rightarrow> context_item list" where
  "plan_items env L est request p = fst (estimate_inputs env L est (pr_inputs request) (pl_cache p))"

definition plan_selection :: "plan_request \<Rightarrow> model_context_profile \<Rightarrow> context_item list \<Rightarrow> selection" where
  "plan_selection request profile items =
     selection_new (filter ci_selected (fst (prune_optional items (pr_now request)))) (reserves_total profile)"

definition plan_pre_dropped :: "plan_request \<Rightarrow> context_item list \<Rightarrow> context_item list" where
  "plan_pre_dropped request items = filter (\<lambda>i. \<not> ci_selected i) (fst (prune_optional items (pr_now request)))"

definition plan_reduced ::
  "'s offload_sink \<Rightarrow> 't summarizer \<Rightarrow> plan_request \<Rightarrow> model_context_profile \<Rightarrow> context_item list \<Rightarrow> 's \<Rightarrow> 't \<Rightarrow> ('s, 't) ladder_state" where
  "plan_reduced sink summ request profile items s t =
     reduce_selection sink summ request profile (mvc_tokens (mvc_select items)) (plan_selection request profile items) s t"

lemma reduce_plan_finish:
  fixes p :: "'c context_planner"
  shows "\<exists>q :: 'c context_planner. fst (reduce_plan env sink summ elapsed request profile est fb (mvc_select items) items p s t)
     = fst (finish_plan env elapsed request profile est fb (mvc_select items) (plan_pre_dropped request items)
         (plan_reduced sink summ request profile items s t) q)
   \<and> snd (snd (reduce_plan env sink summ elapsed request profile est fb (mvc_select items) items p s t))
     = (ls_sink (plan_reduced sink summ request profile items s t), ls_summarizer (plan_reduced sink summ request profile items s t))"
  by (simp add: reduce_plan_def Let_def case_prod_beta plan_pre_dropped_def plan_reduced_def plan_selection_def) (intro exI, rule refl)

lemma plan_with_cases:
  fixes p :: "'c context_planner"
  assumes "plan_with env L sink summ elapsed request override p s t = (pl, p', s', t')"
  obtains (refused) i where "refused env i pl" "ri_request i = request" "ri_stage i \<noteq> ProviderReplanFailed"
  | (assembled) est fb profile st q where
      "select_estimator env p = Some (est, fb)" "profile = plan_profile request override fb p" "validate profile = Inr ()"
      "mvc_tokens (mvc_select (plan_items env L est request p)) \<le> mp_absolute_mvc_max_limit profile"
      "st = plan_reduced sink summ request profile (plan_items env L est request p) s t"
      "pl = fst (finish_plan env elapsed request profile est fb (mvc_select (plan_items env L est request p))
         (plan_pre_dropped request (plan_items env L est request p)) st (q :: 'c context_planner))"
      "s' = ls_sink st" "t' = ls_summarizer st"
proof -
  have ref: thesis if "pl = fst (refuse env elapsed i q)" "ri_request i = request" "ri_stage i \<noteq> ProviderReplanFailed"
    for i and q :: "'c context_planner"
    using refused [of i] refused_refuse [of env i elapsed q] that by simp
  define p1 where "p1 = on_metrics (\<lambda>m. m\<lparr>cm_calls_total := cm_calls_total m + 1\<rparr>) p"
  show thesis
  proof (cases "select_estimator env p")
    case None
    then have "pl = fst (refuse env elapsed
        \<lparr>ri_request = request, ri_profile = base_profile request override p,
         ri_tokenizer_version = ''unavailable'', ri_stage = EstimatorUnavailable,
         ri_required_tokens = 0, ri_available_tokens = 0, ri_missing_part = None,
         ri_mandatory_parts = [], ri_selected_items = [], ri_fallback_estimator = False,
         ri_ladder_levels_applied = []\<rparr> p1)"
      using assms by (simp add: plan_with_def Let_def case_prod_beta p1_def)
    then show thesis by (rule ref) simp_all
  next
    case (Some ef)
    obtain est fb where ef: "ef = (est, fb)" by (cases ef)
    define p2 where "p2 = (if fb then on_metrics record_fallback_estimator p1 else p1)"
    define profile where "profile = plan_profile request override fb p"
    have p2: "plan_profile request override fb p2 = profile" "pl_cache p2 = pl_cache p"
      by (simp_all add: p2_def p1_def profile_def)
    have sel: "select_estimator env p1 = Some (est, fb)" using Some ef by (simp add: p1_def)
    show thesis
    proof (cases "validate profile")
      case (Inl e)
      then have "pl = fst (refuse env elapsed
          \<lparr>ri_request = request, ri_profile = profile, ri_tokenizer_version = te_version est,
           ri_stage = MandatoryOverflow, ri_required_tokens = reserves_total profile,
           ri_available_tokens = mp_hard_limit_tokens profile,
           ri_missing_part = Some PartSafetyPolicy, ri_mandatory_parts = [],
           ri_selected_items = [], ri_fallback_estimator = fb,
           ri_ladder_levels_applied = []\<rparr> p2)"
        using assms sel
        by (simp add: plan_with_def Let_def case_prod_beta p1_def [symmetric] p2_def [symmetric] p2)
      then show thesis by (rule ref) simp_all
    next
      case (Inr u)
      define items where "items = plan_items env L est request p"
      define q where "q = p2\<lparr>pl_cache := snd (estimate_inputs env L est (pr_inputs request) (pl_cache p))\<rparr>"
      have run: "checked_plan env L sink summ elapsed request profile est fb p2 s t = (pl, p', s', t')"
        using assms sel Inr
        by (simp add: plan_with_def Let_def p1_def [symmetric] p2_def [symmetric] p2)
      consider (absolute) "mp_absolute_mvc_max_limit profile < mvc_tokens (mvc_select items)"
        | (hard) "mvc_tokens (mvc_select items) \<le> mp_absolute_mvc_max_limit profile"
            "mp_hard_limit_tokens profile < sat_add (mvc_tokens (mvc_select items)) (reserves_total profile)"
        | (fits) "mvc_tokens (mvc_select items) \<le> mp_absolute_mvc_max_limit profile"
            "\<not> mp_hard_limit_tokens profile < sat_add (mvc_tokens (mvc_select items)) (reserves_total profile)"
        by (meson not_less)
      then show thesis
      proof cases
        case absolute
        then have "pl = fst (refuse env elapsed (overflow_refusal request profile est fb (mvc_select items)
            (mvc_tokens (mvc_select items)) (mp_absolute_mvc_max_limit profile)
            (missing_part (mvc_select items) (mp_absolute_mvc_max_limit profile))) q)"
          using run by (simp add: checked_plan_def Let_def case_prod_beta items_def plan_items_def q_def p2)
        then show thesis by (rule ref) (simp_all add: overflow_refusal_def)
      next
        case hard
        then have "pl = fst (refuse env elapsed (overflow_refusal request profile est fb (mvc_select items)
            (sat_add (mvc_tokens (mvc_select items)) (reserves_total profile)) (mp_hard_limit_tokens profile)
            (missing_part (mvc_select items) (sat_sub (mp_hard_limit_tokens profile) (reserves_total profile)))) q)"
          using run by (simp add: checked_plan_def Let_def case_prod_beta items_def plan_items_def q_def p2 not_less [symmetric])
        then show thesis by (rule ref) (simp_all add: overflow_refusal_def)
      next
        case fits
        then have red: "reduce_plan env sink summ elapsed request profile est fb (mvc_select items) items q s t = (pl, p', s', t')"
          using run by (simp add: checked_plan_def Let_def case_prod_beta items_def plan_items_def q_def p2 not_less [symmetric])
        define st where "st = plan_reduced sink summ request profile items s t"
        obtain q' :: "'c context_planner" where
          "pl = fst (finish_plan env elapsed request profile est fb (mvc_select items) (plan_pre_dropped request items) st q')"
          "s' = ls_sink st" "t' = ls_summarizer st"
          using reduce_plan_finish [of env sink summ elapsed request profile est fb items q s t]
          unfolding red st_def by auto
        then show thesis
          using assembled [of est fb profile st q'] Some Inr fits(1) by (simp add: ef profile_def items_def st_def)
      qed
    qed
  qed
qed

section \<open>Every plan carries a consistent ledger\<close>

lemma hash_input_update [simp]:
  "ledger_hash_input (e\<lparr>le_context_ledger_hash := h\<rparr>) = ledger_hash_input e"
  "ledger_hash_input (e\<lparr>le_replan_of := r\<rparr>) = ledger_hash_input e"
  by (simp_all add: ledger_hash_input_def budget_line_def)

lemma hash_input_with_ledger_hash [simp]:
  "ledger_hash_input (refusal_ledger env i (with_ledger_hash h u)) = ledger_hash_input (refusal_ledger env i u)"
  by (simp add: ledger_hash_input_def budget_line_def refusal_ledger_def with_ledger_hash_def unavailable_line_def)

text \<open>The totals of an entry: those of a sent plan are the saturating sums over the assembled items and
  the reserves still kept, those of a refusal the sum of its mandatory parts, no optional tokens, all
  reserves of the profile and the number of tokens the refusal asks for.\<close>

definition ledger_totals_agree :: "context_plan \<Rightarrow> bool" where
  "ledger_totals_agree pl =
     (let e = cp_ledger pl; tokens = (\<lambda>items. sat_sum (map ci_estimated_tokens items)) in
      le_profile_version e = mp_profile_version (cp_profile pl)
      \<and> le_fallback_estimator e = cp_fallback_estimator pl
      \<and> (case cp_unavailable pl of
           None \<Rightarrow> le_mandatory_tokens e = tokens (filter is_mandatory_kind (cp_selected pl))
             \<and> le_selected_optional_tokens e = tokens (filter (\<lambda>item. \<not> is_mandatory_kind item) (cp_selected pl))
             \<and> le_estimated_prompt_tokens e = tokens (cp_selected pl)
             \<and> le_reserves_tokens e = cp_reserves pl
             \<and> le_dropped_items e = dropped_records (cp_dropped pl)
         | Some u \<Rightarrow> le_mandatory_tokens e = sat_sum (map mr_tokens (le_mandatory_parts e))
             \<and> le_selected_optional_tokens e = 0
             \<and> le_estimated_prompt_tokens e = bu_required_tokens u
             \<and> le_reserves_tokens e = reserves_total (cp_profile pl)
             \<and> le_dropped_items e = []
             \<and> bu_profile_version u = le_profile_version e \<and> bu_tokenizer_version u = le_tokenizer_version e))"

definition ledger_consistent :: "plan_env \<Rightarrow> context_plan \<Rightarrow> bool" where
  "ledger_consistent env pl \<longleftrightarrow>
     le_context_ledger_hash (cp_ledger pl) = compute_hash (pe_ext env) (cp_ledger pl)
     \<and> le_budget_unavailable (cp_ledger pl) = cp_unavailable pl
     \<and> ledger_totals_agree pl
     \<and> (case cp_unavailable pl of
          None \<Rightarrow> le_outcome (cp_ledger pl) = LedgerSent \<and> le_selected_items (cp_ledger pl) = selected_records (cp_selected pl)
        | Some u \<Rightarrow> le_outcome (cp_ledger pl) = LedgerBudgetUnavailable
            \<and> bu_context_ledger_hash u = le_context_ledger_hash (cp_ledger pl) \<and> bu_code u = BUDGET_UNAVAILABLE_CODE)"

lemma refusal_ledger_fields [simp]:
  "le_outcome (refusal_ledger env i u) = LedgerBudgetUnavailable"
  "le_budget_unavailable (refusal_ledger env i u) = Some u"
  "le_replan_of (refusal_ledger env i u) = pr_replan_of (ri_request i)"
  by (simp_all add: refusal_ledger_def)

lemma unavailable_fields [simp]:
  "bu_context_ledger_hash (with_ledger_hash h u) = h" "bu_code (with_ledger_hash h u) = bu_code u"
  "bu_stage (with_ledger_hash h u) = bu_stage u"
  "bu_code (with_missing_part m (budget_unavailable_new st r a v w)) = BUDGET_UNAVAILABLE_CODE"
  "bu_stage (with_missing_part m (budget_unavailable_new st r a v w)) = st"
  by (simp_all add: with_ledger_hash_def with_missing_part_def budget_unavailable_new_def)

lemma refused_totals: "refused env i pl \<Longrightarrow> ledger_totals_agree pl"
  by (auto simp: refused_def refuse_plan Let_def ledger_totals_agree_def refusal_ledger_def
      with_ledger_hash_def with_missing_part_def budget_unavailable_new_def)

lemma refused_consistent: "refused env i pl \<Longrightarrow> ledger_consistent env pl"
  using refused_totals [of env i pl]
  by (auto simp: refused_def refuse_plan Let_def ledger_consistent_def compute_hash_def)

lemma sent_ledger_fields [simp]:
  "le_outcome (sent_ledger env request profile est fb parts outc m opt r ordered dropped) = LedgerSent"
  "le_budget_unavailable (sent_ledger env request profile est fb parts outc m opt r ordered dropped) = None"
  "le_selected_items (sent_ledger env request profile est fb parts outc m opt r ordered dropped) = selected_records ordered"
  "le_replan_of (sent_ledger env request profile est fb parts outc m opt r ordered dropped) = pr_replan_of request"
  "le_compression (sent_ledger env request profile est fb parts outc m opt r ordered dropped)
     = map (compression_of dropped) (lo_summaries outc)"
  by (simp_all add: sent_ledger_def)

lemma sat_sum_partition:
  "sat_add (sat_sum (map f (filter P xs))) (sat_sum (map f (filter (\<lambda>x. \<not> P x) xs))) = sat_sum (map f xs)"
  for f :: "'a \<Rightarrow> 'b::len word"
proof -
  have "sat_sum (map f xs) = sat_sum (map f (filter P xs) @ map f (filter (\<lambda>x. \<not> P x) xs))"
    by (rule sat_sum_perm) (induction xs, auto)
  then show ?thesis by (simp add: sat_sum_append)
qed

lemma sent_totals:
  "ledger_totals_agree \<lparr>cp_profile = profile, cp_budget = b, cp_selected = ordered, cp_dropped = dropped, cp_reserves = r,
     cp_ledger = finalize_hash ext (sent_ledger env request profile est fb parts outc
        (sat_sum (map ci_estimated_tokens (filter is_mandatory_kind ordered)))
        (sat_sum (map ci_estimated_tokens (filter (\<lambda>item. \<not> is_mandatory_kind item) ordered))) r ordered dropped),
     cp_diagnostics = d, cp_unavailable = None, cp_fallback_estimator = fb\<rparr>"
  by (simp add: ledger_totals_agree_def finalize_hash_def sent_ledger_def sat_sum_partition)

lemma finish_plan_consistent:
  "ledger_consistent env (fst (finish_plan env elapsed request profile est fb mvc pre_dropped st p))"
proof (rule finish_plan_cases [of profile st request env elapsed est fb mvc pre_dropped p])
  assume "\<exists>i. ri_stage i = DropsExhausted \<and> ri_profile i = profile \<and> ri_request i = request
    \<and> refused env i (fst (finish_plan env elapsed request profile est fb mvc pre_dropped st p))"
  then show ?thesis using refused_consistent by blast
qed (simp add: ledger_consistent_def sent_totals, simp add: finalize_hash_def compute_hash_def)

text \<open>C3: Every plan, sent or refused, carries a ledger entry whose hash is the digest of that very
  entry. A sent plan's entry lists exactly the assembled items and the items dropped with a reason, and
  its mandatory, optional and prompt totals are the saturating sums over the assembled items, its
  reserves those of the plan. A refusal's entry and refusal value name the same hash, number of required
  tokens and versions; the entry's mandatory total is the sum of its parts, its optional total is zero
  and its reserves are all those of the profile.\<close>

theorem plan_ledger_consistent:
  "ledger_consistent env (fst (plan_with env L sink summ elapsed request override p s t))"
proof -
  obtain pl p' s' t' where run: "plan_with env L sink summ elapsed request override p s t = (pl, p', s', t')"
    by (metis prod_cases4)
  then show ?thesis
    by (cases rule: plan_with_cases) (auto simp: run intro: refused_consistent finish_plan_consistent)
qed

section \<open>A plan that is ready fits the hard limit\<close>

text \<open>A saturating total within a limit is within it as a number, except at the greatest word, where the
  comparison holds whatever is added.\<close>

lemma sat_total_le:
  fixes limit :: "'a::len word"
  assumes "sat_add (sat_sum xs) r \<le> limit"
  shows "sum_list (map unat xs) + unat r \<le> unat limit \<or> unat limit = 2 ^ LENGTH('a) - 1"
  using assms unat_le_max [of limit]
  by (auto simp: word_le_nat_alt unat_sat_add unat_sat_sum min_def split: if_splits)

text \<open>The reserves of a valid profile are far from saturation: with the target they are within the soft
  limit, which is below the hard one.\<close>

lemma valid_reserves_below_max: "validate profile = Inr () \<Longrightarrow> unat (reserves_total profile) < 2 ^ 32 - 1"
  using u32_le_max [of "mp_hard_limit_tokens profile"] by (simp add: validate_iff profile_ok_def)

lemma reduce_selection_reserves:
  "unat (protected_reserve profile) \<le> unat (sel_reserves sel) \<Longrightarrow>
   unat (protected_reserve profile) \<le> unat (sel_reserves (ls_selection (reduce_selection sink summ request profile m sel s t)))
   \<and> unat (sel_reserves (ls_selection (reduce_selection sink summ request profile m sel s t))) \<le> unat (sel_reserves sel)"
proof (cases "pr_force_reduction request \<or> \<not> within_soft_limit (budget_from_profile profile) (context_tokens sel)")
  case True
  assume "unat (protected_reserve profile) \<le> unat (sel_reserves sel)"
  then show ?thesis
    using True run_ladder_reserves [of "plan_ladder_context request profile m" sink summ sel s t]
    by (simp add: reduce_selection_def plan_ladder_context_def)
qed (simp add: reduce_selection_def)

lemma unat_sat_add_lower: "unat b \<le> unat (sat_add a b)" "unat a \<le> unat (sat_add a b)"
  for a b :: "'a::len word"
  using unat_le_max [of a] unat_le_max [of b] by (simp_all add: unat_sat_add)

lemma protected_le_reserves: "unat (protected_reserve profile) \<le> unat (reserves_total profile)"
  by (auto simp: protected_reserve_def unat_sat_add unat_reserves_total reserves_nat_def intro!: min.mono)

text \<open>C1: A plan that is ready has a valid profile and keeps to its hard limit: the token estimates of all
  assembled items plus the reserves still kept, added as numbers, are at most the hard limit, unless that
  limit is \<open>u32::MAX\<close>, where the saturating total always passes. In every case the reserves for a tool call
  and the final answer are still there in full, and no more reserves than the profile has.\<close>

theorem ready_plan_within_hard_limit:
  assumes run: "plan_with env L sink summ elapsed request override p s t = (pl, p', s', t')"
    and ready: "is_ready pl"
  shows "((\<Sum>item\<leftarrow>cp_selected pl. unat (ci_estimated_tokens item)) + unat (cp_reserves pl)
        \<le> unat (mp_hard_limit_tokens (cp_profile pl))
      \<or> unat (mp_hard_limit_tokens (cp_profile pl)) = 2 ^ 32 - 1)
    \<and> unat (mp_tool_call_reserve (cp_profile pl)) + unat (mp_final_answer_reserve (cp_profile pl)) \<le> unat (cp_reserves pl)
    \<and> unat (cp_reserves pl) \<le> reserves_nat (cp_profile pl)
    \<and> validate (cp_profile pl) = Inr ()"
  using run
proof (cases rule: plan_with_cases)
  case (refused i)
  then show ?thesis using ready by (auto simp: refused_def refuse_plan Let_def is_ready_def)
next
  case (assembled est fb profile st q)
  let ?mvc = "mvc_select (plan_items env L est request p)" and ?pre = "plan_pre_dropped request (plan_items env L est request p)"
  show ?thesis
  proof (rule finish_plan_cases [of profile st request env elapsed est fb ?mvc ?pre q])
    assume "\<exists>i. ri_stage i = DropsExhausted \<and> ri_profile i = profile \<and> ri_request i = request
      \<and> refused env i (fst (finish_plan env elapsed request profile est fb ?mvc ?pre st q))"
    then show ?thesis using ready assembled(6) by (auto simp: refused_def refuse_plan Let_def is_ready_def)
  next
    let ?o = "assemble (selected_items (ls_selection st))"
    assume le: "sat_add (sat_add (sat_sum (map ci_estimated_tokens (filter is_mandatory_kind ?o)))
          (sat_sum (map ci_estimated_tokens (filter (\<lambda>item. \<not> is_mandatory_kind item) ?o))))
        (sel_reserves (ls_selection st)) \<le> mp_hard_limit_tokens profile"
      and pl: "fst (finish_plan env elapsed request profile est fb ?mvc ?pre st q) =
        \<lparr>cp_profile = profile, cp_budget = budget_from_profile profile, cp_selected = ?o,
         cp_dropped = ?pre @ map (finish_dropped (lo_summaries (ls_outcome st))) (dropped_items (ls_selection st)),
         cp_reserves = sel_reserves (ls_selection st),
         cp_ledger = finalize_hash (pe_ext env) (sent_ledger env request profile est fb (mandatory_part_records ?mvc)
            (ls_outcome st) (sat_sum (map ci_estimated_tokens (filter is_mandatory_kind ?o)))
            (sat_sum (map ci_estimated_tokens (filter (\<lambda>item. \<not> is_mandatory_kind item) ?o)))
            (sel_reserves (ls_selection st)) ?o
            (?pre @ map (finish_dropped (lo_summaries (ls_outcome st))) (dropped_items (ls_selection st)))),
         cp_diagnostics = lo_diagnostics (ls_outcome st), cp_unavailable = None, cp_fallback_estimator = fb\<rparr>"
    have f: "cp_profile pl = profile" "cp_selected pl = ?o" "cp_reserves pl = sel_reserves (ls_selection st)"
      unfolding assembled(6) pl by simp_all
    have total: "(\<Sum>item\<leftarrow>?o. unat (ci_estimated_tokens item)) + unat (sel_reserves (ls_selection st))
        \<le> unat (mp_hard_limit_tokens profile) \<or> unat (mp_hard_limit_tokens profile) = 2 ^ 32 - 1"
      using sat_total_le [of "map ci_estimated_tokens ?o"] le unfolding sat_sum_partition by (simp add: comp_def)
    have kept: "unat (protected_reserve profile) \<le> unat (sel_reserves (ls_selection st))
        \<and> unat (sel_reserves (ls_selection st)) \<le> unat (reserves_total profile)"
      using reduce_selection_reserves [of profile "plan_selection request profile (plan_items env L est request p)"]
      unfolding assembled(5) plan_reduced_def
      by (simp add: protected_le_reserves plan_selection_def selection_new_def)
    then have "unat (mp_tool_call_reserve profile) + unat (mp_final_answer_reserve profile)
        \<le> unat (sel_reserves (ls_selection st))"
      using valid_reserves_below_max [OF assembled(3)]
      by (auto simp: protected_reserve_def unat_sat_add min_def split: if_splits)
    moreover have "unat (sel_reserves (ls_selection st)) \<le> reserves_nat profile"
      using kept by (simp add: unat_reserves_total)
    ultimately show ?thesis unfolding f using total assembled(3) by blast
  qed
qed

text \<open>At \<open>u32::MAX\<close> the last check of the budget does not refuse anything, however large the context.\<close>

lemma max_limit_never_refused:
  assumes "unat (mp_hard_limit_tokens profile) = 2 ^ 32 - 1"
  shows "is_ready (fst (finish_plan env elapsed request profile est fb mvc pre_dropped st p))"
proof -
  have top: "x \<le> mp_hard_limit_tokens profile" for x
    using u32_le_max [of x] assms by (simp add: word_le_nat_alt)
  show ?thesis
  proof (rule finish_plan_cases [of profile st request env elapsed est fb mvc pre_dropped p])
  qed (use top in \<open>auto simp: is_ready_def leD\<close>)
qed

section \<open>Mandatory items reach the model unchanged\<close>

lemma estimate_input_item:
  "ci_selected (fst (estimate_input env L est input cache))" "ci_drop_reason (fst (estimate_input env L est input cache)) = None"
  "ci_id (fst (estimate_input env L est input cache)) = ci_id (pi_item input)"
  "is_mandatory_kind (fst (estimate_input env L est input cache)) = is_mandatory_kind (pi_item input)"
  by (simp_all add: estimate_input_def Let_def case_prod_beta is_mandatory_kind_def)

lemma estimate_inputs_items:
  "(\<forall>i\<in>set (fst (estimate_inputs env L est inputs cache)). ci_selected i \<and> ci_drop_reason i = None)
   \<and> map ci_id (fst (estimate_inputs env L est inputs cache)) = map (\<lambda>i. ci_id (pi_item i)) inputs
   \<and> map is_mandatory_kind (fst (estimate_inputs env L est inputs cache)) = map (\<lambda>i. is_mandatory_kind (pi_item i)) inputs"
  by (induction inputs arbitrary: cache) (auto simp: Let_def case_prod_beta estimate_input_item)

lemma plan_items_fresh: "i \<in> set (plan_items env L est request p) \<Longrightarrow> ci_selected i \<and> ci_drop_reason i = None"
  using estimate_inputs_items [of env L est "pr_inputs request" "pl_cache p"] by (auto simp: plan_items_def)

text \<open>What pruning leaves of one item.\<close>

definition pruned_item :: "i64 \<Rightarrow> context_item list \<Rightarrow> context_item \<Rightarrow> context_item" where
  "pruned_item now items i =
     (let k = i\<lparr>ci_selected := \<not> is_mandatory_kind i\<rparr>;
          g = (case prune_reason now (map (\<lambda>i. i\<lparr>ci_selected := \<not> is_mandatory_kind i\<rparr>) items) k of
                 None \<Rightarrow> k | Some r \<Rightarrow> drop_as r k)
      in if is_mandatory_kind g then g\<lparr>ci_selected := True\<rparr> else g)"

lemma prune_optional_map: "fst (prune_optional items now) = map (pruned_item now items) items"
  by (simp add: prune_optional_def Let_def case_prod_beta prune_map pruned_item_def)

lemma pruned_item_mandatory:
  assumes "is_mandatory_kind i" "ci_selected i" "ci_drop_reason i = None"
  shows "ci_selected (pruned_item now items i)" "is_mandatory_kind (pruned_item now items i)"
    "(pruned_item now items i)\<lparr>ci_selected := True, ci_drop_reason := None\<rparr> = i"
  using assms by (auto simp: pruned_item_def Let_def drop_as_def split: option.split)

lemma pruned_item_kept:
  "ci_id (pruned_item now items i) = ci_id i" "is_mandatory_kind (pruned_item now items i) = is_mandatory_kind i"
  by (auto simp: pruned_item_def Let_def drop_as_def split: option.split)

lemma plan_selection_mandatory:
  assumes "\<forall>i\<in>set items. ci_selected i \<and> ci_drop_reason i = None"
  shows "filter is_mandatory_kind (sel_items (plan_selection request profile items)) = filter is_mandatory_kind items"
proof -
  let ?reset = "\<lambda>i. i\<lparr>ci_selected := True, ci_drop_reason := None\<rparr>" and ?g = "pruned_item (pr_now request) items"
  have "filter is_mandatory_kind (map ?reset (filter ci_selected (map ?g xs))) = filter is_mandatory_kind xs"
    if "\<forall>i\<in>set xs. ci_selected i \<and> ci_drop_reason i = None" for xs
    using that
  proof (induction xs)
    case (Cons x xs)
    from Cons.prems have "\<forall>i\<in>set xs. ci_selected i \<and> ci_drop_reason i = None" by auto
    then have IH: "filter is_mandatory_kind (map ?reset (filter ci_selected (map ?g xs))) = filter is_mandatory_kind xs"
      by (rule Cons.IH)
    have mand: "is_mandatory_kind (?reset (?g x)) = is_mandatory_kind x" by (simp add: pruned_item_kept)
    show ?case
    proof (cases "is_mandatory_kind x")
      case True
      have "ci_selected (?g x)" "?reset (?g x) = x" using pruned_item_mandatory [OF True] Cons.prems by simp_all
      then show ?thesis by (simp only: list.map filter.simps if_True True IH)
    next
      case False
      then show ?thesis by (cases "ci_selected (?g x)") (simp_all only: list.map filter.simps if_True if_False mand IH)
    qed
  qed simp
  then show ?thesis
    using assms by (simp add: plan_selection_def selection_new_def prune_optional_map)
qed

lemma plan_selection_ids:
  "distinct (map ci_id items) \<Longrightarrow> distinct_ids (plan_selection request profile items)"
  by (simp add: plan_selection_def selection_new_def prune_optional_map comp_def filter_map distinct_map inj_on_def pruned_item_kept)

lemma reduce_selection_mandatory:
  assumes "summarizer_sources summ" "distinct_ids sel"
  shows "filter is_mandatory_kind (sel_items (ls_selection (reduce_selection sink summ request profile m sel s t)))
    = filter is_mandatory_kind (sel_items sel)"
  using run_ladder_mandatory [OF assms, of "plan_ladder_context request profile m" sink s t] by (simp add: reduce_selection_def)

lemma assemble_mandatory:
  "filter is_mandatory_kind (assemble xs) = sort_key mandatory_key (filter is_mandatory_kind xs)"
  by (simp add: assemble_def order_items_def filter_sort)

text \<open>C2: For inputs with distinct ids and a summarizer whose sources are items it was given, a plan
  that is ready begins with exactly the mandatory items of the request, with the estimates made for
  them, in the fixed order of parts, creation time and id: no pruning and no reduction touches them,
  and the optional items follow.\<close>

theorem ready_plan_keeps_mandatory:
  assumes run: "plan_with env L sink summ elapsed request override p s t = (pl, p', s', t')"
    and ready: "is_ready pl" and src: "summarizer_sources summ"
    and d: "distinct (map (\<lambda>i. ci_id (pi_item i)) (pr_inputs request))"
  shows "\<exists>est fb optional. select_estimator env p = Some (est, fb)
    \<and> cp_selected pl = mvc_items (mvc_select (plan_items env L est request p)) @ optional
    \<and> (\<forall>i\<in>set optional. \<not> is_mandatory_kind i)"
  using run
proof (cases rule: plan_with_cases)
  case (refused i)
  then show ?thesis using ready by (auto simp: refused_def refuse_plan Let_def is_ready_def)
next
  case (assembled est fb profile st q)
  let ?items = "plan_items env L est request p"
  have ids: "distinct (map ci_id ?items)"
    using estimate_inputs_items [of env L est "pr_inputs request" "pl_cache p"] d by (simp add: plan_items_def)
  have fresh: "\<forall>i\<in>set ?items. ci_selected i \<and> ci_drop_reason i = None" by (blast dest: plan_items_fresh)
  have all: "filter is_mandatory_kind (sel_items (ls_selection st)) = filter is_mandatory_kind ?items"
    unfolding assembled(5) plan_reduced_def
    by (simp only: reduce_selection_mandatory [OF src plan_selection_ids [OF ids]] plan_selection_mandatory [OF fresh])
  have "filter is_mandatory_kind (selected_items (ls_selection st))
      = filter ci_selected (filter is_mandatory_kind (sel_items (ls_selection st)))"
    by (simp add: selected_items_def conj_commute)
  also have "\<dots> = filter is_mandatory_kind ?items" unfolding all by (subst filter_id_conv) (auto simp: fresh)
  finally have sel: "filter is_mandatory_kind (selected_items (ls_selection st)) = filter is_mandatory_kind ?items" .
  have pl: "cp_selected pl = assemble (selected_items (ls_selection st))"
    using ready unfolding assembled(6)
    by (rule_tac finish_plan_cases [of profile st request env elapsed est fb "mvc_select ?items" "plan_pre_dropped request ?items" q])
      (auto simp: refused_def refuse_plan Let_def is_ready_def)
  let ?opt = "order_items (filter (\<lambda>item. \<not> is_mandatory_kind item) (selected_items (ls_selection st)))"
  have "cp_selected pl = mvc_items (mvc_select ?items) @ ?opt"
    by (simp only: pl assemble_def sel mvc_items_sorted)
  moreover have "\<forall>i\<in>set ?opt. \<not> is_mandatory_kind i" by (simp add: order_items_def)
  ultimately show ?thesis using assembled(1) by blast
qed

text \<open>A small request for the witnesses.\<close>

definition sample_env :: plan_env where
  "sample_env = \<lparr>pe_ext = plain_ext, pe_profile_json = (\<lambda>_. ''{}'')\<rparr>"

definition sample_input :: "string \<Rightarrow> item_kind \<Rightarrow> string \<Rightarrow> plan_input" where
  "sample_input id' kind text = \<lparr>pi_item = builder_new id' kind [], pi_content = OwnedText text\<rparr>"

definition sample_request :: "plan_input list \<Rightarrow> plan_request" where
  "sample_request inputs =
     \<lparr>pr_task_id = ''t'', pr_session_id = ''s'', pr_model_call_id = ''1'', pr_provider = ''p'', pr_model = ''m'',
      pr_provider_window = None, pr_now = 1000, pr_inputs = inputs, pr_loadout = None, pr_replan_of = None,
      pr_force_reduction = False\<rparr>"

definition sample_inputs :: "plan_input list" where
  "sample_inputs = [sample_input ''h'' History ''hello'', sample_input ''p'' UserPrompt ''prompt'',
     sample_input ''s'' SafetyPolicy ''policy'']"

definition sample_planner :: "lru_list context_planner" where
  "sample_planner = planner_new lru_list_ops catalog_default (Some (heuristic_estimator plain_ext (heuristic_default_for ''m'')))"

definition sample_plan :: "context_plan \<times> lru_list context_planner \<times> unit \<times> unit" where
  "sample_plan = plan_with sample_env lru_list_ops no_offload no_summarizer 5 (sample_request sample_inputs)
     (Some sample_profile) sample_planner () ()"

definition plan_view :: "context_plan \<times> 'x \<Rightarrow> bool \<times> string list \<times> u32" where
  "plan_view r = (is_ready (fst r), map ci_id (cp_selected (fst r)), mp_hard_limit_tokens (cp_profile (fst r)))"

lemma sample_plan_view: "plan_view sample_plan = (True, [''s'', ''p'', ''h''], 3000)"
  by code_simp

lemma sample_plan_ready:
  "is_ready (fst sample_plan)" "map ci_id (cp_selected (fst sample_plan)) = [''s'', ''p'', ''h'']"
  "mp_hard_limit_tokens (cp_profile (fst sample_plan)) = 3000"
  using sample_plan_view by (simp_all add: plan_view_def)

lemma sample_plan_run:
  "plan_with sample_env lru_list_ops no_offload no_summarizer 5 (sample_request sample_inputs)
     (Some sample_profile) sample_planner () () = (fst sample_plan, fst (snd sample_plan), (), ())"
  by (simp add: sample_plan_def prod_eq_iff)

theorem ready_plan_within_hard_limit_witness:
  "(\<Sum>item\<leftarrow>cp_selected (fst sample_plan). unat (ci_estimated_tokens item)) + unat (cp_reserves (fst sample_plan))
     \<le> 3000"
  using ready_plan_within_hard_limit [OF sample_plan_run sample_plan_ready(1)] by (simp add: sample_plan_ready(3))

theorem ready_plan_keeps_mandatory_witness:
  "\<exists>optional. cp_selected (fst sample_plan) = mvc_items (mvc_select (plan_items sample_env lru_list_ops
       (heuristic_estimator plain_ext (heuristic_default_for ''m'')) (sample_request sample_inputs) sample_planner)) @ optional"
proof -
  have "distinct (map (\<lambda>i. ci_id (pi_item i)) (pr_inputs (sample_request sample_inputs)))" by code_simp
  moreover have "select_estimator sample_env sample_planner
      = Some (heuristic_estimator plain_ext (heuristic_default_for ''m''), False)"
    by (simp add: select_estimator_def sample_planner_def planner_new_def)
  ultimately show ?thesis
    using ready_plan_keeps_mandatory [OF sample_plan_run sample_plan_ready(1) no_summary.summarizer_sources_axioms] by auto
qed

end
