(* ===== verification/Context_Replan.thy ===== *)
theory Context_Replan
  imports Context_Planner
begin

text \<open>
  Properties of the re-plan after a context-length error and of what a plan says about its inputs, over the
  definitions of \<open>Context_Planner\<close>.
\<close>

section \<open>A re-plan happens at most once\<close>

lemma plan_with_replan_of:
  assumes "plan_with env L sink summ elapsed request override p s t = (pl, p', s', t')"
  shows "le_replan_of (cp_ledger pl) = pr_replan_of request"
proof -
  have ref: "le_replan_of (cp_ledger q) = pr_replan_of request" if "refused env i q" "ri_request i = request" for i q
    using that by (auto simp: refused_def refuse_plan Let_def)
  from assms show ?thesis
  proof (cases rule: plan_with_cases)
    case (assembled est fb profile st q)
    show ?thesis
      by (rule finish_plan_cases [of profile st request env elapsed est fb
            "mvc_select (plan_items env L est request p)" "plan_pre_dropped request (plan_items env L est request p)" q])
        (auto simp: assembled(6) finalize_hash_def dest: ref)
  qed (rule ref)
qed

lemma plan_with_consistent:
  assumes "plan_with env L sink summ elapsed request override p s t = (pl, p', s', t')"
  shows "ledger_consistent env pl"
  using assms by (cases rule: plan_with_cases) (auto intro: refused_consistent finish_plan_consistent)

lemma hash_input_unavailable_hash [simp]:
  "ledger_hash_input (e\<lparr>le_context_ledger_hash := h', le_budget_unavailable := Some (u\<lparr>bu_context_ledger_hash := h\<rparr>)\<rparr>)
     = ledger_hash_input (e\<lparr>le_budget_unavailable := Some u\<rparr>)"
  by (simp add: ledger_hash_input_def budget_line_def unavailable_line_def)

lemma escalate_consistent:
  assumes "ledger_consistent env pl" "\<not> is_ready pl"
  shows "ledger_consistent env (escalate env pl) \<and> le_replan_of (cp_ledger (escalate env pl)) = le_replan_of (cp_ledger pl)
    \<and> (\<exists>u. cp_unavailable (escalate env pl) = Some u \<and> bu_stage u = ProviderReplanFailed)"
proof -
  obtain u where u: "cp_unavailable pl = Some u" using assms(2) by (auto simp: is_ready_def)
  with assms(1) show ?thesis
    by (simp add: escalate_def Let_def finalize_hash_def ledger_consistent_def ledger_totals_agree_def compute_hash_def)
qed

lemma replan_of_totals:
  "ledger_totals_agree pl \<Longrightarrow>
   ledger_totals_agree (pl\<lparr>cp_ledger := finalize_hash ext ((cp_ledger pl)\<lparr>le_replan_of := r\<rparr>)\<rparr>)"
  by (simp add: ledger_totals_agree_def finalize_hash_def Let_def split: option.splits)

lemma replan_refusal_result:
  assumes "le_replan_of (cp_ledger previous) \<noteq> None"
    and "replan_after_context_length_error env L sink summ elapsed request previous window p s t = (pl, p', s', t')"
  shows "ledger_consistent env pl \<and> le_replan_of (cp_ledger pl) = Some (le_id (cp_ledger previous)) \<and> s' = s \<and> t' = t
    \<and> (\<exists>u. cp_unavailable pl = Some u \<and> bu_stage u = ProviderReplanFailed)"
proof -
  let ?refusal = "fst (refuse env elapsed (replan_refusal request previous) (on_metrics (record_replan ''failed'') p))"
  have pl: "pl = ?refusal\<lparr>cp_ledger := finalize_hash (pe_ext env)
      ((cp_ledger ?refusal)\<lparr>le_replan_of := Some (le_id (cp_ledger previous))\<rparr>)\<rparr>" "s' = s" "t' = t"
    using assms by (auto simp: replan_after_context_length_error_def Let_def case_prod_beta)
  have stage: "ri_stage (replan_refusal request previous) = ProviderReplanFailed" by (simp add: replan_refusal_def)
  have "ledger_totals_agree pl"
    unfolding pl by (rule replan_of_totals) (rule refused_totals [OF refused_refuse])
  then show ?thesis
    by (simp add: ledger_consistent_def) (simp add: pl refuse_plan Let_def finalize_hash_def compute_hash_def stage)
qed

lemma replan_once:
  assumes "replan_after_context_length_error env L sink summ elapsed request previous window p s t = (pl, p', s', t')"
  shows "le_replan_of (cp_ledger pl) = Some (le_id (cp_ledger previous))
    \<and> ledger_consistent env pl
    \<and> (is_ready pl \<or> (\<exists>u. cp_unavailable pl = Some u \<and> bu_stage u = ProviderReplanFailed))
    \<and> (case replan_after_context_length_error env L sink summ elapsed' request' pl window' p' s' t' of
         (again, p'', s'', t'') \<Rightarrow> s'' = s' \<and> t'' = t'
           \<and> (\<exists>u. cp_unavailable again = Some u \<and> bu_stage u = ProviderReplanFailed))"
proof -
  have first: "le_replan_of (cp_ledger pl) = Some (le_id (cp_ledger previous)) \<and> ledger_consistent env pl
    \<and> (is_ready pl \<or> (\<exists>u. cp_unavailable pl = Some u \<and> bu_stage u = ProviderReplanFailed))"
  proof (cases "le_replan_of (cp_ledger previous) = None")
    case True
    let ?request = "request\<lparr>pr_replan_of := Some (le_id (cp_ledger previous))\<rparr>"
    obtain q p1 s1 t1 where run: "plan_with env L sink summ elapsed ?request
        (Some (replan_profile (cp_profile previous) window)) p s t = (q, p1, s1, t1)"
      by (metis prod_cases4)
    have pl: "pl = (if is_ready q then q else escalate env q)"
      using assms True by (auto simp: replan_after_context_length_error_def run split: if_splits)
    have "le_replan_of (cp_ledger q) = Some (le_id (cp_ledger previous))"
      using plan_with_replan_of [OF run] by simp
    then show ?thesis
      using plan_with_consistent [OF run] escalate_consistent [of env q] by (simp add: pl)
  next
    case False
    from replan_refusal_result [OF this assms] show ?thesis by blast
  qed
  obtain again p'' s'' t'' where run:
    "replan_after_context_length_error env L sink summ elapsed' request' pl window' p' s' t' = (again, p'', s'', t'')"
    by (metis prod_cases4)
  from first replan_refusal_result [OF _ run] show ?thesis by (simp add: run)
qed

text \<open>C5: A re-plan happens at most once. Whatever \<open>replan_after_context_length_error\<close> returns names the plan it
  replaces and carries a consistent ledger entry; if it is a refusal, its stage is the failed re-plan. A
  second call, on that result, always refuses with that stage and calls neither store nor summarizer.\<close>

theorem replan_at_most_once:
  "case replan_after_context_length_error env L sink summ elapsed request previous window p s t of (pl, p', s', t') \<Rightarrow>
     le_replan_of (cp_ledger pl) = Some (le_id (cp_ledger previous))
     \<and> ledger_consistent env pl
     \<and> (is_ready pl \<or> (\<exists>u. cp_unavailable pl = Some u \<and> bu_stage u = ProviderReplanFailed))
     \<and> (case replan_after_context_length_error env L sink summ elapsed' request' pl window' p' s' t' of
          (again, p'', s'', t'') \<Rightarrow> s'' = s' \<and> t'' = t'
            \<and> (\<exists>u. cp_unavailable again = Some u \<and> bu_stage u = ProviderReplanFailed))"
proof (cases "replan_after_context_length_error env L sink summ elapsed request previous window p s t")
  case (fields pl p' s' t')
  from replan_once [OF this] show ?thesis by (simp add: fields)
qed

section \<open>A plan accounts for every input\<close>

lemma drop_item_ids: "map ci_id (sel_items (drop_item id' reason sel)) = map ci_id (sel_items sel)"
  by (simp add: drop_item_def update_first_map)

lemma drop_loop_ids: "map ci_id (sel_items (drop_loop ctx reason ids sel)) = map ci_id (sel_items sel)"
  by (induction ids arbitrary: sel) (simp_all add: drop_item_ids)

lemma l1_loop_ids: "map ci_id (sel_items (l1_loop ctx dups newest ids sel)) = map ci_id (sel_items sel)"
  by (induction ids arbitrary: sel) (auto simp: drop_item_ids split: option.split)

lemma l4_loop_ids:
  "l4_loop ctx sink ids (sel, s, outcome) = (sel', s', outcome') \<Longrightarrow>
   map ci_id (sel_items sel') = map ci_id (sel_items sel) \<and> lo_summaries outcome' = lo_summaries outcome"
proof (induction ids arbitrary: sel s outcome)
  case (Cons id' ids)
  have upd: "map ci_id (update_first p (offload_slot r) items) = map ci_id items" for p r items
    by (rule update_first_map) (simp add: offload_slot_def)
  from Cons show ?case
    by (fastforce simp: upd push_diagnostic_def split: if_splits option.splits prod.splits sum.splits)
qed simp

lemma fold_deselect_ids: "map ci_id (fold deselect_source ids items) = map ci_id items"
  by (induction ids arbitrary: items) (simp_all add: deselect_source_def update_first_map)

lemma apply_l5_ids:
  assumes "map ci_id (sel_items sel) = base @ map so_summary_id (lo_summaries outcome)"
    and "apply_l5 summ (sel, t, outcome) = (sel', t', outcome')"
  shows "map ci_id (sel_items sel') = base @ map so_summary_id (lo_summaries outcome')"
proof -
  have found: "\<exists>template. List.find (\<lambda>item. ci_id item \<in> set (so_source_ids summary)) candidates = Some template"
    if "so_summary_tokens summary < sat_sum (map ci_estimated_tokens (l5_replaced candidates summary))" for summary candidates
  proof (cases "List.find (\<lambda>item. ci_id item \<in> set (so_source_ids summary)) candidates")
    case None
    then have "l5_replaced candidates summary = []" by (auto simp: l5_replaced_def filter_empty_conv find_None_iff)
    with that show ?thesis by simp
  qed simp
  show ?thesis
    using assms
    by (auto simp: apply_l5_def Let_def push_diagnostic_def l5_items_def fold_deselect_ids summary_item_def not_le
        split: if_splits prod.splits sum.splits dest!: found)
qed

lemma apply_level_ids:
  assumes "map ci_id (sel_items (ls_selection st)) = base @ map so_summary_id (lo_summaries (ls_outcome st))"
  shows "map ci_id (sel_items (ls_selection (apply_level ctx sink summ level st)))
    = base @ map so_summary_id (lo_summaries (ls_outcome (apply_level ctx sink summ level st)))"
proof (cases level)
  case OffloadLargeItems
  with assms show ?thesis
    by (auto simp: apply_l4_def push_diagnostic_def split: prod.split dest!: l4_loop_ids)
next
  case CompressHistory
  with assms show ?thesis by (auto split: prod.split dest: apply_l5_ids)
next
  case ReleaseOptionalReserves
  with assms show ?thesis by (auto simp: apply_l6_def Let_def split: prod.split if_split)
qed (use assms in \<open>simp_all add: apply_l1_def apply_l2_def apply_l3_def Let_def l1_loop_ids drop_loop_ids\<close>)

lemma ladder_loop_ids:
  "map ci_id (sel_items (ls_selection st)) = base @ map so_summary_id (lo_summaries (ls_outcome st)) \<Longrightarrow>
   map ci_id (sel_items (ls_selection (ladder_loop ctx sink summ levels st)))
     = base @ map so_summary_id (lo_summaries (ls_outcome (ladder_loop ctx sink summ levels st)))"
proof (induction levels arbitrary: st)
  case (Cons level levels)
  have "map ci_id (sel_items (ls_selection (ladder_step ctx sink summ level st)))
    = base @ map so_summary_id (lo_summaries (ls_outcome (ladder_step ctx sink summ level st)))"
    using apply_level_ids [OF Cons.prems, of ctx sink summ level] by (simp add: ladder_step_def Let_def)
  with Cons show ?case by simp
qed simp

lemma reduce_selection_ids:
  "map ci_id (sel_items (ls_selection (reduce_selection sink summ request profile m sel s t)))
   = map ci_id (sel_items sel)
     @ map so_summary_id (lo_summaries (ls_outcome (reduce_selection sink summ request profile m sel s t)))"
  by (simp add: reduce_selection_def run_ladder_def Let_def ladder_outcome_default_def ladder_loop_ids)

lemma mset_assemble: "mset (assemble xs) = mset xs"
  by (simp add: assemble_def order_items_def multiset_partition [symmetric])

lemma pruned_item_reason:
  "ci_selected i \<Longrightarrow> \<not> ci_selected (pruned_item now items i) \<Longrightarrow> ci_drop_reason (pruned_item now items i) \<noteq> None"
  by (auto simp: pruned_item_def Let_def split: option.splits if_splits)

lemma finish_dropped_reason:
  "ci_id (finish_dropped summaries i) = ci_id i"
  "ci_drop_reason (finish_dropped summaries i) = None \<Longrightarrow> \<exists>summary\<in>set summaries. ci_id i \<in> set (so_source_ids summary)"
  by (auto simp: finish_dropped_def split: if_splits)

lemma plan_selection_partition:
  "mset (map ci_id (sel_items (plan_selection request profile items))) + mset (map ci_id (plan_pre_dropped request items))
   = mset (map ci_id items)"
proof -
  have "mset (map ci_id (sel_items (plan_selection request profile items)))
      = image_mset ci_id (filter_mset ci_selected (mset (fst (prune_optional items (pr_now request)))))"
    by (simp add: plan_selection_def selection_new_def image_mset.compositionality comp_def)
  moreover have "mset (map ci_id (plan_pre_dropped request items))
      = image_mset ci_id (filter_mset (\<lambda>i. \<not> ci_selected i) (mset (fst (prune_optional items (pr_now request)))))"
    by (simp add: plan_pre_dropped_def)
  ultimately have "mset (map ci_id (sel_items (plan_selection request profile items)))
      + mset (map ci_id (plan_pre_dropped request items))
      = image_mset ci_id (mset (fst (prune_optional items (pr_now request))))"
    by (simp flip: image_mset_union)
  then show ?thesis by (simp add: prune_optional_map comp_def pruned_item_kept image_mset.compositionality)
qed

lemma finish_plan_accounts:
  assumes run: "pl = fst (finish_plan env elapsed request profile est fb mvc pre_dropped st p)" and ready: "is_ready pl"
  shows "mset (map ci_id (cp_selected pl @ cp_dropped pl))
      = mset (map ci_id (sel_items (ls_selection st))) + mset (map ci_id pre_dropped)"
    and "map cr_summary_id (le_compression (cp_ledger pl)) = map so_summary_id (lo_summaries (ls_outcome st))"
    and "i \<in> set (cp_dropped pl) \<Longrightarrow> ci_drop_reason i = None \<Longrightarrow>
      i \<in> set pre_dropped \<or> (\<exists>c\<in>set (le_compression (cp_ledger pl)). ci_id i \<in> set (cr_source_ids c))"
    and "le_dropped_items (cp_ledger pl) = dropped_records (cp_dropped pl)"
proof -
  let ?finished = "map (finish_dropped (lo_summaries (ls_outcome st))) (dropped_items (ls_selection st))"
  have sel: "cp_selected pl = assemble (selected_items (ls_selection st))" and dr: "cp_dropped pl = pre_dropped @ ?finished"
    and led: "le_compression (cp_ledger pl) = map (compression_of (pre_dropped @ ?finished)) (lo_summaries (ls_outcome st))"
    and "le_dropped_items (cp_ledger pl) = dropped_records (cp_dropped pl)"
    using ready unfolding run
    by (rule_tac finish_plan_cases [of profile st request env elapsed est fb mvc pre_dropped p];
        auto simp: refused_def refuse_plan Let_def is_ready_def finalize_hash_def sent_ledger_def)+
  then show "le_dropped_items (cp_ledger pl) = dropped_records (cp_dropped pl)" by simp
  have "mset (map ci_id (selected_items (ls_selection st))) + mset (map ci_id (dropped_items (ls_selection st)))
      = mset (map ci_id (sel_items (ls_selection st)))"
    by (simp add: selected_items_def dropped_items_def flip: image_mset_union)
  moreover have "mset (map ci_id (cp_selected pl)) = mset (map ci_id (selected_items (ls_selection st)))"
    by (simp add: sel mset_assemble)
  ultimately show "mset (map ci_id (cp_selected pl @ cp_dropped pl))
      = mset (map ci_id (sel_items (ls_selection st))) + mset (map ci_id pre_dropped)"
    by (simp add: dr finish_dropped_reason comp_def ac_simps)
  show "map cr_summary_id (le_compression (cp_ledger pl)) = map so_summary_id (lo_summaries (ls_outcome st))"
    by (simp add: led compression_of_def)
  show "i \<in> set pre_dropped \<or> (\<exists>c\<in>set (le_compression (cp_ledger pl)). ci_id i \<in> set (cr_source_ids c))"
    if d: "i \<in> set (cp_dropped pl)" "ci_drop_reason i = None"
  proof (cases "i \<in> set pre_dropped")
    case False
    then obtain j where "i = finish_dropped (lo_summaries (ls_outcome st)) j" using d(1) by (auto simp: dr)
    with finish_dropped_reason [of "lo_summaries (ls_outcome st)" j] d(2) show ?thesis
      by (auto simp: led compression_of_def)
  qed simp
qed

text \<open>C4: A plan that is ready accounts for every input. The ids of the assembled and the dropped items are,
  with multiplicity, those of the inputs and of the recorded summaries; every dropped item carries a drop
  reason or is a source of a recorded summary; and the ledger entry lists exactly the dropped items that
  have a reason.\<close>

theorem ready_plan_accounts_for_inputs:
  assumes run: "plan_with env L sink summ elapsed request override p s t = (pl, p', s', t')" and ready: "is_ready pl"
  shows "mset (map ci_id (cp_selected pl @ cp_dropped pl))
      = mset (map (\<lambda>input. ci_id (pi_item input)) (pr_inputs request))
        + mset (map cr_summary_id (le_compression (cp_ledger pl)))
    \<and> (\<forall>i\<in>set (cp_dropped pl). ci_drop_reason i \<noteq> None
        \<or> (\<exists>c\<in>set (le_compression (cp_ledger pl)). ci_id i \<in> set (cr_source_ids c)))
    \<and> le_dropped_items (cp_ledger pl) = dropped_records (cp_dropped pl)"
  using run
proof (cases rule: plan_with_cases)
  case (refused i)
  then show ?thesis using ready by (auto simp: refused_def refuse_plan Let_def is_ready_def)
next
  case (assembled est fb profile st q)
  let ?items = "plan_items env L est request p"
  note acc = finish_plan_accounts [OF assembled(6) ready]
  have ids: "map ci_id ?items = map (\<lambda>input. ci_id (pi_item input)) (pr_inputs request)"
    using estimate_inputs_items [of env L est "pr_inputs request" "pl_cache p"] by (simp add: plan_items_def)
  have "map ci_id (sel_items (ls_selection st)) = map ci_id (sel_items (plan_selection request profile ?items))
      @ map so_summary_id (lo_summaries (ls_outcome st))"
    unfolding assembled(5) plan_reduced_def by (rule reduce_selection_ids)
  then have "mset (map ci_id (cp_selected pl @ cp_dropped pl))
      = mset (map ci_id (sel_items (plan_selection request profile ?items))) + mset (map ci_id (plan_pre_dropped request ?items))
        + mset (map cr_summary_id (le_compression (cp_ledger pl)))"
    by (simp only: acc(1,2) mset_append ac_simps)
  moreover have "ci_drop_reason i \<noteq> None" if "i \<in> set (plan_pre_dropped request ?items)" for i
    using that pruned_item_reason plan_items_fresh by (fastforce simp: plan_pre_dropped_def prune_optional_map)
  ultimately show ?thesis
    using acc(3,4) by (simp only: plan_selection_partition ids) blast
qed

theorem ready_plan_accounts_for_inputs_witness:
  "mset (map ci_id (cp_selected (fst sample_plan) @ cp_dropped (fst sample_plan)))
     = {#''h'', ''p'', ''s''#} + mset (map cr_summary_id (le_compression (cp_ledger (fst sample_plan))))"
  using ready_plan_accounts_for_inputs [OF sample_plan_run sample_plan_ready(1)]
  by (simp add: sample_request_def sample_inputs_def sample_input_def builder_new_def)

end
