(* ===== verification/Tool_Loadout.thy ===== *)
theory Tool_Loadout
  imports Context_Compression Context_Ledger
begin

text \<open>
  \<open>crates/context-budget/src/loadout.rs\<close>: the intent router and the tool loadout of a model call.

  The confidence of a decision, a quotient of two counts capped at one, is kept as the pair of the
  counts. Lower casing and white space are fields of the Unicode record, SHA-256 of the hash record,
  the estimate of a schema an argument as in the code.
\<close>

section \<open>Registry, rules, decisions\<close>

definition INTENT_RULES_VERSION :: string where
  "INTENT_RULES_VERSION = ''intent-rules-2''"

datatype tool_group = GroupMandatory | GroupReadOnly | GroupMutation

fun tool_group_as_str :: "tool_group \<Rightarrow> string" where
  "tool_group_as_str GroupMandatory = ''mandatory''"
| "tool_group_as_str GroupReadOnly = ''read_only''"
| "tool_group_as_str GroupMutation = ''mutation''"

text \<open>The derived order of the enumeration.\<close>

fun tool_group_rank :: "tool_group \<Rightarrow> nat" where
  "tool_group_rank GroupMandatory = 0"
| "tool_group_rank GroupReadOnly = 1"
| "tool_group_rank GroupMutation = 2"

record tool_registry_entry =
  tr_id :: string
  tr_capability :: string
  tr_group :: tool_group
  tr_schema_json :: string
  tr_approval_required :: bool
  tr_permission_label :: string
  tr_mandatory_for_capability :: bool

record intent_rule =
  ir_id :: string
  ir_intent :: string
  ir_keywords :: "string list"
  ir_allows_mutation :: bool
  ir_capabilities :: "string list"

record deny_rule =
  dr_id :: string
  dr_capability :: string
  dr_reason :: string

record intent_rules =
  rs_version :: string
  rs_rules :: "intent_rule list"
  rs_deny :: "deny_rule list"

definition intent_rules_default :: intent_rules where
  "intent_rules_default = \<lparr>rs_version = INTENT_RULES_VERSION, rs_rules = [], rs_deny = []\<rparr>"

record intent_decision =
  id_intent :: string
  id_confidence :: "nat \<times> nat"
  id_matched_rules :: "string list"
  id_rules_version :: string
  id_allows_mutation :: bool
  id_fallback :: bool

definition FALLBACK_INTENT :: string where
  "FALLBACK_INTENT = ''read_only_fallback''"

section \<open>The router\<close>

definition normalize_query :: "unicode \<Rightarrow> string \<Rightarrow> string" where
  "normalize_query U text = str_join '' '' (split_whitespace U (uc_to_lowercase U text))"

definition route_haystack :: "unicode \<Rightarrow> string \<Rightarrow> string list \<Rightarrow> string" where
  "route_haystack U prompt open_questions =
     fold (\<lambda>question haystack. haystack @ '' '' @ normalize_query U question) open_questions (normalize_query U prompt)"

definition rule_hits :: "string \<Rightarrow> intent_rule \<Rightarrow> nat" where
  "rule_hits haystack rule = length (filter (\<lambda>keyword. str_contains haystack keyword) (ir_keywords rule))"

definition rule_matches :: "string \<Rightarrow> intent_rule list \<Rightarrow> (intent_rule \<times> nat) list" where
  "rule_matches haystack rules =
     filter (\<lambda>(rule, hits). hits > 0) (map (\<lambda>rule. (rule, rule_hits haystack rule)) rules)"

definition non_mutation_keywords :: "intent_rule list \<Rightarrow> string list" where
  "non_mutation_keywords rules = concat (map ir_keywords (filter (\<lambda>rule. \<not> ir_allows_mutation rule) rules))"

definition explicit_mutation :: "string \<Rightarrow> intent_rule list \<Rightarrow> bool" where
  "explicit_mutation haystack rules \<longleftrightarrow>
     (\<exists>(rule, hits) \<in> set (rule_matches haystack rules). ir_allows_mutation rule
        \<and> (\<exists>keyword\<in>set (ir_keywords rule). keyword \<notin> set (non_mutation_keywords rules) \<and> str_contains haystack keyword))"

text \<open>More hits first, then mutation rules when a mutation is explicit, then read-only rules, then the id.\<close>

definition match_key :: "bool \<Rightarrow> intent_rule \<times> nat \<Rightarrow> int \<times> bool \<times> bool \<times> string" where
  "match_key explicit m =
     (- int (snd m), \<not> (explicit \<and> ir_allows_mutation (fst m)), ir_allows_mutation (fst m), ir_id (fst m))"

definition sorted_matches :: "string \<Rightarrow> intent_rule list \<Rightarrow> (intent_rule \<times> nat) list" where
  "sorted_matches haystack rules =
     sort_key (match_key (explicit_mutation haystack rules)) (rule_matches haystack rules)"

definition best_hits :: "string \<Rightarrow> intent_rule list \<Rightarrow> nat" where
  "best_hits haystack rules = snd (hd (sorted_matches haystack rules))"

definition top_rules :: "string \<Rightarrow> intent_rule list \<Rightarrow> intent_rule list" where
  "top_rules haystack rules =
     map fst (filter (\<lambda>m. snd m = best_hits haystack rules) (sorted_matches haystack rules))"

definition first_rule :: "(intent_rule \<Rightarrow> bool) \<Rightarrow> intent_rule list \<Rightarrow> intent_rule" where
  "first_rule p tops = (case List.find p tops of Some rule \<Rightarrow> rule | None \<Rightarrow> hd tops)"

definition choose_rule :: "bool \<Rightarrow> intent_rule list \<Rightarrow> intent_rule" where
  "choose_rule explicit tops =
     (if \<exists>rule\<in>set tops. ir_intent rule \<noteq> ir_intent (hd tops)
      then (if explicit then first_rule ir_allows_mutation tops
            else first_rule (\<lambda>rule. \<not> ir_allows_mutation rule) tops)
      else hd tops)"

definition route_intent :: "unicode \<Rightarrow> intent_rules \<Rightarrow> string \<Rightarrow> string list \<Rightarrow> intent_decision" where
  "route_intent U rules prompt open_questions =
     (let haystack = route_haystack U prompt open_questions
      in if rule_matches haystack (rs_rules rules) = []
         then \<lparr>id_intent = FALLBACK_INTENT, id_confidence = (0, 1), id_matched_rules = [],
               id_rules_version = rs_version rules, id_allows_mutation = False, id_fallback = True\<rparr>
         else let tops = top_rules haystack (rs_rules rules);
                  chosen = choose_rule (explicit_mutation haystack (rs_rules rules)) tops;
                  total_keywords = max (length (ir_keywords chosen)) 1
              in \<lparr>id_intent = ir_intent chosen,
                  id_confidence = (min (best_hits haystack (rs_rules rules)) total_keywords, total_keywords),
                  id_matched_rules = map ir_id tops, id_rules_version = rs_version rules,
                  id_allows_mutation = ir_allows_mutation chosen, id_fallback = False\<rparr>)"

section \<open>The loadout\<close>

record tool_loadout =
  tl_loadout_id :: string
  tl_decision :: intent_decision
  tl_tools :: "tool_registry_entry list"
  tl_schema_tokens :: u32
  tl_omitted_tool_ids :: "string list"
  tl_denied_tool_ids :: "string list"

definition loadout_allows :: "tool_loadout \<Rightarrow> string \<Rightarrow> bool" where
  "loadout_allows loadout tool_id \<longleftrightarrow> (\<exists>tool\<in>set (tl_tools loadout). tr_id tool = tool_id)"

definition first_opt :: "'a list \<Rightarrow> 'a option" where
  "first_opt xs = (case xs of [] \<Rightarrow> None | x # _ \<Rightarrow> Some x)"

definition to_record :: "tool_loadout \<Rightarrow> loadout_record" where
  "to_record loadout =
     \<lparr>lr_loadout_id = tl_loadout_id loadout, lr_intent = id_intent (tl_decision loadout),
      lr_rules_version = id_rules_version (tl_decision loadout),
      lr_matched_rule = first_opt (id_matched_rules (tl_decision loadout)),
      lr_tool_ids = map tr_id (tl_tools loadout), lr_schema_tokens = tl_schema_tokens loadout,
      lr_fallback = id_fallback (tl_decision loadout)\<rparr>"

record loadout_miss =
  lm_tool_id :: string
  lm_intent :: string
  lm_loadout_id :: string
  lm_matched_rule :: "string option"
  lm_policy_reason :: string

record loadout_limits =
  ll_tool_schema_reserve :: u32
  ll_mandatory_schema_reserve :: u32

definition denied_ids :: "tool_registry_entry list \<Rightarrow> intent_rules \<Rightarrow> string list" where
  "denied_ids registry rules =
     map tr_id (filter (\<lambda>tool. \<exists>deny\<in>set (rs_deny rules). dr_capability deny = tr_capability tool) registry)"

definition mandatory_tools :: "tool_registry_entry list \<Rightarrow> string list \<Rightarrow> tool_registry_entry list" where
  "mandatory_tools registry denied =
     sort_key tr_id (filter (\<lambda>tool. (tr_group tool = GroupMandatory \<or> tr_mandatory_for_capability tool)
                               \<and> tr_id tool \<notin> set denied) registry)"

definition intent_capabilities :: "intent_rules \<Rightarrow> intent_decision \<Rightarrow> string list option" where
  "intent_capabilities rules decision =
     (if id_fallback decision then None
      else case List.find (\<lambda>rule. ir_intent rule = id_intent decision) (rs_rules rules) of
        None \<Rightarrow> None
      | Some rule \<Rightarrow> (if ir_capabilities rule \<noteq> [] then Some (ir_capabilities rule) else None))"

definition optional_tools ::
  "tool_registry_entry list \<Rightarrow> string list \<Rightarrow> intent_decision \<Rightarrow> string list option \<Rightarrow> tool_registry_entry list" where
  "optional_tools registry denied decision capabilities =
     sort_key (\<lambda>tool. (tool_group_rank (tr_group tool), tr_id tool))
       (filter (\<lambda>tool. tr_group tool \<noteq> GroupMandatory \<and> \<not> tr_mandatory_for_capability tool
                  \<and> tr_id tool \<notin> set denied
                  \<and> (id_allows_mutation decision \<or> tr_group tool = GroupReadOnly)
                  \<and> (case capabilities of Some cs \<Rightarrow> tr_capability tool \<in> set cs | None \<Rightarrow> True)) registry)"

text \<open>The loop over the optional tools: tokens used so far, tools taken, ids omitted.\<close>

fun admit_loop ::
  "(string \<Rightarrow> u32) \<Rightarrow> u32 \<Rightarrow> tool_registry_entry list \<Rightarrow> u32 \<times> tool_registry_entry list \<times> string list
   \<Rightarrow> u32 \<times> tool_registry_entry list \<times> string list" where
  "admit_loop estimate reserve [] (tokens, tools, omitted) = (tokens, tools, omitted)"
| "admit_loop estimate reserve (tool # optional) (tokens, tools, omitted) =
     (let cost = estimate (tr_schema_json tool)
      in if sat_add tokens cost > reserve
         then admit_loop estimate reserve optional (tokens, tools, omitted @ [tr_id tool])
         else admit_loop estimate reserve optional (sat_add tokens cost, tools @ [tool], omitted))"

definition loadout_id :: "ext \<Rightarrow> intent_decision \<Rightarrow> tool_registry_entry list \<Rightarrow> string" where
  "loadout_id E decision tools =
     ''loadout-'' @ take_chars 16 (ext_sha256_hex E
       (id_rules_version decision @ ''|'' @ id_intent decision @ ''|'' @ str_join '','' (map tr_id tools)))"

definition build_loadout ::
  "ext \<Rightarrow> tool_registry_entry list \<Rightarrow> intent_rules \<Rightarrow> intent_decision \<Rightarrow> loadout_limits \<Rightarrow> (string \<Rightarrow> u32)
   \<Rightarrow> tool_loadout" where
  "build_loadout E registry rules decision limits estimate_schema =
     (let denied = denied_ids registry rules;
          mandatory = mandatory_tools registry denied;
          optional = optional_tools registry denied decision (intent_capabilities rules decision);
          mandatory_tokens = sat_sum (map (\<lambda>tool. estimate_schema (tr_schema_json tool)) mandatory);
          (optional_tokens, tools, omitted) =
            admit_loop estimate_schema (ll_tool_schema_reserve limits) optional (0, mandatory, [])
      in \<lparr>tl_loadout_id = loadout_id E decision tools, tl_decision = decision, tl_tools = tools,
          tl_schema_tokens = sat_add mandatory_tokens optional_tokens,
          tl_omitted_tool_ids = omitted, tl_denied_tool_ids = denied\<rparr>)"

definition check_tool_call :: "tool_loadout \<Rightarrow> string \<Rightarrow> loadout_miss + unit" where
  "check_tool_call loadout tool_id =
     (if loadout_allows loadout tool_id then Inr ()
      else Inl \<lparr>lm_tool_id = tool_id, lm_intent = id_intent (tl_decision loadout),
                lm_loadout_id = tl_loadout_id loadout,
                lm_matched_rule = first_opt (id_matched_rules (tl_decision loadout)),
                lm_policy_reason =
                  (if tool_id \<in> set (tl_denied_tool_ids loadout) then ''denied by policy rule''
                   else if tool_id \<in> set (tl_omitted_tool_ids loadout) then ''omitted: tool_schema_reserve exhausted''
                   else ''not selected for the current intent'')\<rparr>)"

section \<open>The router chooses the safer rule\<close>

lemma set_rule_matches:
  "set (rule_matches h rules) = {(r, rule_hits h r) | r. r \<in> set rules \<and> rule_hits h r > 0}"
  by (auto simp: rule_matches_def)

lemma sorted_matches_set [simp]: "set (sorted_matches h rules) = set (rule_matches h rules)"
  by (simp add: sorted_matches_def)

lemma sorted_matches_Nil [simp]: "sorted_matches h rules = [] \<longleftrightarrow> rule_matches h rules = []"
  by (metis set_empty sorted_matches_set)

lemma hd_sorted_matches_le:
  assumes "m \<in> set (rule_matches h rules)"
  shows "match_key (explicit_mutation h rules) (hd (sorted_matches h rules)) \<le> match_key (explicit_mutation h rules) m"
proof -
  have s: "sorted (map (match_key (explicit_mutation h rules)) (sorted_matches h rules))"
    by (simp add: sorted_matches_def)
  have m: "m \<in> set (sorted_matches h rules)" using assms by simp
  then show ?thesis using s by (cases "sorted_matches h rules") auto
qed

lemma best_hits_max: "m \<in> set (rule_matches h rules) \<Longrightarrow> snd m \<le> best_hits h rules"
  using hd_sorted_matches_le [of m h rules] by (auto simp: match_key_def best_hits_def less_eq_prod_def)

lemma hd_sorted_matches_in:
  "rule_matches h rules \<noteq> [] \<Longrightarrow> hd (sorted_matches h rules) \<in> set (rule_matches h rules)"
  by (metis hd_in_set sorted_matches_Nil sorted_matches_set)

lemma hd_top_rules:
  assumes "rule_matches h rules \<noteq> []"
  shows "top_rules h rules \<noteq> [] \<and> hd (top_rules h rules) = fst (hd (sorted_matches h rules))"
  using assms by (cases "sorted_matches h rules") (auto simp: top_rules_def best_hits_def)

text \<open>The rules of the highest score, without the router's sorting.\<close>

definition best_rules :: "string \<Rightarrow> intent_rule list \<Rightarrow> intent_rule list" where
  "best_rules h rules =
     filter (\<lambda>r. rule_hits h r > 0 \<and> (\<forall>r'\<in>set rules. rule_hits h r' \<le> rule_hits h r)) rules"

lemma best_rules_filter:
  assumes "rule_matches h rules \<noteq> []"
  shows "best_rules h rules = filter (\<lambda>r. rule_hits h r = best_hits h rules) rules"
  unfolding best_rules_def
proof (rule filter_cong [OF refl])
  fix r assume r: "r \<in> set rules"
  have le: "rule_hits h r' \<le> best_hits h rules" if "r' \<in> set rules" for r'
    using best_hits_max [of "(r', rule_hits h r')" h rules] that by (cases "rule_hits h r' = 0") (auto simp: set_rule_matches)
  obtain b where b: "b \<in> set rules" "rule_hits h b = best_hits h rules" "rule_hits h b > 0"
    using hd_sorted_matches_in [OF assms] by (auto simp: set_rule_matches best_hits_def)
  show "(rule_hits h r > 0 \<and> (\<forall>r'\<in>set rules. rule_hits h r' \<le> rule_hits h r)) = (rule_hits h r = best_hits h rules)"
    using le r b by (metis le_antisym)
qed

lemma mset_top_rules:
  assumes "rule_matches h rules \<noteq> []"
  shows "mset (top_rules h rules) = mset (best_rules h rules)"
proof -
  have pos: "best_hits h rules > 0"
    using hd_sorted_matches_in [OF assms] by (auto simp: set_rule_matches best_hits_def)
  have "mset (top_rules h rules)
      = image_mset fst (filter_mset (\<lambda>m. snd m = best_hits h rules) (mset (rule_matches h rules)))"
    by (simp add: top_rules_def sorted_matches_def)
  also have "\<dots> = mset (map fst (filter (\<lambda>m. snd m = best_hits h rules) (rule_matches h rules)))"
    by simp
  also have "map fst (filter (\<lambda>m. snd m = best_hits h rules) (rule_matches h rules))
      = filter (\<lambda>r. rule_hits h r = best_hits h rules) rules"
    using pos by (auto simp: rule_matches_def filter_map comp_def case_prod_unfold intro: filter_cong)
  finally show ?thesis by (simp add: best_rules_filter [OF assms])
qed

lemma best_rules_empty: "best_rules h rules = [] \<longleftrightarrow> rule_matches h rules = []"
proof
  assume "best_rules h rules = []"
  then show "rule_matches h rules = []"
    using mset_top_rules hd_top_rules by (metis mset.simps(1) mset_zero_iff)
next
  assume "rule_matches h rules = []"
  then have "\<forall>r\<in>set rules. rule_hits h r = 0"
    using set_rule_matches [of h rules] by auto
  then show "best_rules h rules = []" by (auto simp: best_rules_def filter_empty_conv)
qed

lemma first_rule_cases:
  "\<exists>r\<in>set tops. p r \<Longrightarrow> p (first_rule p tops)"
  "\<not> (\<exists>r\<in>set tops. p r) \<Longrightarrow> first_rule p tops = hd tops"
  by (auto simp: first_rule_def find_None_iff dest: find_Some_iff [THEN iffD1] split: option.split)

lemma first_rule_in: "tops \<noteq> [] \<Longrightarrow> first_rule p tops \<in> set tops"
  by (auto simp: first_rule_def find_Some_iff split: option.split)

lemma choose_rule_in: "tops \<noteq> [] \<Longrightarrow> choose_rule explicit tops \<in> set tops"
  by (simp add: choose_rule_def first_rule_in)

lemma choose_rule_allows:
  assumes "tops \<noteq> []"
    and "\<not> explicit \<Longrightarrow> \<exists>r\<in>set tops. \<not> ir_allows_mutation r \<Longrightarrow> \<not> ir_allows_mutation (hd tops)"
    and "explicit \<Longrightarrow> \<exists>r\<in>set tops. ir_allows_mutation r \<Longrightarrow> ir_allows_mutation (hd tops)"
  shows "ir_allows_mutation (choose_rule explicit tops)
    \<longleftrightarrow> (if explicit then \<exists>r\<in>set tops. ir_allows_mutation r else \<forall>r\<in>set tops. ir_allows_mutation r)"
proof (cases "if explicit then \<exists>r\<in>set tops. ir_allows_mutation r else \<exists>r\<in>set tops. \<not> ir_allows_mutation r")
  case True
  then have "ir_allows_mutation (choose_rule explicit tops) \<longleftrightarrow> explicit"
    using assms(2,3) first_rule_cases(1) [of tops ir_allows_mutation]
      first_rule_cases(1) [of tops "\<lambda>r. \<not> ir_allows_mutation r"]
    by (cases explicit) (simp_all add: choose_rule_def)
  with True show ?thesis by (cases explicit) simp_all
next
  case False
  with choose_rule_in [OF assms(1), of explicit] show ?thesis by (cases explicit) auto
qed

lemma top_rules_allows:
  assumes "rule_matches h rules \<noteq> []"
  defines "tops \<equiv> top_rules h rules" and "explicit \<equiv> explicit_mutation h rules"
  shows "explicit \<Longrightarrow> \<exists>r\<in>set tops. ir_allows_mutation r \<Longrightarrow> ir_allows_mutation (hd tops)"
    and "\<not> explicit \<Longrightarrow> \<exists>r\<in>set tops. \<not> ir_allows_mutation r \<Longrightarrow> \<not> ir_allows_mutation (hd tops)"
proof -
  have hd: "hd tops = fst (hd (sorted_matches h rules))"
    using hd_top_rules [OF assms(1)] by (simp add: tops_def)
  have key: "match_key explicit (hd (sorted_matches h rules)) \<le> match_key explicit (r, best_hits h rules)"
    if "r \<in> set tops" for r
    using that hd_sorted_matches_le by (auto simp: tops_def explicit_def top_rules_def)
  show "ir_allows_mutation (hd tops)" if explicit "\<exists>r\<in>set tops. ir_allows_mutation r"
    using that key by (auto simp: hd match_key_def best_hits_def less_eq_prod_def)
  show "\<not> ir_allows_mutation (hd tops)" if "\<not> explicit" "\<exists>r\<in>set tops. \<not> ir_allows_mutation r"
    using that key by (auto simp: hd match_key_def best_hits_def less_eq_prod_def)
qed

text \<open>The router answers with the fallback exactly when no rule matches. Otherwise the rules it
  reports are those of the highest score, and mutation is allowed in one of two cases only: the prompt
  holds a keyword of a matching mutation rule that no read-only rule shares, and some best rule allows
  mutation; or there is no such keyword and every best rule allows mutation.\<close>

theorem route_intent_mutation:
  "let h = route_haystack U prompt questions; best = best_rules h (rs_rules rules);
       decision = route_intent U rules prompt questions
   in (id_fallback decision \<longleftrightarrow> best = [])
    \<and> mset (id_matched_rules decision) = mset (map ir_id best)
    \<and> (id_allows_mutation decision \<longleftrightarrow> best \<noteq> []
        \<and> (if explicit_mutation h (rs_rules rules) then \<exists>r\<in>set best. ir_allows_mutation r
           else \<forall>r\<in>set best. ir_allows_mutation r))"
proof -
  define h where "h = route_haystack U prompt questions"
  let ?rules = "rs_rules rules" and ?tops = "top_rules h (rs_rules rules)"
  show ?thesis
  proof (cases "rule_matches h ?rules = []")
    case True
    then show ?thesis by (simp add: route_intent_def Let_def best_rules_empty flip: h_def)
  next
    case False
    have m: "mset ?tops = mset (best_rules h ?rules)" by (rule mset_top_rules [OF False])
    then have set: "set ?tops = set (best_rules h ?rules)" by (metis set_mset_mset)
    have "?tops \<noteq> []" using hd_top_rules [OF False] by simp
    note choose_rule_allows [OF this top_rules_allows(2,1) [OF False]]
    then show ?thesis
      using False m set by (simp add: route_intent_def Let_def best_rules_empty flip: h_def)
  qed
qed

definition sample_rule :: "string \<Rightarrow> bool \<Rightarrow> string list \<Rightarrow> intent_rule" where
  "sample_rule name allows keywords =
     \<lparr>ir_id = name, ir_intent = name, ir_keywords = keywords, ir_allows_mutation = allows, ir_capabilities = []\<rparr>"

definition sample_rules :: intent_rules where
  "sample_rules =
     \<lparr>rs_version = INTENT_RULES_VERSION,
      rs_rules = [sample_rule ''change'' True [''create'', ''project''], sample_rule ''inspect'' False [''study'', ''project'']],
      rs_deny = [\<lparr>dr_id = ''d1'', dr_capability = ''net'', dr_reason = ''offline''\<rparr>]\<rparr>"

theorem route_intent_mutation_witness:
  "id_allows_mutation (route_intent plain_unicode sample_rules ''study the project'' [''create it''])
   \<and> \<not> id_allows_mutation (route_intent plain_unicode sample_rules ''project'' [])"
proof
  let ?h = "route_haystack plain_unicode ''study the project'' [''create it'']"
    and ?h' = "route_haystack plain_unicode ''project'' []"
  have "best_rules ?h (rs_rules sample_rules) \<noteq> []" "explicit_mutation ?h (rs_rules sample_rules)"
    "\<exists>r\<in>set (best_rules ?h (rs_rules sample_rules)). ir_allows_mutation r" by code_simp+
  then show "id_allows_mutation (route_intent plain_unicode sample_rules ''study the project'' [''create it''])"
    using route_intent_mutation [of plain_unicode "''study the project''" "[''create it'']" sample_rules]
    by (simp add: Let_def)
  have "\<not> explicit_mutation ?h' (rs_rules sample_rules)"
    "\<not> (\<forall>r\<in>set (best_rules ?h' (rs_rules sample_rules)). ir_allows_mutation r)" by code_simp+
  then show "\<not> id_allows_mutation (route_intent plain_unicode sample_rules ''project'' [])"
    using route_intent_mutation [of plain_unicode "''project''" "[]" sample_rules] by (simp add: Let_def)
qed

section \<open>The loadout respects policy and reserve\<close>

text \<open>The tools that policy and intent admit as optional ones.\<close>

definition admissible :: "intent_rules \<Rightarrow> intent_decision \<Rightarrow> tool_registry_entry \<Rightarrow> bool" where
  "admissible rules decision tool \<longleftrightarrow>
     (id_allows_mutation decision \<or> tr_group tool = GroupReadOnly)
     \<and> (case intent_capabilities rules decision of Some cs \<Rightarrow> tr_capability tool \<in> set cs | None \<Rightarrow> True)"

definition denied_tool :: "intent_rules \<Rightarrow> tool_registry_entry \<Rightarrow> bool" where
  "denied_tool rules tool \<longleftrightarrow> (\<exists>deny\<in>set (rs_deny rules). dr_capability deny = tr_capability tool)"

definition mandatory_tool :: "tool_registry_entry \<Rightarrow> bool" where
  "mandatory_tool tool \<longleftrightarrow> tr_group tool = GroupMandatory \<or> tr_mandatory_for_capability tool"

lemma admit_loop_spec:
  assumes "admit_loop est reserve opt (tokens, tools, omitted) = (tokens', tools', omitted')"
  shows "\<exists>taken. tools' = tools @ taken \<and> set taken \<subseteq> set opt
     \<and> tokens' = sat_add tokens (sat_sum (map (\<lambda>t. est (tr_schema_json t)) taken))
     \<and> (tokens \<le> reserve \<longrightarrow> tokens' \<le> reserve)
     \<and> set omitted' \<subseteq> set omitted \<union> tr_id ` set opt
     \<and> set omitted \<union> tr_id ` (set opt - set taken) \<subseteq> set omitted'"
  using assms
proof (induction opt arbitrary: tokens tools omitted)
  case (Cons tool opt)
  let ?cost = "est (tr_schema_json tool)"
  show ?case
  proof (cases "sat_add tokens ?cost > reserve")
    case True
    then have "admit_loop est reserve opt (tokens, tools, omitted @ [tr_id tool]) = (tokens', tools', omitted')"
      using Cons.prems by (simp add: Let_def)
    from Cons.IH [OF this] obtain taken where t: "tools' = tools @ taken" "set taken \<subseteq> set opt"
      "tokens' = sat_add tokens (sat_sum (map (\<lambda>t. est (tr_schema_json t)) taken))"
      "tokens \<le> reserve \<longrightarrow> tokens' \<le> reserve"
      "set omitted' \<subseteq> set (omitted @ [tr_id tool]) \<union> tr_id ` set opt"
      "set (omitted @ [tr_id tool]) \<union> tr_id ` (set opt - set taken) \<subseteq> set omitted'" by blast
    then show ?thesis by (intro exI [of _ taken] conjI) auto
  next
    case False
    then have "admit_loop est reserve opt (sat_add tokens ?cost, tools @ [tool], omitted) = (tokens', tools', omitted')"
      using Cons.prems by (simp add: Let_def)
    from Cons.IH [OF this] False obtain taken where t: "tools' = (tools @ [tool]) @ taken" "set taken \<subseteq> set opt"
      "tokens' = sat_add (sat_add tokens ?cost) (sat_sum (map (\<lambda>t. est (tr_schema_json t)) taken))"
      "tokens' \<le> reserve" "set omitted' \<subseteq> set omitted \<union> tr_id ` set opt"
      "set omitted \<union> tr_id ` (set opt - set taken) \<subseteq> set omitted'"
      unfolding not_less by blast
    have tok: "tokens' = sat_add tokens (sat_sum (map (\<lambda>t. est (tr_schema_json t)) (tool # taken)))"
      by (simp only: t(3) sat_add_assoc list.map sat_sum_Cons)
    have om: "set omitted \<union> tr_id ` (set (tool # opt) - set (tool # taken)) \<subseteq> set omitted'"
      using t(6) by auto
    show ?thesis
      using t(1,2,4,5) tok om by (intro exI [of _ "tool # taken"] conjI) auto
  qed
qed auto

text \<open>The parts of a loadout, as the later statements use them.\<close>

lemma build_loadout_parts:
  obtains taken where
    "tl_tools (build_loadout E registry rules decision limits est) = mandatory_tools registry (denied_ids registry rules) @ taken"
    "set taken \<subseteq> set (optional_tools registry (denied_ids registry rules) decision (intent_capabilities rules decision))"
    "sat_sum (map (\<lambda>t. est (tr_schema_json t)) taken) \<le> ll_tool_schema_reserve limits"
    "tl_schema_tokens (build_loadout E registry rules decision limits est) =
       sat_sum (map (\<lambda>t. est (tr_schema_json t)) (tl_tools (build_loadout E registry rules decision limits est)))"
    "tl_denied_tool_ids (build_loadout E registry rules decision limits est) = denied_ids registry rules"
    "set (tl_omitted_tool_ids (build_loadout E registry rules decision limits est)) \<subseteq>
       tr_id ` set (optional_tools registry (denied_ids registry rules) decision (intent_capabilities rules decision))"
    "tr_id ` (set (optional_tools registry (denied_ids registry rules) decision (intent_capabilities rules decision)) - set taken)
       \<subseteq> set (tl_omitted_tool_ids (build_loadout E registry rules decision limits est))"
proof -
  let ?opt = "optional_tools registry (denied_ids registry rules) decision (intent_capabilities rules decision)"
  let ?man = "mandatory_tools registry (denied_ids registry rules)"
  let ?cost = "\<lambda>t. est (tr_schema_json t)"
  obtain tokens tools omitted where run:
    "admit_loop est (ll_tool_schema_reserve limits) ?opt (0, ?man, []) = (tokens, tools, omitted)"
    by (metis prod_cases3)
  from admit_loop_spec [OF this] obtain taken where t: "tools = ?man @ taken" "set taken \<subseteq> set ?opt"
    "tokens = sat_add 0 (sat_sum (map ?cost taken))" "0 \<le> ll_tool_schema_reserve limits \<longrightarrow> tokens \<le> ll_tool_schema_reserve limits"
    "set omitted \<subseteq> set [] \<union> tr_id ` set ?opt" "set [] \<union> tr_id ` (set ?opt - set taken) \<subseteq> set omitted" by blast
  have b: "build_loadout E registry rules decision limits est =
    \<lparr>tl_loadout_id = loadout_id E decision tools, tl_decision = decision, tl_tools = tools,
     tl_schema_tokens = sat_add (sat_sum (map ?cost ?man)) tokens, tl_omitted_tool_ids = omitted,
     tl_denied_tool_ids = denied_ids registry rules\<rparr>"
    by (simp add: build_loadout_def run Let_def)
  show thesis
    using t by (intro that [of taken]) (simp_all add: b sat_sum_append)
qed

text \<open>A loadout holds every mandatory tool that is not denied, in the order of ids, before every
  other tool; its optional tools together stay within the schema reserve, whatever their estimates; the
  reported number of schema tokens is the total over all its tools.\<close>

theorem build_loadout_budget:
  "let loadout = build_loadout E registry rules decision limits est;
       mandatory = filter mandatory_tool (tl_tools loadout);
       optional = filter (\<lambda>t. \<not> mandatory_tool t) (tl_tools loadout);
       cost = (\<lambda>ts. sat_sum (map (\<lambda>t. est (tr_schema_json t)) ts))
   in tl_tools loadout = mandatory @ optional
    \<and> mandatory = sort_key tr_id (filter (\<lambda>t. mandatory_tool t \<and> tr_id t \<notin> set (denied_ids registry rules)) registry)
    \<and> cost optional \<le> ll_tool_schema_reserve limits
    \<and> tl_schema_tokens loadout = cost (tl_tools loadout)"
proof -
  obtain taken where t:
    "tl_tools (build_loadout E registry rules decision limits est) = mandatory_tools registry (denied_ids registry rules) @ taken"
    "set taken \<subseteq> set (optional_tools registry (denied_ids registry rules) decision (intent_capabilities rules decision))"
    "sat_sum (map (\<lambda>t. est (tr_schema_json t)) taken) \<le> ll_tool_schema_reserve limits"
    "tl_schema_tokens (build_loadout E registry rules decision limits est) =
       sat_sum (map (\<lambda>t. est (tr_schema_json t)) (tl_tools (build_loadout E registry rules decision limits est)))"
    by (rule build_loadout_parts)
  let ?man = "mandatory_tools registry (denied_ids registry rules)"
  have m: "\<forall>t\<in>set ?man. mandatory_tool t" by (simp add: mandatory_tools_def mandatory_tool_def)
  have o: "\<forall>t\<in>set taken. \<not> mandatory_tool t"
    using t(2) by (auto simp: optional_tools_def mandatory_tool_def)
  have "filter mandatory_tool (?man @ taken) = ?man" "filter (\<lambda>t. \<not> mandatory_tool t) (?man @ taken) = taken"
    using m o by (auto simp: filter_empty_conv)
  then show ?thesis
    using t(1,3,4) by (simp add: Let_def mandatory_tools_def mandatory_tool_def)
qed

lemma denied_ids_iff:
  "distinct (map tr_id registry) \<Longrightarrow> tool \<in> set registry \<Longrightarrow>
   tr_id tool \<in> set (denied_ids registry rules) \<longleftrightarrow> denied_tool rules tool"
  by (auto simp: denied_ids_def denied_tool_def dest: distinct_map_nth_unique)

text \<open>The check before a tool call. For a registry with distinct ids a registered tool passes exactly
  when the loadout holds it; what passes is never denied by policy, and is a mutation only if the
  decision allows mutations or the tool is mandatory. A rejected tool is reported as denied when a deny
  rule names its capability, as omitted when only the reserve kept it out, and as not selected otherwise.\<close>

theorem check_tool_call_policy:
  assumes ids: "distinct (map tr_id registry)" and tool: "tool \<in> set registry"
  shows "let loadout = build_loadout E registry rules decision limits est in
    case check_tool_call loadout (tr_id tool) of
      Inr _ \<Rightarrow> tool \<in> set (tl_tools loadout) \<and> \<not> denied_tool rules tool
        \<and> (mandatory_tool tool \<or> admissible rules decision tool)
    | Inl miss \<Rightarrow> tool \<notin> set (tl_tools loadout) \<and> lm_tool_id miss = tr_id tool
        \<and> lm_policy_reason miss =
          (if denied_tool rules tool then ''denied by policy rule''
           else if admissible rules decision tool then ''omitted: tool_schema_reserve exhausted''
           else ''not selected for the current intent'')"
proof -
  define loadout where "loadout = build_loadout E registry rules decision limits est"
  let ?opt = "optional_tools registry (denied_ids registry rules) decision (intent_capabilities rules decision)"
  let ?man = "mandatory_tools registry (denied_ids registry rules)"
  obtain taken where t: "tl_tools loadout = ?man @ taken" "set taken \<subseteq> set ?opt"
    "tl_denied_tool_ids loadout = denied_ids registry rules"
    "set (tl_omitted_tool_ids loadout) \<subseteq> tr_id ` set ?opt"
    "tr_id ` (set ?opt - set taken) \<subseteq> set (tl_omitted_tool_ids loadout)"
    unfolding loadout_def by (rule build_loadout_parts)
  note den = denied_ids_iff [OF ids tool, of rules]
  have man: "tool \<in> set ?man \<longleftrightarrow> mandatory_tool tool \<and> \<not> denied_tool rules tool"
    using tool den by (auto simp: mandatory_tools_def mandatory_tool_def)
  have opt: "tool \<in> set ?opt \<longleftrightarrow> \<not> mandatory_tool tool \<and> \<not> denied_tool rules tool \<and> admissible rules decision tool"
    using tool den by (auto simp: optional_tools_def mandatory_tool_def admissible_def)
  have reg: "set (tl_tools loadout) \<subseteq> set registry" "set ?opt \<subseteq> set registry"
    using t(1,2) by (auto simp: mandatory_tools_def optional_tools_def)
  have eq: "x = tool" if "x \<in> set registry" "tr_id x = tr_id tool" for x
    using distinct_map_nth_unique [OF ids that(1) tool that(2)] .
  have allows: "loadout_allows loadout (tr_id tool) \<longleftrightarrow> tool \<in> set (tl_tools loadout)"
    using eq reg(1) by (auto simp: loadout_allows_def)
  have om: "tr_id tool \<in> set (tl_omitted_tool_ids loadout) \<longleftrightarrow> tool \<in> set ?opt"
    if "tool \<notin> set (tl_tools loadout)"
  proof
    assume "tr_id tool \<in> set (tl_omitted_tool_ids loadout)"
    then obtain x where "x \<in> set ?opt" "tr_id x = tr_id tool" using t(4) by auto
    then show "tool \<in> set ?opt" using eq reg(2) by blast
  next
    assume "tool \<in> set ?opt"
    then show "tr_id tool \<in> set (tl_omitted_tool_ids loadout)" using that t(1,5) by auto
  qed
  have admitted: "\<not> denied_tool rules tool \<and> (mandatory_tool tool \<or> admissible rules decision tool)"
    if "tool \<in> set (tl_tools loadout)"
    using that t(1,2) man opt by auto
  have rejected: "denied_tool rules tool \<or> \<not> mandatory_tool tool" if "tool \<notin> set (tl_tools loadout)"
    using that t(1) man by auto
  show ?thesis
    unfolding Let_def loadout_def [symmetric]
    using allows om admitted rejected opt den t(3) by (auto simp: check_tool_call_def)
qed

definition sample_tool :: "string \<Rightarrow> string \<Rightarrow> tool_group \<Rightarrow> tool_registry_entry" where
  "sample_tool name capability g =
     \<lparr>tr_id = name, tr_capability = capability, tr_group = g, tr_schema_json = name, tr_approval_required = False,
      tr_permission_label = [], tr_mandatory_for_capability = False\<rparr>"

theorem check_tool_call_policy_witness:
  "let registry = [sample_tool ''fetch'' ''net'' GroupReadOnly, sample_tool ''read'' ''fs'' GroupReadOnly,
                   sample_tool ''write'' ''fs'' GroupMutation];
       decision = route_intent plain_unicode sample_rules ''project'' [];
       loadout = build_loadout plain_ext registry sample_rules decision
         \<lparr>ll_tool_schema_reserve = 100, ll_mandatory_schema_reserve = 100\<rparr> (\<lambda>_. 10)
   in check_tool_call loadout ''read'' = Inr ()
    \<and> map_sum lm_policy_reason id (check_tool_call loadout ''fetch'') = Inl ''denied by policy rule''"
proof -
  let ?registry = "[sample_tool ''fetch'' ''net'' GroupReadOnly, sample_tool ''read'' ''fs'' GroupReadOnly,
                   sample_tool ''write'' ''fs'' GroupMutation]"
  let ?fetch = "sample_tool ''fetch'' ''net'' GroupReadOnly"
  let ?decision = "route_intent plain_unicode sample_rules ''project'' []"
  let ?loadout = "build_loadout plain_ext ?registry sample_rules ?decision
         \<lparr>ll_tool_schema_reserve = 100, ll_mandatory_schema_reserve = 100\<rparr> (\<lambda>_. 10)"
  have ids: "distinct (map tr_id ?registry)" by code_simp
  have tool: "?fetch \<in> set ?registry" by simp
  have den: "denied_tool sample_rules ?fetch" by code_simp
  have name: "tr_id ?fetch = ''fetch''" by (simp add: sample_tool_def)
  have "map_sum lm_policy_reason id (check_tool_call ?loadout ''fetch'') = Inl ''denied by policy rule''"
    using check_tool_call_policy [OF ids tool, of plain_ext sample_rules ?decision
      "\<lparr>ll_tool_schema_reserve = 100, ll_mandatory_schema_reserve = 100\<rparr>" "\<lambda>_. 10"] den
    by (auto simp: name Let_def split: sum.splits)
  moreover have "check_tool_call ?loadout ''read'' = Inr ()" by code_simp
  ultimately show ?thesis by (simp add: Let_def)
qed

end
