(* ===== verification/Scratchpad.thy ===== *)
theory Scratchpad
  imports Context_Compression
begin

text \<open>
  \<open>crates/context-budget/src/scratchpad.rs\<close>: the working notes of a task, their confirmation, revision
  and recovery after a restart, their projection to context items, and the envelope around external
  tool output. \<open>to_lowercase\<close> is a field of the Unicode record, the content hash that of
  \<open>Content_Hash\<close>.
\<close>

section \<open>Entries\<close>

datatype scratchpad_category = SpFacts | SpOpenQuestions | SpDecisions | SpToolFindings | SpNextActions

fun scratchpad_category_as_str :: "scratchpad_category \<Rightarrow> string" where
  "scratchpad_category_as_str SpFacts = ''facts''"
| "scratchpad_category_as_str SpOpenQuestions = ''open_questions''"
| "scratchpad_category_as_str SpDecisions = ''decisions''"
| "scratchpad_category_as_str SpToolFindings = ''tool_findings''"
| "scratchpad_category_as_str SpNextActions = ''next_actions''"

definition scratchpad_category_parse :: "string \<Rightarrow> scratchpad_category option" where
  "scratchpad_category_parse value' =
     (if value' = ''facts'' then Some SpFacts
      else if value' = ''open_questions'' then Some SpOpenQuestions
      else if value' = ''decisions'' then Some SpDecisions
      else if value' = ''tool_findings'' then Some SpToolFindings
      else if value' = ''next_actions'' then Some SpNextActions
      else None)"

definition scratchpad_category_all :: "scratchpad_category list" where
  "scratchpad_category_all = [SpFacts, SpOpenQuestions, SpDecisions, SpToolFindings, SpNextActions]"

datatype confirmation_basis = ToolProvenanceVerified | UserConfirmed | PolicyOperationCompleted

fun confirmation_basis_as_str :: "confirmation_basis \<Rightarrow> string" where
  "confirmation_basis_as_str ToolProvenanceVerified = ''tool_provenance_verified''"
| "confirmation_basis_as_str UserConfirmed = ''user_confirmed''"
| "confirmation_basis_as_str PolicyOperationCompleted = ''policy_operation_completed''"

record scratchpad_entry =
  se_id :: string
  se_task_id :: string
  se_session_id :: string
  se_category :: scratchpad_category
  se_status :: scratchpad_status
  se_trust :: trust
  se_privacy :: privacy
  se_revision :: u32
  se_parent_id :: "string option"
  se_content :: string
  se_content_hash :: string
  se_created_at :: i64
  se_updated_at :: i64
  se_ttl_ms :: "i64 option"
  se_confirmation :: "confirmation_basis option"
  se_artifact_locator :: "string option"
  se_recovered_at_step :: "u32 option"

definition note_hash :: "ext \<Rightarrow> string \<Rightarrow> string" where
  "note_hash E content = content_hash E (item_kind_as_str Scratchpad) (FormText content)"

definition entry_draft :: "ext \<Rightarrow> string \<Rightarrow> string \<Rightarrow> string \<Rightarrow> scratchpad_category \<Rightarrow> string \<Rightarrow> i64 \<Rightarrow> scratchpad_entry" where
  "entry_draft E id' task_id session_id category content now =
     \<lparr>se_id = id', se_task_id = task_id, se_session_id = session_id, se_category = category,
      se_status = StDraft, se_trust = TrustExternal, se_privacy = PrivWorkspace, se_revision = 1,
      se_parent_id = None, se_content = content, se_content_hash = note_hash E content,
      se_created_at = now, se_updated_at = now, se_ttl_ms = None, se_confirmation = None,
      se_artifact_locator = None, se_recovered_at_step = None\<rparr>"

definition entry_confirm :: "confirmation_basis \<Rightarrow> i64 \<Rightarrow> scratchpad_entry \<Rightarrow> scratchpad_entry" where
  "entry_confirm basis now e =
     e\<lparr>se_status := StConfirmed, se_trust := TrustConfirmed, se_confirmation := Some basis, se_updated_at := now\<rparr>"

text \<open>The id shared by all revisions: \<open>parent_id.unwrap_or(id)\<close>.\<close>

definition entry_root :: "scratchpad_entry \<Rightarrow> string" where
  "entry_root e = (case se_parent_id e of Some parent \<Rightarrow> parent | None \<Rightarrow> se_id e)"

definition entry_revise :: "ext \<Rightarrow> string \<Rightarrow> string \<Rightarrow> i64 \<Rightarrow> scratchpad_entry \<Rightarrow> scratchpad_entry" where
  "entry_revise E id' content now e =
     e\<lparr>se_id := id', se_parent_id := Some (entry_root e), se_revision := sat_add (se_revision e) 1,
       se_content_hash := note_hash E content, se_content := content, se_created_at := now,
       se_updated_at := now, se_status := StDraft, se_trust := TrustExternal, se_confirmation := None\<rparr>"

section \<open>Projection to a context item\<close>

definition entry_kind :: "scratchpad_entry \<Rightarrow> item_kind" where
  "entry_kind e = (if se_category e = SpDecisions \<and> se_status e = StConfirmed then Decision else Scratchpad)"

fun entry_priority :: "scratchpad_status \<Rightarrow> scratchpad_category \<Rightarrow> u8" where
  "entry_priority StRecovered _ = 20"
| "entry_priority StConfirmed SpDecisions = 80"
| "entry_priority StConfirmed SpOpenQuestions = 75"
| "entry_priority StConfirmed _ = 60"
| "entry_priority StDraft SpOpenQuestions = 55"
| "entry_priority StDraft _ = 40"

definition to_context_item :: "scratchpad_entry \<Rightarrow> context_item" where
  "to_context_item e =
     (let item = builder_new (se_id e) (entry_kind e) (se_content_hash e);
          item = builder_task (se_task_id e) (se_session_id e) item;
          item = builder_source (''scratchpad/'' @ scratchpad_category_as_str (se_category e)) item;
          item = builder_priority (entry_priority (se_status e) (se_category e)) item;
          item = builder_trust (se_trust e) item;
          item = builder_privacy (se_privacy e) item;
          item = builder_created_at (se_created_at e) item;
          item = builder_version (se_revision e) item;
          item = builder_scratchpad_status (se_status e) item;
          item = builder_conflict_key
            (''scratchpad/'' @ scratchpad_category_as_str (se_category e) @ ''/'' @ entry_root e) item;
          item = builder_sizes (of_nat (length (se_content e))) 0 item;
          item = (case se_parent_id e of Some parent \<Rightarrow> builder_parent parent item | None \<Rightarrow> item);
          item = (case se_ttl_ms e of Some ttl \<Rightarrow> builder_ttl_ms ttl item | None \<Rightarrow> item)
      in item\<lparr>ci_artifact_locator := se_artifact_locator e\<rparr>)"

section \<open>Recovery\<close>

record recovery_policy =
  rp_max_age_ms :: i64
  rp_max_steps :: u32
  rp_auto_confirm_read_only :: bool

definition recovery_policy_default :: recovery_policy where
  "recovery_policy_default =
     \<lparr>rp_max_age_ms = 60 * 60 * 1000, rp_max_steps = 10, rp_auto_confirm_read_only = False\<rparr>"

definition should_discard :: "recovery_policy \<Rightarrow> scratchpad_entry \<Rightarrow> i64 \<Rightarrow> u32 \<Rightarrow> bool" where
  "should_discard policy e now current_step \<longleftrightarrow>
     se_status e = StRecovered \<and>
     (i64_sat_sub now (se_updated_at e) \<ge> rp_max_age_ms policy
      \<or> (case se_recovered_at_step e of None \<Rightarrow> False
         | Some step \<Rightarrow> sat_sub current_step step \<ge> rp_max_steps policy))"

record recovery_outcome =
  ro_restored :: "scratchpad_entry list"
  ro_isolated :: "scratchpad_entry list"
  ro_discarded_drafts :: nat

definition recover_step :: "scratchpad_entry \<Rightarrow> recovery_outcome \<Rightarrow> recovery_outcome" where
  "recover_step e outcome =
     (case se_status e of
        StConfirmed \<Rightarrow> outcome\<lparr>ro_restored := ro_restored outcome @ [e]\<rparr>
      | StDraft \<Rightarrow> outcome\<lparr>ro_discarded_drafts := ro_discarded_drafts outcome + 1\<rparr>
      | StRecovered \<Rightarrow> outcome\<lparr>ro_isolated := ro_isolated outcome @ [e\<lparr>se_trust := TrustUnverified\<rparr>]\<rparr>)"

definition stamp_isolated :: "i64 \<Rightarrow> u32 \<Rightarrow> scratchpad_entry \<Rightarrow> scratchpad_entry" where
  "stamp_isolated now current_step e =
     e\<lparr>se_updated_at := now,
       se_recovered_at_step := Some (case se_recovered_at_step e of Some step \<Rightarrow> step | None \<Rightarrow> current_step)\<rparr>"

definition recover_after_restart :: "scratchpad_entry list \<Rightarrow> i64 \<Rightarrow> u32 \<Rightarrow> recovery_outcome" where
  "recover_after_restart entries now current_step =
     (let outcome = fold recover_step entries \<lparr>ro_restored = [], ro_isolated = [], ro_discarded_drafts = 0\<rparr>
      in outcome\<lparr>ro_isolated := map (stamp_isolated now current_step) (ro_isolated outcome)\<rparr>)"

section \<open>The envelope around external output\<close>

definition DATA_NOT_INSTRUCTIONS_OPEN :: string where
  "DATA_NOT_INSTRUCTIONS_OPEN = ''<data_not_instructions>''"

definition DATA_NOT_INSTRUCTIONS_CLOSE :: string where
  "DATA_NOT_INSTRUCTIONS_CLOSE = ''</data_not_instructions>''"

record envelope_check =
  en_injection_suspected :: bool
  en_markers :: "string list"

text \<open>English and Russian markers, the Russian ones as UTF-8 bytes.\<close>

definition INJECTION_MARKERS :: "string list" where
  "INJECTION_MARKERS =
     [''ignore previous'',
      ''ignore all previous'',
      ''disregard previous'',
      ''system:'',
      ''you are now'',
      ''new instructions'',
      [CHR 0xD0, CHR 0xB8, CHR 0xD0, CHR 0xB3, CHR 0xD0, CHR 0xBD, CHR 0xD0, CHR 0xBE, CHR 0xD1, CHR 0x80,
       CHR 0xD0, CHR 0xB8, CHR 0xD1, CHR 0x80, CHR 0xD1, CHR 0x83, CHR 0xD0, CHR 0xB9, CHR 0x20, CHR 0xD0,
       CHR 0xBF, CHR 0xD1, CHR 0x80, CHR 0xD0, CHR 0xB5, CHR 0xD0, CHR 0xB4, CHR 0xD1, CHR 0x8B, CHR 0xD0,
       CHR 0xB4, CHR 0xD1, CHR 0x83, CHR 0xD1, CHR 0x89, CHR 0xD0, CHR 0xB8, CHR 0xD0, CHR 0xB5],
      [CHR 0xD0, CHR 0xBD, CHR 0xD0, CHR 0xBE, CHR 0xD0, CHR 0xB2, CHR 0xD1, CHR 0x8B, CHR 0xD0, CHR 0xB5,
       CHR 0x20, CHR 0xD0, CHR 0xB8, CHR 0xD0, CHR 0xBD, CHR 0xD1, CHR 0x81, CHR 0xD1, CHR 0x82, CHR 0xD1,
       CHR 0x80, CHR 0xD1, CHR 0x83, CHR 0xD0, CHR 0xBA, CHR 0xD1, CHR 0x86, CHR 0xD0, CHR 0xB8, CHR 0xD0,
       CHR 0xB8],
      [CHR 0xD1, CHR 0x82, CHR 0xD1, CHR 0x8B, CHR 0x20, CHR 0xD1, CHR 0x82, CHR 0xD0, CHR 0xB5, CHR 0xD0,
       CHR 0xBF, CHR 0xD0, CHR 0xB5, CHR 0xD1, CHR 0x80, CHR 0xD1, CHR 0x8C],
      [CHR 0xD0, CHR 0xB8, CHR 0xD0, CHR 0xB7, CHR 0xD0, CHR 0xBC, CHR 0xD0, CHR 0xB5, CHR 0xD0, CHR 0xBD,
       CHR 0xD0, CHR 0xB8, CHR 0x20, CHR 0x70, CHR 0x6F, CHR 0x6C, CHR 0x69, CHR 0x63, CHR 0x79],
      ''approval granted'',
      [CHR 0xD1, CHR 0x80, CHR 0xD0, CHR 0xB0, CHR 0xD0, CHR 0xB7, CHR 0xD1, CHR 0x80, CHR 0xD0, CHR 0xB5,
       CHR 0xD1, CHR 0x88, CHR 0xD0, CHR 0xB5, CHR 0xD0, CHR 0xBD, CHR 0xD0, CHR 0xBE, CHR 0x20, CHR 0xD0,
       CHR 0xB1, CHR 0xD0, CHR 0xB5, CHR 0xD0, CHR 0xB7, CHR 0x20, CHR 0xD0, CHR 0xBF, CHR 0xD0, CHR 0xBE,
       CHR 0xD0, CHR 0xB4, CHR 0xD1, CHR 0x82, CHR 0xD0, CHR 0xB2, CHR 0xD0, CHR 0xB5, CHR 0xD1, CHR 0x80,
       CHR 0xD0, CHR 0xB6, CHR 0xD0, CHR 0xB4, CHR 0xD0, CHR 0xB5, CHR 0xD0, CHR 0xBD, CHR 0xD0, CHR 0xB8,
       CHR 0xD1, CHR 0x8F]]"

text \<open>\<open>str::replace\<close> with a non-empty pattern: matches from the left, none overlapping.\<close>

fun str_replace :: "string \<Rightarrow> string \<Rightarrow> string \<Rightarrow> string" where
  "str_replace pat rep [] = []"
| "str_replace pat rep (c # cs) =
     (if is_prefix_of pat (c # cs) then rep @ str_replace pat rep (drop (length pat - 1) cs)
      else c # str_replace pat rep cs)"

definition wrap_external_output :: "unicode \<Rightarrow> string \<Rightarrow> string \<times> envelope_check" where
  "wrap_external_output U output =
     (let lowered = uc_to_lowercase U output;
          markers = filter (\<lambda>marker. str_contains lowered marker) INJECTION_MARKERS;
          wrapped = DATA_NOT_INSTRUCTIONS_OPEN @ newline
            @ str_replace DATA_NOT_INSTRUCTIONS_CLOSE ''&lt;/data_not_instructions&gt;'' output
            @ newline @ DATA_NOT_INSTRUCTIONS_CLOSE
      in (wrapped, \<lparr>en_injection_suspected = (markers \<noteq> []), en_markers = markers\<rparr>))"

definition external_output_can_confirm :: "envelope_check \<Rightarrow> bool \<Rightarrow> bool" where
  "external_output_can_confirm check provenance_verified \<longleftrightarrow>
     provenance_verified \<and> \<not> en_injection_suspected check"

section \<open>The closing marker ends the envelope and occurs nowhere else\<close>

lemma is_prefix_of_length: "is_prefix_of xs ys \<Longrightarrow> length xs \<le> length ys"
  by (induction xs ys rule: is_prefix_of.induct) auto

lemma is_prefix_of_self [simp]: "is_prefix_of xs (xs @ ys)"
  by (induction xs) auto

text \<open>No occurrence starts inside a text without the first character of the pattern.\<close>

lemma no_occurrence_inside:
  assumes "p \<notin> set xs" "i < length xs"
  shows "\<not> is_prefix_of (p # ps) (drop i (xs @ ys))"
proof -
  have "drop i (xs @ ys) = xs ! i # drop (Suc i) xs @ ys"
    using assms(2) by (simp add: Cons_nth_drop_Suc [symmetric])
  moreover have "xs ! i \<noteq> p" using assms nth_mem by metis
  ultimately show ?thesis by simp
qed

lemma str_replace_keeps_prefix:
  assumes "r \<notin> set q" "n \<notin> set q"
    and "is_prefix_of q (str_replace pat (r # rs) cs @ n # rest)"
  shows "is_prefix_of q cs"
  using assms
proof (induction q arbitrary: cs)
  case (Cons x q)
  show ?case
  proof (cases cs)
    case Nil
    with Cons.prems show ?thesis by simp
  next
    case (Cons d ds)
    with Cons.prems Cons.IH [of ds] show ?thesis by (auto split: if_splits)
  qed
qed simp

lemma str_replace_no_occurrence:
  assumes "p \<notin> set (r # rs)" "r \<notin> set (p # ps)" "n \<notin> set (p # ps)"
    and "i < length (str_replace (p # ps) (r # rs) s)"
  shows "\<not> is_prefix_of (p # ps) (drop i (str_replace (p # ps) (r # rs) s @ n # rest))"
  using assms(4)
proof (induction "p # ps" "r # rs" s arbitrary: i rule: str_replace.induct)
  case (2 c cs)
  show ?case
  proof (cases "is_prefix_of (p # ps) (c # cs)")
    case True
    show ?thesis
    proof (cases "i < length (r # rs)")
      case True
      with no_occurrence_inside [OF assms(1) True, of ps] \<open>is_prefix_of (p # ps) (c # cs)\<close> show ?thesis by simp
    next
      case False
      with \<open>is_prefix_of (p # ps) (c # cs)\<close> "2.hyps"(1) [of "i - length (r # rs)"] "2.prems" show ?thesis
        by (cases i) auto
    qed
  next
    case False
    show ?thesis
    proof (cases i)
      case 0
      have "is_prefix_of ps cs" if "is_prefix_of ps (str_replace (p # ps) (r # rs) cs @ n # rest)"
        using str_replace_keeps_prefix [OF _ _ that] assms(2,3) by simp
      with False 0 show ?thesis by auto
    next
      case (Suc j)
      with False "2.hyps"(2) [of j] "2.prems" show ?thesis by (auto split: if_splits)
    qed
  qed
qed simp

lemma envelope_closes_once:
  fixes i :: nat and out :: string
  defines "wrapped \<equiv> DATA_NOT_INSTRUCTIONS_OPEN @ newline
     @ str_replace DATA_NOT_INSTRUCTIONS_CLOSE ''&lt;/data_not_instructions&gt;'' out
     @ newline @ DATA_NOT_INSTRUCTIONS_CLOSE"
  shows "is_prefix_of DATA_NOT_INSTRUCTIONS_CLOSE (drop i wrapped)
     \<longleftrightarrow> i + length DATA_NOT_INSTRUCTIONS_CLOSE = length wrapped"
proof -
  let ?close = "DATA_NOT_INSTRUCTIONS_CLOSE" and ?open = "DATA_NOT_INSTRUCTIONS_OPEN"
  let ?body = "str_replace ?close ''&lt;/data_not_instructions&gt;'' out"
  obtain p ps where close: "?close = p # ps" "p = CHR ''<''"
    by (simp add: DATA_NOT_INSTRUCTIONS_CLOSE_def)
  obtain a where opn: "?open @ newline = p # a" "p \<notin> set a"
    by (simp add: DATA_NOT_INSTRUCTIONS_OPEN_def newline_def close)
  have body: "\<not> is_prefix_of ?close (drop j (?body @ CHR 0x0A # ?close))" if "j < length ?body" for j
    using that unfolding DATA_NOT_INSTRUCTIONS_CLOSE_def by (intro str_replace_no_occurrence) simp_all
  have tail: "is_prefix_of ?close (drop j (CHR 0x0A # ?close)) \<longleftrightarrow> j = 1" for j
  proof (cases j)
    case (Suc k)
    have "length (drop k ?close) < length ?close" if "0 < k" using that by (simp add: close(1))
    then have "is_prefix_of ?close (drop k ?close) \<longleftrightarrow> k = 0"
      using is_prefix_of_length [of ?close "drop k ?close"] is_prefix_of_self [of ?close "[]"] by fastforce
    with Suc show ?thesis by simp
  qed (simp add: close)
  have w: "wrapped = (p # a) @ ?body @ CHR 0x0A # ?close"
    unfolding wrapped_def opn(1) [symmetric] append_assoc by (simp add: newline_def)
  consider "i = 0" | "0 < i" "i < length (p # a)" | "length (p # a) \<le> i" "i - length (p # a) < length ?body"
    | "length (p # a) + length ?body \<le> i" by linarith
  then show ?thesis
  proof cases
    case 1
    then show ?thesis unfolding wrapped_def by (simp add: DATA_NOT_INSTRUCTIONS_OPEN_def DATA_NOT_INSTRUCTIONS_CLOSE_def)
  next
    case 2
    then have "\<not> is_prefix_of (p # ps) (drop (i - 1) (a @ ?body @ CHR 0x0A # ?close))"
      using opn(2) by (intro no_occurrence_inside) auto
    then show ?thesis unfolding w using 2 by (cases i) (auto simp: close(1))
  next
    case 3
    then show ?thesis unfolding w using body [of "i - length (p # a)"] by (cases i) auto
  next
    case 4
    then show ?thesis unfolding w using tail [of "i - length (p # a) - length ?body"] by (cases i) auto
  qed
qed

text \<open>External output cannot leave its envelope: whatever the output, the wrapped text begins with the
  opening marker, and the closing marker occurs in it at exactly one position, the very end. Output in
  which a marker of an injection is found cannot confirm a fact, provenance verified or not.\<close>

theorem wrap_external_output_closed:
  "let (wrapped, check) = wrap_external_output U output in
     is_prefix_of DATA_NOT_INSTRUCTIONS_OPEN wrapped
     \<and> (is_prefix_of DATA_NOT_INSTRUCTIONS_CLOSE (drop i wrapped)
          \<longleftrightarrow> i + length DATA_NOT_INSTRUCTIONS_CLOSE = length wrapped)
     \<and> (\<exists>marker\<in>set INJECTION_MARKERS. str_contains (uc_to_lowercase U output) marker)
         = (\<not> external_output_can_confirm check True)"
  using envelope_closes_once [of i "output"]
  by (simp add: wrap_external_output_def Let_def external_output_can_confirm_def filter_empty_conv)

section \<open>The life of an entry\<close>

text \<open>What the operations of an entry may do to it, in any order: confirm it, revise it, isolate it after a
  restart if it is a recovered one.\<close>

inductive entry_step :: "ext \<Rightarrow> scratchpad_entry \<Rightarrow> scratchpad_entry \<Rightarrow> bool" for E where
  confirm: "entry_step E e (entry_confirm basis now e)"
| revise: "entry_step E e (entry_revise E id' content now e)"
| isolate: "e' \<in> set (ro_isolated (recover_after_restart [e] now current_step)) \<Longrightarrow> entry_step E e e'"

inductive_cases entry_stepE: "entry_step E e e'"

text \<open>An entry is trusted only with a recorded basis, a draft never, and its hash is that of its content.\<close>

definition entry_inv :: "ext \<Rightarrow> scratchpad_entry \<Rightarrow> bool" where
  "entry_inv E e \<longleftrightarrow>
     (se_trust e = TrustConfirmed \<longleftrightarrow> se_status e = StConfirmed)
     \<and> (se_status e = StConfirmed \<longrightarrow> se_confirmation e \<noteq> None)
     \<and> (se_status e = StDraft \<longrightarrow> se_trust e = TrustExternal \<and> se_confirmation e = None)
     \<and> se_content_hash e = note_hash E (se_content e)"

lemma recover_fold:
  "fold recover_step es outcome =
     \<lparr>ro_restored = ro_restored outcome @ filter (\<lambda>e. se_status e = StConfirmed) es,
      ro_isolated = ro_isolated outcome
        @ map (\<lambda>e. e\<lparr>se_trust := TrustUnverified\<rparr>) (filter (\<lambda>e. se_status e = StRecovered) es),
      ro_discarded_drafts = ro_discarded_drafts outcome + length (filter (\<lambda>e. se_status e = StDraft) es)\<rparr>"
  by (induction es arbitrary: outcome) (auto simp: recover_step_def split: scratchpad_status.split)

lemma recover_after_restart_eq:
  "recover_after_restart es now current_step =
     \<lparr>ro_restored = filter (\<lambda>e. se_status e = StConfirmed) es,
      ro_isolated = map (\<lambda>e. stamp_isolated now current_step (e\<lparr>se_trust := TrustUnverified\<rparr>))
        (filter (\<lambda>e. se_status e = StRecovered) es),
      ro_discarded_drafts = length (filter (\<lambda>e. se_status e = StDraft) es)\<rparr>"
  by (simp add: recover_after_restart_def recover_fold)

lemma entry_draft_inv: "entry_inv E (entry_draft E id' task_id session_id category content now)"
  by (simp add: entry_inv_def entry_draft_def)

lemma entry_step_inv:
  assumes "entry_step E e e'" "entry_inv E e"
  shows "entry_inv E e'"
  using assms
  by cases (auto simp: entry_inv_def entry_confirm_def entry_revise_def recover_after_restart_eq stamp_isolated_def
      split: if_splits)

lemma to_context_item_fields:
  "ci_conflict_key (to_context_item e)
     = Some (''scratchpad/'' @ scratchpad_category_as_str (se_category e) @ ''/'' @ entry_root e)"
  "ci_kind (to_context_item e) = entry_kind e"
  "ci_trust (to_context_item e) = se_trust e"
  "ci_pinned (to_context_item e) = False"
  "ci_scratchpad_status (to_context_item e) = Some (se_status e)"
  "ci_version (to_context_item e) = se_revision e"
  "ci_priority (to_context_item e) = min (entry_priority (se_status e) (se_category e)) 100"
  by (auto simp: to_context_item_def Let_def builder_defs split: option.split)

lemma entry_step_key:
  assumes "entry_step E e e'"
  shows "ci_conflict_key (to_context_item e') = ci_conflict_key (to_context_item e)
    \<and> ci_version (to_context_item e) \<le> ci_version (to_context_item e')"
  using assms
proof cases
  case (revise id' content now)
  have "se_revision e \<le> sat_add (se_revision e) 1"
    by (simp add: word_le_nat_alt unat_sat_add min_def unat_le_max [of "se_revision e", simplified])
  with revise show ?thesis by (simp add: to_context_item_fields entry_revise_def entry_root_def)
qed (auto simp: to_context_item_fields entry_confirm_def entry_root_def recover_after_restart_eq stamp_isolated_def
    split: if_splits option.split)

text \<open>However an entry is confirmed, revised and isolated after a restart, in whatever order, it is
  trusted only while it is confirmed with a recorded basis, and its hash is the hash of its content; all
  its revisions are projected to context items with one conflict key and with versions that never
  decrease.\<close>

theorem entry_life_invariant:
  assumes "(entry_step E)\<^sup>*\<^sup>* (entry_draft E id' task_id session_id category content now) e"
  shows "entry_inv E e
    \<and> ci_conflict_key (to_context_item e)
        = Some (''scratchpad/'' @ scratchpad_category_as_str category @ ''/'' @ id')
    \<and> 1 \<le> ci_version (to_context_item e)"
  using assms
proof (induction rule: rtranclp_induct)
  case base
  show ?case using entry_draft_inv by (simp add: to_context_item_fields entry_draft_def entry_root_def)
next
  case (step e e')
  then show ?case using entry_step_inv entry_step_key by (metis order_trans)
qed

definition sample_note :: scratchpad_entry where
  "sample_note = entry_draft plain_ext ''n1'' ''t'' ''s'' SpDecisions ''use sqlite'' 5"

theorem entry_life_invariant_witness:
  "entry_inv plain_ext (entry_revise plain_ext ''n2'' ''use files'' 9 (entry_confirm UserConfirmed 7 sample_note))
   \<and> ci_conflict_key (to_context_item
       (entry_revise plain_ext ''n2'' ''use files'' 9 (entry_confirm UserConfirmed 7 sample_note)))
     = Some ''scratchpad/decisions/n1''"
proof -
  have "(entry_step plain_ext)\<^sup>*\<^sup>* sample_note
      (entry_revise plain_ext ''n2'' ''use files'' 9 (entry_confirm UserConfirmed 7 sample_note))"
    by (meson entry_step.confirm entry_step.revise rtranclp.rtrancl_into_rtrancl rtranclp.rtrancl_refl)
  from entry_life_invariant [OF this [unfolded sample_note_def]] show ?thesis
    by (simp add: sample_note_def)
qed

section \<open>Recovered entries stay isolated\<close>

text \<open>After a restart exactly the confirmed entries return to the working context, unchanged and in
  order; drafts are only counted. Every isolated entry is projected to an optional item on the lowest level
  of the hierarchy with an effective priority of at most 20, so it can neither act as an instruction nor
  outrank a confirmed fact.\<close>

theorem recover_after_restart_isolates:
  "let outcome = recover_after_restart entries now current_step in
     ro_restored outcome = filter (\<lambda>e. se_status e = StConfirmed) entries
     \<and> length (ro_restored outcome) + length (ro_isolated outcome) + ro_discarded_drafts outcome = length entries
     \<and> (\<forall>e\<in>set (ro_isolated outcome).
          \<not> is_mandatory_kind (to_context_item e)
          \<and> level_of (to_context_item e) = RecoveredUnverified
          \<and> effective_priority (to_context_item e) \<le> 20)"
proof -
  have "length entries = length (filter (\<lambda>e. se_status e = StConfirmed) entries)
      + length (filter (\<lambda>e. se_status e = StRecovered) entries) + length (filter (\<lambda>e. se_status e = StDraft) entries)"
    by (induction entries) (auto, metis scratchpad_status.exhaust)
  moreover have "\<not> is_mandatory_kind (to_context_item (stamp_isolated now current_step e))
      \<and> level_of (to_context_item (stamp_isolated now current_step e)) = RecoveredUnverified
      \<and> effective_priority (to_context_item (stamp_isolated now current_step e)) \<le> 20"
    if "se_status e = StRecovered" for e
    using that
    by (simp add: is_mandatory_kind_def level_of_def effective_priority_def Let_def to_context_item_fields
        entry_kind_def stamp_isolated_def)
  ultimately show ?thesis by (auto simp: recover_after_restart_eq Let_def)
qed

theorem recover_after_restart_isolates_witness:
  "\<exists>e. ro_isolated (recover_after_restart [sample_note, sample_note\<lparr>se_status := StRecovered\<rparr>] 9 3) = [e]
     \<and> effective_priority (to_context_item e) \<le> 20"
proof -
  have "ro_isolated (recover_after_restart [sample_note, sample_note\<lparr>se_status := StRecovered\<rparr>] 9 3)
      = [stamp_isolated 9 3 (sample_note\<lparr>se_status := StRecovered, se_trust := TrustUnverified\<rparr>)]"
    by (simp add: recover_after_restart_eq sample_note_def entry_draft_def)
  then show ?thesis
    using recover_after_restart_isolates [of "[sample_note, sample_note\<lparr>se_status := StRecovered\<rparr>]" 9 3]
    by (simp add: Let_def)
qed

text \<open>Each restart stamps the isolated entries with the current time, so the age limit of the recovery
  policy starts again and only the number of steps, kept from the first recovery, bounds their life.\<close>

lemma restart_renews_age:
  assumes "se_status e = StRecovered" "i64_sat_sub now now < rp_max_age_ms policy"
    and "se_recovered_at_step e = Some step" "sat_sub current_step step < rp_max_steps policy"
    and "e' \<in> set (ro_isolated (recover_after_restart [e] now current_step))"
  shows "\<not> should_discard policy e' now current_step"
  using assms by (auto simp: recover_after_restart_eq should_discard_def stamp_isolated_def not_le)

lemma scratchpad_category_round_trip: "scratchpad_category_parse (scratchpad_category_as_str c) = Some c"
  by (cases c) (simp_all add: scratchpad_category_parse_def)

end
