(* ===== verification/Artifact_Contract.thy ===== *)
theory Artifact_Contract
  imports Content_Hash Context_Item
begin

text \<open>
  \<open>crates/context-budget/src/artifact.rs\<close>: the contract of the task artifact store, that is the state of a
  reference, access, expiry, the plan of an eviction, the rule for reuse of stored content, and the
  bounded summary that stays in the context in place of the content.
\<close>

section \<open>References, quota, errors\<close>

definition ARTIFACT_STORE_CONTRACT_VERSION :: u32 where
  "ARTIFACT_STORE_CONTRACT_VERSION = 1"

datatype artifact_ref_status = RefLive | RefExpired | RefInvalid

fun artifact_ref_status_as_str :: "artifact_ref_status \<Rightarrow> string" where
  "artifact_ref_status_as_str RefLive = ''live''"
| "artifact_ref_status_as_str RefExpired = ''expired''"
| "artifact_ref_status_as_str RefInvalid = ''invalid''"

definition artifact_ref_status_parse :: "string \<Rightarrow> artifact_ref_status" where
  "artifact_ref_status_parse value' =
     (if value' = ''expired'' then RefExpired else if value' = ''invalid'' then RefInvalid else RefLive)"

record artifact_ref =
  ar_locator :: string
  ar_content_hash :: string
  ar_task_id :: string
  ar_owner_task_id :: string
  ar_bytes :: u64
  ar_privacy :: privacy
  ar_status :: artifact_ref_status
  ar_created_at :: i64
  ar_last_access_at :: i64
  ar_ttl_ms :: "i64 option"
  ar_summary :: string

definition is_readable :: "artifact_ref \<Rightarrow> bool" where
  "is_readable reference \<longleftrightarrow> ar_status reference = RefLive"

definition artifact_ttl_expired :: "artifact_ref \<Rightarrow> i64 \<Rightarrow> bool" where
  "artifact_ttl_expired reference now =
     (case ar_ttl_ms reference of None \<Rightarrow> False
      | Some ttl \<Rightarrow> now > i64_sat_add (ar_created_at reference) ttl)"

record artifact_quota =
  aq_per_task_bytes :: u64
  aq_total_bytes :: u64
  aq_default_ttl_ms :: i64

definition artifact_quota_default :: artifact_quota where
  "artifact_quota_default =
     \<lparr>aq_per_task_bytes = 256 * 1024 * 1024, aq_total_bytes = 2 * 1024 * 1024 * 1024,
      aq_default_ttl_ms = 7 * 24 * 60 * 60 * 1000\<rparr>"

datatype artifact_error =
    PrivacyForbidsOffload string
  | AccessDenied string string
  | NotReadable string string
  | HashMismatch string string string
  | QuotaExceeded string u64 u64
  | Backend string

fun artifact_error_to_string :: "artifact_error \<Rightarrow> string" where
  "artifact_error_to_string (PrivacyForbidsOffload label) = ''privacy label '' @ label @ '' forbids offload''"
| "artifact_error_to_string (AccessDenied locator task_id) =
     ''artifact '' @ locator @ '' is not accessible from task '' @ task_id"
| "artifact_error_to_string (NotReadable locator status) = ''artifact '' @ locator @ '' is '' @ status"
| "artifact_error_to_string (HashMismatch locator expected actual) =
     ''artifact '' @ locator @ '' failed the hash check: expected '' @ expected @ '', got '' @ actual"
| "artifact_error_to_string (QuotaExceeded scope needed available) =
     ''artifact quota exceeded: '' @ scope @ '' needs '' @ show_word needed @ '' bytes, '' @ show_word available @ '' available''"
| "artifact_error_to_string (Backend msg) = ''artifact store failed: '' @ msg"

definition access_allowed :: "artifact_ref \<Rightarrow> string \<Rightarrow> string list \<Rightarrow> bool" where
  "access_allowed reference task_id parent_chain \<longleftrightarrow>
     ar_owner_task_id reference = task_id
     \<or> (\<exists>ancestor\<in>set parent_chain. ancestor = ar_owner_task_id reference)"

section \<open>Eviction\<close>

record eviction_plan =
  ep_evicted :: "string list"
  ep_marked_expired :: "string list"
  ep_freed_bytes :: u64

record eviction_candidate =
  ec_locator :: string
  ec_bytes :: u64
  ec_last_access_at :: i64
  ec_ttl_expired :: bool
  ec_referenced :: bool

text \<open>Expired candidates first, then the least recently used, then the locator.\<close>

definition eviction_key :: "eviction_candidate \<Rightarrow> bool \<times> i64 \<times> string" where
  "eviction_key candidate = (\<not> ec_ttl_expired candidate, ec_last_access_at candidate, ec_locator candidate)"

fun evict_loop :: "u64 \<Rightarrow> eviction_candidate list \<Rightarrow> eviction_plan \<Rightarrow> eviction_plan" where
  "evict_loop needed [] plan = plan"
| "evict_loop needed (candidate # candidates) plan =
     (if ep_freed_bytes plan \<ge> needed then plan
      else evict_loop needed candidates
        (plan\<lparr>ep_evicted := ep_evicted plan @ [ec_locator candidate],
              ep_freed_bytes := sat_add (ep_freed_bytes plan) (ec_bytes candidate),
              ep_marked_expired := (if ec_referenced candidate then ep_marked_expired plan @ [ec_locator candidate]
                                    else ep_marked_expired plan)\<rparr>))"

definition plan_eviction :: "eviction_candidate list \<Rightarrow> u64 \<Rightarrow> eviction_plan" where
  "plan_eviction candidates needed_bytes =
     evict_loop needed_bytes (sort_key eviction_key candidates)
       \<lparr>ep_evicted = [], ep_marked_expired = [], ep_freed_bytes = 0\<rparr>"

record artifact_tombstone =
  at_content_hash :: string
  at_bytes :: u64
  at_removed_at :: i64
  at_reason :: string

definition dedup_hit_allowed :: "artifact_ref_status \<Rightarrow> bool \<Rightarrow> bool" where
  "dedup_hit_allowed existing_status tombstoned \<longleftrightarrow> \<not> tombstoned \<and> existing_status = RefLive"

section \<open>The bounded summary\<close>

text \<open>\<open>str::lines\<close>: lines end at a line feed, which is removed with a carriage return before it; text after
  the last line feed is a line of its own, as it is, unless it is empty.\<close>

definition strip_cr :: "string \<Rightarrow> string" where
  "strip_cr line = (if line \<noteq> [] \<and> last line = CR then butlast line else line)"

fun str_lines :: "string \<Rightarrow> string \<Rightarrow> string list" where
  "str_lines [] current = (if current = [] then [] else [current])"
| "str_lines (c # cs) current =
     (if c = LF then strip_cr current # str_lines cs [] else str_lines cs (current @ [c]))"

definition char_count :: "string \<Rightarrow> nat" where
  "char_count s = length (filter (\<lambda>c. \<not> is_continuation c) s)"

fun summary_loop :: "nat \<Rightarrow> string list \<Rightarrow> string \<times> nat \<Rightarrow> string \<times> nat" where
  "summary_loop max_chars [] (summary, used) = (summary, used)"
| "summary_loop max_chars (line # lines) (summary, used) =
     (if char_count summary + char_count line + 1 > max_chars then (summary, used)
      else summary_loop max_chars lines
        ((if summary \<noteq> [] then summary @ newline else summary) @ line, used + 1))"

text \<open>The note on omitted lines is Russian: line feed, ellipsis, \<open>yeshcho\<close>, the number, \<open>strok v artefakte\<close>.\<close>

definition omitted_note :: "nat \<Rightarrow> string" where
  "omitted_note omitted =
     newline @ [CHR 0xE2, CHR 0x80, CHR 0xA6, CHR 0x20, CHR 0xD0, CHR 0xB5, CHR 0xD1, CHR 0x89, CHR 0xD1, CHR 0x91,
      CHR 0x20]
     @ show_nat omitted @
     [CHR 0x20, CHR 0xD1, CHR 0x81, CHR 0xD1, CHR 0x82, CHR 0xD1, CHR 0x80, CHR 0xD0, CHR 0xBE, CHR 0xD0,
      CHR 0xBA, CHR 0x20, CHR 0xD0, CHR 0xB2, CHR 0x20, CHR 0xD0, CHR 0xB0, CHR 0xD1, CHR 0x80, CHR 0xD1,
      CHR 0x82, CHR 0xD0, CHR 0xB5, CHR 0xD1, CHR 0x84, CHR 0xD0, CHR 0xB0, CHR 0xD0, CHR 0xBA, CHR 0xD1,
      CHR 0x82, CHR 0xD0, CHR 0xB5]"

definition bounded_summary :: "string \<Rightarrow> nat \<Rightarrow> nat \<Rightarrow> string" where
  "bounded_summary content max_chars max_lines =
     (let all_lines = str_lines content [];
          (summary, used_lines) = summary_loop max_chars (take max_lines all_lines) ([], 0);
          omitted = length all_lines - used_lines
      in if omitted > 0 then summary @ omitted_note omitted else summary)"

section \<open>An eviction stops as soon as it may\<close>

lemma evict_loop_spec:
  "\<exists>k\<le>length cs. evict_loop needed cs plan =
      \<lparr>ep_evicted = ep_evicted plan @ map ec_locator (take k cs),
       ep_marked_expired = ep_marked_expired plan @ map ec_locator (filter ec_referenced (take k cs)),
       ep_freed_bytes = sat_add (ep_freed_bytes plan) (sat_sum (map ec_bytes (take k cs)))\<rparr>
    \<and> (needed \<le> sat_add (ep_freed_bytes plan) (sat_sum (map ec_bytes (take k cs))) \<or> k = length cs)
    \<and> (\<forall>j<k. sat_add (ep_freed_bytes plan) (sat_sum (map ec_bytes (take j cs))) < needed)"
proof (induction cs arbitrary: plan)
  case (Cons c cs)
  show ?case
  proof (cases "needed \<le> ep_freed_bytes plan")
    case True
    then show ?thesis by (intro exI [of _ 0]) simp
  next
    case False
    let ?plan = "plan\<lparr>ep_evicted := ep_evicted plan @ [ec_locator c],
      ep_freed_bytes := sat_add (ep_freed_bytes plan) (ec_bytes c),
      ep_marked_expired := (if ec_referenced c then ep_marked_expired plan @ [ec_locator c] else ep_marked_expired plan)\<rparr>"
    from Cons.IH [of ?plan] obtain k where k: "k \<le> length cs"
      "evict_loop needed cs ?plan =
      \<lparr>ep_evicted = ep_evicted ?plan @ map ec_locator (take k cs),
       ep_marked_expired = ep_marked_expired ?plan @ map ec_locator (filter ec_referenced (take k cs)),
       ep_freed_bytes = sat_add (ep_freed_bytes ?plan) (sat_sum (map ec_bytes (take k cs)))\<rparr>"
      "needed \<le> sat_add (ep_freed_bytes ?plan) (sat_sum (map ec_bytes (take k cs))) \<or> k = length cs"
      "\<forall>j<k. sat_add (ep_freed_bytes ?plan) (sat_sum (map ec_bytes (take j cs))) < needed" by blast
    have "sat_add (ep_freed_bytes plan) (sat_sum (map ec_bytes (take j (c # cs)))) < needed" if "j < Suc k" for j
      using that False k(4) by (cases j) (simp_all add: sat_sum_Cons sat_add_assoc)
    with False k(1-3) show ?thesis
      by (intro exI [of _ "Suc k"]) (simp add: sat_sum_Cons sat_add_assoc)
  qed
qed simp

text \<open>An eviction removes a prefix of the order of eviction (expired first, then least recently used,
  then by locator), reports exactly what it frees, marks as expired exactly the removed artifacts that are
  still referenced, frees what was asked for unless it removes everything, and would have freed too
  little with any shorter prefix.\<close>

theorem plan_eviction_minimal:
  "\<exists>k\<le>length candidates.
     let ordered = sort_key eviction_key candidates; freed = (\<lambda>n. sat_sum (map ec_bytes (take n ordered)))
     in plan_eviction candidates needed =
          \<lparr>ep_evicted = map ec_locator (take k ordered),
           ep_marked_expired = map ec_locator (filter ec_referenced (take k ordered)),
           ep_freed_bytes = freed k\<rparr>
      \<and> (needed \<le> freed k \<or> k = length candidates)
      \<and> (\<forall>j<k. freed j < needed)"
  using evict_loop_spec [of "sort_key eviction_key candidates" needed
      "\<lparr>ep_evicted = [], ep_marked_expired = [], ep_freed_bytes = 0\<rparr>"]
  by (simp add: plan_eviction_def Let_def)

definition sample_candidate :: "string \<Rightarrow> u64 \<Rightarrow> i64 \<Rightarrow> bool \<Rightarrow> eviction_candidate" where
  "sample_candidate locator bytes access expired =
     \<lparr>ec_locator = locator, ec_bytes = bytes, ec_last_access_at = access, ec_ttl_expired = expired, ec_referenced = True\<rparr>"

theorem plan_eviction_minimal_witness:
  "\<exists>k. ep_evicted (plan_eviction [sample_candidate ''a'' 40 1 False, sample_candidate ''b'' 50 9 True,
      sample_candidate ''c'' 60 2 False] 80)
    = map ec_locator (take k [sample_candidate ''b'' 50 9 True, sample_candidate ''a'' 40 1 False,
        sample_candidate ''c'' 60 2 False]) \<and> k = 2"
proof -
  let ?cs = "[sample_candidate ''a'' 40 1 False, sample_candidate ''b'' 50 9 True, sample_candidate ''c'' 60 2 False]"
  let ?os = "[sample_candidate ''b'' 50 9 True, sample_candidate ''a'' 40 1 False, sample_candidate ''c'' 60 2 False]"
  have ord: "sort_key eviction_key ?cs = ?os" by code_simp
  obtain k where k: "k \<le> length ?cs" "plan_eviction ?cs 80 =
      \<lparr>ep_evicted = map ec_locator (take k ?os), ep_marked_expired = map ec_locator (filter ec_referenced (take k ?os)),
       ep_freed_bytes = sat_sum (map ec_bytes (take k ?os))\<rparr>"
    using plan_eviction_minimal [of ?cs 80] unfolding ord Let_def by blast
  then have e: "ep_evicted (plan_eviction ?cs 80) = map ec_locator (take k ?os)" by (simp only: eviction_plan.simps)
  have "length (ep_evicted (plan_eviction ?cs 80)) = 2" by code_simp
  with e k(1) have "k = 2" by simp
  with e show ?thesis by blast
qed

section \<open>The summary is a prefix of whole lines\<close>

definition summary_body :: "string list \<Rightarrow> string" where
  "summary_body ls = str_join newline (dropWhile (\<lambda>l. l = []) ls)"

lemma str_join_snoc: "xs \<noteq> [] \<Longrightarrow> str_join sep (xs @ [x]) = str_join sep xs @ sep @ x"
  by (induction sep xs rule: str_join.induct) auto

lemma str_join_nonempty: "xs \<noteq> [] \<Longrightarrow> hd xs \<noteq> [] \<Longrightarrow> str_join sep xs \<noteq> []"
  by (cases "(sep, xs)" rule: str_join.cases) auto

lemma summary_body_snoc:
  "summary_body (ls @ [l]) = (if summary_body ls \<noteq> [] then summary_body ls @ newline else summary_body ls) @ l"
proof (cases "dropWhile (\<lambda>l. l = []) ls = []")
  case True
  then have "dropWhile (\<lambda>l. l = []) (ls @ [l]) = (if l = [] then [] else [l])"
    by (auto simp: dropWhile_append dropWhile_eq_Nil_conv)
  with True show ?thesis by (simp del: dropWhile_eq_Nil_conv add: summary_body_def)
next
  case False
  then have "dropWhile (\<lambda>l. l = []) (ls @ [l]) = dropWhile (\<lambda>l. l = []) ls @ [l]"
    by (auto simp: dropWhile_append dropWhile_eq_Nil_conv)
  moreover have "hd (dropWhile (\<lambda>l. l = []) ls) \<noteq> []" using False hd_dropWhile by blast
  ultimately show ?thesis using False by (simp add: summary_body_def str_join_snoc str_join_nonempty)
qed

lemma char_count_append [simp]: "char_count (a @ b) = char_count a + char_count b"
  by (simp add: char_count_def)

lemma char_count_newline [simp]: "char_count newline = 1"
  by code_simp

lemma summary_loop_spec:
  assumes "summary = summary_body pre" "char_count summary \<le> max_chars"
  shows "\<exists>k\<le>length ls. summary_loop max_chars ls (summary, used) = (summary_body (pre @ take k ls), used + k)
     \<and> char_count (summary_body (pre @ take k ls)) \<le> max_chars
     \<and> (k = length ls \<or> char_count (summary_body (pre @ take k ls)) + char_count (ls ! k) + 1 > max_chars)"
  using assms
proof (induction ls arbitrary: pre summary used)
  case (Cons l ls)
  let ?summary = "(if summary \<noteq> [] then summary @ newline else summary) @ l"
  show ?case
  proof (cases "char_count summary + char_count l + 1 > max_chars")
    case True
    then show ?thesis using Cons.prems by (intro exI [of _ 0]) simp
  next
    case False
    have body: "?summary = summary_body (pre @ [l])" by (simp only: Cons.prems(1) summary_body_snoc)
    have "char_count ?summary \<le> max_chars" using False by auto
    from Cons.IH [OF body this, of "used + 1"] obtain k where k: "k \<le> length ls"
      "summary_loop max_chars ls (?summary, used + 1) = (summary_body ((pre @ [l]) @ take k ls), used + 1 + k)"
      "char_count (summary_body ((pre @ [l]) @ take k ls)) \<le> max_chars"
      "k = length ls \<or> char_count (summary_body ((pre @ [l]) @ take k ls)) + char_count (ls ! k) + 1 > max_chars"
      by blast
    then show ?thesis using False by (intro exI [of _ "Suc k"]) auto
  qed
qed simp

text \<open>The summary of a content is its first lines, as many as the two limits allow and never a part of a
  line, without leading empty lines and within the limit of characters; if lines are missing, a note with
  their exact number follows.\<close>

theorem bounded_summary_whole_lines:
  "let ls = str_lines content [] in
   \<exists>k\<le>min max_lines (length ls).
     bounded_summary content max_chars max_lines
       = summary_body (take k ls) @ (if k < length ls then omitted_note (length ls - k) else [])
     \<and> char_count (summary_body (take k ls)) \<le> max_chars
     \<and> (k = min max_lines (length ls) \<or> char_count (summary_body (take k ls)) + char_count (ls ! k) + 1 > max_chars)"
proof -
  let ?ls = "str_lines content []"
  have "summary_body [] = []" by (simp add: summary_body_def)
  with summary_loop_spec [of "[]" "[]" max_chars "take max_lines ?ls" 0] obtain k where k: "k \<le> min max_lines (length ?ls)"
    "summary_loop max_chars (take max_lines ?ls) ([], 0) = (summary_body (take k (take max_lines ?ls)), k)"
    "char_count (summary_body (take k (take max_lines ?ls))) \<le> max_chars"
    "k = min max_lines (length ?ls) \<or> char_count (summary_body (take k (take max_lines ?ls))) + char_count (take max_lines ?ls ! k) + 1 > max_chars"
    by (auto simp: char_count_def min.commute)
  have tk: "take k (take max_lines ?ls) = take k ?ls" using k(1) by (simp add: min_absorb2)
  have nth: "take max_lines ?ls ! k = ?ls ! k" if "k \<noteq> min max_lines (length ?ls)"
    using k(1) that by (intro nth_take) (simp add: min_def split: if_splits)
  have "k = min max_lines (length ?ls) \<or> char_count (summary_body (take k ?ls)) + char_count (?ls ! k) + 1 > max_chars"
    using k(4) nth unfolding tk by metis
  then show ?thesis
    unfolding Let_def using k(1-3) [unfolded tk] by (intro exI [of _ k]) (auto simp: bounded_summary_def Let_def)
qed

end
