(* ===== verification/Glob_Pattern.thy ===== *)
theory Glob_Pattern
  imports Unicode_Text
begin

text \<open>
  \<open>crates/permissions/src/pattern.rs\<close>: the glob matcher of the permission rules, a loop over two positions
  that goes back to the last star on a mismatch. The loop is a partial function, so that a run that never
  ends would be the value \<^const>\<open>None\<close>; it is shown to end for every input.
\<close>

section \<open>The loop\<close>

text \<open>State: position in the pattern, position in the value, position of the last star, value position to
  retry from. Result: \<open>Some None\<close> for \<open>return false\<close>, \<open>Some (Some p)\<close> when the value is used up.\<close>

partial_function (option) glob_loop ::
  "string list \<Rightarrow> string list \<Rightarrow> nat \<Rightarrow> nat \<Rightarrow> nat option \<Rightarrow> nat \<Rightarrow> nat option option" where
  "glob_loop pattern value' p v star retry =
     (if v < length value'
      then if p < length pattern \<and> (pattern ! p = ''?'' \<or> pattern ! p = value' ! v)
           then glob_loop pattern value' (p + 1) (v + 1) star retry
           else if p < length pattern \<and> pattern ! p = ''*''
           then glob_loop pattern value' (p + 1) v (Some p) v
           else case star of
             Some star_pos \<Rightarrow> glob_loop pattern value' (star_pos + 1) (retry + 1) star (retry + 1)
           | None \<Rightarrow> Some None
      else Some (Some p))"

declare glob_loop.simps [code]

definition glob_chars :: "string list \<Rightarrow> string list \<Rightarrow> bool" where
  "glob_chars pattern value' =
     (case glob_loop pattern value' 0 0 None 0 of
        Some (Some p) \<Rightarrow> dropWhile (\<lambda>c. c = ''*'') (drop p pattern) = []
      | Some None \<Rightarrow> False
      | None \<Rightarrow> False)" \<comment> \<open>the last case never arises: \<open>glob_loop_returns\<close>\<close>

definition glob_match :: "unicode \<Rightarrow> string \<Rightarrow> string \<Rightarrow> bool" where
  "glob_match U pattern value' =
     glob_chars (utf8_chars (uc_to_lowercase U pattern)) (utf8_chars (uc_to_lowercase U value'))"

section \<open>What a glob means\<close>

fun glob_spec :: "string list \<Rightarrow> string list \<Rightarrow> bool" where
  "glob_spec [] vs \<longleftrightarrow> vs = []"
| "glob_spec (c # ps) vs \<longleftrightarrow>
     (if c = ''*'' then \<exists>k\<le>length vs. glob_spec ps (drop k vs)
      else vs \<noteq> [] \<and> (c = ''?'' \<or> c = hd vs) \<and> glob_spec ps (tl vs))"

lemma glob_spec_end: "glob_spec ps [] \<longleftrightarrow> dropWhile (\<lambda>c. c = ''*'') ps = []"
  by (induction ps) auto

text \<open>A prefix without a star matches exactly as many characters as it has.\<close>

lemma glob_spec_starless:
  "glob_spec (xs @ ys) vs \<Longrightarrow> ''*'' \<notin> set xs \<Longrightarrow> length xs \<le> length vs \<and> glob_spec ys (drop (length xs) vs)"
proof (induction xs arbitrary: vs)
  case (Cons x xs)
  then have "glob_spec (xs @ ys) (tl vs)" "vs \<noteq> []" by (auto split: if_splits)
  with Cons.IH [of "tl vs"] Cons.prems(2) show ?case by (cases vs) auto
qed simp

text \<open>A star may give back what it took.\<close>

lemma glob_spec_star_earlier:
  assumes "glob_spec (''*'' # ps) (drop j vs)" "i \<le> j"
  shows "glob_spec (''*'' # ps) (drop i vs)"
proof -
  from assms(1) obtain k where k: "k \<le> length vs - j" "glob_spec ps (drop (j + k) vs)"
    by (auto simp: add.commute)
  show ?thesis
  proof (cases "j \<le> length vs")
    case True
    have "glob_spec ps (drop (j - i + k) (drop i vs))" using k(2) assms(2) by simp
    then show ?thesis using k(1) assms(2) True by (auto intro!: exI [of _ "j - i + k"])
  next
    case False
    then have "glob_spec ps (drop (length vs - i) (drop i vs))" using k by simp
    then show ?thesis by (auto intro!: exI [of _ "length vs - i"])
  qed
qed

section \<open>The loop ends and finds what the glob means\<close>

text \<open>The invariant of the loop: the last star lies before the current position, and the pattern between them
  was matched against the value from the retry position on.\<close>

definition glob_inv :: "nat \<Rightarrow> nat \<Rightarrow> nat option \<Rightarrow> nat \<Rightarrow> bool" where
  "glob_inv p v star retry \<longleftrightarrow> (case star of None \<Rightarrow> True | Some s \<Rightarrow> s < p \<and> retry \<le> v \<and> p - (s + 1) = v - retry)"

definition glob_measure :: "string list \<Rightarrow> string list \<Rightarrow> nat \<times> nat \<times> nat option \<times> nat \<Rightarrow> nat \<times> nat \<times> nat" where
  "glob_measure ps vs st = (case st of (p, v, star, retry) \<Rightarrow>
     ((case star of None \<Rightarrow> Suc (length ps) | Some s \<Rightarrow> length ps - s), length vs - retry, length vs - v))"

lemma glob_loop_induct [consumes 1, case_names step]:
  assumes "glob_inv p v star retry"
    and "\<And>p v star retry. glob_inv p v star retry \<Longrightarrow>
      (\<And>p' v' star' retry'. glob_inv p' v' star' retry' \<Longrightarrow>
         (glob_measure ps vs (p', v', star', retry'), glob_measure ps vs (p, v, star, retry)) \<in> less_than <*lex*> less_than <*lex*> less_than
         \<Longrightarrow> P p' v' star' retry') \<Longrightarrow> P p v star retry"
  shows "P p v star retry"
proof -
  have "wf (inv_image (less_than <*lex*> less_than <*lex*> less_than) (glob_measure ps vs))" by blast
  then have "case x of (p, v, star, retry) \<Rightarrow> glob_inv p v star retry \<longrightarrow> P p v star retry" for x
    by (induction x) (use assms(2) in \<open>fastforce simp: in_inv_image\<close>)
  from this [of "(p, v, star, retry)"] assms(1) show ?thesis by simp
qed

text \<open>The three kinds of step keep the invariant and descend.\<close>

lemma glob_steps:
  assumes "glob_inv p v star retry" "v < length vs"
  shows "glob_inv (p + 1) (v + 1) star retry"
    "(glob_measure ps vs (p + 1, v + 1, star, retry), glob_measure ps vs (p, v, star, retry)) \<in> less_than <*lex*> less_than <*lex*> less_than"
    "glob_inv (p + 1) v (Some p) v"
    "p < length ps \<Longrightarrow> (glob_measure ps vs (p + 1, v, Some p, v), glob_measure ps vs (p, v, star, retry)) \<in> less_than <*lex*> less_than <*lex*> less_than"
    "star = Some s \<Longrightarrow> glob_inv (s + 1) (retry + 1) star (retry + 1)"
    "star = Some s \<Longrightarrow> (glob_measure ps vs (s + 1, retry + 1, star, retry + 1), glob_measure ps vs (p, v, star, retry)) \<in> less_than <*lex*> less_than <*lex*> less_than"
  using assms by (auto simp: glob_inv_def glob_measure_def split: option.splits)

lemma glob_loop_returns:
  "glob_inv p v star retry \<Longrightarrow> \<exists>r. glob_loop ps vs p v star retry = Some r"
proof (induction p v star retry rule: glob_loop_induct [where ps = ps and vs = vs])
  case (step p v star retry)
  show ?case
  proof (cases "v < length vs")
    case True
    note [simp] = glob_loop.simps [of ps vs p v star retry]
    show ?thesis
      using True step.IH [OF glob_steps(1,2) [OF step.hyps True]] step.IH [OF glob_steps(3,4) [OF step.hyps True]]
        step.IH [OF glob_steps(5,6) [OF step.hyps True]] by (auto split: option.split)
  qed (simp add: glob_loop.simps [of ps vs p v star retry])
qed

text \<open>Soundness: while the loop may go on, every way it can still succeed is a match of the whole pattern.\<close>

lemma glob_spec_step:
  assumes "p < length ps" "v < length vs" "ps ! p = ''?'' \<or> ps ! p = vs ! v"
  shows "glob_spec (drop (p + 1) ps) (drop (v + 1) vs) \<Longrightarrow> glob_spec (drop p ps) (drop v vs)"
    and "ps ! p \<noteq> ''*'' \<Longrightarrow> glob_spec (drop p ps) (drop v vs) \<Longrightarrow> glob_spec (drop (p + 1) ps) (drop (v + 1) vs)"
proof -
  have d: "drop p ps = ps ! p # drop (p + 1) ps" "drop v vs = vs ! v # drop (v + 1) vs"
    using assms(1,2) by (simp_all add: Cons_nth_drop_Suc)
  show "glob_spec (drop p ps) (drop v vs)" if "glob_spec (drop (p + 1) ps) (drop (v + 1) vs)"
    unfolding d using that assms(3) by (auto intro!: exI [of _ 1])
  show "glob_spec (drop (p + 1) ps) (drop (v + 1) vs)" if "ps ! p \<noteq> ''*''" "glob_spec (drop p ps) (drop v vs)"
    using that unfolding d by simp
qed

lemma glob_spec_star:
  assumes "p < length ps" "ps ! p = ''*''" "v \<le> length vs"
  shows "glob_spec (drop p ps) (drop v vs) \<longleftrightarrow> (\<exists>k\<ge>v. k \<le> length vs \<and> glob_spec (drop (p + 1) ps) (drop k vs))"
proof -
  have d: "drop p ps = ''*'' # drop (p + 1) ps" using assms by (metis Cons_nth_drop_Suc Suc_eq_plus1)
  show ?thesis
  proof
    assume "glob_spec (drop p ps) (drop v vs)"
    then obtain k where "k \<le> length vs - v" "glob_spec (drop (p + 1) ps) (drop (k + v) vs)" unfolding d by auto
    then show "\<exists>k\<ge>v. k \<le> length vs \<and> glob_spec (drop (p + 1) ps) (drop k vs)"
      using assms(3) by (intro exI [of _ "k + v"]) auto
  next
    assume "\<exists>k\<ge>v. k \<le> length vs \<and> glob_spec (drop (p + 1) ps) (drop k vs)"
    then obtain k where "k \<ge> v" "k \<le> length vs" "glob_spec (drop (p + 1) ps) (drop k vs)" by blast
    then show "glob_spec (drop p ps) (drop v vs)" unfolding d by (auto intro!: exI [of _ "k - v"])
  qed
qed

lemma glob_loop_sound:
  "glob_inv p v star retry \<Longrightarrow> glob_loop ps vs p v star retry = Some (Some q) \<Longrightarrow>
   glob_spec (drop q ps) [] \<Longrightarrow>
   glob_spec (drop p ps) (drop v vs)
   \<or> (\<exists>s k. star = Some s \<and> retry < k \<and> k \<le> length vs \<and> glob_spec (drop (s + 1) ps) (drop k vs))"
proof (induction p v star retry rule: glob_loop_induct [where ps = ps and vs = vs])
  case (step p v star retry)
  note loop = step.prems(1) [unfolded glob_loop.simps [of ps vs p v star retry]]
  show ?case
  proof (cases "v < length vs")
    case True
    consider (char) "p < length ps" "ps ! p = ''?'' \<or> ps ! p = vs ! v"
      | (star) "p < length ps" "ps ! p = ''*''" "\<not> (ps ! p = ''?'' \<or> ps ! p = vs ! v)"
      | (mismatch) "\<not> (p < length ps \<and> (ps ! p = ''?'' \<or> ps ! p = vs ! v))" "\<not> (p < length ps \<and> ps ! p = ''*'')"
      by blast
    then show ?thesis
    proof cases
      case char
      with step.IH [OF glob_steps(1,2) [OF step.hyps True]] loop True step.prems(2)
      show ?thesis using glob_spec_step(1) [OF char(1) True char(2)] by auto
    next
      case star
      with step.IH [OF glob_steps(3) [OF step.hyps True] glob_steps(4) [OF step.hyps True star(1)]] loop True step.prems(2)
      have "glob_spec (drop (p + 1) ps) (drop v vs) \<or> (\<exists>k. v < k \<and> k \<le> length vs \<and> glob_spec (drop (p + 1) ps) (drop k vs))"
        by auto
      then have "glob_spec (drop p ps) (drop v vs)"
        unfolding glob_spec_star [OF star(1,2) less_imp_le [OF True]]
        using True less_imp_le order_refl by metis
      then show ?thesis ..
    next
      case mismatch
      then obtain s where s: "star = Some s" "glob_loop ps vs (s + 1) (retry + 1) star (retry + 1) = Some (Some q)"
        using loop True by (auto split: option.splits)
      have "retry < length vs" using step.hyps True s(1) by (auto simp: glob_inv_def)
      with step.IH [OF glob_steps(5,6) [OF step.hyps True s(1)] s(2) step.prems(2)] s(1)
      show ?thesis by (auto intro: exI [of _ "retry + 1"])
    qed
  next
    case False
    with loop step.prems(2) show ?thesis by simp
  qed
qed

text \<open>Completeness, for values without a star character. The pattern between the last star and the current
  position holds no star.\<close>

definition starless_after :: "string list \<Rightarrow> nat \<Rightarrow> nat option \<Rightarrow> bool" where
  "starless_after ps p star \<longleftrightarrow>
     (\<forall>s. star = Some s \<longrightarrow> ''*'' \<notin> set (take (p - (s + 1)) (drop (s + 1) ps)) \<and> p \<le> length ps)"

text \<open>Going back further than the last star is never needed.\<close>

lemma glob_spec_after_star:
  assumes "glob_inv p v (Some s) retry" "starless_after ps p (Some s)"
    and "k \<le> length vs" "glob_spec (drop (s + 1) ps) (drop k vs)"
  shows "glob_spec (drop p ps) (drop (k + (v - retry)) vs) \<and> k + (v - retry) \<le> length vs"
proof -
  let ?xs = "take (p - (s + 1)) (drop (s + 1) ps)"
  have eq: "s < p" "retry \<le> v" "p - (s + 1) = v - retry" using assms(1) by (auto simp: glob_inv_def)
  have p: "p \<le> length ps" "''*'' \<notin> set ?xs" using assms(2) by (simp_all add: starless_after_def)
  have "v - retry \<le> length ps - (s + 1)" using eq(3) p(1) by (metis diff_le_mono)
  then have len: "length ?xs = v - retry" using eq(3) by simp
  have "drop p ps = drop (p - (s + 1)) (drop (s + 1) ps)" using eq(1) by simp
  then have "drop (s + 1) ps = ?xs @ drop p ps" by (simp only: append_take_drop_id)
  with assms(4) glob_spec_starless [of ?xs "drop p ps" "drop k vs"] p(2)
  have "length ?xs \<le> length (drop k vs)" "glob_spec (drop p ps) (drop (length ?xs) (drop k vs))" by auto
  with len assms(3) show ?thesis by (auto simp: add.commute)
qed

lemma starless_after_Suc:
  assumes "starless_after ps p star" "glob_inv p v star retry" "p < length ps" "ps ! p \<noteq> ''*''"
  shows "starless_after ps (p + 1) star"
  unfolding starless_after_def
proof (intro allI impI)
  fix s assume s: "star = Some s"
  then have sp: "s < p" using assms(2) by (simp add: glob_inv_def)
  have "p + 1 - (s + 1) = Suc (p - (s + 1))" using sp by simp
  then have "take (p + 1 - (s + 1)) (drop (s + 1) ps) = take (p - (s + 1)) (drop (s + 1) ps) @ [ps ! p]"
    using sp assms(3) by (simp only:) (subst take_Suc_conv_app_nth, auto)
  then show "''*'' \<notin> set (take (p + 1 - (s + 1)) (drop (s + 1) ps)) \<and> p + 1 \<le> length ps"
    using assms s by (simp add: starless_after_def)
qed

lemma glob_loop_complete:
  assumes "''*'' \<notin> set vs"
  shows "glob_inv p v star retry \<Longrightarrow> v \<le> length vs \<Longrightarrow>
   starless_after ps p star \<Longrightarrow>
   glob_spec (drop p ps) (drop v vs)
   \<or> (\<exists>s k. star = Some s \<and> retry < k \<and> k \<le> length vs \<and> glob_spec (drop (s + 1) ps) (drop k vs)) \<Longrightarrow>
   \<exists>q. glob_loop ps vs p v star retry = Some (Some q) \<and> glob_spec (drop q ps) []"
proof (induction p v star retry rule: glob_loop_induct [where ps = ps and vs = vs])
  case (step p v star retry)
  have later: "glob_spec (drop p ps) (drop (k + (v - retry)) vs) \<and> k + (v - retry) \<le> length vs"
    if "star = Some s" "k \<le> length vs" "glob_spec (drop (s + 1) ps) (drop k vs)" for s k
    using glob_spec_after_star step.hyps step.prems(2) that by blast
  show ?case
  proof (cases "v < length vs")
    case True
    consider (char) "p < length ps" "ps ! p = ''?'' \<or> ps ! p = vs ! v"
      | (star) "p < length ps" "ps ! p = ''*''" "\<not> (ps ! p = ''?'' \<or> ps ! p = vs ! v)"
      | (mismatch) "\<not> (p < length ps \<and> (ps ! p = ''?'' \<or> ps ! p = vs ! v))" "\<not> (p < length ps \<and> ps ! p = ''*'')"
      by blast
    then show ?thesis
    proof cases
      case char
      have ns: "ps ! p \<noteq> ''*''" using char assms True nth_mem by fastforce
      note starless_after_Suc [OF step.prems(2) step.hyps char(1) ns]
      with step.IH [OF glob_steps(1,2) [OF step.hyps True]] True char
        glob_spec_step(2) [OF char(1) True char(2) ns] step.prems(3)
      show ?thesis unfolding glob_loop.simps [of ps vs p v star retry] by auto
    next
      case star
      have "glob_spec (drop p ps) (drop v vs)"
        using step.prems(3)
      proof (elim disjE exE conjE)
        fix s k assume s: "star = Some s" "retry < k" "k \<le> length vs" "glob_spec (drop (s + 1) ps) (drop k vs)"
        have d: "drop p ps = ''*'' # drop (p + 1) ps" using star(1,2) by (metis Cons_nth_drop_Suc Suc_eq_plus1)
        have "v \<le> k + (v - retry)" using s(2) by simp
        then show ?thesis using later [OF s(1,3,4)] unfolding d by (blast intro: glob_spec_star_earlier)
      qed
      then obtain k where "k \<ge> v" "k \<le> length vs" "glob_spec (drop (p + 1) ps) (drop k vs)"
        unfolding glob_spec_star [OF star(1,2) less_imp_le [OF True]] by blast
      then have "glob_spec (drop (p + 1) ps) (drop v vs) \<or> (\<exists>k. v < k \<and> k \<le> length vs \<and> glob_spec (drop (p + 1) ps) (drop k vs))"
        by (cases "k = v") auto
      with step.IH [OF glob_steps(3) [OF step.hyps True] glob_steps(4) [OF step.hyps True star(1)]] True star
      show ?thesis unfolding starless_after_def glob_loop.simps [of ps vs p v star retry] by auto
    next
      case mismatch
      have "\<not> glob_spec (drop p ps) (drop v vs)"
        using mismatch True by (cases "p < length ps") (auto simp: Cons_nth_drop_Suc [symmetric] hd_drop_conv_nth)
      then obtain s k where s: "star = Some s" "retry < k" "k \<le> length vs" "glob_spec (drop (s + 1) ps) (drop k vs)"
        using step.prems(3) by blast
      have "retry < length vs" "s + 1 \<le> length ps" using s step.hyps step.prems(2) by (auto simp: glob_inv_def starless_after_def)
      moreover have "glob_spec (drop (s + 1) ps) (drop (retry + 1) vs)
          \<or> (\<exists>k>retry + 1. k \<le> length vs \<and> glob_spec (drop (s + 1) ps) (drop k vs))"
        using s(2-4) by (cases "k = retry + 1") (auto intro!: exI [of _ k])
      ultimately show ?thesis
        using step.IH [OF glob_steps(5,6) [OF step.hyps True s(1)]] s(1) True mismatch
        unfolding glob_loop.simps [of ps vs p v star retry] starless_after_def by auto
    qed
  next
    case False
    then have "glob_spec (drop p ps) []" using step.prems(1,3) later by fastforce
    with False show ?thesis by (simp add: glob_loop.simps [of ps vs p v star retry])
  qed
qed

text \<open>The matcher ends for every pattern and value. What it accepts matches the glob, with a star for any
  run of characters and a question mark for one. Conversely it accepts every match whose value holds no
  star character.\<close>

theorem glob_chars_correct:
  "(\<exists>r. glob_loop ps vs 0 0 None 0 = Some r)
   \<and> (glob_chars ps vs \<longrightarrow> glob_spec ps vs)
   \<and> (''*'' \<notin> set vs \<longrightarrow> glob_spec ps vs \<longrightarrow> glob_chars ps vs)"
proof -
  have inv: "glob_inv 0 0 None 0" by (simp add: glob_inv_def)
  have "glob_spec ps vs" if "glob_chars ps vs"
    using that glob_loop_sound [OF inv, of ps vs] by (auto simp: glob_chars_def glob_spec_end split: option.splits)
  moreover have "glob_chars ps vs" if "''*'' \<notin> set vs" "glob_spec ps vs"
    using glob_loop_complete [OF that(1) inv, of ps] that(2) by (auto simp: glob_chars_def glob_spec_end starless_after_def)
  ultimately show ?thesis using glob_loop_returns [OF inv] by blast
qed

theorem glob_chars_correct_witness:
  "glob_chars (utf8_chars ''git push*'') (utf8_chars ''git push origin'') \<and> glob_spec (utf8_chars ''git push*'') (utf8_chars ''git push origin'')"
proof -
  have "glob_chars (utf8_chars ''git push*'') (utf8_chars ''git push origin'')" by code_simp
  with glob_chars_correct [of "utf8_chars ''git push*''" "utf8_chars ''git push origin''"] show ?thesis by blast
qed

text \<open>A star character in the value is taken as an ordinary match for a star of the pattern, after which there
  is no star to go back to: a rule for \<open>rm *\<close> does not match the command \<open>rm *.o\<close>.\<close>

lemma glob_star_in_value:
  "\<not> glob_match plain_unicode ''rm *'' ''rm *.o''" "glob_spec (utf8_chars ''rm *'') (utf8_chars ''rm *.o'')"
  by code_simp+

end
