(* ===== verification/Permission_Scope.thy ===== *)
theory Permission_Scope
  imports Glob_Pattern Content_Hash
begin

text \<open>
  \<open>crates/permissions/src/lib.rs\<close>, the pure part: normalisation of scopes, the match of a path grant, the
  fingerprint of a tool input and the hash that binds an approval to a call.

  SHA-256, the JSON string escape and the display of a fractional number are fields of the record \<open>ext\<close> of
  \<open>Content_Hash\<close>. A binary64 number is given by its bits, so that the integral numbers the fingerprint
  prints without a fraction are computed here.
\<close>

section \<open>Scopes\<close>

text \<open>\<open>trim_start_matches("./")\<close>.\<close>

fun trim_dot_slash :: "string \<Rightarrow> string" where
  "trim_dot_slash (c # d # s) = (if c = CHR ''.'' \<and> d = CHR ''/'' then trim_dot_slash s else c # d # s)"
| "trim_dot_slash s = s"

definition normalize_scope_path :: "unicode \<Rightarrow> string \<Rightarrow> string" where
  "normalize_scope_path U path =
     (let normalized = trim_dot_slash (map (\<lambda>c. if c = CHR 0x5C then CHR ''/'' else c) (str_trim U path))
      in case strip_prefix ''//?/'' normalized of
           Some rest \<Rightarrow> rest
         | None \<Rightarrow> (case strip_prefix ''//./'' normalized of Some rest \<Rightarrow> rest | None \<Rightarrow> normalized))"

definition normalize_scope :: "unicode \<Rightarrow> string \<Rightarrow> string + string" where
  "normalize_scope U scope =
     (if LF \<in> set scope then Inl ''scope must not contain a newline''
      else let trimmed = str_trim U scope
           in if CHR ''/'' \<in> set trimmed \<or> CHR 0x5C \<in> set trimmed
              then Inr (normalize_scope_path U trimmed) else Inr trimmed)"

definition is_rememberable_scope :: "unicode \<Rightarrow> string \<Rightarrow> bool" where
  "is_rememberable_scope U scope =
     (let scope = str_trim U scope
      in scope \<noteq> [] \<and> scope \<noteq> ''workspace'' \<and> \<not> is_prefix_of ''http://'' scope \<and> \<not> is_prefix_of ''https://'' scope)"

definition path_matches :: "string \<Rightarrow> string \<Rightarrow> bool" where
  "path_matches grant_path request_path \<longleftrightarrow>
     grant_path = request_path
     \<or> is_prefix_of (if grant_path \<noteq> [] \<and> last grant_path = CHR ''/'' then grant_path else grant_path @ ''/'') request_path"

section \<open>The fingerprint of an input\<close>

definition FINGERPRINT_INPUT_VERSION :: u8 where
  "FINGERPRINT_INPUT_VERSION = 1"

definition SAFE_INTEGER_BOUND :: int where
  "SAFE_INTEGER_BOUND = 9007199254740991"

definition show_int :: "int \<Rightarrow> string" where
  "show_int i = (if i < 0 then ''-'' @ show_nat (nat (- i)) else show_nat (nat i))"

definition typed_int64 :: "ext \<Rightarrow> string \<Rightarrow> string" where
  "typed_int64 E decimal =
     ''{'' @ [CHR 0x22] @ ''type'' @ [CHR 0x22] @ '':'' @ [CHR 0x22] @ ''int64'' @ [CHR 0x22] @ '','' @ [CHR 0x22] @ ''value'' @ [CHR 0x22] @ '':''
     @ ext_json_escape E decimal @ ''}''"

fun as_i64 :: "json_number \<Rightarrow> int option" where
  "as_i64 (JPosInt n) = (if uint n \<le> i64_max then Some (uint n) else None)"
| "as_i64 (JNegInt i) = Some i"
| "as_i64 (JFloat f) = None"

fun as_u64 :: "json_number \<Rightarrow> u64 option" where
  "as_u64 (JPosInt n) = Some n"
| "as_u64 (JNegInt i) = None"
| "as_u64 (JFloat f) = None"

text \<open>The value of a finite binary64 number that has no fraction, from its sign, exponent and mantissa.\<close>

definition f64_integral :: "u64 \<Rightarrow> int option" where
  "f64_integral f =
     (let sign = (if unat f div 2 ^ 63 = 1 then - 1 else 1 :: int);
          e = unat f div 2 ^ 52 mod 2048;
          m = unat f mod 2 ^ 52;
          mant = (if e = 0 then m else m + 2 ^ 52);
          e = max e 1
      in if e = 2047 then None
         else if e \<ge> 1075 then Some (sign * int (mant * 2 ^ (e - 1075)))
         else if mant mod 2 ^ (1075 - e) = 0 then Some (sign * int (mant div 2 ^ (1075 - e)))
         else None)"

fun fingerprint_float :: "ext \<Rightarrow> json_number \<Rightarrow> string" where
  "fingerprint_float E (JFloat f) =
     (case f64_integral f of
        Some i \<Rightarrow> (if i = 0 then ''0'' else if \<bar>i\<bar> < 10 ^ 21 then show_int i else ext_f64_display E f)
      | None \<Rightarrow> ext_f64_display E f)"
| "fingerprint_float E _ = []" \<comment> \<open>integers are handled before\<close>

definition fingerprint_number :: "ext \<Rightarrow> json_number \<Rightarrow> string" where
  "fingerprint_number E value' =
     (case as_i64 value' of
        Some i \<Rightarrow> (if - SAFE_INTEGER_BOUND \<le> i \<and> i \<le> SAFE_INTEGER_BOUND then show_int i else typed_int64 E (show_int i))
      | None \<Rightarrow>
          (case as_u64 value' of
             Some n \<Rightarrow> (if uint n \<le> SAFE_INTEGER_BOUND then show_int (uint n) else typed_int64 E (show_int (uint n)))
           | None \<Rightarrow> fingerprint_float E value'))"

definition is_unpadded_base64url :: "string \<Rightarrow> bool" where
  "is_unpadded_base64url s \<longleftrightarrow>
     CHR ''='' \<notin> set s
     \<and> (\<forall>c\<in>set s. CHR ''0'' \<le> c \<and> c \<le> CHR ''9'' \<or> CHR ''A'' \<le> c \<and> c \<le> CHR ''Z''
          \<or> CHR ''a'' \<le> c \<and> c \<le> CHR ''z'' \<or> c = CHR ''-'' \<or> c = CHR ''_'')"

text \<open>\<open>encode_utf16\<close>: the code points of the UTF-8 characters as UTF-16 code units.\<close>

fun code_point :: "int list \<Rightarrow> int" where
  "code_point [a] = a"
| "code_point [a, b] = a mod 32 * 64 + b mod 64"
| "code_point [a, b, c] = a mod 16 * 4096 + b mod 64 * 64 + c mod 64"
| "code_point [a, b, c, d] = a mod 8 * 262144 + b mod 64 * 4096 + c mod 64 * 64 + d mod 64"
| "code_point _ = 0"

definition utf16_units :: "int \<Rightarrow> int list" where
  "utf16_units cp =
     (if cp < 65536 then [cp] else [55296 + (cp - 65536) div 1024, 56320 + (cp - 65536) mod 1024])"

definition encode_utf16 :: "string \<Rightarrow> int list" where
  "encode_utf16 s = concat (map (\<lambda>c. utf16_units (code_point (map of_char c))) (utf8_chars s))"

definition quoted :: "string \<Rightarrow> string" where
  "quoted s = [CHR 0x22] @ s @ [CHR 0x22]"

text \<open>The members \<open>encoding\<close>, \<open>value\<close> and \<open>type\<close> of an object that announces encoded bytes.\<close>

definition bytes_value :: "(string \<times> json) list \<Rightarrow> string option" where
  "bytes_value members =
     (case (map_of members ''encoding'', map_of members ''value'', map_of members ''type'') of
        (Some (JString encoding), Some (JString v), Some (JString kind)) \<Rightarrow>
          (if kind = ''bytes'' \<and> encoding = ''base64url'' \<and> is_unpadded_base64url v then Some v else None)
      | _ \<Rightarrow> None)"

fun fingerprint_input :: "ext \<Rightarrow> json \<Rightarrow> string" where
  "fingerprint_input E JNull = ''null''"
| "fingerprint_input E (JBool b) = (if b then ''true'' else ''false'')"
| "fingerprint_input E (JNumber n) = fingerprint_number E n"
| "fingerprint_input E (JString s) = ext_json_escape E s"
| "fingerprint_input E (JArray xs) = ''['' @ str_join '','' (map (fingerprint_input E) xs) @ '']''"
| "fingerprint_input E (JObject members) =
     (case bytes_value members of
        Some v \<Rightarrow> ''{'' @ quoted ''type'' @ '':'' @ quoted ''bytes'' @ '','' @ quoted ''encoding'' @ '':'' @ quoted ''base64url''
                 @ '','' @ quoted ''value'' @ '':'' @ ext_json_escape E v @ ''}''
      | None \<Rightarrow>
          ''{'' @ str_join '',''
            (map (\<lambda>(key, fp). ext_json_escape E key @ '':'' @ fp)
               (sort_key (\<lambda>m. encode_utf16 (fst m)) (map (\<lambda>m. (fst m, fingerprint_input E (snd m))) members))) @ ''}'')"

definition canonical_call_hash :: "ext \<Rightarrow> string \<Rightarrow> string \<Rightarrow> json \<Rightarrow> string" where
  "canonical_call_hash E tool_name scope input =
     ext_sha256_hex E (tool_name @ newline @ scope @ newline @ fingerprint_input E input)"

section \<open>The hash binds tool, scope and fingerprint\<close>

lemma newline_frame_inj:
  "a @ newline @ b = c @ newline @ d \<Longrightarrow> LF \<notin> set a \<Longrightarrow> LF \<notin> set c \<Longrightarrow> a = c \<and> b = d"
proof (induction a arbitrary: c)
  case Nil
  then show ?case by (cases c) (auto simp: newline_def LF_def)
next
  case (Cons x a)
  then show ?case by (cases c) (auto simp: newline_def LF_def)
qed

text \<open>C39: Two calls with the same call hash are calls of the same tool, on the same scope, with the same
  fingerprint of the input, as long as tool names and scopes hold no line feed and the digest does not
  collide on the two payloads.\<close>

theorem call_hash_binds:
  assumes "canonical_call_hash E tool scope input = canonical_call_hash E tool' scope' input'"
    and "inj_on (ext_sha256_hex E) {tool @ newline @ scope @ newline @ fingerprint_input E input,
           tool' @ newline @ scope' @ newline @ fingerprint_input E input'}"
    and "LF \<notin> set tool" "LF \<notin> set tool'" "LF \<notin> set scope" "LF \<notin> set scope'"
  shows "tool = tool' \<and> scope = scope' \<and> fingerprint_input E input = fingerprint_input E input'"
proof -
  have eq: "tool @ newline @ (scope @ newline @ fingerprint_input E input)
      = tool' @ newline @ (scope' @ newline @ fingerprint_input E input')"
    using inj_onD [OF assms(2) assms(1) [unfolded canonical_call_hash_def]] by simp
  note outer = newline_frame_inj [OF eq assms(3,4)]
  from outer newline_frame_inj [OF conjunct2 [OF outer] assms(5,6)] show ?thesis by simp
qed

definition id_ext :: ext where
  "id_ext = \<lparr>ext_nfc = id, ext_sha256_hex = id, ext_json_parse = (\<lambda>_. None), ext_json_escape = id,
     ext_f64_as_int = (\<lambda>_. None), ext_f64_display = (\<lambda>_. [])\<rparr>"

theorem call_hash_binds_witness:
  "canonical_call_hash id_ext ''shell'' ''src'' (JObject [(''a'', JBool True), (''b'', JNull)])
     = canonical_call_hash id_ext ''shell'' ''src'' (JObject [(''b'', JNull), (''a'', JBool True)])
   \<and> fingerprint_input id_ext (JObject [(''a'', JBool True), (''b'', JNull)])
     = fingerprint_input id_ext (JObject [(''b'', JNull), (''a'', JBool True)])"
proof -
  have h: "canonical_call_hash id_ext ''shell'' ''src'' (JObject [(''a'', JBool True), (''b'', JNull)])
     = canonical_call_hash id_ext ''shell'' ''src'' (JObject [(''b'', JNull), (''a'', JBool True)])" by code_simp
  have "inj_on (ext_sha256_hex id_ext) A" for A by (simp add: id_ext_def inj_on_def)
  from call_hash_binds [OF h this] h show ?thesis by (simp add: LF_def)
qed

text \<open>The order of members does not matter, as long as no two keys share their UTF-16 units.\<close>

lemma fingerprint_member_order:
  assumes "mset members = mset members'" "distinct (map fst members)" "inj_on encode_utf16 (fst ` set members)"
  shows "fingerprint_input E (JObject members) = fingerprint_input E (JObject members')"
proof -
  have set: "set members = set members'" using assms(1) by (rule mset_eq_setD)
  have "mset (map fst members) = mset (map fst members')" using assms(1) by simp
  then have d: "distinct (map fst members')" using assms(2) by (metis mset_eq_imp_distinct_iff)
  have "map_of members k = Some v \<longleftrightarrow> map_of members' k = Some v" for k v
    by (simp add: map_of_eq_Some_iff [OF assms(2)] map_of_eq_Some_iff [OF d] set)
  then have "map_of members = map_of members'" by (intro ext) (metis not_None_eq)
  then have b: "bytes_value members = bytes_value members'" by (simp add: bytes_value_def)
  let ?f = "\<lambda>m. (fst m, fingerprint_input E (snd m))"
  have "sort_key (\<lambda>m. encode_utf16 (fst m)) (map ?f members) = sort_key (\<lambda>m. encode_utf16 (fst m)) (map ?f members')"
  proof (rule sort_key_canonical)
    show "mset (map ?f members) = mset (map ?f members')" using assms(1) by simp
    show "inj_on (\<lambda>m. encode_utf16 (fst m)) (set (map ?f members))"
    proof (rule inj_onI)
      fix x y assume xy: "x \<in> set (map ?f members)" "y \<in> set (map ?f members)" "encode_utf16 (fst x) = encode_utf16 (fst y)"
      then obtain m n where mn: "m \<in> set members" "n \<in> set members" "x = ?f m" "y = ?f n" by auto
      with xy(3) assms(3) have "fst m = fst n" by (auto dest: inj_onD)
      with mn assms(2) have "m = n" by (metis distinct_map_nth_unique)
      with mn show "x = y" by simp
    qed
  qed
  with b show ?thesis by (simp split: option.split)
qed

text \<open>An object that announces encoded bytes is fingerprinted by its three announcing members alone: whatever
  other members it has, the fingerprint and so the hash of the approved call stay the same.\<close>

lemma fingerprint_ignores_members:
  assumes "bytes_value members = Some v" "\<forall>m\<in>set extra. fst m \<notin> {''encoding'', ''value'', ''type''}"
  shows "canonical_call_hash E tool scope (JObject (extra @ members)) = canonical_call_hash E tool scope (JObject members)"
proof -
  have "map_of (extra @ members) k = map_of members k" if "k \<in> {''encoding'', ''value'', ''type''}" for k
    using assms(2) that by (induction extra) auto
  then have "bytes_value (extra @ members) = bytes_value members" by (simp add: bytes_value_def)
  with assms(1) show ?thesis by (simp add: canonical_call_hash_def)
qed

text \<open>Normalisation of a path is not idempotent: after an extended-length prefix a leading \<open>./\<close> stays.\<close>

lemma normalize_scope_path_twice:
  "normalize_scope_path plain_unicode ''//?/./src'' = ''./src''"
  "normalize_scope_path plain_unicode ''./src'' = ''src''"
  by code_simp+

end
