(* ===== verification/Permission_Data.thy ===== *)
theory Permission_Data
  imports Permission_Scope
begin

text \<open>
  \<open>crates/permissions/src/lib.rs\<close> and \<open>policy.rs\<close>: the data of the permission engine, previews of approvals, the
  identity of a call with its match against a request, and the policy rules.
\<close>

type_synonym uuid = "128 word"
type_synonym instant = nat \<comment> \<open>nanoseconds\<close>

section \<open>Data\<close>

datatype permission =
    FilesystemRead | FilesystemWrite | ShellExecute | GitRead | GitWrite | BrowserAccess | McpCall
  | MemorySearch | MicrophoneListen

datatype permission_mode = Ask | Allow | Deny

datatype permission_decision = Allowed | NeedsApproval | Denied

record approval_preview =
  ap_kind :: string
  ap_summary :: string
  ap_command :: "string option"
  ap_cwd :: "string option"
  ap_path :: "string option"
  ap_details :: "string option"
  ap_truncated :: bool

definition MAX_APPROVAL_PREVIEW_TEXT_BYTES :: nat where
  "MAX_APPROVAL_PREVIEW_TEXT_BYTES = 8 * 1024"

text \<open>\<open>str::is_char_boundary\<close> and the loop that goes back to a boundary.\<close>

definition is_char_boundary :: "string \<Rightarrow> nat \<Rightarrow> bool" where
  "is_char_boundary s i \<longleftrightarrow> i = 0 \<or> i = length s \<or> i < length s \<and> \<not> is_continuation (s ! i)"

fun boundary_back :: "string \<Rightarrow> nat \<Rightarrow> nat" where
  "boundary_back s 0 = 0"
| "boundary_back s (Suc n) = (if \<not> is_char_boundary s (Suc n) then boundary_back s n else Suc n)"

definition bound_preview_text :: "string \<Rightarrow> string \<times> bool" where
  "bound_preview_text s =
     (let e = boundary_back s (min (length s) MAX_APPROVAL_PREVIEW_TEXT_BYTES) in (take e s, e < length s))"

definition bound_preview_option :: "string option \<Rightarrow> string option \<times> bool" where
  "bound_preview_option v =
     (case v of None \<Rightarrow> (None, False)
      | Some s \<Rightarrow> (let (s, truncated) = bound_preview_text s in (Some s, truncated)))"

definition preview_bounded :: "approval_preview \<Rightarrow> approval_preview" where
  "preview_bounded p =
     (let (kind, kind_truncated) = bound_preview_text (ap_kind p);
          (summary, summary_truncated) = bound_preview_text (ap_summary p);
          (command, command_truncated) = bound_preview_option (ap_command p);
          (cwd, cwd_truncated) = bound_preview_option (ap_cwd p);
          (path, path_truncated) = bound_preview_option (ap_path p);
          (details, details_truncated) = bound_preview_option (ap_details p)
      in \<lparr>ap_kind = kind, ap_summary = summary, ap_command = command, ap_cwd = cwd, ap_path = path,
          ap_details = details,
          ap_truncated = (ap_truncated p \<or> kind_truncated \<or> summary_truncated \<or> command_truncated
            \<or> cwd_truncated \<or> path_truncated \<or> details_truncated)\<rparr>)"

text \<open>The summary is the UTF-8 text of the source.\<close>

definition preview_default :: approval_preview where
  "preview_default =
     \<lparr>ap_kind = ''operation'',
      ap_summary =
        [CHR 0xD0, CHR 0x9E, CHR 0xD0, CHR 0xBF, CHR 0xD0, CHR 0xB5, CHR 0xD1, CHR 0x80, CHR 0xD0, CHR 0xB0,
         CHR 0xD1, CHR 0x86, CHR 0xD0, CHR 0xB8, CHR 0xD1, CHR 0x8F, CHR 0x20, CHR 0xD1, CHR 0x82, CHR 0xD1,
         CHR 0x80, CHR 0xD0, CHR 0xB5, CHR 0xD0, CHR 0xB1, CHR 0xD1, CHR 0x83, CHR 0xD0, CHR 0xB5, CHR 0xD1,
         CHR 0x82, CHR 0x20, CHR 0xD1, CHR 0x80, CHR 0xD0, CHR 0xB0, CHR 0xD0, CHR 0xB7, CHR 0xD1, CHR 0x80,
         CHR 0xD0, CHR 0xB5, CHR 0xD1, CHR 0x88, CHR 0xD0, CHR 0xB5, CHR 0xD0, CHR 0xBD, CHR 0xD0, CHR 0xB8,
         CHR 0xD1, CHR 0x8F],
      ap_command = None, ap_cwd = None, ap_path = None, ap_details = None, ap_truncated = False\<rparr>"

record call_identity =
  cid_task_id :: uuid
  cid_session_id :: "uuid option"
  cid_tool_name :: string
  cid_permission :: permission
  cid_scope :: string
  cid_input :: json

record approval_request =
  ar_id :: uuid
  ar_task_id :: uuid
  ar_session_id :: "uuid option"
  ar_tool_name :: string
  ar_permission :: permission
  ar_scope :: string
  ar_command :: "string option"
  ar_call_hash :: string
  ar_preview :: approval_preview

definition call_matches :: "unicode \<Rightarrow> ext \<Rightarrow> call_identity \<Rightarrow> approval_request \<Rightarrow> bool" where
  "call_matches U E call request \<longleftrightarrow>
     ar_task_id request = cid_task_id call
     \<and> ar_session_id request = cid_session_id call
     \<and> ar_tool_name request = cid_tool_name call
     \<and> ar_permission request = cid_permission call
     \<and> ar_scope request = normalize_scope_path U (cid_scope call)
     \<and> ar_call_hash request = canonical_call_hash E (cid_tool_name call) (ar_scope request) (cid_input call)"

datatype approval_state = ApprovalPending | ApprovalGranted | ApprovalDenied

record approval_record =
  rec_request :: approval_request
  rec_state :: approval_state

record permission_check =
  pc_session_id :: "uuid option"
  pc_path :: "string option"
  pc_command :: "string option"

definition permission_check_default :: permission_check where
  "permission_check_default = \<lparr>pc_session_id = None, pc_path = None, pc_command = None\<rparr>"

record path_grant =
  pg_permission :: permission
  pg_path :: string
  pg_session_id :: "uuid option"
  pg_mode :: permission_mode
  pg_expires_at_ms :: "u64 option"

record session_override =
  so_session_id :: uuid
  so_permission :: permission
  so_mode :: permission_mode

record approval_audit_entry =
  ae_approval_id :: uuid
  ae_task_id :: uuid
  ae_session_id :: "uuid option"
  ae_tool_name :: string
  ae_permission :: permission
  ae_scope :: string
  ae_call_hash :: string
  ae_decision :: approval_state
  ae_at_ms :: u64
  ae_remembered_path :: bool

record permission_scopes_snapshot =
  ss_session_overrides :: "session_override list"
  ss_path_grants :: "path_grant list"

definition DEFAULT_TEMP_GRANT_TTL :: instant where
  "DEFAULT_TEMP_GRANT_TTL = 60 * 60 * 10 ^ 9"

definition MAX_AUDIT_ENTRIES :: nat where
  "MAX_AUDIT_ENTRIES = 200"

record stored_path_grant =
  sg_permission :: permission
  sg_path :: string
  sg_session_id :: "uuid option"
  sg_mode :: permission_mode
  sg_expires_at :: "instant option"

section \<open>Policy rules\<close>

record policy_rule =
  pr_permission :: permission
  pr_pattern :: string
  pr_mode :: permission_mode

type_synonym policy_rule_set = "policy_rule list"

definition policy_defaults :: policy_rule_set where
  "policy_defaults =
     [\<lparr>pr_permission = FilesystemRead, pr_pattern = ''*.env'', pr_mode = Deny\<rparr>,
      \<lparr>pr_permission = FilesystemRead, pr_pattern = ''*.env.*'', pr_mode = Deny\<rparr>]"

definition policy_resolve :: "unicode \<Rightarrow> policy_rule_set \<Rightarrow> permission \<Rightarrow> string \<Rightarrow> permission_mode option" where
  "policy_resolve U rules permission subject =
     map_option pr_mode
       (List.find (\<lambda>rule. pr_permission rule = permission \<and> glob_match U (pr_pattern rule) subject) (rev rules))"

section \<open>Previews\<close>

lemma boundary_back_le: "boundary_back s n \<le> n"
  by (induction n) (auto intro: le_SucI)

lemma boundary_back_boundary: "is_char_boundary s (boundary_back s n)"
  by (induction n) (simp_all add: is_char_boundary_def)

lemma boundary_back_max: "i \<le> n \<Longrightarrow> is_char_boundary s i \<Longrightarrow> i \<le> boundary_back s n"
  by (induction n) (auto simp: le_Suc_eq)

text \<open>The bounded text is the longest prefix of whole characters within the limit.\<close>

lemma bound_preview_text_longest:
  assumes "bound_preview_text s = (t, truncated)"
  shows "\<exists>k. t = take k s \<and> k \<le> length s \<and> k \<le> MAX_APPROVAL_PREVIEW_TEXT_BYTES \<and> is_char_boundary s k
    \<and> truncated = (k < length s)
    \<and> (\<forall>i\<le>min (length s) MAX_APPROVAL_PREVIEW_TEXT_BYTES. is_char_boundary s i \<longrightarrow> i \<le> k)"
  using assms boundary_back_le [of s "min (length s) MAX_APPROVAL_PREVIEW_TEXT_BYTES"]
  by (auto simp: bound_preview_text_def Let_def boundary_back_boundary boundary_back_max
      intro!: exI [of _ "boundary_back s (min (length s) MAX_APPROVAL_PREVIEW_TEXT_BYTES)"])

end
