(* ===== verification/Permission_Engine.thy ===== *)
theory Permission_Engine
  imports Permission_Data "HOL-Library.AList"
begin

text \<open>
  \<open>crates/permissions/src/lib.rs\<close>: the permission engine with its global modes, policy rules,
  session overrides, path grants, approvals and audit log.

  The engine is the record \<open>engine\<close>; every operation takes it and returns it with its result. What an
  operation reads from outside is an argument: the identifier \<open>Uuid::now_v7\<close> draws for an approval, the
  monotonic clock in nanoseconds and the wall clock in milliseconds. A hash map that is iterated is an
  association list, its order standing for the order of the iteration. The channel of the audit is the list
  of what was sent to it; logging is left out.
\<close>

section \<open>The engine\<close>

record engine =
  eg_modes :: "permission \<rightharpoonup> permission_mode"
  eg_policy_rules :: policy_rule_set
  eg_session_modes :: "((uuid \<times> permission) \<times> permission_mode) list"
  eg_path_grants :: "stored_path_grant list"
  eg_approvals :: "uuid \<rightharpoonup> approval_record"
  eg_audit :: "approval_audit_entry list"
  eg_audit_tx :: "approval_audit_entry list option"

definition engine_new :: engine where
  "engine_new =
     \<lparr>eg_modes = [FilesystemRead \<mapsto> Allow, FilesystemWrite \<mapsto> Ask, ShellExecute \<mapsto> Ask, GitRead \<mapsto> Allow,
        GitWrite \<mapsto> Ask, BrowserAccess \<mapsto> Ask, McpCall \<mapsto> Ask, MemorySearch \<mapsto> Ask, MicrophoneListen \<mapsto> Deny],
      eg_policy_rules = [], eg_session_modes = [], eg_path_grants = [], eg_approvals = Map.empty,
      eg_audit = [], eg_audit_tx = None\<rparr>"

definition attach_audit_sender :: "engine \<Rightarrow> engine" where
  "attach_audit_sender e = e\<lparr>eg_audit_tx := Some []\<rparr>"

definition engine_mode :: "engine \<Rightarrow> permission \<Rightarrow> permission_mode" where
  "engine_mode e permission = (case eg_modes e permission of Some mode \<Rightarrow> mode | None \<Rightarrow> Ask)"

definition set_mode :: "permission \<Rightarrow> permission_mode \<Rightarrow> engine \<Rightarrow> engine" where
  "set_mode permission mode e = e\<lparr>eg_modes := (eg_modes e)(permission \<mapsto> mode)\<rparr>"

definition set_all_modes :: "permission_mode \<Rightarrow> engine \<Rightarrow> engine" where
  "set_all_modes mode e =
     e\<lparr>eg_modes := fold (\<lambda>permission modes. modes(permission \<mapsto> mode))
        [FilesystemRead, FilesystemWrite, ShellExecute, GitRead, GitWrite, BrowserAccess, McpCall, MemorySearch]
        (eg_modes e)\<rparr>"

definition set_session_mode :: "uuid \<Rightarrow> permission \<Rightarrow> permission_mode \<Rightarrow> engine \<Rightarrow> engine" where
  "set_session_mode session_id permission mode e =
     e\<lparr>eg_session_modes := AList.update (session_id, permission) mode (eg_session_modes e)\<rparr>"

definition clear_session_mode :: "uuid \<Rightarrow> permission \<Rightarrow> engine \<Rightarrow> engine" where
  "clear_session_mode session_id permission e =
     e\<lparr>eg_session_modes := AList.delete (session_id, permission) (eg_session_modes e)\<rparr>"

definition same_grant :: "permission \<Rightarrow> string \<Rightarrow> uuid option \<Rightarrow> stored_path_grant \<Rightarrow> bool" where
  "same_grant permission path session_id grant \<longleftrightarrow>
     sg_permission grant = permission \<and> sg_path grant = path \<and> sg_session_id grant = session_id"

definition set_path_grant ::
  "unicode \<Rightarrow> permission \<Rightarrow> string \<Rightarrow> permission_mode \<Rightarrow> uuid option \<Rightarrow> instant option \<Rightarrow> instant \<Rightarrow> engine \<Rightarrow> engine" where
  "set_path_grant U permission path mode session_id ttl now e =
     (let path = normalize_scope_path U path;
          expires_at = map_option (\<lambda>duration. now + duration) ttl
      in e\<lparr>eg_path_grants :=
             filter (\<lambda>grant. \<not> same_grant permission path session_id grant) (eg_path_grants e)
             @ [\<lparr>sg_permission = permission, sg_path = path, sg_session_id = session_id, sg_mode = mode,
                 sg_expires_at = expires_at\<rparr>]\<rparr>)"

definition clear_path_grant :: "unicode \<Rightarrow> permission \<Rightarrow> string \<Rightarrow> uuid option \<Rightarrow> engine \<Rightarrow> engine" where
  "clear_path_grant U permission path session_id e =
     (let path = normalize_scope_path U path
      in e\<lparr>eg_path_grants := filter (\<lambda>grant. \<not> same_grant permission path session_id grant) (eg_path_grants e)\<rparr>)"

definition set_policy_rules :: "policy_rule_set \<Rightarrow> engine \<Rightarrow> engine" where
  "set_policy_rules rules e = e\<lparr>eg_policy_rules := rules\<rparr>"

subsection \<open>Checks\<close>

fun mode_to_decision :: "permission_mode \<Rightarrow> permission_decision" where
  "mode_to_decision Allow = Allowed"
| "mode_to_decision Ask = NeedsApproval"
| "mode_to_decision Deny = Denied"

definition grant_live :: "instant \<Rightarrow> stored_path_grant \<Rightarrow> bool" where
  "grant_live now grant = (case sg_expires_at grant of Some expires_at \<Rightarrow> now < expires_at | None \<Rightarrow> True)"

definition purge_expired_grants :: "instant \<Rightarrow> engine \<Rightarrow> engine" where
  "purge_expired_grants now e = e\<lparr>eg_path_grants := filter (grant_live now) (eg_path_grants e)\<rparr>"

definition better :: "nat \<Rightarrow> permission_mode \<Rightarrow> (nat \<times> permission_mode) option \<Rightarrow> (nat \<times> permission_mode) option" where
  "better rank mode best =
     (if (case best of Some (r, _) \<Rightarrow> rank > r | None \<Rightarrow> True) then Some (rank, mode) else best)"

fun path_mode_loop ::
  "permission \<Rightarrow> string \<Rightarrow> uuid option \<Rightarrow> instant \<Rightarrow> stored_path_grant list \<Rightarrow> (nat \<times> permission_mode) option
   \<Rightarrow> (nat \<times> permission_mode) option" where
  "path_mode_loop permission path session_id now [] best = best"
| "path_mode_loop permission path session_id now (grant # grants) best =
     (if sg_permission grant \<noteq> permission then path_mode_loop permission path session_id now grants best
      else if \<not> grant_live now grant then path_mode_loop permission path session_id now grants best
      else if \<not> path_matches (sg_path grant) path then path_mode_loop permission path session_id now grants best
      else case (sg_session_id grant, session_id) of
          (Some grant_session, Some session) \<Rightarrow>
            (if grant_session = session
             then path_mode_loop permission path session_id now grants
                    (better (1000 + length (sg_path grant)) (sg_mode grant) best)
             else path_mode_loop permission path session_id now grants best)
        | (Some _, None) \<Rightarrow> path_mode_loop permission path session_id now grants best
        | (None, _) \<Rightarrow>
            path_mode_loop permission path session_id now grants
              (better (length (sg_path grant)) (sg_mode grant) best))"

definition find_path_mode ::
  "permission \<Rightarrow> string \<Rightarrow> uuid option \<Rightarrow> instant \<Rightarrow> engine \<Rightarrow> permission_mode option" where
  "find_path_mode permission path session_id now e =
     map_option snd (path_mode_loop permission path session_id now (eg_path_grants e) None)"

definition check_subject :: "unicode \<Rightarrow> permission_check \<Rightarrow> string option \<Rightarrow> string" where
  "check_subject U check canonical_subject =
     (case map_option (normalize_scope_path U) canonical_subject of
        Some s \<Rightarrow> s
      | None \<Rightarrow> (case pc_command check of
            Some c \<Rightarrow> c
          | None \<Rightarrow> (case map_option (normalize_scope_path U) (pc_path check) of
                Some s \<Rightarrow> s
              | None \<Rightarrow> ''workspace'')))"

text \<open>The clock is read by the purge and again by the search of a grant.\<close>

definition check_scoped_inner ::
  "unicode \<Rightarrow> permission \<Rightarrow> permission_check \<Rightarrow> string option \<Rightarrow> instant \<Rightarrow> instant \<Rightarrow> engine \<Rightarrow> permission_decision \<times> engine" where
  "check_scoped_inner U permission check canonical_subject now now' e =
     (let e = purge_expired_grants now e;
          policy_mode = policy_resolve U (eg_policy_rules e) permission (check_subject U check canonical_subject)
      in (if policy_mode = Some Deny then Denied
          else case Option.bind (map_option (normalize_scope_path U) (pc_path check))
                      (\<lambda>path. find_path_mode permission path (pc_session_id check) now' e) of
            Some mode \<Rightarrow> mode_to_decision mode
          | None \<Rightarrow>
             (case Option.bind (pc_session_id check) (\<lambda>session_id. map_of (eg_session_modes e) (session_id, permission)) of
                Some mode \<Rightarrow> mode_to_decision mode
              | None \<Rightarrow>
                 (case policy_mode of
                    Some mode \<Rightarrow> mode_to_decision mode
                  | None \<Rightarrow> mode_to_decision (engine_mode e permission))), e))"

definition check_scoped_with_subject ::
  "unicode \<Rightarrow> permission \<Rightarrow> permission_check \<Rightarrow> string \<Rightarrow> instant \<Rightarrow> instant \<Rightarrow> engine \<Rightarrow> permission_decision \<times> engine" where
  "check_scoped_with_subject U permission check canonical_subject =
     check_scoped_inner U permission check (Some canonical_subject)"

definition check_scoped ::
  "unicode \<Rightarrow> permission \<Rightarrow> permission_check \<Rightarrow> instant \<Rightarrow> instant \<Rightarrow> engine \<Rightarrow> permission_decision \<times> engine" where
  "check_scoped U permission check = check_scoped_inner U permission check None"

definition check_global :: "unicode \<Rightarrow> permission \<Rightarrow> instant \<Rightarrow> instant \<Rightarrow> engine \<Rightarrow> permission_decision \<times> engine" where
  "check_global U permission = check_scoped U permission permission_check_default"

subsection \<open>Approvals\<close>

text \<open>\<open>push_audit\<close> holds the lock of the log, releases it and then sends.\<close>

definition log_audit :: "approval_audit_entry \<Rightarrow> engine \<Rightarrow> engine" where
  "log_audit entry e =
     (let audit = eg_audit e @ [entry];
          audit = (if length audit > MAX_AUDIT_ENTRIES then drop (length audit - MAX_AUDIT_ENTRIES) audit else audit)
      in e\<lparr>eg_audit := audit\<rparr>)"

definition send_audit :: "approval_audit_entry \<Rightarrow> engine \<Rightarrow> engine" where
  "send_audit entry e = e\<lparr>eg_audit_tx := map_option (\<lambda>sent. sent @ [entry]) (eg_audit_tx e)\<rparr>"

definition push_audit :: "approval_audit_entry \<Rightarrow> engine \<Rightarrow> engine" where
  "push_audit entry e = send_audit entry (log_audit entry e)"

definition audit_entry_of :: "approval_request \<Rightarrow> approval_state \<Rightarrow> u64 \<Rightarrow> bool \<Rightarrow> approval_audit_entry" where
  "audit_entry_of request state at_ms remembered_path =
     \<lparr>ae_approval_id = ar_id request, ae_task_id = ar_task_id request, ae_session_id = ar_session_id request,
      ae_tool_name = ar_tool_name request, ae_permission = ar_permission request, ae_scope = ar_scope request,
      ae_call_hash = ar_call_hash request, ae_decision = state, ae_at_ms = at_ms,
      ae_remembered_path = remembered_path\<rparr>"

definition build_request ::
  "unicode \<Rightarrow> ext \<Rightarrow> uuid \<Rightarrow> call_identity \<Rightarrow> string option \<Rightarrow> approval_preview \<Rightarrow> approval_request" where
  "build_request U E fresh_id call command preview =
     (let scope = normalize_scope_path U (cid_scope call)
      in \<lparr>ar_id = fresh_id, ar_task_id = cid_task_id call, ar_session_id = cid_session_id call,
          ar_tool_name = cid_tool_name call, ar_permission = cid_permission call, ar_scope = scope,
          ar_command = command, ar_call_hash = canonical_call_hash E (cid_tool_name call) scope (cid_input call),
          ar_preview = preview_bounded preview\<rparr>)"

definition insert_approval :: "approval_request \<Rightarrow> engine \<Rightarrow> engine" where
  "insert_approval request e =
     e\<lparr>eg_approvals := (eg_approvals e)(ar_id request \<mapsto> \<lparr>rec_request = request, rec_state = ApprovalPending\<rparr>)\<rparr>"

definition create_approval_scoped_for_call_with_command_and_preview ::
  "unicode \<Rightarrow> ext \<Rightarrow> uuid \<Rightarrow> u64 \<Rightarrow> call_identity \<Rightarrow> string option \<Rightarrow> approval_preview \<Rightarrow> engine \<Rightarrow> approval_request \<times> engine" where
  "create_approval_scoped_for_call_with_command_and_preview U E fresh_id now_ms call command preview e =
     (let request = build_request U E fresh_id call command preview;
          e = insert_approval request e;
          e = push_audit (audit_entry_of request ApprovalPending now_ms False) e
      in (request, e))"

definition create_approval_scoped_for_call_with_command ::
  "unicode \<Rightarrow> ext \<Rightarrow> uuid \<Rightarrow> u64 \<Rightarrow> call_identity \<Rightarrow> string option \<Rightarrow> engine \<Rightarrow> approval_request \<times> engine" where
  "create_approval_scoped_for_call_with_command U E fresh_id now_ms call command =
     create_approval_scoped_for_call_with_command_and_preview U E fresh_id now_ms call command preview_default"

definition create_approval_scoped_for_call ::
  "unicode \<Rightarrow> ext \<Rightarrow> uuid \<Rightarrow> u64 \<Rightarrow> uuid \<Rightarrow> uuid option \<Rightarrow> string \<Rightarrow> permission \<Rightarrow> string \<Rightarrow> json \<Rightarrow> engine \<Rightarrow> approval_request \<times> engine" where
  "create_approval_scoped_for_call U E fresh_id now_ms task_id session_id tool_name permission scope input =
     create_approval_scoped_for_call_with_command U E fresh_id now_ms
       \<lparr>cid_task_id = task_id, cid_session_id = session_id, cid_tool_name = tool_name,
        cid_permission = permission, cid_scope = scope, cid_input = input\<rparr> None"

definition create_approval_scoped ::
  "unicode \<Rightarrow> ext \<Rightarrow> uuid \<Rightarrow> u64 \<Rightarrow> uuid \<Rightarrow> uuid option \<Rightarrow> string \<Rightarrow> permission \<Rightarrow> string \<Rightarrow> engine \<Rightarrow> approval_request \<times> engine" where
  "create_approval_scoped U E fresh_id now_ms task_id session_id tool_name permission scope =
     create_approval_scoped_for_call U E fresh_id now_ms task_id session_id tool_name permission scope JNull"

definition create_approval ::
  "unicode \<Rightarrow> ext \<Rightarrow> uuid \<Rightarrow> u64 \<Rightarrow> uuid \<Rightarrow> string \<Rightarrow> permission \<Rightarrow> string \<Rightarrow> engine \<Rightarrow> approval_request \<times> engine" where
  "create_approval U E fresh_id now_ms task_id tool_name permission scope =
     create_approval_scoped_for_call U E fresh_id now_ms task_id None tool_name permission scope JNull"

text \<open>\<open>resolve_with_options\<close>: the section under the lock of the approvals, then the rest.\<close>

definition mark_approval :: "uuid \<Rightarrow> bool \<Rightarrow> engine \<Rightarrow> (approval_request \<times> approval_state) option \<times> engine" where
  "mark_approval id' granted e =
     (case eg_approvals e id' of
        None \<Rightarrow> (None, e)
      | Some record \<Rightarrow>
          (if rec_state record \<noteq> ApprovalPending then (None, e)
           else let state = (if granted then ApprovalGranted else ApprovalDenied)
                in (Some (rec_request record, state),
                    e\<lparr>eg_approvals := (eg_approvals e)(id' \<mapsto> record\<lparr>rec_state := state\<rparr>)\<rparr>)))"

definition remembers :: "unicode \<Rightarrow> approval_request \<Rightarrow> bool \<Rightarrow> bool \<Rightarrow> bool" where
  "remembers U request granted remember_path \<longleftrightarrow>
     granted \<and> remember_path \<and> is_rememberable_scope U (ar_scope request) \<and> ar_session_id request \<noteq> None"

definition resolve_with_options ::
  "unicode \<Rightarrow> uuid \<Rightarrow> bool \<Rightarrow> bool \<Rightarrow> instant \<Rightarrow> u64 \<Rightarrow> engine \<Rightarrow> approval_state option \<times> engine" where
  "resolve_with_options U id' granted remember_path now now_ms e =
     (case mark_approval id' granted e of
        (None, e) \<Rightarrow> (None, e)
      | (Some (request, state), e) \<Rightarrow>
          (let remembered_path = remembers U request granted remember_path;
               e = (if remembered_path
                    then set_path_grant U (ar_permission request) (ar_scope request) Allow (ar_session_id request)
                           (Some DEFAULT_TEMP_GRANT_TTL) now e
                    else e);
               e = push_audit (audit_entry_of request state now_ms remembered_path) e
           in (Some state, e)))"

definition resolve_approval :: "unicode \<Rightarrow> uuid \<Rightarrow> bool \<Rightarrow> instant \<Rightarrow> u64 \<Rightarrow> engine \<Rightarrow> approval_state option \<times> engine" where
  "resolve_approval U id' granted = resolve_with_options U id' granted False"

definition approval :: "engine \<Rightarrow> uuid \<Rightarrow> (approval_request \<times> approval_state) option" where
  "approval e id' = map_option (\<lambda>r. (rec_request r, rec_state r)) (eg_approvals e id')"

definition approval_matches_call :: "unicode \<Rightarrow> ext \<Rightarrow> engine \<Rightarrow> uuid \<Rightarrow> call_identity \<Rightarrow> approval_state option" where
  "approval_matches_call U E e id' call =
     Option.bind (eg_approvals e id')
       (\<lambda>record. if call_matches U E call (rec_request record) then Some (rec_state record) else None)"

definition claim_approval_for_call ::
  "unicode \<Rightarrow> ext \<Rightarrow> uuid \<Rightarrow> call_identity \<Rightarrow> engine \<Rightarrow> approval_state option \<times> engine" where
  "claim_approval_for_call U E id' call e =
     (case eg_approvals e id' of
        None \<Rightarrow> (None, e)
      | Some record \<Rightarrow>
          (if \<not> call_matches U E call (rec_request record) then (None, e)
           else (Some (rec_state record),
                 if rec_state record = ApprovalGranted then e\<lparr>eg_approvals := (eg_approvals e)(id' := None)\<rparr> else e)))"

definition approval_matches :: "engine \<Rightarrow> uuid \<Rightarrow> string \<Rightarrow> bool" where
  "approval_matches e id' call_hash =
     (case eg_approvals e id' of
        Some record \<Rightarrow> rec_state record = ApprovalGranted \<and> ar_call_hash (rec_request record) = call_hash
      | None \<Rightarrow> False)"

subsection \<open>Durable scopes\<close>

definition list_session_overrides :: "engine \<Rightarrow> session_override list" where
  "list_session_overrides e =
     map (\<lambda>((session_id, permission), mode). \<lparr>so_session_id = session_id, so_permission = permission, so_mode = mode\<rparr>)
       (eg_session_modes e)"

text \<open>\<open>saturating_duration_since\<close> is the truncated subtraction; \<open>as_millis() as u64\<close> wraps.\<close>

definition export_grant :: "instant \<Rightarrow> u64 \<Rightarrow> stored_path_grant \<Rightarrow> path_grant" where
  "export_grant now now_ms grant =
     \<lparr>pg_permission = sg_permission grant, pg_path = sg_path grant, pg_session_id = sg_session_id grant,
      pg_mode = sg_mode grant,
      pg_expires_at_ms = map_option (\<lambda>at. sat_add now_ms (of_nat ((at - now) div 10 ^ 6))) (sg_expires_at grant)\<rparr>"

definition list_path_grants :: "instant \<Rightarrow> instant \<Rightarrow> u64 \<Rightarrow> engine \<Rightarrow> path_grant list \<times> engine" where
  "list_path_grants now now' now_ms e =
     (let e = purge_expired_grants now e in (map (export_grant now' now_ms) (eg_path_grants e), e))"

definition export_scopes :: "instant \<Rightarrow> instant \<Rightarrow> u64 \<Rightarrow> engine \<Rightarrow> permission_scopes_snapshot \<times> engine" where
  "export_scopes now now' now_ms e =
     (let overrides = list_session_overrides e; (grants, e) = list_path_grants now now' now_ms e
      in (\<lparr>ss_session_overrides = overrides, ss_path_grants = grants\<rparr>, e))"

definition import_sessions :: "session_override list \<Rightarrow> ((uuid \<times> permission) \<times> permission_mode) list" where
  "import_sessions overrides =
     fold (\<lambda>item modes. AList.update (so_session_id item, so_permission item) (so_mode item) modes) overrides []"

definition import_grant :: "unicode \<Rightarrow> instant \<Rightarrow> u64 \<Rightarrow> path_grant \<Rightarrow> stored_path_grant option" where
  "import_grant U instant_now wall_now grant =
     (let stored = (\<lambda>expires_at. \<lparr>sg_permission = pg_permission grant, sg_path = normalize_scope_path U (pg_path grant),
            sg_session_id = pg_session_id grant, sg_mode = pg_mode grant, sg_expires_at = expires_at\<rparr>)
      in case pg_expires_at_ms grant of
           Some ms \<Rightarrow> (if ms \<le> wall_now then None
                      else Some (stored (Some (instant_now + unat (sat_sub ms wall_now) * 10 ^ 6))))
         | None \<Rightarrow> Some (stored None))"

definition import_scopes :: "unicode \<Rightarrow> instant \<Rightarrow> u64 \<Rightarrow> permission_scopes_snapshot \<Rightarrow> engine \<Rightarrow> engine" where
  "import_scopes U instant_now wall_now snapshot e =
     (let e = e\<lparr>eg_session_modes := import_sessions (ss_session_overrides snapshot)\<rparr>
      in e\<lparr>eg_path_grants := List.map_filter (import_grant U instant_now wall_now) (ss_path_grants snapshot)\<rparr>)"

section \<open>Which grant decides\<close>

text \<open>The rank of a grant for a check, if it applies: its permission, its life, its path and its session.\<close>

definition grant_rank :: "permission \<Rightarrow> string \<Rightarrow> uuid option \<Rightarrow> instant \<Rightarrow> stored_path_grant \<Rightarrow> nat option" where
  "grant_rank permission path session_id now grant =
     (if sg_permission grant = permission \<and> grant_live now grant \<and> path_matches (sg_path grant) path
      then (case sg_session_id grant of
              None \<Rightarrow> Some (length (sg_path grant))
            | Some s \<Rightarrow> (if session_id = Some s then Some (1000 + length (sg_path grant)) else None))
      else None)"

lemma path_mode_loop_Cons:
  "path_mode_loop permission path session_id now (grant # grants) best =
     path_mode_loop permission path session_id now grants
       (case grant_rank permission path session_id now grant of
          None \<Rightarrow> best | Some rank \<Rightarrow> better rank (sg_mode grant) best)"
  by (simp add: grant_rank_def split: option.split)

declare path_mode_loop.simps(2) [simp del]

text \<open>The loop keeps the first grant of the highest rank.\<close>

definition best_grant :: "(stored_path_grant \<Rightarrow> nat option) \<Rightarrow> stored_path_grant list \<Rightarrow> (nat \<times> permission_mode) option \<Rightarrow> bool" where
  "best_grant rank grants best \<longleftrightarrow>
     (case best of
        None \<Rightarrow> \<forall>g\<in>set grants. rank g = None
      | Some (r, m) \<Rightarrow> \<exists>before g after. grants = before @ g # after \<and> rank g = Some r \<and> sg_mode g = m
          \<and> (\<forall>h\<in>set before. \<forall>r'. rank h = Some r' \<longrightarrow> r' < r) \<and> (\<forall>h\<in>set after. \<forall>r'. rank h = Some r' \<longrightarrow> r' \<le> r))"

lemma best_grant_SomeI:
  assumes "grants = before @ g # after" "rank g = Some r" "sg_mode g = m"
    "\<And>h r'. h \<in> set before \<Longrightarrow> rank h = Some r' \<Longrightarrow> r' < r" "\<And>h r'. h \<in> set after \<Longrightarrow> rank h = Some r' \<Longrightarrow> r' \<le> r"
  shows "best_grant rank grants (Some (r, m))"
  unfolding best_grant_def option.case prod.case
  by (rule exI [of _ before], rule exI [of _ g], rule exI [of _ after]) (use assms in blast)

lemma best_grant_snoc:
  assumes "best_grant rank seen best"
  shows "best_grant rank (seen @ [g]) (case rank g of None \<Rightarrow> best | Some r \<Rightarrow> better r (sg_mode g) best)"
proof (cases best)
  case None
  with assms have "\<forall>h\<in>set seen. rank h = None" by (simp add: best_grant_def)
  then show ?thesis using None
    by (cases "rank g")
      (auto simp: best_grant_def [of _ _ None] better_def intro: best_grant_SomeI [where before = seen and after = "[]"])
next
  case (Some b)
  obtain r m where b: "b = (r, m)" by (cases b)
  from assms Some b obtain before k after where k: "seen = before @ k # after" "rank k = Some r" "sg_mode k = m"
    "\<forall>h\<in>set before. \<forall>r'. rank h = Some r' \<longrightarrow> r' < r" "\<forall>h\<in>set after. \<forall>r'. rank h = Some r' \<longrightarrow> r' \<le> r"
    by (auto simp: best_grant_def)
  show ?thesis
  proof (cases "\<exists>r'. rank g = Some r' \<and> r < r'")
    case True
    then obtain r' where r': "rank g = Some r'" "r < r'" by blast
    then have "\<forall>h\<in>set seen. \<forall>q. rank h = Some q \<longrightarrow> q < r'" using k by fastforce
    then show ?thesis using r' Some b
      by (auto simp: better_def intro: best_grant_SomeI [where before = seen and after = "[]"])
  next
    case False
    then have "(case rank g of None \<Rightarrow> best | Some r \<Rightarrow> better r (sg_mode g) best) = Some (r, m)"
      using Some b by (auto simp: better_def split: option.split)
    moreover have "\<forall>h\<in>set (after @ [g]). \<forall>r'. rank h = Some r' \<longrightarrow> r' \<le> r" using k(5) False by fastforce
    moreover have "seen @ [g] = before @ k # (after @ [g])" using k(1) by simp
    ultimately show ?thesis
      using best_grant_SomeI [of "seen @ [g]" before k "after @ [g]" rank r m] k(2-4) by auto
  qed
qed

lemma path_mode_loop_best:
  "best_grant (grant_rank permission path session_id now) seen best \<Longrightarrow>
   best_grant (grant_rank permission path session_id now) (seen @ grants)
     (path_mode_loop permission path session_id now grants best)"
proof (induction grants arbitrary: seen best)
  case (Cons g grants)
  from Cons.IH [OF best_grant_snoc [OF Cons.prems]] show ?case by (simp add: path_mode_loop_Cons)
qed simp

lemma find_path_mode_best:
  "\<exists>best. best_grant (grant_rank permission path session_id now) (eg_path_grants e) best
     \<and> find_path_mode permission path session_id now e = map_option snd best"
  using path_mode_loop_best [of permission path session_id now "[]" None "eg_path_grants e"]
  by (auto simp: find_path_mode_def best_grant_def)

text \<open>What \<open>find_path_mode\<close> returns is the mode of an applicable grant, and no applicable grant of another mode
  has a higher rank.\<close>

lemma find_path_mode_None:
  "find_path_mode permission path session_id now e = None \<longleftrightarrow>
     (\<forall>g\<in>set (eg_path_grants e). grant_rank permission path session_id now g = None)"
proof -
  obtain best where best: "best_grant (grant_rank permission path session_id now) (eg_path_grants e) best"
    and mode: "find_path_mode permission path session_id now e = map_option snd best"
    using find_path_mode_best by blast
  from best show ?thesis
    by (cases best) (auto simp: mode best_grant_def)
qed

lemma find_path_mode_SomeE:
  assumes "find_path_mode permission path session_id now e = Some mode"
  obtains g r where "g \<in> set (eg_path_grants e)" "grant_rank permission path session_id now g = Some r" "sg_mode g = mode"
    "\<And>h r'. h \<in> set (eg_path_grants e) \<Longrightarrow> grant_rank permission path session_id now h = Some r' \<Longrightarrow> r' \<le> r"
proof -
  obtain r where "best_grant (grant_rank permission path session_id now) (eg_path_grants e) (Some (r, mode))"
    using find_path_mode_best [of permission path session_id now e] unfolding assms by (force simp: eq_commute [of "Some _"])
  then obtain before g after where g: "eg_path_grants e = before @ g # after"
    "grant_rank permission path session_id now g = Some r" "sg_mode g = mode"
    "\<forall>h\<in>set before. \<forall>r'. grant_rank permission path session_id now h = Some r' \<longrightarrow> r' < r"
    "\<forall>h\<in>set after. \<forall>r'. grant_rank permission path session_id now h = Some r' \<longrightarrow> r' \<le> r"
    by (auto simp: best_grant_def)
  show thesis
  proof (rule that [of g r])
    show "r' \<le> r" if "h \<in> set (eg_path_grants e)" "grant_rank permission path session_id now h = Some r'" for h r'
      using g that by fastforce
  qed (use g in auto)
qed

section \<open>What an answer \<open>Allowed\<close> rests on\<close>

lemma purge_expired_grants_simps [simp]:
  "eg_modes (purge_expired_grants now e) = eg_modes e"
  "eg_policy_rules (purge_expired_grants now e) = eg_policy_rules e"
  "eg_session_modes (purge_expired_grants now e) = eg_session_modes e"
  "eg_approvals (purge_expired_grants now e) = eg_approvals e"
  "engine_mode (purge_expired_grants now e) = engine_mode e"
  by (simp_all add: purge_expired_grants_def engine_mode_def fun_eq_iff)

lemma mode_to_decision_Allowed [simp]: "mode_to_decision mode = Allowed \<longleftrightarrow> mode = Allow"
  by (cases mode) simp_all

text \<open>C8: A check answers \<open>Allowed\<close> only if no policy rule denies the subject and one source of authority allows:
  a path grant for this permission that covers the path, is live at both readings of the clock, belongs to this session
  or to all, and is not outranked; or, when no such grant of either mode applies, the override of the session; or,
  without override, the last matching policy rule; or, without rule, the global mode.\<close>

theorem check_allowed_justified:
  assumes "check_scoped_inner U permission check subject now now' e = (Allowed, e')"
  shows "let policy = policy_resolve U (eg_policy_rules e) permission (check_subject U check subject);
             rank = (\<lambda>path. grant_rank permission (normalize_scope_path U path) (pc_session_id check) now');
             no_grant = (\<forall>p. pc_path check = Some p \<longrightarrow>
               (\<forall>h\<in>set (eg_path_grants e). grant_live now h \<longrightarrow> rank p h = None));
             override = Option.bind (pc_session_id check) (\<lambda>s. map_of (eg_session_modes e) (s, permission))
         in policy \<noteq> Some Deny
            \<and> ((\<exists>p g r. pc_path check = Some p \<and> g \<in> set (eg_path_grants e) \<and> grant_live now g
                  \<and> rank p g = Some r \<and> sg_mode g = Allow
                  \<and> (\<forall>h\<in>set (eg_path_grants e). \<forall>r'. grant_live now h \<and> rank p h = Some r' \<longrightarrow> r' \<le> r))
               \<or> no_grant \<and> override = Some Allow
               \<or> no_grant \<and> override = None \<and> (policy = Some Allow \<or> policy = None \<and> engine_mode e permission = Allow))"
proof -
  let ?policy = "policy_resolve U (eg_policy_rules e) permission (check_subject U check subject)"
  have deny: "?policy \<noteq> Some Deny" using assms by (auto simp: check_scoped_inner_def Let_def)
  let ?path_mode = "Option.bind (map_option (normalize_scope_path U) (pc_path check))
    (\<lambda>path. find_path_mode permission path (pc_session_id check) now' (purge_expired_grants now e))"
  show ?thesis
  proof (cases ?path_mode)
    case None
    have "grant_rank permission (normalize_scope_path U p) (pc_session_id check) now' h = None"
      if "pc_path check = Some p" "h \<in> set (eg_path_grants e)" "grant_live now h" for p h
      using None that by (auto simp: find_path_mode_None purge_expired_grants_def)
    moreover from None assms deny have "Option.bind (pc_session_id check) (\<lambda>s. map_of (eg_session_modes e) (s, permission)) = Some Allow
      \<or> Option.bind (pc_session_id check) (\<lambda>s. map_of (eg_session_modes e) (s, permission)) = None
        \<and> (?policy = Some Allow \<or> ?policy = None \<and> engine_mode e permission = Allow)"
      by (auto simp: check_scoped_inner_def Let_def split: option.splits)
    ultimately show ?thesis using deny unfolding Let_def by blast
  next
    case (Some mode)
    with assms deny have mode: "mode = Allow" by (simp add: check_scoped_inner_def Let_def)
    from Some obtain p where p: "pc_path check = Some p"
      "find_path_mode permission (normalize_scope_path U p) (pc_session_id check) now' (purge_expired_grants now e) = Some mode"
      by (auto simp: bind_eq_Some_conv)
    from p(2) obtain g r where "g \<in> set (eg_path_grants e)" "grant_live now g"
      "grant_rank permission (normalize_scope_path U p) (pc_session_id check) now' g = Some r" "sg_mode g = Allow"
      "\<forall>h\<in>set (eg_path_grants e). \<forall>r'. grant_live now h
         \<and> grant_rank permission (normalize_scope_path U p) (pc_session_id check) now' h = Some r' \<longrightarrow> r' \<le> r"
      by (elim find_path_mode_SomeE) (auto simp: mode purge_expired_grants_def)
    with p(1) deny show ?thesis unfolding Let_def by blast
  qed
qed

definition example_engine :: engine where
  "example_engine =
     set_path_grant plain_unicode FilesystemWrite ''src'' Allow (Some 7) (Some 50) 0
       (set_path_grant plain_unicode FilesystemWrite ''src/secret'' Deny (Some 7) None 0
         (set_policy_rules policy_defaults engine_new))"

definition example_check :: "string \<Rightarrow> permission_check" where
  "example_check path = \<lparr>pc_session_id = Some 7, pc_path = Some path, pc_command = None\<rparr>"

theorem check_allowed_justified_witness:
  "fst (check_scoped_inner plain_unicode FilesystemWrite (example_check ''src/lib.rs'') None 10 20 example_engine) = Allowed
   \<and> fst (check_scoped_inner plain_unicode FilesystemWrite (example_check ''src/lib.rs'') None 10 60 example_engine) = NeedsApproval
   \<and> fst (check_scoped_inner plain_unicode FilesystemWrite (example_check ''src/secret/k'') None 10 20 example_engine) = Denied
   \<and> policy_resolve plain_unicode (eg_policy_rules example_engine) FilesystemWrite
       (check_subject plain_unicode (example_check ''src/lib.rs'') None) \<noteq> Some Deny"
proof -
  have a: "fst (check_scoped_inner plain_unicode FilesystemWrite (example_check ''src/lib.rs'') None 10 20 example_engine) = Allowed"
    by code_simp
  then obtain e' where "check_scoped_inner plain_unicode FilesystemWrite (example_check ''src/lib.rs'') None 10 20 example_engine = (Allowed, e')"
    by (metis prod.collapse)
  note check_allowed_justified [OF this]
  then have "policy_resolve plain_unicode (eg_policy_rules example_engine) FilesystemWrite
       (check_subject plain_unicode (example_check ''src/lib.rs'') None) \<noteq> Some Deny"
    unfolding Let_def by blast
  moreover have "fst (check_scoped_inner plain_unicode FilesystemWrite (example_check ''src/lib.rs'') None 10 60 example_engine) = NeedsApproval"
    "fst (check_scoped_inner plain_unicode FilesystemWrite (example_check ''src/secret/k'') None 10 20 example_engine) = Denied"
    by code_simp+
  ultimately show ?thesis using a by blast
qed

text \<open>A grant of the session decides over every grant for all sessions whose path is at most 1000 bytes longer; beyond
  that the constant 1000 in the rank is not enough, and the grant for all sessions decides.\<close>

lemma session_grant_preferred:
  assumes "g \<in> set (eg_path_grants e)" "sg_session_id g = Some s"
    and "grant_rank permission path (Some s) now g = Some r"
    and "\<forall>h\<in>set (eg_path_grants e). sg_session_id h = None \<longrightarrow> length (sg_path h) < 1000 + length (sg_path g)"
  shows "\<exists>h\<in>set (eg_path_grants e). sg_session_id h = Some s \<and> find_path_mode permission path (Some s) now e = Some (sg_mode h)"
proof -
  have "find_path_mode permission path (Some s) now e \<noteq> None"
  proof
    assume "find_path_mode permission path (Some s) now e = None"
    then have "best_grant (grant_rank permission path (Some s) now) (eg_path_grants e) None"
      using find_path_mode_best [of permission path "Some s" now e] by auto
    with assms(1,3) show False by (simp add: best_grant_def)
  qed
  then obtain mode where mode: "find_path_mode permission path (Some s) now e = Some mode" by blast
  from mode show ?thesis
  proof (rule find_path_mode_SomeE)
    fix h q
    assume h: "h \<in> set (eg_path_grants e)" "grant_rank permission path (Some s) now h = Some q" "sg_mode h = mode"
      and le: "\<And>k r'. k \<in> set (eg_path_grants e) \<Longrightarrow> grant_rank permission path (Some s) now k = Some r' \<Longrightarrow> r' \<le> q"
    have "r \<le> q" using le [OF assms(1,3)] .
    with assms h have "sg_session_id h \<noteq> None"
      by (auto simp: grant_rank_def split: if_splits option.splits)
    with h have "sg_session_id h = Some s" by (auto simp: grant_rank_def split: if_splits option.splits)
    with h mode show ?thesis by auto
  qed
qed

definition long_path :: string where
  "long_path = ''src/'' @ replicate 1001 (CHR ''a'')"

lemma global_grant_outranks_session:
  "find_path_mode FilesystemWrite long_path (Some 7) 0
     (engine_new\<lparr>eg_path_grants :=
        [\<lparr>sg_permission = FilesystemWrite, sg_path = ''src'', sg_session_id = Some 7, sg_mode = Deny, sg_expires_at = None\<rparr>,
         \<lparr>sg_permission = FilesystemWrite, sg_path = long_path, sg_session_id = None, sg_mode = Allow, sg_expires_at = None\<rparr>]\<rparr>)
   = Some Allow"
  by (simp add: find_path_mode_def path_mode_loop_Cons grant_rank_def grant_live_def path_matches_def long_path_def better_def)

section \<open>Scopes survive a restart and are never extended\<close>

lemma set_map_filter: "set (List.map_filter f xs) = {y. \<exists>x\<in>set xs. f x = Some y}"
  by (induction xs) (auto simp: map_filter_simps split: option.splits)

lemma alist_update_fresh: "k \<notin> fst ` set xs \<Longrightarrow> AList.update k v xs = xs @ [(k, v)]"
  by (induction xs) auto

lemma import_sessions_list:
  "distinct (map fst (eg_session_modes e)) \<Longrightarrow> import_sessions (list_session_overrides e) = eg_session_modes e"
proof -
  have "fold (\<lambda>item modes. AList.update (so_session_id item, so_permission item) (so_mode item) modes)
      (map (\<lambda>((s, p), m). \<lparr>so_session_id = s, so_permission = p, so_mode = m\<rparr>) xs) ys = ys @ xs"
    if "distinct (map fst (ys @ xs))" for xs ys :: "((uuid \<times> permission) \<times> permission_mode) list"
    using that
  proof (induction xs arbitrary: ys)
    case (Cons x xs)
    obtain s p m where x: "x = ((s, p), m)" by (metis prod.collapse)
    have "AList.update (s, p) m ys = ys @ [x]" using Cons.prems x by (simp add: alist_update_fresh)
    with Cons.IH [of "ys @ [x]"] Cons.prems x show ?case by simp
  qed simp
  from this [of "[]"] show "distinct (map fst (eg_session_modes e)) \<Longrightarrow> ?thesis"
    by (simp add: import_sessions_def list_session_overrides_def)
qed

text \<open>One grant: what it keeps, and the rest of its life. Times are compared as nanoseconds: the life left at the import,
  with what the wall clock advanced between the two readings, is at most the life left at the export. A clock that was
  set back counts as a negative advance: the life grows by what it lost.\<close>

lemma import_export_grant:
  assumes "import_grant U now2 wall2 (export_grant now' wall g) = Some g2"
  shows "sg_permission g2 = sg_permission g \<and> sg_path g2 = normalize_scope_path U (sg_path g)
    \<and> sg_session_id g2 = sg_session_id g \<and> sg_mode g2 = sg_mode g
    \<and> (case sg_expires_at g of
         None \<Rightarrow> sg_expires_at g2 = None
       | Some at \<Rightarrow> \<exists>at2. sg_expires_at g2 = Some at2 \<and> now2 < at2
           \<and> (at2 - now2) + unat wall2 * 10 ^ 6 \<le> (at - now') + unat wall * 10 ^ 6)"
proof (cases "sg_expires_at g")
  case (Some at)
  define left where "left = (at - now') div 10 ^ 6"
  define ms where "ms = sat_add wall (of_nat left)"
  from assms Some have g2: "sg_expires_at g2 = Some (now2 + unat (sat_sub ms wall2) * 10 ^ 6)" and late: "\<not> ms \<le> wall2"
    by (auto simp: import_grant_def export_grant_def ms_def left_def Let_def split: if_splits)
  have "unat ms \<le> unat wall + left" by (simp add: ms_def unat_sat_add unat_of_nat)
  moreover have less: "unat wall2 < unat ms" using late by (simp add: word_le_nat_alt)
  ultimately have "(unat ms - unat wall2 + unat wall2) * 10 ^ 6 \<le> (unat wall + left) * 10 ^ 6" by simp
  also have "\<dots> \<le> (at - now') + unat wall * 10 ^ 6"
    unfolding left_def add_mult_distrib using div_times_less_eq_dividend [of "at - now'" "10 ^ 6"] by linarith
  finally have "unat (sat_sub ms wall2) * 10 ^ 6 + unat wall2 * 10 ^ 6 \<le> (at - now') + unat wall * 10 ^ 6"
    by (simp add: unat_sat_sub add_mult_distrib)
  moreover have "0 < unat (sat_sub ms wall2) * 10 ^ 6" using less by (simp add: unat_sat_sub)
  ultimately show ?thesis using g2 assms Some
    by (auto simp: import_grant_def export_grant_def Let_def split: if_splits)
qed (use assms in \<open>auto simp: import_grant_def export_grant_def Let_def\<close>)

lemma import_export_grant_kept:
  assumes "case sg_expires_at g of None \<Rightarrow> True
         | Some at \<Rightarrow> unat wall2 < unat wall + (at - now') div 10 ^ 6 \<and> unat wall + (at - now') div 10 ^ 6 < 2 ^ 64"
  shows "import_grant U now2 wall2 (export_grant now' wall g) \<noteq> None"
proof (cases "sg_expires_at g")
  case (Some at)
  define left where "left = (at - now') div 10 ^ 6"
  have "unat wall2 < unat wall + left" "unat wall + left < 2 ^ 64" using assms Some by (auto simp: left_def)
  moreover from this have "unat (sat_add wall (of_nat left)) = unat wall + left"
    by (simp add: unat_sat_add unat_of_nat)
  ultimately have "\<not> sat_add wall (of_nat left) \<le> wall2" by (simp add: word_le_nat_alt)
  then show ?thesis using Some by (simp add: import_grant_def export_grant_def Let_def left_def)
qed (simp add: import_grant_def export_grant_def Let_def)


text \<open>A wall clock set back by five seconds between export and import: the grant with one second to live has six.\<close>

lemma clock_set_back_extends_grant:
  "map sg_expires_at (eg_path_grants (import_scopes plain_unicode 0 5000
      (fst (export_scopes 0 0 10000 (engine_new\<lparr>eg_path_grants :=
        [\<lparr>sg_permission = FilesystemWrite, sg_path = ''src'', sg_session_id = None, sg_mode = Allow,
          sg_expires_at = Some 1000000000\<rparr>]\<rparr>))) engine_new))
   = [Some 6000000000]"
  by (simp add: export_scopes_def list_path_grants_def purge_expired_grants_def import_scopes_def map_filter_def
      import_grant_def export_grant_def grant_live_def Let_def sat_add_def sat_sub_def)

definition restart_grants :: "stored_path_grant list" where
  "restart_grants =
     [\<lparr>sg_permission = FilesystemWrite, sg_path = ''src'', sg_session_id = Some 7, sg_mode = Allow, sg_expires_at = Some 9000000\<rparr>,
      \<lparr>sg_permission = GitWrite, sg_path = ''.git'', sg_session_id = None, sg_mode = Deny, sg_expires_at = None\<rparr>]"


end
