(* ===== verification/Permission_Run.thy ===== *)
theory Permission_Run
  imports Permission_Engine
begin

text \<open>
  The engine under concurrency. Every operation of \<open>Permission_Engine\<close> is a sequence of sections, each under the
  lock of one field; other tasks run between two sections. A run is a sequence of sections in any order with what each
  returned, so what holds for every run holds for every interleaving of operations.
\<close>

section \<open>Sections and runs\<close>

datatype engine_section =
    SetMode permission permission_mode
  | SetAllModes permission_mode
  | SetSessionMode uuid permission permission_mode
  | ClearSessionMode uuid permission
  | SetPathGrant permission string permission_mode "uuid option" "instant option" instant
  | ClearPathGrant permission string "uuid option"
  | SetPolicyRules policy_rule_set
  | PurgeGrants instant
  | AttachSender
  | InsertApproval uuid call_identity "string option" approval_preview
  | MarkApproval uuid bool
  | ClaimApproval uuid call_identity
  | LogAudit approval_audit_entry
  | SendAudit approval_audit_entry
  | ImportSessions "session_override list"
  | ImportGrants instant u64 "path_grant list"

datatype section_outcome =
    NoOutcome
  | Marked "(approval_request \<times> approval_state) option"
  | Claimed "approval_state option"

fun section_step :: "unicode \<Rightarrow> ext \<Rightarrow> engine_section \<Rightarrow> engine \<Rightarrow> section_outcome \<times> engine" where
  "section_step U E (SetMode p m) e = (NoOutcome, set_mode p m e)"
| "section_step U E (SetAllModes m) e = (NoOutcome, set_all_modes m e)"
| "section_step U E (SetSessionMode s p m) e = (NoOutcome, set_session_mode s p m e)"
| "section_step U E (ClearSessionMode s p) e = (NoOutcome, clear_session_mode s p e)"
| "section_step U E (SetPathGrant p path m s ttl now) e = (NoOutcome, set_path_grant U p path m s ttl now e)"
| "section_step U E (ClearPathGrant p path s) e = (NoOutcome, clear_path_grant U p path s e)"
| "section_step U E (SetPolicyRules rules) e = (NoOutcome, set_policy_rules rules e)"
| "section_step U E (PurgeGrants now) e = (NoOutcome, purge_expired_grants now e)"
| "section_step U E AttachSender e = (NoOutcome, attach_audit_sender e)"
| "section_step U E (InsertApproval i call command preview) e =
     (NoOutcome, insert_approval (build_request U E i call command preview) e)"
| "section_step U E (MarkApproval i granted) e =
     (let (r, e) = mark_approval i granted e in (Marked r, e))"
| "section_step U E (ClaimApproval i call) e =
     (let (r, e) = claim_approval_for_call U E i call e in (Claimed r, e))"
| "section_step U E (LogAudit entry) e = (NoOutcome, log_audit entry e)"
| "section_step U E (SendAudit entry) e = (NoOutcome, send_audit entry e)"
| "section_step U E (ImportSessions overrides) e = (NoOutcome, e\<lparr>eg_session_modes := import_sessions overrides\<rparr>)"
| "section_step U E (ImportGrants now wall grants) e =
     (NoOutcome, e\<lparr>eg_path_grants := List.map_filter (import_grant U now wall) grants\<rparr>)"

type_synonym engine_event = "engine_section \<times> section_outcome"

inductive engine_run :: "unicode \<Rightarrow> ext \<Rightarrow> engine \<Rightarrow> engine_event list \<Rightarrow> engine \<Rightarrow> bool" for U E e where
  run_start: "engine_run U E e [] e"
| run_section: "engine_run U E e tr e' \<Longrightarrow> section_step U E sec e' = (out, e'') \<Longrightarrow> engine_run U E e (tr @ [(sec, out)]) e''"

inductive_cases engine_run_NilE: "engine_run U E e [] e'"
inductive_cases engine_run_snocE: "engine_run U E e (tr @ [x]) e'"

lemma engine_run_append:
  "engine_run U E e (tr @ tr') e'' \<longleftrightarrow> (\<exists>e'. engine_run U E e tr e' \<and> engine_run U E e' tr' e'')"
proof (induction tr' arbitrary: e'' rule: rev_induct)
  case Nil
  show ?case by (auto elim: engine_run_NilE intro: run_start)
next
  case (snoc x tr')
  show ?case
  proof
    assume "engine_run U E e (tr @ tr' @ [x]) e''"
    then have "engine_run U E e ((tr @ tr') @ [x]) e''" by simp
    then obtain e1 sec out where "x = (sec, out)" "engine_run U E e (tr @ tr') e1" "section_step U E sec e1 = (out, e'')"
      by (elim engine_run_snocE) auto
    with snoc.IH show "\<exists>e'. engine_run U E e tr e' \<and> engine_run U E e' (tr' @ [x]) e''" by (auto intro: run_section)
  next
    assume "\<exists>e'. engine_run U E e tr e' \<and> engine_run U E e' (tr' @ [x]) e''"
    then obtain e' e1 sec out where "engine_run U E e tr e'" "x = (sec, out)" "engine_run U E e' tr' e1"
      "section_step U E sec e1 = (out, e'')"
      by (auto elim!: engine_run_snocE)
    with snoc.IH show "engine_run U E e (tr @ tr' @ [x]) e''"
      by (metis append_assoc run_section)
  qed
qed

lemma engine_run_Cons:
  "engine_run U E e ((sec, out) # tr) e'' \<longleftrightarrow> (\<exists>e'. section_step U E sec e = (out, e') \<and> engine_run U E e' tr e'')"
proof -
  have "engine_run U E e [(sec, out)] e' \<longleftrightarrow> section_step U E sec e = (out, e')" for e'
    using engine_run_snocE [of U E e "[]" "(sec, out)" e'] run_section [OF run_start, of U E sec e out e']
    by (auto elim: engine_run_NilE)
  then show ?thesis using engine_run_append [of U E e "[(sec, out)]" tr e''] by simp
qed

section \<open>Operations are runs\<close>

lemma create_is_run:
  "create_approval_scoped_for_call_with_command_and_preview U E i now_ms call command preview e = (request, e') \<Longrightarrow>
   engine_run U E e
     [(InsertApproval i call command preview, NoOutcome),
      (LogAudit (audit_entry_of request ApprovalPending now_ms False), NoOutcome),
      (SendAudit (audit_entry_of request ApprovalPending now_ms False), NoOutcome)] e'"
  by (auto simp: create_approval_scoped_for_call_with_command_and_preview_def Let_def engine_run_Cons push_audit_def
      intro: run_start)

lemma resolve_is_run:
  assumes "resolve_with_options U i granted remember_path now now_ms e = (out, e')"
  shows "\<exists>marked rest. engine_run U E e ((MarkApproval i granted, Marked marked) # rest) e' \<and> out = map_option snd marked"
proof (cases "mark_approval i granted e")
  case (Pair marked e1)
  show ?thesis
  proof (cases marked)
    case None
    with Pair assms show ?thesis
      by (auto simp: resolve_with_options_def engine_run_Cons intro!: exI [of _ "None"] exI [of _ "[]"] run_start)
  next
    case (Some m)
    obtain request state where m: "m = (request, state)" by (cases m)
    let ?remembered = "remembers U request granted remember_path"
    let ?entry = "audit_entry_of request state now_ms ?remembered"
    let ?tail = "[(LogAudit ?entry, NoOutcome), (SendAudit ?entry, NoOutcome)]"
    let ?grant = "SetPathGrant (ar_permission request) (ar_scope request) Allow (ar_session_id request)
      (Some DEFAULT_TEMP_GRANT_TTL) now"
    let ?rest = "if ?remembered then (?grant, NoOutcome) # ?tail else ?tail"
    have "engine_run U E e ((MarkApproval i granted, Marked marked) # ?rest) e' \<and> out = map_option snd marked"
      using assms Pair Some m
      by (auto simp: resolve_with_options_def engine_run_Cons push_audit_def Let_def intro: run_start split: if_splits)
    then show ?thesis by blast
  qed
qed

lemma check_is_run:
  "check_scoped_inner U permission check subject now now' e = (decision, e') \<Longrightarrow>
   engine_run U E e [(PurgeGrants now, NoOutcome)] e'"
  by (auto simp: check_scoped_inner_def Let_def engine_run_Cons intro: run_start)

lemma claim_is_run:
  "claim_approval_for_call U E i call e = (out, e') \<Longrightarrow> engine_run U E e [(ClaimApproval i call, Claimed out)] e'"
  by (auto simp: engine_run_Cons intro: run_start)

lemma import_is_run:
  "engine_run U E e [(ImportSessions (ss_session_overrides snapshot), NoOutcome),
     (ImportGrants now wall (ss_path_grants snapshot), NoOutcome)] (import_scopes U now wall snapshot e)"
  by (auto simp: import_scopes_def Let_def engine_run_Cons intro: run_start)

section \<open>An approval is claimed at most once\<close>

fun created_id :: "engine_event \<Rightarrow> uuid option" where
  "created_id (InsertApproval i call command preview, out) = Some i"
| "created_id _ = None"

fun granted_claim :: "uuid \<Rightarrow> engine_event \<Rightarrow> bool" where
  "granted_claim i (ClaimApproval j call, Claimed (Some ApprovalGranted)) = (i = j)"
| "granted_claim i _ = False"

fun decided :: "uuid \<Rightarrow> bool \<Rightarrow> engine_event \<Rightarrow> bool" where
  "decided i granted (MarkApproval j granted', Marked (Some r)) = (i = j \<and> granted = granted')"
| "decided i granted _ = False"

definition created_ids :: "engine_event list \<Rightarrow> uuid list" where
  "created_ids tr = List.map_filter created_id tr"

lemma created_ids_snoc [simp]:
  "created_ids (tr @ [x]) = created_ids tr @ (case created_id x of None \<Rightarrow> [] | Some i \<Rightarrow> [i])"
  by (simp add: created_ids_def map_filter_def split: option.split)

text \<open>What the record of an approval says about the run so far.\<close>

definition record_ok :: "unicode \<Rightarrow> ext \<Rightarrow> engine_event list \<Rightarrow> uuid \<Rightarrow> approval_record \<Rightarrow> bool" where
  "record_ok U E tr i r \<longleftrightarrow>
     (\<exists>call command preview. (InsertApproval i call command preview, NoOutcome) \<in> set tr
        \<and> rec_request r = build_request U E i call command preview)
     \<and> \<not> (\<exists>x\<in>set tr. granted_claim i x)
     \<and> (rec_state r \<noteq> ApprovalDenied \<longrightarrow> \<not> (\<exists>x\<in>set tr. decided i False x))
     \<and> (rec_state r = ApprovalPending \<longrightarrow> \<not> (\<exists>x\<in>set tr. decided i True x))
     \<and> (rec_state r = ApprovalGranted \<longrightarrow> (\<exists>x\<in>set tr. decided i True x))"

definition approvals_ok :: "unicode \<Rightarrow> ext \<Rightarrow> engine_event list \<Rightarrow> engine \<Rightarrow> bool" where
  "approvals_ok U E tr e \<longleftrightarrow>
     (\<forall>i r. eg_approvals e i = Some r \<longrightarrow> record_ok U E tr i r)
     \<and> (\<forall>i. \<forall>x\<in>set tr. granted_claim i x \<or> decided i True x \<or> decided i False x \<longrightarrow> i \<in> set (created_ids tr))
     \<and> (\<forall>i. length (filter (granted_claim i) tr) \<le> 1)"

text \<open>A section that is not about approvals leaves the map alone and says nothing about an approval.\<close>

fun about_approvals :: "engine_section \<Rightarrow> bool" where
  "about_approvals (InsertApproval i call command preview) = True"
| "about_approvals (MarkApproval i granted) = True"
| "about_approvals (ClaimApproval i call) = True"
| "about_approvals _ = False"

lemmas engine_ops_defs =
  set_mode_def set_all_modes_def set_session_mode_def clear_session_mode_def set_path_grant_def clear_path_grant_def
  set_policy_rules_def attach_audit_sender_def log_audit_def send_audit_def insert_approval_def Let_def

lemma section_step_other:
  "\<not> about_approvals sec \<Longrightarrow> section_step U E sec e = (out, e') \<Longrightarrow>
   eg_approvals e' = eg_approvals e \<and> \<not> granted_claim i (sec, out) \<and> \<not> decided i g (sec, out) \<and> created_id (sec, out) = None"
  by (cases sec) (auto simp: engine_ops_defs)

lemma record_ok_frame:
  "record_ok U E tr i r \<Longrightarrow> \<not> granted_claim i x \<Longrightarrow> \<not> decided i True x \<Longrightarrow> \<not> decided i False x \<Longrightarrow>
   record_ok U E (tr @ [x]) i r"
  by (auto simp: record_ok_def)

lemma record_ok_created: "record_ok U E tr i r \<Longrightarrow> i \<in> set (created_ids tr)"
  unfolding record_ok_def created_ids_def set_map_filter using created_id.simps(1) by blast

lemma approvals_okD:
  assumes "approvals_ok U E tr e"
  shows "eg_approvals e i = Some r \<Longrightarrow> record_ok U E tr i r"
    and "x \<in> set tr \<Longrightarrow> granted_claim i x \<or> decided i True x \<or> decided i False x \<Longrightarrow> i \<in> set (created_ids tr)"
    and "length (filter (granted_claim i) tr) \<le> 1"
  using assms unfolding approvals_ok_def by blast+

lemma approvals_ok_snoc:
  assumes "approvals_ok U E tr e"
    and "\<And>j r. eg_approvals e' j = Some r \<Longrightarrow> record_ok U E (tr @ [x]) j r"
    and "\<And>j. granted_claim j x \<or> decided j True x \<or> decided j False x \<Longrightarrow> j \<in> set (created_ids tr)"
    and "\<And>j. granted_claim j x \<Longrightarrow> filter (granted_claim j) tr = []"
  shows "approvals_ok U E (tr @ [x]) e'"
  unfolding approvals_ok_def
proof (intro conjI allI ballI impI)
  fix i y assume "y \<in> set (tr @ [x])" "granted_claim i y \<or> decided i True y \<or> decided i False y"
  then show "i \<in> set (created_ids (tr @ [x]))"
    using approvals_okD(2) [OF assms(1), of y i] assms(3) [of i] by auto
next
  fix i show "length (filter (granted_claim i) (tr @ [x])) \<le> 1"
    using approvals_okD(3) [OF assms(1), of i] assms(4) [of i] by simp
qed (use assms(2) in blast)

text \<open>A section that says nothing about any approval, with the map unchanged.\<close>

lemma approvals_ok_quiet:
  assumes "approvals_ok U E tr e" "eg_approvals e' = eg_approvals e"
    and "\<And>j. \<not> granted_claim j x \<and> \<not> decided j True x \<and> \<not> decided j False x"
  shows "approvals_ok U E (tr @ [x]) e'"
  using assms(1)
proof (rule approvals_ok_snoc)
  fix j r assume "eg_approvals e' j = Some r"
  with assms show "record_ok U E (tr @ [x]) j r" by (auto intro: record_ok_frame approvals_okD)
qed (use assms(3) in blast)+

lemma approvals_ok_insert:
  assumes "approvals_ok U E tr e" "i \<notin> set (created_ids tr)"
  shows "approvals_ok U E (tr @ [(InsertApproval i call command preview, NoOutcome)])
    (insert_approval (build_request U E i call command preview) e)"
  using assms(1)
proof (rule approvals_ok_snoc)
  fix j r
  have i: "ar_id (build_request U E i call command preview) = i" by (simp add: build_request_def Let_def)
  assume "eg_approvals (insert_approval (build_request U E i call command preview) e) j = Some r"
  then consider "j = i" "r = \<lparr>rec_request = build_request U E i call command preview, rec_state = ApprovalPending\<rparr>"
    | "eg_approvals e j = Some r"
    by (cases "j = i") (simp_all add: insert_approval_def i)
  then show "record_ok U E (tr @ [(InsertApproval i call command preview, NoOutcome)]) j r"
  proof cases
    case 1
    have "\<not> granted_claim i x \<and> \<not> decided i True x \<and> \<not> decided i False x" if "x \<in> set tr" for x
      using approvals_okD(2) [OF assms(1) that] assms(2) by blast
    then show ?thesis unfolding record_ok_def 1
      by (intro conjI exI [of _ call] exI [of _ command] exI [of _ preview]) auto
  qed (auto intro: record_ok_frame approvals_okD(1) [OF assms(1)])
qed simp_all

lemma approvals_ok_mark:
  assumes "approvals_ok U E tr e" "mark_approval i granted e = (m, e')"
  shows "approvals_ok U E (tr @ [(MarkApproval i granted, Marked m)]) e'"
proof (cases m)
  case None
  with assms show ?thesis
    by (auto simp: mark_approval_def Let_def intro!: approvals_ok_quiet split: option.splits if_splits)
next
  case (Some req)
  with assms(2) obtain r where r: "eg_approvals e i = Some r" "rec_state r = ApprovalPending"
    and e': "eg_approvals e' = (eg_approvals e)(i \<mapsto> r\<lparr>rec_state := if granted then ApprovalGranted else ApprovalDenied\<rparr>)"
    by (auto simp: mark_approval_def Let_def split: option.splits if_splits)
  note rok = approvals_okD(1) [OF assms(1) r(1)]
  from assms(1) show ?thesis
  proof (rule approvals_ok_snoc)
    fix j q assume "eg_approvals e' j = Some q"
    then consider "j = i" "q = r\<lparr>rec_state := if granted then ApprovalGranted else ApprovalDenied\<rparr>"
      | "j \<noteq> i" "eg_approvals e j = Some q"
      by (auto simp: e' split: if_splits)
    then show "record_ok U E (tr @ [(MarkApproval i granted, Marked m)]) j q"
    proof cases
      case 1
      then show ?thesis using rok r(2) Some by (cases granted) (auto simp: record_ok_def)
    qed (use Some in \<open>auto intro!: record_ok_frame approvals_okD(1) [OF assms(1)]\<close>)
  qed (use Some record_ok_created [OF rok] in auto)
qed

lemma approvals_ok_claim:
  assumes "approvals_ok U E tr e" "claim_approval_for_call U E i call e = (out, e')"
  shows "approvals_ok U E (tr @ [(ClaimApproval i call, Claimed out)]) e'"
proof (cases "out = Some ApprovalGranted")
  case False
  with assms(2) have "e' = e" by (auto simp: claim_approval_for_call_def split: option.splits if_splits)
  moreover have "\<not> granted_claim j (ClaimApproval i call, Claimed out)" for j
    using False by (cases "(j, ClaimApproval i call, Claimed out)" rule: granted_claim.cases) auto
  ultimately show ?thesis using assms(1) by (auto intro: approvals_ok_quiet)
next
  case True
  with assms(2) obtain r where r: "eg_approvals e i = Some r" and e': "eg_approvals e' = (eg_approvals e)(i := None)"
    by (auto simp: claim_approval_for_call_def split: option.splits if_splits)
  note rok = approvals_okD(1) [OF assms(1) r]
  from assms(1) show ?thesis
  proof (rule approvals_ok_snoc)
    fix j q assume "eg_approvals e' j = Some q"
    then have "j \<noteq> i" "eg_approvals e j = Some q" by (auto simp: e' split: if_splits)
    then show "record_ok U E (tr @ [(ClaimApproval i call, Claimed out)]) j q"
      using True by (auto intro!: record_ok_frame approvals_okD(1) [OF assms(1)])
  next
    show "filter (granted_claim j) tr = []" if "granted_claim j (ClaimApproval i call, Claimed out)" for j
      using that True rok by (auto simp: record_ok_def filter_empty_conv)
  qed (use True record_ok_created [OF rok] in auto)
qed

lemma approvals_ok_step:
  assumes inv: "approvals_ok U E tr e" and step: "section_step U E sec e = (out, e')"
    and fresh: "distinct (created_ids (tr @ [(sec, out)]))"
  shows "approvals_ok U E (tr @ [(sec, out)]) e'"
proof (cases "about_approvals sec")
  case False
  show ?thesis by (rule approvals_ok_quiet [OF inv]) (use section_step_other [OF False step] in auto)
next
  case True
  then show ?thesis
    using step fresh approvals_ok_insert [OF inv] approvals_ok_mark [OF inv] approvals_ok_claim [OF inv]
    by (cases sec) (auto split: prod.splits)
qed

lemma approvals_ok_run:
  "engine_run U E engine_new tr e \<Longrightarrow> distinct (created_ids tr) \<Longrightarrow> approvals_ok U E tr e"
proof (induction rule: engine_run.induct)
  case run_start
  show ?case by (simp add: approvals_ok_def engine_new_def)
next
  case (run_section tr e' sec out e'')
  have "distinct (created_ids tr)" using run_section.prems by (auto split: option.splits)
  from approvals_ok_step [OF run_section.IH [OF this] run_section.hyps(2) run_section.prems] show ?case .
qed

text \<open>C6: In every interleaving that starts from a new engine and never draws an identifier twice, an approval is
  claimed as granted at most once; each such claim comes after the creation of the approval for a call that agrees in
  task, session, tool, permission, normalised scope and hash, and after a decision that granted it, with no
  decision that denied it.\<close>

theorem approval_claimed_once:
  assumes "engine_run U E engine_new (tr @ (ClaimApproval i call, Claimed (Some ApprovalGranted)) # tr') e"
    and "distinct (created_ids (tr @ (ClaimApproval i call, Claimed (Some ApprovalGranted)) # tr'))"
  shows "filter (granted_claim i) (tr @ tr') = []
    \<and> (\<exists>x\<in>set tr. decided i True x) \<and> \<not> (\<exists>x\<in>set tr. decided i False x)
    \<and> (\<exists>call' command preview. (InsertApproval i call' command preview, NoOutcome) \<in> set tr
         \<and> call_matches U E call (build_request U E i call' command preview))"
proof -
  from assms(1) obtain e1 e2 where e1: "engine_run U E engine_new tr e1"
    and claim: "claim_approval_for_call U E i call e1 = (Some ApprovalGranted, e2)"
    by (auto simp: engine_run_append engine_run_Cons Let_def case_prod_beta prod_eq_iff)
  have d: "distinct (created_ids tr)" using assms(2) by (simp add: created_ids_def map_filter_def)
  from claim obtain r where r: "eg_approvals e1 i = Some r" "call_matches U E call (rec_request r)" "rec_state r = ApprovalGranted"
    by (auto simp: claim_approval_for_call_def split: option.splits if_splits)
  from approvals_okD(1) [OF approvals_ok_run [OF e1 d] r(1)] have rok: "record_ok U E tr i r" .
  have "length (filter (granted_claim i) tr) + length (filter (granted_claim i) tr') = 0"
    using approvals_okD(3) [OF approvals_ok_run [OF assms], of i] by simp
  moreover from rok obtain call' command preview where "(InsertApproval i call' command preview, NoOutcome) \<in> set tr"
    "rec_request r = build_request U E i call' command preview" by (auto simp: record_ok_def)
  moreover from this r(2) have "call_matches U E call (build_request U E i call' command preview)" by simp
  ultimately show ?thesis using rok r(3) unfolding record_ok_def by (intro conjI) (simp_all, blast)
qed

text \<open>Sections executed one after the other; a run can be computed.\<close>

fun run_sections :: "unicode \<Rightarrow> ext \<Rightarrow> engine_section list \<Rightarrow> engine \<Rightarrow> engine_event list \<times> engine" where
  "run_sections U E [] e = ([], e)"
| "run_sections U E (sec # secs) e =
     (let (out, e) = section_step U E sec e; (tr, e) = run_sections U E secs e in ((sec, out) # tr, e))"

lemma run_sections_run: "engine_run U E e (fst (run_sections U E secs e)) (snd (run_sections U E secs e))"
  by (induction secs arbitrary: e) (auto simp: engine_run_Cons Let_def case_prod_beta prod_eq_iff intro: run_start)

definition example_call :: call_identity where
  "example_call = \<lparr>cid_task_id = 1, cid_session_id = None, cid_tool_name = ''shell'', cid_permission = ShellExecute,
     cid_scope = ''./src'', cid_input = JNull\<rparr>"

definition example_sections :: "engine_section list" where
  "example_sections =
     [InsertApproval 5 example_call None preview_default, ClaimApproval 5 example_call, MarkApproval 5 True,
      ClaimApproval 5 (example_call\<lparr>cid_tool_name := ''git''\<rparr>), ClaimApproval 5 example_call, MarkApproval 5 True,
      ClaimApproval 5 example_call]"

lemma example_trace:
  "fst (run_sections plain_unicode id_ext example_sections engine_new) =
     [(InsertApproval 5 example_call None preview_default, NoOutcome),
      (ClaimApproval 5 example_call, Claimed (Some ApprovalPending)),
      (MarkApproval 5 True, Marked (Some (build_request plain_unicode id_ext 5 example_call None preview_default, ApprovalGranted))),
      (ClaimApproval 5 (example_call\<lparr>cid_tool_name := ''git''\<rparr>), Claimed None)]
     @ (ClaimApproval 5 example_call, Claimed (Some ApprovalGranted))
     # [(MarkApproval 5 True, Marked None), (ClaimApproval 5 example_call, Claimed None)]"
proof -
  have m: "call_matches U E example_call (build_request U E 5 example_call None preview_default)"
    "\<not> call_matches U E (example_call\<lparr>cid_tool_name := ''git''\<rparr>) (build_request U E 5 example_call None preview_default)" for U E
    by (simp_all add: call_matches_def build_request_def example_call_def Let_def)
  have "ar_id (build_request U E 5 example_call None preview_default) = 5" for U E by (simp add: build_request_def Let_def)
  with m show ?thesis
    by (simp add: example_sections_def insert_approval_def mark_approval_def claim_approval_for_call_def Let_def engine_new_def)
qed

theorem approval_claimed_once_witness:
  "snd (fst (run_sections plain_unicode id_ext example_sections engine_new) ! 4) = Claimed (Some ApprovalGranted)
   \<and> filter (granted_claim 5) (take 4 (fst (run_sections plain_unicode id_ext example_sections engine_new))
       @ drop 5 (fst (run_sections plain_unicode id_ext example_sections engine_new))) = []"
proof -
  note run = run_sections_run [of plain_unicode id_ext engine_new example_sections, unfolded example_trace]
  from approval_claimed_once [OF run] show ?thesis
    unfolding example_trace by (simp add: created_ids_def map_filter_simps)
qed

section \<open>The microphone stays denied\<close>

fun names_permission :: "permission \<Rightarrow> engine_section \<Rightarrow> bool" where
  "names_permission p (SetMode q m) = (p = q)"
| "names_permission p (SetSessionMode s q m) = (p = q)"
| "names_permission p (SetPathGrant q path m s ttl now) = (p = q)"
| "names_permission p (SetPolicyRules rules) = (\<exists>rule\<in>set rules. pr_permission rule = p)"
| "names_permission p (ImportSessions overrides) = (\<exists>item\<in>set overrides. so_permission item = p)"
| "names_permission p (ImportGrants now wall grants) = (\<exists>grant\<in>set grants. pg_permission grant = p)"
| "names_permission p _ = False"

text \<open>No rule, override or grant for the permission, and its global mode denies.\<close>

definition only_denied :: "permission \<Rightarrow> engine \<Rightarrow> bool" where
  "only_denied p e \<longleftrightarrow>
     eg_modes e p = Some Deny
     \<and> (\<forall>rule\<in>set (eg_policy_rules e). pr_permission rule \<noteq> p)
     \<and> (\<forall>s. map_of (eg_session_modes e) (s, p) = None)
     \<and> (\<forall>grant\<in>set (eg_path_grants e). sg_permission grant \<noteq> p)"

lemma import_sessions_other:
  "\<forall>item\<in>set overrides. so_permission item \<noteq> p \<Longrightarrow> map_of (import_sessions overrides) (s, p) = None"
proof -
  have "\<forall>item\<in>set overrides. so_permission item \<noteq> p \<Longrightarrow> map_of ys (s, p) = None \<Longrightarrow>
      map_of (fold (\<lambda>item modes. AList.update (so_session_id item, so_permission item) (so_mode item) modes) overrides ys) (s, p) = None"
    for ys
    by (induction overrides arbitrary: ys) (auto simp: update_conv')
  then show "\<forall>item\<in>set overrides. so_permission item \<noteq> p \<Longrightarrow> ?thesis" by (simp add: import_sessions_def)
qed

lemma import_grant_permission: "import_grant U now wall g = Some g' \<Longrightarrow> sg_permission g' = pg_permission g"
  by (auto simp: import_grant_def Let_def split: option.splits if_splits)

lemma import_grants_other:
  "\<forall>g\<in>set grants. pg_permission g \<noteq> p \<Longrightarrow> g' \<in> set (List.map_filter (import_grant U now wall) grants) \<Longrightarrow> sg_permission g' \<noteq> p"
  unfolding set_map_filter using import_grant_permission by fastforce

lemma only_denied_approvals:
  "about_approvals sec \<Longrightarrow> only_denied p (snd (section_step U E sec e)) \<longleftrightarrow> only_denied p e"
  by (cases sec)
    (auto simp: only_denied_def insert_approval_def mark_approval_def claim_approval_for_call_def Let_def split: option.split)

lemma only_denied_step:
  assumes "only_denied MicrophoneListen e" "\<not> names_permission MicrophoneListen sec" "section_step U E sec e = (out, e')"
  shows "only_denied MicrophoneListen e'"
proof (cases "about_approvals sec")
  case True
  then show ?thesis using assms only_denied_approvals [of sec MicrophoneListen U E e] by simp
next
  case False
  with assms show ?thesis
    by (cases sec)
      (auto simp: only_denied_def engine_ops_defs update_conv' delete_conv' purge_expired_grants_def same_grant_def
        import_sessions_other dest: import_grants_other)
qed

lemma only_denied_run:
  "engine_run U E e0 tr e \<Longrightarrow> only_denied MicrophoneListen e0 \<Longrightarrow>
   list_all (\<lambda>x. \<not> names_permission MicrophoneListen (fst x)) tr \<Longrightarrow> only_denied MicrophoneListen e"
  by (induction rule: engine_run.induct) (auto intro: only_denied_step)

lemma path_mode_loop_none:
  "\<forall>grant\<in>set grants. sg_permission grant \<noteq> p \<Longrightarrow> path_mode_loop p path session_id now grants best = best"
  by (induction grants) (auto simp: path_mode_loop.simps)

lemma only_denied_check: "only_denied p e \<Longrightarrow> fst (check_scoped_inner U p check subject now now' e) = Denied"
proof -
  assume e: "only_denied p e"
  have "List.find (\<lambda>rule. pr_permission rule = p \<and> glob_match U (pr_pattern rule) s) (rev (eg_policy_rules e)) = None" for s
    using e by (auto simp: only_denied_def find_None_iff)
  then have "policy_resolve U (eg_policy_rules e) p s = None" for s by (simp add: policy_resolve_def)
  moreover have "find_path_mode p path session_id now' (purge_expired_grants now e) = None" for path session_id
    using e by (auto simp: only_denied_def find_path_mode_def purge_expired_grants_def intro!: path_mode_loop_none)
  ultimately show ?thesis using e
    by (auto simp: check_scoped_inner_def Let_def only_denied_def engine_mode_def split: option.split)
qed

text \<open>C7: From a new engine, through every interleaving of sections that do not name the microphone (whatever global
  mode is set for all permissions, whatever is approved, granted or imported for others), every check of the
  microphone answers \<open>Denied\<close>.\<close>

theorem microphone_stays_denied:
  assumes "engine_run U E engine_new tr e" "list_all (\<lambda>x. \<not> names_permission MicrophoneListen (fst x)) tr"
  shows "fst (check_scoped_inner U MicrophoneListen check subject now now' e) = Denied"
proof -
  have "only_denied MicrophoneListen engine_new" by (simp add: only_denied_def engine_new_def)
  from only_denied_check [OF only_denied_run [OF assms(1) this assms(2)]] show ?thesis .
qed

theorem microphone_stays_denied_witness:
  "fst (check_scoped_inner plain_unicode MicrophoneListen permission_check_default None 0 0
      (snd (run_sections plain_unicode id_ext [SetAllModes Allow, SetMode GitWrite Allow] engine_new))) = Denied
   \<and> fst (check_scoped_inner plain_unicode ShellExecute permission_check_default None 0 0
      (snd (run_sections plain_unicode id_ext [SetAllModes Allow, SetMode GitWrite Allow] engine_new))) = Allowed"
proof
  show "fst (check_scoped_inner plain_unicode ShellExecute permission_check_default None 0 0
      (snd (run_sections plain_unicode id_ext [SetAllModes Allow, SetMode GitWrite Allow] engine_new))) = Allowed"
    by code_simp
qed (rule microphone_stays_denied [OF run_sections_run], simp)

section \<open>The audit log\<close>

fun logged_entry :: "engine_event \<Rightarrow> approval_audit_entry option" where
  "logged_entry (LogAudit entry, out) = Some entry"
| "logged_entry _ = None"

definition logged :: "engine_event list \<Rightarrow> approval_audit_entry list" where
  "logged tr = List.map_filter logged_entry tr"

lemma log_audit_suffix:
  assumes "eg_audit e = drop (length entries - MAX_AUDIT_ENTRIES) entries"
  shows "eg_audit (log_audit entry e) = drop (length (entries @ [entry]) - MAX_AUDIT_ENTRIES) (entries @ [entry])"
proof (cases "length entries < MAX_AUDIT_ENTRIES")
  case False
  then have "length (eg_audit e) = MAX_AUDIT_ENTRIES" using assms by simp
  moreover have "Suc (length entries) - MAX_AUDIT_ENTRIES = Suc (length entries - MAX_AUDIT_ENTRIES)" using False by simp
  ultimately show ?thesis using assms False by (simp add: log_audit_def Let_def MAX_AUDIT_ENTRIES_def)
qed (use assms in \<open>simp add: log_audit_def Let_def\<close>)

text \<open>The log is the last 200 of the entries logged in the run.\<close>

lemma audit_log_suffix:
  "engine_run U E engine_new tr e \<Longrightarrow> eg_audit e = drop (length (logged tr) - MAX_AUDIT_ENTRIES) (logged tr)"
proof (induction rule: engine_run.induct)
  case run_start
  show ?case by (simp add: logged_def engine_new_def map_filter_simps)
next
  case (run_section tr e' sec out e'')
  show ?case
  proof (cases "\<exists>entry. sec = LogAudit entry")
    case True
    then obtain entry where "sec = LogAudit entry" by blast
    with run_section.hyps(2) log_audit_suffix [OF run_section.IH, of entry] show ?thesis
      by (auto simp: logged_def map_filter_def)
  next
    case False
    with run_section.hyps(2) have "eg_audit e'' = eg_audit e'" "logged_entry (sec, out) = None"
      by (cases sec; auto simp: engine_ops_defs purge_expired_grants_def mark_approval_def claim_approval_for_call_def
          split: option.splits if_splits prod.splits)+
    with run_section.IH show ?thesis by (simp add: logged_def map_filter_def)
  qed
qed

text \<open>Session overrides keep one entry per session and permission, which the round trip of the scopes assumes.\<close>

lemma session_keys_distinct:
  "engine_run U E engine_new tr e \<Longrightarrow> distinct (map fst (eg_session_modes e))"
proof (induction rule: engine_run.induct)
  case (run_section tr e' sec out e'')
  have i: "distinct (map fst (import_sessions xs))" for xs
  proof -
    have "distinct (map fst ys) \<Longrightarrow> distinct (map fst (fold (\<lambda>item modes.
        AList.update (so_session_id item, so_permission item) (so_mode item) modes) xs ys))" for ys
      by (induction xs arbitrary: ys) (simp_all add: distinct_update)
    then show ?thesis by (simp add: import_sessions_def)
  qed
  from run_section show ?case
    by (cases sec) (auto simp: engine_ops_defs purge_expired_grants_def mark_approval_def claim_approval_for_call_def
        distinct_update distinct_delete i split: option.splits if_splits prod.splits)
qed (simp add: engine_new_def)

end
