(* ===== verification/Schedule_Contract.thy ===== *)
theory Schedule_Contract
  imports Unicode_Text
begin

text \<open>
  \<open>crates/evohime-supervisor/src/schedule_contract.rs\<close>: the record of one schedule with its triggers, retries, dead
  letter and cancellation. A method that returns a \<open>Result\<close> and changes the record returns both, so that what a failed
  call leaves behind is part of the model.
\<close>

section \<open>Data\<close>

definition MAX_ID_BYTES :: nat where "MAX_ID_BYTES = 128"
definition MAX_ERROR_BYTES :: nat where "MAX_ERROR_BYTES = 512"
definition MAX_ATTEMPTS :: u32 where "MAX_ATTEMPTS = 16"
definition MAX_BACKOFF_MS :: u64 where "MAX_BACKOFF_MS = 300000"
definition MAX_BUDGET_UNITS :: u64 where "MAX_BUDGET_UNITS = 10000000"

datatype schedule_kind = Once | Interval u64

datatype trigger_kind = TriggerManual | TriggerTimer | TriggerEvent

datatype monitor_state =
    MonitorIdle | MonitorWaiting | MonitorRunning | MonitorMissed | MonitorDeadLetter | MonitorCancelled

datatype trigger_decision =
    TriggerStart | TriggerDuplicate | TriggerMissed | TriggerDeadLetter | TriggerCancelled

datatype failure_decision = FailureRetry u32 u64 | FailureDeadLetter

record retry_policy =
  rp_max_attempts :: u32
  rp_base_backoff_ms :: u64
  rp_dead_letter_after_exhaustion :: bool

record budget_ref =
  br_max_wall_clock_ms :: u64
  br_max_tool_calls :: u64
  br_max_tokens :: u64
  br_max_cost_units :: u64

record policy_refs =
  pf_permission_ref :: string
  pf_approval_ref :: string
  pf_cancellation_ref :: string

record dead_letter =
  dl_trigger_id :: string
  dl_attempts :: u32
  dl_reason :: string
  dl_moved_at_ms :: u64

record schedule_record =
  sr_schedule_id :: string
  sr_kind :: schedule_kind
  sr_trigger :: trigger_kind
  sr_monitor :: monitor_state
  sr_last_checkpoint :: "string option"
  sr_next_run_at_ms :: "u64 option"
  sr_retry :: retry_policy
  sr_attempts :: u32
  sr_budgets :: budget_ref
  sr_refs :: policy_refs
  sr_last_trigger_id :: "string option"
  sr_dead_letter :: "dead_letter option"

datatype schedule_error =
    ScheduleEmptyField string
  | ScheduleFieldTooLong string
  | InvalidInterval
  | InvalidRetryPolicy
  | ScheduleBudgetOutOfBounds
  | ScheduleAttemptsOutOfBounds
  | InvalidState

section \<open>Operations\<close>

definition validate_text :: "string \<Rightarrow> string \<Rightarrow> nat \<Rightarrow> schedule_error option" where
  "validate_text v field max_bytes =
     (if v = [] then Some (ScheduleEmptyField field)
      else if length v > max_bytes \<or> list_ex char_is_control (utf8_chars v) then Some (ScheduleFieldTooLong field)
      else None)"

text \<open>The first error of a list of checks, as the chain of \<open>?\<close>.\<close>

fun first_error :: "'e option list \<Rightarrow> 'e option" where
  "first_error [] = None"
| "first_error (c # cs) = (case c of Some e \<Rightarrow> Some e | None \<Rightarrow> first_error cs)"

definition check_some :: "'a option \<Rightarrow> ('a \<Rightarrow> 'e option) \<Rightarrow> 'e option" where
  "check_some x f = (case x of Some v \<Rightarrow> f v | None \<Rightarrow> None)"

definition schedule_validate :: "schedule_record \<Rightarrow> schedule_error option" where
  "schedule_validate r =
     first_error
       [validate_text (sr_schedule_id r) ''schedule_id'' MAX_ID_BYTES,
        validate_text (pf_permission_ref (sr_refs r)) ''permission_ref'' MAX_ID_BYTES,
        validate_text (pf_approval_ref (sr_refs r)) ''approval_ref'' MAX_ID_BYTES,
        validate_text (pf_cancellation_ref (sr_refs r)) ''cancellation_ref'' MAX_ID_BYTES,
        check_some (sr_last_checkpoint r) (\<lambda>checkpoint. validate_text checkpoint ''last_checkpoint'' MAX_ID_BYTES),
        check_some (sr_last_trigger_id r) (\<lambda>trigger_id. validate_text trigger_id ''trigger_id'' MAX_ID_BYTES),
        (case sr_kind r of Interval every_ms \<Rightarrow> (if every_ms = 0 then Some InvalidInterval else None) | Once \<Rightarrow> None),
        (if rp_max_attempts (sr_retry r) = 0 \<or> rp_max_attempts (sr_retry r) > MAX_ATTEMPTS
            \<or> rp_base_backoff_ms (sr_retry r) > MAX_BACKOFF_MS then Some InvalidRetryPolicy else None),
        (if sr_attempts r > rp_max_attempts (sr_retry r) then Some ScheduleAttemptsOutOfBounds else None),
        (if br_max_wall_clock_ms (sr_budgets r) = 0 \<or> br_max_tool_calls (sr_budgets r) = 0
            \<or> br_max_tokens (sr_budgets r) = 0 \<or> br_max_cost_units (sr_budgets r) > MAX_BUDGET_UNITS
         then Some ScheduleBudgetOutOfBounds else None),
        check_some (sr_dead_letter r) (\<lambda>d. validate_text (dl_trigger_id d) ''dead_letter_trigger_id'' MAX_ID_BYTES),
        check_some (sr_dead_letter r) (\<lambda>d. validate_text (dl_reason d) ''dead_letter_reason'' MAX_ERROR_BYTES)]"

definition schedule_new ::
  "string \<Rightarrow> schedule_kind \<Rightarrow> trigger_kind \<Rightarrow> retry_policy \<Rightarrow> budget_ref \<Rightarrow> policy_refs \<Rightarrow> schedule_error + schedule_record" where
  "schedule_new schedule_id kind trigger retry budgets refs =
     (let record =
        \<lparr>sr_schedule_id = schedule_id, sr_kind = kind, sr_trigger = trigger, sr_monitor = MonitorWaiting,
         sr_last_checkpoint = None, sr_next_run_at_ms = None, sr_retry = retry, sr_attempts = 0, sr_budgets = budgets,
         sr_refs = refs, sr_last_trigger_id = None, sr_dead_letter = None\<rparr>
      in case schedule_validate record of Some e \<Rightarrow> Inl e | None \<Rightarrow> Inr record)"

definition on_trigger :: "string \<Rightarrow> u64 \<Rightarrow> schedule_record \<Rightarrow> (schedule_error + trigger_decision) \<times> schedule_record" where
  "on_trigger trigger_id now_ms r =
     (case first_error [validate_text trigger_id ''trigger_id'' MAX_ID_BYTES, schedule_validate r] of
        Some e \<Rightarrow> (Inl e, r)
      | None \<Rightarrow>
          (if sr_monitor r = MonitorCancelled then (Inr TriggerCancelled, r)
           else if sr_monitor r = MonitorDeadLetter then (Inr TriggerDeadLetter, r)
           else if sr_last_trigger_id r = Some trigger_id then (Inr TriggerDuplicate, r)
           else if (case sr_next_run_at_ms r of Some next_ms \<Rightarrow> now_ms < next_ms | None \<Rightarrow> False) then (Inr TriggerMissed, r)
           else (Inr TriggerStart, r\<lparr>sr_last_trigger_id := Some trigger_id, sr_monitor := MonitorRunning\<rparr>)))"

definition mark_missed :: "u64 \<Rightarrow> schedule_record \<Rightarrow> (schedule_error + unit) \<times> schedule_record" where
  "mark_missed next_run_at_ms r =
     (if sr_monitor r = MonitorCancelled \<or> sr_monitor r = MonitorDeadLetter then (Inl InvalidState, r)
      else (Inr (), r\<lparr>sr_monitor := MonitorMissed, sr_next_run_at_ms := Some next_run_at_ms\<rparr>))"

definition schedule_complete :: "string \<Rightarrow> u64 option \<Rightarrow> schedule_record \<Rightarrow> (schedule_error + unit) \<times> schedule_record" where
  "schedule_complete checkpoint next_run_at_ms r =
     (case validate_text checkpoint ''last_checkpoint'' MAX_ID_BYTES of
        Some e \<Rightarrow> (Inl e, r)
      | None \<Rightarrow>
          (if sr_monitor r \<noteq> MonitorRunning then (Inl InvalidState, r)
           else (Inr (), r\<lparr>sr_last_checkpoint := Some checkpoint, sr_attempts := 0, sr_next_run_at_ms := next_run_at_ms,
                  sr_monitor := (if next_run_at_ms \<noteq> None then MonitorWaiting else MonitorIdle)\<rparr>)))"

definition retry_delay :: "u64 \<Rightarrow> u32 \<Rightarrow> u64" where
  "retry_delay base attempts = min (sat_mul base (push_bit (unat (min (sat_sub attempts 1) 31)) 1)) MAX_BACKOFF_MS"

definition schedule_fail ::
  "string \<Rightarrow> u64 \<Rightarrow> string \<Rightarrow> schedule_record \<Rightarrow> (schedule_error + failure_decision) \<times> schedule_record" where
  "schedule_fail trigger_id now_ms reason r =
     (case first_error [validate_text trigger_id ''trigger_id'' MAX_ID_BYTES,
                        validate_text reason ''dead_letter_reason'' MAX_ERROR_BYTES] of
        Some e \<Rightarrow> (Inl e, r)
      | None \<Rightarrow>
          (if sr_monitor r \<noteq> MonitorRunning then (Inl InvalidState, r)
           else if sr_attempts r \<ge> rp_max_attempts (sr_retry r)
           then (Inr FailureDeadLetter,
                 r\<lparr>sr_dead_letter := Some \<lparr>dl_trigger_id = trigger_id, dl_attempts = sr_attempts r, dl_reason = reason,
                     dl_moved_at_ms = now_ms\<rparr>, sr_monitor := MonitorDeadLetter\<rparr>)
           else let attempts = sr_attempts r + 1;
                    next_run_at_ms = sat_add now_ms (retry_delay (rp_base_backoff_ms (sr_retry r)) attempts)
                in (Inr (FailureRetry attempts next_run_at_ms),
                    r\<lparr>sr_attempts := attempts, sr_next_run_at_ms := Some next_run_at_ms, sr_monitor := MonitorWaiting\<rparr>)))"

definition schedule_requeue :: "u64 \<Rightarrow> schedule_record \<Rightarrow> (schedule_error + unit) \<times> schedule_record" where
  "schedule_requeue now_ms r =
     (if sr_monitor r \<noteq> MonitorDeadLetter then (Inl InvalidState, r)
      else (Inr (), r\<lparr>sr_dead_letter := None, sr_attempts := 0, sr_next_run_at_ms := Some now_ms, sr_monitor := MonitorWaiting\<rparr>))"

definition schedule_cancel :: "schedule_record \<Rightarrow> schedule_record" where
  "schedule_cancel r = r\<lparr>sr_monitor := MonitorCancelled, sr_next_run_at_ms := None\<rparr>"

fun monitor_name :: "monitor_state \<Rightarrow> string" where
  "monitor_name MonitorIdle = ''idle''"
| "monitor_name MonitorWaiting = ''waiting''"
| "monitor_name MonitorRunning = ''running''"
| "monitor_name MonitorMissed = ''missed''"
| "monitor_name MonitorDeadLetter = ''dead_letter''"
| "monitor_name MonitorCancelled = ''cancelled''"

definition schedule_escape :: "string \<Rightarrow> string" where
  "schedule_escape s =
     concat (map (\<lambda>c. if c = CHR 0x22 then [CHR 0x5C, CHR 0x22] else [c])
       (concat (map (\<lambda>c. if c = CHR 0x5C then [CHR 0x5C, CHR 0x5C] else [c]) s)))"

definition json_text :: "string \<Rightarrow> string" where
  "json_text v = [CHR 0x22] @ schedule_escape v @ [CHR 0x22]"

definition json_option :: "('a \<Rightarrow> string) \<Rightarrow> 'a option \<Rightarrow> string" where
  "json_option f x = (case x of None \<Rightarrow> ''null'' | Some v \<Rightarrow> f v)"

definition deterministic_json :: "schedule_record \<Rightarrow> string" where
  "deterministic_json r =
     (let q = [CHR 0x22]
      in ''{'' @ q @ ''schedule_id'' @ q @ '':'' @ json_text (sr_schedule_id r)
         @ '','' @ q @ ''monitor'' @ q @ '':'' @ q @ monitor_name (sr_monitor r) @ q
         @ '','' @ q @ ''attempts'' @ q @ '':'' @ show_word (sr_attempts r)
         @ '','' @ q @ ''next_run_at_ms'' @ q @ '':'' @ json_option show_word (sr_next_run_at_ms r)
         @ '','' @ q @ ''last_checkpoint'' @ q @ '':'' @ json_option json_text (sr_last_checkpoint r)
         @ '','' @ q @ ''last_trigger_id'' @ q @ '':'' @ json_option json_text (sr_last_trigger_id r) @ ''}'')"

section \<open>Every run of operations keeps the record valid\<close>

datatype schedule_op =
    OpTrigger string u64
  | OpMissed u64
  | OpComplete string "u64 option"
  | OpFail string u64 string
  | OpRequeue u64
  | OpCancel

datatype schedule_result =
    ResTrigger trigger_decision
  | ResFailure failure_decision
  | ResUnit

fun schedule_step :: "schedule_op \<Rightarrow> schedule_record \<Rightarrow> (schedule_error + schedule_result) \<times> schedule_record" where
  "schedule_step (OpTrigger trigger_id now_ms) r = map_prod (map_sum id ResTrigger) id (on_trigger trigger_id now_ms r)"
| "schedule_step (OpMissed next_run_at_ms) r = map_prod (map_sum id (\<lambda>_. ResUnit)) id (mark_missed next_run_at_ms r)"
| "schedule_step (OpComplete checkpoint next_run_at_ms) r =
     map_prod (map_sum id (\<lambda>_. ResUnit)) id (schedule_complete checkpoint next_run_at_ms r)"
| "schedule_step (OpFail trigger_id now_ms reason) r = map_prod (map_sum id ResFailure) id (schedule_fail trigger_id now_ms reason r)"
| "schedule_step (OpRequeue now_ms) r = map_prod (map_sum id (\<lambda>_. ResUnit)) id (schedule_requeue now_ms r)"
| "schedule_step OpCancel r = (Inr ResUnit, schedule_cancel r)"

lemma first_error_None [simp]: "first_error cs = None \<longleftrightarrow> list_all (\<lambda>c. c = None) cs"
  by (induction cs) (auto split: option.split)

lemma check_some_None [simp]: "check_some x f = None \<longleftrightarrow> (\<forall>v. x = Some v \<longrightarrow> f v = None)"
  by (auto simp: check_some_def split: option.split)

text \<open>Errors name a field, and the two texts of a dead letter are checked under other names than the arguments they come
  from; that a text passes does not depend on the name.\<close>

definition text_ok :: "nat \<Rightarrow> string \<Rightarrow> bool" where
  "text_ok n v \<longleftrightarrow> v \<noteq> [] \<and> length v \<le> n \<and> \<not> list_ex char_is_control (utf8_chars v)"

lemma validate_text_None [simp]: "validate_text v field n = None \<longleftrightarrow> text_ok n v"
  by (auto simp: validate_text_def text_ok_def)

text \<open>The fields no operation changes, and the others.\<close>

definition schedule_fixed_ok :: "schedule_record \<Rightarrow> bool" where
  "schedule_fixed_ok r \<longleftrightarrow>
     text_ok MAX_ID_BYTES (sr_schedule_id r) \<and> text_ok MAX_ID_BYTES (pf_permission_ref (sr_refs r))
     \<and> text_ok MAX_ID_BYTES (pf_approval_ref (sr_refs r)) \<and> text_ok MAX_ID_BYTES (pf_cancellation_ref (sr_refs r))
     \<and> sr_kind r \<noteq> Interval 0
     \<and> rp_max_attempts (sr_retry r) \<noteq> 0 \<and> rp_max_attempts (sr_retry r) \<le> MAX_ATTEMPTS
     \<and> rp_base_backoff_ms (sr_retry r) \<le> MAX_BACKOFF_MS
     \<and> br_max_wall_clock_ms (sr_budgets r) \<noteq> 0 \<and> br_max_tool_calls (sr_budgets r) \<noteq> 0
     \<and> br_max_tokens (sr_budgets r) \<noteq> 0 \<and> br_max_cost_units (sr_budgets r) \<le> MAX_BUDGET_UNITS"

definition opt_ok :: "('a \<Rightarrow> bool) \<Rightarrow> 'a option \<Rightarrow> bool" where
  "opt_ok p x = (case x of None \<Rightarrow> True | Some v \<Rightarrow> p v)"

lemma opt_ok_simps [simp]: "opt_ok p None" "opt_ok p (Some v) = p v"
  by (simp_all add: opt_ok_def)

lemma schedule_validate_None:
  "schedule_validate r = None \<longleftrightarrow>
     schedule_fixed_ok r \<and> opt_ok (text_ok MAX_ID_BYTES) (sr_last_checkpoint r)
     \<and> opt_ok (text_ok MAX_ID_BYTES) (sr_last_trigger_id r) \<and> sr_attempts r \<le> rp_max_attempts (sr_retry r)
     \<and> opt_ok (\<lambda>d. text_ok MAX_ID_BYTES (dl_trigger_id d) \<and> text_ok MAX_ERROR_BYTES (dl_reason d)) (sr_dead_letter r)"
proof -
  have "(case sr_kind r of Interval every_ms \<Rightarrow> if every_ms = 0 then Some InvalidInterval else None | Once \<Rightarrow> None) = None
      \<longleftrightarrow> sr_kind r \<noteq> Interval 0" by (cases "sr_kind r") simp_all
  moreover have "(\<forall>v. x = Some v \<longrightarrow> p v) \<and> (\<forall>v. x = Some v \<longrightarrow> q v) \<longleftrightarrow> opt_ok (\<lambda>v. p v \<and> q v) x" for x :: "dead_letter option" and p q
    by (cases x) simp_all
  moreover have "(\<forall>v. x = Some v \<longrightarrow> p v) \<longleftrightarrow> opt_ok p x" for x :: "string option" and p by (cases x) simp_all
  ultimately show ?thesis
    unfolding schedule_validate_def schedule_fixed_ok_def
    by (simp only: first_error_None list.pred_inject check_some_None validate_text_None if_split_eq1 option.distinct simp_thms
        not_less de_Morgan_disj conj_assoc) blast
qed

lemma schedule_fixed_ok_update [simp]:
  "schedule_fixed_ok (r\<lparr>sr_monitor := m\<rparr>) = schedule_fixed_ok r"
  "schedule_fixed_ok (r\<lparr>sr_last_checkpoint := c\<rparr>) = schedule_fixed_ok r"
  "schedule_fixed_ok (r\<lparr>sr_next_run_at_ms := n\<rparr>) = schedule_fixed_ok r"
  "schedule_fixed_ok (r\<lparr>sr_attempts := a\<rparr>) = schedule_fixed_ok r"
  "schedule_fixed_ok (r\<lparr>sr_last_trigger_id := t\<rparr>) = schedule_fixed_ok r"
  "schedule_fixed_ok (r\<lparr>sr_dead_letter := d\<rparr>) = schedule_fixed_ok r"
  by (simp_all add: schedule_fixed_ok_def)

text \<open>Valid; dead exactly with a dead letter, unless cancelled; dead only after the last attempt.\<close>

definition schedule_ok :: "schedule_record \<Rightarrow> bool" where
  "schedule_ok r \<longleftrightarrow>
     schedule_validate r = None
     \<and> (sr_monitor r = MonitorDeadLetter \<longrightarrow> sr_dead_letter r \<noteq> None \<and> sr_attempts r = rp_max_attempts (sr_retry r))
     \<and> (sr_dead_letter r \<noteq> None \<longrightarrow> sr_monitor r = MonitorDeadLetter \<or> sr_monitor r = MonitorCancelled)"

lemmas schedule_ok_simps = schedule_ok_def schedule_validate_None

lemma attempts_Suc: "a < m \<Longrightarrow> a + 1 \<le> m" for a m :: u32
  by (rule inc_le)

lemma schedule_fail_ok: "schedule_ok r \<Longrightarrow> schedule_ok (snd (schedule_fail trigger_id now_ms reason r))"
  by (auto simp: schedule_ok_simps schedule_fail_def Let_def not_le attempts_Suc split: option.split)

lemma on_trigger_ok: "schedule_ok r \<Longrightarrow> schedule_ok (snd (on_trigger trigger_id now_ms r))"
  by (auto simp: schedule_ok_simps on_trigger_def split: option.split)

lemma schedule_complete_ok: "schedule_ok r \<Longrightarrow> schedule_ok (snd (schedule_complete checkpoint next_run_at_ms r))"
  by (auto simp: schedule_ok_simps schedule_complete_def split: option.split)

lemma schedule_other_ok:
  "schedule_ok r \<Longrightarrow> schedule_ok (snd (mark_missed next_run_at_ms r))"
  "schedule_ok r \<Longrightarrow> schedule_ok (snd (schedule_requeue now_ms r))"
  "schedule_ok r \<Longrightarrow> schedule_ok (schedule_cancel r)"
  by (auto simp: schedule_ok_simps mark_missed_def schedule_requeue_def schedule_cancel_def)

interpretation sched: op_invariant schedule_step schedule_ok
proof
  show "schedule_ok r \<Longrightarrow> schedule_ok (snd (schedule_step op r))" for r op
    by (cases op) (simp_all add: schedule_fail_ok on_trigger_ok schedule_complete_ok schedule_other_ok)
qed

text \<open>A cancelled record stays cancelled.\<close>

interpretation cancelled: op_invariant schedule_step "\<lambda>r. sr_monitor r = MonitorCancelled"
proof
  show "sr_monitor r = MonitorCancelled \<Longrightarrow> sr_monitor (snd (schedule_step op r)) = MonitorCancelled" for r op
    by (cases op) (auto simp: on_trigger_def mark_missed_def schedule_complete_def schedule_fail_def schedule_requeue_def
        schedule_cancel_def split: option.split)
qed

lemma schedule_new_ok: "schedule_new schedule_id kind trigger retry budgets refs = Inr r \<Longrightarrow> schedule_ok r"
  by (auto simp: schedule_new_def schedule_ok_def Let_def split: option.splits)

text \<open>C11: From a record that was accepted, every sequence of triggers, misses, completions, failures, requeues and
  cancellations, failed calls included, leaves a valid record, dead only with a dead letter and after its last attempt; once
  cancelled it stays cancelled and no trigger starts it again.\<close>

theorem schedule_run_ok:
  assumes "schedule_new schedule_id kind trigger retry budgets refs = Inr r"
  shows "schedule_ok (run_ops schedule_step ops r)
    \<and> sr_monitor (run_ops schedule_step ops' (schedule_cancel (run_ops schedule_step ops r))) = MonitorCancelled
    \<and> fst (on_trigger trigger_id now_ms (run_ops schedule_step ops' (schedule_cancel (run_ops schedule_step ops r)))) \<noteq> Inr TriggerStart"
proof -
  have ok: "schedule_ok (run_ops schedule_step ops r)" using schedule_new_ok [OF assms] by (rule sched.run_keeps)
  have "sr_monitor (run_ops schedule_step ops' (schedule_cancel (run_ops schedule_step ops r))) = MonitorCancelled"
    by (rule cancelled.run_keeps) (simp add: schedule_cancel_def)
  with ok show ?thesis by (auto simp: on_trigger_def split: option.split)
qed

definition example_schedule :: schedule_record where
  "example_schedule =
     \<lparr>sr_schedule_id = ''pulse-1'', sr_kind = Interval 60000, sr_trigger = TriggerTimer, sr_monitor = MonitorWaiting,
      sr_last_checkpoint = None, sr_next_run_at_ms = None,
      sr_retry = \<lparr>rp_max_attempts = 2, rp_base_backoff_ms = 100, rp_dead_letter_after_exhaustion = True\<rparr>, sr_attempts = 0,
      sr_budgets = \<lparr>br_max_wall_clock_ms = 10000, br_max_tool_calls = 10, br_max_tokens = 1000, br_max_cost_units = 100\<rparr>,
      sr_refs = \<lparr>pf_permission_ref = ''permissions:default'', pf_approval_ref = ''approval:required'',
        pf_cancellation_ref = ''cancel:pulse-1''\<rparr>,
      sr_last_trigger_id = None, sr_dead_letter = None\<rparr>"

lemma example_schedule_new:
  "schedule_new ''pulse-1'' (Interval 60000) TriggerTimer (sr_retry example_schedule) (sr_budgets example_schedule)
     (sr_refs example_schedule) = Inr example_schedule"
  by code_simp

definition three_failures :: "schedule_op list" where
  "three_failures = [OpTrigger ''t-1'' 0, OpFail ''t-1'' 100 ''first'', OpTrigger ''t-2'' 200, OpFail ''t-2'' 300 ''second'',
     OpTrigger ''t-3'' 500, OpFail ''t-3'' 600 ''third'']"

theorem schedule_run_ok_witness:
  "schedule_ok (run_ops schedule_step three_failures example_schedule)
   \<and> sr_monitor (run_ops schedule_step three_failures example_schedule) = MonitorDeadLetter"
proof
  show "schedule_ok (run_ops schedule_step three_failures example_schedule)"
    by (rule conjunct1 [OF schedule_run_ok [OF example_schedule_new]])
  show "sr_monitor (run_ops schedule_step three_failures example_schedule) = MonitorDeadLetter" by code_simp
qed

section \<open>Retries\<close>

lemma unat_push_bit_1: "n < 64 \<Longrightarrow> unat (push_bit n (1 :: u64)) = 2 ^ n"
proof -
  assume "n < 64"
  then have "(2 :: nat) ^ n < 2 ^ 64" by (rule power_strict_increasing) simp
  then have "unat (of_nat (2 ^ n) :: u64) = 2 ^ n" by (subst unat_of_nat) simp
  then show ?thesis by (simp add: push_bit_eq_mult)
qed

lemma unat_retry_delay:
  assumes "unat attempts \<le> 32" "0 < unat attempts"
  shows "unat (retry_delay base attempts) = min (unat base * 2 ^ (unat attempts - 1)) 300000"
proof -
  have "unat (min (sat_sub attempts 1) 31) = unat attempts - 1" using assms by (simp add: sat_unat)
  then have "unat (push_bit (unat (min (sat_sub attempts 1) 31)) (1 :: u64)) = 2 ^ (unat attempts - 1)"
    using assms(1) by (simp only:) (rule unat_push_bit_1, simp)
  then show ?thesis by (simp add: retry_delay_def MAX_BACKOFF_MS_def sat_unat)
qed

text \<open>A failure of a running schedule with texts within bounds is a retry while attempts are left: the attempt is
  counted, the delay is the base doubled for every earlier attempt, at most five minutes, and the next run is that long
  after now, without wrap-around; after the last attempt it is a dead letter with the reason. It is never an error.\<close>

theorem schedule_fail_backoff:
  assumes "schedule_validate r = None" "sr_monitor r = MonitorRunning"
    and "validate_text trigger_id ''trigger_id'' MAX_ID_BYTES = None" "validate_text reason ''dead_letter_reason'' MAX_ERROR_BYTES = None"
  shows "case schedule_fail trigger_id now_ms reason r of
      (Inr (FailureRetry attempt next_run), r') \<Rightarrow>
        unat attempt = unat (sr_attempts r) + 1 \<and> attempt \<le> rp_max_attempts (sr_retry r) \<and> sr_attempts r' = attempt
        \<and> sr_monitor r' = MonitorWaiting \<and> sr_next_run_at_ms r' = Some next_run
        \<and> unat next_run = min (unat now_ms + min (unat (rp_base_backoff_ms (sr_retry r)) * 2 ^ unat (sr_attempts r)) 300000) (2 ^ 64 - 1)
    | (Inr FailureDeadLetter, r') \<Rightarrow>
        sr_attempts r = rp_max_attempts (sr_retry r) \<and> sr_monitor r' = MonitorDeadLetter
        \<and> sr_dead_letter r' = Some \<lparr>dl_trigger_id = trigger_id, dl_attempts = sr_attempts r, dl_reason = reason, dl_moved_at_ms = now_ms\<rparr>
    | (Inl e, r') \<Rightarrow> False"
proof (cases "rp_max_attempts (sr_retry r) \<le> sr_attempts r")
  case True
  then have "sr_attempts r = rp_max_attempts (sr_retry r)" using assms(1) by (simp add: schedule_validate_None)
  with assms(2) show ?thesis by (simp add: schedule_fail_def assms(3,4) del: validate_text_None)
next
  case False
  have max: "unat (rp_max_attempts (sr_retry r)) \<le> 16"
    using assms(1) by (simp add: schedule_validate_None schedule_fixed_ok_def MAX_ATTEMPTS_def word_le_nat_alt)
  have lt: "sr_attempts r < rp_max_attempts (sr_retry r)" using False by simp
  then have a: "unat (sr_attempts r + 1) = unat (sr_attempts r) + 1"
    using max by (simp add: unat_add_small [of _ 1] word_less_nat_alt)
  have "unat (retry_delay (rp_base_backoff_ms (sr_retry r)) (sr_attempts r + 1))
      = min (unat (rp_base_backoff_ms (sr_retry r)) * 2 ^ unat (sr_attempts r)) 300000"
    using unat_retry_delay [of "sr_attempts r + 1"] lt max by (simp add: a word_less_nat_alt)
  with assms(2) False lt a show ?thesis
    by (simp add: schedule_fail_def Let_def unat_sat_add attempts_Suc assms(3,4) del: validate_text_None)
qed

theorem schedule_fail_backoff_witness:
  "fst (schedule_fail ''t-1'' 100 ''first'' (snd (on_trigger ''t-1'' 0 example_schedule))) = Inr (FailureRetry 1 200)
   \<and> (case schedule_fail ''t-1'' 100 ''first'' (snd (on_trigger ''t-1'' 0 example_schedule)) of
        (Inr (FailureRetry attempt next_run), r') \<Rightarrow> attempt \<le> rp_max_attempts (sr_retry example_schedule)
      | _ \<Rightarrow> False)"
proof -
  have r: "schedule_validate (snd (on_trigger ''t-1'' 0 example_schedule)) = None"
    "sr_monitor (snd (on_trigger ''t-1'' 0 example_schedule)) = MonitorRunning"
    "validate_text ''t-1'' ''trigger_id'' MAX_ID_BYTES = None" "validate_text ''first'' ''dead_letter_reason'' MAX_ERROR_BYTES = None"
    "sr_retry (snd (on_trigger ''t-1'' 0 example_schedule)) = sr_retry example_schedule"
    and out: "fst (schedule_fail ''t-1'' 100 ''first'' (snd (on_trigger ''t-1'' 0 example_schedule))) = Inr (FailureRetry 1 200)"
    by code_simp+
  obtain r' where f: "schedule_fail ''t-1'' 100 ''first'' (snd (on_trigger ''t-1'' 0 example_schedule)) = (Inr (FailureRetry 1 200), r')"
    using out by (metis prod.collapse)
  from schedule_fail_backoff [OF r(1-4), of 100] show ?thesis unfolding f r(5) by simp
qed

text \<open>A retry that is triggered under the identifier of the failed run is a duplicate, so it never starts.\<close>

lemma retry_same_trigger_duplicate:
  "fst (on_trigger ''t-1'' 10000 (run_ops schedule_step [OpTrigger ''t-1'' 0, OpFail ''t-1'' 100 ''first''] example_schedule))
     = Inr TriggerDuplicate"
  by code_simp

text \<open>Only the last identifier is remembered, and a running schedule starts again under another identifier: the first
  trigger, delivered a second time after another, starts a third run.\<close>

lemma trigger_replayed_after_another:
  "fst (on_trigger ''t-1'' 2 (run_ops schedule_step [OpTrigger ''t-1'' 0, OpTrigger ''t-2'' 1] example_schedule)) = Inr TriggerStart"
  by code_simp

text \<open>A miss recorded during a run loses the run: its completion is an error.\<close>

lemma missed_while_running:
  "fst (schedule_complete ''c-1'' None (run_ops schedule_step [OpTrigger ''t-1'' 0, OpMissed 50] example_schedule)) = Inl InvalidState"
  by code_simp

text \<open>\<open>dead_letter_after_exhaustion\<close> is never read: a record with the flag off goes to the dead letter all the same.\<close>

lemma dead_letter_flag_unused:
  "fst (schedule_fail t n reason (r\<lparr>sr_retry := (sr_retry r)\<lparr>rp_dead_letter_after_exhaustion := b\<rparr>\<rparr>)) = fst (schedule_fail t n reason r)"
  by (simp add: schedule_fail_def Let_def split: option.split)

end
