(* ===== verification/Scheduler_State.thy ===== *)
theory Scheduler_State
  imports Prelude
begin

text \<open>
  \<open>crates/evohime-supervisor/src/scheduler_state.rs\<close>: lifecycle, lease, heartbeat and retries of the supervised process.
  A \<open>Duration\<close> is its number of nanoseconds, and \<open>as_millis\<close> is unbounded as \<open>u128\<close> is for every duration.
\<close>

type_synonym duration = int \<comment> \<open>nanoseconds, not negative\<close>

definition as_millis :: "duration \<Rightarrow> int" where
  "as_millis d = d div 10 ^ 6"

definition from_millis :: "u64 \<Rightarrow> duration" where
  "from_millis ms = uint ms * 10 ^ 6"

definition MAX_SCHEDULER_ID_BYTES :: nat where "MAX_SCHEDULER_ID_BYTES = 128"
definition MAX_LEASE_TOKEN_BYTES :: nat where "MAX_LEASE_TOKEN_BYTES = 128"
definition MAX_RETRY_ATTEMPTS :: u32 where "MAX_RETRY_ATTEMPTS = 16"
definition MAX_BACKOFF :: duration where "MAX_BACKOFF = 300 * 10 ^ 9"
definition MAX_HEARTBEAT_AGE :: duration where "MAX_HEARTBEAT_AGE = 300 * 10 ^ 9"

datatype lifecycle_state =
    LifecycleCreated | LifecycleStarting | LifecycleRunning | LifecycleDraining | LifecycleStopped
  | LifecycleRecovering | LifecycleFailed

datatype retry_disposition = DispositionRetry | DispositionExhausted

datatype shutdown_decision = ShutdownContinue | ShutdownDrain | ShutdownStop

datatype recovery_decision = RecoveryNone | RecoveryRestart | RecoveryRecover | RecoveryBlock

record lease =
  le_owner :: string
  le_token :: string
  le_expires_at_ms :: u64

record heartbeat =
  hb_generation :: u64
  hb_observed_at_ms :: u64
  hb_sequence :: u64

record retry_state =
  rs_attempts :: u32
  rs_next_attempt_at_ms :: u64
  rs_last_error :: "string option"

record scheduler_state =
  st_scheduler_id :: string
  st_generation :: u64
  st_lifecycle :: lifecycle_state
  st_lease :: "lease option"
  st_heartbeat :: "heartbeat option"
  st_retry :: retry_state

datatype validation_error =
    ValidationEmptyField string
  | ValidationFieldTooLong string
  | AttemptsOutOfBounds
  | TimestampOverflow
  | InvalidTransition
  | StaleHeartbeat
  | LeaseMismatch

definition scheduler_new :: "string \<Rightarrow> u64 \<Rightarrow> scheduler_state" where
  "scheduler_new scheduler_id generation =
     \<lparr>st_scheduler_id = scheduler_id, st_generation = generation, st_lifecycle = LifecycleCreated, st_lease = None,
      st_heartbeat = None, st_retry = \<lparr>rs_attempts = 0, rs_next_attempt_at_ms = 0, rs_last_error = None\<rparr>\<rparr>"

definition validate_bounded_text :: "string \<Rightarrow> string \<Rightarrow> nat \<Rightarrow> validation_error option" where
  "validate_bounded_text v field max_bytes =
     (if v = [] then Some (ValidationEmptyField field)
      else if length v > max_bytes then Some (ValidationFieldTooLong field) else None)"

definition scheduler_validate :: "scheduler_state \<Rightarrow> validation_error option" where
  "scheduler_validate s =
     (case validate_bounded_text (st_scheduler_id s) ''scheduler_id'' MAX_SCHEDULER_ID_BYTES of
        Some e \<Rightarrow> Some e
      | None \<Rightarrow>
     if rs_attempts (st_retry s) > MAX_RETRY_ATTEMPTS then Some AttemptsOutOfBounds
     else case (case rs_last_error (st_retry s) of
                  Some error \<Rightarrow> validate_bounded_text error ''last_error'' MAX_SCHEDULER_ID_BYTES | None \<Rightarrow> None) of
        Some e \<Rightarrow> Some e
      | None \<Rightarrow>
     case (case st_lease s of
             Some l \<Rightarrow>
               (case validate_bounded_text (le_owner l) ''lease_owner'' MAX_SCHEDULER_ID_BYTES of
                  Some e \<Rightarrow> Some e
                | None \<Rightarrow> (case validate_bounded_text (le_token l) ''lease_token'' MAX_LEASE_TOKEN_BYTES of
                    Some e \<Rightarrow> Some e
                  | None \<Rightarrow> if le_expires_at_ms l = 0 then Some TimestampOverflow else None))
           | None \<Rightarrow> None) of
        Some e \<Rightarrow> Some e
      | None \<Rightarrow>
     case st_heartbeat s of
        Some h \<Rightarrow> (if hb_generation h \<noteq> st_generation s then Some StaleHeartbeat else None)
      | None \<Rightarrow> None)"

fun transition_allowed :: "lifecycle_state \<Rightarrow> lifecycle_state \<Rightarrow> bool" where
  "transition_allowed LifecycleCreated LifecycleStarting = True"
| "transition_allowed LifecycleStarting LifecycleRunning = True"
| "transition_allowed LifecycleStarting LifecycleFailed = True"
| "transition_allowed LifecycleRunning LifecycleDraining = True"
| "transition_allowed LifecycleRunning LifecycleFailed = True"
| "transition_allowed LifecycleDraining LifecycleStopped = True"
| "transition_allowed LifecycleFailed LifecycleRecovering = True"
| "transition_allowed LifecycleRecovering LifecycleStarting = True"
| "transition_allowed LifecycleRecovering LifecycleFailed = True"
| "transition_allowed LifecycleStopped LifecycleStarting = True"
| "transition_allowed _ _ = False"

definition scheduler_transition :: "lifecycle_state \<Rightarrow> scheduler_state \<Rightarrow> (validation_error + unit) \<times> scheduler_state" where
  "scheduler_transition next_state s =
     (if \<not> transition_allowed (st_lifecycle s) next_state then (Inl InvalidTransition, s)
      else (Inr (), s\<lparr>st_lifecycle := next_state\<rparr>))"

text \<open>\<open>u64::try_from\<close> of a number of milliseconds, then \<open>checked_add\<close>.\<close>

definition lease_expiry :: "u64 \<Rightarrow> duration \<Rightarrow> validation_error + u64" where
  "lease_expiry now_ms ttl =
     (if as_millis ttl \<ge> 2 ^ 64 then Inl TimestampOverflow
      else case checked_add now_ms (of_int (as_millis ttl)) of
             None \<Rightarrow> Inl TimestampOverflow | Some expires_at_ms \<Rightarrow> Inr expires_at_ms)"

definition acquire_lease :: "string \<Rightarrow> string \<Rightarrow> u64 \<Rightarrow> duration \<Rightarrow> scheduler_state \<Rightarrow> (validation_error + unit) \<times> scheduler_state" where
  "acquire_lease owner token now_ms ttl s =
     (case validate_bounded_text owner ''lease_owner'' MAX_SCHEDULER_ID_BYTES of
        Some e \<Rightarrow> (Inl e, s)
      | None \<Rightarrow> (case validate_bounded_text token ''lease_token'' MAX_LEASE_TOKEN_BYTES of
          Some e \<Rightarrow> (Inl e, s)
        | None \<Rightarrow> (case lease_expiry now_ms ttl of
            Inl e \<Rightarrow> (Inl e, s)
          | Inr expires_at_ms \<Rightarrow>
              (Inr (), s\<lparr>st_lease := Some \<lparr>le_owner = owner, le_token = token, le_expires_at_ms = expires_at_ms\<rparr>\<rparr>))))"

definition renew_lease :: "string \<Rightarrow> u64 \<Rightarrow> duration \<Rightarrow> scheduler_state \<Rightarrow> (validation_error + unit) \<times> scheduler_state" where
  "renew_lease token now_ms ttl s =
     (case st_lease s of
        None \<Rightarrow> (Inl LeaseMismatch, s)
      | Some l \<Rightarrow>
          (if le_token l \<noteq> token \<or> le_expires_at_ms l < now_ms then (Inl LeaseMismatch, s)
           else case lease_expiry now_ms ttl of
                  Inl e \<Rightarrow> (Inl e, s)
                | Inr expires_at_ms \<Rightarrow> (Inr (), s\<lparr>st_lease := Some (l\<lparr>le_expires_at_ms := expires_at_ms\<rparr>)\<rparr>)))"

definition record_heartbeat :: "u64 \<Rightarrow> u64 \<Rightarrow> scheduler_state \<Rightarrow> scheduler_state" where
  "record_heartbeat observed_at_ms sequence s =
     s\<lparr>st_heartbeat := Some \<lparr>hb_generation = st_generation s, hb_observed_at_ms = observed_at_ms, hb_sequence = sequence\<rparr>\<rparr>"

definition heartbeat_is_healthy :: "u64 \<Rightarrow> duration \<Rightarrow> scheduler_state \<Rightarrow> bool" where
  "heartbeat_is_healthy now_ms max_age s =
     (let age_ms = min (as_millis max_age) (as_millis MAX_HEARTBEAT_AGE)
      in case st_heartbeat s of
           None \<Rightarrow> False
         | Some h \<Rightarrow> hb_generation h = st_generation s \<and> hb_observed_at_ms h \<le> now_ms
             \<and> sat_sub now_ms (hb_observed_at_ms h) \<le> of_int age_ms)"

text \<open>The product is a \<open>u128\<close> and saturates there; with the bound of five minutes the saturation is never seen.\<close>

definition scheduler_backoff_ms :: "duration \<Rightarrow> u32 \<Rightarrow> u64" where
  "scheduler_backoff_ms base_backoff attempts =
     of_int (min (min (as_millis base_backoff * 2 ^ unat (min (sat_sub attempts 1) 31)) (2 ^ 128 - 1)) (as_millis MAX_BACKOFF))"

definition schedule_retry :: "u64 \<Rightarrow> duration \<Rightarrow> string \<Rightarrow> scheduler_state \<Rightarrow> retry_disposition \<times> scheduler_state" where
  "schedule_retry now_ms base_backoff error s =
     (if rs_attempts (st_retry s) \<ge> MAX_RETRY_ATTEMPTS then (DispositionExhausted, s)
      else let attempts = rs_attempts (st_retry s) + 1
           in (DispositionRetry,
               s\<lparr>st_retry := \<lparr>rs_attempts = attempts,
                    rs_next_attempt_at_ms = sat_add now_ms (scheduler_backoff_ms base_backoff attempts),
                    rs_last_error = Some error\<rparr>\<rparr>))"

definition shutdown_decision_of :: "bool \<Rightarrow> scheduler_state \<Rightarrow> shutdown_decision" where
  "shutdown_decision_of requested s =
     (if \<not> requested then ShutdownContinue
      else if st_lifecycle s = LifecycleRunning then ShutdownDrain else ShutdownStop)"

definition recovery_decision_of :: "u64 \<Rightarrow> scheduler_state \<Rightarrow> recovery_decision" where
  "recovery_decision_of now_ms s =
     (case st_lifecycle s of
        LifecycleFailed \<Rightarrow> RecoveryRecover
      | LifecycleRunning \<Rightarrow> (if \<not> heartbeat_is_healthy now_ms MAX_HEARTBEAT_AGE s then RecoveryRestart else RecoveryNone)
      | LifecycleRecovering \<Rightarrow> RecoveryRecover
      | _ \<Rightarrow> RecoveryNone)"

section \<open>What the operations keep\<close>

lemma unat_of_int_le: "0 \<le> i \<Longrightarrow> i \<le> int n \<Longrightarrow> n < 2 ^ 64 \<Longrightarrow> unat (of_int i :: u64) \<le> n"
  by (simp add: unat_eq_nat_uint uint_word_of_int)

lemma unat_scheduler_backoff_ms: "0 \<le> base \<Longrightarrow> unat (scheduler_backoff_ms base attempts) \<le> 300000"
  unfolding scheduler_backoff_ms_def by (rule unat_of_int_le) (simp_all add: as_millis_def MAX_BACKOFF_def)

lemma schedule_retry_bounded:
  assumes "schedule_retry now_ms base error s = (DispositionRetry, s')" "0 \<le> base"
  shows "unat (rs_attempts (st_retry s')) = unat (rs_attempts (st_retry s)) + 1 \<and> rs_attempts (st_retry s') \<le> MAX_RETRY_ATTEMPTS
    \<and> unat (rs_next_attempt_at_ms (st_retry s')) \<le> unat now_ms + 300000"
proof -
  have lt: "rs_attempts (st_retry s) < MAX_RETRY_ATTEMPTS"
    and s': "st_retry s' = \<lparr>rs_attempts = rs_attempts (st_retry s) + 1,
      rs_next_attempt_at_ms = sat_add now_ms (scheduler_backoff_ms base (rs_attempts (st_retry s) + 1)), rs_last_error = Some error\<rparr>"
    using assms(1) by (auto simp: schedule_retry_def Let_def not_le split: if_splits)
  then have "unat (rs_attempts (st_retry s) + 1) = unat (rs_attempts (st_retry s)) + 1"
    by (simp add: unat_add_small [of _ 1] word_less_nat_alt MAX_RETRY_ATTEMPTS_def)
  then show ?thesis using s' inc_le [OF lt] unat_scheduler_backoff_ms [OF assms(2), of "rs_attempts (st_retry s) + 1"]
    by (simp add: unat_sat_add min_le_iff_disj)
qed

text \<open>A renewed lease was held under the same token and had not run out; its new end is the given life after now.\<close>

lemma renew_lease_held:
  assumes "renew_lease token now_ms ttl s = (Inr (), s')" "0 \<le> ttl"
  shows "\<exists>l. st_lease s = Some l \<and> le_token l = token \<and> now_ms \<le> le_expires_at_ms l
    \<and> (\<exists>x. st_lease s' = Some (l\<lparr>le_expires_at_ms := x\<rparr>) \<and> uint x = uint now_ms + as_millis ttl)"
proof -
  obtain l x where l: "st_lease s = Some l" "le_token l = token" "now_ms \<le> le_expires_at_ms l"
    and x: "lease_expiry now_ms ttl = Inr x" and s': "s' = s\<lparr>st_lease := Some (l\<lparr>le_expires_at_ms := x\<rparr>)\<rparr>"
    using assms(1) by (auto simp: renew_lease_def not_less split: option.splits if_splits sum.splits)
  have "as_millis ttl < 2 ^ 64" using x by (auto simp: lease_expiry_def split: if_splits)
  then have "uint (of_int (as_millis ttl) :: u64) = as_millis ttl"
    using assms(2) by (simp add: uint_word_of_int as_millis_def)
  moreover from x have "unat x = unat now_ms + unat (of_int (as_millis ttl) :: u64)"
    by (auto simp: lease_expiry_def dest: checked_add_SomeD split: if_splits option.splits)
  then have "uint x = uint now_ms + uint (of_int (as_millis ttl) :: u64)" by (metis of_nat_add of_nat_unat)
  ultimately have "uint x = uint now_ms + as_millis ttl" by simp
  with l s' show ?thesis by auto
qed

text \<open>A lease is taken whoever holds it: a second owner replaces a lease that has not run out.\<close>

lemma acquire_lease_takes_over:
  "acquire_lease ''b'' ''t2'' 10 1000000 (snd (acquire_lease ''a'' ''t1'' 0 (10 ^ 12) (scheduler_new ''main'' 1)))
     = (Inr (), (scheduler_new ''main'' 1)\<lparr>st_lease := Some \<lparr>le_owner = ''b'', le_token = ''t2'', le_expires_at_ms = 11\<rparr>\<rparr>)"
  by code_simp

text \<open>The error of a retry is stored without a bound, so a long one makes the state invalid.\<close>

lemma schedule_retry_may_invalidate:
  "scheduler_validate (scheduler_new ''main'' 1) = None"
  "scheduler_validate (snd (schedule_retry 0 1000000 (replicate 129 (CHR ''x'')) (scheduler_new ''main'' 1)))
     = Some (ValidationFieldTooLong ''last_error'')"
  by code_simp+

end
