(* ===== verification/Supervisor_Runtime.thy ===== *)
theory Supervisor_Runtime
  imports Schedule_Contract Scheduler_State
begin

text \<open>
  \<open>crates/evohime-supervisor/src/runtime_loop.rs\<close> and \<open>pulse.rs\<close>: the runtime that drives the scheduler state and the
  watchdog schedule over the generations of the supervised process, and the digest of its events. An error in the middle
  of an operation leaves what was changed before it, as in the code.
\<close>

section \<open>The runtime\<close>

datatype runtime_error = SchedulerError validation_error | ScheduleError schedule_error

datatype tick_event =
    LifecycleTransition lifecycle_state lifecycle_state
  | LeaseAcquired
  | LeaseRenewed
  | LeaseLost
  | HeartbeatRecorded u64
  | RecoveryDecided recovery_decision
  | RetryScheduled u32 u64
  | RetryExhausted
  | TriggerDecided trigger_decision
  | ScheduleCompleted "u64 option"
  | ScheduleFailed failure_decision
  | ScheduleDeadLettered
  | ScheduleRequeued

record generation_outcome =
  go_events :: "tick_event list"
  go_dead_lettered :: bool
  go_next_attempt_at_ms :: "u64 option"

definition WATCHDOG_INTERVAL_MS :: u64 where "WATCHDOG_INTERVAL_MS = 1000"
definition WATCHDOG_BASE_BACKOFF_MS :: u64 where "WATCHDOG_BASE_BACKOFF_MS = 250"

record supervisor_runtime =
  rt_scheduler :: scheduler_state
  rt_watchdog :: schedule_record
  rt_generation :: u64
  rt_heartbeat_sequence :: u64
  rt_lease_ttl :: duration
  rt_lease_owner :: string

definition runtime_new :: "string \<Rightarrow> string \<Rightarrow> string \<Rightarrow> duration \<Rightarrow> u32 \<Rightarrow> runtime_error + supervisor_runtime" where
  "runtime_new scheduler_id schedule_id lease_owner lease_ttl max_attempts =
     (let scheduler = scheduler_new scheduler_id 1
      in case scheduler_validate scheduler of
           Some e \<Rightarrow> Inl (SchedulerError e)
         | None \<Rightarrow>
             (case schedule_new schedule_id (Interval WATCHDOG_INTERVAL_MS) TriggerTimer
                     \<lparr>rp_max_attempts = max max_attempts 1, rp_base_backoff_ms = WATCHDOG_BASE_BACKOFF_MS,
                      rp_dead_letter_after_exhaustion = True\<rparr>
                     \<lparr>br_max_wall_clock_ms = (- 1) div 2, br_max_tool_calls = (- 1) div 2, br_max_tokens = (- 1) div 2,
                      br_max_cost_units = MAX_BUDGET_UNITS\<rparr>
                     \<lparr>pf_permission_ref = ''supervisor:core-process'', pf_approval_ref = ''supervisor:auto-restart'',
                      pf_cancellation_ref = ''supervisor:shutdown''\<rparr> of
                Inl e \<Rightarrow> Inl (ScheduleError e)
              | Inr watchdog \<Rightarrow>
                  Inr \<lparr>rt_scheduler = scheduler, rt_watchdog = watchdog, rt_generation = 0, rt_heartbeat_sequence = 0,
                       rt_lease_ttl = lease_ttl, rt_lease_owner = lease_owner\<rparr>))"

definition generation_id :: "u64 \<Rightarrow> string" where
  "generation_id generation = ''gen-'' @ show_word generation"

definition start_generation :: "u64 \<Rightarrow> supervisor_runtime \<Rightarrow> (runtime_error + tick_event list) \<times> supervisor_runtime" where
  "start_generation now_ms r =
     (let r = r\<lparr>rt_generation := rt_generation r + 1\<rparr>; from_state = st_lifecycle (rt_scheduler r)
      in case scheduler_transition LifecycleStarting (rt_scheduler r) of
           (Inl e, s) \<Rightarrow> (Inl (SchedulerError e), r\<lparr>rt_scheduler := s\<rparr>)
         | (Inr _, s) \<Rightarrow>
             (case acquire_lease (rt_lease_owner r) (generation_id (rt_generation r)) now_ms (rt_lease_ttl r) s of
                (Inl e, s) \<Rightarrow> (Inl (SchedulerError e), r\<lparr>rt_scheduler := s\<rparr>)
              | (Inr _, s) \<Rightarrow>
                  (case on_trigger (generation_id (rt_generation r)) now_ms (rt_watchdog r) of
                     (Inl e, w) \<Rightarrow> (Inl (ScheduleError e), r\<lparr>rt_scheduler := s, rt_watchdog := w\<rparr>)
                   | (Inr decision, w) \<Rightarrow>
                       (Inr [LifecycleTransition from_state LifecycleStarting, LeaseAcquired, TriggerDecided decision],
                        r\<lparr>rt_scheduler := s, rt_watchdog := w\<rparr>))))"

text \<open>The three steps of \<open>observe_tick\<close>: becoming \<open>Running\<close>, the heartbeat with the lease, the recovery decision.\<close>

definition tick_running :: "bool \<Rightarrow> scheduler_state \<Rightarrow> (validation_error + tick_event list) \<times> scheduler_state" where
  "tick_running heartbeat_fresh s =
     (if st_lifecycle s = LifecycleStarting \<and> heartbeat_fresh
      then (case scheduler_transition LifecycleRunning s of
              (Inl e, s') \<Rightarrow> (Inl e, s')
            | (Inr _, s') \<Rightarrow> (Inr [LifecycleTransition (st_lifecycle s) LifecycleRunning], s'))
      else (Inr [], s))"

definition tick_heartbeat :: "u64 \<Rightarrow> supervisor_runtime \<Rightarrow> tick_event list \<times> supervisor_runtime" where
  "tick_heartbeat now_ms r =
     (let sequence = rt_heartbeat_sequence r + 1;
          s = record_heartbeat now_ms sequence (rt_scheduler r)
      in case renew_lease (generation_id (rt_generation r)) now_ms (rt_lease_ttl r) s of
           (Inr _, s) \<Rightarrow> ([HeartbeatRecorded sequence, LeaseRenewed], r\<lparr>rt_heartbeat_sequence := sequence, rt_scheduler := s\<rparr>)
         | (Inl _, s) \<Rightarrow> ([HeartbeatRecorded sequence, LeaseLost], r\<lparr>rt_heartbeat_sequence := sequence, rt_scheduler := s\<rparr>))"

definition observe_tick :: "u64 \<Rightarrow> bool \<Rightarrow> supervisor_runtime \<Rightarrow> (runtime_error + tick_event list) \<times> supervisor_runtime" where
  "observe_tick now_ms heartbeat_fresh r =
     (case tick_running heartbeat_fresh (rt_scheduler r) of
        (Inl e, s) \<Rightarrow> (Inl (SchedulerError e), r\<lparr>rt_scheduler := s\<rparr>)
      | (Inr running, s) \<Rightarrow>
          (let r = r\<lparr>rt_scheduler := s\<rparr>;
               (beat, r) = (if heartbeat_fresh then tick_heartbeat now_ms r else ([], r));
               recovery =
                 (if st_lifecycle (rt_scheduler r) = LifecycleRunning \<and> recovery_decision_of now_ms (rt_scheduler r) \<noteq> RecoveryNone
                  then [RecoveryDecided (recovery_decision_of now_ms (rt_scheduler r))] else [])
           in (Inr (running @ beat @ recovery), r)))"

text \<open>\<open>complete_generation\<close> after a success, and after a failure.\<close>

definition complete_success :: "supervisor_runtime \<Rightarrow> (runtime_error + generation_outcome) \<times> supervisor_runtime" where
  "complete_success r =
     (case schedule_complete (''checkpoint-'' @ show_word (rt_generation r)) None (rt_watchdog r) of
        (Inl e, w) \<Rightarrow> (Inl (ScheduleError e), r\<lparr>rt_watchdog := w\<rparr>)
      | (Inr _, w) \<Rightarrow>
          (let r = r\<lparr>rt_watchdog := w\<rparr>;
               (drained, drain, s) =
                 (if st_lifecycle (rt_scheduler r) = LifecycleRunning
                  then (case scheduler_transition LifecycleDraining (rt_scheduler r) of
                          (res, s) \<Rightarrow> (res, [LifecycleTransition LifecycleRunning LifecycleDraining], s))
                  else (Inr (), [], rt_scheduler r))
           in case drained of
                Inl e \<Rightarrow> (Inl (SchedulerError e), r\<lparr>rt_scheduler := s\<rparr>)
              | Inr _ \<Rightarrow>
                  (case scheduler_transition LifecycleStopped s of
                     (Inl e, s') \<Rightarrow> (Inl (SchedulerError e), r\<lparr>rt_scheduler := s'\<rparr>)
                   | (Inr _, s') \<Rightarrow>
                       (Inr \<lparr>go_events = [ScheduleCompleted None] @ drain @ [LifecycleTransition (st_lifecycle s) LifecycleStopped],
                             go_dead_lettered = False, go_next_attempt_at_ms = None\<rparr>,
                        r\<lparr>rt_scheduler := s'\<rparr>))))"

text \<open>A transition with its event, taken when the state is one of the given ones.\<close>

definition transition_if ::
  "lifecycle_state list \<Rightarrow> lifecycle_state \<Rightarrow> scheduler_state \<Rightarrow> (validation_error + tick_event list) \<times> scheduler_state" where
  "transition_if states next_state s =
     (if st_lifecycle s \<in> set states
      then (case scheduler_transition next_state s of
              (Inl e, s') \<Rightarrow> (Inl e, s')
            | (Inr _, s') \<Rightarrow> (Inr [LifecycleTransition (st_lifecycle s) next_state], s'))
      else (Inr [], s))"

definition complete_failure :: "u64 \<Rightarrow> string \<Rightarrow> supervisor_runtime \<Rightarrow> (runtime_error + generation_outcome) \<times> supervisor_runtime" where
  "complete_failure now_ms reason r =
     (case schedule_fail (generation_id (rt_generation r)) now_ms reason (rt_watchdog r) of
        (Inl e, w) \<Rightarrow> (Inl (ScheduleError e), r\<lparr>rt_watchdog := w\<rparr>)
      | (Inr failure, w) \<Rightarrow>
          (let r = r\<lparr>rt_watchdog := w\<rparr>
           in case transition_if [LifecycleRunning, LifecycleStarting] LifecycleFailed (rt_scheduler r) of
                (Inl e, s) \<Rightarrow> (Inl (SchedulerError e), r\<lparr>rt_scheduler := s\<rparr>)
              | (Inr failed, s) \<Rightarrow>
                  (case failure of
                     FailureRetry attempt next_run_at_ms \<Rightarrow>
                       (let (disposition, s) = schedule_retry now_ms (from_millis WATCHDOG_BASE_BACKOFF_MS) reason s;
                            retried = (case disposition of
                               DispositionRetry \<Rightarrow> RetryScheduled (rs_attempts (st_retry s)) (rs_next_attempt_at_ms (st_retry s))
                             | DispositionExhausted \<Rightarrow> RetryExhausted)
                        in case transition_if [LifecycleFailed] LifecycleRecovering s of
                             (Inl e, s) \<Rightarrow> (Inl (SchedulerError e), r\<lparr>rt_scheduler := s\<rparr>)
                           | (Inr recovering, s) \<Rightarrow>
                               (Inr \<lparr>go_events = [ScheduleFailed failure] @ failed @ [retried] @ recovering,
                                     go_dead_lettered = False, go_next_attempt_at_ms = Some next_run_at_ms\<rparr>,
                                r\<lparr>rt_scheduler := s\<rparr>))
                   | FailureDeadLetter \<Rightarrow>
                       (Inr \<lparr>go_events = [ScheduleFailed failure] @ failed @ [ScheduleDeadLettered],
                             go_dead_lettered = True, go_next_attempt_at_ms = None\<rparr>,
                        r\<lparr>rt_scheduler := s\<rparr>))))"

definition complete_generation ::
  "u64 \<Rightarrow> bool \<Rightarrow> string \<Rightarrow> supervisor_runtime \<Rightarrow> (runtime_error + generation_outcome) \<times> supervisor_runtime" where
  "complete_generation now_ms success reason r = (if success then complete_success r else complete_failure now_ms reason r)"

definition runtime_requeue :: "u64 \<Rightarrow> supervisor_runtime \<Rightarrow> (runtime_error + tick_event list) \<times> supervisor_runtime" where
  "runtime_requeue now_ms r =
     (case schedule_requeue now_ms (rt_watchdog r) of
        (Inl e, w) \<Rightarrow> (Inl (ScheduleError e), r\<lparr>rt_watchdog := w\<rparr>)
      | (Inr _, w) \<Rightarrow> (Inr [ScheduleRequeued], r\<lparr>rt_watchdog := w\<rparr>))"

section \<open>A runtime that can never start again\<close>

datatype runtime_op =
    OpStart u64
  | OpTick u64 bool
  | OpFinish u64 bool string
  | OpRequeueWatchdog u64

datatype runtime_result = ResEvents "tick_event list" | ResOutcome generation_outcome

fun runtime_step :: "runtime_op \<Rightarrow> supervisor_runtime \<Rightarrow> (runtime_error + runtime_result) \<times> supervisor_runtime" where
  "runtime_step (OpStart now_ms) r = map_prod (map_sum id ResEvents) id (start_generation now_ms r)"
| "runtime_step (OpTick now_ms fresh) r = map_prod (map_sum id ResEvents) id (observe_tick now_ms fresh r)"
| "runtime_step (OpFinish now_ms success reason) r = map_prod (map_sum id ResOutcome) id (complete_generation now_ms success reason r)"
| "runtime_step (OpRequeueWatchdog now_ms) r = map_prod (map_sum id ResEvents) id (runtime_requeue now_ms r)"

lemma renew_lease_lifecycle [simp]: "st_lifecycle (snd (renew_lease token now_ms ttl s)) = st_lifecycle s"
  by (simp add: renew_lease_def split: option.split sum.split)

lemma acquire_lease_lifecycle [simp]: "st_lifecycle (snd (acquire_lease owner token now_ms ttl s)) = st_lifecycle s"
  by (simp add: acquire_lease_def split: option.split sum.split)

lemma record_heartbeat_lifecycle [simp]: "st_lifecycle (record_heartbeat now_ms sequence s) = st_lifecycle s"
  by (simp add: record_heartbeat_def)

lemma tick_heartbeat_keeps [simp]:
  "st_lifecycle (rt_scheduler (snd (tick_heartbeat now_ms r))) = st_lifecycle (rt_scheduler r)"
  "rt_watchdog (snd (tick_heartbeat now_ms r)) = rt_watchdog r"
proof -
  let ?s = "record_heartbeat now_ms (rt_heartbeat_sequence r + 1) (rt_scheduler r)"
  obtain res s where s: "renew_lease (generation_id (rt_generation r)) now_ms (rt_lease_ttl r) ?s = (res, s)" by force
  then have "st_lifecycle s = st_lifecycle (rt_scheduler r)" by (metis renew_lease_lifecycle record_heartbeat_lifecycle snd_conv)
  then show "st_lifecycle (rt_scheduler (snd (tick_heartbeat now_ms r))) = st_lifecycle (rt_scheduler r)"
    "rt_watchdog (snd (tick_heartbeat now_ms r)) = rt_watchdog r"
    by (simp_all add: tick_heartbeat_def Let_def s split: sum.split)
qed

text \<open>A tick never fails, keeps the watchdog, and moves the lifecycle only from \<open>Starting\<close> to \<open>Running\<close>.\<close>

lemma observe_tick_effect:
  "\<exists>events. fst (observe_tick now_ms fresh r) = Inr events"
  "rt_watchdog (snd (observe_tick now_ms fresh r)) = rt_watchdog r"
  "st_lifecycle (rt_scheduler (snd (observe_tick now_ms fresh r))) =
     (if st_lifecycle (rt_scheduler r) = LifecycleStarting \<and> fresh then LifecycleRunning else st_lifecycle (rt_scheduler r))"
  by (auto simp: observe_tick_def tick_running_def scheduler_transition_def Let_def case_prod_beta)

text \<open>The watchdog does not run, and the lifecycle is where only the end of a generation would lead on.\<close>

definition runtime_stuck :: "supervisor_runtime \<Rightarrow> bool" where
  "runtime_stuck r \<longleftrightarrow>
     sr_monitor (rt_watchdog r) \<noteq> MonitorRunning
     \<and> st_lifecycle (rt_scheduler r) \<in> {LifecycleStarting, LifecycleRunning, LifecycleDraining, LifecycleFailed}"

lemma stuck_start:
  assumes "runtime_stuck r"
  shows "start_generation now_ms r = (Inl (SchedulerError InvalidTransition), r\<lparr>rt_generation := rt_generation r + 1\<rparr>)"
  using assms by (auto simp: start_generation_def runtime_stuck_def scheduler_transition_def Let_def)

lemma stuck_complete:
  assumes "runtime_stuck r"
  shows "snd (complete_generation now_ms success reason r) = r"
  using assms
  by (auto simp: complete_generation_def complete_success_def complete_failure_def runtime_stuck_def schedule_complete_def
      schedule_fail_def split: option.split)

interpretation stuck: op_invariant runtime_step runtime_stuck
proof
  fix r op assume r: "runtime_stuck r"
  show "runtime_stuck (snd (runtime_step op r))"
  proof (cases op)
    case (OpStart now_ms)
    with r show ?thesis by (simp add: stuck_start) (simp add: runtime_stuck_def)
  next
    case (OpTick now_ms fresh)
    with r show ?thesis by (simp add: runtime_stuck_def observe_tick_effect)
  next
    case (OpFinish now_ms success reason)
    with r show ?thesis by (simp add: stuck_complete)
  next
    case (OpRequeueWatchdog now_ms)
    with r show ?thesis by (auto simp: runtime_stuck_def runtime_requeue_def schedule_requeue_def)
  qed
qed

text \<open>Three ways into it: the process exits well before its first heartbeat, the watchdog is dead, and a generation starts
  before its time.\<close>

lemma early_exit_stuck:
  assumes "complete_generation now_ms True reason r = (Inl (SchedulerError e), r')" "st_lifecycle (rt_scheduler r) = LifecycleStarting"
  shows "runtime_stuck r'"
proof -
  obtain w where w: "schedule_complete (''checkpoint-'' @ show_word (rt_generation r)) None (rt_watchdog r) = (Inr (), w)"
    using assms(1) by (auto simp: complete_generation_def complete_success_def split: prod.splits sum.splits)
  then have "sr_monitor w = MonitorIdle" by (auto simp: schedule_complete_def split: option.splits if_splits)
  with assms w show ?thesis
    by (auto simp: complete_generation_def complete_success_def scheduler_transition_def runtime_stuck_def Let_def)
qed

lemma dead_letter_stuck:
  assumes "complete_generation now_ms False reason r = (Inr outcome, r')" "go_dead_lettered outcome"
    and "st_lifecycle (rt_scheduler r) \<in> {LifecycleStarting, LifecycleRunning}"
  shows "runtime_stuck r'"
proof -
  obtain failure w where w: "schedule_fail (generation_id (rt_generation r)) now_ms reason (rt_watchdog r) = (Inr failure, w)"
    using assms(1) by (auto simp: complete_generation_def complete_failure_def split: prod.splits sum.splits)
  with assms have "failure = FailureDeadLetter"
    by (auto simp: complete_generation_def complete_failure_def transition_if_def scheduler_transition_def Let_def
        split: failure_decision.splits prod.splits sum.splits if_splits)
  moreover from this w have "sr_monitor w = MonitorDeadLetter" by (auto simp: schedule_fail_def Let_def split: option.splits if_splits)
  ultimately show ?thesis using assms w
    by (auto simp: complete_generation_def complete_failure_def transition_if_def scheduler_transition_def runtime_stuck_def Let_def)
qed

lemma missed_start_stuck:
  assumes "start_generation now_ms r = (Inr events, r')" "TriggerDecided TriggerMissed \<in> set events"
    and "sr_monitor (rt_watchdog r) \<noteq> MonitorRunning"
  shows "runtime_stuck r'"
proof -
  let ?r = "r\<lparr>rt_generation := rt_generation r + 1\<rparr>"
  obtain s where s: "scheduler_transition LifecycleStarting (rt_scheduler r) = (Inr (), s)" "st_lifecycle s = LifecycleStarting"
    using assms(1) by (auto simp: start_generation_def scheduler_transition_def Let_def split: if_splits)
  obtain s' where s': "acquire_lease (rt_lease_owner r) (generation_id (rt_generation r + 1)) now_ms (rt_lease_ttl r) s = (Inr (), s')"
    using assms(1) s by (auto simp: start_generation_def Let_def split: prod.splits sum.splits)
  have l: "st_lifecycle s' = LifecycleStarting" using acquire_lease_lifecycle s s' by (metis snd_conv)
  from assms(1,2) s s' have "on_trigger (generation_id (rt_generation r + 1)) now_ms (rt_watchdog r) = (Inr TriggerMissed, rt_watchdog r)"
    and r': "rt_scheduler r' = s'" "rt_watchdog r' = rt_watchdog r"
    by (auto simp: start_generation_def Let_def on_trigger_def split: prod.splits sum.splits option.splits if_splits)
  with l r' assms(3) show ?thesis by (simp add: runtime_stuck_def)
qed

text \<open>C10: Once the process exits with success before its first heartbeat, or a failed generation ends in the dead letter,
  or a generation is started before the time of its retry, no sequence of starts, ticks, ends of generations and requeues
  ever makes a start succeed again: the lifecycle has no transition to \<open>Starting\<close>.\<close>

theorem supervisor_never_restarts:
  assumes "st_lifecycle (rt_scheduler r0) = LifecycleStarting \<and> complete_generation now_ms True reason r0 = (Inl (SchedulerError e), r)
    \<or> st_lifecycle (rt_scheduler r0) \<in> {LifecycleStarting, LifecycleRunning}
        \<and> complete_generation now_ms False reason r0 = (Inr outcome, r) \<and> go_dead_lettered outcome
    \<or> sr_monitor (rt_watchdog r0) \<noteq> MonitorRunning
        \<and> start_generation now_ms r0 = (Inr events, r) \<and> TriggerDecided TriggerMissed \<in> set events"
  shows "fst (start_generation later_ms (run_ops runtime_step ops r)) = Inl (SchedulerError InvalidTransition)"
proof -
  have "runtime_stuck r" using assms early_exit_stuck dead_letter_stuck missed_start_stuck by metis
  then have "runtime_stuck (run_ops runtime_step ops r)" by (rule stuck.run_keeps)
  then show ?thesis by (simp add: stuck_start)
qed

definition example_runtime :: supervisor_runtime where
  "example_runtime =
     (case runtime_new ''core-watchdog'' ''core-watchdog-schedule'' ''supervisor'' (5 * 10 ^ 9) 1 of
        Inr r \<Rightarrow> r
      | Inl e \<Rightarrow> \<lparr>rt_scheduler = scheduler_new [] 1, rt_watchdog = example_schedule, rt_generation = 0,
                  rt_heartbeat_sequence = 0, rt_lease_ttl = 0, rt_lease_owner = []\<rparr>)"

definition dead_runtime :: supervisor_runtime where
  "dead_runtime = run_ops runtime_step
     [OpStart 0, OpTick 100 True, OpFinish 200 False ''core crashed'', OpStart 1000, OpTick 1100 True] example_runtime"

theorem supervisor_never_restarts_witness:
  "(case complete_generation 1200 False ''core crashed'' dead_runtime of (Inr outcome, r) \<Rightarrow> go_dead_lettered outcome | _ \<Rightarrow> False)
   \<and> fst (runtime_requeue 1300 (snd (complete_generation 1200 False ''core crashed'' dead_runtime))) = Inr [ScheduleRequeued]
   \<and> fst (start_generation 9000 (run_ops runtime_step [OpRequeueWatchdog 1300]
       (snd (complete_generation 1200 False ''core crashed'' dead_runtime)))) = Inl (SchedulerError InvalidTransition)"
proof -
  have a: "case complete_generation 1200 False ''core crashed'' dead_runtime of (Inr outcome, r) \<Rightarrow> go_dead_lettered outcome | _ \<Rightarrow> False"
    and b: "fst (runtime_requeue 1300 (snd (complete_generation 1200 False ''core crashed'' dead_runtime))) = Inr [ScheduleRequeued]"
    and c: "st_lifecycle (rt_scheduler dead_runtime) = LifecycleRunning"
    by code_simp+
  from a obtain outcome r where r: "complete_generation 1200 False ''core crashed'' dead_runtime = (Inr outcome, r)" "go_dead_lettered outcome"
    by (auto split: prod.splits sum.splits)
  have "fst (start_generation 9000 (run_ops runtime_step [OpRequeueWatchdog 1300] r)) = Inl (SchedulerError InvalidTransition)"
    by (rule supervisor_never_restarts [of dead_runtime 1200 "''core crashed''" InvalidTransition r outcome "[]"]) (use c r in simp)
  with a b r show ?thesis by simp
qed

section \<open>A generation in order\<close>

text \<open>The identifiers the runtime makes are texts within the bounds.\<close>

lemma length_show_nat: "0 < k \<Longrightarrow> n < 10 ^ k \<Longrightarrow> length (show_nat n) \<le> k"
proof (induction k arbitrary: n)
  case (Suc k)
  show ?case
  proof (cases "n < 10")
    case True
    then show ?thesis by (subst show_nat.simps) simp
  next
    case False
    then have "0 < k" using Suc.prems(2) by (cases k) simp_all
    moreover have "n div 10 < 10 ^ k" using Suc.prems(2) by (simp add: less_mult_imp_div_less)
    ultimately show ?thesis using Suc.IH [of "n div 10"] False by (subst show_nat.simps) simp
  qed
qed simp

lemma length_show_u64: "length (show_word (w :: u64)) \<le> 20"
proof -
  have "unat w < 2 ^ 64" using unsigned_less [of w, where 'a = nat] by simp
  then have "unat w < 10 ^ 20" by simp
  then show ?thesis unfolding show_word_def by (rule length_show_nat [rotated]) simp
qed

definition printable :: "char \<Rightarrow> bool" where
  "printable c \<longleftrightarrow> 32 \<le> (of_char c :: nat) \<and> (of_char c :: nat) < 127"

lemma printable_not_continuation: "printable c \<Longrightarrow> \<not> is_continuation c"
  using div_le_mono [of "of_char c" "126 :: nat" 64] by (auto simp: printable_def is_continuation_def)

lemma printable_not_control: "printable c \<Longrightarrow> \<not> char_is_control [c]"
  unfolding char_is_control_def list.map list.case using of_nat_of_char [where ?'a = int, of c] by (simp add: printable_def)

lemma utf8_chars_printable: "list_all printable s \<Longrightarrow> utf8_chars s = map (\<lambda>c. [c]) s"
proof (induction s)
  case (Cons c s)
  then have "takeWhile is_continuation s = []" "dropWhile is_continuation s = s"
    by (cases s; simp add: printable_not_continuation)+
  with Cons show ?case by simp
qed simp

lemma text_ok_printable: "list_all printable s \<Longrightarrow> s \<noteq> [] \<Longrightarrow> length s \<le> n \<Longrightarrow> text_ok n s"
  by (auto simp: text_ok_def utf8_chars_printable list_ex_iff list_all_iff printable_not_control)

lemma show_word_printable: "list_all printable (show_word w)"
proof -
  have "printable (digit_char d)" if "d < 10" for d
    using of_char_digit [OF that] that by (simp add: printable_def)
  then show ?thesis unfolding list_all_iff show_word_def using show_nat_digits by blast
qed

lemma generation_texts [simp]:
  "text_ok MAX_ID_BYTES (generation_id g)" "text_ok MAX_ID_BYTES (''checkpoint-'' @ show_word (g :: u64))"
  using length_show_u64 [of g]
  by (intro text_ok_printable; simp add: generation_id_def show_word_printable printable_def MAX_ID_BYTES_def)+

lemma generation_id_inj [simp]: "generation_id a = generation_id b \<longleftrightarrow> a = b"
  by (auto simp: generation_id_def dest: show_word_inj)

text \<open>Ready to start at a time: the watchdog waits and its time has come, the lifecycle can go to \<open>Starting\<close>, and the lease
  can be taken.\<close>

definition runtime_ready :: "u64 \<Rightarrow> supervisor_runtime \<Rightarrow> bool" where
  "runtime_ready t r \<longleftrightarrow>
     schedule_ok (rt_watchdog r) \<and> sr_monitor (rt_watchdog r) \<in> {MonitorWaiting, MonitorIdle}
     \<and> (\<forall>n. sr_next_run_at_ms (rt_watchdog r) = Some n \<longrightarrow> n \<le> t)
     \<and> sr_last_trigger_id (rt_watchdog r) \<in> {None, Some (generation_id (rt_generation r))}
     \<and> st_lifecycle (rt_scheduler r) \<in> {LifecycleCreated, LifecycleStopped, LifecycleRecovering}
     \<and> validate_bounded_text (rt_lease_owner r) ''lease_owner'' MAX_SCHEDULER_ID_BYTES = None
     \<and> (\<exists>x. lease_expiry t (rt_lease_ttl r) = Inr x)"

definition generation_up :: "supervisor_runtime \<Rightarrow> bool" where
  "generation_up r \<longleftrightarrow>
     schedule_ok (rt_watchdog r) \<and> sr_monitor (rt_watchdog r) = MonitorRunning
     \<and> sr_last_trigger_id (rt_watchdog r) = Some (generation_id (rt_generation r))
     \<and> st_lifecycle (rt_scheduler r) \<in> {LifecycleStarting, LifecycleRunning}"

lemma word_Suc_neq: "(w :: u64) + 1 \<noteq> w" "w \<noteq> (w :: u64) + 1"
  by simp_all

lemma generation_token: "validate_bounded_text (generation_id g) ''lease_token'' MAX_LEASE_TOKEN_BYTES = None"
  using generation_texts(1) [of g] by (simp add: text_ok_def validate_bounded_text_def MAX_LEASE_TOKEN_BYTES_def MAX_ID_BYTES_def)

lemma start_ready:
  assumes "runtime_ready t r"
  obtains r' where "start_generation t r =
      (Inr [LifecycleTransition (st_lifecycle (rt_scheduler r)) LifecycleStarting, LeaseAcquired, TriggerDecided TriggerStart], r')"
    "generation_up r'" "sr_attempts (rt_watchdog r') = sr_attempts (rt_watchdog r)" "sr_retry (rt_watchdog r') = sr_retry (rt_watchdog r)"
    "rt_lease_owner r' = rt_lease_owner r" "rt_lease_ttl r' = rt_lease_ttl r"
proof -
  from assms obtain x where x: "lease_expiry t (rt_lease_ttl r) = Inr x" by (auto simp: runtime_ready_def)
  have ok: "schedule_ok (rt_watchdog r)" using assms by (simp add: runtime_ready_def)
  let ?id = "generation_id (rt_generation r + 1)"
  let ?w = "(rt_watchdog r)\<lparr>sr_last_trigger_id := Some ?id, sr_monitor := MonitorRunning\<rparr>"
  have "first_error [validate_text ?id ''trigger_id'' MAX_ID_BYTES, schedule_validate (rt_watchdog r)] = None"
    using ok by (simp only: first_error_None list.pred_inject validate_text_None generation_texts schedule_ok_def simp_thms)
  moreover have "\<not> (case sr_next_run_at_ms (rt_watchdog r) of Some n \<Rightarrow> t < n | None \<Rightarrow> False)"
    using assms by (auto simp: runtime_ready_def not_less split: option.split)
  moreover have "sr_last_trigger_id (rt_watchdog r) \<noteq> Some ?id" using assms by (auto simp: runtime_ready_def)
  ultimately have trigger: "on_trigger ?id t (rt_watchdog r) = (Inr TriggerStart, ?w)"
    using assms by (auto simp: on_trigger_def runtime_ready_def simp del: first_error.simps first_error_None)
  let ?s = "(rt_scheduler r)\<lparr>st_lifecycle := LifecycleStarting,
    st_lease := Some \<lparr>le_owner = rt_lease_owner r, le_token = ?id, le_expires_at_ms = x\<rparr>\<rparr>"
  have start: "start_generation t r =
      (Inr [LifecycleTransition (st_lifecycle (rt_scheduler r)) LifecycleStarting, LeaseAcquired, TriggerDecided TriggerStart],
       r\<lparr>rt_generation := rt_generation r + 1, rt_scheduler := ?s, rt_watchdog := ?w\<rparr>)"
    using assms trigger
    by (auto simp: start_generation_def scheduler_transition_def acquire_lease_def generation_token x runtime_ready_def Let_def)
  have "schedule_ok ?w" using ok assms by (auto simp: schedule_ok_simps runtime_ready_def)
  then show thesis by (intro that [OF start]) (simp_all add: generation_up_def)
qed

lemma tick_generation_up:
  assumes "generation_up r"
  shows "generation_up (snd (observe_tick now_ms fresh r))"
proof -
  have "rt_generation (snd (observe_tick now_ms fresh r)) = rt_generation r"
    by (auto simp: observe_tick_def tick_running_def scheduler_transition_def tick_heartbeat_def Let_def case_prod_beta split: sum.split)
  with assms show ?thesis by (auto simp: generation_up_def observe_tick_effect)
qed

lemma tick_keeps_config:
  "rt_lease_owner (snd (observe_tick now_ms fresh r)) = rt_lease_owner r" "rt_lease_ttl (snd (observe_tick now_ms fresh r)) = rt_lease_ttl r"
  by (auto simp: observe_tick_def tick_running_def scheduler_transition_def tick_heartbeat_def Let_def case_prod_beta split: sum.split)

definition tick_ops :: "(u64 \<times> bool) list \<Rightarrow> runtime_op list" where
  "tick_ops ticks = map (\<lambda>(now_ms, fresh). OpTick now_ms fresh) ticks"

lemma ticks_generation_up:
  assumes "generation_up r"
  shows "generation_up (run_ops runtime_step (tick_ops ticks) r)
    \<and> rt_watchdog (run_ops runtime_step (tick_ops ticks) r) = rt_watchdog r
    \<and> rt_lease_owner (run_ops runtime_step (tick_ops ticks) r) = rt_lease_owner r
    \<and> rt_lease_ttl (run_ops runtime_step (tick_ops ticks) r) = rt_lease_ttl r
    \<and> (st_lifecycle (rt_scheduler r) = LifecycleRunning \<or> list_ex snd ticks
        \<longrightarrow> st_lifecycle (rt_scheduler (run_ops runtime_step (tick_ops ticks) r)) = LifecycleRunning)"
  using assms
proof (induction ticks arbitrary: r)
  case (Cons tick ticks)
  obtain now_ms fresh where tick: "tick = (now_ms, fresh)" by force
  let ?r = "snd (observe_tick now_ms fresh r)"
  have "generation_up ?r" using Cons.prems by (rule tick_generation_up)
  moreover have "st_lifecycle (rt_scheduler ?r) = LifecycleRunning" if "st_lifecycle (rt_scheduler r) = LifecycleRunning \<or> fresh"
    using Cons.prems that by (auto simp: observe_tick_effect generation_up_def)
  ultimately show ?case
    using Cons.IH [of ?r] by (auto simp: tick tick_ops_def observe_tick_effect tick_keeps_config)
qed (simp add: tick_ops_def)

text \<open>The end of a generation that is up.\<close>

lemma complete_up_success:
  assumes "generation_up r" "st_lifecycle (rt_scheduler r) = LifecycleRunning"
  obtains outcome r' where "complete_generation now_ms True reason r = (Inr outcome, r')" "\<not> go_dead_lettered outcome"
    "schedule_ok (rt_watchdog r')" "sr_monitor (rt_watchdog r') = MonitorIdle" "sr_next_run_at_ms (rt_watchdog r') = None"
    "sr_attempts (rt_watchdog r') = 0" "st_lifecycle (rt_scheduler r') = LifecycleStopped"
    "rt_lease_owner r' = rt_lease_owner r" "rt_lease_ttl r' = rt_lease_ttl r" "rt_generation r' = rt_generation r"
    "sr_last_trigger_id (rt_watchdog r') = Some (generation_id (rt_generation r))"
proof -
  let ?c = "''checkpoint-'' @ show_word (rt_generation r)"
  have t: "validate_text ?c ''last_checkpoint'' MAX_ID_BYTES = None" by (simp only: validate_text_None generation_texts)
  let ?w = "(rt_watchdog r)\<lparr>sr_last_checkpoint := Some ?c, sr_attempts := 0, sr_next_run_at_ms := None, sr_monitor := MonitorIdle\<rparr>"
  have w: "schedule_complete ?c None (rt_watchdog r) = (Inr (), ?w)"
    using assms(1) unfolding schedule_complete_def t by (simp add: generation_up_def)
  have ok: "schedule_ok ?w"
    using assms(1) schedule_complete_ok [of "rt_watchdog r" ?c None] unfolding w by (simp add: generation_up_def)
  have "\<exists>outcome. complete_generation now_ms True reason r =
      (Inr outcome, r\<lparr>rt_watchdog := ?w, rt_scheduler := (rt_scheduler r)\<lparr>st_lifecycle := LifecycleStopped\<rparr>\<rparr>)
      \<and> \<not> go_dead_lettered outcome"
    unfolding complete_generation_def complete_success_def w
    using assms(2) by (simp add: scheduler_transition_def Let_def)
  then obtain outcome where o: "complete_generation now_ms True reason r =
      (Inr outcome, r\<lparr>rt_watchdog := ?w, rt_scheduler := (rt_scheduler r)\<lparr>st_lifecycle := LifecycleStopped\<rparr>\<rparr>)"
    "\<not> go_dead_lettered outcome" by blast
  have "sr_last_trigger_id (rt_watchdog r) = Some (generation_id (rt_generation r))" using assms(1) by (simp add: generation_up_def)
  with ok show thesis by (intro that [OF o]) simp_all
qed

lemma schedule_fail_running:
  assumes "sr_monitor w = MonitorRunning" "text_ok MAX_ID_BYTES trigger_id" "text_ok MAX_ERROR_BYTES reason"
  obtains failure w' where "schedule_fail trigger_id now_ms reason w = (Inr failure, w')"
    "failure = FailureDeadLetter \<longleftrightarrow> rp_max_attempts (sr_retry w) \<le> sr_attempts w"
    "failure = FailureDeadLetter \<Longrightarrow> sr_monitor w' = MonitorDeadLetter"
    "\<And>a n. failure = FailureRetry a n \<Longrightarrow> sr_monitor w' = MonitorWaiting \<and> sr_next_run_at_ms w' = Some n
       \<and> sr_attempts w' = sr_attempts w + 1 \<and> sr_last_trigger_id w' = sr_last_trigger_id w"
proof -
  have "first_error [validate_text trigger_id ''trigger_id'' MAX_ID_BYTES, validate_text reason ''dead_letter_reason'' MAX_ERROR_BYTES] = None"
    using assms(2,3) by (simp only: first_error_None list.pred_inject validate_text_None simp_thms)
  with assms(1) that show thesis
    by (cases "rp_max_attempts (sr_retry w) \<le> sr_attempts w")
      (simp_all add: schedule_fail_def Let_def del: first_error.simps first_error_None)
qed

lemma complete_up_failure:
  assumes "generation_up r" "text_ok MAX_ERROR_BYTES reason"
  obtains failure w s outcome where
    "schedule_fail (generation_id (rt_generation r)) now_ms reason (rt_watchdog r) = (Inr failure, w)"
    "complete_generation now_ms False reason r = (Inr outcome, r\<lparr>rt_watchdog := w, rt_scheduler := s\<rparr>)"
    "go_dead_lettered outcome \<longleftrightarrow> failure = FailureDeadLetter"
    "\<And>a n. failure = FailureRetry a n \<Longrightarrow> go_next_attempt_at_ms outcome = Some n \<and> st_lifecycle s = LifecycleRecovering"
proof -
  have "sr_monitor (rt_watchdog r) = MonitorRunning" using assms(1) by (simp add: generation_up_def)
  then obtain failure w where w: "schedule_fail (generation_id (rt_generation r)) now_ms reason (rt_watchdog r) = (Inr failure, w)"
    by (rule schedule_fail_running [OF _ generation_texts(1) assms(2)])
  have l: "st_lifecycle (rt_scheduler r) \<in> {LifecycleRunning, LifecycleStarting}" using assms(1) by (auto simp: generation_up_def)
  let ?failed = "(rt_scheduler r)\<lparr>st_lifecycle := LifecycleFailed\<rparr>"
  have t: "transition_if [LifecycleRunning, LifecycleStarting] LifecycleFailed (rt_scheduler r) =
      (Inr [LifecycleTransition (st_lifecycle (rt_scheduler r)) LifecycleFailed], ?failed)"
    using l by (auto simp: transition_if_def scheduler_transition_def)
  show thesis
  proof (cases failure)
    case (FailureRetry a n)
    obtain d s where s: "schedule_retry now_ms (from_millis WATCHDOG_BASE_BACKOFF_MS) reason ?failed = (d, s)" by force
    then have "st_lifecycle s = LifecycleFailed" by (auto simp: schedule_retry_def Let_def split: if_splits)
    then have "\<exists>outcome. complete_generation now_ms False reason r =
        (Inr outcome, r\<lparr>rt_watchdog := w, rt_scheduler := s\<lparr>st_lifecycle := LifecycleRecovering\<rparr>\<rparr>)
        \<and> \<not> go_dead_lettered outcome \<and> go_next_attempt_at_ms outcome = Some n"
      using w t s FailureRetry
      by (simp add: complete_generation_def complete_failure_def transition_if_def [of "[LifecycleFailed]"] scheduler_transition_def Let_def)
    then obtain outcome where "complete_generation now_ms False reason r =
        (Inr outcome, r\<lparr>rt_watchdog := w, rt_scheduler := s\<lparr>st_lifecycle := LifecycleRecovering\<rparr>\<rparr>)"
      "\<not> go_dead_lettered outcome" "go_next_attempt_at_ms outcome = Some n" by blast
    with FailureRetry show thesis by (intro that [OF w, of outcome "s\<lparr>st_lifecycle := LifecycleRecovering\<rparr>"]) simp_all
  next
    case FailureDeadLetter
    then have "\<exists>outcome. complete_generation now_ms False reason r = (Inr outcome, r\<lparr>rt_watchdog := w, rt_scheduler := ?failed\<rparr>)
        \<and> go_dead_lettered outcome"
      using w t by (simp add: complete_generation_def complete_failure_def Let_def)
    then obtain outcome where "complete_generation now_ms False reason r = (Inr outcome, r\<lparr>rt_watchdog := w, rt_scheduler := ?failed\<rparr>)"
      "go_dead_lettered outcome" by blast
    with FailureDeadLetter show thesis by (intro that [OF w, of outcome ?failed]) simp_all
  qed
qed

text \<open>C9: A generation that is started when the runtime is ready, ticks at any times and ends, with success only after
  a fresh heartbeat, is served without an error: the start triggers the watchdog; a success leaves the runtime ready
  for any time the lease can be taken at, with no attempt counted; a failure leaves it ready from the reported time on with one more
  attempt counted, unless all attempts were used up, and only then it is dead and no start ever succeeds again.\<close>

theorem supervised_generation:
  assumes "runtime_ready t r" "text_ok MAX_ERROR_BYTES reason" "success \<longrightarrow> list_ex snd ticks"
  shows "let (started, r1) = start_generation t r;
             (finished, r2) = complete_generation now_ms success reason (run_ops runtime_step (tick_ops ticks) r1)
         in (\<exists>events. started = Inr events \<and> TriggerDecided TriggerStart \<in> set events)
            \<and> (\<exists>outcome. finished = Inr outcome
                \<and> (if success
                   then sr_attempts (rt_watchdog r2) = 0
                        \<and> (\<forall>t'. (\<exists>x. lease_expiry t' (rt_lease_ttl r) = Inr x) \<longrightarrow> runtime_ready t' r2)
                   else if sr_attempts (rt_watchdog r) = rp_max_attempts (sr_retry (rt_watchdog r))
                   then go_dead_lettered outcome \<and> runtime_stuck r2
                   else sr_attempts (rt_watchdog r2) = sr_attempts (rt_watchdog r) + 1
                        \<and> (\<exists>n. go_next_attempt_at_ms outcome = Some n
                            \<and> (\<forall>t'\<ge>n. (\<exists>x. lease_expiry t' (rt_lease_ttl r) = Inr x) \<longrightarrow> runtime_ready t' r2))))"
proof -
  from assms(1) obtain r1 where start: "start_generation t r =
      (Inr [LifecycleTransition (st_lifecycle (rt_scheduler r)) LifecycleStarting, LeaseAcquired, TriggerDecided TriggerStart], r1)"
    and up: "generation_up r1" and same: "sr_attempts (rt_watchdog r1) = sr_attempts (rt_watchdog r)"
    "sr_retry (rt_watchdog r1) = sr_retry (rt_watchdog r)" "rt_lease_owner r1 = rt_lease_owner r" "rt_lease_ttl r1 = rt_lease_ttl r"
    by (rule start_ready)
  define rt where "rt = run_ops runtime_step (tick_ops ticks) r1"
  note ticked = ticks_generation_up [OF up, of ticks, folded rt_def]
  have owner: "validate_bounded_text (rt_lease_owner r) ''lease_owner'' MAX_SCHEDULER_ID_BYTES = None"
    using assms(1) by (simp add: runtime_ready_def)
  show ?thesis
  proof (cases success)
    case True
    with assms(3) ticked have "generation_up rt" "st_lifecycle (rt_scheduler rt) = LifecycleRunning" by simp_all
    then show ?thesis
      by (rule complete_up_success [of rt now_ms reason])
        (use True start ticked same owner in \<open>auto simp: runtime_ready_def simp flip: rt_def\<close>)
  next
    case False
    have "generation_up rt" using ticked by simp
    then obtain failure w s outcome where
      f: "schedule_fail (generation_id (rt_generation rt)) now_ms reason (rt_watchdog rt) = (Inr failure, w)"
      "complete_generation now_ms False reason rt = (Inr outcome, rt\<lparr>rt_watchdog := w, rt_scheduler := s\<rparr>)"
      "go_dead_lettered outcome \<longleftrightarrow> failure = FailureDeadLetter"
      "\<And>a n. failure = FailureRetry a n \<Longrightarrow> go_next_attempt_at_ms outcome = Some n \<and> st_lifecycle s = LifecycleRecovering"
      using assms(2) by (rule complete_up_failure [of rt reason now_ms]) blast
    have running: "sr_monitor (rt_watchdog rt) = MonitorRunning" and ok: "schedule_ok (rt_watchdog rt)"
      and up_l: "st_lifecycle (rt_scheduler rt) \<in> {LifecycleStarting, LifecycleRunning}"
      and last: "sr_last_trigger_id (rt_watchdog rt) = Some (generation_id (rt_generation rt))"
      using \<open>generation_up rt\<close> by (auto simp: generation_up_def)
    have okw: "schedule_ok w" using schedule_fail_ok [OF ok, of "generation_id (rt_generation rt)" now_ms reason] f(1) by simp
    have le: "sr_attempts (rt_watchdog rt) \<le> rp_max_attempts (sr_retry (rt_watchdog rt))"
      using ok by (simp add: schedule_ok_simps)
    from schedule_fail_running [OF running generation_texts(1) assms(2), of "rt_generation rt" now_ms]
    have cases: "failure = FailureDeadLetter \<longleftrightarrow> rp_max_attempts (sr_retry (rt_watchdog rt)) \<le> sr_attempts (rt_watchdog rt)"
      and retry: "\<And>a n. failure = FailureRetry a n \<Longrightarrow> sr_monitor w = MonitorWaiting \<and> sr_next_run_at_ms w = Some n
        \<and> sr_attempts w = sr_attempts (rt_watchdog rt) + 1 \<and> sr_last_trigger_id w = sr_last_trigger_id (rt_watchdog rt)"
      using f(1) by (metis Pair_inject sum.inject(2))+
    show ?thesis
    proof (cases failure)
      case FailureDeadLetter
      then have "runtime_stuck (rt\<lparr>rt_watchdog := w, rt_scheduler := s\<rparr>)" using dead_letter_stuck [OF f(2)] f(3) up_l by simp
      moreover have "sr_attempts (rt_watchdog r) = rp_max_attempts (sr_retry (rt_watchdog r))"
        using FailureDeadLetter cases le ticked same by simp
      ultimately show ?thesis using False start f(2,3) FailureDeadLetter by (simp add: Let_def rt_def [symmetric])
    next
      case (FailureRetry a n)
      have ne: "sr_attempts (rt_watchdog r) \<noteq> rp_max_attempts (sr_retry (rt_watchdog r))"
        using FailureRetry cases ticked same by auto
      have "runtime_ready t' (rt\<lparr>rt_watchdog := w, rt_scheduler := s\<rparr>)"
        if "n \<le> t'" "\<exists>x. lease_expiry t' (rt_lease_ttl r) = Inr x" for t'
        using retry [OF FailureRetry] f(4) [OF FailureRetry] okw last that owner ticked same by (simp add: runtime_ready_def)
      then show ?thesis
        using False start f(2) f(4) [OF FailureRetry] ne retry [OF FailureRetry] ticked same by (simp add: Let_def rt_def [symmetric])
    qed
  qed
qed

theorem supervised_generation_witness:
  "runtime_ready 0 example_runtime
   \<and> (let (started, r1) = start_generation 0 example_runtime;
          (finished, r2) = complete_generation 200 False ''core crashed'' (run_ops runtime_step (tick_ops [(100, True)]) r1)
      in \<exists>outcome. finished = Inr outcome \<and> sr_attempts (rt_watchdog r2) = 1 \<and> go_next_attempt_at_ms outcome = Some 450)"
proof -
  have "runtime_ready 0 example_runtime"
    unfolding runtime_ready_def
  proof (intro conjI allI impI)
    show "schedule_ok (rt_watchdog example_runtime)" "sr_monitor (rt_watchdog example_runtime) \<in> {MonitorWaiting, MonitorIdle}"
      "sr_last_trigger_id (rt_watchdog example_runtime) \<in> {None, Some (generation_id (rt_generation example_runtime))}"
      "st_lifecycle (rt_scheduler example_runtime) \<in> {LifecycleCreated, LifecycleStopped, LifecycleRecovering}"
      "validate_bounded_text (rt_lease_owner example_runtime) ''lease_owner'' MAX_SCHEDULER_ID_BYTES = None" by code_simp+
    have "lease_expiry 0 (rt_lease_ttl example_runtime) = Inr 5000" by code_simp
    then show "\<exists>x. lease_expiry 0 (rt_lease_ttl example_runtime) = Inr x" ..
    have "sr_next_run_at_ms (rt_watchdog example_runtime) = None" by code_simp
    then show "n \<le> 0" if "sr_next_run_at_ms (rt_watchdog example_runtime) = Some n" for n using that by simp
  qed
  moreover have "text_ok MAX_ERROR_BYTES ''core crashed''" by code_simp
  moreover have "sr_attempts (rt_watchdog example_runtime) = 0" "rp_max_attempts (sr_retry (rt_watchdog example_runtime)) = 1" by code_simp+
  moreover have "(case complete_generation 200 False ''core crashed''
      (run_ops runtime_step (tick_ops [(100, True)]) (snd (start_generation 0 example_runtime))) of
      (Inr outcome, r2) \<Rightarrow> go_next_attempt_at_ms outcome = Some 450 | _ \<Rightarrow> False)" by code_simp
  ultimately show ?thesis
    using supervised_generation [of 0 example_runtime "''core crashed''" False "[(100, True)]" 200]
    by (auto simp: Let_def case_prod_beta split: sum.splits)
qed

section \<open>The digest\<close>

datatype pulse_health = PulseHealthy | PulseDegraded | PulseFailed

record pulse_digest =
  pd_health :: pulse_health
  pd_completed :: u32
  pd_missed :: u32
  pd_failed :: u32
  pd_dead_lettered :: u32
  pd_requeued :: u32
  pd_summary :: string

text \<open>The three summaries are the UTF-8 texts of the source.\<close>

fun pulse_summary :: "pulse_health \<Rightarrow> string" where
  "pulse_summary PulseHealthy =
     [CHR 0xD0, CHR 0x92, CHR 0xD1, CHR 0x81, CHR 0xD0, CHR 0xB5, CHR 0x20, CHR 0xD0, CHR 0xBB, CHR 0xD0, CHR 0xBE, CHR 0xD0,
      CHR 0xBA, CHR 0xD0, CHR 0xB0, CHR 0xD0, CHR 0xBB, CHR 0xD1, CHR 0x8C, CHR 0xD0, CHR 0xBD, CHR 0xD1, CHR 0x8B, CHR 0xD0,
      CHR 0xB5, CHR 0x20, CHR 0xD0, CHR 0xB7, CHR 0xD0, CHR 0xB0, CHR 0xD0, CHR 0xBF, CHR 0xD1, CHR 0x83, CHR 0xD1, CHR 0x81,
      CHR 0xD0, CHR 0xBA, CHR 0xD0, CHR 0xB8, CHR 0x20, CHR 0xD0, CHR 0xB7, CHR 0xD0, CHR 0xB0, CHR 0xD0, CHR 0xB2, CHR 0xD0,
      CHR 0xB5, CHR 0xD1, CHR 0x80, CHR 0xD1, CHR 0x88, CHR 0xD0, CHR 0xB5, CHR 0xD0, CHR 0xBD, CHR 0xD1, CHR 0x8B, CHR 0x20,
      CHR 0xD1, CHR 0x88, CHR 0xD1, CHR 0x82, CHR 0xD0, CHR 0xB0, CHR 0xD1, CHR 0x82, CHR 0xD0, CHR 0xBD, CHR 0xD0, CHR 0xBE]"
| "pulse_summary PulseDegraded =
     [CHR 0xD0, CHR 0x95, CHR 0xD1, CHR 0x81, CHR 0xD1, CHR 0x82, CHR 0xD1, CHR 0x8C, CHR 0x20, CHR 0xD0, CHR 0xBF, CHR 0xD1,
      CHR 0x80, CHR 0xD0, CHR 0xBE, CHR 0xD0, CHR 0xBF, CHR 0xD1, CHR 0x83, CHR 0xD1, CHR 0x89, CHR 0xD0, CHR 0xB5, CHR 0xD0,
      CHR 0xBD, CHR 0xD0, CHR 0xBD, CHR 0xD1, CHR 0x8B, CHR 0xD0, CHR 0xB5, CHR 0x20, CHR 0xD0, CHR 0xB8, CHR 0xD0, CHR 0xBB,
      CHR 0xD0, CHR 0xB8, CHR 0x20, CHR 0xD0, CHR 0xBD, CHR 0xD0, CHR 0xB5, CHR 0xD1, CHR 0x83, CHR 0xD1, CHR 0x81, CHR 0xD0,
      CHR 0xBF, CHR 0xD0, CHR 0xB5, CHR 0xD1, CHR 0x88, CHR 0xD0, CHR 0xBD, CHR 0xD1, CHR 0x8B, CHR 0xD0, CHR 0xB5, CHR 0x20,
      CHR 0xD0, CHR 0xB7, CHR 0xD0, CHR 0xB0, CHR 0xD0, CHR 0xBF, CHR 0xD1, CHR 0x83, CHR 0xD1, CHR 0x81, CHR 0xD0, CHR 0xBA,
      CHR 0xD0, CHR 0xB8]"
| "pulse_summary PulseFailed =
     [CHR 0xD0, CHR 0x95, CHR 0xD1, CHR 0x81, CHR 0xD1, CHR 0x82, CHR 0xD1, CHR 0x8C, CHR 0x20, CHR 0x64, CHR 0x65, CHR 0x61,
      CHR 0x64, CHR 0x2D, CHR 0x6C, CHR 0x65, CHR 0x74, CHR 0x74, CHR 0x65, CHR 0x72, CHR 0x20, CHR 0xD0, CHR 0xB7, CHR 0xD0,
      CHR 0xB0, CHR 0xD0, CHR 0xBF, CHR 0xD1, CHR 0x83, CHR 0xD1, CHR 0x81, CHR 0xD0, CHR 0xBA, CHR 0xD0, CHR 0xB8, CHR 0x3A,
      CHR 0x20, CHR 0xD1, CHR 0x82, CHR 0xD1, CHR 0x80, CHR 0xD0, CHR 0xB5, CHR 0xD0, CHR 0xB1, CHR 0xD1, CHR 0x83, CHR 0xD0,
      CHR 0xB5, CHR 0xD1, CHR 0x82, CHR 0xD1, CHR 0x81, CHR 0xD1, CHR 0x8F, CHR 0x20, CHR 0xD1, CHR 0x80, CHR 0xD1, CHR 0x83,
      CHR 0xD1, CHR 0x87, CHR 0xD0, CHR 0xBD, CHR 0xD0, CHR 0xBE, CHR 0xD0, CHR 0xB5, CHR 0x20, CHR 0xD1, CHR 0x80, CHR 0xD0,
      CHR 0xB5, CHR 0xD1, CHR 0x88, CHR 0xD0, CHR 0xB5, CHR 0xD0, CHR 0xBD, CHR 0xD0, CHR 0xB8, CHR 0xD0, CHR 0xB5]"

fun count_event :: "string \<Rightarrow> string list \<Rightarrow> u32" where
  "count_event name [] = 0"
| "count_event name (e # es) = (if e = name then 1 else 0) + count_event name es"

text \<open>One pass over the events with five counters.\<close>

definition pulse_from_events :: "string list \<Rightarrow> pulse_digest" where
  "pulse_from_events events =
     (let completed = count_event ''runtime.schedule_completed'' events;
          missed = count_event ''runtime.trigger_missed'' events;
          failed = count_event ''runtime.schedule_failed'' events;
          dead_lettered = count_event ''runtime.schedule_dead_letter'' events;
          requeued = count_event ''runtime.schedule_requeued'' events;
          health = (if dead_lettered > 0 then PulseFailed else if failed > 0 \<or> missed > 0 then PulseDegraded else PulseHealthy)
      in \<lparr>pd_health = health, pd_completed = completed, pd_missed = missed, pd_failed = failed,
          pd_dead_lettered = dead_lettered, pd_requeued = requeued, pd_summary = pulse_summary health\<rparr>)"

lemma unat_count_event: "length events < 2 ^ 32 \<Longrightarrow> unat (count_event name events) = length (filter (\<lambda>e. e = name) events)"
proof (induction events)
  case (Cons e es)
  have "length (filter (\<lambda>e. e = name) es) < 4294967295"
    using Cons.prems by (intro le_less_trans [OF length_filter_le]) simp
  with Cons show ?case by (simp add: unat_add_small [of 1])
qed simp

text \<open>Below \<open>2 ^ 32\<close> events the counters do not wrap, and the digest is healthy only without missed, failed or dead runs.\<close>

lemma pulse_healthy_iff:
  assumes "length events < 2 ^ 32"
  shows "pd_health (pulse_from_events events) = PulseHealthy \<longleftrightarrow>
    set events \<inter> {''runtime.trigger_missed'', ''runtime.schedule_failed'', ''runtime.schedule_dead_letter''} = {}"
proof -
  have z: "0 < count_event name events \<longleftrightarrow> name \<in> set events" for name
    using unat_count_event [OF assms, of name] by (auto simp: word_less_nat_alt filter_empty_conv)
  show ?thesis by (auto simp: pulse_from_events_def Let_def z)
qed

end
