(* ===== verification/Listener_Contract.thy ===== *)
theory Listener_Contract
  imports Unicode_Text
begin

text \<open>
  \<open>crates/evohime-listener-contract/src\<close>, the files \<open>state.rs\<close>, \<open>error.rs\<close>, \<open>ids.rs\<close> and \<open>limits.rs\<close>: the listening
  state machine, the closed set of error codes, bounded identifiers and the capture limits. An identifier type is its
  string together with the check that its constructor makes.
\<close>

section \<open>States\<close>

datatype listening_state =
    ListenStopped | ListenStarting | Listening | ListenPausedByUser | ListenPausedByPolicy | ListenDeviceConflict
  | ListenDeviceDisconnected | ListenEngineUnavailable | ListenDenied

datatype listening_reason =
    ReasonUserRequest | ReasonQuietHours | ReasonBlocklist | ReasonStopWord | ReasonPermissionDenied | ReasonDeviceConflict
  | ReasonDeviceDisconnected | ReasonEngineUnavailable | ReasonEngineDegraded | ReasonSystemSleep | ReasonStorageFailed
  | ReasonUnknown

definition listening_state_all :: "listening_state list" where
  "listening_state_all =
     [ListenStopped, ListenStarting, Listening, ListenPausedByUser, ListenPausedByPolicy, ListenDeviceConflict,
      ListenDeviceDisconnected, ListenEngineUnavailable, ListenDenied]"

section \<open>Errors\<close>

datatype ambient_error_code =
    ListenerUnavailable | CodeDeviceConflict | CodeDeviceDisconnected | CodePermissionDenied | PolicyInvalid | EngineNotReady | CodeStorageFailed | ConfirmationRequired | InvalidArgument

definition ambient_error_code_all :: "ambient_error_code list" where
  "ambient_error_code_all = [ListenerUnavailable, CodeDeviceConflict, CodeDeviceDisconnected, CodePermissionDenied, PolicyInvalid, EngineNotReady, CodeStorageFailed, ConfirmationRequired, InvalidArgument]"

fun ambient_error_code_as_str :: "ambient_error_code \<Rightarrow> string" where
  "ambient_error_code_as_str ListenerUnavailable = ''LISTENER_UNAVAILABLE''"
| "ambient_error_code_as_str CodeDeviceConflict = ''DEVICE_CONFLICT''"
| "ambient_error_code_as_str CodeDeviceDisconnected = ''DEVICE_DISCONNECTED''"
| "ambient_error_code_as_str CodePermissionDenied = ''PERMISSION_DENIED''"
| "ambient_error_code_as_str PolicyInvalid = ''POLICY_INVALID''"
| "ambient_error_code_as_str EngineNotReady = ''ENGINE_NOT_READY''"
| "ambient_error_code_as_str CodeStorageFailed = ''STORAGE_FAILED''"
| "ambient_error_code_as_str ConfirmationRequired = ''CONFIRMATION_REQUIRED''"
| "ambient_error_code_as_str InvalidArgument = ''INVALID_ARGUMENT''"

definition ambient_error_code_parse :: "string \<Rightarrow> ambient_error_code option" where
  "ambient_error_code_parse v = List.find (\<lambda>x. ambient_error_code_as_str x = v) ambient_error_code_all"

datatype contract_error =
    InvalidListeningTransition listening_state listening_state
  | EmptyField string
  | FieldTooLong string
  | InvalidCharacter string
  | TooManyEntries string
  | PatternTooComplex string
  | InvalidQuietHours
  | RetentionOutOfBounds
  | LimitsOutOfBounds string
  | BudgetOutOfBounds string

fun contract_error_code :: "contract_error \<Rightarrow> ambient_error_code" where
  "contract_error_code (InvalidListeningTransition a b) = InvalidArgument"
| "contract_error_code (EmptyField f) = InvalidArgument"
| "contract_error_code (FieldTooLong f) = InvalidArgument"
| "contract_error_code (InvalidCharacter f) = InvalidArgument"
| "contract_error_code (TooManyEntries f) = PolicyInvalid"
| "contract_error_code (PatternTooComplex f) = PolicyInvalid"
| "contract_error_code InvalidQuietHours = PolicyInvalid"
| "contract_error_code RetentionOutOfBounds = PolicyInvalid"
| "contract_error_code (LimitsOutOfBounds f) = InvalidArgument"
| "contract_error_code (BudgetOutOfBounds f) = InvalidArgument"

section \<open>Transitions\<close>

definition is_capturing :: "listening_state \<Rightarrow> bool" where
  "is_capturing s = (case s of Listening \<Rightarrow> True | _ \<Rightarrow> False)"

definition is_degraded :: "listening_state \<Rightarrow> bool" where
  "is_degraded s =
     (case s of ListenDeviceConflict \<Rightarrow> True | ListenDeviceDisconnected \<Rightarrow> True | ListenEngineUnavailable \<Rightarrow> True | _ \<Rightarrow> False)"

fun allowed_next :: "listening_state \<Rightarrow> listening_state list" where
  "allowed_next ListenStopped = [ListenStarting, ListenPausedByUser, ListenDenied]"
| "allowed_next ListenStarting =
     [Listening, ListenStopped, ListenPausedByUser, ListenPausedByPolicy, ListenDeviceConflict, ListenDeviceDisconnected,
      ListenEngineUnavailable, ListenDenied]"
| "allowed_next Listening =
     [ListenStopped, ListenPausedByUser, ListenPausedByPolicy, ListenDeviceConflict, ListenDeviceDisconnected,
      ListenEngineUnavailable, ListenDenied]"
| "allowed_next ListenPausedByUser = [ListenStarting, ListenStopped, ListenPausedByPolicy, ListenDenied]"
| "allowed_next ListenPausedByPolicy = [ListenStarting, ListenStopped, ListenPausedByUser, ListenDenied]"
| "allowed_next ListenDeviceConflict = [ListenStarting, ListenStopped, ListenDeviceDisconnected, ListenDenied]"
| "allowed_next ListenDeviceDisconnected = [ListenStarting, ListenStopped, ListenDeviceConflict, ListenDenied]"
| "allowed_next ListenEngineUnavailable = [ListenStarting, ListenStopped, ListenDenied]"
| "allowed_next ListenDenied = [ListenStopped]"

definition can_transition :: "listening_state \<Rightarrow> listening_state \<Rightarrow> bool" where
  "can_transition s next_state \<longleftrightarrow> next_state \<in> set (allowed_next s)"

definition listening_transition :: "listening_state \<Rightarrow> listening_state \<Rightarrow> contract_error + listening_state" where
  "listening_transition s next_state =
     (if can_transition s next_state then Inr next_state else Inl (InvalidListeningTransition s next_state))"

section \<open>Identifiers\<close>

definition LISTENER_MAX_ID_BYTES :: nat where "LISTENER_MAX_ID_BYTES = 128"

definition id_char :: "char \<Rightarrow> bool" where
  "id_char c \<longleftrightarrow>
     CHR ''0'' \<le> c \<and> c \<le> CHR ''9'' \<or> CHR ''A'' \<le> c \<and> c \<le> CHR ''Z'' \<or> CHR ''a'' \<le> c \<and> c \<le> CHR ''z''
     \<or> c = CHR ''-'' \<or> c = CHR ''_'' \<or> c = CHR ''.'' \<or> c = CHR '':'' \<or> c = CHR ''+''"

text \<open>A character of more than one byte is not ASCII, so the check of the characters is a check of the bytes.\<close>

definition validate_id :: "string \<Rightarrow> string \<Rightarrow> contract_error option" where
  "validate_id v field =
     (if v = [] then Some (EmptyField field)
      else if length v > LISTENER_MAX_ID_BYTES then Some (FieldTooLong field)
      else if \<not> list_all id_char v then Some (InvalidCharacter field)
      else None)"

text \<open>The constructor \<open>new\<close> of every identifier type, which deserialisation uses as well.\<close>

definition bounded_id_new :: "string \<Rightarrow> string \<Rightarrow> contract_error + string" where
  "bounded_id_new field v = (case validate_id v field of Some e \<Rightarrow> Inl e | None \<Rightarrow> Inr v)"

section \<open>Limits\<close>

definition MIN_FRAME_MS :: u32 where "MIN_FRAME_MS = 10"
definition MAX_FRAME_MS :: u32 where "MAX_FRAME_MS = 60"
definition MAX_UTTERANCE_MS :: u32 where "MAX_UTTERANCE_MS = 60000"
definition MAX_EPISODE_MS :: u32 where "MAX_EPISODE_MS = 3600000"
definition MAX_DEDUP_WINDOW_MS :: u32 where "MAX_DEDUP_WINDOW_MS = 3600000"
definition MAX_WINDOW_MS :: u32 where "MAX_WINDOW_MS = 5000"

record ambient_limits =
  al_frame_ms :: u32
  al_pre_roll_ms :: u32
  al_hangover_ms :: u32
  al_min_utterance_ms :: u32
  al_max_utterance_ms :: u32
  al_max_episode_ms :: u32
  al_dedup_window_ms :: u32

definition ambient_limits_default :: ambient_limits where
  "ambient_limits_default =
     \<lparr>al_frame_ms = 30, al_pre_roll_ms = 300, al_hangover_ms = 700, al_min_utterance_ms = 400, al_max_utterance_ms = 20000,
      al_max_episode_ms = 600000, al_dedup_window_ms = 60000\<rparr>"

definition limits_validate :: "ambient_limits \<Rightarrow> contract_error option" where
  "limits_validate l =
     (if al_frame_ms l < MIN_FRAME_MS \<or> al_frame_ms l > MAX_FRAME_MS then Some (LimitsOutOfBounds ''frame_ms'')
      else if al_pre_roll_ms l < al_frame_ms l \<or> al_pre_roll_ms l > MAX_WINDOW_MS then Some (LimitsOutOfBounds ''pre_roll_ms'')
      else if al_hangover_ms l < al_frame_ms l \<or> al_hangover_ms l > MAX_WINDOW_MS then Some (LimitsOutOfBounds ''hangover_ms'')
      else if al_min_utterance_ms l = 0 \<or> al_min_utterance_ms l \<ge> al_max_utterance_ms l then Some (LimitsOutOfBounds ''min_utterance_ms'')
      else if al_max_utterance_ms l > MAX_UTTERANCE_MS then Some (LimitsOutOfBounds ''max_utterance_ms'')
      else if al_max_episode_ms l < al_max_utterance_ms l \<or> al_max_episode_ms l > MAX_EPISODE_MS then Some (LimitsOutOfBounds ''max_episode_ms'')
      else if al_dedup_window_ms l = 0 \<or> al_dedup_window_ms l > MAX_DEDUP_WINDOW_MS then Some (LimitsOutOfBounds ''dedup_window_ms'')
      else None)"

definition accepts_utterance :: "ambient_limits \<Rightarrow> u32 \<Rightarrow> bool" where
  "accepts_utterance l duration_ms \<longleftrightarrow> duration_ms \<ge> al_min_utterance_ms l \<and> duration_ms \<le> al_max_utterance_ms l"

definition episode_exhausted :: "ambient_limits \<Rightarrow> u32 \<Rightarrow> bool" where
  "episode_exhausted l elapsed_ms \<longleftrightarrow> elapsed_ms \<ge> al_max_episode_ms l"

section \<open>Properties\<close>

lemma error_code_round_trip:
  "ambient_error_code_parse v = Some x \<longleftrightarrow> v = ambient_error_code_as_str x"
  by (cases x) (auto simp: ambient_error_code_parse_def ambient_error_code_all_def split: if_splits)

text \<open>An utterance that is accepted is not empty, at most a minute, and fits into an episode that is not exhausted by it
  unless it fills the episode.\<close>

lemma valid_limits_utterance:
  "limits_validate l = None \<Longrightarrow> accepts_utterance l d \<Longrightarrow>
   0 < d \<and> d \<le> MAX_UTTERANCE_MS \<and> d \<le> al_max_episode_ms l"
  by (auto simp: limits_validate_def accepts_utterance_def word_gt_0 not_less not_le split: if_splits)

lemma limits_default_valid: "limits_validate ambient_limits_default = None"
  by code_simp

text \<open>A sequence of transitions, up to the first that is refused.\<close>

fun transition_run :: "listening_state \<Rightarrow> listening_state list \<Rightarrow> contract_error + listening_state" where
  "transition_run s [] = Inr s"
| "transition_run s (n # ns) = (case listening_transition s n of Inl e \<Rightarrow> Inl e | Inr s' \<Rightarrow> transition_run s' ns)"

lemma can_transition_Listening: "can_transition s Listening \<longleftrightarrow> s = ListenStarting"
  by (cases s) (simp_all add: can_transition_def)

lemma can_transition_Denied: "can_transition ListenDenied n \<longleftrightarrow> n = ListenStopped"
  by (cases n) (simp_all add: can_transition_def)

lemma transition_run_append:
  "transition_run s (xs @ ys) = (case transition_run s xs of Inl e \<Rightarrow> Inl e | Inr s' \<Rightarrow> transition_run s' ys)"
  by (induction xs arbitrary: s) (simp_all split: sum.split)

lemma transition_run_Cons_Inr:
  "transition_run s (n # ns) = Inr t \<longleftrightarrow> can_transition s n \<and> transition_run n ns = Inr t"
  by (simp add: listening_transition_def)

lemma transition_run_snoc:
  "transition_run s (ns @ [n]) = Inr t \<longleftrightarrow> (\<exists>s'. transition_run s ns = Inr s' \<and> can_transition s' n \<and> t = n)"
  by (auto simp: transition_run_append listening_transition_def split: sum.splits if_splits)

lemma transition_run_last: "transition_run s ns = Inr t \<Longrightarrow> t = last (s # ns)"
  by (induction ns arbitrary: s) (auto simp: listening_transition_def split: if_splits)

text \<open>C32: The microphone is read only in \<open>Listening\<close>, every accepted sequence of transitions that ends there goes through
  \<open>Starting\<close> in its last step but one, and after a denial the first transition is to \<open>Stopped\<close>: a revoked microphone
  comes back only through the full start.\<close>

theorem capture_after_denial:
  assumes "transition_run s0 (before @ after) = Inr t" "is_capturing t" "last (s0 # before) = ListenDenied"
  shows "\<exists>mid. after = ListenStopped # mid @ [ListenStarting, Listening]"
proof -
  have t: "t = Listening" using assms(2) by (cases t) (simp_all add: is_capturing_def)
  obtain s where "transition_run s0 before = Inr s" "transition_run s after = Inr t"
    using assms(1) by (auto simp: transition_run_append split: sum.splits)
  then have run: "transition_run ListenDenied after = Inr Listening" using transition_run_last assms(3) t by metis
  then obtain rest where rest: "after = ListenStopped # rest" "transition_run ListenStopped rest = Inr Listening"
    by (cases after) (auto simp: transition_run_Cons_Inr can_transition_Denied simp del: transition_run.simps(2))
  then obtain xs where xs: "rest = xs @ [Listening]" "transition_run ListenStopped xs = Inr ListenStarting"
    by (cases rest rule: rev_cases) (auto simp: transition_run_snoc can_transition_Listening)
  then obtain mid where "xs = mid @ [ListenStarting]"
    by (cases xs rule: rev_cases) (auto simp: transition_run_snoc)
  with rest xs show ?thesis by simp
qed

theorem capture_after_denial_witness:
  "transition_run ListenStarting ([Listening, ListenDenied] @ [ListenStopped, ListenStarting, Listening]) = Inr Listening
   \<and> (\<exists>mid. [ListenStopped, ListenStarting, Listening] = ListenStopped # mid @ [ListenStarting, Listening])"
proof -
  have r: "transition_run ListenStarting ([Listening, ListenDenied] @ [ListenStopped, ListenStarting, Listening]) = Inr Listening"
    by code_simp
  from capture_after_denial [OF r] r show ?thesis by (simp add: is_capturing_def)
qed

end
