(* ===== verification/Ambient_Policy.thy ===== *)
theory Ambient_Policy
  imports Listener_Contract
begin

text \<open>
  \<open>crates/evohime-listener-contract/src\<close>, the files \<open>policy.rs\<close> and \<open>proactivity.rs\<close>: quiet hours, the ambient policy
  with the check of its blocklists, the proactivity budget and the decision whether a proposal may be shown. A
  \<open>Result<(), E>\<close> is an \<open>E option\<close>, \<open>None\<close> for \<open>Ok\<close>.
\<close>

section \<open>Quiet hours\<close>

definition MAX_QUIET_HOURS :: nat where "MAX_QUIET_HOURS = 16"
definition MAX_BLOCKLIST_ENTRIES :: nat where "MAX_BLOCKLIST_ENTRIES = 64"
definition MAX_PATTERN_BYTES :: nat where "MAX_PATTERN_BYTES = 128"
definition MAX_PATTERN_WILDCARDS :: nat where "MAX_PATTERN_WILDCARDS = 8"
definition MAX_RETENTION_DAYS :: u32 where "MAX_RETENTION_DAYS = 90"
definition DEFAULT_RETENTION_DAYS :: u32 where "DEFAULT_RETENTION_DAYS = 7"
definition MINUTES_PER_DAY :: u32 where "MINUTES_PER_DAY = 1440"

record quiet_hours =
  qh_start_minute :: u32
  qh_end_minute :: u32

definition quiet_hours_validate :: "quiet_hours \<Rightarrow> contract_error option" where
  "quiet_hours_validate q =
     (if qh_start_minute q \<ge> MINUTES_PER_DAY \<or> qh_end_minute q \<ge> MINUTES_PER_DAY \<or> qh_start_minute q = qh_end_minute q
      then Some InvalidQuietHours else None)"

definition quiet_hours_new :: "u32 \<Rightarrow> u32 \<Rightarrow> contract_error + quiet_hours" where
  "quiet_hours_new start_minute end_minute =
     (let window = \<lparr>qh_start_minute = start_minute, qh_end_minute = end_minute\<rparr> in
      case quiet_hours_validate window of Some e \<Rightarrow> Inl e | None \<Rightarrow> Inr window)"

definition quiet_hours_contains :: "quiet_hours \<Rightarrow> u32 \<Rightarrow> bool" where
  "quiet_hours_contains q minute_of_day =
     (if qh_start_minute q \<le> qh_end_minute q
      then minute_of_day \<ge> qh_start_minute q \<and> minute_of_day < qh_end_minute q
      else minute_of_day \<ge> qh_start_minute q \<or> minute_of_day < qh_end_minute q)"

section \<open>Policy\<close>

record ambient_policy =
  ap_paused :: bool
  ap_quiet_hours :: "quiet_hours list"
  ap_process_blocklist :: "string list"
  ap_window_title_blocklist :: "string list"
  ap_retention_days :: u32
  ap_voice_commands :: bool
  ap_voice_commands_autorun :: bool

definition ambient_policy_default :: ambient_policy where
  "ambient_policy_default =
     \<lparr>ap_paused = False, ap_quiet_hours = [], ap_process_blocklist = [], ap_window_title_blocklist = [],
      ap_retention_days = DEFAULT_RETENTION_DAYS, ap_voice_commands = True, ap_voice_commands_autorun = False\<rparr>"

definition glob_wildcard :: "string \<Rightarrow> bool" where
  "glob_wildcard ch \<longleftrightarrow> ch \<in> {''*'', ''?''}"

definition regex_metacharacter :: "string \<Rightarrow> bool" where
  "regex_metacharacter ch \<longleftrightarrow>
     ch \<in> {''('', '')'', ''['', '']'', ''{'', ''}'', ''|'', ''+'', ''^'', ''$'', [CHR 0x5C]}"

text \<open>The loop over the characters: the number of wildcards, or the error of the first character refused.\<close>

fun pattern_loop :: "string \<Rightarrow> string list \<Rightarrow> nat \<Rightarrow> contract_error + nat" where
  "pattern_loop field [] wildcards = Inr wildcards"
| "pattern_loop field (ch # cs) wildcards =
     (if char_is_control ch then Inl (InvalidCharacter field)
      else if glob_wildcard ch then pattern_loop field cs (wildcards + 1)
      else if regex_metacharacter ch then Inl (InvalidCharacter field)
      else pattern_loop field cs wildcards)"

definition validate_pattern :: "unicode \<Rightarrow> string \<Rightarrow> string \<Rightarrow> contract_error option" where
  "validate_pattern U pattern field =
     (if str_trim U pattern = [] then Some (EmptyField field)
      else if length pattern > MAX_PATTERN_BYTES then Some (FieldTooLong field)
      else case pattern_loop field (utf8_chars pattern) 0 of
        Inl e \<Rightarrow> Some e
      | Inr wildcards \<Rightarrow> if wildcards > MAX_PATTERN_WILDCARDS then Some (PatternTooComplex field) else None)"

text \<open>\<open>for x in xs { f(x)?; }\<close>.\<close>

fun first_failed :: "('a \<Rightarrow> 'e option) \<Rightarrow> 'a list \<Rightarrow> 'e option" where
  "first_failed f [] = None"
| "first_failed f (x # xs) = (case f x of Some e \<Rightarrow> Some e | None \<Rightarrow> first_failed f xs)"

definition validate_blocklist :: "unicode \<Rightarrow> string list \<Rightarrow> string \<Rightarrow> contract_error option" where
  "validate_blocklist U patterns field =
     (if length patterns > MAX_BLOCKLIST_ENTRIES then Some (TooManyEntries field)
      else first_failed (\<lambda>p. validate_pattern U p field) patterns)"

definition ambient_policy_validate :: "unicode \<Rightarrow> ambient_policy \<Rightarrow> contract_error option" where
  "ambient_policy_validate U p =
     (if length (ap_quiet_hours p) > MAX_QUIET_HOURS then Some (TooManyEntries ''quiet_hours'')
      else case first_failed quiet_hours_validate (ap_quiet_hours p) of Some e \<Rightarrow> Some e | None \<Rightarrow>
      if length (ap_process_blocklist p) + length (ap_window_title_blocklist p) > MAX_BLOCKLIST_ENTRIES
      then Some (TooManyEntries ''blocklists'')
      else case validate_blocklist U (ap_process_blocklist p) ''process_blocklist'' of Some e \<Rightarrow> Some e | None \<Rightarrow>
      case validate_blocklist U (ap_window_title_blocklist p) ''window_title_blocklist'' of Some e \<Rightarrow> Some e | None \<Rightarrow>
      if ap_retention_days p = 0 \<or> ap_retention_days p > MAX_RETENTION_DAYS then Some RetentionOutOfBounds
      else None)"

definition is_quiet_at :: "ambient_policy \<Rightarrow> u32 \<Rightarrow> bool" where
  "is_quiet_at p minute_of_day \<longleftrightarrow> list_ex (\<lambda>window. quiet_hours_contains window minute_of_day) (ap_quiet_hours p)"

definition capture_allowed_at :: "ambient_policy \<Rightarrow> u32 \<Rightarrow> bool" where
  "capture_allowed_at p minute_of_day \<longleftrightarrow> \<not> ap_paused p \<and> \<not> is_quiet_at p minute_of_day"

section \<open>Proactivity budget\<close>

definition MAX_PROPOSALS_PER_HOUR :: u32 where "MAX_PROPOSALS_PER_HOUR = 3"
definition MAX_PROPOSALS_PER_DAY :: u32 where "MAX_PROPOSALS_PER_DAY = 10"
definition MIN_PROPOSAL_INTERVAL_MS :: u64 where "MIN_PROPOSAL_INTERVAL_MS = 10 * 60 * 1000"
definition HARD_MAX_PER_HOUR :: u32 where "HARD_MAX_PER_HOUR = 12"
definition HARD_MAX_PER_DAY :: u32 where "HARD_MAX_PER_DAY = 48"

record proactivity_budget =
  pb_max_per_hour :: u32
  pb_max_per_day :: u32
  pb_min_interval_ms :: u64

record proactivity_counters =
  pc_hour_count :: u32
  pc_day_count :: u32
  pc_last_proposed_at_ms :: "u64 option"

datatype proactivity_denial =
    DenialPaused | DenialQuietHours | HourlyCapReached | DailyCapReached | TooSoon u64

definition proactivity_budget_default :: proactivity_budget where
  "proactivity_budget_default =
     \<lparr>pb_max_per_hour = MAX_PROPOSALS_PER_HOUR, pb_max_per_day = MAX_PROPOSALS_PER_DAY,
      pb_min_interval_ms = MIN_PROPOSAL_INTERVAL_MS\<rparr>"

definition proactivity_budget_validate :: "proactivity_budget \<Rightarrow> contract_error option" where
  "proactivity_budget_validate b =
     (if pb_max_per_hour b = 0 \<or> pb_max_per_hour b > HARD_MAX_PER_HOUR then Some (BudgetOutOfBounds ''max_per_hour'')
      else if pb_max_per_day b < pb_max_per_hour b \<or> pb_max_per_day b > HARD_MAX_PER_DAY
      then Some (BudgetOutOfBounds ''max_per_day'')
      else if pb_min_interval_ms b = 0 then Some (BudgetOutOfBounds ''min_interval_ms'')
      else None)"

definition proactivity_check :: "proactivity_budget \<Rightarrow> proactivity_counters \<Rightarrow> u64 \<Rightarrow> proactivity_denial option" where
  "proactivity_check b counters now_ms =
     (if pc_hour_count counters \<ge> pb_max_per_hour b then Some HourlyCapReached
      else if pc_day_count counters \<ge> pb_max_per_day b then Some DailyCapReached
      else case pc_last_proposed_at_ms counters of None \<Rightarrow> None
      | Some last_ms \<Rightarrow>
          let elapsed = sat_sub now_ms last_ms in
          if now_ms < last_ms \<or> elapsed < pb_min_interval_ms b
          then Some (TooSoon (sat_sub (pb_min_interval_ms b) elapsed)) else None)"

definition proactivity_decide ::
    "proactivity_budget \<Rightarrow> ambient_policy \<Rightarrow> proactivity_counters \<Rightarrow> u64 \<Rightarrow> u32 \<Rightarrow> proactivity_denial option" where
  "proactivity_decide b policy counters now_ms minute_of_day =
     (if ap_paused policy then Some DenialPaused
      else if is_quiet_at policy minute_of_day then Some DenialQuietHours
      else proactivity_check b counters now_ms)"

section \<open>Validation\<close>

text \<open>A chain of checks passes when every check does.\<close>

lemma try_None: "(case x of Some e \<Rightarrow> Some e | None \<Rightarrow> y) = None \<longleftrightarrow> x = None \<and> y = None"
  by (cases x) simp_all

lemma guard_None: "(if b then Some e else y) = None \<longleftrightarrow> \<not> b \<and> y = None"
  by simp

lemma first_failed_None: "first_failed f xs = None \<longleftrightarrow> (\<forall>x\<in>set xs. f x = None)"
  by (induction xs) (auto split: option.splits)

lemma quiet_hours_validate_None:
  "quiet_hours_validate q = None \<longleftrightarrow>
   unat (qh_start_minute q) < 1440 \<and> unat (qh_end_minute q) < 1440 \<and> qh_start_minute q \<noteq> qh_end_minute q"
  by (auto simp: quiet_hours_validate_def MINUTES_PER_DAY_def word_le_nat_alt not_le)

lemma pattern_loop_Inr:
  "pattern_loop field cs n = Inr k \<longleftrightarrow>
   (\<forall>c\<in>set cs. \<not> char_is_control c \<and> \<not> regex_metacharacter c) \<and> k = n + length (filter glob_wildcard cs)"
proof (induction cs arbitrary: n)
  case (Cons c cs)
  have "glob_wildcard c \<Longrightarrow> \<not> regex_metacharacter c"
    by (auto simp: glob_wildcard_def regex_metacharacter_def)
  with Cons show ?case by auto
qed auto

lemma validate_pattern_None:
  "validate_pattern U p field = None \<longleftrightarrow>
   str_trim U p \<noteq> [] \<and> length p \<le> MAX_PATTERN_BYTES
   \<and> (\<forall>c\<in>set (utf8_chars p). \<not> char_is_control c \<and> \<not> regex_metacharacter c)
   \<and> length (filter glob_wildcard (utf8_chars p)) \<le> MAX_PATTERN_WILDCARDS"
proof (cases "pattern_loop field (utf8_chars p) 0")
  case (Inl e)
  then have "\<not> (\<forall>c\<in>set (utf8_chars p). \<not> char_is_control c \<and> \<not> regex_metacharacter c)"
    using pattern_loop_Inr [of field "utf8_chars p" 0] by fastforce
  with Inl show ?thesis by (auto simp: validate_pattern_def)
next
  case (Inr k)
  then have "(\<forall>c\<in>set (utf8_chars p). \<not> char_is_control c \<and> \<not> regex_metacharacter c)
    \<and> k = length (filter glob_wildcard (utf8_chars p))"
    by (simp add: pattern_loop_Inr)
  with Inr show ?thesis by (auto simp: validate_pattern_def)
qed

lemma ambient_policy_validate_None:
  "ambient_policy_validate U p = None \<longleftrightarrow>
   length (ap_quiet_hours p) \<le> MAX_QUIET_HOURS \<and> (\<forall>q\<in>set (ap_quiet_hours p). quiet_hours_validate q = None)
   \<and> length (ap_process_blocklist p) + length (ap_window_title_blocklist p) \<le> MAX_BLOCKLIST_ENTRIES
   \<and> (\<forall>x\<in>set (ap_process_blocklist p). validate_pattern U x ''process_blocklist'' = None)
   \<and> (\<forall>x\<in>set (ap_window_title_blocklist p). validate_pattern U x ''window_title_blocklist'' = None)
   \<and> ap_retention_days p \<noteq> 0 \<and> ap_retention_days p \<le> MAX_RETENTION_DAYS"
  by (auto simp: ambient_policy_validate_def validate_blocklist_def first_failed_None try_None guard_None not_less)

lemma ambient_policy_default_valid: "ambient_policy_validate U ambient_policy_default = None"
  by (simp add: ambient_policy_validate_None ambient_policy_default_def DEFAULT_RETENTION_DAYS_def MAX_RETENTION_DAYS_def)

lemma proactivity_budget_validate_None:
  "proactivity_budget_validate b = None \<longleftrightarrow>
   0 < unat (pb_max_per_hour b) \<and> unat (pb_max_per_hour b) \<le> 12 \<and> unat (pb_max_per_hour b) \<le> unat (pb_max_per_day b)
   \<and> unat (pb_max_per_day b) \<le> 48 \<and> 0 < unat (pb_min_interval_ms b)"
  by (auto simp: proactivity_budget_validate_def HARD_MAX_PER_HOUR_def HARD_MAX_PER_DAY_def word_less_nat_alt
      not_less unat_gt_0)

lemma proactivity_check_None:
  "proactivity_check b c now_ms = None \<longleftrightarrow>
   unat (pc_hour_count c) < unat (pb_max_per_hour b) \<and> unat (pc_day_count c) < unat (pb_max_per_day b)
   \<and> (\<forall>l. pc_last_proposed_at_ms c = Some l \<longrightarrow> unat l + unat (pb_min_interval_ms b) \<le> unat now_ms)"
  by (auto simp: proactivity_check_def Let_def word_less_nat_alt word_le_nat_alt sat_unat not_le split: option.split)

section \<open>Properties\<close>

lemma mod_day: "0 \<le> m \<Longrightarrow> m < 1440 \<Longrightarrow> 0 \<le> s \<Longrightarrow> s < 1440 \<Longrightarrow> (m - s) mod 1440 = (if s \<le> m then m - s else m - s + 1440)"
  for m s :: int
  using mod_pos_pos_trivial [of "m - s" 1440] mod_add_self2 [of "m - s" 1440] mod_pos_pos_trivial [of "m - s + 1440" 1440]
  by simp

lemma clock_arc:
  "0 \<le> s \<Longrightarrow> s < 1440 \<Longrightarrow> 0 \<le> e \<Longrightarrow> e < 1440 \<Longrightarrow> s \<noteq> e \<Longrightarrow> 0 \<le> m \<Longrightarrow> m < 1440 \<Longrightarrow>
   (if s \<le> e then s \<le> m \<and> m < e else s \<le> m \<or> m < e) \<longleftrightarrow> (m - s) mod 1440 < (e - s) mod 1440" for s e m :: int
  by (auto simp: mod_day)

text \<open>A quiet window is an arc of the clock: for a window that passes its validation and a minute of the day, the
  window contains the minute exactly when the minute is reached from the start, going round the clock, before the end is;
  so a window over midnight and one inside a day are the same notion, and the end minute is always outside.\<close>

theorem quiet_hours_modular:
  assumes "quiet_hours_validate q = None" "m < MINUTES_PER_DAY"
  shows "quiet_hours_contains q m \<longleftrightarrow>
    (uint m - uint (qh_start_minute q)) mod 1440 < (uint (qh_end_minute q) - uint (qh_start_minute q)) mod 1440"
proof -
  let ?s = "uint (qh_start_minute q)" and ?e = "uint (qh_end_minute q)" and ?m = "uint m"
  have lt: "0 \<le> ?s" "?s < 1440" "0 \<le> ?e" "?e < 1440" "?s \<noteq> ?e" "0 \<le> ?m" "?m < 1440"
    using assms by (auto simp: quiet_hours_validate_def MINUTES_PER_DAY_def word_le_def word_less_def word_uint_eq_iff split: if_splits)
  have "quiet_hours_contains q m \<longleftrightarrow> (if ?s \<le> ?e then ?s \<le> ?m \<and> ?m < ?e else ?s \<le> ?m \<or> ?m < ?e)"
    by (simp add: quiet_hours_contains_def word_le_def word_less_def)
  also have "\<dots> \<longleftrightarrow> (?m - ?s) mod 1440 < (?e - ?s) mod 1440"
    using lt by (rule clock_arc)
  finally show ?thesis .
qed

theorem quiet_hours_modular_witness:
  "quiet_hours_validate \<lparr>qh_start_minute = 1380, qh_end_minute = 420\<rparr> = None \<and> (180 :: u32) < MINUTES_PER_DAY
   \<and> quiet_hours_contains \<lparr>qh_start_minute = 1380, qh_end_minute = 420\<rparr> 180"
  using quiet_hours_modular [of "\<lparr>qh_start_minute = 1380, qh_end_minute = 420\<rparr>" 180]
  by (simp add: quiet_hours_validate_def MINUTES_PER_DAY_def)

end
