(* ===== verification/Ambient_Log.thy ===== *)
theory Ambient_Log
  imports Listener_Contract
begin

text \<open>
  \<open>crates/evohime-listener-contract/src/log.rs\<close>: the enumerations of the ambient log with their wire names, the typed log
  event, its name, fields and level, and the flat record that the derived serialisation of the event writes. The functions
  with the suffix \<open>serde\<close> are the names that \<open>rename_all = "snake_case"\<close> gives the constructors.
\<close>

section \<open>Enumerations\<close>

fun listening_state_serde :: "listening_state \<Rightarrow> string" where
  "listening_state_serde ListenStopped = ''stopped''"
| "listening_state_serde ListenStarting = ''starting''"
| "listening_state_serde Listening = ''listening''"
| "listening_state_serde ListenPausedByUser = ''paused_by_user''"
| "listening_state_serde ListenPausedByPolicy = ''paused_by_policy''"
| "listening_state_serde ListenDeviceConflict = ''device_conflict''"
| "listening_state_serde ListenDeviceDisconnected = ''device_disconnected''"
| "listening_state_serde ListenEngineUnavailable = ''engine_unavailable''"
| "listening_state_serde ListenDenied = ''denied''"

fun listening_reason_serde :: "listening_reason \<Rightarrow> string" where
  "listening_reason_serde ReasonUserRequest = ''user_request''"
| "listening_reason_serde ReasonQuietHours = ''quiet_hours''"
| "listening_reason_serde ReasonBlocklist = ''blocklist''"
| "listening_reason_serde ReasonStopWord = ''stop_word''"
| "listening_reason_serde ReasonPermissionDenied = ''permission_denied''"
| "listening_reason_serde ReasonDeviceConflict = ''device_conflict''"
| "listening_reason_serde ReasonDeviceDisconnected = ''device_disconnected''"
| "listening_reason_serde ReasonEngineUnavailable = ''engine_unavailable''"
| "listening_reason_serde ReasonEngineDegraded = ''engine_degraded''"
| "listening_reason_serde ReasonSystemSleep = ''system_sleep''"
| "listening_reason_serde ReasonStorageFailed = ''storage_failed''"
| "listening_reason_serde ReasonUnknown = ''unknown''"

fun ambient_error_code_serde :: "ambient_error_code \<Rightarrow> string" where
  "ambient_error_code_serde ListenerUnavailable = ''listener_unavailable''"
| "ambient_error_code_serde CodeDeviceConflict = ''device_conflict''"
| "ambient_error_code_serde CodeDeviceDisconnected = ''device_disconnected''"
| "ambient_error_code_serde CodePermissionDenied = ''permission_denied''"
| "ambient_error_code_serde PolicyInvalid = ''policy_invalid''"
| "ambient_error_code_serde EngineNotReady = ''engine_not_ready''"
| "ambient_error_code_serde CodeStorageFailed = ''storage_failed''"
| "ambient_error_code_serde ConfirmationRequired = ''confirmation_required''"
| "ambient_error_code_serde InvalidArgument = ''invalid_argument''"

datatype engine_status =
    EngineIdle | EngineDownloading | EngineVerifying | EngineApproved | EngineFailed

fun engine_status_serde :: "engine_status \<Rightarrow> string" where
  "engine_status_serde EngineIdle = ''idle''"
| "engine_status_serde EngineDownloading = ''downloading''"
| "engine_status_serde EngineVerifying = ''verifying''"
| "engine_status_serde EngineApproved = ''approved''"
| "engine_status_serde EngineFailed = ''failed''"

datatype retention_trigger =
    RetentionManual | RetentionPolicy | RetentionForgetWindow

fun retention_trigger_serde :: "retention_trigger \<Rightarrow> string" where
  "retention_trigger_serde RetentionManual = ''manual''"
| "retention_trigger_serde RetentionPolicy = ''policy''"
| "retention_trigger_serde RetentionForgetWindow = ''forget_window''"

datatype extraction_state =
    ExtractionDisabled | ExtractionPending | ExtractionDone | ExtractionFailed

definition extraction_state_all :: "extraction_state list" where
  "extraction_state_all = [ExtractionDisabled, ExtractionPending, ExtractionDone, ExtractionFailed]"

fun extraction_state_as_str :: "extraction_state \<Rightarrow> string" where
  "extraction_state_as_str ExtractionDisabled = ''disabled''"
| "extraction_state_as_str ExtractionPending = ''pending''"
| "extraction_state_as_str ExtractionDone = ''done''"
| "extraction_state_as_str ExtractionFailed = ''failed''"

definition extraction_state_parse :: "string \<Rightarrow> extraction_state option" where
  "extraction_state_parse v = List.find (\<lambda>x. extraction_state_as_str x = v) extraction_state_all"

datatype proposal_kind =
    Suggestion | Reminder

definition proposal_kind_all :: "proposal_kind list" where
  "proposal_kind_all = [Suggestion, Reminder]"

fun proposal_kind_as_str :: "proposal_kind \<Rightarrow> string" where
  "proposal_kind_as_str Suggestion = ''suggestion''"
| "proposal_kind_as_str Reminder = ''reminder''"

definition proposal_kind_parse :: "string \<Rightarrow> proposal_kind option" where
  "proposal_kind_parse v = List.find (\<lambda>x. proposal_kind_as_str x = v) proposal_kind_all"

datatype voice_command_kind =
    OpenApp

definition voice_command_kind_all :: "voice_command_kind list" where
  "voice_command_kind_all = [OpenApp]"

fun voice_command_kind_as_str :: "voice_command_kind \<Rightarrow> string" where
  "voice_command_kind_as_str OpenApp = ''open_app''"

definition voice_command_kind_parse :: "string \<Rightarrow> voice_command_kind option" where
  "voice_command_kind_parse v = List.find (\<lambda>x. voice_command_kind_as_str x = v) voice_command_kind_all"

datatype voice_command_state =
    CommandPending | CommandLaunched | CommandDeclined | CommandExpired | CommandFailed

definition voice_command_state_all :: "voice_command_state list" where
  "voice_command_state_all = [CommandPending, CommandLaunched, CommandDeclined, CommandExpired, CommandFailed]"

fun voice_command_state_as_str :: "voice_command_state \<Rightarrow> string" where
  "voice_command_state_as_str CommandPending = ''pending''"
| "voice_command_state_as_str CommandLaunched = ''launched''"
| "voice_command_state_as_str CommandDeclined = ''declined''"
| "voice_command_state_as_str CommandExpired = ''expired''"
| "voice_command_state_as_str CommandFailed = ''failed''"

definition voice_command_state_parse :: "string \<Rightarrow> voice_command_state option" where
  "voice_command_state_parse v = List.find (\<lambda>x. voice_command_state_as_str x = v) voice_command_state_all"

datatype proposal_state =
    ProposalProposed | ProposalAccepted | ProposalDeclined | ProposalMuted | ProposalExpired

definition proposal_state_all :: "proposal_state list" where
  "proposal_state_all = [ProposalProposed, ProposalAccepted, ProposalDeclined, ProposalMuted, ProposalExpired]"

fun proposal_state_as_str :: "proposal_state \<Rightarrow> string" where
  "proposal_state_as_str ProposalProposed = ''proposed''"
| "proposal_state_as_str ProposalAccepted = ''accepted''"
| "proposal_state_as_str ProposalDeclined = ''declined''"
| "proposal_state_as_str ProposalMuted = ''muted''"
| "proposal_state_as_str ProposalExpired = ''expired''"

definition proposal_state_parse :: "string \<Rightarrow> proposal_state option" where
  "proposal_state_parse v = List.find (\<lambda>x. proposal_state_as_str x = v) proposal_state_all"

definition voice_command_is_terminal :: "voice_command_state \<Rightarrow> bool" where
  "voice_command_is_terminal s \<longleftrightarrow> s \<noteq> CommandPending"

definition proposal_is_terminal :: "proposal_state \<Rightarrow> bool" where
  "proposal_is_terminal s \<longleftrightarrow> s \<noteq> ProposalProposed"

datatype log_level = LogInfo | LogWarn | LogError

section \<open>Events\<close>

definition ALLOWED_LOG_FIELDS :: "string list" where
  "ALLOWED_LOG_FIELDS =
     [''state'', ''reason'', ''active_device_id'', ''status'', ''engine_version'', ''progress_pct'', ''episode_id'',
      ''started_at_ms'', ''utterance_count'', ''extraction_state'', ''deleted_count'', ''trigger'', ''proposal_id'', ''kind'',
      ''subject_key'', ''proposal_state'', ''command_id'', ''app_id'', ''command_state'', ''code'']"

text \<open>The string arguments are identifiers: values of \<open>DeviceId\<close>, \<open>EngineVersion\<close>, \<open>EpisodeId\<close>, \<open>ProposalId\<close>,
  \<open>SubjectKey\<close>, \<open>CommandId\<close> and \<open>AppId\<close>.\<close>

datatype ambient_log_event =
    EventState listening_state listening_reason "string option"
  | EventEngine engine_status "string option" "u8 option"
  | EventTranscript string u64 u32 extraction_state
  | EventRetention u32 retention_trigger
  | EventProposal string "string option" proposal_kind string proposal_state
  | EventVoiceCommand string voice_command_kind string voice_command_state
  | EventError ambient_error_code listening_state

fun event_name :: "ambient_log_event \<Rightarrow> string" where
  "event_name (EventState s r d) = ''ambient.state''"
| "event_name (EventEngine s v p) = ''ambient.engine''"
| "event_name (EventTranscript i t u x) = ''ambient.transcript''"
| "event_name (EventRetention n t) = ''ambient.retention''"
| "event_name (EventProposal i e k sk ps) = ''ambient.proposal''"
| "event_name (EventVoiceCommand c k a cs) = ''ambient.voice_command''"
| "event_name (EventError c s) = ''ambient.error''"

fun event_field_names :: "ambient_log_event \<Rightarrow> string list" where
  "event_field_names (EventState s r d) = [''state'', ''reason'', ''active_device_id'']"
| "event_field_names (EventEngine s v p) = [''status'', ''engine_version'', ''progress_pct'']"
| "event_field_names (EventTranscript i t u x) = [''episode_id'', ''started_at_ms'', ''utterance_count'', ''extraction_state'']"
| "event_field_names (EventRetention n t) = [''deleted_count'', ''trigger'']"
| "event_field_names (EventProposal i e k sk ps) = [''proposal_id'', ''episode_id'', ''kind'', ''subject_key'', ''proposal_state'']"
| "event_field_names (EventVoiceCommand c k a cs) = [''command_id'', ''kind'', ''app_id'', ''command_state'']"
| "event_field_names (EventError c s) = [''code'', ''state'']"

fun event_level :: "ambient_log_event \<Rightarrow> log_level" where
  "event_level (EventError c s) = LogError"
| "event_level (EventState s r d) = (if is_degraded s then LogWarn else LogInfo)"
| "event_level (EventEngine s v p) = (if s = EngineFailed then LogWarn else LogInfo)"
| "event_level _ = LogInfo"

text \<open>The value of a field in the record: what the derived serialisation writes for the constructor's fields, in their
  order, under the names the declaration gives them.\<close>

datatype log_value = LogNull | LogNumber nat | LogString string

definition log_opt :: "('a \<Rightarrow> log_value) \<Rightarrow> 'a option \<Rightarrow> log_value" where
  "log_opt f x = (case x of None \<Rightarrow> LogNull | Some y \<Rightarrow> f y)"

fun event_record :: "ambient_log_event \<Rightarrow> (string \<times> log_value) list" where
  "event_record (EventState s r d) =
     [(''state'', LogString (listening_state_serde s)), (''reason'', LogString (listening_reason_serde r)),
      (''active_device_id'', log_opt LogString d)]"
| "event_record (EventEngine s v p) =
     [(''status'', LogString (engine_status_serde s)), (''engine_version'', log_opt LogString v),
      (''progress_pct'', log_opt (\<lambda>n. LogNumber (unat n)) p)]"
| "event_record (EventTranscript i t u x) =
     [(''episode_id'', LogString i), (''started_at_ms'', LogNumber (unat t)), (''utterance_count'', LogNumber (unat u)),
      (''extraction_state'', LogString (extraction_state_as_str x))]"
| "event_record (EventRetention n t) =
     [(''deleted_count'', LogNumber (unat n)), (''trigger'', LogString (retention_trigger_serde t))]"
| "event_record (EventProposal i e k sk ps) =
     [(''proposal_id'', LogString i), (''episode_id'', log_opt LogString e), (''kind'', LogString (proposal_kind_as_str k)),
      (''subject_key'', LogString sk), (''proposal_state'', LogString (proposal_state_as_str ps))]"
| "event_record (EventVoiceCommand c k a cs) =
     [(''command_id'', LogString c), (''kind'', LogString (voice_command_kind_as_str k)), (''app_id'', LogString a),
      (''command_state'', LogString (voice_command_state_as_str cs))]"
| "event_record (EventError c s) =
     [(''code'', LogString (ambient_error_code_serde c)), (''state'', LogString (listening_state_serde s))]"

section \<open>Round trips\<close>

lemma extraction_state_round_trip:
  "extraction_state_parse v = Some x \<longleftrightarrow> v = extraction_state_as_str x"
  by (cases x) (auto simp: extraction_state_parse_def extraction_state_all_def split: if_splits)

lemma proposal_kind_round_trip:
  "proposal_kind_parse v = Some x \<longleftrightarrow> v = proposal_kind_as_str x"
  by (cases x) (auto simp: proposal_kind_parse_def proposal_kind_all_def split: if_splits)

lemma voice_command_kind_round_trip:
  "voice_command_kind_parse v = Some x \<longleftrightarrow> v = voice_command_kind_as_str x"
  by (cases x) (auto simp: voice_command_kind_parse_def voice_command_kind_all_def split: if_splits)

lemma voice_command_state_round_trip:
  "voice_command_state_parse v = Some x \<longleftrightarrow> v = voice_command_state_as_str x"
  by (cases x) (auto simp: voice_command_state_parse_def voice_command_state_all_def split: if_splits)

lemma proposal_state_round_trip:
  "proposal_state_parse v = Some x \<longleftrightarrow> v = proposal_state_as_str x"
  by (cases x) (auto simp: proposal_state_parse_def proposal_state_all_def split: if_splits)

text \<open>The name that serialisation gives an error code is not a name that \<open>parse\<close> reads.\<close>

theorem error_code_serde_unparsed: "ambient_error_code_parse (ambient_error_code_serde c) = None"
  by (cases c) (simp_all add: ambient_error_code_parse_def ambient_error_code_all_def)

section \<open>The record\<close>

text \<open>The identifiers of an event, each with the name of its type's field, and that they are values of their types: each
  passed the check of its constructor.\<close>

definition is_id :: "string \<Rightarrow> bool" where
  "is_id s \<longleftrightarrow> validate_id s [] = None"

fun event_ids_valid :: "ambient_log_event \<Rightarrow> bool" where
  "event_ids_valid (EventState s r d) = (case d of None \<Rightarrow> True | Some x \<Rightarrow> is_id x)"
| "event_ids_valid (EventEngine s v p) = (case v of None \<Rightarrow> True | Some x \<Rightarrow> is_id x)"
| "event_ids_valid (EventTranscript i t u x) = is_id i"
| "event_ids_valid (EventRetention n t) = True"
| "event_ids_valid (EventProposal i e k sk ps) = (is_id i \<and> (case e of None \<Rightarrow> True | Some x \<Rightarrow> is_id x) \<and> is_id sk)"
| "event_ids_valid (EventVoiceCommand c k a cs) = (is_id c \<and> is_id a)"
| "event_ids_valid (EventError c s) = True"

lemma is_id_field: "bounded_id_new field v = Inr w \<longleftrightarrow> is_id v \<and> w = v"
  by (auto simp: bounded_id_new_def is_id_def validate_id_def)

lemma is_id_intro: "v \<noteq> [] \<Longrightarrow> length v \<le> 128 \<Longrightarrow> list_all id_char v \<Longrightarrow> is_id v"
  by (simp add: is_id_def validate_id_def LISTENER_MAX_ID_BYTES_def)

lemma is_id_no_space: "is_id v \<Longrightarrow> CHR '' '' \<notin> set v \<and> length v \<le> 128"
  by (auto simp: is_id_def validate_id_def LISTENER_MAX_ID_BYTES_def id_char_def list_all_iff split: if_splits)

lemma listening_state_serde_is_id: "is_id (listening_state_serde x)"
  by (cases x; hypsubst_thin; code_simp)

lemma listening_reason_serde_is_id: "is_id (listening_reason_serde x)"
  by (cases x; hypsubst_thin; code_simp)

lemma ambient_error_code_serde_is_id: "is_id (ambient_error_code_serde x)"
  by (cases x; hypsubst_thin; code_simp)

lemma engine_status_serde_is_id: "is_id (engine_status_serde x)"
  by (cases x; hypsubst_thin; code_simp)

lemma retention_trigger_serde_is_id: "is_id (retention_trigger_serde x)"
  by (cases x; hypsubst_thin; code_simp)

lemma extraction_state_as_str_is_id: "is_id (extraction_state_as_str x)"
  by (cases x; hypsubst_thin; code_simp)

lemma proposal_kind_as_str_is_id: "is_id (proposal_kind_as_str x)"
  by (cases x; hypsubst_thin; code_simp)

lemma voice_command_kind_as_str_is_id: "is_id (voice_command_kind_as_str x)"
  by (cases x; hypsubst_thin; code_simp)

lemma voice_command_state_as_str_is_id: "is_id (voice_command_state_as_str x)"
  by (cases x; hypsubst_thin; code_simp)

lemma proposal_state_as_str_is_id: "is_id (proposal_state_as_str x)"
  by (cases x; hypsubst_thin; code_simp)

lemmas wire_names_are_ids =
  listening_state_serde_is_id
  listening_reason_serde_is_id
  ambient_error_code_serde_is_id
  engine_status_serde_is_id
  retention_trigger_serde_is_id
  extraction_state_as_str_is_id
  proposal_kind_as_str_is_id
  voice_command_kind_as_str_is_id
  voice_command_state_as_str_is_id
  proposal_state_as_str_is_id

lemma event_record_fields: "map fst (event_record e) = event_field_names e"
  by (cases e) simp_all

lemma event_field_names_allowed: "set (event_field_names e) \<subseteq> set ALLOWED_LOG_FIELDS"
  by (cases e) (simp_all add: ALLOWED_LOG_FIELDS_def)

lemma event_record_strings: "event_ids_valid e \<Longrightarrow> (k, LogString v) \<in> set (event_record e) \<Longrightarrow> is_id v"
  by (cases e) (auto simp: wire_names_are_ids log_opt_def split: option.splits)

text \<open>C35: The ambient log carries no free text. The record that an event is written as has exactly the fields that
  \<open>field_names\<close> declares for it, all of them on the allow-list, none twice; and every string in it, an identifier or the
  name of a closed enumeration, is at most 128 bytes without a space.\<close>

theorem log_no_free_text:
  assumes "event_ids_valid e"
  shows "map fst (event_record e) = event_field_names e \<and> distinct (event_field_names e)
    \<and> (\<forall>(k, v) \<in> set (event_record e). k \<in> set ALLOWED_LOG_FIELDS
         \<and> (case v of LogString s \<Rightarrow> CHR '' '' \<notin> set s \<and> 0 < length s \<and> length s \<le> 128 | _ \<Rightarrow> True))"
proof (intro conjI ballI)
  show "distinct (event_field_names e)" by (cases e) simp_all
  fix kv assume kv: "kv \<in> set (event_record e)"
  then have "fst kv \<in> set (event_field_names e)" by (metis event_record_fields image_eqI set_map)
  then have field: "fst kv \<in> set ALLOWED_LOG_FIELDS" using event_field_names_allowed by blast
  have str: "is_id s" if "snd kv = LogString s" for s
    using event_record_strings [OF assms, of "fst kv" s] kv that by (metis prod.collapse)
  have "s \<noteq> []" if "is_id s" for s using that by (auto simp: is_id_def validate_id_def)
  then show "case kv of (k, v) \<Rightarrow> k \<in> set ALLOWED_LOG_FIELDS
      \<and> (case v of LogString s \<Rightarrow> CHR '' '' \<notin> set s \<and> 0 < length s \<and> length s \<le> 128 | _ \<Rightarrow> True)"
    using field str is_id_no_space by (auto split: log_value.split prod.split)
qed (rule event_record_fields)

theorem log_no_free_text_witness:
  "event_ids_valid (EventProposal ''prop-1'' (Some ''ep-1'') Reminder ''a1b2c3d4e5f60718'' ProposalProposed)
   \<and> map fst (event_record (EventProposal ''prop-1'' (Some ''ep-1'') Reminder ''a1b2c3d4e5f60718'' ProposalProposed))
     = [''proposal_id'', ''episode_id'', ''kind'', ''subject_key'', ''proposal_state'']"
proof -
  have v: "event_ids_valid (EventProposal ''prop-1'' (Some ''ep-1'') Reminder ''a1b2c3d4e5f60718'' ProposalProposed)"
    by code_simp
  from log_no_free_text [OF v] v show ?thesis by simp
qed

end
