(* ===== verification/Ambient_Proactivity.thy ===== *)
theory Ambient_Proactivity
  imports Ambient_Policy Ambient_Log
begin

text \<open>
  \<open>crates/evohime-core/src/ambient_proactivity.rs\<close> and the registry \<open>AmbientProactivityRegistry\<close> of
  \<open>crates/evohime-core/src/ambient.rs\<close>: the closed list of proactive effects, the keys of a proposal, its states, the
  counters of the hour and of the day, and the decision whether to show a proposal. SHA-256 is an argument, a function
  from bytes to the bytes of the digest; the clock, the policy read from the file and what the storage answers are
  arguments of the operations that read them.
\<close>

section \<open>Effects\<close>

definition PROPOSAL_LIFETIME_MS :: u64 where "PROPOSAL_LIFETIME_MS = 24 * 60 * 60 * 1000"
definition PROPOSAL_BUCKET_MS :: u64 where "PROPOSAL_BUCKET_MS = 60 * 60 * 1000"
definition HOUR_MS :: u64 where "HOUR_MS = 60 * 60 * 1000"
definition DAY_MS :: u64 where "DAY_MS = 24 * 60 * 60 * 1000"
definition MAX_SUBJECT_KEY_BYTES :: nat where "MAX_SUBJECT_KEY_BYTES = 64"

datatype proactive_effect =
    ProposalCard | PendingReminder | StartTask | ToolCallEffect | FileWriteEffect | NetworkRequestEffect

definition proactive_effect_all :: "proactive_effect list" where
  "proactive_effect_all =
     [ProposalCard, PendingReminder, StartTask, ToolCallEffect, FileWriteEffect, NetworkRequestEffect]"

fun proactive_effect_as_str :: "proactive_effect \<Rightarrow> string" where
  "proactive_effect_as_str ProposalCard = ''proposal_card''"
| "proactive_effect_as_str PendingReminder = ''pending_reminder''"
| "proactive_effect_as_str StartTask = ''start_task''"
| "proactive_effect_as_str ToolCallEffect = ''tool_call''"
| "proactive_effect_as_str FileWriteEffect = ''file_write''"
| "proactive_effect_as_str NetworkRequestEffect = ''network_request''"

definition is_proactively_allowed :: "proactive_effect \<Rightarrow> bool" where
  "is_proactively_allowed e = (case e of ProposalCard \<Rightarrow> True | PendingReminder \<Rightarrow> True | _ \<Rightarrow> False)"

datatype proposal_rejection =
    RejectForbidden proactive_effect | RejectMuted | RejectDenied proactivity_denial

fun proposal_rejection_as_str :: "proposal_rejection \<Rightarrow> string" where
  "proposal_rejection_as_str (RejectForbidden e) = ''effect_forbidden''"
| "proposal_rejection_as_str RejectMuted = ''muted''"
| "proposal_rejection_as_str (RejectDenied DenialPaused) = ''paused''"
| "proposal_rejection_as_str (RejectDenied DenialQuietHours) = ''quiet_hours''"
| "proposal_rejection_as_str (RejectDenied HourlyCapReached) = ''hourly_cap''"
| "proposal_rejection_as_str (RejectDenied DailyCapReached) = ''daily_cap''"
| "proposal_rejection_as_str (RejectDenied (TooSoon r)) = ''too_soon''"

datatype authorized_effect = AuthorizedEffect (authorized: proactive_effect)

definition authorize_proactive :: "proactive_effect \<Rightarrow> proposal_rejection + authorized_effect" where
  "authorize_proactive effect =
     (if is_proactively_allowed effect then Inr (AuthorizedEffect effect) else Inl (RejectForbidden effect))"

fun effect_of :: "proposal_kind \<Rightarrow> proactive_effect" where
  "effect_of Suggestion = ProposalCard"
| "effect_of Reminder = PendingReminder"

section \<open>Keys\<close>

definition ascii_alphanumeric :: "string \<Rightarrow> bool" where
  "ascii_alphanumeric ch =
     (case ch of
        [c] \<Rightarrow> CHR ''0'' \<le> c \<and> c \<le> CHR ''9'' \<or> CHR ''A'' \<le> c \<and> c \<le> CHR ''Z'' \<or> CHR ''a'' \<le> c \<and> c \<le> CHR ''z''
      | _ \<Rightarrow> False)"

fun slug_loop :: "string list \<Rightarrow> string \<Rightarrow> bool \<Rightarrow> string" where
  "slug_loop [] slug pending = slug"
| "slug_loop (ch # chs) slug pending =
     (let (slug', pending') =
        (if ascii_alphanumeric ch
         then ((if pending \<and> slug \<noteq> [] then slug @ ''-'' else slug) @ map ascii_lowercase ch, False)
         else (slug, True))
      in if length slug' \<ge> MAX_SUBJECT_KEY_BYTES then slug' else slug_loop chs slug' pending')"

definition hex_digit :: "nat \<Rightarrow> char" where
  "hex_digit n = (''0123456789abcdef'' ! (n mod 16))"

definition hex_byte :: "u8 \<Rightarrow> string" where
  "hex_byte b = [hex_digit (unat b div 16), hex_digit (unat b)]"

definition fingerprint :: "unicode \<Rightarrow> (string \<Rightarrow> u8 list) \<Rightarrow> string \<Rightarrow> string" where
  "fingerprint U sha256 s = concat (map hex_byte (take 8 (sha256 (uc_to_lowercase U (str_trim U s)))))"

text \<open>\<open>None\<close> is the panic of the \<open>unreachable!\<close> branch.\<close>

definition subject_key :: "unicode \<Rightarrow> (string \<Rightarrow> u8 list) \<Rightarrow> string \<Rightarrow> string option" where
  "subject_key U sha256 subject =
     (let slug0 = slug_loop (utf8_chars (str_trim U subject)) [] False;
          slug = (if slug0 = [] then fingerprint U sha256 subject else slug0)
      in case bounded_id_new ''subject_key'' slug of Inr key \<Rightarrow> Some key
      | Inl _ \<Rightarrow>
          case bounded_id_new ''subject_key'' (fingerprint U sha256 subject) of Inr key \<Rightarrow> Some key
          | Inl _ \<Rightarrow>
              case bounded_id_new ''subject_key'' ''invalid-subject'' of Inr key \<Rightarrow> Some key | Inl _ \<Rightarrow> None)"

definition proposal_key :: "proposal_kind \<Rightarrow> string \<Rightarrow> u64 \<Rightarrow> string" where
  "proposal_key kind subject now_ms =
     proposal_kind_as_str kind @ '':'' @ subject @ '':'' @ show_word (now_ms div PROPOSAL_BUCKET_MS)"

definition mute_key :: "proposal_kind \<Rightarrow> string \<Rightarrow> string" where
  "mute_key kind subject = proposal_kind_as_str kind @ '':'' @ subject"

section \<open>Proposals\<close>

record proposal =
  pp_proposal_id :: string
  pp_proposal_key :: string
  pp_mute_key :: string
  pp_kind :: proposal_kind
  pp_subject_key :: string
  pp_source_episode :: "string option"
  pp_created_at_ms :: u64
  pp_state :: proposal_state

definition proposal_new ::
    "unicode \<Rightarrow> (string \<Rightarrow> u8 list) \<Rightarrow> string \<Rightarrow> proposal_kind \<Rightarrow> string \<Rightarrow> string option \<Rightarrow> u64 \<Rightarrow> proposal option" where
  "proposal_new U sha256 proposal_id kind subject source_episode created_at_ms =
     map_option (\<lambda>key.
       \<lparr>pp_proposal_id = proposal_id, pp_proposal_key = proposal_key kind key created_at_ms,
        pp_mute_key = mute_key kind key, pp_kind = kind, pp_subject_key = key, pp_source_episode = source_episode,
        pp_created_at_ms = created_at_ms, pp_state = ProposalProposed\<rparr>)
     (subject_key U sha256 subject)"

definition proposal_expires_at_ms :: "proposal \<Rightarrow> u64" where
  "proposal_expires_at_ms p = sat_add (pp_created_at_ms p) PROPOSAL_LIFETIME_MS"

definition proposal_is_expired_at :: "proposal \<Rightarrow> u64 \<Rightarrow> bool" where
  "proposal_is_expired_at p now_ms \<longleftrightarrow> pp_state p = ProposalProposed \<and> now_ms \<ge> proposal_expires_at_ms p"

datatype proposal_transition_error = AlreadyResolved proposal_state | NotTerminal proposal_state

definition proposal_transition :: "proposal \<Rightarrow> proposal_state \<Rightarrow> proposal_transition_error option \<times> proposal" where
  "proposal_transition p next_state =
     (if \<not> proposal_is_terminal next_state then (Some (NotTerminal next_state), p)
      else if proposal_is_terminal (pp_state p) then (Some (AlreadyResolved (pp_state p)), p)
      else (None, p\<lparr>pp_state := next_state\<rparr>))"

fun proposal_transition_error_display :: "proposal_transition_error \<Rightarrow> string" where
  "proposal_transition_error_display (AlreadyResolved s) = ''proposal is already '' @ proposal_state_as_str s"
| "proposal_transition_error_display (NotTerminal s) = proposal_state_as_str s @ '' is not a terminal proposal state''"

section \<open>Counters\<close>

record rolling_counters =
  rc_hour_started_at_ms :: u64
  rc_hour_count :: u32
  rc_day_started_at_ms :: u64
  rc_day_count :: u32
  rc_last_proposed_at_ms :: "u64 option"

definition rolling_counters_default :: rolling_counters where
  "rolling_counters_default =
     \<lparr>rc_hour_started_at_ms = 0, rc_hour_count = 0, rc_day_started_at_ms = 0, rc_day_count = 0,
      rc_last_proposed_at_ms = None\<rparr>"

definition rolled :: "rolling_counters \<Rightarrow> u64 \<Rightarrow> rolling_counters" where
  "rolled c now_ms =
     (let c = (if sat_sub now_ms (rc_hour_started_at_ms c) \<ge> HOUR_MS
               then c\<lparr>rc_hour_started_at_ms := now_ms, rc_hour_count := 0\<rparr> else c)
      in if sat_sub now_ms (rc_day_started_at_ms c) \<ge> DAY_MS
         then c\<lparr>rc_day_started_at_ms := now_ms, rc_day_count := 0\<rparr> else c)"

definition counters_snapshot :: "rolling_counters \<Rightarrow> proactivity_counters" where
  "counters_snapshot c =
     \<lparr>pc_hour_count = rc_hour_count c, pc_day_count = rc_day_count c,
      pc_last_proposed_at_ms = rc_last_proposed_at_ms c\<rparr>"

definition counters_record :: "rolling_counters \<Rightarrow> u64 \<Rightarrow> rolling_counters" where
  "counters_record c now_ms =
     (let c = rolled c now_ms;
          c = (if rc_hour_count c = 0 then c\<lparr>rc_hour_started_at_ms := now_ms\<rparr> else c);
          c = (if rc_day_count c = 0 then c\<lparr>rc_day_started_at_ms := now_ms\<rparr> else c)
      in c\<lparr>rc_hour_count := sat_add (rc_hour_count c) 1, rc_day_count := sat_add (rc_day_count c) 1,
           rc_last_proposed_at_ms := Some now_ms\<rparr>)"

definition decide_proposal ::
    "proactive_effect \<Rightarrow> bool \<Rightarrow> ambient_policy \<Rightarrow> proactivity_budget \<Rightarrow> rolling_counters \<Rightarrow> u64 \<Rightarrow> u32
     \<Rightarrow> proposal_rejection + authorized_effect" where
  "decide_proposal effect muted policy budget counters now_ms minute_of_day =
     (case authorize_proactive effect of Inl e \<Rightarrow> Inl e
      | Inr auth \<Rightarrow>
          if muted then Inl RejectMuted
          else case proactivity_decide budget policy (counters_snapshot (rolled counters now_ms)) now_ms minute_of_day of
              Some denial \<Rightarrow> Inl (RejectDenied denial)
            | None \<Rightarrow> Inr auth)"

definition validate_budget :: "proactivity_budget \<Rightarrow> contract_error option" where
  "validate_budget budget = proactivity_budget_validate budget"

section \<open>The registry\<close>

text \<open>A row of counters as the storage keeps it, in \<open>i64\<close>.\<close>

record counters_row =
  row_hour_started_at_ms :: i64
  row_hour_count :: i64
  row_day_started_at_ms :: i64
  row_day_count :: i64
  row_last_proposed_at_ms :: "i64 option"

definition counters_from_row :: "counters_row \<Rightarrow> rolling_counters" where
  "counters_from_row row =
     \<lparr>rc_hour_started_at_ms = word_of_int (max 0 (row_hour_started_at_ms row)),
      rc_hour_count = word_of_int (max 0 (row_hour_count row)),
      rc_day_started_at_ms = word_of_int (max 0 (row_day_started_at_ms row)),
      rc_day_count = word_of_int (max 0 (row_day_count row)),
      rc_last_proposed_at_ms = map_option (\<lambda>v. word_of_int (max 0 v)) (row_last_proposed_at_ms row)\<rparr>"

definition i64_from_u64 :: "u64 \<Rightarrow> i64" where
  "i64_from_u64 w = (if uint w \<le> i64_max then uint w else i64_max)"

definition counters_to_row :: "rolling_counters \<Rightarrow> counters_row" where
  "counters_to_row c =
     \<lparr>row_hour_started_at_ms = i64_from_u64 (rc_hour_started_at_ms c), row_hour_count = uint (rc_hour_count c),
      row_day_started_at_ms = i64_from_u64 (rc_day_started_at_ms c), row_day_count = uint (rc_day_count c),
      row_last_proposed_at_ms = map_option i64_from_u64 (rc_last_proposed_at_ms c)\<rparr>"

record proactivity_registry =
  pr_budget :: proactivity_budget
  pr_counters :: rolling_counters
  pr_muted :: "string list"
  pr_loaded :: bool

definition proactivity_registry_default :: proactivity_registry where
  "proactivity_registry_default =
     \<lparr>pr_budget = proactivity_budget_default, pr_counters = rolling_counters_default, pr_muted = [], pr_loaded = False\<rparr>"

text \<open>What the storage answers to \<open>load_ambient_counters\<close> and \<open>list_ambient_mute_keys\<close>; \<open>None\<close> is an error.\<close>

record proactivity_store =
  ps_counters :: "counters_row option option"
  ps_mutes :: "string list option"

text \<open>The sections of the lock: \<open>ensure_loaded\<close> holds it to ask whether a load is needed and again to write what was read; between the
  two it reads the counters and the keys without it. \<open>decide\<close> holds it once more to decide, \<open>commit\<close> to count, \<open>mute\<close> to insert
  the key it has stored. The operations \<open>ensure_loaded\<close>, \<open>registry_decide\<close>, \<open>registry_mute\<close> and \<open>registry_is_muted\<close> below are
  calls whose sections run with no other section between them; \<open>Ambient_Proposals\<close> has every order of the sections of
  many calls.\<close>

definition load_needed :: "proactivity_registry \<Rightarrow> bool" where
  "load_needed r \<longleftrightarrow> \<not> pr_loaded r"

definition load_apply :: "counters_row option \<Rightarrow> string list \<Rightarrow> proactivity_registry \<Rightarrow> proactivity_registry" where
  "load_apply counters mutes r =
     r\<lparr>pr_counters := (case counters of Some row \<Rightarrow> counters_from_row row | None \<Rightarrow> pr_counters r),
       pr_muted := mutes, pr_loaded := True\<rparr>"

definition decide_section ::
    "ambient_policy \<Rightarrow> u32 \<Rightarrow> proposal_kind \<Rightarrow> string \<Rightarrow> u64 \<Rightarrow> proactivity_registry \<Rightarrow> proposal_rejection + authorized_effect" where
  "decide_section policy minute_of_day kind key now_ms r =
     decide_proposal (effect_of kind) (key \<in> set (pr_muted r)) policy (pr_budget r) (pr_counters r) now_ms minute_of_day"

definition mute_insert :: "string \<Rightarrow> proactivity_registry \<Rightarrow> proactivity_registry" where
  "mute_insert key r = r\<lparr>pr_muted := List.insert key (pr_muted r)\<rparr>"

definition ensure_loaded :: "proactivity_store \<Rightarrow> proactivity_registry \<Rightarrow> proactivity_registry" where
  "ensure_loaded store r =
     (if \<not> load_needed r then r
      else case (ps_counters store, ps_mutes store) of
        (Some counters, Some mutes) \<Rightarrow> load_apply counters mutes r
      | _ \<Rightarrow> r)"

definition registry_decide ::
    "proactivity_store \<Rightarrow> ambient_policy \<Rightarrow> u32 \<Rightarrow> proposal_kind \<Rightarrow> string \<Rightarrow> u64 \<Rightarrow> proactivity_registry
     \<Rightarrow> (proposal_rejection + authorized_effect) \<times> proactivity_registry" where
  "registry_decide store policy minute_of_day kind key now_ms r =
     (let r' = ensure_loaded store r in (decide_section policy minute_of_day kind key now_ms r', r'))"

text \<open>The row is the one that is saved; an error of the storage is dropped.\<close>

definition registry_commit :: "u64 \<Rightarrow> proactivity_registry \<Rightarrow> counters_row \<times> proactivity_registry" where
  "registry_commit now_ms r =
     (let c = counters_record (pr_counters r) now_ms in (counters_to_row c, r\<lparr>pr_counters := c\<rparr>))"

definition registry_mute ::
    "ambient_error_code option \<Rightarrow> string \<Rightarrow> proactivity_registry \<Rightarrow> ambient_error_code option \<times> proactivity_registry" where
  "registry_mute stored key r =
     (case stored of Some e \<Rightarrow> (Some e, r) | None \<Rightarrow> (None, mute_insert key r))"

definition registry_is_muted :: "proactivity_store \<Rightarrow> string \<Rightarrow> proactivity_registry \<Rightarrow> bool \<times> proactivity_registry" where
  "registry_is_muted store key r = (let r' = ensure_loaded store r in (key \<in> set (pr_muted r'), r'))"

section \<open>Acceptance in numbers\<close>

lemma unat_HOUR_MS [simp]: "unat HOUR_MS = 3600000" by (simp add: HOUR_MS_def)
lemma unat_DAY_MS [simp]: "unat DAY_MS = 86400000" by (simp add: DAY_MS_def)

text \<open>The counts after the windows have moved.\<close>

definition hour_room :: "rolling_counters \<Rightarrow> u64 \<Rightarrow> nat" where
  "hour_room c t = (if 3600000 \<le> unat t - unat (rc_hour_started_at_ms c) then 0 else unat (rc_hour_count c))"

definition day_room :: "rolling_counters \<Rightarrow> u64 \<Rightarrow> nat" where
  "day_room c t = (if 86400000 \<le> unat t - unat (rc_day_started_at_ms c) then 0 else unat (rc_day_count c))"

lemma rolled_counts:
  "unat (rc_hour_count (rolled c t)) = hour_room c t" "unat (rc_day_count (rolled c t)) = day_room c t"
  "rc_last_proposed_at_ms (rolled c t) = rc_last_proposed_at_ms c"
  by (simp_all add: rolled_def hour_room_def day_room_def Let_def word_le_nat_alt sat_unat)

lemma rolled_starts:
  "rc_hour_started_at_ms (rolled c t) =
     (if 3600000 \<le> unat t - unat (rc_hour_started_at_ms c) then t else rc_hour_started_at_ms c)"
  "rc_day_started_at_ms (rolled c t) =
     (if 86400000 \<le> unat t - unat (rc_day_started_at_ms c) then t else rc_day_started_at_ms c)"
  by (simp_all add: rolled_def Let_def word_le_nat_alt sat_unat)

definition accepts :: "proactivity_budget \<Rightarrow> rolling_counters \<Rightarrow> u64 \<Rightarrow> bool" where
  "accepts b c t \<longleftrightarrow> proactivity_check b (counters_snapshot (rolled c t)) t = None"

lemma accepts_iff:
  "accepts b c t \<longleftrightarrow>
   hour_room c t < unat (pb_max_per_hour b) \<and> day_room c t < unat (pb_max_per_day b)
   \<and> (\<forall>l. rc_last_proposed_at_ms c = Some l \<longrightarrow> unat l + unat (pb_min_interval_ms b) \<le> unat t)"
  by (simp add: accepts_def proactivity_check_None counters_snapshot_def rolled_counts)

lemma decide_proposal_Inr:
  "decide_proposal effect muted policy b c t m = Inr a \<longleftrightarrow>
   a = AuthorizedEffect effect \<and> is_proactively_allowed effect \<and> \<not> muted \<and> capture_allowed_at policy m \<and> accepts b c t"
  by (auto simp: decide_proposal_def authorize_proactive_def proactivity_decide_def capture_allowed_at_def accepts_def
      split: option.split)

lemma counters_record_starts:
  "unat (rc_hour_started_at_ms (counters_record c t)) =
     (if hour_room c t = 0 then unat t else unat (rc_hour_started_at_ms c))"
  "unat (rc_day_started_at_ms (counters_record c t)) =
     (if day_room c t = 0 then unat t else unat (rc_day_started_at_ms c))"
  "rc_last_proposed_at_ms (counters_record c t) = Some t"
  using rolled_counts [of c t] rolled_starts [of c t]
  by (auto simp: counters_record_def Let_def unat_eq_0 hour_room_def day_room_def split: if_splits)

lemma counters_record_counts:
  "hour_room c t < 2 ^ 32 - 1 \<Longrightarrow> unat (rc_hour_count (counters_record c t)) = Suc (hour_room c t)"
  "day_room c t < 2 ^ 32 - 1 \<Longrightarrow> unat (rc_day_count (counters_record c t)) = Suc (day_room c t)"
  by (simp_all add: counters_record_def Let_def unat_sat_add rolled_counts flip: unat_eq_0)

text \<open>When entries that are \<open>n\<close> apart in the sequence are \<open>len\<close> apart in time, no stretch of \<open>len\<close> holds more than \<open>n\<close>.\<close>

lemma few_in_window:
  fixes ts :: "'a::len word list"
  assumes "sorted (map unat ts)" "\<And>i. i + n < length ts \<Longrightarrow> unat (ts ! i) + len \<le> unat (ts ! (i + n))"
  shows "length (filter (\<lambda>t. w \<le> unat t \<and> unat t < w + len) ts) \<le> n"
  using assms
proof (induction ts)
  case (Cons t ts)
  let ?P = "\<lambda>t. w \<le> unat t \<and> unat t < w + len"
  have IH: "length (filter ?P ts) \<le> n"
    using Cons.prems(1) Cons.prems(2) [of "Suc _"] by (intro Cons.IH) auto
  show ?case
  proof (cases "?P t")
    case True
    have "\<not> ?P x" if x: "x \<in> set (drop n (t # ts))" for x
    proof -
      obtain j where "j < length (drop n (t # ts))" "drop n (t # ts) ! j = x" using x unfolding in_set_conv_nth by blast
      then have j: "n + j < length (t # ts)" "x = (t # ts) ! (n + j)" by simp_all
      have "unat t + len \<le> unat ((t # ts) ! n)" using Cons.prems(2) [of 0] j by simp
      also have "\<dots> \<le> unat x" using sorted_nth_mono [OF Cons.prems(1), of n "n + j"] j
        by (simp del: list.map add: nth_map)
      finally show ?thesis using True by simp
    qed
    then have "filter ?P (drop n (t # ts)) = []" by (simp add: filter_empty_conv)
    then have "filter ?P (take n (t # ts) @ drop n (t # ts)) = filter ?P (take n (t # ts))"
      by (simp only: filter_append append_Nil2)
    then have "filter ?P (t # ts) = filter ?P (take n (t # ts))" by (simp only: append_take_drop_id)
    also have "length \<dots> \<le> n" using length_filter_le [of ?P "take n (t # ts)"] by simp
    finally show ?thesis .
  qed (use IH in auto)
qed simp

section \<open>Accepted sequences\<close>

text \<open>A sequence of times, each accepted in the state that the ones before it leave.\<close>

fun accepted_chain :: "('c \<Rightarrow> 't \<Rightarrow> bool) \<Rightarrow> ('c \<Rightarrow> 't \<Rightarrow> 'c) \<Rightarrow> 'c \<Rightarrow> 't list \<Rightarrow> bool" where
  "accepted_chain acc rec c [] = True"
| "accepted_chain acc rec c (t # ts) = (acc c t \<and> accepted_chain acc rec (rec c t) ts)"

text \<open>The contract of one window: it holds at most \<open>cap\<close> entries, and it starts again at the first entry that comes
  \<open>len\<close> or more after its start. Only entries count: a start in the future is not an entry.\<close>

locale entry_window =
  fixes acc :: "'c \<Rightarrow> u64 \<Rightarrow> bool" and rec :: "'c \<Rightarrow> u64 \<Rightarrow> 'c"
    and start count :: "'c \<Rightarrow> nat" and len cap :: nat
  assumes room: "acc c t \<Longrightarrow> (if len \<le> unat t - start c then 0 else count c) < cap"
    and positive: "0 < len"
    and start_rec: "acc c t \<Longrightarrow> start (rec c t) = (if len \<le> unat t - start c \<or> count c = 0 then unat t else start c)"
    and count_rec: "acc c t \<Longrightarrow> count (rec c t) = Suc (if len \<le> unat t - start c then 0 else count c)"
begin

lemma count_bounds: "acc c t \<Longrightarrow> 1 \<le> count (rec c t) \<and> count (rec c t) \<le> cap"
  using room [of c t] by (auto simp: count_rec split: if_splits)

text \<open>A window with \<open>k\<close> entries is left after \<open>cap - k\<close> more.\<close>

lemma window_left:
  "accepted_chain acc rec c ts \<Longrightarrow> sorted (map unat ts) \<Longrightarrow> 1 \<le> count c \<Longrightarrow> cap - count c \<le> i \<Longrightarrow> i < length ts \<Longrightarrow>
   start c + len \<le> unat (ts ! i)"
proof (induction ts arbitrary: c i)
  case (Cons t ts)
  then have acc: "acc c t" and chain: "accepted_chain acc rec (rec c t) ts" and sorted: "sorted (map unat ts)" by auto
  have later: "unat t \<le> unat ((t # ts) ! i)" using Cons.prems(2,5) by (cases i) auto
  show ?case
  proof (cases "len \<le> unat t - start c")
    case True
    then show ?thesis using later positive by simp
  next
    case False
    then obtain j where j: "i = Suc j" using room [OF acc] Cons.prems(4) by (cases i) (auto split: if_splits)
    have "start (rec c t) = start c" "count (rec c t) = Suc (count c)"
      using False Cons.prems(3) by (simp_all add: start_rec [OF acc] count_rec [OF acc])
    then show ?thesis using Cons.IH [OF chain sorted, of j] Cons.prems(4,5) j by simp
  qed
qed simp

text \<open>An entry that is not the first of its window has at most \<open>2 * cap - 2\<close> more within \<open>len\<close>: the rest of its window
  and the whole of the next.\<close>

lemma next_window_left:
  "accepted_chain acc rec c ts \<Longrightarrow> sorted (t0 # map unat ts) \<Longrightarrow> 1 \<le> count c \<Longrightarrow> count c \<le> cap \<Longrightarrow>
   2 * cap - count c \<le> i \<Longrightarrow> i < length ts \<Longrightarrow> t0 + len \<le> unat (ts ! i)"
proof (induction ts arbitrary: c i)
  case (Cons t ts)
  then have acc: "acc c t" and chain: "accepted_chain acc rec (rec c t) ts" by auto
  obtain j where j: "i = Suc j" using Cons.prems(3-5) by (cases i) auto
  show ?case
  proof (cases "len \<le> unat t - start c")
    case True
    then have "start (rec c t) = unat t" "count (rec c t) = 1" by (simp_all add: start_rec [OF acc] count_rec [OF acc])
    then have "unat t + len \<le> unat (ts ! j)"
      using window_left [OF chain, of j] Cons.prems j by simp
    then show ?thesis using Cons.prems(2) j by simp
  next
    case False
    then have "count (rec c t) = Suc (count c)" by (simp add: count_rec [OF acc])
    then show ?thesis using Cons.IH [OF chain, of j] Cons.prems count_bounds [OF acc] j by simp
  qed
qed simp

lemma entries_apart:
  "accepted_chain acc rec c ts \<Longrightarrow> sorted (map unat ts) \<Longrightarrow> i + (2 * cap - 1) < length ts \<Longrightarrow>
   unat (ts ! i) + len \<le> unat (ts ! (i + (2 * cap - 1)))"
proof (induction ts arbitrary: c i)
  case (Cons t ts)
  then have acc: "acc c t" and chain: "accepted_chain acc rec (rec c t) ts" and sorted: "sorted (map unat ts)" by auto
  show ?case
  proof (cases i)
    case 0
    obtain m where m: "2 * cap - 1 = Suc m" using room [OF acc] by (cases "2 * cap - 1") auto
    have b: "1 \<le> count (rec c t)" "count (rec c t) \<le> cap" using count_bounds [OF acc] by auto
    have "unat t + len \<le> unat (ts ! m)"
    proof (cases "count (rec c t) = 1")
      case True
      then have "start (rec c t) = unat t" by (auto simp: start_rec [OF acc] count_rec [OF acc] split: if_splits)
      then show ?thesis using window_left [OF chain sorted b(1), of m] Cons.prems(3) 0 m True by simp
    next
      case False
      then show ?thesis using next_window_left [OF chain _ b, of "unat t" m] Cons.prems 0 m b by auto
    qed
    then show ?thesis using 0 m by simp
  next
    case (Suc j)
    then show ?thesis using Cons.IH [OF chain sorted, of j] Cons.prems(3) by simp
  qed
qed simp

lemma entries_in_window:
  assumes "accepted_chain acc rec c ts" "sorted (map unat ts)"
  shows "length (filter (\<lambda>t. w \<le> unat t \<and> unat t < w + len) ts) \<le> 2 * cap - 1"
  by (rule few_in_window [OF assms(2)]) (rule entries_apart [OF assms])

end

text \<open>Two entries next to each other are the minimal interval apart, so the times only grow.\<close>

lemma accepted_spaced:
  "accepted_chain (accepts b) counters_record c ts \<Longrightarrow> Suc i < length ts \<Longrightarrow>
   unat (ts ! i) + unat (pb_min_interval_ms b) \<le> unat (ts ! Suc i)"
proof (induction ts arbitrary: c i)
  case (Cons t ts)
  show ?case
  proof (cases i)
    case 0
    with Cons.prems obtain t' ts' where "ts = t' # ts'" "accepts b (counters_record c t) t'"
      by (cases ts) auto
    with 0 show ?thesis by (simp add: accepts_iff counters_record_starts)
  qed (use Cons in auto)
qed simp

lemma accepted_sorted: "accepted_chain (accepts b) counters_record c ts \<Longrightarrow> sorted (map unat ts)"
  by (auto simp: sorted_iff_nth_Suc dest!: accepted_spaced intro: add_leD1)

text \<open>The hour and the day are such windows, for every budget.\<close>

lemma room_below_max: "hour_room c t < unat (m :: u32) \<Longrightarrow> hour_room c t < 2 ^ 32 - 1"
  "day_room c t < unat m \<Longrightarrow> day_room c t < 2 ^ 32 - 1"
  using unat_le_max [of m] by simp_all

interpretation hour_window: entry_window "accepts b" counters_record
  "\<lambda>c. unat (rc_hour_started_at_ms c)" "\<lambda>c. unat (rc_hour_count c)" 3600000 "unat (pb_max_per_hour b)" for b
  by unfold_locales
    (auto simp: accepts_iff counters_record_starts counters_record_counts(1) [OF room_below_max(1)] hour_room_def
      split: if_splits)

interpretation day_window: entry_window "accepts b" counters_record
  "\<lambda>c. unat (rc_day_started_at_ms c)" "\<lambda>c. unat (rc_day_count c)" 86400000 "unat (pb_max_per_day b)" for b
  by unfold_locales
    (auto simp: accepts_iff counters_record_starts counters_record_counts(2) [OF room_below_max(2)] day_room_def
      split: if_splits)

section \<open>Properties\<close>

text \<open>A sequence of attempts: each is decided, and recorded when it is shown.\<close>

record proposal_attempt =
  at_kind :: proposal_kind
  at_mute_key :: string
  at_policy :: ambient_policy
  at_now_ms :: u64
  at_minute :: u32

definition attempt_step :: "proactivity_store \<Rightarrow> proactivity_registry \<Rightarrow> proposal_attempt \<Rightarrow> u64 option \<times> proactivity_registry" where
  "attempt_step store r a =
     (case registry_decide store (at_policy a) (at_minute a) (at_kind a) (at_mute_key a) (at_now_ms a) r of
        (Inr _, r') \<Rightarrow> (Some (at_now_ms a), snd (registry_commit (at_now_ms a) r'))
      | (Inl _, r') \<Rightarrow> (None, r'))"

fun shown_times :: "proactivity_store \<Rightarrow> proactivity_registry \<Rightarrow> proposal_attempt list \<Rightarrow> u64 list" where
  "shown_times store r [] = []"
| "shown_times store r (a # as) =
     (case attempt_step store r a of
        (Some t, r') \<Rightarrow> t # shown_times store r' as
      | (None, r') \<Rightarrow> shown_times store r' as)"

lemma ensure_loaded_idem: "pr_loaded r \<Longrightarrow> ensure_loaded store r = r"
  by (simp add: ensure_loaded_def load_needed_def)

lemma ensure_loaded_budget: "pr_budget (ensure_loaded store r) = pr_budget r"
  by (simp add: ensure_loaded_def load_apply_def split: option.split)

lemma registry_decide_Inr:
  "registry_decide store policy m kind key t r = (Inr a, r') \<Longrightarrow>
   r' = ensure_loaded store r \<and> accepts (pr_budget r) (pr_counters r') t \<and> key \<notin> set (pr_muted r')
   \<and> capture_allowed_at policy m"
  by (auto simp: registry_decide_def decide_section_def Let_def decide_proposal_Inr ensure_loaded_budget)

lemma attempt_step_loaded:
  assumes "pr_loaded r"
  shows "attempt_step store r a = (None, r)
    \<or> (accepts (pr_budget r) (pr_counters r) (at_now_ms a)
       \<and> attempt_step store r a = (Some (at_now_ms a), r\<lparr>pr_counters := counters_record (pr_counters r) (at_now_ms a)\<rparr>))"
proof (cases "registry_decide store (at_policy a) (at_minute a) (at_kind a) (at_mute_key a) (at_now_ms a) r")
  case (Pair res r')
  then have "r' = r" using assms by (simp add: registry_decide_def Let_def ensure_loaded_idem)
  then show ?thesis using Pair registry_decide_Inr [of store "at_policy a"]
    by (cases res) (auto simp: attempt_step_def registry_commit_def Let_def)
qed

lemma shown_chain:
  "pr_loaded r \<Longrightarrow> accepted_chain (accepts (pr_budget r)) counters_record (pr_counters r) (shown_times store r as)"
proof (induction as arbitrary: r)
  case (Cons a as)
  let ?r = "r\<lparr>pr_counters := counters_record (pr_counters r) (at_now_ms a)\<rparr>"
  show ?case
    using attempt_step_loaded [OF Cons.prems, of store a] Cons.IH [of r] Cons.IH [of ?r] Cons.prems by auto
qed simp

text \<open>C29: The ceiling of proactivity. Whatever is attempted, in whatever order the clock runs, and whatever counters the
  registry was loaded with: two proposals shown one after the other are the minimal interval apart, and no hour holds more
  than \<open>2 * max_per_hour - 1\<close> of them, no day more than \<open>2 * max_per_day - 1\<close>.\<close>

theorem proposals_ceiling:
  assumes "pr_loaded r" and ts_def: "ts = map unat (shown_times store r as)"
  shows "sorted_wrt (\<lambda>s t. s + unat (pb_min_interval_ms (pr_budget r)) \<le> t) ts
    \<and> length (filter (\<lambda>t. w \<le> t \<and> t < w + 3600000) ts) \<le> 2 * unat (pb_max_per_hour (pr_budget r)) - 1
    \<and> length (filter (\<lambda>t. w \<le> t \<and> t < w + 86400000) ts) \<le> 2 * unat (pb_max_per_day (pr_budget r)) - 1"
proof -
  note chain = shown_chain [OF assms(1), of store as]
  note sorted = accepted_sorted [OF chain]
  have "s + unat (pb_min_interval_ms (pr_budget r)) \<le> t" if ij: "i < j" "j < length ts" "s = ts ! i" "t = ts ! j" for s t i j
  proof -
    have "ts ! i + unat (pb_min_interval_ms (pr_budget r)) \<le> ts ! Suc i"
      using accepted_spaced [OF chain, of i] ij(1,2) by (simp add: ts_def)
    also have "ts ! Suc i \<le> ts ! j" using sorted_nth_mono [OF sorted, of "Suc i" j] ij(1,2) by (simp add: ts_def)
    finally show ?thesis using ij by simp
  qed
  then have "sorted_wrt (\<lambda>s t. s + unat (pb_min_interval_ms (pr_budget r)) \<le> t) ts" by (simp add: sorted_wrt_iff_nth_less)
  then show ?thesis
    using hour_window.entries_in_window [OF chain sorted, of w] day_window.entries_in_window [OF chain sorted, of w]
    by (simp add: ts_def filter_map o_def)
qed

definition plain_attempt :: "u64 \<Rightarrow> proposal_attempt" where
  "plain_attempt t = \<lparr>at_kind = Suggestion, at_mute_key = ''suggestion:tea'', at_policy = ambient_policy_default,
     at_now_ms = t, at_minute = 0\<rparr>"

definition loaded_with :: "u64 \<Rightarrow> u32 \<Rightarrow> u64 \<Rightarrow> u32 \<Rightarrow> u64 option \<Rightarrow> proactivity_registry" where
  "loaded_with h k d n l =
     \<lparr>pr_budget = proactivity_budget_default,
      pr_counters = \<lparr>rc_hour_started_at_ms = h, rc_hour_count = k, rc_day_started_at_ms = d, rc_day_count = n,
        rc_last_proposed_at_ms = l\<rparr>,
      pr_muted = [], pr_loaded = True\<rparr>"

definition no_store :: proactivity_store where
  "no_store = \<lparr>ps_counters = None, ps_mutes = None\<rparr>"

text \<open>The bound of the hour is reached: under the default budget of three an hour, five of the six proposals are shown
  within forty minutes.\<close>

theorem five_in_forty_minutes:
  "shown_times no_store (loaded_with 0 0 0 0 None)
     (map plain_attempt [6000000, 8400000, 9000000, 9600000, 10200000, 10800000])
   = [6000000, 8400000, 9000000, 9600000, 10200000, 10800000]"
proof -
  have "attempt_step no_store (loaded_with 0 0 0 0 None) (plain_attempt 6000000)
      = (Some 6000000, loaded_with 6000000 1 6000000 1 (Some 6000000))"
    "attempt_step no_store (loaded_with 6000000 1 6000000 1 (Some 6000000)) (plain_attempt 8400000)
      = (Some 8400000, loaded_with 6000000 2 6000000 2 (Some 8400000))"
    "attempt_step no_store (loaded_with 6000000 2 6000000 2 (Some 8400000)) (plain_attempt 9000000)
      = (Some 9000000, loaded_with 6000000 3 6000000 3 (Some 9000000))"
    "attempt_step no_store (loaded_with 6000000 3 6000000 3 (Some 9000000)) (plain_attempt 9600000)
      = (Some 9600000, loaded_with 9600000 1 6000000 4 (Some 9600000))"
    "attempt_step no_store (loaded_with 9600000 1 6000000 4 (Some 9600000)) (plain_attempt 10200000)
      = (Some 10200000, loaded_with 9600000 2 6000000 5 (Some 10200000))"
    "attempt_step no_store (loaded_with 9600000 2 6000000 5 (Some 10200000)) (plain_attempt 10800000)
      = (Some 10800000, loaded_with 9600000 3 6000000 6 (Some 10800000))"
    by code_simp+
  then show ?thesis by simp
qed

theorem proposals_ceiling_witness:
  "pr_loaded (loaded_with 0 0 0 0 None)
   \<and> length (filter (\<lambda>t. 8400000 \<le> t \<and> t < 8400000 + 3600000) (map unat (shown_times no_store (loaded_with 0 0 0 0 None)
       (map plain_attempt [6000000, 8400000])))) \<le> 5"
proof -
  have l: "pr_loaded (loaded_with 0 0 0 0 None)" by (simp add: loaded_with_def)
  have "2 * unat (pb_max_per_hour (pr_budget (loaded_with 0 0 0 0 None))) - 1 = 5"
    by (simp add: loaded_with_def proactivity_budget_default_def MAX_PROPOSALS_PER_HOUR_def)
  then show ?thesis
    using proposals_ceiling [OF l refl, where w = 8400000 and store = no_store and as = "map plain_attempt [6000000, 8400000]"] l
    by simp
qed

text \<open>A failed read of the storage is not a denial: the registry decides on, with no muted subject and empty counters.\<close>

theorem failed_load_decides:
  "fst (registry_decide \<lparr>ps_counters = None, ps_mutes = Some [''suggestion:tea'']\<rparr> ambient_policy_default 0 Suggestion
     ''suggestion:tea'' 6000000 proactivity_registry_default) = Inr (AuthorizedEffect ProposalCard)"
  by code_simp

subsection \<open>Muted subjects\<close>

lemma decide_section_muted: "key \<in> set (pr_muted r) \<Longrightarrow> decide_section policy m kind key t r = Inl RejectMuted"
  by (cases kind) (simp_all add: decide_section_def decide_proposal_def authorize_proactive_def is_proactively_allowed_def)

lemma mute_insert_sel [simp]:
  "set (pr_muted (mute_insert key r)) = insert key (set (pr_muted r))" "pr_loaded (mute_insert key r) = pr_loaded r"
  "pr_budget (mute_insert key r) = pr_budget r" "pr_counters (mute_insert key r) = pr_counters r"
  by (simp_all add: mute_insert_def)

lemma load_apply_sel [simp]:
  "pr_muted (load_apply c ms r) = ms" "pr_loaded (load_apply c ms r)" "pr_budget (load_apply c ms r) = pr_budget r"
  by (simp_all add: load_apply_def)

subsection \<open>Keys\<close>

definition slug_ok :: "char \<Rightarrow> bool" where
  "slug_ok c \<longleftrightarrow> CHR ''0'' \<le> c \<and> c \<le> CHR ''9'' \<or> CHR ''a'' \<le> c \<and> c \<le> CHR ''z'' \<or> c = CHR ''-''"

lemma slug_ok_id: "slug_ok c \<Longrightarrow> id_char c \<and> c \<noteq> CHR '':''"
  by (auto simp: slug_ok_def id_char_def)

lemma slug_ok_hyphen: "slug_ok (CHR ''-'')"
  by (simp add: slug_ok_def)

lemma slug_ok_lowercase:
  assumes "ascii_alphanumeric ch"
  obtains c where "map ascii_lowercase ch = [c]" "slug_ok c"
proof -
  obtain a where a: "ch = [a]"
    "CHR ''0'' \<le> a \<and> a \<le> CHR ''9'' \<or> CHR ''A'' \<le> a \<and> a \<le> CHR ''Z'' \<or> CHR ''a'' \<le> a \<and> a \<le> CHR ''z''"
    using assms by (auto simp: ascii_alphanumeric_def split: list.splits)
  then have "slug_ok (ascii_lowercase a)"
    by (auto simp: ascii_lowercase_def slug_ok_def less_eq_char_def)
  with a that show ?thesis by simp
qed

lemma slug_loop_ok:
  "list_all slug_ok slug \<Longrightarrow> length slug < 64 \<Longrightarrow>
   list_all slug_ok (slug_loop chs slug pending) \<and> length (slug_loop chs slug pending) \<le> 65"
proof (induction chs arbitrary: slug pending)
  case (Cons ch chs)
  show ?case
  proof (cases "ascii_alphanumeric ch")
    case True
    then obtain c where c: "map ascii_lowercase ch = [c]" "slug_ok c" by (rule slug_ok_lowercase)
    define slug' where "slug' = (if pending \<and> slug \<noteq> [] then slug @ ''-'' else slug) @ [c]"
    have ok: "list_all slug_ok slug'" "length slug' \<le> 65"
      using Cons.prems c slug_ok_hyphen by (auto simp: slug'_def)
    have "slug_loop (ch # chs) slug pending = (if 64 \<le> length slug' then slug' else slug_loop chs slug' False)"
      using True c by (simp add: slug'_def MAX_SUBJECT_KEY_BYTES_def)
    then show ?thesis using ok Cons.IH [OF ok(1), of False] by simp
  next
    case False
    then show ?thesis using Cons by (simp add: MAX_SUBJECT_KEY_BYTES_def)
  qed
qed simp

lemma hex_digit_ok: "slug_ok (hex_digit n)"
proof -
  have "slug_ok (''0123456789abcdef'' ! i)" if "i < 16" for i
  proof -
    have "list_all slug_ok ''0123456789abcdef''" by code_simp
    then show ?thesis using that unfolding list_all_length by simp
  qed
  then show ?thesis by (simp add: hex_digit_def)
qed

lemma hex_bytes_ok: "list_all slug_ok (concat (map hex_byte bs)) \<and> length (concat (map hex_byte bs)) = 2 * length bs"
proof (induction bs)
  case (Cons b bs)
  have "list_all slug_ok (hex_byte b) \<and> length (hex_byte b) = 2" by (simp add: hex_byte_def hex_digit_ok)
  with Cons show ?case by simp
qed simp

lemma fingerprint_ok: "list_all slug_ok (fingerprint U sha256 s) \<and> length (fingerprint U sha256 s) \<le> 16"
proof -
  have "length (take 8 xs) \<le> 8" for xs :: "u8 list" by simp
  then show ?thesis unfolding fingerprint_def using hex_bytes_ok by (metis mult_le_mono2 mult_2 numeral_Bit0)
qed

lemma slug_is_id:
  assumes "list_all slug_ok v" "v \<noteq> []" "length v \<le> 128"
  shows "bounded_id_new field v = Inr v" "is_id v"
proof -
  have "list_all id_char v" using assms(1) by (rule list.pred_mono_strong) (simp add: slug_ok_id)
  with assms show "is_id v" by (intro is_id_intro)
  then show "bounded_id_new field v = Inr v" by (simp add: is_id_field)
qed

lemma subject_key_slug_ex:
  "\<exists>key. subject_key U sha256 subject = Some key \<and> is_id key \<and> length key \<le> 65 \<and> list_all slug_ok key"
proof -
  define slug0 where "slug0 = slug_loop (utf8_chars (str_trim U subject)) [] False"
  have s0: "list_all slug_ok slug0" "length slug0 \<le> 65" using slug_loop_ok [of "[]"] by (simp_all add: slug0_def)
  define slug where "slug = (if slug0 = [] then fingerprint U sha256 subject else slug0)"
  have s: "list_all slug_ok slug" "length slug \<le> 65" using s0 fingerprint_ok [of U sha256 subject] by (auto simp: slug_def)
  show ?thesis
  proof (cases "slug = []")
    case False
    then show ?thesis
      using slug_is_id [OF s(1) False] s
      by (simp add: subject_key_def slug0_def [symmetric] slug_def [symmetric])
  next
    case True
    then have f: "fingerprint U sha256 subject = []" "slug0 = []" by (auto simp: slug_def split: if_splits)
    have "bounded_id_new ''subject_key'' [] = Inl (EmptyField ''subject_key'')"
      "bounded_id_new ''subject_key'' ''invalid-subject'' = Inr ''invalid-subject''" "is_id ''invalid-subject''"
      "list_all slug_ok ''invalid-subject''" by code_simp+
    with f show ?thesis by (simp add: subject_key_def slug0_def [symmetric])
  qed
qed

lemma subject_key_slug: "subject_key U sha256 subject = Some key \<Longrightarrow> list_all slug_ok key"
  using subject_key_slug_ex [of U sha256 subject] by auto

text \<open>C36: \<open>subject_key\<close> never reaches its \<open>unreachable!\<close>, for every subject and every hash: its result is an identifier the
  contract accepts, of at most 65 bytes, made of lower-case letters, digits and hyphens only.\<close>

theorem subject_key_total:
  "\<exists>key. subject_key U sha256 subject = Some key \<and> is_id key \<and> length key \<le> 65 \<and> list_all slug_ok key"
  by (rule subject_key_slug_ex)

lemma slug_no_colon: "list_all slug_ok v \<Longrightarrow> CHR '':'' \<notin> set v"
  by (auto simp: list_all_iff dest: slug_ok_id)

lemma append_colon_inject:
  "CHR '':'' \<notin> set a \<Longrightarrow> CHR '':'' \<notin> set c \<Longrightarrow> a @ CHR '':'' # b = c @ CHR '':'' # d \<longleftrightarrow> a = c \<and> b = d"
proof (induction a arbitrary: c)
  case Nil
  then show ?case by (cases c) auto
next
  case (Cons x a)
  then show ?case by (cases c) auto
qed

lemma proposal_kind_as_str_inject: "proposal_kind_as_str k = proposal_kind_as_str k' \<longleftrightarrow> k = k'"
  by (cases k; cases k') simp_all

lemma proposal_kind_no_colon: "CHR '':'' \<notin> set (proposal_kind_as_str k)"
  by (cases k) simp_all

lemma show_word_inject: "show_word v = show_word w \<longleftrightarrow> v = w"
  using show_word_inj by blast

text \<open>Two proposals have one key exactly when they are of one kind, on one subject key, in one hour of the clock, and
  one mute key exactly when they are of one kind on one subject key: the mute key leaves out the hour and nothing else.\<close>

theorem proposal_keys_exact:
  assumes "subject_key U sha256 a = Some ka" "subject_key U sha256 b = Some kb"
  shows "(proposal_key k ka s = proposal_key k' kb t \<longleftrightarrow> mute_key k ka = mute_key k' kb \<and> s div HOUR_MS = t div HOUR_MS)
    \<and> (mute_key k ka = mute_key k' kb \<longleftrightarrow> k = k' \<and> ka = kb)"
proof -
  have "CHR '':'' \<notin> set ka" "CHR '':'' \<notin> set kb"
    using assms subject_key_slug slug_no_colon by blast+
  then show ?thesis
    by (simp add: proposal_key_def mute_key_def append_colon_inject proposal_kind_no_colon proposal_kind_as_str_inject
        show_word_inject PROPOSAL_BUCKET_MS_def HOUR_MS_def)
qed

theorem proposal_keys_exact_witness:
  "subject_key plain_unicode (\<lambda>_. []) ''Green tea'' = Some ''green-tea''
   \<and> (proposal_key Reminder ''green-tea'' 1 = proposal_key Reminder ''green-tea'' 3599999 \<longleftrightarrow>
      (1 :: u64) div HOUR_MS = 3599999 div HOUR_MS)"
proof -
  have k: "subject_key plain_unicode (\<lambda>_. []) ''Green tea'' = Some ''green-tea''" by code_simp
  from proposal_keys_exact [OF k k, of Reminder 1 Reminder 3599999] k show ?thesis by simp
qed

subsection \<open>The stored row\<close>

lemma i64_u64_round_trip: "uint w \<le> i64_max \<Longrightarrow> word_of_int (max 0 (i64_from_u64 w)) = w"
  by (simp add: i64_from_u64_def max_def)

text \<open>What \<open>commit\<close> saves is what \<open>ensure_loaded\<close> reads back, for times below \<open>i64::MAX\<close>.\<close>

theorem counters_row_round_trip:
  assumes "uint (rc_hour_started_at_ms c) \<le> i64_max" "uint (rc_day_started_at_ms c) \<le> i64_max"
    "\<And>l. rc_last_proposed_at_ms c = Some l \<Longrightarrow> uint l \<le> i64_max"
  shows "counters_from_row (counters_to_row c) = c"
proof -
  have "map_option (\<lambda>v. word_of_int (max 0 v)) (map_option i64_from_u64 (rc_last_proposed_at_ms c)) = rc_last_proposed_at_ms c"
    using assms(3) by (cases "rc_last_proposed_at_ms c") (simp_all add: i64_u64_round_trip)
  then show ?thesis using assms(1,2)
    by (simp add: counters_from_row_def counters_to_row_def i64_u64_round_trip)
qed

end
