(* ===== verification/Ambient_Proposals.thy ===== *)
theory Ambient_Proposals
  imports Ambient_Proactivity
begin

text \<open>
  The way of a proposal to its card: \<open>propose_from_ambient\<close> of \<open>crates/evohime-core/src/core_agent_memory.rs\<close>, the tables of
  proposals, muted keys and counters of \<open>crates/evohime-local-storage/src/ambient_store.rs\<close> with the rules of
  \<open>ambient_contract.rs\<close> and of the schema \<open>migrations/v026.rs\<close>, and every order in which the sections of concurrent calls can run: the
  registry and the database each have a lock that a call holds for one section at a time. A table is the list of its rows; a failure of
  SQLite, which rolls the statement or the transaction back, is the argument \<open>fails\<close>. SHA-256, the text of a time and the random
  identifier of a proposal are arguments.
\<close>

section \<open>The tables\<close>

definition STORE_MAX_ID_BYTES :: nat where "STORE_MAX_ID_BYTES = 256"
definition MAX_TIMESTAMP_BYTES :: nat where "MAX_TIMESTAMP_BYTES = 64"
definition MAX_TITLE_BYTES :: nat where "MAX_TITLE_BYTES = 2 * 1024"
definition MAX_ROWS_PER_READ :: nat where "MAX_ROWS_PER_READ = 500"

datatype ambient_store_error =
    StoreEmpty string | StoreLimit string nat | StoreInvalidSpeaker | StoreInvalidInitialCounters | StoreInvalidReason
  | StoreNegative string | StoreSqlite | StoreInvalidSourceDeletion | StoreInvalidInitialState

definition store_error_code :: "ambient_store_error \<Rightarrow> ambient_error_code" where
  "store_error_code e = (case e of StoreSqlite \<Rightarrow> CodeStorageFailed | _ \<Rightarrow> InvalidArgument)"

record ambient_proposal_record =
  apr_proposal_id :: string
  apr_proposal_key :: string
  apr_mute_key :: string
  apr_kind :: proposal_kind
  apr_subject_key :: string
  apr_subject :: string
  apr_title :: string
  apr_source_episode_id :: "string option"
  apr_source_deleted_at :: "string option"
  apr_source_deleted_reason :: "string option"
  apr_created_at :: string
  apr_updated_at :: string
  apr_expires_at :: string
  apr_occurrences :: i64
  apr_state :: proposal_state
  apr_accepted_task_id :: "string option"
  apr_idempotency_key :: "string option"

datatype proposal_insert = InsertCreated | InsertDuplicate string i64 | InsertMuted

definition validate_required :: "unicode \<Rightarrow> string \<Rightarrow> string \<Rightarrow> nat \<Rightarrow> ambient_store_error option" where
  "validate_required U field text limit =
     (if str_trim U text = [] then Some (StoreEmpty field) else if length text > limit then Some (StoreLimit field limit) else None)"

definition validate_non_negative :: "string \<Rightarrow> i64 \<Rightarrow> ambient_store_error option" where
  "validate_non_negative field n = (if n < 0 then Some (StoreNegative field) else None)"

text \<open>The first failing check of a chain of checks that each return early.\<close>

fun first_failure :: "'e option list \<Rightarrow> 'e option" where
  "first_failure [] = None"
| "first_failure (None # checks) = first_failure checks"
| "first_failure (Some e # checks) = Some e"

definition proposal_record_validate :: "unicode \<Rightarrow> ambient_proposal_record \<Rightarrow> ambient_store_error option" where
  "proposal_record_validate U r = first_failure
     [validate_required U ''proposal_id'' (apr_proposal_id r) STORE_MAX_ID_BYTES,
      validate_required U ''proposal_key'' (apr_proposal_key r) STORE_MAX_ID_BYTES,
      validate_required U ''mute_key'' (apr_mute_key r) STORE_MAX_ID_BYTES,
      validate_required U ''subject_key'' (apr_subject_key r) STORE_MAX_ID_BYTES,
      validate_required U ''subject'' (apr_subject r) MAX_TITLE_BYTES,
      validate_required U ''title'' (apr_title r) MAX_TITLE_BYTES,
      validate_required U ''created_at'' (apr_created_at r) MAX_TIMESTAMP_BYTES,
      validate_required U ''updated_at'' (apr_updated_at r) MAX_TIMESTAMP_BYTES,
      validate_required U ''expires_at'' (apr_expires_at r) MAX_TIMESTAMP_BYTES,
      (case apr_source_episode_id r of None \<Rightarrow> None | Some e \<Rightarrow> validate_required U ''source_episode_id'' e STORE_MAX_ID_BYTES),
      (if (apr_source_deleted_at r = None) \<noteq> (apr_source_deleted_reason r = None) then Some StoreInvalidSourceDeletion else None),
      validate_non_negative ''occurrences'' (apr_occurrences r),
      (if apr_state r \<noteq> ProposalProposed then Some StoreInvalidInitialState else None)]"

record proposal_mute =
  pm_mute_key :: string
  pm_kind :: proposal_kind
  pm_subject_key :: string
  pm_muted_at :: string

record proposal_tables =
  pt_proposals :: "ambient_proposal_record list"
  pt_mutes :: "proposal_mute list"
  pt_counters :: "counters_row option"

text \<open>The insertion fails on a second row with the identifier or, unless it is null, the idempotency key of another; the key of the
  proposal is unique because the query before finds such a row.\<close>

definition insert_conflicts :: "ambient_proposal_record \<Rightarrow> ambient_proposal_record list \<Rightarrow> bool" where
  "insert_conflicts r rows \<longleftrightarrow> list_ex (\<lambda>p. apr_proposal_id p = apr_proposal_id r
     \<or> apr_idempotency_key r \<noteq> None \<and> apr_idempotency_key p = apr_idempotency_key r) rows"

definition record_proposal ::
    "unicode \<Rightarrow> bool \<Rightarrow> ambient_proposal_record \<Rightarrow> proposal_tables \<Rightarrow> (ambient_store_error + proposal_insert) \<times> proposal_tables" where
  "record_proposal U fails r t =
     (case proposal_record_validate U r of Some e \<Rightarrow> (Inl e, t)
      | None \<Rightarrow>
          if fails then (Inl StoreSqlite, t)
          else if list_ex (\<lambda>m. pm_mute_key m = apr_mute_key r) (pt_mutes t) then (Inr InsertMuted, t)
          else case find (\<lambda>p. apr_proposal_key p = apr_proposal_key r) (pt_proposals t) of
            Some p \<Rightarrow>
              (let occurrences = min i64_max (apr_occurrences p + 1) in
               (Inr (InsertDuplicate (apr_proposal_id p) occurrences),
                t\<lparr>pt_proposals := map (\<lambda>q. if apr_proposal_id q = apr_proposal_id p
                    then q\<lparr>apr_occurrences := occurrences, apr_updated_at := apr_updated_at r\<rparr> else q) (pt_proposals t)\<rparr>))
          | None \<Rightarrow>
              if insert_conflicts r (pt_proposals t) then (Inl StoreSqlite, t)
              else (Inr InsertCreated, t\<lparr>pt_proposals := pt_proposals t @ [r\<lparr>apr_occurrences := max (apr_occurrences r) 1\<rparr>]\<rparr>))"

definition resolve_proposal ::
    "unicode \<Rightarrow> bool \<Rightarrow> string \<Rightarrow> proposal_state \<Rightarrow> string \<Rightarrow> string option \<Rightarrow> string option \<Rightarrow> proposal_tables
     \<Rightarrow> (ambient_store_error + bool) \<times> proposal_tables" where
  "resolve_proposal U fails proposal_id state updated_at accepted_task_id idempotency_key t =
     (case first_failure
        [validate_required U ''proposal_id'' proposal_id STORE_MAX_ID_BYTES,
         validate_required U ''updated_at'' updated_at MAX_TIMESTAMP_BYTES,
         (case idempotency_key of None \<Rightarrow> None | Some key \<Rightarrow> validate_required U ''idempotency_key'' key STORE_MAX_ID_BYTES),
         (if \<not> proposal_is_terminal state then Some StoreInvalidInitialState else None)] of
        Some e \<Rightarrow> (Inl e, t)
      | None \<Rightarrow>
          (let open_row = (\<lambda>p. apr_proposal_id p = proposal_id \<and> apr_state p = ProposalProposed) in
           if fails \<or> list_ex open_row (pt_proposals t) \<and> idempotency_key \<noteq> None
             \<and> list_ex (\<lambda>p. \<not> open_row p \<and> apr_idempotency_key p = idempotency_key) (pt_proposals t)
           then (Inl StoreSqlite, t)
           else (Inr (list_ex open_row (pt_proposals t)),
                 t\<lparr>pt_proposals := map (\<lambda>p. if open_row p
                     then p\<lparr>apr_state := state, apr_updated_at := updated_at, apr_accepted_task_id := accepted_task_id,
                            apr_idempotency_key := idempotency_key\<rparr> else p) (pt_proposals t)\<rparr>)))"

definition mute_subject ::
    "unicode \<Rightarrow> bool \<Rightarrow> string \<Rightarrow> proposal_kind \<Rightarrow> string \<Rightarrow> string \<Rightarrow> proposal_tables \<Rightarrow> (ambient_store_error + unit) \<times> proposal_tables" where
  "mute_subject U fails key kind subject muted_at t =
     (case first_failure
        [validate_required U ''mute_key'' key STORE_MAX_ID_BYTES,
         validate_required U ''subject_key'' subject STORE_MAX_ID_BYTES,
         validate_required U ''muted_at'' muted_at MAX_TIMESTAMP_BYTES] of
        Some e \<Rightarrow> (Inl e, t)
      | None \<Rightarrow>
          if fails then (Inl StoreSqlite, t)
          else (Inr (), t\<lparr>pt_mutes :=
            (if list_ex (\<lambda>m. pm_mute_key m = key) (pt_mutes t)
             then map (\<lambda>m. if pm_mute_key m = key then m\<lparr>pm_muted_at := muted_at\<rparr> else m) (pt_mutes t)
             else pt_mutes t @ [\<lparr>pm_mute_key = key, pm_kind = kind, pm_subject_key = subject, pm_muted_at = muted_at\<rparr>])\<rparr>))"

definition list_mute_keys :: "proposal_tables \<Rightarrow> string list" where
  "list_mute_keys t = take MAX_ROWS_PER_READ (sort (map pm_mute_key (pt_mutes t)))"

definition expire_rows :: "string \<Rightarrow> ambient_proposal_record list \<Rightarrow> ambient_proposal_record list" where
  "expire_rows now rows = map (\<lambda>p. if apr_state p = ProposalProposed \<and> apr_expires_at p \<le> now
     then p\<lparr>apr_state := ProposalExpired, apr_updated_at := now\<rparr> else p) rows"

definition expire_stale_proposals :: "unicode \<Rightarrow> bool \<Rightarrow> string \<Rightarrow> proposal_tables \<Rightarrow> (ambient_store_error + nat) \<times> proposal_tables" where
  "expire_stale_proposals U fails now t =
     (case validate_required U ''now'' now MAX_TIMESTAMP_BYTES of Some e \<Rightarrow> (Inl e, t)
      | None \<Rightarrow>
          if fails then (Inl StoreSqlite, t)
          else (Inr (length (filter (\<lambda>p. apr_state p = ProposalProposed \<and> apr_expires_at p \<le> now) (pt_proposals t))),
                t\<lparr>pt_proposals := expire_rows now (pt_proposals t)\<rparr>))"

text \<open>The part of the retention run that concerns proposals.\<close>

definition purge_proposals :: "string \<Rightarrow> string \<Rightarrow> proposal_tables \<Rightarrow> proposal_tables" where
  "purge_proposals now event_cutoff t =
     t\<lparr>pt_proposals := filter (\<lambda>p. \<not> (apr_state p \<noteq> ProposalProposed \<and> apr_updated_at p \<le> event_cutoff))
         (expire_rows now (pt_proposals t))\<rparr>"

text \<open>The deletion of an episode: its proposals expire, whatever their state, and lose the reference to it by \<open>ON DELETE SET NULL\<close>.\<close>

definition expire_proposals_of_episode :: "string \<Rightarrow> string \<Rightarrow> proposal_tables \<Rightarrow> proposal_tables" where
  "expire_proposals_of_episode episode_id removed_at t =
     t\<lparr>pt_proposals := map (\<lambda>p. if apr_source_episode_id p = Some episode_id
         then p\<lparr>apr_state := ProposalExpired, apr_updated_at := removed_at, apr_source_deleted_at := Some removed_at,
                apr_source_deleted_reason := Some ''source_deleted''\<rparr> else p) (pt_proposals t)\<rparr>"

definition detach_episode :: "string \<Rightarrow> proposal_tables \<Rightarrow> proposal_tables" where
  "detach_episode episode_id t =
     t\<lparr>pt_proposals := map (\<lambda>p. if apr_source_episode_id p = Some episode_id then p\<lparr>apr_source_episode_id := None\<rparr> else p)
         (pt_proposals t)\<rparr>"

definition save_counters :: "bool \<Rightarrow> counters_row \<Rightarrow> proposal_tables \<Rightarrow> (ambient_store_error + unit) \<times> proposal_tables" where
  "save_counters fails row t =
     (case first_failure [validate_non_negative ''hour_count'' (row_hour_count row), validate_non_negative ''day_count'' (row_day_count row)] of
        Some e \<Rightarrow> (Inl e, t)
      | None \<Rightarrow> if fails then (Inl StoreSqlite, t) else (Inr (), t\<lparr>pt_counters := Some row\<rparr>))"

section \<open>From what was heard to a record\<close>

datatype memory_kind = MkPreference | MkConstraint | MkDecision | MkEntity | MkLesson | MkSessionSummary

definition ambient_proposal_kind :: "memory_kind \<Rightarrow> proposal_kind option" where
  "ambient_proposal_kind kind = (case kind of MkDecision \<Rightarrow> Some Suggestion | MkConstraint \<Rightarrow> Some Reminder | _ \<Rightarrow> None)"

text \<open>What \<open>propose_from_ambient\<close> reads of a candidate.\<close>

record heard_candidate =
  hc_kind :: memory_kind
  hc_statement :: string
  hc_canonical_subject :: string

record proposal_env =
  av_unicode :: unicode
  av_sha256 :: "string \<Rightarrow> u8 list"
  av_timestamp_ms :: "u64 \<Rightarrow> string"

definition proposal_record ::
    "(u64 \<Rightarrow> string) \<Rightarrow> string \<Rightarrow> string \<Rightarrow> string \<Rightarrow> proposal_kind \<Rightarrow> string \<Rightarrow> string \<Rightarrow> string \<Rightarrow> string option \<Rightarrow> u64
     \<Rightarrow> ambient_proposal_record" where
  "proposal_record timestamp_ms proposal_id pkey mkey kind skey subject title source_episode_id now_ms =
     \<lparr>apr_proposal_id = proposal_id, apr_proposal_key = pkey, apr_mute_key = mkey, apr_kind = kind,
      apr_subject_key = skey, apr_subject = subject, apr_title = title, apr_source_episode_id = source_episode_id,
      apr_source_deleted_at = None, apr_source_deleted_reason = None, apr_created_at = timestamp_ms now_ms,
      apr_updated_at = timestamp_ms now_ms, apr_expires_at = timestamp_ms (sat_add now_ms PROPOSAL_LIFETIME_MS),
      apr_occurrences = 1, apr_state = ProposalProposed, apr_accepted_task_id = None, apr_idempotency_key = None\<rparr>"

text \<open>The record a candidate leads to, up to the decision; \<open>None\<close> when the candidate is no proposal. The branch of
  \<open>subject_key\<close> that panics is never reached (\<open>subject_key_total\<close>).\<close>

definition heard_proposal :: "proposal_env \<Rightarrow> string \<Rightarrow> string \<Rightarrow> heard_candidate \<Rightarrow> u64 \<Rightarrow> ambient_proposal_record option" where
  "heard_proposal E proposal_id episode_id candidate now_ms =
     (case ambient_proposal_kind (hc_kind candidate) of None \<Rightarrow> None
      | Some kind \<Rightarrow>
          if str_trim (av_unicode E) (hc_statement candidate) = [] then None
          else map_option (\<lambda>key. proposal_record (av_timestamp_ms E) proposal_id (proposal_key kind key now_ms) (mute_key kind key) kind key
                 (hc_canonical_subject candidate) (hc_statement candidate) (Some episode_id) now_ms)
               (subject_key (av_unicode E) (av_sha256 E) (hc_canonical_subject candidate)))"

section \<open>The sections of concurrent calls\<close>

text \<open>How far a call of \<open>ensure_loaded\<close> has come that found the registry not loaded.\<close>

datatype load_stage =
    LoadStarted | LoadedCounters "counters_row option" | LoadedMutes "counters_row option" "string list"

text \<open>The registry, the database, and the calls between two of their sections: loads, proposals that were authorized and not yet
  written, cards not yet counted, counters not yet saved, and keys that are stored and not yet in the registry.\<close>

record proposal_system =
  sy_registry :: proactivity_registry
  sy_tables :: proposal_tables
  sy_loads :: "load_stage list"
  sy_authorized :: "(ambient_proposal_record \<times> u64) list"
  sy_created :: "u64 list"
  sy_saves :: "counters_row list"
  sy_muting :: "string list"

definition system_new :: "proposal_tables \<Rightarrow> proposal_system" where
  "system_new t = \<lparr>sy_registry = proactivity_registry_default, sy_tables = t, sy_loads = [], sy_authorized = [], sy_created = [],
     sy_saves = [], sy_muting = []\<rparr>"

text \<open>The sections, with the number of the call among those at that point and whether the storage fails. \<open>SecDecide\<close> has the policy
  and the minute that were read, the identifiers, the candidate and the time.\<close>

datatype proposal_section =
    SecLoadCheck | SecLoadCounters nat bool | SecLoadMutes nat bool | SecLoadApply nat
  | SecDecide ambient_policy u32 string string heard_candidate u64
  | SecRecord nat bool | SecCommit nat | SecSave nat bool
  | SecMuteStore string proposal_kind string u64 bool | SecMuteInsert nat
  | SecResolve string proposal_state u64 "string option" "string option" bool
  | SecExpire u64 bool | SecForget string string | SecPurge string string | SecRestart

datatype proposal_event =
    EvDecided string "proposal_rejection + authorized_effect"
  | EvRecorded ambient_proposal_record "ambient_store_error + proposal_insert"

definition remove_at :: "nat \<Rightarrow> 'a list \<Rightarrow> 'a list" where
  "remove_at i xs = take i xs @ drop (Suc i) xs"

text \<open>A load whose read fails has no effect: the call returns. A section for a call that is not at that point does nothing.\<close>

fun section_step :: "proposal_env \<Rightarrow> proposal_section \<Rightarrow> proposal_system \<Rightarrow> proposal_event option \<times> proposal_system" where
  "section_step E SecLoadCheck s =
     (None, if load_needed (sy_registry s) then s\<lparr>sy_loads := sy_loads s @ [LoadStarted]\<rparr> else s)"
| "section_step E (SecLoadCounters i fails) s =
     (None, if i < length (sy_loads s) \<and> sy_loads s ! i = LoadStarted
            then s\<lparr>sy_loads := (if fails then remove_at i (sy_loads s) else (sy_loads s)[i := LoadedCounters (pt_counters (sy_tables s))])\<rparr>
            else s)"
| "section_step E (SecLoadMutes i fails) s =
     (None, if i < length (sy_loads s)
            then case sy_loads s ! i of
                LoadedCounters c \<Rightarrow>
                  s\<lparr>sy_loads := (if fails then remove_at i (sy_loads s) else (sy_loads s)[i := LoadedMutes c (list_mute_keys (sy_tables s))])\<rparr>
              | _ \<Rightarrow> s
            else s)"
| "section_step E (SecLoadApply i) s =
     (None, if i < length (sy_loads s)
            then case sy_loads s ! i of
                LoadedMutes c keys \<Rightarrow> s\<lparr>sy_registry := load_apply c keys (sy_registry s), sy_loads := remove_at i (sy_loads s)\<rparr>
              | _ \<Rightarrow> s
            else s)"
| "section_step E (SecDecide policy minute_of_day proposal_id episode_id candidate now_ms) s =
     (case heard_proposal E proposal_id episode_id candidate now_ms of None \<Rightarrow> (None, s)
      | Some r \<Rightarrow>
          (let decision = decide_section policy minute_of_day (apr_kind r) (apr_mute_key r) now_ms (sy_registry s) in
           (Some (EvDecided (apr_mute_key r) decision),
            case decision of Inr _ \<Rightarrow> s\<lparr>sy_authorized := sy_authorized s @ [(r, now_ms)]\<rparr> | Inl _ \<Rightarrow> s)))"
| "section_step E (SecRecord i fails) s =
     (if i < length (sy_authorized s)
      then (let (r, now_ms) = sy_authorized s ! i; (result, t) = record_proposal (av_unicode E) fails r (sy_tables s) in
            (Some (EvRecorded r result),
             s\<lparr>sy_tables := t, sy_authorized := remove_at i (sy_authorized s),
               sy_created := (if result = Inr InsertCreated then sy_created s @ [now_ms] else sy_created s)\<rparr>))
      else (None, s))"
| "section_step E (SecCommit i) s =
     (None, if i < length (sy_created s)
            then let (row, r) = registry_commit (sy_created s ! i) (sy_registry s) in
                 s\<lparr>sy_registry := r, sy_created := remove_at i (sy_created s), sy_saves := sy_saves s @ [row]\<rparr>
            else s)"
| "section_step E (SecSave i fails) s =
     (None, if i < length (sy_saves s)
            then s\<lparr>sy_tables := snd (save_counters fails (sy_saves s ! i) (sy_tables s)), sy_saves := remove_at i (sy_saves s)\<rparr>
            else s)"
| "section_step E (SecMuteStore key kind subject now_ms fails) s =
     (None, case mute_subject (av_unicode E) fails key kind subject (av_timestamp_ms E now_ms) (sy_tables s) of
          (Inl _, t) \<Rightarrow> s\<lparr>sy_tables := t\<rparr> | (Inr _, t) \<Rightarrow> s\<lparr>sy_tables := t, sy_muting := sy_muting s @ [key]\<rparr>)"
| "section_step E (SecMuteInsert i) s =
     (None, if i < length (sy_muting s)
            then s\<lparr>sy_registry := mute_insert (sy_muting s ! i) (sy_registry s), sy_muting := remove_at i (sy_muting s)\<rparr>
            else s)"
| "section_step E (SecResolve proposal_id state now_ms task key fails) s =
     (None, s\<lparr>sy_tables := snd (resolve_proposal (av_unicode E) fails proposal_id state (av_timestamp_ms E now_ms) task key (sy_tables s))\<rparr>)"
| "section_step E (SecExpire now_ms fails) s =
     (None, s\<lparr>sy_tables := snd (expire_stale_proposals (av_unicode E) fails (av_timestamp_ms E now_ms) (sy_tables s))\<rparr>)"
| "section_step E (SecForget episode_id removed_at) s =
     (None, s\<lparr>sy_tables := detach_episode episode_id (expire_proposals_of_episode episode_id removed_at (sy_tables s))\<rparr>)"
| "section_step E (SecPurge now event_cutoff) s = (None, s\<lparr>sy_tables := purge_proposals now event_cutoff (sy_tables s)\<rparr>)"
| "section_step E SecRestart s = (None, system_new (sy_tables s))"

fun section_run :: "proposal_env \<Rightarrow> proposal_section list \<Rightarrow> proposal_system \<Rightarrow> proposal_event list \<times> proposal_system" where
  "section_run E [] s = ([], s)"
| "section_run E (sec # secs) s =
     (case section_step E sec s of (ev, s1) \<Rightarrow>
        (case section_run E secs s1 of (evs, s2) \<Rightarrow> ((case ev of None \<Rightarrow> evs | Some e \<Rightarrow> e # evs), s2)))"

text \<open>The sections of one load with nothing between them are \<open>ensure_loaded\<close>.\<close>

lemma load_sections_ensure_loaded:
  assumes "sy_loads s = []"
  shows "snd (section_run E [SecLoadCheck, SecLoadCounters 0 False, SecLoadMutes 0 False, SecLoadApply 0] s)
    = s\<lparr>sy_registry := ensure_loaded \<lparr>ps_counters = Some (pt_counters (sy_tables s)), ps_mutes = Some (list_mute_keys (sy_tables s))\<rparr>
          (sy_registry s)\<rparr>"
  using assms by (cases "load_needed (sy_registry s)") (simp_all add: ensure_loaded_def remove_at_def)

declare section_run.simps(2) [simp del]

section \<open>The keys that are stored\<close>

definition mute_keys :: "proposal_tables \<Rightarrow> string set" where
  "mute_keys t = pm_mute_key ` set (pt_mutes t)"

text \<open>Mutes are only added, by \<open>mute_subject\<close>, one at a time.\<close>

lemma table_ops_mutes [simp]:
  "pt_mutes (snd (record_proposal U fails r t)) = pt_mutes t"
  "pt_mutes (snd (resolve_proposal U fails i st at task key t)) = pt_mutes t"
  "pt_mutes (snd (expire_stale_proposals U fails now t)) = pt_mutes t"
  "pt_mutes (purge_proposals now cutoff t) = pt_mutes t"
  "pt_mutes (expire_proposals_of_episode ep at t) = pt_mutes t"
  "pt_mutes (detach_episode ep t) = pt_mutes t"
  "pt_mutes (snd (save_counters fails row t)) = pt_mutes t"
  by (simp_all add: record_proposal_def resolve_proposal_def expire_stale_proposals_def purge_proposals_def save_counters_def
      expire_proposals_of_episode_def detach_episode_def Let_def split: option.split)

lemma mute_key_update: "pm_mute_key (if c then m\<lparr>pm_muted_at := at\<rparr> else m) = pm_mute_key m"
  by simp

lemma mute_subject_mutes:
  "mute_keys t \<subseteq> mute_keys (snd (mute_subject U fails key kind subject at t))
   \<and> length (pt_mutes t) \<le> length (pt_mutes (snd (mute_subject U fails key kind subject at t)))"
  by (auto simp: mute_subject_def mute_keys_def image_image mute_key_update simp del: if_image_distrib split: option.split)

lemma mute_subject_stores: "mute_subject U fails key kind subject at t = (Inr u, t') \<Longrightarrow> key \<in> mute_keys t'"
  by (auto simp: mute_subject_def mute_keys_def list_ex_iff image_image mute_key_update simp del: if_image_distrib
      split: option.splits if_splits)

lemma section_step_mutes:
  "mute_keys (sy_tables s) \<subseteq> mute_keys (sy_tables (snd (section_step E sec s)))
   \<and> length (pt_mutes (sy_tables s)) \<le> length (pt_mutes (sy_tables (snd (section_step E sec s))))"
proof (cases sec)
  case (SecMuteStore key kind subject now fails)
  then show ?thesis
    using mute_subject_mutes [of "sy_tables s" "av_unicode E" fails key kind subject "av_timestamp_ms E now"]
    by (auto split: prod.splits sum.splits)
qed (auto simp: mute_keys_def system_new_def Let_def case_prod_beta split: option.split load_stage.split sum.split)

lemma section_run_Cons:
  "snd (section_run E (sec # secs) s) = snd (section_run E secs (snd (section_step E sec s)))"
  "set (fst (section_run E (sec # secs) s)) = set_option (fst (section_step E sec s)) \<union> set (fst (section_run E secs (snd (section_step E sec s))))"
  by (auto simp: section_run.simps(2) case_prod_beta split: option.split)

lemmas run_simps = section_run_Cons section_run.simps(1)

lemma section_run_mutes:
  "mute_keys (sy_tables s) \<subseteq> mute_keys (sy_tables (snd (section_run E secs s)))
   \<and> length (pt_mutes (sy_tables s)) \<le> length (pt_mutes (sy_tables (snd (section_run E secs s))))"
proof (induction secs arbitrary: s)
  case (Cons sec secs)
  from section_step_mutes [of s E sec] Cons.IH [of "snd (section_step E sec s)"] show ?case unfolding run_simps by fastforce
qed simp

section \<open>Cards\<close>

text \<open>A stored key lets no record with it through, and no operation gives an old card that key.\<close>

lemma record_proposal_stored:
  assumes "apr_mute_key r \<in> mute_keys t"
  shows "(fst (record_proposal U fails r t) = Inr InsertMuted \<or> (\<exists>e. fst (record_proposal U fails r t) = Inl e))
    \<and> snd (record_proposal U fails r t) = t"
  using assms by (force simp: record_proposal_def mute_keys_def list_ex_iff split: option.split)

definition cards_of :: "string \<Rightarrow> proposal_tables \<Rightarrow> string set" where
  "cards_of key t = apr_proposal_id ` {p \<in> set (pt_proposals t). apr_mute_key p = key}"

lemma cards_of_map:
  assumes "\<And>p. apr_proposal_id (f p) = apr_proposal_id p" "\<And>p. apr_mute_key (f p) = apr_mute_key p"
  shows "cards_of key (t\<lparr>pt_proposals := map f (pt_proposals t)\<rparr>) = cards_of key t"
proof -
  have "{p \<in> f ` A. apr_mute_key p = key} = f ` {p \<in> A. apr_mute_key p = key}" for A using assms(2) by auto
  then show ?thesis by (simp add: cards_of_def image_image assms(1))
qed

lemma record_proposal_cards:
  "apr_mute_key r \<noteq> key \<Longrightarrow> cards_of key (snd (record_proposal U fails r t)) = cards_of key t"
  by (auto simp: record_proposal_def Let_def cards_of_map split: option.split) (auto simp: cards_of_def)

lemma table_ops_cards:
  "cards_of key (snd (resolve_proposal U fails i st at task k t)) = cards_of key t"
  "cards_of key (snd (expire_stale_proposals U fails now t)) = cards_of key t"
  "cards_of key (purge_proposals now cutoff t) \<subseteq> cards_of key t"
  "cards_of key (snd (save_counters fails row t)) = cards_of key t"
  "cards_of key (snd (mute_subject U fails k2 kind subject at t)) = cards_of key t"
  "cards_of key (detach_episode ep (expire_proposals_of_episode ep at t)) = cards_of key t"
proof -
  show "cards_of key (detach_episode ep (expire_proposals_of_episode ep at t)) = cards_of key t"
    by (simp add: detach_episode_def expire_proposals_of_episode_def cards_of_map [of _ key t] map_map comp_def del: list.map_comp)
  show "cards_of key (snd (resolve_proposal U fails i st at task k t)) = cards_of key t"
    by (auto simp: resolve_proposal_def Let_def cards_of_map split: option.split)
  show "cards_of key (snd (expire_stale_proposals U fails now t)) = cards_of key t"
    by (auto simp: expire_stale_proposals_def expire_rows_def cards_of_map split: option.split)
  show "cards_of key (purge_proposals now cutoff t) \<subseteq> cards_of key t"
    by (force simp: purge_proposals_def expire_rows_def cards_of_def)
  show "cards_of key (snd (save_counters fails row t)) = cards_of key t"
    "cards_of key (snd (mute_subject U fails k2 kind subject at t)) = cards_of key t"
    by (auto simp: save_counters_def mute_subject_def cards_of_def split: option.split)
qed

lemma section_step_cards:
  assumes "key \<in> mute_keys (sy_tables s)"
  shows "cards_of key (sy_tables (snd (section_step E sec s))) \<subseteq> cards_of key (sy_tables s)"
proof (cases sec)
  case (SecRecord i fails)
  show ?thesis
  proof (cases "i < length (sy_authorized s)")
    case True
    let ?r = "fst (sy_authorized s ! i)"
    have "cards_of key (snd (record_proposal (av_unicode E) fails ?r (sy_tables s))) = cards_of key (sy_tables s)"
      using record_proposal_stored [of ?r "sy_tables s" "av_unicode E" fails] record_proposal_cards [of ?r key] assms
      by (cases "apr_mute_key ?r = key") auto
    then show ?thesis using SecRecord True by (simp add: case_prod_beta Let_def)
  qed (simp add: SecRecord)
next
  case (SecMuteStore k kind subject now fails)
  obtain result t where "mute_subject (av_unicode E) fails k kind subject (av_timestamp_ms E now) (sy_tables s) = (result, t)"
    by (metis prod.collapse)
  then show ?thesis using SecMuteStore table_ops_cards(5) [of key "av_unicode E" fails k kind subject "av_timestamp_ms E now" "sy_tables s"]
    by (cases result) simp_all
next
  case (SecPurge now cutoff)
  then show ?thesis using table_ops_cards(3) by simp
next
  case (SecLoadMutes i fails)
  then show ?thesis by (simp split: load_stage.split)
next
  case (SecLoadApply i)
  then show ?thesis by (simp split: load_stage.split)
next
  case (SecDecide policy m i ep c now)
  then show ?thesis by (auto simp: Let_def split: option.split sum.split)
next
  case (SecCommit i)
  then show ?thesis by (simp add: case_prod_beta Let_def)
qed (simp_all add: table_ops_cards(1,2,4,6) system_new_def)

lemma section_step_recorded:
  assumes "key \<in> mute_keys (sy_tables s)" "fst (section_step E sec s) = Some (EvRecorded r result)" "apr_mute_key r = key"
  shows "result = Inr InsertMuted \<or> (\<exists>e. result = Inl e)"
proof (cases sec)
  case (SecRecord i fails)
  then have "r = fst (sy_authorized s ! i)" "result = fst (record_proposal (av_unicode E) fails r (sy_tables s))"
    using assms(2) by (auto simp: case_prod_beta Let_def split: if_splits)
  then show ?thesis using record_proposal_stored [of r "sy_tables s" "av_unicode E" fails] assms(1,3) by metis
qed (use assms(2) in \<open>auto simp: Let_def split: option.splits\<close>)

lemma section_run_cards:
  assumes "key \<in> mute_keys (sy_tables s)"
  shows "cards_of key (sy_tables (snd (section_run E secs s))) \<subseteq> cards_of key (sy_tables s)
    \<and> (\<forall>r result. EvRecorded r result \<in> set (fst (section_run E secs s)) \<and> apr_mute_key r = key
         \<longrightarrow> result = Inr InsertMuted \<or> (\<exists>e. result = Inl e))"
  using assms
proof (induction secs arbitrary: s)
  case (Cons sec secs)
  let ?s = "snd (section_step E sec s)"
  have "key \<in> mute_keys (sy_tables ?s)" using section_step_mutes Cons.prems by blast
  from Cons.IH [OF this] section_step_cards [OF Cons.prems, of E sec] section_step_recorded [OF Cons.prems, of E sec]
  show ?case unfolding run_simps by (auto simp: elem_set simp del: section_step.simps)
qed simp

section \<open>What the registry knows of a muted key\<close>

text \<open>The registry has the key, and no load is under way that has read the keys without it.\<close>

definition knows_mute :: "string \<Rightarrow> proposal_system \<Rightarrow> bool" where
  "knows_mute key s \<longleftrightarrow> key \<in> set (pr_muted (sy_registry s))
     \<and> (\<forall>c keys. LoadedMutes c keys \<in> set (sy_loads s) \<longrightarrow> key \<in> set keys)"

lemma set_remove_at: "set (remove_at i xs) \<subseteq> set xs"
  unfolding remove_at_def using set_take_subset [of i xs] set_drop_subset [of "Suc i" xs] by auto

lemma list_mute_keys_all: "length (pt_mutes t) \<le> 500 \<Longrightarrow> set (list_mute_keys t) = mute_keys t"
  by (simp add: list_mute_keys_def mute_keys_def MAX_ROWS_PER_READ_def)

lemma knows_mute_loads:
  "knows_mute key s \<Longrightarrow> (\<And>c keys. LoadedMutes c keys \<in> set ls \<Longrightarrow> LoadedMutes c keys \<in> set (sy_loads s) \<or> key \<in> set keys)
   \<Longrightarrow> knows_mute key (s\<lparr>sy_loads := ls\<rparr>)"
  by (auto simp: knows_mute_def)

lemma section_step_knows:
  assumes stored: "key \<in> mute_keys (sy_tables s)" and few: "length (pt_mutes (sy_tables s)) \<le> 500"
    and "knows_mute key s" "sec \<noteq> SecRestart"
  shows "knows_mute key (snd (section_step E sec s))"
proof (cases sec)
  case (SecLoadCounters i fails)
  show ?thesis unfolding SecLoadCounters using assms(3) set_remove_at [of i "sy_loads s"]
    by (auto intro!: knows_mute_loads dest: subsetD [OF set_update_subset_insert])
next
  case (SecLoadMutes i fails)
  have "key \<in> set (list_mute_keys (sy_tables s))" using stored few by (simp add: list_mute_keys_all)
  then show ?thesis unfolding SecLoadMutes using assms(3) set_remove_at [of i "sy_loads s"]
    by (auto intro!: knows_mute_loads dest: subsetD [OF set_update_subset_insert] split: load_stage.split)
next
  case (SecLoadApply i)
  show ?thesis
  proof (cases "i < length (sy_loads s) \<and> (\<exists>c keys. sy_loads s ! i = LoadedMutes c keys)")
    case True
    then obtain c keys where load: "sy_loads s ! i = LoadedMutes c keys" "LoadedMutes c keys \<in> set (sy_loads s)"
      using nth_mem [of i "sy_loads s"] by metis
    then show ?thesis unfolding SecLoadApply using assms(3) set_remove_at [of i "sy_loads s"] True
      by (auto simp: knows_mute_def)
  qed (use SecLoadApply assms(3) in \<open>auto split: load_stage.split\<close>)
next
  case (SecMuteStore k kind subject now fails)
  then show ?thesis using assms(3) by (auto simp: knows_mute_def split: prod.splits sum.splits)
qed (use assms(3,4) in \<open>auto simp: knows_mute_def registry_commit_def Let_def case_prod_beta split: option.split sum.split\<close>)

lemma section_step_decided:
  assumes "knows_mute key s" "fst (section_step E sec s) = Some (EvDecided key decision)"
  shows "decision = Inl RejectMuted"
  using assms by (cases sec) (auto simp: knows_mute_def Let_def case_prod_beta decide_section_muted split: option.splits if_splits)

lemma section_run_decided:
  assumes "key \<in> mute_keys (sy_tables s)" "length (pt_mutes (sy_tables (snd (section_run E secs s)))) \<le> 500"
    and "knows_mute key s" "SecRestart \<notin> set secs"
  shows "\<forall>decision. EvDecided key decision \<in> set (fst (section_run E secs s)) \<longrightarrow> decision = Inl RejectMuted"
  using assms
proof (induction secs arbitrary: s)
  case (Cons sec secs)
  let ?s = "snd (section_step E sec s)"
  have "key \<in> mute_keys (sy_tables ?s)" using section_step_mutes Cons.prems(1) by blast
  moreover have "length (pt_mutes (sy_tables s)) \<le> 500"
    using section_run_mutes [of s E "sec # secs"] Cons.prems(2) by (auto simp del: section_run.simps)
  then have "knows_mute key ?s" using section_step_knows [OF Cons.prems(1)] Cons.prems(3,4) by (auto simp del: section_step.simps)
  ultimately show ?case
    using Cons.IH [of ?s] Cons.prems(2,4) section_step_decided [OF Cons.prems(3), of E sec] unfolding run_simps
    by (auto simp: elem_set simp del: section_step.simps)
qed simp

text \<open>C30: A muted subject stays muted. From the moment its key is stored, whatever sections of loads, decisions, records, commits, mutes,
  answers, expiries, deletions of episodes and retention runs follow, in whatever order, with whatever failures of the storage and restarts: the key stays
  stored, no record with it is written, neither as a new card nor as a repetition of an old one, and the cards with the key are among
  those there were. If moreover the registry has the key, no load is under way with keys that were read before it was stored, at most
  500 keys are stored at the end and there is no restart, then every decision about the key is already a rejection as muted.\<close>

theorem muted_stays_muted:
  assumes "key \<in> mute_keys (sy_tables s)" and run: "section_run E secs s = (events, s')"
  shows "key \<in> mute_keys (sy_tables s')
    \<and> (\<forall>r result. EvRecorded r result \<in> set events \<and> apr_mute_key r = key \<longrightarrow> result = Inr InsertMuted \<or> (\<exists>e. result = Inl e))
    \<and> cards_of key (sy_tables s') \<subseteq> cards_of key (sy_tables s)
    \<and> (knows_mute key s \<and> length (pt_mutes (sy_tables s')) \<le> 500 \<and> SecRestart \<notin> set secs
        \<longrightarrow> (\<forall>decision. EvDecided key decision \<in> set events \<longrightarrow> decision = Inl RejectMuted))"
  using section_run_mutes [of s E secs] section_run_cards [OF assms(1), of E secs] section_run_decided [OF assms(1), of E secs] assms(1)
  unfolding run by auto

section \<open>Examples\<close>

definition demo_proposal_env :: proposal_env where
  "demo_proposal_env = \<lparr>av_unicode = plain_unicode, av_sha256 = (\<lambda>_. replicate 32 0), av_timestamp_ms = (\<lambda>_. ''now'')\<rparr>"

definition demo_heard :: heard_candidate where
  "demo_heard = \<lparr>hc_kind = MkDecision, hc_statement = ''make tea'', hc_canonical_subject = ''Tea''\<rparr>"

definition demo_decide :: "u64 \<Rightarrow> proposal_section" where
  "demo_decide now = SecDecide ambient_policy_default 0 ''p1'' ''e1'' demo_heard now"

definition demo_mute :: proposal_section where
  "demo_mute = SecMuteStore ''suggestion:tea'' Suggestion ''tea'' 0 False"

definition no_tables :: proposal_tables where
  "no_tables = \<lparr>pt_proposals = [], pt_mutes = [], pt_counters = None\<rparr>"

text \<open>What is seen of an event: whether a decision let the proposal pass, what the storage did.\<close>

fun event_view :: "proposal_event \<Rightarrow> string" where
  "event_view (EvDecided key (Inr _)) = ''authorized''"
| "event_view (EvDecided key (Inl reason)) = proposal_rejection_as_str reason"
| "event_view (EvRecorded r (Inr InsertMuted)) = ''dropped''"
| "event_view (EvRecorded r (Inr (InsertDuplicate i n))) = ''repeated''"
| "event_view (EvRecorded r (Inr InsertCreated)) = ''created''"
| "event_view (EvRecorded r (Inl e)) = ''failed''"

definition demo_muted_system :: proposal_system where
  "demo_muted_system = snd (section_run demo_proposal_env [demo_mute, SecMuteInsert 0] (system_new no_tables))"

theorem muted_stays_muted_witness:
  "''suggestion:tea'' \<in> mute_keys (sy_tables demo_muted_system) \<and> knows_mute ''suggestion:tea'' demo_muted_system
   \<and> (\<exists>d. fst (section_run demo_proposal_env [demo_decide 6000000] demo_muted_system) = [EvDecided ''suggestion:tea'' d] \<and> d = Inl RejectMuted)"
proof -
  have eqs: "map pm_mute_key (pt_mutes (sy_tables demo_muted_system)) = [''suggestion:tea'']" "sy_loads demo_muted_system = []"
    "pr_muted (sy_registry demo_muted_system) = [''suggestion:tea'']" by code_simp+
  then have stored: "''suggestion:tea'' \<in> mute_keys (sy_tables demo_muted_system)"
    by (metis list.set_intros(1) list.set_map mute_keys_def)
  have knows: "knows_mute ''suggestion:tea'' demo_muted_system" using eqs by (simp add: knows_mute_def)
  have "map (\<lambda>e. case e of EvDecided key d \<Rightarrow> key | EvRecorded r d \<Rightarrow> [])
      (fst (section_run demo_proposal_env [demo_decide 6000000] demo_muted_system)) = [''suggestion:tea'']"
    "length (pt_mutes (sy_tables (snd (section_run demo_proposal_env [demo_decide 6000000] demo_muted_system)))) \<le> 500" by code_simp+
  then obtain d where d: "fst (section_run demo_proposal_env [demo_decide 6000000] demo_muted_system) = [EvDecided ''suggestion:tea'' d]"
    and few: "length (pt_mutes (sy_tables (snd (section_run demo_proposal_env [demo_decide 6000000] demo_muted_system)))) \<le> 500"
    by (auto split: proposal_event.splits)
  have "SecRestart \<notin> set [demo_decide 6000000]" by (simp add: demo_decide_def)
  then show ?thesis
    using muted_stays_muted [OF stored prod.collapse [symmetric], of demo_proposal_env "[demo_decide 6000000]"] stored knows d few by auto
qed

text \<open>A load that has read the keys before the mute writes them over the key that \<open>mute\<close> has inserted: the registry then lets the muted
  subject pass although its key is stored, and only the check of the storage drops the card.\<close>

definition demo_stale_system :: proposal_system where
  "demo_stale_system = snd (section_run demo_proposal_env
     [SecLoadCheck, SecLoadCounters 0 False, SecLoadMutes 0 False, demo_mute, SecMuteInsert 0, SecLoadApply 0] (system_new no_tables))"

theorem stale_load_forgets_mute:
  "map pm_mute_key (pt_mutes (sy_tables demo_stale_system)) = [''suggestion:tea'']
   \<and> map event_view (fst (section_run demo_proposal_env [demo_decide 6000000] demo_stale_system)) = [''authorized'']"
  by code_simp

text \<open>The same calls one after the other: the decision rejects.\<close>

lemma load_then_mute_rejects:
  "map event_view (fst (section_run demo_proposal_env
      [SecLoadCheck, SecLoadCounters 0 False, SecLoadMutes 0 False, SecLoadApply 0, demo_mute, SecMuteInsert 0, demo_decide 6000000]
      (system_new no_tables))) = [''muted'']"
  by code_simp

end
