(* ===== verification/Ambient_Status.thy ===== *)
theory Ambient_Status
  imports Ambient_Policy Ambient_Log
begin

text \<open>
  \<open>crates/evohime-core/src/ambient.rs\<close>, without the storage: the retention period of the environment, loading the policy
  and the control file, the task an ambient event is filed under, and the registry of the listening status. What a read
  of the file system gives and what the JSON parser makes of the bytes are arguments; a timestamp is the number of
  milliseconds it prints.
\<close>

section \<open>Retention\<close>

definition EPISODE_METADATA_RETENTION_DAYS :: u32 where "EPISODE_METADATA_RETENTION_DAYS = 30"
definition TOMBSTONE_RETENTION_DAYS :: u32 where "TOMBSTONE_RETENTION_DAYS = 30"
definition EVENT_RETENTION_DAYS :: u32 where "EVENT_RETENTION_DAYS = 30"
definition AMBIENT_DAY_MS :: u64 where "AMBIENT_DAY_MS = 24 * 60 * 60 * 1000"

text \<open>\<open>str::parse::<u32>\<close>: an optional plus sign and digits, of a number below two to the thirty-second.\<close>

definition is_digit :: "char \<Rightarrow> bool" where
  "is_digit c \<longleftrightarrow> CHR ''0'' \<le> c \<and> c \<le> CHR ''9''"

fun digits_value :: "string \<Rightarrow> int \<Rightarrow> int" where
  "digits_value [] acc = acc"
| "digits_value (c # cs) acc = digits_value cs (acc * 10 + (of_char c - 48))"

definition parse_u32 :: "string \<Rightarrow> u32 option" where
  "parse_u32 s =
     (let digits = (case s of [] \<Rightarrow> [] | c # cs \<Rightarrow> if c = CHR ''+'' then cs else s) in
      if digits = [] \<or> \<not> list_all is_digit digits \<or> digits_value digits 0 \<ge> 2 ^ 32 then None
      else Some (word_of_int (digits_value digits 0)))"

definition parse_retention_days :: "unicode \<Rightarrow> string option \<Rightarrow> u32" where
  "parse_retention_days U raw =
     (case (case raw of None \<Rightarrow> None | Some v \<Rightarrow> parse_u32 (str_trim U v)) of
        None \<Rightarrow> DEFAULT_RETENTION_DAYS
      | Some days \<Rightarrow> if days > 0 then min days MAX_RETENTION_DAYS else DEFAULT_RETENTION_DAYS)"

definition ambient_expires_at :: "u64 \<Rightarrow> u32 \<Rightarrow> u64" where
  "ambient_expires_at now_ms days = sat_add now_ms (ucast days * AMBIENT_DAY_MS)"

definition ambient_cutoff_at :: "u64 \<Rightarrow> u32 \<Rightarrow> u64" where
  "ambient_cutoff_at now_ms days = sat_sub now_ms (ucast days * AMBIENT_DAY_MS)"

section \<open>The policy file\<close>

definition MAX_POLICY_BYTES :: nat where "MAX_POLICY_BYTES = 64 * 1024"

definition default_policy :: "unicode \<Rightarrow> string option \<Rightarrow> ambient_policy" where
  "default_policy U retention_env = ambient_policy_default\<lparr>ap_retention_days := parse_retention_days U retention_env\<rparr>"

definition paused_default_policy :: "unicode \<Rightarrow> string option \<Rightarrow> ambient_policy" where
  "paused_default_policy U retention_env = (default_policy U retention_env)\<lparr>ap_paused := True\<rparr>"

text \<open>The file system at the policy's path: nothing there that is a file, or a file with the length that its metadata
  give and the bytes that reading it gives, \<open>None\<close> for an error.\<close>

datatype policy_file = NoFile | PolicyFile nat "string option"

definition read_bounded_policy :: "policy_file \<Rightarrow> string option" where
  "read_bounded_policy file =
     (case file of NoFile \<Rightarrow> None
      | PolicyFile len contents \<Rightarrow>
          if len > MAX_POLICY_BYTES then None
          else case contents of None \<Rightarrow> None
            | Some bytes \<Rightarrow> if length (take (MAX_POLICY_BYTES + 1) bytes) > MAX_POLICY_BYTES then None
                else Some (take (MAX_POLICY_BYTES + 1) bytes))"

definition is_policy_file :: "policy_file \<Rightarrow> bool" where
  "is_policy_file file = (case file of NoFile \<Rightarrow> False | PolicyFile _ _ \<Rightarrow> True)"

definition load_policy :: "unicode \<Rightarrow> (string \<Rightarrow> ambient_policy option) \<Rightarrow> string option \<Rightarrow> policy_file \<Rightarrow> ambient_policy" where
  "load_policy U from_json retention_env file =
     (case read_bounded_policy file of
        None \<Rightarrow> if is_policy_file file then paused_default_policy U retention_env else default_policy U retention_env
      | Some bytes \<Rightarrow>
          case from_json bytes of None \<Rightarrow> paused_default_policy U retention_env
          | Some policy \<Rightarrow>
              if ambient_policy_validate U policy \<noteq> None then paused_default_policy U retention_env else policy)"

text \<open>\<open>save_policy\<close> up to the write: the bytes that are written, or the error of validation.\<close>

definition save_policy_bytes :: "unicode \<Rightarrow> (ambient_policy \<Rightarrow> string) \<Rightarrow> ambient_policy \<Rightarrow> contract_error + string" where
  "save_policy_bytes U to_json policy =
     (case ambient_policy_validate U policy of Some e \<Rightarrow> Inl e | None \<Rightarrow> Inr (to_json policy))"

record ambient_control =
  ac_enabled :: bool
  ac_device_id :: string

definition ambient_control_default :: ambient_control where
  "ambient_control_default = \<lparr>ac_enabled = False, ac_device_id = []\<rparr>"

definition load_control :: "(string \<Rightarrow> ambient_control option) \<Rightarrow> string option \<Rightarrow> ambient_control" where
  "load_control from_json contents =
     (case contents of None \<Rightarrow> ambient_control_default
      | Some bytes \<Rightarrow> (case from_json bytes of None \<Rightarrow> ambient_control_default | Some c \<Rightarrow> c))"

section \<open>Events\<close>

definition SESSION_TASK_ID :: string where "SESSION_TASK_ID = ''ambient-session''"

fun event_task_id :: "ambient_log_event \<Rightarrow> string" where
  "event_task_id (EventTranscript episode_id t u x) = episode_id"
| "event_task_id (EventProposal i (Some episode_id) k sk ps) = episode_id"
| "event_task_id _ = SESSION_TASK_ID"

section \<open>The listening registry\<close>

record ambient_device =
  ad_device_id :: string
  ad_display_name :: string
  ad_is_default :: bool
  ad_is_active :: bool

record ambient_status =
  as_state :: listening_state
  as_reason :: listening_reason
  as_active_device_id :: string
  as_engine_version :: string
  as_engine_ready :: bool
  as_devices :: "ambient_device list"
  as_watching_devices :: bool

definition ambient_status_default :: ambient_status where
  "ambient_status_default =
     \<lparr>as_state = ListenEngineUnavailable, as_reason = ReasonEngineUnavailable, as_active_device_id = [],
      as_engine_version = [], as_engine_ready = False, as_devices = [], as_watching_devices = False\<rparr>"

datatype listener_control =
    ControlEnabled bool | ControlPaused bool | ControlSelectDevice string | ControlResetBuffers
  | ControlPolicy ambient_policy ambient_control

text \<open>The registry: the status and whether a channel to the listener is attached. The channel itself is an argument of
  \<open>send\<close>: whether its receiver is still there.\<close>

record ambient_registry =
  ar_status :: ambient_status
  ar_control :: bool

definition ambient_registry_default :: ambient_registry where
  "ambient_registry_default = \<lparr>ar_status = ambient_status_default, ar_control = False\<rparr>"

definition attach_control :: "ambient_registry \<Rightarrow> ambient_registry" where
  "attach_control r = r\<lparr>ar_control := True\<rparr>"

definition detach_control :: "ambient_registry \<Rightarrow> ambient_registry" where
  "detach_control r =
     r\<lparr>ar_control := False,
       ar_status := (ar_status r)\<lparr>as_engine_ready := False, as_devices := [], as_watching_devices := False,
         as_state := ListenEngineUnavailable, as_reason := ReasonEngineUnavailable\<rparr>\<rparr>"

definition listener_send :: "bool \<Rightarrow> listener_control \<Rightarrow> ambient_registry \<Rightarrow> ambient_error_code option" where
  "listener_send receiver_alive control r =
     (if \<not> ar_control r then Some ListenerUnavailable
      else if \<not> receiver_alive then Some ListenerUnavailable else None)"

definition set_state :: "listening_state \<Rightarrow> listening_reason \<Rightarrow> string option \<Rightarrow> ambient_registry \<Rightarrow> bool \<times> ambient_registry" where
  "set_state state reason active_device_id r =
     (let s = (case active_device_id of None \<Rightarrow> ar_status r
               | Some device_id \<Rightarrow> (ar_status r)\<lparr>as_active_device_id := device_id\<rparr>)
      in if as_state s = state \<and> as_reason s = reason then (False, r\<lparr>ar_status := s\<rparr>)
         else (True, r\<lparr>ar_status := s\<lparr>as_state := state, as_reason := reason\<rparr>\<rparr>))"

definition set_devices :: "ambient_device list \<Rightarrow> string \<Rightarrow> bool \<Rightarrow> ambient_registry \<Rightarrow> ambient_registry" where
  "set_devices devices active watching r =
     r\<lparr>ar_status := (ar_status r)\<lparr>as_active_device_id := active, as_watching_devices := watching,
       as_devices := map (\<lambda>d. d\<lparr>ad_is_active := (if active = [] then ad_is_default d else ad_device_id d = active)\<rparr>) devices\<rparr>\<rparr>"

definition set_engine :: "string \<Rightarrow> bool \<Rightarrow> ambient_registry \<Rightarrow> ambient_registry" where
  "set_engine version ready r =
     r\<lparr>ar_status := (ar_status r)\<lparr>as_engine_version := (if version \<noteq> [] then version else as_engine_version (ar_status r)),
       as_engine_ready := ready\<rparr>\<rparr>"

section \<open>Properties\<close>

lemma parse_retention_days_range:
  "0 < parse_retention_days U raw \<and> parse_retention_days U raw \<le> MAX_RETENTION_DAYS"
  by (simp add: parse_retention_days_def DEFAULT_RETENTION_DAYS_def MAX_RETENTION_DAYS_def min_def split: option.split)

lemma default_policies_valid:
  "ambient_policy_validate U (default_policy U env) = None" "ambient_policy_validate U (paused_default_policy U env) = None"
  using parse_retention_days_range [of U env]
  by (auto simp: ambient_policy_validate_None default_policy_def paused_default_policy_def ambient_policy_default_def word_gt_0)

lemma paused_closed: "\<not> capture_allowed_at (paused_default_policy U env) m"
  by (simp add: paused_default_policy_def capture_allowed_at_def)

text \<open>C33: A policy that cannot be read never becomes one that listens. Whatever the file holds and whatever the parser
  makes of it, the loaded policy passes validation; and when there is a file but no valid policy in it (it cannot be read,
  is too long, does not parse, or fails validation), the loaded policy allows capture at no minute of the day.\<close>

theorem load_policy_fail_safe:
  "ambient_policy_validate U (load_policy U from_json env file) = None
   \<and> (is_policy_file file
      \<and> (\<forall>bytes policy. read_bounded_policy file = Some bytes \<and> from_json bytes = Some policy \<longrightarrow>
           ambient_policy_validate U policy \<noteq> None)
      \<longrightarrow> \<not> capture_allowed_at (load_policy U from_json env file) minute)"
proof (cases "read_bounded_policy file")
  case None
  then show ?thesis by (simp add: load_policy_def default_policies_valid paused_closed)
next
  case (Some bytes)
  then show ?thesis
    by (cases "from_json bytes")
      (auto simp: load_policy_def default_policies_valid paused_closed)
qed

theorem load_policy_fail_safe_witness:
  "is_policy_file (PolicyFile 3 (Some ''{]}''))
   \<and> \<not> capture_allowed_at (load_policy plain_unicode (\<lambda>_. None) None (PolicyFile 3 (Some ''{]}''))) 720"
  using load_policy_fail_safe [of plain_unicode "\<lambda>_. None" None "PolicyFile 3 (Some ''{]}'')" 720]
  by (simp add: is_policy_file_def)

text \<open>What is saved is what is loaded, for a parser that reads what the printer writes and a text within the limit.\<close>

theorem policy_round_trip:
  assumes "from_json (to_json policy) = Some policy" "save_policy_bytes U to_json policy = Inr bytes" "length bytes \<le> MAX_POLICY_BYTES"
  shows "load_policy U from_json env (PolicyFile (length bytes) (Some bytes)) = policy"
  using assms by (auto simp: load_policy_def save_policy_bytes_def read_bounded_policy_def split: option.splits)

text \<open>\<open>set_state\<close> reports a change exactly when the state or the reason differs from what was there, and after
  \<open>detach_control\<close> the microphone is not reported as being read.\<close>

lemma set_state_changed:
  "fst (set_state s reason d r) \<longleftrightarrow> as_state (ar_status r) \<noteq> s \<or> as_reason (ar_status r) \<noteq> reason"
  "as_state (ar_status (snd (set_state s reason d r))) = s" "as_reason (ar_status (snd (set_state s reason d r))) = reason"
  by (auto simp: set_state_def Let_def split: option.split)

lemma detach_not_capturing: "\<not> is_capturing (as_state (ar_status (detach_control r)))
   \<and> listener_send alive control (detach_control r) = Some ListenerUnavailable"
  by (simp add: detach_control_def is_capturing_def listener_send_def)

lemma set_devices_active:
  "d \<in> set (as_devices (ar_status (set_devices ds active w r))) \<Longrightarrow>
   ad_is_active d \<longleftrightarrow> (if active = [] then ad_is_default d else ad_device_id d = active)"
  by (auto simp: set_devices_def)

end
