(* ===== verification/App_Catalog.thy ===== *)
theory App_Catalog
  imports Unicode_Text
begin

text \<open>
  \<open>crates/tool-runtime/src/app_catalog.rs\<close>: the catalogue of applications that a heard or typed name is resolved in, its
  entries and how a source adds to them, normalisation of a name and its resolution. The entries that the three sources
  find (the system directory, the registry, the user's file) are arguments of \<open>discover\<close>: reading them is input, as is
  starting the process. A path is its string. Russian words are written as their UTF-8 bytes.
\<close>

section \<open>Entries\<close>

definition MAX_ENTRIES :: nat where "MAX_ENTRIES = 512"

record app_entry =
  ae_id :: string
  ae_title :: string
  ae_aliases :: "string list"
  ae_exec :: string
  ae_args :: "string list"

definition wire_char :: "string \<Rightarrow> bool" where
  "wire_char ch =
     (case ch of
        [c] \<Rightarrow> CHR ''0'' \<le> c \<and> c \<le> CHR ''9'' \<or> CHR ''A'' \<le> c \<and> c \<le> CHR ''Z'' \<or> CHR ''a'' \<le> c \<and> c \<le> CHR ''z''
          \<or> c \<in> {CHR ''-'', CHR ''_'', CHR ''.'', CHR '':'', CHR ''+''}
      | _ \<Rightarrow> False)"

definition id_is_wire_safe :: "string \<Rightarrow> bool" where
  "id_is_wire_safe i \<longleftrightarrow> i \<noteq> [] \<and> length i \<le> 128 \<and> list_all wire_char (utf8_chars i)"

datatype resolution = ResolutionFound app_entry | ResolutionAmbiguous "string list" | ResolutionNotFound

type_synonym app_catalog = "app_entry list"

section \<open>Sources\<close>

text \<open>The aliases of the new entry, then those of the old one that it lacks.\<close>

fun push_missing :: "string list \<Rightarrow> string list \<Rightarrow> string list" where
  "push_missing aliases [] = aliases"
| "push_missing aliases (a # as) = push_missing (if a \<in> set aliases then aliases else aliases @ [a]) as"

definition app_upsert :: "unicode \<Rightarrow> app_catalog \<Rightarrow> app_entry \<Rightarrow> app_catalog" where
  "app_upsert U catalog entry =
     (if \<not> id_is_wire_safe (ae_id entry) \<or> str_trim U (ae_title entry) = [] then catalog
      else if \<exists>x\<in>set catalog. ae_id x = ae_id entry
      then update_first (\<lambda>x. ae_id x = ae_id entry)
        (\<lambda>x. x\<lparr>ae_title := ae_title entry, ae_exec := ae_exec entry, ae_args := ae_args entry,
               ae_aliases := push_missing (ae_aliases entry) (ae_aliases x)\<rparr>) catalog
      else catalog @ [entry])"

definition add_discovered :: "unicode \<Rightarrow> app_catalog \<Rightarrow> app_entry \<Rightarrow> app_catalog" where
  "add_discovered U catalog entry =
     (if \<not> id_is_wire_safe (ae_id entry) then catalog
      else if \<exists>x\<in>set catalog. ae_id x = ae_id entry
      then update_first (\<lambda>x. ae_id x = ae_id entry)
        (\<lambda>x. x\<lparr>ae_aliases := push_missing (ae_aliases x) (ae_aliases entry)\<rparr>) catalog
      else app_upsert U catalog entry)"

definition from_entries :: "unicode \<Rightarrow> app_entry list \<Rightarrow> app_catalog" where
  "from_entries U entries = foldl (app_upsert U) [] entries"

definition discover :: "unicode \<Rightarrow> app_entry list \<Rightarrow> app_entry list \<Rightarrow> app_entry list option \<Rightarrow> app_catalog" where
  "discover U builtin registry user =
     (let catalog = foldl (add_discovered U) (from_entries U builtin) registry;
          catalog = (case user of None \<Rightarrow> catalog | Some entries \<Rightarrow> foldl (app_upsert U) catalog entries)
      in take MAX_ENTRIES (sort_key ae_id catalog))"

definition catalog_get :: "app_catalog \<Rightarrow> string \<Rightarrow> app_entry option" where
  "catalog_get catalog i = List.find (\<lambda>e. ae_id e = i) catalog"

section \<open>Names\<close>

definition yo_to_ye :: "string \<Rightarrow> string" where
  "yo_to_ye ch = (if ch = [CHR 0xD1, CHR 0x91] \<or> ch = [CHR 0xD0, CHR 0x81] then [CHR 0xD0, CHR 0xB5] else ch)"

fun app_normalize_loop :: "unicode \<Rightarrow> string list \<Rightarrow> string \<Rightarrow> bool \<Rightarrow> string" where
  "app_normalize_loop U [] result pending_space = result"
| "app_normalize_loop U (ch # chs) result pending_space =
     (let ch = yo_to_ye ch in
      if uc_is_alphanumeric U ch
      then app_normalize_loop U chs
        ((if pending_space \<and> result \<noteq> [] then result @ '' '' else result) @ uc_to_lowercase U ch) False
      else app_normalize_loop U chs result True)"

definition app_normalize :: "unicode \<Rightarrow> string \<Rightarrow> string" where
  "app_normalize U text = app_normalize_loop U (utf8_chars (str_trim U text)) [] False"

text \<open>\<open>split(' ')\<close>.\<close>

definition split_spaces :: "string \<Rightarrow> string list" where
  "split_spaces s = split_chars (\<lambda>ch. ch = '' '') (utf8_chars s) []"

definition FILLER_WORDS :: "string list" where
  "FILLER_WORDS = [
      [CHR 0xD0, CHR 0xBF, CHR 0xD0, CHR 0xBE, CHR 0xD0, CHR 0xB6, CHR 0xD0, CHR 0xB0, CHR 0xD0, CHR 0xBB, CHR 0xD1, CHR 0x83, CHR 0xD0, CHR 0xB9, CHR 0xD1, CHR 0x81, CHR 0xD1, CHR 0x82, CHR 0xD0, CHR 0xB0],
      [CHR 0xD0, CHR 0xBC, CHR 0xD0, CHR 0xBD, CHR 0xD0, CHR 0xB5],
      [CHR 0xD0, CHR 0xB4, CHR 0xD0, CHR 0xB0, CHR 0xD0, CHR 0xB2, CHR 0xD0, CHR 0xB0, CHR 0xD0, CHR 0xB9],
      [CHR 0xD0, CHR 0xBA, CHR 0xD0, CHR 0xB0],
      [CHR 0xD0, CHR 0xBF, CHR 0xD1, CHR 0x80, CHR 0xD0, CHR 0xB8, CHR 0xD0, CHR 0xBB, CHR 0xD0, CHR 0xBE, CHR 0xD0, CHR 0xB6, CHR 0xD0, CHR 0xB5, CHR 0xD0, CHR 0xBD, CHR 0xD0, CHR 0xB8, CHR 0xD0, CHR 0xB5],
      [CHR 0xD0, CHR 0xBF, CHR 0xD1, CHR 0x80, CHR 0xD0, CHR 0xBE, CHR 0xD0, CHR 0xB3, CHR 0xD1, CHR 0x80, CHR 0xD0, CHR 0xB0, CHR 0xD0, CHR 0xBC, CHR 0xD0, CHR 0xBC, CHR 0xD1, CHR 0x83],
      [CHR 0xD0, CHR 0xBF, CHR 0xD1, CHR 0x80, CHR 0xD0, CHR 0xBE, CHR 0xD0, CHR 0xB3, CHR 0xD1, CHR 0x80, CHR 0xD0, CHR 0xB0, CHR 0xD0, CHR 0xBC, CHR 0xD0, CHR 0xBC, CHR 0xD0, CHR 0xB0],
      [CHR 0xD0, CHR 0xBF, CHR 0xD1, CHR 0x80, CHR 0xD0, CHR 0xB8, CHR 0xD0, CHR 0xBB, CHR 0xD0, CHR 0xBE, CHR 0xD0, CHR 0xB6, CHR 0xD1, CHR 0x83, CHR 0xD1, CHR 0x85, CHR 0xD1, CHR 0x83],
      ''app'']"

definition strip_filler_words :: "string \<Rightarrow> string" where
  "strip_filler_words normalized =
     str_join '' '' (filter (\<lambda>word. word \<noteq> [] \<and> word \<notin> set FILLER_WORDS) (split_spaces normalized))"

definition prefix_words :: "string \<Rightarrow> string \<Rightarrow> bool" where
  "prefix_words v pre \<longleftrightarrow>
     v = pre \<or> is_prefix_of pre v \<and> length pre < length v \<and> v ! length pre = CHR '' ''"

definition CATEGORIES :: "(string \<times> string list) list" where
  "CATEGORIES = [
      ([CHR 0xD0, CHR 0xB1, CHR 0xD1, CHR 0x80, CHR 0xD0, CHR 0xB0, CHR 0xD1, CHR 0x83, CHR 0xD0, CHR 0xB7, CHR 0xD0, CHR 0xB5, CHR 0xD1, CHR 0x80], [''chrome'', ''msedge'', ''firefox'', ''yandex'', ''opera'', ''brave'']),
      ([CHR 0xD0, CHR 0xBF, CHR 0xD0, CHR 0xBE, CHR 0xD1, CHR 0x87, CHR 0xD1, CHR 0x82, CHR 0xD0, CHR 0xB0], [''outlook'', ''thunderbird'']),
      ([CHR 0xD0, CHR 0xBC, CHR 0xD1, CHR 0x83, CHR 0xD0, CHR 0xB7, CHR 0xD1, CHR 0x8B, CHR 0xD0, CHR 0xBA, CHR 0xD0, CHR 0xB0], [''spotify'', ''yandexmusic'']),
      ([CHR 0xD1, CHR 0x82, CHR 0xD0, CHR 0xB5, CHR 0xD1, CHR 0x80, CHR 0xD0, CHR 0xBC, CHR 0xD0, CHR 0xB8, CHR 0xD0, CHR 0xBD, CHR 0xD0, CHR 0xB0, CHR 0xD0, CHR 0xBB], [''wt'', ''powershell'', ''cmd'']),
      ([CHR 0xD1, CHR 0x80, CHR 0xD0, CHR 0xB5, CHR 0xD0, CHR 0xB4, CHR 0xD0, CHR 0xB0, CHR 0xD0, CHR 0xBA, CHR 0xD1, CHR 0x82, CHR 0xD0, CHR 0xBE, CHR 0xD1, CHR 0x80], [''code'', ''notepad'']),
      ([CHR 0xD0, CHR 0xBC, CHR 0xD0, CHR 0xB5, CHR 0xD1, CHR 0x81, CHR 0xD1, CHR 0x81, CHR 0xD0, CHR 0xB5, CHR 0xD0, CHR 0xBD, CHR 0xD0, CHR 0xB4, CHR 0xD0, CHR 0xB6, CHR 0xD0, CHR 0xB5, CHR 0xD1, CHR 0x80], [''telegram'', ''discord'', ''slack''])]"

section \<open>Resolution\<close>

definition exact_match :: "unicode \<Rightarrow> string \<Rightarrow> app_entry \<Rightarrow> bool" where
  "exact_match U query entry \<longleftrightarrow>
     app_normalize U (ae_id entry) = query \<or> app_normalize U (ae_title entry) = query
     \<or> list_ex (\<lambda>alias. app_normalize U alias = query) (ae_aliases entry)"

definition partial_match :: "unicode \<Rightarrow> string \<Rightarrow> app_entry \<Rightarrow> bool" where
  "partial_match U query entry \<longleftrightarrow>
     list_ex (\<lambda>name. name \<noteq> [] \<and> (prefix_words name query \<or> prefix_words query name))
       (map (app_normalize U) ([ae_title entry] @ ae_aliases entry @ [ae_id entry]))"

definition single_match :: "app_entry list \<Rightarrow> resolution option" where
  "single_match matches =
     (case matches of [] \<Rightarrow> None
      | [e] \<Rightarrow> Some (ResolutionFound e)
      | _ \<Rightarrow> Some (ResolutionAmbiguous (map ae_title matches)))"

fun first_available :: "app_catalog \<Rightarrow> string list \<Rightarrow> app_entry option" where
  "first_available catalog [] = None"
| "first_available catalog (i # ids) =
     (case catalog_get catalog i of Some e \<Rightarrow> Some e | None \<Rightarrow> first_available catalog ids)"

fun category_match :: "unicode \<Rightarrow> app_catalog \<Rightarrow> string \<Rightarrow> (string \<times> string list) list \<Rightarrow> app_entry option" where
  "category_match U catalog query [] = None"
| "category_match U catalog query ((category, order) # rest) =
     (if app_normalize U category \<noteq> query then category_match U catalog query rest
      else case first_available catalog order of Some e \<Rightarrow> Some e | None \<Rightarrow> category_match U catalog query rest)"

definition catalog_resolve_app :: "unicode \<Rightarrow> app_catalog \<Rightarrow> string \<Rightarrow> resolution" where
  "catalog_resolve_app U catalog query0 =
     (let query = strip_filler_words (app_normalize U query0) in
      if query = [] then ResolutionNotFound
      else case single_match (filter (exact_match U query) catalog) of Some r \<Rightarrow> r
      | None \<Rightarrow>
          case single_match (filter (partial_match U query) catalog) of Some r \<Rightarrow> r
          | None \<Rightarrow>
              case category_match U catalog query CATEGORIES of Some e \<Rightarrow> ResolutionFound e | None \<Rightarrow> ResolutionNotFound)"

section \<open>The catalogue\<close>

definition app_catalog_ok :: "unicode \<Rightarrow> app_catalog \<Rightarrow> bool" where
  "app_catalog_ok U c \<longleftrightarrow>
     distinct (map ae_id c) \<and> (\<forall>e\<in>set c. id_is_wire_safe (ae_id e) \<and> str_trim U (ae_title e) \<noteq> [])"

lemma app_upsert_ok: "app_catalog_ok U c \<Longrightarrow> app_catalog_ok U (app_upsert U c e)"
  by (auto simp: app_catalog_ok_def app_upsert_def update_first_map dest!: set_update_first)

lemma add_discovered_ok: "app_catalog_ok U c \<Longrightarrow> app_catalog_ok U (add_discovered U c e)"
  using app_upsert_ok [of U c e]
  by (auto simp: app_catalog_ok_def add_discovered_def update_first_map dest!: set_update_first)

lemma foldl_keeps: "(\<And>c e. P c \<Longrightarrow> P (f c e)) \<Longrightarrow> P c \<Longrightarrow> P (foldl f c es)"
  by (induction es arbitrary: c) simp_all

lemma from_entries_ok: "app_catalog_ok U (from_entries U es)"
  unfolding from_entries_def by (rule foldl_keeps) (simp_all add: app_upsert_ok app_catalog_ok_def [of U "[]"])

lemma discover_unsorted_ok:
  "app_catalog_ok U (case user of None \<Rightarrow> foldl (add_discovered U) (from_entries U b) r
     | Some es \<Rightarrow> foldl (app_upsert U) (foldl (add_discovered U) (from_entries U b) r) es)"
  by (auto split: option.split intro: foldl_keeps [of "app_catalog_ok U"] app_upsert_ok add_discovered_ok from_entries_ok)

text \<open>The catalogue that discovery builds, whatever the three sources hold, has at most 512 entries in strictly
  ascending order of their keys; every key is one that an event may carry and every entry has a title.\<close>

theorem discover_well_formed:
  "length (discover U b r user) \<le> 512 \<and> sorted_wrt (<) (map ae_id (discover U b r user))
   \<and> (\<forall>e\<in>set (discover U b r user). id_is_wire_safe (ae_id e) \<and> str_trim U (ae_title e) \<noteq> [])"
proof -
  define c where "c = (case user of None \<Rightarrow> foldl (add_discovered U) (from_entries U b) r
     | Some es \<Rightarrow> foldl (app_upsert U) (foldl (add_discovered U) (from_entries U b) r) es)"
  have d: "discover U b r user = take 512 (sort_key ae_id c)" by (simp add: discover_def c_def Let_def MAX_ENTRIES_def)
  have ok: "app_catalog_ok U c" unfolding c_def by (rule discover_unsorted_ok)
  have "distinct (map ae_id (sort_key ae_id c))"
    using ok by (simp add: app_catalog_ok_def distinct_map)
  then have "sorted_wrt (<) (map ae_id (sort_key ae_id c))" by (simp add: strict_sorted_iff)
  then have "sorted_wrt (<) (map ae_id (take 512 (sort_key ae_id c)))"
    by (metis sorted_wrt_take take_map)
  moreover have "set (take 512 (sort_key ae_id c)) \<subseteq> set c" by (metis set_sort set_take_subset)
  ultimately show ?thesis using ok d by (auto simp: app_catalog_ok_def)
qed

section \<open>Resolution does not guess\<close>

lemma single_match_Found: "single_match ms = Some (ResolutionFound e) \<longleftrightarrow> ms = [e]"
  by (auto simp: single_match_def split: list.splits)

lemma single_match_None: "single_match ms = None \<longleftrightarrow> ms = []"
  by (auto simp: single_match_def split: list.splits)

lemma catalog_get_Some: "catalog_get c i = Some e \<Longrightarrow> e \<in> set c \<and> ae_id e = i"
  by (auto simp: catalog_get_def find_Some_iff)

lemma first_available_Some:
  "first_available c ids = Some e \<Longrightarrow>
   \<exists>before after. ids = before @ ae_id e # after \<and> e \<in> set c \<and> (\<forall>i\<in>set before. catalog_get c i = None)"
proof (induction ids)
  case (Cons i ids)
  show ?case
  proof (cases "catalog_get c i")
    case None
    with Cons obtain before after where "ids = before @ ae_id e # after" "e \<in> set c" "\<forall>i\<in>set before. catalog_get c i = None"
      by auto
    with None show ?thesis by (intro exI [of _ "i # before"] exI [of _ after]) simp
  next
    case (Some e')
    with Cons.prems have "e' = e" by simp
    with Some catalog_get_Some [of c i e] show ?thesis by (intro exI [of _ "[]"] exI [of _ ids]) auto
  qed
qed simp

lemma category_match_Some:
  "category_match U c q cats = Some e \<Longrightarrow>
   \<exists>category order. (category, order) \<in> set cats \<and> app_normalize U category = q \<and> first_available c order = Some e"
  by (induction U c q cats rule: category_match.induct) (auto split: if_splits option.splits)

text \<open>Resolution does not guess between applications. What it finds is an entry of the catalogue, and it is the only
  entry whose name is the query; or no name is, and it is the only one with a name that continues the query or begins it;
  or there is none of either, the query is the word of a category, and the entry is the first of the category's list that
  the catalogue has.\<close>

theorem resolve_does_not_guess:
  assumes "catalog_resolve_app U c query0 = ResolutionFound e" "query = strip_filler_words (app_normalize U query0)"
  shows "query \<noteq> [] \<and> e \<in> set c \<and>
    (filter (exact_match U query) c = [e]
     \<or> filter (exact_match U query) c = [] \<and> filter (partial_match U query) c = [e]
     \<or> filter (exact_match U query) c = [] \<and> filter (partial_match U query) c = []
       \<and> (\<exists>category before after. (category, before @ ae_id e # after) \<in> set CATEGORIES \<and> app_normalize U category = query
            \<and> (\<forall>i\<in>set before. catalog_get c i = None)))"
proof -
  have in_filter: "filter P c = [e] \<Longrightarrow> e \<in> set c" for P by (metis filter_is_subset list.set_intros(1) subsetD)
  have ne: "query \<noteq> []" using assms by (auto simp: catalog_resolve_app_def Let_def split: if_splits)
  consider (exact) "single_match (filter (exact_match U query) c) = Some (ResolutionFound e)"
    | (part) "single_match (filter (exact_match U query) c) = None" "single_match (filter (partial_match U query) c) = Some (ResolutionFound e)"
    | (cat) "single_match (filter (exact_match U query) c) = None" "single_match (filter (partial_match U query) c) = None"
        "category_match U c query CATEGORIES = Some e"
    using assms ne by (auto simp: catalog_resolve_app_def Let_def split: option.splits)
  then show ?thesis
  proof cases
    case exact
    then show ?thesis using ne in_filter by (simp add: single_match_Found)
  next
    case part
    then show ?thesis using ne in_filter by (simp add: single_match_Found single_match_None)
  next
    case cat
    then obtain category order where co: "(category, order) \<in> set CATEGORIES" "app_normalize U category = query"
      "first_available c order = Some e" using category_match_Some by blast
    obtain before after where "order = before @ ae_id e # after" "e \<in> set c" "\<forall>i\<in>set before. catalog_get c i = None"
      using first_available_Some [OF co(3)] by blast
    with cat co ne show ?thesis unfolding single_match_None by blast
  qed
qed

definition example_entry :: "string \<Rightarrow> string \<Rightarrow> app_entry" where
  "example_entry i t = \<lparr>ae_id = i, ae_title = t, ae_aliases = [], ae_exec = ''/'' @ i, ae_args = []\<rparr>"

definition ascii_unicode :: unicode where
  "ascii_unicode = plain_unicode\<lparr>uc_is_alphanumeric := (\<lambda>c. c \<noteq> '' '')\<rparr>"

theorem resolve_does_not_guess_witness:
  "catalog_resolve_app ascii_unicode [example_entry ''code'' ''visual'', example_entry ''wt'' ''terminal''] ''app terminal''
     = ResolutionFound (example_entry ''wt'' ''terminal'')
   \<and> strip_filler_words (app_normalize ascii_unicode ''app terminal'') \<noteq> []"
proof -
  have r: "catalog_resolve_app ascii_unicode [example_entry ''code'' ''visual'', example_entry ''wt'' ''terminal''] ''app terminal''
     = ResolutionFound (example_entry ''wt'' ''terminal'')" by code_simp
  from resolve_does_not_guess [OF r refl] r show ?thesis by simp
qed

end
