(* ===== verification/Voice_Command.thy ===== *)
theory Voice_Command
  imports App_Catalog Ambient_Policy Ambient_Log
begin

text \<open>
  \<open>crates/evohime-core/src/voice_command.rs\<close>: recognising a command addressed to the assistant in a phrase, the queue of
  heard commands that wait for a decision, the cached catalogue, and what happens to a heard phrase. The catalogue that
  \<open>default_catalog\<close> discovers when the cache is too old is an argument. The locks are taken for one operation each, so an
  operation is one step on the registry.
\<close>

section \<open>Parsing a phrase\<close>

definition WAKE_WORDS :: "string list" where
  "WAKE_WORDS = [
      [CHR 0xD0, CHR 0xB5, CHR 0xD0, CHR 0xB2, CHR 0xD0, CHR 0xB0],
      [CHR 0xD1, CHR 0x8D, CHR 0xD0, CHR 0xB2, CHR 0xD0, CHR 0xB0]]"

definition OPEN_VERBS :: "string list" where
  "OPEN_VERBS = [
      [CHR 0xD0, CHR 0xBE, CHR 0xD1, CHR 0x82, CHR 0xD0, CHR 0xBA, CHR 0xD1, CHR 0x80, CHR 0xD0, CHR 0xBE, CHR 0xD0, CHR 0xB9],
      [CHR 0xD0, CHR 0xBE, CHR 0xD1, CHR 0x82, CHR 0xD0, CHR 0xBA, CHR 0xD1, CHR 0x80, CHR 0xD0, CHR 0xBE, CHR 0xD0, CHR 0xB8],
      [CHR 0xD0, CHR 0xBE, CHR 0xD1, CHR 0x82, CHR 0xD0, CHR 0xBA, CHR 0xD1, CHR 0x80, CHR 0xD1, CHR 0x8B, CHR 0xD1, CHR 0x82, CHR 0xD1, CHR 0x8C],
      [CHR 0xD0, CHR 0xB7, CHR 0xD0, CHR 0xB0, CHR 0xD0, CHR 0xBF, CHR 0xD1, CHR 0x83, CHR 0xD1, CHR 0x81, CHR 0xD1, CHR 0x82, CHR 0xD0, CHR 0xB8],
      [CHR 0xD0, CHR 0xB7, CHR 0xD0, CHR 0xB0, CHR 0xD0, CHR 0xBF, CHR 0xD1, CHR 0x83, CHR 0xD1, CHR 0x81, CHR 0xD1, CHR 0x82, CHR 0xD0, CHR 0xB8, CHR 0xD1, CHR 0x82, CHR 0xD1, CHR 0x8C],
      [CHR 0xD0, CHR 0xB2, CHR 0xD0, CHR 0xBA, CHR 0xD0, CHR 0xBB, CHR 0xD1, CHR 0x8E, CHR 0xD1, CHR 0x87, CHR 0xD0, CHR 0xB8],
      [CHR 0xD0, CHR 0xB2, CHR 0xD0, CHR 0xBA, CHR 0xD0, CHR 0xBB, CHR 0xD1, CHR 0x8E, CHR 0xD1, CHR 0x87, CHR 0xD0, CHR 0xB8, CHR 0xD1, CHR 0x82, CHR 0xD1, CHR 0x8C]]"

definition BRIDGE_WORDS :: "string list" where
  "BRIDGE_WORDS = [
      [CHR 0xD0, CHR 0xB0],
      [CHR 0xD0, CHR 0xBD, CHR 0xD1, CHR 0x83],
      [CHR 0xD1, CHR 0x81, CHR 0xD0, CHR 0xBB, CHR 0xD1, CHR 0x83, CHR 0xD1, CHR 0x88, CHR 0xD0, CHR 0xB0, CHR 0xD0, CHR 0xB9],
      [CHR 0xD0, CHR 0xBF, CHR 0xD0, CHR 0xBE, CHR 0xD0, CHR 0xB6, CHR 0xD0, CHR 0xB0, CHR 0xD0, CHR 0xBB, CHR 0xD1, CHR 0x83, CHR 0xD0, CHR 0xB9, CHR 0xD1, CHR 0x81, CHR 0xD1, CHR 0x82, CHR 0xD0, CHR 0xB0],
      [CHR 0xD0, CHR 0xB4, CHR 0xD0, CHR 0xB0, CHR 0xD0, CHR 0xB2, CHR 0xD0, CHR 0xB0, CHR 0xD0, CHR 0xB9],
      [CHR 0xD0, CHR 0xBA, CHR 0xD0, CHR 0xB0]]"

definition MAX_BRIDGE_WORDS :: nat where "MAX_BRIDGE_WORDS = 2"
definition MAX_TARGET_WORDS :: nat where "MAX_TARGET_WORDS = 4"
definition MAX_TARGET_CHARS :: nat where "MAX_TARGET_CHARS = 64"

record voice_intent =
  vi_kind :: voice_command_kind
  vi_target :: string

text \<open>The words after the first wake word.\<close>

fun after_wake :: "string list \<Rightarrow> string list option" where
  "after_wake [] = None"
| "after_wake (w # ws) = (if w \<in> set WAKE_WORDS then Some ws else after_wake ws)"

text \<open>The loop over the bridge words; \<open>None\<close> is the return when there are too many.\<close>

fun skip_bridge :: "string list \<Rightarrow> nat \<Rightarrow> string list option" where
  "skip_bridge [] bridged = Some []"
| "skip_bridge (w # ws) bridged =
     (if w \<in> set BRIDGE_WORDS
      then if bridged + 1 > MAX_BRIDGE_WORDS then None else skip_bridge ws (bridged + 1)
      else Some (w # ws))"

definition voice_parse :: "unicode \<Rightarrow> string \<Rightarrow> voice_intent option" where
  "voice_parse U text =
     (let normalized = app_normalize U text in
      if normalized = [] then None
      else case after_wake (filter (\<lambda>w. w \<noteq> []) (split_spaces normalized)) of None \<Rightarrow> None
      | Some words \<Rightarrow>
          case skip_bridge words 0 of None \<Rightarrow> None
          | Some [] \<Rightarrow> None
          | Some (verb # rest) \<Rightarrow>
              if verb \<notin> set OPEN_VERBS then None
              else let target = strip_filler_words (str_join '' '' rest) in
                if target = [] \<or> length (split_spaces target) > MAX_TARGET_WORDS
                   \<or> length (utf8_chars target) > MAX_TARGET_CHARS
                then None
                else Some \<lparr>vi_kind = OpenApp, vi_target = target\<rparr>)"

section \<open>The queue\<close>

definition COMMAND_TTL_MS :: u64 where "COMMAND_TTL_MS = 5 * 60 * 1000"
definition MAX_PENDING :: nat where "MAX_PENDING = 8"
definition CATALOG_TTL_MS :: u64 where "CATALOG_TTL_MS = 5 * 60 * 1000"

record pending_command =
  pcmd_command_id :: string
  pcmd_kind :: voice_command_kind
  pcmd_app_id :: string
  pcmd_title :: string
  pcmd_created_at_ms :: u64

definition command_expires_at_ms :: "pending_command \<Rightarrow> u64" where
  "command_expires_at_ms c = sat_add (pcmd_created_at_ms c) COMMAND_TTL_MS"

definition command_is_expired :: "u64 \<Rightarrow> pending_command \<Rightarrow> bool" where
  "command_is_expired now_ms c \<longleftrightarrow> now_ms \<ge> command_expires_at_ms c"

datatype voice_decision = VoiceIgnore | VoiceConfirm pending_command | VoiceAutorun pending_command

record voice_registry =
  vr_pending :: "pending_command list"
  vr_catalog :: "(u64 \<times> app_catalog) option"
  vr_fixed_catalog :: "app_catalog option"

definition voice_registry_new :: voice_registry where
  "voice_registry_new = \<lparr>vr_pending = [], vr_catalog = None, vr_fixed_catalog = None\<rparr>"

definition voice_with_catalog :: "app_catalog \<Rightarrow> voice_registry" where
  "voice_with_catalog catalog = voice_registry_new\<lparr>vr_fixed_catalog := Some catalog\<rparr>"

definition voice_catalog :: "app_catalog \<Rightarrow> u64 \<Rightarrow> voice_registry \<Rightarrow> app_catalog \<times> voice_registry" where
  "voice_catalog discovered now_ms r =
     (case vr_fixed_catalog r of Some catalog \<Rightarrow> (catalog, r)
      | None \<Rightarrow>
          let fresh = (discovered, r\<lparr>vr_catalog := Some (now_ms, discovered)\<rparr>) in
          case vr_catalog r of None \<Rightarrow> fresh
          | Some (built_at, catalog) \<Rightarrow>
              if sat_sub now_ms built_at < CATALOG_TTL_MS \<and> now_ms \<ge> built_at then (catalog, r) else fresh)"

definition voice_list :: "u64 \<Rightarrow> voice_registry \<Rightarrow> pending_command list \<times> voice_registry" where
  "voice_list now_ms r =
     (let pending = filter (\<lambda>c. \<not> command_is_expired now_ms c) (vr_pending r) in (pending, r\<lparr>vr_pending := pending\<rparr>))"

text \<open>\<open>VecDeque::remove\<close> at the position found.\<close>

fun take_first :: "('a \<Rightarrow> bool) \<Rightarrow> 'a list \<Rightarrow> 'a option \<times> 'a list" where
  "take_first p [] = (None, [])"
| "take_first p (x # xs) = (if p x then (Some x, xs) else (case take_first p xs of (y, ys) \<Rightarrow> (y, x # ys)))"

definition voice_take :: "string \<Rightarrow> u64 \<Rightarrow> voice_registry \<Rightarrow> pending_command option \<times> voice_registry" where
  "voice_take command_id now_ms r =
     (case take_first (\<lambda>c. pcmd_command_id c = command_id) (filter (\<lambda>c. \<not> command_is_expired now_ms c) (vr_pending r)) of
        (found, pending) \<Rightarrow> (found, r\<lparr>vr_pending := pending\<rparr>))"

definition voice_expire :: "u64 \<Rightarrow> voice_registry \<Rightarrow> pending_command list \<times> voice_registry" where
  "voice_expire now_ms r =
     (filter (command_is_expired now_ms) (vr_pending r),
      r\<lparr>vr_pending := filter (\<lambda>c. \<not> command_is_expired now_ms c) (vr_pending r)\<rparr>)"

text \<open>\<open>while pending.len() > MAX_PENDING { pending.pop_front(); }\<close>.\<close>

definition pop_front_over :: "nat \<Rightarrow> 'a list \<Rightarrow> 'a list" where
  "pop_front_over n xs = drop (length xs - n) xs"

definition voice_record :: "pending_command \<Rightarrow> voice_registry \<Rightarrow> voice_registry" where
  "voice_record command r =
     (let pending = filter (\<lambda>c. \<not> command_is_expired (pcmd_created_at_ms command) c) (vr_pending r);
          pending = filter (\<lambda>c. pcmd_app_id c \<noteq> pcmd_app_id command) pending @ [command]
      in r\<lparr>vr_pending := pop_front_over MAX_PENDING pending\<rparr>)"

section \<open>Decision\<close>

definition voice_decide ::
    "unicode \<Rightarrow> app_catalog \<Rightarrow> ambient_policy \<Rightarrow> string \<Rightarrow> u64 \<Rightarrow> string \<Rightarrow> voice_registry \<Rightarrow> voice_decision \<times> voice_registry" where
  "voice_decide U discovered policy text now_ms command_id r =
     (if \<not> ap_voice_commands policy \<or> ap_paused policy then (VoiceIgnore, r)
      else case voice_parse U text of None \<Rightarrow> (VoiceIgnore, r)
      | Some intent \<Rightarrow>
          case voice_catalog discovered now_ms r of (catalog, r) \<Rightarrow>
          case catalog_resolve_app U catalog (vi_target intent) of
            ResolutionFound entry \<Rightarrow>
              let command = \<lparr>pcmd_command_id = command_id, pcmd_kind = vi_kind intent, pcmd_app_id = ae_id entry,
                    pcmd_title = ae_title entry, pcmd_created_at_ms = now_ms\<rparr>
              in if ap_voice_commands_autorun policy then (VoiceAutorun command, r)
                 else (VoiceConfirm command, voice_record command r)
          | _ \<Rightarrow> (VoiceIgnore, r))"

text \<open>\<open>launch\<close>: the entry that is started, or \<open>None\<close> for the error of an application that the catalogue no longer has.\<close>

definition voice_launch_entry :: "app_catalog \<Rightarrow> pending_command \<Rightarrow> u64 \<Rightarrow> voice_registry \<Rightarrow> app_entry option \<times> voice_registry" where
  "voice_launch_entry discovered command now_ms r =
     (case voice_catalog discovered now_ms r of (catalog, r) \<Rightarrow> (catalog_get catalog (pcmd_app_id command), r))"

section \<open>What a phrase must say\<close>

lemma after_wake_Some:
  "after_wake ws = Some rest \<longleftrightarrow>
   (\<exists>before w. ws = before @ w # rest \<and> w \<in> set WAKE_WORDS \<and> set before \<inter> set WAKE_WORDS = {})"
proof (induction ws)
  case (Cons x ws)
  show ?case
  proof (cases "x \<in> set WAKE_WORDS")
    case True
    have "(\<exists>before w. x # ws = before @ w # rest \<and> w \<in> set WAKE_WORDS \<and> set before \<inter> set WAKE_WORDS = {}) \<longleftrightarrow> ws = rest"
    proof
      assume "\<exists>before w. x # ws = before @ w # rest \<and> w \<in> set WAKE_WORDS \<and> set before \<inter> set WAKE_WORDS = {}"
      then obtain before w where b: "x # ws = before @ w # rest" "set before \<inter> set WAKE_WORDS = {}" by blast
      with True show "ws = rest" by (cases before) auto
    qed (use True in \<open>intro exI [of _ "[]"] exI [of _ x], simp\<close>)
    with True show ?thesis by simp
  next
    case False
    have "(\<exists>before w. x # ws = before @ w # rest \<and> w \<in> set WAKE_WORDS \<and> set before \<inter> set WAKE_WORDS = {}) \<longleftrightarrow>
      (\<exists>before w. ws = before @ w # rest \<and> w \<in> set WAKE_WORDS \<and> set before \<inter> set WAKE_WORDS = {})"
    proof
      assume "\<exists>before w. x # ws = before @ w # rest \<and> w \<in> set WAKE_WORDS \<and> set before \<inter> set WAKE_WORDS = {}"
      then obtain before w where b: "x # ws = before @ w # rest" "w \<in> set WAKE_WORDS" "set before \<inter> set WAKE_WORDS = {}" by blast
      with False obtain before' where "before = x # before'" by (cases before) auto
      with b show "\<exists>before w. ws = before @ w # rest \<and> w \<in> set WAKE_WORDS \<and> set before \<inter> set WAKE_WORDS = {}" by auto
    next
      assume "\<exists>before w. ws = before @ w # rest \<and> w \<in> set WAKE_WORDS \<and> set before \<inter> set WAKE_WORDS = {}"
      then obtain before w where "ws = before @ w # rest" "w \<in> set WAKE_WORDS" "set before \<inter> set WAKE_WORDS = {}" by blast
      with False show "\<exists>before w. x # ws = before @ w # rest \<and> w \<in> set WAKE_WORDS \<and> set before \<inter> set WAKE_WORDS = {}"
        by (intro exI [of _ "x # before"] exI [of _ w]) simp
    qed
    with False Cons show ?thesis by simp
  qed
qed simp

lemma skip_bridge_Some:
  "skip_bridge ws n = Some rest \<Longrightarrow> n \<le> 2 \<Longrightarrow>
   \<exists>bridge. ws = bridge @ rest \<and> set bridge \<subseteq> set BRIDGE_WORDS \<and> n + length bridge \<le> 2"
proof (induction ws arbitrary: n)
  case (Cons w ws)
  show ?case
  proof (cases "w \<in> set BRIDGE_WORDS")
    case True
    with Cons.prems have "n + 1 \<le> 2" "skip_bridge ws (n + 1) = Some rest"
      by (auto simp: MAX_BRIDGE_WORDS_def split: if_splits)
    with Cons.IH obtain bridge where "ws = bridge @ rest" "set bridge \<subseteq> set BRIDGE_WORDS" "n + 1 + length bridge \<le> 2" by blast
    with True show ?thesis by (intro exI [of _ "w # bridge"]) simp
  next
    case False
    with Cons.prems show ?thesis by (intro exI [of _ "[]"]) simp
  qed
qed simp

lemma voice_parse_Some:
  assumes "voice_parse U text = Some i"
  shows "\<exists>before wake bridge verb rest.
    filter (\<lambda>w. w \<noteq> []) (split_spaces (app_normalize U text)) = before @ wake # bridge @ verb # rest
    \<and> wake \<in> set WAKE_WORDS \<and> set before \<inter> set WAKE_WORDS = {} \<and> set bridge \<subseteq> set BRIDGE_WORDS \<and> length bridge \<le> 2
    \<and> verb \<in> set OPEN_VERBS \<and> vi_target i = strip_filler_words (str_join '' '' rest) \<and> vi_target i \<noteq> []
    \<and> length (split_spaces (vi_target i)) \<le> 4 \<and> length (utf8_chars (vi_target i)) \<le> 64"
proof -
  from assms obtain words verb rest where w:
    "after_wake (filter (\<lambda>w. w \<noteq> []) (split_spaces (app_normalize U text))) = Some words"
    "skip_bridge words 0 = Some (verb # rest)" "verb \<in> set OPEN_VERBS" "vi_target i = strip_filler_words (str_join '' '' rest)"
    "vi_target i \<noteq> [] \<and> length (split_spaces (vi_target i)) \<le> 4 \<and> length (utf8_chars (vi_target i)) \<le> 64"
    by (auto simp: voice_parse_def Let_def MAX_TARGET_WORDS_def MAX_TARGET_CHARS_def split: if_splits option.splits list.splits)
  obtain before wake where "filter (\<lambda>w. w \<noteq> []) (split_spaces (app_normalize U text)) = before @ wake # words"
    "wake \<in> set WAKE_WORDS" "set before \<inter> set WAKE_WORDS = {}" using w(1) unfolding after_wake_Some by blast
  moreover obtain bridge where "words = bridge @ verb # rest" "set bridge \<subseteq> set BRIDGE_WORDS" "length bridge \<le> 2"
    using skip_bridge_Some [OF w(2)] by auto
  ultimately show ?thesis using w by blast
qed

section \<open>The queue keeps its bounds\<close>

definition voice_ok :: "voice_registry \<Rightarrow> bool" where
  "voice_ok r \<longleftrightarrow> length (vr_pending r) \<le> 8 \<and> distinct (map pcmd_app_id (vr_pending r))"

lemma take_first_spec:
  "take_first p xs = (None, ys) \<Longrightarrow> ys = xs \<and> (\<forall>x\<in>set xs. \<not> p x)"
  "take_first p xs = (Some x, ys) \<Longrightarrow> p x \<and> (\<exists>us vs. xs = us @ x # vs \<and> ys = us @ vs \<and> (\<forall>u\<in>set us. \<not> p u))"
proof (induction xs arbitrary: ys)
  case (Cons a xs)
  {
    case 1
    with Cons(1) show ?case by (auto split: if_splits prod.splits)
  next
    case 2
    show ?case
    proof (cases "p a")
      case True
      with 2 show ?thesis by (auto intro: exI [of _ "[]"])
    next
      case False
      with 2 obtain zs where "take_first p xs = (Some x, zs)" "ys = a # zs" by (auto split: prod.splits)
      with Cons(2) obtain us vs where "p x" "xs = us @ x # vs" "zs = us @ vs" "\<forall>u\<in>set us. \<not> p u" by blast
      with False \<open>ys = a # zs\<close> show ?thesis by (intro conjI exI [of _ "a # us"] exI [of _ vs]) auto
    qed
  }
qed simp_all

lemma take_first_keeps:
  "take_first p xs = (y, ys) \<Longrightarrow> length ys \<le> length xs \<and> set ys \<subseteq> set xs \<and> (distinct (map f xs) \<longrightarrow> distinct (map f ys))"
proof (cases y)
  case None
  assume "take_first p xs = (y, ys)"
  with None take_first_spec(1) [of p xs ys] show ?thesis by simp
next
  case (Some x)
  assume "take_first p xs = (y, ys)"
  with Some take_first_spec(2) [of p xs x ys] show ?thesis by auto
qed

lemma pop_front_over_keeps:
  "length (pop_front_over n xs) \<le> n \<and> set (pop_front_over n xs) \<subseteq> set xs
   \<and> (distinct (map f xs) \<longrightarrow> distinct (map f (pop_front_over n xs)))"
  by (auto simp: pop_front_over_def drop_map [symmetric] dest: in_set_dropD)

lemma voice_catalog_pending: "vr_pending (snd (voice_catalog d t r)) = vr_pending r"
  by (auto simp: voice_catalog_def Let_def split: option.split)

lemma voice_list_ok: "voice_ok r \<Longrightarrow> voice_ok (snd (voice_list t r))"
  by (auto simp: voice_ok_def voice_list_def Let_def distinct_map_filter intro: le_trans [OF length_filter_le])

lemma voice_expire_ok: "voice_ok r \<Longrightarrow> voice_ok (snd (voice_expire t r))"
  by (auto simp: voice_ok_def voice_expire_def distinct_map_filter intro: le_trans [OF length_filter_le])

lemma voice_take_ok:
  assumes "voice_ok r"
  shows "voice_ok (snd (voice_take i t r))"
proof -
  let ?p = "filter (\<lambda>c. \<not> command_is_expired t c) (vr_pending r)"
  have p: "length ?p \<le> 8" "distinct (map pcmd_app_id ?p)"
    using assms by (auto simp: voice_ok_def distinct_map_filter intro: le_trans [OF length_filter_le])
  obtain x ys where t: "take_first (\<lambda>c. pcmd_command_id c = i) ?p = (x, ys)" by fastforce
  from take_first_keeps [OF t, of pcmd_app_id] p t show ?thesis by (simp add: voice_take_def voice_ok_def)
qed

lemma voice_record_ok:
  assumes "voice_ok r"
  shows "voice_ok (voice_record c r)"
proof -
  define q where "q = filter (\<lambda>x. pcmd_app_id x \<noteq> pcmd_app_id c)
    (filter (\<lambda>x. \<not> command_is_expired (pcmd_created_at_ms c) x) (vr_pending r)) @ [c]"
  have "distinct (map pcmd_app_id q)" using assms by (auto simp: voice_ok_def q_def distinct_map_filter)
  with pop_front_over_keeps [of 8 q pcmd_app_id] show ?thesis
    by (simp add: voice_ok_def voice_record_def Let_def MAX_PENDING_def q_def [symmetric] del: filter_filter)
qed

lemma voice_decide_ok: "voice_ok r \<Longrightarrow> voice_ok (snd (voice_decide U d p text t i r))"
  using voice_catalog_pending [of d t r] voice_record_ok
  by (auto simp: voice_decide_def Let_def voice_ok_def split: option.splits prod.splits resolution.splits)

datatype voice_op =
    VDecide unicode app_catalog ambient_policy string u64 string
  | VList u64
  | VTake string u64
  | VExpire u64
  | VLaunch app_catalog pending_command u64

fun voice_step :: "voice_op \<Rightarrow> voice_registry \<Rightarrow> unit \<times> voice_registry" where
  "voice_step (VDecide U d p text t i) r = ((), snd (voice_decide U d p text t i r))"
| "voice_step (VList t) r = ((), snd (voice_list t r))"
| "voice_step (VTake i t) r = ((), snd (voice_take i t r))"
| "voice_step (VExpire t) r = ((), snd (voice_expire t r))"
| "voice_step (VLaunch d c t) r = ((), snd (voice_launch_entry d c t r))"

lemma voice_launch_pending: "vr_pending (snd (voice_launch_entry d c t r)) = vr_pending r"
  using voice_catalog_pending [of d t r] by (auto simp: voice_launch_entry_def split: prod.split)

lemma voice_launch_ok: "voice_ok r \<Longrightarrow> voice_ok (snd (voice_launch_entry d c t r))"
  by (simp add: voice_ok_def voice_launch_pending)

lemma voice_step_ok: "voice_ok r \<Longrightarrow> voice_ok (snd (voice_step op r))"
  by (cases op) (simp_all add: voice_decide_ok voice_list_ok voice_take_ok voice_expire_ok voice_launch_ok)

interpretation voice: op_invariant voice_step voice_ok
  by unfold_locales (rule voice_step_ok)

text \<open>However the operations of the voice registry follow each other, at most eight cards wait for a decision, and no
  two of them are for one application: a phrase said again replaces its card.\<close>

theorem voice_queue_bounded:
  "length (vr_pending (run_ops voice_step ops voice_registry_new)) \<le> 8
   \<and> distinct (map pcmd_app_id (vr_pending (run_ops voice_step ops voice_registry_new)))"
  using voice.run_keeps [of voice_registry_new ops] by (simp add: voice_ok_def voice_registry_new_def)

section \<open>A card is decided once\<close>

definition no_card :: "string \<Rightarrow> voice_registry \<Rightarrow> bool" where
  "no_card i r \<longleftrightarrow> (\<forall>c\<in>set (vr_pending r). pcmd_command_id c \<noteq> i)"

fun op_issues :: "string \<Rightarrow> voice_op \<Rightarrow> bool" where
  "op_issues i (VDecide U d p text t j) = (i = j)"
| "op_issues i op = False"

lemma voice_record_no_card:
  assumes "no_card i r" "pcmd_command_id c \<noteq> i"
  shows "no_card i (voice_record c r)"
proof -
  define q where "q = filter (\<lambda>x. pcmd_app_id x \<noteq> pcmd_app_id c)
    (filter (\<lambda>x. \<not> command_is_expired (pcmd_created_at_ms c) x) (vr_pending r)) @ [c]"
  have "\<forall>x\<in>set q. pcmd_command_id x \<noteq> i" using assms by (auto simp: q_def no_card_def)
  with pop_front_over_keeps [of MAX_PENDING q pcmd_app_id] show ?thesis
    by (auto simp: no_card_def voice_record_def Let_def q_def [symmetric] simp del: filter_filter)
qed

lemma voice_take_no_card:
  assumes "no_card i r"
  shows "no_card i (snd (voice_take j t r))"
proof -
  obtain x ys where t: "take_first (\<lambda>c. pcmd_command_id c = j) (filter (\<lambda>c. \<not> command_is_expired t c) (vr_pending r)) = (x, ys)"
    by fastforce
  then have "set ys \<subseteq> set (vr_pending r)" using take_first_keeps [OF t, of pcmd_app_id] by auto
  with t assms show ?thesis by (auto simp: no_card_def voice_take_def)
qed

lemma no_card_pending: "vr_pending r = vr_pending r' \<Longrightarrow> no_card i r \<longleftrightarrow> no_card i r'"
  by (simp add: no_card_def)

lemma voice_decide_no_card:
  assumes "no_card i r" "i \<noteq> j"
  shows "no_card i (snd (voice_decide U d p text t j r))"
proof -
  obtain cat r' where c: "voice_catalog d t r = (cat, r')" by fastforce
  then have r': "no_card i r'" using voice_catalog_pending [of d t r] assms(1) no_card_pending [of r' r i] by simp
  have "no_card i (voice_record x r')" if "pcmd_command_id x = j" for x
    using r' that assms(2) by (intro voice_record_no_card) auto
  with r' assms(1) c show ?thesis by (auto simp: voice_decide_def Let_def split: option.splits resolution.splits)
qed

lemma voice_list_no_card:
  "no_card i r \<Longrightarrow> no_card i (snd (voice_list t r))" "no_card i r \<Longrightarrow> no_card i (snd (voice_expire t r))"
  by (auto simp: no_card_def voice_list_def voice_expire_def Let_def)

lemma voice_launch_no_card: "no_card i r \<Longrightarrow> no_card i (snd (voice_launch_entry d c t r))"
  by (simp add: no_card_def voice_launch_pending)

lemma voice_step_no_card: "no_card i r \<Longrightarrow> \<not> op_issues i op \<Longrightarrow> no_card i (snd (voice_step op r))"
  by (cases op) (simp_all add: voice_decide_no_card voice_take_no_card voice_list_no_card voice_launch_no_card)

lemma voice_run_no_card:
  "no_card i r \<Longrightarrow> list_all (\<lambda>op. \<not> op_issues i op) ops \<Longrightarrow> no_card i (run_ops voice_step ops r)"
  by (induction ops arbitrary: r) (simp_all add: voice_step_no_card del: voice_step.simps)

lemma voice_take_None: "no_card i r \<Longrightarrow> fst (voice_take i t r) = None"
proof -
  assume n: "no_card i r"
  obtain x ys where t: "take_first (\<lambda>c. pcmd_command_id c = i) (filter (\<lambda>c. \<not> command_is_expired t c) (vr_pending r)) = (x, ys)"
    by fastforce
  show ?thesis
  proof (cases x)
    case (Some c)
    with t take_first_spec(2) [of "\<lambda>c. pcmd_command_id c = i" _ c ys] obtain us vs where
      "pcmd_command_id c = i" "filter (\<lambda>c. \<not> command_is_expired t c) (vr_pending r) = us @ c # vs" by blast
    then have "c \<in> set (vr_pending r)" by (metis filter_is_subset in_set_conv_decomp subsetD)
    with n \<open>pcmd_command_id c = i\<close> show ?thesis by (simp add: no_card_def)
  qed (use t in \<open>simp add: voice_take_def\<close>)
qed

lemma length_filter_filter: "length (filter p (filter q xs)) \<le> length (filter p xs)"
  by (induction xs) auto

lemma voice_take_Some:
  assumes "voice_take i t r = (Some c, r')" "length (filter (\<lambda>c. pcmd_command_id c = i) (vr_pending r)) \<le> 1"
  shows "pcmd_command_id c = i \<and> c \<in> set (vr_pending r) \<and> \<not> command_is_expired t c \<and> no_card i r'"
proof -
  let ?p = "filter (\<lambda>c. \<not> command_is_expired t c) (vr_pending r)"
  obtain ys where t: "take_first (\<lambda>c. pcmd_command_id c = i) ?p = (Some c, ys)" "vr_pending r' = ys"
    using assms(1) by (auto simp: voice_take_def split: prod.splits)
  from take_first_spec(2) [OF t(1)] obtain us vs where uv: "pcmd_command_id c = i" "?p = us @ c # vs" "ys = us @ vs" by blast
  have "length (filter (\<lambda>c. pcmd_command_id c = i) ?p) \<le> length (filter (\<lambda>c. pcmd_command_id c = i) (vr_pending r))"
    by (rule length_filter_filter)
  with assms(2) have "length (filter (\<lambda>c. pcmd_command_id c = i) (us @ c # vs)) \<le> 1" unfolding uv(2) by (rule le_trans [rotated])
  then have "length (filter (\<lambda>c. pcmd_command_id c = i) (us @ vs)) = 0" using uv(1) by simp
  then have "filter (\<lambda>c. pcmd_command_id c = i) (us @ vs) = []" by (simp only: length_0_conv)
  moreover have "c \<in> set ?p" unfolding uv(2) by simp
  then have "c \<in> set (vr_pending r)" "\<not> command_is_expired t c" by simp_all
  ultimately show ?thesis using uv(1,3) t(2) by (auto simp: no_card_def filter_empty_conv)
qed

text \<open>A card is decided once. When \<open>take\<close> hands out a card, the card had not expired, and after whatever follows, as
  long as its identifier is not issued again, the same identifier takes nothing.\<close>

theorem card_decided_once:
  assumes "voice_take i t r = (Some c, r')" "length (filter (\<lambda>c. pcmd_command_id c = i) (vr_pending r)) \<le> 1"
    "list_all (\<lambda>op. \<not> op_issues i op) ops"
  shows "unat t < unat (pcmd_created_at_ms c) + 300000 \<and> fst (voice_take i t' (run_ops voice_step ops r')) = None"
proof
  note c = voice_take_Some [OF assms(1,2)]
  then have "unat t < unat (command_expires_at_ms c)" by (simp add: command_is_expired_def not_le word_less_nat_alt)
  also have "\<dots> \<le> unat (pcmd_created_at_ms c) + 300000"
    by (simp add: command_expires_at_ms_def unat_sat_add COMMAND_TTL_MS_def)
  finally show "unat t < unat (pcmd_created_at_ms c) + 300000" .
  show "fst (voice_take i t' (run_ops voice_step ops r')) = None"
    using c assms(3) by (intro voice_take_None voice_run_no_card) simp_all
qed

definition example_card :: pending_command where
  "example_card = \<lparr>pcmd_command_id = ''c1'', pcmd_kind = OpenApp, pcmd_app_id = ''chrome'', pcmd_title = ''Chrome'',
     pcmd_created_at_ms = 1000\<rparr>"

theorem card_decided_once_witness:
  "fst (voice_take ''c1'' 1500 (voice_registry_new\<lparr>vr_pending := [example_card]\<rparr>)) = Some example_card
   \<and> fst (voice_take ''c1'' 1600 (run_ops voice_step [VList 1550]
       (snd (voice_take ''c1'' 1500 (voice_registry_new\<lparr>vr_pending := [example_card]\<rparr>))))) = None"
proof -
  let ?r = "voice_registry_new\<lparr>vr_pending := [example_card]\<rparr>"
  have f: "fst (voice_take ''c1'' 1500 ?r) = Some example_card" by code_simp
  then have "voice_take ''c1'' 1500 ?r = (Some example_card, snd (voice_take ''c1'' 1500 ?r))" by (metis prod.collapse)
  from card_decided_once [OF this, of "[VList 1550]" 1600] f show ?thesis by simp
qed

section \<open>What a heard phrase may do\<close>

lemma voice_decide_acts:
  assumes "voice_decide U d policy text t i r = (dec, r')" "dec = VoiceConfirm c \<or> dec = VoiceAutorun c"
  shows "\<exists>intent catalog entry. voice_parse U text = Some intent \<and> fst (voice_catalog d t r) = catalog
    \<and> catalog_resolve_app U catalog (vi_target intent) = ResolutionFound entry
    \<and> pcmd_app_id c = ae_id entry \<and> pcmd_command_id c = i \<and> pcmd_created_at_ms c = t
    \<and> ap_voice_commands policy \<and> \<not> ap_paused policy
    \<and> (if ap_voice_commands_autorun policy then dec = VoiceAutorun c \<and> vr_pending r' = vr_pending r
       else dec = VoiceConfirm c \<and> r' = voice_record c (snd (voice_catalog d t r)))"
  using assms voice_catalog_pending [of d t r]
  by (auto simp: voice_decide_def Let_def split: if_splits option.splits prod.splits resolution.splits)

text \<open>C31: A heard phrase acts only as the policy allows. A card or a start follows only when voice commands are on and
  listening is not paused, and only from a phrase in which a wake word is followed, after at most two bridge words, by a
  verb of opening; the application is the one entry of the catalogue that its rest resolves to. Without the policy's
  autorun the outcome is a card, never a start.\<close>

theorem heard_phrase_acts:
  assumes "voice_decide U d policy text t i r = (dec, r')" "dec = VoiceConfirm c \<or> dec = VoiceAutorun c"
  shows "ap_voice_commands policy \<and> \<not> ap_paused policy \<and> (ap_voice_commands_autorun policy \<longleftrightarrow> dec = VoiceAutorun c)
    \<and> (\<exists>before wake bridge verb rest entry.
        filter (\<lambda>w. w \<noteq> []) (split_spaces (app_normalize U text)) = before @ wake # bridge @ verb # rest
        \<and> wake \<in> set WAKE_WORDS \<and> set bridge \<subseteq> set BRIDGE_WORDS \<and> length bridge \<le> 2 \<and> verb \<in> set OPEN_VERBS
        \<and> catalog_resolve_app U (fst (voice_catalog d t r)) (strip_filler_words (str_join '' '' rest)) = ResolutionFound entry
        \<and> pcmd_app_id c = ae_id entry)"
proof -
  obtain intent entry where e: "voice_parse U text = Some intent"
    "catalog_resolve_app U (fst (voice_catalog d t r)) (vi_target intent) = ResolutionFound entry" "pcmd_app_id c = ae_id entry"
    and pol: "ap_voice_commands policy" "\<not> ap_paused policy" "ap_voice_commands_autorun policy \<longleftrightarrow> dec = VoiceAutorun c"
    using voice_decide_acts [OF assms] by (auto split: if_splits)
  from voice_parse_Some [OF e(1)] e pol show ?thesis by metis
qed

definition heard_text :: string where
  "heard_text = [CHR 0xD0, CHR 0xB5, CHR 0xD0, CHR 0xB2, CHR 0xD0, CHR 0xB0, CHR 0x20, CHR 0xD0, CHR 0xBE, CHR 0xD1, CHR 0x82, CHR 0xD0, CHR 0xBA, CHR 0xD1, CHR 0x80, CHR 0xD0, CHR 0xBE, CHR 0xD0, CHR 0xB9] @ '' chrome''"

theorem heard_phrase_acts_witness:
  "fst (voice_decide ascii_unicode [] ambient_policy_default heard_text 1000 ''c1''
     (voice_with_catalog [example_entry ''chrome'' ''Chrome''])) = VoiceConfirm (example_card)
   \<and> ap_voice_commands ambient_policy_default \<and> \<not> ap_paused ambient_policy_default"
proof -
  let ?r = "voice_with_catalog [example_entry ''chrome'' ''Chrome'']"
  have f: "fst (voice_decide ascii_unicode [] ambient_policy_default heard_text 1000 ''c1'' ?r) = VoiceConfirm example_card"
    by code_simp
  then have "voice_decide ascii_unicode [] ambient_policy_default heard_text 1000 ''c1'' ?r
    = (VoiceConfirm example_card, snd (voice_decide ascii_unicode [] ambient_policy_default heard_text 1000 ''c1'' ?r))"
    by (metis prod.collapse)
  from heard_phrase_acts [OF this] f show ?thesis by simp
qed
text \<open>The wake word need not begin the phrase.\<close>

theorem wake_word_anywhere:
  "voice_parse ascii_unicode (''we said '' @ heard_text) = Some \<lparr>vi_kind = OpenApp, vi_target = ''chrome''\<rparr>"
  by code_simp

end
