(* ===== verification/Audio_Segmenter.thy ===== *)
theory Audio_Segmenter
  imports Listener_Contract
begin

text \<open>
  \<open>crates/evohime-listener-audio/src/lib.rs\<close>: the ring buffer, the segmenter that cuts the stream of frames into segments
  of speech, the integer decimation and the identifiers of capture devices. A sample is of any type: the segmenter only
  copies samples. The voice decision of a frame is an argument (the detector computes in \<open>f32\<close>), as are the devices of
  the system. \<open>usize\<close> is \<^typ>\<open>nat\<close>; the duration of a segment is computed in \<open>u32\<close> with the wrap-around of a release build.
\<close>

section \<open>Ring buffer\<close>

record 'a ring_buffer =
  rb_samples :: "'a list"
  rb_capacity :: nat

definition ring_new :: "nat \<Rightarrow> 'a ring_buffer" where
  "ring_new capacity = \<lparr>rb_samples = [], rb_capacity = capacity\<rparr>"

fun ring_push_loop :: "nat \<Rightarrow> 'a list \<Rightarrow> 'a list \<Rightarrow> 'a list" where
  "ring_push_loop capacity samples [] = samples"
| "ring_push_loop capacity samples (x # xs) =
     ring_push_loop capacity ((if length samples = capacity then tl samples else samples) @ [x]) xs"

definition ring_push :: "'a ring_buffer \<Rightarrow> 'a list \<Rightarrow> 'a ring_buffer" where
  "ring_push r input = r\<lparr>rb_samples := ring_push_loop (rb_capacity r) (rb_samples r) input\<rparr>"

definition ring_clear :: "'a ring_buffer \<Rightarrow> 'a ring_buffer" where
  "ring_clear r = r\<lparr>rb_samples := []\<rparr>"

section \<open>Decimation and device identifiers\<close>

fun step_by :: "nat \<Rightarrow> 'a list \<Rightarrow> 'a list" where
  "step_by k [] = []"
| "step_by k (x # xs) = x # step_by k (drop (k - 1) xs)"

text \<open>\<open>None\<close> is \<open>UnsupportedRate\<close>.\<close>

definition resample_to_16khz :: "'a list \<Rightarrow> u32 \<Rightarrow> 'a list option" where
  "resample_to_16khz input sample_rate =
     (if sample_rate = 48000 then Some (step_by 3 input)
      else if sample_rate = 32000 then Some (step_by 2 input)
      else if sample_rate = 16000 then Some (step_by 1 input)
      else None)"

definition device_char :: "string \<Rightarrow> bool" where
  "device_char ch = (case ch of [c] \<Rightarrow> id_char c | _ \<Rightarrow> False)"

fun device_id_loop :: "string list \<Rightarrow> string \<Rightarrow> bool \<Rightarrow> string" where
  "device_id_loop [] i previous_separator = i"
| "device_id_loop (ch # chs) i previous_separator =
     (if device_char ch then device_id_loop chs (i @ ch) False
      else if \<not> previous_separator \<and> i \<noteq> [] then device_id_loop chs (i @ ''-'') True
      else device_id_loop chs i previous_separator)"

definition device_id_from_name :: "string \<Rightarrow> nat \<Rightarrow> string" where
  "device_id_from_name name index =
     (let i = trim_end_matches (\<lambda>c. c = CHR ''-'')
                (take 64 (trim_end_matches (\<lambda>c. c = CHR ''-'') (device_id_loop (utf8_chars name) [] False)))
      in if i = [] then ''input-'' @ show_nat index else i)"

definition MAX_DEVICE_NAME_CHARS :: nat where "MAX_DEVICE_NAME_CHARS = 96"

definition bound_device_name :: "string \<Rightarrow> string" where
  "bound_device_name name =
     (if length (utf8_chars name) \<le> MAX_DEVICE_NAME_CHARS then name
      else concat (take MAX_DEVICE_NAME_CHARS (utf8_chars name)))"

record capture_device =
  cd_id :: string
  cd_display_name :: string
  cd_is_default :: bool

text \<open>The loop of \<open>list_capture_devices\<close> over the names of the devices, \<open>None\<close> for one whose name cannot be read.\<close>

fun list_devices_loop :: "string option \<Rightarrow> string option list \<Rightarrow> nat \<Rightarrow> string list \<Rightarrow> capture_device list" where
  "list_devices_loop default_name [] index seen = []"
| "list_devices_loop default_name (None # ds) index seen = list_devices_loop default_name ds (index + 1) seen"
| "list_devices_loop default_name (Some name # ds) index seen =
     (let i = device_id_from_name name index in
      if i \<in> set seen then list_devices_loop default_name ds (index + 1) seen
      else \<lparr>cd_id = i, cd_display_name = bound_device_name name, cd_is_default = (default_name = Some name)\<rparr>
        # list_devices_loop default_name ds (index + 1) (i # seen))"

definition list_capture_devices :: "string option \<Rightarrow> string option list \<Rightarrow> capture_device list" where
  "list_capture_devices default_name ds = list_devices_loop default_name ds 0 []"

section \<open>Segmenter\<close>

record 'a segment =
  sg_episode_id :: string
  sg_samples :: "'a list"
  sg_continued :: bool
  sg_start_frame :: u64

record 'a active_segment =
  act_id :: string
  act_samples :: "'a list"
  act_silent_frames :: u32
  act_start_frame :: u64
  act_continued :: bool

record 'a segmenter =
  sm_limits :: ambient_limits
  sm_ring :: "'a ring_buffer"
  sm_episode :: u64
  sm_active :: "'a active_segment option"
  sm_voiced_streak :: u8
  sm_next_frame :: u64
  sm_episode_elapsed_ms :: u32

definition segmenter_new :: "ambient_limits \<Rightarrow> nat \<Rightarrow> 'a segmenter" where
  "segmenter_new limits sample_rate =
     \<lparr>sm_limits = limits, sm_ring = ring_new (max 1 (sample_rate * unat (al_pre_roll_ms limits) div 1000)), sm_episode = 0,
      sm_active = None, sm_voiced_streak = 0, sm_next_frame = 0, sm_episode_elapsed_ms = 0\<rparr>"

definition segmenter_reset :: "'a segmenter \<Rightarrow> 'a segmenter" where
  "segmenter_reset s =
     s\<lparr>sm_ring := ring_clear (sm_ring s), sm_active := None, sm_voiced_streak := 0, sm_episode_elapsed_ms := 0\<rparr>"

definition episode_name :: "u64 \<Rightarrow> string" where
  "episode_name n = ''episode-'' @ show_word n"

text \<open>The frame in which no segment is active.\<close>

definition push_idle :: "'a list \<Rightarrow> bool \<Rightarrow> 'a segmenter \<Rightarrow> 'a segmenter" where
  "push_idle frame voiced s =
     (let streak = (if voiced then sat_add (sm_voiced_streak s) 1 else 0) in
      if streak \<ge> 3
      then let episode = sat_add (sm_episode s) 1 in
        s\<lparr>sm_episode := episode,
          sm_active := Some \<lparr>act_id = episode_name episode, act_samples = rb_samples (sm_ring s) @ frame, act_silent_frames = 0,
            act_start_frame = sat_sub (sm_next_frame s) 2, act_continued = False\<rparr>,
          sm_ring := ring_clear (sm_ring s), sm_voiced_streak := 0\<rparr>
      else s\<lparr>sm_voiced_streak := streak\<rparr>)"

definition segment_duration :: "u32 \<Rightarrow> 'a list \<Rightarrow> 'a list \<Rightarrow> u32" where
  "segment_duration frame_ms samples frame = of_nat (length samples) * frame_ms div of_nat (max 1 (length frame))"

text \<open>The end of the active segment: what it gives, and the segment that follows it when speech goes on.\<close>

definition finish_segment :: "'a active_segment \<Rightarrow> u32 \<Rightarrow> 'a list \<Rightarrow> bool \<Rightarrow> 'a segmenter \<Rightarrow> 'a segment list \<times> 'a segmenter" where
  "finish_segment finished duration frame voiced s =
     (let limits = sm_limits s;
          completed = (if accepts_utterance limits (min duration (al_max_utterance_ms limits))
            then [\<lparr>sg_episode_id = act_id finished, sg_samples = act_samples finished, sg_continued = act_continued finished,
                   sg_start_frame = act_start_frame finished\<rparr>]
            else [])
      in if duration \<ge> al_max_utterance_ms limits \<and> voiced
         then let elapsed = sat_add (sm_episode_elapsed_ms s) duration;
                  continued = elapsed < al_max_episode_ms limits;
                  episode = (if continued then sm_episode s else sat_add (sm_episode s) 1)
              in (completed,
                  s\<lparr>sm_episode := episode, sm_episode_elapsed_ms := (if continued then elapsed else 0),
                    sm_active := Some \<lparr>act_id = (if continued then act_id finished else episode_name episode),
                      act_samples = frame, act_silent_frames = 0, act_start_frame = sm_next_frame s,
                      act_continued = continued\<rparr>\<rparr>)
         else (completed, s\<lparr>sm_active := None, sm_episode_elapsed_ms := 0\<rparr>))"

definition push_active :: "'a active_segment \<Rightarrow> 'a list \<Rightarrow> bool \<Rightarrow> 'a segmenter \<Rightarrow> 'a segment list \<times> 'a segmenter" where
  "push_active active frame voiced s =
     (let limits = sm_limits s;
          active' = active\<lparr>act_samples := act_samples active @ frame,
            act_silent_frames := (if voiced then 0 else act_silent_frames active + 1)\<rparr>;
          duration = segment_duration (al_frame_ms limits) (act_samples active') frame
      in if act_silent_frames active' * al_frame_ms limits \<ge> al_hangover_ms limits \<or> duration \<ge> al_max_utterance_ms limits
         then finish_segment active' duration frame voiced s
         else ([], s\<lparr>sm_active := Some active'\<rparr>))"

definition push_frame :: "'a list \<Rightarrow> bool \<Rightarrow> 'a segmenter \<Rightarrow> 'a segment list \<times> 'a segmenter" where
  "push_frame frame voiced s0 =
     (let s = s0\<lparr>sm_ring := ring_push (sm_ring s0) frame\<rparr>;
          (completed, s) = (case sm_active s of
            None \<Rightarrow> ([], push_idle frame voiced s)
          | Some active \<Rightarrow> push_active active frame voiced s)
      in (completed, s\<lparr>sm_next_frame := sat_add (sm_next_frame s) 1\<rparr>))"

section \<open>Properties\<close>

text \<open>The ring holds the last samples, as many as its capacity.\<close>

lemma ring_push_loop_last:
  "0 < cap \<Longrightarrow> length s \<le> cap \<Longrightarrow> ring_push_loop cap s xs = drop (length s + length xs - cap) (s @ xs)"
proof (induction xs arbitrary: s)
  case (Cons x xs)
  show ?case
  proof (cases "length s = cap")
    case True
    then obtain y ys where y: "s = y # ys" using Cons.prems(1) by (cases s) auto
    have cap: "cap = Suc (length ys)" using y True by simp
    have "ring_push_loop cap s (x # xs) = ring_push_loop cap (ys @ [x]) xs" using y True by simp
    also have "\<dots> = drop (length (ys @ [x]) + length xs - cap) ((ys @ [x]) @ xs)"
      by (rule Cons.IH) (simp_all add: cap)
    finally show ?thesis unfolding cap y by simp
  next
    case False
    then have "ring_push_loop cap s (x # xs) = drop (length (s @ [x]) + length xs - cap) ((s @ [x]) @ xs)"
      using Cons.IH [of "s @ [x]"] Cons.prems by simp
    then show ?thesis by simp
  qed
qed simp

lemma ring_push_loop_length: "0 < cap \<Longrightarrow> length s \<le> cap \<Longrightarrow> length (ring_push_loop cap s xs) \<le> cap"
  by (simp add: ring_push_loop_last)

lemma ring_push_loop_suffix:
  assumes "length s \<le> cap" "length xs \<le> cap" "0 < cap"
  shows "\<exists>pre. ring_push_loop cap s xs = pre @ xs"
proof -
  have "length s + length xs - cap \<le> length s" using assms by simp
  then have "drop (length s + length xs - cap) (s @ xs) = drop (length s + length xs - cap) s @ xs" by simp
  then show ?thesis using assms by (simp add: ring_push_loop_last)
qed

text \<open>A ring of capacity zero does not stay empty: from its second sample on it only grows.\<close>

theorem ring_zero_unbounded: "length (rb_samples (ring_push (ring_new 0) xs)) = length xs"
proof -
  have "length (ring_push_loop 0 s xs) = length s + length xs" for s
    by (induction xs arbitrary: s) auto
  then show ?thesis by (simp add: ring_push_def ring_new_def)
qed

text \<open>Device identifiers: distinct in the list, and characters of the contract's identifiers only.\<close>

lemma list_devices_loop_fresh:
  "distinct (map cd_id (list_devices_loop dn ds k seen)) \<and> set (map cd_id (list_devices_loop dn ds k seen)) \<inter> set seen = {}"
  by (induction dn ds k seen rule: list_devices_loop.induct) (auto simp: Let_def)

lemma device_id_loop_chars: "list_all id_char i \<Longrightarrow> list_all id_char (device_id_loop chs i sep)"
proof (induction chs arbitrary: i sep)
  case (Cons ch chs)
  have "device_char ch \<Longrightarrow> list_all id_char ch" by (auto simp: device_char_def split: list.splits)
  moreover have "id_char (CHR ''-'')" by (simp add: id_char_def)
  ultimately show ?case using Cons by simp
qed simp

lemma trim_end_all: "list_all p s \<Longrightarrow> list_all p (trim_end_matches q s)"
  by (auto simp: trim_end_matches_def list_all_iff dest: set_dropWhileD)

lemma take_all: "list_all p s \<Longrightarrow> list_all p (take n s)"
  by (auto simp: list_all_iff dest: in_set_takeD)

lemma show_nat_id_chars: "list_all id_char (show_nat n)"
proof -
  have "id_char (digit_char d)" if "d < 10" for d
    using that by (simp add: id_char_def digit_char_def less_eq_char_def)
  then show ?thesis by (auto simp: list_all_iff dest: show_nat_digits)
qed

lemma device_id_chars: "list_all id_char (device_id_from_name name k)"
proof -
  have "list_all id_char (trim_end_matches (\<lambda>c. c = CHR ''-'')
      (take 64 (trim_end_matches (\<lambda>c. c = CHR ''-'') (device_id_loop (utf8_chars name) [] False))))"
    by (intro trim_end_all take_all device_id_loop_chars) simp
  moreover have "list_all id_char (''input-'' @ show_nat k)" using show_nat_id_chars by (simp add: id_char_def)
  ultimately show ?thesis by (auto simp: device_id_from_name_def Let_def)
qed

section \<open>Segments are bounded\<close>

text \<open>Frames of the sixteen kilohertz stream: sixteen samples a millisecond.\<close>

definition seg_frames :: "ambient_limits \<Rightarrow> ('a list \<times> bool) list \<Rightarrow> bool" where
  "seg_frames l fs \<longleftrightarrow> (\<forall>(frame, voiced)\<in>set fs. length frame = 16 * unat (al_frame_ms l))"

fun segment_run :: "'a segmenter \<Rightarrow> ('a list \<times> bool) list \<Rightarrow> 'a segment list \<times> 'a segmenter" where
  "segment_run s [] = ([], s)"
| "segment_run s ((frame, voiced) # fs) =
     (case push_frame frame voiced s of (segs, s') \<Rightarrow> (case segment_run s' fs of (segs', s'') \<Rightarrow> (segs @ segs', s'')))"

definition seg_cap :: "ambient_limits \<Rightarrow> nat" where
  "seg_cap l = 16 * (max (unat (al_max_utterance_ms l)) (unat (al_pre_roll_ms l) + unat (al_frame_ms l)) + unat (al_frame_ms l))"

definition seg_inv :: "ambient_limits \<Rightarrow> 'a segmenter \<Rightarrow> bool" where
  "seg_inv l s \<longleftrightarrow> sm_limits s = l \<and> rb_capacity (sm_ring s) = 16 * unat (al_pre_roll_ms l)
     \<and> length (rb_samples (sm_ring s)) \<le> rb_capacity (sm_ring s)
     \<and> (\<forall>a. sm_active s = Some a \<longrightarrow> length (act_samples a) + 16 * unat (al_frame_ms l) \<le> seg_cap l)"

lemma limits_validate_None:
  assumes "limits_validate l = None"
  shows "10 \<le> unat (al_frame_ms l)" "unat (al_frame_ms l) \<le> 60" "unat (al_frame_ms l) \<le> unat (al_pre_roll_ms l)"
    "unat (al_pre_roll_ms l) \<le> 5000" "unat (al_min_utterance_ms l) < unat (al_max_utterance_ms l)"
    "unat (al_max_utterance_ms l) \<le> 60000" "0 < unat (al_min_utterance_ms l)"
  using assms
  by (auto simp: limits_validate_def MIN_FRAME_MS_def MAX_FRAME_MS_def MAX_WINDOW_MS_def MAX_UTTERANCE_MS_def
      word_less_nat_alt word_le_nat_alt not_less not_le unat_gt_0 split: if_splits)

text \<open>Within the bounds the duration does not overflow: it is the number of samples by sixteen.\<close>

lemma segment_duration_unat:
  assumes "limits_validate l = None" "length frame = 16 * unat (al_frame_ms l)" "length samples \<le> seg_cap l"
  shows "unat (segment_duration (al_frame_ms l) samples frame) = length samples div 16"
proof -
  note v = limits_validate_None [OF assms(1)]
  have c: "seg_cap l \<le> 16 * 60060" using v by (simp add: seg_cap_def max_def)
  then have len: "length samples \<le> 960960" using assms(3) by simp
  then have u: "unat (of_nat (length samples) :: u32) = length samples" by (simp add: unat_of_nat)
  have "length samples * unat (al_frame_ms l) \<le> 960960 * 60" using len v(2) by (rule mult_le_mono)
  then have m: "unat (of_nat (length samples) * al_frame_ms l) = length samples * unat (al_frame_ms l)"
    using u by (simp add: unat_word_ariths)
  have f: "unat (of_nat (max 1 (length frame)) :: u32) = 16 * unat (al_frame_ms l)"
  proof -
    have "max 1 (length frame) = 16 * unat (al_frame_ms l)" using assms(2) v(1) by simp
    then show ?thesis using v(2) by (simp only: unat_of_nat) simp
  qed
  have "unat (segment_duration (al_frame_ms l) samples frame)
      = length samples * unat (al_frame_ms l) div (16 * unat (al_frame_ms l))"
    by (simp add: segment_duration_def unat_div m f [unfolded One_nat_def])
  also have "\<dots> = length samples div 16" using v(1) by simp
  finally show ?thesis .
qed

definition seg_ok :: "ambient_limits \<Rightarrow> 'a segment \<Rightarrow> bool" where
  "seg_ok l g \<longleftrightarrow> 16 * unat (al_min_utterance_ms l) \<le> length (sg_samples g) \<and> length (sg_samples g) \<le> seg_cap l"

lemma seg_cap_ge:
  "16 * unat (al_max_utterance_ms l) + 16 * unat (al_frame_ms l) \<le> seg_cap l"
  "16 * unat (al_pre_roll_ms l) + 32 * unat (al_frame_ms l) \<le> seg_cap l"
  by (simp_all add: seg_cap_def max_def)

lemma push_idle_inv:
  assumes "seg_inv l s" "sm_active s = None" "length frame = 16 * unat (al_frame_ms l)"
  shows "seg_inv l (push_idle frame voiced s)"
  using assms seg_cap_ge(2) [of l]
  by (auto simp: push_idle_def seg_inv_def Let_def ring_clear_def)

lemma push_active_inv:
  assumes v: "limits_validate l = None" and inv: "seg_inv l s" and a: "sm_active s = Some a"
    and n: "length frame = 16 * unat (al_frame_ms l)" and p: "push_active a frame voiced s = (segs, s')"
  shows "seg_inv l s' \<and> list_all (seg_ok l) segs"
proof -
  have lim: "sm_limits s = l" using inv by (simp add: seg_inv_def)
  let ?samples = "act_samples a @ frame"
  have len: "length ?samples \<le> seg_cap l" using inv a n by (simp add: seg_inv_def)
  define d where "d = segment_duration (al_frame_ms l) ?samples frame"
  have d: "unat d = length ?samples div 16" unfolding d_def by (rule segment_duration_unat [OF v n len])
  have accept: "16 * unat (al_min_utterance_ms l) \<le> length ?samples"
    if "accepts_utterance l (min d (al_max_utterance_ms l))"
    using that d by (auto simp: accepts_utterance_def word_le_nat_alt unat_min)
  show ?thesis
  proof (cases "al_max_utterance_ms l \<le> d")
    case True
    then show ?thesis using p lim inv n accept len seg_cap_ge(2) [of l]
      by (auto simp: push_active_def finish_segment_def Let_def d_def [symmetric] seg_inv_def seg_ok_def split: if_splits)
  next
    case False
    then have "length ?samples < 16 * unat (al_max_utterance_ms l)" using d by (simp add: word_le_nat_alt not_le)
    then show ?thesis using p lim inv n accept len seg_cap_ge(1) [of l] False
      by (auto simp: push_active_def finish_segment_def Let_def d_def [symmetric] seg_inv_def seg_ok_def split: if_splits)
  qed
qed

lemma push_frame_inv:
  assumes v: "limits_validate l = None" and inv: "seg_inv l s"
    and n: "length frame = 16 * unat (al_frame_ms l)" and p: "push_frame frame voiced s = (segs, s')"
  shows "seg_inv l s' \<and> list_all (seg_ok l) segs"
proof -
  define s1 where "s1 = s\<lparr>sm_ring := ring_push (sm_ring s) frame\<rparr>"
  have "0 < rb_capacity (sm_ring s)" using inv limits_validate_None(1,3) [OF v] by (simp add: seg_inv_def)
  then have inv1: "seg_inv l s1" using inv by (simp add: s1_def seg_inv_def ring_push_def ring_push_loop_length)
  have next_frame: "seg_inv l (t\<lparr>sm_next_frame := k\<rparr>) \<longleftrightarrow> seg_inv l t" for t :: "'a segmenter" and k by (simp add: seg_inv_def)
  show ?thesis
  proof (cases "sm_active s1")
    case None
    then show ?thesis using p push_idle_inv [OF inv1 None n] by (auto simp: push_frame_def s1_def [symmetric] Let_def next_frame)
  next
    case (Some a)
    obtain segs1 s2 where q: "push_active a frame voiced s1 = (segs1, s2)" by fastforce
    then show ?thesis using p Some push_active_inv [OF v inv1 Some n q] by (auto simp: push_frame_def s1_def [symmetric] Let_def next_frame)
  qed
qed

lemma segment_run_inv:
  "limits_validate l = None \<Longrightarrow> seg_inv l s \<Longrightarrow> seg_frames l fs \<Longrightarrow> segment_run s fs = (segs, s') \<Longrightarrow>
   seg_inv l s' \<and> list_all (seg_ok l) segs"
proof (induction fs arbitrary: s segs s')
  case (Cons fv fs)
  obtain frame voiced where fv: "fv = (frame, voiced)" by fastforce
  obtain segs1 s1 where 1: "push_frame frame voiced s = (segs1, s1)" by fastforce
  obtain segs2 s2 where 2: "segment_run s1 fs = (segs2, s2)" by fastforce
  have n: "length frame = 16 * unat (al_frame_ms l)" "seg_frames l fs" using Cons.prems(3) fv by (auto simp: seg_frames_def)
  have a: "seg_inv l s1 \<and> list_all (seg_ok l) segs1" using push_frame_inv [OF Cons.prems(1,2) n(1) 1] .
  then have "seg_inv l s2 \<and> list_all (seg_ok l) segs2" using Cons.IH [OF Cons.prems(1) _ n(2) 2] by blast
  then show ?case using a 1 2 fv Cons.prems(4) by auto
qed simp

lemma segmenter_new_inv: "limits_validate l = None \<Longrightarrow> seg_inv l (segmenter_new l 16000)"
  using limits_validate_None(1,3) [of l] by (simp add: seg_inv_def segmenter_new_def ring_new_def max_def)

text \<open>C34: The segmenter is bounded in memory and in what it gives. For limits that pass their validation and frames of the
  sixteen kilohertz stream, whatever is said: every segment it gives is at least as long as the shortest utterance and at
  most one frame longer than the longest utterance, or than the pre-roll with a frame when that is longer; the samples it
  holds meanwhile keep to the same bound.\<close>

theorem segments_bounded:
  assumes "limits_validate l = None" "seg_frames l fs" "segment_run (segmenter_new l 16000) fs = (segs, s)"
  shows "list_all (\<lambda>g. 16 * unat (al_min_utterance_ms l) \<le> length (sg_samples g)
      \<and> length (sg_samples g) \<le> 16 * (max (unat (al_max_utterance_ms l)) (unat (al_pre_roll_ms l) + unat (al_frame_ms l))
          + unat (al_frame_ms l))) segs
    \<and> length (rb_samples (sm_ring s)) \<le> 16 * unat (al_pre_roll_ms l)
    \<and> (case sm_active s of None \<Rightarrow> True | Some a \<Rightarrow> length (act_samples a) \<le> seg_cap l)"
  using segment_run_inv [OF assms(1) segmenter_new_inv [OF assms(1)] assms(2,3)]
  by (auto simp: seg_ok_def seg_cap_def seg_inv_def list_all_iff split: option.split)

theorem segments_bounded_witness:
  "limits_validate ambient_limits_default = None \<and> seg_frames ambient_limits_default [(replicate 480 (), True)]
   \<and> list_all (\<lambda>g. 6400 \<le> length (sg_samples g))
       (fst (segment_run (segmenter_new ambient_limits_default 16000) [(replicate 480 (), True)]))"
proof -
  have f: "seg_frames ambient_limits_default [(replicate 480 (), True)]"
    by (simp add: seg_frames_def ambient_limits_default_def)
  obtain segs s where r: "segment_run (segmenter_new ambient_limits_default 16000) [(replicate 480 (), True)] = (segs, s)" by fastforce
  have "unat (al_min_utterance_ms ambient_limits_default) = 400" by (simp add: ambient_limits_default_def)
  with segments_bounded [OF limits_default_valid f r] f r limits_default_valid show ?thesis
    by (auto simp: list_all_iff)
qed

text \<open>The frame that starts a segment is in it twice: once from the ring, where it was just pushed, and once by itself.\<close>

theorem first_frame_twice:
  assumes "limits_validate l = None" "seg_inv l s" "sm_active s = None" "sm_voiced_streak s = 2"
    and "length frame = 16 * unat (al_frame_ms l)"
  shows "\<exists>a pre. sm_active (snd (push_frame frame True s)) = Some a \<and> act_samples a = pre @ frame @ frame"
proof -
  have "0 < rb_capacity (sm_ring s)" "length frame \<le> rb_capacity (sm_ring s)"
    using assms(2,5) limits_validate_None(1,3) [OF assms(1)] by (simp_all add: seg_inv_def)
  then obtain pre where "ring_push_loop (rb_capacity (sm_ring s)) (rb_samples (sm_ring s)) frame = pre @ frame"
    using ring_push_loop_suffix assms(2) by (metis seg_inv_def)
  moreover have "sat_add 2 1 = (3 :: u8)" by (simp add: sat_add_def)
  ultimately show ?thesis using assms(3,4) by (simp add: push_frame_def push_idle_def ring_push_def Let_def)
qed

end
