(* ===== verification/BTree_Map.thy ===== *)
theory BTree_Map
  imports Prelude
begin

text \<open>
  \<open>std::collections::BTreeMap\<close> as the list of its entries in the order of the keys, which is the order in which the
  sources iterate over it. The interface that the clients use is the locale \<open>ordered_map\<close>; the list is its instance.
\<close>

type_synonym ('k, 'v) btree = "('k \<times> 'v) list"

definition bt_get :: "('k, 'v) btree \<Rightarrow> 'k \<Rightarrow> 'v option" where
  "bt_get m = map_of m"

fun bt_insert :: "'k::linorder \<Rightarrow> 'v \<Rightarrow> ('k, 'v) btree \<Rightarrow> ('k, 'v) btree" where
  "bt_insert k v [] = [(k, v)]"
| "bt_insert k v ((k', v') # m) =
     (if k < k' then (k, v) # (k', v') # m
      else if k = k' then (k, v) # m
      else (k', v') # bt_insert k v m)"

definition bt_remove :: "'k \<Rightarrow> ('k, 'v) btree \<Rightarrow> ('k, 'v) btree" where
  "bt_remove k m = filter (\<lambda>e. fst e \<noteq> k) m"

definition bt_keys :: "('k, 'v) btree \<Rightarrow> 'k list" where
  "bt_keys m = map fst m"

definition bt_ok :: "('k::linorder, 'v) btree \<Rightarrow> bool" where
  "bt_ok m \<longleftrightarrow> sorted_wrt (<) (bt_keys m)"

locale ordered_map =
  fixes get :: "'m \<Rightarrow> 'k::linorder \<Rightarrow> 'v option" and ins :: "'k \<Rightarrow> 'v \<Rightarrow> 'm \<Rightarrow> 'm" and rem :: "'k \<Rightarrow> 'm \<Rightarrow> 'm"
    and keys :: "'m \<Rightarrow> 'k list" and ok :: "'m \<Rightarrow> bool"
  assumes get_ins: "ok m \<Longrightarrow> get (ins k v m) = (get m)(k \<mapsto> v)"
    and get_rem: "ok m \<Longrightarrow> get (rem k m) = (get m)(k := None)"
    and keys_dom: "ok m \<Longrightarrow> set (keys m) = dom (get m)"
    and keys_sorted: "ok m \<Longrightarrow> sorted_wrt (<) (keys m)"
    and ok_ins: "ok m \<Longrightarrow> ok (ins k v m)"
    and ok_rem: "ok m \<Longrightarrow> ok (rem k m)"
begin

lemma keys_distinct: "ok m \<Longrightarrow> distinct (keys m)"
  using keys_sorted strict_sorted_iff by blast

text \<open>Two maps with the same lookups are iterated over in the same order.\<close>

lemma keys_determined: "ok m \<Longrightarrow> ok m' \<Longrightarrow> get m = get m' \<Longrightarrow> keys m = keys m'"
  using keys_sorted [of m] keys_sorted [of m'] keys_dom [of m] keys_dom [of m']
  by (intro strict_sorted_equal) simp_all

lemma keys_ins: "ok m \<Longrightarrow> set (keys (ins k v m)) = insert k (set (keys m))"
  by (simp add: keys_dom ok_ins get_ins)

end

lemma bt_keys_insert: "set (bt_keys (bt_insert k v m)) = insert k (set (bt_keys m))"
  by (induction k v m rule: bt_insert.induct) (auto simp: bt_keys_def)

lemma bt_ok_insert: "bt_ok m \<Longrightarrow> bt_ok (bt_insert k v m)"
proof (induction k v m rule: bt_insert.induct)
  case (2 k v k' v' m)
  have "set (map fst (bt_insert k v m)) = insert k (set (map fst m))" using bt_keys_insert [of k v m] by (simp add: bt_keys_def)
  with 2 show ?case by (auto simp: bt_ok_def bt_keys_def)
qed (simp add: bt_ok_def bt_keys_def)

lemma bt_get_insert: "bt_ok m \<Longrightarrow> bt_get (bt_insert k v m) = (bt_get m)(k \<mapsto> v)"
proof (induction k v m rule: bt_insert.induct)
  case (2 k v k' v' m)
  then have "bt_ok m" by (simp add: bt_ok_def bt_keys_def)
  with 2 show ?case by (auto simp: bt_get_def fun_eq_iff)
qed (simp add: bt_get_def)

lemma bt_get_remove: "bt_get (bt_remove k m) = (bt_get m)(k := None)"
  by (induction m) (auto simp: bt_get_def bt_remove_def fun_eq_iff)

lemma bt_keys_dom: "set (bt_keys m) = dom (bt_get m)"
  by (simp add: bt_keys_def bt_get_def dom_map_of_conv_image_fst)

lemma bt_ok_remove: "bt_ok m \<Longrightarrow> bt_ok (bt_remove k m)"
  by (auto simp: bt_ok_def bt_keys_def bt_remove_def sorted_wrt_map intro: sorted_wrt_filter)

interpretation bt: ordered_map bt_get bt_insert bt_remove bt_keys bt_ok
  by unfold_locales
    (auto simp: bt_get_insert bt_get_remove bt_keys_dom bt_ok_insert bt_ok_remove, simp add: bt_ok_def)

lemma bt_get_Some: "bt_ok m \<Longrightarrow> bt_get m k = Some v \<longleftrightarrow> (k, v) \<in> set m"
  using bt.keys_distinct [of m] by (simp add: bt_get_def bt_keys_def)

lemma bt_ok_Nil: "bt_ok []"
  by (simp add: bt_ok_def bt_keys_def)

end
