(* ===== verification/Task_Graph.thy ===== *)
theory Task_Graph
  imports BTree_Map Unicode_Text
begin

text \<open>
  \<open>crates/evohime-core/src/dependency_aware_task_graph.rs\<close>: the graph of tasks with its validation (Kahn's algorithm over
  the edges), the set of tasks that may start, and the application of a patch with the invalidation of what depends on the
  changed tasks. A \<open>BTreeMap\<close> is a \<open>btree\<close>. The hash of a graph (\<open>serde_json\<close> and SHA-256) is an argument.
\<close>

section \<open>Data\<close>

definition GRAPH_SCHEMA_VERSION :: u32 where "GRAPH_SCHEMA_VERSION = 1"
definition MAX_TASKS :: nat where "MAX_TASKS = 1024"
definition MAX_EDGES :: nat where "MAX_EDGES = 4096"
definition GRAPH_MAX_ID :: nat where "GRAPH_MAX_ID = 128"
definition GRAPH_MAX_TEXT :: nat where "GRAPH_MAX_TEXT = 16 * 1024"
definition MAX_REFS :: nat where "MAX_REFS = 256"
definition MAX_PATCH_OPS :: nat where "MAX_PATCH_OPS = 256"

datatype task_status =
    TaskPending | TaskReady | TaskRunning | TaskWaiting | TaskCompleted | TaskFailed | TaskBlocked | TaskNeedsRevision
  | TaskInvalidated | TaskSkipped | TaskCancelled

record task_dependency =
  td_from :: string
  td_to :: string
  td_kind :: string

record task_evidence =
  te_reference :: string
  te_content_hash :: string
  te_revision :: u64

record execution_task =
  xt_id :: string
  xt_title :: string
  xt_instruction :: string
  xt_status :: task_status
  xt_revision :: u64
  xt_contract_hash :: string
  xt_role :: string
  xt_grants :: "string list"
  xt_dependencies :: "string list"
  xt_acceptance_criteria :: "string list"
  xt_evidence :: "task_evidence list"

record task_graph =
  tg_schema_version :: u32
  tg_graph_id :: string
  tg_revision :: u64
  tg_tasks :: "(string, execution_task) btree"
  tg_edges :: "task_dependency list"
  tg_content_hash :: string

datatype patch_op =
    AddTask execution_task
  | ReviseTask execution_task
  | RemovePendingTask string
  | AddDependency task_dependency
  | RemoveDependency task_dependency
  | ReassignTask string string "string list"
  | ChangeAcceptanceCriteria string "string list"

datatype graph_error =
    GraphInvalid string | GraphUnknownTask string | GraphCycle | GraphStaleRevision | GraphCompletedImmutable
  | GraphStaleEvidence | GraphGrantsCeiling | GraphPatchRejected
  | GraphPanic \<comment> \<open>the subtraction of the loop over the edges below zero\<close>

section \<open>Validation\<close>

definition graph_bounded :: "string \<Rightarrow> nat \<Rightarrow> graph_error option" where
  "graph_bounded s limit =
     (if s = [] \<or> length s > limit \<or> list_ex char_is_control (utf8_chars s) then Some (GraphInvalid ''bounded text'') else None)"

text \<open>\<open>?\<close> after a check.\<close>

definition and_then :: "'e option \<Rightarrow> 'e option \<Rightarrow> 'e option" where
  "and_then a b = (case a of Some e \<Rightarrow> Some e | None \<Rightarrow> b)"

fun check_each :: "('a \<Rightarrow> 'e option) \<Rightarrow> 'a list \<Rightarrow> 'e option" where
  "check_each f [] = None"
| "check_each f (x # xs) = and_then (f x) (check_each f xs)"

definition check_evidence :: "task_evidence \<Rightarrow> graph_error option" where
  "check_evidence ev =
     and_then (graph_bounded (te_reference ev) GRAPH_MAX_ID)
       (if \<not> is_prefix_of ''sha256:'' (te_content_hash ev) \<or> length (te_content_hash ev) \<noteq> 71 \<or> te_revision ev = 0
        then Some GraphStaleEvidence else None)"

definition check_task :: "string list \<Rightarrow> string \<times> execution_task \<Rightarrow> graph_error option" where
  "check_task ceiling entry =
     (case entry of (i, task) \<Rightarrow>
      and_then (graph_bounded i GRAPH_MAX_ID)
      (and_then (graph_bounded (xt_title task) GRAPH_MAX_TEXT)
      (and_then (graph_bounded (xt_instruction task) GRAPH_MAX_TEXT)
      (and_then (graph_bounded (xt_role task) GRAPH_MAX_ID)
      (and_then (if length (xt_acceptance_criteria task) > MAX_REFS \<or> length (xt_evidence task) > MAX_REFS
                 then Some (GraphInvalid ''task references bound'') else None)
      (and_then (if list_ex (\<lambda>g. g \<notin> set ceiling) (xt_grants task) then Some GraphGrantsCeiling else None)
      (and_then (if xt_id task \<noteq> i then Some (GraphInvalid ''task id mismatch'') else None)
        (check_each check_evidence (xt_evidence task)))))))))"

definition check_edge :: "(string, execution_task) btree \<Rightarrow> task_dependency \<Rightarrow> graph_error option" where
  "check_edge tasks e =
     (if bt_get tasks (td_from e) = None then Some (GraphUnknownTask (td_from e))
      else if bt_get tasks (td_to e) = None then Some (GraphUnknownTask (td_to e))
      else None)"

text \<open>\<open>*incoming.get_mut(k) = v\<close> for a key that is there.\<close>

fun set_count :: "string \<Rightarrow> nat \<Rightarrow> (string \<times> nat) list \<Rightarrow> (string \<times> nat) list" where
  "set_count k v [] = []"
| "set_count k v ((k', v') # m) = (if k = k' then (k, v) # m else (k', v') # set_count k v m)"

fun count_incoming :: "string list \<Rightarrow> (string \<times> nat) list \<Rightarrow> graph_error + (string \<times> nat) list" where
  "count_incoming [] incoming = Inr incoming"
| "count_incoming (t # ts) incoming =
     (case map_of incoming t of None \<Rightarrow> Inl (GraphUnknownTask t)
      | Some n \<Rightarrow> count_incoming ts (set_count t (n + 1) incoming))"

text \<open>The inner loop: the edges that leave the task just taken from the queue, given by their ends.\<close>

fun relax_edges :: "string list \<Rightarrow> (string \<times> nat) list \<Rightarrow> string list \<Rightarrow> graph_error + (string \<times> nat) list \<times> string list" where
  "relax_edges [] incoming q = Inr (incoming, q)"
| "relax_edges (t # ts) incoming q =
     (case map_of incoming t of None \<Rightarrow> Inl (GraphUnknownTask t)
      | Some 0 \<Rightarrow> Inl GraphPanic
      | Some (Suc n) \<Rightarrow> relax_edges ts (set_count t n incoming) (if n = 0 then q @ [t] else q))"

definition edge_ends :: "task_dependency list \<Rightarrow> string \<Rightarrow> string list" where
  "edge_ends edges i = map td_to (filter (\<lambda>e. td_from e = i) edges)"

lemma set_count_sum: "map_of m k = Some (Suc n) \<Longrightarrow> Suc (sum_list (map snd (set_count k n m))) = sum_list (map snd m)"
  by (induction m) (auto split: if_splits)

lemma relax_edges_measure:
  "relax_edges ts m q = Inr (m', q') \<Longrightarrow> sum_list (map snd m') + length q' \<le> sum_list (map snd m) + length q"
proof (induction ts m q rule: relax_edges.induct)
  case (2 t ts m q)
  then obtain n where n: "map_of m t = Some (Suc n)" by (auto split: option.splits nat.splits)
  from 2 n set_count_sum [OF n] show ?case by (force split: if_splits)
qed simp

function kahn_loop :: "task_dependency list \<Rightarrow> (string \<times> nat) list \<Rightarrow> string list \<Rightarrow> nat \<Rightarrow> graph_error + nat" where
  "kahn_loop edges incoming [] seen = Inr seen"
| "kahn_loop edges incoming (i # q) seen =
     (case relax_edges (edge_ends edges i) incoming q of
        Inl e \<Rightarrow> Inl e
      | Inr (incoming', q') \<Rightarrow> kahn_loop edges incoming' q' (seen + 1))"
  by pat_completeness auto
termination
  by (relation "measure (\<lambda>(edges, incoming, q, seen). sum_list (map snd incoming) + length q)")
    (auto dest: relax_edges_measure)

definition check_acyclic :: "string list \<Rightarrow> task_dependency list \<Rightarrow> graph_error option" where
  "check_acyclic keys edges =
     (case count_incoming (map td_to edges) (map (\<lambda>k. (k, 0)) keys) of Inl e \<Rightarrow> Some e
      | Inr incoming \<Rightarrow>
          case kahn_loop edges incoming (map fst (filter (\<lambda>p. snd p = 0) incoming)) 0 of Inl e \<Rightarrow> Some e
          | Inr seen \<Rightarrow> if seen \<noteq> length keys then Some GraphCycle else None)"

definition graph_validate :: "task_graph \<Rightarrow> string list \<Rightarrow> graph_error option" where
  "graph_validate g ceiling =
     and_then (if tg_schema_version g \<noteq> GRAPH_SCHEMA_VERSION \<or> length (tg_tasks g) > MAX_TASKS \<or> length (tg_edges g) > MAX_EDGES
               then Some (GraphInvalid ''schema or graph bounds'') else None)
     (and_then (graph_bounded (tg_graph_id g) GRAPH_MAX_ID)
     (and_then (check_each (check_task ceiling) (tg_tasks g))
     (and_then (check_each (check_edge (tg_tasks g)) (tg_edges g))
       (check_acyclic (bt_keys (tg_tasks g)) (tg_edges g)))))"

section \<open>Ready tasks\<close>

definition ready_set :: "task_graph \<Rightarrow> string list" where
  "ready_set g =
     (let done' = map xt_id (filter (\<lambda>t. xt_status t = TaskCompleted) (map snd (tg_tasks g))) in
      map xt_id (filter (\<lambda>t. (xt_status t = TaskPending \<or> xt_status t = TaskReady)
        \<and> list_all (\<lambda>e. td_from e \<in> set done') (filter (\<lambda>e. td_to e = xt_id t) (tg_edges g))) (map snd (tg_tasks g))))"

section \<open>Patches\<close>

definition update_task :: "string \<Rightarrow> (execution_task \<Rightarrow> execution_task) \<Rightarrow> task_graph \<Rightarrow> graph_error + task_graph" where
  "update_task i f g =
     (case bt_get (tg_tasks g) i of None \<Rightarrow> Inl (GraphUnknownTask i)
      | Some t \<Rightarrow>
          if xt_status t = TaskCompleted then Inl GraphCompletedImmutable
          else Inr (g\<lparr>tg_tasks := bt_insert i (f t) (tg_tasks g)\<rparr>))"

fun apply_op :: "patch_op \<Rightarrow> task_graph \<Rightarrow> graph_error + task_graph" where
  "apply_op (AddTask t) g =
     (if bt_get (tg_tasks g) (xt_id t) \<noteq> None then Inl GraphPatchRejected
      else Inr (g\<lparr>tg_tasks := bt_insert (xt_id t) t (tg_tasks g)\<rparr>))"
| "apply_op (ReviseTask t) g = update_task (xt_id t) (\<lambda>_. t) g"
| "apply_op (RemovePendingTask i) g =
     (if (case bt_get (tg_tasks g) i of Some t \<Rightarrow> xt_status t \<noteq> TaskPending | None \<Rightarrow> True) then Inl GraphPatchRejected
      else Inr (g\<lparr>tg_tasks := bt_remove i (tg_tasks g),
        tg_edges := filter (\<lambda>e. td_from e \<noteq> i \<and> td_to e \<noteq> i) (tg_edges g)\<rparr>))"
| "apply_op (AddDependency e) g = Inr (g\<lparr>tg_edges := tg_edges g @ [e]\<rparr>)"
| "apply_op (RemoveDependency e) g = Inr (g\<lparr>tg_edges := filter (\<lambda>x. x \<noteq> e) (tg_edges g)\<rparr>)"
| "apply_op (ReassignTask i role grants) g =
     update_task i (\<lambda>t. t\<lparr>xt_role := role, xt_grants := grants, xt_revision := xt_revision t + 1\<rparr>) g"
| "apply_op (ChangeAcceptanceCriteria i criteria) g =
     update_task i (\<lambda>t. t\<lparr>xt_acceptance_criteria := criteria, xt_revision := xt_revision t + 1\<rparr>) g"

fun apply_ops :: "patch_op list \<Rightarrow> task_graph \<Rightarrow> graph_error + task_graph" where
  "apply_ops [] g = Inr g"
| "apply_ops (op # ops) g = (case apply_op op g of Inl e \<Rightarrow> Inl e | Inr g' \<Rightarrow> apply_ops ops g')"

fun changed_id :: "patch_op \<Rightarrow> string option" where
  "changed_id (ReviseTask t) = Some (xt_id t)"
| "changed_id (ReassignTask i r gs) = Some i"
| "changed_id (ChangeAcceptanceCriteria i cs) = Some i"
| "changed_id _ = None"

text \<open>The \<open>BTreeSet\<close> of the changed tasks, in its order.\<close>

definition changed_ids :: "patch_op list \<Rightarrow> string list" where
  "changed_ids ops = sort (remdups (List.map_filter changed_id ops))"

definition invalidate_task :: "string \<Rightarrow> (string, execution_task) btree \<Rightarrow> (string, execution_task) btree" where
  "invalidate_task i tasks =
     (case bt_get tasks i of None \<Rightarrow> tasks
      | Some t \<Rightarrow> if xt_status t \<noteq> TaskCompleted then bt_insert i (t\<lparr>xt_status := TaskInvalidated\<rparr>) tasks else tasks)"

text \<open>The inner loop over the edges that leave a task of the queue.\<close>

fun invalidate_ends ::
    "string list \<Rightarrow> string list \<Rightarrow> (string, execution_task) btree \<Rightarrow> string list \<Rightarrow> string list \<times> (string, execution_task) btree \<times> string list" where
  "invalidate_ends [] hit tasks q = (hit, tasks, q)"
| "invalidate_ends (t # ts) hit tasks q =
     (if t \<in> set hit then invalidate_ends ts hit tasks q
      else invalidate_ends ts (t # hit) (invalidate_task t tasks) (q @ [t]))"

lemma invalidate_ends_set:
  "invalidate_ends ts hit tasks q = (hit', tasks', q') \<Longrightarrow> set hit' = set hit \<union> set ts"
  by (induction ts hit tasks q rule: invalidate_ends.induct) (auto split: if_splits)

lemma invalidate_ends_queue:
  "invalidate_ends ts hit tasks q = (hit', tasks', q') \<Longrightarrow> hit' = hit \<and> q' = q \<or> (\<exists>t. t \<in> set ts \<and> t \<notin> set hit)"
  by (induction ts hit tasks q rule: invalidate_ends.induct) (auto split: if_splits)

lemma invalidate_ends_decreases:
  assumes e: "(hit', tasks', q') = invalidate_ends (edge_ends edges i) hit tasks q"
  shows "card (td_to ` set edges - set hit') < card (td_to ` set edges - set hit) \<or> hit' = hit \<and> q' = q"
proof (cases "\<exists>t. t \<in> set (edge_ends edges i) \<and> t \<notin> set hit")
  case True
  have "set (edge_ends edges i) \<subseteq> td_to ` set edges" by (auto simp: edge_ends_def)
  then have "td_to ` set edges - set hit' \<subset> td_to ` set edges - set hit"
    using True invalidate_ends_set [OF e [symmetric]] by blast
  then show ?thesis by (intro disjI1 psubset_card_mono) auto
next
  case False
  then show ?thesis using invalidate_ends_queue [OF e [symmetric]] by blast
qed

function invalidate_loop ::
    "task_dependency list \<Rightarrow> string list \<Rightarrow> (string, execution_task) btree \<Rightarrow> string list \<Rightarrow> (string, execution_task) btree" where
  "invalidate_loop edges hit tasks [] = tasks"
| "invalidate_loop edges hit tasks (i # q) =
     (case invalidate_ends (edge_ends edges i) hit tasks q of
        (hit', tasks', q') \<Rightarrow> invalidate_loop edges hit' tasks' q')"
  by pat_completeness auto
termination
  by (relation "measures [\<lambda>(edges, hit, tasks, q). card (td_to ` set edges - set hit), \<lambda>(edges, hit, tasks, q). length q]")
    (auto split: prod.splits dest: invalidate_ends_decreases [OF sym])

definition apply_patch ::
    "(task_graph \<Rightarrow> string) \<Rightarrow> task_graph \<Rightarrow> patch_op list \<Rightarrow> u64 \<Rightarrow> string list \<Rightarrow> graph_error + task_graph" where
  "apply_patch hash graph ops expected_revision grants =
     (if tg_revision graph \<noteq> expected_revision \<or> length ops > MAX_PATCH_OPS then Inl GraphStaleRevision
      else case apply_ops ops graph of Inl e \<Rightarrow> Inl e
      | Inr g \<Rightarrow>
          case graph_validate g grants of Some e \<Rightarrow> Inl e
          | None \<Rightarrow>
              let g = g\<lparr>tg_tasks := invalidate_loop (tg_edges g) [] (tg_tasks g) (changed_ids ops)\<rparr>;
                  g = g\<lparr>tg_revision := tg_revision g + 1\<rparr>;
                  g = g\<lparr>tg_content_hash := hash g\<rparr>
              in if list_ex (\<lambda>(i, t). xt_status t = TaskCompleted
                     \<and> (case bt_get (tg_tasks g) i of Some n \<Rightarrow> xt_contract_hash n \<noteq> xt_contract_hash t | None \<Rightarrow> True))
                   (tg_tasks graph)
                 then Inl GraphCompletedImmutable else Inr g)"

section \<open>The loop of validation decides acyclicity\<close>

lemma set_count_keys [simp]: "map fst (set_count k v m) = map fst m"
  by (induction m) auto

lemma map_of_set_count: "map_of m k \<noteq> None \<Longrightarrow> map_of (set_count k v m) = (map_of m)(k \<mapsto> v)"
  by (induction m) (auto simp: fun_eq_iff)

lemma count_incoming_spec:
  "\<forall>t\<in>set ts. map_of inc t \<noteq> None \<Longrightarrow>
   \<exists>inc'. count_incoming ts inc = Inr inc' \<and> map fst inc' = map fst inc
     \<and> (\<forall>v n. map_of inc v = Some n \<longrightarrow> map_of inc' v = Some (n + count_list ts v))"
proof (induction ts arbitrary: inc)
  case (Cons t ts)
  then obtain n where n: "map_of inc t = Some n" by auto
  have m: "map_of (set_count t (n + 1) inc) = (map_of inc)(t \<mapsto> n + 1)" using n by (simp add: map_of_set_count)
  have "\<forall>s\<in>set ts. map_of (set_count t (n + 1) inc) s \<noteq> None" using Cons.prems unfolding m by auto
  from Cons.IH [OF this] obtain inc' where i: "count_incoming ts (set_count t (n + 1) inc) = Inr inc'" "map fst inc' = map fst inc"
    "\<forall>v k. map_of (set_count t (n + 1) inc) v = Some k \<longrightarrow> map_of inc' v = Some (k + count_list ts v)" by auto
  have "map_of inc' v = Some (k + count_list (t # ts) v)" if "map_of inc v = Some k" for v k
    using i(3) n that unfolding m by (cases "v = t") auto
  with i n show ?case by simp
qed simp

lemma relax_edges_spec:
  "\<forall>t\<in>set ts. \<exists>n. map_of inc t = Some n \<and> count_list ts t \<le> n \<Longrightarrow>
   \<exists>inc' new. relax_edges ts inc q = Inr (inc', q @ new) \<and> map fst inc' = map fst inc
     \<and> (\<forall>v n. map_of inc v = Some n \<longrightarrow> map_of inc' v = Some (n - count_list ts v))
     \<and> set new = {v \<in> set ts. map_of inc v = Some (count_list ts v)} \<and> distinct new"
proof (induction ts arbitrary: inc q)
  case (Cons t ts)
  from Cons.prems obtain k where "map_of inc t = Some k" "count_list (t # ts) t \<le> k" by auto
  then obtain n where n: "map_of inc t = Some (Suc n)" "count_list ts t \<le> n" by (cases k) auto
  define inc1 where "inc1 = set_count t n inc"
  have m: "map_of inc1 = (map_of inc)(t \<mapsto> n)" using n by (simp add: inc1_def map_of_set_count)
  have "\<exists>k. map_of inc1 s = Some k \<and> count_list ts s \<le> k" if s: "s \<in> set ts" for s
    using Cons.prems s n unfolding m by (cases "s = t") auto
  then obtain inc' new where i: "relax_edges ts inc1 (if n = 0 then q @ [t] else q) = Inr (inc', (if n = 0 then q @ [t] else q) @ new)"
    "map fst inc' = map fst inc" "\<forall>v n. map_of inc1 v = Some n \<longrightarrow> map_of inc' v = Some (n - count_list ts v)"
    "set new = {v \<in> set ts. map_of inc1 v = Some (count_list ts v)}" "distinct new"
    using Cons.IH [of inc1 "if n = 0 then q @ [t] else q"] by (auto simp: inc1_def)
  let ?new = "(if n = 0 then [t] else []) @ new"
  have zero: "n = 0 \<Longrightarrow> t \<notin> set ts" using n(2) by (simp add: count_list_0_iff)
  have "set ?new = {v \<in> set (t # ts). map_of inc v = Some (count_list (t # ts) v)}"
    using n zero count_list_0_iff [of ts t] unfolding set_append i(4) m by auto
  moreover have "distinct ?new" using i(4,5) zero by auto
  moreover have "map_of inc' v = Some (k - count_list (t # ts) v)" if "map_of inc v = Some k" for v k
    using i(3) n that unfolding m by (cases "v = t") auto
  moreover have "relax_edges (t # ts) inc q = Inr (inc', q @ ?new)" using i(1) n by (simp add: inc1_def)
  ultimately show ?case using i(2) by blast
qed simp

definition edge_rel :: "task_dependency list \<Rightarrow> (string \<times> string) set" where
  "edge_rel edges = (\<lambda>e. (td_from e, td_to e)) ` set edges"

text \<open>The edges into a task from tasks that are not done.\<close>

definition indeg :: "task_dependency list \<Rightarrow> string list \<Rightarrow> string \<Rightarrow> nat" where
  "indeg edges P v = length (filter (\<lambda>e. td_to e = v \<and> td_from e \<notin> set P) edges)"

lemma indeg_0: "indeg edges P v = 0 \<longleftrightarrow> (\<forall>a. (a, v) \<in> edge_rel edges \<longrightarrow> a \<in> set P)"
  by (auto simp: indeg_def edge_rel_def filter_empty_conv)

lemma indeg_Nil: "indeg edges [] v = count_list (map td_to edges) v"
  by (induction edges) (auto simp: indeg_def)

lemma indeg_snoc: "i \<notin> set P \<Longrightarrow> indeg edges P v = indeg edges (P @ [i]) v + count_list (edge_ends edges i) v"
  by (induction edges) (auto simp: indeg_def edge_ends_def)

definition kahn_inv :: "string list \<Rightarrow> task_dependency list \<Rightarrow> string list \<Rightarrow> (string \<times> nat) list \<Rightarrow> string list \<Rightarrow> bool" where
  "kahn_inv keys edges P inc q \<longleftrightarrow>
     map fst inc = keys \<and> (\<forall>v\<in>set keys. map_of inc v = Some (indeg edges P v)) \<and> distinct (P @ q) \<and> set P \<subseteq> set keys
     \<and> set q = {v \<in> set keys - set P. indeg edges P v = 0}
     \<and> (\<forall>j<length P. \<forall>a. (a, P ! j) \<in> edge_rel edges \<longrightarrow> a \<in> set (take j P))"

lemma kahn_inv_done: "kahn_inv keys edges P inc q \<Longrightarrow> v \<in> set P \<Longrightarrow> indeg edges P v = 0"
  unfolding indeg_0 kahn_inv_def by (metis in_set_conv_nth in_set_takeD)

text \<open>What the queue gains from a task are the tasks that wait for nothing else.\<close>

lemma kahn_queue:
  assumes inv: "kahn_inv keys edges P inc (i # q)" and ends: "td_to ` set edges \<subseteq> set keys"
    and new: "set new = {v \<in> set (edge_ends edges i). indeg edges (P @ [i]) v = 0}"
  shows "set new \<inter> set (P @ i # q) = {}"
    and "set (q @ new) = {v \<in> set keys - set (P @ [i]). indeg edges (P @ [i]) v = 0}"
proof -
  let ?ts = "edge_ends edges i"
  note I = inv [unfolded kahn_inv_def]
  have q: "distinct (P @ i # q)" and iP: "i \<notin> set P" using I by auto
  have sub: "set ?ts \<subseteq> set keys" using ends by (auto simp: edge_ends_def)
  note snoc = indeg_snoc [OF iP, of edges]
  have pos: "0 < indeg edges P v" if "v \<in> set ?ts" for v
    using snoc [of v] that count_list_0_iff [of ?ts v] by linarith
  have qset: "set (i # q) = {v \<in> set keys - set P. indeg edges P v = 0}" using I by blast
  have zero: "indeg edges P v = 0" if "v \<in> set (P @ i # q)" for v
  proof (cases "v \<in> set P")
    case False
    then have "v \<in> set (i # q)" using that by simp
    then show ?thesis unfolding qset by simp
  qed (rule kahn_inv_done [OF inv])
  show newP: "set new \<inter> set (P @ i # q) = {}" 
  proof (rule ccontr)
    assume "set new \<inter> set (P @ i # q) \<noteq> {}"
    then obtain v where "v \<in> set new" "v \<in> set (P @ i # q)" by blast
    then show False using new pos [of v] zero [of v] by simp
  qed
  show "set (q @ new) = {v \<in> set keys - set (P @ [i]). indeg edges (P @ [i]) v = 0}" (is "?l = ?r")
  proof
    have "set q \<subseteq> ?r"
    proof
      fix v assume v: "v \<in> set q"
      have "v \<in> set (i # q)" using v by simp
      then have "v \<in> set keys - set P" unfolding qset by simp
      moreover have "v \<noteq> i" using q v by auto
      moreover have "indeg edges (P @ [i]) v = 0" using zero [of v] snoc [of v] v by simp
      ultimately show "v \<in> ?r" by simp
    qed
    moreover have "set new \<subseteq> ?r"
    proof
      fix v assume v: "v \<in> set new"
      then have "v \<notin> set (P @ i # q)" using newP by blast
      then show "v \<in> ?r" using v sub unfolding new by auto
    qed
    ultimately show "?l \<subseteq> ?r" by simp
    show "?r \<subseteq> ?l"
    proof
      fix v assume v: "v \<in> ?r"
      show "v \<in> ?l"
      proof (cases "v \<in> set ?ts")
        case False
        then have "indeg edges P v = 0" using v snoc [of v] count_list_0_iff [of ?ts v] by simp
        then have "v \<in> set (i # q)" using v unfolding qset by simp
        then show ?thesis using v by auto
      qed (use v new in auto)
    qed
  qed
qed

lemma kahn_step:
  assumes inv: "kahn_inv keys edges P inc (i # q)" and ends: "td_to ` set edges \<subseteq> set keys"
  shows "\<exists>inc' q'. relax_edges (edge_ends edges i) inc q = Inr (inc', q') \<and> kahn_inv keys edges (P @ [i]) inc' q'"
proof -
  let ?ts = "edge_ends edges i"
  note I = inv [unfolded kahn_inv_def]
  have iP: "i \<notin> set P" and q: "distinct (P @ i # q)" and iK: "i \<in> set keys" and i0: "indeg edges P i = 0" using I by auto
  have mo: "map_of inc v = Some (indeg edges P v)" if "v \<in> set keys" for v using I that by blast
  have sub: "set ?ts \<subseteq> set keys" using ends by (auto simp: edge_ends_def)
  note snoc = indeg_snoc [OF iP, of edges]
  have pre: "\<forall>t\<in>set ?ts. \<exists>n. map_of inc t = Some n \<and> count_list ?ts t \<le> n"
    using mo sub snoc by (metis le_add2 subsetD)
  from relax_edges_spec [OF pre, of q] obtain inc' new where r:
    "relax_edges ?ts inc q = Inr (inc', q @ new)" "map fst inc' = keys"
    "\<forall>v n. map_of inc v = Some n \<longrightarrow> map_of inc' v = Some (n - count_list ?ts v)"
    "set new = {v \<in> set ?ts. map_of inc v = Some (count_list ?ts v)}" "distinct new"
    using I by metis
  have inc': "\<forall>v\<in>set keys. map_of inc' v = Some (indeg edges (P @ [i]) v)" using r(3) mo snoc by simp
  have new: "set new = {v \<in> set ?ts. indeg edges (P @ [i]) v = 0}"
  proof -
    have "map_of inc v = Some (count_list ?ts v) \<longleftrightarrow> indeg edges (P @ [i]) v = 0" if "v \<in> set ?ts" for v
      using mo [of v] snoc [of v] sub that by auto
    then show ?thesis unfolding r(4) by blast
  qed
  note queue = kahn_queue [OF inv ends new]
  have "\<forall>j<length (P @ [i]). \<forall>a. (a, (P @ [i]) ! j) \<in> edge_rel edges \<longrightarrow> a \<in> set (take j (P @ [i]))"
    using I i0 unfolding indeg_0 by (auto simp: less_Suc_eq nth_append)
  then have "kahn_inv keys edges (P @ [i]) inc' (q @ new)"
    using r inc' I q queue iK unfolding kahn_inv_def by auto
  with r(1) show ?thesis by blast
qed

lemma kahn_loop_spec:
  "kahn_inv keys edges P inc q \<Longrightarrow> td_to ` set edges \<subseteq> set keys \<Longrightarrow>
   \<exists>P' inc'. kahn_loop edges inc q (length P) = Inr (length P') \<and> kahn_inv keys edges P' inc' []"
proof (induction edges inc q "length P" arbitrary: P rule: kahn_loop.induct)
  case (2 edges inc i q)
  from kahn_step [OF 2(2,3)] obtain inc' q' where r:
    "relax_edges (edge_ends edges i) inc q = Inr (inc', q')" "kahn_inv keys edges (P @ [i]) inc' q'" by blast
  from 2(1) [OF r(1) refl _ r(2) 2(3)] obtain P' inc'' where
    "kahn_loop edges inc' q' (length (P @ [i])) = Inr (length P')" "kahn_inv keys edges P' inc'' []" by auto
  then show ?case using r(1) by auto
qed auto

lemma takeWhile_index: "distinct P \<Longrightarrow> j < length P \<Longrightarrow> length (takeWhile (\<lambda>x. x \<noteq> P ! j) P) = j"
proof (induction P arbitrary: j)
  case (Cons x P)
  then show ?case by (cases j) (auto simp: nth_eq_iff_index_eq)
qed simp

lemma topological_acyclic:
  assumes "distinct P" "Range E \<subseteq> set P" "\<forall>j<length P. \<forall>a. (a, P ! j) \<in> E \<longrightarrow> a \<in> set (take j P)"
  shows "acyclic E"
proof -
  define pos where "pos v = length (takeWhile (\<lambda>x. x \<noteq> v) P)" for v
  have "pos a < pos b" if ab: "(a, b) \<in> E" for a b
  proof -
    obtain j where j: "j < length P" "P ! j = b" using assms(2) ab by (metis Range.intros in_set_conv_nth subsetD)
    then have "a \<in> set (take j P)" using assms(3) ab by blast
    then obtain k where k: "k < j" "P ! k = a" by (auto simp: in_set_conv_nth)
    then show ?thesis using takeWhile_index [OF assms(1), of j] takeWhile_index [OF assms(1), of k] j by (simp add: pos_def)
  qed
  then have "E \<subseteq> measure pos" by auto
  then show ?thesis by (meson wf_acyclic wf_measure wf_subset)
qed

lemma kahn_inv_start:
  assumes "distinct keys" "map fst inc = keys" "\<forall>v\<in>set keys. map_of inc v = Some (indeg edges [] v)"
  shows "kahn_inv keys edges [] inc (map fst (filter (\<lambda>p. snd p = 0) inc))"
proof -
  have d: "distinct (map fst inc)" using assms(1,2) by simp
  have "set (map fst (filter (\<lambda>p. snd p = 0) inc)) = {v \<in> set keys. indeg edges [] v = 0}"
  proof
    show "set (map fst (filter (\<lambda>p. snd p = 0) inc)) \<subseteq> {v \<in> set keys. indeg edges [] v = 0}"
    proof
      fix v assume "v \<in> set (map fst (filter (\<lambda>p. snd p = 0) inc))"
      then have "(v, 0) \<in> set inc" by auto
      then have "map_of inc v = Some 0" "v \<in> set keys" using d assms(2) by (force, force)
      then show "v \<in> {v \<in> set keys. indeg edges [] v = 0}" using assms(3) by auto
    qed
    show "{v \<in> set keys. indeg edges [] v = 0} \<subseteq> set (map fst (filter (\<lambda>p. snd p = 0) inc))"
      using assms(3) by (force dest: map_of_SomeD)
  qed
  then show ?thesis using assms d distinct_map_filter [OF d, of "\<lambda>p. snd p = 0"] by (simp add: kahn_inv_def)
qed

text \<open>The check refuses exactly the cyclic graphs, and it never subtracts below zero or names an unknown task.\<close>

lemma check_acyclic_spec:
  assumes keys: "distinct keys" and ends: "td_to ` set edges \<subseteq> set keys" "td_from ` set edges \<subseteq> set keys"
  shows "check_acyclic keys edges = (if acyclic (edge_rel edges) then None else Some GraphCycle)"
proof -
  have m: "map_of (map (\<lambda>k. (k, 0 :: nat)) keys) v = (if v \<in> set keys then Some 0 else None)" for v
    by (induction keys) auto
  have "\<forall>t\<in>set (map td_to edges). map_of (map (\<lambda>k. (k, 0 :: nat)) keys) t \<noteq> None" using ends(1) unfolding m by auto
  from count_incoming_spec [OF this] obtain inc where c:
    "count_incoming (map td_to edges) (map (\<lambda>k. (k, 0)) keys) = Inr inc" "map fst inc = keys"
    "\<forall>v\<in>set keys. map_of inc v = Some (indeg edges [] v)"
    unfolding m by (auto simp: o_def indeg_Nil)
  from kahn_loop_spec [OF kahn_inv_start [OF keys c(2,3)] ends(1)] obtain P inc' where k:
    "kahn_loop edges inc (map fst (filter (\<lambda>p. snd p = 0) inc)) 0 = Inr (length P)" "kahn_inv keys edges P inc' []" by auto
  note I = k(2) [unfolded kahn_inv_def]
  have full: "length P = length keys \<longleftrightarrow> set P = set keys"
    using I keys by (metis append_Nil2 card_subset_eq distinct_card finite_set)
  have "set P = set keys \<longleftrightarrow> acyclic (edge_rel edges)"
  proof
    assume "set P = set keys"
    moreover have "Range (edge_rel edges) \<subseteq> set keys" using ends(1) by (auto simp: edge_rel_def)
    ultimately show "acyclic (edge_rel edges)" using I by (intro topological_acyclic [of P]) auto
  next
    assume ac: "acyclic (edge_rel edges)"
    have "wf (edge_rel edges)" using ac by (intro finite_acyclic_wf) (simp_all add: edge_rel_def)
    have "set keys - set P = {}"
    proof (rule ccontr)
      assume "set keys - set P \<noteq> {}"
      then obtain v where v: "v \<in> set keys - set P" "\<And>y. (y, v) \<in> edge_rel edges \<Longrightarrow> y \<notin> set keys - set P"
        using \<open>wf (edge_rel edges)\<close> by (metis ex_in_conv wfE_min)
      have "y \<in> set P" if "(y, v) \<in> edge_rel edges" for y
        using v(2) [OF that] ends(2) that by (auto simp: edge_rel_def)
      then have "indeg edges P v = 0" by (simp add: indeg_0)
      then show False using v(1) I by auto
    qed
    then show "set P = set keys" using I by auto
  qed
  then show ?thesis using c(1) k(1) full by (simp add: check_acyclic_def)
qed

section \<open>Validation\<close>

lemma and_then_None [simp]: "and_then a b = None \<longleftrightarrow> a = None \<and> b = None"
  by (simp add: and_then_def split: option.split)

lemma and_then_Some: "and_then a b = Some e \<longleftrightarrow> a = Some e \<or> a = None \<and> b = Some e"
  by (auto simp: and_then_def split: option.split)

lemma check_each_None: "check_each f xs = None \<longleftrightarrow> (\<forall>x\<in>set xs. f x = None)"
  by (induction xs) auto

lemma check_each_Some: "check_each f xs = Some e \<Longrightarrow> \<exists>x\<in>set xs. f x = Some e"
  by (induction xs) (auto simp: and_then_Some)

text \<open>The checks before the one for cycles.\<close>

definition graph_shape :: "task_graph \<Rightarrow> string list \<Rightarrow> graph_error option" where
  "graph_shape g ceiling =
     and_then (if tg_schema_version g \<noteq> GRAPH_SCHEMA_VERSION \<or> length (tg_tasks g) > MAX_TASKS \<or> length (tg_edges g) > MAX_EDGES
               then Some (GraphInvalid ''schema or graph bounds'') else None)
     (and_then (graph_bounded (tg_graph_id g) GRAPH_MAX_ID)
     (and_then (check_each (check_task ceiling) (tg_tasks g))
       (check_each (check_edge (tg_tasks g)) (tg_edges g))))"

lemma and_then_assoc: "and_then a (and_then b c) = and_then (and_then a b) c"
  by (simp add: and_then_def split: option.split)

lemma check_edge_None:
  "check_edge tasks e = None \<longleftrightarrow> td_from e \<in> set (bt_keys tasks) \<and> td_to e \<in> set (bt_keys tasks)"
  by (auto simp: check_edge_def bt_keys_dom)

lemma graph_validate_and_then:
  "graph_validate g c = and_then (graph_shape g c) (check_acyclic (bt_keys (tg_tasks g)) (tg_edges g))"
  unfolding graph_validate_def graph_shape_def by (simp only: and_then_assoc)

lemma graph_validate_shape:
  assumes "bt_ok (tg_tasks g)"
  shows "graph_validate g c = and_then (graph_shape g c) (if acyclic (edge_rel (tg_edges g)) then None else Some GraphCycle)"
proof (cases "graph_shape g c")
  case None
  then have "\<forall>e\<in>set (tg_edges g). check_edge (tg_tasks g) e = None" by (simp add: graph_shape_def check_each_None)
  then have "td_to ` set (tg_edges g) \<subseteq> set (bt_keys (tg_tasks g))" "td_from ` set (tg_edges g) \<subseteq> set (bt_keys (tg_tasks g))"
    by (auto simp: check_edge_None)
  then have "check_acyclic (bt_keys (tg_tasks g)) (tg_edges g) = (if acyclic (edge_rel (tg_edges g)) then None else Some GraphCycle)"
    by (intro check_acyclic_spec bt.keys_distinct assms)
  then show ?thesis by (simp only: graph_validate_and_then)
next
  case (Some e)
  then show ?thesis by (simp add: graph_validate_and_then and_then_def)
qed

lemma graph_shape_errors: "graph_shape g c = Some e \<Longrightarrow> e \<noteq> GraphCycle \<and> e \<noteq> GraphPanic"
  by (auto simp: graph_shape_def and_then_Some check_task_def check_edge_def check_evidence_def graph_bounded_def
      dest!: check_each_Some split: if_splits)

lemma graph_shape_None:
  "graph_shape g c = None \<longleftrightarrow>
   tg_schema_version g = 1 \<and> length (tg_tasks g) \<le> 1024 \<and> length (tg_edges g) \<le> 4096
   \<and> graph_bounded (tg_graph_id g) GRAPH_MAX_ID = None
   \<and> (\<forall>x\<in>set (tg_tasks g). check_task c x = None) \<and> (\<forall>e\<in>set (tg_edges g). check_edge (tg_tasks g) e = None)"
  by (auto simp: graph_shape_def check_each_None GRAPH_SCHEMA_VERSION_def MAX_TASKS_def MAX_EDGES_def not_less split: if_splits)

lemma check_task_None: "check_task c (i, t) = None \<Longrightarrow> xt_id t = i \<and> set (xt_grants t) \<subseteq> set c"
  by (auto simp: check_task_def list_ex_iff split: if_splits)

lemma valid_graph:
  assumes "bt_ok (tg_tasks g)" "graph_validate g c = None"
  shows "acyclic (edge_rel (tg_edges g))" "\<And>i t. bt_get (tg_tasks g) i = Some t \<Longrightarrow> xt_id t = i"
    "edge_rel (tg_edges g) \<subseteq> set (bt_keys (tg_tasks g)) \<times> set (bt_keys (tg_tasks g))"
proof -
  note v = graph_validate_shape [OF assms(1), of c]
  have s: "graph_shape g c = None" using assms(2) unfolding v by simp
  show "acyclic (edge_rel (tg_edges g))" using assms(2) unfolding v by (simp split: if_splits)
  show "xt_id t = i" if "bt_get (tg_tasks g) i = Some t" for i t
    using that s check_task_None [of c i t] by (auto simp: graph_shape_None bt_get_Some [OF assms(1)])
  show "edge_rel (tg_edges g) \<subseteq> set (bt_keys (tg_tasks g)) \<times> set (bt_keys (tg_tasks g))"
    using s by (auto simp: graph_shape_None check_edge_None edge_rel_def)
qed

text \<open>C27: Validation of a graph decides acyclicity. It accepts a graph only when every edge joins tasks of the graph, the
  edges have no cycle, every task is filed under its own id and its grants stay within the ceiling; it reports a cycle
  exactly for a graph that passes all other checks and has one; and its counters of incoming edges never underflow.\<close>

theorem graph_validate_decides:
  assumes "bt_ok (tg_tasks g)"
  shows "(graph_validate g c = None \<longrightarrow> acyclic (edge_rel (tg_edges g))
      \<and> edge_rel (tg_edges g) \<subseteq> set (bt_keys (tg_tasks g)) \<times> set (bt_keys (tg_tasks g))
      \<and> (\<forall>(i, t) \<in> set (tg_tasks g). xt_id t = i \<and> set (xt_grants t) \<subseteq> set c))
    \<and> (graph_validate g c = Some GraphCycle \<longleftrightarrow> graph_shape g c = None \<and> \<not> acyclic (edge_rel (tg_edges g)))
    \<and> graph_validate g c \<noteq> Some GraphPanic"
proof -
  note v = graph_validate_shape [OF assms, of c]
  have "graph_validate g c = Some GraphCycle \<longleftrightarrow> graph_shape g c = None \<and> \<not> acyclic (edge_rel (tg_edges g))"
    "graph_validate g c \<noteq> Some GraphPanic"
    unfolding v using graph_shape_errors by (auto simp: and_then_Some)
  moreover have "xt_id t = i \<and> set (xt_grants t) \<subseteq> set c" if "graph_validate g c = None" "(i, t) \<in> set (tg_tasks g)" for i t
    using that unfolding v by (intro check_task_None) (simp add: graph_shape_None)
  ultimately show ?thesis using valid_graph(1,3) [OF assms] by blast
qed

section \<open>Ready tasks\<close>

text \<open>The entries of a valid graph, read through the map.\<close>

lemma valid_entries:
  assumes "bt_ok (tg_tasks g)" "graph_validate g c = None"
  shows "t \<in> snd ` set (tg_tasks g) \<longleftrightarrow> bt_get (tg_tasks g) (xt_id t) = Some t"
proof
  assume "t \<in> snd ` set (tg_tasks g)"
  then obtain i where i: "(i, t) \<in> set (tg_tasks g)" by auto
  then have "xt_id t = i" using valid_graph(2) [OF assms] bt_get_Some [OF assms(1)] by blast
  then show "bt_get (tg_tasks g) (xt_id t) = Some t" using i bt_get_Some [OF assms(1)] by blast
next
  assume "bt_get (tg_tasks g) (xt_id t) = Some t"
  then show "t \<in> snd ` set (tg_tasks g)" using bt_get_Some [OF assms(1)] by force
qed

definition task_is :: "task_graph \<Rightarrow> string \<Rightarrow> task_status \<Rightarrow> bool" where
  "task_is g i s = (case bt_get (tg_tasks g) i of Some t \<Rightarrow> xt_status t = s | None \<Rightarrow> False)"

lemma sources_all: "list_all (\<lambda>e. P (td_from e)) (filter (\<lambda>e. td_to e = i) es) \<longleftrightarrow> (\<forall>a. (a, i) \<in> edge_rel es \<longrightarrow> P a)"
  by (auto simp: list_all_iff edge_rel_def)

lemma ready_set_iff:
  assumes "bt_ok (tg_tasks g)" "graph_validate g c = None"
  shows "i \<in> set (ready_set g) \<longleftrightarrow>
    (task_is g i TaskPending \<or> task_is g i TaskReady) \<and> (\<forall>a. (a, i) \<in> edge_rel (tg_edges g) \<longrightarrow> task_is g a TaskCompleted)"
proof -
  note entry = valid_entries [OF assms] and ident = valid_graph(2) [OF assms]
  define D where "D = map xt_id (filter (\<lambda>t. xt_status t = TaskCompleted) (map snd (tg_tasks g)))"
  have "a \<in> set D \<longleftrightarrow> (\<exists>t. t \<in> snd ` set (tg_tasks g) \<and> xt_id t = a \<and> xt_status t = TaskCompleted)" for a
    unfolding D_def by auto
  then have "a \<in> set D \<longleftrightarrow> (\<exists>t. bt_get (tg_tasks g) a = Some t \<and> xt_status t = TaskCompleted)" for a
    using entry ident by metis
  then have D: "a \<in> set D \<longleftrightarrow> task_is g a TaskCompleted" for a
    by (simp add: task_is_def split: option.split)
  have "i \<in> set (ready_set g) \<longleftrightarrow>
    (\<exists>t. t \<in> snd ` set (tg_tasks g) \<and> xt_id t = i \<and> (xt_status t = TaskPending \<or> xt_status t = TaskReady)
      \<and> (\<forall>a. (a, i) \<in> edge_rel (tg_edges g) \<longrightarrow> a \<in> set D))"
    unfolding ready_set_def Let_def D_def [symmetric] sources_all [where P = "\<lambda>a. a \<in> set D"] set_map set_filter by blast
  also have "\<dots> \<longleftrightarrow> (\<exists>t. bt_get (tg_tasks g) i = Some t \<and> (xt_status t = TaskPending \<or> xt_status t = TaskReady)
      \<and> (\<forall>a. (a, i) \<in> edge_rel (tg_edges g) \<longrightarrow> a \<in> set D))"
    using entry ident by metis
  finally show ?thesis unfolding D by (auto simp: task_is_def split: option.split)
qed

lemma ready_set_sorted:
  assumes "bt_ok (tg_tasks g)" "graph_validate g c = None"
  shows "sorted_wrt (<) (ready_set g)"
proof -
  have "map xt_id (map snd (tg_tasks g)) = bt_keys (tg_tasks g)"
    using valid_graph(2) [OF assms] bt_get_Some [OF assms(1)] by (auto simp: bt_keys_def)
  then have "sorted_wrt (\<lambda>t u. xt_id t < xt_id u) (map snd (tg_tasks g))"
    using assms(1) by (simp add: bt_ok_def flip: sorted_wrt_map)
  then show ?thesis unfolding ready_set_def Let_def by (simp only: sorted_wrt_map sorted_wrt_filter)
qed

text \<open>C28: Progress of a task graph. In a graph that passes validation a task is ready exactly when it is pending or marked
  ready and everything it depends on is completed, the ready tasks come in the order of their ids and without repetition,
  and as long as no task has left the states pending, ready and completed and some task is not completed, at least one
  task is ready: the executor is never stuck.\<close>

theorem ready_set_progress:
  assumes "bt_ok (tg_tasks g)" "graph_validate g c = None"
    and "\<forall>i\<in>set (bt_keys (tg_tasks g)). task_is g i TaskPending \<or> task_is g i TaskReady \<or> task_is g i TaskCompleted"
    and "\<exists>i\<in>set (bt_keys (tg_tasks g)). \<not> task_is g i TaskCompleted"
  shows "ready_set g \<noteq> [] \<and> sorted_wrt (<) (ready_set g)
    \<and> (\<forall>i. i \<in> set (ready_set g) \<longleftrightarrow> (task_is g i TaskPending \<or> task_is g i TaskReady)
        \<and> (\<forall>a. (a, i) \<in> edge_rel (tg_edges g) \<longrightarrow> task_is g a TaskCompleted))"
proof -
  let ?open = "{i \<in> set (bt_keys (tg_tasks g)). \<not> task_is g i TaskCompleted}"
  note valid = valid_graph [OF assms(1,2)]
  have "wf (edge_rel (tg_edges g))" using valid(1) by (intro finite_acyclic_wf) (simp_all add: edge_rel_def)
  moreover obtain o' where "o' \<in> ?open" using assms(4) by blast
  ultimately obtain i where i: "i \<in> ?open" "\<And>a. (a, i) \<in> edge_rel (tg_edges g) \<Longrightarrow> a \<notin> ?open" by (rule wfE_min) blast
  have "a \<in> set (bt_keys (tg_tasks g))" if "(a, i) \<in> edge_rel (tg_edges g)" for a using that valid(3) by blast
  then have "\<forall>a. (a, i) \<in> edge_rel (tg_edges g) \<longrightarrow> task_is g a TaskCompleted" using i(2) by simp
  moreover have "task_is g i TaskPending \<or> task_is g i TaskReady" using i(1) assms(3) by auto
  ultimately have "i \<in> set (ready_set g)" unfolding ready_set_iff [OF assms(1,2)] by simp
  then have "ready_set g \<noteq> []" by auto
  then show ?thesis using ready_set_iff [OF assms(1,2)] ready_set_sorted [OF assms(1,2)] by blast
qed

section \<open>Invalidation\<close>

text \<open>What invalidation means for the lookups: the tasks of a set lose their status unless they are completed.\<close>

definition mark_invalid :: "string set \<Rightarrow> (string \<rightharpoonup> execution_task) \<Rightarrow> (string \<rightharpoonup> execution_task)" where
  "mark_invalid S m i =
     (case m i of None \<Rightarrow> None
      | Some t \<Rightarrow> Some (if i \<in> S \<and> xt_status t \<noteq> TaskCompleted then t\<lparr>xt_status := TaskInvalidated\<rparr> else t))"

lemma mark_invalid_empty [simp]: "mark_invalid {} m = m"
  by (simp add: mark_invalid_def fun_eq_iff split: option.split)

lemma mark_invalid_insert: "mark_invalid {i} (mark_invalid S m) = mark_invalid (insert i S) m"
  by (auto simp: mark_invalid_def fun_eq_iff split: option.split)

lemma mark_invalid_completed: "m i = Some t \<Longrightarrow> xt_status t = TaskCompleted \<Longrightarrow> mark_invalid S m i = Some t"
  by (simp add: mark_invalid_def)

lemma mark_invalid_in: "i \<in> S \<Longrightarrow> mark_invalid S m i =
    map_option (\<lambda>t. if xt_status t = TaskCompleted then t else t\<lparr>xt_status := TaskInvalidated\<rparr>) (m i)"
  by (simp add: mark_invalid_def split: option.split)

lemma mark_invalid_out: "i \<notin> S \<Longrightarrow> mark_invalid S m i = m i"
  by (simp add: mark_invalid_def split: option.split)

lemma dom_mark_invalid [simp]: "dom (mark_invalid S m) = dom m"
  by (auto simp: mark_invalid_def split: option.splits)

lemma invalidate_task_spec:
  assumes "bt_ok tasks"
  shows "bt_ok (invalidate_task i tasks)" "bt_get (invalidate_task i tasks) = mark_invalid {i} (bt_get tasks)"
  using assms by (auto simp: invalidate_task_def mark_invalid_def bt_ok_insert bt_get_insert fun_eq_iff split: option.split)

lemma invalidate_ends_spec:
  "invalidate_ends ts hit tasks q = (hit', tasks', q') \<Longrightarrow> bt_ok tasks \<Longrightarrow> bt_get tasks = mark_invalid (set hit) T \<Longrightarrow>
   bt_ok tasks' \<and> bt_get tasks' = mark_invalid (set hit') T \<and> set q' = set q \<union> (set hit' - set hit)"
proof (induction ts hit tasks q rule: invalidate_ends.induct)
  case (2 t ts hit tasks q)
  show ?case
  proof (cases "t \<in> set hit")
    case False
    have "bt_get (invalidate_task t tasks) = mark_invalid (set (t # hit)) T"
      using 2(4,5) by (simp add: invalidate_task_spec mark_invalid_insert)
    then have "bt_ok tasks' \<and> bt_get tasks' = mark_invalid (set hit') T \<and> set q' = set (q @ [t]) \<union> (set hit' - set (t # hit))"
      using 2(2) [OF False] 2(3) False invalidate_task_spec(1) [OF 2(4)] by simp
    moreover have "t \<in> set hit'" using invalidate_ends_set [OF 2(3)] by simp
    ultimately show ?thesis using False by auto
  qed (use 2 in simp)
qed simp

lemma edge_ends_rel: "set (edge_ends edges i) = edge_rel edges `` {i}"
  by (auto simp: edge_ends_def edge_rel_def)

text \<open>The queue holds what is still to be expanded: everything else that is changed or hit has its successors hit.\<close>

definition frontier :: "(string \<times> string) set \<Rightarrow> string set \<Rightarrow> string list \<Rightarrow> string list \<Rightarrow> bool" where
  "frontier E C hit q \<longleftrightarrow> set q \<subseteq> C \<union> set hit \<and> set hit \<subseteq> E\<^sup>+ `` C \<and> (\<forall>v\<in>C \<union> set hit. v \<in> set q \<or> E `` {v} \<subseteq> set hit)"

lemma frontier_step:
  assumes f: "frontier E C hit (i # q)" and h: "set hit' = set hit \<union> E `` {i}" and q: "set q' = set q \<union> (set hit' - set hit)"
  shows "frontier E C hit' q'"
proof -
  have "E `` {i} \<subseteq> E\<^sup>+ `` C"
  proof
    fix v assume v: "v \<in> E `` {i}"
    from f have "i \<in> C \<or> i \<in> E\<^sup>+ `` C" by (auto simp: frontier_def)
    then show "v \<in> E\<^sup>+ `` C" using v by (auto intro: trancl_into_trancl)
  qed
  then show ?thesis using f unfolding frontier_def h q by auto
qed

lemma frontier_done: "frontier E C hit [] \<Longrightarrow> set hit = E\<^sup>+ `` C"
proof (intro equalityI subsetI)
  fix v assume f: "frontier E C hit []" and "v \<in> E\<^sup>+ `` C"
  then obtain c where c: "c \<in> C" "(c, v) \<in> E\<^sup>+" by blast
  from c(2) show "v \<in> set hit" by (induction rule: trancl_induct) (use f c(1) in \<open>auto simp: frontier_def\<close>)
qed (auto simp: frontier_def)

lemma invalidate_loop_spec:
  "bt_ok tasks \<Longrightarrow> bt_get tasks = mark_invalid (set hit) T \<Longrightarrow> frontier (edge_rel edges) C hit q \<Longrightarrow>
   bt_ok (invalidate_loop edges hit tasks q)
   \<and> bt_get (invalidate_loop edges hit tasks q) = mark_invalid ((edge_rel edges)\<^sup>+ `` C) T"
proof (induction edges hit tasks q rule: invalidate_loop.induct)
  case (1 edges hit tasks)
  then show ?case using frontier_done by auto
next
  case (2 edges hit tasks i q)
  obtain hit' tasks' q' where e: "invalidate_ends (edge_ends edges i) hit tasks q = (hit', tasks', q')" by (metis prod_cases3)
  note s = invalidate_ends_spec [OF e 2(2,3)]
  have "frontier (edge_rel edges) C hit' q'"
    using frontier_step [OF 2(4)] s invalidate_ends_set [OF e] by (simp add: edge_ends_rel)
  then show ?case using 2(1) [OF e [symmetric] refl] s e by simp
qed

corollary invalidate_loop_get:
  assumes "bt_ok tasks"
  shows "bt_ok (invalidate_loop edges [] tasks q)"
    "bt_get (invalidate_loop edges [] tasks q) = mark_invalid ((edge_rel edges)\<^sup>+ `` set q) (bt_get tasks)"
  using invalidate_loop_spec [of tasks "[]" "bt_get tasks" edges "set q" q] assms by (auto simp: frontier_def)

text \<open>Invalidation does not change what validation looks at.\<close>

lemma check_task_status [simp]: "check_task c (i, t\<lparr>xt_status := s\<rparr>) = check_task c (i, t)"
  by (simp add: check_task_def)

lemma bt_keys_dom_eq: "bt_ok m \<Longrightarrow> bt_ok m' \<Longrightarrow> dom (bt_get m) = dom (bt_get m') \<Longrightarrow> bt_keys m = bt_keys m'"
  by (intro strict_sorted_equal) (simp_all add: bt_keys_dom bt.keys_sorted)

lemma validate_invalidated:
  assumes ok: "bt_ok (tg_tasks g)" "bt_ok tasks" and get: "bt_get tasks = mark_invalid S (bt_get (tg_tasks g))"
    and v: "graph_validate g c = None"
  shows "graph_validate (g\<lparr>tg_tasks := tasks, tg_revision := r, tg_content_hash := h\<rparr>) c = None" (is "graph_validate ?g c = None")
proof -
  have keys: "bt_keys tasks = bt_keys (tg_tasks g)" using ok by (intro bt_keys_dom_eq) (simp_all add: get)
  then have len: "length tasks = length (tg_tasks g)" by (metis bt_keys_def length_map)
  have s: "graph_shape g c = None" and a: "check_acyclic (bt_keys (tg_tasks g)) (tg_edges g) = None"
    using v by (simp_all add: graph_validate_and_then)
  have "check_task c (i, t) = None" if "(i, t) \<in> set tasks" for i t
  proof -
    have "mark_invalid S (bt_get (tg_tasks g)) i = Some t" using that ok by (simp add: bt_get_Some flip: get)
    then obtain u where u: "bt_get (tg_tasks g) i = Some u" "t = u \<or> t = u\<lparr>xt_status := TaskInvalidated\<rparr>"
      by (auto simp: mark_invalid_def split: option.splits if_splits)
    then have "check_task c (i, u) = None" using s bt_get_Some [OF ok(1)] by (simp add: graph_shape_None)
    then show ?thesis using u(2) by auto
  qed
  then have "graph_shape ?g c = None" using s by (auto simp: graph_shape_None len check_edge_None keys)
  then show ?thesis using a by (simp add: graph_validate_and_then keys)
qed

section \<open>Patches\<close>

lemma apply_op_keeps:
  assumes "apply_op op g = Inr g'" "bt_ok (tg_tasks g)"
  shows "bt_ok (tg_tasks g') \<and> tg_revision g' = tg_revision g
    \<and> (\<forall>i t. bt_get (tg_tasks g) i = Some t \<and> xt_status t = TaskCompleted \<longrightarrow> bt_get (tg_tasks g') i = Some t)"
  using assms
  by (cases op) (auto simp: update_task_def bt_ok_insert bt_ok_remove bt_get_insert bt_get_remove split: option.splits if_splits)

lemma apply_ops_keeps:
  "apply_ops ops g = Inr g' \<Longrightarrow> bt_ok (tg_tasks g) \<Longrightarrow>
   bt_ok (tg_tasks g') \<and> tg_revision g' = tg_revision g
    \<and> (\<forall>i t. bt_get (tg_tasks g) i = Some t \<and> xt_status t = TaskCompleted \<longrightarrow> bt_get (tg_tasks g') i = Some t)"
proof (induction ops arbitrary: g)
  case (Cons op ops)
  then obtain g1 where g1: "apply_op op g = Inr g1" "apply_ops ops g1 = Inr g'" by (auto split: sum.splits)
  from apply_op_keeps [OF g1(1) Cons.prems(2)] Cons.IH [OF g1(2)] show ?case by simp
qed simp

lemma set_changed_ids: "set (changed_ids ops) = {i. \<exists>op\<in>set ops. changed_id op = Some i}"
  by (force simp: changed_ids_def List.map_filter_def)

text \<open>The graph that a patch stores when its operations have given \<open>g\<close>.\<close>

definition patched :: "(task_graph \<Rightarrow> string) \<Rightarrow> patch_op list \<Rightarrow> task_graph \<Rightarrow> task_graph" where
  "patched hash ops g =
     (let g = g\<lparr>tg_tasks := invalidate_loop (tg_edges g) [] (tg_tasks g) (changed_ids ops), tg_revision := tg_revision g + 1\<rparr>
      in g\<lparr>tg_content_hash := hash g\<rparr>)"

definition touched :: "patch_op list \<Rightarrow> task_dependency list \<Rightarrow> string set" where
  "touched ops edges = (edge_rel edges)\<^sup>+ `` {i. \<exists>op\<in>set ops. changed_id op = Some i}"

lemma patched_fields:
  assumes "bt_ok (tg_tasks g)"
  shows "bt_ok (tg_tasks (patched hash ops g))" "tg_edges (patched hash ops g) = tg_edges g"
    "tg_revision (patched hash ops g) = tg_revision g + 1"
    "bt_get (tg_tasks (patched hash ops g)) = mark_invalid (touched ops (tg_edges g)) (bt_get (tg_tasks g))"
    "graph_validate g c = None \<Longrightarrow> graph_validate (patched hash ops g) c = None"
proof -
  show *: "bt_ok (tg_tasks (patched hash ops g))" "tg_edges (patched hash ops g) = tg_edges g"
    "tg_revision (patched hash ops g) = tg_revision g + 1"
    "bt_get (tg_tasks (patched hash ops g)) = mark_invalid (touched ops (tg_edges g)) (bt_get (tg_tasks g))"
    using assms by (simp_all add: patched_def Let_def invalidate_loop_get set_changed_ids touched_def)
  show "graph_validate (patched hash ops g) c = None" if "graph_validate g c = None"
    using validate_invalidated [OF assms *(1,4) that] by (simp add: patched_def Let_def)
qed

lemma patched_touched:
  assumes ok: "bt_ok (tg_tasks g)" and v: "graph_validate g c = None" and i: "i \<in> touched ops (tg_edges g)"
  shows "(task_is (patched hash ops g) i TaskCompleted \<or> task_is (patched hash ops g) i TaskInvalidated)
    \<and> i \<notin> set (ready_set (patched hash ops g))"
proof -
  note f = patched_fields [OF ok, where hash = hash and ops = ops]
  from i have "i \<in> Range (edge_rel (tg_edges g))" unfolding touched_def by (metis Image_iff Range.intros trancl_range)
  then have "i \<in> dom (bt_get (tg_tasks g))" using valid_graph(3) [OF ok v] by (auto simp: bt_keys_dom)
  then obtain t where "bt_get (tg_tasks g) i = Some t" by blast
  then have "bt_get (tg_tasks (patched hash ops g)) i =
      Some (if xt_status t = TaskCompleted then t else t\<lparr>xt_status := TaskInvalidated\<rparr>)"
    by (simp add: f(4) mark_invalid_in [OF i])
  then show ?thesis unfolding ready_set_iff [OF f(1) f(5) [OF v]] by (simp add: task_is_def)
qed

lemma apply_patch_eq:
  assumes ok: "bt_ok (tg_tasks g)"
  shows "apply_patch hash g ops r c =
    (if tg_revision g \<noteq> r \<or> length ops > MAX_PATCH_OPS then Inl GraphStaleRevision
     else case apply_ops ops g of Inl e \<Rightarrow> Inl e
     | Inr g1 \<Rightarrow> (case graph_validate g1 c of Some e \<Rightarrow> Inl e | None \<Rightarrow> Inr (patched hash ops g1)))"
proof (cases "apply_ops ops g")
  case (Inr g1)
  note k = apply_ops_keeps [OF Inr ok]
  let ?g = "patched hash ops g1"
  have "bt_get (tg_tasks ?g) i = Some t" if "(i, t) \<in> set (tg_tasks g)" "xt_status t = TaskCompleted" for i t
    using that k bt_get_Some [OF ok, of i t] by (simp add: patched_fields mark_invalid_completed)
  then have "\<not> list_ex (\<lambda>(i, t). xt_status t = TaskCompleted
      \<and> (case bt_get (tg_tasks ?g) i of Some n \<Rightarrow> xt_contract_hash n \<noteq> xt_contract_hash t | None \<Rightarrow> True)) (tg_tasks g)"
    by (auto simp: list_ex_iff)
  then show ?thesis by (simp add: apply_patch_def Inr patched_def Let_def split: option.split)
qed (simp add: apply_patch_def)

text \<open>C26: A patch of the task graph is accepted exactly when the caller's revision is the current one, at most 256
  operations are given, every operation applies and the result validates under the caller's grants: the comparison of
  contract hashes at the end refuses nothing more. An accepted patch raises the revision by one, leaves every completed
  task as it was, stores a graph that validates again, and every task that depends, through any number of edges, on a
  task the patch revised, reassigned or gave new criteria is completed or invalidated, so it is not among the ready
  tasks; the tasks that depend on no changed task are what the operations made of them.\<close>

theorem apply_patch_safe:
  assumes ok: "bt_ok (tg_tasks g)"
  shows "((\<exists>g'. apply_patch hash g ops r c = Inr g') \<longleftrightarrow>
      tg_revision g = r \<and> length ops \<le> 256 \<and> (\<exists>g1. apply_ops ops g = Inr g1 \<and> graph_validate g1 c = None))
    \<and> (\<forall>g'. apply_patch hash g ops r c = Inr g' \<longrightarrow>
        tg_revision g' = r + 1 \<and> bt_ok (tg_tasks g') \<and> graph_validate g' c = None
      \<and> (\<forall>i t. bt_get (tg_tasks g) i = Some t \<and> xt_status t = TaskCompleted \<longrightarrow> bt_get (tg_tasks g') i = Some t)
      \<and> (\<forall>i \<in> touched ops (tg_edges g').
          (task_is g' i TaskCompleted \<or> task_is g' i TaskInvalidated) \<and> i \<notin> set (ready_set g'))
      \<and> (\<forall>g1 i. apply_ops ops g = Inr g1 \<and> i \<notin> touched ops (tg_edges g') \<longrightarrow> bt_get (tg_tasks g') i = bt_get (tg_tasks g1) i))"
proof -
  have iff: "apply_patch hash g ops r c = Inr g' \<longleftrightarrow>
      tg_revision g = r \<and> length ops \<le> 256 \<and> (\<exists>g1. apply_ops ops g = Inr g1 \<and> graph_validate g1 c = None \<and> g' = patched hash ops g1)" for g'
    unfolding apply_patch_eq [OF ok] by (auto simp: MAX_PATCH_OPS_def split: sum.splits option.splits)
  have "tg_revision g' = r + 1 \<and> bt_ok (tg_tasks g') \<and> graph_validate g' c = None
      \<and> (\<forall>i t. bt_get (tg_tasks g) i = Some t \<and> xt_status t = TaskCompleted \<longrightarrow> bt_get (tg_tasks g') i = Some t)
      \<and> (\<forall>i \<in> touched ops (tg_edges g').
          (task_is g' i TaskCompleted \<or> task_is g' i TaskInvalidated) \<and> i \<notin> set (ready_set g'))
      \<and> (\<forall>g1 i. apply_ops ops g = Inr g1 \<and> i \<notin> touched ops (tg_edges g') \<longrightarrow> bt_get (tg_tasks g') i = bt_get (tg_tasks g1) i)"
    if p: "apply_patch hash g ops r c = Inr g'" for g'
  proof -
    from p obtain g1 where g1: "tg_revision g = r" "apply_ops ops g = Inr g1" "graph_validate g1 c = None" "g' = patched hash ops g1"
      unfolding iff by blast
    note k = apply_ops_keeps [OF g1(2) ok]
    then show ?thesis
      using g1 patched_touched [OF _ g1(3), of _ ops hash] by (simp add: patched_fields mark_invalid_completed mark_invalid_out)
  qed
  then show ?thesis unfolding iff by blast
qed

section \<open>Examples\<close>

definition demo_task :: "string \<Rightarrow> task_status \<Rightarrow> execution_task" where
  "demo_task i s = \<lparr>xt_id = i, xt_title = i, xt_instruction = ''do'', xt_status = s, xt_revision = 1, xt_contract_hash = ''h'',
     xt_role = ''r'', xt_grants = [''read''], xt_dependencies = [], xt_acceptance_criteria = [], xt_evidence = []\<rparr>"

definition demo_edge :: "string \<Rightarrow> string \<Rightarrow> task_dependency" where
  "demo_edge a b = \<lparr>td_from = a, td_to = b, td_kind = ''k''\<rparr>"

text \<open>A completed task, one that depends on it and one that depends on that.\<close>

definition demo_graph :: "task_dependency list \<Rightarrow> task_graph" where
  "demo_graph extra = \<lparr>tg_schema_version = 1, tg_graph_id = ''g'', tg_revision = 1,
     tg_tasks = [(''a'', demo_task ''a'' TaskCompleted), (''b'', demo_task ''b'' TaskPending), (''c'', demo_task ''c'' TaskPending)],
     tg_edges = [demo_edge ''a'' ''b'', demo_edge ''b'' ''c''] @ extra, tg_content_hash = ''h''\<rparr>"

lemma demo_graph_ok: "bt_ok (tg_tasks (demo_graph es))"
  by (simp add: demo_graph_def, code_simp)

lemma demo_graph_valid: "graph_validate (demo_graph []) [''read''] = None"
  by code_simp

theorem graph_validate_decides_witness:
  "bt_ok (tg_tasks (demo_graph [])) \<and> graph_validate (demo_graph []) [''read''] = None
   \<and> acyclic (edge_rel (tg_edges (demo_graph [])))
   \<and> graph_validate (demo_graph [demo_edge ''c'' ''b'']) [''read''] = Some GraphCycle
   \<and> \<not> acyclic (edge_rel (tg_edges (demo_graph [demo_edge ''c'' ''b''])))"
proof -
  have "graph_validate (demo_graph [demo_edge ''c'' ''b'']) [''read''] = Some GraphCycle" by code_simp
  then show ?thesis
    using graph_validate_decides [OF demo_graph_ok, of "[]" "[''read'']"]
      graph_validate_decides [OF demo_graph_ok, of "[demo_edge ''c'' ''b'']" "[''read'']"] demo_graph_ok demo_graph_valid by simp
qed

theorem ready_set_progress_witness: "ready_set (demo_graph []) = [''b''] \<and> ready_set (demo_graph []) \<noteq> []"
proof -
  have a: "\<forall>i\<in>set (bt_keys (tg_tasks (demo_graph []))).
      task_is (demo_graph []) i TaskPending \<or> task_is (demo_graph []) i TaskReady \<or> task_is (demo_graph []) i TaskCompleted"
    by code_simp
  have b: "\<exists>i\<in>set (bt_keys (tg_tasks (demo_graph []))). \<not> task_is (demo_graph []) i TaskCompleted" by code_simp
  have "ready_set (demo_graph []) = [''b'']" by code_simp
  then show ?thesis using ready_set_progress [OF demo_graph_ok demo_graph_valid a b] by blast
qed

theorem apply_patch_safe_witness:
  "\<exists>g'. apply_patch (\<lambda>_. ''x'') (demo_graph []) [ChangeAcceptanceCriteria ''b'' [''done'']] 1 [''read''] = Inr g'
    \<and> tg_revision g' = 2 \<and> task_is g' ''a'' TaskCompleted \<and> task_is g' ''b'' TaskPending \<and> task_is g' ''c'' TaskInvalidated
    \<and> bt_get (tg_tasks g') ''a'' = Some (demo_task ''a'' TaskCompleted)"
proof -
  let ?p = "apply_patch (\<lambda>_. ''x'') (demo_graph []) [ChangeAcceptanceCriteria ''b'' [''done'']] 1 [''read'']"
  have p: "case ?p of Inr g' \<Rightarrow> task_is g' ''a'' TaskCompleted \<and> task_is g' ''b'' TaskPending \<and> task_is g' ''c'' TaskInvalidated
      | Inl e \<Rightarrow> False"
    by code_simp
  then obtain g' where g': "?p = Inr g'" by (auto split: sum.splits)
  have "bt_get (tg_tasks (demo_graph [])) ''a'' = Some (demo_task ''a'' TaskCompleted)" by code_simp
  moreover have "xt_status (demo_task ''a'' TaskCompleted) = TaskCompleted" by code_simp
  ultimately show ?thesis
    using apply_patch_safe [OF demo_graph_ok, of "\<lambda>_. ''x''" "[]" "[ChangeAcceptanceCriteria ''b'' [''done'']]" 1 "[''read'']"] p g'
    by fastforce
qed

end
