(* ===== verification/Ip_Address.thy ===== *)
theory Ip_Address
  imports Unicode_Text
begin

text \<open>
  \<open>std::net::IpAddr\<close>: the addresses, the tests of the standard library that the network guards use, the parser behind
  \<open>parse::<IpAddr>()\<close> with its sections (number, dotted quad, groups of IPv6 with \<open>::\<close> and an embedded quad), and networks
  as ranges of addresses.
\<close>

type_synonym u16 = "16 word"

unbundle bit_operations_syntax

section \<open>Addresses\<close>

datatype ipv4_addr = Ipv4Addr u8 u8 u8 u8

datatype ipv6_addr = Ipv6Addr u16 u16 u16 u16 u16 u16 u16 u16

datatype ip_addr = V4 ipv4_addr | V6 ipv6_addr

fun v4_is_loopback :: "ipv4_addr \<Rightarrow> bool" where
  "v4_is_loopback (Ipv4Addr a b c d) \<longleftrightarrow> a = 127"

fun v4_is_private :: "ipv4_addr \<Rightarrow> bool" where
  "v4_is_private (Ipv4Addr a b c d) \<longleftrightarrow> a = 10 \<or> a = 172 \<and> 16 \<le> b \<and> b \<le> 31 \<or> a = 192 \<and> b = 168"

fun v4_is_link_local :: "ipv4_addr \<Rightarrow> bool" where
  "v4_is_link_local (Ipv4Addr a b c d) \<longleftrightarrow> a = 169 \<and> b = 254"

fun v4_is_broadcast :: "ipv4_addr \<Rightarrow> bool" where
  "v4_is_broadcast (Ipv4Addr a b c d) \<longleftrightarrow> a = 255 \<and> b = 255 \<and> c = 255 \<and> d = 255"

fun v4_is_unspecified :: "ipv4_addr \<Rightarrow> bool" where
  "v4_is_unspecified (Ipv4Addr a b c d) \<longleftrightarrow> a = 0 \<and> b = 0 \<and> c = 0 \<and> d = 0"

fun v4_is_multicast :: "ipv4_addr \<Rightarrow> bool" where
  "v4_is_multicast (Ipv4Addr a b c d) \<longleftrightarrow> 224 \<le> a \<and> a \<le> 239"

fun v6_is_loopback :: "ipv6_addr \<Rightarrow> bool" where
  "v6_is_loopback (Ipv6Addr a b c d e f g h) \<longleftrightarrow> a = 0 \<and> b = 0 \<and> c = 0 \<and> d = 0 \<and> e = 0 \<and> f = 0 \<and> g = 0 \<and> h = 1"

fun v6_is_unspecified :: "ipv6_addr \<Rightarrow> bool" where
  "v6_is_unspecified (Ipv6Addr a b c d e f g h) \<longleftrightarrow> a = 0 \<and> b = 0 \<and> c = 0 \<and> d = 0 \<and> e = 0 \<and> f = 0 \<and> g = 0 \<and> h = 0"

fun v6_is_multicast :: "ipv6_addr \<Rightarrow> bool" where
  "v6_is_multicast (Ipv6Addr a b c d e f g h) \<longleftrightarrow> a AND 0xff00 = 0xff00"

fun v6_is_unique_local :: "ipv6_addr \<Rightarrow> bool" where
  "v6_is_unique_local (Ipv6Addr a b c d e f g h) \<longleftrightarrow> a AND 0xfe00 = 0xfc00"

fun v6_is_unicast_link_local :: "ipv6_addr \<Rightarrow> bool" where
  "v6_is_unicast_link_local (Ipv6Addr a b c d e f g h) \<longleftrightarrow> a AND 0xffc0 = 0xfe80"

fun v6_to_ipv4_mapped :: "ipv6_addr \<Rightarrow> ipv4_addr option" where
  "v6_to_ipv4_mapped (Ipv6Addr a b c d e f g h) =
     (if a = 0 \<and> b = 0 \<and> c = 0 \<and> d = 0 \<and> e = 0 \<and> f = 0xffff
      then Some (Ipv4Addr (ucast (drop_bit 8 g)) (ucast g) (ucast (drop_bit 8 h)) (ucast h)) else None)"

section \<open>The parser\<close>

definition digit_value :: "nat \<Rightarrow> char \<Rightarrow> nat option" where
  "digit_value radix c =
     (let n = of_char c :: nat;
          v = (if 48 \<le> n \<and> n \<le> 57 then n - 48 else if 97 \<le> n \<and> n \<le> 122 then n - 87 else if 65 \<le> n \<and> n \<le> 90 then n - 55 else radix)
      in if v < radix then Some v else None)"

definition digits_value :: "nat \<Rightarrow> string \<Rightarrow> nat" where
  "digits_value radix ds = foldl (\<lambda>acc c. acc * radix + the (digit_value radix c)) 0 ds"

text \<open>\<open>read_number\<close> with a bound on the digits: the digits are taken as far as they go; too many of them, none, a leading
  zero where it is not allowed or a value out of range fail.\<close>

definition read_number :: "nat \<Rightarrow> nat \<Rightarrow> bool \<Rightarrow> nat \<Rightarrow> string \<Rightarrow> (nat \<times> string) option" where
  "read_number radix max_digits allow_zero_prefix bound s =
     (let ds = takeWhile (\<lambda>c. digit_value radix c \<noteq> None) s; v = digits_value radix ds in
      if ds = [] \<or> length ds > max_digits \<or> \<not> allow_zero_prefix \<and> hd ds = CHR ''0'' \<and> length ds > 1 \<or> v > bound
      then None else Some (v, drop (length ds) s))"

definition read_given_char :: "char \<Rightarrow> string \<Rightarrow> string option" where
  "read_given_char c s = (case s of x # xs \<Rightarrow> if x = c then Some xs else None | [] \<Rightarrow> None)"

definition read_separator :: "char \<Rightarrow> nat \<Rightarrow> (string \<Rightarrow> ('a \<times> string) option) \<Rightarrow> string \<Rightarrow> ('a \<times> string) option" where
  "read_separator sep index inner s = (if index > 0 then Option.bind (read_given_char sep s) inner else inner s)"

definition read_octet :: "nat \<Rightarrow> string \<Rightarrow> (nat \<times> string) option" where
  "read_octet index = read_separator (CHR ''.'') index (read_number 10 3 False 255)"

definition read_ipv4_addr :: "string \<Rightarrow> (ipv4_addr \<times> string) option" where
  "read_ipv4_addr s =
     Option.bind (read_octet 0 s) (\<lambda>(a, s). Option.bind (read_octet 1 s) (\<lambda>(b, s).
     Option.bind (read_octet 2 s) (\<lambda>(c, s). Option.bind (read_octet 3 s) (\<lambda>(d, s).
       Some (Ipv4Addr (of_nat a) (of_nat b) (of_nat c) (of_nat d), s)))))"

definition from_be_bytes :: "u8 \<Rightarrow> u8 \<Rightarrow> u16" where
  "from_be_bytes a b = push_bit 8 (ucast a) OR ucast b"

text \<open>\<open>read_groups\<close>: the first argument counts the groups that are left, the second those already read.\<close>

fun read_groups :: "nat \<Rightarrow> nat \<Rightarrow> string \<Rightarrow> u16 list \<times> bool \<times> string" where
  "read_groups 0 i s = ([], False, s)"
| "read_groups (Suc left) i s =
     (case (if left > 0 then read_separator (CHR '':'') i read_ipv4_addr s else None) of
        Some (Ipv4Addr a b c d, s') \<Rightarrow> ([from_be_bytes a b, from_be_bytes c d], True, s')
      | None \<Rightarrow>
          case read_separator (CHR '':'') i (read_number 16 4 True 65535) s of
            None \<Rightarrow> ([], False, s)
          | Some (g, s') \<Rightarrow> (case read_groups left (i + 1) s' of (gs, v4, s'') \<Rightarrow> (of_nat g # gs, v4, s'')))"

definition ipv6_of_groups :: "u16 list \<Rightarrow> ipv6_addr" where
  "ipv6_of_groups gs = Ipv6Addr (gs ! 0) (gs ! 1) (gs ! 2) (gs ! 3) (gs ! 4) (gs ! 5) (gs ! 6) (gs ! 7)"

definition read_ipv6_addr :: "string \<Rightarrow> (ipv6_addr \<times> string) option" where
  "read_ipv6_addr s =
     (case read_groups 8 0 s of (hd', hd_v4, s1) \<Rightarrow>
        if length hd' = 8 then Some (ipv6_of_groups hd', s1)
        else if hd_v4 then None
        else Option.bind (read_given_char (CHR '':'') s1) (\<lambda>s2. Option.bind (read_given_char (CHR '':'') s2) (\<lambda>s3.
          case read_groups (8 - (length hd' + 1)) 0 s3 of (tl', _, s4) \<Rightarrow>
            Some (ipv6_of_groups (hd' @ replicate (8 - length tl' - length hd') 0 @ tl'), s4))))"

definition parse_ip :: "string \<Rightarrow> ip_addr option" where
  "parse_ip s =
     (case (case read_ipv4_addr s of Some (v4, r) \<Rightarrow> Some (V4 v4, r) | None \<Rightarrow> map_option (\<lambda>(v6, r). (V6 v6, r)) (read_ipv6_addr s)) of
        Some (ip, r) \<Rightarrow> if r = [] then Some ip else None
      | None \<Rightarrow> None)"

section \<open>Networks\<close>

text \<open>An address as a number of 32 or 128 bits, and the network with a given first address and prefix length.\<close>

fun v4_number :: "ipv4_addr \<Rightarrow> nat" where
  "v4_number (Ipv4Addr a b c d) = unat a * 2 ^ 24 + unat b * 2 ^ 16 + unat c * 2 ^ 8 + unat d"

fun v6_number :: "ipv6_addr \<Rightarrow> nat" where
  "v6_number (Ipv6Addr a b c d e f g h) =
     unat a * 2 ^ 112 + unat b * 2 ^ 96 + unat c * 2 ^ 80 + unat d * 2 ^ 64 + unat e * 2 ^ 48 + unat f * 2 ^ 32 + unat g * 2 ^ 16 + unat h"

definition in_network :: "nat \<Rightarrow> nat \<Rightarrow> nat \<times> nat \<Rightarrow> bool" where
  "in_network width x net = (case net of (first, len) \<Rightarrow> first \<le> x \<and> x < first + 2 ^ (width - len))"

text \<open>The display of an IPv4 address.\<close>

fun show_ipv4 :: "ipv4_addr \<Rightarrow> string" where
  "show_ipv4 (Ipv4Addr a b c d) = show_word a @ ''.'' @ show_word b @ ''.'' @ show_word c @ ''.'' @ show_word d"

section \<open>Lemmas\<close>

text \<open>Only a hexadecimal digit or a colon can open an address.\<close>

definition ip_start :: "char \<Rightarrow> bool" where
  "ip_start c \<longleftrightarrow> digit_value 16 c \<noteq> None \<or> c = CHR '':''"

lemma read_number_None: "s = [] \<or> digit_value radix (hd s) = None \<Longrightarrow> read_number radix m z b s = None"
  by (cases s) (auto simp: read_number_def)

lemma read_groups_stop:
  "read_ipv4_addr s = None \<Longrightarrow> read_number 16 4 True 65535 s = None \<Longrightarrow> read_groups n 0 s = ([], False, s)"
  by (cases n) (simp_all add: read_separator_def)

lemma parse_ip_start:
  assumes c: "\<not> ip_start c"
  shows "parse_ip (c # s) = None"
proof -
  from c have d: "digit_value 16 c = None" "digit_value 10 c = None"
    by (auto simp: ip_start_def digit_value_def Let_def split: if_splits)
  have v4: "read_ipv4_addr (c # s) = None"
    by (simp add: read_ipv4_addr_def read_octet_def read_separator_def read_number_None d)
  have "read_groups 8 0 (c # s) = ([], False, c # s)" by (intro read_groups_stop v4 read_number_None) (simp add: d)
  then have "read_ipv6_addr (c # s) = None" using c by (simp add: read_ipv6_addr_def read_given_char_def ip_start_def)
  then show ?thesis by (simp add: parse_ip_def v4)
qed

text \<open>What is printed as a dotted quad is read back.\<close>

lemma digit_value_char: "d < 10 \<Longrightarrow> digit_value 10 (digit_char d) = Some d"
  by (simp add: digit_value_def of_char_digit Let_def)

lemma show_octet:
  "n < 256 \<Longrightarrow> show_nat n = (if n < 10 then [digit_char n] else if n < 100 then [digit_char (n div 10), digit_char (n mod 10)]
    else [digit_char (n div 100), digit_char (n div 10 mod 10), digit_char (n mod 10)])"
  using show_nat.simps [of n] show_nat.simps [of "n div 10"] show_nat.simps [of "n div 10 div 10"] by (auto simp: div_mult2_eq [symmetric])

lemma digit_char_0: "d < 10 \<Longrightarrow> digit_char d = CHR ''0'' \<longleftrightarrow> d = 0"
proof -
  have "digit_char 0 = CHR ''0''" by code_simp
  then show "d < 10 \<Longrightarrow> digit_char d = CHR ''0'' \<longleftrightarrow> d = 0" using digit_value_char [of d] digit_value_char [of 0] by fastforce
qed

lemma octet_digits:
  assumes "n < 256"
  shows "list_all (\<lambda>c. digit_value 10 c \<noteq> None) (show_nat n)" "length (show_nat n) \<le> 3" "show_nat n \<noteq> []"
    "hd (show_nat n) = CHR ''0'' \<longrightarrow> length (show_nat n) \<le> 1" "digits_value 10 (show_nat n) = n"
proof -
  have "n div 100 = n div 10 div 10" by (simp add: div_mult2_eq [symmetric])
  then have "100 * (n div 100) + n div 10 mod 10 * 10 + n mod 10 = n"
    using div_mult_mod_eq [of n 10] div_mult_mod_eq [of "n div 10" 10] by linarith
  then show "list_all (\<lambda>c. digit_value 10 c \<noteq> None) (show_nat n)" "length (show_nat n) \<le> 3" "show_nat n \<noteq> []"
    "hd (show_nat n) = CHR ''0'' \<longrightarrow> length (show_nat n) \<le> 1" "digits_value 10 (show_nat n) = n"
    using assms by (auto simp: show_octet digit_value_char digit_char_0 digits_value_def)
qed

lemma read_number_show:
  assumes "n < 256" "r = [] \<or> digit_value 10 (hd r) = None"
  shows "read_number 10 3 False 255 (show_nat n @ r) = Some (n, r)"
proof -
  note d = octet_digits [OF assms(1)]
  have "takeWhile (\<lambda>c. digit_value 10 c \<noteq> None) (show_nat n @ r) = show_nat n"
    using d(1) assms(2) by (cases r) (simp_all add: takeWhile_append2 list_all_iff)
  then show ?thesis using d assms(1) by (auto simp: read_number_def)
qed

lemma show_ipv4_parses: "parse_ip (show_ipv4 v) = Some (V4 v)"
proof (cases v)
  case (Ipv4Addr a b c d)
  have lt: "unat x < 256" for x :: u8 using unat_le_max [of x] by simp
  have dot: "digit_value 10 (CHR ''.'') = None" by code_simp
  have "read_ipv4_addr (show_ipv4 v) = Some (v, [])"
    using read_number_show [OF lt, of _ a] read_number_show [OF lt, of _ b] read_number_show [OF lt, of _ c]
      read_number_show [OF lt, of "[]" d]
    by (simp add: Ipv4Addr read_ipv4_addr_def read_octet_def read_separator_def read_given_char_def show_word_def dot)
  then show ?thesis by (simp add: parse_ip_def)
qed

text \<open>Masking the low bits away, and the ranges that the masks of the standard library test for.\<close>

lemma and_not_mask_shift: "x AND NOT (mask n) = push_bit n (drop_bit n x)" for x :: "'a::len word"
  by (rule bit_eqI) (auto simp: bit_simps)

lemma unat_and_not_mask: "unat (x AND NOT (mask n)) = unat x div 2 ^ n * 2 ^ n" for x :: "'a::len word"
proof -
  have "unat x div 2 ^ n * 2 ^ n < 2 ^ LENGTH('a)" by (rule le_less_trans [OF div_times_less_eq_dividend]) simp
  then show ?thesis
    by (simp add: and_not_mask_shift unsigned_push_bit_eq unsigned_drop_bit_eq drop_bit_eq_div [where 'a = nat]
        push_bit_eq_mult [where 'a = nat] take_bit_nat_eq_self)
qed

lemma masked_eq_range:
  fixes x m k :: "'a::len word"
  assumes "m = NOT (mask n)" "unat k = q * 2 ^ n"
  shows "x AND m = k \<longleftrightarrow> unat k \<le> unat x \<and> unat x < unat k + 2 ^ n"
proof -
  have "x AND m = k \<longleftrightarrow> unat x div 2 ^ n * 2 ^ n = q * 2 ^ n"
    unfolding assms(1) unat_and_not_mask [symmetric] assms(2) [symmetric] by (auto dest: unat_inject)
  also have "\<dots> \<longleftrightarrow> unat x div 2 ^ n = q" by simp
  also have "\<dots> \<longleftrightarrow> q * 2 ^ n \<le> unat x \<and> unat x < q * 2 ^ n + 2 ^ n"
    using div_nat_eqI [of "2 ^ n" q "unat x"] dividend_less_times_div [of "2 ^ n" "unat x"] times_div_less_eq_dividend [of "2 ^ n" "unat x"]
    by (auto simp: mult.commute add.commute)
  finally show ?thesis by (simp add: assms(2))
qed

end
