(* ===== verification/Network_Guard.thy ===== *)
theory Network_Guard
  imports Ip_Address
begin

text \<open>
  \<open>crates/tool-runtime/src\<close>: \<open>ssrf.rs\<close> (which addresses, host names and URLs an outbound request may go to, with the
  overrides of a thread), \<open>tools/http.rs\<close> and \<open>tools/mcp.rs\<close> (the requests that use it) and \<open>network_capability.rs\<close> (the
  policy of domains and budgets). The crates \<open>url\<close> and \<open>reqwest\<close> are not part of the repository: a URL is the record of
  what its accessors return, parsing a URL and sending a request are arguments. The environment variables and the
  answers of the resolver, which may differ from one moment to the next, are arguments too.
\<close>

section \<open>URLs and the environment\<close>

record http_url =
  url_text :: string
  url_scheme :: string
  url_username :: string
  url_password :: "string option"
  url_host :: "string option"
  url_port :: "u16 option" \<comment> \<open>\<open>port_or_known_default\<close>\<close>

record net_env =
  ne_unicode :: unicode
  ne_allow_private :: "string option" \<comment> \<open>the variable \<open>EVOHIME_SSRF_ALLOW_PRIVATE\<close>\<close>
  ne_var :: "string \<Rightarrow> string option" \<comment> \<open>any other variable\<close>
  ne_dns :: "nat \<Rightarrow> string \<Rightarrow> u16 \<Rightarrow> string + ip_addr list" \<comment> \<open>the answer at a moment\<close>
  ne_parse_url :: "string \<Rightarrow> string + http_url"
  ne_utf8_lossy :: "string \<Rightarrow> string"

text \<open>The variables of a thread, and the guards that restore them.\<close>

record ssrf_overrides =
  so_private :: "bool option"
  so_hosts :: "string list option option"

datatype guard_error =
    UrlScheme | UrlCredentials | UrlHostRequired | BlockedHostname string | SpecialUseHostname string
  | BlockedAddress ip_addr | DnsFailed string string | DnsEmpty string | PeerUnavailable | HostNotInAllowlist string

section \<open>Addresses and host names\<close>

definition BLOCKED_HOSTNAMES :: "string list" where
  "BLOCKED_HOSTNAMES = [''localhost'', ''localhost.localdomain'', ''metadata'', ''metadata.google.internal'', ''metadata.goog'']"

fun is_cgnat :: "ipv4_addr \<Rightarrow> bool" where
  "is_cgnat (Ipv4Addr a b c d) \<longleftrightarrow> a = 100 \<and> b AND 0xc0 = 64"

definition is_blocked_v4 :: "ipv4_addr \<Rightarrow> bool" where
  "is_blocked_v4 ip \<longleftrightarrow> v4_is_loopback ip \<or> v4_is_private ip \<or> v4_is_link_local ip \<or> v4_is_broadcast ip
     \<or> v4_is_unspecified ip \<or> v4_is_multicast ip \<or> is_cgnat ip \<or> ip = Ipv4Addr 169 254 169 254"

definition is_blocked_v6 :: "ipv6_addr \<Rightarrow> bool" where
  "is_blocked_v6 ip =
     (if v6_is_loopback ip \<or> v6_is_unspecified ip \<or> v6_is_multicast ip then True
      else if v6_is_unique_local ip \<or> v6_is_unicast_link_local ip then True
      else case v6_to_ipv4_mapped ip of Some v4 \<Rightarrow> is_blocked_v4 v4 | None \<Rightarrow> False)"

fun is_blocked_ip :: "ip_addr \<Rightarrow> bool" where
  "is_blocked_ip (V4 v4) = is_blocked_v4 v4"
| "is_blocked_ip (V6 v6) = is_blocked_v6 v6"

definition assert_safe_ip :: "ip_addr \<Rightarrow> guard_error option" where
  "assert_safe_ip ip = (if is_blocked_ip ip then Some (BlockedAddress ip) else None)"

definition normalize_host :: "string \<Rightarrow> string" where
  "normalize_host host = to_ascii_lowercase (trim_end_matches (\<lambda>c. c = CHR ''.'') host)"

definition assert_safe_hostname :: "unicode \<Rightarrow> string \<Rightarrow> guard_error option" where
  "assert_safe_hostname U hostname =
     (let host = normalize_host (str_trim U hostname) in
      if host = [] then Some UrlHostRequired
      else if host \<in> set BLOCKED_HOSTNAMES \<or> ends_with host ''.localhost'' then Some (BlockedHostname hostname)
      else if ends_with host ''.local'' \<or> ends_with host ''.internal'' then Some (SpecialUseHostname hostname)
      else None)"

section \<open>Overrides of a thread\<close>

definition lock_private_override :: "bool option \<Rightarrow> ssrf_overrides \<Rightarrow> bool option \<times> ssrf_overrides" where
  "lock_private_override v s = (so_private s, s\<lparr>so_private := v\<rparr>)"

definition drop_private_guard :: "bool option \<Rightarrow> ssrf_overrides \<Rightarrow> ssrf_overrides" where
  "drop_private_guard previous s = s\<lparr>so_private := previous\<rparr>"

definition lock_host_allowlist :: "string list option \<Rightarrow> ssrf_overrides \<Rightarrow> string list option option \<times> ssrf_overrides" where
  "lock_host_allowlist hosts s = (so_hosts s, s\<lparr>so_hosts := Some hosts\<rparr>)"

definition drop_host_guard :: "string list option option \<Rightarrow> ssrf_overrides \<Rightarrow> ssrf_overrides" where
  "drop_host_guard previous s = s\<lparr>so_hosts := previous\<rparr>"

definition allow_private_targets :: "net_env \<Rightarrow> ssrf_overrides \<Rightarrow> bool" where
  "allow_private_targets E s =
     (case so_private s of Some v \<Rightarrow> v
      | None \<Rightarrow> (case ne_allow_private E of None \<Rightarrow> False
                | Some v \<Rightarrow> to_ascii_lowercase (str_trim (ne_unicode E) v) \<in> {''1'', ''true'', ''yes'', ''on''}))"

definition parse_host_allowlist :: "unicode \<Rightarrow> string \<Rightarrow> string list" where
  "parse_host_allowlist U raw =
     filter (\<lambda>part. part \<noteq> []) (map (\<lambda>part. normalize_host (str_trim U part)) (split_chars (\<lambda>c. c = '','') (utf8_chars raw) []))"

definition host_allowlist_from_env :: "net_env \<Rightarrow> string \<Rightarrow> string list option" where
  "host_allowlist_from_env E var =
     (case ne_var E var of None \<Rightarrow> None
      | Some raw \<Rightarrow> let hosts = parse_host_allowlist (ne_unicode E) raw in if hosts = [] then None else Some hosts)"

definition effective_host_allowlist :: "net_env \<Rightarrow> ssrf_overrides \<Rightarrow> string \<Rightarrow> string list option" where
  "effective_host_allowlist E s var = (case so_hosts s of Some v \<Rightarrow> v | None \<Rightarrow> host_allowlist_from_env E var)"

definition assert_host_in_allowlist :: "http_url \<Rightarrow> string list \<Rightarrow> guard_error option" where
  "assert_host_in_allowlist url hosts =
     (case url_host url of None \<Rightarrow> Some UrlHostRequired
      | Some host \<Rightarrow> if normalize_host host \<in> set hosts then None else Some (HostNotInAllowlist host))"

section \<open>URLs and peers\<close>

fun assert_safe_ips :: "ip_addr list \<Rightarrow> guard_error option" where
  "assert_safe_ips [] = None"
| "assert_safe_ips (ip # ips) = (case assert_safe_ip ip of Some e \<Rightarrow> Some e | None \<Rightarrow> assert_safe_ips ips)"

definition assert_safe_http_url :: "net_env \<Rightarrow> ssrf_overrides \<Rightarrow> nat \<Rightarrow> http_url \<Rightarrow> guard_error option" where
  "assert_safe_http_url E s moment url =
     (if url_scheme url \<noteq> ''http'' \<and> url_scheme url \<noteq> ''https'' then Some UrlScheme
      else if url_username url \<noteq> [] \<or> url_password url \<noteq> None then Some UrlCredentials
      else case url_host url of None \<Rightarrow> Some UrlHostRequired
      | Some host \<Rightarrow>
          if allow_private_targets E s then None
          else case parse_ip host of Some ip \<Rightarrow> assert_safe_ip ip
          | None \<Rightarrow>
              case assert_safe_hostname (ne_unicode E) host of Some e \<Rightarrow> Some e
              | None \<Rightarrow>
                  case ne_dns E moment host (case url_port url of Some p \<Rightarrow> p | None \<Rightarrow> 80) of
                    Inl error \<Rightarrow> Some (DnsFailed host error)
                  | Inr addrs \<Rightarrow>
                      case assert_safe_ips addrs of Some e \<Rightarrow> Some e
                      | None \<Rightarrow> if addrs = [] then Some (DnsEmpty host) else None)"

definition assert_safe_peer :: "net_env \<Rightarrow> ssrf_overrides \<Rightarrow> ip_addr option \<Rightarrow> guard_error option" where
  "assert_safe_peer E s peer =
     (if allow_private_targets E s then None
      else case peer of None \<Rightarrow> Some PeerUnavailable | Some ip \<Rightarrow> assert_safe_ip ip)"

section \<open>Requests\<close>

text \<open>The client takes the deadline in milliseconds, the policy for redirects (with the moment of each) and the URL; it
  answers with the addresses that the request was sent to and the response or its error.\<close>

record http_response =
  hr_peer :: "ip_addr option"
  hr_status :: u16
  hr_url :: http_url
  hr_content_type :: "string option"
  hr_content_length :: "u64 option"
  hr_chunks :: "(string + string) list"

type_synonym http_client = "u64 \<Rightarrow> (nat \<Rightarrow> http_url \<Rightarrow> bool) \<Rightarrow> http_url \<Rightarrow> ip_addr list \<times> (string + http_response)"

datatype tool_error =
    SandboxError string | InputError string | UrlError guard_error | PeerError guard_error | FinalUrlError guard_error
  | ClientError string | ReadError string | BodyTooLarge | StatusError u16 string

definition HTTP_TIMEOUT_MS :: u64 where "HTTP_TIMEOUT_MS = 20000"
definition DEFAULT_MAX_CHARS :: u64 where "DEFAULT_MAX_CHARS = 8000"
definition MAX_MAX_CHARS :: u64 where "MAX_MAX_CHARS = 20000"
definition HTTP_MAX_RESPONSE_BYTES :: nat where "HTTP_MAX_RESPONSE_BYTES = 256 * 1024"

fun read_chunks :: "(string + string) list \<Rightarrow> string \<Rightarrow> tool_error + string" where
  "read_chunks [] bytes = Inr bytes"
| "read_chunks (Inl error # cs) bytes = Inl (ReadError error)"
| "read_chunks (Inr chunk # cs) bytes =
     (if length bytes + length chunk > HTTP_MAX_RESPONSE_BYTES then Inl BodyTooLarge else read_chunks cs (bytes @ chunk))"

definition read_bounded_body :: "net_env \<Rightarrow> http_response \<Rightarrow> tool_error + string" where
  "read_bounded_body E r =
     (if (case hr_content_length r of Some n \<Rightarrow> unat n > HTTP_MAX_RESPONSE_BYTES | None \<Rightarrow> False) then Inl BodyTooLarge
      else map_sum id (ne_utf8_lossy E) (read_chunks (hr_chunks r) []))"

definition http_is_success :: "u16 \<Rightarrow> bool" where
  "http_is_success status \<longleftrightarrow> 200 \<le> status \<and> status < 300"

definition clamp_u64 :: "u64 \<Rightarrow> u64 \<Rightarrow> u64 \<Rightarrow> u64" where
  "clamp_u64 lo hi v = (if v < lo then lo else if v > hi then hi else v)"

record fetch_input =
  fi_url :: string
  fi_max_chars :: "u64 option"
  fi_timeout_ms :: "u64 option"

record fetch_result =
  fr_url :: string
  fr_final_url :: http_url
  fr_status :: u16
  fr_content_type :: "string option"
  fr_text :: string
  fr_truncated :: bool

definition http_validate_url :: "net_env \<Rightarrow> ssrf_overrides \<Rightarrow> string \<Rightarrow> tool_error + http_url" where
  "http_validate_url E s text =
     (case ne_parse_url E text of Inl error \<Rightarrow> Inl (InputError error)
      | Inr url \<Rightarrow> (case assert_safe_http_url E s 0 url of Some e \<Rightarrow> Inl (UrlError e) | None \<Rightarrow> Inr url))"

text \<open>\<open>http::fetch\<close>, with the answer of \<open>ctx.sandbox()\<close> and the input already deserialised. The checks before the request
  are at moment 0, the redirects at moments of the client's choice, the check of the final URL at moment 1.\<close>

definition http_fetch ::
    "net_env \<Rightarrow> ssrf_overrides \<Rightarrow> http_client \<Rightarrow> string option \<Rightarrow> string + fetch_input \<Rightarrow> ip_addr list \<times> (tool_error + fetch_result)" where
  "http_fetch E s client sandbox value =
     (case sandbox of Some e \<Rightarrow> ([], Inl (SandboxError e)) | None \<Rightarrow>
      case value of Inl e \<Rightarrow> ([], Inl (InputError e)) | Inr input \<Rightarrow>
      case http_validate_url E s (fi_url input) of Inl e \<Rightarrow> ([], Inl e) | Inr url \<Rightarrow>
      let timeout = clamp_u64 1 HTTP_TIMEOUT_MS (case fi_timeout_ms input of Some t \<Rightarrow> t | None \<Rightarrow> HTTP_TIMEOUT_MS);
          max_chars = clamp_u64 1 MAX_MAX_CHARS (case fi_max_chars input of Some n \<Rightarrow> n | None \<Rightarrow> DEFAULT_MAX_CHARS)
      in case client timeout (\<lambda>moment url. assert_safe_http_url E s moment url = None) url of
           (sent, Inl e) \<Rightarrow> (sent, Inl (ClientError e))
         | (sent, Inr response) \<Rightarrow>
             (sent,
              case assert_safe_peer E s (hr_peer response) of Some e \<Rightarrow> Inl (PeerError e) | None \<Rightarrow>
              case assert_safe_http_url E s 1 (hr_url response) of Some e \<Rightarrow> Inl (FinalUrlError e) | None \<Rightarrow>
              case read_bounded_body E response of Inl e \<Rightarrow> Inl e | Inr body \<Rightarrow>
              if \<not> http_is_success (hr_status response) then Inl (StatusError (hr_status response) (take_chars 2000 body))
              else Inr \<lparr>fr_url = fi_url input, fr_final_url = hr_url response, fr_status = hr_status response,
                fr_content_type = hr_content_type response, fr_text = take_chars (unat max_chars) body,
                fr_truncated = length (utf8_chars body) > unat max_chars\<rparr>))"

text \<open>\<open>mcp::execute\<close> up to the text of the response; its JSON is only printed.\<close>

definition ALLOWED_HOSTS_ENV :: string where "ALLOWED_HOSTS_ENV = ''EVOHIME_MCP_ALLOWED_HOSTS''"

definition assert_mcp_url :: "net_env \<Rightarrow> ssrf_overrides \<Rightarrow> nat \<Rightarrow> http_url \<Rightarrow> guard_error option" where
  "assert_mcp_url E s moment url =
     (case assert_safe_http_url E s moment url of Some e \<Rightarrow> Some e
      | None \<Rightarrow> (case effective_host_allowlist E s ALLOWED_HOSTS_ENV of
                  Some hosts \<Rightarrow> assert_host_in_allowlist url hosts
                | None \<Rightarrow> None))"

definition mcp_validate_url :: "net_env \<Rightarrow> ssrf_overrides \<Rightarrow> string \<Rightarrow> tool_error + http_url" where
  "mcp_validate_url E s text =
     (case ne_parse_url E text of Inl error \<Rightarrow> Inl (InputError error)
      | Inr url \<Rightarrow> (case assert_mcp_url E s 0 url of Some e \<Rightarrow> Inl (UrlError e) | None \<Rightarrow> Inr url))"

record mcp_input =
  mi_url :: string
  mi_timeout_ms :: "u64 option"

definition mcp_execute ::
    "net_env \<Rightarrow> ssrf_overrides \<Rightarrow> http_client \<Rightarrow> string option \<Rightarrow> string + mcp_input \<Rightarrow> ip_addr list \<times> (tool_error + http_url \<times> u16 \<times> string)" where
  "mcp_execute E s client sandbox value =
     (case sandbox of Some e \<Rightarrow> ([], Inl (SandboxError e)) | None \<Rightarrow>
      case value of Inl e \<Rightarrow> ([], Inl (InputError e)) | Inr input \<Rightarrow>
      case mcp_validate_url E s (mi_url input) of Inl e \<Rightarrow> ([], Inl e) | Inr url \<Rightarrow>
      let timeout = min (case mi_timeout_ms input of Some t \<Rightarrow> t | None \<Rightarrow> HTTP_TIMEOUT_MS) HTTP_TIMEOUT_MS
      in case client timeout (\<lambda>moment url. assert_mcp_url E s moment url = None) url of
           (sent, Inl e) \<Rightarrow> (sent, Inl (ClientError e))
         | (sent, Inr response) \<Rightarrow>
             (sent,
              case assert_safe_peer E s (hr_peer response) of Some e \<Rightarrow> Inl (PeerError e) | None \<Rightarrow>
              case assert_mcp_url E s 1 (hr_url response) of Some e \<Rightarrow> Inl (FinalUrlError e) | None \<Rightarrow>
              case read_bounded_body E response of Inl e \<Rightarrow> Inl e | Inr text \<Rightarrow>
              if \<not> http_is_success (hr_status response) then Inl (StatusError (hr_status response) (take_chars (8 * 1024) text))
              else Inr (hr_url response, hr_status response, text)))"

section \<open>The network policy of a capability\<close>

definition MAX_ALLOWED_DOMAINS :: nat where "MAX_ALLOWED_DOMAINS = 64"
definition MAX_DOMAIN_BYTES :: nat where "MAX_DOMAIN_BYTES = 253"
definition NET_MAX_RESPONSE_BYTES :: u64 where "NET_MAX_RESPONSE_BYTES = 16 * 1024 * 1024"
definition MAX_LATENCY_MS :: u64 where "MAX_LATENCY_MS = 120000"
definition MAX_COST_MICROS :: u64 where "MAX_COST_MICROS = 1000000"
definition MAX_REASON_BYTES :: nat where "MAX_REASON_BYTES = 96"

datatype refresh_policy = RefreshNever | RefreshIfStale u64 | RefreshAlways

record network_policy =
  np_allowed_domains :: "string list" \<comment> \<open>the set, in the order of insertion\<close>
  np_max_response_bytes :: u64
  np_max_latency_ms :: u64
  np_max_cost_micros :: u64
  np_allow_refresh :: bool
  np_refresh_policy :: refresh_policy

record network_request =
  nr_url :: string
  nr_expected_response_bytes :: u64
  nr_expected_latency_ms :: u64
  nr_estimated_cost_micros :: u64
  nr_refresh :: bool
  nr_cancelled :: bool

datatype network_decision_kind = NetAllow | NetDeny

record network_decision =
  nd_kind :: network_decision_kind
  nd_reason :: string

datatype network_policy_error = EmptyDomain | InvalidDomain | TooManyDomains | InvalidBudget | InvalidRefreshAge

definition net_allow :: network_decision where
  "net_allow = \<lparr>nd_kind = NetAllow, nd_reason = ''bounded_network_policy''\<rparr>"

definition net_deny :: "string \<Rightarrow> network_decision" where
  "net_deny reason = \<lparr>nd_kind = NetDeny, nd_reason = take_chars MAX_REASON_BYTES reason\<rparr>"

definition malformed_domain :: "unicode \<Rightarrow> string \<Rightarrow> bool" where
  "malformed_domain U normalized \<longleftrightarrow> length normalized > MAX_DOMAIN_BYTES \<or> is_prefix_of ''.'' normalized \<or> str_contains normalized ''*''
     \<or> list_ex (uc_is_whitespace U) (utf8_chars normalized) \<or> parse_ip normalized \<noteq> None
     \<or> list_ex (\<lambda>part. part = []) (split_chars (\<lambda>c. c = ''.'') (utf8_chars normalized) [])"

definition normalize_domain :: "unicode \<Rightarrow> string \<Rightarrow> network_policy_error + string" where
  "normalize_domain U domain =
     (let normalized = normalize_host (str_trim U domain) in
      if normalized = [] then Inl EmptyDomain else if malformed_domain U normalized then Inl InvalidDomain else Inr normalized)"

fun collect_domains :: "unicode \<Rightarrow> string list \<Rightarrow> string list \<Rightarrow> network_policy_error + string list" where
  "collect_domains U [] allowed = Inr allowed"
| "collect_domains U (d # ds) allowed =
     (case normalize_domain U d of Inl e \<Rightarrow> Inl e
      | Inr normalized \<Rightarrow>
          if normalized \<in> set allowed then collect_domains U ds allowed
          else if length allowed + 1 > MAX_ALLOWED_DOMAINS then Inl TooManyDomains
          else collect_domains U ds (allowed @ [normalized]))"

definition network_policy_new ::
    "unicode \<Rightarrow> string list \<Rightarrow> u64 \<Rightarrow> u64 \<Rightarrow> u64 \<Rightarrow> bool \<Rightarrow> refresh_policy \<Rightarrow> network_policy_error + network_policy" where
  "network_policy_new U domains max_response max_latency max_cost allow_refresh refresh =
     (case collect_domains U domains [] of Inl e \<Rightarrow> Inl e
      | Inr allowed \<Rightarrow>
          if max_response = 0 \<or> max_response > NET_MAX_RESPONSE_BYTES \<or> max_latency = 0 \<or> max_latency > MAX_LATENCY_MS
            \<or> max_cost > MAX_COST_MICROS then Inl InvalidBudget
          else if (case refresh of RefreshIfStale age \<Rightarrow> age = 0 | _ \<Rightarrow> False) then Inl InvalidRefreshAge
          else if refresh = RefreshAlways \<and> \<not> allow_refresh then Inl InvalidRefreshAge
          else Inr \<lparr>np_allowed_domains = allowed, np_max_response_bytes = max_response, np_max_latency_ms = max_latency,
            np_max_cost_micros = max_cost, np_allow_refresh = allow_refresh, np_refresh_policy = refresh\<rparr>)"

definition is_ssrf_host :: "string \<Rightarrow> bool" where
  "is_ssrf_host host =
     (if host \<in> {''localhost'', ''localhost.localdomain'', ''metadata.google.internal''} then True
      else case parse_ip host of None \<Rightarrow> False
      | Some (V4 ip) \<Rightarrow> v4_is_loopback ip \<or> v4_is_private ip \<or> v4_is_link_local ip \<or> v4_is_unspecified ip
      | Some (V6 ip) \<Rightarrow> v6_is_loopback ip \<or> v6_is_unique_local ip \<or> v6_is_unicast_link_local ip \<or> v6_is_unspecified ip)"

definition network_evaluate :: "(string \<Rightarrow> string + http_url) \<Rightarrow> network_policy \<Rightarrow> network_request \<Rightarrow> network_decision" where
  "network_evaluate parse_url p r =
     (if nr_cancelled r then net_deny ''cancelled''
      else if nr_expected_response_bytes r > np_max_response_bytes p then net_deny ''response_budget_exceeded''
      else if nr_expected_latency_ms r > np_max_latency_ms p then net_deny ''latency_budget_exceeded''
      else if nr_estimated_cost_micros r > np_max_cost_micros p then net_deny ''cost_budget_exceeded''
      else if nr_refresh r \<and> \<not> np_allow_refresh p then net_deny ''refresh_denied''
      else case parse_url (nr_url r) of Inl e \<Rightarrow> net_deny ''invalid_url''
      | Inr url \<Rightarrow>
          if url_scheme url \<noteq> ''https'' then net_deny ''https_required''
          else if url_username url \<noteq> [] \<or> url_password url \<noteq> None then net_deny ''url_credentials_denied''
          else case map_option to_ascii_lowercase (url_host url) of None \<Rightarrow> net_deny ''missing_host''
          | Some host \<Rightarrow>
              if is_ssrf_host host then net_deny ''ssrf_target_denied''
              else if \<not> list_ex (\<lambda>domain. host = domain \<or> ends_with host (''.'' @ domain)) (np_allowed_domains p)
              then net_deny ''domain_not_allowlisted''
              else net_allow)"

section \<open>The blocked addresses are networks\<close>

text \<open>The networks that the guard means to block, by first address and prefix length; an IPv6 address is also blocked when it
  maps a blocked IPv4 address.\<close>

definition blocked_v4_networks :: "(nat \<times> nat) list" where
  "blocked_v4_networks =
     [(127 * 2 ^ 24, 8), (10 * 2 ^ 24, 8), (172 * 2 ^ 24 + 16 * 2 ^ 16, 12), (192 * 2 ^ 24 + 168 * 2 ^ 16, 16),
      (169 * 2 ^ 24 + 254 * 2 ^ 16, 16), (2 ^ 32 - 1, 32), (0, 32), (224 * 2 ^ 24, 4), (100 * 2 ^ 24 + 64 * 2 ^ 16, 10)]"

definition mapped_network :: "nat \<times> nat \<Rightarrow> nat \<times> nat" where
  "mapped_network net = (0xffff * 2 ^ 32 + fst net, 96 + snd net)"

definition blocked_v6_networks :: "(nat \<times> nat) list" where
  "blocked_v6_networks =
     [(1, 128), (0, 128), (0xff00 * 2 ^ 112, 8), (0xfc00 * 2 ^ 112, 7), (0xfe80 * 2 ^ 112, 10)]
     @ map mapped_network blocked_v4_networks"

lemma word_eq_unat: "a = b \<longleftrightarrow> unat a = unat b" for a b :: "'a::len word"
  by (auto dest: unat_inject)

lemma u8_bound: "unat (x :: u8) < 256" and u16_bound: "unat (y :: u16) < 65536"
  using unat_le_max [of x] unat_le_max [of y] by simp_all

lemma cgnat_range: "b AND 0xc0 = 64 \<longleftrightarrow> 64 \<le> unat b \<and> unat b < 128" for b :: u8
proof -
  have "0xc0 = NOT (mask 6 :: u8)" by code_simp
  then show ?thesis using masked_eq_range [of "0xc0 :: u8" 6 64 1 b] by simp
qed

lemma v6_mask_ranges:
  fixes a :: u16
  shows "a AND 0xff00 = 0xff00 \<longleftrightarrow> 0xff00 \<le> unat a"
    "a AND 0xfe00 = 0xfc00 \<longleftrightarrow> 0xfc00 \<le> unat a \<and> unat a < 0xfe00"
    "a AND 0xffc0 = 0xfe80 \<longleftrightarrow> 0xfe80 \<le> unat a \<and> unat a < 0xfec0"
proof -
  have m: "0xff00 = NOT (mask 8 :: u16)" "0xfe00 = NOT (mask 9 :: u16)" "0xffc0 = NOT (mask 6 :: u16)" by code_simp+
  show "a AND 0xff00 = 0xff00 \<longleftrightarrow> 0xff00 \<le> unat a"
    using masked_eq_range [OF m(1), of "0xff00" 255 a] u16_bound [of a] by simp
  show "a AND 0xfe00 = 0xfc00 \<longleftrightarrow> 0xfc00 \<le> unat a \<and> unat a < 0xfe00"
    using masked_eq_range [OF m(2), of "0xfc00" 126 a] by simp
  show "a AND 0xffc0 = 0xfe80 \<longleftrightarrow> 0xfe80 \<le> unat a \<and> unat a < 0xfec0"
    using masked_eq_range [OF m(3), of "0xfe80" 1018 a] by simp
qed

lemma quad_ranges:
  fixes A B C D :: nat
  assumes lt: "A < 256" "B < 256" "C < 256" "D < 256" and x: "x = A * 16777216 + B * 65536 + C * 256 + D"
  shows "k * 16777216 \<le> x \<and> x < k * 16777216 + 16777216 \<longleftrightarrow> A = k"
    and "k * 16777216 \<le> x \<and> x < k * 16777216 + 268435456 \<longleftrightarrow> k \<le> A \<and> A < k + 16"
    and "m < 256 \<Longrightarrow> m + w \<le> 256 \<Longrightarrow>
      k * 16777216 + m * 65536 \<le> x \<and> x < k * 16777216 + m * 65536 + w * 65536 \<longleftrightarrow> A = k \<and> m \<le> B \<and> B < m + w"
proof -
  show "k * 16777216 \<le> x \<and> x < k * 16777216 + 16777216 \<longleftrightarrow> A = k"
    "k * 16777216 \<le> x \<and> x < k * 16777216 + 268435456 \<longleftrightarrow> k \<le> A \<and> A < k + 16"
    using lt x by (auto; linarith)+
  assume mw: "m < 256" "m + w \<le> 256"
  show "k * 16777216 + m * 65536 \<le> x \<and> x < k * 16777216 + m * 65536 + w * 65536 \<longleftrightarrow> A = k \<and> m \<le> B \<and> B < m + w"
  proof (intro iffI conjI)
    assume r: "k * 16777216 + m * 65536 \<le> x \<and> x < k * 16777216 + m * 65536 + w * 65536"
    show "A = k" using r lt x mw by linarith
    then show "m \<le> B" "B < m + w" using r lt x mw by linarith+
  next
    assume "A = k \<and> m \<le> B \<and> B < m + w"
    then show "k * 16777216 + m * 65536 \<le> x" "x < k * 16777216 + m * 65536 + w * 65536" using lt x mw by linarith+
  qed
qed

lemma blocked_v4_iff: "is_blocked_v4 ip \<longleftrightarrow> list_ex (in_network 32 (v4_number ip)) blocked_v4_networks"
proof (cases ip)
  case (Ipv4Addr a b c d)
  note lt = u8_bound [of a] u8_bound [of b] u8_bound [of c] u8_bound [of d]
  define x where "x = unat a * 16777216 + unat b * 65536 + unat c * 256 + unat d"
  note q = quad_ranges [OF lt x_def]
  have nets8: "in_network 32 x (127 * 2 ^ 24, 8) \<longleftrightarrow> unat a = 127" "in_network 32 x (10 * 2 ^ 24, 8) \<longleftrightarrow> unat a = 10"
    "in_network 32 x (224 * 2 ^ 24, 4) \<longleftrightarrow> 224 \<le> unat a \<and> unat a < 240"
    using q(1) [of 127] q(1) [of 10] q(2) [of 224] by (simp_all add: in_network_def)
  have one: "168 \<le> unat b \<and> unat b < 169 \<longleftrightarrow> unat b = 168" "254 \<le> unat b \<and> unat b < 255 \<longleftrightarrow> unat b = 254" by arith+
  have nets16: "in_network 32 x (172 * 2 ^ 24 + 16 * 2 ^ 16, 12) \<longleftrightarrow> unat a = 172 \<and> 16 \<le> unat b \<and> unat b < 32"
    "in_network 32 x (192 * 2 ^ 24 + 168 * 2 ^ 16, 16) \<longleftrightarrow> unat a = 192 \<and> unat b = 168"
    "in_network 32 x (169 * 2 ^ 24 + 254 * 2 ^ 16, 16) \<longleftrightarrow> unat a = 169 \<and> unat b = 254"
    "in_network 32 x (100 * 2 ^ 24 + 64 * 2 ^ 16, 10) \<longleftrightarrow> unat a = 100 \<and> 64 \<le> unat b \<and> unat b < 128"
    using q(3) [of 16 16 172] q(3) [of 168 1 192] q(3) [of 254 1 169] q(3) [of 64 64 100]
    by (simp_all add: in_network_def one)
  note nets = nets8 nets16
  have single: "in_network 32 x (2 ^ 32 - 1, 32) \<longleftrightarrow> unat a = 255 \<and> unat b = 255 \<and> unat c = 255 \<and> unat d = 255"
    "in_network 32 x (0, 32) \<longleftrightarrow> unat a = 0 \<and> unat b = 0 \<and> unat c = 0 \<and> unat d = 0"
    using lt unfolding in_network_def x_def by (auto; linarith)+
  have le: "unat b \<le> 31 \<longleftrightarrow> unat b < 32" "unat a \<le> 239 \<longleftrightarrow> unat a < 240" by arith+
  have t: "v4_is_private ip \<longleftrightarrow> unat a = 10 \<or> unat a = 172 \<and> 16 \<le> unat b \<and> unat b < 32 \<or> unat a = 192 \<and> unat b = 168"
    "v4_is_multicast ip \<longleftrightarrow> 224 \<le> unat a \<and> unat a < 240" "v4_is_loopback ip \<longleftrightarrow> unat a = 127"
    "v4_is_link_local ip \<longleftrightarrow> unat a = 169 \<and> unat b = 254"
    "v4_is_broadcast ip \<longleftrightarrow> unat a = 255 \<and> unat b = 255 \<and> unat c = 255 \<and> unat d = 255"
    "v4_is_unspecified ip \<longleftrightarrow> unat a = 0 \<and> unat b = 0 \<and> unat c = 0 \<and> unat d = 0"
    by (simp_all add: Ipv4Addr word_eq_unat word_le_nat_alt le)
  have cgnat: "is_cgnat ip \<longleftrightarrow> unat a = 100 \<and> 64 \<le> unat b \<and> unat b < 128"
    by (simp add: Ipv4Addr cgnat_range word_eq_unat [of a])
  have blocked: "is_blocked_v4 ip \<longleftrightarrow> v4_is_loopback ip \<or> v4_is_private ip \<or> v4_is_link_local ip \<or> v4_is_broadcast ip
      \<or> v4_is_unspecified ip \<or> v4_is_multicast ip \<or> is_cgnat ip"
    by (auto simp: is_blocked_v4_def)
  have num: "v4_number ip = x" by (simp add: Ipv4Addr x_def)
  show ?thesis
    unfolding num blocked_v4_networks_def list_ex_Cons_iff list_ex_Nil_iff nets single blocked t cgnat by (simp only: disj_ac simp_thms)
qed

lemma mapped_bytes: "unat (ucast (drop_bit 8 g) :: u8) * 256 + unat (ucast g :: u8) = unat g" for g :: u16
proof -
  have "unat (ucast (drop_bit 8 g) :: u8) = unat g div 256"
    using u16_bound [of g] by (simp add: unsigned_ucast_eq unsigned_drop_bit_eq take_bit_eq_mod drop_bit_eq_div [where 'a = nat])
  moreover have "unat (ucast g :: u8) = unat g mod 256" by (simp add: unsigned_ucast_eq take_bit_eq_mod)
  ultimately show ?thesis by simp
qed

definition v6_high :: "ipv6_addr \<Rightarrow> nat" where
  "v6_high ip = v6_number ip div 2 ^ 32"

lemma v6_parts:
  "v6_high (Ipv6Addr a b c d e f g h) =
     unat a * 2 ^ 80 + unat b * 2 ^ 64 + unat c * 2 ^ 48 + unat d * 2 ^ 32 + unat e * 2 ^ 16 + unat f"
  "v6_number (Ipv6Addr a b c d e f g h) mod 2 ^ 32 = unat g * 2 ^ 16 + unat h"
proof -
  let ?H = "unat a * 2 ^ 80 + unat b * 2 ^ 64 + unat c * 2 ^ 48 + unat d * 2 ^ 32 + unat e * 2 ^ 16 + unat f"
  let ?y = "unat g * 2 ^ 16 + unat h"
  have x: "v6_number (Ipv6Addr a b c d e f g h) = ?y + 2 ^ 32 * ?H" by (simp add: algebra_simps)
  have y: "?y < 2 ^ 32" using u16_bound [of g] u16_bound [of h] by simp
  show "v6_high (Ipv6Addr a b c d e f g h) = ?H" unfolding v6_high_def x using y by (subst div_mult_self2) simp_all
  show "v6_number (Ipv6Addr a b c d e f g h) mod 2 ^ 32 = ?y" unfolding x using y by (subst mod_mult_self2) simp
qed

lemma in_network_mapped:
  assumes "first + 2 ^ (32 - len) \<le> 2 ^ 32"
  shows "in_network 128 x (0xffff * 2 ^ 32 + first, 96 + len) \<longleftrightarrow> x div 2 ^ 32 = 0xffff \<and> in_network 32 (x mod 2 ^ 32) (first, len)"
proof -
  define H y where "H = x div 2 ^ 32" and "y = x mod 2 ^ 32"
  have x: "x = H * 4294967296 + y" and y: "y < 4294967296" by (simp_all add: H_def y_def)
  define w where "w = (2 :: nat) ^ (32 - len)"
  have "65535 * 4294967296 + first \<le> x \<and> x < 65535 * 4294967296 + first + w \<longleftrightarrow> H = 65535 \<and> first \<le> y \<and> y < first + w"
  proof (intro iffI conjI)
    assume r: "65535 * 4294967296 + first \<le> x \<and> x < 65535 * 4294967296 + first + w"
    then show "H = 65535" using x y assms unfolding w_def [symmetric] by simp
    then show "first \<le> y" "y < first + w" using r x by simp_all
  qed (use x in simp_all)
  then show ?thesis by (simp add: in_network_def w_def H_def y_def)
qed

lemma v6_mapped_high:
  "v6_to_ipv4_mapped ip \<noteq> None \<longleftrightarrow> v6_high ip = 0xffff"
  "v6_to_ipv4_mapped ip = Some v4 \<Longrightarrow> v4_number v4 = v6_number ip mod 2 ^ 32"
proof -
  obtain a b c d e f g h where ip: "ip = Ipv6Addr a b c d e f g h" by (cases ip)
  have "unat a * 1208925819614629174706176 + unat b * 18446744073709551616 + unat c * 281474976710656 + unat d * 4294967296
      + unat e * 65536 + unat f = 65535 \<longleftrightarrow>
    unat a = 0 \<and> unat b = 0 \<and> unat c = 0 \<and> unat d = 0 \<and> unat e = 0 \<and> unat f = 65535"
    (is "?s = _ \<longleftrightarrow> _")
  proof
    assume s: "?s = 65535"
    then have z: "unat a = 0" "unat b = 0" "unat c = 0" "unat d = 0" "unat e = 0" by linarith+
    show "unat a = 0 \<and> unat b = 0 \<and> unat c = 0 \<and> unat d = 0 \<and> unat e = 0 \<and> unat f = 65535" using s unfolding z by simp
  qed simp
  then show "v6_to_ipv4_mapped ip \<noteq> None \<longleftrightarrow> v6_high ip = 0xffff"
    unfolding ip v6_parts by (simp add: word_eq_unat)
  show "v4_number v4 = v6_number ip mod 2 ^ 32" if "v6_to_ipv4_mapped ip = Some v4"
    using that mapped_bytes [of g] mapped_bytes [of h] unfolding ip v6_parts by (auto split: if_splits)
qed

lemma v6_single:
  fixes a b c d e f g h :: u16
  defines "x \<equiv> v6_number (Ipv6Addr a b c d e f g h)"
  shows "x = n \<longleftrightarrow> v6_high (Ipv6Addr a b c d e f g h) = n div 2 ^ 32 \<and> unat g * 2 ^ 16 + unat h = n mod 2 ^ 32"
  unfolding v6_parts(2) [of a b c d e f g h, symmetric] v6_high_def x_def by (metis div_mult_mod_eq)

lemma v6_top_ranges:
  fixes a b c d e f g h :: u16
  defines "x \<equiv> v6_number (Ipv6Addr a b c d e f g h)"
  shows "in_network 128 x (0xff00 * 2 ^ 112, 8) \<longleftrightarrow> 0xff00 \<le> unat a"
    "in_network 128 x (0xfc00 * 2 ^ 112, 7) \<longleftrightarrow> 0xfc00 \<le> unat a \<and> unat a < 0xfe00"
    "in_network 128 x (0xfe80 * 2 ^ 112, 10) \<longleftrightarrow> 0xfe80 \<le> unat a \<and> unat a < 0xfec0"
proof -
  define K r where "K = (2 :: nat) ^ 112" and "r = x - unat a * K"
  have r: "unat b * 2 ^ 96 + unat c * 2 ^ 80 + unat d * 2 ^ 64 + unat e * 2 ^ 48 + unat f * 2 ^ 32 + unat g * 2 ^ 16 + unat h < K"
    using u16_bound [of b] u16_bound [of c] u16_bound [of d] u16_bound [of e] u16_bound [of f] u16_bound [of g] u16_bound [of h]
    by (simp add: K_def)
  have x: "x = unat a * K + r" and rK: "r < K" using r by (simp_all add: x_def r_def K_def)
  have "x div K = unat a" using rK by (simp add: x)
  then have le: "n * K \<le> x \<longleftrightarrow> n \<le> unat a" for n
    using less_eq_div_iff_mult_less_eq [of K n x] rK by simp
  have range: "n * K \<le> x \<and> x < n * K + w * K \<longleftrightarrow> n \<le> unat a \<and> unat a < n + w" for n w
    using le [of n] le [of "n + w"] by (auto simp: not_le [symmetric] add_mult_distrib)
  show "in_network 128 x (0xff00 * 2 ^ 112, 8) \<longleftrightarrow> 0xff00 \<le> unat a"
    using range [of "0xff00" 256] u16_bound [of a] by (simp add: in_network_def K_def)
  show "in_network 128 x (0xfc00 * 2 ^ 112, 7) \<longleftrightarrow> 0xfc00 \<le> unat a \<and> unat a < 0xfe00"
    using range [of "0xfc00" 512] by (simp add: in_network_def K_def)
  show "in_network 128 x (0xfe80 * 2 ^ 112, 10) \<longleftrightarrow> 0xfe80 \<le> unat a \<and> unat a < 0xfec0"
    using range [of "0xfe80" 64] by (simp add: in_network_def K_def)
qed

lemma v6_number_small:
  "v6_number ip = 0 \<longleftrightarrow> v6_is_unspecified ip" "v6_number ip = 1 \<longleftrightarrow> v6_is_loopback ip"
proof -
  obtain a b c d e f g h where ip: "ip = Ipv6Addr a b c d e f g h" by (cases ip)
  have "unat g * 65536 + unat h = 1 \<longleftrightarrow> unat g = 0 \<and> unat h = 1" by (cases "unat g") auto
  then show "v6_number ip = 0 \<longleftrightarrow> v6_is_unspecified ip" "v6_number ip = 1 \<longleftrightarrow> v6_is_loopback ip"
    unfolding ip v6_single v6_parts by (simp_all add: word_eq_unat)
qed

lemma blocked_v6_iff: "is_blocked_v6 ip \<longleftrightarrow> list_ex (in_network 128 (v6_number ip)) blocked_v6_networks"
proof -
  obtain a b c d e f g h where ip: "ip = Ipv6Addr a b c d e f g h" by (cases ip)
  let ?x = "v6_number ip"
  have top: "in_network 128 ?x (0xff00 * 2 ^ 112, 8) \<longleftrightarrow> v6_is_multicast ip"
    "in_network 128 ?x (0xfc00 * 2 ^ 112, 7) \<longleftrightarrow> v6_is_unique_local ip"
    "in_network 128 ?x (0xfe80 * 2 ^ 112, 10) \<longleftrightarrow> v6_is_unicast_link_local ip"
    unfolding ip v6_top_ranges v6_is_multicast.simps v6_is_unique_local.simps v6_is_unicast_link_local.simps v6_mask_ranges by (rule refl)+
  have low: "in_network 128 ?x (1, 128) \<longleftrightarrow> v6_is_loopback ip" "in_network 128 ?x (0, 128) \<longleftrightarrow> v6_is_unspecified ip"
    by (simp_all add: in_network_def flip: v6_number_small) arith
  have "\<forall>net \<in> set blocked_v4_networks. fst net + 2 ^ (32 - snd net) \<le> 2 ^ 32" by (simp add: blocked_v4_networks_def)
  then have "in_network 128 ?x (mapped_network net) \<longleftrightarrow> v6_high ip = 0xffff \<and> in_network 32 (?x mod 2 ^ 32) net"
    if "net \<in> set blocked_v4_networks" for net
    using in_network_mapped [of "fst net" "snd net" ?x] that unfolding v6_high_def mapped_network_def prod.collapse by blast
  then have "list_ex (in_network 128 ?x) (map mapped_network blocked_v4_networks) \<longleftrightarrow>
      v6_high ip = 0xffff \<and> list_ex (in_network 32 (?x mod 2 ^ 32)) blocked_v4_networks"
    unfolding list_ex_iff by auto
  also have "\<dots> \<longleftrightarrow> (case v6_to_ipv4_mapped ip of Some v4 \<Rightarrow> is_blocked_v4 v4 | None \<Rightarrow> False)"
    using v6_mapped_high [of ip] by (auto simp: blocked_v4_iff split: option.split)
  finally have mapped: "list_ex (in_network 128 ?x) (map mapped_network blocked_v4_networks) \<longleftrightarrow>
      (case v6_to_ipv4_mapped ip of Some v4 \<Rightarrow> is_blocked_v4 v4 | None \<Rightarrow> False)" .
  show ?thesis
    unfolding blocked_v6_networks_def list_ex_append list_ex_Cons_iff list_ex_Nil_iff top low mapped is_blocked_v6_def by auto
qed

text \<open>C25: The guard blocks exactly the addresses of the networks it means: loopback, the private and link-local networks,
  broadcast, the unspecified address, multicast and the shared address space of carriers for IPv4; loopback, the
  unspecified address, multicast, unique local and link-local addresses for IPv6, and every IPv6 address that maps a
  blocked IPv4 address. The bit masks and comparisons of octets are the ranges of these networks.\<close>

theorem blocked_ip_networks:
  "is_blocked_ip ip =
     (case ip of V4 v \<Rightarrow> list_ex (in_network 32 (v4_number v)) blocked_v4_networks
      | V6 v \<Rightarrow> list_ex (in_network 128 (v6_number v)) blocked_v6_networks)"
  by (cases ip) (simp_all add: blocked_v4_iff blocked_v6_iff)

section \<open>Requests reach only what the guard lets through\<close>

lemma assert_safe_ips_None: "assert_safe_ips ips = None \<longleftrightarrow> (\<forall>ip\<in>set ips. \<not> is_blocked_ip ip)"
  by (induction ips) (auto simp: assert_safe_ip_def)

lemma assert_safe_ips_Some: "assert_safe_ips ips = Some e \<Longrightarrow> \<exists>ip\<in>set ips. is_blocked_ip ip"
  using assert_safe_ips_None [of ips] by simp

text \<open>What passes as a target at a moment: an address literal outside the blocked networks, or a host name that is not
  reserved and resolves, at that moment, to addresses of which none is blocked.\<close>

definition safe_target :: "net_env \<Rightarrow> nat \<Rightarrow> http_url \<Rightarrow> bool" where
  "safe_target E moment url \<longleftrightarrow>
     (url_scheme url = ''http'' \<or> url_scheme url = ''https'') \<and> url_username url = [] \<and> url_password url = None
     \<and> (\<exists>host. url_host url = Some host
         \<and> (case parse_ip host of Some ip \<Rightarrow> \<not> is_blocked_ip ip
            | None \<Rightarrow> assert_safe_hostname (ne_unicode E) host = None
                \<and> (\<exists>addrs. ne_dns E moment host (case url_port url of Some p \<Rightarrow> p | None \<Rightarrow> 80) = Inr addrs \<and> addrs \<noteq> []
                     \<and> (\<forall>ip\<in>set addrs. \<not> is_blocked_ip ip))))"

lemma assert_safe_http_url_None:
  "\<not> allow_private_targets E s \<Longrightarrow> assert_safe_http_url E s moment url = None \<longleftrightarrow> safe_target E moment url"
  unfolding assert_safe_http_url_def safe_target_def
  by (auto simp: assert_safe_ip_def assert_safe_ips_None dest: assert_safe_ips_Some split: option.splits sum.splits if_splits)

lemma assert_safe_peer_None:
  "\<not> allow_private_targets E s \<Longrightarrow> assert_safe_peer E s peer = None \<longleftrightarrow> (\<exists>ip. peer = Some ip \<and> \<not> is_blocked_ip ip)"
  by (auto simp: assert_safe_peer_def assert_safe_ip_def split: option.splits)

lemma read_chunks_bound:
  "read_chunks cs bytes = Inr out \<Longrightarrow> length bytes \<le> HTTP_MAX_RESPONSE_BYTES \<Longrightarrow>
   length out \<le> HTTP_MAX_RESPONSE_BYTES \<and> out = bytes @ concat (map projr cs)"
  by (induction cs bytes rule: read_chunks.induct) (auto split: if_splits)

lemma read_bounded_body_spec:
  assumes "read_bounded_body E r = Inr body"
  shows "body = ne_utf8_lossy E (concat (map projr (hr_chunks r)))" "length (concat (map projr (hr_chunks r))) \<le> 262144"
proof -
  obtain out where o: "read_chunks (hr_chunks r) [] = Inr out" "body = ne_utf8_lossy E out"
    using assms unfolding read_bounded_body_def by (cases "read_chunks (hr_chunks r) []") (auto split: if_splits)
  with read_chunks_bound [OF o(1)] show "body = ne_utf8_lossy E (concat (map projr (hr_chunks r)))"
    "length (concat (map projr (hr_chunks r))) \<le> 262144"
    by (auto simp: HTTP_MAX_RESPONSE_BYTES_def)
qed

lemma clamp_u64_bounds: "lo \<le> hi \<Longrightarrow> lo \<le> clamp_u64 lo hi v \<and> clamp_u64 lo hi v \<le> hi"
  by (simp add: clamp_u64_def not_less)

lemma http_fetch_sent:
  "fst (http_fetch E s client sandbox value) \<noteq> [] \<Longrightarrow>
   \<exists>input url. value = Inr input \<and> ne_parse_url E (fi_url input) = Inr url \<and> assert_safe_http_url E s 0 url = None"
  by (auto simp: http_fetch_def http_validate_url_def split: option.splits sum.splits)

lemma http_fetch_Inr:
  assumes "snd (http_fetch E s client sandbox value) = Inr result"
  shows "\<exists>input url timeout max_chars sent response body. value = Inr input \<and> ne_parse_url E (fi_url input) = Inr url
    \<and> assert_safe_http_url E s 0 url = None
    \<and> 1 \<le> timeout \<and> timeout \<le> HTTP_TIMEOUT_MS \<and> 1 \<le> max_chars \<and> max_chars \<le> MAX_MAX_CHARS
    \<and> client timeout (\<lambda>moment u. assert_safe_http_url E s moment u = None) url = (sent, Inr response)
    \<and> assert_safe_peer E s (hr_peer response) = None \<and> assert_safe_http_url E s 1 (hr_url response) = None
    \<and> read_bounded_body E response = Inr body \<and> http_is_success (hr_status response)
    \<and> fr_text result = take_chars (unat max_chars) body \<and> fr_final_url result = hr_url response"
proof -
  have t: "(1 :: u64) \<le> HTTP_TIMEOUT_MS" "(1 :: u64) \<le> MAX_MAX_CHARS" by (simp_all add: HTTP_TIMEOUT_MS_def MAX_MAX_CHARS_def)
  from assms show ?thesis
    unfolding http_fetch_def http_validate_url_def Let_def
    apply (clarsimp split: option.splits sum.splits prod.splits if_splits)
    using clamp_u64_bounds [OF t(1)] clamp_u64_bounds [OF t(2)] by blast+
qed

text \<open>C23: A fetch that is not allowed private targets sends nothing before its URL has passed the guard; and it returns
  a result only when the URL passed before the request, every redirect was put to the same check, the address at the
  other end of the connection lies outside the blocked networks, the URL of the response passed again at its own moment, the
  status is a success, at most 256 KiB were read, and the text is cut to at most 20000 characters. The deadline of the
  request is between 1 ms and 20 s.\<close>

theorem http_fetch_guarded:
  assumes "\<not> allow_private_targets E s"
  shows "(fst (http_fetch E s client sandbox value) \<noteq> [] \<longrightarrow>
      (\<exists>input url. value = Inr input \<and> ne_parse_url E (fi_url input) = Inr url \<and> safe_target E 0 url))
    \<and> (snd (http_fetch E s client sandbox value) = Inr result \<longrightarrow>
      (\<exists>input url timeout (max_chars :: u64) sent response. value = Inr input \<and> ne_parse_url E (fi_url input) = Inr url \<and> safe_target E 0 url
        \<and> 1 \<le> timeout \<and> timeout \<le> 20000 \<and> client timeout (safe_target E) url = (sent, Inr response)
        \<and> (\<exists>ip. hr_peer response = Some ip \<and> \<not> is_blocked_ip ip)
        \<and> safe_target E 1 (hr_url response) \<and> fr_final_url result = hr_url response
        \<and> 200 \<le> hr_status response \<and> hr_status response < 300
        \<and> length (concat (map projr (hr_chunks response))) \<le> 262144
        \<and> unat max_chars \<le> 20000
        \<and> fr_text result = take_chars (unat max_chars) (ne_utf8_lossy E (concat (map projr (hr_chunks response))))))"
proof (intro conjI impI)
  note url = assert_safe_http_url_None [OF assms]
  show "\<exists>input url. value = Inr input \<and> ne_parse_url E (fi_url input) = Inr url \<and> safe_target E 0 url"
    if "fst (http_fetch E s client sandbox value) \<noteq> []"
    using http_fetch_sent [OF that] unfolding url .
  assume "snd (http_fetch E s client sandbox value) = Inr result"
  from http_fetch_Inr [OF this] obtain input url timeout max_chars sent response body where
    f: "value = Inr input" "ne_parse_url E (fi_url input) = Inr url" "safe_target E 0 url"
      "1 \<le> timeout" "timeout \<le> HTTP_TIMEOUT_MS" "max_chars \<le> MAX_MAX_CHARS"
      "client timeout (safe_target E) url = (sent, Inr response)"
      "assert_safe_peer E s (hr_peer response) = None" "safe_target E 1 (hr_url response)"
      "http_is_success (hr_status response)" "fr_final_url result = hr_url response"
    and b: "read_bounded_body E response = Inr body" and t: "fr_text result = take_chars (unat max_chars) body"
    unfolding url by blast
  have "unat max_chars \<le> 20000" using f(6) by (simp add: MAX_MAX_CHARS_def word_le_nat_alt)
  moreover have "\<exists>ip. hr_peer response = Some ip \<and> \<not> is_blocked_ip ip" using f(8) assert_safe_peer_None [OF assms] by blast
  moreover have "timeout \<le> 20000" "200 \<le> hr_status response" "hr_status response < 300"
    using f(5,10) by (simp_all add: http_is_success_def HTTP_TIMEOUT_MS_def)
  moreover have "fr_text result = take_chars (unat max_chars) (ne_utf8_lossy E (concat (map projr (hr_chunks response))))"
    "length (concat (map projr (hr_chunks response))) \<le> 262144"
    using read_bounded_body_spec [OF b] t by simp_all
  ultimately show "\<exists>input url timeout (max_chars :: u64) sent response. value = Inr input \<and> ne_parse_url E (fi_url input) = Inr url \<and> safe_target E 0 url
        \<and> 1 \<le> timeout \<and> timeout \<le> 20000 \<and> client timeout (safe_target E) url = (sent, Inr response)
        \<and> (\<exists>ip. hr_peer response = Some ip \<and> \<not> is_blocked_ip ip)
        \<and> safe_target E 1 (hr_url response) \<and> fr_final_url result = hr_url response
        \<and> 200 \<le> hr_status response \<and> hr_status response < 300
        \<and> length (concat (map projr (hr_chunks response))) \<le> 262144
        \<and> unat max_chars \<le> 20000
        \<and> fr_text result = take_chars (unat max_chars) (ne_utf8_lossy E (concat (map projr (hr_chunks response))))"
    using f(1-4,7,9,11) by blast
qed

section \<open>Examples\<close>

definition demo_url :: http_url where
  "demo_url = \<lparr>url_text = ''https://www.org/'', url_scheme = ''https'', url_username = [], url_password = None,
     url_host = Some ''www.org'', url_port = Some 443\<rparr>"

definition demo_net_env :: net_env where
  "demo_net_env = \<lparr>ne_unicode = plain_unicode, ne_allow_private = None, ne_var = (\<lambda>_. None),
     ne_dns = (\<lambda>_ _ _. Inr [V4 (Ipv4Addr 8 8 8 8)]), ne_parse_url = (\<lambda>t. Inr demo_url), ne_utf8_lossy = (\<lambda>b. b)\<rparr>"

definition no_overrides :: ssrf_overrides where
  "no_overrides = \<lparr>so_private = None, so_hosts = None\<rparr>"

text \<open>A client that connects to a given address and answers with a short text.\<close>

definition demo_client :: "ip_addr \<Rightarrow> http_client" where
  "demo_client ip timeout follow url = ([ip], Inr \<lparr>hr_peer = Some ip, hr_status = 200, hr_url = url, hr_content_type = None,
     hr_content_length = None, hr_chunks = [Inr ''ok'']\<rparr>)"

definition demo_fetch :: fetch_input where
  "demo_fetch = \<lparr>fi_url = ''https://www.org/'', fi_max_chars = None, fi_timeout_ms = None\<rparr>"

lemma demo_not_private: "\<not> allow_private_targets demo_net_env no_overrides"
  by code_simp

lemma demo_peers: "\<not> is_blocked_v4 (Ipv4Addr 8 8 8 8)" "is_blocked_v4 (Ipv4Addr 127 0 0 1)"
  by code_simp+

lemma demo_url_safe: "assert_safe_http_url demo_net_env no_overrides m demo_url = None"
proof -
  have "\<not> ip_start (CHR ''w'')" by code_simp
  then have "parse_ip ''www.org'' = None" by (rule parse_ip_start)
  moreover have "assert_safe_hostname plain_unicode ''www.org'' = None" by code_simp
  ultimately show ?thesis
    by (simp add: assert_safe_http_url_def demo_not_private demo_url_def assert_safe_ip_def demo_peers)
      (simp add: demo_net_env_def assert_safe_ip_def demo_peers)
qed

lemmas demo_fetch_simps = http_fetch_def http_validate_url_def demo_client_def demo_fetch_def demo_url_safe
  assert_safe_peer_def demo_not_private assert_safe_ip_def demo_peers read_bounded_body_def HTTP_MAX_RESPONSE_BYTES_def
  http_is_success_def clamp_u64_def DEFAULT_MAX_CHARS_def MAX_MAX_CHARS_def HTTP_TIMEOUT_MS_def is_continuation_def

lemma demo_net_env_sel: "ne_parse_url demo_net_env t = Inr demo_url" "ne_utf8_lossy demo_net_env b = b"
  by (simp_all add: demo_net_env_def)

theorem http_fetch_guarded_witness:
  "\<exists>result. snd (http_fetch demo_net_env no_overrides (demo_client (V4 (Ipv4Addr 8 8 8 8))) None (Inr demo_fetch)) = Inr result
    \<and> fr_text result = ''ok'' \<and> safe_target demo_net_env 1 (fr_final_url result)"
proof -
  let ?f = "http_fetch demo_net_env no_overrides (demo_client (V4 (Ipv4Addr 8 8 8 8))) None (Inr demo_fetch)"
  have "case snd ?f of Inr r \<Rightarrow> fr_text r = ''ok'' | Inl e \<Rightarrow> False"
    by (simp add: demo_fetch_simps demo_net_env_sel)
  then obtain r where r: "snd ?f = Inr r" "fr_text r = ''ok''" by (auto split: sum.splits)
  from http_fetch_guarded [OF demo_not_private, of "demo_client (V4 (Ipv4Addr 8 8 8 8))" None "Inr demo_fetch" r] r(1)
  have "safe_target demo_net_env 1 (fr_final_url r)" by auto
  then show ?thesis using r by blast
qed

text \<open>The peer is checked when the response is there: a host that resolves to a public address for the guard and to the
  loopback address for the client gets the request, although the fetch then fails.\<close>

theorem rebound_request_is_sent:
  "http_fetch demo_net_env no_overrides (demo_client (V4 (Ipv4Addr 127 0 0 1))) None (Inr demo_fetch)
   = ([V4 (Ipv4Addr 127 0 0 1)], Inl (PeerError (BlockedAddress (V4 (Ipv4Addr 127 0 0 1)))))"
  by (simp add: demo_fetch_simps demo_net_env_sel)

section \<open>Requests to MCP servers\<close>

lemma assert_mcp_url_None:
  assumes "\<not> allow_private_targets E s"
  shows "assert_mcp_url E s moment url = None \<longleftrightarrow> safe_target E moment url
    \<and> (\<forall>hosts. effective_host_allowlist E s ALLOWED_HOSTS_ENV = Some hosts \<longrightarrow>
        (\<exists>host. url_host url = Some host \<and> normalize_host host \<in> set hosts))"
  using assert_safe_http_url_None [OF assms, of moment url]
  by (auto simp: assert_mcp_url_def assert_host_in_allowlist_def split: option.splits)

lemma mcp_execute_Inr:
  assumes "snd (mcp_execute E s client sandbox value) = Inr (final, status, text)"
  shows "\<exists>input url timeout sent response. value = Inr input \<and> ne_parse_url E (mi_url input) = Inr url
    \<and> assert_mcp_url E s 0 url = None \<and> timeout \<le> HTTP_TIMEOUT_MS
    \<and> client timeout (\<lambda>moment u. assert_mcp_url E s moment u = None) url = (sent, Inr response)
    \<and> assert_safe_peer E s (hr_peer response) = None \<and> assert_mcp_url E s 1 final = None \<and> final = hr_url response
    \<and> http_is_success status"
proof -
  have m: "min t HTTP_TIMEOUT_MS \<le> HTTP_TIMEOUT_MS" for t by simp
  from assms show ?thesis
    unfolding mcp_execute_def mcp_validate_url_def Let_def
    apply (clarsimp split: option.splits sum.splits prod.splits if_splits)
    using m by blast+
qed

text \<open>A call to an MCP server that returns has passed the guard and the list of allowed hosts, when there is one, before the
  request and for the URL of the response, and its peer lies outside the blocked networks.\<close>

theorem mcp_execute_guarded:
  assumes "\<not> allow_private_targets E s" "snd (mcp_execute E s client sandbox value) = Inr (final, status, text)"
  shows "\<exists>input url timeout follow sent response. value = Inr input \<and> ne_parse_url E (mi_url input) = Inr url
    \<and> safe_target E 0 url \<and> safe_target E 1 final \<and> client timeout follow url = (sent, Inr response)
    \<and> (\<exists>ip. hr_peer response = Some ip \<and> \<not> is_blocked_ip ip) \<and> final = hr_url response
    \<and> (\<forall>hosts u. effective_host_allowlist E s ALLOWED_HOSTS_ENV = Some hosts \<and> u \<in> {url, final} \<longrightarrow>
        (\<exists>host. url_host u = Some host \<and> normalize_host host \<in> set hosts))"
  using mcp_execute_Inr [OF assms(2)] unfolding assert_mcp_url_None [OF assms(1)] assert_safe_peer_None [OF assms(1)] by blast

section \<open>The policy of domains\<close>

lemma is_prefix_of_iff: "is_prefix_of p s \<longleftrightarrow> (\<exists>r. s = p @ r)"
  by (induction p s rule: is_prefix_of.induct) auto

lemma ends_with_iff: "ends_with s suf \<longleftrightarrow> (\<exists>r. s = r @ suf)"
  unfolding ends_with_def is_prefix_of_iff by (metis rev_append rev_rev_ident)

lemma normalize_domain_Inr:
  "normalize_domain U d = Inr n \<Longrightarrow> n = normalize_host (str_trim U d) \<and> n \<noteq> [] \<and> length n \<le> 253 \<and> parse_ip n = None"
  by (auto simp: normalize_domain_def malformed_domain_def Let_def MAX_DOMAIN_BYTES_def split: if_splits)

lemma collect_domains_set:
  "collect_domains U ds allowed = Inr out \<Longrightarrow>
   set out = set allowed \<union> {n. \<exists>d\<in>set ds. normalize_domain U d = Inr n}
   \<and> (length allowed \<le> 64 \<longrightarrow> length out \<le> 64) \<and> (distinct allowed \<longrightarrow> distinct out)"
  by (induction U ds allowed rule: collect_domains.induct) (auto simp: MAX_ALLOWED_DOMAINS_def split: sum.splits if_splits)

lemma network_policy_new_Inr:
  assumes "network_policy_new U domains mr ml mc ar rp = Inr p"
  shows "set (np_allowed_domains p) = {n. \<exists>d\<in>set domains. normalize_domain U d = Inr n}" "length (np_allowed_domains p) \<le> 64"
    "np_max_response_bytes p \<le> 16777216" "np_max_latency_ms p \<le> 120000" "np_max_cost_micros p \<le> 1000000"
    "np_allow_refresh p = ar"
    "np_max_response_bytes p = mr" "np_max_latency_ms p = ml" "np_max_cost_micros p = mc"
  using assms collect_domains_set [of U domains "[]"]
  by (auto simp: network_policy_new_def NET_MAX_RESPONSE_BYTES_def MAX_LATENCY_MS_def MAX_COST_MICROS_def not_less
      split: sum.splits if_splits)

lemma network_evaluate_allow:
  assumes "nd_kind (network_evaluate parse_url p r) = NetAllow"
  shows "\<not> nr_cancelled r" "nr_expected_response_bytes r \<le> np_max_response_bytes p" "nr_expected_latency_ms r \<le> np_max_latency_ms p"
    "nr_estimated_cost_micros r \<le> np_max_cost_micros p" "nr_refresh r \<longrightarrow> np_allow_refresh p"
    "\<exists>url host. parse_url (nr_url r) = Inr url \<and> url_scheme url = ''https'' \<and> url_username url = [] \<and> url_password url = None
      \<and> url_host url = Some host \<and> \<not> is_ssrf_host (to_ascii_lowercase host)
      \<and> (\<exists>n\<in>set (np_allowed_domains p). to_ascii_lowercase host = n \<or> (\<exists>label. to_ascii_lowercase host = label @ ''.'' @ n))"
  using assms unfolding network_evaluate_def
  by (auto simp: net_deny_def net_allow_def list_ex_iff ends_with_iff not_less split: if_splits sum.splits option.splits)

text \<open>C24: A network policy that was accepted has at most 64 domains, none of them text that parses as an address, and the
  budgets it was given, which are within the hard ceilings; a request that it allows is not cancelled, keeps to these budgets,
  asks for a refresh only where that is permitted, and goes by https and without credentials to a host that is one of the
  normalised domains or ends in a dot and one of them. The text of the host is none of the three local names and does not parse as a
  loopback, private, link-local or unspecified address. The text of an IPv6 host has brackets and does not parse as an
  address at all, so that nothing is said of these (see \<open>ipv6_loopback_allowed\<close>).\<close>

theorem network_allow_justified:
  assumes new: "network_policy_new U domains mr ml mc ar rp = Inr p" and allow: "nd_kind (network_evaluate parse_url p r) = NetAllow"
  shows "\<not> nr_cancelled r \<and> nr_expected_response_bytes r \<le> mr \<and> nr_expected_latency_ms r \<le> ml
    \<and> nr_estimated_cost_micros r \<le> mc \<and> mr \<le> 16777216 \<and> ml \<le> 120000 \<and> mc \<le> 1000000
    \<and> (nr_refresh r \<longrightarrow> ar) \<and> length (np_allowed_domains p) \<le> 64
    \<and> (\<exists>url host d n. parse_url (nr_url r) = Inr url \<and> url_scheme url = ''https'' \<and> url_username url = [] \<and> url_password url = None
        \<and> url_host url = Some host \<and> d \<in> set domains \<and> normalize_domain U d = Inr n \<and> parse_ip n = None
        \<and> (to_ascii_lowercase host = n \<or> (\<exists>label. to_ascii_lowercase host = label @ ''.'' @ n))
        \<and> to_ascii_lowercase host \<notin> {''localhost'', ''localhost.localdomain'', ''metadata.google.internal''}
        \<and> (\<forall>ip. parse_ip (to_ascii_lowercase host) = Some ip \<longrightarrow>
            (case ip of V4 v \<Rightarrow> \<not> (v4_is_loopback v \<or> v4_is_private v \<or> v4_is_link_local v \<or> v4_is_unspecified v)
             | V6 v \<Rightarrow> \<not> (v6_is_loopback v \<or> v6_is_unique_local v \<or> v6_is_unicast_link_local v \<or> v6_is_unspecified v))))"
proof -
  note n = network_policy_new_Inr [OF new] and e = network_evaluate_allow [OF allow]
  from e(6) obtain url host m where u: "parse_url (nr_url r) = Inr url" "url_scheme url = ''https''" "url_username url = []"
    "url_password url = None" "url_host url = Some host" and ssrf: "\<not> is_ssrf_host (to_ascii_lowercase host)"
    and m: "m \<in> set (np_allowed_domains p)" "to_ascii_lowercase host = m \<or> (\<exists>label. to_ascii_lowercase host = label @ ''.'' @ m)"
    by blast
  from m(1) n(1) obtain d where d: "d \<in> set domains" "normalize_domain U d = Inr m" by blast
  have lit: "\<forall>ip. parse_ip (to_ascii_lowercase host) = Some ip \<longrightarrow>
      (case ip of V4 v \<Rightarrow> \<not> (v4_is_loopback v \<or> v4_is_private v \<or> v4_is_link_local v \<or> v4_is_unspecified v)
       | V6 v \<Rightarrow> \<not> (v6_is_loopback v \<or> v6_is_unique_local v \<or> v6_is_unicast_link_local v \<or> v6_is_unspecified v))"
    using ssrf by (auto simp: is_ssrf_host_def split: if_splits ip_addr.splits)
  have name: "to_ascii_lowercase host \<notin> {''localhost'', ''localhost.localdomain'', ''metadata.google.internal''}"
    using ssrf by (auto simp: is_ssrf_host_def)
  have budget: "nr_expected_response_bytes r \<le> mr \<and> nr_expected_latency_ms r \<le> ml \<and> nr_estimated_cost_micros r \<le> mc
      \<and> mr \<le> 16777216 \<and> ml \<le> 120000 \<and> mc \<le> 1000000"
    using e(2-4) n(3-5) unfolding n(7-9) by blast
  show ?thesis
    using e(1,5) n(2,6) u m(2) d lit name budget normalize_domain_Inr [OF d(2)] by blast
qed

definition demo_network_url :: "string \<Rightarrow> http_url" where
  "demo_network_url host = \<lparr>url_text = [], url_scheme = ''https'', url_username = [], url_password = None, url_host = Some host, url_port = Some 443\<rparr>"

definition demo_network_request :: network_request where
  "demo_network_request = \<lparr>nr_url = ''https://w.org/'', nr_expected_response_bytes = 128, nr_expected_latency_ms = 500,
     nr_estimated_cost_micros = 1, nr_refresh = False, nr_cancelled = False\<rparr>"

definition demo_network_policy :: network_policy where
  "demo_network_policy = \<lparr>np_allowed_domains = [''w.org''], np_max_response_bytes = 1024, np_max_latency_ms = 5000,
     np_max_cost_micros = 10, np_allow_refresh = False, np_refresh_policy = RefreshNever\<rparr>"

lemma demo_ip_start: "\<not> ip_start (CHR ''w'')" "\<not> ip_start (CHR ''['')"
  by code_simp+

lemma demo_no_ip: "parse_ip ''w.org'' = None" "parse_ip ''www.w.org'' = None" "parse_ip ''[::1]'' = None"
  by (simp_all add: parse_ip_start demo_ip_start)

lemma demo_normalized: "normalize_domain plain_unicode ''W.org.'' = Inr ''w.org''" "normalize_domain plain_unicode ''[::1]'' = Inr ''[::1]''"
proof -
  have n: "normalize_host (str_trim plain_unicode ''W.org.'') = ''w.org''" "normalize_host (str_trim plain_unicode ''[::1]'') = ''[::1]''"
    by code_simp+
  have "\<not> malformed_domain plain_unicode ''w.org''"
  proof -
    have "\<not> is_prefix_of ''.'' ''w.org''" "\<not> str_contains ''w.org'' ''*''" "\<not> list_ex (uc_is_whitespace plain_unicode) (utf8_chars ''w.org'')"
      "\<not> list_ex (\<lambda>part. part = []) (split_chars (\<lambda>c. c = ''.'') (utf8_chars ''w.org'') [])" "length ''w.org'' \<le> 253" by code_simp+
    then show ?thesis using demo_no_ip(1) unfolding malformed_domain_def MAX_DOMAIN_BYTES_def by linarith
  qed
  moreover have "\<not> malformed_domain plain_unicode ''[::1]''"
  proof -
    have "\<not> is_prefix_of ''.'' ''[::1]''" "\<not> str_contains ''[::1]'' ''*''" "\<not> list_ex (uc_is_whitespace plain_unicode) (utf8_chars ''[::1]'')"
      "\<not> list_ex (\<lambda>part. part = []) (split_chars (\<lambda>c. c = ''.'') (utf8_chars ''[::1]'') [])" "length ''[::1]'' \<le> 253" by code_simp+
    then show ?thesis using demo_no_ip(3) unfolding malformed_domain_def MAX_DOMAIN_BYTES_def by linarith
  qed
  ultimately show "normalize_domain plain_unicode ''W.org.'' = Inr ''w.org''" "normalize_domain plain_unicode ''[::1]'' = Inr ''[::1]''"
    by (simp_all add: normalize_domain_def n)
qed

theorem network_allow_justified_witness:
  "network_policy_new plain_unicode [''W.org.''] 1024 5000 10 False RefreshNever = Inr demo_network_policy
   \<and> network_evaluate (\<lambda>_. Inr (demo_network_url ''www.w.org'')) demo_network_policy demo_network_request = net_allow
   \<and> nr_expected_latency_ms demo_network_request \<le> 5000"
proof -
  have p: "network_policy_new plain_unicode [''W.org.''] 1024 5000 10 False RefreshNever = Inr demo_network_policy"
    by (simp add: network_policy_new_def demo_normalized MAX_ALLOWED_DOMAINS_def NET_MAX_RESPONSE_BYTES_def MAX_LATENCY_MS_def
        MAX_COST_MICROS_def demo_network_policy_def)
  have "to_ascii_lowercase ''www.w.org'' = ''www.w.org''" "ends_with ''www.w.org'' ''.w.org''" by code_simp+
  then have e: "network_evaluate (\<lambda>_. Inr (demo_network_url ''www.w.org'')) demo_network_policy demo_network_request = net_allow"
    by (simp add: network_evaluate_def demo_network_policy_def demo_network_request_def demo_network_url_def is_ssrf_host_def demo_no_ip)
  have "nd_kind net_allow = NetAllow" by (simp add: net_allow_def)
  then show ?thesis using network_allow_justified [OF p, of "\<lambda>_. Inr (demo_network_url ''www.w.org'')" demo_network_request] p e by simp
qed

text \<open>A URL gives an IPv6 host between brackets, which is no address for the parser: the loopback address can be allowed as
  a domain and then passes the check for local targets.\<close>

theorem ipv6_loopback_allowed:
  "normalize_domain plain_unicode ''[::1]'' = Inr ''[::1]''
   \<and> network_evaluate (\<lambda>_. Inr (demo_network_url ''[::1]'')) (demo_network_policy\<lparr>np_allowed_domains := [''[::1]'']\<rparr>) demo_network_request = net_allow"
proof -
  have "to_ascii_lowercase ''[::1]'' = ''[::1]''" by code_simp
  then show ?thesis
    by (simp add: network_evaluate_def demo_network_policy_def demo_network_request_def demo_network_url_def is_ssrf_host_def
        demo_no_ip demo_normalized)
qed

end
