(* ===== verification/Model_Routing.thy ===== *)
theory Model_Routing
  imports BTree_Map Unicode_Text
begin

text \<open>
  \<open>crates/model-gateway/src/routing_policy.rs\<close> and \<open>routing_runtime.rs\<close>: validation of candidates and requests, the
  selection of a route, and the runtime of a routed run with its budgets and its telemetry. The fields of a request that
  selection does not read and the quality difference, a floating point number, are left out.
\<close>

section \<open>Candidates and requests\<close>

definition MAX_CANDIDATES :: nat where "MAX_CANDIDATES = 64"
definition MAX_CAPABILITIES :: nat where "MAX_CAPABILITIES = 32"
definition MAX_NAME_BYTES :: nat where "MAX_NAME_BYTES = 128"
definition MAX_FALLBACKS :: nat where "MAX_FALLBACKS = 16"

datatype privacy_level = PrivacyPublic | PrivacyInternal | PrivacySensitive | PrivacyRestricted

fun privacy_rank :: "privacy_level \<Rightarrow> nat" where
  "privacy_rank PrivacyPublic = 0"
| "privacy_rank PrivacyInternal = 1"
| "privacy_rank PrivacySensitive = 2"
| "privacy_rank PrivacyRestricted = 3"

lemma privacy_rank_inj: "privacy_rank a = privacy_rank b \<longleftrightarrow> a = b"
  by (cases a; cases b) simp_all

text \<open>\<open>Ord\<close> compares the discriminants.\<close>

instantiation privacy_level :: linorder
begin

definition less_eq_privacy_level :: "privacy_level \<Rightarrow> privacy_level \<Rightarrow> bool" where
  "less_eq_privacy_level a b \<longleftrightarrow> privacy_rank a \<le> privacy_rank b"

definition less_privacy_level :: "privacy_level \<Rightarrow> privacy_level \<Rightarrow> bool" where
  "less_privacy_level a b \<longleftrightarrow> privacy_rank a < privacy_rank b"

instance
  by standard (auto simp: less_eq_privacy_level_def less_privacy_level_def privacy_rank_inj)

end

definition privacy_permits :: "privacy_level \<Rightarrow> privacy_level \<Rightarrow> bool" where
  "privacy_permits self required \<longleftrightarrow> self \<ge> required"

record route_candidate =
  rc_route_id :: string
  rc_model :: string
  rc_capabilities :: "string list"
  rc_cost :: u64
  rc_latency :: u32
  rc_privacy :: privacy_level
  rc_available :: bool
  rc_fallback_rank :: "16 word"

record routing_request =
  rr_required_capabilities :: "string list"
  rr_max_cost :: "u64 option"
  rr_max_latency :: "u32 option"
  rr_required_privacy :: privacy_level
  rr_allow_fallback :: bool
  rr_preferred_route :: "string option"

datatype route_decision_kind = RouteSelected | RouteFallback | RouteDenied

record routing_decision =
  rd_kind :: route_decision_kind
  rd_selected_route :: "string option"
  rd_selected_model :: "string option"
  rd_fallback_chain :: "string list"
  rd_reasons :: "string list"

datatype routing_policy_error =
  TooManyCandidates | TooManyCapabilities | InvalidName | DuplicateCapability | SecretLikeField | EmptyRouteSet

section \<open>Validation\<close>

definition NAME_MARKERS :: "string list" where
  "NAME_MARKERS = [''api_key'', ''apikey'', ''authorization'', ''bearer'', ''token'', ''secret'']"

definition validate_name :: "string \<Rightarrow> routing_policy_error option" where
  "validate_name value =
     (if value = [] \<or> length value > MAX_NAME_BYTES \<or> list_ex char_is_control (utf8_chars value) then Some InvalidName
      else if list_ex (\<lambda>marker. str_contains (to_ascii_lowercase value) marker) NAME_MARKERS then Some SecretLikeField
      else None)"

fun check_capabilities :: "string list \<Rightarrow> string list \<Rightarrow> routing_policy_error option" where
  "check_capabilities [] seen = None"
| "check_capabilities (c # cs) seen =
     (case validate_name c of Some e \<Rightarrow> Some e
      | None \<Rightarrow> if c \<in> set seen then Some DuplicateCapability else check_capabilities cs (c # seen))"

fun check_candidates :: "route_candidate list \<Rightarrow> string list \<Rightarrow> routing_policy_error option" where
  "check_candidates [] seen = None"
| "check_candidates (c # cs) seen =
     (case validate_name (rc_route_id c) of Some e \<Rightarrow> Some e | None \<Rightarrow>
      case validate_name (rc_model c) of Some e \<Rightarrow> Some e | None \<Rightarrow>
      if rc_route_id c \<in> set seen then Some InvalidName
      else if length (rc_capabilities c) > MAX_CAPABILITIES then Some TooManyCapabilities
      else case check_capabilities (rc_capabilities c) [] of Some e \<Rightarrow> Some e
      | None \<Rightarrow> check_candidates cs (rc_route_id c # seen))"

definition validate_candidates :: "route_candidate list \<Rightarrow> routing_policy_error option" where
  "validate_candidates cs =
     (if cs = [] then Some EmptyRouteSet
      else if length cs > MAX_CANDIDATES then Some TooManyCandidates
      else check_candidates cs [])"

definition validate_routing_request :: "routing_request \<Rightarrow> routing_policy_error option" where
  "validate_routing_request r =
     (if length (rr_required_capabilities r) > MAX_CAPABILITIES then Some TooManyCapabilities
      else check_capabilities (rr_required_capabilities r) [])"

section \<open>Selection\<close>

definition route_eligible :: "routing_request \<Rightarrow> route_candidate \<Rightarrow> bool" where
  "route_eligible r c \<longleftrightarrow> rc_available c \<and> privacy_permits (rc_privacy c) (rr_required_privacy r)
     \<and> (case rr_max_cost r of Some limit \<Rightarrow> \<not> rc_cost c > limit | None \<Rightarrow> True)
     \<and> (case rr_max_latency r of Some limit \<Rightarrow> \<not> rc_latency c > limit | None \<Rightarrow> True)
     \<and> \<not> list_ex (\<lambda>required. \<not> list_ex (\<lambda>actual. actual = required) (rc_capabilities c)) (rr_required_capabilities r)"

definition route_key :: "routing_request \<Rightarrow> route_candidate \<Rightarrow> u64 \<times> u32 \<times> 16 word \<times> bool \<times> string" where
  "route_key r c = (rc_cost c, rc_latency c, rc_fallback_rank c, rr_preferred_route r \<noteq> Some (rc_route_id c), rc_route_id c)"

definition ranked_routes :: "routing_request \<Rightarrow> route_candidate list \<Rightarrow> route_candidate list" where
  "ranked_routes r cs = sort_key (route_key r) (filter (route_eligible r) cs)"

definition decide_route :: "routing_request \<Rightarrow> route_candidate list \<Rightarrow> routing_decision" where
  "decide_route r ranked =
     (case ranked of
        [] \<Rightarrow> \<lparr>rd_kind = RouteDenied, rd_selected_route = None, rd_selected_model = None, rd_fallback_chain = [],
               rd_reasons = [''no_eligible_route'']\<rparr>
      | selected # others \<Rightarrow>
          let chain = (if rr_allow_fallback r then map rc_route_id (take MAX_FALLBACKS others) else []) in
          \<lparr>rd_kind = (if rr_allow_fallback r \<and> chain \<noteq> [] then RouteFallback else RouteSelected),
           rd_selected_route = Some (rc_route_id selected), rd_selected_model = Some (rc_model selected),
           rd_fallback_chain = chain, rd_reasons = [''capability_cost_latency_privacy_policy'']\<rparr>)"

definition select_route :: "routing_request \<Rightarrow> route_candidate list \<Rightarrow> routing_policy_error + routing_decision" where
  "select_route r cs =
     (case validate_routing_request r of Some e \<Rightarrow> Inl e
      | None \<Rightarrow>
          case validate_candidates cs of Some e \<Rightarrow> Inl e
          | None \<Rightarrow> Inr (decide_route r (ranked_routes r cs)))"

section \<open>The runtime\<close>

definition MAX_ITERATIONS :: u32 where "MAX_ITERATIONS = 128"
definition MAX_TOOL_CALLS :: u32 where "MAX_TOOL_CALLS = 512"
definition MAX_TOKENS :: u64 where "MAX_TOKENS = 2000000"
definition MAX_WALL_CLOCK_MS :: u64 where "MAX_WALL_CLOCK_MS = 3600000"
definition MAX_TELEMETRY_FIELDS :: nat where "MAX_TELEMETRY_FIELDS = 24"
definition MAX_TELEMETRY_VALUE_BYTES :: nat where "MAX_TELEMETRY_VALUE_BYTES = 512"

datatype routing_mode = LocalFirst | Balanced | CloudResearch | OfflineMode

datatype route_run_state = RunPlanned | RunRunning | RunPaused | RunStopped | RunCompleted | RunFailed

record route_limits =
  rl_max_iterations :: u32
  rl_max_tool_calls :: u32
  rl_max_tokens :: u64
  rl_wall_clock_ms :: u64

record route_usage =
  ru_iterations :: u32
  ru_tool_calls :: u32
  ru_tokens :: u64
  ru_elapsed_ms :: u64

record fallback_notice =
  fn_from_route :: string
  fn_to_route :: string
  fn_reason :: string

record routing_telemetry =
  rt_mode :: routing_mode
  rt_state :: route_run_state
  rt_route :: "string option"
  rt_model :: "string option"
  rt_reason :: string
  rt_fallback :: "fallback_notice option"
  rt_usage :: route_usage
  rt_fields :: "(string, string) btree"

datatype route_run_error =
    LimitOutOfBounds string | NoRoute | InvalidTransition route_run_state | BudgetExceeded string | SecretLikeTelemetry

record routing_runtime =
  rn_mode :: routing_mode
  rn_limits :: route_limits
  rn_usage :: route_usage
  rn_state :: route_run_state
  rn_decision :: routing_decision
  rn_telemetry :: routing_telemetry

definition route_limits_default :: route_limits where
  "route_limits_default = \<lparr>rl_max_iterations = 16, rl_max_tool_calls = 64, rl_max_tokens = 100000, rl_wall_clock_ms = 15 * 60 * 1000\<rparr>"

definition route_limits_validate :: "route_limits \<Rightarrow> route_run_error option" where
  "route_limits_validate l =
     (if rl_max_iterations l = 0 \<or> rl_max_iterations l > MAX_ITERATIONS then Some (LimitOutOfBounds ''max_iterations'')
      else if rl_max_tool_calls l = 0 \<or> rl_max_tool_calls l > MAX_TOOL_CALLS then Some (LimitOutOfBounds ''max_tool_calls'')
      else if rl_max_tokens l = 0 \<or> rl_max_tokens l > MAX_TOKENS then Some (LimitOutOfBounds ''max_tokens'')
      else if rl_wall_clock_ms l = 0 \<or> rl_wall_clock_ms l > MAX_WALL_CLOCK_MS then Some (LimitOutOfBounds ''wall_clock_ms'')
      else None)"

definition usage_zero :: route_usage where
  "usage_zero = \<lparr>ru_iterations = 0, ru_tool_calls = 0, ru_tokens = 0, ru_elapsed_ms = 0\<rparr>"

definition SECRET_MARKERS :: "string list" where
  "SECRET_MARKERS = [''api_key'', ''apikey'', ''authorization'', ''bearer'', ''password'', ''secret'', ''token'']"

definition is_secret_like :: "string \<Rightarrow> bool" where
  "is_secret_like value \<longleftrightarrow> list_ex (\<lambda>marker. str_contains (to_ascii_lowercase value) marker) SECRET_MARKERS"

definition bound_value :: "string \<Rightarrow> string" where
  "bound_value value = take_chars MAX_TELEMETRY_VALUE_BYTES value"

definition redact_name :: "string \<Rightarrow> string" where
  "redact_name value = (if is_secret_like value then [] else bound_value value)"

definition telemetry_new :: "routing_mode \<Rightarrow> string \<Rightarrow> routing_telemetry" where
  "telemetry_new mode reason = \<lparr>rt_mode = mode, rt_state = RunPlanned, rt_route = None, rt_model = None,
     rt_reason = bound_value reason, rt_fallback = None, rt_usage = usage_zero, rt_fields = []\<rparr>"

definition insert_field :: "string \<Rightarrow> string \<Rightarrow> routing_telemetry \<Rightarrow> routing_telemetry" where
  "insert_field name value t =
     (if length (rt_fields t) \<ge> MAX_TELEMETRY_FIELDS then t
      else let name = redact_name name in
           if name = [] then t else t\<lparr>rt_fields := bt_insert name (bound_value value) (rt_fields t)\<rparr>)"

definition route_text :: "route_candidate \<Rightarrow> string" where
  "route_text c = to_ascii_lowercase (rc_route_id c @ '' '' @ rc_model c)"

definition is_local_route :: "route_candidate \<Rightarrow> bool" where
  "is_local_route c \<longleftrightarrow> str_contains (route_text c) ''local'' \<or> str_contains (route_text c) ''offline''"

definition is_cloud_route :: "route_candidate \<Rightarrow> bool" where
  "is_cloud_route c \<longleftrightarrow> str_contains (route_text c) ''cloud'' \<or> str_contains (route_text c) ''research''"

fun mode_admits :: "routing_mode \<Rightarrow> route_candidate \<Rightarrow> bool" where
  "mode_admits Balanced c = True"
| "mode_admits OfflineMode c = (rc_available c \<and> is_local_route c)"
| "mode_admits CloudResearch c = (rc_available c \<and> is_cloud_route c)"
| "mode_admits LocalFirst c = (rc_available c \<and> is_local_route c)"

definition choose_mode ::
    "routing_mode \<Rightarrow> routing_request \<Rightarrow> route_candidate list \<Rightarrow> route_run_error + routing_decision \<times> string option" where
  "choose_mode mode r cs =
     (let filtered = filter (mode_admits mode) cs;
          (filtered, reason) = (if filtered = [] \<and> mode = LocalFirst then (cs, Some ''local_route_unavailable'') else (filtered, None))
      in if filtered = [] then Inl NoRoute
         else case select_route r filtered of Inl e \<Rightarrow> Inl NoRoute | Inr d \<Rightarrow> Inr (d, reason))"

definition plan_fallback :: "routing_decision \<Rightarrow> string option \<Rightarrow> fallback_notice option" where
  "plan_fallback d reason =
     (case reason of
        Some why \<Rightarrow> map_option (\<lambda>dest. \<lparr>fn_from_route = ''local'', fn_to_route = dest, fn_reason = why\<rparr>) (rd_selected_route d)
      | None \<Rightarrow>
          case (rd_selected_route d, rd_fallback_chain d) of
            (Some from, dest # _) \<Rightarrow> Some \<lparr>fn_from_route = from, fn_to_route = dest, fn_reason = ''visible_fallback_available''\<rparr>
          | _ \<Rightarrow> None)"

definition runtime_plan ::
    "routing_mode \<Rightarrow> routing_request \<Rightarrow> route_candidate list \<Rightarrow> route_limits \<Rightarrow> route_run_error + routing_runtime" where
  "runtime_plan mode r cs limits =
     (case route_limits_validate limits of Some e \<Rightarrow> Inl e
      | None \<Rightarrow>
          case choose_mode mode r cs of Inl e \<Rightarrow> Inl e
          | Inr (d, reason) \<Rightarrow>
              Inr \<lparr>rn_mode = mode, rn_limits = limits, rn_usage = usage_zero, rn_state = RunPlanned, rn_decision = d,
                rn_telemetry = (telemetry_new mode ''route_planned'')\<lparr>rt_route := rd_selected_route d, rt_model := rd_selected_model d,
                  rt_fallback := plan_fallback d reason\<rparr>\<rparr>)"

text \<open>The operations return the error, if any, and the runtime after them.\<close>

definition set_run_state :: "route_run_state \<Rightarrow> routing_runtime \<Rightarrow> routing_runtime" where
  "set_run_state st n = n\<lparr>rn_state := st, rn_telemetry := (rn_telemetry n)\<lparr>rt_state := st\<rparr>\<rparr>"

definition sync_usage :: "routing_runtime \<Rightarrow> routing_runtime" where
  "sync_usage n = n\<lparr>rn_telemetry := (rn_telemetry n)\<lparr>rt_usage := rn_usage n\<rparr>\<rparr>"

definition runtime_start :: "routing_runtime \<Rightarrow> route_run_error option \<times> routing_runtime" where
  "runtime_start n =
     (if rn_state n \<noteq> RunPlanned then (Some (InvalidTransition (rn_state n)), n) else (None, set_run_state RunRunning n))"

definition runtime_transition :: "route_run_state \<Rightarrow> route_run_state \<Rightarrow> routing_runtime \<Rightarrow> route_run_error option \<times> routing_runtime" where
  "runtime_transition from to n =
     (if rn_state n \<noteq> from then (Some (InvalidTransition (rn_state n)), n) else (None, set_run_state to n))"

definition runtime_stop :: "routing_runtime \<Rightarrow> route_run_error option \<times> routing_runtime" where
  "runtime_stop n =
     (case rn_state n of RunRunning \<Rightarrow> (None, set_run_state RunStopped n) | RunPaused \<Rightarrow> (None, set_run_state RunStopped n)
      | st \<Rightarrow> (Some (InvalidTransition st), n))"

definition require_running :: "routing_runtime \<Rightarrow> route_run_error option" where
  "require_running n = (if rn_state n = RunRunning then None else Some (InvalidTransition (rn_state n)))"

definition fail_budget :: "string \<Rightarrow> routing_runtime \<Rightarrow> route_run_error option \<times> routing_runtime" where
  "fail_budget budget n = (Some (BudgetExceeded budget), sync_usage (set_run_state RunFailed n))"

definition record_iteration :: "routing_runtime \<Rightarrow> route_run_error option \<times> routing_runtime" where
  "record_iteration n =
     (case require_running n of Some e \<Rightarrow> (Some e, n)
      | None \<Rightarrow>
          let n = n\<lparr>rn_usage := (rn_usage n)\<lparr>ru_iterations := sat_add (ru_iterations (rn_usage n)) 1\<rparr>\<rparr> in
          if ru_iterations (rn_usage n) > rl_max_iterations (rn_limits n) then fail_budget ''max_iterations'' n
          else (None, sync_usage n))"

definition record_tool_call :: "u64 \<Rightarrow> routing_runtime \<Rightarrow> route_run_error option \<times> routing_runtime" where
  "record_tool_call tokens n =
     (case require_running n of Some e \<Rightarrow> (Some e, n)
      | None \<Rightarrow>
          let u = rn_usage n;
              n = n\<lparr>rn_usage := u\<lparr>ru_tool_calls := sat_add (ru_tool_calls u) 1, ru_tokens := sat_add (ru_tokens u) tokens\<rparr>\<rparr> in
          if ru_tool_calls (rn_usage n) > rl_max_tool_calls (rn_limits n) then fail_budget ''max_tool_calls'' n
          else if ru_tokens (rn_usage n) > rl_max_tokens (rn_limits n) then fail_budget ''max_tokens'' n
          else (None, sync_usage n))"

definition record_elapsed :: "u64 \<Rightarrow> routing_runtime \<Rightarrow> route_run_error option \<times> routing_runtime" where
  "record_elapsed ms n =
     (case require_running n of Some e \<Rightarrow> (Some e, n)
      | None \<Rightarrow>
          let n = n\<lparr>rn_usage := (rn_usage n)\<lparr>ru_elapsed_ms := ms\<rparr>\<rparr> in
          if ms > rl_wall_clock_ms (rn_limits n) then fail_budget ''wall_clock_ms'' n else (None, sync_usage n))"

definition add_telemetry_field :: "string \<Rightarrow> string \<Rightarrow> routing_runtime \<Rightarrow> route_run_error option \<times> routing_runtime" where
  "add_telemetry_field name value n =
     (if is_secret_like name \<or> is_secret_like value then (Some SecretLikeTelemetry, n)
      else (None, n\<lparr>rn_telemetry := insert_field name value (rn_telemetry n)\<rparr>))"

datatype route_run_op =
    RunStart | RunPause | RunResume | RunStop | RunComplete | RunIteration | RunToolCall u64 | RunElapsed u64 | RunField string string

fun route_run_step :: "route_run_op \<Rightarrow> routing_runtime \<Rightarrow> route_run_error option \<times> routing_runtime" where
  "route_run_step RunStart n = runtime_start n"
| "route_run_step RunPause n = runtime_transition RunRunning RunPaused n"
| "route_run_step RunResume n = runtime_transition RunPaused RunRunning n"
| "route_run_step RunStop n = runtime_stop n"
| "route_run_step RunComplete n = runtime_transition RunRunning RunCompleted n"
| "route_run_step RunIteration n = record_iteration n"
| "route_run_step (RunToolCall tokens) n = record_tool_call tokens n"
| "route_run_step (RunElapsed ms) n = record_elapsed ms n"
| "route_run_step (RunField name value) n = add_telemetry_field name value n"

section \<open>What validation accepts\<close>

lemma check_capabilities_None:
  "check_capabilities cs seen = None \<longleftrightarrow> (\<forall>c\<in>set cs. validate_name c = None) \<and> distinct cs \<and> set cs \<inter> set seen = {}"
  by (induction cs seen rule: check_capabilities.induct) (auto split: option.splits if_splits)

definition candidate_ok :: "route_candidate \<Rightarrow> bool" where
  "candidate_ok c \<longleftrightarrow> validate_name (rc_route_id c) = None \<and> validate_name (rc_model c) = None
     \<and> length (rc_capabilities c) \<le> MAX_CAPABILITIES \<and> check_capabilities (rc_capabilities c) [] = None"

lemma check_candidates_None:
  "check_candidates cs seen = None \<longleftrightarrow> (\<forall>c\<in>set cs. candidate_ok c) \<and> distinct (map rc_route_id cs)
     \<and> rc_route_id ` set cs \<inter> set seen = {}"
  by (induction cs seen rule: check_candidates.induct) (auto simp: candidate_ok_def not_less split: option.splits if_splits)

lemma validate_candidates_None:
  "validate_candidates cs = None \<longleftrightarrow> cs \<noteq> [] \<and> length cs \<le> MAX_CANDIDATES \<and> (\<forall>c\<in>set cs. candidate_ok c) \<and> distinct (map rc_route_id cs)"
  by (simp add: validate_candidates_def check_candidates_None)

lemma validate_candidates_perm: "mset cs = mset cs' \<Longrightarrow> validate_candidates cs = None \<longleftrightarrow> validate_candidates cs' = None"
  unfolding validate_candidates_None
  by (metis (no_types, lifting) mset_eq_length mset_eq_setD mset_map distinct_count_atmost_1 length_0_conv)

lemma select_route_Inr:
  "select_route r cs = Inr d \<longleftrightarrow>
   validate_routing_request r = None \<and> validate_candidates cs = None \<and> d = decide_route r (ranked_routes r cs)"
  by (auto simp: select_route_def split: option.splits)

section \<open>The order of the routes\<close>

lemma route_key_id: "route_key r c = route_key r c' \<Longrightarrow> rc_route_id c = rc_route_id c'"
  by (simp add: route_key_def)

lemma route_key_inj:
  assumes "distinct (map rc_route_id cs)"
  shows "inj_on (route_key r) (set cs)"
proof (rule inj_onI)
  fix c c' assume "c \<in> set cs" "c' \<in> set cs" "route_key r c = route_key r c'"
  with assms show "c = c'" using route_key_id [of r c c'] by (auto simp: distinct_map dest: inj_onD)
qed

lemma set_ranked_routes: "set (ranked_routes r cs) = {c \<in> set cs. route_eligible r c}"
  by (simp add: ranked_routes_def)

lemma ranked_routes_strict:
  assumes "distinct (map rc_route_id cs)"
  shows "sorted_wrt (\<lambda>c c'. route_key r c < route_key r c') (ranked_routes r cs)"
proof -
  have d: "distinct (ranked_routes r cs)" using assms by (simp add: ranked_routes_def distinct_map)
  have "inj_on (route_key r) (set (ranked_routes r cs))"
    using route_key_inj [OF assms] by (rule inj_on_subset) (auto simp: set_ranked_routes)
  then have "distinct (map (route_key r) (ranked_routes r cs))" using d by (simp add: distinct_map)
  moreover have "sorted (map (route_key r) (ranked_routes r cs))" by (simp add: ranked_routes_def)
  ultimately have "sorted_wrt (<) (map (route_key r) (ranked_routes r cs))" using strict_sorted_iff by blast
  then show ?thesis by (simp add: sorted_wrt_map)
qed

lemma ranked_routes_perm:
  assumes "distinct (map rc_route_id cs)" "mset cs = mset cs'"
  shows "ranked_routes r cs = ranked_routes r cs'"
proof -
  have "inj_on (route_key r) (set cs)" by (rule route_key_inj [OF assms(1)])
  then have "inj_on (route_key r) (set (filter (route_eligible r) cs))" by (rule inj_on_subset) auto
  moreover have "mset (filter (route_eligible r) cs) = mset (filter (route_eligible r) cs')" using assms(2) by (simp add: mset_filter)
  ultimately show ?thesis unfolding ranked_routes_def by (intro sort_key_canonical)
qed

text \<open>C16: A successful selection denies exactly when no candidate is eligible. Otherwise it takes the eligible candidate
  that comes strictly before every other eligible one in the order of cost, latency, fallback rank, preference and
  identifier; the fallback chain is empty unless fallback is allowed, and then names, in the same order and without
  repetition, the next eligible candidates, at most sixteen of them and all of them when there are no more. The decision does not
  depend on the order of the candidates.\<close>

theorem select_route_best:
  assumes sel: "select_route r cs = Inr d"
  shows "(rd_kind d = RouteDenied \<longleftrightarrow> (\<forall>c\<in>set cs. \<not> route_eligible r c))
    \<and> (rd_kind d = RouteDenied \<longrightarrow> rd_selected_route d = None \<and> rd_fallback_chain d = [])
    \<and> (rd_kind d \<noteq> RouteDenied \<longrightarrow>
        (\<exists>c others. c \<in> set cs \<and> route_eligible r c \<and> rd_selected_route d = Some (rc_route_id c) \<and> rd_selected_model d = Some (rc_model c)
          \<and> (\<forall>c'\<in>set cs. route_eligible r c' \<and> c' \<noteq> c \<longrightarrow> route_key r c < route_key r c')
          \<and> set others = {c' \<in> set cs. route_eligible r c' \<and> c' \<noteq> c} \<and> distinct (map rc_route_id (c # others))
          \<and> sorted_wrt (\<lambda>a b. route_key r a < route_key r b) others
          \<and> rd_fallback_chain d = (if rr_allow_fallback r then map rc_route_id (take 16 others) else [])))
    \<and> (\<forall>cs'. mset cs' = mset cs \<longrightarrow> select_route r cs' = Inr d)"
proof -
  from sel have ok: "validate_routing_request r = None" "validate_candidates cs = None" and d: "d = decide_route r (ranked_routes r cs)"
    unfolding select_route_Inr by auto
  then have dist: "distinct (map rc_route_id cs)" by (simp add: validate_candidates_None)
  note set = set_ranked_routes [of r cs] and strict = ranked_routes_strict [OF dist, of r]
  have "select_route r cs' = Inr d" if "mset cs' = mset cs" for cs'
    using ok that ranked_routes_perm [OF dist, of cs'] validate_candidates_perm [OF that] d unfolding select_route_Inr by simp
  moreover have "(\<forall>c\<in>set cs. \<not> route_eligible r c) \<longleftrightarrow> ranked_routes r cs = []"
    unfolding set_empty [symmetric, of "ranked_routes r cs"] set by auto
  moreover have "rd_kind d = RouteDenied \<longleftrightarrow> ranked_routes r cs = []" unfolding d decide_route_def by (auto simp: Let_def split: list.split)
  moreover have "rd_selected_route d = None \<and> rd_fallback_chain d = []" if "ranked_routes r cs = []"
    using that unfolding d decide_route_def by simp
  moreover have "\<exists>c others. c \<in> set cs \<and> route_eligible r c \<and> rd_selected_route d = Some (rc_route_id c) \<and> rd_selected_model d = Some (rc_model c)
      \<and> (\<forall>c'\<in>set cs. route_eligible r c' \<and> c' \<noteq> c \<longrightarrow> route_key r c < route_key r c')
      \<and> set others = {c' \<in> set cs. route_eligible r c' \<and> c' \<noteq> c} \<and> distinct (map rc_route_id (c # others))
      \<and> sorted_wrt (\<lambda>a b. route_key r a < route_key r b) others
      \<and> rd_fallback_chain d = (if rr_allow_fallback r then map rc_route_id (take 16 others) else [])" if "ranked_routes r cs \<noteq> []"
  proof -
    from that obtain c others where ranked: "ranked_routes r cs = c # others" by (cases "ranked_routes r cs") auto
    have ids: "distinct (map rc_route_id (c # others))"
      using dist unfolding ranked [symmetric] by (auto simp: ranked_routes_def distinct_map inj_on_def)
    then have "c \<notin> set others" by auto
    then have "set others = {c' \<in> set cs. route_eligible r c' \<and> c' \<noteq> c}" using set unfolding ranked by auto
    then show ?thesis using set strict ids unfolding ranked d decide_route_def MAX_FALLBACKS_def
      by (intro exI [of _ c] exI [of _ others]) (auto simp: Let_def)
  qed
  ultimately show ?thesis by blast
qed

definition demo_route :: "string \<Rightarrow> u64 \<Rightarrow> privacy_level \<Rightarrow> route_candidate" where
  "demo_route i cost p = \<lparr>rc_route_id = i, rc_model = ''m'', rc_capabilities = [''chat''], rc_cost = cost, rc_latency = 10, rc_privacy = p,
     rc_available = True, rc_fallback_rank = 0\<rparr>"

definition demo_routing :: "privacy_level \<Rightarrow> routing_request" where
  "demo_routing p = \<lparr>rr_required_capabilities = [''chat''], rr_max_cost = None, rr_max_latency = None, rr_required_privacy = p,
     rr_allow_fallback = True, rr_preferred_route = None\<rparr>"

theorem select_route_best_witness:
  "\<exists>d. select_route (demo_routing PrivacyInternal) [demo_route ''a'' 5 PrivacySensitive, demo_route ''b'' 3 PrivacyInternal, demo_route ''c'' 1 PrivacyPublic] = Inr d
    \<and> rd_selected_route d = Some ''b'' \<and> rd_fallback_chain d = [''a'']
    \<and> select_route (demo_routing PrivacyInternal) [demo_route ''c'' 1 PrivacyPublic, demo_route ''b'' 3 PrivacyInternal, demo_route ''a'' 5 PrivacySensitive] = Inr d"
proof -
  let ?r = "demo_routing PrivacyInternal"
  let ?cs = "[demo_route ''a'' 5 PrivacySensitive, demo_route ''b'' 3 PrivacyInternal, demo_route ''c'' 1 PrivacyPublic]"
  have "case select_route ?r ?cs of Inr d \<Rightarrow> rd_selected_route d = Some ''b'' \<and> rd_fallback_chain d = [''a''] | Inl e \<Rightarrow> False" by code_simp
  then obtain d where d: "select_route ?r ?cs = Inr d" "rd_selected_route d = Some ''b''" "rd_fallback_chain d = [''a'']"
    by (auto split: sum.splits)
  have "mset [demo_route ''c'' 1 PrivacyPublic, demo_route ''b'' 3 PrivacyInternal, demo_route ''a'' 5 PrivacySensitive] = mset ?cs" by simp
  then show ?thesis using select_route_best [OF d(1)] d by blast
qed

section \<open>Runs\<close>

text \<open>Cutting a text does not make it look like a secret.\<close>

lemma take_chars_prefix: "\<exists>rest. s = take_chars n s @ rest"
proof (induction n s rule: take_chars.induct)
  case (2 n c cs)
  then show ?case by (cases "is_continuation c"; cases n) auto
qed simp

lemma is_prefix_of_append: "is_prefix_of p s \<Longrightarrow> is_prefix_of p (s @ t)"
  by (induction p s rule: is_prefix_of.induct) auto

lemma str_contains_append: "str_contains s pat \<Longrightarrow> str_contains (s @ t) pat"
proof (induction s pat rule: str_contains.induct)
  case (1 pat)
  then show ?case by (cases t) auto
next
  case (2 x xs pat)
  then show ?case using is_prefix_of_append [of pat "x # xs" t] by auto
qed

lemma is_secret_like_cut: "is_secret_like (take_chars n s) \<Longrightarrow> is_secret_like s"
proof -
  obtain rest where rest: "s = take_chars n s @ rest" using take_chars_prefix by blast
  show "is_secret_like (take_chars n s) \<Longrightarrow> is_secret_like s"
    by (subst rest) (auto simp: is_secret_like_def list_ex_iff to_ascii_lowercase_def intro: str_contains_append)
qed

definition usage_within :: "route_limits \<Rightarrow> route_usage \<Rightarrow> bool" where
  "usage_within l u \<longleftrightarrow> ru_iterations u \<le> rl_max_iterations l \<and> ru_tool_calls u \<le> rl_max_tool_calls l
     \<and> ru_tokens u \<le> rl_max_tokens l \<and> ru_elapsed_ms u \<le> rl_wall_clock_ms l"

definition fields_ok :: "(string, string) btree \<Rightarrow> bool" where
  "fields_ok fs \<longleftrightarrow> bt_ok fs \<and> length fs \<le> 24 \<and> (\<forall>(k, v)\<in>set fs. k \<noteq> [] \<and> \<not> is_secret_like k \<and> \<not> is_secret_like v)"

definition runtime_ok :: "route_limits \<Rightarrow> routing_decision \<Rightarrow> routing_runtime \<Rightarrow> bool" where
  "runtime_ok l d n \<longleftrightarrow> rn_limits n = l \<and> rn_decision n = d \<and> (rn_state n \<noteq> RunFailed \<longrightarrow> usage_within l (rn_usage n))
     \<and> rt_state (rn_telemetry n) = rn_state n \<and> rt_usage (rn_telemetry n) = rn_usage n \<and> fields_ok (rt_fields (rn_telemetry n))"

lemma length_bt_insert: "length (bt_insert k v m) \<le> Suc (length m)"
  by (induction k v m rule: bt_insert.induct) auto

lemma set_bt_insert: "set (bt_insert k v m) \<subseteq> insert (k, v) (set m)"
  by (induction k v m rule: bt_insert.induct) auto

lemma insert_field_ok:
  assumes "fields_ok (rt_fields t)" "\<not> is_secret_like name" "\<not> is_secret_like value"
  shows "fields_ok (rt_fields (insert_field name value t))"
proof (cases "length (rt_fields t) \<ge> 24 \<or> redact_name name = []")
  case False
  have "\<not> is_secret_like (redact_name name)" "\<not> is_secret_like (bound_value value)"
    using assms is_secret_like_cut by (auto simp: redact_name_def bound_value_def)
  then show ?thesis using assms(1) False length_bt_insert [of "redact_name name" "bound_value value" "rt_fields t"]
      set_bt_insert [of "redact_name name" "bound_value value" "rt_fields t"]
    by (auto simp: insert_field_def fields_ok_def MAX_TELEMETRY_FIELDS_def bt_ok_insert)
qed (use assms in \<open>auto simp: insert_field_def MAX_TELEMETRY_FIELDS_def\<close>)

lemma insert_field_other [simp]: "rt_state (insert_field k v t) = rt_state t" "rt_usage (insert_field k v t) = rt_usage t"
  by (simp_all add: insert_field_def Let_def)

lemmas route_run_defs = runtime_start_def runtime_transition_def runtime_stop_def record_iteration_def record_tool_call_def
  record_elapsed_def add_telemetry_field_def require_running_def fail_budget_def set_run_state_def sync_usage_def

lemma route_run_step_ok: "runtime_ok l d n \<Longrightarrow> runtime_ok l d (snd (route_run_step op n))"
  by (cases op) (auto simp: runtime_ok_def route_run_defs usage_within_def Let_def not_less insert_field_ok
      split: if_splits option.splits route_run_state.splits)

interpretation routed: op_invariant route_run_step "runtime_ok l d" for l d
  by unfold_locales (rule route_run_step_ok)

fun terminal_run_state :: "route_run_state \<Rightarrow> bool" where
  "terminal_run_state RunStopped = True"
| "terminal_run_state RunCompleted = True"
| "terminal_run_state RunFailed = True"
| "terminal_run_state _ = False"

definition run_closed :: "route_run_state \<Rightarrow> route_usage \<Rightarrow> routing_runtime \<Rightarrow> bool" where
  "run_closed st u n \<longleftrightarrow> terminal_run_state st \<and> rn_state n = st \<and> rn_usage n = u"

lemma route_run_step_closed: "run_closed st u n \<Longrightarrow> run_closed st u (snd (route_run_step op n))"
  by (cases op; cases st) (auto simp: run_closed_def route_run_defs)

interpretation closed_run: op_invariant route_run_step "run_closed st u" for st u
  by unfold_locales (rule route_run_step_closed)

lemma runtime_plan_Inr:
  assumes "runtime_plan mode r cs l = Inr n"
  shows "runtime_ok l (rn_decision n) n" "route_limits_validate l = None" "rn_state n = RunPlanned"
  using assms by (auto simp: runtime_plan_def runtime_ok_def usage_within_def usage_zero_def telemetry_new_def fields_ok_def bt_ok_Nil
      split: option.splits sum.splits)


definition demo_limits :: route_limits where
  "demo_limits = \<lparr>rl_max_iterations = 1, rl_max_tool_calls = 2, rl_max_tokens = 10, rl_wall_clock_ms = 100\<rparr>"


section \<open>Where the code departs from its documentation\<close>

text \<open>A plan succeeds without a route when no candidate is eligible, and the run can be started.\<close>

theorem plan_without_route:
  "\<exists>n. runtime_plan Balanced (demo_routing PrivacyRestricted) [demo_route ''a'' 5 PrivacyPublic] demo_limits = Inr n
    \<and> rd_kind (rn_decision n) = RouteDenied \<and> rd_selected_route (rn_decision n) = None \<and> fst (runtime_start n) = None"
proof -
  have "case runtime_plan Balanced (demo_routing PrivacyRestricted) [demo_route ''a'' 5 PrivacyPublic] demo_limits of
      Inr n \<Rightarrow> rd_kind (rn_decision n) = RouteDenied \<and> rd_selected_route (rn_decision n) = None \<and> fst (runtime_start n) = None
    | Inl e \<Rightarrow> False" by code_simp
  then show ?thesis by (auto split: sum.splits)
qed

text \<open>The check of names has fewer markers than that of the fields of the telemetry: a route whose identifier a field could not
  have is shown in it.\<close>

theorem telemetry_route_unchecked:
  "is_secret_like ''password-x''
   \<and> (case runtime_plan Balanced (demo_routing PrivacyPublic) [demo_route ''password-x'' 5 PrivacyPublic] demo_limits of
        Inr n \<Rightarrow> rt_route (rn_telemetry n) = Some ''password-x'' | Inl e \<Rightarrow> False)"
  by code_simp

text \<open>The mode without a network goes by names: a route of the cloud whose name has the letters of \<open>local\<close> in it passes.\<close>

theorem offline_by_name: "mode_admits OfflineMode (demo_route ''cloud-relocal'' 5 PrivacyPublic)"
  by code_simp

end
