(* ===== verification/Route_Snapshot.thy ===== *)
theory Route_Snapshot
  imports Model_Routing
begin

text \<open>
  \<open>crates/model-gateway/src/provider_contract.rs\<close>: the snapshot of candidates, the health overlay of a run with its circuit
  breaker, the retry configuration, the selection over a snapshot and its cache; and from \<open>lib.rs\<close> the loop that dispatches a
  request along the selected routes. The policy version and hashes, the preference and the budget identifier of a snapshot and the
  capability for images are left out: neither selection nor dispatch reads them. The evaluation catalogue enters as the answer of \<open>small_route_allowed\<close> for the class of
  simple tasks, which compares floating point scores; the jitter of a delay is an argument for the same reason. The key
  of the cache (a SHA-256 digest), the LRU map and what happens in one attempt at a provider are arguments.
\<close>

section \<open>Data\<close>

record full_routing_request = routing_request +
  rr_task_class :: "string option"
  rr_offline :: bool
  rr_allow_cloud :: bool
  rr_estimated_input_tokens :: u32

datatype execution_class = ExecLocal | ExecCloud

datatype route_health = HealthUnknown | HealthReady | HealthUnavailable | HealthStale | HealthDegraded

datatype circuit_state = CircuitClosed | CircuitOpen | CircuitCooldown

datatype failure_category =
    FailTimeout | FailConnectionRefused | FailServerError | FailMalformedResponse | FailRateLimited
  | FailPolicyDenied | FailInvalidRequest | FailCancelled

fun opens_circuit :: "failure_category \<Rightarrow> bool" where
  "opens_circuit FailTimeout = True"
| "opens_circuit FailConnectionRefused = True"
| "opens_circuit FailServerError = True"
| "opens_circuit FailMalformedResponse = True"
| "opens_circuit _ = False"

definition triggers_cooldown :: "failure_category \<Rightarrow> bool" where
  "triggers_cooldown c \<longleftrightarrow> c = FailRateLimited"

record candidate_health =
  ch_status :: route_health
  ch_observed_at :: u64
  ch_ttl_ms :: u64
  ch_circuit_state :: circuit_state
  ch_last_failure :: "failure_category option"

definition is_fresh_at :: "candidate_health \<Rightarrow> u64 \<Rightarrow> bool" where
  "is_fresh_at h now \<longleftrightarrow> ch_status h = HealthUnknown \<or> now < sat_add (ch_observed_at h) (ch_ttl_ms h)"

record capability_metadata =
  cm_schema_version :: string
  cm_provider_version :: string
  cm_capability_epoch :: u64
  cm_tool_calling :: bool
  cm_structured_output :: bool
  cm_context_limit :: "u32 option"
  cm_streaming :: bool
  cm_vision :: bool
  cm_execution_class :: execution_class
  cm_privacy_boundary :: privacy_level

record candidate_entry =
  ce_route_id :: string
  ce_model :: string
  ce_capabilities :: capability_metadata
  ce_initial_health :: candidate_health
  ce_cost :: u64
  ce_latency :: u32
  ce_privacy :: privacy_level
  ce_fallback_rank :: "16 word"

record route_policy_snapshot =
  rs_schema_version :: string
  rs_run_id :: string
  rs_candidates :: "candidate_entry list"
  rs_created_at :: u64

definition SNAPSHOT_SCHEMA_VERSION :: string where "SNAPSHOT_SCHEMA_VERSION = ''route-policy-snapshot-v1''"
definition MAX_SNAPSHOT_CANDIDATES :: nat where "MAX_SNAPSHOT_CANDIDATES = 64"
definition SNAPSHOT_MAX_ID_BYTES :: nat where "SNAPSHOT_MAX_ID_BYTES = 128"
definition MAX_TRACE_VALUE_BYTES :: nat where "MAX_TRACE_VALUE_BYTES = 512"

datatype snapshot_error =
    SnapTooManyCandidates nat | SnapInvalidRouteId string | SnapInvalidModelName string | SnapDuplicateRouteId string
  | SnapUnsupportedSchema string | SnapMissingField string

section \<open>The overlay of a run\<close>

record circuit_entry =
  cie_state :: circuit_state
  cie_opened_at :: "u64 option"
  cie_failure_count :: u32
  cie_last_failure :: "failure_category option"
  cie_cooldown_until :: "u64 option"

definition circuit_new :: circuit_entry where
  "circuit_new = \<lparr>cie_state = CircuitClosed, cie_opened_at = None, cie_failure_count = 0, cie_last_failure = None, cie_cooldown_until = None\<rparr>"

record route_failures =
  rf_by_category :: "failure_category \<rightharpoonup> u32"
  rf_consecutive :: u32
  rf_last_failure_at :: "u64 option"

record exclusion_reason =
  xr_reason :: string
  xr_attempt_id :: u32
  xr_generation :: u64

record run_health_overlay =
  ov_run_id :: string
  ov_generation :: u64
  ov_circuits :: "(string, circuit_entry) btree"
  ov_failures :: "(string, route_failures) btree"
  ov_excluded :: "(string, exclusion_reason) btree"
  ov_opened_during_run :: "u64 option"

record retry_config =
  rcf_max_attempts :: u32
  rcf_max_attempts_per_route :: u32
  rcf_initial_backoff_ms :: u64
  rcf_max_backoff_ms :: u64
  rcf_max_elapsed_ms :: u64
  rcf_failure_threshold :: u32
  rcf_rate_limit_threshold :: u32
  rcf_cooldown_ms :: u64

definition overlay_new :: "string \<Rightarrow> run_health_overlay" where
  "overlay_new run_id = \<lparr>ov_run_id = run_id, ov_generation = 0, ov_circuits = [], ov_failures = [], ov_excluded = [],
     ov_opened_during_run = None\<rparr>"

definition bound_string :: "string \<Rightarrow> string" where
  "bound_string value = take_chars MAX_TRACE_VALUE_BYTES value"

definition exclude_route :: "string \<Rightarrow> u32 \<Rightarrow> string \<Rightarrow> run_health_overlay \<Rightarrow> run_health_overlay" where
  "exclude_route route_id attempt_id reason ov =
     (let gen = ov_generation ov + 1 in
      ov\<lparr>ov_generation := gen,
         ov_excluded := bt_insert route_id \<lparr>xr_reason = bound_string reason, xr_attempt_id = attempt_id, xr_generation = gen\<rparr> (ov_excluded ov)\<rparr>)"

fun debug_category :: "failure_category \<Rightarrow> string" where
  "debug_category FailTimeout = ''Timeout''"
| "debug_category FailConnectionRefused = ''ConnectionRefused''"
| "debug_category FailServerError = ''ServerError''"
| "debug_category FailMalformedResponse = ''MalformedResponse''"
| "debug_category FailRateLimited = ''RateLimited''"
| "debug_category FailPolicyDenied = ''PolicyDenied''"
| "debug_category FailInvalidRequest = ''InvalidRequest''"
| "debug_category FailCancelled = ''Cancelled''"

definition failures_default :: route_failures where
  "failures_default = \<lparr>rf_by_category = Map.empty, rf_consecutive = 0, rf_last_failure_at = None\<rparr>"

definition count_failure :: "failure_category \<Rightarrow> u64 \<Rightarrow> route_failures \<Rightarrow> route_failures" where
  "count_failure category now f =
     f\<lparr>rf_by_category := (rf_by_category f)(category \<mapsto> (case rf_by_category f category of Some n \<Rightarrow> n | None \<Rightarrow> 0) + 1),
       rf_consecutive := sat_add (rf_consecutive f) 1, rf_last_failure_at := Some now\<rparr>"

definition get_or :: "'v \<Rightarrow> ('k, 'v) btree \<Rightarrow> 'k \<Rightarrow> 'v" where
  "get_or d m k = (case bt_get m k of Some v \<Rightarrow> v | None \<Rightarrow> d)"

definition record_failure_at ::
    "string \<Rightarrow> u32 \<Rightarrow> failure_category \<Rightarrow> retry_config \<Rightarrow> u64 \<Rightarrow> run_health_overlay \<Rightarrow> u64 \<times> run_health_overlay" where
  "record_failure_at route_id attempt_id category config now ov =
     (let f = count_failure category now (get_or failures_default (ov_failures ov) route_id);
          ov = ov\<lparr>ov_failures := bt_insert route_id f (ov_failures ov)\<rparr>;
          limited = (case rf_by_category f FailRateLimited of Some n \<Rightarrow> n | None \<Rightarrow> 0);
          circuit = get_or circuit_new (ov_circuits ov) route_id
      in if triggers_cooldown category \<and> limited \<ge> rcf_rate_limit_threshold config then
           let entry = circuit\<lparr>cie_state := CircuitCooldown, cie_cooldown_until := Some (now + rcf_cooldown_ms config),
                 cie_last_failure := Some category\<rparr>;
               ov = ov\<lparr>ov_circuits := bt_insert route_id entry (ov_circuits ov), ov_generation := ov_generation ov + 1\<rparr>
           in (ov_generation ov, ov)
         else if opens_circuit category \<and> rf_consecutive f \<ge> rcf_failure_threshold config then
           let entry = circuit\<lparr>cie_state := CircuitOpen, cie_opened_at := Some now, cie_failure_count := rf_consecutive f,
                 cie_last_failure := Some category\<rparr>;
               ov = ov\<lparr>ov_circuits := bt_insert route_id entry (ov_circuits ov), ov_opened_during_run := Some now\<rparr>;
               ov = exclude_route route_id attempt_id (''circuit_opened:'' @ debug_category category) ov;
               ov = ov\<lparr>ov_generation := ov_generation ov + 1\<rparr>
           in (ov_generation ov, ov)
         else (ov_generation ov, ov))"

definition is_excluded :: "run_health_overlay \<Rightarrow> string \<Rightarrow> bool" where
  "is_excluded ov route_id \<longleftrightarrow> bt_get (ov_excluded ov) route_id \<noteq> None"

definition get_circuit_state :: "run_health_overlay \<Rightarrow> string \<Rightarrow> circuit_state" where
  "get_circuit_state ov route_id = (case bt_get (ov_circuits ov) route_id of Some e \<Rightarrow> cie_state e | None \<Rightarrow> CircuitClosed)"

definition is_cooldown_expired_at :: "run_health_overlay \<Rightarrow> string \<Rightarrow> u64 \<Rightarrow> bool" where
  "is_cooldown_expired_at ov route_id now =
     (case bt_get (ov_circuits ov) route_id of
        Some e \<Rightarrow> if cie_state e = CircuitCooldown
                  then (case cie_cooldown_until e of None \<Rightarrow> True | Some until \<Rightarrow> now \<ge> until) else True
      | None \<Rightarrow> True)"

definition record_success :: "string \<Rightarrow> run_health_overlay \<Rightarrow> run_health_overlay" where
  "record_success route_id ov =
     (case bt_get (ov_failures ov) route_id of None \<Rightarrow> ov
      | Some f \<Rightarrow> ov\<lparr>ov_failures := bt_insert route_id (f\<lparr>rf_consecutive := 0\<rparr>) (ov_failures ov)\<rparr>)"

section \<open>Retries\<close>

definition retry_config_default :: retry_config where
  "retry_config_default = \<lparr>rcf_max_attempts = 3, rcf_max_attempts_per_route = 2, rcf_initial_backoff_ms = 250, rcf_max_backoff_ms = 4000,
     rcf_max_elapsed_ms = 15000, rcf_failure_threshold = 2, rcf_rate_limit_threshold = 3, rcf_cooldown_ms = 30000\<rparr>"

datatype retry_config_error =
    InvalidMaxAttempts | InvalidMaxAttemptsPerRoute | InvalidBackoff | InvalidJitter | InvalidMaxElapsed | InvalidThreshold | InvalidCooldown

text \<open>\<open>jitter_ok\<close> says that the jitter ratio, a floating point number, is between zero and one.\<close>

definition retry_config_validate :: "bool \<Rightarrow> retry_config \<Rightarrow> retry_config_error option" where
  "retry_config_validate jitter_ok c =
     (if rcf_max_attempts c = 0 \<or> rcf_max_attempts c > 128 then Some InvalidMaxAttempts
      else if rcf_max_attempts_per_route c = 0 \<or> rcf_max_attempts_per_route c > 64 then Some InvalidMaxAttemptsPerRoute
      else if rcf_initial_backoff_ms c = 0 \<or> rcf_initial_backoff_ms c > 10000 then Some InvalidBackoff
      else if rcf_max_backoff_ms c < rcf_initial_backoff_ms c \<or> rcf_max_backoff_ms c > 60000 then Some InvalidBackoff
      else if \<not> jitter_ok then Some InvalidJitter
      else if rcf_max_elapsed_ms c = 0 \<or> rcf_max_elapsed_ms c > 300000 then Some InvalidMaxElapsed
      else if rcf_failure_threshold c = 0 \<or> rcf_failure_threshold c > 10 then Some InvalidThreshold
      else if rcf_rate_limit_threshold c = 0 \<or> rcf_rate_limit_threshold c > 10 then Some InvalidThreshold
      else if rcf_cooldown_ms c < 1000 \<or> rcf_cooldown_ms c > 300000 then Some InvalidCooldown
      else None)"

text \<open>\<open>2.saturating_pow(e)\<close> for an exponent of at most 63 does not saturate. \<open>jitter\<close> is \<open>(capped as f64 * jitter_ratio) as u64\<close>
  and \<open>digest\<close> the first four bytes of the hash of the seed.\<close>

definition route_backoff :: "(u64 \<Rightarrow> u64) \<Rightarrow> (string \<Rightarrow> u32) \<Rightarrow> retry_config \<Rightarrow> u32 \<Rightarrow> string \<Rightarrow> string \<Rightarrow> u64" where
  "route_backoff jitter digest config attempt run_id route_id =
     (let exponent = min (unat (sat_sub attempt 1)) 63;
          capped = min (sat_mul (rcf_initial_backoff_ms config) (2 ^ exponent)) (rcf_max_backoff_ms config);
          hash = digest (run_id @ ''|'' @ route_id @ ''|'' @ show_word attempt);
          range = jitter capped;
          j = (if range > 0 then ucast hash mod range else 0)
      in min (sat_add capped j) (rcf_max_backoff_ms config))"

section \<open>Validation of a snapshot\<close>

definition validate_identifier :: "(string \<Rightarrow> snapshot_error) \<Rightarrow> string \<Rightarrow> string \<Rightarrow> snapshot_error option" where
  "validate_identifier error field value =
     (if value = [] \<or> length value > SNAPSHOT_MAX_ID_BYTES then Some (error (field @ '' is empty or too long''))
      else if list_ex char_is_control (utf8_chars value) then Some (error (field @ '' contains control characters''))
      else if list_ex (\<lambda>marker. str_contains (to_ascii_lowercase value) marker) NAME_MARKERS
      then Some (error (field @ '' contains secret-like marker''))
      else None)"

fun check_entries :: "candidate_entry list \<Rightarrow> string list \<Rightarrow> snapshot_error option" where
  "check_entries [] seen = None"
| "check_entries (c # cs) seen =
     (case validate_identifier SnapInvalidRouteId ''route_id'' (ce_route_id c) of Some e \<Rightarrow> Some e | None \<Rightarrow>
      case validate_identifier SnapInvalidModelName ''model'' (ce_model c) of Some e \<Rightarrow> Some e | None \<Rightarrow>
      if ce_route_id c \<in> set seen then Some (SnapDuplicateRouteId (ce_route_id c))
      else if cm_schema_version (ce_capabilities c) = [] then Some (SnapMissingField ''capabilities.schema_version'')
      else check_entries cs (ce_route_id c # seen))"

definition validate_entries :: "candidate_entry list \<Rightarrow> snapshot_error option" where
  "validate_entries cs =
     (if length cs > MAX_SNAPSHOT_CANDIDATES then Some (SnapTooManyCandidates (length cs)) else check_entries cs [])"

definition snapshot_new_at :: "string \<Rightarrow> candidate_entry list \<Rightarrow> u64 \<Rightarrow> snapshot_error + route_policy_snapshot" where
  "snapshot_new_at run_id candidates created_at =
     (case validate_entries candidates of Some e \<Rightarrow> Inl e
      | None \<Rightarrow> Inr \<lparr>rs_schema_version = SNAPSHOT_SCHEMA_VERSION, rs_run_id = run_id, rs_candidates = candidates, rs_created_at = created_at\<rparr>)"

definition validate_schema :: "route_policy_snapshot \<Rightarrow> snapshot_error option" where
  "validate_schema s =
     (if rs_schema_version s \<noteq> SNAPSHOT_SCHEMA_VERSION then Some (SnapUnsupportedSchema (rs_schema_version s)) else None)"

section \<open>Selection over a snapshot\<close>

type_synonym route_gate = "(string \<Rightarrow> string \<Rightarrow> u64 \<Rightarrow> bool) option"

record snapshot_candidate_decision =
  sc_route_id :: string
  sc_capability_epoch :: u64
  sc_health :: route_health
  sc_circuit :: circuit_state
  sc_reject_reason :: "string option"

record snapshot_route_decision =
  sd_selected_route :: "string option"
  sd_fallback_chain :: "string list"
  sd_candidates :: "snapshot_candidate_decision list"
  sd_reason_code :: string

definition candidate_supports :: "candidate_entry \<Rightarrow> string \<Rightarrow> bool" where
  "candidate_supports c capability =
     (if capability = ''chat'' then True
      else if capability = ''tools'' \<or> capability = ''tool_calling'' then cm_tool_calling (ce_capabilities c)
      else if capability = ''structured_output'' then cm_structured_output (ce_capabilities c)
      else if capability = ''streaming'' then cm_streaming (ce_capabilities c)
      else if capability = ''vision'' then cm_vision (ce_capabilities c)
      else False)"

definition health_rank :: "candidate_entry \<Rightarrow> u64 \<Rightarrow> nat" where
  "health_rank c now =
     (let h = ce_initial_health c in
      if ch_status h \<noteq> HealthUnknown \<and> \<not> is_fresh_at h now then 3
      else case ch_status h of HealthReady \<Rightarrow> 0 | HealthDegraded \<Rightarrow> 1 | HealthUnknown \<Rightarrow> 2 | HealthStale \<Rightarrow> 3 | HealthUnavailable \<Rightarrow> 4)"

definition preference_rank :: "full_routing_request \<Rightarrow> string \<Rightarrow> nat" where
  "preference_rank r route_id = (if rr_preferred_route r = Some route_id then 0 else 1)"

definition effective_health :: "candidate_entry \<Rightarrow> u64 \<Rightarrow> route_health" where
  "effective_health c now =
     (let h = ce_initial_health c in
      if ch_status h \<noteq> HealthUnknown \<and> \<not> is_fresh_at h now then HealthStale else ch_status h)"

definition unknown_class :: "full_routing_request \<Rightarrow> bool" where
  "unknown_class r = (case rr_task_class r of None \<Rightarrow> True | Some c \<Rightarrow> c \<noteq> ''simple'' \<and> c \<noteq> ''complex'')"

definition gate_ok :: "route_policy_snapshot \<Rightarrow> route_gate \<Rightarrow> candidate_entry \<Rightarrow> u64 \<Rightarrow> bool" where
  "gate_ok s catalog c now =
     (case List.find (\<lambda>other. cm_execution_class (ce_capabilities other) = ExecCloud) (rs_candidates s) of
        None \<Rightarrow> False
      | Some large \<Rightarrow> (case catalog of None \<Rightarrow> False | Some allowed \<Rightarrow> allowed (ce_route_id large) (ce_route_id c) now))"

definition policy_reject ::
    "full_routing_request \<Rightarrow> route_policy_snapshot \<Rightarrow> route_gate \<Rightarrow> u64 \<Rightarrow> candidate_entry \<Rightarrow> string option" where
  "policy_reject r s catalog now c =
     (if ce_privacy c < rr_required_privacy r then Some ''privacy_violation''
      else if rr_offline r \<and> cm_execution_class (ce_capabilities c) \<noteq> ExecLocal then Some ''offline_mode''
      else if unknown_class r \<and> cm_execution_class (ce_capabilities c) = ExecCloud
        \<or> \<not> rr_allow_cloud r \<and> cm_execution_class (ce_capabilities c) \<noteq> ExecLocal then Some ''classification_incomplete''
      else if list_ex (\<lambda>cap. \<not> candidate_supports c cap) (rr_required_capabilities r) then Some ''capability_missing''
      else if (case cm_context_limit (ce_capabilities c) of Some limit \<Rightarrow> rr_estimated_input_tokens r > limit | None \<Rightarrow> False)
      then Some ''context_limit_exceeded''
      else if (case rr_max_cost r of Some limit \<Rightarrow> ce_cost c > limit | None \<Rightarrow> False) then Some ''budget_exceeded''
      else if (case rr_max_latency r of Some limit \<Rightarrow> ce_latency c > limit | None \<Rightarrow> False) then Some ''latency_exceeded''
      else if cm_execution_class (ce_capabilities c) = ExecLocal \<and> rr_task_class r = Some ''simple'' \<and> \<not> gate_ok s catalog c now
      then Some ''gate_unavailable''
      else None)"

definition route_reject ::
    "full_routing_request \<Rightarrow> route_policy_snapshot \<Rightarrow> run_health_overlay \<Rightarrow> route_gate \<Rightarrow> u64 \<Rightarrow> candidate_entry \<Rightarrow> string option" where
  "route_reject r s ov catalog now c =
     (case policy_reject r s catalog now c of Some why \<Rightarrow> Some why
      | None \<Rightarrow>
          if is_excluded ov (ce_route_id c) then Some ''route_attempts_exhausted''
          else if get_circuit_state ov (ce_route_id c) \<noteq> CircuitClosed then Some ''circuit_open''
          else if effective_health c now = HealthUnavailable then Some ''health_unavailable''
          else if effective_health c now = HealthStale then Some ''health_stale''
          else None)"

definition snapshot_key :: "full_routing_request \<Rightarrow> u64 \<Rightarrow> candidate_entry \<Rightarrow> nat \<times> u32 \<times> u64 \<times> nat \<times> string" where
  "snapshot_key r now c = (health_rank c now, ce_latency c, ce_cost c, preference_rank r (ce_route_id c), ce_route_id c)"

definition ranked_candidates ::
    "full_routing_request \<Rightarrow> route_policy_snapshot \<Rightarrow> run_health_overlay \<Rightarrow> route_gate \<Rightarrow> u64 \<Rightarrow> candidate_entry list" where
  "ranked_candidates r s ov catalog now =
     sort_key (snapshot_key r now) (filter (\<lambda>c. route_reject r s ov catalog now c = None) (rs_candidates s))"

definition select_route_snapshot ::
    "full_routing_request \<Rightarrow> route_policy_snapshot \<Rightarrow> run_health_overlay \<Rightarrow> route_gate \<Rightarrow> u32 \<Rightarrow> u64 \<Rightarrow> snapshot_error + snapshot_route_decision" where
  "select_route_snapshot r s ov catalog attempt_id now =
     (case validate_schema s of Some e \<Rightarrow> Inl e
      | None \<Rightarrow>
          if rs_run_id s = [] \<or> attempt_id > 1000000 then Inl (SnapMissingField ''run_id/attempt_id'')
          else
            let eligible = ranked_candidates r s ov catalog now;
                selected = (case eligible of [] \<Rightarrow> None | c # _ \<Rightarrow> Some (ce_route_id c))
            in Inr \<lparr>sd_selected_route = selected,
                 sd_fallback_chain = map ce_route_id (take 16 (drop 1 eligible)),
                 sd_candidates = map (\<lambda>c. \<lparr>sc_route_id = ce_route_id c, sc_capability_epoch = cm_capability_epoch (ce_capabilities c),
                   sc_health = effective_health c now, sc_circuit = get_circuit_state ov (ce_route_id c),
                   sc_reject_reason = route_reject r s ov catalog now c\<rparr>) (rs_candidates s),
                 sd_reason_code = (if rs_candidates s = [] then ''no_routes_configured''
                   else if selected = None then ''all_routes_excluded''
                   else if attempt_id > 0 then ''fallback_selection'' else ''policy_selection'')\<rparr>)"

text \<open>\<open>select_route_snapshot_cached\<close>, with the key and the operations of the LRU map as arguments.\<close>

definition select_route_snapshot_cached ::
    "(full_routing_request \<Rightarrow> route_policy_snapshot \<Rightarrow> string \<Rightarrow> u64 \<Rightarrow> route_gate \<Rightarrow> u32 \<Rightarrow> u64 \<Rightarrow> 'k option)
     \<Rightarrow> ('c \<Rightarrow> 'k \<Rightarrow> snapshot_route_decision option \<times> 'c) \<Rightarrow> ('c \<Rightarrow> 'k \<Rightarrow> snapshot_route_decision \<Rightarrow> 'c)
     \<Rightarrow> full_routing_request \<Rightarrow> route_policy_snapshot \<Rightarrow> run_health_overlay \<Rightarrow> route_gate \<Rightarrow> u32 \<Rightarrow> u64 \<Rightarrow> 'c
     \<Rightarrow> (snapshot_error + snapshot_route_decision) \<times> 'c" where
  "select_route_snapshot_cached key get put r s ov catalog attempt_id now cache =
     (case key r s (ov_run_id ov) (ov_generation ov) catalog attempt_id now of
        None \<Rightarrow> (select_route_snapshot r s ov catalog attempt_id now, cache)
      | Some k \<Rightarrow>
          case get cache k of
            (Some decision, cache) \<Rightarrow> (Inr decision, cache)
          | (None, cache) \<Rightarrow>
              (case select_route_snapshot r s ov catalog attempt_id now of
                 Inl e \<Rightarrow> (Inl e, cache)
               | Inr decision \<Rightarrow> (Inr decision, put cache k decision)))"

section \<open>Dispatch\<close>

datatype provider_error =
    ConfigError string | HttpError string | ApiError string | StreamError string | ImagePreflightRejected | ImageCapabilityStale

fun classify_failure :: "provider_error \<Rightarrow> failure_category" where
  "classify_failure (ConfigError m) = FailInvalidRequest"
| "classify_failure ImagePreflightRejected = FailInvalidRequest"
| "classify_failure ImageCapabilityStale = FailInvalidRequest"
| "classify_failure (HttpError m) =
     (if str_contains m ''timeout'' then FailTimeout else if str_contains m ''connection'' then FailConnectionRefused else FailServerError)"
| "classify_failure (ApiError m) = FailServerError"
| "classify_failure (StreamError m) = FailMalformedResponse"

definition policy_route_order :: "string option \<Rightarrow> string list \<Rightarrow> bool \<Rightarrow> string option \<Rightarrow> string + string list" where
  "policy_route_order selected chain allow_fallback pin =
     (case pin of
        Some p \<Rightarrow> if selected \<noteq> Some p \<and> p \<notin> set chain then Inl ''pinned_route_not_eligible'' else Inr [p]
      | None \<Rightarrow> Inr ((case selected of None \<Rightarrow> [] | Some s \<Rightarrow> [s]) @ (if allow_fallback then chain else [])))"

record attempt_trace =
  at_attempt_id :: u32
  at_now_ms :: u64
  at_route_id :: string
  at_capability_epoch :: u64
  at_selection_reason :: string
  at_failure_category :: "failure_category option"
  at_backoff_ms :: u64
  at_overlay_generation :: u64

text \<open>What one attempt at a route leads to: the preflight refuses it, its preparation fails, the provider fails or answers.\<close>

datatype 'r attempt_outcome = PreflightRejected provider_error | PrepareFailed provider_error | DispatchFailed provider_error | Dispatched 'r

record dispatch_state =
  ds_attempt_id :: u32
  ds_overlay :: run_health_overlay
  ds_trace :: "attempt_trace list"
  ds_last_error :: "provider_error option"

datatype 'r dispatch_flow = NextRoute | BreakRoutes | ReturnError provider_error | ReturnOk string 'r

definition set_last_category :: "failure_category \<Rightarrow> attempt_trace list \<Rightarrow> attempt_trace list" where
  "set_last_category c tr = (if tr = [] then [] else butlast tr @ [(last tr)\<lparr>at_failure_category := Some c\<rparr>])"

definition open_attempt ::
    "(u32 \<Rightarrow> string \<Rightarrow> u64) \<Rightarrow> route_policy_snapshot \<Rightarrow> string \<Rightarrow> string \<Rightarrow> dispatch_state \<Rightarrow> dispatch_state" where
  "open_attempt backoff s reason route st =
     (let i = ds_attempt_id st in
      st\<lparr>ds_trace := ds_trace st @ [\<lparr>at_attempt_id = i, at_now_ms = sat_add (rs_created_at s) (ucast i), at_route_id = route,
           at_capability_epoch = (case List.find (\<lambda>c. ce_route_id c = route) (rs_candidates s) of
             Some c \<Rightarrow> cm_capability_epoch (ce_capabilities c) | None \<Rightarrow> 0),
           at_selection_reason = (if i = 1 then reason else ''fallback_after_provider_failure''),
           at_failure_category = None, at_backoff_ms = (if i = 1 then 0 else backoff (i - 1) route),
           at_overlay_generation = ov_generation (ds_overlay st)\<rparr>]\<rparr>)"

definition fail_attempt :: "failure_category \<Rightarrow> provider_error \<Rightarrow> dispatch_state \<Rightarrow> dispatch_state" where
  "fail_attempt category error st =
     st\<lparr>ds_trace := set_last_category category (ds_trace st), ds_last_error := Some error, ds_attempt_id := sat_add (ds_attempt_id st) 1\<rparr>"

text \<open>The attempts at one route; the first argument counts those that are left, \<open>route_attempt\<close> those that were made.\<close>

fun route_attempts ::
    "(u32 \<Rightarrow> string \<Rightarrow> u64) \<Rightarrow> (u32 \<Rightarrow> string \<Rightarrow> 'r attempt_outcome) \<Rightarrow> retry_config \<Rightarrow> route_policy_snapshot \<Rightarrow> string \<Rightarrow> string
     \<Rightarrow> nat \<Rightarrow> u32 \<Rightarrow> dispatch_state \<Rightarrow> 'r dispatch_flow \<times> dispatch_state" where
  "route_attempts backoff attempt config s reason route 0 route_attempt st = (NextRoute, st)"
| "route_attempts backoff attempt config s reason route (Suc left) route_attempt st =
     (let i = ds_attempt_id st; st = open_attempt backoff s reason route st in
      case attempt i route of
        PreflightRejected e \<Rightarrow>
          let st = fail_attempt FailInvalidRequest e st in
          if ds_attempt_id st > rcf_max_attempts config then (BreakRoutes, st) else (NextRoute, st)
      | PrepareFailed e \<Rightarrow> (ReturnError e, st)
      | Dispatched r \<Rightarrow> (ReturnOk route r, st)
      | DispatchFailed e \<Rightarrow>
          let category = classify_failure e;
              ov = snd (record_failure_at route i category config (sat_add (rs_created_at s) (ucast i)) (ds_overlay st));
              st = fail_attempt category e (st\<lparr>ds_overlay := ov\<rparr>)
          in if category = FailInvalidRequest then (BreakRoutes, st)
             else if ds_attempt_id st > rcf_max_attempts config then (BreakRoutes, st)
             else if route_attempt + 1 \<ge> rcf_max_attempts_per_route config then (NextRoute, st)
             else route_attempts backoff attempt config s reason route left (route_attempt + 1) st)"

fun dispatch_routes ::
    "(u32 \<Rightarrow> string \<Rightarrow> u64) \<Rightarrow> (u32 \<Rightarrow> string \<Rightarrow> 'r attempt_outcome) \<Rightarrow> retry_config \<Rightarrow> route_policy_snapshot \<Rightarrow> string \<Rightarrow> nat
     \<Rightarrow> string list \<Rightarrow> dispatch_state \<Rightarrow> 'r dispatch_flow \<times> dispatch_state" where
  "dispatch_routes backoff attempt config s reason limit [] st = (BreakRoutes, st)"
| "dispatch_routes backoff attempt config s reason limit (route # routes) st =
     (case route_attempts backoff attempt config s reason route limit 0 st of
        (NextRoute, st) \<Rightarrow> dispatch_routes backoff attempt config s reason limit routes st
      | other \<Rightarrow> other)"

text \<open>\<open>chat_with_tools_with_policy_and_route_hook_options\<close> for a request that is classified, offline or sized; the decision is the
  one of the selection at the start.\<close>

definition dispatch_with_policy ::
    "(u32 \<Rightarrow> string \<Rightarrow> u64) \<Rightarrow> (u32 \<Rightarrow> string \<Rightarrow> 'r attempt_outcome) \<Rightarrow> full_routing_request \<Rightarrow> route_policy_snapshot \<Rightarrow> snapshot_route_decision
     \<Rightarrow> string option \<Rightarrow> (provider_error + string \<times> 'r) \<times> dispatch_state" where
  "dispatch_with_policy backoff attempt r s decision pin =
     (let config = retry_config_default;
          st = \<lparr>ds_attempt_id = 1, ds_overlay = overlay_new (rs_run_id s), ds_trace = [], ds_last_error = None\<rparr>
      in case policy_route_order (sd_selected_route decision) (sd_fallback_chain decision) (rr_allow_fallback r) pin of
           Inl why \<Rightarrow> (Inl (ConfigError why), st)
         | Inr routes \<Rightarrow>
             let limit = (if rr_allow_fallback r \<and> pin = None then unat (rcf_max_attempts_per_route config) else 1) in
             case dispatch_routes backoff attempt config s (sd_reason_code decision) limit (take (unat (rcf_max_attempts config)) routes) st of
               (ReturnOk route result, st) \<Rightarrow> (Inr (route, result), st)
             | (ReturnError e, st) \<Rightarrow> (Inl e, st)
             | (_, st) \<Rightarrow> (Inl (case ds_last_error st of Some e \<Rightarrow> e | None \<Rightarrow> ConfigError (sd_reason_code decision)), st))"

section \<open>What a dispatch does\<close>

fun outcome_error :: "'r attempt_outcome \<Rightarrow> provider_error option" where
  "outcome_error (Dispatched r) = None"
| "outcome_error (PreflightRejected e) = Some e"
| "outcome_error (PrepareFailed e) = Some e"
| "outcome_error (DispatchFailed e) = Some e"

fun outcome_category :: "'r attempt_outcome \<Rightarrow> failure_category option" where
  "outcome_category (PreflightRejected e) = Some FailInvalidRequest"
| "outcome_category (DispatchFailed e) = Some (classify_failure e)"
| "outcome_category _ = None"

fun retryable :: "'r attempt_outcome \<Rightarrow> bool" where
  "retryable (PreflightRejected e) \<longleftrightarrow> True"
| "retryable (DispatchFailed e) \<longleftrightarrow> classify_failure e \<noteq> FailInvalidRequest"
| "retryable _ \<longleftrightarrow> False"

definition outcome_of :: "(u32 \<Rightarrow> string \<Rightarrow> 'r attempt_outcome) \<Rightarrow> attempt_trace \<Rightarrow> 'r attempt_outcome" where
  "outcome_of attempt a = attempt (at_attempt_id a) (at_route_id a)"

text \<open>A trace numbers its attempts from one, says how each ended, and went on only after a failure that allows it.\<close>

definition trace_wf :: "(u32 \<Rightarrow> string \<Rightarrow> 'r attempt_outcome) \<Rightarrow> attempt_trace list \<Rightarrow> bool" where
  "trace_wf attempt tr \<longleftrightarrow> length tr \<le> 3 \<and> map at_attempt_id tr = map word_of_nat [1..<Suc (length tr)]
     \<and> (\<forall>a\<in>set tr. at_failure_category a = outcome_category (outcome_of attempt a))
     \<and> (\<forall>a\<in>set (butlast tr). retryable (outcome_of attempt a))"

definition last_outcome :: "(u32 \<Rightarrow> string \<Rightarrow> 'r attempt_outcome) \<Rightarrow> dispatch_state \<Rightarrow> 'r attempt_outcome" where
  "last_outcome attempt st = outcome_of attempt (last (ds_trace st))"

definition head_ok :: "(u32 \<Rightarrow> string \<Rightarrow> 'r attempt_outcome) \<Rightarrow> dispatch_state \<Rightarrow> bool" where
  "head_ok attempt st \<longleftrightarrow> trace_wf attempt (ds_trace st) \<and> length (ds_trace st) \<le> 2
     \<and> ds_attempt_id st = word_of_nat (Suc (length (ds_trace st)))
     \<and> (\<forall>a\<in>set (ds_trace st). retryable (outcome_of attempt a))
     \<and> ds_last_error st = (if ds_trace st = [] then None else outcome_error (last_outcome attempt st))"

fun flow_ok :: "(u32 \<Rightarrow> string \<Rightarrow> 'r attempt_outcome) \<Rightarrow> 'r dispatch_flow \<Rightarrow> dispatch_state \<Rightarrow> bool" where
  "flow_ok attempt NextRoute st \<longleftrightarrow> head_ok attempt st"
| "flow_ok attempt BreakRoutes st \<longleftrightarrow> trace_wf attempt (ds_trace st) \<and> ds_trace st \<noteq> []
     \<and> ds_last_error st = outcome_error (last_outcome attempt st)
     \<and> (length (ds_trace st) = 3 \<or> \<not> retryable (last_outcome attempt st)) \<and> outcome_category (last_outcome attempt st) \<noteq> None"
| "flow_ok attempt (ReturnError e) st \<longleftrightarrow> trace_wf attempt (ds_trace st) \<and> ds_trace st \<noteq> [] \<and> last_outcome attempt st = PrepareFailed e"
| "flow_ok attempt (ReturnOk route x) st \<longleftrightarrow> trace_wf attempt (ds_trace st) \<and> ds_trace st \<noteq> []
     \<and> last_outcome attempt st = Dispatched x \<and> at_route_id (last (ds_trace st)) = route"

lemma trace_wf_snoc:
  assumes "head_ok attempt st" "at_attempt_id a = ds_attempt_id st" "at_failure_category a = outcome_category (outcome_of attempt a)"
  shows "trace_wf attempt (ds_trace st @ [a])"
  using assms by (auto simp: head_ok_def trace_wf_def butlast_append)

lemma next_attempt_id: "head_ok attempt st \<Longrightarrow> sat_add (ds_attempt_id st) 1 = word_of_nat (Suc (Suc (length (ds_trace st))))
    \<and> (sat_add (ds_attempt_id st) 1 > 3 \<longleftrightarrow> length (ds_trace st) = 2)"
  unfolding head_ok_def by (cases "ds_trace st"; cases "tl (ds_trace st)"; cases "tl (tl (ds_trace st))") (auto simp: sat_add_def)

definition attempt_entry :: "(u32 \<Rightarrow> string \<Rightarrow> u64) \<Rightarrow> route_policy_snapshot \<Rightarrow> string \<Rightarrow> string \<Rightarrow> dispatch_state \<Rightarrow> attempt_trace" where
  "attempt_entry backoff s reason route st = last (ds_trace (open_attempt backoff s reason route st))"

lemma open_attempt_simps:
  "ds_trace (open_attempt backoff s reason route st) = ds_trace st @ [attempt_entry backoff s reason route st]"
  "ds_attempt_id (open_attempt backoff s reason route st) = ds_attempt_id st"
  "ds_last_error (open_attempt backoff s reason route st) = ds_last_error st"
  "at_attempt_id (attempt_entry backoff s reason route st) = ds_attempt_id st"
  "at_route_id (attempt_entry backoff s reason route st) = route"
  "at_failure_category (attempt_entry backoff s reason route st) = None"
  by (simp_all add: open_attempt_def attempt_entry_def Let_def)

lemma fail_attempt_simps:
  "ds_trace (fail_attempt category error st) = set_last_category category (ds_trace st)"
  "ds_attempt_id (fail_attempt category error st) = sat_add (ds_attempt_id st) 1"
  "ds_last_error (fail_attempt category error st) = Some error"
  by (simp_all add: fail_attempt_def)

lemma set_last_category_snoc: "set_last_category c (tr @ [a]) = tr @ [a\<lparr>at_failure_category := Some c\<rparr>]"
  by (simp add: set_last_category_def)

text \<open>One attempt, and where the state is after a failure of it.\<close>

lemma outcome_of_update [simp]: "outcome_of attempt (a\<lparr>at_failure_category := c\<rparr>) = outcome_of attempt a"
  by (simp add: outcome_of_def)

lemma failed_attempt:
  assumes ok: "head_ok attempt st" and tr: "ds_trace st' = ds_trace st @ [a\<lparr>at_failure_category := outcome_category out\<rparr>]"
    and a: "at_attempt_id a = ds_attempt_id st" "outcome_of attempt a = out"
    and st': "ds_attempt_id st' = sat_add (ds_attempt_id st) 1" "ds_last_error st' = outcome_error out"
    and failed: "outcome_category out \<noteq> None"
  shows "retryable out \<Longrightarrow> \<not> ds_attempt_id st' > 3 \<Longrightarrow> head_ok attempt st'"
    "\<not> retryable out \<or> ds_attempt_id st' > 3 \<Longrightarrow> flow_ok attempt BreakRoutes st'"
proof -
  have wf: "trace_wf attempt (ds_trace st @ [a\<lparr>at_failure_category := outcome_category out\<rparr>])" by (rule trace_wf_snoc [OF ok]) (simp_all add: a)
  have len: "length (ds_trace st) \<le> 2" using ok by (simp add: head_ok_def)
  note n = next_attempt_id [OF ok]
  show "head_ok attempt st'" if "retryable out" "\<not> ds_attempt_id st' > 3"
    using that wf n len ok unfolding head_ok_def tr st' by (auto simp: last_outcome_def tr a)
  show "flow_ok attempt BreakRoutes st'" if "\<not> retryable out \<or> ds_attempt_id st' > 3"
    using that wf n failed st' by (auto simp: last_outcome_def tr a)
qed

lemma retry_default_limits [simp]: "rcf_max_attempts retry_config_default = 3" "rcf_max_attempts_per_route retry_config_default = 2"
  by (simp_all add: retry_config_default_def)

definition failed_state ::
    "(u32 \<Rightarrow> string \<Rightarrow> u64) \<Rightarrow> route_policy_snapshot \<Rightarrow> string \<Rightarrow> string \<Rightarrow> provider_error \<Rightarrow> dispatch_state \<Rightarrow> dispatch_state" where
  "failed_state backoff s reason route e st =
     (let st' = open_attempt backoff s reason route st; i = ds_attempt_id st in
      fail_attempt (classify_failure e) e (st'\<lparr>ds_overlay := snd (record_failure_at route i (classify_failure e) retry_config_default
        (sat_add (rs_created_at s) (ucast i)) (ds_overlay st'))\<rparr>))"

lemma failed_state_simps:
  "ds_trace (failed_state backoff s reason route e st) =
     ds_trace st @ [attempt_entry backoff s reason route st\<lparr>at_failure_category := Some (classify_failure e)\<rparr>]"
  "ds_attempt_id (failed_state backoff s reason route e st) = sat_add (ds_attempt_id st) 1"
  "ds_last_error (failed_state backoff s reason route e st) = Some e"
  by (simp_all add: failed_state_def Let_def open_attempt_simps fail_attempt_simps set_last_category_snoc)

lemma route_attempts_failed:
  "attempt (ds_attempt_id st) route = DispatchFailed e \<Longrightarrow>
   route_attempts backoff attempt retry_config_default s reason route (Suc left) ra st =
    (let st' = failed_state backoff s reason route e st in
     if classify_failure e = FailInvalidRequest \<or> sat_add (ds_attempt_id st) 1 > 3 then (BreakRoutes, st')
     else if ra + 1 \<ge> 2 then (NextRoute, st')
     else route_attempts backoff attempt retry_config_default s reason route left (ra + 1) st')"
  by (simp add: failed_state_def Let_def open_attempt_simps fail_attempt_simps)

lemma route_attempts_run:
  assumes "route_attempts backoff attempt retry_config_default s reason route left ra st = (fl, st')" "head_ok attempt st"
  shows "flow_ok attempt fl st' \<and> (\<exists>new. ds_trace st' = ds_trace st @ new \<and> length new \<le> left \<and> (\<forall>a\<in>set new. at_route_id a = route)
    \<and> (left > 0 \<longrightarrow> new \<noteq> []))"
  using assms
proof (induction left arbitrary: ra st)
  case 0
  then show ?case by auto
next
  case (Suc left)
  let ?i = "ds_attempt_id st" and ?a = "attempt_entry backoff s reason route st" and ?st = "open_attempt backoff s reason route st"
  have wf: "trace_wf attempt (ds_trace st @ [?a])" if "outcome_category (attempt ?i route) = None"
    by (rule trace_wf_snoc [OF Suc.prems(2)]) (simp_all add: open_attempt_simps outcome_of_def that)
  note conv = open_attempt_simps fail_attempt_simps set_last_category_snoc
  have out: "outcome_of attempt ?a = attempt ?i route" by (simp add: outcome_of_def open_attempt_simps)
  show ?case
  proof (cases "attempt ?i route")
    case (PreflightRejected e)
    let ?st' = "fail_attempt FailInvalidRequest e ?st"
    note f = failed_attempt [OF Suc.prems(2), where st' = ?st' and a = ?a and out = "attempt ?i route"]
    have "fl = (if ds_attempt_id ?st' > 3 then BreakRoutes else NextRoute)" "st' = ?st'"
      using Suc.prems(1) by (auto simp: PreflightRejected Let_def retry_config_default_def split: if_splits)
    then show ?thesis using f PreflightRejected by (auto simp: conv out split: if_splits)
  next
    case (PrepareFailed e)
    then have "fl = ReturnError e" "st' = ?st" using Suc.prems(1) by auto
    then show ?thesis using wf PrepareFailed by (auto simp: conv last_outcome_def outcome_of_def)
  next
    case (Dispatched x)
    then have "fl = ReturnOk route x" "st' = ?st" using Suc.prems(1) by auto
    then show ?thesis using wf Dispatched by (auto simp: conv last_outcome_def outcome_of_def)
  next
    case (DispatchFailed e)
    let ?st' = "failed_state backoff s reason route e st"
    note f = failed_attempt [OF Suc.prems(2), where st' = ?st' and a = ?a and out = "attempt ?i route"]
    have head: "classify_failure e \<noteq> FailInvalidRequest \<Longrightarrow> \<not> sat_add ?i 1 > 3 \<Longrightarrow> head_ok attempt ?st'"
      using f(1) DispatchFailed by (simp add: failed_state_simps out open_attempt_simps)
    have brk: "classify_failure e = FailInvalidRequest \<or> sat_add ?i 1 > 3 \<Longrightarrow> flow_ok attempt BreakRoutes ?st'"
      using f(2) DispatchFailed by (simp add: failed_state_simps out open_attempt_simps)
    note run = Suc.prems(1) [unfolded route_attempts_failed [of attempt st route e, OF DispatchFailed] Let_def]
    have new: "\<exists>new. ds_trace ?st' = ds_trace st @ new \<and> length new \<le> Suc left \<and> (\<forall>a\<in>set new. at_route_id a = route) \<and> new \<noteq> []"
      by (simp add: failed_state_simps open_attempt_simps)
    show ?thesis
    proof (cases "classify_failure e = FailInvalidRequest \<or> sat_add ?i 1 > 3")
      case True
      with run have "fl = BreakRoutes" "st' = ?st'" by (simp_all only: if_True prod.inject)
      then show ?thesis using brk [OF True] new by auto
    next
      case c: False
      then have head: "head_ok attempt ?st'" using head by blast
      show ?thesis
      proof (cases "ra + 1 \<ge> 2")
        case True
        with run c have "fl = NextRoute" "st' = ?st'" by (simp_all only: if_True if_False prod.inject)
        then show ?thesis using head new by auto
      next
        case False
        with run c have "route_attempts backoff attempt retry_config_default s reason route left (ra + 1) ?st' = (fl, st')"
          by (simp only: if_False)
        from Suc.IH [OF this head] show ?thesis unfolding failed_state_simps by (auto simp: open_attempt_simps)
      qed
    qed
  qed
qed

lemma count_list_same:
  assumes "\<forall>a\<in>set xs. f a = y" "length xs \<le> n"
  shows "count_list (map f xs) x \<le> (if x = y then n else 0)"
proof -
  have "count_list (map f xs) x = 0" if "x \<noteq> y" using assms(1) that by (intro count_notin) auto
  then show ?thesis using count_le_length [of "map f xs" x] assms(2) by auto
qed

lemma dispatch_routes_run:
  assumes "dispatch_routes backoff attempt retry_config_default s reason limit routes st = (fl, st')" "head_ok attempt st" "limit > 0"
  shows "(fl \<noteq> NextRoute \<and> flow_ok attempt fl st' \<or> fl = BreakRoutes \<and> head_ok attempt st' \<and> set routes \<subseteq> at_route_id ` set (ds_trace st'))
    \<and> (\<exists>new. ds_trace st' = ds_trace st @ new \<and> at_route_id ` set new \<subseteq> set routes
        \<and> (distinct routes \<longrightarrow> (\<forall>x. count_list (map at_route_id new) x \<le> limit)))"
  using assms(1,2)
proof (induction routes arbitrary: st)
  case Nil
  then show ?case by auto
next
  case (Cons route routes)
  obtain fl1 st1 where step: "route_attempts backoff attempt retry_config_default s reason route limit 0 st = (fl1, st1)" by fastforce
  from route_attempts_run [OF this Cons.prems(2)] assms(3) obtain new where ok: "flow_ok attempt fl1 st1"
    and new: "ds_trace st1 = ds_trace st @ new" "length new \<le> limit" "\<forall>a\<in>set new. at_route_id a = route" "new \<noteq> []" by auto
  note cnt = count_list_same [OF new(3) new(2)]
  show ?case
  proof (cases "fl1 = NextRoute")
    case True
    with ok have head: "head_ok attempt st1" by simp
    have "dispatch_routes backoff attempt retry_config_default s reason limit routes st1 = (fl, st')"
      using Cons.prems(1) step True by simp
    from Cons.IH [OF this head] obtain more_new where
      fl: "fl \<noteq> NextRoute \<and> flow_ok attempt fl st' \<or> fl = BreakRoutes \<and> head_ok attempt st' \<and> set routes \<subseteq> at_route_id ` set (ds_trace st')"
      and more_new: "ds_trace st' = ds_trace st1 @ more_new" "at_route_id ` set more_new \<subseteq> set routes"
        "distinct routes \<longrightarrow> (\<forall>x. count_list (map at_route_id more_new) x \<le> limit)" by blast
    have hit: "route \<in> at_route_id ` set (ds_trace st')" using new(3,4) by (cases new) (auto simp: more_new(1) new(1))
    have "count_list (map at_route_id (new @ more_new)) x \<le> limit" if "distinct (route # routes)" for x
    proof (cases "x = route")
      case True
      have "count_list (map at_route_id more_new) x = 0" using that True more_new(2) by (intro count_notin) auto
      then show ?thesis using cnt [of x] True by simp
    next
      case False
      then show ?thesis using cnt [of x] that more_new(3) by simp
    qed
    moreover have "at_route_id ` set (new @ more_new) \<subseteq> set (route # routes)" using new(3) more_new(2) by auto
    ultimately show ?thesis using fl hit by (auto simp: more_new(1) new(1))
  next
    case False
    then have "fl = fl1" "st' = st1" using Cons.prems(1) step by (cases fl1; simp)+
    moreover have "at_route_id ` set new \<subseteq> set (route # routes)" using new(3) by auto
    moreover have "count_list (map at_route_id new) x \<le> limit" for x using cnt [of x] by (auto split: if_splits)
    ultimately show ?thesis using ok False new(1) by blast
  qed
qed

section \<open>Selection\<close>

lemma check_entries_distinct:
  "check_entries cs seen = None \<Longrightarrow> distinct (map ce_route_id cs) \<and> ce_route_id ` set cs \<inter> set seen = {}"
  by (induction cs seen rule: check_entries.induct) (auto split: option.splits if_splits)

lemma snapshot_new_at_Inr:
  assumes "snapshot_new_at run cs t = Inr s"
  shows "rs_candidates s = cs" "rs_run_id s = run" "rs_created_at s = t" "validate_schema s = None" "distinct (map ce_route_id cs)"
  using assms check_entries_distinct [of cs "[]"]
  by (auto simp: snapshot_new_at_def validate_entries_def validate_schema_def split: option.splits if_splits)

lemma set_ranked_candidates: "set (ranked_candidates r s ov catalog now) = {c \<in> set (rs_candidates s). route_reject r s ov catalog now c = None}"
  by (simp add: ranked_candidates_def)

lemma distinct_ranked: "distinct (map ce_route_id (rs_candidates s)) \<Longrightarrow> distinct (map ce_route_id (ranked_candidates r s ov catalog now))"
  by (auto simp: ranked_candidates_def distinct_map inj_on_def)

definition decision_routes :: "snapshot_route_decision \<Rightarrow> string list" where
  "decision_routes d = (case sd_selected_route d of None \<Rightarrow> [] | Some x \<Rightarrow> [x]) @ sd_fallback_chain d"

lemma select_route_snapshot_routes:
  assumes "select_route_snapshot r s ov catalog i now = Inr d"
  shows "decision_routes d = map ce_route_id (take 17 (ranked_candidates r s ov catalog now))"
  using assms by (auto simp: select_route_snapshot_def decision_routes_def Let_def split: option.splits if_splits list.splits)

lemma policy_route_order_Inr:
  assumes "policy_route_order (sd_selected_route d) (sd_fallback_chain d) fb pin = Inr routes"
  shows "set routes \<subseteq> set (decision_routes d)" "distinct (decision_routes d) \<Longrightarrow> distinct routes"
    "pin = Some p \<Longrightarrow> routes = [p]" "pin = None \<Longrightarrow> \<not> fb \<Longrightarrow> x \<in> set routes \<Longrightarrow> sd_selected_route d = Some x"
    "pin = None \<Longrightarrow> fb \<Longrightarrow> routes = decision_routes d"
  using assms by (auto simp: policy_route_order_def decision_routes_def split: option.splits if_splits)

text \<open>What the policy of a request asks of a candidate.\<close>

definition within_policy :: "full_routing_request \<Rightarrow> candidate_entry \<Rightarrow> bool" where
  "within_policy r c \<longleftrightarrow> rr_required_privacy r \<le> ce_privacy c
     \<and> (rr_offline r \<or> \<not> rr_allow_cloud r \<or> unknown_class r \<longrightarrow> cm_execution_class (ce_capabilities c) = ExecLocal)
     \<and> (\<forall>cap\<in>set (rr_required_capabilities r). candidate_supports c cap)
     \<and> (\<forall>limit. cm_context_limit (ce_capabilities c) = Some limit \<longrightarrow> rr_estimated_input_tokens r \<le> limit)
     \<and> (\<forall>limit. rr_max_cost r = Some limit \<longrightarrow> ce_cost c \<le> limit) \<and> (\<forall>limit. rr_max_latency r = Some limit \<longrightarrow> ce_latency c \<le> limit)"

lemma policy_reject_None: "policy_reject r s catalog now c = None \<Longrightarrow> within_policy r c"
  by (cases "cm_execution_class (ce_capabilities c)")
     (auto simp: policy_reject_def within_policy_def list_ex_iff not_less split: if_splits option.splits)

lemma route_reject_None:
  "route_reject r s ov catalog now c = None \<Longrightarrow> within_policy r c \<and> effective_health c now \<notin> {HealthUnavailable, HealthStale}
    \<and> \<not> is_excluded ov (ce_route_id c) \<and> get_circuit_state ov (ce_route_id c) = CircuitClosed"
  by (auto simp: route_reject_def policy_reject_None split: option.splits if_splits)

section \<open>A request under the policy\<close>

fun outcome_result :: "string \<Rightarrow> 'r attempt_outcome \<Rightarrow> provider_error + string \<times> 'r" where
  "outcome_result route (Dispatched x) = Inr (route, x)"
| "outcome_result route (PreflightRejected e) = Inl e"
| "outcome_result route (PrepareFailed e) = Inl e"
| "outcome_result route (DispatchFailed e) = Inl e"

lemma outcome_result_error: "outcome_error out = Some e \<Longrightarrow> outcome_result route out = Inl e"
  by (cases out) auto

definition dispatch_start :: "string \<Rightarrow> dispatch_state" where
  "dispatch_start run = \<lparr>ds_attempt_id = 1, ds_overlay = overlay_new run, ds_trace = [], ds_last_error = None\<rparr>"

lemma head_ok_start: "head_ok attempt (dispatch_start run)"
  by (simp add: head_ok_def trace_wf_def dispatch_start_def)

lemma dispatch_with_policy_run:
  assumes run: "dispatch_with_policy backoff attempt r s d pin = (res, st)"
  obtains (refused) why where "policy_route_order (sd_selected_route d) (sd_fallback_chain d) (rr_allow_fallback r) pin = Inl why"
      "res = Inl (ConfigError why)" "ds_trace st = []"
  | (ran) routes fl where "policy_route_order (sd_selected_route d) (sd_fallback_chain d) (rr_allow_fallback r) pin = Inr routes"
      "dispatch_routes backoff attempt retry_config_default s (sd_reason_code d) (if rr_allow_fallback r \<and> pin = None then 2 else 1)
        (take 3 routes) (dispatch_start (rs_run_id s)) = (fl, st)"
      "res = (case fl of ReturnOk route x \<Rightarrow> Inr (route, x) | ReturnError e \<Rightarrow> Inl e
        | _ \<Rightarrow> Inl (case ds_last_error st of Some e \<Rightarrow> e | None \<Rightarrow> ConfigError (sd_reason_code d)))"
proof (cases "policy_route_order (sd_selected_route d) (sd_fallback_chain d) (rr_allow_fallback r) pin")
  case (Inl why)
  with run refused show ?thesis by (auto simp: dispatch_with_policy_def Let_def)
next
  case (Inr routes)
  let ?limit = "if rr_allow_fallback r \<and> pin = None then 2 else 1"
  obtain fl st' where d: "dispatch_routes backoff attempt retry_config_default s (sd_reason_code d) ?limit (take 3 routes) (dispatch_start (rs_run_id s)) = (fl, st')"
    by fastforce
  then have "res = (case fl of ReturnOk route x \<Rightarrow> Inr (route, x) | ReturnError e \<Rightarrow> Inl e
      | _ \<Rightarrow> Inl (case ds_last_error st' of Some e \<Rightarrow> e | None \<Rightarrow> ConfigError (sd_reason_code d))) \<and> st = st'"
    using run Inr by (cases fl) (auto simp: dispatch_with_policy_def dispatch_start_def Let_def split: if_splits)
  with d ran [OF Inr] show ?thesis by blast
qed

lemma flow_result:
  assumes "fl \<noteq> NextRoute \<and> flow_ok attempt fl st \<or> fl = BreakRoutes \<and> head_ok attempt st" "ds_trace st \<noteq> []"
  shows "(case fl of ReturnOk route x \<Rightarrow> Inr (route, x) | ReturnError e \<Rightarrow> Inl e
      | _ \<Rightarrow> Inl (case ds_last_error st of Some e \<Rightarrow> e | None \<Rightarrow> dflt)) = outcome_result (at_route_id (last (ds_trace st))) (last_outcome attempt st)"
proof -
  have head: "retryable (last_outcome attempt st)" if "head_ok attempt st" using that assms(2) by (simp add: head_ok_def last_outcome_def)
  have err: "outcome_error (last_outcome attempt st) \<noteq> None" if "fl = BreakRoutes"
    using assms that head by (cases "last_outcome attempt st") auto
  show ?thesis using assms err
    by (cases fl) (auto simp: head_ok_def outcome_result_error)
qed

lemma flow_trace_wf: "fl \<noteq> NextRoute \<and> flow_ok attempt fl st \<or> fl = BreakRoutes \<and> head_ok attempt st \<Longrightarrow> trace_wf attempt (ds_trace st)"
  by (cases fl) (auto simp: head_ok_def)

lemma flow_retryable:
  assumes "fl \<noteq> NextRoute \<and> flow_ok attempt fl st" "length (ds_trace st) < 3"
  shows "ds_trace st \<noteq> [] \<and> \<not> retryable (last_outcome attempt st)"
  using assms by (cases fl) (auto simp: trace_wf_def)

text \<open>A run that stops early, and not for a failure that forbids another attempt, has tried every eligible route.\<close>

lemma early_stop_tried_all:
  assumes "set (take 3 (take 17 xs)) \<subseteq> f ` set tr" "length tr < 3" "distinct xs"
  shows "set xs \<subseteq> f ` set tr"
proof -
  have "length (take 3 xs) = card (set (take 3 xs))" using assms(3) by (simp add: distinct_card)
  also have "\<dots> \<le> card (f ` set tr)" using assms(1) by (intro card_mono) (simp_all add: min_def)
  also have "\<dots> \<le> length tr" using card_image_le [of "set tr" f] card_length [of tr] by auto
  finally have "length xs < 3" using assms(2) by simp
  then show ?thesis using assms(1) by simp
qed

lemma dispatch_facts:
  assumes sel: "select_route_snapshot r s ov catalog i now = Inr d" and disp: "dispatch_with_policy backoff attempt r s d pin = (res, st)"
  shows "trace_wf attempt (ds_trace st)"
    and "a \<in> set (ds_trace st) \<Longrightarrow>
      \<exists>c\<in>set (rs_candidates s). at_route_id a = ce_route_id c \<and> route_reject r s ov catalog now c = None"
    and "a \<in> set (ds_trace st) \<Longrightarrow> (\<forall>p. pin = Some p \<longrightarrow> at_route_id a = p)
      \<and> (pin = None \<and> \<not> rr_allow_fallback r \<longrightarrow> sd_selected_route d = Some (at_route_id a))"
    and "res = (if ds_trace st = [] then Inl (case policy_route_order (sd_selected_route d) (sd_fallback_chain d) (rr_allow_fallback r) pin of
               Inl why \<Rightarrow> ConfigError why | Inr _ \<Rightarrow> ConfigError (sd_reason_code d))
             else outcome_result (at_route_id (last (ds_trace st))) (last_outcome attempt st))"
proof -
  have "trace_wf attempt (ds_trace st) \<and> (\<forall>a\<in>set (ds_trace st). at_route_id a \<in> set (decision_routes d))
    \<and> (\<forall>a\<in>set (ds_trace st). (\<forall>p. pin = Some p \<longrightarrow> at_route_id a = p)
      \<and> (pin = None \<and> \<not> rr_allow_fallback r \<longrightarrow> sd_selected_route d = Some (at_route_id a)))
    \<and> res = (if ds_trace st = [] then Inl (case policy_route_order (sd_selected_route d) (sd_fallback_chain d) (rr_allow_fallback r) pin of
               Inl why \<Rightarrow> ConfigError why | Inr _ \<Rightarrow> ConfigError (sd_reason_code d))
             else outcome_result (at_route_id (last (ds_trace st))) (last_outcome attempt st))"
    using disp
  proof (cases rule: dispatch_with_policy_run)
    case (refused why)
    then show ?thesis by (simp add: trace_wf_def)
  next
    case (ran routes fl)
    note o = policy_route_order_Inr [OF ran(1)]
    have "0 < (if rr_allow_fallback r \<and> pin = None then 2 else 1 :: nat)" by simp
    from dispatch_routes_run [OF ran(2) head_ok_start this]
    have flow: "fl \<noteq> NextRoute \<and> flow_ok attempt fl st \<or> fl = BreakRoutes \<and> head_ok attempt st"
      and sub: "at_route_id ` set (ds_trace st) \<subseteq> set (take 3 routes)" by (auto simp: dispatch_start_def)
    have routes: "at_route_id a \<in> set routes" if "a \<in> set (ds_trace st)" for a using that sub set_take_subset [of 3 routes] by blast
    have "res = (if ds_trace st = [] then Inl (case policy_route_order (sd_selected_route d) (sd_fallback_chain d) (rr_allow_fallback r) pin of
               Inl why \<Rightarrow> ConfigError why | Inr _ \<Rightarrow> ConfigError (sd_reason_code d))
             else outcome_result (at_route_id (last (ds_trace st))) (last_outcome attempt st))"
    proof (cases "ds_trace st = []")
      case True
      then have "fl = BreakRoutes \<and> head_ok attempt st" using flow by (cases fl) auto
      then show ?thesis using ran(1,3) True by (simp add: head_ok_def)
    qed (use ran(3) flow_result [OF flow] in simp)
    moreover have "(\<forall>p. pin = Some p \<longrightarrow> at_route_id a = p) \<and> (pin = None \<and> \<not> rr_allow_fallback r \<longrightarrow> sd_selected_route d = Some (at_route_id a))"
      if "a \<in> set (ds_trace st)" for a using routes [OF that] o(3,4) by auto
    moreover have "at_route_id a \<in> set (decision_routes d)" if "a \<in> set (ds_trace st)" for a using routes [OF that] o(1) by blast
    ultimately show ?thesis using flow_trace_wf [OF flow] by (intro conjI ballI) simp_all
  qed
  moreover have "\<exists>c\<in>set (rs_candidates s). x = ce_route_id c \<and> route_reject r s ov catalog now c = None" if "x \<in> set (decision_routes d)" for x
    using that set_take_subset [of 17 "ranked_candidates r s ov catalog now"]
    unfolding select_route_snapshot_routes [OF sel] by (auto simp: set_ranked_candidates)
  ultimately show "trace_wf attempt (ds_trace st)"
    and "a \<in> set (ds_trace st) \<Longrightarrow>
      \<exists>c\<in>set (rs_candidates s). at_route_id a = ce_route_id c \<and> route_reject r s ov catalog now c = None"
    and "a \<in> set (ds_trace st) \<Longrightarrow> (\<forall>p. pin = Some p \<longrightarrow> at_route_id a = p)
      \<and> (pin = None \<and> \<not> rr_allow_fallback r \<longrightarrow> sd_selected_route d = Some (at_route_id a))"
    and "res = (if ds_trace st = [] then Inl (case policy_route_order (sd_selected_route d) (sd_fallback_chain d) (rr_allow_fallback r) pin of
               Inl why \<Rightarrow> ConfigError why | Inr _ \<Rightarrow> ConfigError (sd_reason_code d))
             else outcome_result (at_route_id (last (ds_trace st))) (last_outcome attempt st))" by blast+
qed

text \<open>C13: A request dispatched along the decision of a selection makes at most three attempts, numbered from one, and at most two at
  a route (one when fallback is not allowed or the route is pinned), each at a route of a candidate within the policy of the
  request (privacy, offline and cloud rules, capabilities, context, cost and latency limits) that is neither unavailable
  nor stale; a pinned request only at the pinned route, one without fallback only at the selected one. It goes on only after a
  failure that allows it, the trace has the category of each failure, and the result is that of the last attempt. If it stops before the
  third attempt on a failure that allows another, every eligible route has been tried.\<close>

theorem dispatch_within_policy:
  fixes attempt :: "u32 \<Rightarrow> string \<Rightarrow> 'r attempt_outcome"
  assumes snap: "snapshot_new_at run cs t = Inr s" and sel: "select_route_snapshot r s (overlay_new run) catalog 0 now = Inr d"
    and disp: "dispatch_with_policy backoff attempt r s d pin = (res, st)"
  defines "tr \<equiv> ds_trace st"
  shows "length tr \<le> 3 \<and> map at_attempt_id tr = map word_of_nat [1..<Suc (length tr)]
    \<and> (\<forall>x. count_list (map at_route_id tr) x \<le> (if rr_allow_fallback r \<and> pin = None then 2 else 1))
    \<and> (\<forall>a\<in>set tr. \<exists>c\<in>set cs. at_route_id a = ce_route_id c \<and> within_policy r c \<and> effective_health c now \<notin> {HealthUnavailable, HealthStale})
    \<and> (\<forall>a\<in>set tr. (\<forall>p. pin = Some p \<longrightarrow> at_route_id a = p) \<and> (pin = None \<and> \<not> rr_allow_fallback r \<longrightarrow> sd_selected_route d = Some (at_route_id a)))
    \<and> (\<forall>a\<in>set tr. at_failure_category a = outcome_category (outcome_of attempt a))
    \<and> (\<forall>a\<in>set (butlast tr). retryable (outcome_of attempt a))
    \<and> res = (if tr = [] then Inl (case policy_route_order (sd_selected_route d) (sd_fallback_chain d) (rr_allow_fallback r) pin of
               Inl why \<Rightarrow> ConfigError why | Inr _ \<Rightarrow> ConfigError (sd_reason_code d))
             else outcome_result (at_route_id (last tr)) (outcome_of attempt (last tr)))
    \<and> (rr_allow_fallback r \<and> pin = None \<and> length tr < 3 \<and> (tr = [] \<or> retryable (outcome_of attempt (last tr))) \<longrightarrow>
        (\<forall>c\<in>set cs. route_reject r s (overlay_new run) catalog now c = None \<longrightarrow> ce_route_id c \<in> at_route_id ` set tr))"
proof -
  note s = snapshot_new_at_Inr [OF snap] and facts = dispatch_facts [OF sel disp]
  let ?ranked = "ranked_candidates r s (overlay_new run) catalog now" and ?limit = "if rr_allow_fallback r \<and> pin = None then 2 else 1 :: nat"
  have ids: "decision_routes d = map ce_route_id (take 17 ?ranked)" by (rule select_route_snapshot_routes [OF sel])
  have dist: "distinct (map ce_route_id ?ranked)" using distinct_ranked s by simp
  have "(\<forall>x. count_list (map at_route_id tr) x \<le> ?limit)
    \<and> (rr_allow_fallback r \<and> pin = None \<and> length tr < 3 \<and> (tr = [] \<or> retryable (outcome_of attempt (last tr))) \<longrightarrow>
        (\<forall>c\<in>set cs. route_reject r s (overlay_new run) catalog now c = None \<longrightarrow> ce_route_id c \<in> at_route_id ` set tr))"
    using disp
  proof (cases rule: dispatch_with_policy_run)
    case (refused why)
    then have "pin \<noteq> None" by (auto simp: policy_route_order_def split: option.splits)
    then show ?thesis using refused by (auto simp: tr_def)
  next
    case (ran routes fl)
    note o = policy_route_order_Inr [OF ran(1)]
    have "distinct (decision_routes d)" using dist unfolding ids take_map [symmetric] by (rule distinct_take)
    then have droutes: "distinct (take 3 routes)" using o(2) distinct_take by blast
    have "0 < ?limit" by simp
    from dispatch_routes_run [OF ran(2) head_ok_start this] droutes
    have fl: "fl \<noteq> NextRoute \<and> flow_ok attempt fl st \<or> fl = BreakRoutes \<and> head_ok attempt st \<and> set (take 3 routes) \<subseteq> at_route_id ` set tr"
      and cnt: "\<forall>x. count_list (map at_route_id tr) x \<le> ?limit" by (auto simp: tr_def dispatch_start_def)
    have "ce_route_id c \<in> at_route_id ` set tr"
      if "rr_allow_fallback r \<and> pin = None" "length tr < 3" "tr = [] \<or> retryable (outcome_of attempt (last tr))"
        "c \<in> set cs" "route_reject r s (overlay_new run) catalog now c = None" for c
    proof -
      have "set (take 3 (take 17 (map ce_route_id ?ranked))) \<subseteq> at_route_id ` set tr"
        using fl flow_retryable [of fl attempt st] that(1-3) o(5) unfolding ids by (auto simp: tr_def last_outcome_def take_map)
      from early_stop_tried_all [OF this that(2) dist] that(4,5) s(1) show ?thesis by (auto simp: set_ranked_candidates)
    qed
    with cnt show ?thesis by blast
  qed
  moreover have "\<forall>a\<in>set tr. \<exists>c\<in>set cs. at_route_id a = ce_route_id c \<and> within_policy r c \<and> effective_health c now \<notin> {HealthUnavailable, HealthStale}"
    using facts(2) route_reject_None s(1) unfolding tr_def by blast
  moreover have "\<forall>a\<in>set tr. (\<forall>p. pin = Some p \<longrightarrow> at_route_id a = p) \<and> (pin = None \<and> \<not> rr_allow_fallback r \<longrightarrow> sd_selected_route d = Some (at_route_id a))"
    using facts(3) unfolding tr_def by blast
  ultimately show ?thesis using facts(1,4) unfolding trace_wf_def tr_def [symmetric] last_outcome_def by blast
qed

definition demo_entry :: "string \<Rightarrow> u32 \<Rightarrow> execution_class \<Rightarrow> privacy_level \<Rightarrow> candidate_entry" where
  "demo_entry i latency ex p = \<lparr>ce_route_id = i, ce_model = ''m'',
     ce_capabilities = \<lparr>cm_schema_version = ''v1'', cm_provider_version = ''p'', cm_capability_epoch = 7, cm_tool_calling = True,
       cm_structured_output = False, cm_context_limit = Some 8000, cm_streaming = True, cm_vision = False,
       cm_execution_class = ex, cm_privacy_boundary = p\<rparr>,
     ce_initial_health = \<lparr>ch_status = HealthUnknown, ch_observed_at = 0, ch_ttl_ms = 0, ch_circuit_state = CircuitClosed, ch_last_failure = None\<rparr>,
     ce_cost = 1, ce_latency = latency, ce_privacy = p, ce_fallback_rank = 0\<rparr>"

definition demo_full_request :: "bool \<Rightarrow> full_routing_request" where
  "demo_full_request offline = \<lparr>rr_required_capabilities = [''chat''], rr_max_cost = None, rr_max_latency = None,
     rr_required_privacy = PrivacyInternal, rr_allow_fallback = True, rr_preferred_route = None,
     rr_task_class = Some ''complex'', rr_offline = offline, rr_allow_cloud = True, rr_estimated_input_tokens = 100\<rparr>"

definition demo_entries :: "candidate_entry list" where
  "demo_entries = [demo_entry ''a'' 20 ExecCloud PrivacySensitive, demo_entry ''b'' 10 ExecLocal PrivacySensitive, demo_entry ''c'' 5 ExecCloud PrivacyPublic]"

definition demo_attempt :: "u32 \<Rightarrow> string \<Rightarrow> nat attempt_outcome" where
  "demo_attempt i route = (if route = ''a'' then Dispatched 42 else DispatchFailed (HttpError ''timeout''))"

theorem dispatch_within_policy_witness:
  "\<exists>s d st. snapshot_new_at ''run'' demo_entries 1000 = Inr s
    \<and> select_route_snapshot (demo_full_request False) s (overlay_new ''run'') None 0 1000 = Inr d
    \<and> dispatch_with_policy (\<lambda>_ _. 0) demo_attempt (demo_full_request False) s d None = (Inr (''a'', 42), st)
    \<and> map at_route_id (ds_trace st) = [''b'', ''b'', ''a''] \<and> (\<forall>x. count_list (map at_route_id (ds_trace st)) x \<le> 2)"
proof -
  let ?r = "demo_full_request False"
  have "case snapshot_new_at ''run'' demo_entries 1000 of Inl e \<Rightarrow> False | Inr s \<Rightarrow>
    (case select_route_snapshot ?r s (overlay_new ''run'') None 0 1000 of Inl e \<Rightarrow> False | Inr d \<Rightarrow>
     (case dispatch_with_policy (\<lambda>_ _. 0) demo_attempt ?r s d None of (res, st) \<Rightarrow>
       res = Inr (''a'', 42) \<and> map at_route_id (ds_trace st) = [''b'', ''b'', ''a'']))" by code_simp
  then obtain s d st where w: "snapshot_new_at ''run'' demo_entries 1000 = Inr s"
    "select_route_snapshot ?r s (overlay_new ''run'') None 0 1000 = Inr d"
    "dispatch_with_policy (\<lambda>_ _. 0) demo_attempt ?r s d None = (Inr (''a'', 42), st)" "map at_route_id (ds_trace st) = [''b'', ''b'', ''a'']"
    by (auto split: sum.splits prod.splits)
  have "\<forall>x. count_list (map at_route_id (ds_trace st)) x \<le> 2"
    using dispatch_within_policy [OF w(1-3)] by (simp add: demo_full_request_def)
  with w show ?thesis by (intro exI [of _ s] exI [of _ d] exI [of _ st] conjI)
qed

section \<open>The cache of decisions\<close>

text \<open>What a run does to its overlay, and the selections in between. The cache is one for the process.\<close>

datatype route_event =
    EvFail string u32 failure_category retry_config u64 | EvExclude string u32 string | EvSuccess string
  | EvSelect full_routing_request route_policy_snapshot route_gate u32 u64

fun overlay_event :: "route_event \<Rightarrow> run_health_overlay \<Rightarrow> run_health_overlay" where
  "overlay_event (EvFail route i category config now) ov = snd (record_failure_at route i category config now ov)"
| "overlay_event (EvExclude route i reason) ov = exclude_route route i reason ov"
| "overlay_event (EvSuccess route) ov = record_success route ov"
| "overlay_event (EvSelect r s catalog i now) ov = ov"

fun plain_event :: "route_event \<Rightarrow> run_health_overlay \<Rightarrow> (snapshot_error + snapshot_route_decision) option" where
  "plain_event (EvSelect r s catalog i now) ov = Some (select_route_snapshot r s ov catalog i now)"
| "plain_event _ ov = None"

type_synonym 'k cache_key = "full_routing_request \<Rightarrow> route_policy_snapshot \<Rightarrow> string \<Rightarrow> u64 \<Rightarrow> route_gate \<Rightarrow> u32 \<Rightarrow> u64 \<Rightarrow> 'k option"

fun cached_event ::
    "'k cache_key \<Rightarrow> ('c \<Rightarrow> 'k \<Rightarrow> snapshot_route_decision option \<times> 'c) \<Rightarrow> ('c \<Rightarrow> 'k \<Rightarrow> snapshot_route_decision \<Rightarrow> 'c)
     \<Rightarrow> route_event \<Rightarrow> run_health_overlay \<Rightarrow> 'c \<Rightarrow> (snapshot_error + snapshot_route_decision) option \<times> 'c" where
  "cached_event key get put (EvSelect r s catalog i now) ov c =
     (case select_route_snapshot_cached key get put r s ov catalog i now c of (res, c) \<Rightarrow> (Some res, c))"
| "cached_event key get put _ ov c = (None, c)"

fun plain_run :: "route_event list \<Rightarrow> run_health_overlay \<Rightarrow> (snapshot_error + snapshot_route_decision) option list" where
  "plain_run [] ov = []"
| "plain_run (e # es) ov = plain_event e ov # plain_run es (overlay_event e ov)"

fun cached_run ::
    "'k cache_key \<Rightarrow> ('c \<Rightarrow> 'k \<Rightarrow> snapshot_route_decision option \<times> 'c) \<Rightarrow> ('c \<Rightarrow> 'k \<Rightarrow> snapshot_route_decision \<Rightarrow> 'c)
     \<Rightarrow> route_event list \<Rightarrow> run_health_overlay \<Rightarrow> 'c \<Rightarrow> (snapshot_error + snapshot_route_decision) option list \<times> 'c" where
  "cached_run key get put [] ov c = ([], c)"
| "cached_run key get put (e # es) ov c =
     (let (res, c) = cached_event key get put e ov c; (rest, c) = cached_run key get put es (overlay_event e ov) c in (res # rest, c))"

fun cached_runs ::
    "'k cache_key \<Rightarrow> ('c \<Rightarrow> 'k \<Rightarrow> snapshot_route_decision option \<times> 'c) \<Rightarrow> ('c \<Rightarrow> 'k \<Rightarrow> snapshot_route_decision \<Rightarrow> 'c)
     \<Rightarrow> (string \<times> route_event list) list \<Rightarrow> 'c \<Rightarrow> (snapshot_error + snapshot_route_decision) option list list" where
  "cached_runs key get put [] c = []"
| "cached_runs key get put ((run_id, es) # runs) c =
     (let (res, c) = cached_run key get put es (overlay_new run_id) c in res # cached_runs key get put runs c)"

text \<open>What a selection reads of the overlay, and that the generation of a run determines it.\<close>

definition overlay_view :: "run_health_overlay \<Rightarrow> (string, circuit_entry) btree \<times> (string, exclusion_reason) btree" where
  "overlay_view ov = (ov_circuits ov, ov_excluded ov)"

lemma select_view:
  assumes "overlay_view a = overlay_view b"
  shows "select_route_snapshot r s a catalog i now = select_route_snapshot r s b catalog i now"
proof -
  have "is_excluded a = is_excluded b" "get_circuit_state a = get_circuit_state b"
    using assms by (auto simp: overlay_view_def is_excluded_def get_circuit_state_def fun_eq_iff)
  then show ?thesis by (simp only: select_route_snapshot_def ranked_candidates_def route_reject_def)
qed

definition overlay_coherent :: "run_health_overlay set \<Rightarrow> run_health_overlay \<Rightarrow> bool" where
  "overlay_coherent V ov \<longleftrightarrow> (\<forall>ov'\<in>V. ov_run_id ov' = ov_run_id ov \<longrightarrow>
     ov_generation ov' \<le> ov_generation ov \<and> (ov_generation ov' = ov_generation ov \<longrightarrow> overlay_view ov' = overlay_view ov))"

lemma word_bump:
  fixes g :: u64
  assumes "unat g + 2 < 2 ^ 64"
  shows "g < g + 1" "g < g + 1 + 1" "unat (g + 1) = unat g + 1" "unat (g + 1 + 1) = unat g + 2"
  using assms by (simp_all add: word_less_nat_alt unat_word_ariths)

lemma overlay_event_step:
  fixes ov :: run_health_overlay and e :: route_event
  assumes "unat (ov_generation ov) + 2 < 2 ^ 64"
  defines "ov' \<equiv> overlay_event e ov"
  shows "ov_run_id ov' = ov_run_id ov" "unat (ov_generation ov') \<le> unat (ov_generation ov) + 2"
    "ov_generation ov < ov_generation ov' \<or> ov_generation ov' = ov_generation ov \<and> overlay_view ov' = overlay_view ov"
  using word_bump [OF assms(1)]
  by (cases e; auto simp: ov'_def record_failure_at_def exclude_route_def record_success_def overlay_view_def Let_def split: option.splits if_splits)+

lemma overlay_coherent_event:
  assumes "overlay_coherent V ov" "unat (ov_generation ov) + 2 < 2 ^ 64"
  shows "overlay_coherent (insert (overlay_event e ov) V) (overlay_event e ov)"
  using assms(1) overlay_event_step [OF assms(2), of e] unfolding overlay_coherent_def by (auto intro: less_imp_le order.trans)

text \<open>No two selections share a key.\<close>

definition key_injective :: "'k cache_key \<Rightarrow> bool" where
  "key_injective key \<longleftrightarrow> (\<forall>r s run g catalog i now r' s' run' g' catalog' i' now' k.
     key r s run g catalog i now = Some k \<and> key r' s' run' g' catalog' i' now' = Some k \<longrightarrow>
     r = r' \<and> s = s' \<and> run = run' \<and> g = g' \<and> catalog = catalog' \<and> i = i' \<and> now = now')"

text \<open>The laws of the LRU map that the cache of decisions relies on.\<close>

locale memo_cache =
  fixes look :: "'c \<Rightarrow> 'k \<Rightarrow> snapshot_route_decision option"
    and get :: "'c \<Rightarrow> 'k \<Rightarrow> snapshot_route_decision option \<times> 'c"
    and put :: "'c \<Rightarrow> 'k \<Rightarrow> snapshot_route_decision \<Rightarrow> 'c"
  assumes get_result: "fst (get c k) = look c k"
    and get_keeps: "look (snd (get c k)) k' = look c k'"
    and put_sub: "look (put c k v) k' = Some w \<Longrightarrow> k' = k \<and> w = v \<or> look c k' = Some w"
begin

definition justified :: "'k cache_key \<Rightarrow> run_health_overlay set \<Rightarrow> 'c \<Rightarrow> bool" where
  "justified key V c \<longleftrightarrow> (\<forall>k d. look c k = Some d \<longrightarrow> (\<exists>r s ov catalog i now. ov \<in> V
     \<and> key r s (ov_run_id ov) (ov_generation ov) catalog i now = Some k \<and> select_route_snapshot r s ov catalog i now = Inr d))"

lemma justified_mono: "justified key V c \<Longrightarrow> V \<subseteq> W \<Longrightarrow> justified key W c"
  unfolding justified_def by blast

lemma justified_get: "justified key V c \<Longrightarrow> justified key V (snd (get c k))"
  unfolding justified_def get_keeps .

lemma justified_put:
  assumes "justified key V c" "ov \<in> V" "key r s (ov_run_id ov) (ov_generation ov) catalog i now = Some k" "select_route_snapshot r s ov catalog i now = Inr d"
  shows "justified key V (put c k d)"
  unfolding justified_def
proof (intro allI impI)
  fix k' d' assume "look (put c k d) k' = Some d'"
  from put_sub [OF this] consider "k' = k" "d' = d" | "look c k' = Some d'" by blast
  then show "\<exists>r s ov catalog i now. ov \<in> V \<and> key r s (ov_run_id ov) (ov_generation ov) catalog i now = Some k'
      \<and> select_route_snapshot r s ov catalog i now = Inr d'"
    using assms unfolding justified_def by cases blast+
qed

lemma hit_is_selection:
  assumes "justified key V c" "key_injective key" "overlay_coherent V ov" "key r s (ov_run_id ov) (ov_generation ov) catalog i now = Some k"
    "look c k = Some d"
  shows "select_route_snapshot r s ov catalog i now = Inr d"
proof -
  from assms(1,5) obtain r' s' ov' catalog' i' now' where o: "ov' \<in> V"
    "key r' s' (ov_run_id ov') (ov_generation ov') catalog' i' now' = Some k" "select_route_snapshot r' s' ov' catalog' i' now' = Inr d"
    unfolding justified_def by blast
  have same: "r = r' \<and> s = s' \<and> ov_run_id ov = ov_run_id ov' \<and> ov_generation ov = ov_generation ov' \<and> catalog = catalog' \<and> i = i' \<and> now = now'"
    using assms(2,4) o(2) unfolding key_injective_def by blast
  then have "overlay_view ov' = overlay_view ov" using assms(3) o(1) unfolding overlay_coherent_def by simp
  then show ?thesis using select_view [of ov' ov r s catalog i now] o(3) same by simp
qed

lemma cached_selection:
  assumes "justified key V c" "key_injective key" "overlay_coherent V ov" "ov \<in> V"
  shows "fst (select_route_snapshot_cached key get put r s ov catalog i now c) = select_route_snapshot r s ov catalog i now
    \<and> justified key V (snd (select_route_snapshot_cached key get put r s ov catalog i now c))"
proof (cases "key r s (ov_run_id ov) (ov_generation ov) catalog i now")
  case None
  then show ?thesis using assms(1) by (simp add: select_route_snapshot_cached_def)
next
  case (Some k)
  obtain found c' where g: "get c k = (found, c')" by fastforce
  then have found: "found = look c k" and c': "justified key V c'" using get_result [of c k] justified_get [OF assms(1), of k] by simp_all
  show ?thesis
  proof (cases found)
    case (Some d)
    then show ?thesis using g c' found hit_is_selection [OF assms(1-3) \<open>key _ _ _ _ _ _ _ = Some k\<close>, of d] \<open>key _ _ _ _ _ _ _ = Some k\<close>
      by (simp add: select_route_snapshot_cached_def)
  next
    case None
    then show ?thesis using g c' Some justified_put [OF c' assms(4) Some]
      by (cases "select_route_snapshot r s ov catalog i now") (simp_all add: select_route_snapshot_cached_def)
  qed
qed

lemma cached_event_plain:
  assumes "justified key V c" "key_injective key" "overlay_coherent V ov" "ov \<in> V"
  shows "fst (cached_event key get put e ov c) = plain_event e ov \<and> justified key V (snd (cached_event key get put e ov c))"
proof (cases e)
  case (EvSelect r s catalog i now)
  then show ?thesis using cached_selection [OF assms, of r s catalog i now] by (simp add: case_prod_beta)
qed (use assms(1) in simp_all)

lemma cached_run_plain:
  assumes "justified key V c" "key_injective key" "overlay_coherent V ov" "ov \<in> V" "unat (ov_generation ov) + 2 * length es < 2 ^ 64"
    "\<forall>ov'\<in>V. ov_run_id ov' \<in> R" "ov_run_id ov \<in> R"
  shows "fst (cached_run key get put es ov c) = plain_run es ov
    \<and> (\<exists>V'. (\<forall>ov'\<in>V'. ov_run_id ov' \<in> R) \<and> justified key V' (snd (cached_run key get put es ov c)))"
  using assms
proof (induction es arbitrary: V ov c)
  case Nil
  then show ?case by auto
next
  case (Cons e es)
  let ?ov = "overlay_event e ov" and ?W = "insert (overlay_event e ov) V"
  have room: "unat (ov_generation ov) + 2 < 2 ^ 64" using Cons.prems(5) by simp
  note step = overlay_event_step [OF room, of e]
  obtain res c1 where e: "cached_event key get put e ov c = (res, c1)" by fastforce
  with cached_event_plain [OF Cons.prems(1-4), of e] have res: "res = plain_event e ov" and just: "justified key V c1" by simp_all
  have "justified key ?W c1" by (rule justified_mono [OF just]) auto
  moreover have "overlay_coherent ?W ?ov" by (rule overlay_coherent_event [OF Cons.prems(3) room])
  moreover have "unat (ov_generation ?ov) + 2 * length es < 2 ^ 64" using Cons.prems(5) step(2) by simp
  moreover have "\<forall>ov'\<in>?W. ov_run_id ov' \<in> R" "ov_run_id ?ov \<in> R" using Cons.prems(6,7) step(1) by auto
  ultimately show ?case using Cons.IH [of ?W c1 ?ov] Cons.prems(2) e res by (auto simp: Let_def split: prod.splits)
qed

lemma cached_runs_plain:
  assumes "justified key V c" "key_injective key" "distinct (map fst runs)" "\<forall>(run_id, es)\<in>set runs. 2 * length es < 2 ^ 64"
    "\<forall>ov\<in>V. ov_run_id ov \<notin> set (map fst runs)"
  shows "cached_runs key get put runs c = map (\<lambda>(run_id, es). plain_run es (overlay_new run_id)) runs"
  using assms
proof (induction runs arbitrary: V c)
  case (Cons p runs)
  obtain run_id es where p: "p = (run_id, es)" by fastforce
  let ?ov = "overlay_new run_id" and ?R = "insert run_id {x. x \<notin> set (map fst (p # runs))}"
  have "justified key (insert ?ov V) c" by (rule justified_mono [OF Cons.prems(1)]) auto
  moreover have "overlay_coherent (insert ?ov V) ?ov" using Cons.prems(5) by (auto simp: overlay_coherent_def overlay_new_def p)
  moreover have "unat (ov_generation ?ov) + 2 * length es < 2 ^ 64" using Cons.prems(4) by (simp add: p overlay_new_def)
  moreover have "\<forall>ov'\<in>insert ?ov V. ov_run_id ov' \<in> ?R" "ov_run_id ?ov \<in> ?R" using Cons.prems(5) by (auto simp: overlay_new_def)
  ultimately obtain V' where run: "fst (cached_run key get put es ?ov c) = plain_run es ?ov"
    and V': "\<forall>ov'\<in>V'. ov_run_id ov' \<in> ?R" "justified key V' (snd (cached_run key get put es ?ov c))"
    using cached_run_plain [of key "insert ?ov V" c ?ov es ?R] Cons.prems(2) by blast
  have "\<forall>ov\<in>V'. ov_run_id ov \<notin> set (map fst runs)" using V'(1) Cons.prems(3) by (auto simp: p)
  then show ?case using Cons.IH [OF V'(2) Cons.prems(2)] Cons.prems(3,4) run by (simp add: p Let_def case_prod_beta)
qed simp

end

text \<open>A list with the most recent entry first, cut at the capacity, meets the laws.\<close>

definition ROUTE_CACHE_CAPACITY :: nat where "ROUTE_CACHE_CAPACITY = 256"

type_synonym 'k route_cache = "('k \<times> snapshot_route_decision) list"

definition route_cache_get :: "'k route_cache \<Rightarrow> 'k \<Rightarrow> snapshot_route_decision option \<times> 'k route_cache" where
  "route_cache_get c k = (case map_of c k of None \<Rightarrow> (None, c) | Some d \<Rightarrow> (Some d, (k, d) # filter (\<lambda>p. fst p \<noteq> k) c))"

definition route_cache_put :: "'k route_cache \<Rightarrow> 'k \<Rightarrow> snapshot_route_decision \<Rightarrow> 'k route_cache" where
  "route_cache_put c k d = (k, d) # take (ROUTE_CACHE_CAPACITY - 1) (filter (\<lambda>p. fst p \<noteq> k) c)"

lemma map_of_without: "k' \<noteq> k \<Longrightarrow> map_of (filter (\<lambda>p. fst p \<noteq> k) c) k' = map_of c k'"
  by (induction c) auto

lemma map_of_take: "map_of (take n c) k = Some d \<Longrightarrow> map_of c k = Some d"
proof (induction c arbitrary: n)
  case (Cons p c)
  then show ?case by (cases n) (auto split: if_splits)
qed simp

interpretation route_cache: memo_cache map_of route_cache_get route_cache_put
proof
  fix c :: "'k route_cache" and k k' and v w
  show "fst (route_cache_get c k) = map_of c k" by (simp add: route_cache_get_def split: option.split)
  show "map_of (snd (route_cache_get c k)) k' = map_of c k'" by (auto simp: route_cache_get_def map_of_without split: option.split)
  assume "map_of (route_cache_put c k v) k' = Some w"
  then show "k' = k \<and> w = v \<or> map_of c k' = Some w"
    by (auto simp: route_cache_put_def map_of_without dest!: map_of_take split: if_splits)
qed


definition demo_key :: "(full_routing_request \<times> route_policy_snapshot \<times> string \<times> u64 \<times> route_gate \<times> u32 \<times> u64) cache_key" where
  "demo_key r s run g catalog i now = Some (r, s, run, g, catalog, i, now)"

definition demo_events :: "route_policy_snapshot \<Rightarrow> route_event list" where
  "demo_events s = [EvSelect (demo_full_request False) s None 0 1000, EvSelect (demo_full_request False) s None 0 1000,
     EvFail ''b'' 1 FailTimeout retry_config_default 1001, EvSelect (demo_full_request False) s None 0 1000,
     EvFail ''b'' 2 FailTimeout retry_config_default 1002, EvSelect (demo_full_request False) s None 0 1000]"

definition selected_of :: "(snapshot_error + snapshot_route_decision) option \<Rightarrow> string option" where
  "selected_of res = (case res of Some (Inr d) \<Rightarrow> sd_selected_route d | _ \<Rightarrow> None)"


section \<open>Delays\<close>

lemma le_sat_add: "a \<le> sat_add a b" for a b :: u64
  using unat_le_max [of a] by (simp add: word_le_nat_alt sat_unat)

text \<open>For a valid configuration and whatever the jitter, a delay is at least the exponential one and at most the
  cap, which is at most a minute.\<close>

theorem route_backoff_bounds:
  assumes "retry_config_validate jitter_ok config = None"
  shows "min (sat_mul (rcf_initial_backoff_ms config) (2 ^ min (unat (sat_sub attempt 1)) 63)) (rcf_max_backoff_ms config)
      \<le> route_backoff jitter digest config attempt run_id route_id
    \<and> route_backoff jitter digest config attempt run_id route_id \<le> rcf_max_backoff_ms config \<and> rcf_max_backoff_ms config \<le> 60000"
proof -
  have "rcf_max_backoff_ms config \<le> 60000" using assms by (auto simp: retry_config_validate_def not_less split: if_splits)
  moreover have "min a m \<le> min (sat_add (min a m) j) m" "min (sat_add (min a m) j) m \<le> m" for a m j :: u64
    using le_sat_add [of "min a m" j] by simp_all
  ultimately show ?thesis unfolding route_backoff_def Let_def by blast
qed

theorem retry_config_default_valid: "retry_config_validate True retry_config_default = None"
  by code_simp

section \<open>Where the code departs from its documentation\<close>

text \<open>The gateway never reports a rate limit, so no run puts a route on cooldown; and once a route is on cooldown, selection refuses it
  also after the cooldown has expired.\<close>

theorem rate_limit_never_classified: "classify_failure e \<noteq> FailRateLimited"
  by (cases e) auto

theorem expired_cooldown_still_rejected:
  "\<exists>s ov. snapshot_new_at ''run'' demo_entries 1000 = Inr s
    \<and> ov = overlay_event (EvFail ''b'' 3 FailRateLimited retry_config_default 1000)
       (overlay_event (EvFail ''b'' 2 FailRateLimited retry_config_default 1000)
         (overlay_event (EvFail ''b'' 1 FailRateLimited retry_config_default 1000) (overlay_new ''run'')))
    \<and> is_cooldown_expired_at ov ''b'' 31000 \<and> \<not> is_cooldown_expired_at ov ''b'' 30999
    \<and> route_reject (demo_full_request False) s ov None 31000 (demo_entry ''b'' 10 ExecLocal PrivacySensitive) = Some ''circuit_open''"
proof -
  let ?ov = "overlay_event (EvFail ''b'' 3 FailRateLimited retry_config_default 1000)
       (overlay_event (EvFail ''b'' 2 FailRateLimited retry_config_default 1000)
         (overlay_event (EvFail ''b'' 1 FailRateLimited retry_config_default 1000) (overlay_new ''run'')))"
  have "case snapshot_new_at ''run'' demo_entries 1000 of Inl e \<Rightarrow> False | Inr s \<Rightarrow>
    is_cooldown_expired_at ?ov ''b'' 31000 \<and> \<not> is_cooldown_expired_at ?ov ''b'' 30999
    \<and> route_reject (demo_full_request False) s ?ov None 31000 (demo_entry ''b'' 10 ExecLocal PrivacySensitive) = Some ''circuit_open''"
    by code_simp
  then show ?thesis by (auto split: sum.splits)
qed

end
