(* ===== verification/Model_Gateway.thy ===== *)
theory Model_Gateway
  imports Route_Snapshot
begin

text \<open>
  \<open>crates/model-gateway/src/lib.rs\<close>: the gateway over its routes. It builds the candidates and the snapshot of a request,
  sends a chat along the routes that the policy selects, and checks a request for images; and \<open>retry.rs\<close>, the classification of rate
  limits and the delays of the transport. The routes are a map that the code reads by key or in sorted order. A provider is the
  record of what it declares; what it answers, what the preflight of the core and the hook of a route say are arguments.
\<close>

section \<open>Providers and the gateway\<close>

datatype provider_kind = KindLiteRouter | KindOpenAICompatible | KindOpenAIResponses | KindOllama | KindLocal | KindMock

fun provider_kind_as_str :: "provider_kind \<Rightarrow> string" where
  "provider_kind_as_str KindLiteRouter = ''literouter''"
| "provider_kind_as_str KindOpenAICompatible = ''openai_compatible''"
| "provider_kind_as_str KindOpenAIResponses = ''openai_responses''"
| "provider_kind_as_str KindOllama = ''ollama''"
| "provider_kind_as_str KindLocal = ''local''"
| "provider_kind_as_str KindMock = ''mock''"

datatype image_output_operation = ImageGenerate | ImageEdit | ImageMaskEdit

record image_output_capability =
  ic_schema_version :: string
  ic_provenance :: string
  ic_capability_epoch :: u64
  ic_operations :: "image_output_operation list"
  ic_mime_types :: "string list"
  ic_privacy_boundary :: privacy_level
  ic_execution_class :: execution_class
  ic_max_bytes :: u64
  ic_max_width :: u32
  ic_max_height :: u32
  ic_max_pixels :: u64
  ic_max_outputs :: "8 word"

definition image_capability_validate :: "unicode \<Rightarrow> image_output_capability \<Rightarrow> bool" where
  "image_capability_validate U c \<longleftrightarrow> ic_schema_version c = ''image-output-capability/v1''
     \<and> str_trim U (ic_provenance c) \<noteq> [] \<and> length (ic_provenance c) \<le> SNAPSHOT_MAX_ID_BYTES
     \<and> ic_capability_epoch c > 0
     \<and> ic_operations c \<noteq> [] \<and> length (ic_operations c) \<le> 3
     \<and> ic_mime_types c \<noteq> [] \<and> length (ic_mime_types c) \<le> 4
     \<and> list_all (\<lambda>mime. mime = ''image/png'' \<or> mime = ''image/jpeg'') (ic_mime_types c)
     \<and> 1 \<le> ic_max_bytes c \<and> ic_max_bytes c \<le> 32 * 1024 * 1024
     \<and> 1 \<le> ic_max_width c \<and> ic_max_width c \<le> 8192
     \<and> 1 \<le> ic_max_height c \<and> ic_max_height c \<le> 8192
     \<and> 1 \<le> ic_max_pixels c \<and> ic_max_pixels c \<le> 64 * 1024 * 1024
     \<and> 1 \<le> ic_max_outputs c \<and> ic_max_outputs c \<le> 8"

record image_request =
  ir_operation :: image_output_operation
  ir_width :: u32
  ir_height :: u32
  ir_count :: "8 word"
  ir_mime_type :: string
  ir_required_privacy :: privacy_level
  ir_allow_cloud :: bool

record model_provider =
  mp_kind :: provider_kind
  mp_model_name :: string
  mp_image :: "image_output_capability option"
  mp_structured_output :: bool
  mp_tool_calls :: bool

record route_preflight =
  pf_check :: "string \<Rightarrow> string option \<Rightarrow> u64 \<Rightarrow> provider_error option"
  pf_requires_free :: bool
  pf_prefers_free :: bool
  pf_verified_free :: "string \<Rightarrow> string \<Rightarrow> u64 \<Rightarrow> bool"

record model_gateway =
  mg_default_route :: string
  mg_routes :: "(string, model_provider) btree"
  mg_preflight :: "route_preflight option"

definition gateway_from_provider :: "model_provider \<Rightarrow> model_gateway" where
  "gateway_from_provider p = \<lparr>mg_default_route = ''default'', mg_routes = [(''default'', p)], mg_preflight = None\<rparr>"

definition gateway_from_routes :: "string \<Rightarrow> (string, model_provider) btree \<Rightarrow> provider_error + model_gateway" where
  "gateway_from_routes default_route routes =
     (case bt_get routes default_route of
        None \<Rightarrow> Inl (ConfigError (''unknown default route: '' @ default_route))
      | Some p \<Rightarrow> Inr \<lparr>mg_default_route = default_route, mg_routes = routes, mg_preflight = None\<rparr>)"

definition with_route_preflight :: "route_preflight \<Rightarrow> model_gateway \<Rightarrow> model_gateway" where
  "with_route_preflight pf g = g\<lparr>mg_preflight := Some pf\<rparr>"

definition provider_for_route :: "model_gateway \<Rightarrow> string \<Rightarrow> provider_error + model_provider" where
  "provider_for_route g route =
     (case bt_get (mg_routes g) route of None \<Rightarrow> Inl (ConfigError (''unknown model route: '' @ route)) | Some p \<Rightarrow> Inr p)"

definition chosen_model :: "unicode \<Rightarrow> string option \<Rightarrow> string \<Rightarrow> string" where
  "chosen_model U model dflt =
     (case model of None \<Rightarrow> dflt | Some m \<Rightarrow> (if str_trim U m = [] then dflt else str_trim U m))"

definition resolve_model_name :: "unicode \<Rightarrow> model_gateway \<Rightarrow> string \<Rightarrow> string option \<Rightarrow> provider_error + string" where
  "resolve_model_name U g route model =
     (case provider_for_route g route of Inl e \<Rightarrow> Inl e | Inr p \<Rightarrow> Inr (chosen_model U model (mp_model_name p)))"

definition route_capability_snapshot ::
    "unicode \<Rightarrow> model_gateway \<Rightarrow> string \<Rightarrow> string option \<Rightarrow> provider_error + (string \<times> string \<times> string \<times> bool \<times> bool)" where
  "route_capability_snapshot U g route model =
     (case provider_for_route g route of Inl e \<Rightarrow> Inl e
      | Inr p \<Rightarrow>
          case resolve_model_name U g route model of Inl e \<Rightarrow> Inl e
          | Inr m \<Rightarrow> Inr (route, m, provider_kind_as_str (mp_kind p), mp_tool_calls p, mp_structured_output p))"

section \<open>Images\<close>

definition image_output_capability_for_route :: "unicode \<Rightarrow> model_gateway \<Rightarrow> string \<Rightarrow> provider_error + image_output_capability option" where
  "image_output_capability_for_route U g route =
     (case provider_for_route g route of Inl e \<Rightarrow> Inl e
      | Inr p \<Rightarrow>
          case mp_image p of None \<Rightarrow> Inr None
          | Some c \<Rightarrow> if \<not> image_capability_validate U c then Inl (ConfigError ''invalid_image_output_capability'') else Inr (Some c))"

definition route_is_cloud :: "model_provider \<Rightarrow> bool" where
  "route_is_cloud p \<longleftrightarrow> mp_kind p \<noteq> KindLocal \<and> mp_kind p \<noteq> KindOllama \<and> mp_kind p \<noteq> KindMock"

definition image_refused :: "unicode \<Rightarrow> model_provider \<Rightarrow> u64 option \<Rightarrow> image_request \<Rightarrow> image_output_capability \<Rightarrow> bool" where
  "image_refused U p expected_epoch r c \<longleftrightarrow> \<not> image_capability_validate U c
     \<or> (case expected_epoch of Some epoch \<Rightarrow> ic_capability_epoch c \<noteq> epoch | None \<Rightarrow> False)
     \<or> ir_operation r \<notin> set (ic_operations c)
     \<or> ir_mime_type r \<notin> set (ic_mime_types c)
     \<or> ir_count r = 0 \<or> ir_count r > ic_max_outputs c
     \<or> ir_width r = 0 \<or> ir_width r > ic_max_width c
     \<or> ir_height r = 0 \<or> ir_height r > ic_max_height c
     \<or> ir_required_privacy r > ic_privacy_boundary c
     \<or> route_is_cloud p \<and> \<not> ir_allow_cloud r
     \<or> ic_execution_class c = ExecLocal \<and> route_is_cloud p
     \<or> ic_execution_class c = ExecCloud \<and> \<not> route_is_cloud p
     \<or> sat_mul (ucast (ir_width r)) (ucast (ir_height r)) > ic_max_pixels c"

definition preflight_image_output_for_route ::
    "unicode \<Rightarrow> model_gateway \<Rightarrow> string \<Rightarrow> u64 option \<Rightarrow> image_request \<Rightarrow> u64 \<Rightarrow> provider_error + image_output_capability" where
  "preflight_image_output_for_route U g route expected_epoch r clock =
     (case provider_for_route g route of Inl e \<Rightarrow> Inl e
      | Inr p \<Rightarrow>
          case mp_image p of
            None \<Rightarrow> Inl (if expected_epoch \<noteq> None then ImageCapabilityStale else ConfigError ''image_output_unsupported'')
          | Some c \<Rightarrow>
              if image_refused U p expected_epoch r c then
                (if (case expected_epoch of Some epoch \<Rightarrow> ic_capability_epoch c \<noteq> epoch | None \<Rightarrow> False) then Inl ImageCapabilityStale
                 else Inl (ConfigError ''image_request_outside_capability''))
              else case mg_preflight g of None \<Rightarrow> Inr c
              | Some pf \<Rightarrow> (case pf_check pf route None clock of Some e \<Rightarrow> Inl e | None \<Rightarrow> Inr c))"

text \<open>\<open>generate\<close> is the call of the provider.\<close>

definition generate_image_for_route_at_epoch ::
    "unicode \<Rightarrow> (model_provider \<Rightarrow> image_request \<Rightarrow> provider_error + 'i) \<Rightarrow> model_gateway \<Rightarrow> string \<Rightarrow> u64 option \<Rightarrow> image_request \<Rightarrow> u64
     \<Rightarrow> provider_error + 'i" where
  "generate_image_for_route_at_epoch U generate g route expected_epoch r clock =
     (case provider_for_route g route of Inl e \<Rightarrow> Inl e
      | Inr p \<Rightarrow>
          case image_output_capability_for_route U g route of Inl e \<Rightarrow> Inl e
          | Inr None \<Rightarrow> Inl (ConfigError ''image_output_unsupported'')
          | Inr (Some _) \<Rightarrow>
              (case preflight_image_output_for_route U g route expected_epoch r clock of
                 Inl ImageCapabilityStale \<Rightarrow> Inl ImageCapabilityStale
               | Inl _ \<Rightarrow> Inl ImagePreflightRejected
               | Inr _ \<Rightarrow> generate p r))"

section \<open>Candidates and snapshots\<close>

definition verified_free :: "model_gateway \<Rightarrow> string \<Rightarrow> string \<Rightarrow> u64 \<Rightarrow> bool" where
  "verified_free g route model clock = (case mg_preflight g of None \<Rightarrow> False | Some pf \<Rightarrow> pf_verified_free pf route model clock)"

definition requires_verified_free :: "model_gateway \<Rightarrow> bool" where
  "requires_verified_free g = (case mg_preflight g of None \<Rightarrow> False | Some pf \<Rightarrow> pf_requires_free pf)"

definition prefers_verified_free :: "model_gateway \<Rightarrow> bool" where
  "prefers_verified_free g = (case mg_preflight g of None \<Rightarrow> False | Some pf \<Rightarrow> pf_prefers_free pf)"

definition route_candidate_of :: "unicode \<Rightarrow> model_gateway \<Rightarrow> u64 \<Rightarrow> string \<times> model_provider \<Rightarrow> route_candidate option" where
  "route_candidate_of U g clock entry =
     (case entry of (route, p) \<Rightarrow>
        let model = mp_model_name p; free = verified_free g route model clock in
        if requires_verified_free g \<and> \<not> free then None
        else Some \<lparr>rc_route_id = route, rc_model = model,
          rc_capabilities = ''chat'' # (case mp_image p of Some c \<Rightarrow> (if image_capability_validate U c then [''image_output''] else []) | None \<Rightarrow> []),
          rc_cost = (if prefers_verified_free g then (if free then 0 else 1) else if ends_with model '':free'' then 0 else 1),
          rc_latency = 0, rc_privacy = PrivacyInternal, rc_available = True, rc_fallback_rank = 0\<rparr>)"

definition route_candidates :: "unicode \<Rightarrow> model_gateway \<Rightarrow> u64 \<Rightarrow> route_candidate list" where
  "route_candidates U g clock = List.map_filter (route_candidate_of U g clock) (mg_routes g)"

definition plan_route ::
    "unicode \<Rightarrow> model_gateway \<Rightarrow> routing_mode \<Rightarrow> full_routing_request \<Rightarrow> route_limits \<Rightarrow> u64 \<Rightarrow> route_run_error + routing_runtime" where
  "plan_route U g mode r limits clock = runtime_plan mode (routing_request.truncate r) (route_candidates U g clock) limits"

definition unknown_at :: "u64 \<Rightarrow> candidate_health" where
  "unknown_at now = \<lparr>ch_status = HealthUnknown, ch_observed_at = now, ch_ttl_ms = 0, ch_circuit_state = CircuitClosed, ch_last_failure = None\<rparr>"

definition snapshot_entry :: "unicode \<Rightarrow> model_gateway \<Rightarrow> string option \<Rightarrow> u64 \<Rightarrow> route_candidate \<Rightarrow> candidate_entry" where
  "snapshot_entry U g model_override now c =
     \<lparr>ce_route_id = rc_route_id c,
      ce_model = (if rc_route_id c = mg_default_route g then chosen_model U model_override (rc_model c) else rc_model c),
      ce_capabilities = \<lparr>cm_schema_version = ''capability-metadata-v1'', cm_provider_version = ''gateway'', cm_capability_epoch = 1,
        cm_tool_calling = True, cm_structured_output = True, cm_context_limit = None, cm_streaming = True, cm_vision = False,
        cm_execution_class = (case bt_get (mg_routes g) (rc_route_id c) of
          Some p \<Rightarrow> (if mp_kind p = KindLocal then ExecLocal else ExecCloud) | None \<Rightarrow> ExecCloud),
        cm_privacy_boundary = PrivacyInternal\<rparr>,
      ce_initial_health = unknown_at now,
      ce_cost = rc_cost c, ce_latency = rc_latency c, ce_privacy = PrivacyInternal, ce_fallback_rank = rc_fallback_rank c\<rparr>"

definition route_policy_snapshot_with_model ::
    "unicode \<Rightarrow> model_gateway \<Rightarrow> string option \<Rightarrow> u64 \<Rightarrow> u64 \<Rightarrow> snapshot_error + route_policy_snapshot" where
  "route_policy_snapshot_with_model U g model_override now clock =
     snapshot_new_at (''run-'' @ show_word now) (map (snapshot_entry U g model_override now) (route_candidates U g clock)) now"

section \<open>Chat under the policy\<close>

fun snapshot_error_text :: "snapshot_error \<Rightarrow> string" where
  "snapshot_error_text (SnapTooManyCandidates n) = ''too many candidates: '' @ show_nat n @ '' > '' @ show_nat MAX_SNAPSHOT_CANDIDATES"
| "snapshot_error_text (SnapInvalidRouteId m) = ''invalid route ID: '' @ m"
| "snapshot_error_text (SnapInvalidModelName m) = ''invalid model name: '' @ m"
| "snapshot_error_text (SnapDuplicateRouteId m) = ''duplicate route ID: '' @ m"
| "snapshot_error_text (SnapUnsupportedSchema m) = ''unsupported schema version: '' @ m"
| "snapshot_error_text (SnapMissingField m) = ''missing required field: '' @ m"

fun debug_run_state :: "route_run_state \<Rightarrow> string" where
  "debug_run_state RunPlanned = ''Planned''"
| "debug_run_state RunRunning = ''Running''"
| "debug_run_state RunPaused = ''Paused''"
| "debug_run_state RunStopped = ''Stopped''"
| "debug_run_state RunCompleted = ''Completed''"
| "debug_run_state RunFailed = ''Failed''"

fun run_error_text :: "route_run_error \<Rightarrow> string" where
  "run_error_text (LimitOutOfBounds m) = ''runtime limit is out of bounds: '' @ m"
| "run_error_text NoRoute = ''no route is eligible for the selected routing mode''"
| "run_error_text (InvalidTransition st) = ''invalid state transition from '' @ debug_run_state st"
| "run_error_text (BudgetExceeded m) = ''runtime budget exceeded: '' @ m"
| "run_error_text SecretLikeTelemetry = ''runtime telemetry field is secret-like''"

text \<open>One attempt at a route: \<open>check\<close> is the asynchronous check of the preflight, \<open>prepare\<close> the hook (or the messages as they are), \<open>send\<close> the
  call of the provider.\<close>

definition gateway_attempt ::
    "model_gateway \<Rightarrow> (u32 \<Rightarrow> string \<Rightarrow> provider_error option) \<Rightarrow> (u32 \<Rightarrow> string \<Rightarrow> provider_error + 'p) \<Rightarrow> (u32 \<Rightarrow> string \<Rightarrow> 'p \<Rightarrow> provider_error + 'r)
     \<Rightarrow> u32 \<Rightarrow> string \<Rightarrow> 'r attempt_outcome" where
  "gateway_attempt g check prepare send i route =
     (case (if mg_preflight g = None then None else check i route) of Some e \<Rightarrow> PreflightRejected e
      | None \<Rightarrow>
          case prepare i route of Inl e \<Rightarrow> PrepareFailed e
          | Inr p \<Rightarrow> (case send i route p of Inl e \<Rightarrow> DispatchFailed e | Inr x \<Rightarrow> Dispatched x))"

record 'r chat_outcome =
  co_result :: "provider_error + string \<times> 'r"
  co_attempted :: "string list"

definition pinned_route :: "routing_decision \<Rightarrow> string option \<Rightarrow> provider_error + string" where
  "pinned_route d pin =
     (case pin of
        Some p \<Rightarrow> if rd_selected_route d = Some p \<or> p \<in> set (rd_fallback_chain d) then Inr p
                  else Inl (ConfigError ''pinned_route_not_eligible'')
      | None \<Rightarrow> (case rd_selected_route d of Some p \<Rightarrow> Inr p | None \<Rightarrow> Inl (ConfigError ''routing policy selected no route'')))"

text \<open>A call: the arguments of \<open>chat_with_tools_with_policy_and_route_hook_options\<close>, the times it reads and what its attempts lead to.\<close>

record 'r chat_call =
  cc_mode :: routing_mode
  cc_request :: full_routing_request
  cc_model :: "string option"
  cc_catalog :: route_gate
  cc_pin :: "string option"
  cc_now :: u64
  cc_clock :: u64
  cc_backoff :: "string \<Rightarrow> u32 \<Rightarrow> string \<Rightarrow> u64"
  cc_attempt :: "u32 \<Rightarrow> string \<Rightarrow> 'r attempt_outcome"

definition policy_dispatched :: "full_routing_request \<Rightarrow> bool" where
  "policy_dispatched r \<longleftrightarrow> rr_task_class r \<noteq> None \<or> rr_offline r \<or> rr_estimated_input_tokens r > 0"

definition chat_by_plan :: "unicode \<Rightarrow> model_gateway \<Rightarrow> 'r chat_call \<Rightarrow> 'r chat_outcome" where
  "chat_by_plan U g call =
     (case plan_route U g (cc_mode call) (cc_request call) route_limits_default (cc_clock call) of
        Inl e \<Rightarrow> \<lparr>co_result = Inl (ConfigError (run_error_text e)), co_attempted = []\<rparr>
      | Inr runtime \<Rightarrow>
          case pinned_route (rn_decision runtime) (cc_pin call) of
            Inl e \<Rightarrow> \<lparr>co_result = Inl e, co_attempted = []\<rparr>
          | Inr route \<Rightarrow>
              \<lparr>co_result = (case cc_attempt call 1 route of Dispatched x \<Rightarrow> Inr (route, x) | PreflightRejected e \<Rightarrow> Inl e
                 | PrepareFailed e \<Rightarrow> Inl e | DispatchFailed e \<Rightarrow> Inl e),
               co_attempted = [route]\<rparr>)"

definition gateway_chat ::
    "'k cache_key \<Rightarrow> ('c \<Rightarrow> 'k \<Rightarrow> snapshot_route_decision option \<times> 'c) \<Rightarrow> ('c \<Rightarrow> 'k \<Rightarrow> snapshot_route_decision \<Rightarrow> 'c)
     \<Rightarrow> unicode \<Rightarrow> model_gateway \<Rightarrow> 'r chat_call \<Rightarrow> 'c \<Rightarrow> 'r chat_outcome \<times> 'c" where
  "gateway_chat key get put U g call cache =
     (let r = cc_request call; now = cc_now call in
      if policy_dispatched r then
        case route_policy_snapshot_with_model U g (cc_model call) now (cc_clock call) of
          Inl e \<Rightarrow> (\<lparr>co_result = Inl (ConfigError (snapshot_error_text e)), co_attempted = []\<rparr>, cache)
        | Inr s \<Rightarrow>
            case select_route_snapshot_cached key get put r s (overlay_new (rs_run_id s)) (cc_catalog call) 0 now cache of
              (Inl e, cache) \<Rightarrow> (\<lparr>co_result = Inl (ConfigError (snapshot_error_text e)), co_attempted = []\<rparr>, cache)
            | (Inr d, cache) \<Rightarrow>
                case dispatch_with_policy (cc_backoff call (rs_run_id s)) (cc_attempt call) r s d (cc_pin call) of
                  (res, st) \<Rightarrow> (\<lparr>co_result = res, co_attempted = map at_route_id (ds_trace st)\<rparr>, cache)
      else (chat_by_plan U g call, cache))"

fun gateway_calls ::
    "'k cache_key \<Rightarrow> ('c \<Rightarrow> 'k \<Rightarrow> snapshot_route_decision option \<times> 'c) \<Rightarrow> ('c \<Rightarrow> 'k \<Rightarrow> snapshot_route_decision \<Rightarrow> 'c)
     \<Rightarrow> unicode \<Rightarrow> model_gateway \<Rightarrow> 'r chat_call list \<Rightarrow> 'c \<Rightarrow> 'r chat_outcome list" where
  "gateway_calls key get put U g [] cache = []"
| "gateway_calls key get put U g (call # calls) cache =
     (case gateway_chat key get put U g call cache of (out, cache) \<Rightarrow> out # gateway_calls key get put U g calls cache)"

text \<open>\<open>stream_chat_with_policy\<close> up to the call of the provider: the route, after the check of the preflight.\<close>

definition stream_chat_with_policy :: "unicode \<Rightarrow> model_gateway \<Rightarrow> routing_mode \<Rightarrow> full_routing_request \<Rightarrow> u64 \<Rightarrow> provider_error + string" where
  "stream_chat_with_policy U g mode r clock =
     (case plan_route U g mode r route_limits_default clock of
        Inl e \<Rightarrow> Inl (ConfigError (run_error_text e))
      | Inr runtime \<Rightarrow>
          case runtime_start runtime of
            (Some e, _) \<Rightarrow> Inl (ConfigError (run_error_text e))
          | (None, runtime) \<Rightarrow>
              case rd_selected_route (rn_decision runtime) of
                None \<Rightarrow> Inl (ConfigError ''routing policy selected no route'')
              | Some route \<Rightarrow>
                  (case (case mg_preflight g of None \<Rightarrow> None | Some pf \<Rightarrow> pf_check pf route None clock) of
                     Some e \<Rightarrow> Inl e
                   | None \<Rightarrow> (case provider_for_route g route of Inl e \<Rightarrow> Inl e | Inr p \<Rightarrow> Inr route)))"

section \<open>Retries of the transport\<close>

datatype rate_limit_class = RateTransient | RateExhausted | RateUnknown

definition EXHAUSTED_MARKERS :: "string list" where
  "EXHAUSTED_MARKERS = [''quota exceeded'', ''quota_exceeded'', ''daily limit'', ''monthly limit'', ''hourly limit'', ''limit exceeded'', ''billing'']"

definition classify_rate_limit :: "nat \<Rightarrow> string \<Rightarrow> rate_limit_class option" where
  "classify_rate_limit status body =
     (let lower = to_ascii_lowercase body in
      if \<not> (status = 429 \<or> status = 403 \<and> str_contains lower ''rate limit'') then None
      else if list_ex (\<lambda>marker. str_contains lower marker) EXHAUSTED_MARKERS then Some RateExhausted
      else if str_contains lower ''retry'' \<or> str_contains lower ''temporar'' then Some RateTransient
      else Some RateUnknown)"

definition is_retryable_status :: "nat \<Rightarrow> bool" where
  "is_retryable_status status \<longleftrightarrow> status \<in> {408, 429, 500, 502, 503, 504}"

text \<open>Durations are natural numbers of nanoseconds; \<open>checked_mul\<close> fails at \<open>2 ^ 64\<close> seconds.\<close>

record http_retry_policy =
  rp_http_max_retries :: u32
  rp_base_delay :: nat
  rp_max_delay :: nat

definition clamp_delay :: "nat \<Rightarrow> http_retry_policy \<Rightarrow> nat" where
  "clamp_delay delay policy = (if delay > rp_max_delay policy then rp_max_delay policy else if delay = 0 then 1000000 else delay)"

definition http_backoff :: "u32 \<Rightarrow> http_retry_policy \<Rightarrow> nat option \<Rightarrow> nat" where
  "http_backoff attempt policy retry_after =
     (case retry_after of
        Some d \<Rightarrow> clamp_delay d policy
      | None \<Rightarrow>
          let factor = 2 ^ min (unat attempt) 16;
              scaled = rp_base_delay policy * factor
          in clamp_delay (if scaled < 2 ^ 64 * 1000000000 then scaled else rp_max_delay policy) policy)"

section \<open>What the candidates are\<close>

lemma route_candidates_entry:
  assumes "bt_ok (mg_routes g)" "c \<in> set (route_candidates U g clock)"
  obtains p where "bt_get (mg_routes g) (rc_route_id c) = Some p" "rc_model c = mp_model_name p" "rc_privacy c = PrivacyInternal"
    "requires_verified_free g \<longrightarrow> verified_free g (rc_route_id c) (mp_model_name p) clock"
proof -
  from assms(2) obtain route p where e: "(route, p) \<in> set (mg_routes g)" "route_candidate_of U g clock (route, p) = Some c"
    by (auto simp: route_candidates_def List.map_filter_def)
  then have "rc_route_id c = route \<and> rc_model c = mp_model_name p \<and> rc_privacy c = PrivacyInternal
      \<and> (requires_verified_free g \<longrightarrow> verified_free g route (mp_model_name p) clock)"
    by (auto simp: route_candidate_of_def Let_def split: if_splits)
  then show ?thesis using that [of p] e(1) by (simp add: bt_get_Some [OF assms(1)])
qed

lemma decide_route_member:
  assumes "rd_selected_route (decide_route r ranked) = Some x \<or> x \<in> set (rd_fallback_chain (decide_route r ranked))"
  shows "x \<in> rc_route_id ` set ranked"
  using assms by (cases ranked) (auto simp: decide_route_def Let_def split: if_splits dest: in_set_takeD)

lemma planned_route_candidate:
  assumes "runtime_plan mode r cs l = Inr n" "pinned_route (rn_decision n) pin = Inr route"
  shows "\<exists>c\<in>set cs. rc_route_id c = route \<and> rr_required_privacy r \<le> rc_privacy c"
proof -
  from assms(1) obtain reason where "choose_mode mode r cs = Inr (rn_decision n, reason)"
    by (auto simp: runtime_plan_def split: option.splits sum.splits)
  then have "select_route r cs = Inr (rn_decision n) \<or> select_route r (filter (mode_admits mode) cs) = Inr (rn_decision n)"
    by (auto simp: choose_mode_def Let_def split: if_splits sum.splits)
  then have "\<exists>sub. set sub \<subseteq> set cs \<and> select_route r sub = Inr (rn_decision n)"
    by (metis filter_is_subset subset_refl)
  then obtain sub where sub: "set sub \<subseteq> set cs" "select_route r sub = Inr (rn_decision n)" by blast
  then have d: "rn_decision n = decide_route r (ranked_routes r sub)" by (simp add: select_route_Inr)
  have "rd_selected_route (rn_decision n) = Some route \<or> route \<in> set (rd_fallback_chain (rn_decision n))"
    using assms(2) by (auto simp: pinned_route_def split: option.splits if_splits)
  then have "route \<in> rc_route_id ` set (ranked_routes r sub)" unfolding d by (rule decide_route_member)
  then show ?thesis using sub(1) by (auto simp: set_ranked_routes route_eligible_def privacy_permits_def)
qed

section \<open>What a call does\<close>

definition route_permitted :: "model_gateway \<Rightarrow> 'r chat_call \<Rightarrow> string \<Rightarrow> bool" where
  "route_permitted g call route \<longleftrightarrow> (\<exists>p. bt_get (mg_routes g) route = Some p
     \<and> rr_required_privacy (cc_request call) \<le> PrivacyInternal
     \<and> (rr_offline (cc_request call) \<longrightarrow> mp_kind p = KindLocal)
     \<and> (policy_dispatched (cc_request call) \<and> (\<not> rr_allow_cloud (cc_request call) \<or> unknown_class (cc_request call)) \<longrightarrow> mp_kind p = KindLocal)
     \<and> (requires_verified_free g \<longrightarrow> verified_free g route (mp_model_name p) (cc_clock call)))"

definition call_respected :: "model_gateway \<Rightarrow> 'r chat_call \<Rightarrow> 'r chat_outcome \<Rightarrow> bool" where
  "call_respected g call out \<longleftrightarrow> length (co_attempted out) \<le> 3
     \<and> (\<forall>route\<in>set (co_attempted out). route_permitted g call route \<and> (\<forall>p. cc_pin call = Some p \<longrightarrow> route = p))
     \<and> (\<forall>route x. co_result out = Inr (route, x) \<longrightarrow> co_attempted out \<noteq> [] \<and> last (co_attempted out) = route
         \<and> (\<exists>i. cc_attempt call i route = Dispatched x))"

lemma outcome_result_Inr: "outcome_result route out = Inr (route', x) \<Longrightarrow> route' = route \<and> out = Dispatched x"
  by (cases out) auto

lemma chat_by_plan_respected:
  assumes "bt_ok (mg_routes g)" "\<not> policy_dispatched (cc_request call)"
  shows "call_respected g call (chat_by_plan U g call)"
proof (cases "plan_route U g (cc_mode call) (cc_request call) route_limits_default (cc_clock call)")
  case (Inr n)
  show ?thesis
  proof (cases "pinned_route (rn_decision n) (cc_pin call)")
    case (Inr route)
    from planned_route_candidate [OF \<open>plan_route _ _ _ _ _ _ = Inr n\<close> [unfolded plan_route_def] this] obtain c where
      c: "c \<in> set (route_candidates U g (cc_clock call))" "rc_route_id c = route" "rr_required_privacy (cc_request call) \<le> rc_privacy c"
      by (auto simp: routing_request.truncate_def)
    from route_candidates_entry [OF assms(1) c(1)] obtain p where "bt_get (mg_routes g) route = Some p" "rc_privacy c = PrivacyInternal"
      "requires_verified_free g \<longrightarrow> verified_free g route (mp_model_name p) (cc_clock call)" unfolding c(2) by blast
    then have "route_permitted g call route"
      using c(3) assms(2) unfolding route_permitted_def policy_dispatched_def by (intro exI [of _ p]) simp
    moreover have "\<forall>p. cc_pin call = Some p \<longrightarrow> route = p" using Inr by (auto simp: pinned_route_def split: if_splits)
    ultimately show ?thesis using Inr \<open>plan_route _ _ _ _ _ _ = Inr n\<close>
      by (auto simp: chat_by_plan_def call_respected_def split: attempt_outcome.splits)
  qed (use Inr in \<open>simp add: chat_by_plan_def call_respected_def\<close>)
qed (simp add: chat_by_plan_def call_respected_def)

lemma snapshot_route_permitted:
  assumes "bt_ok (mg_routes g)" "route_policy_snapshot_with_model U g (cc_model call) now (cc_clock call) = Inr s"
    "policy_dispatched (cc_request call)" "c \<in> set (rs_candidates s)" "within_policy (cc_request call) c"
  shows "route_permitted g call (ce_route_id c)"
proof -
  from assms(2,4) obtain c0 where c0: "c0 \<in> set (route_candidates U g (cc_clock call))" "c = snapshot_entry U g (cc_model call) now c0"
    using snapshot_new_at_Inr(1) unfolding route_policy_snapshot_with_model_def by fastforce
  from route_candidates_entry [OF assms(1) c0(1)] obtain p where p: "bt_get (mg_routes g) (rc_route_id c0) = Some p"
    "requires_verified_free g \<longrightarrow> verified_free g (rc_route_id c0) (mp_model_name p) (cc_clock call)" by blast
  then show ?thesis using assms(3,5) c0(2)
    by (auto simp: route_permitted_def within_policy_def snapshot_entry_def split: if_splits)
qed

lemma dispatch_respected:
  assumes ok: "bt_ok (mg_routes g)" "route_policy_snapshot_with_model U g (cc_model call) now (cc_clock call) = Inr s"
    "policy_dispatched (cc_request call)"
    and sel: "select_route_snapshot (cc_request call) s ov catalog i now' = Inr d"
    and disp: "dispatch_with_policy backoff (cc_attempt call) (cc_request call) s d (cc_pin call) = (res, st)"
  shows "call_respected g call \<lparr>co_result = res, co_attempted = map at_route_id (ds_trace st)\<rparr>"
proof -
  note facts = dispatch_facts [OF sel disp]
  have "length (ds_trace st) \<le> 3" using facts(1) by (simp add: trace_wf_def)
  moreover have "route_permitted g call (at_route_id a) \<and> (\<forall>p. cc_pin call = Some p \<longrightarrow> at_route_id a = p)" if a: "a \<in> set (ds_trace st)" for a
  proof -
    from facts(2) [OF a] obtain c where "c \<in> set (rs_candidates s)" "at_route_id a = ce_route_id c" "within_policy (cc_request call) c"
      using route_reject_None by blast
    with snapshot_route_permitted [OF ok] facts(3) [OF a] show ?thesis by auto
  qed
  moreover have "ds_trace st \<noteq> [] \<and> at_route_id (last (ds_trace st)) = route \<and> (\<exists>i. cc_attempt call i route = Dispatched x)"
    if "res = Inr (route, x)" for route x
    using facts(4) that outcome_result_Inr [of "at_route_id (last (ds_trace st))" "last_outcome (cc_attempt call) st" route x]
    by (auto simp: last_outcome_def outcome_of_def split: if_splits)
  ultimately show ?thesis by (auto simp: call_respected_def last_map)
qed

lemma overlay_new_coherent: "overlay_coherent (range overlay_new) (overlay_new run)"
  by (auto simp: overlay_coherent_def overlay_new_def)

context memo_cache
begin

lemma gateway_chat_respected:
  assumes just: "justified key (range overlay_new) c" and inj: "key_injective key" and ok: "bt_ok (mg_routes g)"
  shows "call_respected g call (fst (gateway_chat key get put U g call c)) \<and> justified key (range overlay_new) (snd (gateway_chat key get put U g call c))"
proof (cases "policy_dispatched (cc_request call)")
  case False
  then show ?thesis using chat_by_plan_respected [OF ok False] just by (simp add: gateway_chat_def Let_def)
next
  case True
  show ?thesis
  proof (cases "route_policy_snapshot_with_model U g (cc_model call) (cc_now call) (cc_clock call)")
    case (Inl e)
    then show ?thesis using True just by (simp add: gateway_chat_def call_respected_def)
  next
    case (Inr s)
    let ?ov = "overlay_new (rs_run_id s)"
    obtain res c' where e: "select_route_snapshot_cached key get put (cc_request call) s ?ov (cc_catalog call) 0 (cc_now call) c = (res, c')" by fastforce
    with cached_selection [OF just inj overlay_new_coherent, of "rs_run_id s" "cc_request call" s "cc_catalog call" 0 "cc_now call"]
    have res: "res = select_route_snapshot (cc_request call) s ?ov (cc_catalog call) 0 (cc_now call)" and c': "justified key (range overlay_new) c'" by simp_all
    show ?thesis
    proof (cases res)
      case (Inl e')
      then show ?thesis using True Inr e c' by (simp add: gateway_chat_def call_respected_def)
    next
      case d: (Inr d)
      obtain out st where disp: "dispatch_with_policy (cc_backoff call (rs_run_id s)) (cc_attempt call) (cc_request call) s d (cc_pin call) = (out, st)" by fastforce
      have "call_respected g call \<lparr>co_result = out, co_attempted = map at_route_id (ds_trace st)\<rparr>"
        by (rule dispatch_respected [OF ok Inr True _ disp]) (use res d in simp)
      then show ?thesis using d True Inr e c' disp unfolding gateway_chat_def Let_def by simp
    qed
  qed
qed

lemma gateway_calls_respected:
  assumes "justified key (range overlay_new) c" "key_injective key" "bt_ok (mg_routes g)"
  shows "list_all2 (call_respected g) calls (gateway_calls key get put U g calls c)"
  using assms(1)
proof (induction calls arbitrary: c)
  case (Cons call calls)
  from gateway_chat_respected [OF Cons.prems assms(2,3), of call U] Cons.IH show ?case by (simp add: case_prod_beta)
qed simp

end

text \<open>C12: Whatever calls are made, one after the other and through one cache of decisions, every call attempts at most three routes, each of them
  configured in the gateway, and none when the request requires more than internal privacy. An offline request reaches only the
  local provider, and so does a request with a task class, a size or the offline flag that does not permit the cloud or whose class is
  unknown. Where the preflight requires verified free routes, every attempted route is one. A pinned request attempts only its
  pin, and an answer is the answer of the last attempted route.\<close>

theorem gateway_respects_policy:
  fixes calls :: "'r chat_call list"
  assumes cache: "memo_cache look get put" "\<forall>k. look c k = None" "key_injective key" and ok: "bt_ok (mg_routes g)"
  shows "list_all2 (call_respected g) calls (gateway_calls key get put U g calls c)"
proof (rule memo_cache.gateway_calls_respected [OF cache(1) _ cache(3) ok])
  show "memo_cache.justified look key (range overlay_new) c" using cache(2) by (simp add: memo_cache.justified_def [OF cache(1)])
qed

definition demo_provider :: "provider_kind \<Rightarrow> string \<Rightarrow> model_provider" where
  "demo_provider k m = \<lparr>mp_kind = k, mp_model_name = m, mp_image = None, mp_structured_output = False, mp_tool_calls = False\<rparr>"

definition demo_gateway :: model_gateway where
  "demo_gateway = \<lparr>mg_default_route = ''web'', mg_routes = [(''home'', demo_provider KindLocal ''m''), (''web'', demo_provider KindLiteRouter ''m:free'')],
     mg_preflight = None\<rparr>"

definition demo_call :: "full_routing_request \<Rightarrow> (u32 \<Rightarrow> string \<Rightarrow> nat attempt_outcome) \<Rightarrow> nat chat_call" where
  "demo_call r attempt = \<lparr>cc_mode = Balanced, cc_request = r, cc_model = None, cc_catalog = None, cc_pin = None, cc_now = 5, cc_clock = 5,
     cc_backoff = (\<lambda>_ _ _. 0), cc_attempt = attempt\<rparr>"

definition demo_calls :: "nat chat_call list" where
  "demo_calls = [demo_call (demo_full_request False) (\<lambda>i route. if route = ''home'' then Dispatched 1 else DispatchFailed (ApiError [])),
     demo_call (demo_full_request True) (\<lambda>i route. DispatchFailed (ApiError []))]"

definition plain_key :: "(full_routing_request \<times> route_policy_snapshot \<times> string \<times> u64 \<times> u32 \<times> u64) cache_key" where
  "plain_key r s run g catalog i now = (case catalog of None \<Rightarrow> Some (r, s, run, g, i, now) | Some _ \<Rightarrow> None)"

theorem gateway_respects_policy_witness:
  "map co_attempted (gateway_calls plain_key route_cache_get route_cache_put plain_unicode demo_gateway demo_calls [])
     = [[''web'', ''web'', ''home''], [''home'', ''home'']]
   \<and> list_all2 (call_respected demo_gateway) demo_calls (gateway_calls plain_key route_cache_get route_cache_put plain_unicode demo_gateway demo_calls [])"
proof
  have "key_injective plain_key" by (simp add: key_injective_def plain_key_def split: option.split)
  moreover have "bt_ok (mg_routes demo_gateway)" by code_simp
  ultimately show "list_all2 (call_respected demo_gateway) demo_calls
      (gateway_calls plain_key route_cache_get route_cache_put plain_unicode demo_gateway demo_calls [])"
    by (intro gateway_respects_policy [OF route_cache.memo_cache_axioms]) simp_all
  show "map co_attempted (gateway_calls plain_key route_cache_get route_cache_put plain_unicode demo_gateway demo_calls [])
     = [[''web'', ''web'', ''home''], [''home'', ''home'']]" by code_simp
qed

section \<open>Images\<close>

lemma sat_mul_u32: "unat (sat_mul (ucast a) (ucast b) :: u64) = unat a * unat b" for a b :: u32
proof -
  have ab: "unat a < 2 ^ 32" "unat b < 2 ^ 32" using unat_le_max [of a] unat_le_max [of b] by simp_all
  then have "unat a * unat b < 2 ^ 32 * 2 ^ 32" by (intro mult_strict_mono) simp_all
  then show ?thesis using ab by (simp add: sat_unat unsigned_ucast_eq take_bit_eq_mod min_absorb1)
qed

text \<open>C17: The provider is asked for images only if the route is configured and declares a valid capability of the expected epoch that has the
  operation and the type, the preflight agrees, the number of images, each side and the number of pixels, counted exactly, are
  within the declared and so within the fixed bounds, the privacy of the request is within the boundary, and a route in the cloud is allowed and declared
  as such; otherwise the result does not depend on the provider's answer.\<close>

theorem image_generation_guarded:
  assumes "generate_image_for_route_at_epoch U generate g route expected_epoch r clock \<noteq> generate_image_for_route_at_epoch U generate' g route expected_epoch r clock"
  shows "\<exists>p c. bt_get (mg_routes g) route = Some p \<and> mp_image p = Some c \<and> image_capability_validate U c
    \<and> (\<forall>epoch. expected_epoch = Some epoch \<longrightarrow> ic_capability_epoch c = epoch)
    \<and> ir_operation r \<in> set (ic_operations c) \<and> ir_mime_type r \<in> set (ic_mime_types c) \<and> ir_mime_type r \<in> {''image/png'', ''image/jpeg''}
    \<and> 1 \<le> unat (ir_count r) \<and> unat (ir_count r) \<le> unat (ic_max_outputs c) \<and> unat (ic_max_outputs c) \<le> 8
    \<and> 1 \<le> unat (ir_width r) \<and> unat (ir_width r) \<le> unat (ic_max_width c) \<and> unat (ic_max_width c) \<le> 8192
    \<and> 1 \<le> unat (ir_height r) \<and> unat (ir_height r) \<le> unat (ic_max_height c) \<and> unat (ic_max_height c) \<le> 8192
    \<and> unat (ir_width r) * unat (ir_height r) \<le> unat (ic_max_pixels c)
    \<and> ir_required_privacy r \<le> ic_privacy_boundary c
    \<and> (route_is_cloud p \<longleftrightarrow> ic_execution_class c = ExecCloud) \<and> (route_is_cloud p \<longrightarrow> ir_allow_cloud r)
    \<and> (\<forall>pf. mg_preflight g = Some pf \<longrightarrow> pf_check pf route None clock = None)"
proof -
  from assms obtain p c where p: "bt_get (mg_routes g) route = Some p" "mp_image p = Some c"
    and ok: "\<not> image_refused U p expected_epoch r c" and pf: "\<forall>pf. mg_preflight g = Some pf \<longrightarrow> pf_check pf route None clock = None"
    by (auto simp: generate_image_for_route_at_epoch_def preflight_image_output_for_route_def image_output_capability_for_route_def
        provider_for_route_def split: option.splits sum.splits if_splits provider_error.splits)
  have valid: "image_capability_validate U c" using ok by (simp add: image_refused_def)
  have "ir_mime_type r \<in> set (ic_mime_types c)" using ok by (simp add: image_refused_def)
  moreover from this valid have "ir_mime_type r \<in> {''image/png'', ''image/jpeg''}"
    by (auto simp: image_capability_validate_def list_all_iff)
  moreover have "unat (ir_width r) * unat (ir_height r) \<le> unat (ic_max_pixels c)"
    using ok sat_mul_u32 [of "ir_width r" "ir_height r"] by (simp add: image_refused_def not_less word_le_nat_alt)
  moreover have "1 \<le> unat (ir_count r) \<and> unat (ir_count r) \<le> unat (ic_max_outputs c)
      \<and> 1 \<le> unat (ir_width r) \<and> unat (ir_width r) \<le> unat (ic_max_width c)
      \<and> 1 \<le> unat (ir_height r) \<and> unat (ir_height r) \<le> unat (ic_max_height c)"
    using ok by (auto simp: image_refused_def not_less word_le_nat_alt unat_gt_0 Suc_le_eq)
  moreover have "unat (ic_max_outputs c) \<le> 8 \<and> unat (ic_max_width c) \<le> 8192 \<and> unat (ic_max_height c) \<le> 8192"
    using valid by (auto simp: image_capability_validate_def not_less word_le_nat_alt)
  moreover have "(route_is_cloud p \<longleftrightarrow> ic_execution_class c = ExecCloud) \<and> (route_is_cloud p \<longrightarrow> ir_allow_cloud r)"
    using ok by (cases "ic_execution_class c") (auto simp: image_refused_def)
  moreover have "(\<forall>epoch. expected_epoch = Some epoch \<longrightarrow> ic_capability_epoch c = epoch) \<and> ir_operation r \<in> set (ic_operations c)
      \<and> ir_required_privacy r \<le> ic_privacy_boundary c"
    using ok by (auto simp: image_refused_def not_less)
  ultimately show ?thesis using p valid pf by blast
qed

definition demo_image_capability :: image_output_capability where
  "demo_image_capability = \<lparr>ic_schema_version = ''image-output-capability/v1'', ic_provenance = ''adapter'', ic_capability_epoch = 3,
     ic_operations = [ImageGenerate], ic_mime_types = [''image/png''], ic_privacy_boundary = PrivacySensitive, ic_execution_class = ExecLocal,
     ic_max_bytes = 1000, ic_max_width = 64, ic_max_height = 64, ic_max_pixels = 4096, ic_max_outputs = 2\<rparr>"

definition demo_image_gateway :: model_gateway where
  "demo_image_gateway = gateway_from_provider ((demo_provider KindOllama ''m'')\<lparr>mp_image := Some demo_image_capability\<rparr>)"

definition demo_image_request :: "u32 \<Rightarrow> image_request" where
  "demo_image_request width = \<lparr>ir_operation = ImageGenerate, ir_width = width, ir_height = 64, ir_count = 1, ir_mime_type = ''image/png'',
     ir_required_privacy = PrivacyInternal, ir_allow_cloud = False\<rparr>"

theorem image_generation_guarded_witness:
  "generate_image_for_route_at_epoch plain_unicode (\<lambda>_ _. Inr (1 :: nat)) demo_image_gateway ''default'' (Some 3) (demo_image_request 64) 0 = Inr 1
   \<and> (\<exists>p c. bt_get (mg_routes demo_image_gateway) ''default'' = Some p \<and> mp_image p = Some c
       \<and> unat (ir_width (demo_image_request 64)) \<le> unat (ic_max_width c)
       \<and> unat (ir_width (demo_image_request 64)) * unat (ir_height (demo_image_request 64)) \<le> unat (ic_max_pixels c))"
proof -
  let ?gen = "\<lambda>n. generate_image_for_route_at_epoch plain_unicode (\<lambda>_ _. Inr (n :: nat)) demo_image_gateway ''default'' (Some 3) (demo_image_request 64) 0"
  have a: "?gen 1 = Inr 1" by code_simp
  have "?gen 2 = Inr 2" by code_simp
  with a have "?gen 1 \<noteq> ?gen 2" by simp
  from image_generation_guarded [OF this] a show ?thesis by blast
qed

section \<open>Delays of the transport\<close>

text \<open>A delay is at most the cap, is never zero when the cap is not, and grows with the attempt.\<close>

lemma clamp_delay_mono: "d \<le> d' \<Longrightarrow> 1000000 \<le> rp_max_delay policy \<Longrightarrow> d \<noteq> 0 \<Longrightarrow> clamp_delay d policy \<le> clamp_delay d' policy"
  by (auto simp: clamp_delay_def)

theorem http_backoff_bounds:
  assumes "1000000 \<le> rp_max_delay policy" "0 < rp_base_delay policy"
  shows "0 < http_backoff a policy after \<and> http_backoff a policy after \<le> rp_max_delay policy
    \<and> (a \<le> b \<longrightarrow> http_backoff a policy None \<le> http_backoff b policy None)"
proof -
  have "http_backoff a policy None \<le> http_backoff b policy None" if "a \<le> b"
  proof -
    have "min (unat a) 16 \<le> min (unat b) 16" using that by (simp add: word_le_nat_alt)
    then have le: "rp_base_delay policy * 2 ^ min (unat a) 16 \<le> rp_base_delay policy * 2 ^ min (unat b) 16" by (simp add: power_increasing)
    have cap: "clamp_delay d policy \<le> clamp_delay (rp_max_delay policy) policy" for d using assms by (auto simp: clamp_delay_def)
    show ?thesis
    proof (cases "rp_base_delay policy * 2 ^ min (unat b) 16 < 2 ^ 64 * 1000000000")
      case True
      with le have "rp_base_delay policy * 2 ^ min (unat a) 16 < 2 ^ 64 * 1000000000" by (rule le_less_trans)
      then show ?thesis using True assms clamp_delay_mono [OF le assms(1)] unfolding http_backoff_def Let_def by simp
    next
      case False
      then show ?thesis using cap unfolding http_backoff_def Let_def by simp
    qed
  qed
  then show ?thesis using assms by (auto simp: http_backoff_def clamp_delay_def Let_def split: option.splits)
qed

section \<open>Where the code departs from its documentation\<close>

text \<open>A request that does not permit the cloud, has no class and no size and is not offline is sent to a route of the cloud.\<close>

theorem cloud_without_permission:
  "\<not> rr_allow_cloud ((demo_full_request False)\<lparr>rr_task_class := None, rr_estimated_input_tokens := 0, rr_allow_cloud := False\<rparr>)
   \<and> co_attempted (chat_by_plan plain_unicode demo_gateway
       (demo_call ((demo_full_request False)\<lparr>rr_task_class := None, rr_estimated_input_tokens := 0, rr_allow_cloud := False\<rparr>) (\<lambda>i route. Dispatched 1)))
     = [''web'']"
  by code_simp

text \<open>The snapshot says of every route that it has tool calls and structured output, whatever its provider declares, and counts the local
  Ollama service as cloud, which the check for images does not.\<close>

theorem snapshot_invents_capabilities:
  "candidate_supports (snapshot_entry U g m now c) ''structured_output'' \<and> candidate_supports (snapshot_entry U g m now c) ''tool_calling''"
  by (simp add: candidate_supports_def snapshot_entry_def)

theorem ollama_is_cloud_for_chat_only:
  "bt_get (mg_routes g) (rc_route_id c) = Some p \<Longrightarrow> mp_kind p = KindOllama \<Longrightarrow>
   cm_execution_class (ce_capabilities (snapshot_entry U g m now c)) = ExecCloud \<and> \<not> route_is_cloud p"
  by (simp add: snapshot_entry_def route_is_cloud_def)

end
