(* ===== verification/Free_Access.thy ===== *)
theory Free_Access
  imports Model_Gateway
begin

text \<open>
  \<open>crates/evohime-core/src/free_provider_reliability_routing.rs\<close> and the routes of \<open>crates/model-gateway/src/config.rs\<close>: provider profiles,
  catalogue snapshots, evidence of free access, and the preflight that the core hands to the gateway. SHA-256 in hexadecimal, the JSON of
  an evidence and the Unicode tables are fields of an environment record. The contents of the locked caches are what the preflight
  reads; the background probe that a use of a route may start is modelled with the probes. Reliability classes, which compare
  floating point rates, and the storage rows of profiles are left out.
\<close>

section \<open>Routes of the configuration\<close>

datatype provider_profile_id =
    PidCustom | PidOpenAi | PidOpenRouter | PidGroq | PidGemini | PidMistral | PidCloudflareWorkersAi | PidNvidiaNim | PidCerebras | PidHuggingFace

definition OPENAI_DEFAULT_BASE_URL :: string where "OPENAI_DEFAULT_BASE_URL = ''https://api.openai.com/v1''"

fun profile_id_as_str :: "provider_profile_id \<Rightarrow> string" where
  "profile_id_as_str PidCustom = ''custom''"
| "profile_id_as_str PidOpenAi = ''openai''"
| "profile_id_as_str PidOpenRouter = ''openrouter''"
| "profile_id_as_str PidGroq = ''groq''"
| "profile_id_as_str PidGemini = ''gemini''"
| "profile_id_as_str PidMistral = ''mistral''"
| "profile_id_as_str PidCloudflareWorkersAi = ''cloudflare_workers_ai''"
| "profile_id_as_str PidNvidiaNim = ''nvidia_nim''"
| "profile_id_as_str PidCerebras = ''cerebras''"
| "profile_id_as_str PidHuggingFace = ''hugging_face''"

definition all_profile_ids :: "provider_profile_id list" where
  "all_profile_ids = [PidCustom, PidOpenAi, PidOpenRouter, PidGroq, PidGemini, PidMistral, PidCloudflareWorkersAi, PidNvidiaNim, PidCerebras, PidHuggingFace]"

definition profile_id_parse :: "string \<Rightarrow> provider_profile_id option" where
  "profile_id_parse value = List.find (\<lambda>p. profile_id_as_str p = value) all_profile_ids"

fun default_base_url :: "provider_profile_id \<Rightarrow> string option" where
  "default_base_url PidCustom = None"
| "default_base_url PidOpenAi = Some OPENAI_DEFAULT_BASE_URL"
| "default_base_url PidOpenRouter = Some ''https://openrouter.ai/api/v1''"
| "default_base_url PidGroq = Some ''https://api.groq.com/openai/v1''"
| "default_base_url PidGemini = Some ''https://generativelanguage.googleapis.com/v1beta/openai''"
| "default_base_url PidMistral = Some ''https://api.mistral.ai/v1''"
| "default_base_url PidCloudflareWorkersAi = None"
| "default_base_url PidNvidiaNim = Some ''https://integrate.api.nvidia.com/v1''"
| "default_base_url PidCerebras = Some ''https://api.cerebras.ai/v1''"
| "default_base_url PidHuggingFace = Some ''https://router.huggingface.co/v1''"

definition byte_between :: "char \<Rightarrow> char \<Rightarrow> char \<Rightarrow> bool" where
  "byte_between low high b \<longleftrightarrow> low \<le> b \<and> b \<le> high"

definition is_ascii_hexdigit :: "char \<Rightarrow> bool" where
  "is_ascii_hexdigit b \<longleftrightarrow> byte_between CHR ''0'' CHR ''9'' b \<or> byte_between CHR ''a'' CHR ''f'' b \<or> byte_between CHR ''A'' CHR ''F'' b"

definition is_ascii_alphanumeric :: "char \<Rightarrow> bool" where
  "is_ascii_alphanumeric b \<longleftrightarrow> byte_between CHR ''0'' CHR ''9'' b \<or> byte_between CHR ''a'' CHR ''z'' b \<or> byte_between CHR ''A'' CHR ''Z'' b"

definition valid_cloudflare_account_id :: "string \<Rightarrow> bool" where
  "valid_cloudflare_account_id account \<longleftrightarrow> length account = 32 \<and> list_all is_ascii_hexdigit account"

definition cloudflare_base_url :: "string \<Rightarrow> string option" where
  "cloudflare_base_url account =
     (if \<not> valid_cloudflare_account_id account then None
      else Some (''https://api.cloudflare.com/client/v4/accounts/'' @ account @ ''/ai/v1''))"

text \<open>Thirty-six bytes with hyphens at 8, 13, 18 and 23 and hexadecimal digits elsewhere.\<close>

definition uuid_shape :: "string \<Rightarrow> bool" where
  "uuid_shape i \<longleftrightarrow> length i = 36
     \<and> list_all (\<lambda>(index, byte). if index \<in> {8, 13, 18, 23} then byte = CHR ''-'' else is_ascii_hexdigit byte) (zip [0..<length i] i)"

definition split_once_colon :: "string \<Rightarrow> (string \<times> string) option" where
  "split_once_colon s = (if CHR '':'' \<in> set s then Some (takeWhile (\<lambda>c. c \<noteq> CHR '':'') s, tl (dropWhile (\<lambda>c. c \<noteq> CHR '':'') s)) else None)"

definition config_credential_binding_ok :: "string \<Rightarrow> bool" where
  "config_credential_binding_ok value =
     (case split_once_colon value of None \<Rightarrow> False | Some (pre, i) \<Rightarrow> pre = ''credential'' \<and> uuid_shape i)"

record model_route_config =
  rcfg_provider :: provider_kind
  rcfg_api_key :: string
  rcfg_base_url :: string
  rcfg_model :: string
  rcfg_profile_id :: "provider_profile_id option"
  rcfg_account_id :: "string option"
  rcfg_credential_binding :: "string option"

definition trim_slashes :: "string \<Rightarrow> string" where
  "trim_slashes s = trim_end_matches (\<lambda>c. c = CHR ''/'') s"

definition endpoint_matches :: "model_route_config \<Rightarrow> string \<Rightarrow> provider_error option" where
  "endpoint_matches route expected =
     (if trim_slashes (rcfg_base_url route) \<noteq> expected then Some (ConfigError ''provider profile endpoint does not match'') else None)"

definition validate_provider_profile :: "model_route_config \<Rightarrow> provider_error option" where
  "validate_provider_profile route =
     (if (case rcfg_credential_binding route of Some b \<Rightarrow> \<not> config_credential_binding_ok b | None \<Rightarrow> False)
      then Some (ConfigError ''provider credential binding is invalid'')
      else case rcfg_profile_id route of
        None \<Rightarrow> (if rcfg_account_id route \<noteq> None then Some (ConfigError ''provider profile account is not configured'') else None)
      | Some pid \<Rightarrow>
          if rcfg_provider route \<noteq> KindOpenAICompatible then Some (ConfigError ''provider profile requires OpenAI-compatible transport'')
          else if pid = PidCustom then
            (if rcfg_account_id route \<noteq> None then Some (ConfigError ''provider profile account is not configured'') else None)
          else if pid = PidCloudflareWorkersAi then
            (case rcfg_account_id route of None \<Rightarrow> Some (ConfigError ''provider profile account is required'')
             | Some account \<Rightarrow>
                 (case cloudflare_base_url account of None \<Rightarrow> Some (ConfigError ''provider profile account is invalid'')
                  | Some url \<Rightarrow> endpoint_matches route url))
          else if rcfg_account_id route \<noteq> None then Some (ConfigError ''provider profile account is not configured'')
          else (case default_base_url pid of None \<Rightarrow> Some (ConfigError ''provider profile is invalid'') | Some url \<Rightarrow> endpoint_matches route url))"

definition route_configured :: "unicode \<Rightarrow> model_route_config \<Rightarrow> bool" where
  "route_configured U route =
     (case rcfg_provider route of
        KindLiteRouter \<Rightarrow> rcfg_api_key route \<noteq> [] | KindOpenAICompatible \<Rightarrow> rcfg_api_key route \<noteq> []
      | KindOpenAIResponses \<Rightarrow> rcfg_api_key route \<noteq> []
      | KindOllama \<Rightarrow> str_trim U (rcfg_base_url route) \<noteq> [] | KindLocal \<Rightarrow> str_trim U (rcfg_model route) \<noteq> [] | KindMock \<Rightarrow> True)"

section \<open>Provider profiles\<close>

datatype provider_family =
    FamOpenRouter | FamGroq | FamGemini | FamMistral | FamCloudflareWorkersAi | FamNvidiaNim | FamCerebras | FamHuggingFace | FamLiteRouter
  | FamOpenAi | FamOllama | FamLocal | FamMock | FamUnknown

fun provider_family_as_str :: "provider_family \<Rightarrow> string" where
  "provider_family_as_str FamOpenRouter = ''openrouter''"
| "provider_family_as_str FamGroq = ''groq''"
| "provider_family_as_str FamGemini = ''gemini''"
| "provider_family_as_str FamMistral = ''mistral''"
| "provider_family_as_str FamCloudflareWorkersAi = ''cloudflare_workers_ai''"
| "provider_family_as_str FamNvidiaNim = ''nvidia_nim''"
| "provider_family_as_str FamCerebras = ''cerebras''"
| "provider_family_as_str FamHuggingFace = ''hugging_face''"
| "provider_family_as_str FamLiteRouter = ''literouter''"
| "provider_family_as_str FamOpenAi = ''open_ai''"
| "provider_family_as_str FamOllama = ''ollama''"
| "provider_family_as_str FamLocal = ''local''"
| "provider_family_as_str FamMock = ''mock''"
| "provider_family_as_str FamUnknown = ''unknown''"

datatype transport_kind = TransOpenAiCompatible | TransOpenAiResponses | TransOllama | TransLocal | TransMock | TransUnknown

fun transport_kind_as_str :: "transport_kind \<Rightarrow> string" where
  "transport_kind_as_str TransOpenAiCompatible = ''openai_compatible''"
| "transport_kind_as_str TransOpenAiResponses = ''openai_responses''"
| "transport_kind_as_str TransOllama = ''ollama''"
| "transport_kind_as_str TransLocal = ''local''"
| "transport_kind_as_str TransMock = ''mock''"
| "transport_kind_as_str TransUnknown = ''unknown''"

definition parsed_transport_kind :: "string \<Rightarrow> transport_kind" where
  "parsed_transport_kind value =
     (if value = ''openai_compatible'' then TransOpenAiCompatible else if value = ''openai_responses'' then TransOpenAiResponses
      else if value = ''ollama'' then TransOllama else if value = ''local'' then TransLocal
      else if value = ''mock'' then TransMock else TransUnknown)"

record provider_profile =
  pp_schema_version :: "16 word"
  pp_provider_id :: string
  pp_provider_family :: provider_family
  pp_transport :: string
  pp_transport_kind :: transport_kind
  pp_endpoint :: string
  pp_region :: string
  pp_credential_binding :: string
  pp_content_hash :: string
  pp_revision :: u64

definition PROVIDER_PROFILE_SCHEMA_VERSION :: "16 word" where "PROVIDER_PROFILE_SCHEMA_VERSION = 1"
definition MAX_PROVIDER_PROFILE_ID_BYTES :: nat where "MAX_PROVIDER_PROFILE_ID_BYTES = 128"
definition MAX_PROVIDER_PROFILE_TRANSPORT_BYTES :: nat where "MAX_PROVIDER_PROFILE_TRANSPORT_BYTES = 64"
definition MAX_PROVIDER_PROFILE_ENDPOINT_BYTES :: nat where "MAX_PROVIDER_PROFILE_ENDPOINT_BYTES = 512"
definition MAX_PROVIDER_PROFILE_REGION_BYTES :: nat where "MAX_PROVIDER_PROFILE_REGION_BYTES = 64"
definition MAX_PROVIDER_PROFILE_CREDENTIAL_BINDING_BYTES :: nat where "MAX_PROVIDER_PROFILE_CREDENTIAL_BINDING_BYTES = 128"
definition MAX_PROVIDER_MODEL_ID_BYTES :: nat where "MAX_PROVIDER_MODEL_ID_BYTES = 256"

definition valid_profile_token :: "unicode \<Rightarrow> string \<Rightarrow> nat \<Rightarrow> bool" where
  "valid_profile_token U value max_bytes \<longleftrightarrow> value \<noteq> [] \<and> length value \<le> max_bytes \<and> value = str_trim U value
     \<and> list_all (\<lambda>b. is_ascii_alphanumeric b \<or> b \<in> set ''._:-'') value"

definition is_ascii_control :: "char \<Rightarrow> bool" where
  "is_ascii_control c \<longleftrightarrow> (of_char c :: nat) < 32 \<or> (of_char c :: nat) = 127"

definition is_ascii_whitespace :: "char \<Rightarrow> bool" where
  "is_ascii_whitespace c \<longleftrightarrow> (of_char c :: nat) \<in> {9, 10, 12, 13, 32}"

text \<open>The text after the first \<open>://\<close>; the value starts with one of the two schemes when this is looked at.\<close>

definition after_scheme :: "string \<Rightarrow> string" where
  "after_scheme value = (if is_prefix_of ''https://'' value then drop 8 value else drop 7 value)"

definition valid_profile_endpoint :: "unicode \<Rightarrow> string \<Rightarrow> bool" where
  "valid_profile_endpoint U value \<longleftrightarrow> length value \<le> MAX_PROVIDER_PROFILE_ENDPOINT_BYTES \<and> value = str_trim U value
     \<and> (is_prefix_of ''https://'' value \<or> is_prefix_of ''http://'' value)
     \<and> \<not> list_ex (\<lambda>b. is_ascii_control b \<or> is_ascii_whitespace b) value
     \<and> \<not> list_ex (\<lambda>b. b \<in> set ''?#@'') value
     \<and> after_scheme value \<noteq> [] \<and> \<not> is_prefix_of ''/'' (after_scheme value)"

definition valid_credential_binding :: "unicode \<Rightarrow> string \<Rightarrow> bool" where
  "valid_credential_binding U value \<longleftrightarrow> valid_profile_token U value MAX_PROVIDER_PROFILE_CREDENTIAL_BINDING_BYTES
     \<and> \<not> str_contains (to_ascii_lowercase value) ''secret'' \<and> \<not> str_contains (to_ascii_lowercase value) ''bearer''
     \<and> \<not> is_prefix_of ''sk-'' (to_ascii_lowercase value) \<and> \<not> is_prefix_of ''gsk_'' (to_ascii_lowercase value)
     \<and> \<not> is_prefix_of ''aiza'' (to_ascii_lowercase value)"

definition valid_bound_credential :: "string \<Rightarrow> bool" where
  "valid_bound_credential value = (case strip_prefix ''credential:'' value of None \<Rightarrow> False | Some i \<Rightarrow> uuid_shape i)"

definition valid_content_hash :: "string \<Rightarrow> bool" where
  "valid_content_hash value \<longleftrightarrow> length value = 64 \<and> list_all is_ascii_hexdigit value"

definition valid_model_id :: "unicode \<Rightarrow> string \<Rightarrow> bool" where
  "valid_model_id U value \<longleftrightarrow> value \<noteq> [] \<and> length value \<le> MAX_PROVIDER_MODEL_ID_BYTES \<and> value = str_trim U value
     \<and> list_all (\<lambda>b. is_ascii_alphanumeric b \<or> b \<in> set ''._:/-'') value"

definition valid_provider_model_id :: "unicode \<Rightarrow> string \<Rightarrow> string \<Rightarrow> bool" where
  "valid_provider_model_id U provider_id value =
     (if provider_id = ''cloudflare_workers_ai'' then (case strip_prefix ''@cf/'' value of None \<Rightarrow> False | Some m \<Rightarrow> valid_model_id U m)
      else valid_model_id U value)"

definition profile_valid_without_hash :: "unicode \<Rightarrow> provider_profile \<Rightarrow> bool" where
  "profile_valid_without_hash U p \<longleftrightarrow>
     \<not> (pp_schema_version p \<noteq> PROVIDER_PROFILE_SCHEMA_VERSION \<or> pp_revision p = 0
       \<or> \<not> valid_profile_token U (pp_provider_id p) MAX_PROVIDER_PROFILE_ID_BYTES
       \<or> \<not> valid_profile_token U (pp_transport p) MAX_PROVIDER_PROFILE_TRANSPORT_BYTES
       \<or> \<not> valid_profile_endpoint U (pp_endpoint p)
       \<or> \<not> valid_profile_token U (pp_region p) MAX_PROVIDER_PROFILE_REGION_BYTES
       \<or> \<not> valid_credential_binding U (pp_credential_binding p)
       \<or> pp_transport_kind p \<noteq> TransUnknown \<and> parsed_transport_kind (pp_transport p) \<noteq> TransUnknown
          \<and> parsed_transport_kind (pp_transport p) \<noteq> pp_transport_kind p)
     \<and> \<not> (pp_content_hash p \<noteq> [] \<and> \<not> valid_content_hash (pp_content_hash p))"

definition profile_valid :: "unicode \<Rightarrow> provider_profile \<Rightarrow> bool" where
  "profile_valid U p \<longleftrightarrow> profile_valid_without_hash U p \<and> valid_content_hash (pp_content_hash p)"

definition resolved_transport_kind :: "provider_profile \<Rightarrow> transport_kind" where
  "resolved_transport_kind p = (if pp_transport_kind p \<noteq> TransUnknown then pp_transport_kind p else parsed_transport_kind (pp_transport p))"

definition profile_hash :: "(string \<Rightarrow> string) \<Rightarrow> provider_profile \<Rightarrow> string" where
  "profile_hash sha p = sha (str_join ''|'' [show_word (pp_schema_version p), pp_provider_id p, provider_family_as_str (pp_provider_family p),
     transport_kind_as_str (pp_transport_kind p), pp_endpoint p, pp_region p, pp_credential_binding p, show_word (pp_revision p)])"

text \<open>The identities of \<open>builtin_provider_profiles\<close>; the other fields of these profiles are not read.\<close>

definition builtin_provider_profiles :: "(string \<times> provider_family \<times> string) list" where
  "builtin_provider_profiles =
     [(''openrouter'', FamOpenRouter, ''https://openrouter.ai/api/v1''),
      (''groq'', FamGroq, ''https://api.groq.com/openai/v1''),
      (''gemini'', FamGemini, ''https://generativelanguage.googleapis.com/v1beta/openai''),
      (''mistral'', FamMistral, ''https://api.mistral.ai/v1''),
      (''cloudflare_workers_ai'', FamCloudflareWorkersAi,
        ''https://api.cloudflare.com/client/v4/accounts/00000000000000000000000000000000/ai/v1''),
      (''nvidia_nim'', FamNvidiaNim, ''https://integrate.api.nvidia.com/v1''),
      (''cerebras'', FamCerebras, ''https://api.cerebras.ai/v1''),
      (''hugging_face'', FamHuggingFace, ''https://router.huggingface.co/v1'')]"

fun transport_identity :: "provider_kind \<Rightarrow> string \<times> provider_family \<times> transport_kind" where
  "transport_identity KindLiteRouter = (''literouter'', FamLiteRouter, TransOpenAiCompatible)"
| "transport_identity KindOpenAICompatible = (''custom_openai_compatible'', FamUnknown, TransOpenAiCompatible)"
| "transport_identity KindOpenAIResponses = (''openai_responses'', FamOpenAi, TransOpenAiResponses)"
| "transport_identity KindOllama = (''ollama'', FamOllama, TransOllama)"
| "transport_identity KindLocal = (''local'', FamLocal, TransLocal)"
| "transport_identity KindMock = (''mock'', FamMock, TransMock)"

definition provider_identity :: "model_route_config \<Rightarrow> (string \<times> provider_family) option" where
  "provider_identity route =
     (case transport_identity (rcfg_provider route) of (provider_id, family, _) \<Rightarrow>
        if rcfg_provider route \<noteq> KindOpenAICompatible then Some (provider_id, family)
        else case rcfg_profile_id route of
          Some PidCustom \<Rightarrow> Some (''custom_openai_compatible'', FamUnknown)
        | Some PidOpenAi \<Rightarrow> Some (''openai'', FamOpenAi)
        | Some pid \<Rightarrow> map_option (\<lambda>(i, f, _). (i, f)) (List.find (\<lambda>(i, _, _). i = profile_id_as_str pid) builtin_provider_profiles)
        | None \<Rightarrow>
            let endpoint = trim_slashes (rcfg_base_url route) in
            Some (case List.find (\<lambda>(_, _, e). trim_slashes e = endpoint) builtin_provider_profiles of
                Some (i, f, _) \<Rightarrow> (i, f)
              | None \<Rightarrow> (if endpoint = OPENAI_DEFAULT_BASE_URL then (''openai'', FamOpenAi) else (provider_id, family))))"

definition profile_from_route_config :: "unicode \<Rightarrow> (string \<Rightarrow> string) \<Rightarrow> model_route_config \<Rightarrow> provider_profile option" where
  "profile_from_route_config U sha route =
     (if validate_provider_profile route \<noteq> None then None
      else case provider_identity route of None \<Rightarrow> None
      | Some (provider_id, family) \<Rightarrow>
          let transport = snd (snd (transport_identity (rcfg_provider route)));
              p = \<lparr>pp_schema_version = PROVIDER_PROFILE_SCHEMA_VERSION, pp_provider_id = provider_id, pp_provider_family = family,
                pp_transport = transport_kind_as_str transport, pp_transport_kind = transport,
                pp_endpoint = (if rcfg_provider route = KindMock then ''http://127.0.0.1/mock'' else rcfg_base_url route),
                pp_region = ''global'',
                pp_credential_binding = (case rcfg_credential_binding route of Some b \<Rightarrow> b | None \<Rightarrow> ''unbound:'' @ provider_id),
                pp_content_hash = [], pp_revision = 1\<rparr>
          in if \<not> profile_valid_without_hash U p then None else Some (p\<lparr>pp_content_hash := profile_hash sha p\<rparr>))"

section \<open>Models and catalogue snapshots\<close>

datatype model_capability = CapChat | CapStreaming | CapToolCalls | CapStructuredOutput | CapVision | CapReasoning

datatype capability_state = CapSupported | CapUnsupported | CapStateUnknown

datatype capability_provenance = ProvDeclared | ProvObserved | ProvUnknown

record capability_flag =
  cf_capability :: model_capability
  cf_state :: capability_state
  cf_provenance :: capability_provenance

record model_limits =
  ml_context_tokens :: "u32 option"
  ml_max_output_tokens :: "u32 option"

text \<open>Privacy class, usage metadata and lifecycle of a descriptor are left out: they are not read.\<close>

record model_descriptor =
  md_schema_version :: "16 word"
  md_provider_id :: string
  md_provider_family :: provider_family
  md_transport_kind :: transport_kind
  md_model_id :: string
  md_profile_revision :: u64
  md_profile_content_hash :: string
  md_catalog_revision :: u64
  md_catalog_content_hash :: string
  md_limits :: model_limits
  md_capabilities :: "capability_flag list"

datatype catalog_state = CatFresh | CatStale | CatUnavailable | CatCredentialRejected | CatDiscoveryUnsupported

fun catalog_state_as_str :: "catalog_state \<Rightarrow> string" where
  "catalog_state_as_str CatFresh = ''fresh''"
| "catalog_state_as_str CatStale = ''stale''"
| "catalog_state_as_str CatUnavailable = ''unavailable''"
| "catalog_state_as_str CatCredentialRejected = ''credential_rejected''"
| "catalog_state_as_str CatDiscoveryUnsupported = ''discovery_unsupported''"

definition catalog_state_from_str :: "string \<Rightarrow> catalog_state option" where
  "catalog_state_from_str value =
     List.find (\<lambda>s. catalog_state_as_str s = value) [CatFresh, CatStale, CatUnavailable, CatCredentialRejected, CatDiscoveryUnsupported]"

datatype catalog_failure =
    CfNetwork | CfTimeout | CfCredentialRejected | CfRateLimited | CfModelNotFound | CfMalformedResponse | CfResponseTooLarge
  | CfEntryLimitExceeded | CfProtocolMismatch | CfDiscoveryUnsupported | CfUnknown

record catalog_snapshot =
  cs_schema_version :: "16 word"
  cs_provider_id :: string
  cs_credential_binding :: string
  cs_region :: string
  cs_profile_revision :: u64
  cs_profile_content_hash :: string
  cs_revision :: u64
  cs_catalog_content_hash :: string
  cs_state :: catalog_state
  cs_models :: "model_descriptor list"
  cs_observed_at_ms :: u64
  cs_expires_at_ms :: u64
  cs_failure :: "catalog_failure option"

definition PROVIDER_MODEL_DESCRIPTOR_SCHEMA_VERSION :: "16 word" where "PROVIDER_MODEL_DESCRIPTOR_SCHEMA_VERSION = 1"
definition PROVIDER_CATALOG_SCHEMA_VERSION :: "16 word" where "PROVIDER_CATALOG_SCHEMA_VERSION = 1"
definition MAX_PROVIDER_MODEL_CAPABILITIES :: nat where "MAX_PROVIDER_MODEL_CAPABILITIES = 16"
definition MAX_PROVIDER_CATALOG_ENTRIES :: nat where "MAX_PROVIDER_CATALOG_ENTRIES = 2048"
definition MAX_PROVIDER_CATALOG_TTL_MS :: u64 where "MAX_PROVIDER_CATALOG_TTL_MS = 7 * 24 * 60 * 60 * 1000"

definition model_limits_valid :: "model_limits \<Rightarrow> bool" where
  "model_limits_valid l \<longleftrightarrow> ml_context_tokens l \<noteq> Some 0 \<and> ml_max_output_tokens l \<noteq> Some 0"

definition capability_flag_valid :: "capability_flag \<Rightarrow> bool" where
  "capability_flag_valid f \<longleftrightarrow> \<not> (cf_state f \<noteq> CapStateUnknown \<and> cf_provenance f = ProvUnknown)"

definition descriptor_valid :: "unicode \<Rightarrow> model_descriptor \<Rightarrow> bool" where
  "descriptor_valid U d \<longleftrightarrow> md_schema_version d = PROVIDER_MODEL_DESCRIPTOR_SCHEMA_VERSION
     \<and> valid_profile_token U (md_provider_id d) MAX_PROVIDER_PROFILE_ID_BYTES
     \<and> valid_provider_model_id U (md_provider_id d) (md_model_id d)
     \<and> md_profile_revision d \<noteq> 0 \<and> md_catalog_revision d \<noteq> 0
     \<and> valid_content_hash (md_profile_content_hash d) \<and> valid_content_hash (md_catalog_content_hash d)
     \<and> length (md_capabilities d) \<le> MAX_PROVIDER_MODEL_CAPABILITIES
     \<and> model_limits_valid (md_limits d)
     \<and> list_all capability_flag_valid (md_capabilities d)
     \<and> distinct (map cf_capability (md_capabilities d))"

record model_catalog_entry =
  cen_id :: string
  cen_context_tokens :: "u32 option"
  cen_max_output_tokens :: "u32 option"

text \<open>\<open>normalize_catalog_entries\<close>: the entries in the order of identifiers and of falling limits, where \<open>None\<close> is less than every number;
  \<open>dedup_by\<close> keeps the first of each run of equal identifiers.\<close>

definition option_rank :: "u32 option \<Rightarrow> int" where
  "option_rank v = (case v of None \<Rightarrow> - 1 | Some n \<Rightarrow> uint n)"

definition entry_key :: "model_catalog_entry \<Rightarrow> string \<times> int \<times> int" where
  "entry_key e = (cen_id e, - option_rank (cen_context_tokens e), - option_rank (cen_max_output_tokens e))"

fun dedup_ids :: "model_catalog_entry list \<Rightarrow> model_catalog_entry list" where
  "dedup_ids (a # b # es) = (if cen_id a = cen_id b then dedup_ids (a # es) else a # dedup_ids (b # es))"
| "dedup_ids es = es"

definition normalize_catalog_entries :: "model_catalog_entry list \<Rightarrow> model_catalog_entry list option" where
  "normalize_catalog_entries es =
     (if length es > MAX_PROVIDER_CATALOG_ENTRIES then None else Some (dedup_ids (sort_key entry_key es)))"

definition from_catalog_entry :: "unicode \<Rightarrow> provider_profile \<Rightarrow> model_catalog_entry \<Rightarrow> u64 \<Rightarrow> string \<Rightarrow> model_descriptor option" where
  "from_catalog_entry U p e catalog_revision hash =
     (if \<not> profile_valid U p then None
      else
        let d = \<lparr>md_schema_version = PROVIDER_MODEL_DESCRIPTOR_SCHEMA_VERSION, md_provider_id = pp_provider_id p,
          md_provider_family = pp_provider_family p, md_transport_kind = resolved_transport_kind p, md_model_id = cen_id e,
          md_profile_revision = pp_revision p, md_profile_content_hash = pp_content_hash p, md_catalog_revision = catalog_revision,
          md_catalog_content_hash = hash,
          md_limits = \<lparr>ml_context_tokens = cen_context_tokens e, ml_max_output_tokens = cen_max_output_tokens e\<rparr>,
          md_capabilities = []\<rparr>
        in if descriptor_valid U d then Some d else None)"

definition model_of_snapshot :: "catalog_snapshot \<Rightarrow> model_descriptor \<Rightarrow> bool" where
  "model_of_snapshot s m \<longleftrightarrow> md_provider_id m = cs_provider_id s \<and> md_profile_revision m = cs_profile_revision s
     \<and> md_catalog_revision m = cs_revision s \<and> md_catalog_content_hash m = cs_catalog_content_hash s"

definition catalog_state_consistent :: "catalog_snapshot \<Rightarrow> bool" where
  "catalog_state_consistent s =
     (case cs_state s of
        CatFresh \<Rightarrow> cs_failure s = None
      | CatStale \<Rightarrow> True
      | CatUnavailable \<Rightarrow> cs_models s = []
          \<and> (case cs_failure s of None \<Rightarrow> False | Some f \<Rightarrow> f \<noteq> CfCredentialRejected \<and> f \<noteq> CfDiscoveryUnsupported)
      | CatCredentialRejected \<Rightarrow> cs_models s = [] \<and> cs_failure s = Some CfCredentialRejected
      | CatDiscoveryUnsupported \<Rightarrow> cs_models s = [] \<and> cs_failure s = Some CfDiscoveryUnsupported)"

definition catalog_valid :: "unicode \<Rightarrow> catalog_snapshot \<Rightarrow> bool" where
  "catalog_valid U s \<longleftrightarrow> cs_schema_version s = PROVIDER_CATALOG_SCHEMA_VERSION
     \<and> valid_profile_token U (cs_provider_id s) MAX_PROVIDER_PROFILE_ID_BYTES
     \<and> valid_credential_binding U (cs_credential_binding s)
     \<and> valid_profile_token U (cs_region s) MAX_PROVIDER_PROFILE_REGION_BYTES
     \<and> cs_profile_revision s \<noteq> 0 \<and> cs_revision s \<noteq> 0
     \<and> valid_content_hash (cs_profile_content_hash s) \<and> valid_content_hash (cs_catalog_content_hash s)
     \<and> length (cs_models s) \<le> MAX_PROVIDER_CATALOG_ENTRIES
     \<and> cs_observed_at_ms s \<noteq> 0 \<and> cs_expires_at_ms s > cs_observed_at_ms s
     \<and> sat_sub (cs_expires_at_ms s) (cs_observed_at_ms s) \<le> MAX_PROVIDER_CATALOG_TTL_MS
     \<and> list_all (\<lambda>m. descriptor_valid U m \<and> model_of_snapshot s m) (cs_models s)
     \<and> distinct (map md_model_id (cs_models s))
     \<and> catalog_state_consistent s"

definition fresh_from_catalog :: "unicode \<Rightarrow> provider_profile \<Rightarrow> model_catalog_entry list \<Rightarrow> u64 \<Rightarrow> string \<Rightarrow> u64 \<Rightarrow> u64 \<Rightarrow> catalog_snapshot option" where
  "fresh_from_catalog U p es revision hash observed_at expires_at =
     (if \<not> profile_valid U p then None
      else if revision = 0 \<or> \<not> valid_content_hash hash \<or> observed_at = 0 \<or> expires_at \<le> observed_at
        \<or> sat_sub expires_at observed_at > MAX_PROVIDER_CATALOG_TTL_MS \<or> length es > MAX_PROVIDER_CATALOG_ENTRIES then None
      else case normalize_catalog_entries es of None \<Rightarrow> None
      | Some normalized \<Rightarrow>
          let models = map (\<lambda>e. from_catalog_entry U p e revision hash) normalized in
          if None \<in> set models then None
          else
            let s = \<lparr>cs_schema_version = PROVIDER_CATALOG_SCHEMA_VERSION, cs_provider_id = pp_provider_id p,
              cs_credential_binding = pp_credential_binding p, cs_region = pp_region p, cs_profile_revision = pp_revision p,
              cs_profile_content_hash = pp_content_hash p, cs_revision = revision, cs_catalog_content_hash = hash, cs_state = CatFresh,
              cs_models = map the models, cs_observed_at_ms = observed_at, cs_expires_at_ms = expires_at, cs_failure = None\<rparr>
            in if catalog_valid U s then Some s else None)"

definition catalog_failure_snapshot ::
    "unicode \<Rightarrow> provider_profile \<Rightarrow> u64 \<Rightarrow> string \<Rightarrow> catalog_state \<Rightarrow> catalog_failure \<Rightarrow> u64 \<Rightarrow> u64 \<Rightarrow> catalog_snapshot option" where
  "catalog_failure_snapshot U p revision hash state failure observed_at expires_at =
     (if \<not> profile_valid U p then None
      else
        let s = \<lparr>cs_schema_version = PROVIDER_CATALOG_SCHEMA_VERSION, cs_provider_id = pp_provider_id p,
          cs_credential_binding = pp_credential_binding p, cs_region = pp_region p, cs_profile_revision = pp_revision p,
          cs_profile_content_hash = pp_content_hash p, cs_revision = revision, cs_catalog_content_hash = hash, cs_state = state,
          cs_models = [], cs_observed_at_ms = observed_at, cs_expires_at_ms = expires_at, cs_failure = Some failure\<rparr>
        in if catalog_valid U s then Some s else None)"

definition stale_after_failure :: "unicode \<Rightarrow> provider_profile \<Rightarrow> catalog_snapshot \<Rightarrow> u64 \<Rightarrow> catalog_failure \<Rightarrow> catalog_snapshot option" where
  "stale_after_failure U p previous revision failure =
     (if \<not> profile_valid U p \<or> \<not> catalog_valid U previous then None
      else if revision = 0 \<or> cs_provider_id previous \<noteq> pp_provider_id p \<or> cs_credential_binding previous \<noteq> pp_credential_binding p
        \<or> cs_region previous \<noteq> pp_region p \<or> cs_profile_revision previous \<noteq> pp_revision p
        \<or> cs_profile_content_hash previous \<noteq> pp_content_hash p then None
      else
        let models = map (\<lambda>m. m\<lparr>md_catalog_revision := revision\<rparr>) (cs_models previous) in
        if \<not> list_all (descriptor_valid U) models then None
        else
          let s = \<lparr>cs_schema_version = PROVIDER_CATALOG_SCHEMA_VERSION, cs_provider_id = pp_provider_id p,
            cs_credential_binding = pp_credential_binding p, cs_region = pp_region p, cs_profile_revision = pp_revision p,
            cs_profile_content_hash = pp_content_hash p, cs_revision = revision, cs_catalog_content_hash = cs_catalog_content_hash previous,
            cs_state = CatStale, cs_models = models, cs_observed_at_ms = cs_observed_at_ms previous,
            cs_expires_at_ms = cs_expires_at_ms previous, cs_failure = Some failure\<rparr>
          in if catalog_valid U s then Some s else None)"

definition catalog_route_eligible_at :: "unicode \<Rightarrow> catalog_snapshot \<Rightarrow> string \<Rightarrow> u64 \<Rightarrow> bool" where
  "catalog_route_eligible_at U s model_id now \<longleftrightarrow> catalog_valid U s \<and> cs_state s = CatFresh
     \<and> now \<ge> cs_observed_at_ms s \<and> now < cs_expires_at_ms s \<and> list_ex (\<lambda>m. md_model_id m = model_id) (cs_models s)"

definition gateway_entries :: "unicode \<Rightarrow> catalog_snapshot \<Rightarrow> model_catalog_entry list option" where
  "gateway_entries U s =
     (if \<not> catalog_valid U s then None
      else Some (map (\<lambda>m. \<lparr>cen_id = md_model_id m, cen_context_tokens = ml_context_tokens (md_limits m),
        cen_max_output_tokens = ml_max_output_tokens (md_limits m)\<rparr>) (cs_models s)))"

section \<open>Evidence of free access\<close>

datatype free_access_state = AdvFree | AdvFreeTierLimited | AdvTrialCredits | AdvPaid | AdvUnknown | AdvExperimental | AdvNeedsRefresh

datatype observed_state = ObsVerifiedFreeLimited | ObsTrialOnly | ObsCreditOnly | ObsActivationRequired | ObsPaidOnly | ObsUnknown

datatype activation_state = ActNotRequired | ActRequired | ActCompleted | ActUnknown

datatype allowance_kind = AllowRecurring | AllowTrialCredit | AllowOneTimeCredit | AllowNone | AllowUnknown

datatype allowance_provenance = AllowProvUnknown | AllowProvOpenRouterPricing string

datatype credit_unit = UnitRequests | UnitTokens | UnitCharacters | UnitSeconds | UnitCurrencyMicros | UnitUnknown

datatype limit_scope = ScopeAccount | ScopeProvider | ScopeModel

datatype limit_source = LimitDeclared | LimitObserved | LimitSourceUnknown

datatype evidence_invalidation = InvBillingRequired | InvAccountRestricted | InvQuotaExhausted | InvCatalogChanged | InvCredentialChanged | InvManual

datatype evidence_freshness = EvFresh | EvStale | EvExpired | EvInvalidated

record free_access_limit =
  fl_scope :: limit_scope
  fl_source :: limit_source
  fl_unit :: credit_unit
  fl_allowance :: allowance_kind
  fl_limit :: "u64 option"
  fl_remaining :: "u64 option"
  fl_observed_at_ms :: u64
  fl_resets_at_ms :: "u64 option"

definition free_access_limit_valid :: "free_access_limit \<Rightarrow> bool" where
  "free_access_limit_valid l \<longleftrightarrow> \<not> (fl_observed_at_ms l = 0 \<or> fl_limit l = Some 0
     \<or> (case (fl_remaining l, fl_limit l) of (Some remaining, Some limit) \<Rightarrow> remaining > limit | _ \<Rightarrow> False)
     \<or> (case fl_resets_at_ms l of Some r \<Rightarrow> r \<le> fl_observed_at_ms l | None \<Rightarrow> False))"

record free_access_evidence =
  ev_schema_version :: "16 word"
  ev_provider_id :: string
  ev_model_id :: string
  ev_credential_binding :: string
  ev_region :: string
  ev_profile_revision :: u64
  ev_profile_content_hash :: string
  ev_advertised_state :: free_access_state
  ev_observed_state :: observed_state
  ev_activation :: activation_state
  ev_allowance :: allowance_kind
  ev_allowance_provenance :: allowance_provenance
  ev_limits :: "free_access_limit list"
  ev_successful_sample_count :: u32
  ev_confidence_bps :: "16 word"
  ev_observed_at_ms :: u64
  ev_expires_at_ms :: u64
  ev_invalidation :: "evidence_invalidation option"
  ev_failure_reason :: "string option"
  ev_content_hash :: string
  ev_revision :: u64

record free_env =
  fe_unicode :: unicode
  fe_sha :: "string \<Rightarrow> string"
  fe_json :: "free_access_evidence \<Rightarrow> string option"
  fe_parse :: "string \<Rightarrow> free_access_evidence option"

definition FREE_ACCESS_EVIDENCE_SCHEMA_VERSION :: "16 word" where "FREE_ACCESS_EVIDENCE_SCHEMA_VERSION = 2"
definition MAX_FREE_ACCESS_LIMITS :: nat where "MAX_FREE_ACCESS_LIMITS = 16"
definition MAX_FREE_ACCESS_SAMPLES :: u32 where "MAX_FREE_ACCESS_SAMPLES = 256"
definition MAX_FREE_ACCESS_CONFIDENCE_BPS :: "16 word" where "MAX_FREE_ACCESS_CONFIDENCE_BPS = 10000"
definition MAX_FREE_ACCESS_TTL_MS :: u64 where "MAX_FREE_ACCESS_TTL_MS = 31 * 24 * 60 * 60 * 1000"

definition evidence_content_hash :: "free_env \<Rightarrow> free_access_evidence \<Rightarrow> string option" where
  "evidence_content_hash E e = map_option (fe_sha E) (fe_json E (e\<lparr>ev_content_hash := []\<rparr>))"

definition evidence_bounded :: "unicode \<Rightarrow> free_access_evidence \<Rightarrow> bool" where
  "evidence_bounded U e \<longleftrightarrow> ev_schema_version e = FREE_ACCESS_EVIDENCE_SCHEMA_VERSION
     \<and> valid_profile_token U (ev_provider_id e) MAX_PROVIDER_PROFILE_ID_BYTES
     \<and> valid_provider_model_id U (ev_provider_id e) (ev_model_id e)
     \<and> valid_bound_credential (ev_credential_binding e)
     \<and> valid_profile_token U (ev_region e) MAX_PROVIDER_PROFILE_REGION_BYTES
     \<and> ev_profile_revision e \<noteq> 0 \<and> valid_content_hash (ev_profile_content_hash e)
     \<and> length (ev_limits e) \<le> MAX_FREE_ACCESS_LIMITS \<and> ev_successful_sample_count e \<le> MAX_FREE_ACCESS_SAMPLES
     \<and> ev_confidence_bps e \<le> MAX_FREE_ACCESS_CONFIDENCE_BPS
     \<and> ev_observed_at_ms e \<noteq> 0 \<and> ev_expires_at_ms e > ev_observed_at_ms e
     \<and> sat_sub (ev_expires_at_ms e) (ev_observed_at_ms e) \<le> MAX_FREE_ACCESS_TTL_MS
     \<and> ev_revision e \<noteq> 0 \<and> valid_content_hash (ev_content_hash e)
     \<and> (case ev_failure_reason e of Some reason \<Rightarrow> valid_profile_token U reason 128 | None \<Rightarrow> True)
     \<and> list_all free_access_limit_valid (ev_limits e)
     \<and> (case ev_allowance_provenance e of AllowProvUnknown \<Rightarrow> True | AllowProvOpenRouterPricing hash \<Rightarrow> valid_content_hash hash)"

definition evidence_consistent :: "free_access_evidence \<Rightarrow> bool" where
  "evidence_consistent e =
     (case ev_observed_state e of
        ObsVerifiedFreeLimited \<Rightarrow> ev_allowance e = AllowRecurring \<and> ev_successful_sample_count e > 0 \<and> ev_provider_id e = ''openrouter''
          \<and> ev_allowance_provenance e \<noteq> AllowProvUnknown
      | ObsTrialOnly \<Rightarrow> ev_allowance e = AllowTrialCredit
      | ObsCreditOnly \<Rightarrow> ev_allowance e = AllowOneTimeCredit
      | ObsActivationRequired \<Rightarrow> ev_activation e = ActRequired
      | ObsPaidOnly \<Rightarrow> ev_allowance e = AllowNone
      | ObsUnknown \<Rightarrow> True)"

definition evidence_valid :: "free_env \<Rightarrow> free_access_evidence \<Rightarrow> bool" where
  "evidence_valid E e \<longleftrightarrow> evidence_bounded (fe_unicode E) e \<and> evidence_consistent e \<and> evidence_content_hash E e = Some (ev_content_hash e)"

definition evidence_seal :: "free_env \<Rightarrow> free_access_evidence \<Rightarrow> free_access_evidence option" where
  "evidence_seal E e =
     (case evidence_content_hash E (e\<lparr>ev_content_hash := []\<rparr>) of None \<Rightarrow> None
      | Some hash \<Rightarrow> let e = e\<lparr>ev_content_hash := hash\<rparr> in if evidence_valid E e then Some e else None)"

definition matches_profile :: "free_access_evidence \<Rightarrow> provider_profile \<Rightarrow> bool" where
  "matches_profile e p \<longleftrightarrow> ev_provider_id e = pp_provider_id p \<and> ev_credential_binding e = pp_credential_binding p
     \<and> ev_region e = pp_region p \<and> ev_profile_revision e = pp_revision p \<and> ev_profile_content_hash e = pp_content_hash p"

definition freshness_at :: "free_access_evidence \<Rightarrow> u64 \<Rightarrow> evidence_freshness" where
  "freshness_at e now =
     (if ev_invalidation e \<noteq> None then EvInvalidated else if now < ev_observed_at_ms e then EvStale
      else if now \<ge> ev_expires_at_ms e then EvExpired else EvFresh)"

definition is_strictly_free_at :: "free_env \<Rightarrow> free_access_evidence \<Rightarrow> u64 \<Rightarrow> bool" where
  "is_strictly_free_at E e now \<longleftrightarrow> evidence_valid E e \<and> freshness_at e now = EvFresh \<and> ev_observed_state e = ObsVerifiedFreeLimited
     \<and> (ev_activation e = ActNotRequired \<or> ev_activation e = ActCompleted)
     \<and> ev_allowance e = AllowRecurring \<and> ev_successful_sample_count e > 0"

section \<open>Storage rows of evidence\<close>

fun invalidation_code :: "evidence_invalidation \<Rightarrow> string" where
  "invalidation_code InvBillingRequired = ''billing_required''"
| "invalidation_code InvAccountRestricted = ''account_restricted''"
| "invalidation_code InvQuotaExhausted = ''quota_exhausted''"
| "invalidation_code InvCatalogChanged = ''catalog_changed''"
| "invalidation_code InvCredentialChanged = ''credential_changed''"
| "invalidation_code InvManual = ''manual''"

record evidence_row =
  er_provider_id :: string
  er_model_id :: string
  er_credential_binding :: string
  er_region :: string
  er_revision :: i64
  er_content_hash :: string
  er_evidence_json :: string
  er_observed_at_ms :: i64
  er_expires_at_ms :: i64
  er_invalidation :: "string option"

definition i64_try_from :: "u64 \<Rightarrow> i64 option" where
  "i64_try_from w = (if int (unat w) \<le> i64_max then Some (int (unat w)) else None)"

text \<open>\<open>to_storage_record\<close>: the name of an invalidation in its JSON, without the quotes, is its code.\<close>

definition evidence_to_row :: "free_env \<Rightarrow> free_access_evidence \<Rightarrow> evidence_row option" where
  "evidence_to_row E e =
     (if \<not> evidence_valid E e then None
      else case (fe_json E e, i64_try_from (ev_revision e), i64_try_from (ev_observed_at_ms e), i64_try_from (ev_expires_at_ms e)) of
        (Some json, Some revision, Some observed_at, Some expires_at) \<Rightarrow>
          Some \<lparr>er_provider_id = ev_provider_id e, er_model_id = ev_model_id e, er_credential_binding = ev_credential_binding e,
            er_region = ev_region e, er_revision = revision, er_content_hash = ev_content_hash e, er_evidence_json = json,
            er_observed_at_ms = observed_at, er_expires_at_ms = expires_at, er_invalidation = map_option invalidation_code (ev_invalidation e)\<rparr>
      | _ \<Rightarrow> None)"

definition evidence_from_row :: "free_env \<Rightarrow> evidence_row \<Rightarrow> free_access_evidence option" where
  "evidence_from_row E row =
     (if er_revision row \<le> 0 \<or> er_observed_at_ms row \<le> 0 \<or> er_expires_at_ms row \<le> er_observed_at_ms row then None
      else case fe_parse E (er_evidence_json row) of None \<Rightarrow> None
      | Some e \<Rightarrow>
          if ev_provider_id e \<noteq> er_provider_id row \<or> ev_model_id e \<noteq> er_model_id row
            \<or> ev_credential_binding e \<noteq> er_credential_binding row \<or> ev_region e \<noteq> er_region row
            \<or> i64_try_from (ev_revision e) \<noteq> Some (er_revision row) \<or> ev_content_hash e \<noteq> er_content_hash row
            \<or> i64_try_from (ev_observed_at_ms e) \<noteq> Some (er_observed_at_ms row)
            \<or> i64_try_from (ev_expires_at_ms e) \<noteq> Some (er_expires_at_ms row)
            \<or> map_option invalidation_code (ev_invalidation e) \<noteq> er_invalidation row then None
          else if evidence_valid E e then Some e else None)"

section \<open>The preflight of the core\<close>

datatype free_access_routing_mode = RouteAny | RoutePreferFree | RouteFreeOnly

definition routing_mode_parse :: "string \<Rightarrow> free_access_routing_mode" where
  "routing_mode_parse value = (if value = ''prefer_free'' then RoutePreferFree else if value = ''free_only'' then RouteFreeOnly else RouteAny)"

definition provider_catalog_scope_key :: "provider_profile \<Rightarrow> string" where
  "provider_catalog_scope_key p =
     str_join ''|'' [pp_provider_id p, pp_credential_binding p, pp_region p, show_word (pp_revision p), pp_content_hash p]"

definition free_access_evidence_scope_key :: "string \<Rightarrow> string \<Rightarrow> string \<Rightarrow> string \<Rightarrow> u64 \<Rightarrow> string \<Rightarrow> string" where
  "free_access_evidence_scope_key provider_id model_id binding region revision hash =
     str_join ''|'' [provider_id, model_id, binding, region, show_word revision, hash]"

type_synonym evidence_cache = "string \<rightharpoonup> free_access_evidence"
type_synonym catalog_cache = "string \<rightharpoonup> catalog_snapshot"

record catalog_preflight =
  cp_routes :: "string \<rightharpoonup> model_route_config"
  cp_catalog :: catalog_cache
  cp_mode :: free_access_routing_mode
  cp_allow_paid_fallback :: bool
  cp_evidence :: "evidence_cache option"

definition profile_evidence_key :: "provider_profile \<Rightarrow> string \<Rightarrow> string" where
  "profile_evidence_key p model_id = free_access_evidence_scope_key (pp_provider_id p) model_id (pp_credential_binding p) (pp_region p)
     (pp_revision p) (pp_content_hash p)"

definition is_verified_free_route :: "free_env \<Rightarrow> catalog_preflight \<Rightarrow> string \<Rightarrow> string \<Rightarrow> u64 \<Rightarrow> bool" where
  "is_verified_free_route E cp route model now =
     (case cp_routes cp route of None \<Rightarrow> False
      | Some cfg \<Rightarrow>
          case profile_from_route_config (fe_unicode E) (fe_sha E) cfg of None \<Rightarrow> False
          | Some p \<Rightarrow>
              (case cp_evidence cp of None \<Rightarrow> False
               | Some cache \<Rightarrow>
                   (case cache (profile_evidence_key p model) of None \<Rightarrow> False
                    | Some e \<Rightarrow> matches_profile e p \<and> is_strictly_free_at E e now)))"

definition has_confirmed_unsupported_capability :: "model_descriptor \<Rightarrow> model_capability \<Rightarrow> bool" where
  "has_confirmed_unsupported_capability d cap \<longleftrightarrow>
     list_ex (\<lambda>f. cf_capability f = cap \<and> cf_state f = CapUnsupported \<and> (cf_provenance f = ProvDeclared \<or> cf_provenance f = ProvObserved))
       (md_capabilities d)"

definition catalog_check :: "unicode \<Rightarrow> catalog_snapshot \<Rightarrow> string \<Rightarrow> bool \<Rightarrow> u64 \<Rightarrow> provider_error option" where
  "catalog_check U s model_id requires_tool_calls now =
     (case cs_state s of
        CatFresh \<Rightarrow>
          if catalog_route_eligible_at U s model_id now then
            (if (case List.find (\<lambda>m. md_model_id m = model_id) (cs_models s) of None \<Rightarrow> False
                 | Some d \<Rightarrow> has_confirmed_unsupported_capability d CapChat
                     \<or> requires_tool_calls \<and> has_confirmed_unsupported_capability d CapToolCalls)
             then Some (ConfigError ''provider_model_capability_unsupported'') else None)
          else if now \<ge> cs_expires_at_ms s then Some (ConfigError ''provider_catalog_expired'')
          else Some (ConfigError ''provider_model_not_found'')
      | CatStale \<Rightarrow> Some (ConfigError ''provider_catalog_stale'')
      | CatCredentialRejected \<Rightarrow> Some (ConfigError ''provider_credential_rejected'')
      | CatUnavailable \<Rightarrow> (if cs_failure s = Some CfModelNotFound then Some (ConfigError ''provider_model_not_found'')
          else Some (ConfigError ''provider_catalog_unavailable''))
      | CatDiscoveryUnsupported \<Rightarrow> None)"

definition free_access_check :: "free_env \<Rightarrow> catalog_preflight \<Rightarrow> string \<Rightarrow> string \<Rightarrow> u64 \<Rightarrow> provider_error option" where
  "free_access_check E cp route model_id now =
     (let verified = is_verified_free_route E cp route model_id now in
      case cp_mode cp of
        RouteAny \<Rightarrow> None
      | RouteFreeOnly \<Rightarrow> (if verified then None else Some (ConfigError ''free_access_not_verified''))
      | RoutePreferFree \<Rightarrow> (if verified then None else if \<not> ends_with model_id '':free'' \<and> cp_allow_paid_fallback cp then None
          else Some (ConfigError ''free_access_fallback_not_allowed'')))"

definition check_with_requirements ::
    "free_env \<Rightarrow> catalog_preflight \<Rightarrow> string \<Rightarrow> string option \<Rightarrow> bool \<Rightarrow> u64 \<Rightarrow> provider_error option" where
  "check_with_requirements E cp route model requires_tool_calls now =
     (case cp_routes cp route of None \<Rightarrow> Some (ConfigError ''provider_route_not_configured'')
      | Some cfg \<Rightarrow>
          if \<not> route_configured (fe_unicode E) cfg then Some (ConfigError ''provider_credential_not_configured'')
          else case profile_from_route_config (fe_unicode E) (fe_sha E) cfg of None \<Rightarrow> Some (ConfigError ''provider_profile_invalid'')
          | Some p \<Rightarrow>
              let model_id = chosen_model (fe_unicode E) model (str_trim (fe_unicode E) (rcfg_model cfg)) in
              if model_id = [] then Some (ConfigError ''provider_model_not_configured'')
              else case (case cp_catalog cp (provider_catalog_scope_key p) of None \<Rightarrow> None
                         | Some s \<Rightarrow> catalog_check (fe_unicode E) s model_id requires_tool_calls now) of
                Some e \<Rightarrow> Some e
              | None \<Rightarrow> free_access_check E cp route model_id now)"

text \<open>The preflight as the gateway sees it.\<close>

definition core_preflight :: "free_env \<Rightarrow> catalog_preflight \<Rightarrow> route_preflight" where
  "core_preflight E cp = \<lparr>pf_check = (\<lambda>route model now. check_with_requirements E cp route model False now),
     pf_requires_free = (cp_mode cp = RouteFreeOnly), pf_prefers_free = (cp_mode cp = RoutePreferFree),
     pf_verified_free = is_verified_free_route E cp\<rparr>"

definition classify_catalog_error :: "provider_error \<Rightarrow> catalog_failure" where
  "classify_catalog_error error =
     (case error of
        ConfigError m \<Rightarrow>
          let msg = to_ascii_lowercase m in
          if str_contains msg ''model_not_found'' \<or> str_contains msg ''model not found'' then CfModelNotFound
          else if str_contains msg ''key'' \<or> str_contains msg ''credential'' then CfCredentialRejected
          else CfDiscoveryUnsupported
      | ImagePreflightRejected \<Rightarrow> CfDiscoveryUnsupported
      | ImageCapabilityStale \<Rightarrow> CfDiscoveryUnsupported
      | HttpError m \<Rightarrow> (if str_contains (to_ascii_lowercase m) ''timeout'' then CfTimeout else CfNetwork)
      | StreamError m \<Rightarrow> (if str_contains (to_ascii_lowercase m) ''timeout'' then CfTimeout else CfNetwork)
      | ApiError m \<Rightarrow>
          let msg = to_ascii_lowercase m in
          if str_contains msg ''401'' \<or> str_contains msg ''403'' then CfCredentialRejected
          else if str_contains msg ''429'' \<or> str_contains msg ''rate'' then CfRateLimited
          else if str_contains msg ''model not found'' \<or> str_contains msg ''model_not_found'' then CfModelNotFound
          else if str_contains msg ''404'' then CfDiscoveryUnsupported
          else if str_contains msg ''exceeds size'' \<or> str_contains msg ''too large'' then CfResponseTooLarge
          else if str_contains msg ''too many'' \<or> str_contains msg ''entries'' then CfEntryLimitExceeded
          else if str_contains msg ''invalid'' \<or> str_contains msg ''malformed'' then CfMalformedResponse
          else CfProtocolMismatch)"

section \<open>A route of OpenRouter\<close>

definition demo_hash :: string where "demo_hash = replicate 64 (CHR ''a'')"

definition demo_cfg :: model_route_config where
  "demo_cfg = \<lparr>rcfg_provider = KindOpenAICompatible, rcfg_api_key = ''k'', rcfg_base_url = ''https://openrouter.ai/api/v1'', rcfg_model = ''a/m'',
     rcfg_profile_id = Some PidOpenRouter, rcfg_account_id = None,
     rcfg_credential_binding = Some ''credential:01234567-89ab-4cde-8fab-0123456789ab''\<rparr>"

definition demo_profile :: provider_profile where
  "demo_profile = \<lparr>pp_schema_version = 1, pp_provider_id = ''openrouter'', pp_provider_family = FamOpenRouter,
     pp_transport = ''openai_compatible'', pp_transport_kind = TransOpenAiCompatible, pp_endpoint = ''https://openrouter.ai/api/v1'',
     pp_region = ''global'', pp_credential_binding = ''credential:01234567-89ab-4cde-8fab-0123456789ab'', pp_content_hash = demo_hash, pp_revision = 1\<rparr>"

lemma demo_hash_valid: "valid_content_hash demo_hash"
  by code_simp

lemma demo_profile_ok: "profile_from_route_config plain_unicode (\<lambda>_. demo_hash) demo_cfg = Some demo_profile"
  by code_simp

section \<open>Catalogues\<close>

lemma option_rank_inj:
  assumes "option_rank a = option_rank b"
  shows "a = b"
proof -
  have neg: "uint x \<noteq> - 1" "- 1 \<noteq> uint x" for x :: u32 using uint_ge_0 [of x] by linarith+
  show ?thesis using assms neg by (cases a; cases b) (simp_all add: option_rank_def word_uint_eq_iff)
qed

lemma entry_key_inj: "inj entry_key"
proof (rule injI)
  fix a b :: model_catalog_entry
  assume "entry_key a = entry_key b"
  then show "a = b" using option_rank_inj by (auto simp: entry_key_def intro!: model_catalog_entry.equality)
qed

lemma sort_entries_canonical: "mset es = mset es' \<Longrightarrow> sort_key entry_key es = sort_key entry_key es'"
  by (rule sort_key_inj_key_eq) (simp_all add: inj_on_subset [OF entry_key_inj])

lemma sorted_entry_ids: "sorted (map cen_id (sort_key entry_key es))"
proof -
  have "sorted (map entry_key (sort_key entry_key es))" by simp
  then show ?thesis unfolding sorted_wrt_map by (rule sorted_wrt_mono_rel [rotated]) (auto simp: entry_key_def less_eq_prod_def)
qed

lemma dedup_ids_hd: "es \<noteq> [] \<Longrightarrow> dedup_ids es \<noteq> [] \<and> hd (dedup_ids es) = hd es"
  by (induction es rule: dedup_ids.induct) auto

lemma dedup_ids_set: "set (dedup_ids es) \<subseteq> set es \<and> cen_id ` set (dedup_ids es) = cen_id ` set es"
  by (induction es rule: dedup_ids.induct) auto

lemma dedup_ids_sorted: "sorted (map cen_id es) \<Longrightarrow> sorted_wrt (<) (map cen_id (dedup_ids es))"
proof (induction es rule: dedup_ids.induct)
  case (1 a b es)
  have "cen_id ` set (dedup_ids (b # es)) = cen_id ` set (b # es)" using dedup_ids_set by blast
  moreover have "\<forall>x\<in>set (b # es). cen_id b \<le> cen_id x" using 1 by auto
  ultimately have "\<forall>i\<in>cen_id ` set (dedup_ids (b # es)). cen_id b \<le> i" by auto
  then show ?case using 1 by (auto intro: less_le_trans)
qed simp_all

lemma from_catalog_entry_Some:
  "from_catalog_entry U p e revision hash = Some d \<Longrightarrow> md_model_id d = cen_id e
     \<and> md_limits d = \<lparr>ml_context_tokens = cen_context_tokens e, ml_max_output_tokens = cen_max_output_tokens e\<rparr>"
  by (auto simp: from_catalog_entry_def Let_def split: if_splits)

lemma descriptors_entries:
  "None \<notin> set (map (\<lambda>e. from_catalog_entry U p e revision hash) es)
    \<Longrightarrow> map (\<lambda>m. \<lparr>cen_id = md_model_id m, cen_context_tokens = ml_context_tokens (md_limits m),
        cen_max_output_tokens = ml_max_output_tokens (md_limits m)\<rparr>) (map the (map (\<lambda>e. from_catalog_entry U p e revision hash) es)) = es"
proof (induction es)
  case (Cons e es)
  then obtain d where "from_catalog_entry U p e revision hash = Some d" by (cases "from_catalog_entry U p e revision hash") auto
  with from_catalog_entry_Some [OF this] Cons show ?case by simp
qed simp

text \<open>C22: A snapshot of a catalogue does not depend on the order in which the provider listed its models: the entries that the gateway gets back
  from a fresh snapshot are the normalized entries of any reordering of the catalogue, in strictly rising order of their identifiers. They are
  entries of the catalogue, one for each identifier in it, so that nothing is invented and no model is lost.\<close>

theorem catalog_snapshot_canonical:
  assumes "fresh_from_catalog U p es revision hash observed expires = Some s" and "mset es' = mset es"
  shows "\<exists>entries. gateway_entries U s = Some entries \<and> normalize_catalog_entries es' = Some entries
    \<and> sorted_wrt (<) (map cen_id entries) \<and> set entries \<subseteq> set es \<and> cen_id ` set entries = cen_id ` set es"
proof -
  let ?ns = "dedup_ids (sort_key entry_key es)"
  have len: "length es \<le> MAX_PROVIDER_CATALOG_ENTRIES" and n: "normalize_catalog_entries es = Some ?ns"
    using assms(1) by (auto simp: fresh_from_catalog_def normalize_catalog_entries_def split: if_splits)
  from assms(1) n have ds: "None \<notin> set (map (\<lambda>e. from_catalog_entry U p e revision hash) ?ns)"
      and models: "cs_models s = map the (map (\<lambda>e. from_catalog_entry U p e revision hash) ?ns)" and valid: "catalog_valid U s"
    by (auto simp: fresh_from_catalog_def Let_def split: if_splits)
  have "gateway_entries U s = Some ?ns" unfolding gateway_entries_def models using valid descriptors_entries [OF ds] by simp
  moreover have "normalize_catalog_entries es' = Some ?ns"
    using n len assms(2) sort_entries_canonical [OF assms(2)] mset_eq_length [OF assms(2)] by (simp add: normalize_catalog_entries_def)
  moreover have "sorted_wrt (<) (map cen_id ?ns)" by (rule dedup_ids_sorted [OF sorted_entry_ids])
  moreover have "set ?ns \<subseteq> set es" "cen_id ` set ?ns = cen_id ` set es" using dedup_ids_set [of "sort_key entry_key es"] by simp_all
  ultimately show ?thesis by blast
qed

definition demo_catalog :: "model_catalog_entry list" where
  "demo_catalog = [\<lparr>cen_id = ''b'', cen_context_tokens = None, cen_max_output_tokens = None\<rparr>, \<lparr>cen_id = ''a/m'', cen_context_tokens = Some 8,
     cen_max_output_tokens = None\<rparr>, \<lparr>cen_id = ''a/m'', cen_context_tokens = Some 9, cen_max_output_tokens = Some 2\<rparr>]"

theorem catalog_snapshot_canonical_witness:
  "\<exists>s entries. fresh_from_catalog plain_unicode demo_profile demo_catalog 3 demo_hash 10 20 = Some s
    \<and> gateway_entries plain_unicode s = Some entries \<and> normalize_catalog_entries (rev demo_catalog) = Some entries
    \<and> sorted_wrt (<) (map cen_id entries) \<and> set entries \<subseteq> set demo_catalog \<and> cen_id ` set entries = cen_id ` set demo_catalog"
proof -
  have "fresh_from_catalog plain_unicode demo_profile demo_catalog 3 demo_hash 10 20 \<noteq> None" by code_simp
  then obtain s where "fresh_from_catalog plain_unicode demo_profile demo_catalog 3 demo_hash 10 20 = Some s" by blast
  from catalog_snapshot_canonical [OF this, of "rev demo_catalog"] this show ?thesis by auto
qed

text \<open>The word \<open>rate\<close> is looked for in the whole message, and it is in \<open>generate\<close>: an answer that says that the model is missing counts as a
  rate limit when it names the method.\<close>

theorem missing_model_counts_as_rate_limit:
  "classify_catalog_error (ApiError ''model not found for generateContent'') = CfRateLimited
   \<and> classify_catalog_error (ApiError ''model not found'') = CfModelNotFound"
  by code_simp

end
