(* ===== verification/Evidence_Store.thy ===== *)
theory Evidence_Store
  imports Free_Access
begin

text \<open>
  \<open>crates/evohime-local-storage/src/free_access_evidence_store.rs\<close>: the table of the evidence of free access. The table is the list of its
  rows; its primary key is provider, model, credential binding and region. Every operation that runs a statement has an argument that says
  whether SQLite fails; a failed transaction leaves the table as it was. The JSON of a row, which serde reads, is given by a function.
\<close>

section \<open>Metadata that may be stored\<close>

datatype json_value = JNull | JBool bool | JNumber string | JString string | JArray "json_value list" | JObject "(string \<times> json_value) list"

definition MAX_EVIDENCE_JSON_BYTES :: nat where "MAX_EVIDENCE_JSON_BYTES = 128 * 1024"
definition MAX_EVIDENCE_ROWS :: nat where "MAX_EVIDENCE_ROWS = 2048"
definition MAX_SCOPE_TOKEN_BYTES :: nat where "MAX_SCOPE_TOKEN_BYTES = 256"
definition MAX_REGION_BYTES :: nat where "MAX_REGION_BYTES = 64"
definition MAX_CREDENTIAL_BINDING_BYTES :: nat where "MAX_CREDENTIAL_BINDING_BYTES = 128"

definition safe_text :: "string \<Rightarrow> bool" where
  "safe_text text \<longleftrightarrow> length text \<le> 512 \<and> \<not> str_contains text ''http://'' \<and> \<not> str_contains text ''https://''
     \<and> \<not> str_contains (to_ascii_lowercase text) ''sk-''"

definition safe_key :: "string \<Rightarrow> bool" where
  "safe_key key \<longleftrightarrow> list_all (\<lambda>word. \<not> str_contains (to_ascii_lowercase key) word)
     [''prompt'', ''secret'', ''password'', ''token'', ''header'', ''response'']"

fun safe_metadata_json :: "json_value \<Rightarrow> nat \<Rightarrow> bool" where
  "safe_metadata_json JNull depth = (depth \<le> 8)"
| "safe_metadata_json (JBool b) depth = (depth \<le> 8)"
| "safe_metadata_json (JNumber n) depth = (depth \<le> 8)"
| "safe_metadata_json (JString text) depth = (depth \<le> 8 \<and> safe_text text)"
| "safe_metadata_json (JArray items) depth =
     (depth \<le> 8 \<and> length items \<le> 64 \<and> (\<forall>item\<in>set items. safe_metadata_json item (depth + 1)))"
| "safe_metadata_json (JObject members) depth =
     (depth \<le> 8 \<and> length members \<le> 64 \<and> (\<forall>field\<in>set members. safe_key (fst field) \<and> safe_metadata_json (snd field) (depth + 1)))"

section \<open>Rows\<close>

definition store_valid_token :: "unicode \<Rightarrow> string \<Rightarrow> nat \<Rightarrow> bool" where
  "store_valid_token U value max_bytes \<longleftrightarrow> value \<noteq> [] \<and> length value \<le> max_bytes \<and> value = str_trim U value
     \<and> list_all (\<lambda>b. is_ascii_alphanumeric b \<or> b \<in> set ''._:-/'') value"

definition store_valid_binding :: "unicode \<Rightarrow> string \<Rightarrow> bool" where
  "store_valid_binding U value \<longleftrightarrow> store_valid_token U value MAX_CREDENTIAL_BINDING_BYTES
     \<and> list_all (\<lambda>word. \<not> str_contains (to_ascii_lowercase value) word) [''secret'', ''bearer'', ''token'']
     \<and> list_all (\<lambda>word. \<not> is_prefix_of word (to_ascii_lowercase value)) [''sk-'', ''gsk_'', ''aiza'']"

definition validate_record :: "unicode \<Rightarrow> (string \<Rightarrow> json_value option) \<Rightarrow> evidence_row \<Rightarrow> bool" where
  "validate_record U parse row \<longleftrightarrow>
     \<not> (\<not> store_valid_token U (er_provider_id row) MAX_SCOPE_TOKEN_BYTES
        \<or> \<not> store_valid_token U (er_model_id row) MAX_SCOPE_TOKEN_BYTES
        \<or> \<not> store_valid_binding U (er_credential_binding row)
        \<or> \<not> store_valid_token U (er_region row) MAX_REGION_BYTES
        \<or> er_revision row \<le> 0
        \<or> \<not> valid_content_hash (er_content_hash row)
        \<or> er_evidence_json row = [] \<or> length (er_evidence_json row) > MAX_EVIDENCE_JSON_BYTES
        \<or> er_observed_at_ms row \<le> 0 \<or> er_expires_at_ms row \<le> er_observed_at_ms row
        \<or> (case er_invalidation row of Some value \<Rightarrow> \<not> store_valid_token U value 128 | None \<Rightarrow> False))
     \<and> (case parse (er_evidence_json row) of None \<Rightarrow> False | Some value \<Rightarrow> safe_metadata_json value 0)"

section \<open>The table\<close>

type_synonym scope_key = "string \<times> string \<times> string \<times> string"

definition row_key :: "evidence_row \<Rightarrow> scope_key" where
  "row_key row = (er_provider_id row, er_model_id row, er_credential_binding row, er_region row)"

definition evidence_get :: "evidence_row list \<Rightarrow> scope_key \<Rightarrow> evidence_row option" where
  "evidence_get rows k = List.find (\<lambda>row. row_key row = k) rows"

text \<open>The statement \<open>INSERT \<dots> ON CONFLICT DO UPDATE \<dots> WHERE\<close> and whether it changed a row.\<close>

definition upsert_row :: "evidence_row \<Rightarrow> evidence_row list \<Rightarrow> bool \<times> evidence_row list" where
  "upsert_row row rows =
     (case evidence_get rows (row_key row) of
        None \<Rightarrow> (True, rows @ [row])
      | Some current \<Rightarrow>
          if er_revision row = er_revision current + 1
          then (True, map (\<lambda>r. if row_key r = row_key row then row else r) rows) else (False, rows))"

definition evidence_put ::
    "unicode \<Rightarrow> (string \<Rightarrow> json_value option) \<Rightarrow> bool \<Rightarrow> evidence_row \<Rightarrow> evidence_row list \<Rightarrow> (string + bool) \<times> evidence_row list" where
  "evidence_put U parse sqlite_fails row rows =
     (if \<not> validate_record U parse row then (Inl ''invalid free access evidence'', rows)
      else if sqlite_fails then (Inl ''sqlite'', rows)
      else case evidence_get rows (row_key row) of
        Some current \<Rightarrow>
          if er_revision row \<noteq> i64_sat_add (er_revision current) 1 then (Inr False, rows)
          else (let (changed, rows') = upsert_row row rows in (Inr changed, rows'))
      | None \<Rightarrow>
          if er_revision row \<noteq> 1 then (Inr False, rows)
          else if length rows \<ge> MAX_EVIDENCE_ROWS then (Inl ''free access evidence limit'', rows)
          else (let (changed, rows') = upsert_row row rows in (Inr changed, rows')))"

definition delete_credential_scope :: "unicode \<Rightarrow> bool \<Rightarrow> string \<Rightarrow> evidence_row list \<Rightarrow> (string + nat) \<times> evidence_row list" where
  "delete_credential_scope U sqlite_fails binding rows =
     (if \<not> store_valid_binding U binding then (Inl ''invalid credential binding'', rows)
      else if sqlite_fails then (Inl ''sqlite'', rows)
      else (Inr (length (filter (\<lambda>r. er_credential_binding r = binding) rows)), filter (\<lambda>r. er_credential_binding r \<noteq> binding) rows))"

definition latest_observed_at :: "evidence_row list \<Rightarrow> string \<Rightarrow> i64 option" where
  "latest_observed_at rows binding =
     (case map er_observed_at_ms (filter (\<lambda>r. er_credential_binding r = binding) rows) of [] \<Rightarrow> None | t # ts \<Rightarrow> Some (fold max ts t))"

section \<open>The table as a map with a revision fence\<close>

definition store_ok :: "unicode \<Rightarrow> (string \<Rightarrow> json_value option) \<Rightarrow> evidence_row list \<Rightarrow> bool" where
  "store_ok U parse rows \<longleftrightarrow> distinct (map row_key rows) \<and> length rows \<le> MAX_EVIDENCE_ROWS
     \<and> list_all (\<lambda>r. validate_record U parse r \<and> er_revision r \<le> i64_max) rows"

text \<open>The revision that a scope accepts next.\<close>

definition next_row_revision :: "evidence_row option \<Rightarrow> int" where
  "next_row_revision current = (case current of None \<Rightarrow> 1 | Some r \<Rightarrow> er_revision r + 1)"

definition put_admitted :: "unicode \<Rightarrow> (string \<Rightarrow> json_value option) \<Rightarrow> bool \<Rightarrow> evidence_row \<Rightarrow> evidence_row list \<Rightarrow> bool" where
  "put_admitted U parse sqlite_fails row rows \<longleftrightarrow> validate_record U parse row \<and> \<not> sqlite_fails
     \<and> er_revision row = next_row_revision (evidence_get rows (row_key row))
     \<and> (evidence_get rows (row_key row) = None \<longrightarrow> length rows < MAX_EVIDENCE_ROWS)"

text \<open>What the users of a table with a revision fence rely on: a refused row leaves the table alone, an accepted one becomes the row of its
  scope, and the revisions of a scope have no gaps.\<close>

locale fenced_table =
  fixes get :: "'t \<Rightarrow> 'k \<Rightarrow> 'r option" and put :: "'i \<Rightarrow> 'r \<Rightarrow> 't \<Rightarrow> bool \<times> 't" and key :: "'r \<Rightarrow> 'k" and revision :: "'r \<Rightarrow> int"
    and sound :: "'t \<Rightarrow> bool" and fits :: "'r \<Rightarrow> bool"
  assumes put_sound: "sound t \<Longrightarrow> fits r \<Longrightarrow> sound (snd (put i r t))"
    and put_refused: "sound t \<Longrightarrow> fits r \<Longrightarrow> \<not> fst (put i r t) \<Longrightarrow> snd (put i r t) = t"
    and put_accepted: "sound t \<Longrightarrow> fits r \<Longrightarrow> fst (put i r t) \<Longrightarrow> get (snd (put i r t)) = (get t)(key r \<mapsto> r)"
    and put_fence: "sound t \<Longrightarrow> fits r \<Longrightarrow> fst (put i r t) \<Longrightarrow> revision r = (case get t (key r) of None \<Rightarrow> 1 | Some r' \<Rightarrow> revision r' + 1)"
begin

text \<open>A sequence of publications and the rows that were accepted.\<close>

fun put_run :: "('i \<times> 'r) list \<Rightarrow> 't \<Rightarrow> 'r list \<times> 't" where
  "put_run [] t = ([], t)"
| "put_run ((i, r) # rs) t =
     (case put i r t of (accepted, t') \<Rightarrow> case put_run rs t' of (log, t'') \<Rightarrow> (if accepted then r # log else log, t''))"

lemma put_run_sound: "sound t \<Longrightarrow> \<forall>x\<in>set rs. fits (snd x) \<Longrightarrow> sound (snd (put_run rs t))"
proof (induction rs arbitrary: t)
  case (Cons x rs)
  then show ?case using put_sound [of t "snd x" "fst x"] by (cases x) (auto simp: case_prod_beta)
qed simp

lemma revision_counts:
  "sound t \<Longrightarrow> \<forall>x\<in>set rs. fits (snd x) \<Longrightarrow> put_run rs t = (log, t')
    \<Longrightarrow> (case get t' k of None \<Rightarrow> 0 | Some r \<Rightarrow> revision r)
        = (case get t k of None \<Rightarrow> 0 | Some r \<Rightarrow> revision r) + int (length (filter (\<lambda>r. key r = k) log))"
proof (induction rs arbitrary: t t' log)
  case (Cons x rs)
  obtain i r where x: "x = (i, r)" by (cases x)
  obtain ok1 t1 where p: "put i r t = (ok1, t1)" by (cases "put i r t")
  obtain log1 t2 where run: "put_run rs t1 = (log1, t2)" by (cases "put_run rs t1")
  have "fits r" using Cons.prems(2) x by simp
  note laws = put_sound [OF Cons.prems(1) this, of i] put_refused [OF Cons.prems(1) this, of i]
    put_accepted [OF Cons.prems(1) this, of i] put_fence [OF Cons.prems(1) this, of i]
  have t': "t' = t2" "log = (if ok1 then r # log1 else log1)" using Cons.prems(3) x p run by simp_all
  have IH: "(case get t2 k of None \<Rightarrow> 0 | Some r \<Rightarrow> revision r)
      = (case get t1 k of None \<Rightarrow> 0 | Some r \<Rightarrow> revision r) + int (length (filter (\<lambda>r. key r = k) log1))"
    using Cons.IH [OF _ _ run] laws(1) Cons.prems(2) p by simp
  show ?case
  proof (cases ok1)
    case True
    then have "get t1 = (get t)(key r \<mapsto> r)" "revision r = (case get t (key r) of None \<Rightarrow> 1 | Some r' \<Rightarrow> revision r' + 1)"
      using laws(3,4) p by simp_all
    then show ?thesis using IH t' True by (cases "key r = k") (auto split: option.splits)
  next
    case False
    then show ?thesis using IH t' laws(2) p by simp
  qed
qed simp

end

definition publish_row :: "unicode \<Rightarrow> (string \<Rightarrow> json_value option) \<Rightarrow> bool \<Rightarrow> evidence_row \<Rightarrow> evidence_row list \<Rightarrow> bool \<times> evidence_row list" where
  "publish_row U parse sqlite_fails row rows =
     (case evidence_put U parse sqlite_fails row rows of (res, rows') \<Rightarrow> (res = Inr True, rows'))"

lemma evidence_get_key: "evidence_get rows k = Some r \<Longrightarrow> r \<in> set rows \<and> row_key r = k"
  by (auto simp: evidence_get_def find_Some_iff)

lemma evidence_get_None: "evidence_get rows k = None \<longleftrightarrow> k \<notin> row_key ` set rows"
  by (auto simp: evidence_get_def find_None_iff)

lemma evidence_get_Cons: "evidence_get (r # rows) k = (if row_key r = k then Some r else evidence_get rows k)"
  by (simp add: evidence_get_def)

lemma evidence_get_Nil: "evidence_get [] k = None"
  by (simp add: evidence_get_def)

lemmas evidence_get_simps = evidence_get_Nil evidence_get_Cons

lemma evidence_get_replace:
  assumes "row_key row \<in> row_key ` set rows"
  shows "evidence_get (map (\<lambda>r. if row_key r = row_key row then row else r) rows) = (evidence_get rows)(row_key row \<mapsto> row)"
proof (rule ext)
  fix k
  have "evidence_get (map (\<lambda>r. if row_key r = row_key row then row else r) rows) k
      = (if k = row_key row \<and> row_key row \<in> row_key ` set rows then Some row else evidence_get rows k)"
    by (induction rows) (auto simp: evidence_get_simps)
  then show "evidence_get (map (\<lambda>r. if row_key r = row_key row then row else r) rows) k = ((evidence_get rows)(row_key row \<mapsto> row)) k"
    using assms by (simp add: fun_upd_apply)
qed

lemma evidence_get_append:
  assumes "row_key row \<notin> row_key ` set rows"
  shows "evidence_get (rows @ [row]) = (evidence_get rows)(row_key row \<mapsto> row)"
proof (rule ext)
  fix k
  show "evidence_get (rows @ [row]) k = ((evidence_get rows)(row_key row \<mapsto> row)) k"
    using assms by (induction rows) (auto simp: evidence_get_simps fun_upd_apply)
qed

lemma upsert_row_spec:
  "upsert_row row rows =
     (if er_revision row = next_row_revision (evidence_get rows (row_key row)) \<or> evidence_get rows (row_key row) = None
      then (True, case evidence_get rows (row_key row) of None \<Rightarrow> rows @ [row]
        | Some _ \<Rightarrow> map (\<lambda>r. if row_key r = row_key row then row else r) rows)
      else (False, rows))"
  by (simp add: upsert_row_def next_row_revision_def split: option.splits)

lemma evidence_put_cases:
  assumes "store_ok U parse rows" and "er_revision row \<le> i64_max"
  shows "fst (publish_row U parse f row rows) = put_admitted U parse f row rows"
    and "snd (publish_row U parse f row rows) = (if put_admitted U parse f row rows then snd (upsert_row row rows) else rows)"
proof -
  have bound: "i64_sat_add (er_revision r) 1 = min i64_max (er_revision r + 1)" if "evidence_get rows (row_key row) = Some r" for r
    using assms(1) evidence_get_key [OF that]
    by (auto simp: store_ok_def list_all_iff validate_record_def i64_sat_add_def i64_clamp_def i64_min_def i64_max_def)
  show "fst (publish_row U parse f row rows) = put_admitted U parse f row rows"
    "snd (publish_row U parse f row rows) = (if put_admitted U parse f row rows then snd (upsert_row row rows) else rows)"
    using assms(2) bound
    by (cases "evidence_get rows (row_key row)";
      simp add: publish_row_def evidence_put_def put_admitted_def next_row_revision_def upsert_row_def min_def)+
qed

lemma upsert_admitted:
  assumes "store_ok U parse rows" and "er_revision row \<le> i64_max" and "put_admitted U parse f row rows"
  shows "store_ok U parse (snd (upsert_row row rows))" and "evidence_get (snd (upsert_row row rows)) = (evidence_get rows)(row_key row \<mapsto> row)"
proof -
  show "evidence_get (snd (upsert_row row rows)) = (evidence_get rows)(row_key row \<mapsto> row)"
    using assms(3) evidence_get_None [of rows "row_key row"]
    by (auto simp: upsert_row_spec put_admitted_def evidence_get_append intro!: evidence_get_replace split: option.splits)
  show "store_ok U parse (snd (upsert_row row rows))"
  proof (cases "evidence_get rows (row_key row)")
    case None
    then show ?thesis using assms evidence_get_None [of rows "row_key row"] by (auto simp: upsert_row_spec store_ok_def put_admitted_def)
  next
    case (Some r)
    have "map row_key (map (\<lambda>r. if row_key r = row_key row then row else r) rows) = map row_key rows" by simp
    then show ?thesis using Some assms by (auto simp: upsert_row_spec store_ok_def put_admitted_def list_all_iff simp del: map_map)
  qed
qed

interpretation evidence_table: fenced_table evidence_get "publish_row U parse" row_key er_revision "store_ok U parse" "\<lambda>row. er_revision row \<le> i64_max"
  for U parse
proof unfold_locales
  fix t :: "evidence_row list" and r :: evidence_row and i
  assume a: "store_ok U parse t" "er_revision r \<le> i64_max"
  note c = evidence_put_cases [OF a, of i]
  show "store_ok U parse (snd (publish_row U parse i r t))" using c(2) upsert_admitted(1) [OF a] a(1) by (cases "put_admitted U parse i r t") simp_all
  show "snd (publish_row U parse i r t) = t" if "\<not> fst (publish_row U parse i r t)" using that c by simp
  show "evidence_get (snd (publish_row U parse i r t)) = (evidence_get t)(row_key r \<mapsto> r)" if "fst (publish_row U parse i r t)"
    using that c upsert_admitted(2) [OF a] by simp
  show "er_revision r = (case evidence_get t (row_key r) of None \<Rightarrow> 1 | Some r' \<Rightarrow> er_revision r' + 1)" if "fst (publish_row U parse i r t)"
    using that c by (simp add: put_admitted_def next_row_revision_def)
qed

section \<open>Sequences of publications\<close>

fun publish_all ::
    "unicode \<Rightarrow> (string \<Rightarrow> json_value option) \<Rightarrow> (bool \<times> evidence_row) list \<Rightarrow> evidence_row list \<Rightarrow> evidence_row list \<times> evidence_row list" where
  "publish_all U parse [] rows = ([], rows)"
| "publish_all U parse ((fails, row) # ps) rows =
     (case publish_row U parse fails row rows of
        (accepted, rows') \<Rightarrow> case publish_all U parse ps rows' of (log, rows'') \<Rightarrow> (if accepted then row # log else log, rows''))"

lemma publish_all_run: "publish_all U parse ps rows = fenced_table.put_run (publish_row U parse) ps rows"
proof (induction ps arbitrary: rows)
  case (Cons x ps)
  then show ?case by (cases x) (simp add: evidence_table.put_run.simps)
qed (simp add: evidence_table.put_run.simps)

lemma store_ok_Nil: "store_ok U parse []"
  by (simp add: store_ok_def MAX_EVIDENCE_ROWS_def)

text \<open>C20: Starting from an empty table, after any sequence of publications, some of which SQLite may fail, the table has at most 2048 valid rows with
  distinct scopes, and the revision stored for a scope is exactly the number of publications that were accepted for it: an accepted one
  is never lost, repeated or reordered, and a refused one leaves no trace.\<close>

theorem stored_revision_counts_publications:
  assumes "\<forall>x\<in>set ps. er_revision (snd x) \<le> i64_max" and "publish_all U parse ps [] = (log, rows)"
  shows "store_ok U parse rows
    \<and> (case evidence_get rows k of None \<Rightarrow> 0 | Some r \<Rightarrow> er_revision r) = int (length (filter (\<lambda>r. row_key r = k) log))"
proof
  note run = assms(2) [unfolded publish_all_run]
  show "store_ok U parse rows"
    using evidence_table.put_run_sound [OF store_ok_Nil assms(1)] run by (metis snd_conv)
  show "(case evidence_get rows k of None \<Rightarrow> 0 | Some r \<Rightarrow> er_revision r) = int (length (filter (\<lambda>r. row_key r = k) log))"
    using evidence_table.revision_counts [OF store_ok_Nil assms(1) run, of k] by (simp add: evidence_get_Nil)
qed

definition demo_row :: "i64 \<Rightarrow> string \<Rightarrow> evidence_row" where
  "demo_row revision model = \<lparr>er_provider_id = ''openrouter'', er_model_id = model, er_credential_binding = ''account-1'', er_region = ''global'',
     er_revision = revision, er_content_hash = replicate 64 CHR ''a'', er_evidence_json = ''{}'', er_observed_at_ms = 5, er_expires_at_ms = 9,
     er_invalidation = None\<rparr>"

definition demo_publications :: "(bool \<times> evidence_row) list" where
  "demo_publications = [(False, demo_row 1 ''m''), (False, demo_row 1 ''n''), (True, demo_row 2 ''m''), (False, demo_row 2 ''m''),
     (False, demo_row 2 ''m''), (False, demo_row 4 ''m'')]"

lemma demo_row_valid:
  assumes "0 < revision" and "model = ''m'' \<or> model = ''n''"
  shows "validate_record plain_unicode (\<lambda>_. Some JNull) (demo_row revision model)"
proof -
  have "store_valid_token plain_unicode ''openrouter'' MAX_SCOPE_TOKEN_BYTES" "store_valid_token plain_unicode ''m'' MAX_SCOPE_TOKEN_BYTES"
    "store_valid_token plain_unicode ''n'' MAX_SCOPE_TOKEN_BYTES" "store_valid_token plain_unicode ''global'' MAX_REGION_BYTES"
    "store_valid_binding plain_unicode ''account-1''" by code_simp+
  moreover have "is_ascii_hexdigit (CHR ''a'')" by code_simp
  ultimately show ?thesis
    using assms by (auto simp: validate_record_def demo_row_def valid_content_hash_def MAX_EVIDENCE_JSON_BYTES_def list_all_iff)
qed

lemma demo_row_fields: "row_key (demo_row n m) = (''openrouter'', m, ''account-1'', ''global'')" "er_revision (demo_row n m) = n"
  by (simp_all add: row_key_def demo_row_def)

lemma publish_demo:
  assumes "model = ''m'' \<or> model = ''n''" "0 < n" "n < 10"
  shows "publish_row plain_unicode (\<lambda>_. Some JNull) fails (demo_row n model) rows =
    (if fails then (False, rows)
     else case evidence_get rows (''openrouter'', model, ''account-1'', ''global'') of
       None \<Rightarrow> if n \<noteq> 1 \<or> length rows \<ge> 2048 then (False, rows) else (True, rows @ [demo_row n model])
     | Some r \<Rightarrow> if n \<noteq> i64_sat_add (er_revision r) 1 then (False, rows) else (n = er_revision r + 1,
         if n = er_revision r + 1 then map (\<lambda>r. if row_key r = row_key (demo_row n model) then demo_row n model else r) rows else rows))"
  using demo_row_valid [OF assms(2,1)]
  by (simp add: publish_row_def evidence_put_def upsert_row_def demo_row_fields MAX_EVIDENCE_ROWS_def split: option.splits)

theorem stored_revision_counts_publications_witness:
  "store_ok plain_unicode (\<lambda>_. Some JNull) [demo_row 2 ''m'', demo_row 1 ''n'']
    \<and> (case evidence_get [demo_row 2 ''m'', demo_row 1 ''n''] (row_key (demo_row 1 ''m'')) of None \<Rightarrow> 0 | Some r \<Rightarrow> er_revision r)
        = int (length (filter (\<lambda>r. row_key r = row_key (demo_row 1 ''m'')) [demo_row 1 ''m'', demo_row 1 ''n'', demo_row 2 ''m'']))"
proof (rule stored_revision_counts_publications)
  show "\<forall>x\<in>set demo_publications. er_revision (snd x) \<le> i64_max" by code_simp
  show "publish_all plain_unicode (\<lambda>_. Some JNull) demo_publications []
      = ([demo_row 1 ''m'', demo_row 1 ''n'', demo_row 2 ''m''], [demo_row 2 ''m'', demo_row 1 ''n''])"
    unfolding demo_publications_def publish_all.simps
    by (simp add: publish_demo evidence_get_simps demo_row_fields i64_sat_add_def i64_clamp_def i64_min_def i64_max_def)
qed

section \<open>Rows of evidence\<close>

lemma i64_try_from_Some: "i64_try_from w = Some i \<longleftrightarrow> i = int (unat w) \<and> i \<le> i64_max"
  by (auto simp: i64_try_from_def)

lemma evidence_to_row_Some:
  "evidence_to_row E e = Some row \<longleftrightarrow> evidence_valid E e \<and> (\<exists>json. fe_json E e = Some json
     \<and> int (unat (ev_revision e)) \<le> i64_max \<and> int (unat (ev_observed_at_ms e)) \<le> i64_max \<and> int (unat (ev_expires_at_ms e)) \<le> i64_max
     \<and> row = \<lparr>er_provider_id = ev_provider_id e, er_model_id = ev_model_id e, er_credential_binding = ev_credential_binding e,
            er_region = ev_region e, er_revision = int (unat (ev_revision e)), er_content_hash = ev_content_hash e, er_evidence_json = json,
            er_observed_at_ms = int (unat (ev_observed_at_ms e)), er_expires_at_ms = int (unat (ev_expires_at_ms e)),
            er_invalidation = map_option invalidation_code (ev_invalidation e)\<rparr>)"
  by (auto simp: evidence_to_row_def i64_try_from_Some i64_try_from_def split: option.splits)

lemma evidence_row_parsed:
  assumes "evidence_to_row E e = Some row" and "fe_parse E (er_evidence_json row) = Some e"
  shows "evidence_from_row E row = Some e"
proof -
  from assms(1) have v: "evidence_valid E e" by (simp add: evidence_to_row_Some)
  then have b: "evidence_bounded (fe_unicode E) e" by (simp add: evidence_valid_def)
  from b have pos: "ev_revision e \<noteq> 0" "ev_observed_at_ms e \<noteq> 0" "ev_observed_at_ms e < ev_expires_at_ms e"
    by (simp_all add: evidence_bounded_def)
  then have "uint (ev_revision e) > 0" "uint (ev_observed_at_ms e) > 0" "uint (ev_observed_at_ms e) < uint (ev_expires_at_ms e)"
    by (simp_all add: word_less_def word_neq_0_conv)
  then show ?thesis using assms v by (auto simp: evidence_from_row_def evidence_to_row_Some i64_try_from_def)
qed

lemma prefix_head_in: "is_prefix_of (c # cs) s \<Longrightarrow> c \<in> set s"
  by (cases s) simp_all

text \<open>
  The evidence of a model of Cloudflare Workers AI is never stored. The core accepts only identifiers that begin with \<open>@cf/\<close> for this
  provider, and the table accepts no identifier with an \<open>@\<close>, so each publication of such evidence is refused as invalid and the table
  stays as it is.
\<close>

theorem cloudflare_evidence_refused:
  assumes "evidence_to_row E e = Some row" and "ev_provider_id e = ''cloudflare_workers_ai''"
  shows "evidence_put U parse sqlite_fails row rows = (Inl ''invalid free access evidence'', rows)"
proof -
  have "valid_provider_model_id (fe_unicode E) (ev_provider_id e) (ev_model_id e)"
    using assms(1) by (simp add: evidence_to_row_Some evidence_valid_def evidence_bounded_def)
  then have "is_prefix_of ''@cf/'' (ev_model_id e)"
    using assms(2) by (simp add: valid_provider_model_id_def strip_prefix_def split: if_splits)
  then have "CHR ''@'' \<in> set (ev_model_id e)" by (rule prefix_head_in)
  moreover have "\<not> (is_ascii_alphanumeric (CHR ''@'') \<or> CHR ''@'' \<in> set ''._:-/'')" by code_simp
  moreover have "er_model_id row = ev_model_id e" using assms(1) by (auto simp: evidence_to_row_Some)
  ultimately have "\<not> store_valid_token U (er_model_id row) MAX_SCOPE_TOKEN_BYTES"
    unfolding store_valid_token_def list_all_iff by metis
  then show ?thesis by (simp add: evidence_put_def validate_record_def)
qed

end
