(* ===== verification/Free_Probe.thy ===== *)
theory Free_Probe
  imports Evidence_Store Complex_Main
begin

text \<open>
  \<open>crates/evohime-core/src/free_access_probe.rs\<close>, the pricing of OpenRouter in \<open>crates/model-gateway/src/lib.rs\<close>, and the probe commands of
  \<open>ipc_bridge_core_commands.rs\<close>: how evidence of free access comes to be. A probe asks for the prices of a model, sends one small completion and
  publishes what it saw; successful requests of the user are recorded without a request of their own. The probes, the passive records, the
  restart of the process and the recovery of stored evidence are the events of a state with the cache, the table and the guard. Work that waits
  between two locks is part of the state, so that events interleave as the tasks of the process do. What the network and the clock say, when a
  cancellation wins and when SQLite fails are in the events.
\<close>

section \<open>Pricing\<close>

record pricing_observation =
  po_model_id :: string
  po_all_dimensions_zero :: bool
  po_source_hash :: string

datatype pricing_error = PeInvalidConfiguration | PeTransport | PeHttpStatus nat | PeInvalidResponse

record model_detail =
  mdt_id :: string
  mdt_pricing :: "(string, string) btree"

definition ascii_digit :: "char \<Rightarrow> bool" where
  "ascii_digit c \<longleftrightarrow> CHR ''0'' \<le> c \<and> c \<le> CHR ''9''"

text \<open>The closure of \<open>valid_nonnegative_decimal\<close>, which counts points and digits and stops at the first byte it refuses; at most 64
  bytes are looked at, so that the counters do not saturate.\<close>

fun decimal_scan :: "nat \<Rightarrow> nat \<Rightarrow> string \<Rightarrow> nat option" where
  "decimal_scan points digits [] = Some digits"
| "decimal_scan points digits (c # cs) =
     (if c = CHR ''.'' then (if points + 1 \<le> 1 then decimal_scan (points + 1) digits cs else None)
      else if ascii_digit c then decimal_scan points (digits + 1) cs else None)"

definition valid_nonnegative_decimal :: "string \<Rightarrow> bool" where
  "valid_nonnegative_decimal value \<longleftrightarrow>
     \<not> (value = [] \<or> length value > 64)
     \<and> (case decimal_scan 0 0 value of None \<Rightarrow> False | Some digits \<Rightarrow> digits > 0)
     \<and> \<not> is_prefix_of ''.'' value \<and> \<not> ends_with value ''.''"

definition pricing_name_ok :: "string \<Rightarrow> bool" where
  "pricing_name_ok name \<longleftrightarrow> name \<noteq> [] \<and> length name \<le> 64 \<and> list_all (\<lambda>b. CHR ''a'' \<le> b \<and> b \<le> CHR ''z'' \<or> b = CHR ''_'') name"

definition zero_price :: "string \<Rightarrow> bool" where
  "zero_price value = list_all (\<lambda>b. b = CHR ''0'') (filter (\<lambda>b. b \<noteq> CHR ''.'') value)"

text \<open>The digest of the normalized pricing is an argument; \<open>None\<close> when serde fails.\<close>

definition normalize_openrouter_model_pricing ::
    "(string \<times> (string, string) btree \<Rightarrow> string option) \<Rightarrow> model_detail \<Rightarrow> string \<Rightarrow> pricing_error + pricing_observation" where
  "normalize_openrouter_model_pricing digest detail requested =
     (if mdt_id detail \<noteq> requested \<or> mdt_pricing detail = [] \<or> length (mdt_pricing detail) > 32
        \<or> bt_get (mdt_pricing detail) ''prompt'' = None \<or> bt_get (mdt_pricing detail) ''completion'' = None
        \<or> bt_get (mdt_pricing detail) ''request'' = None
        \<or> list_ex (\<lambda>(name, value). \<not> pricing_name_ok name \<or> \<not> valid_nonnegative_decimal value) (mdt_pricing detail)
      then Inl PeInvalidResponse
      else case digest (mdt_id detail, mdt_pricing detail) of None \<Rightarrow> Inl PeInvalidResponse
      | Some hash \<Rightarrow> Inr \<lparr>po_model_id = mdt_id detail, po_all_dimensions_zero = list_all (\<lambda>(_, value). zero_price value) (mdt_pricing detail),
          po_source_hash = hash\<rparr>)"

text \<open>What the request for the prices of a model comes back with; a body that is too long or not of the typed shape is \<open>ReplyBody None\<close>.\<close>

datatype pricing_reply = ReplyClientFailure | ReplyTransportFailure | ReplyStatus nat | ReplyBody "model_detail option"

definition MAX_MODEL_ID_CHARS :: nat where "MAX_MODEL_ID_CHARS = 256"

fun split_once_at :: "char \<Rightarrow> string \<Rightarrow> (string \<times> string) option" where
  "split_once_at d [] = None"
| "split_once_at d (c # cs) = (if c = d then Some ([], cs) else map_option (\<lambda>(a, b). (c # a, b)) (split_once_at d cs))"

definition author_slug :: "string \<Rightarrow> (string \<times> string) option" where
  "author_slug model_id =
     (case split_once_at (CHR ''/'') model_id of None \<Rightarrow> None
      | Some (author, slug) \<Rightarrow>
          if author \<noteq> [] \<and> slug \<noteq> [] \<and> CHR ''/'' \<notin> set slug \<and> length model_id \<le> MAX_MODEL_ID_CHARS
            \<and> list_all (\<lambda>b. is_ascii_alphanumeric b \<or> b \<in> set ''._:/-'') model_id
          then Some (author, slug) else None)"

definition fetch_openrouter_model_pricing ::
    "(string \<times> (string, string) btree \<Rightarrow> string option) \<Rightarrow> (string \<Rightarrow> string \<Rightarrow> pricing_reply) \<Rightarrow> model_route_config \<Rightarrow> string
      \<Rightarrow> pricing_error + pricing_observation" where
  "fetch_openrouter_model_pricing digest reply route model_id =
     (if validate_provider_profile route \<noteq> None then Inl PeInvalidConfiguration
      else if rcfg_profile_id route \<noteq> Some PidOpenRouter then Inl PeInvalidConfiguration
      else if rcfg_api_key route = [] then Inl PeInvalidConfiguration
      else case author_slug model_id of None \<Rightarrow> Inl PeInvalidConfiguration
      | Some (author, slug) \<Rightarrow>
          (case reply author slug of
             ReplyClientFailure \<Rightarrow> Inl PeInvalidConfiguration
           | ReplyTransportFailure \<Rightarrow> Inl PeTransport
           | ReplyStatus status \<Rightarrow> Inl (PeHttpStatus status)
           | ReplyBody None \<Rightarrow> Inl PeInvalidResponse
           | ReplyBody (Some detail) \<Rightarrow> normalize_openrouter_model_pricing digest detail model_id))"

section \<open>Failures of a probe\<close>

datatype free_probe_failure_code =
    FpBillingRequired | FpActivationRequired | FpAccountRestricted | FpQuotaRejected | FpCredentialRejected | FpPermissionDenied
  | FpModelUnavailable | FpProviderProtocolDrift | FpEmptyCompletion | FpInvalidUsage | FpCooldown | FpConsentOrCredentialRequired
  | FpCancelled | FpAuthorityUnavailable | FpTransportFailure

fun probe_failure_as_str :: "free_probe_failure_code \<Rightarrow> string" where
  "probe_failure_as_str FpBillingRequired = ''billing_required''"
| "probe_failure_as_str FpActivationRequired = ''activation_required''"
| "probe_failure_as_str FpAccountRestricted = ''account_restricted''"
| "probe_failure_as_str FpQuotaRejected = ''quota_rejected''"
| "probe_failure_as_str FpCredentialRejected = ''credential_rejected''"
| "probe_failure_as_str FpPermissionDenied = ''permission_denied''"
| "probe_failure_as_str FpModelUnavailable = ''model_unavailable''"
| "probe_failure_as_str FpProviderProtocolDrift = ''provider_protocol_drift''"
| "probe_failure_as_str FpEmptyCompletion = ''empty_completion''"
| "probe_failure_as_str FpInvalidUsage = ''invalid_usage''"
| "probe_failure_as_str FpCooldown = ''cooldown''"
| "probe_failure_as_str FpConsentOrCredentialRequired = ''consent_or_credential_required''"
| "probe_failure_as_str FpCancelled = ''cancelled''"
| "probe_failure_as_str FpAuthorityUnavailable = ''authority_unavailable''"
| "probe_failure_as_str FpTransportFailure = ''transport_failure''"

definition classify_provider_failure :: "string \<Rightarrow> nat option \<Rightarrow> string option \<Rightarrow> free_probe_failure_code" where
  "classify_provider_failure provider_id status provider_code =
     (if provider_id = ''cloudflare_workers_ai'' \<and> provider_code = Some ''5035'' then FpActivationRequired
      else if provider_id = ''cloudflare_workers_ai'' \<and> provider_code = Some ''3036'' then FpQuotaRejected
      else case status of
        None \<Rightarrow> FpProviderProtocolDrift
      | Some s \<Rightarrow>
          if s = 401 then FpCredentialRejected
          else if s = 402 \<and> provider_id = ''openrouter'' then FpBillingRequired
          else if s = 403 then FpPermissionDenied
          else if s = 404 then FpModelUnavailable
          else if s = 429 then FpQuotaRejected
          else if 400 \<le> s \<and> s \<le> 599 then FpTransportFailure
          else FpProviderProtocolDrift)"

text \<open>\<open>parse::<u16>\<close>: an optional plus and digits.\<close>

definition parse_u16 :: "string \<Rightarrow> nat option" where
  "parse_u16 s =
     (let digits = (if is_prefix_of ''+'' s then tl s else s) in
      if digits = [] \<or> \<not> list_all ascii_digit digits \<or> parse_nat digits \<ge> 65536 then None else Some (parse_nat digits))"

text \<open>\<open>split_once\<close> with a string pattern.\<close>

fun split_once_str :: "string \<Rightarrow> string \<Rightarrow> (string \<times> string) option" where
  "split_once_str pat [] = (if pat = [] then Some ([], []) else None)"
| "split_once_str pat (c # cs) =
     (if is_prefix_of pat (c # cs) then Some ([], drop (length pat) (c # cs))
      else map_option (\<lambda>(a, b). (c # a, b)) (split_once_str pat cs))"

definition classify_gateway_error :: "unicode \<Rightarrow> string \<Rightarrow> provider_error \<Rightarrow> free_probe_failure_code" where
  "classify_gateway_error U provider_id error =
     (case error of
        ApiError message \<Rightarrow>
          let status = (case split_once_at (CHR '':'') message of None \<Rightarrow> None | Some (pre, _) \<Rightarrow> parse_u16 (str_trim U pre));
              provider_code =
                (if provider_id = ''cloudflare_workers_ai'' then
                   (case split_once_str '': '' message of None \<Rightarrow> None
                    | Some (_, details) \<Rightarrow>
                        (case strip_prefix ''Cloudflare Workers AI error code '' details of None \<Rightarrow> None
                         | Some code \<Rightarrow> if code = ''5035'' \<or> code = ''3036'' then Some code else None))
                 else None)
          in classify_provider_failure provider_id status provider_code
      | ConfigError _ \<Rightarrow> FpConsentOrCredentialRequired
      | ImagePreflightRejected \<Rightarrow> FpConsentOrCredentialRequired
      | ImageCapabilityStale \<Rightarrow> FpConsentOrCredentialRequired
      | HttpError _ \<Rightarrow> FpTransportFailure
      | StreamError _ \<Rightarrow> FpTransportFailure)"

section \<open>Completions\<close>

record native_tool_call =
  ntc_id :: string
  ntc_name :: string
  ntc_arguments :: string

record llm_usage =
  lu_prompt_tokens :: u32
  lu_completion_tokens :: u32
  lu_total_tokens :: u32

record chat_result =
  cr_content :: string
  cr_thinking :: "string option"
  cr_tool_calls :: "native_tool_call list"
  cr_usage :: "llm_usage option"

record probe_env =
  pe_free :: free_env
  pe_json :: "string \<Rightarrow> json_value option"
  pe_digest :: "string \<times> (string, string) btree \<Rightarrow> string option"

abbreviation pe_unicode :: "probe_env \<Rightarrow> unicode" where "pe_unicode P \<equiv> fe_unicode (pe_free P)"

definition FREE_ACCESS_PROBE_COOLDOWN_MS :: u64 where "FREE_ACCESS_PROBE_COOLDOWN_MS = 60000"
definition FREE_ACCESS_PROBE_MAX_OUTPUT_TOKENS :: u32 where "FREE_ACCESS_PROBE_MAX_OUTPUT_TOKENS = 8"
definition FREE_ACCESS_PROBE_TTL_MS :: u64 where "FREE_ACCESS_PROBE_TTL_MS = 24 * 60 * 60 * 1000"
definition FREE_ACCESS_PROBE_FAILURE_TTL_MS :: u64 where "FREE_ACCESS_PROBE_FAILURE_TTL_MS = 5 * 60 * 1000"
definition MAX_TRACKED_PROBE_SCOPES :: nat where "MAX_TRACKED_PROBE_SCOPES = 1024"

definition tool_call_valid :: "probe_env \<Rightarrow> native_tool_call \<Rightarrow> bool" where
  "tool_call_valid P call \<longleftrightarrow> str_trim (pe_unicode P) (ntc_id call) \<noteq> [] \<and> str_trim (pe_unicode P) (ntc_name call) \<noteq> []
     \<and> length (ntc_arguments call) \<le> 1024 \<and> (case pe_json P (ntc_arguments call) of Some (JObject _) \<Rightarrow> True | _ \<Rightarrow> False)"

definition semantic_content :: "probe_env \<Rightarrow> chat_result \<Rightarrow> bool" where
  "semantic_content P r \<longleftrightarrow>
     str_trim (pe_unicode P) (cr_content r) \<noteq> [] \<and> length (cr_content r) \<le> 256
     \<or> (case cr_thinking r of Some t \<Rightarrow> str_trim (pe_unicode P) t \<noteq> [] \<and> length t \<le> 1024 | None \<Rightarrow> False)
     \<or> cr_tool_calls r \<noteq> [] \<and> list_all (tool_call_valid P) (cr_tool_calls r)"

definition usage_invalid :: "llm_usage \<Rightarrow> bool" where
  "usage_invalid u \<longleftrightarrow> lu_prompt_tokens u = 0 \<or> lu_total_tokens u = 0
     \<or> lu_total_tokens u \<noteq> sat_add (lu_prompt_tokens u) (lu_completion_tokens u)
     \<or> lu_completion_tokens u > FREE_ACCESS_PROBE_MAX_OUTPUT_TOKENS \<or> lu_total_tokens u > 512"

text \<open>\<open>None\<close> when the completion is accepted.\<close>

definition validate_semantic_completion :: "probe_env \<Rightarrow> chat_result \<Rightarrow> free_probe_failure_code option" where
  "validate_semantic_completion P r =
     (if \<not> semantic_content P r then Some FpEmptyCompletion
      else case cr_usage r of None \<Rightarrow> Some FpInvalidUsage | Some u \<Rightarrow> if usage_invalid u then Some FpInvalidUsage else None)"

section \<open>Building evidence\<close>

definition build_evidence ::
    "free_env \<Rightarrow> provider_profile \<Rightarrow> string \<Rightarrow> u64 \<Rightarrow> u64 \<Rightarrow> observed_state \<Rightarrow> allowance_kind \<Rightarrow> allowance_provenance \<Rightarrow> u32 \<Rightarrow> 16 word
      \<Rightarrow> evidence_invalidation option \<Rightarrow> string option \<Rightarrow> free_access_evidence option" where
  "build_evidence E p model_id revision now observed allowance provenance samples confidence invalidation failure =
     (let ttl = (if observed = ObsVerifiedFreeLimited then FREE_ACCESS_PROBE_TTL_MS else FREE_ACCESS_PROBE_FAILURE_TTL_MS) in
      evidence_seal E
        \<lparr>ev_schema_version = FREE_ACCESS_EVIDENCE_SCHEMA_VERSION, ev_provider_id = pp_provider_id p, ev_model_id = model_id,
         ev_credential_binding = pp_credential_binding p, ev_region = pp_region p, ev_profile_revision = pp_revision p,
         ev_profile_content_hash = pp_content_hash p,
         ev_advertised_state = (if ends_with model_id '':free'' then AdvFreeTierLimited else AdvUnknown),
         ev_observed_state = observed,
         ev_activation = (case observed of ObsVerifiedFreeLimited \<Rightarrow> ActNotRequired | ObsActivationRequired \<Rightarrow> ActRequired | _ \<Rightarrow> ActUnknown),
         ev_allowance = allowance, ev_allowance_provenance = provenance, ev_limits = [], ev_successful_sample_count = samples,
         ev_confidence_bps = confidence, ev_observed_at_ms = max now 1, ev_expires_at_ms = sat_add (max now 1) ttl,
         ev_invalidation = invalidation, ev_failure_reason = failure, ev_content_hash = [], ev_revision = revision\<rparr>)"

fun failure_observation :: "free_probe_failure_code \<Rightarrow> observed_state \<times> allowance_kind \<times> evidence_invalidation option" where
  "failure_observation FpBillingRequired = (ObsPaidOnly, AllowNone, Some InvBillingRequired)"
| "failure_observation FpAccountRestricted = (ObsPaidOnly, AllowNone, Some InvAccountRestricted)"
| "failure_observation FpQuotaRejected = (ObsUnknown, AllowUnknown, Some InvQuotaExhausted)"
| "failure_observation FpActivationRequired = (ObsActivationRequired, AllowUnknown, None)"
| "failure_observation _ = (ObsUnknown, AllowUnknown, None)"

definition failure_evidence ::
    "free_env \<Rightarrow> provider_profile \<Rightarrow> string \<Rightarrow> u64 \<Rightarrow> u64 \<Rightarrow> free_probe_failure_code \<Rightarrow> free_access_evidence option" where
  "failure_evidence E p model_id revision now failure =
     (case failure_observation failure of (observed, allowance, invalidation) \<Rightarrow>
        build_evidence E p model_id revision now observed allowance AllowProvUnknown 0 0 invalidation (Some (probe_failure_as_str failure)))"

section \<open>The probe\<close>

text \<open>What a probe gets from outside: whether the cancellation wins before the prices or the completion arrive, and what these are.\<close>

record probe_transport =
  pt_cancel_pricing :: bool
  pt_pricing :: "model_route_config \<Rightarrow> string \<Rightarrow> free_probe_failure_code + pricing_observation"
  pt_cancel_completion :: bool
  pt_completion :: "model_route_config \<Rightarrow> string \<Rightarrow> free_probe_failure_code + chat_result"

definition has_stable_credential_binding :: "provider_profile \<Rightarrow> bool" where
  "has_stable_credential_binding p = valid_bound_credential (pp_credential_binding p)"

definition probe_completion ::
    "probe_env \<Rightarrow> probe_transport \<Rightarrow> model_route_config \<Rightarrow> string \<Rightarrow> free_probe_failure_code option" where
  "probe_completion P tr route model_id =
     (if pt_cancel_completion tr then Some FpCancelled
      else case pt_completion tr route model_id of Inl code \<Rightarrow> Some code | Inr r \<Rightarrow> validate_semantic_completion P r)"

definition drift :: "'a option \<Rightarrow> free_probe_failure_code + 'a" where
  "drift r = (case r of None \<Rightarrow> Inl FpProviderProtocolDrift | Some e \<Rightarrow> Inr e)"

definition collect_probe_evidence ::
    "probe_env \<Rightarrow> probe_transport \<Rightarrow> model_route_config \<Rightarrow> provider_profile \<Rightarrow> string \<Rightarrow> u64 \<Rightarrow> u64 \<Rightarrow> free_probe_failure_code + free_access_evidence" where
  "collect_probe_evidence P tr route p model_id revision now =
     (let openrouter = (rcfg_profile_id route = Some PidOpenRouter \<and> pp_provider_id p = ''openrouter'');
          cloudflare = (rcfg_profile_id route = Some PidCloudflareWorkersAi \<and> pp_provider_id p = ''cloudflare_workers_ai'')
      in
      if \<not> openrouter \<and> \<not> cloudflare \<or> \<not> has_stable_credential_binding p \<or> str_trim (pe_unicode P) model_id = [] \<or> revision = 0
      then Inl FpConsentOrCredentialRequired
      else if openrouter then
        (if pt_cancel_pricing tr then Inl FpCancelled
         else case pt_pricing tr route model_id of Inl code \<Rightarrow> Inl code
         | Inr pricing \<Rightarrow>
             if po_model_id pricing \<noteq> model_id then Inl FpProviderProtocolDrift
             else if \<not> po_all_dimensions_zero pricing then
               drift (build_evidence (pe_free P) p model_id revision now ObsPaidOnly AllowNone (AllowProvOpenRouterPricing (po_source_hash pricing))
                 0 0 None (Some ''paid_pricing_dimension''))
             else (case probe_completion P tr route model_id of Some code \<Rightarrow> Inl code
               | None \<Rightarrow> drift (build_evidence (pe_free P) p model_id revision now ObsVerifiedFreeLimited AllowRecurring
                   (AllowProvOpenRouterPricing (po_source_hash pricing)) 1 9000 None None)))
      else (case probe_completion P tr route model_id of Some code \<Rightarrow> Inl code | None \<Rightarrow> Inl FpAuthorityUnavailable))"

text \<open>The transport over the gateway.\<close>

definition pricing_failure :: "pricing_error \<Rightarrow> free_probe_failure_code" where
  "pricing_failure error =
     (case error of PeHttpStatus status \<Rightarrow> classify_provider_failure ''openrouter'' (Some status) None
      | PeInvalidConfiguration \<Rightarrow> FpConsentOrCredentialRequired | PeTransport \<Rightarrow> FpTransportFailure
      | PeInvalidResponse \<Rightarrow> FpProviderProtocolDrift)"

definition gateway_probe_transport ::
    "probe_env \<Rightarrow> bool \<Rightarrow> (string \<Rightarrow> string \<Rightarrow> pricing_reply) \<Rightarrow> bool \<Rightarrow> (string \<Rightarrow> provider_error + chat_result) \<Rightarrow> probe_transport" where
  "gateway_probe_transport P cancel_pricing reply cancel_completion chat =
     \<lparr>pt_cancel_pricing = cancel_pricing,
      pt_pricing = (\<lambda>route model_id. case fetch_openrouter_model_pricing (pe_digest P) reply route model_id of
        Inl error \<Rightarrow> Inl (pricing_failure error) | Inr pricing \<Rightarrow> Inr pricing),
      pt_cancel_completion = cancel_completion,
      pt_completion = (\<lambda>route model_id. case chat model_id of
        Inl error \<Rightarrow> Inl (classify_gateway_error (pe_unicode P)
          (case rcfg_profile_id route of Some pid \<Rightarrow> profile_id_as_str pid | None \<Rightarrow> ''unknown'') error)
      | Inr r \<Rightarrow> Inr r)\<rparr>"

section \<open>Prices\<close>

text \<open>The number that a decimal without a sign stands for.\<close>

definition decimal_value :: "string \<Rightarrow> rat" where
  "decimal_value value = of_nat (parse_nat (filter (\<lambda>b. b \<noteq> CHR ''.'') value)) / 10 ^ length (tl (dropWhile (\<lambda>b. b \<noteq> CHR ''.'') value))"

lemma digit_value_zero: "ascii_digit c \<Longrightarrow> (of_char c :: nat) - 48 = 0 \<longleftrightarrow> c = CHR ''0''"
proof -
  assume "ascii_digit c"
  then have "(48 :: nat) \<le> of_char c" by (simp add: ascii_digit_def less_eq_char_def)
  then have "(of_char c :: nat) - 48 = 0 \<longleftrightarrow> of_char c = (of_char (CHR ''0'') :: nat)" by auto
  then show ?thesis by (simp only: of_char_eq_iff)
qed

lemma parse_digits_zero:
  "list_all ascii_digit ds \<Longrightarrow> foldl (\<lambda>a c. a * 10 + (of_char c - 48)) a ds = (0 :: nat) \<longleftrightarrow> a = 0 \<and> list_all (\<lambda>c. c = CHR ''0'') ds"
proof (induction ds arbitrary: a)
  case (Cons d ds)
  then show ?case using digit_value_zero [of d] by auto
qed simp

lemma decimal_scan_chars: "decimal_scan points digits s = Some n \<Longrightarrow> list_all ascii_digit (filter (\<lambda>b. b \<noteq> CHR ''.'') s)"
  by (induction points digits s rule: decimal_scan.induct) (auto split: if_splits)

lemma zero_price_value: "valid_nonnegative_decimal v \<Longrightarrow> zero_price v \<longleftrightarrow> decimal_value v = 0"
  using parse_digits_zero [of "filter (\<lambda>b. b \<noteq> CHR ''.'') v" 0] decimal_scan_chars [of 0 0 v]
  by (auto simp: valid_nonnegative_decimal_def zero_price_def decimal_value_def parse_nat_def split: option.splits)

text \<open>C21: A pricing observation of OpenRouter says that all dimensions are free exactly when every price, read as a decimal number, is zero, and it is
  only made for the requested model and from a price list that has the prices of prompt, completion and request. The test, which looks at
  the characters of a price, is exact: no rounding, exponent or sign can turn a price into zero.\<close>

theorem pricing_zero_exact:
  assumes "normalize_openrouter_model_pricing digest detail requested = Inr obs"
  shows "po_model_id obs = requested \<and> mdt_id detail = requested
    \<and> (po_all_dimensions_zero obs \<longleftrightarrow> (\<forall>x\<in>set (mdt_pricing detail). decimal_value (snd x) = 0))
    \<and> {''prompt'', ''completion'', ''request''} \<subseteq> fst ` set (mdt_pricing detail)"
proof -
  from assms have ok: "mdt_id detail = requested" "bt_get (mdt_pricing detail) ''prompt'' \<noteq> None" "bt_get (mdt_pricing detail) ''completion'' \<noteq> None"
      "bt_get (mdt_pricing detail) ''request'' \<noteq> None" "\<forall>x\<in>set (mdt_pricing detail). valid_nonnegative_decimal (snd x)"
      and obs: "po_model_id obs = mdt_id detail" "po_all_dimensions_zero obs = list_all (\<lambda>(_, value). zero_price value) (mdt_pricing detail)"
    by (auto simp: normalize_openrouter_model_pricing_def list_ex_iff split: if_splits option.splits)
  have "(\<forall>x\<in>set (mdt_pricing detail). zero_price (snd x)) \<longleftrightarrow> (\<forall>x\<in>set (mdt_pricing detail). decimal_value (snd x) = 0)"
    using ok(5) zero_price_value by blast
  then show ?thesis using ok(1-4) obs by (auto simp: list_all_iff case_prod_beta bt_get_def map_of_eq_None_iff)
qed

definition demo_detail :: "string \<Rightarrow> model_detail" where
  "demo_detail price = \<lparr>mdt_id = ''a/m'', mdt_pricing = [(''completion'', ''0''), (''prompt'', price), (''request'', ''0'')]\<rparr>"

theorem pricing_zero_exact_witness:
  "(po_model_id \<lparr>po_model_id = ''a/m'', po_all_dimensions_zero = False, po_source_hash = demo_hash\<rparr> = ''a/m'' \<and> mdt_id (demo_detail ''0.01'') = ''a/m''
    \<and> (po_all_dimensions_zero \<lparr>po_model_id = ''a/m'', po_all_dimensions_zero = False, po_source_hash = demo_hash\<rparr>
        \<longleftrightarrow> (\<forall>x\<in>set (mdt_pricing (demo_detail ''0.01'')). decimal_value (snd x) = 0))
    \<and> {''prompt'', ''completion'', ''request''} \<subseteq> fst ` set (mdt_pricing (demo_detail ''0.01'')))
   \<and> decimal_value ''0.01'' = 1 / 100"
proof
  show "decimal_value ''0.01'' = 1 / 100" by (simp add: decimal_value_def parse_nat_def)
qed (rule pricing_zero_exact [of "\<lambda>_. Some demo_hash"], code_simp)

end
