(* ===== verification/Free_Coordinator.thy ===== *)
theory Free_Coordinator
  imports Free_Probe
begin

text \<open>
  \<open>FreeAccessProbeCoordinator\<close> and \<open>FreeAccessProbeGuard\<close> of \<open>crates/evohime-core/src/free_access_probe.rs\<close>, the manual probe and the recovery
  of \<open>ipc_bridge_core_commands.rs\<close> and the cleanup of \<open>main.rs\<close> as one state and its events. A task of the process is a value with its
  stage; an event moves one task over the code between two waits, so that every interleaving of tasks is a sequence of events. The table is
  kept over a restart, everything else is lost. The field \<open>st_log\<close> is a history of the finished probes, which the code does not keep.
\<close>

section \<open>State\<close>

datatype probe_policy = PolDisabled | PolPassiveOnly | PolOnFirstUse | PolPeriodicBounded | PolManualOnly

definition probe_policy_parse :: "string \<Rightarrow> probe_policy" where
  "probe_policy_parse value =
     (if value = ''passive_only'' then PolPassiveOnly else if value = ''on_first_use'' then PolOnFirstUse
      else if value = ''periodic_bounded'' then PolPeriodicBounded else if value = ''manual_only'' then PolManualOnly else PolDisabled)"

fun probe_policy_as_str :: "probe_policy \<Rightarrow> string" where
  "probe_policy_as_str PolDisabled = ''disabled''"
| "probe_policy_as_str PolPassiveOnly = ''passive_only''"
| "probe_policy_as_str PolOnFirstUse = ''on_first_use''"
| "probe_policy_as_str PolPeriodicBounded = ''periodic_bounded''"
| "probe_policy_as_str PolManualOnly = ''manual_only''"

record probe_setup =
  ps_routes :: "(string \<times> model_route_config) list"
  ps_default_route :: string
  ps_policy :: probe_policy
  ps_consent :: "string option"

record probe_job =
  pj_route :: model_route_config
  pj_profile :: provider_profile
  pj_model :: string
  pj_now :: u64
  pj_manual :: bool

datatype probe_task =
    TaskSpawned string string
  | TaskReserved probe_job
  | TaskProbing probe_job u64
  | TaskPassive provider_profile string u64 "free_access_evidence option"
  | TaskPublish bool free_access_evidence
  | TaskInsert bool free_access_evidence

record probe_state =
  st_running :: bool
  st_cancelled :: bool
  st_cache :: evidence_cache
  st_rows :: "evidence_row list"
  st_started :: "(string, u64) btree"
  st_attempted :: "string list"
  st_tasks :: "probe_task list"
  st_log :: "(probe_job \<times> probe_transport) list"

definition probe_start_state :: "evidence_row list \<Rightarrow> (probe_job \<times> probe_transport) list \<Rightarrow> bool \<Rightarrow> probe_state" where
  "probe_start_state rows hist running = \<lparr>st_running = running, st_cancelled = False, st_cache = Map.empty, st_rows = rows, st_started = [],
     st_attempted = [], st_tasks = [], st_log = hist\<rparr>"

section \<open>Scopes, consent and cooldowns\<close>

definition profile_scope_key :: "free_env \<Rightarrow> provider_profile \<Rightarrow> string" where
  "profile_scope_key E p = fe_sha E (str_join ''|'' [pp_provider_id p, pp_content_hash p, pp_credential_binding p, pp_region p])"

definition route_scope :: "free_env \<Rightarrow> probe_setup \<Rightarrow> string \<Rightarrow> string option \<Rightarrow> (model_route_config \<times> provider_profile \<times> string) option" where
  "route_scope E S route_name model_id =
     (case map_of (ps_routes S) route_name of None \<Rightarrow> None
      | Some route \<Rightarrow>
          if rcfg_profile_id route \<notin> {Some PidOpenRouter, Some PidCloudflareWorkersAi} \<or> \<not> route_configured (fe_unicode E) route then None
          else case profile_from_route_config (fe_unicode E) (fe_sha E) route of None \<Rightarrow> None
          | Some p \<Rightarrow>
              if \<not> has_stable_credential_binding p then None
              else
                let model = chosen_model (fe_unicode E) model_id (str_trim (fe_unicode E) (rcfg_model route)) in
                if model = [] \<or> length model > 256 then None else Some (route, p, model))"

definition has_persistent_consent :: "probe_setup \<Rightarrow> model_route_config \<Rightarrow> bool" where
  "has_persistent_consent S route \<longleftrightarrow> ps_consent S \<noteq> None \<and> rcfg_credential_binding route = ps_consent S"

definition cached_evidence :: "evidence_cache \<Rightarrow> provider_profile \<Rightarrow> string \<Rightarrow> free_access_evidence option" where
  "cached_evidence cache p model =
     (case cache (profile_evidence_key p model) of None \<Rightarrow> None | Some e \<Rightarrow> if matches_profile e p then Some e else None)"

definition cached_fresh :: "evidence_cache \<Rightarrow> provider_profile \<Rightarrow> string \<Rightarrow> u64 \<Rightarrow> bool" where
  "cached_fresh cache p model now = (case cached_evidence cache p model of None \<Rightarrow> False | Some e \<Rightarrow> freshness_at e now = EvFresh)"

text \<open>\<open>None\<close> when SQLite fails.\<close>

definition credential_probe_cooldown_active :: "bool \<Rightarrow> evidence_row list \<Rightarrow> string \<Rightarrow> u64 \<Rightarrow> bool option" where
  "credential_probe_cooldown_active sqlite_fails rows binding now =
     (if sqlite_fails then None
      else Some (case latest_observed_at rows binding of None \<Rightarrow> False
        | Some t \<Rightarrow> if t < 0 then False else sat_sub now (of_int t) < FREE_ACCESS_PROBE_COOLDOWN_MS))"

definition next_revision :: "bool \<Rightarrow> evidence_row list \<Rightarrow> provider_profile \<Rightarrow> string \<Rightarrow> u64 option" where
  "next_revision sqlite_fails rows p model =
     (if sqlite_fails then None
      else case evidence_get rows (pp_provider_id p, model, pp_credential_binding p, pp_region p) of None \<Rightarrow> Some 1
      | Some row \<Rightarrow> if er_revision row < 0 then None else checked_add (of_int (er_revision row)) 1)"

section \<open>The guard\<close>

fun holds_permit :: "probe_task \<Rightarrow> bool" where
  "holds_permit (TaskReserved _) = True"
| "holds_permit (TaskProbing _ _) = True"
| "holds_permit (TaskPublish permit _) = permit"
| "holds_permit (TaskInsert permit _) = permit"
| "holds_permit _ = False"

definition guard_reserve :: "string \<Rightarrow> u64 \<Rightarrow> probe_state \<Rightarrow> (free_probe_failure_code + (string, u64) btree)" where
  "guard_reserve scope now st =
     (if list_ex holds_permit (st_tasks st) then Inl FpCooldown
      else if (case bt_get (st_started st) scope of None \<Rightarrow> False | Some t \<Rightarrow> sat_sub now t < FREE_ACCESS_PROBE_COOLDOWN_MS) then Inl FpCooldown
      else if bt_get (st_started st) scope = None \<and> length (st_started st) \<ge> MAX_TRACKED_PROBE_SCOPES then Inl FpCooldown
      else Inr (bt_insert scope now (st_started st)))"

definition add_task :: "probe_task \<Rightarrow> probe_state \<Rightarrow> probe_state" where
  "add_task t st = st\<lparr>st_tasks := st_tasks st @ [t]\<rparr>"

definition reserve_job :: "free_env \<Rightarrow> bool \<Rightarrow> probe_job \<Rightarrow> probe_state \<Rightarrow> probe_state" where
  "reserve_job E sqlite_fails job st =
     (case credential_probe_cooldown_active sqlite_fails (st_rows st) (pp_credential_binding (pj_profile job)) (pj_now job) of
        Some False \<Rightarrow>
          (case guard_reserve (profile_scope_key E (pj_profile job)) (pj_now job) st of
             Inl _ \<Rightarrow> st
           | Inr started \<Rightarrow> add_task (TaskReserved job) (st\<lparr>st_started := started\<rparr>))
      | _ \<Rightarrow> st)"

section \<open>Starting work\<close>

definition on_route_use :: "free_env \<Rightarrow> probe_setup \<Rightarrow> string \<Rightarrow> string option \<Rightarrow> u64 \<Rightarrow> probe_state \<Rightarrow> probe_state" where
  "on_route_use E S route_name model_id now st =
     (if ps_policy S \<noteq> PolOnFirstUse \<or> st_cancelled st then st
      else case route_scope E S route_name model_id of None \<Rightarrow> st
      | Some (route, p, model) \<Rightarrow>
          if \<not> has_persistent_consent S route then st
          else if cached_fresh (st_cache st) p model now then st
          else if profile_scope_key E p \<in> set (st_attempted st) then st
          else add_task (TaskSpawned route_name model) (st\<lparr>st_attempted := profile_scope_key E p # st_attempted st\<rparr>))"

text \<open>\<open>run_probe_and_publish\<close> up to the reservation; the two times are what the clock says at its two readings.\<close>

definition start_probe :: "free_env \<Rightarrow> probe_setup \<Rightarrow> string \<Rightarrow> string \<Rightarrow> u64 \<Rightarrow> u64 \<Rightarrow> bool \<Rightarrow> probe_state \<Rightarrow> probe_state" where
  "start_probe E S route_name model_id t now sqlite_fails st =
     (if st_cancelled st then st
      else case route_scope E S route_name (Some model_id) of None \<Rightarrow> st
      | Some (route, p, model) \<Rightarrow>
          if \<not> has_persistent_consent S route then st
          else if cached_fresh (st_cache st) p model t then st
          else reserve_job E sqlite_fails \<lparr>pj_route = route, pj_profile = p, pj_model = model, pj_now = now, pj_manual = False\<rparr> st)"

text \<open>One turn of the loop of \<open>run_periodic\<close>.\<close>

definition periodic_turn :: "free_env \<Rightarrow> probe_setup \<Rightarrow> u64 \<Rightarrow> u64 \<Rightarrow> u64 \<Rightarrow> bool \<Rightarrow> probe_state \<Rightarrow> probe_state" where
  "periodic_turn E S t t' now sqlite_fails st =
     (if ps_policy S \<noteq> PolPeriodicBounded \<or> st_cancelled st then st
      else case map_of (ps_routes S) (ps_default_route S) of None \<Rightarrow> st
      | Some route \<Rightarrow>
          if \<not> has_persistent_consent S route then st
          else if (case route_scope E S (ps_default_route S) (Some (rcfg_model route)) of None \<Rightarrow> False
                   | Some (_, p, model) \<Rightarrow> cached_fresh (st_cache st) p model t) then st
          else start_probe E S (ps_default_route S) (rcfg_model route) t' now sqlite_fails st)"

definition manual_start :: "free_env \<Rightarrow> probe_setup \<Rightarrow> string \<Rightarrow> bool \<Rightarrow> u64 \<Rightarrow> bool \<Rightarrow> probe_state \<Rightarrow> probe_state" where
  "manual_start E S model_id confirmed now sqlite_fails st =
     (if \<not> confirmed \<or> str_trim (fe_unicode E) model_id = [] \<or> length model_id > 256 then st
      else case map_of (ps_routes S) (ps_default_route S) of None \<Rightarrow> st
      | Some route \<Rightarrow>
          if rcfg_profile_id route \<noteq> Some PidOpenRouter then st
          else case profile_from_route_config (fe_unicode E) (fe_sha E) route of None \<Rightarrow> st
          | Some p \<Rightarrow>
              if \<not> has_stable_credential_binding p then st
              else reserve_job E sqlite_fails \<lparr>pj_route = route, pj_profile = p, pj_model = model_id, pj_now = now, pj_manual = True\<rparr> st)"

text \<open>\<open>record_passive_success\<close> up to the reading of the revision.\<close>

definition passive_start :: "free_env \<Rightarrow> probe_setup \<Rightarrow> string \<Rightarrow> string \<Rightarrow> u64 \<Rightarrow> probe_state \<Rightarrow> probe_state" where
  "passive_start E S route_name model_id now st =
     (if ps_policy S \<noteq> PolPassiveOnly \<or> st_cancelled st then st
      else case route_scope E S route_name (Some model_id) of None \<Rightarrow> st
      | Some (route, p, model) \<Rightarrow>
          if \<not> has_persistent_consent S route then st
          else
            let existing = st_cache st (profile_evidence_key p model) in
            if (case existing of None \<Rightarrow> False
                | Some e \<Rightarrow> freshness_at e now = EvFresh \<and> ev_observed_state e \<noteq> ObsUnknown \<and> ev_observed_state e \<noteq> ObsVerifiedFreeLimited)
            then st else add_task (TaskPassive p model now existing) st)"

section \<open>Moving a task\<close>

definition bumped_samples :: "free_access_evidence \<Rightarrow> u32" where
  "bumped_samples e = min (sat_add (ev_successful_sample_count e) 1) MAX_FREE_ACCESS_SAMPLES"

definition passive_update :: "provider_profile \<Rightarrow> u64 \<Rightarrow> u64 \<Rightarrow> free_access_evidence option \<Rightarrow> free_access_evidence option" where
  "passive_update p revision now existing =
     (case existing of None \<Rightarrow> None
      | Some e \<Rightarrow>
          if matches_profile e p \<and> ev_observed_state e = ObsVerifiedFreeLimited \<and> freshness_at e now = EvFresh
          then Some (e\<lparr>ev_revision := revision, ev_observed_at_ms := max now 1, ev_successful_sample_count := bumped_samples e,
            ev_content_hash := []\<rparr>)
          else if matches_profile e p \<and> ev_observed_state e = ObsUnknown \<and> ev_invalidation e = None \<and> freshness_at e now = EvFresh
          then Some (e\<lparr>ev_revision := revision, ev_observed_at_ms := max now 1, ev_expires_at_ms := sat_add (max now 1) FREE_ACCESS_PROBE_TTL_MS,
            ev_successful_sample_count := bumped_samples e, ev_content_hash := []\<rparr>)
          else None)"

definition passive_evidence :: "free_env \<Rightarrow> provider_profile \<Rightarrow> string \<Rightarrow> u64 \<Rightarrow> u64 \<Rightarrow> free_access_evidence option \<Rightarrow> free_access_evidence option" where
  "passive_evidence E p model revision now existing =
     (case (case passive_update p revision now existing of Some e \<Rightarrow> Some e
            | None \<Rightarrow> map_option (\<lambda>e. e\<lparr>ev_expires_at_ms := sat_add (max now 1) FREE_ACCESS_PROBE_TTL_MS, ev_content_hash := []\<rparr>)
                (build_evidence E p model revision now ObsUnknown AllowUnknown AllowProvUnknown 1 0 None None)) of
        None \<Rightarrow> None
      | Some e \<Rightarrow> evidence_seal E (e\<lparr>ev_observed_at_ms := max now 1\<rparr>))"

definition probe_outcome :: "probe_env \<Rightarrow> probe_job \<Rightarrow> u64 \<Rightarrow> probe_transport \<Rightarrow> bool \<Rightarrow> u64 \<Rightarrow> free_access_evidence option" where
  "probe_outcome P job revision tr timed_out finished =
     (let failed = failure_evidence (pe_free P) (pj_profile job) (pj_model job) revision (if pj_manual job then pj_now job else finished) in
      if timed_out then failed FpCancelled
      else case collect_probe_evidence P tr (pj_route job) (pj_profile job) (pj_model job) revision (pj_now job) of
        Inl code \<Rightarrow> failed code
      | Inr e \<Rightarrow> Some e)"

definition end_task :: "nat \<Rightarrow> probe_state \<Rightarrow> probe_state" where
  "end_task n st = st\<lparr>st_tasks := take n (st_tasks st) @ drop (Suc n) (st_tasks st)\<rparr>"

definition set_task :: "nat \<Rightarrow> probe_task \<Rightarrow> probe_state \<Rightarrow> probe_state" where
  "set_task n t st = st\<lparr>st_tasks := (st_tasks st)[n := t]\<rparr>"

text \<open>The readings of the next revision, where a probe also builds its gateway, which may fail.\<close>

definition read_revision :: "free_env \<Rightarrow> nat \<Rightarrow> bool \<Rightarrow> bool \<Rightarrow> probe_state \<Rightarrow> probe_state" where
  "read_revision E n sqlite_fails gateway_fails st =
     (case st_tasks st ! n of
        TaskReserved job \<Rightarrow>
          (case next_revision sqlite_fails (st_rows st) (pj_profile job) (pj_model job) of
             Some revision \<Rightarrow> if gateway_fails then end_task n st else set_task n (TaskProbing job revision) st
           | None \<Rightarrow> end_task n st)
      | TaskPassive p model now existing \<Rightarrow>
          (case next_revision sqlite_fails (st_rows st) p model of
             Some revision \<Rightarrow>
               (case passive_evidence E p model revision now existing of
                  Some e \<Rightarrow> set_task n (TaskPublish False e) st
                | None \<Rightarrow> end_task n st)
           | None \<Rightarrow> end_task n st)
      | _ \<Rightarrow> st)"

text \<open>The end of a probe. A cancellation that wins the race of the whole probe, or that is seen after it, ends the task.\<close>

definition finish_probe :: "probe_env \<Rightarrow> nat \<Rightarrow> probe_transport \<Rightarrow> bool \<Rightarrow> u64 \<Rightarrow> probe_state \<Rightarrow> probe_state" where
  "finish_probe P n tr timed_out finished st =
     (case st_tasks st ! n of
        TaskProbing job revision \<Rightarrow>
          (let st = st\<lparr>st_log := st_log st @ [(job, tr)]\<rparr> in
           if st_cancelled st then end_task n st
           else case probe_outcome P job revision tr timed_out finished of
             Some e \<Rightarrow> set_task n (TaskPublish True e) st
           | None \<Rightarrow> end_task n st)
      | _ \<Rightarrow> st)"

definition evidence_key :: "free_access_evidence \<Rightarrow> string" where
  "evidence_key e = free_access_evidence_scope_key (ev_provider_id e) (ev_model_id e) (ev_credential_binding e) (ev_region e)
     (ev_profile_revision e) (ev_profile_content_hash e)"

text \<open>\<open>publish\<close> and \<open>remember_free_access_evidence\<close>: the write of the table, then that of the cache.\<close>

definition publish_evidence :: "probe_env \<Rightarrow> nat \<Rightarrow> bool \<Rightarrow> probe_state \<Rightarrow> probe_state" where
  "publish_evidence P n sqlite_fails st =
     (case st_tasks st ! n of
        TaskPublish permit e \<Rightarrow>
          if \<not> evidence_valid (pe_free P) e then end_task n st
          else (case evidence_to_row (pe_free P) e of None \<Rightarrow> end_task n st
            | Some row \<Rightarrow>
                (case evidence_put (pe_unicode P) (pe_json P) sqlite_fails row (st_rows st) of
                   (Inr True, rows) \<Rightarrow> set_task n (TaskInsert permit e) (st\<lparr>st_rows := rows\<rparr>)
                 | _ \<Rightarrow> end_task n st))
      | TaskInsert permit e \<Rightarrow> end_task n (st\<lparr>st_cache := (st_cache st)(evidence_key e \<mapsto> e)\<rparr>)
      | _ \<Rightarrow> st)"

section \<open>Restart and recovery\<close>

definition MAX_PROVIDER_CATALOG_RECOVERY_ROUTES :: nat where "MAX_PROVIDER_CATALOG_RECOVERY_ROUTES = 64"

definition hydrate_route :: "free_env \<Rightarrow> evidence_row list \<Rightarrow> model_route_config \<times> bool \<Rightarrow> evidence_cache \<Rightarrow> evidence_cache" where
  "hydrate_route E rows x cache =
     (case x of (route, sqlite_fails) \<Rightarrow>
        case profile_from_route_config (fe_unicode E) (fe_sha E) route of None \<Rightarrow> cache
        | Some p \<Rightarrow>
            let model = str_trim (fe_unicode E) (rcfg_model route) in
            if model = [] \<or> sqlite_fails then cache
            else case evidence_get rows (pp_provider_id p, model, pp_credential_binding p, pp_region p) of None \<Rightarrow> cache
            | Some row \<Rightarrow>
                (case evidence_from_row E row of None \<Rightarrow> cache
                 | Some e \<Rightarrow> if \<not> matches_profile e p then cache else cache(evidence_key e \<mapsto> e)))"

text \<open>The routes come in the order in which the map of routes yields them, each with whether SQLite fails to read its row.\<close>

definition hydrate_free_access_evidence :: "free_env \<Rightarrow> (model_route_config \<times> bool) list \<Rightarrow> probe_state \<Rightarrow> probe_state" where
  "hydrate_free_access_evidence E routes st =
     st\<lparr>st_cache := fold (hydrate_route E (st_rows st)) (take MAX_PROVIDER_CATALOG_RECOVERY_ROUTES routes) (st_cache st)\<rparr>"

text \<open>The cleanup of revoked credentials stops at the first error, and the process with it.\<close>

fun delete_revoked :: "unicode \<Rightarrow> (string \<times> bool) list \<Rightarrow> evidence_row list \<Rightarrow> bool \<times> evidence_row list" where
  "delete_revoked U [] rows = (True, rows)"
| "delete_revoked U ((binding, sqlite_fails) # bs) rows =
     (case delete_credential_scope U sqlite_fails binding rows of
        (Inl _, rows') \<Rightarrow> (False, rows')
      | (Inr _, rows') \<Rightarrow> delete_revoked U bs rows')"

definition restart_process :: "unicode \<Rightarrow> (string \<times> bool) list \<Rightarrow> probe_state \<Rightarrow> probe_state" where
  "restart_process U revoked st = (case delete_revoked U revoked (st_rows st) of (running, rows) \<Rightarrow> probe_start_state rows (st_log st) running)"

section \<open>Events\<close>

datatype probe_event =
    EvRouteUse string "string option" u64
  | EvPassiveSuccess string string u64
  | EvSpawned nat u64 u64 bool
  | EvPeriodic u64 u64 u64 bool
  | EvManual string bool u64 bool
  | EvReadRevision nat bool bool
  | EvFinish nat probe_transport bool u64
  | EvPublish nat bool
  | EvHydrate "(model_route_config \<times> bool) list"
  | EvCancel
  | EvRestart "(string \<times> bool) list"

fun running_step :: "probe_env \<Rightarrow> probe_setup \<Rightarrow> probe_event \<Rightarrow> probe_state \<Rightarrow> probe_state" where
  "running_step P S (EvRouteUse route model now) st = on_route_use (pe_free P) S route model now st"
| "running_step P S (EvPassiveSuccess route model now) st = passive_start (pe_free P) S route model now st"
| "running_step P S (EvSpawned n t now fails) st =
     (if n < length (st_tasks st) then
        (case st_tasks st ! n of TaskSpawned route model \<Rightarrow> start_probe (pe_free P) S route model t now fails (end_task n st) | _ \<Rightarrow> st)
      else st)"
| "running_step P S (EvPeriodic t t' now fails) st = periodic_turn (pe_free P) S t t' now fails st"
| "running_step P S (EvManual model confirmed now fails) st = manual_start (pe_free P) S model confirmed now fails st"
| "running_step P S (EvReadRevision n fails gateway_fails) st =
     (if n < length (st_tasks st) then read_revision (pe_free P) n fails gateway_fails st else st)"
| "running_step P S (EvFinish n tr timed_out finished) st =
     (if n < length (st_tasks st) then finish_probe P n tr timed_out finished st else st)"
| "running_step P S (EvPublish n fails) st = (if n < length (st_tasks st) then publish_evidence P n fails st else st)"
| "running_step P S (EvHydrate routes) st = hydrate_free_access_evidence (pe_free P) routes st"
| "running_step P S EvCancel st = st\<lparr>st_cancelled := True\<rparr>"
| "running_step P S (EvRestart revoked) st = restart_process (pe_unicode P) revoked st"

definition probe_step :: "probe_env \<Rightarrow> probe_setup \<Rightarrow> probe_event \<Rightarrow> probe_state \<Rightarrow> probe_state" where
  "probe_step P S ev st =
     (if st_running st then running_step P S ev st
      else case ev of EvRestart revoked \<Rightarrow> restart_process (pe_unicode P) revoked st | _ \<Rightarrow> st)"

definition probe_run :: "probe_env \<Rightarrow> probe_setup \<Rightarrow> probe_event list \<Rightarrow> probe_state" where
  "probe_run P S evs = fold (probe_step P S) evs (probe_start_state [] [] True)"

section \<open>What is behind evidence\<close>

text \<open>A finished probe that shows free access: the pricing of this very model was zero in all dimensions and the completion was accepted.\<close>

definition probe_shows :: "probe_env \<Rightarrow> probe_job \<Rightarrow> probe_transport \<Rightarrow> string \<Rightarrow> bool" where
  "probe_shows P job tr model \<longleftrightarrow> pj_model job = model \<and> rcfg_profile_id (pj_route job) = Some PidOpenRouter
     \<and> (\<exists>pricing. pt_pricing tr (pj_route job) model = Inr pricing \<and> po_model_id pricing = model \<and> po_all_dimensions_zero pricing)
     \<and> (\<exists>r. pt_completion tr (pj_route job) model = Inr r \<and> validate_semantic_completion P r = None)"

definition evidence_traced :: "probe_env \<Rightarrow> (probe_job \<times> probe_transport) list \<Rightarrow> free_access_evidence \<Rightarrow> bool" where
  "evidence_traced P hist e \<longleftrightarrow> (ev_observed_state e = ObsVerifiedFreeLimited \<longrightarrow>
     (\<exists>(job, tr)\<in>set hist. probe_shows P job tr (ev_model_id e) \<and> matches_profile e (pj_profile job)
        \<and> ev_expires_at_ms e = sat_add (max (pj_now job) 1) FREE_ACCESS_PROBE_TTL_MS))"

fun task_carries :: "probe_task \<Rightarrow> free_access_evidence option" where
  "task_carries (TaskPublish _ e) = Some e"
| "task_carries (TaskInsert _ e) = Some e"
| "task_carries (TaskPassive _ _ _ existing) = existing"
| "task_carries _ = None"

text \<open>Every task satisfies a predicate and at most one of them holds the permit of the guard.\<close>

definition tasks_ok :: "(probe_task \<Rightarrow> bool) \<Rightarrow> probe_task list \<Rightarrow> bool" where
  "tasks_ok Q ts \<longleftrightarrow> list_all Q ts \<and> length (filter holds_permit ts) \<le> 1"

definition probe_inv :: "probe_env \<Rightarrow> probe_state \<Rightarrow> bool" where
  "probe_inv P st \<longleftrightarrow>
     (\<forall>k e. st_cache st k = Some e \<longrightarrow> k = evidence_key e \<and> evidence_traced P (st_log st) e)
     \<and> tasks_ok (\<lambda>t. \<forall>e. task_carries t = Some e \<longrightarrow> evidence_traced P (st_log st) e) (st_tasks st)
     \<and> (\<forall>row\<in>set (st_rows st). \<forall>e. fe_parse (pe_free P) (er_evidence_json row) = Some e \<longrightarrow> evidence_traced P (st_log st) e)
     \<and> store_ok (pe_unicode P) (pe_json P) (st_rows st)"

lemma evidence_seal_Some: "evidence_seal E e = Some e' \<Longrightarrow> (\<exists>h. e' = e\<lparr>ev_content_hash := h\<rparr>) \<and> evidence_valid E e'"
  by (auto simp: evidence_seal_def Let_def split: option.splits if_splits)

text \<open>Revision, hash, samples and time of observation do not matter to what is behind evidence.\<close>

lemma matches_profile_updates [simp]:
  "matches_profile (e\<lparr>ev_content_hash := h\<rparr>) = matches_profile e" "matches_profile (e\<lparr>ev_revision := r\<rparr>) = matches_profile e"
  "matches_profile (e\<lparr>ev_observed_at_ms := t\<rparr>) = matches_profile e" "matches_profile (e\<lparr>ev_successful_sample_count := n\<rparr>) = matches_profile e"
  by (simp_all add: matches_profile_def fun_eq_iff)

lemma evidence_traced_updates [simp]:
  "evidence_traced P hist (e\<lparr>ev_content_hash := h\<rparr>) = evidence_traced P hist e" "evidence_traced P hist (e\<lparr>ev_revision := r\<rparr>) = evidence_traced P hist e"
  "evidence_traced P hist (e\<lparr>ev_observed_at_ms := t\<rparr>) = evidence_traced P hist e"
  "evidence_traced P hist (e\<lparr>ev_successful_sample_count := n\<rparr>) = evidence_traced P hist e"
  by (simp_all add: evidence_traced_def)

lemma evidence_traced_seal: "evidence_seal E e = Some e' \<Longrightarrow> evidence_traced P hist e' = evidence_traced P hist e"
  by (drule evidence_seal_Some) auto

lemma evidence_traced_mono: "evidence_traced P hist e \<Longrightarrow> evidence_traced P (hist @ hist') e"
  by (fastforce simp: evidence_traced_def)

lemma evidence_traced_other: "ev_observed_state e \<noteq> ObsVerifiedFreeLimited \<Longrightarrow> evidence_traced P hist e"
  by (simp add: evidence_traced_def)

lemma build_evidence_observed:
  "build_evidence E p model revision now obs allow prov samples conf invd failure = Some e \<Longrightarrow> ev_observed_state e = obs"
  by (auto simp: build_evidence_def Let_def dest!: evidence_seal_Some)

lemma build_evidence_fields:
  "build_evidence E p model revision now obs allow prov samples conf invd failure = Some e
    \<Longrightarrow> ev_model_id e = model \<and> matches_profile e p
      \<and> ev_expires_at_ms e = sat_add (max now 1) (if obs = ObsVerifiedFreeLimited then FREE_ACCESS_PROBE_TTL_MS else FREE_ACCESS_PROBE_FAILURE_TTL_MS)"
  by (auto simp: build_evidence_def Let_def matches_profile_def dest!: evidence_seal_Some)

lemma failure_evidence_traced: "failure_evidence E p model revision now code = Some e \<Longrightarrow> evidence_traced P hist e"
  by (rule evidence_traced_other, cases code) (auto simp: failure_evidence_def dest: build_evidence_observed)

lemma probe_completion_None:
  "probe_completion P tr route model = None \<longleftrightarrow> \<not> pt_cancel_completion tr \<and> (\<exists>r. pt_completion tr route model = Inr r \<and> validate_semantic_completion P r = None)"
  by (simp add: probe_completion_def split: sum.splits)

lemma drift_Inr: "drift r = Inr e \<longleftrightarrow> r = Some e"
  by (simp add: drift_def split: option.splits)

lemma collect_probe_evidence_Inr:
  assumes "collect_probe_evidence P tr route p model revision now = Inr e"
  obtains pricing where "rcfg_profile_id route = Some PidOpenRouter" "pt_pricing tr route model = Inr pricing" "po_model_id pricing = model"
    "\<not> po_all_dimensions_zero pricing" "ev_observed_state e = ObsPaidOnly"
  | pricing where "rcfg_profile_id route = Some PidOpenRouter" "pt_pricing tr route model = Inr pricing" "po_model_id pricing = model"
    "po_all_dimensions_zero pricing" "probe_completion P tr route model = None"
    "build_evidence (pe_free P) p model revision now ObsVerifiedFreeLimited AllowRecurring
                   (AllowProvOpenRouterPricing (po_source_hash pricing)) 1 9000 None None = Some e"
  using assms by (auto simp: collect_probe_evidence_def Let_def drift_Inr dest: build_evidence_observed split: if_splits sum.splits option.splits)

lemma collect_probe_evidence_traced:
  assumes "collect_probe_evidence P tr (pj_route job) (pj_profile job) (pj_model job) revision (pj_now job) = Inr e" and "(job, tr) \<in> set hist"
  shows "evidence_traced P hist e"
  using assms(1)
proof (cases rule: collect_probe_evidence_Inr)
  case (1 pricing)
  then show ?thesis by (simp add: evidence_traced_other)
next
  case (2 pricing)
  note fields = build_evidence_fields [OF 2(6)]
  have "probe_shows P job tr (ev_model_id e)" using 2 fields by (auto simp: probe_shows_def probe_completion_None)
  then show ?thesis using assms(2) fields by (auto simp: evidence_traced_def intro!: bexI [of _ "(job, tr)"])
qed

lemma probe_outcome_traced:
  "probe_outcome P job revision tr timed_out finished = Some e \<Longrightarrow> (job, tr) \<in> set hist \<Longrightarrow> evidence_traced P hist e"
  by (auto simp: probe_outcome_def Let_def dest: failure_evidence_traced collect_probe_evidence_traced split: if_splits sum.splits)

lemma passive_update_traced:
  assumes "passive_update p revision now existing = Some e" and "\<forall>e. existing = Some e \<longrightarrow> evidence_traced P hist e"
  shows "evidence_traced P hist e"
  using assms
  by (auto simp: passive_update_def evidence_traced_other split: option.splits if_splits)

lemma passive_evidence_traced:
  assumes "passive_evidence E p model revision now existing = Some e" and "\<forall>e. existing = Some e \<longrightarrow> evidence_traced P hist e"
  shows "evidence_traced P hist e"
proof -
  obtain e0 where seal: "evidence_seal E (e0\<lparr>ev_observed_at_ms := max now 1\<rparr>) = Some e" and e0: "evidence_traced P hist e0"
    using assms passive_update_traced [OF _ assms(2)]
    by (auto simp: passive_evidence_def evidence_traced_other dest: build_evidence_observed split: option.splits)
  then show ?thesis using evidence_traced_seal [OF seal] by simp
qed

section \<open>The invariant\<close>

lemma permits_nth: "n < length ts \<Longrightarrow> length (filter p ts) = length (filter p (take n ts)) + (if p (ts ! n) then 1 else 0) + length (filter p (drop (Suc n) ts))"
  by (subst id_take_nth_drop [of n ts]) simp_all

lemma tasks_ok_add: "tasks_ok Q ts \<Longrightarrow> Q t \<Longrightarrow> (holds_permit t \<Longrightarrow> \<not> list_ex holds_permit ts) \<Longrightarrow> tasks_ok Q (ts @ [t])"
  by (auto simp: tasks_ok_def list_ex_iff filter_empty_conv)

lemma tasks_ok_end: "tasks_ok Q ts \<Longrightarrow> tasks_ok Q (take n ts @ drop (Suc n) ts)"
proof (cases "n < length ts")
  case True
  assume "tasks_ok Q ts"
  then show ?thesis using permits_nth [OF True, of holds_permit]
    by (auto simp: tasks_ok_def list_all_iff dest: in_set_takeD in_set_dropD)
qed simp

lemma tasks_ok_set:
  "tasks_ok Q ts \<Longrightarrow> n < length ts \<Longrightarrow> Q t \<Longrightarrow> (holds_permit t \<Longrightarrow> holds_permit (ts ! n)) \<Longrightarrow> tasks_ok Q (ts[n := t])"
  using permits_nth [of n ts holds_permit]
  by (auto simp: tasks_ok_def list_all_iff upd_conv_take_nth_drop dest: in_set_takeD in_set_dropD split: if_splits)

lemma tasks_ok_mono: "tasks_ok Q ts \<Longrightarrow> (\<And>t. Q t \<Longrightarrow> Q' t) \<Longrightarrow> tasks_ok Q' ts"
  by (auto simp: tasks_ok_def list_all_iff)

lemma tasks_ok_nth: "tasks_ok Q ts \<Longrightarrow> n < length ts \<Longrightarrow> Q (ts ! n)"
  by (simp add: tasks_ok_def list_all_length)

lemma tasks_ok_Nil: "tasks_ok Q []"
  by (simp add: tasks_ok_def)

lemma probe_inv_frame:
  "probe_inv P (st\<lparr>st_started := x\<rparr>) = probe_inv P st" "probe_inv P (st\<lparr>st_attempted := y\<rparr>) = probe_inv P st"
  "probe_inv P (st\<lparr>st_cancelled := z\<rparr>) = probe_inv P st"
  by (simp_all add: probe_inv_def)

lemma probe_inv_log: "probe_inv P st \<Longrightarrow> probe_inv P (st\<lparr>st_log := st_log st @ hist\<rparr>)"
  by (auto simp: probe_inv_def intro: evidence_traced_mono tasks_ok_mono)

lemma probe_inv_add:
  "probe_inv P st \<Longrightarrow> \<forall>e. task_carries t = Some e \<longrightarrow> evidence_traced P (st_log st) e \<Longrightarrow> (holds_permit t \<Longrightarrow> \<not> list_ex holds_permit (st_tasks st))
    \<Longrightarrow> probe_inv P (add_task t st)"
  by (simp add: probe_inv_def add_task_def tasks_ok_add)

lemma probe_inv_end: "probe_inv P st \<Longrightarrow> probe_inv P (end_task n st)"
  by (simp add: probe_inv_def end_task_def tasks_ok_end)

lemma probe_inv_set:
  "probe_inv P st \<Longrightarrow> n < length (st_tasks st) \<Longrightarrow> \<forall>e. task_carries t = Some e \<longrightarrow> evidence_traced P (st_log st) e
    \<Longrightarrow> (holds_permit t \<Longrightarrow> holds_permit (st_tasks st ! n)) \<Longrightarrow> probe_inv P (set_task n t st)"
  by (simp add: probe_inv_def set_task_def tasks_ok_set)

lemma probe_inv_task:
  "probe_inv P st \<Longrightarrow> n < length (st_tasks st) \<Longrightarrow> task_carries (st_tasks st ! n) = Some e \<Longrightarrow> evidence_traced P (st_log st) e"
  by (auto simp: probe_inv_def dest: tasks_ok_nth)

lemma reserve_job_inv: "probe_inv P st \<Longrightarrow> probe_inv P (reserve_job E fails job st)"
  by (auto simp: reserve_job_def guard_reserve_def probe_inv_frame intro!: probe_inv_add split: option.splits bool.splits sum.splits if_splits)

lemma start_probe_inv: "probe_inv P st \<Longrightarrow> probe_inv P (start_probe E S route model t now fails st)"
  by (auto simp: start_probe_def intro!: reserve_job_inv split: option.splits)

lemma periodic_turn_inv: "probe_inv P st \<Longrightarrow> probe_inv P (periodic_turn E S t t' now fails st)"
  by (auto simp: periodic_turn_def intro!: start_probe_inv split: option.splits)

lemma manual_start_inv: "probe_inv P st \<Longrightarrow> probe_inv P (manual_start E S model confirmed now fails st)"
  by (auto simp: manual_start_def intro!: reserve_job_inv split: option.splits)

lemma on_route_use_inv: "probe_inv P st \<Longrightarrow> probe_inv P (on_route_use E S route model now st)"
  by (auto simp: on_route_use_def probe_inv_frame intro!: probe_inv_add split: option.splits)

lemma probe_inv_cached: "probe_inv P st \<Longrightarrow> st_cache st k = Some e \<Longrightarrow> k = evidence_key e \<and> evidence_traced P (st_log st) e"
  by (simp add: probe_inv_def)

lemma passive_start_inv: "probe_inv P st \<Longrightarrow> probe_inv P (passive_start E S route model now st)"
  by (auto simp: passive_start_def Let_def intro!: probe_inv_add dest: probe_inv_cached split: option.splits)

lemma read_revision_inv:
  assumes "probe_inv P st" and "n < length (st_tasks st)"
  shows "probe_inv P (read_revision E n fails gateway_fails st)"
proof (cases "st_tasks st ! n")
  case (TaskPassive p model now existing)
  then have "\<forall>e. existing = Some e \<longrightarrow> evidence_traced P (st_log st) e" using probe_inv_task [OF assms] by simp
  then show ?thesis using TaskPassive assms
    by (auto simp: read_revision_def intro!: probe_inv_set probe_inv_end dest: passive_evidence_traced split: option.splits)
qed (use assms in \<open>auto simp: read_revision_def intro!: probe_inv_set probe_inv_end split: option.splits\<close>)

lemma finish_probe_inv:
  assumes "probe_inv P st" and "n < length (st_tasks st)"
  shows "probe_inv P (finish_probe P n tr timed_out finished st)"
proof (cases "st_tasks st ! n")
  case (TaskProbing job revision)
  let ?st = "st\<lparr>st_log := st_log st @ [(job, tr)]\<rparr>"
  have inv: "probe_inv P ?st" using assms(1) by (rule probe_inv_log)
  have "evidence_traced P (st_log st @ [(job, tr)]) e" if "probe_outcome P job revision tr timed_out finished = Some e" for e
    using probe_outcome_traced [OF that] by simp
  then show ?thesis using TaskProbing assms(2) inv
    by (auto simp: finish_probe_def Let_def intro!: probe_inv_set probe_inv_end split: option.splits)
qed (use assms in \<open>simp_all add: finish_probe_def\<close>)

lemma upsert_row_subset: "set (snd (upsert_row row rows)) \<subseteq> insert row (set rows)"
  by (auto simp: upsert_row_def split: option.splits)

lemma put_row_inv:
  assumes inv: "probe_inv P st" and row: "evidence_to_row (pe_free P) e = Some row" and e: "evidence_traced P (st_log st) e"
    and put: "evidence_put (pe_unicode P) (pe_json P) fails row (st_rows st) = (Inr True, rows)"
    and serde: "\<forall>e json. fe_json (pe_free P) e = Some json \<longrightarrow> fe_parse (pe_free P) json = Some e"
  shows "probe_inv P (st\<lparr>st_rows := rows\<rparr>)"
proof -
  have fits: "er_revision row \<le> i64_max" and json: "fe_json (pe_free P) e = Some (er_evidence_json row)"
    using row by (auto simp: evidence_to_row_Some)
  have ok: "store_ok (pe_unicode P) (pe_json P) (st_rows st)" using inv by (simp add: probe_inv_def)
  have pub: "publish_row (pe_unicode P) (pe_json P) fails row (st_rows st) = (True, rows)" using put by (simp add: publish_row_def)
  have "store_ok (pe_unicode P) (pe_json P) rows" using evidence_table.put_sound [OF ok fits, of fails] pub by simp
  moreover have "set rows \<subseteq> insert row (set (st_rows st))"
    using evidence_put_cases [OF ok fits, of fails] pub upsert_row_subset [of row "st_rows st"] by (auto split: if_splits)
  moreover have "evidence_traced P (st_log st) e'" if "fe_parse (pe_free P) (er_evidence_json row) = Some e'" for e'
    using that serde json e by simp
  ultimately show ?thesis using inv by (auto simp: probe_inv_def)
qed

lemma probe_inv_insert:
  "probe_inv P st \<Longrightarrow> evidence_traced P (st_log st) e \<Longrightarrow> probe_inv P (st\<lparr>st_cache := (st_cache st)(evidence_key e \<mapsto> e)\<rparr>)"
  by (auto simp: probe_inv_def)

lemma publish_evidence_inv:
  assumes "probe_inv P st" and "n < length (st_tasks st)"
    and serde: "\<forall>e json. fe_json (pe_free P) e = Some json \<longrightarrow> fe_parse (pe_free P) json = Some e"
  shows "probe_inv P (publish_evidence P n fails st)"
proof (cases "st_tasks st ! n")
  case (TaskPublish permit e)
  then have e: "evidence_traced P (st_log st) e" using probe_inv_task [OF assms(1,2)] by simp
  show ?thesis
  proof (cases "\<exists>row rows. evidence_to_row (pe_free P) e = Some row
      \<and> evidence_put (pe_unicode P) (pe_json P) fails row (st_rows st) = (Inr True, rows) \<and> evidence_valid (pe_free P) e")
    case True
    then obtain row rows where r: "evidence_to_row (pe_free P) e = Some row"
        "evidence_put (pe_unicode P) (pe_json P) fails row (st_rows st) = (Inr True, rows)" "evidence_valid (pe_free P) e" by blast
    have "probe_inv P (st\<lparr>st_rows := rows\<rparr>)" by (rule put_row_inv [OF assms(1) r(1) e r(2) serde])
    then have "probe_inv P (set_task n (TaskInsert permit e) (st\<lparr>st_rows := rows\<rparr>))"
      using TaskPublish assms(2) e by (intro probe_inv_set) simp_all
    then show ?thesis using TaskPublish r by (simp add: publish_evidence_def)
  next
    case False
    then have "publish_evidence P n fails st = end_task n st"
      using TaskPublish by (auto simp: publish_evidence_def split: option.splits prod.splits sum.splits bool.splits)
    then show ?thesis using assms(1) probe_inv_end by simp
  qed
next
  case (TaskInsert permit e)
  then show ?thesis
    using assms probe_inv_task [OF assms(1,2)] by (auto simp: publish_evidence_def intro!: probe_inv_end probe_inv_insert)
qed (use assms in \<open>simp_all add: publish_evidence_def\<close>)

lemma evidence_from_row_parse: "evidence_from_row E row = Some e \<Longrightarrow> fe_parse E (er_evidence_json row) = Some e"
  unfolding evidence_from_row_def by (cases "fe_parse E (er_evidence_json row)"; simp split: if_splits)

lemma probe_inv_row:
  "probe_inv P st \<Longrightarrow> row \<in> set (st_rows st) \<Longrightarrow> fe_parse (pe_free P) (er_evidence_json row) = Some e \<Longrightarrow> evidence_traced P (st_log st) e"
  by (simp add: probe_inv_def)

lemma hydrate_route_inv:
  assumes "probe_inv P (st\<lparr>st_cache := cache\<rparr>)"
  shows "probe_inv P (st\<lparr>st_cache := hydrate_route (pe_free P) (st_rows st) x cache\<rparr>)"
proof -
  have "probe_inv P (st\<lparr>st_cache := cache(evidence_key e \<mapsto> e)\<rparr>)"
    if "evidence_get (st_rows st) k = Some row" "evidence_from_row (pe_free P) row = Some e" for k row e
    using probe_inv_row [OF assms, of row e] probe_inv_insert [OF assms, of e] evidence_get_key [OF that(1)] evidence_from_row_parse [OF that(2)]
    by simp
  then show ?thesis using assms by (cases x) (auto simp: hydrate_route_def Let_def split: option.split)
qed

lemma hydrate_inv: "probe_inv P st \<Longrightarrow> probe_inv P (hydrate_free_access_evidence (pe_free P) routes st)"
proof -
  have "probe_inv P (st\<lparr>st_cache := cache\<rparr>) \<Longrightarrow> probe_inv P (st\<lparr>st_cache := fold (hydrate_route (pe_free P) (st_rows st)) xs cache\<rparr>)" for xs cache
    by (induction xs arbitrary: cache) (simp_all add: hydrate_route_inv)
  from this [of "st_cache st"] show "probe_inv P st \<Longrightarrow> ?thesis" by (simp add: hydrate_free_access_evidence_def)
qed

lemma store_ok_filter: "store_ok U parse rows \<Longrightarrow> store_ok U parse (filter p rows)"
  using length_filter_le [of p rows] by (auto simp: store_ok_def list_all_iff distinct_map simp del: length_filter_le intro: inj_on_subset)

lemma delete_revoked_spec:
  "store_ok U parse rows \<Longrightarrow> store_ok U parse (snd (delete_revoked U bs rows)) \<and> set (snd (delete_revoked U bs rows)) \<subseteq> set rows"
proof (induction bs arbitrary: rows)
  case (Cons b bs)
  obtain binding fails where b: "b = (binding, fails)" by (cases b)
  show ?case using Cons.IH [OF store_ok_filter [OF Cons.prems, of "\<lambda>r. er_credential_binding r \<noteq> binding"]] Cons.prems
    by (auto simp: b delete_credential_scope_def)
qed simp

lemma restart_inv: "probe_inv P st \<Longrightarrow> probe_inv P (restart_process (pe_unicode P) revoked st)"
  using delete_revoked_spec [of "pe_unicode P" "pe_json P" "st_rows st" revoked]
  by (auto simp: probe_inv_def restart_process_def probe_start_state_def tasks_ok_Nil split: prod.splits)

lemma probe_step_inv:
  assumes "probe_inv P st" and "\<forall>e json. fe_json (pe_free P) e = Some json \<longrightarrow> fe_parse (pe_free P) json = Some e"
  shows "probe_inv P (probe_step P S ev st)"
proof -
  have "probe_inv P (running_step P S ev st)"
    using assms
    by (cases ev) (simp_all add: on_route_use_inv passive_start_inv start_probe_inv periodic_turn_inv manual_start_inv read_revision_inv
        finish_probe_inv publish_evidence_inv hydrate_inv restart_inv probe_inv_end probe_inv_frame split: probe_task.splits)
  then show ?thesis using assms(1) by (cases ev) (simp_all add: probe_step_def restart_inv)
qed

lemma probe_run_inv:
  assumes "\<forall>e json. fe_json (pe_free P) e = Some json \<longrightarrow> fe_parse (pe_free P) json = Some e"
  shows "probe_inv P (probe_run P S evs)"
proof -
  have "probe_inv P st \<Longrightarrow> probe_inv P (fold (probe_step P S) evs st)" for st
    by (induction evs arbitrary: st) (simp_all add: probe_step_inv [OF _ assms])
  moreover have "probe_inv P (probe_start_state [] [] True)"
    by (simp add: probe_inv_def probe_start_state_def store_ok_Nil tasks_ok_Nil)
  ultimately show ?thesis by (simp add: probe_run_def)
qed

section \<open>Free-only requests\<close>

lemma evidence_key_model: "matches_profile e p \<Longrightarrow> profile_evidence_key p model = evidence_key e \<Longrightarrow> ev_model_id e = model"
  by (simp add: matches_profile_def profile_evidence_key_def evidence_key_def free_access_evidence_scope_key_def)

lemma verified_route_probed:
  assumes serde: "\<forall>e json. fe_json (pe_free P) e = Some json \<longrightarrow> fe_parse (pe_free P) json = Some e"
    and cache: "cp_evidence cp = Some (st_cache (probe_run P S evs))" and free: "is_verified_free_route (pe_free P) cp route model now"
  obtains cfg p job tr where "cp_routes cp route = Some cfg" "profile_from_route_config (pe_unicode P) (fe_sha (pe_free P)) cfg = Some p"
    "(job, tr) \<in> set (st_log (probe_run P S evs))" "probe_shows P job tr model"
    "pp_credential_binding (pj_profile job) = pp_credential_binding p" "pp_content_hash (pj_profile job) = pp_content_hash p"
    "now < sat_add (max (pj_now job) 1) FREE_ACCESS_PROBE_TTL_MS"
proof -
  from free cache obtain cfg p e where cfg: "cp_routes cp route = Some cfg"
      and p: "profile_from_route_config (pe_unicode P) (fe_sha (pe_free P)) cfg = Some p"
      and e: "st_cache (probe_run P S evs) (profile_evidence_key p model) = Some e" and match: "matches_profile e p"
      and strict: "is_strictly_free_at (pe_free P) e now"
    by (auto simp: is_verified_free_route_def split: option.splits)
  from probe_inv_cached [OF probe_run_inv [OF serde] e] have key: "profile_evidence_key p model = evidence_key e"
    and traced: "evidence_traced P (st_log (probe_run P S evs)) e" by simp_all
  note model = evidence_key_model [OF match key]
  from strict have "ev_observed_state e = ObsVerifiedFreeLimited" and fresh: "now < ev_expires_at_ms e"
    by (auto simp: is_strictly_free_at_def freshness_at_def not_le split: if_splits)
  with traced model obtain job tr where "(job, tr) \<in> set (st_log (probe_run P S evs))" "probe_shows P job tr model"
      "matches_profile e (pj_profile job)" "ev_expires_at_ms e = sat_add (max (pj_now job) 1) FREE_ACCESS_PROBE_TTL_MS"
    by (auto simp: evidence_traced_def)
  then show thesis using that [OF cfg p] match fresh by (auto simp: matches_profile_def)
qed

lemma check_free_only:
  assumes "check_with_requirements E cp route model tools now = None" and "cp_mode cp = RouteFreeOnly"
  obtains cfg where "cp_routes cp route = Some cfg"
    "is_verified_free_route E cp route (chosen_model (fe_unicode E) model (str_trim (fe_unicode E) (rcfg_model cfg))) now"
  using assms by (auto simp: check_with_requirements_def free_access_check_def Let_def split: option.splits if_splits)

lemma below_sat_add: "now < sat_add a b \<Longrightarrow> unat now < unat a + unat b" for now a b :: u64
  by (simp add: word_less_nat_alt unat_sat_add)

text \<open>C18: In the mode of free routes only, the preflight lets a request pass only if a probe that really ran showed the requested model to be free:
  whatever happened before, with whatever interleaving of probes, passive records, failures of SQLite, restarts and recoveries,
  there is a finished probe of this very model, made with the credential and the profile that the route has now, started less than
  24 hours before the request, that saw a price of zero in every dimension and an accepted completion. Passive observations never
  prolong this time. The only assumption is that serde reads back the JSON it writes.\<close>

theorem free_only_request_was_probed:
  assumes "\<forall>e json. fe_json (pe_free P) e = Some json \<longrightarrow> fe_parse (pe_free P) json = Some e"
    and "cp_evidence cp = Some (st_cache (probe_run P S evs))" and "cp_mode cp = RouteFreeOnly"
    and "pf_check (core_preflight (pe_free P) cp) route model now = None"
  shows "\<exists>cfg p job tr. cp_routes cp route = Some cfg \<and> profile_from_route_config (pe_unicode P) (fe_sha (pe_free P)) cfg = Some p
    \<and> (job, tr) \<in> set (st_log (probe_run P S evs))
    \<and> probe_shows P job tr (chosen_model (pe_unicode P) model (str_trim (pe_unicode P) (rcfg_model cfg)))
    \<and> pp_credential_binding (pj_profile job) = pp_credential_binding p \<and> pp_content_hash (pj_profile job) = pp_content_hash p
    \<and> unat now < max (unat (pj_now job)) 1 + 24 * 60 * 60 * 1000"
proof -
  have "check_with_requirements (pe_free P) cp route model False now = None" using assms(4) by (simp add: core_preflight_def)
  from check_free_only [OF this assms(3)] obtain cfg where cfg: "cp_routes cp route = Some cfg"
    "is_verified_free_route (pe_free P) cp route (chosen_model (pe_unicode P) model (str_trim (pe_unicode P) (rcfg_model cfg))) now" by blast
  from verified_route_probed [OF assms(1,2) cfg(2)] obtain p job tr where
    r: "profile_from_route_config (pe_unicode P) (fe_sha (pe_free P)) cfg = Some p" "(job, tr) \<in> set (st_log (probe_run P S evs))"
      "probe_shows P job tr (chosen_model (pe_unicode P) model (str_trim (pe_unicode P) (rcfg_model cfg)))"
      "pp_credential_binding (pj_profile job) = pp_credential_binding p" "pp_content_hash (pj_profile job) = pp_content_hash p"
      "now < sat_add (max (pj_now job) 1) FREE_ACCESS_PROBE_TTL_MS"
    using cfg(1) by (metis option.inject)
  have "unat (max (pj_now job) 1) = max (unat (pj_now job)) 1" by (simp add: max_def word_le_nat_alt)
  then have "unat now < max (unat (pj_now job)) 1 + 24 * 60 * 60 * 1000"
    using below_sat_add [OF r(6)] by (simp add: FREE_ACCESS_PROBE_TTL_MS_def)
  with cfg(1) r show ?thesis by blast
qed

section \<open>Consent\<close>

definition job_consented :: "probe_setup \<Rightarrow> probe_job \<Rightarrow> bool" where
  "job_consented S job \<longleftrightarrow> rcfg_profile_id (pj_route job) \<in> {Some PidOpenRouter, Some PidCloudflareWorkersAi}
     \<and> (if pj_manual job then rcfg_profile_id (pj_route job) = Some PidOpenRouter
        else ps_policy S \<in> {PolOnFirstUse, PolPeriodicBounded} \<and> has_persistent_consent S (pj_route job))"

fun task_consented :: "probe_setup \<Rightarrow> probe_task \<Rightarrow> bool" where
  "task_consented S (TaskSpawned _ _) = (ps_policy S = PolOnFirstUse)"
| "task_consented S (TaskReserved job) = job_consented S job"
| "task_consented S (TaskProbing job _) = job_consented S job"
| "task_consented S _ = True"

definition guard_inv :: "probe_setup \<Rightarrow> probe_state \<Rightarrow> bool" where
  "guard_inv S st \<longleftrightarrow> tasks_ok (task_consented S) (st_tasks st) \<and> list_all (job_consented S \<circ> fst) (st_log st)
     \<and> bt_ok (st_started st) \<and> length (st_started st) \<le> MAX_TRACKED_PROBE_SCOPES"

lemma length_bt_insert_ok: "bt_ok m \<Longrightarrow> length (bt_insert k v m) = length m + (if bt_get m k = None then 1 else 0)"
proof (induction k v m rule: bt_insert.induct)
  case (2 k v k' v' m)
  then have "k < k' \<Longrightarrow> map_of m k = None" by (auto simp: bt_ok_def bt_keys_def map_of_eq_None_iff)
  with 2 show ?case by (auto simp: bt_ok_def bt_keys_def bt_get_def)
qed (simp add: bt_get_def)

lemma guard_inv_frame:
  "guard_inv S (st\<lparr>st_attempted := y\<rparr>) = guard_inv S st" "guard_inv S (st\<lparr>st_cancelled := z\<rparr>) = guard_inv S st"
  "guard_inv S (st\<lparr>st_rows := rows\<rparr>) = guard_inv S st" "guard_inv S (st\<lparr>st_cache := cache\<rparr>) = guard_inv S st"
  by (simp_all add: guard_inv_def)

lemma guard_inv_tasks:
  "guard_inv S st \<Longrightarrow> task_consented S t \<Longrightarrow> \<not> holds_permit t \<Longrightarrow> guard_inv S (add_task t st)"
  "guard_inv S st \<Longrightarrow> guard_inv S (end_task n st)"
  "guard_inv S st \<Longrightarrow> n < length (st_tasks st) \<Longrightarrow> task_consented S t \<Longrightarrow> (holds_permit t \<Longrightarrow> holds_permit (st_tasks st ! n)) \<Longrightarrow> guard_inv S (set_task n t st)"
  using tasks_ok_add [of "task_consented S" "st_tasks st" t]
  by (simp_all add: guard_inv_def add_task_def end_task_def set_task_def tasks_ok_end tasks_ok_set)

lemma guard_inv_reserve: "guard_inv S st \<Longrightarrow> job_consented S job \<Longrightarrow> guard_inv S (reserve_job E fails job st)"
  by (auto simp: reserve_job_def guard_reserve_def guard_inv_def add_task_def bt_ok_insert length_bt_insert_ok
      intro!: tasks_ok_add split: option.splits bool.splits sum.splits if_splits)

lemma route_scope_profile: "route_scope E S name model = Some (route, p, m) \<Longrightarrow> rcfg_profile_id route \<in> {Some PidOpenRouter, Some PidCloudflareWorkersAi}"
  by (auto simp: route_scope_def Let_def split: option.splits if_splits)

lemma guard_inv_start:
  "guard_inv S st \<Longrightarrow> ps_policy S \<in> {PolOnFirstUse, PolPeriodicBounded} \<Longrightarrow> guard_inv S (start_probe E S route model t now fails st)"
  by (auto simp: start_probe_def job_consented_def dest!: route_scope_profile intro!: guard_inv_reserve split: option.splits)

lemma guard_inv_starts:
  assumes "guard_inv S st"
  shows "guard_inv S (on_route_use E S route model0 now st)" "guard_inv S (passive_start E S route model now st)"
    "guard_inv S (periodic_turn E S t t' now fails st)" "guard_inv S (manual_start E S model confirmed now fails st)"
  using assms
  by (auto simp: on_route_use_def passive_start_def periodic_turn_def manual_start_def Let_def guard_inv_frame job_consented_def
      intro!: guard_inv_tasks guard_inv_start guard_inv_reserve split: option.split)

lemma guard_inv_moves:
  assumes "guard_inv S st" and "n < length (st_tasks st)"
  shows "guard_inv S (read_revision E n fails gateway_fails st)" "guard_inv S (publish_evidence P n fails st)"
    "guard_inv S (finish_probe P n tr timed_out finished st)"
proof -
  have t: "task_consented S (st_tasks st ! n)" using assms by (simp add: guard_inv_def tasks_ok_nth)
  show "guard_inv S (read_revision E n fails gateway_fails st)"
    using assms t by (cases "st_tasks st ! n") (auto simp: read_revision_def intro!: guard_inv_tasks split: option.split)
  show "guard_inv S (publish_evidence P n fails st)"
    using assms t by (cases "st_tasks st ! n")
      (auto simp: publish_evidence_def guard_inv_frame intro!: guard_inv_tasks split: option.split prod.split sum.split bool.split)
  have "guard_inv S (st\<lparr>st_log := st_log st @ [(job, tr)]\<rparr>)" if "job_consented S job" for job
    using assms(1) that by (simp add: guard_inv_def)
  then show "guard_inv S (finish_probe P n tr timed_out finished st)"
    using assms t by (cases "st_tasks st ! n") (auto simp: finish_probe_def Let_def intro!: guard_inv_tasks split: option.split)
qed

lemma guard_inv_restart: "guard_inv S st \<Longrightarrow> guard_inv S (restart_process U revoked st)"
  by (simp add: restart_process_def probe_start_state_def guard_inv_def tasks_ok_Nil bt_ok_def bt_keys_def split: prod.split)

lemma guard_inv_step: "guard_inv S st \<Longrightarrow> guard_inv S (probe_step P S ev st)"
proof -
  assume inv: "guard_inv S st"
  have "guard_inv S (running_step P S ev st)"
  proof (cases ev)
    case (EvSpawned n t now fails)
    have "n < length (st_tasks st) \<Longrightarrow> task_consented S (st_tasks st ! n)" using inv by (simp add: guard_inv_def tasks_ok_nth)
    then show ?thesis using EvSpawned inv by (auto simp: guard_inv_tasks guard_inv_start split: probe_task.split)
  qed (use inv in \<open>simp_all add: guard_inv_starts guard_inv_moves guard_inv_frame guard_inv_restart hydrate_free_access_evidence_def\<close>)
  then show ?thesis using inv by (cases ev) (simp_all add: probe_step_def guard_inv_restart)
qed

text \<open>C19: Whatever happens, at most one probe is under way at a time, at most 1024 scopes are tracked, and every probe that is under way
  or was finished is one of OpenRouter or Cloudflare: either one of the OpenRouter route by command of the user, or an automatic one under
  the policy of the first use or of bounded periods, for a route whose credential is the one that consent was given for. Under the policies
  disabled, passive and manual no automatic probe ever runs, and manual ones go to OpenRouter only.\<close>

theorem probes_are_consented:
  "list_all (job_consented S \<circ> fst) (st_log (probe_run P S evs))
   \<and> list_all (task_consented S) (st_tasks (probe_run P S evs))
   \<and> length (filter holds_permit (st_tasks (probe_run P S evs))) \<le> 1
   \<and> length (st_started (probe_run P S evs)) \<le> MAX_TRACKED_PROBE_SCOPES"
proof -
  have "guard_inv S st \<Longrightarrow> guard_inv S (fold (probe_step P S) evs st)" for st
    by (induction evs arbitrary: st) (simp_all add: guard_inv_step)
  moreover have "guard_inv S (probe_start_state [] [] True)"
    by (simp add: guard_inv_def probe_start_state_def tasks_ok_Nil bt_ok_def bt_keys_def)
  ultimately have "guard_inv S (probe_run P S evs)" by (simp add: probe_run_def)
  then show ?thesis by (simp add: guard_inv_def tasks_ok_def)
qed

section \<open>A run\<close>

definition demo_evidence :: "string \<Rightarrow> free_access_evidence" where
  "demo_evidence hash = \<lparr>ev_schema_version = 2, ev_provider_id = ''openrouter'', ev_model_id = ''a/m'',
     ev_credential_binding = ''credential:01234567-89ab-4cde-8fab-0123456789ab'', ev_region = ''global'', ev_profile_revision = 1,
     ev_profile_content_hash = demo_hash, ev_advertised_state = AdvUnknown, ev_observed_state = ObsVerifiedFreeLimited,
     ev_activation = ActNotRequired, ev_allowance = AllowRecurring, ev_allowance_provenance = AllowProvOpenRouterPricing demo_hash,
     ev_limits = [], ev_successful_sample_count = 1, ev_confidence_bps = 9000, ev_observed_at_ms = 1000, ev_expires_at_ms = 86401000,
     ev_invalidation = None, ev_failure_reason = None, ev_content_hash = hash, ev_revision = 1\<rparr>"

definition demo_env :: probe_env where
  "demo_env = \<lparr>pe_free = \<lparr>fe_unicode = plain_unicode, fe_sha = (\<lambda>_. demo_hash),
       fe_json = (\<lambda>e. if e = demo_evidence [] then Some ''{}'' else if e = demo_evidence demo_hash then Some ''{ }'' else None),
       fe_parse = (\<lambda>s. if s = ''{}'' then Some (demo_evidence []) else if s = ''{ }'' then Some (demo_evidence demo_hash) else None)\<rparr>,
     pe_json = (\<lambda>_. Some JNull), pe_digest = (\<lambda>_. Some demo_hash)\<rparr>"

definition demo_setup :: probe_setup where
  "demo_setup = \<lparr>ps_routes = [(''web'', demo_cfg)], ps_default_route = ''web'', ps_policy = PolManualOnly, ps_consent = None\<rparr>"

definition demo_transport :: probe_transport where
  "demo_transport = gateway_probe_transport demo_env False
     (\<lambda>_ _. ReplyBody (Some \<lparr>mdt_id = ''a/m'', mdt_pricing = [(''completion'', ''0''), (''prompt'', ''0.00''), (''request'', ''0'')]\<rparr>)) False
     (\<lambda>_. Inr \<lparr>cr_content = ''ok'', cr_thinking = None, cr_tool_calls = [],
        cr_usage = Some \<lparr>lu_prompt_tokens = 24, lu_completion_tokens = 2, lu_total_tokens = 26\<rparr>\<rparr>)"

definition demo_probe_events :: "probe_event list" where
  "demo_probe_events = [EvManual ''a/m'' True 1000 False, EvReadRevision 0 False False, EvFinish 0 demo_transport False 1500, EvPublish 0 False,
     EvRestart [], EvHydrate [(demo_cfg, False)]]"

definition demo_preflight :: catalog_preflight where
  "demo_preflight = \<lparr>cp_routes = [''web'' \<mapsto> demo_cfg], cp_catalog = Map.empty, cp_mode = RouteFreeOnly, cp_allow_paid_fallback = False,
     cp_evidence = Some (st_cache (probe_run demo_env demo_setup demo_probe_events))\<rparr>"

lemma demo_fetch: "pt_pricing demo_transport demo_cfg ''a/m'' = Inr \<lparr>po_model_id = ''a/m'', po_all_dimensions_zero = True, po_source_hash = demo_hash\<rparr>" by code_simp
lemma demo_bounded: "evidence_bounded plain_unicode (demo_evidence demo_hash)" by code_simp

lemma demo_env_fields [simp]:
  "fe_unicode (pe_free demo_env) = plain_unicode" "fe_sha (pe_free demo_env) = (\<lambda>_. demo_hash)" "pe_json demo_env = (\<lambda>_. Some JNull)"
  by (simp_all add: demo_env_def)

lemma demo_hash_nonempty: "demo_hash \<noteq> []" by (simp add: demo_hash_def)

lemma demo_json:
  "fe_json (pe_free demo_env) (demo_evidence []) = Some ''{}''" "fe_json (pe_free demo_env) (demo_evidence demo_hash) = Some ''{ }''"
  "fe_parse (pe_free demo_env) ''{ }'' = Some (demo_evidence demo_hash)"
  using demo_hash_nonempty by (simp_all add: demo_env_def demo_evidence_def)

lemma demo_serde: "\<forall>e json. fe_json (pe_free demo_env) e = Some json \<longrightarrow> fe_parse (pe_free demo_env) json = Some e"
  by (simp add: demo_env_def)

lemma demo_evidence_valid: "evidence_valid (pe_free demo_env) (demo_evidence demo_hash)"
proof -
  have "(demo_evidence demo_hash)\<lparr>ev_content_hash := []\<rparr> = demo_evidence []" by (simp add: demo_evidence_def)
  then have "evidence_content_hash (pe_free demo_env) (demo_evidence demo_hash) = Some demo_hash" by (simp add: evidence_content_hash_def demo_json)
  moreover have "evidence_consistent (demo_evidence demo_hash)" "ev_content_hash (demo_evidence demo_hash) = demo_hash"
    by (simp_all add: evidence_consistent_def demo_evidence_def)
  ultimately show ?thesis using demo_bounded by (simp add: evidence_valid_def)
qed

lemma demo_seal: "evidence_seal (pe_free demo_env) (demo_evidence []) = Some (demo_evidence demo_hash)"
proof -
  have "(demo_evidence [])\<lparr>ev_content_hash := h\<rparr> = demo_evidence h" for h by (simp add: demo_evidence_def)
  then show ?thesis using demo_evidence_valid by (simp add: evidence_seal_def evidence_content_hash_def demo_json)
qed

lemma demo_build:
  "build_evidence (pe_free demo_env) demo_profile ''a/m'' 1 1000 ObsVerifiedFreeLimited AllowRecurring (AllowProvOpenRouterPricing demo_hash) 1 9000 None None
     = Some (demo_evidence demo_hash)"
proof -
  have "\<not> ends_with ''a/m'' '':free''" "sat_add (max 1000 1) FREE_ACCESS_PROBE_TTL_MS = 86401000" by code_simp+
  then show ?thesis unfolding build_evidence_def Let_def
    using demo_seal by (simp add: demo_evidence_def demo_profile_def FREE_ACCESS_EVIDENCE_SCHEMA_VERSION_def)
qed

lemma demo_completion: "probe_completion demo_env demo_transport demo_cfg ''a/m'' = None" by code_simp

lemma demo_binding: "has_stable_credential_binding demo_profile" by code_simp

lemma demo_trim: "str_trim plain_unicode ''a/m'' = ''a/m''" by code_simp

lemma demo_collect: "collect_probe_evidence demo_env demo_transport demo_cfg demo_profile ''a/m'' 1 1000 = Inr (demo_evidence demo_hash)"
proof -
  have "pt_cancel_pricing demo_transport = False" by (simp add: demo_transport_def gateway_probe_transport_def)
  moreover have "rcfg_profile_id demo_cfg = Some PidOpenRouter" "pp_provider_id demo_profile = ''openrouter''"
    by (simp_all add: demo_cfg_def demo_profile_def)
  ultimately show ?thesis
    by (simp add: collect_probe_evidence_def Let_def demo_fetch demo_completion demo_binding demo_trim demo_build drift_def)
qed

definition demo_job :: probe_job where
  "demo_job = \<lparr>pj_route = demo_cfg, pj_profile = demo_profile, pj_model = ''a/m'', pj_now = 1000, pj_manual = True\<rparr>"

definition demo_state :: "(probe_job \<times> probe_transport) list \<Rightarrow> evidence_row list \<Rightarrow> probe_task list \<Rightarrow> probe_state" where
  "demo_state hist rows tasks = (probe_start_state rows hist True)\<lparr>st_tasks := tasks, st_started := [(demo_hash, 1000)]\<rparr>"

lemmas demo_state_fields = demo_state_def probe_start_state_def probe_step_def

lemma demo_step1: "probe_step demo_env demo_setup (EvManual ''a/m'' True 1000 False) (probe_start_state [] [] True) = demo_state [] [] [TaskReserved demo_job]"
  by (simp add: demo_state_fields manual_start_def demo_trim demo_setup_def demo_profile_ok demo_binding reserve_job_def
      credential_probe_cooldown_active_def latest_observed_at_def guard_reserve_def bt_get_def MAX_TRACKED_PROBE_SCOPES_def add_task_def
      profile_scope_key_def demo_job_def)
    (simp add: demo_cfg_def)

lemma demo_step2: "probe_step demo_env demo_setup (EvReadRevision 0 False False) (demo_state [] [] [TaskReserved demo_job]) = demo_state [] [] [TaskProbing demo_job 1]"
  by (simp add: demo_state_fields read_revision_def next_revision_def evidence_get_Nil set_task_def)

lemma demo_step3:
  "probe_step demo_env demo_setup (EvFinish 0 demo_transport False 1500) (demo_state [] [] [TaskProbing demo_job 1])
     = demo_state [(demo_job, demo_transport)] [] [TaskPublish True (demo_evidence demo_hash)]"
  by (simp add: demo_state_fields finish_probe_def Let_def probe_outcome_def demo_job_def demo_collect set_task_def)

definition demo_evidence_row :: evidence_row where
  "demo_evidence_row = \<lparr>er_provider_id = ''openrouter'', er_model_id = ''a/m'', er_credential_binding = ''credential:01234567-89ab-4cde-8fab-0123456789ab'',
     er_region = ''global'', er_revision = 1, er_content_hash = demo_hash, er_evidence_json = ''{ }'', er_observed_at_ms = 1000,
     er_expires_at_ms = 86401000, er_invalidation = None\<rparr>"

lemma demo_to_row: "evidence_to_row (pe_free demo_env) (demo_evidence demo_hash) = Some demo_evidence_row"
  using demo_evidence_valid by (simp add: evidence_to_row_Some demo_json demo_evidence_row_def) (simp add: demo_evidence_def i64_max_def)

lemma demo_record: "validate_record plain_unicode (\<lambda>_. Some JNull) demo_evidence_row"
proof -
  have "store_valid_token plain_unicode ''openrouter'' MAX_SCOPE_TOKEN_BYTES" "store_valid_token plain_unicode ''a/m'' MAX_SCOPE_TOKEN_BYTES"
    "store_valid_token plain_unicode ''global'' MAX_REGION_BYTES"
    "store_valid_binding plain_unicode ''credential:01234567-89ab-4cde-8fab-0123456789ab''" by code_simp+
  then show ?thesis using demo_hash_valid by (simp add: validate_record_def demo_evidence_row_def MAX_EVIDENCE_JSON_BYTES_def)
qed

lemma demo_step4:
  "probe_step demo_env demo_setup (EvPublish 0 False) (demo_state hist [] [TaskPublish True (demo_evidence demo_hash)])
     = demo_state hist [demo_evidence_row] [TaskInsert True (demo_evidence demo_hash)]"
proof -
  have "er_revision demo_evidence_row = 1" by (simp add: demo_evidence_row_def)
  then show ?thesis using demo_evidence_valid
    by (simp add: demo_state_fields publish_evidence_def demo_to_row evidence_put_def demo_record evidence_get_Nil upsert_row_def
        MAX_EVIDENCE_ROWS_def set_task_def)
qed

lemma demo_step5: "probe_step demo_env demo_setup (EvRestart []) (demo_state hist rows tasks) = probe_start_state rows hist True"
  by (simp add: demo_state_fields restart_process_def)

lemma demo_key: "profile_evidence_key demo_profile ''a/m'' = evidence_key (demo_evidence demo_hash)" "matches_profile (demo_evidence demo_hash) demo_profile"
  by (simp_all add: profile_evidence_key_def evidence_key_def demo_profile_def demo_evidence_def matches_profile_def)

lemma demo_step6:
  "probe_step demo_env demo_setup (EvHydrate [(demo_cfg, False)]) (probe_start_state [demo_evidence_row] hist True)
     = (probe_start_state [demo_evidence_row] hist True)\<lparr>st_cache := [profile_evidence_key demo_profile ''a/m'' \<mapsto> demo_evidence demo_hash]\<rparr>"
proof -
  have get: "evidence_get [demo_evidence_row] (pp_provider_id demo_profile, ''a/m'', pp_credential_binding demo_profile, pp_region demo_profile)
      = Some demo_evidence_row" by (simp add: evidence_get_simps row_key_def demo_evidence_row_def demo_profile_def)
  have "fe_parse (pe_free demo_env) (er_evidence_json demo_evidence_row) = Some (demo_evidence demo_hash)" by (simp add: demo_evidence_row_def demo_json)
  then have "evidence_from_row (pe_free demo_env) demo_evidence_row = Some (demo_evidence demo_hash)" by (rule evidence_row_parsed [OF demo_to_row])
  moreover have "rcfg_model demo_cfg = ''a/m''" by (simp add: demo_cfg_def)
  ultimately show ?thesis using get
    by (simp add: demo_state_fields hydrate_free_access_evidence_def hydrate_route_def Let_def demo_profile_ok demo_trim demo_key
        MAX_PROVIDER_CATALOG_RECOVERY_ROUTES_def)
qed

lemma demo_run:
  "probe_run demo_env demo_setup demo_probe_events = (probe_start_state [demo_evidence_row] [(demo_job, demo_transport)] True)
     \<lparr>st_cache := [profile_evidence_key demo_profile ''a/m'' \<mapsto> demo_evidence demo_hash]\<rparr>"
  by (simp add: probe_run_def demo_probe_events_def demo_step1 demo_step2 demo_step3 demo_step4 demo_step5 demo_step6 del: fun_upd_apply)

lemma demo_strict: "is_strictly_free_at (pe_free demo_env) (demo_evidence demo_hash) 2000"
  using demo_evidence_valid by (simp add: is_strictly_free_at_def) (simp add: freshness_at_def demo_evidence_def)

lemma demo_check: "pf_check (core_preflight (pe_free demo_env) demo_preflight) ''web'' None 2000 = None"
proof -
  have "route_configured plain_unicode demo_cfg" "rcfg_model demo_cfg = ''a/m''" by (simp_all add: route_configured_def demo_cfg_def)
  then show ?thesis using demo_strict
    by (simp add: core_preflight_def check_with_requirements_def demo_preflight_def demo_profile_ok demo_trim chosen_model_def Let_def
        free_access_check_def is_verified_free_route_def demo_run demo_key)
qed

theorem free_only_request_was_probed_witness:
  "pf_check (core_preflight (pe_free demo_env) demo_preflight) ''web'' None 2000 = None
   \<and> (\<exists>cfg p job tr. cp_routes demo_preflight ''web'' = Some cfg \<and> profile_from_route_config (pe_unicode demo_env) (fe_sha (pe_free demo_env)) cfg = Some p
    \<and> (job, tr) \<in> set (st_log (probe_run demo_env demo_setup demo_probe_events))
    \<and> probe_shows demo_env job tr (chosen_model (pe_unicode demo_env) None (str_trim (pe_unicode demo_env) (rcfg_model cfg)))
    \<and> pp_credential_binding (pj_profile job) = pp_credential_binding p \<and> pp_content_hash (pj_profile job) = pp_content_hash p
    \<and> unat (2000 :: u64) < max (unat (pj_now job)) 1 + 24 * 60 * 60 * 1000)"
proof (intro conjI)
  show "pf_check (core_preflight (pe_free demo_env) demo_preflight) ''web'' None 2000 = None" by (rule demo_check)
qed (rule free_only_request_was_probed [OF demo_serde _ _ demo_check], simp_all add: demo_preflight_def)

end
