(* ===== verification/Spec2Isabelle.thy ===== *)
theory Spec2Isabelle
  imports Context_Replan Tool_Loadout Scratchpad Artifact_Contract Permission_Run Supervisor_Runtime
    Ambient_Proposals Ambient_Status Voice_Command Audio_Segmenter Task_Graph Network_Guard Free_Coordinator
begin

text \<open>
  EvoHime: context budget, permissions, supervision, model routing, network guard, task graph and ambient listening.

  The repository is a Rust workspace of an assistant with a local core, a desktop client, tool and
  model gateways, storage, listeners and updaters. Eight parts are verified here.
  \<open>crates/context-budget\<close> decides what reaches a model: it estimates every candidate record of
  a request, keeps the mandatory minimum, prunes and reduces the rest until it fits the window of the
  model, and writes a ledger entry whose hash identifies the decision. When the mandatory minimum
  cannot fit, it refuses. \<open>crates/permissions\<close> decides what a tool may do: it resolves rules, grants,
  overrides and modes, and hands out approvals bound to one call. \<open>crates/evohime-supervisor\<close> keeps the core
  process alive: its state machines decide over starts, retries, leases and dead letters. \<open>crates/model-gateway\<close> decides which
  provider a request may reach, and in which order. The core probes which models are free of charge and keeps the evidence. The network guard of \<open>crates/tool-runtime\<close> decides which addresses a tool may
  reach. The task graph of \<open>crates/evohime-core\<close> decides which task of a plan may start and what a patch invalidates. The ambient listener
  (\<open>crates/evohime-listener-contract\<close>, \<open>crates/evohime-listener-audio\<close> and the ambient modules of
  \<open>crates/evohime-core\<close>) decides when the microphone may be read, cuts speech into segments, and decides whether a
  proposal may be shown and what a heard command may do.

  \<^bold>\<open>Theories and source files.\<close> Each theory names its file and follows its order.

  \<^item> \<open>Prelude\<close>: machine integers with the saturating operations of Rust, strings, shared list lemmas.
  \<^item> \<open>Context_Item\<close> (\<open>item.rs\<close>): kinds, categories, trust, privacy, drop reasons, the record of an item
    with priority and expiry, and its builder.
  \<^item> \<open>Context_Profile\<close> (\<open>profile.rs\<close>, \<open>profiles.json\<close>): limits and reserves of a model, their validation,
    the profile of an unknown model, the scaling for the fallback estimator, the profile of a
    re-plan, the catalogue.
  \<^item> \<open>Context_Budget\<close> (\<open>budget.rs\<close>): the split of a profile over categories, the minimum viable context,
    the missing part, the refusal.
  \<^item> \<open>Content_Hash\<close> (\<open>hash.rs\<close>): text normalisation, canonical JSON, the content hash.
  \<^item> \<open>Token_Estimator\<close> (\<open>estimator.rs\<close>): the two estimators, the cache of estimates, drift.
  \<^item> \<open>Context_Ladder\<close> (\<open>ladder.rs\<close>): the selection and the six reduction levels.
  \<^item> \<open>Context_Compression\<close> (\<open>compression.rs\<close>): the order of the context, conflicts, pruning, the
    bounded summarizer.
  \<^item> \<open>Context_Ledger\<close> (\<open>ledger.rs\<close>): ledger records and their hash.
  \<^item> \<open>Context_Metrics\<close> (\<open>metrics.rs\<close>): counters, samples, percentile, alerts.
  \<^item> \<open>Context_Planner\<close> (\<open>planner.rs\<close>): the assembly, which calls all of the above; \<open>Context_Replan\<close> holds
    what is proved about the re-plan and the accounting of a plan.
  \<^item> \<open>Tool_Loadout\<close> (\<open>loadout.rs\<close>): the intent router, the loadout of tools and the check of a call.
  \<^item> \<open>Scratchpad\<close> (\<open>scratchpad.rs\<close>): the notes of a task, their recovery, the envelope of external output.
  \<^item> \<open>Artifact_Contract\<close> (\<open>artifact.rs\<close>): references to stored artifacts, eviction, bounded summaries.
  \<^item> \<open>Unicode_Text\<close>: UTF-8 characters, splitting and trimming of the standard library.
  \<^item> \<open>Glob_Pattern\<close> (\<open>permissions/pattern.rs\<close>): the glob matcher as the loop it is, and what a glob means.
  \<^item> \<open>Permission_Scope\<close> (\<open>permissions/lib.rs\<close>): scopes, the fingerprint of an input, the call hash.
  \<^item> \<open>Permission_Data\<close> (\<open>permissions/lib.rs\<close>, \<open>policy.rs\<close>): records, previews, the identity of a call, policy rules.
  \<^item> \<open>Permission_Engine\<close> (\<open>permissions/lib.rs\<close>): the engine with every operation.
  \<^item> \<open>Permission_Run\<close>: the lock sections of the operations as a step relation, for every interleaving.
  \<^item> \<open>Schedule_Contract\<close> (\<open>evohime-supervisor/schedule_contract.rs\<close>): the record of a schedule.
  \<^item> \<open>Scheduler_State\<close> (\<open>evohime-supervisor/scheduler_state.rs\<close>): lifecycle, lease, heartbeat, retries.
  \<^item> \<open>Supervisor_Runtime\<close> (\<open>evohime-supervisor/runtime_loop.rs\<close>, \<open>pulse.rs\<close>): the runtime over both.
  \<^item> \<open>Listener_Contract\<close> (\<open>evohime-listener-contract\<close>: \<open>state.rs\<close>, \<open>error.rs\<close>, \<open>ids.rs\<close>, \<open>limits.rs\<close>): listening states,
    error codes, identifiers, capture limits.
  \<^item> \<open>Ambient_Policy\<close> (\<open>policy.rs\<close>, \<open>proactivity.rs\<close>): quiet hours, the policy, the proactivity budget.
  \<^item> \<open>Ambient_Log\<close> (\<open>log.rs\<close>): the typed events of the ambient log.
  \<^item> \<open>Ambient_Proactivity\<close> (\<open>evohime-core/ambient_proactivity.rs\<close>, the registry of \<open>ambient.rs\<close>): proposals, their keys, the
    counters and the decision to show one.
  \<^item> \<open>Ambient_Proposals\<close> (\<open>evohime-local-storage/ambient_store.rs\<close>, \<open>ambient_contract.rs\<close>, \<open>propose_from_ambient\<close> of
    \<open>evohime-core/core_agent_memory.rs\<close>): the tables of proposals and muted subjects, and the sections of concurrent calls over them and the registry.
  \<^item> \<open>Ambient_Status\<close> (\<open>evohime-core/ambient.rs\<close>): the policy file and the listening status.
  \<^item> \<open>App_Catalog\<close> (\<open>tool-runtime/app_catalog.rs\<close>): the catalogue of applications and the resolution of a name.
  \<^item> \<open>Voice_Command\<close> (\<open>evohime-core/voice_command.rs\<close>): heard commands and their cards.
  \<^item> \<open>Audio_Segmenter\<close> (\<open>evohime-listener-audio/lib.rs\<close>): ring buffer, segments of speech, device identifiers.
  \<^item> \<open>BTree_Map\<close>: the ordered map of the standard library; \<open>Task_Graph\<close> (\<open>evohime-core/dependency_aware_task_graph.rs\<close>):
    validation of a graph of tasks, the tasks that may start, patches and invalidation.
  \<^item> \<open>Ip_Address\<close>: the addresses of the standard library, their parser, networks; \<open>Network_Guard\<close> (\<open>tool-runtime/ssrf.rs\<close>,
    \<open>network_capability.rs\<close>, \<open>tools/http.rs\<close>, \<open>tools/mcp.rs\<close>): where outbound requests may go.
  \<^item> \<open>Model_Routing\<close> (\<open>model-gateway/routing_policy.rs\<close>, \<open>routing_runtime.rs\<close>): candidates, the selection of a route, the runtime of a
    routed run.
  \<^item> \<open>Route_Snapshot\<close> (\<open>model-gateway/provider_contract.rs\<close>, the loop of attempts in \<open>lib.rs\<close>): snapshot, health overlay, circuit breaker,
    selection with its cache, dispatch.
  \<^item> \<open>Model_Gateway\<close> (\<open>model-gateway/lib.rs\<close>, \<open>retry.rs\<close>): candidates of the configured routes, chat under the policy, images, delays.
  \<^item> \<open>Free_Access\<close> (\<open>evohime-core/free_provider_reliability_routing.rs\<close>, \<open>model-gateway/config.rs\<close>): provider profiles, catalogue snapshots,
    evidence of free access, the preflight that the core hands to the gateway.
  \<^item> \<open>Evidence_Store\<close> (\<open>evohime-local-storage/free_access_evidence_store.rs\<close>): the table of evidence with its revision fence.
  \<^item> \<open>Free_Probe\<close> (\<open>evohime-core/free_access_probe.rs\<close>, the pricing of \<open>model-gateway/lib.rs\<close>): prices, completions, one probe;
    \<open>Free_Coordinator\<close>: guard, coordinator, recovery and restart as events over one state.

  \<^bold>\<open>How the parts interact.\<close> \<open>plan_with\<close> selects an estimator and a profile, refuses on an invalid
  profile, estimates the inputs through the cache, collects the mandatory minimum and refuses when it
  does not fit, prunes the optional items, runs the ladder above the soft limit (which calls the
  offload store and the summarizer), orders the result, checks the hard limit a last time and writes
  the ledger. Planner, cache, store and summarizer are states passed through and returned. \<open>gateway_chat\<close> freezes the candidates of
  the gateway in a snapshot, selects through the cache of decisions on a fresh overlay and dispatches along the decision; a request
  without class, size and offline flag goes through \<open>runtime_plan\<close> instead. \<open>core_preflight\<close> is the preflight that the gateway asks; it reads the
  evidence that the probes published through the table, whose rows outlive the process.

  \<^bold>\<open>Interfaces.\<close> \<open>op_invariant\<close> states what a component's operations keep, with the run of any sequence of
  operations; it is interpreted on the schedule record (valid, cancelled), on the runtime (stuck), on the voice registry (bounded
  queue) and on a routed run (within its limits, ended). \<open>entry_window\<close> states the contract of a counter that starts again when its window has run out, with the most that
  any stretch of time can hold; it is interpreted on the hour and on the day of the proactivity counters. \<open>ordered_map\<close> states what
  clients need of a \<open>BTreeMap\<close> and is interpreted on sorted association lists. \<open>lru_map\<close> states what the cache needs of an LRU map (the crate \<open>lru\<close> is not part of
  the repository), \<open>bounded_lru\<close> extends it by the capacity, and both are interpreted on a list implementation; \<open>memo_cache\<close> does the same for the cache of routing decisions, with the
  transparency of the cache and the policy of the gateway proved from its laws. \<open>fenced_table\<close> states what a table with a revision fence promises, with the
  count of revisions proved from it, and is interpreted on the table of evidence. \<open>summarizer_sources\<close> states what the
  ladder needs of a summarizer (its sources are among the given items) and is interpreted both on the
  summarizer that is absent and on the bounded summarizer, for every model behind it. Unicode
  classification, NFC, JSON parsing and printing, and SHA-256 are fields of environment records.

  \<^bold>\<open>What is shown.\<close> A ready plan fits the hard limit, except that of \<open>u32::MAX\<close>, and holds every mandatory item in the fixed order;
  it accounts for every input, and every ledger entry, its totals included, agrees with its plan; a re-plan happens at most
  once. The ladder is a bounded run in the fixed order of levels, it
  never touches a mandatory item or a protected reserve, never increases the total, offloads
  only what privacy allows, and gives up only when nothing is left to reduce. Pruning keeps one valid
  copy of each content and accounts for every item. The bounded summarizer stays within its bounds
  whatever the model returns. The cache is transparent and bounded. Normalisation agrees with its line by line
  specification, hashes determine what they cover. Valid profiles have room for their reserves and stay
  valid under a re-plan; the windows for which a derived profile is invalid are characterised exactly. The
  router allows mutation only as its rules say, and a tool call passes only if policy, intent and reserve
  admit the tool. External output cannot close its own envelope, notes are trusted only while confirmed,
  and recovered notes stay on the lowest level.

  The glob matcher ends, accepts only matches, and every match of a value without a star. A call hash binds
  tool, scope and fingerprint. A permission is allowed only by the source of authority the order of the checks
  names, never against a denying rule. An approval is claimed at most once, for a matching call, after it was
  granted, in every interleaving. The microphone stays denied unless it is named. Scopes survive a restart, and
  only a wall clock that was set back extends them.

  Every run of operations keeps a schedule valid, and its retries are bounded. A generation in order is served
  without an error and leads to the next start; the ways in which the runtime gets stuck for good are shown too.

  The microphone is read again after a denial only through the full start, and a policy that cannot be read never
  listens. A quiet window is an arc of the clock. The log carries identifiers and names only. Proposals keep their
  interval and a ceiling for every hour and day, a muted subject gets no card in any interleaving of the calls, keys are always valid identifiers. A heard
  phrase leads to a card only as the policy allows, resolution does not guess, a card is decided once. Segments and
  the memory of the segmenter are bounded.

  The loop that validates a task graph decides whether it is acyclic; a graph in order always has a task to start; a
  patch keeps what is completed and invalidates exactly what depends on a changed task.

  The addresses that outbound requests may not reach are a list of networks; a fetch returns only what came from an
  address outside of them, by a URL that passed the guard before and after; the policy of domains allows only what it lists.

  A selection takes the least eligible route, whatever the order of the candidates. A routed run keeps to its limits and the fields of its telemetry
  hold no marker of a secret. A dispatch makes at most three attempts, only at routes within the policy of the request, and stops early only when
  all eligible routes were tried; the cache of decisions changes no result. Through the whole gateway an offline request reaches the local provider
  only, a free-only gateway verified free routes only. Images are requested only within the declared and the fixed bounds.

  Free of charge means shown to be so: in the free-only mode a request passes only after a probe of that model, with the credential and
  profile of the route and less than a day old, that saw zero prices and a completion, through every interleaving, restart and recovery. Automatic
  probes run only with consent and one at a time. Prices are compared exactly. The revision of stored evidence counts its publications. Catalogue
  snapshots do not depend on the order of the provider.

  \<^bold>\<open>Bounds.\<close> Token counts are 32 bit words and byte counts 64 bit words, with saturating addition as
  in the code; statements about totals are made over the natural numbers, so that saturation is part of
  what is proved. Times are 64 bit signed integers with the saturating operations the code uses. All
  loops of the context budget run over finite lists, so no fuel is needed; the loop of the glob matcher is a
  partial function with a proof that it returns. Monotonic time is a natural number of nanoseconds: the addition
  to an instant, which panics beyond the range of the platform, is taken as exact.

  \<^bold>\<open>Not modelled.\<close> Serialisation derives, floating point quotients (kept as pairs of integers, with
  comparisons written over integers; the evaluation catalogue of the routing, which compares scores, is an argument), accessors that only return a field, logging, and the other
  crates: operating system, network and database code, the desktop client and the installers.
\<close>

end
